(* ===== verification/Prelude.thy ===== *)
theory Prelude
  imports Main "HOL-Library.Word"
begin

text \<open>
  Shared vocabulary of the development: Python exceptions as a sum type, the string, bytes and
  dictionary operations of the Python standard library that the modelled code uses, and the
  generic lemmas about them.

  A Python \<open>str\<close> is a \<^typ>\<open>string\<close> that holds its UTF-8 encoding, one
  \<^typ>\<open>char\<close> per byte. Every string operation of the modelled code (search for,
  split at and compare with ASCII characters, concatenation, prefix and suffix tests, slicing at
  an ASCII separator) gives the same result on the encoding as on the code points, because in
  UTF-8 an ASCII byte never occurs inside another character. \<open>s.encode("utf-8")\<close> is
  then a change of type and \<open>b.decode("utf-8")\<close> a validity check.
  A Python \<open>bytes\<close> is a list of 8-bit words, a Python \<open>int\<close> an
  \<^typ>\<open>int\<close>, a Python \<open>dict\<close> an association list with distinct keys in
  insertion order (a partial function where the order is never observed).
\<close>

section \<open>Exceptions\<close>

text \<open>The exception classes the modelled code raises or lets through.\<close>

datatype exn =
    ValueError string
  | UnicodeDecodeError
  | IndexError
  | KeyError
  | TypeErr
  | AttributeErr
  | RuntimeError string
  | StructError
  | OverflowErr
  | ExternalError
  | OutOfFuel

type_synonym 'a result = "exn + 'a"

definition bindE :: "'a result \<Rightarrow> ('a \<Rightarrow> 'b result) \<Rightarrow> 'b result" where
  "bindE m f = (case m of Inl e \<Rightarrow> Inl e | Inr x \<Rightarrow> f x)"

lemma bindE_simps [simp]:
  "bindE (Inl e) f = Inl e" "bindE (Inr x) f = f x"
  by (simp_all add: bindE_def)

lemma bindE_eq_Inr_iff: "bindE m f = Inr y \<longleftrightarrow> (\<exists>x. m = Inr x \<and> f x = Inr y)"
  by (cases m) auto

lemma bindE_eq_Inl_iff:
  "bindE m f = Inl e \<longleftrightarrow> m = Inl e \<or> (\<exists>x. m = Inr x \<and> f x = Inl e)"
  by (cases m) auto

lemma bindE_cong [fundef_cong]:
  "m = m' \<Longrightarrow> (\<And>x. m' = Inr x \<Longrightarrow> f x = g x) \<Longrightarrow> bindE m f = bindE m' g"
  by (cases m') auto

named_theorems result_iffs \<open>inversion of results of the exception monad\<close>

declare bindE_eq_Inr_iff [result_iffs] bindE_eq_Inl_iff [result_iffs]

section \<open>Bytes and strings\<close>

type_synonym byte = "8 word"
type_synonym bytes = "byte list"

definition byte_of_char :: "char \<Rightarrow> byte" where
  "byte_of_char c = word_of_nat (of_char c)"

definition char_of_byte :: "byte \<Rightarrow> char" where
  "char_of_byte b = char_of (unat b)"

lemma char_of_byte_of_char [simp]: "char_of_byte (byte_of_char c) = c"
proof -
  have "(of_char c :: nat) < 256" by simp
  then show ?thesis
    by (simp add: char_of_byte_def byte_of_char_def unat_of_nat)
qed

lemma byte_of_char_of_byte [simp]: "byte_of_char (char_of_byte b) = b"
proof -
  have "unat b < 256" using unsigned_less [of b, where ?'a = nat] by simp
  then show ?thesis
    by (simp add: char_of_byte_def byte_of_char_def)
qed

lemma byte_of_char_inject [simp]: "byte_of_char c = byte_of_char d \<longleftrightarrow> c = d"
  by (metis char_of_byte_of_char)

text \<open>\<open>s.encode("utf-8")\<close>: the representation of a string is its encoding.\<close>

definition utf8_encode :: "string \<Rightarrow> bytes" where
  "utf8_encode s = map byte_of_char s"

text \<open>
  \<open>b.decode("utf-8")\<close> accepts the well-formed sequences of the Unicode standard
  (no overlong form, no surrogate, nothing above \<open>U+10FFFF\<close>).
\<close>

definition utf8_cont :: "byte \<Rightarrow> bool" where
  "utf8_cont b \<longleftrightarrow> 128 \<le> unat b \<and> unat b < 192"

fun utf8_valid :: "bytes \<Rightarrow> bool" where
  "utf8_valid [] = True"
| "utf8_valid (a # xs) =
     (if unat a < 128 then utf8_valid xs
      else if 194 \<le> unat a \<and> unat a < 224 then
        (case xs of b # ys \<Rightarrow> utf8_cont b \<and> utf8_valid ys | _ \<Rightarrow> False)
      else if 224 \<le> unat a \<and> unat a < 240 then
        (case xs of b # c # ys \<Rightarrow>
             utf8_cont b \<and> utf8_cont c \<and> (unat a = 224 \<longrightarrow> 160 \<le> unat b) \<and>
             (unat a = 237 \<longrightarrow> unat b < 160) \<and> utf8_valid ys
         | _ \<Rightarrow> False)
      else if 240 \<le> unat a \<and> unat a < 245 then
        (case xs of b # c # d # ys \<Rightarrow>
             utf8_cont b \<and> utf8_cont c \<and> utf8_cont d \<and> (unat a = 240 \<longrightarrow> 144 \<le> unat b) \<and>
             (unat a = 244 \<longrightarrow> unat b < 144) \<and> utf8_valid ys
         | _ \<Rightarrow> False)
      else False)"

definition utf8_decode :: "bytes \<Rightarrow> string result" where
  "utf8_decode bs = (if utf8_valid bs then Inr (map char_of_byte bs) else Inl UnicodeDecodeError)"

definition str_valid :: "string \<Rightarrow> bool" where
  "str_valid s \<longleftrightarrow> utf8_valid (utf8_encode s)"

lemma length_utf8_encode [simp]: "length (utf8_encode s) = length s"
  by (simp add: utf8_encode_def)

lemma utf8_encode_append: "utf8_encode (s @ t) = utf8_encode s @ utf8_encode t"
  by (simp add: utf8_encode_def)

lemma map_char_of_byte_of_char [simp]: "map char_of_byte (utf8_encode s) = s"
  by (induction s) (simp_all add: utf8_encode_def)

lemma utf8_decode_encode: "str_valid s \<Longrightarrow> utf8_decode (utf8_encode s) = Inr s"
  by (simp add: utf8_decode_def str_valid_def)

lemma utf8_decode_Inr: "utf8_decode bs = Inr s \<Longrightarrow> utf8_encode s = bs \<and> str_valid s"
  by (auto simp: utf8_decode_def str_valid_def utf8_encode_def comp_def split: if_splits)

definition ascii :: "string \<Rightarrow> bool" where
  "ascii s \<longleftrightarrow> (\<forall>c\<in>set s. of_char c < (128::nat))"

lemma ascii_valid: "ascii s \<Longrightarrow> str_valid s"
proof (induction s)
  case Nil
  show ?case by (simp add: str_valid_def utf8_encode_def)
next
  case (Cons c s)
  then have "of_char c < (128::nat)" by (simp add: ascii_def)
  then have "unat (byte_of_char c) < 128" by (simp add: byte_of_char_def unat_of_nat)
  with Cons show ?case by (simp add: str_valid_def utf8_encode_def ascii_def)
qed

section \<open>Integers as bytes\<close>

text \<open>\<open>value & 0xFF\<close> of a Python integer, as a byte.\<close>

definition to_byte :: "int \<Rightarrow> byte" where
  "to_byte v = word_of_int v"

definition byte_val :: "byte \<Rightarrow> int" where
  "byte_val b = uint b"

lemma byte_val_range [simp]: "0 \<le> byte_val b" "byte_val b < 256"
  using uint_lt2p [of b] by (simp_all add: byte_val_def)

lemma byte_val_to_byte [simp]: "byte_val (to_byte v) = v mod 256"
  by (simp add: byte_val_def to_byte_def uint_word_of_int)

lemma to_byte_byte_val [simp]: "to_byte (byte_val b) = b"
  by (simp add: byte_val_def to_byte_def)

lemma byte_val_inject [simp]: "byte_val a = byte_val b \<longleftrightarrow> a = b"
  by (simp add: byte_val_def word_uint_eq_iff)

text \<open>
  Big-endian and little-endian integers of a given width: \<open>(value >> (8*i)) & 0xFF\<close> for each
  byte, and the sum of the shifted bytes back.
\<close>

fun be_bytes :: "nat \<Rightarrow> int \<Rightarrow> bytes" where
  "be_bytes 0 v = []"
| "be_bytes (Suc n) v = to_byte (v div 256 ^ n) # be_bytes n v"

fun be_val :: "bytes \<Rightarrow> int" where
  "be_val [] = 0"
| "be_val (b # bs) = byte_val b * 256 ^ length bs + be_val bs"

fun le_bytes :: "nat \<Rightarrow> int \<Rightarrow> bytes" where
  "le_bytes 0 v = []"
| "le_bytes (Suc n) v = to_byte v # le_bytes n (v div 256)"

fun le_val :: "bytes \<Rightarrow> int" where
  "le_val [] = 0"
| "le_val (b # bs) = byte_val b + 256 * le_val bs"

lemma length_be_bytes [simp]: "length (be_bytes n v) = n"
  by (induction n) auto

lemma length_le_bytes [simp]: "length (le_bytes n v) = n"
  by (induction n arbitrary: v) auto

lemma mod_mult_digit:
  "(v::int) mod (b * m) = b * (v div b mod m) + v mod b" if "0 \<le> m"
  using that by (simp add: zmod_zmult2_eq)

lemma be_val_be_bytes: "be_val (be_bytes n v) = v mod 256 ^ n"
proof (induction n)
  case 0
  show ?case by simp
next
  case (Suc n)
  have "v mod (256 ^ n * 256) = 256 ^ n * (v div 256 ^ n mod 256) + v mod 256 ^ n"
    by (rule mod_mult_digit) simp
  with Suc show ?case by (simp add: mult.commute)
qed

lemma le_val_le_bytes: "le_val (le_bytes n v) = v mod 256 ^ n"
proof (induction n arbitrary: v)
  case 0
  show ?case by simp
next
  case (Suc n)
  have "v mod (256 * 256 ^ n) = 256 * (v div 256 mod 256 ^ n) + v mod 256"
    by (rule mod_mult_digit) simp
  with Suc show ?case by simp
qed

lemma be_val_range: "0 \<le> be_val bs \<and> be_val bs < 256 ^ length bs"
proof (induction bs)
  case Nil
  show ?case by simp
next
  case (Cons b bs)
  have "byte_val b * 256 ^ length bs \<le> 255 * 256 ^ length bs"
    by (rule mult_right_mono) (use byte_val_range(2) [of b] in linarith, simp)
  with Cons show ?case by (simp, linarith)
qed

lemma be_val_inject: "length bs = length cs \<Longrightarrow> be_val bs = be_val cs \<Longrightarrow> bs = cs"
proof (induction bs cs rule: list_induct2)
  case (Cons b bs c cs)
  let ?m = "256 ^ length bs :: int"
  have "(byte_val b * ?m + be_val bs) div ?m = byte_val b" "(byte_val c * ?m + be_val cs) div ?m = byte_val c"
    using be_val_range [of bs] be_val_range [of cs] Cons.hyps by simp_all
  with Cons show ?case by simp
qed simp

lemma le_val_range: "0 \<le> le_val bs \<and> le_val bs < 256 ^ length bs"
proof (induction bs)
  case Nil
  show ?case by simp
next
  case (Cons b bs)
  show ?case using Cons byte_val_range [of b] by (simp, linarith)
qed

section \<open>Python string operations\<close>

text \<open>\<open>s.find(c)\<close>: the index of the first occurrence, or -1.\<close>

fun py_find :: "char \<Rightarrow> string \<Rightarrow> int" where
  "py_find c [] = -1"
| "py_find c (x # xs) = (if x = c then 0 else (let i = py_find c xs in if i < 0 then -1 else i + 1))"

text \<open>\<open>s.split(c)\<close> for a one-character separator: never empty.\<close>

fun py_split :: "char \<Rightarrow> string \<Rightarrow> string list" where
  "py_split c [] = [[]]"
| "py_split c (x # xs) =
     (if x = c then [] # py_split c xs
      else (case py_split c xs of [] \<Rightarrow> [[x]] | p # ps \<Rightarrow> (x # p) # ps))"

definition py_endswith :: "string \<Rightarrow> string \<Rightarrow> bool" where
  "py_endswith s t \<longleftrightarrow> length t \<le> length s \<and> drop (length s - length t) s = t"

definition py_startswith :: "string \<Rightarrow> string \<Rightarrow> bool" where
  "py_startswith s t \<longleftrightarrow> take (length t) s = t"

lemma py_endswith_append [simp]: "py_endswith (s @ t) t"
  by (simp add: py_endswith_def)

lemma py_endswith_iff: "py_endswith s t \<longleftrightarrow> (\<exists>r. s = r @ t)"
  unfolding py_endswith_def by (metis append_take_drop_id append_eq_conv_conj length_append
      diff_add_inverse2 le_add2)

lemma py_find_neg: "py_find c s < 0 \<longleftrightarrow> c \<notin> set s"
  by (induction s) (auto simp: Let_def)

lemma py_find_ge: "- 1 \<le> py_find c s"
  by (induction s) (auto simp: Let_def)

lemma py_find_append: "c \<notin> set u \<Longrightarrow> py_find c (u @ c # r) = int (length u)"
  by (induction u) (auto simp: Let_def)

lemma py_find_split:
  assumes "c \<in> set s"
  shows "\<exists>u r. s = u @ c # r \<and> c \<notin> set u \<and> py_find c s = int (length u)"
  using split_list_first [OF assms] py_find_append by blast

lemma py_split_not_Nil [simp]: "py_split c s \<noteq> []"
  by (induction s) (auto split: list.splits)

lemma py_split_no_sep: "c \<notin> set s \<Longrightarrow> py_split c s = [s]"
  by (induction s) auto

lemma py_split_append: "c \<notin> set u \<Longrightarrow> py_split c (u @ c # r) = u # py_split c r"
  by (induction u) auto

lemma py_split_parts: "p \<in> set (py_split c s) \<Longrightarrow> set p \<subseteq> set s \<and> c \<notin> set p"
  by (induction s arbitrary: p) (fastforce split: list.splits if_splits)+

lemma py_split_length: "p \<in> set (py_split c s) \<Longrightarrow> length p \<le> length s"
  by (induction s arbitrary: p) (fastforce split: list.splits if_splits)+

section \<open>Unique decomposition of names\<close>

lemma split_first_unique:
  "w @ c # x = w' @ c # x' \<Longrightarrow> c \<notin> set w \<Longrightarrow> c \<notin> set w' \<Longrightarrow> w = w' \<and> x = x'"
proof (induction w arbitrary: w')
  case Nil
  then show ?case by (cases w') auto
next
  case (Cons a w)
  then show ?case by (cases w') auto
qed

lemma split_last_unique:
  assumes "w @ c # x = w' @ c # x'" and "c \<notin> set x" and "c \<notin> set x'"
  shows "w = w' \<and> x = x'"
proof -
  have "rev x @ c # rev w = rev x' @ c # rev w'"
    using arg_cong [OF assms(1), of rev] by simp
  from split_first_unique [OF this] assms(2,3) have "rev x = rev x'" "rev w = rev w'" by simp_all
  then show ?thesis by simp
qed

section \<open>Decimal numbers\<close>

definition digit_char :: "nat \<Rightarrow> char" where
  "digit_char d = char_of (48 + d)"

definition is_digit :: "char \<Rightarrow> bool" where
  "is_digit c \<longleftrightarrow> 48 \<le> (of_char c :: nat) \<and> (of_char c :: nat) \<le> 57"

definition digit_val :: "char \<Rightarrow> int" where
  "digit_val c = of_char c - 48"

text \<open>\<open>str(n)\<close>\<close>

fun nat_str :: "nat \<Rightarrow> string" where
  "nat_str n = (if n < 10 then [digit_char n] else nat_str (n div 10) @ [digit_char (n mod 10)])"

declare nat_str.simps [simp del]

definition int_str :: "int \<Rightarrow> string" where
  "int_str i = (if i < 0 then CHR ''-'' # nat_str (nat (- i)) else nat_str (nat i))"

text \<open>
  \<open>int(s)\<close>: surrounding white space, an optional sign, then decimal digits with single
  underscores between them. (Non-ASCII digits and white space are not accepted here.)
\<close>

definition is_space :: "char \<Rightarrow> bool" where
  "is_space c \<longleftrightarrow> (let n = (of_char c :: nat) in n = 32 \<or> (9 \<le> n \<and> n \<le> 13) \<or> (28 \<le> n \<and> n \<le> 31))"

definition py_strip :: "string \<Rightarrow> string" where
  "py_strip s = rev (dropWhile is_space (rev (dropWhile is_space s)))"

fun digits_val :: "int \<Rightarrow> string \<Rightarrow> int result" where
  "digits_val acc [] = Inr acc"
| "digits_val acc (c # cs) =
     (if is_digit c then digits_val (10 * acc + digit_val c) cs
      else if c = CHR ''_'' then
        (case cs of d # ds \<Rightarrow> (if is_digit d then digits_val (10 * acc + digit_val d) ds
                              else Inl (ValueError ''int''))
         | [] \<Rightarrow> Inl (ValueError ''int''))
      else Inl (ValueError ''int''))"

definition unsigned_val :: "string \<Rightarrow> int result" where
  "unsigned_val s = (case s of c # cs \<Rightarrow> (if is_digit c then digits_val (digit_val c) cs
                                         else Inl (ValueError ''int''))
                     | [] \<Rightarrow> Inl (ValueError ''int''))"

definition py_int :: "string \<Rightarrow> int result" where
  "py_int s = (case py_strip s of
       [] \<Rightarrow> Inl (ValueError ''int'')
     | c # cs \<Rightarrow> if c = CHR ''-'' then bindE (unsigned_val cs) (\<lambda>v. Inr (- v))
                else if c = CHR ''+'' then unsigned_val cs
                else unsigned_val (c # cs))"

lemma of_char_digit_char: "d < 10 \<Longrightarrow> (of_char (digit_char d) :: nat) = 48 + d"
  by (simp add: digit_char_def)

lemma digit_char_simps [simp]:
  assumes "d < 10"
  shows "is_digit (digit_char d)" "digit_val (digit_char d) = int d" "\<not> is_space (digit_char d)"
proof -
  have n: "(of_char (digit_char d) :: nat) = 48 + d" using assms by (rule of_char_digit_char)
  then have i: "(of_char (digit_char d) :: int) = 48 + int d"
    by (metis of_nat_of_char of_nat_add of_nat_numeral)
  show "is_digit (digit_char d)" "\<not> is_space (digit_char d)"
    using assms by (simp_all add: is_digit_def is_space_def n)
  show "digit_val (digit_char d) = int d"
    by (simp add: digit_val_def i)
qed

lemma digits_val_append:
  "digits_val acc s = Inr v \<Longrightarrow> is_digit e \<Longrightarrow>
   digits_val acc (s @ [e]) = Inr (10 * v + digit_val e)"
proof (induction acc s rule: digits_val.induct)
  case (1 acc)
  then show ?case by simp
next
  case (2 acc c cs)
  show ?case
  proof (cases "is_digit c")
    case True
    with 2 show ?thesis by simp
  next
    case False
    with "2.prems" obtain d ds where c: "c = CHR ''_''" "cs = d # ds" "is_digit d"
      by (cases cs) (simp_all split: if_splits)
    with False "2.prems" "2.IH"(2) show ?thesis by simp
  qed
qed

lemma nat_str_digits: "c \<in> set (nat_str n) \<Longrightarrow> is_digit c"
proof (induction n rule: nat_str.induct)
  case (1 n)
  show ?case
  proof (cases "n < 10")
    case True
    with "1.prems" show ?thesis by (simp add: nat_str.simps [of n])
  next
    case False
    with "1.prems" have "c \<in> set (nat_str (n div 10)) \<or> c = digit_char (n mod 10)"
      by (auto simp: nat_str.simps [of n])
    with "1.IH" False show ?thesis by auto
  qed
qed

lemma nat_str_not_Nil [simp]: "nat_str n \<noteq> []"
  by (subst nat_str.simps) simp

lemma unsigned_val_nat_str: "unsigned_val (nat_str n) = Inr (int n)"
proof (induction n rule: nat_str.induct)
  case (1 n)
  show ?case
  proof (cases "n < 10")
    case True
    then show ?thesis by (simp add: nat_str.simps [of n] unsigned_val_def)
  next
    case False
    obtain c cs where s: "nat_str (n div 10) = c # cs" by (cases "nat_str (n div 10)") auto
    then have c: "is_digit c" using nat_str_digits [of c "n div 10"] by simp
    with s "1.IH" False have "digits_val (digit_val c) cs = Inr (int (n div 10))"
      by (simp add: unsigned_val_def)
    then have "digits_val (digit_val c) (cs @ [digit_char (n mod 10)])
               = Inr (10 * int (n div 10) + int (n mod 10))"
      using digits_val_append [of _ cs _ "digit_char (n mod 10)"] by simp
    moreover have "10 * int (n div 10) + int (n mod 10) = int n" by presburger
    ultimately show ?thesis
      using False s c by (simp add: nat_str.simps [of n] unsigned_val_def)
  qed
qed

lemma is_digit_not [simp]:
  "is_digit c \<Longrightarrow> c \<noteq> CHR ''-''" "is_digit c \<Longrightarrow> c \<noteq> CHR ''+''"
  "is_digit c \<Longrightarrow> c \<noteq> CHR ''@''" "is_digit c \<Longrightarrow> c \<noteq> CHR '':''"
  "is_digit c \<Longrightarrow> c \<noteq> CHR ''_''" "is_digit c \<Longrightarrow> \<not> is_space c"
  by (auto simp: is_digit_def is_space_def Let_def)

lemma not_digit_sep [simp]:
  "\<not> is_digit CHR ''@''" "\<not> is_digit CHR '':''" "\<not> is_digit CHR ''_''"
  by (simp_all add: is_digit_def)

lemma py_strip_nat_str: "py_strip (nat_str n) = nat_str n"
proof -
  have ns: "\<not> is_space c" if "c \<in> set (nat_str n)" for c
    using nat_str_digits [OF that] by simp
  have "dropWhile is_space s = s" if "\<forall>c\<in>set s. \<not> is_space c" for s
    using that by (cases s) auto
  from this [of "nat_str n"] this [of "rev (nat_str n)"] ns show ?thesis
    by (simp add: py_strip_def)
qed

lemma py_int_nat_str: "py_int (nat_str n) = Inr (int n)"
proof -
  obtain c cs where s: "nat_str n = c # cs" by (cases "nat_str n") auto
  then have "is_digit c" using nat_str_digits [of c n] by simp
  moreover have "py_strip (c # cs) = c # cs" using py_strip_nat_str [of n] s by simp
  ultimately show ?thesis
    using unsigned_val_nat_str [of n] s by (simp add: py_int_def)
qed

lemma int_str_nonneg: "0 \<le> i \<Longrightarrow> int_str i = nat_str (nat i)"
  by (simp add: int_str_def)

lemma py_int_int_str: "0 \<le> i \<Longrightarrow> py_int (int_str i) = Inr i"
  by (simp add: int_str_nonneg py_int_nat_str)

lemma int_str_no_sep:
  "0 \<le> i \<Longrightarrow> CHR ''@'' \<notin> set (int_str i)" "0 \<le> i \<Longrightarrow> CHR '':'' \<notin> set (int_str i)"
  "0 \<le> i \<Longrightarrow> CHR ''_'' \<notin> set (int_str i)"
  by (metis int_str_nonneg nat_str_digits not_digit_sep)+

section \<open>Dictionaries in insertion order\<close>

type_synonym ('k, 'v) dict = "('k \<times> 'v) list"

fun dict_set :: "'k \<Rightarrow> 'v \<Rightarrow> ('k, 'v) dict \<Rightarrow> ('k, 'v) dict" where
  "dict_set k v [] = [(k, v)]"
| "dict_set k v ((k', v') # d) = (if k = k' then (k, v) # d else (k', v') # dict_set k v d)"

definition dict_pop :: "'k \<Rightarrow> ('k, 'v) dict \<Rightarrow> ('k, 'v) dict" where
  "dict_pop k d = filter (\<lambda>(k', _). k' \<noteq> k) d"

definition dict_update :: "('k, 'v) dict \<Rightarrow> ('k, 'v) dict \<Rightarrow> ('k, 'v) dict" where
  "dict_update d e = foldl (\<lambda>d (k, v). dict_set k v d) d e"

definition dict_wf :: "('k, 'v) dict \<Rightarrow> bool" where
  "dict_wf d \<longleftrightarrow> distinct (map fst d)"

lemma map_of_dict_set [simp]: "map_of (dict_set k v d) = (map_of d)(k \<mapsto> v)"
  by (induction d) auto

lemma map_of_dict_pop [simp]: "map_of (dict_pop k d) = (map_of d)(k := None)"
  by (induction d) (auto simp: dict_pop_def)

lemma keys_dict_set [simp]: "fst ` set (dict_set k v d) = insert k (fst ` set d)"
  by (induction k v d rule: dict_set.induct) auto

lemma dict_wf_set [simp]: "dict_wf d \<Longrightarrow> dict_wf (dict_set k v d)"
  unfolding dict_wf_def
proof (induction d)
  case Nil
  show ?case by simp
next
  case (Cons p d)
  then show ?case by (cases p) auto
qed

lemma dict_wf_pop [simp]: "dict_wf d \<Longrightarrow> dict_wf (dict_pop k d)"
  unfolding dict_wf_def dict_pop_def by (induction d) auto

lemma dict_set_append: "k \<notin> set (map fst d) \<Longrightarrow> dict_set k v d = d @ [(k, v)]"
  by (induction d) auto

lemma dict_wf_update [simp]: "dict_wf d \<Longrightarrow> dict_wf (dict_update d e)"
  unfolding dict_update_def by (induction e arbitrary: d) auto

lemma map_of_dict_update: "dict_wf e \<Longrightarrow> map_of (dict_update d e) = map_of d ++ map_of e"
  unfolding dict_update_def dict_wf_def
proof (induction e arbitrary: d)
  case Nil
  show ?case by simp
next
  case (Cons p e)
  obtain k v where p: "p = (k, v)" by (cases p)
  with Cons have "map_of e k = None" by (simp add: map_of_eq_None_iff)
  with Cons p show ?case by (auto simp: fun_eq_iff map_add_def split: option.splits)
qed

lemma dict_pop_absent: "k \<notin> fst ` set d \<Longrightarrow> dict_pop k d = d"
  by (induction d) (auto simp: dict_pop_def)

lemma keys_dict_pop [simp]: "fst ` set (dict_pop k d) = fst ` set d - {k}"
  by (auto simp: dict_pop_def)

lemma dict_set_pop: "dict_set k v (dict_pop k d) = dict_pop k d @ [(k, v)]"
  by (rule dict_set_append) simp

lemma dict_wf_filter [simp]: "dict_wf d \<Longrightarrow> dict_wf (filter P d)"
  unfolding dict_wf_def by (induction d) auto

lemma dict_wf_drop [simp]: "dict_wf d \<Longrightarrow> dict_wf (drop n d)"
  unfolding dict_wf_def by (simp add: drop_map [symmetric] del: drop_map)

lemma length_dict_pop_le: "length (dict_pop k d) \<le> length d"
  by (simp add: dict_pop_def)

lemma length_dict_pop_less:
  assumes "map_of d k = Some v"
  shows "length (dict_pop k d) < length d"
  unfolding dict_pop_def by (rule length_filter_less [of "(k, v)"]) (use map_of_SomeD [OF assms] in auto)

lemma length_dict_set_pop [simp]: "length (dict_set k v (dict_pop k d)) = Suc (length (dict_pop k d))"
  by (simp add: dict_set_pop)

lemma set_dict_set: "set (dict_set k v d) \<subseteq> insert (k, v) (set d)"
  by (induction d) (auto split: if_splits)

lemma values_dict_set: "snd ` set (dict_set k v d) \<subseteq> insert v (snd ` set d)"
  using set_dict_set [of k v d] by force

lemma set_dict_pop: "set (dict_pop k d) \<subseteq> set d"
  by (auto simp: dict_pop_def)

lemma map_of_filter_wf:
  "dict_wf d \<Longrightarrow> map_of (filter P d) k = (case map_of d k of None \<Rightarrow> None | Some v \<Rightarrow> if P (k, v) then Some v else None)"
  unfolding dict_wf_def by (induction d) (auto simp: map_of_eq_None_iff split: option.splits)

end
