(* ===== verification/Jid.thy ===== *)
theory Jid
  imports Prelude
begin

text \<open>
  JIDs, the addresses of the protocol: \<^verbatim>\<open>wabinary/jid_utils.py\<close>. A JID is
  \<open>user_agent:device@server\<close>, where agent and device are optional. The theory has the
  record of a decoded JID, the encoder and decoder, the classification tests and the operations
  built on them, with the laws of the encoder and decoder that the binary codec and the LID store
  rest on.
\<close>

section \<open>Data\<close>

definition S_WHATSAPP_NET :: string where
  "S_WHATSAPP_NET = ''s.whatsapp.net''"

text \<open>The enumeration \<open>WAJIDDomains\<close>.\<close>

datatype wa_domain = WHATSAPP | LID | HOSTED | HOSTED_LID

fun domain_int :: "wa_domain \<Rightarrow> int" where
  "domain_int WHATSAPP = 0"
| "domain_int LID = 1"
| "domain_int HOSTED = 128"
| "domain_int HOSTED_LID = 129"

text \<open>\<open>WAJIDDomains(n)\<close> raises \<open>ValueError\<close> for a number that is no member.\<close>

definition domain_of_int :: "int \<Rightarrow> wa_domain result" where
  "domain_of_int n =
     (if n = 0 then Inr WHATSAPP else if n = 1 then Inr LID
      else if n = 128 then Inr HOSTED else if n = 129 then Inr HOSTED_LID
      else Inl (ValueError ''WAJIDDomains''))"

lemma domain_of_int_domain_int [simp]: "domain_of_int (domain_int d) = Inr d"
  by (cases d) (simp_all add: domain_of_int_def)

record full_jid =
  jid_user :: string
  jid_server :: string
  jid_device :: "int option"
  jid_domain :: wa_domain

section \<open>Encoding and decoding\<close>

definition get_server_from_domain_type :: "string \<Rightarrow> int option \<Rightarrow> string" where
  "get_server_from_domain_type initial_server domain_type =
     (if domain_type = Some 1 then ''lid''
      else if domain_type = Some 128 then ''hosted''
      else if domain_type = Some 129 then ''hosted.lid''
      else initial_server)"

text \<open>A device or agent of 0 is not written, exactly as one that is absent.\<close>

definition jid_encode :: "string option \<Rightarrow> string \<Rightarrow> int option \<Rightarrow> int option \<Rightarrow> string" where
  "jid_encode user server device agent =
     (case user of None \<Rightarrow> '''' | Some u \<Rightarrow> u) @
     (case agent of None \<Rightarrow> '''' | Some a \<Rightarrow> if a = 0 then '''' else CHR ''_'' # int_str a) @
     (case device of None \<Rightarrow> '''' | Some d \<Rightarrow> if d = 0 then '''' else CHR '':'' # int_str d) @
     CHR ''@'' # server"

text \<open>
  The decoder: None for a string without \<open>@\<close>; the first \<open>@\<close> separates user and
  server; \<open>int\<close> raises on a device part that is no number, and an agent part that is no
  number or no domain raises where the server does not already fix the domain.
\<close>

definition jid_decode :: "string option \<Rightarrow> full_jid option result" where
  "jid_decode j = (case j of None \<Rightarrow> Inr None | Some jid \<Rightarrow>
     (let sep_idx = py_find CHR ''@'' jid in
      if sep_idx < 0 then Inr None
      else
        let server = drop (nat sep_idx + 1) jid;
            user_combined = take (nat sep_idx) jid;
            parts = py_split CHR '':'' user_combined;
            user_agent = hd parts; device_part = tl parts;
            uparts = py_split CHR ''_'' user_agent;
            user = hd uparts; agent_part = tl uparts;
            agent = (case agent_part of [] \<Rightarrow> '''' | a # _ \<Rightarrow> a)
        in
        bindE (case device_part of [] \<Rightarrow> Inr None
               | d # _ \<Rightarrow> if d = '''' then Inr None else bindE (py_int d) (\<lambda>n. Inr (Some n)))
          (\<lambda>device.
        bindE (if server = ''lid'' then Inr LID
               else if server = ''hosted'' then Inr HOSTED
               else if server = ''hosted.lid'' then Inr HOSTED_LID
               else if agent \<noteq> '''' then bindE (py_int agent) domain_of_int
               else Inr WHATSAPP)
          (\<lambda>domain_type.
        Inr (Some \<lparr>jid_user = user, jid_server = server, jid_device = device,
                   jid_domain = domain_type\<rparr>)))))"

section \<open>Classification\<close>

text \<open>\<open>bool(jid and jid.endswith(suffix))\<close>, the shape of every test.\<close>

definition jid_ends :: "string option \<Rightarrow> string \<Rightarrow> bool" where
  "jid_ends j suffix = (case j of None \<Rightarrow> False | Some s \<Rightarrow> s \<noteq> '''' \<and> py_endswith s suffix)"

definition is_jid_meta_ai :: "string option \<Rightarrow> bool" where
  "is_jid_meta_ai j = jid_ends j ''@bot''"

definition is_pn_user :: "string option \<Rightarrow> bool" where
  "is_pn_user j = jid_ends j ''@s.whatsapp.net''"

definition is_lid_user :: "string option \<Rightarrow> bool" where
  "is_lid_user j = jid_ends j ''@lid''"

definition is_jid_broadcast :: "string option \<Rightarrow> bool" where
  "is_jid_broadcast j = jid_ends j ''@broadcast''"

definition is_jid_group :: "string option \<Rightarrow> bool" where
  "is_jid_group j = jid_ends j ''@g.us''"

definition is_jid_status_broadcast :: "string \<Rightarrow> bool" where
  "is_jid_status_broadcast j \<longleftrightarrow> j = ''status@broadcast''"

definition is_jid_newsletter :: "string option \<Rightarrow> bool" where
  "is_jid_newsletter j = jid_ends j ''@newsletter''"

definition is_hosted_pn_user :: "string option \<Rightarrow> bool" where
  "is_hosted_pn_user j = jid_ends j ''@hosted''"

definition is_hosted_lid_user :: "string option \<Rightarrow> bool" where
  "is_hosted_lid_user j = jid_ends j ''@hosted.lid''"

definition is_jid_bot :: "string option \<Rightarrow> bool" where
  "is_jid_bot j = (case j of None \<Rightarrow> False | Some s \<Rightarrow>
     if s = '''' then False
     else let user = hd (py_split CHR ''@'' s) in
       if \<not> py_endswith s ''@c.us'' then False
       else (length user = 11 \<and> py_startswith user ''1313555'') \<or>
            (length user = 11 \<and> py_startswith user ''131655500''))"

section \<open>Operations on JIDs\<close>

definition are_jids_same_user :: "string option \<Rightarrow> string option \<Rightarrow> bool result" where
  "are_jids_same_user jid1 jid2 =
     bindE (jid_decode jid1) (\<lambda>left. bindE (jid_decode jid2) (\<lambda>right.
       Inr (case (left, right) of
              (Some l, Some r) \<Rightarrow> jid_user l = jid_user r
            | _ \<Rightarrow> False)))"

definition jid_normalized_user :: "string option \<Rightarrow> string result" where
  "jid_normalized_user jid =
     bindE (jid_decode jid) (\<lambda>r. case r of None \<Rightarrow> Inr ''''
       | Some d \<Rightarrow> Inr (jid_encode (Some (jid_user d))
            (if jid_server d = ''c.us'' then ''s.whatsapp.net'' else jid_server d) None None))"

definition transfer_device :: "string \<Rightarrow> string \<Rightarrow> string result" where
  "transfer_device from_jid to_jid =
     bindE (jid_decode (Some from_jid)) (\<lambda>from_decoded.
     bindE (jid_decode (Some to_jid)) (\<lambda>to_decoded.
       case to_decoded of None \<Rightarrow> Inl (ValueError ''invalid JID'')
       | Some t \<Rightarrow>
           let device_id = (case from_decoded of None \<Rightarrow> 0
                            | Some f \<Rightarrow> (case jid_device f of None \<Rightarrow> 0 | Some d \<Rightarrow> d))
           in Inr (jid_encode (Some (jid_user t)) (jid_server t) (Some device_id) None)))"

section \<open>Laws\<close>

text \<open>The user part of a JID the decoder returns unchanged.\<close>

definition clean_user :: "string \<Rightarrow> bool" where
  "clean_user u \<longleftrightarrow> CHR ''@'' \<notin> set u \<and> CHR '':'' \<notin> set u \<and> CHR ''_'' \<notin> set u"

definition server_domain :: "string \<Rightarrow> wa_domain" where
  "server_domain s =
     (if s = ''lid'' then LID else if s = ''hosted'' then HOSTED
      else if s = ''hosted.lid'' then HOSTED_LID else WHATSAPP)"

lemma jid_decode_no_at: "CHR ''@'' \<notin> set s \<Longrightarrow> jid_decode (Some s) = Inr None"
  by (simp add: jid_decode_def py_find_neg [symmetric] Let_def)

lemma bindE_Some_ne: "(bindE m (\<lambda>x. bindE (f x) (\<lambda>y. Inr (Some (g x y)))) = Inr None) = False"
  by (simp add: bindE_eq_Inr_iff)

lemma jid_decode_None: "jid_decode (Some s) = Inr None \<longleftrightarrow> CHR ''@'' \<notin> set s"
proof (cases "py_find CHR ''@'' s < 0")
  case True
  then show ?thesis using jid_decode_no_at py_find_neg [of "CHR ''@''" s] by blast
next
  case False
  have "jid_decode (Some s) \<noteq> Inr None"
    using False by (simp only: jid_decode_def option.case Let_def if_False bindE_Some_ne not_False_eq_True)
  moreover have "CHR ''@'' \<in> set s" using False py_find_neg [of "CHR ''@''" s] by blast
  ultimately show ?thesis by blast
qed

lemma jid_decode_at:
  assumes "CHR ''@'' \<notin> set w"
  shows "jid_decode (Some (w @ CHR ''@'' # s)) =
     (let parts = py_split CHR '':'' w;
          uparts = py_split CHR ''_'' (hd parts);
          agent = (case tl uparts of [] \<Rightarrow> '''' | a # _ \<Rightarrow> a)
      in bindE (case tl parts of [] \<Rightarrow> Inr None
                | d # _ \<Rightarrow> if d = '''' then Inr None else bindE (py_int d) (\<lambda>n. Inr (Some n)))
          (\<lambda>device.
        bindE (if s = ''lid'' then Inr LID
               else if s = ''hosted'' then Inr HOSTED
               else if s = ''hosted.lid'' then Inr HOSTED_LID
               else if agent \<noteq> '''' then bindE (py_int agent) domain_of_int
               else Inr WHATSAPP)
          (\<lambda>domain_type.
        Inr (Some \<lparr>jid_user = hd uparts, jid_server = s, jid_device = device,
                   jid_domain = domain_type\<rparr>))))"
proof -
  have "nat (int (length w)) = length w" "nat (int (length w)) + 1 = Suc (length w)" by simp_all
  moreover have "\<not> int (length w) < 0" by simp
  moreover have "drop (Suc (length w)) (w @ CHR ''@'' # s) = s" by simp
  moreover have "take (length w) (w @ CHR ''@'' # s) = w" by simp
  ultimately show ?thesis
    by (simp only: jid_decode_def py_find_append [OF assms] Let_def option.case if_False)
qed

lemma jid_decode_plain:
  assumes "clean_user u"
  shows "jid_decode (Some (u @ CHR ''@'' # s)) =
    Inr (Some \<lparr>jid_user = u, jid_server = s, jid_device = None, jid_domain = server_domain s\<rparr>)"
  using assms by (simp add: clean_user_def jid_decode_at py_split_no_sep server_domain_def)

lemma jid_decode_device:
  assumes "clean_user u" and "0 \<le> d"
  shows "jid_decode (Some (u @ CHR '':'' # int_str d @ CHR ''@'' # s)) =
    Inr (Some \<lparr>jid_user = u, jid_server = s, jid_device = Some d, jid_domain = server_domain s\<rparr>)"
proof -
  let ?w = "u @ CHR '':'' # int_str d"
  have at: "CHR ''@'' \<notin> set ?w"
    using assms int_str_no_sep(1) [of d] by (simp add: clean_user_def)
  have "py_split CHR '':'' ?w = [u, int_str d]"
    using assms int_str_no_sep(2) [of d] by (simp add: clean_user_def py_split_append py_split_no_sep)
  moreover have "int_str d \<noteq> ''''" using assms by (simp add: int_str_nonneg)
  ultimately show ?thesis
    using assms py_int_int_str [of d] jid_decode_at [OF at, of s]
    by (simp add: clean_user_def py_split_no_sep server_domain_def)
qed

text \<open>What a decoded JID says of the string: users and servers come from around the first \<open>@\<close>.\<close>

lemma jid_decode_SomeD:
  assumes "jid_decode (Some s) = Inr (Some d)"
  shows "\<exists>u. s = u @ CHR ''@'' # jid_server d \<and> CHR ''@'' \<notin> set u \<and>
             set (jid_user d) \<subseteq> set u \<and> length (jid_user d) \<le> length u \<and> clean_user (jid_user d)"
proof -
  have "CHR ''@'' \<in> set s"
    using assms jid_decode_no_at [of s] by auto
  then obtain u r where s: "s = u @ CHR ''@'' # r" "CHR ''@'' \<notin> set u"
    and f: "py_find CHR ''@'' s = int (length u)"
    using py_find_split by blast
  have d: "jid_server d = r" "jid_user d = hd (py_split CHR ''_'' (hd (py_split CHR '':'' u)))"
    using assms s f by (auto simp: jid_decode_def Let_def bindE_eq_Inr_iff nat_add_distrib)
  have a: "hd (py_split CHR '':'' u) \<in> set (py_split CHR '':'' u)" by simp
  have b: "jid_user d \<in> set (py_split CHR ''_'' (hd (py_split CHR '':'' u)))" using d by simp
  have "set (jid_user d) \<subseteq> set u \<and> clean_user (jid_user d)"
    using py_split_parts [OF a] py_split_parts [OF b] s(2) by (auto simp: clean_user_def)
  moreover have "length (jid_user d) \<le> length u"
    using py_split_length [OF a] py_split_length [OF b] by simp
  ultimately show ?thesis using s d by blast
qed

lemma jid_decode_shorter:
  assumes "jid_decode (Some v) = Inr (Some d)"
  shows "max (length (jid_user d)) (length (jid_server d)) < length v"
proof -
  obtain u where "v = u @ CHR ''@'' # jid_server d" "length (jid_user d) \<le> length u"
    using jid_decode_SomeD [OF assms] by blast
  then show ?thesis by (metis add_Suc_right le_imp_less_Suc length_Cons length_append less_add_same_cancel2
      max_less_iff_conj trans_le_add1 zero_less_Suc le_add2)
qed

lemma jid_encode_plain: "jid_encode (Some u) s None None = u @ CHR ''@'' # s"
  by (simp add: jid_encode_def)

lemma jid_encode_device:
  "d \<noteq> 0 \<Longrightarrow> jid_encode (Some u) s (Some d) None = u @ CHR '':'' # int_str d @ CHR ''@'' # s"
  by (simp add: jid_encode_def)

lemma jid_encode_zero: "jid_encode (Some u) s (Some 0) None = u @ CHR ''@'' # s"
  by (simp add: jid_encode_def)

lemmas jid_encode_simps = jid_encode_plain jid_encode_device jid_encode_zero

text \<open>
  C17. Encoding a user, a server and a non-negative device and decoding the result gives the
  user, the server and the device back; the device 0 reads back as absent.
\<close>

theorem jid_roundtrip:
  assumes "clean_user u" and "0 \<le> dev"
  shows "jid_decode (Some (jid_encode (Some u) s (Some dev) None)) =
    Inr (Some \<lparr>jid_user = u, jid_server = s, jid_device = (if dev = 0 then None else Some dev),
               jid_domain = server_domain s\<rparr>)"
  using assms by (simp add: jid_encode_simps jid_decode_plain jid_decode_device)

theorem jid_roundtrip_witness:
  "jid_decode (Some ''123:45@lid'') =
    Inr (Some \<lparr>jid_user = ''123'', jid_server = ''lid'', jid_device = Some 45, jid_domain = LID\<rparr>)"
proof -
  have c: "clean_user ''123''" by (simp add: clean_user_def)
  have "jid_encode (Some ''123'') ''lid'' (Some 45) None = ''123:45@lid''" by code_simp
  then show ?thesis using jid_roundtrip [OF c, of 45 "''lid''"] by (simp add: server_domain_def)
qed

lemma jid_normalized_user_Inr:
  assumes "jid_normalized_user (Some s) = Inr n" and "n \<noteq> ''''"
  shows "\<exists>u srv. clean_user u \<and> srv \<noteq> ''c.us'' \<and> n = u @ CHR ''@'' # srv"
proof -
  obtain d where d: "jid_decode (Some s) = Inr (Some d)"
    and n: "n = jid_encode (Some (jid_user d))
      (if jid_server d = ''c.us'' then ''s.whatsapp.net'' else jid_server d) None None"
    using assms by (auto simp: jid_normalized_user_def bindE_eq_Inr_iff split: option.splits)
  have "clean_user (jid_user d)" using jid_decode_SomeD [OF d] by blast
  moreover have "n = jid_user d @ CHR ''@'' #
      (if jid_server d = ''c.us'' then ''s.whatsapp.net'' else jid_server d)"
    using n by (simp only: jid_encode_plain)
  ultimately show ?thesis by (intro exI conjI) (assumption, simp_all)
qed

text \<open>
  Normalising drops device and agent, so it is idempotent wherever it succeeds, and it never
  changes the user.
\<close>

theorem jid_normalized_user_idem:
  assumes "jid_normalized_user (Some s) = Inr n" and "n \<noteq> ''''"
  shows "jid_normalized_user (Some n) = Inr n"
proof -
  obtain u srv where "clean_user u" "srv \<noteq> ''c.us''" "n = u @ CHR ''@'' # srv"
    using jid_normalized_user_Inr [OF assms] by blast
  then show ?thesis
    by (simp add: jid_normalized_user_def jid_decode_plain jid_encode_plain)
qed

theorem jid_normalized_user_idem_witness:
  "jid_normalized_user (Some ''55@s.whatsapp.net'') = Inr ''55@s.whatsapp.net''"
proof -
  have "jid_normalized_user (Some ''55:3@c.us'') = Inr ''55@s.whatsapp.net''" by code_simp
  then show ?thesis by (rule jid_normalized_user_idem) simp
qed

text \<open>The tests for the user classes exclude one another.\<close>

lemma take_rev_append: "k \<le> length t \<Longrightarrow> take k (rev (r @ t)) = take k (rev t)"
  by simp

lemma jid_endsD: "jid_ends j t \<Longrightarrow> \<exists>r. j = Some (r @ t)"
  by (auto simp: jid_ends_def py_endswith_iff split: option.splits)

lemma jid_ends_take:
  "jid_ends j t \<Longrightarrow> jid_ends j t' \<Longrightarrow> k \<le> length t \<Longrightarrow> k \<le> length t' \<Longrightarrow>
   take k (rev t) = take k (rev t')"
proof -
  assume "jid_ends j t" "jid_ends j t'" and k: "k \<le> length t" "k \<le> length t'"
  then obtain r r' where "j = Some (r @ t)" "j = Some (r' @ t')" using jid_endsD by blast
  then have e: "r @ t = r' @ t'" by simp
  have "take k (rev t) = take k (rev (r @ t))" using k(1) by (rule take_rev_append [symmetric])
  also have "\<dots> = take k (rev t')" unfolding e using k(2) by (rule take_rev_append)
  finally show ?thesis .
qed

lemma jid_user_classes_disjoint:
  "is_lid_user j \<Longrightarrow> \<not> is_pn_user j" "is_lid_user j \<Longrightarrow> \<not> is_jid_group j"
  "is_lid_user j \<Longrightarrow> \<not> is_hosted_lid_user j" "is_pn_user j \<Longrightarrow> \<not> is_hosted_pn_user j"
  using jid_ends_take [of j "''@lid''" "''@s.whatsapp.net''" 3]
    jid_ends_take [of j "''@lid''" "''@g.us''" 3]
    jid_ends_take [of j "''@lid''" "''@hosted.lid''" 4]
    jid_ends_take [of j "''@s.whatsapp.net''" "''@hosted''" 3]
  by (auto simp: is_lid_user_def is_pn_user_def is_jid_group_def is_hosted_lid_user_def
      is_hosted_pn_user_def)

end
