(* ===== verification/Binary_Node.thy ===== *)
theory Binary_Node
  imports Prelude
begin

text \<open>
  The stanza tree of the protocol (\<^verbatim>\<open>wabinary/types.py\<close>) and the accessors on
  it (\<^verbatim>\<open>wabinary/generic_utils.py\<close>). The attributes of a node are a dictionary in
  insertion order. Its content is a tagged union: the constructor \<open>COther\<close> stands for a
  value of any other type, which the code rejects, and an attribute value is a string, None or,
  against the type annotation, an integer, which the encoder meets and skips.
\<close>

section \<open>Data\<close>

datatype attr_value = AStr string | ANone | AInt int

type_synonym attrs = "(string, attr_value) dict"

datatype node = Node (node_tag: string) (node_attrs: attrs) (node_content: content)
  and content = CNone | CStr string | CBytes bytes | CList "node list" | COther

text \<open>\<open>attrs.get(k)\<close>: a missing key reads as None.\<close>

definition attr_get :: "attrs \<Rightarrow> string \<Rightarrow> attr_value" where
  "attr_get a k = (case map_of a k of None \<Rightarrow> ANone | Some v \<Rightarrow> v)"

fun attr_truthy :: "attr_value \<Rightarrow> bool" where
  "attr_truthy (AStr s) \<longleftrightarrow> s \<noteq> ''''"
| "attr_truthy ANone \<longleftrightarrow> False"
| "attr_truthy (AInt i) \<longleftrightarrow> i \<noteq> 0"

text \<open>An attribute value inside an f-string.\<close>

fun attr_str :: "attr_value \<Rightarrow> string" where
  "attr_str (AStr s) = s"
| "attr_str ANone = ''None''"
| "attr_str (AInt i) = int_str i"

section \<open>Children\<close>

definition get_binary_node_children :: "node option \<Rightarrow> string \<Rightarrow> node list" where
  "get_binary_node_children n child_tag =
     (case n of None \<Rightarrow> []
      | Some nd \<Rightarrow> (case node_content nd of
            CList ns \<Rightarrow> filter (\<lambda>c. node_tag c = child_tag) ns
          | _ \<Rightarrow> []))"

definition get_binary_node_child :: "node option \<Rightarrow> string \<Rightarrow> node option" where
  "get_binary_node_child n child_tag =
     (case get_binary_node_children n child_tag of [] \<Rightarrow> None | c # _ \<Rightarrow> Some c)"

definition get_all_binary_node_children :: "node \<Rightarrow> node list" where
  "get_all_binary_node_children n = (case node_content n of CList ns \<Rightarrow> ns | _ \<Rightarrow> [])"

definition get_binary_node_child_buffer :: "node option \<Rightarrow> string \<Rightarrow> bytes option" where
  "get_binary_node_child_buffer n child_tag =
     (case get_binary_node_child n child_tag of None \<Rightarrow> None
      | Some c \<Rightarrow> (case node_content c of CBytes b \<Rightarrow> Some b | _ \<Rightarrow> None))"

definition get_binary_node_child_string :: "node option \<Rightarrow> string \<Rightarrow> string option result" where
  "get_binary_node_child_string n child_tag =
     (case get_binary_node_child n child_tag of None \<Rightarrow> Inr None
      | Some c \<Rightarrow> (case node_content c of
            CStr s \<Rightarrow> Inr (Some s)
          | CBytes b \<Rightarrow> bindE (utf8_decode b) (\<lambda>s. Inr (Some s))
          | _ \<Rightarrow> Inr None))"

text \<open>\<open>_buffer_to_uint\<close>: reading past the end raises \<open>IndexError\<close>.\<close>

fun buffer_to_uint_from :: "bytes \<Rightarrow> nat \<Rightarrow> int \<Rightarrow> int result" where
  "buffer_to_uint_from bs 0 acc = Inr acc"
| "buffer_to_uint_from [] (Suc n) acc = Inl IndexError"
| "buffer_to_uint_from (b # bs) (Suc n) acc = buffer_to_uint_from bs n (256 * acc + byte_val b)"

definition buffer_to_uint :: "bytes \<Rightarrow> nat \<Rightarrow> int result" where
  "buffer_to_uint bs len = buffer_to_uint_from bs len 0"

definition get_binary_node_child_uint :: "node \<Rightarrow> string \<Rightarrow> nat \<Rightarrow> int option result" where
  "get_binary_node_child_uint n child_tag len =
     (case get_binary_node_child_buffer (Some n) child_tag of
        None \<Rightarrow> Inr None
      | Some buff \<Rightarrow> bindE (buffer_to_uint buff len) (\<lambda>v. Inr (Some v)))"

definition assert_node_error_free :: "node \<Rightarrow> unit result" where
  "assert_node_error_free n =
     (case get_binary_node_child (Some n) ''error'' of
        None \<Rightarrow> Inr ()
      | Some err_node \<Rightarrow>
          let text = (case map_of (node_attrs err_node) ''text'' of
                        None \<Rightarrow> AStr ''Unknown error'' | Some t \<Rightarrow> t);
              code = attr_get (node_attrs err_node) ''code''
          in Inl (RuntimeError (attr_str text @ '' (code='' @ attr_str code @ '')'')))"

definition attr_or :: "attr_value \<Rightarrow> attr_value \<Rightarrow> attr_value" where
  "attr_or a b = (if attr_truthy a then a else b)"

fun reduce_nodes :: "node list \<Rightarrow> (attr_value, attr_value) dict \<Rightarrow> (attr_value, attr_value) dict" where
  "reduce_nodes [] result = result"
| "reduce_nodes (current # rest) result =
     (let attrs = node_attrs current;
          val = attr_or (attr_get attrs ''value'') (attr_or (attr_get attrs ''config_value'') (AStr ''''))
      in case attr_get attrs ''name'' of
           AStr nm \<Rightarrow> reduce_nodes rest (dict_set (AStr nm) val result)
         | _ \<Rightarrow> let key = attr_get attrs ''config_code'' in
               if attr_truthy key then reduce_nodes rest (dict_set key val result)
               else reduce_nodes rest result)"

definition reduce_binary_node_to_dictionary :: "node \<Rightarrow> string \<Rightarrow> (attr_value, attr_value) dict" where
  "reduce_binary_node_to_dictionary n tag = reduce_nodes (get_binary_node_children (Some n) tag) []"

section \<open>Printing\<close>

definition hex_digit :: "nat \<Rightarrow> char" where
  "hex_digit d = (if d < 10 then char_of (48 + d) else char_of (87 + d))"

definition bytes_hex :: "bytes \<Rightarrow> string" where
  "bytes_hex bs = concat (map (\<lambda>b. [hex_digit (unat b div 16), hex_digit (unat b mod 16)]) bs)"

fun py_join :: "string \<Rightarrow> string list \<Rightarrow> string" where
  "py_join sep [] = ''''"
| "py_join sep [x] = x"
| "py_join sep (x # xs) = x @ sep @ py_join sep xs"

definition py_rstrip :: "string \<Rightarrow> string" where
  "py_rstrip s = rev (dropWhile is_space (rev s))"

definition node_attrs_text :: "attrs \<Rightarrow> string" where
  "node_attrs_text a = py_join '' ''
     (map (\<lambda>(k, v). k @ [CHR ''='', CHR 0x27] @ attr_str v @ [CHR 0x27]) (filter (\<lambda>(k, v). v \<noteq> ANone) a))"

definition newline :: string where
  "newline = [CHR 0x0A]"

fun binary_node_to_string :: "node \<Rightarrow> nat \<Rightarrow> string result"
  and content_to_string :: "content \<Rightarrow> nat \<Rightarrow> string result"
  and nodes_to_strings :: "node list \<Rightarrow> nat \<Rightarrow> string list result" where
  "binary_node_to_string (Node tag attrs content) indent =
     (let tabs = replicate indent (CHR 0x09) in
      bindE (content_to_string content (Suc indent)) (\<lambda>children.
        let tag_start = py_rstrip (CHR ''<'' # tag @ '' '' @ node_attrs_text attrs) in
        if children \<noteq> '''' then
          Inr (tabs @ tag_start @ ''>'' @ newline @ children @ newline @ tabs @ ''</'' @ tag @ ''>'')
        else Inr (tabs @ tag_start @ ''/>'')))"
| "content_to_string CNone indent = Inr ''''"
| "content_to_string (CStr s) indent = Inr (replicate indent (CHR 0x09) @ s)"
| "content_to_string (CBytes b) indent = Inr (replicate indent (CHR 0x09) @ bytes_hex b)"
| "content_to_string (CList ns) indent =
     bindE (nodes_to_strings ns (Suc indent)) (\<lambda>ss. Inr (py_join newline ss))"
| "content_to_string COther indent = Inl AttributeErr"
| "nodes_to_strings [] indent = Inr []"
| "nodes_to_strings (n # ns) indent =
     bindE (binary_node_to_string n indent) (\<lambda>s.
       bindE (nodes_to_strings ns indent) (\<lambda>ss. Inr (s # ss)))"

section \<open>Properties\<close>

lemma buffer_to_uint_from_spec:
  "buffer_to_uint_from bs n acc =
     (if length bs < n then Inl IndexError else Inr (acc * 256 ^ n + be_val (take n bs)))"
proof (induction bs n acc rule: buffer_to_uint_from.induct)
  case (3 b bs n acc)
  then show ?case by (auto simp: algebra_simps)
qed simp_all

text \<open>
  Reading an unsigned integer of a child: big-endian, of exactly the requested width; a buffer
  that is too short raises, a longer one is read from its front.
\<close>

theorem buffer_to_uint_spec:
  "buffer_to_uint bs n = (if length bs < n then Inl IndexError else Inr (be_val (take n bs)))"
  by (simp add: buffer_to_uint_def buffer_to_uint_from_spec)

corollary buffer_to_uint_be_bytes:
  "0 \<le> v \<Longrightarrow> v < 256 ^ n \<Longrightarrow> buffer_to_uint (be_bytes n v @ r) n = Inr v"
  by (simp add: buffer_to_uint_spec be_val_be_bytes)

lemma get_binary_node_child_tag:
  "get_binary_node_child n t = Some c \<Longrightarrow> node_tag c = t \<and> c \<in> set (get_binary_node_children n t)"
  by (auto simp: get_binary_node_child_def get_binary_node_children_def split: list.splits
      option.splits content.splits dest: filter_eq_ConsD)

lemma assert_node_error_free_iff:
  "assert_node_error_free n = Inr () \<longleftrightarrow>
     (\<forall>c\<in>set (get_all_binary_node_children n). node_tag c \<noteq> ''error'')"
proof -
  have e: "assert_node_error_free n = Inr () \<longleftrightarrow> get_binary_node_children (Some n) ''error'' = []"
    by (simp add: assert_node_error_free_def get_binary_node_child_def Let_def split: list.split)
  show ?thesis
    unfolding e by (cases "node_content n")
      (simp_all add: get_binary_node_children_def get_all_binary_node_children_def filter_empty_conv)
qed

end
