(* ===== verification/Wa_Encode.thy ===== *)
theory Wa_Encode
  imports Jid Binary_Node
begin

unbundle bit_operations_syntax

text \<open>
  The binary encoder of stanzas: \<^verbatim>\<open>wabinary/encode.py\<close>. The encoder appends to
  a buffer and never reads it back, so each writer here returns the bytes it appends; the
  composition of the writers is the order of the code. The token map is the argument \<open>tm\<close>
  (\<open>opts["TOKEN_MAP"]\<close>), the tags are those of \<^verbatim>\<open>wabinary/constants.py\<close>.
\<close>

section \<open>Tags\<close>

abbreviation (input) TAG_LIST_EMPTY :: int where "TAG_LIST_EMPTY \<equiv> 0"
abbreviation (input) TAG_DICTIONARY_0 :: int where "TAG_DICTIONARY_0 \<equiv> 236"
abbreviation (input) TAG_DICTIONARY_3 :: int where "TAG_DICTIONARY_3 \<equiv> 239"
abbreviation (input) TAG_INTEROP_JID :: int where "TAG_INTEROP_JID \<equiv> 245"
abbreviation (input) TAG_FB_JID :: int where "TAG_FB_JID \<equiv> 246"
abbreviation (input) TAG_AD_JID :: int where "TAG_AD_JID \<equiv> 247"
abbreviation (input) TAG_LIST_8 :: int where "TAG_LIST_8 \<equiv> 248"
abbreviation (input) TAG_LIST_16 :: int where "TAG_LIST_16 \<equiv> 249"
abbreviation (input) TAG_JID_PAIR :: int where "TAG_JID_PAIR \<equiv> 250"
abbreviation (input) TAG_HEX_8 :: int where "TAG_HEX_8 \<equiv> 251"
abbreviation (input) TAG_BINARY_8 :: int where "TAG_BINARY_8 \<equiv> 252"
abbreviation (input) TAG_BINARY_20 :: int where "TAG_BINARY_20 \<equiv> 253"
abbreviation (input) TAG_BINARY_32 :: int where "TAG_BINARY_32 \<equiv> 254"
abbreviation (input) TAG_NIBBLE_8 :: int where "TAG_NIBBLE_8 \<equiv> 255"
abbreviation (input) PACKED_MAX :: nat where "PACKED_MAX \<equiv> 127"

text \<open>An entry of \<open>TOKEN_MAP\<close>: the dictionary, if it is a double-byte token, and the index.\<close>

type_synonym token_index = "nat option \<times> nat"
type_synonym token_map = "string \<Rightarrow> token_index option"

section \<open>Lengths and raw strings\<close>

definition push_int20 :: "int \<Rightarrow> bytes" where
  "push_int20 v = [to_byte ((v div 65536) mod 16), to_byte (v div 256), to_byte v]"

definition write_byte_length :: "nat \<Rightarrow> bytes result" where
  "write_byte_length len =
     (if len \<ge> 4294967296 then Inl (ValueError ''string too large to encode'')
      else if len \<ge> 1048576 then Inr (to_byte TAG_BINARY_32 # be_bytes 4 (int len))
      else if len \<ge> 256 then Inr (to_byte TAG_BINARY_20 # push_int20 (int len))
      else Inr [to_byte TAG_BINARY_8, to_byte (int len)])"

definition write_string_raw :: "string \<Rightarrow> bytes result" where
  "write_string_raw value =
     (let raw = utf8_encode value in
      bindE (write_byte_length (length raw)) (\<lambda>hd. Inr (hd @ raw)))"

section \<open>Packed strings\<close>

datatype packed = Nibble | Hex

definition pack_nibble :: "char \<Rightarrow> int result" where
  "pack_nibble c =
     (if c = CHR ''-'' then Inr 10
      else if c = CHR ''.'' then Inr 11
      else if c = CHR 0x00 then Inr 15
      else if is_digit c then Inr (digit_val c)
      else Inl (ValueError ''invalid byte for nibble''))"

definition pack_hex :: "char \<Rightarrow> int result" where
  "pack_hex c =
     (let n = (of_char c :: int) in
      if is_digit c then Inr (digit_val c)
      else if 65 \<le> n \<and> n \<le> 70 then Inr (10 + n - 65)
      else if 97 \<le> n \<and> n \<le> 102 then Inr (10 + n - 97)
      else if c = CHR 0x00 then Inr 15
      else Inl (ValueError ''Invalid hex char''))"

definition pack_fn :: "packed \<Rightarrow> char \<Rightarrow> int result" where
  "pack_fn t = (case t of Nibble \<Rightarrow> pack_nibble | Hex \<Rightarrow> pack_hex)"

definition pack_pair :: "packed \<Rightarrow> char \<Rightarrow> char \<Rightarrow> int result" where
  "pack_pair t v1 v2 =
     bindE (pack_fn t v1) (\<lambda>a. bindE (pack_fn t v2) (\<lambda>b. Inr (push_bit 4 a OR b)))"

text \<open>The pairs of characters, the last odd one paired with NUL.\<close>

fun pack_chars :: "packed \<Rightarrow> string \<Rightarrow> bytes result" where
  "pack_chars t [] = Inr []"
| "pack_chars t [c] = bindE (pack_pair t c (CHR 0x00)) (\<lambda>p. Inr [to_byte p])"
| "pack_chars t (c # d # cs) =
     bindE (pack_pair t c d) (\<lambda>p. bindE (pack_chars t cs) (\<lambda>ps. Inr (to_byte p # ps)))"

definition write_packed_bytes :: "string \<Rightarrow> packed \<Rightarrow> bytes result" where
  "write_packed_bytes value t =
     (if length value > PACKED_MAX then Inl (ValueError ''Too many bytes to pack'')
      else
        let tag = (case t of Nibble \<Rightarrow> TAG_NIBBLE_8 | Hex \<Rightarrow> TAG_HEX_8);
            half = int ((length value + 1) div 2);
            rounded_length = (if length value mod 2 \<noteq> 0 then half OR 128 else half)
        in bindE (pack_chars t value) (\<lambda>ps. Inr (to_byte tag # to_byte rounded_length # ps)))"

definition is_nibble :: "string \<Rightarrow> bool" where
  "is_nibble value \<longleftrightarrow> value \<noteq> '''' \<and> length value \<le> PACKED_MAX \<and>
     list_all (\<lambda>c. is_digit c \<or> c = CHR ''-'' \<or> c = CHR ''.'') value"

definition is_hex :: "string \<Rightarrow> bool" where
  "is_hex value \<longleftrightarrow> value \<noteq> '''' \<and> length value \<le> PACKED_MAX \<and>
     list_all (\<lambda>c. is_digit c \<or> 65 \<le> (of_char c :: int) \<and> (of_char c :: int) \<le> 70) value"

section \<open>Strings and JIDs\<close>

text \<open>
  \<open>write_string\<close> and \<open>write_jid\<close> call each other: the user and the server of a
  decoded JID are strings again, shorter than the JID.
\<close>

function (sequential) write_string :: "token_map \<Rightarrow> string option \<Rightarrow> bytes result"
  and write_jid :: "token_map \<Rightarrow> full_jid \<Rightarrow> bytes result" where
  "write_string tm None = Inr [to_byte TAG_LIST_EMPTY]"
| "write_string tm (Some value) =
     (if value = '''' then write_string_raw value
      else case tm value of
        Some (d, i) \<Rightarrow>
          Inr ((case d of None \<Rightarrow> [] | Some k \<Rightarrow> [to_byte (TAG_DICTIONARY_0 + int k)]) @ [to_byte (int i)])
      | None \<Rightarrow>
          if is_nibble value then write_packed_bytes value Nibble
          else if is_hex value then write_packed_bytes value Hex
          else bindE (jid_decode (Some value)) (\<lambda>decoded_jid.
            case decoded_jid of
              Some j \<Rightarrow> write_jid tm j
            | None \<Rightarrow> write_string_raw value))"
| "write_jid tm decoded =
     (case jid_device decoded of
        Some device \<Rightarrow>
          bindE (write_string tm (Some (jid_user decoded))) (\<lambda>u.
            Inr (to_byte TAG_AD_JID # to_byte (domain_int (jid_domain decoded)) # to_byte device # u))
      | None \<Rightarrow>
          bindE (if jid_user decoded \<noteq> '''' then write_string tm (Some (jid_user decoded))
                 else Inr [to_byte TAG_LIST_EMPTY]) (\<lambda>u.
          bindE (write_string tm (Some (jid_server decoded))) (\<lambda>s.
            Inr (to_byte TAG_JID_PAIR # u @ s))))"
  by pat_completeness auto

termination
  by (relation "measure (\<lambda>x. case x of
         Inl (tm, v) \<Rightarrow> (case v of None \<Rightarrow> 0 | Some s \<Rightarrow> 2 * length s + 1)
       | Inr (tm, d) \<Rightarrow> 2 * max (length (jid_user d)) (length (jid_server d)) + 2)")
    (auto dest!: jid_decode_shorter)

declare write_string.simps(2) [simp del] write_jid.simps [simp del]

lemma write_string_jid:
  assumes "v \<noteq> ''''" and "tm v = None" and "\<not> is_nibble v" and "\<not> is_hex v"
    and "jid_decode (Some v) = Inr (Some j)"
  shows "write_string tm (Some v) = write_jid tm j"
  using assms by (simp add: write_string.simps(2))

section \<open>Nodes\<close>

definition write_list_start :: "nat \<Rightarrow> bytes" where
  "write_list_start list_size =
     (if list_size = 0 then [to_byte TAG_LIST_EMPTY]
      else if list_size < 256 then [to_byte TAG_LIST_8, to_byte (int list_size)]
      else [to_byte TAG_LIST_16, to_byte (int list_size div 256), to_byte (int list_size)])"

text \<open>Every attribute that is not None is counted, but only string values are written.\<close>

fun write_attrs :: "token_map \<Rightarrow> attrs \<Rightarrow> bytes result" where
  "write_attrs tm [] = Inr []"
| "write_attrs tm ((key, AStr value) # rest) =
     bindE (write_string tm (Some key)) (\<lambda>k.
     bindE (write_string tm (Some value)) (\<lambda>v.
     bindE (write_attrs tm rest) (\<lambda>r. Inr (k @ v @ r))))"
| "write_attrs tm (_ # rest) = write_attrs tm rest"

definition valid_attributes :: "attrs \<Rightarrow> attrs" where
  "valid_attributes attrs = filter (\<lambda>(k, v). v \<noteq> ANone) attrs"

definition valid_content :: "node list \<Rightarrow> node list" where
  "valid_content ns = filter (\<lambda>n. node_tag n \<noteq> '''') ns"

fun encode_node :: "token_map \<Rightarrow> node \<Rightarrow> bytes result"
  and encode_content :: "token_map \<Rightarrow> content \<Rightarrow> bytes result"
  and encode_nodes :: "token_map \<Rightarrow> node list \<Rightarrow> bytes result" where
  "encode_node tm (Node tag attrs content) =
     (if tag = '''' then Inl (ValueError ''Invalid node: tag cannot be undefined'')
      else
        let valid = valid_attributes attrs;
            start = write_list_start (2 * length valid + 1 + (if content = CNone then 0 else 1))
        in bindE (write_string tm (Some tag)) (\<lambda>t.
           bindE (write_attrs tm valid) (\<lambda>a.
           bindE (encode_content tm content) (\<lambda>c. Inr (start @ t @ a @ c)))))"
| "encode_content tm CNone = Inr []"
| "encode_content tm (CStr s) = write_string tm (Some s)"
| "encode_content tm (CBytes b) = bindE (write_byte_length (length b)) (\<lambda>h. Inr (h @ b))"
| "encode_content tm (CList ns) =
     bindE (encode_nodes tm ns) (\<lambda>b. Inr (write_list_start (length (valid_content ns)) @ b))"
| "encode_content tm COther = Inl (ValueError ''invalid children'')"
| "encode_nodes tm [] = Inr []"
| "encode_nodes tm (n # ns) =
     (if node_tag n = '''' then encode_nodes tm ns
      else bindE (encode_node tm n) (\<lambda>b. bindE (encode_nodes tm ns) (\<lambda>r. Inr (b @ r))))"

text \<open>
  \<open>encode_binary_node\<close> starts from the caller's buffer, or from a single zero byte, the
  flags byte of an uncompressed frame.
\<close>

definition encode_binary_node :: "token_map \<Rightarrow> node \<Rightarrow> bytes option \<Rightarrow> bytes result" where
  "encode_binary_node tm n buffer =
     bindE (encode_node tm n) (\<lambda>b.
       Inr ((case buffer of None \<Rightarrow> [0] | Some w \<Rightarrow> w) @ b))"

end
