(* ===== verification/Wa_Decode.thy ===== *)
theory Wa_Decode
  imports Wa_Encode
begin

text \<open>
  The binary decoder of stanzas: \<^verbatim>\<open>wabinary/decode.py\<close>. The state of the
  decoder is the buffer and an index into it; here it is the rest of the buffer from that index
  on, so that \<open>check_eos(n)\<close> is a test of its length and a read returns the value and
  the new rest. The token tables are the arguments \<open>single\<close> and \<open>double\<close>.

  Strings nest (a JID pair holds two strings), and so do nodes. Both recursions take a fuel
  argument: every level reads at least one byte, so a fuel above the length of the rest is never
  used up (\<open>read_string_fuel\<close>, \<open>decode_node_fuel\<close>), and the decoder
  passes exactly that.
\<close>

section \<open>Reading\<close>

type_synonym 'a reader = "bytes \<Rightarrow> ('a \<times> bytes) result"

abbreviation (input) end_of_stream :: exn where
  "end_of_stream \<equiv> ValueError ''end of stream''"

definition read_byte :: "int reader" where
  "read_byte bs = (case bs of [] \<Rightarrow> Inl end_of_stream | b # r \<Rightarrow> Inr (byte_val b, r))"

definition read_bytes :: "nat \<Rightarrow> bytes reader" where
  "read_bytes n bs =
     (if length bs < n then Inl end_of_stream else Inr (take n bs, drop n bs))"

definition read_int :: "nat \<Rightarrow> int reader" where
  "read_int n bs =
     (if length bs < n then Inl end_of_stream else Inr (be_val (take n bs), drop n bs))"

definition read_int20 :: "int reader" where
  "read_int20 bs = (case bs of
       a # b # c # r \<Rightarrow> Inr ((byte_val a mod 16) * 65536 + byte_val b * 256 + byte_val c, r)
     | _ \<Rightarrow> Inl end_of_stream)"

section \<open>Packed strings\<close>

definition unpack_hex :: "int \<Rightarrow> int result" where
  "unpack_hex v = (if 0 \<le> v \<and> v < 16 then Inr (if v < 10 then 48 + v else 65 + v - 10)
                   else Inl (ValueError ''invalid hex''))"

definition unpack_nibble :: "int \<Rightarrow> int result" where
  "unpack_nibble v =
     (if 0 \<le> v \<and> v \<le> 9 then Inr (48 + v)
      else if v = 10 then Inr 45
      else if v = 11 then Inr 46
      else if v = 15 then Inr 0
      else Inl (ValueError ''invalid nibble''))"

definition unpack_byte :: "int \<Rightarrow> int \<Rightarrow> int result" where
  "unpack_byte tag v =
     (if tag = TAG_NIBBLE_8 then unpack_nibble v
      else if tag = TAG_HEX_8 then unpack_hex v
      else Inl (ValueError ''unknown tag''))"

fun read_packed_loop :: "int \<Rightarrow> nat \<Rightarrow> string reader" where
  "read_packed_loop tag 0 bs = Inr ('''', bs)"
| "read_packed_loop tag (Suc n) bs =
     bindE (read_byte bs) (\<lambda>(cur_byte, bs).
     bindE (unpack_byte tag (cur_byte div 16)) (\<lambda>a.
     bindE (unpack_byte tag (cur_byte mod 16)) (\<lambda>b.
     bindE (read_packed_loop tag n bs) (\<lambda>(s, bs).
       Inr (char_of a # char_of b # s, bs)))))"

definition read_packed8 :: "int \<Rightarrow> string reader" where
  "read_packed8 tag bs =
     bindE (read_byte bs) (\<lambda>(start_byte, bs).
     bindE (read_packed_loop tag (nat (start_byte mod 128)) bs) (\<lambda>(value, bs).
       Inr (if start_byte div 128 \<noteq> 0 then butlast value else value, bs)))"

section \<open>Lists and tokens\<close>

definition is_list_tag :: "int \<Rightarrow> bool" where
  "is_list_tag tag \<longleftrightarrow> tag = TAG_LIST_EMPTY \<or> tag = TAG_LIST_8 \<or> tag = TAG_LIST_16"

definition read_list_size :: "int \<Rightarrow> int reader" where
  "read_list_size tag bs =
     (if tag = TAG_LIST_EMPTY then Inr (0, bs)
      else if tag = TAG_LIST_8 then read_byte bs
      else if tag = TAG_LIST_16 then read_int 2 bs
      else Inl (ValueError ''invalid tag for list size''))"

definition get_token_double :: "string list list \<Rightarrow> nat \<Rightarrow> nat \<Rightarrow> string result" where
  "get_token_double double index1 index2 =
     (if index1 < length double then
        (if index2 < length (double ! index1) then Inr (double ! index1 ! index2)
         else Inl (ValueError ''Invalid double token''))
      else Inl (ValueError ''Invalid double token dict''))"

section \<open>Strings\<close>

definition decode_str :: "bytes \<times> bytes \<Rightarrow> (string \<times> bytes) result" where
  "decode_str = (\<lambda>(b, bs). bindE (utf8_decode b) (\<lambda>s. Inr (s, bs)))"

fun read_string :: "string list \<Rightarrow> string list list \<Rightarrow> nat \<Rightarrow> int \<Rightarrow> string reader" where
  "read_string single double 0 tag bs = Inl OutOfFuel"
| "read_string single double (Suc f) tag bs =
     (if 1 \<le> tag \<and> tag < int (length single) then Inr (single ! nat tag, bs)
      else if TAG_DICTIONARY_0 \<le> tag \<and> tag \<le> TAG_DICTIONARY_3 then
        bindE (read_byte bs) (\<lambda>(index2, bs).
        bindE (get_token_double double (nat (tag - TAG_DICTIONARY_0)) (nat index2)) (\<lambda>s. Inr (s, bs)))
      else if tag = TAG_LIST_EMPTY then Inr ('''', bs)
      else if tag = TAG_BINARY_8 then
        bindE (read_byte bs) (\<lambda>(n, bs). bindE (read_bytes (nat n) bs) decode_str)
      else if tag = TAG_BINARY_20 then
        bindE (read_int20 bs) (\<lambda>(n, bs). bindE (read_bytes (nat n) bs) decode_str)
      else if tag = TAG_BINARY_32 then
        bindE (read_int 4 bs) (\<lambda>(n, bs). bindE (read_bytes (nat n) bs) decode_str)
      else if tag = TAG_JID_PAIR then
        bindE (read_byte bs) (\<lambda>(t1, bs).
        bindE (read_string single double f t1 bs) (\<lambda>(first, bs).
        bindE (read_byte bs) (\<lambda>(t2, bs).
        bindE (read_string single double f t2 bs) (\<lambda>(second, bs).
          if second \<noteq> '''' then Inr (first @ CHR ''@'' # second, bs)
          else Inl (ValueError ''invalid jid pair'')))))
      else if tag = TAG_FB_JID then
        bindE (read_byte bs) (\<lambda>(t1, bs).
        bindE (read_string single double f t1 bs) (\<lambda>(user, bs).
        bindE (read_int 2 bs) (\<lambda>(device, bs).
        bindE (read_byte bs) (\<lambda>(t2, bs).
        bindE (read_string single double f t2 bs) (\<lambda>(server, bs).
          Inr (user @ '':'' @ int_str device @ ''@'' @ server, bs))))))
      else if tag = TAG_INTEROP_JID then
        bindE (read_byte bs) (\<lambda>(t1, bs).
        bindE (read_string single double f t1 bs) (\<lambda>(user, bs).
        bindE (read_int 2 bs) (\<lambda>(device, bs).
        bindE (read_int 2 bs) (\<lambda>(integrator, before).
        bindE (case bindE (read_byte before) (\<lambda>(t2, bs). read_string single double f t2 bs) of
                 Inr r \<Rightarrow> Inr r
               | Inl e \<Rightarrow> if e = OutOfFuel then Inl e else Inr (''interop'', before))
          (\<lambda>(server, bs).
          Inr (int_str integrator @ ''-'' @ user @ '':'' @ int_str device @ ''@'' @ server, bs))))))
      else if tag = TAG_AD_JID then
        bindE (read_byte bs) (\<lambda>(domain_type, bs).
        bindE (read_byte bs) (\<lambda>(device, bs).
        bindE (read_byte bs) (\<lambda>(t1, bs).
        bindE (read_string single double f t1 bs) (\<lambda>(user, bs).
          let server = (if domain_type = 1 then ''lid''
                        else if domain_type = 128 then ''hosted''
                        else if domain_type = 129 then ''hosted.lid''
                        else ''s.whatsapp.net'')
          in Inr (jid_encode (Some user) server (Some device) None, bs)))))
      else if tag = TAG_HEX_8 \<or> tag = TAG_NIBBLE_8 then read_packed8 tag bs
      else Inl (ValueError ''invalid string with tag''))"

declare read_string.simps(2) [simp del]

lemma read_string_jid_pair:
  "length single \<le> 236 \<Longrightarrow> read_string single double (Suc f) TAG_JID_PAIR bs =
     bindE (read_byte bs) (\<lambda>(t1, bs).
     bindE (read_string single double f t1 bs) (\<lambda>(first, bs).
     bindE (read_byte bs) (\<lambda>(t2, bs).
     bindE (read_string single double f t2 bs) (\<lambda>(second, bs).
       if second \<noteq> '''' then Inr (first @ CHR ''@'' # second, bs)
       else Inl (ValueError ''invalid jid pair'')))))"
  by (simp add: read_string.simps(2))

lemma read_string_ad_jid:
  "length single \<le> 236 \<Longrightarrow> read_string single double (Suc f) TAG_AD_JID bs =
     bindE (read_byte bs) (\<lambda>(domain_type, bs).
     bindE (read_byte bs) (\<lambda>(device, bs).
     bindE (read_byte bs) (\<lambda>(t1, bs).
     bindE (read_string single double f t1 bs) (\<lambda>(user, bs).
       let server = (if domain_type = 1 then ''lid''
                     else if domain_type = 128 then ''hosted''
                     else if domain_type = 129 then ''hosted.lid''
                     else ''s.whatsapp.net'')
       in Inr (jid_encode (Some user) server (Some device) None, bs)))))"
  by (simp add: read_string.simps(2))

text \<open>The reader the node decoder calls, with a fuel that is always enough.\<close>

definition read_str :: "string list \<Rightarrow> string list list \<Rightarrow> string reader" where
  "read_str single double bs =
     bindE (read_byte bs) (\<lambda>(tag, bs). read_string single double (Suc (length bs)) tag bs)"

section \<open>Nodes\<close>

fun read_attrs :: "string list \<Rightarrow> string list list \<Rightarrow> nat \<Rightarrow> attrs \<Rightarrow> attrs reader" where
  "read_attrs single double 0 attrs bs = Inr (attrs, bs)"
| "read_attrs single double (Suc n) attrs bs =
     bindE (read_str single double bs) (\<lambda>(key, bs).
     bindE (read_str single double bs) (\<lambda>(value, bs).
       read_attrs single double n (dict_set key (AStr value) attrs) bs))"

text \<open>Content that is not a list of nodes: raw bytes, or a string.\<close>

definition read_data :: "string list \<Rightarrow> string list list \<Rightarrow> int \<Rightarrow> content reader" where
  "read_data single double tag bs =
     (if tag = TAG_BINARY_8 then
        bindE (read_byte bs) (\<lambda>(n, bs). bindE (read_bytes (nat n) bs) (\<lambda>(d, bs). Inr (CBytes d, bs)))
      else if tag = TAG_BINARY_20 then
        bindE (read_int20 bs) (\<lambda>(n, bs). bindE (read_bytes (nat n) bs) (\<lambda>(d, bs). Inr (CBytes d, bs)))
      else if tag = TAG_BINARY_32 then
        bindE (read_int 4 bs) (\<lambda>(n, bs). bindE (read_bytes (nat n) bs) (\<lambda>(d, bs). Inr (CBytes d, bs)))
      else bindE (read_string single double (Suc (length bs)) tag bs) (\<lambda>(s, bs). Inr (CStr s, bs)))"

fun decode_node :: "string list \<Rightarrow> string list list \<Rightarrow> nat \<Rightarrow> node reader"
  and decode_nodes :: "string list \<Rightarrow> string list list \<Rightarrow> nat \<Rightarrow> nat \<Rightarrow> node list reader" where
  "decode_node single double 0 bs = Inl OutOfFuel"
| "decode_node single double (Suc f) bs =
     bindE (read_byte bs) (\<lambda>(ltag, bs).
     bindE (read_list_size ltag bs) (\<lambda>(list_size, bs).
     bindE (read_str single double bs) (\<lambda>(header, bs).
       if list_size = 0 \<or> header = '''' then Inl (ValueError ''invalid node'')
       else
         bindE (read_attrs single double (nat ((list_size - 1) div 2)) [] bs) (\<lambda>(attrs, bs).
           if list_size mod 2 = 0 then
             bindE (read_byte bs) (\<lambda>(tag, bs).
               if is_list_tag tag then
                 bindE (read_list_size tag bs) (\<lambda>(size, bs).
                 bindE (decode_nodes single double f (nat size) bs) (\<lambda>(items, bs).
                   Inr (Node header attrs (CList items), bs)))
               else bindE (read_data single double tag bs) (\<lambda>(data, bs).
                   Inr (Node header attrs data, bs)))
           else Inr (Node header attrs CNone, bs)))))"
| "decode_nodes single double f 0 bs = Inr ([], bs)"
| "decode_nodes single double f (Suc n) bs =
     bindE (decode_node single double f bs) (\<lambda>(item, bs).
     bindE (decode_nodes single double f n bs) (\<lambda>(items, bs).
       Inr (item # items, bs)))"

text \<open>The public entry points. Bytes after the node are ignored, as in the code.\<close>

definition decode_decompressed_binary_node ::
    "string list \<Rightarrow> string list list \<Rightarrow> bytes \<Rightarrow> node result" where
  "decode_decompressed_binary_node single double buffer =
     bindE (decode_node single double (Suc (length buffer)) buffer) (\<lambda>(n, _). Inr n)"

text \<open>\<open>zlib.decompress\<close> is the parameter \<open>decompress\<close>.\<close>

definition decompressing_if_required :: "(bytes \<Rightarrow> bytes result) \<Rightarrow> bytes \<Rightarrow> bytes result" where
  "decompressing_if_required decompress buffer = (case buffer of
       [] \<Rightarrow> Inl IndexError
     | flags # rest \<Rightarrow> if byte_val flags div 2 mod 2 = 1 then decompress rest else Inr rest)"

definition decode_binary_node ::
    "(bytes \<Rightarrow> bytes result) \<Rightarrow> string list \<Rightarrow> string list list \<Rightarrow> bytes \<Rightarrow> node result" where
  "decode_binary_node decompress single double buff =
     bindE (decompressing_if_required decompress buff)
       (decode_decompressed_binary_node single double)"

section \<open>The decoder always ends\<close>

lemma read_byte_Inr: "read_byte bs = Inr (v, r) \<longleftrightarrow> (\<exists>b. bs = b # r \<and> v = byte_val b)"
  by (auto simp: read_byte_def split: list.splits)

lemma read_byte_length: "read_byte bs = Inr (v, r) \<Longrightarrow> length bs = Suc (length r)"
  by (auto simp: read_byte_Inr)

lemma read_bytes_length: "read_bytes n bs = Inr (v, r) \<Longrightarrow> length r \<le> length bs"
  by (auto simp: read_bytes_def split: if_splits)

lemma read_int_length: "read_int n bs = Inr (v, r) \<Longrightarrow> length r \<le> length bs"
  by (auto simp: read_int_def split: if_splits)

lemma read_int20_length: "read_int20 bs = Inr (v, r) \<Longrightarrow> length r \<le> length bs"
  by (auto simp: read_int20_def split: list.splits)

lemma read_list_size_length: "read_list_size t bs = Inr (v, r) \<Longrightarrow> length r \<le> length bs"
  by (auto simp: read_list_size_def dest: read_byte_length read_int_length split: if_splits)

lemma decode_str_length: "decode_str (b, bs) = Inr (s, r) \<Longrightarrow> length r \<le> length bs"
  by (auto simp: decode_str_def bindE_eq_Inr_iff)

lemma read_packed_loop_length: "read_packed_loop t n bs = Inr (s, r) \<Longrightarrow> length r \<le> length bs"
  by (induction n arbitrary: bs s) (fastforce simp: bindE_eq_Inr_iff dest: read_byte_length)+

lemma read_packed8_length: "read_packed8 t bs = Inr (s, r) \<Longrightarrow> length r \<le> length bs"
  by (auto simp: read_packed8_def bindE_eq_Inr_iff dest!: read_byte_length read_packed_loop_length)

lemmas reader_lengths = read_byte_length read_bytes_length read_int_length read_int20_length
  read_list_size_length decode_str_length read_packed8_length

lemma reader_no_fuel:
  "read_byte bs \<noteq> Inl OutOfFuel" "read_bytes n bs \<noteq> Inl OutOfFuel"
  "read_int n bs \<noteq> Inl OutOfFuel" "read_int20 bs \<noteq> Inl OutOfFuel"
  "read_list_size t bs \<noteq> Inl OutOfFuel" "decode_str p \<noteq> Inl OutOfFuel"
  "get_token_double d i j \<noteq> Inl OutOfFuel"
  by (auto simp: read_byte_def read_bytes_def read_int_def read_int20_def read_list_size_def
      decode_str_def utf8_decode_def get_token_double_def bindE_eq_Inl_iff
      split: list.splits if_splits prod.splits)

lemma unpack_byte_no_fuel: "unpack_byte t v \<noteq> Inl OutOfFuel"
  by (simp add: unpack_byte_def unpack_nibble_def unpack_hex_def)

lemma read_packed_loop_no_fuel: "read_packed_loop t n bs \<noteq> Inl OutOfFuel"
  by (induction n arbitrary: bs) (auto simp: bindE_eq_Inl_iff reader_no_fuel unpack_byte_no_fuel)

lemma read_packed8_no_fuel: "read_packed8 t bs \<noteq> Inl OutOfFuel"
  by (auto simp: read_packed8_def bindE_eq_Inl_iff reader_no_fuel read_packed_loop_no_fuel)

lemmas no_fuels = reader_no_fuel read_packed8_no_fuel

text \<open>A reader shrinks its input when it returns no more bytes than it was given.\<close>

definition shrinks :: "'a reader \<Rightarrow> bool" where
  "shrinks p \<longleftrightarrow> (\<forall>bs v r. p bs = Inr (v, r) \<longrightarrow> length r \<le> length bs)"

lemma shrinksD: "shrinks p \<Longrightarrow> p bs = Inr (v, r) \<Longrightarrow> length r \<le> length bs"
  by (simp add: shrinks_def)

lemma shrinks_bind:
  "shrinks p \<Longrightarrow> (\<And>v. shrinks (q v)) \<Longrightarrow> shrinks (\<lambda>bs. bindE (p bs) (\<lambda>(v, bs). q v bs))"
  unfolding shrinks_def bindE_eq_Inr_iff by (fastforce intro: order_trans)

lemma shrinks_if: "shrinks p \<Longrightarrow> shrinks q \<Longrightarrow> shrinks (\<lambda>bs. if c then p bs else q bs)"
  by (simp add: shrinks_def)

lemma shrinks_const: "shrinks (\<lambda>bs. Inr (v, bs))" "shrinks (\<lambda>bs. Inl e)"
  by (simp_all add: shrinks_def)

lemma shrinks_bind0:
  "(\<And>v. shrinks (q v)) \<Longrightarrow> shrinks (\<lambda>bs. bindE m (\<lambda>v. q v bs))"
  by (cases m) (simp_all add: shrinks_def)

lemma shrinks_catch:
  "shrinks p \<Longrightarrow> shrinks (\<lambda>before. case p before of Inr r \<Rightarrow> Inr r
      | Inl e \<Rightarrow> if e = OutOfFuel then Inl e else Inr (v, before))"
  by (auto simp: shrinks_def split: sum.splits if_splits)

lemma shrinks_readers:
  "shrinks read_byte" "shrinks (read_bytes n)" "shrinks (read_int n)" "shrinks read_int20"
  "shrinks (read_list_size t)" "shrinks (read_packed8 t)"
  by (auto simp: shrinks_def dest: reader_lengths)

lemma shrinks_bytes_str: "shrinks (\<lambda>bs. bindE (read_bytes n bs) decode_str)"
  unfolding shrinks_def
  by (auto simp: bindE_eq_Inr_iff dest!: read_bytes_length decode_str_length)

lemmas shrinks_intros = shrinks_bind shrinks_bind0 shrinks_if shrinks_const shrinks_readers
  shrinks_bytes_str shrinks_catch

lemma read_string_shrinks: "shrinks (read_string single double f tag)"
proof (induction f arbitrary: tag)
  case 0
  show ?case by (simp add: shrinks_def)
next
  case (Suc f)
  have "shrinks (\<lambda>bs. read_string single double (Suc f) tag bs)"
    unfolding read_string.simps(2) Let_def
    by (intro shrinks_intros Suc)
  then show ?case by simp
qed

text \<open>A reader is fuelled for inputs shorter than \<open>n\<close> when none makes it run out of fuel.\<close>

definition fuelled :: "nat \<Rightarrow> 'a reader \<Rightarrow> bool" where
  "fuelled n p \<longleftrightarrow> (\<forall>bs. length bs < n \<longrightarrow> p bs \<noteq> Inl OutOfFuel)"

lemma fuelledD: "fuelled n p \<Longrightarrow> length bs < n \<Longrightarrow> p bs \<noteq> Inl OutOfFuel"
  by (simp add: fuelled_def)

lemma fuelled_byte:
  "(\<And>v. fuelled n (q v)) \<Longrightarrow> fuelled (Suc n) (\<lambda>bs. bindE (read_byte bs) (\<lambda>(v, bs). q v bs))"
  by (auto simp: fuelled_def bindE_eq_Inl_iff reader_no_fuel read_byte_Inr)

lemma fuelled_bind:
  "shrinks p \<Longrightarrow> fuelled n p \<Longrightarrow> (\<And>v. fuelled n (q v)) \<Longrightarrow>
   fuelled n (\<lambda>bs. bindE (p bs) (\<lambda>(v, bs). q v bs))"
  unfolding fuelled_def bindE_eq_Inl_iff by (fastforce dest: shrinksD)

lemma fuelled_bind0:
  "m \<noteq> Inl OutOfFuel \<Longrightarrow> (\<And>v. fuelled n (q v)) \<Longrightarrow> fuelled n (\<lambda>bs. bindE m (\<lambda>v. q v bs))"
  by (cases m) (simp_all add: fuelled_def)

lemma fuelled_if: "fuelled n p \<Longrightarrow> fuelled n q \<Longrightarrow> fuelled n (\<lambda>bs. if c then p bs else q bs)"
  by (simp add: fuelled_def)

lemma fuelled_const: "fuelled n (\<lambda>bs. Inr (v, bs))" "e \<noteq> OutOfFuel \<Longrightarrow> fuelled n (\<lambda>bs. Inl e)"
  by (simp_all add: fuelled_def)

lemma fuelled_catch:
  "fuelled n p \<Longrightarrow> fuelled n (\<lambda>before. case p before of Inr r \<Rightarrow> Inr r
      | Inl e \<Rightarrow> if e = OutOfFuel then Inl e else Inr (v, before))"
  by (auto simp: fuelled_def split: sum.splits)

lemma fuelled_readers:
  "fuelled n read_byte" "fuelled n (read_bytes k)" "fuelled n (read_int k)" "fuelled n read_int20"
  "fuelled n (read_list_size t)" "fuelled n (read_packed8 t)"
  "fuelled n (\<lambda>bs. bindE (read_bytes k bs) decode_str)"
  by (auto simp: fuelled_def no_fuels bindE_eq_Inl_iff)

lemma read_string_fuelled: "fuelled f (read_string single double f tag)"
proof (induction f arbitrary: tag)
  case 0
  show ?case by (simp add: fuelled_def)
next
  case (Suc f)
  have "fuelled (Suc f) (\<lambda>bs. read_string single double (Suc f) tag bs)"
    unfolding read_string.simps(2) Let_def
    by (intro fuelled_if fuelled_const fuelled_byte fuelled_bind0 fuelled_readers no_fuels
        fuelled_bind [OF _ fuelled_readers(4)] fuelled_bind [OF _ fuelled_readers(3)]
        fuelled_bind [OF _ Suc] fuelled_bind [OF _ fuelled_readers(1)]
        fuelled_bind [OF _ fuelled_catch] shrinks_intros read_string_shrinks Suc) simp_all
  then show ?case by simp
qed

theorem read_string_fuel: "length bs < f \<Longrightarrow> read_string single double f tag bs \<noteq> Inl OutOfFuel"
  using fuelledD [OF read_string_fuelled] by blast

lemma shrinks_read_string_self: "shrinks (\<lambda>bs. read_string single double (Suc (length bs)) tag bs)"
  unfolding shrinks_def using shrinksD [OF read_string_shrinks] by blast

lemma fuelled_read_string_self: "fuelled n (\<lambda>bs. read_string single double (Suc (length bs)) tag bs)"
  unfolding fuelled_def using read_string_fuel by blast

lemma shrinks_read_str: "shrinks (read_str single double)"
proof -
  have "shrinks (\<lambda>bs. read_str single double bs)"
    unfolding read_str_def by (intro shrinks_intros shrinks_read_string_self)
  then show ?thesis by simp
qed

lemma fuelled_read_str: "fuelled n (read_str single double)"
proof -
  have "fuelled (Suc n) (\<lambda>bs. read_str single double bs)"
    unfolding read_str_def by (intro fuelled_byte fuelled_read_string_self)
  then show ?thesis by (simp add: fuelled_def)
qed

lemma read_attrs_reader:
  "shrinks (read_attrs single double k a) \<and> fuelled n (read_attrs single double k a)"
proof (induction k arbitrary: a)
  case 0
  show ?case by (simp add: shrinks_def fuelled_def)
next
  case (Suc k)
  have "shrinks (\<lambda>bs. read_attrs single double (Suc k) a bs)"
    unfolding read_attrs.simps by (intro shrinks_intros shrinks_read_str conjunct1 [OF Suc])
  moreover have "fuelled n (\<lambda>bs. read_attrs single double (Suc k) a bs)"
    unfolding read_attrs.simps
    by (intro fuelled_bind shrinks_read_str fuelled_read_str conjunct2 [OF Suc])
  ultimately show ?case by simp
qed

lemma read_data_reader:
  "shrinks (read_data single double tag) \<and> fuelled n (read_data single double tag)"
proof -
  have "shrinks (\<lambda>bs. read_data single double tag bs)"
    unfolding read_data_def by (intro shrinks_intros shrinks_read_string_self)
  moreover have "fuelled n (\<lambda>bs. read_data single double tag bs)"
    unfolding read_data_def
    by (intro fuelled_if fuelled_bind shrinks_readers fuelled_readers fuelled_const
        shrinks_read_string_self fuelled_read_string_self)
  ultimately show ?thesis by simp
qed

lemma decode_nodes_reader:
  assumes "shrinks (decode_node single double f)" "fuelled n (decode_node single double f)"
  shows "shrinks (decode_nodes single double f k) \<and> fuelled n (decode_nodes single double f k)"
proof (induction k)
  case 0
  show ?case by (simp add: shrinks_def fuelled_def)
next
  case (Suc k)
  have "shrinks (\<lambda>bs. decode_nodes single double f (Suc k) bs)"
    unfolding decode_nodes.simps by (intro shrinks_intros assms conjunct1 [OF Suc])
  moreover have "fuelled n (\<lambda>bs. decode_nodes single double f (Suc k) bs)"
    unfolding decode_nodes.simps
    by (intro fuelled_bind shrinks_intros fuelled_const assms conjunct1 [OF Suc] conjunct2 [OF Suc])
  ultimately show ?case by simp
qed

lemma decode_node_reader:
  "shrinks (decode_node single double f) \<and> fuelled f (decode_node single double f)"
proof (induction f)
  case 0
  show ?case by (simp add: shrinks_def fuelled_def)
next
  case (Suc f)
  note nodes = decode_nodes_reader [OF conjunct1 [OF Suc] conjunct2 [OF Suc]]
  have "shrinks (\<lambda>bs. decode_node single double (Suc f) bs)"
    unfolding decode_node.simps
    by (intro shrinks_intros shrinks_read_str conjunct1 [OF read_attrs_reader]
        conjunct1 [OF read_data_reader] conjunct1 [OF nodes])
  moreover have "fuelled (Suc f) (\<lambda>bs. decode_node single double (Suc f) bs)"
    unfolding decode_node.simps
    by (intro fuelled_byte fuelled_bind fuelled_if fuelled_const fuelled_readers shrinks_readers
        shrinks_intros shrinks_read_str fuelled_read_str read_attrs_reader [THEN conjunct1]
        read_attrs_reader [THEN conjunct2] read_data_reader [THEN conjunct1]
        read_data_reader [THEN conjunct2] nodes [THEN conjunct1] nodes [THEN conjunct2]) simp_all
  ultimately show ?case by simp
qed

theorem decode_node_fuel: "length bs < f \<Longrightarrow> decode_node single double f bs \<noteq> Inl OutOfFuel"
  using fuelledD [OF conjunct2 [OF decode_node_reader]] by blast

text \<open>
  C16. The decoder ends on every input: with the fuel it passes, running out of fuel is never the
  result, whatever the bytes.
\<close>

theorem decode_decompressed_total:
  "decode_decompressed_binary_node single double buffer \<noteq> Inl OutOfFuel"
proof -
  have "decode_node single double (Suc (length buffer)) buffer \<noteq> Inl OutOfFuel"
    by (rule decode_node_fuel) simp
  then show ?thesis
    by (auto simp: decode_decompressed_binary_node_def bindE_eq_Inl_iff)
qed

end
