(* ===== verification/Wa_Codec.thy ===== *)
theory Wa_Codec
  imports Wa_Decode
begin

text \<open>
  The encoder and the decoder of stanzas agree. The theory says which strings and nodes survive
  the wire (\<open>wire_ok\<close>, \<open>node_ok\<close>), what the decoder gives back
  (\<open>norm_node\<close>), and proves the round trip for any token tables that are consistent with
  their map: the locale \<open>token_tables\<close> is that interface.
\<close>

section \<open>What survives the wire\<close>

definition atom_ok :: "string \<Rightarrow> bool" where
  "atom_ok s \<longleftrightarrow> CHR ''@'' \<notin> set s \<and> str_valid s \<and> length s < 4294967296"

definition ad_servers :: "string list" where
  "ad_servers = [''s.whatsapp.net'', ''lid'', ''hosted'', ''hosted.lid'']"

text \<open>
  A string survives when it is a token, can be packed, has no \<open>@\<close>, or is a JID written the
  way the decoder prints it: its user has neither agent nor stray separator, and a device is
  between 1 and 255 and its server one of the four that the domain byte stands for.
\<close>

definition wire_ok :: "token_map \<Rightarrow> string \<Rightarrow> bool" where
  "wire_ok tm s \<longleftrightarrow> tm s \<noteq> None \<or> is_nibble s \<or> is_hex s \<or> atom_ok s \<or>
     (case jid_decode (Some s) of
        Inr (Some d) \<Rightarrow>
          jid_encode (Some (jid_user d)) (jid_server d) (jid_device d) None = s \<and>
          atom_ok (jid_user d) \<and> atom_ok (jid_server d) \<and>
          (case jid_device d of
             None \<Rightarrow> jid_server d \<noteq> ''''
           | Some dev \<Rightarrow> 0 < dev \<and> dev < 256 \<and> jid_server d \<in> set ad_servers)
      | _ \<Rightarrow> False)"

text \<open>The strings the encoder writes as raw bytes.\<close>

definition raw_written :: "token_map \<Rightarrow> string \<Rightarrow> bool" where
  "raw_written tm s \<longleftrightarrow>
     s = '''' \<or> (tm s = None \<and> \<not> is_nibble s \<and> \<not> is_hex s \<and> CHR ''@'' \<notin> set s)"

definition attr_ok :: "token_map \<Rightarrow> string \<times> attr_value \<Rightarrow> bool" where
  "attr_ok tm a = (case a of (k, v) \<Rightarrow>
     (case v of ANone \<Rightarrow> True | AStr s \<Rightarrow> wire_ok tm k \<and> wire_ok tm s | AInt i \<Rightarrow> False))"

fun node_ok :: "token_map \<Rightarrow> node \<Rightarrow> bool"
  and content_ok :: "token_map \<Rightarrow> content \<Rightarrow> bool"
  and nodes_ok :: "token_map \<Rightarrow> node list \<Rightarrow> bool" where
  "node_ok tm (Node tag attrs content) \<longleftrightarrow>
     tag \<noteq> '''' \<and> wire_ok tm tag \<and> dict_wf attrs \<and> list_all (attr_ok tm) attrs \<and>
     2 * length attrs + 2 < 65536 \<and> content_ok tm content"
| "content_ok tm CNone \<longleftrightarrow> True"
| "content_ok tm (CStr s) \<longleftrightarrow> wire_ok tm s"
| "content_ok tm (CBytes b) \<longleftrightarrow> length b < 4294967296"
| "content_ok tm (CList ns) \<longleftrightarrow> length ns < 65536 \<and> nodes_ok tm ns"
| "content_ok tm COther \<longleftrightarrow> False"
| "nodes_ok tm [] \<longleftrightarrow> True"
| "nodes_ok tm (n # ns) \<longleftrightarrow> (node_tag n = '''' \<or> node_ok tm n) \<and> nodes_ok tm ns"

text \<open>
  What comes back: attributes that are None and children without a tag are gone, and text that
  was written raw reads back as its bytes.
\<close>

fun norm_node :: "token_map \<Rightarrow> node \<Rightarrow> node"
  and norm_content :: "token_map \<Rightarrow> content \<Rightarrow> content"
  and norm_nodes :: "token_map \<Rightarrow> node list \<Rightarrow> node list" where
  "norm_node tm (Node tag attrs content) = Node tag (valid_attributes attrs) (norm_content tm content)"
| "norm_content tm CNone = CNone"
| "norm_content tm (CStr s) = (if raw_written tm s then CBytes (utf8_encode s) else CStr s)"
| "norm_content tm (CBytes b) = CBytes b"
| "norm_content tm (CList ns) = CList (norm_nodes tm ns)"
| "norm_content tm COther = COther"
| "norm_nodes tm [] = []"
| "norm_nodes tm (n # ns) = (if node_tag n = '''' then norm_nodes tm ns else norm_node tm n # norm_nodes tm ns)"

lemma wire_ok_atom: "atom_ok s \<Longrightarrow> wire_ok tm s"
  by (simp add: wire_ok_def)

lemma wire_ok_device:
  assumes "clean_user u" and "atom_ok u" and "0 < dev" and "dev < 256" and "srv \<in> set ad_servers"
    and "s = u @ CHR '':'' # int_str dev @ CHR ''@'' # srv"
  shows "wire_ok tm s"
proof -
  have "atom_ok srv" using assms(5) unfolding ad_servers_def by (auto simp: atom_ok_def intro!: ascii_valid) (simp_all add: ascii_def)
  with assms show ?thesis
    using jid_decode_device [OF assms(1), of dev srv] by (simp add: wire_ok_def jid_encode_device)
qed

section \<open>Lengths\<close>

lemma read_byte_Cons [simp]: "read_byte (b # r) = Inr (byte_val b, r)"
  by (simp add: read_byte_def)

lemma read_bytes_append [simp]: "length b = n \<Longrightarrow> read_bytes n (b @ r) = Inr (b, r)"
  by (simp add: read_bytes_def)

lemma read_int20_push: "n < 1048576 \<Longrightarrow> read_int20 (push_int20 (int n) @ r) = Inr (int n, r)"
proof -
  assume n: "n < 1048576"
  define q where "q = int n div 256"
  have n1: "256 * q + int n mod 256 = int n" unfolding q_def by simp
  have q1: "256 * (q div 256) + q mod 256 = q" by simp
  have "q div 256 = int n div 65536" by (simp add: q_def zdiv_zmult2_eq [symmetric])
  then have "int n div 65536 * 65536 + q mod 256 * 256 + int n mod 256 = int n"
    using n1 q1 by linarith
  moreover have "0 \<le> int n div 65536" "int n div 65536 < 16" using n by simp_all
  ultimately show ?thesis using n by (simp add: read_int20_def push_int20_def q_def)
qed

lemma read_int2: "read_int 2 (x # y # r) = Inr (byte_val x * 256 + byte_val y, r)"
  by (simp add: read_int_def numeral_2_eq_2)

lemma read_int_be: "n < 256 ^ k \<Longrightarrow> read_int k (be_bytes k (int n) @ r) = Inr (int n, r)"
proof -
  assume "n < 256 ^ k"
  then have "int n < 256 ^ k" by (metis of_nat_less_iff of_nat_numeral of_nat_power)
  then show ?thesis by (simp add: read_int_def be_val_be_bytes)
qed

lemma write_byte_length_cases:
  assumes "n < 4294967296"
  obtains (b8) "n < 256" "write_byte_length n = Inr [to_byte TAG_BINARY_8, to_byte (int n)]"
  | (b20) "n < 1048576" "write_byte_length n = Inr (to_byte TAG_BINARY_20 # push_int20 (int n))"
  | (b32) "write_byte_length n = Inr (to_byte TAG_BINARY_32 # be_bytes 4 (int n))"
  using assms by (cases "n < 256"; cases "n < 1048576") (auto simp: write_byte_length_def)

lemma list_start_read:
  assumes "n < 65536"
  shows "\<exists>t w. write_list_start n = t # w \<and> is_list_tag (byte_val t) \<and>
           (\<forall>r. read_list_size (byte_val t) (w @ r) = Inr (int n, r))"
proof (cases "n < 256")
  case True
  then show ?thesis by (cases "n = 0") (auto simp: write_list_start_def is_list_tag_def read_list_size_def)
next
  case False
  have "0 \<le> int n div 256" "int n div 256 < 256" using assms by simp_all
  then have e: "int n div 256 mod 256 * 256 + int n mod 256 = int n" by simp
  have "read_int 2 (to_byte (int n div 256) # to_byte (int n) # r) = Inr (int n, r)" for r
    by (simp only: read_int2 byte_val_to_byte e)
  with False show ?thesis
    by (simp add: write_list_start_def is_list_tag_def read_list_size_def)
qed

section \<open>Packed strings\<close>

lemma nibble_or: "0 \<le> a \<Longrightarrow> a < 16 \<Longrightarrow> 0 \<le> b \<Longrightarrow> b < 16 \<Longrightarrow> push_bit 4 a OR b = 16 * a + (b::int)"
proof -
  assume ab: "0 \<le> a" "a < 16" "0 \<le> b" "b < 16"
  have "list_all (\<lambda>a. list_all (\<lambda>b. push_bit 4 a OR b = 16 * a + (b::int)) [0..15]) [0..15]"
    by code_simp
  with ab show ?thesis by (simp only: list_all_iff) simp
qed

lemma half_or: "0 \<le> a \<Longrightarrow> a < 128 \<Longrightarrow> a OR 128 = a + (128::int)"
proof -
  assume a: "0 \<le> a" "a < 128"
  have "list_all (\<lambda>a. a OR 128 = a + (128::int)) [0..127]" by code_simp
  with a show ?thesis by (simp only: list_all_iff) simp
qed

definition packed_tag :: "packed \<Rightarrow> int" where
  "packed_tag t = (case t of Nibble \<Rightarrow> TAG_NIBBLE_8 | Hex \<Rightarrow> TAG_HEX_8)"

definition packable :: "packed \<Rightarrow> char \<Rightarrow> bool" where
  "packable t c \<longleftrightarrow> (case t of
      Nibble \<Rightarrow> is_digit c \<or> c = CHR ''-'' \<or> c = CHR ''.''
    | Hex \<Rightarrow> is_digit c \<or> 65 \<le> (of_char c :: int) \<and> (of_char c :: int) \<le> 70)"

lemma char_of_of_char_int [simp]: "char_of (of_char c :: int) = c"
  by simp

lemma char_of_marks: "char_of (45::int) = CHR ''-''" "char_of (46::int) = CHR ''.''"
  by code_simp+

lemma is_digit_int: "is_digit c \<longleftrightarrow> 48 \<le> (of_char c :: int) \<and> (of_char c :: int) \<le> 57"
  unfolding is_digit_def using of_nat_of_char [of c, where ?'a = int] by linarith

lemma pack_char:
  assumes "packable t c"
  shows "\<exists>v k. pack_fn t c = Inr v \<and> 0 \<le> v \<and> v < 16 \<and> unpack_byte (packed_tag t) v = Inr k \<and> char_of k = c"
proof -
  consider (digit) "is_digit c" | (dash) "c = CHR ''-''" "t = Nibble" | (dot) "c = CHR ''.''" "t = Nibble"
    | (hex) "\<not> is_digit c" "65 \<le> (of_char c :: int)" "(of_char c :: int) \<le> 70" "t = Hex"
    using assms by (auto simp: packable_def split: packed.splits)
  then show ?thesis
  proof cases
    case digit
    then have d: "48 \<le> (of_char c :: int)" "(of_char c :: int) \<le> 57" by (simp_all add: is_digit_int)
    have "c \<noteq> CHR ''-''" "c \<noteq> CHR ''.''" "c \<noteq> CHR 0x00"
      using digit by (auto simp: is_digit_def)
    with digit d show ?thesis
      by (cases t) (auto simp: pack_fn_def pack_nibble_def pack_hex_def unpack_byte_def packed_tag_def
          unpack_nibble_def unpack_hex_def digit_val_def Let_def)
  next
    case dash
    then show ?thesis
      by (simp add: pack_fn_def pack_nibble_def unpack_byte_def packed_tag_def unpack_nibble_def char_of_marks)
  next
    case dot
    then show ?thesis
      by (simp add: pack_fn_def pack_nibble_def unpack_byte_def packed_tag_def unpack_nibble_def char_of_marks)
  next
    case hex
    then show ?thesis
      by (auto simp: pack_fn_def pack_hex_def unpack_byte_def packed_tag_def unpack_hex_def Let_def)
  qed
qed

lemma pack_nul: "\<exists>v k. pack_fn t (CHR 0x00) = Inr v \<and> 0 \<le> v \<and> v < 16 \<and> unpack_byte (packed_tag t) v = Inr k"
  by (cases t) (auto simp: pack_fn_def pack_nibble_def pack_hex_def unpack_byte_def packed_tag_def
      unpack_nibble_def unpack_hex_def is_digit_def Let_def)

lemma pack_pair_read:
  assumes "packable t c" and "packable t d \<or> d = CHR 0x00"
  shows "\<exists>p a b. pack_pair t c d = Inr p \<and> unpack_byte (packed_tag t) (byte_val (to_byte p) div 16) = Inr a \<and>
     unpack_byte (packed_tag t) (byte_val (to_byte p) mod 16) = Inr b \<and> char_of a = c \<and>
     (packable t d \<longrightarrow> char_of b = d)"
proof -
  obtain v k where v: "pack_fn t c = Inr v" "0 \<le> v" "v < 16" "unpack_byte (packed_tag t) v = Inr k" "char_of k = c"
    using pack_char [OF assms(1)] by blast
  obtain w l where w: "pack_fn t d = Inr w" "0 \<le> w" "w < 16" "unpack_byte (packed_tag t) w = Inr l"
    "packable t d \<longrightarrow> char_of l = d"
    using assms(2) pack_char [of t d] pack_nul [of t] by blast
  have p: "push_bit 4 v OR w = 16 * v + w" by (rule nibble_or) (use v w in simp_all)
  have "byte_val (to_byte (16 * v + w)) = 16 * v + w" using v w by simp
  moreover have "(16 * v + w) div 16 = v" "(16 * v + w) mod 16 = w" using w(2,3) by simp_all
  ultimately show ?thesis using v w p by (simp add: pack_pair_def)
qed

lemma pack_chars_read:
  "list_all (packable t) s \<Longrightarrow>
   \<exists>bs e. pack_chars t s = Inr bs \<and>
     (\<forall>r. read_packed_loop (packed_tag t) ((length s + 1) div 2) (bs @ r) = Inr (s @ e, r)) \<and>
     length e = length s mod 2"
proof (induction t s rule: pack_chars.induct)
  case (1 t)
  show ?case by simp
next
  case (2 t c)
  then obtain p a b where "pack_pair t c (CHR 0x00) = Inr p"
    "unpack_byte (packed_tag t) (byte_val (to_byte p) div 16) = Inr a"
    "unpack_byte (packed_tag t) (byte_val (to_byte p) mod 16) = Inr b" "char_of a = c"
    using pack_pair_read [of t c "CHR 0x00"] by auto
  then show ?case by (auto simp del: byte_val_to_byte)
next
  case (3 t c d cs)
  then obtain p a b where p: "pack_pair t c d = Inr p"
    "unpack_byte (packed_tag t) (byte_val (to_byte p) div 16) = Inr a"
    "unpack_byte (packed_tag t) (byte_val (to_byte p) mod 16) = Inr b" "char_of a = c" "char_of b = d"
    using pack_pair_read [of t c d] by auto
  moreover obtain bs e where "pack_chars t cs = Inr bs"
    "\<And>r. read_packed_loop (packed_tag t) ((length cs + 1) div 2) (bs @ r) = Inr (cs @ e, r)"
    "length e = length cs mod 2"
    using "3.IH" [OF p(1)] "3.prems" by auto
  ultimately show ?case by (auto simp del: byte_val_to_byte)
qed

lemma packed_roundtrip:
  assumes "list_all (packable t) s" and "length s \<le> PACKED_MAX"
  shows "\<exists>w. write_packed_bytes s t = Inr (to_byte (packed_tag t) # w) \<and>
           (\<forall>r. read_packed8 (packed_tag t) (w @ r) = Inr (s, r))"
proof -
  obtain bs e where bs: "pack_chars t s = Inr bs"
    "\<And>r. read_packed_loop (packed_tag t) ((length s + 1) div 2) (bs @ r) = Inr (s @ e, r)"
    "length e = length s mod 2"
    using pack_chars_read [OF assms(1)] by blast
  define h where "h = int (Suc (length s) div 2)"
  have h: "0 \<le> h" "h < 128" "nat h = (length s + 1) div 2" using assms(2) by (simp_all add: h_def)
  have o: "h OR 128 = h + 128" using h by (intro half_or) simp_all
  have b: "butlast (s @ e) = s" if "length e = 1"
    using that by (cases e) (auto simp: butlast_append)
  have m: "(h + 128) mod 256 mod 128 = h" "(h + 128) mod 256 div 128 = 1"
    "h mod 256 mod 128 = h" "h mod 256 div 128 = 0"
    using h(1,2) by simp_all
  show ?thesis
  proof (cases "length s mod 2 = 0")
    case True
    with bs h m assms(2) show ?thesis
      by (cases t) (auto simp: write_packed_bytes_def read_packed8_def packed_tag_def h_def [symmetric])
  next
    case False
    then have "length s mod 2 = 1" by simp
    with bs h m o b assms(2) show ?thesis
      by (cases t) (auto simp: write_packed_bytes_def read_packed8_def packed_tag_def h_def [symmetric])
  qed
qed

section \<open>Raw strings\<close>

text \<open>
  The header of a raw string, read back by both of its readers: as a string and as the data of a
  node.
\<close>

lemma raw_read:
  assumes "length b < 4294967296" and "length single \<le> 236"
  shows "\<exists>t w. write_byte_length (length b) = Inr (t # w) \<and>
     byte_val t \<in> {TAG_BINARY_8, TAG_BINARY_20, TAG_BINARY_32} \<and>
     (\<forall>f r. read_string single double (Suc f) (byte_val t) (w @ b @ r) = decode_str (b, r)) \<and>
     (\<forall>r. read_data single double (byte_val t) (w @ b @ r) = Inr (CBytes b, r))"
  using assms(1)
proof (cases rule: write_byte_length_cases)
  case b8
  with assms(2) show ?thesis by (simp add: read_string.simps(2) read_data_def)
next
  case b20
  with assms(2) show ?thesis by (simp add: read_string.simps(2) read_data_def read_int20_push)
next
  case b32
  have "length b < 256 ^ 4" using assms(1) by simp
  then have "read_int 4 (be_bytes 4 (int (length b)) @ b @ r) = Inr (int (length b), b @ r)" for r
    by (rule read_int_be)
  with b32 assms(2) show ?thesis by (simp add: read_string.simps(2) read_data_def)
qed

section \<open>The round trip, for consistent tables\<close>

locale token_tables =
  fixes tm :: token_map
    and single :: "string list"
    and double :: "string list list"
  assumes single_length: "length single \<le> 236"
    and double_length: "length double \<le> 4"
    and tm_single: "tm s = Some (None, i) \<Longrightarrow> s \<noteq> '''' \<Longrightarrow>
          1 \<le> i \<and> i < length single \<and> single ! i = s"
    and tm_double: "tm s = Some (Some d, i) \<Longrightarrow>
          d < length double \<and> i < length (double ! d) \<and> i < 256 \<and> double ! d ! i = s"
begin

text \<open>
  What the encoder writes for a string: a first byte \<open>t\<close> and the rest \<open>w\<close>, from
  which the decoder reads the string back; the first byte tells raw strings from the others and
  both from lists.
\<close>

definition string_rt :: "string \<Rightarrow> byte \<Rightarrow> bytes \<Rightarrow> bool" where
  "string_rt s t w \<longleftrightarrow>
     write_string tm (Some s) = Inr (t # w) \<and> \<not> is_list_tag (byte_val t) \<and>
     (byte_val t \<in> {TAG_BINARY_8, TAG_BINARY_20, TAG_BINARY_32} \<longleftrightarrow> raw_written tm s) \<and>
     (raw_written tm s \<longrightarrow>
       (\<forall>r. read_data single double (byte_val t) (w @ r) = Inr (CBytes (utf8_encode s), r))) \<and>
     (\<forall>f r. length (w @ r) \<le> f \<longrightarrow> read_string single double (Suc f) (byte_val t) (w @ r) = Inr (s, r))"

lemma write_string_raw_rt:
  assumes "raw_written tm s" and "str_valid s" and "length s < 4294967296"
  shows "\<exists>t w. string_rt s t w"
proof -
  obtain t w where t: "write_byte_length (length (utf8_encode s)) = Inr (t # w)"
     "byte_val t \<in> {TAG_BINARY_8, TAG_BINARY_20, TAG_BINARY_32}"
     "\<And>f r. read_string single double (Suc f) (byte_val t) (w @ utf8_encode s @ r) = decode_str (utf8_encode s, r)"
     "\<And>r. read_data single double (byte_val t) (w @ utf8_encode s @ r) = Inr (CBytes (utf8_encode s), r)"
    using raw_read [of "utf8_encode s" single double] assms(3) single_length by auto
  have "write_string tm (Some s) = write_string_raw s"
    using assms(1) jid_decode_None [of s] by (auto simp: raw_written_def write_string.simps(2))
  then have "write_string tm (Some s) = Inr (t # w @ utf8_encode s)"
    using t(1) by (simp add: write_string_raw_def)
  moreover have "decode_str (utf8_encode s, r) = Inr (s, r)" for r
    using assms(2) by (simp add: decode_str_def utf8_decode_encode)
  ultimately have "string_rt s t (w @ utf8_encode s)"
    using t assms(1) unfolding string_rt_def by (auto simp: is_list_tag_def)
  then show ?thesis by blast
qed

lemma write_string_token_rt:
  assumes "s \<noteq> ''''" and "tm s = Some (d, i)"
  shows "\<exists>t w. string_rt s t w"
proof (cases d)
  case None
  with assms tm_single [of s i] have "1 \<le> i" "i < length single" "single ! i = s" by auto
  with None assms single_length have "string_rt s (to_byte (int i)) []"
    by (simp add: string_rt_def write_string.simps(2) read_string.simps(2) is_list_tag_def raw_written_def)
  then show ?thesis by blast
next
  case (Some k)
  with assms tm_double [of s k i]
  have k: "k < length double" "i < length (double ! k)" "i < 256" "double ! k ! i = s" by auto
  with Some assms single_length double_length
  have "string_rt s (to_byte (TAG_DICTIONARY_0 + int k)) [to_byte (int i)]"
    by (simp add: string_rt_def write_string.simps(2) read_string.simps(2) is_list_tag_def raw_written_def
        get_token_double_def)
  then show ?thesis by blast
qed

lemma write_string_packed_rt:
  assumes "tm s = None" and "is_nibble s \<or> is_hex s"
  shows "\<exists>t w. string_rt s t w"
proof -
  define p where "p = (if is_nibble s then Nibble else Hex)"
  have "list_all (packable p) s" "length s \<le> PACKED_MAX" "s \<noteq> ''''"
    using assms(2) by (auto simp: p_def is_nibble_def is_hex_def packable_def list_all_iff)
  moreover from this obtain w where "write_packed_bytes s p = Inr (to_byte (packed_tag p) # w)"
    "\<And>r. read_packed8 (packed_tag p) (w @ r) = Inr (s, r)"
    using packed_roundtrip [of p s] by blast
  moreover have "write_string tm (Some s) = write_packed_bytes s p"
    using assms \<open>s \<noteq> ''''\<close> by (auto simp: write_string.simps(2) p_def)
  moreover have "packed_tag p = 251 \<or> packed_tag p = 255" by (cases p) (simp_all add: packed_tag_def)
  ultimately have "string_rt s (to_byte (packed_tag p)) w"
    using assms single_length
    by (auto simp: string_rt_def read_string.simps(2) is_list_tag_def raw_written_def)
  then show ?thesis by blast
qed

lemma write_string_atom_rt:
  assumes "atom_ok s"
  shows "\<exists>t w. string_rt s t w"
proof (cases "raw_written tm s")
  case True
  then show ?thesis using assms write_string_raw_rt by (simp add: atom_ok_def)
next
  case False
  then have "s \<noteq> ''''" "tm s \<noteq> None \<or> is_nibble s \<or> is_hex s"
    using assms by (auto simp: raw_written_def atom_ok_def)
  then show ?thesis using write_string_token_rt write_string_packed_rt by fastforce
qed

end

context token_tables begin

lemma write_string_pair_rt:
  assumes "clean_user u" and "atom_ok u" and "atom_ok srv" and "srv \<noteq> ''''"
    and "tm s = None" and "\<not> is_nibble s" and "\<not> is_hex s" and s: "s = u @ CHR ''@'' # srv"
  shows "\<exists>t w. string_rt s t w"
proof -
  obtain ts ws where srv: "string_rt srv ts ws"
    using write_string_atom_rt [OF assms(3)] by blast
  obtain tu wu where u: "(if u \<noteq> '''' then write_string tm (Some u) else Inr [to_byte TAG_LIST_EMPTY]) = Inr (tu # wu)"
    "\<And>f r. length (wu @ r) \<le> f \<Longrightarrow> read_string single double (Suc f) (byte_val tu) (wu @ r) = Inr (u, r)"
  proof (cases "u = ''''")
    case True
    with single_length show thesis by (intro that [of "to_byte 0" "[]"]) (simp_all add: read_string.simps(2))
  next
    case False
    obtain t w where "string_rt u t w" using write_string_atom_rt [OF assms(2)] by blast
    with False show thesis by (intro that [of t w]) (simp_all add: string_rt_def)
  qed
  have d: "jid_decode (Some s) =
      Inr (Some \<lparr>jid_user = u, jid_server = srv, jid_device = None, jid_domain = server_domain srv\<rparr>)"
    using jid_decode_plain [OF assms(1)] s by simp
  have ne: "s \<noteq> []" using s by simp
  have "write_string tm (Some srv) = Inr (ts # ws)" using srv by (simp only: string_rt_def)
  then have "write_jid tm \<lparr>jid_user = u, jid_server = srv, jid_device = None, jid_domain = server_domain srv\<rparr>
      = Inr (to_byte TAG_JID_PAIR # (tu # wu) @ ts # ws)"
    using u(1) by (cases "u = []") (simp_all add: write_jid.simps)
  then have "write_string tm (Some s) = Inr (to_byte TAG_JID_PAIR # (tu # wu) @ ts # ws)"
    using write_string_jid [of s tm, OF ne assms(5-7) d] by simp
  moreover have "read_string single double (Suc f) TAG_JID_PAIR (((tu # wu) @ ts # ws) @ r) = Inr (s, r)"
    if "length (((tu # wu) @ ts # ws) @ r) \<le> f" for f r
  proof -
    from that obtain g where f: "f = Suc g" by (cases f) auto
    have "read_string single double (Suc g) (byte_val tu) (wu @ ts # ws @ r) = Inr (u, ts # ws @ r)"
      using u(2) [of "ts # ws @ r" g] that f by simp
    moreover have "read_string single double (Suc g) (byte_val ts) (ws @ r) = Inr (srv, r)"
      using srv that f by (simp add: string_rt_def)
    ultimately show ?thesis
      using single_length assms(4) s f by (simp add: read_string_jid_pair)
  qed
  moreover have "\<not> raw_written tm s" using s by (simp add: raw_written_def)
  ultimately have "string_rt s (to_byte TAG_JID_PAIR) ((tu # wu) @ ts # ws)"
    by (simp add: string_rt_def is_list_tag_def)
  then show ?thesis by blast
qed

lemma write_string_ad_rt:
  assumes "clean_user u" and "atom_ok u" and "0 < dev" and "dev < 256" and "srv \<in> set ad_servers"
    and "tm s = None" and "\<not> is_nibble s" and "\<not> is_hex s"
    and s: "s = u @ CHR '':'' # int_str dev @ CHR ''@'' # srv"
  shows "\<exists>t w. string_rt s t w"
proof -
  obtain tu wu where u: "string_rt u tu wu" using write_string_atom_rt [OF assms(2)] by blast
  have d: "jid_decode (Some s) =
      Inr (Some \<lparr>jid_user = u, jid_server = srv, jid_device = Some dev, jid_domain = server_domain srv\<rparr>)"
    using jid_decode_device [OF assms(1)] assms(3) s by simp
  define dm where "dm = domain_int (server_domain srv)"
  have ne: "s \<noteq> []" using s by simp
  have "write_string tm (Some u) = Inr (tu # wu)" using u by (simp only: string_rt_def)
  then have "write_jid tm \<lparr>jid_user = u, jid_server = srv, jid_device = Some dev, jid_domain = server_domain srv\<rparr>
      = Inr (to_byte TAG_AD_JID # to_byte dm # to_byte dev # tu # wu)"
    by (simp add: write_jid.simps dm_def)
  then have "write_string tm (Some s) = Inr (to_byte TAG_AD_JID # to_byte dm # to_byte dev # tu # wu)"
    using write_string_jid [of s tm, OF ne assms(6-8) d] by simp
  moreover have dm: "dm mod 256 = dm" "(if dm = 1 then ''lid'' else if dm = 128 then ''hosted''
      else if dm = 129 then ''hosted.lid'' else ''s.whatsapp.net'') = srv"
    using assms(5) by (auto simp: dm_def ad_servers_def server_domain_def)
  have "read_string single double (Suc f) TAG_AD_JID ((to_byte dm # to_byte dev # tu # wu) @ r) = Inr (s, r)"
    if "length ((to_byte dm # to_byte dev # tu # wu) @ r) \<le> f" for f r
  proof -
    from that obtain g where f: "f = Suc g" by (cases f) auto
    have "read_string single double (Suc g) (byte_val tu) (wu @ r) = Inr (u, r)"
      using u that f by (simp add: string_rt_def)
    then show ?thesis
      using single_length assms(3,4) s f dm jid_encode_device [of dev u srv]
      by (simp add: read_string_ad_jid Let_def del: if_split)
  qed
  moreover have "\<not> raw_written tm s" using s by (simp add: raw_written_def)
  ultimately have "string_rt s (to_byte TAG_AD_JID) (to_byte dm # to_byte dev # tu # wu)"
    by (simp add: string_rt_def is_list_tag_def)
  then show ?thesis by blast
qed

theorem write_string_rt:
  assumes "wire_ok tm s"
  shows "\<exists>t w. string_rt s t w"
proof (cases "atom_ok s \<or> tm s \<noteq> None \<or> is_nibble s \<or> is_hex s")
  case True
  moreover have "s = '''' \<Longrightarrow> atom_ok s" by (simp add: atom_ok_def str_valid_def utf8_encode_def)
  ultimately show ?thesis
    using write_string_atom_rt write_string_token_rt write_string_packed_rt by fastforce
next
  case False
  then obtain d where d: "jid_decode (Some s) = Inr (Some d)"
      "jid_encode (Some (jid_user d)) (jid_server d) (jid_device d) None = s"
      "atom_ok (jid_user d)" "atom_ok (jid_server d)"
      "case jid_device d of None \<Rightarrow> jid_server d \<noteq> ''''
         | Some dev \<Rightarrow> 0 < dev \<and> dev < 256 \<and> jid_server d \<in> set ad_servers"
    using assms by (auto simp: wire_ok_def split: sum.splits option.splits)
  have c: "clean_user (jid_user d)" using jid_decode_SomeD [OF d(1)] by blast
  show ?thesis
  proof (cases "jid_device d")
    case None
    then have e: "s = jid_user d @ CHR ''@'' # jid_server d" "jid_server d \<noteq> ''''"
      using d(2,5) by (simp_all add: jid_encode_plain)
    show ?thesis
      by (rule write_string_pair_rt [OF c d(3,4) e(2) _ _ _ e(1)]) (use False in blast)+
  next
    case (Some dev)
    then have e: "0 < dev" "dev < 256" "jid_server d \<in> set ad_servers"
      "s = jid_user d @ CHR '':'' # int_str dev @ CHR ''@'' # jid_server d"
      using d(2,5) by (simp_all add: jid_encode_device)
    show ?thesis
      by (rule write_string_ad_rt [OF c d(3) e(1-3) _ _ _ e(4)]) (use False in blast)+
  qed
qed

corollary read_str_rt:
  assumes "wire_ok tm s"
  shows "\<exists>b. write_string tm (Some s) = Inr b \<and> b \<noteq> [] \<and>
     (\<forall>r. read_str single double (b @ r) = Inr (s, r))"
proof -
  obtain t w where "string_rt s t w" using write_string_rt [OF assms] by blast
  then show ?thesis by (intro exI [of _ "t # w"]) (simp add: string_rt_def read_str_def)
qed

end

context token_tables begin


lemma attrs_rt:
  assumes "list_all (attr_ok tm) a" and "dict_wf (acc @ a)"
  shows "\<exists>b. write_attrs tm (valid_attributes a) = Inr b \<and>
     (\<forall>r. read_attrs single double (length (valid_attributes a)) acc (b @ r) = Inr (acc @ valid_attributes a, r))"
  using assms
proof (induction a arbitrary: acc)
  case Nil
  show ?case by (simp add: valid_attributes_def)
next
  case (Cons p a)
  obtain k v where p: "p = (k, v)" by (cases p)
  show ?case
  proof (cases v)
    case ANone
    have "dict_wf (acc @ a)" using Cons.prems by (auto simp: dict_wf_def)
    with Cons p ANone show ?thesis by (simp add: valid_attributes_def)
  next
    case (AInt i)
    with Cons.prems p show ?thesis by (simp add: attr_ok_def)
  next
    case (AStr s)
    with Cons.prems p have ok: "wire_ok tm k" "wire_ok tm s" by (simp_all add: attr_ok_def)
    obtain bk where bk: "write_string tm (Some k) = Inr bk"
      "\<And>r. read_str single double (bk @ r) = Inr (k, r)" using read_str_rt [OF ok(1)] by blast
    obtain bs where bs: "write_string tm (Some s) = Inr bs"
      "\<And>r. read_str single double (bs @ r) = Inr (s, r)" using read_str_rt [OF ok(2)] by blast
    have wf: "dict_wf ((acc @ [(k, AStr s)]) @ a)" "k \<notin> set (map fst acc)"
      using Cons.prems p AStr by (auto simp: dict_wf_def)
    obtain b where b: "write_attrs tm (valid_attributes a) = Inr b"
      "\<And>r. read_attrs single double (length (valid_attributes a)) (acc @ [(k, AStr s)]) (b @ r)
            = Inr ((acc @ [(k, AStr s)]) @ valid_attributes a, r)"
      using Cons.IH [OF _ wf(1)] Cons.prems by auto
    have v: "valid_attributes (p # a) = (k, AStr s) # valid_attributes a"
      using p AStr by (simp add: valid_attributes_def)
    have "write_attrs tm (valid_attributes (p # a)) = Inr (bk @ bs @ b)"
      using bk(1) bs(1) b(1) unfolding v by simp
    moreover have "read_attrs single double (length (valid_attributes (p # a))) acc ((bk @ bs @ b) @ r)
        = Inr (acc @ valid_attributes (p # a), r)" for r
      using bk(2) bs(2) b(2) dict_set_append [OF wf(2)] unfolding v by simp
    ultimately show ?thesis by blast
  qed
qed

text \<open>
  One node, its content and its children, by the recursion of the encoder. The fuel a node needs is
  at most the number of bytes it was encoded to.
\<close>

definition node_rt :: "node \<Rightarrow> bool" where
  "node_rt n \<longleftrightarrow> (\<exists>b. encode_node tm n = Inr b \<and> b \<noteq> [] \<and>
     (\<forall>f r. length b \<le> f \<longrightarrow> decode_node single double f (b @ r) = Inr (norm_node tm n, r)))"

definition nodes_rt :: "node list \<Rightarrow> bool" where
  "nodes_rt ns \<longleftrightarrow> (\<exists>b. encode_nodes tm ns = Inr b \<and>
     (\<forall>f r. length b \<le> f \<longrightarrow>
        decode_nodes single double f (length (valid_content ns)) (b @ r) = Inr (norm_nodes tm ns, r)))"

text \<open>The bytes of the content of a node, as the decoder of the node reads them.\<close>

definition content_reader :: "nat \<Rightarrow> string \<Rightarrow> attrs \<Rightarrow> node reader" where
  "content_reader f header attrs bs =
     bindE (read_byte bs) (\<lambda>(tag, bs).
       if is_list_tag tag then
         bindE (read_list_size tag bs) (\<lambda>(size, bs).
         bindE (decode_nodes single double f (nat size) bs) (\<lambda>(items, bs).
           Inr (Node header attrs (CList items), bs)))
       else bindE (read_data single double tag bs) (\<lambda>(data, bs).
           Inr (Node header attrs data, bs)))"

definition content_rt :: "content \<Rightarrow> bool" where
  "content_rt c \<longleftrightarrow> (\<exists>b. encode_content tm c = Inr b \<and>
     (c \<noteq> CNone \<longrightarrow> (\<forall>f r h a. length b \<le> f \<longrightarrow>
        content_reader f h a (b @ r) = Inr (Node h a (norm_content tm c), r))))"

lemma content_rt_str:
  assumes "wire_ok tm s"
  shows "content_rt (CStr s)"
proof -
  obtain t w where rt: "string_rt s t w" using write_string_rt [OF assms] by blast
  have "read_data single double (byte_val t) (w @ r) = Inr (norm_content tm (CStr s), r)" for r
  proof (cases "raw_written tm s")
    case True
    with rt show ?thesis by (simp add: string_rt_def)
  next
    case False
    with rt have "byte_val t \<noteq> 252 \<and> byte_val t \<noteq> 253 \<and> byte_val t \<noteq> 254" by (simp add: string_rt_def)
    with rt False show ?thesis by (simp add: string_rt_def read_data_def)
  qed
  with rt show ?thesis
    unfolding content_rt_def by (intro exI [of _ "t # w"]) (simp add: string_rt_def content_reader_def)
qed

lemma content_rt_bytes:
  assumes "length b < 4294967296"
  shows "content_rt (CBytes b)"
proof -
  obtain t w where "write_byte_length (length b) = Inr (t # w)"
     "byte_val t \<in> {TAG_BINARY_8, TAG_BINARY_20, TAG_BINARY_32}"
     "\<And>r. read_data single double (byte_val t) (w @ b @ r) = Inr (CBytes b, r)"
    using raw_read [OF assms single_length] by blast
  then show ?thesis
    unfolding content_rt_def
    by (intro exI [of _ "t # w @ b"]) (auto simp: content_reader_def is_list_tag_def)
qed

lemma content_rt_list:
  assumes "nodes_rt ns" and "length ns < 65536"
  shows "content_rt (CList ns)"
proof -
  obtain b where b: "encode_nodes tm ns = Inr b"
    "\<And>f r. length b \<le> f \<Longrightarrow>
        decode_nodes single double f (length (valid_content ns)) (b @ r) = Inr (norm_nodes tm ns, r)"
    using assms(1) by (auto simp: nodes_rt_def)
  have "length (valid_content ns) < 65536"
    unfolding valid_content_def by (rule le_less_trans [OF length_filter_le assms(2)])
  then obtain t w where "write_list_start (length (valid_content ns)) = t # w" "is_list_tag (byte_val t)"
    "\<And>r. read_list_size (byte_val t) (w @ r) = Inr (int (length (valid_content ns)), r)"
    using list_start_read by blast
  with b show ?thesis
    unfolding content_rt_def by (intro exI [of _ "t # w @ b"]) (simp add: content_reader_def)
qed

lemma decode_node_content:
  assumes "read_list_size (byte_val t) (w @ r1) = Inr (2 * int n + 2, r1)"
    and "read_str single double r1 = Inr (h, r2)" and "h \<noteq> ''''"
    and "read_attrs single double n [] r2 = Inr (a, r3)"
  shows "decode_node single double (Suc f) (t # w @ r1) = content_reader f h a r3"
proof -
  have "nat ((2 * int n + 2 - 1) div 2) = n" by simp
  with assms show ?thesis by (simp add: content_reader_def)
qed

lemma decode_node_empty:
  assumes "read_list_size (byte_val t) (w @ r1) = Inr (2 * int n + 1, r1)"
    and "read_str single double r1 = Inr (h, r2)" and "h \<noteq> ''''"
    and "read_attrs single double n [] r2 = Inr (a, r3)"
  shows "decode_node single double (Suc f) (t # w @ r1) = Inr (Node h a CNone, r3)"
proof -
  have "nat ((2 * int n + 1 - 1) div 2) = n" by simp
  with assms show ?thesis by simp
qed

lemma node_rt_step:
  assumes ok: "node_ok tm (Node tag attrs content)" and "content_rt content"
  shows "node_rt (Node tag attrs content)"
proof -
  let ?n = "length (valid_attributes attrs)"
  let ?size = "2 * ?n + 1 + (if content = CNone then 0 else 1)"
  have "?n \<le> length attrs" by (simp add: valid_attributes_def)
  with ok have "?size < 65536" by simp
  then obtain t w where start: "write_list_start ?size = t # w"
    "\<And>r. read_list_size (byte_val t) (w @ r) = Inr (int ?size, r)"
    using list_start_read by blast
  obtain bt where bt: "write_string tm (Some tag) = Inr bt" "bt \<noteq> []"
    "\<And>r. read_str single double (bt @ r) = Inr (tag, r)"
    using read_str_rt [of tag] ok by auto
  obtain ba where ba: "write_attrs tm (valid_attributes attrs) = Inr ba"
    "\<And>r. read_attrs single double ?n [] (ba @ r) = Inr (valid_attributes attrs, r)"
    using attrs_rt [of attrs "[]"] ok by auto
  obtain bc where bc: "encode_content tm content = Inr bc"
    "\<And>f r h a. content \<noteq> CNone \<Longrightarrow> length bc \<le> f \<Longrightarrow>
        content_reader f h a (bc @ r) = Inr (Node h a (norm_content tm content), r)"
    using assms(2) by (auto simp: content_rt_def)
  let ?b = "t # w @ bt @ ba @ bc"
  have e: "encode_node tm (Node tag attrs content) = Inr ?b"
    using ok start(1) bt(1) ba(1) bc(1) by simp
  have "decode_node single double f (?b @ r) = Inr (norm_node tm (Node tag attrs content), r)"
    if f: "length ?b \<le> f" for f r
  proof -
    obtain g where g: "f = Suc g" "length bc \<le> g" using f by (cases f) auto
    show ?thesis
    proof (cases "content = CNone")
      case True
      then have "decode_node single double f (?b @ r) = Inr (Node tag (valid_attributes attrs) CNone, bc @ r)"
        using decode_node_empty [of t w "bt @ ba @ bc @ r" ?n tag "ba @ bc @ r" "valid_attributes attrs" "bc @ r" g]
          start(2) [of "bt @ ba @ bc @ r"] bt(3) ba(2) ok g(1) by simp
      with True bc(1) show ?thesis by simp
    next
      case False
      then have "decode_node single double f (?b @ r) = content_reader g tag (valid_attributes attrs) (bc @ r)"
        using decode_node_content [of t w "bt @ ba @ bc @ r" ?n tag "ba @ bc @ r" "valid_attributes attrs" "bc @ r" g]
          start(2) [of "bt @ ba @ bc @ r"] bt(3) ba(2) ok g(1) by simp
      with False bc(2) g(2) show ?thesis by simp
    qed
  qed
  with e show ?thesis unfolding node_rt_def by blast
qed

lemma nodes_rt_Cons:
  assumes "node_tag n = '''' \<or> node_rt n" and "nodes_rt ns"
  shows "nodes_rt (n # ns)"
proof (cases "node_tag n = ''''")
  case True
  with assms(2) show ?thesis by (simp add: nodes_rt_def valid_content_def)
next
  case False
  obtain b where b: "encode_node tm n = Inr b"
    "\<And>f r. length b \<le> f \<Longrightarrow> decode_node single double f (b @ r) = Inr (norm_node tm n, r)"
    using False assms(1) by (auto simp: node_rt_def)
  obtain bs where bs: "encode_nodes tm ns = Inr bs"
    "\<And>f r. length bs \<le> f \<Longrightarrow>
       decode_nodes single double f (length (valid_content ns)) (bs @ r) = Inr (norm_nodes tm ns, r)"
    using assms(2) by (auto simp: nodes_rt_def)
  show ?thesis
    unfolding nodes_rt_def
    by (rule exI [of _ "b @ bs"]) (use b bs False in \<open>simp add: valid_content_def\<close>)
qed

lemma nodes_rt_list:
  "(\<And>n. n \<in> set ns \<Longrightarrow> node_ok tm n \<Longrightarrow> node_rt n) \<Longrightarrow> nodes_ok tm ns \<Longrightarrow> nodes_rt ns"
proof (induction ns)
  case Nil
  show ?case by (simp add: nodes_rt_def valid_content_def)
next
  case (Cons n ns)
  then show ?case using nodes_rt_Cons [of n ns] by auto
qed

lemma node_content_rt:
  fixes n :: node and c :: content
  shows "node_ok tm n \<Longrightarrow> node_rt n" and "content_ok tm c \<Longrightarrow> content_rt c"
proof (induction n and c)
  case (Node tag attrs c)
  then show ?case using node_rt_step by simp
next
  case CNone
  show ?case by (simp add: content_rt_def)
next
  case (CStr s)
  then show ?case using content_rt_str by simp
next
  case (CBytes b)
  then show ?case using content_rt_bytes by simp
next
  case (CList ns)
  then show ?case using content_rt_list nodes_rt_list [of ns] by simp
next
  case COther
  then show ?case by simp
qed

theorem encode_decode:
  assumes "node_ok tm n"
  shows "\<exists>b. encode_node tm n = Inr b \<and>
     (\<forall>r. decode_decompressed_binary_node single double (b @ r) = Inr (norm_node tm n))"
proof -
  obtain b where "encode_node tm n = Inr b"
    and d: "\<And>f r. length b \<le> f \<Longrightarrow> decode_node single double f (b @ r) = Inr (norm_node tm n, r)"
    using node_content_rt(1) [OF assms] by (auto simp: node_rt_def)
  moreover have "decode_node single double (Suc (length (b @ r))) (b @ r) = Inr (norm_node tm n, r)" for r
    by (rule d) simp
  ultimately show ?thesis
    by (auto simp only: decode_decompressed_binary_node_def bindE_simps prod.case)
qed

end

end
