(* ===== verification/Wa_Wire.thy ===== *)
theory Wa_Wire
  imports Token_Tables
begin

text \<open>
  The codec of stanzas with the program's own token tables: the properties of
  \<^verbatim>\<open>wabinary\<close> as a whole, and the inputs it does not carry.
\<close>

abbreviation encode_stanza :: "node \<Rightarrow> bytes result" where
  "encode_stanza n \<equiv> encode_binary_node TOKEN_MAP n None"

abbreviation decode_stanza :: "(bytes \<Rightarrow> bytes result) \<Rightarrow> bytes \<Rightarrow> node result" where
  "decode_stanza decompress b \<equiv> decode_binary_node decompress SINGLE_BYTE_TOKENS DOUBLE_BYTE_TOKENS b"

lemma decode_stanza_plain:
  "decode_stanza decompress (0 # b) = decode_decompressed_binary_node SINGLE_BYTE_TOKENS DOUBLE_BYTE_TOKENS b"
  by (simp add: decode_binary_node_def decompressing_if_required_def byte_val_def)

text \<open>
  C1. Every stanza whose strings the wire can carry is encoded, and decoding the frame gives the
  stanza back, without its None attributes and untagged children, and with text that has no
  shorter form as bytes.
\<close>

theorem stanza_roundtrip:
  assumes "node_ok TOKEN_MAP n"
  shows "\<exists>b. encode_stanza n = Inr b \<and> decode_stanza decompress b = Inr (norm_node TOKEN_MAP n)"
proof -
  obtain b where "encode_node TOKEN_MAP n = Inr b"
    "decode_decompressed_binary_node SINGLE_BYTE_TOKENS DOUBLE_BYTE_TOKENS (b @ []) = Inr (norm_node TOKEN_MAP n)"
    using wa.encode_decode [OF assms] by blast
  then show ?thesis
    by (intro exI [of _ "0 # b"]) (simp add: encode_binary_node_def decode_stanza_plain)
qed

definition ping_stanza :: node where
  "ping_stanza = Node ''iq'' [(''to'', AStr ''s.whatsapp.net''), (''from'', AStr ''5511:7@lid''), (''id'', AStr ''3EB0'')]
     (CList [Node ''ping'' [] CNone, Node ''note'' [] (CStr ''hello wire'')])"

theorem stanza_roundtrip_witness:
  "\<exists>b. encode_stanza ping_stanza = Inr b \<and>
       decode_stanza (\<lambda>_. Inl ExternalError) b = Inr (norm_node TOKEN_MAP ping_stanza)"
proof -
  have "atom_ok ''iq''" "atom_ok ''to''" "atom_ok ''s.whatsapp.net''" "atom_ok ''from''" "atom_ok ''id''"
    "atom_ok ''3EB0''" "atom_ok ''ping''" "atom_ok ''note''" "atom_ok ''hello wire''"
    by (simp_all add: atom_ok_def ascii_valid ascii_def)
  moreover have "wire_ok TOKEN_MAP ''5511:7@lid''"
  proof (rule wire_ok_device [of "''5511''" 7 "''lid''"])
    show "''5511:7@lid'' = ''5511'' @ CHR '':'' # int_str 7 @ CHR ''@'' # ''lid''" by code_simp
  qed (simp_all add: clean_user_def atom_ok_def ascii_valid ascii_def ad_servers_def)
  ultimately have "node_ok TOKEN_MAP ping_stanza"
    by (simp add: ping_stanza_def attr_ok_def wire_ok_atom dict_wf_def)
  then show ?thesis by (rule stanza_roundtrip)
qed

section \<open>What the wire does not carry\<close>

lemma token_map_no_at: "CHR ''@'' \<in> set s \<Longrightarrow> TOKEN_MAP s = None"
  using token_map_entry [of s] by (cases "TOKEN_MAP s") (auto simp: entry_ok_def list_all_iff)

lemma not_packed_at: "CHR ''@'' \<in> set s \<Longrightarrow> \<not> is_nibble s \<and> \<not> is_hex s"
  by (auto simp: is_nibble_def is_hex_def list_all_iff dest!: bspec [where x = "CHR ''@''"])

lemma write_string_at:
  assumes "CHR ''@'' \<in> set s"
  shows "write_string TOKEN_MAP (Some s) = bindE (jid_decode (Some s)) (\<lambda>d. case d of
           Some j \<Rightarrow> write_jid TOKEN_MAP j | None \<Rightarrow> write_string_raw s)"
proof -
  have "s \<noteq> ''''" using assms by auto
  then show ?thesis
    using token_map_no_at [OF assms] not_packed_at [OF assms] by (simp add: write_string.simps(2))
qed

text \<open>
  Text that looks like a JID is parsed as one, and an underscore before the \<open>@\<close> is
  taken for an agent number: a stanza whose content is an e-mail address such as
  \<open>first_last@example.com\<close> cannot be encoded, \<open>int\<close> raises.
\<close>

theorem underscore_address_raises:
  assumes "clean_user u" and "clean_user a" and "py_int a = Inl e" and "a \<noteq> ''''"
    and "server_domain srv = WHATSAPP"
  shows "encode_stanza (Node ''body'' [] (CStr (u @ CHR ''_'' # a @ CHR ''@'' # srv))) = Inl e"
proof -
  let ?s = "u @ CHR ''_'' # a @ CHR ''@'' # srv"
  have at: "CHR ''@'' \<notin> set (u @ CHR ''_'' # a)" using assms(1,2) by (simp add: clean_user_def)
  have colon: "py_split CHR '':'' (u @ CHR ''_'' # a) = [u @ CHR ''_'' # a]"
    by (rule py_split_no_sep) (use assms(1,2) in \<open>simp add: clean_user_def\<close>)
  have under: "py_split CHR ''_'' (u @ CHR ''_'' # a) = [u, a]"
    using assms(1,2) by (simp add: clean_user_def py_split_append py_split_no_sep)
  have srv: "srv \<noteq> ''lid''" "srv \<noteq> ''hosted''" "srv \<noteq> ''hosted.lid''"
    using assms(5) by (auto simp: server_domain_def)
  have "jid_decode (Some ((u @ CHR ''_'' # a) @ CHR ''@'' # srv)) = Inl e"
    using jid_decode_at [OF at, of srv] colon under srv assms(3,4) by simp
  then have "write_string TOKEN_MAP (Some ?s) = Inl e"
    using write_string_at [of ?s] by simp
  moreover have "wire_ok TOKEN_MAP ''body''"
    by (rule wire_ok_atom) (simp add: atom_ok_def ascii_valid ascii_def)
  then obtain b where "write_string TOKEN_MAP (Some ''body'') = Inr b" using wa.read_str_rt by blast
  ultimately show ?thesis by (simp add: encode_binary_node_def valid_attributes_def)
qed

theorem underscore_address_raises_witness:
  "encode_stanza (Node ''body'' [] (CStr ''first_last@example.com'')) = Inl (ValueError ''int'')"
proof -
  have "py_int ''last'' = Inl (ValueError ''int'')" by code_simp
  from underscore_address_raises [OF _ _ this, of "''first''" "''example.com''"]
  show ?thesis by (simp add: clean_user_def server_domain_def)
qed

text \<open>
  A string that ends in its only \<open>@\<close> is encoded as a JID pair with an empty server,
  which the decoder rejects: the stanza is sent but cannot be read.
\<close>

theorem empty_server_unreadable:
  assumes "clean_user u" and "atom_ok u" and "u \<noteq> ''''"
  shows "\<exists>b. encode_stanza (Node ''body'' [] (CStr (u @ ''@''))) = Inr b \<and>
             decode_stanza decompress b = Inl (ValueError ''invalid jid pair'')"
proof -
  let ?s = "u @ ''@''"
  obtain tu wu where u: "wa.string_rt u tu wu" using wa.write_string_atom_rt [OF assms(2)] by blast
  have wu: "write_string TOKEN_MAP (Some u) = Inr (tu # wu)" using u by (simp only: wa.string_rt_def)
  have body: "atom_ok ''body''" by (simp add: atom_ok_def ascii_valid ascii_def)
  obtain bt where bt: "write_string TOKEN_MAP (Some ''body'') = Inr bt"
    "\<And>r. read_str SINGLE_BYTE_TOKENS DOUBLE_BYTE_TOKENS (bt @ r) = Inr (''body'', r)"
    using wa.read_str_rt [OF wire_ok_atom [OF body]] by blast
  have d: "jid_decode (Some ?s) =
      Inr (Some \<lparr>jid_user = u, jid_server = '''', jid_device = None, jid_domain = server_domain ''''\<rparr>)"
    using jid_decode_plain [OF assms(1), of "''''"] by simp
  have w: "write_string TOKEN_MAP (Some ?s) = Inr (250 # tu # wu @ [252, 0])"
    using write_string_at [of ?s] d wu assms(3)
    by (simp add: write_jid.simps write_string.simps(2) [of _ "''''"] write_string_raw_def
        write_byte_length_def utf8_encode_def to_byte_def)
  have e: "encode_stanza (Node ''body'' [] (CStr ?s)) = Inr (0 # 248 # 2 # bt @ 250 # tu # wu @ [252, 0])"
    using bt(1) w by (simp add: encode_binary_node_def valid_attributes_def write_list_start_def to_byte_def)
  have r: "read_string SINGLE_BYTE_TOKENS DOUBLE_BYTE_TOKENS (Suc (length (wu @ [252, 0])))
      (byte_val tu) (wu @ [252, 0]) = Inr (u, [252, 0])"
    using u unfolding wa.string_rt_def by simp
  have r0: "read_string SINGLE_BYTE_TOKENS DOUBLE_BYTE_TOKENS (Suc f) 252 [0] = Inr ('''', [])" for f
    by (simp add: table_lengths read_string.simps(2) byte_val_def decode_str_def utf8_decode_def read_bytes_def)
  have "read_string SINGLE_BYTE_TOKENS DOUBLE_BYTE_TOKENS (Suc (Suc (length (wu @ [252, 0])))) 250
      (tu # wu @ [252, 0]) = Inl (ValueError ''invalid jid pair'')"
    using r r0 by (simp add: read_string_jid_pair table_lengths byte_val_def)
  then have "decode_stanza decompress (0 # 248 # 2 # bt @ 250 # tu # wu @ [252, 0])
      = Inl (ValueError ''invalid jid pair'')"
    using bt(2) [of "250 # tu # wu @ [252, 0]"]
    by (simp add: decode_stanza_plain decode_decompressed_binary_node_def read_list_size_def byte_val_def
        is_list_tag_def read_data_def)
  with e show ?thesis by blast
qed

theorem empty_server_unreadable_witness:
  "\<exists>b. encode_stanza (Node ''body'' [] (CStr ''me@'')) = Inr b \<and>
       decode_stanza (\<lambda>_. Inl ExternalError) b = Inl (ValueError ''invalid jid pair'')"
  using empty_server_unreadable [of "''me''"] by (simp add: clean_user_def atom_ok_def ascii_valid ascii_def)

text \<open>
  An attribute whose value is neither a string nor None is counted in the list size but not
  written, so the frame announces more items than it holds and decoding it runs into the end.
\<close>

theorem int_attribute_unreadable:
  assumes "wire_ok TOKEN_MAP tag" and "tag \<noteq> ''''"
  shows "\<exists>b. encode_stanza (Node tag [(k, AInt i)] CNone) = Inr b \<and>
             decode_stanza decompress b = Inl (ValueError ''end of stream'')"
proof -
  obtain bt where bt: "write_string TOKEN_MAP (Some tag) = Inr bt"
    "read_str SINGLE_BYTE_TOKENS DOUBLE_BYTE_TOKENS (bt @ []) = Inr (tag, [])"
    using wa.read_str_rt [OF assms(1)] by blast
  have "encode_stanza (Node tag [(k, AInt i)] CNone) = Inr (0 # 248 # 3 # bt)"
    using bt(1) assms(2)
    by (simp add: encode_binary_node_def valid_attributes_def write_list_start_def to_byte_def)
  moreover have "read_attrs SINGLE_BYTE_TOKENS DOUBLE_BYTE_TOKENS 1 [] [] = Inl (ValueError ''end of stream'')"
    by (simp add: read_str_def read_byte_def)
  then have "decode_stanza decompress (0 # 248 # 3 # bt) = Inl (ValueError ''end of stream'')"
    using bt(2) assms(2)
    by (simp add: decode_stanza_plain decode_decompressed_binary_node_def read_list_size_def byte_val_def)
  ultimately show ?thesis by blast
qed

theorem int_attribute_unreadable_witness:
  "\<exists>b. encode_stanza (Node ''iq'' [(''t'', AInt 5)] CNone) = Inr b \<and>
       decode_stanza (\<lambda>_. Inl ExternalError) b = Inl (ValueError ''end of stream'')"
proof -
  have "wire_ok TOKEN_MAP ''iq''" by (rule wire_ok_atom) (simp add: atom_ok_def ascii_valid ascii_def)
  then show ?thesis by (rule int_attribute_unreadable) simp
qed

end
