(* ===== verification/Crypto.thy ===== *)
theory Crypto
  imports Prelude
begin

text \<open>
  The helpers of \<^verbatim>\<open>utils/crypto.py\<close>: HKDF, which the program computes itself from
  HMAC, and the framing of keys, signatures and ciphertexts around the primitives of the
  \<^verbatim>\<open>cryptography\<close> and \<^verbatim>\<open>nacl\<close> packages. The primitives are
  arguments: \<open>hmac\<close> takes the key and the data.
\<close>

section \<open>Public keys and signatures\<close>

definition generate_signal_pub_key :: "bytes \<Rightarrow> bytes" where
  "generate_signal_pub_key pub_key = (if length pub_key = 33 then pub_key else [5] @ pub_key)"

text \<open>\<open>SigningKey\<close> is part of the argument: it raises on a seed that is not 32 bytes long.\<close>

definition curve_sign :: "(bytes \<Rightarrow> bytes \<Rightarrow> bytes result) \<Rightarrow> bytes \<Rightarrow> bytes \<Rightarrow> bytes result" where
  "curve_sign sign private_key payload = sign (take 32 private_key) payload"

definition curve_verify :: "(bytes \<Rightarrow> bytes \<Rightarrow> bytes \<Rightarrow> unit result) \<Rightarrow> bytes \<Rightarrow> bytes \<Rightarrow> bytes \<Rightarrow> bool" where
  "curve_verify verify public_key message signature =
     (let key_bytes = (if length public_key = 33 then tl public_key
                       else if length public_key > 32 then take 32 public_key
                       else public_key)
      in case verify key_bytes message signature of Inl _ \<Rightarrow> False | Inr _ \<Rightarrow> True)"

section \<open>HKDF\<close>

text \<open>
  The expansion loop. \<open>bytes([counter])\<close> raises once the counter exceeds 255, which also
  ends the loop whatever \<open>hmac\<close> returns.
\<close>

function hkdf_expand ::
    "(bytes \<Rightarrow> bytes \<Rightarrow> bytes) \<Rightarrow> bytes \<Rightarrow> bytes \<Rightarrow> nat \<Rightarrow> bytes \<Rightarrow> nat \<Rightarrow> bytes \<Rightarrow> bytes result" where
  "hkdf_expand hmac prk info_bytes len t counter okm =
     (if len \<le> length okm then Inr (take len okm)
      else if counter > 255 then Inl (ValueError ''bytes must be in range(0, 256)'')
      else let t' = hmac prk (t @ info_bytes @ [to_byte (int counter)])
           in hkdf_expand hmac prk info_bytes len t' (counter + 1) (okm @ t'))"
  by auto
termination by (relation "measure (\<lambda>(_, _, _, _, _, counter, _). 256 - counter)") auto

declare hkdf_expand.simps [simp del]

definition hkdf ::
    "(bytes \<Rightarrow> bytes \<Rightarrow> bytes) \<Rightarrow> nat \<Rightarrow> bytes \<Rightarrow> nat \<Rightarrow> bytes \<Rightarrow> bytes \<Rightarrow> bytes result" where
  "hkdf hmac hash_len key_material len salt info =
     (let salt = (if salt = [] then replicate hash_len 0 else salt);
          prk = hmac salt key_material
      in hkdf_expand hmac prk info len [] 1 [])"

text \<open>The blocks of RFC 5869: each is the MAC of the one before, the info and its number.\<close>

fun hkdf_block :: "(bytes \<Rightarrow> bytes \<Rightarrow> bytes) \<Rightarrow> bytes \<Rightarrow> bytes \<Rightarrow> nat \<Rightarrow> bytes" where
  "hkdf_block hmac prk info_bytes 0 = []"
| "hkdf_block hmac prk info_bytes (Suc n) =
     hmac prk (hkdf_block hmac prk info_bytes n @ info_bytes @ [to_byte (int (Suc n))])"

definition hkdf_blocks :: "(bytes \<Rightarrow> bytes \<Rightarrow> bytes) \<Rightarrow> bytes \<Rightarrow> bytes \<Rightarrow> nat \<Rightarrow> bytes" where
  "hkdf_blocks hmac prk info_bytes n = concat (map (hkdf_block hmac prk info_bytes) [1..<Suc n])"

definition hkdf_spec ::
    "(bytes \<Rightarrow> bytes \<Rightarrow> bytes) \<Rightarrow> nat \<Rightarrow> bytes \<Rightarrow> nat \<Rightarrow> bytes \<Rightarrow> bytes \<Rightarrow> bytes" where
  "hkdf_spec hmac hash_len key_material len salt info =
     take len (hkdf_blocks hmac (hmac (if salt = [] then replicate hash_len 0 else salt) key_material) info 255)"

lemma hkdf_blocks_Suc: "hkdf_blocks hmac prk i (Suc n) = hkdf_blocks hmac prk i n @ hkdf_block hmac prk i (Suc n)"
  by (simp add: hkdf_blocks_def)

lemma hkdf_blocks_0 [simp]: "hkdf_blocks hmac prk i 0 = []"
  by (simp add: hkdf_blocks_def)

lemma length_hkdf_blocks:
  "(\<And>k d. length (hmac k d) = h) \<Longrightarrow> length (hkdf_blocks hmac prk i n) = n * h"
  by (induction n) (simp_all add: hkdf_blocks_Suc)

lemma take_hkdf_blocks:
  "n \<le> m \<Longrightarrow> len \<le> length (hkdf_blocks hmac prk i n) \<Longrightarrow>
   take len (hkdf_blocks hmac prk i m) = take len (hkdf_blocks hmac prk i n)"
proof (induction rule: dec_induct)
  case (step m)
  have "length (hkdf_blocks hmac prk i n) \<le> length (hkdf_blocks hmac prk i m)"
    using step.hyps(1) by (induction rule: dec_induct) (simp_all add: hkdf_blocks_Suc)
  with step show ?case by (simp add: hkdf_blocks_Suc del: hkdf_block.simps)
qed simp

lemma hkdf_expand_blocks:
  assumes h: "\<And>k d. length (hmac k d) = h"
  shows "n \<le> 255 \<Longrightarrow>
    hkdf_expand hmac prk i len (hkdf_block hmac prk i n) (Suc n) (hkdf_blocks hmac prk i n) =
      (if len \<le> 255 * h then Inr (take len (hkdf_blocks hmac prk i 255))
       else Inl (ValueError ''bytes must be in range(0, 256)''))"
proof (induction "255 - n" arbitrary: n)
  case 0
  then have "n = 255" by simp
  then show ?case
    by (subst hkdf_expand.simps) (simp add: length_hkdf_blocks [OF h])
next
  case (Suc m)
  from Suc.hyps(2) have n: "m = 255 - Suc n" "Suc n \<le> 255" by simp_all
  note IH = Suc.hyps(1) [OF n]
  show ?case
  proof (cases "len \<le> n * h")
    case True
    moreover have "n * h \<le> 255 * h" using Suc.prems by (rule mult_le_mono1)
    with True have "len \<le> 255 * h" by linarith
    ultimately show ?thesis
      using take_hkdf_blocks [OF Suc.prems, of len hmac prk i]
      by (subst hkdf_expand.simps) (simp add: length_hkdf_blocks [OF h])
  next
    case False
    then show ?thesis
      using IH n by (subst hkdf_expand.simps) (simp add: length_hkdf_blocks [OF h] hkdf_blocks_Suc Let_def)
  qed
qed

lemma hkdf_cases:
  assumes "\<And>k d. length (hmac k d) = h"
  shows "hkdf hmac h key len salt info =
    (if len \<le> 255 * h then Inr (hkdf_spec hmac h key len salt info)
     else Inl (ValueError ''bytes must be in range(0, 256)''))"
  using hkdf_expand_blocks [OF assms, of 0] by (simp add: hkdf_def hkdf_spec_def Let_def)

text \<open>
  The key derivation is HKDF as RFC 5869 defines it: for a hash of \<open>h\<close> bytes it returns the
  first \<open>len\<close> bytes of the blocks, exactly \<open>len\<close> of them, and it raises when more than 255
  blocks are asked for.
\<close>

theorem hkdf_rfc5869:
  assumes "\<And>k d. length (hmac k d) = h"
  shows "(if len \<le> 255 * h
          then hkdf hmac h key len salt info = Inr (hkdf_spec hmac h key len salt info) \<and>
               length (hkdf_spec hmac h key len salt info) = len
          else hkdf hmac h key len salt info = Inl (ValueError ''bytes must be in range(0, 256)''))"
  by (simp add: hkdf_cases [OF assms] hkdf_spec_def length_hkdf_blocks [OF assms])

definition sum_mac :: "bytes \<Rightarrow> bytes \<Rightarrow> bytes" where
  "sum_mac k d = [sum_list k + sum_list d, of_nat (length d)]"

theorem hkdf_rfc5869_witness:
  "hkdf sum_mac 2 [7] 3 [] [9] = Inr (hkdf_spec sum_mac 2 [7] 3 [] [9]) \<and>
   length (hkdf_spec sum_mac 2 [7] 3 [] [9]) = 3 \<and> hkdf_spec sum_mac 2 [7] 3 [] [9] = [18, 2, 39]"
proof -
  have "hkdf sum_mac 2 [7] 3 [] [9] = Inr [18, 2, 39]" by code_simp
  then show ?thesis using hkdf_rfc5869 [of sum_mac 2 3 "[7]" "[]" "[9]"] by (simp add: sum_mac_def)
qed

section \<open>Ciphertext framing\<close>

definition GCM_TAG_LENGTH :: nat where
  "GCM_TAG_LENGTH = 16"

text \<open>The primitives return the ciphertext and the tag, and take them.\<close>

definition aes_encrypt_gcm ::
    "(bytes \<Rightarrow> bytes \<Rightarrow> bytes \<Rightarrow> bytes \<Rightarrow> bytes \<times> bytes) \<Rightarrow> bytes \<Rightarrow> bytes \<Rightarrow> bytes \<Rightarrow> bytes \<Rightarrow> bytes" where
  "aes_encrypt_gcm seal plaintext key iv additional_data =
     (let (encrypted, tag) = seal key iv additional_data plaintext in encrypted @ tag)"

definition aes_decrypt_gcm ::
    "(bytes \<Rightarrow> bytes \<Rightarrow> bytes \<Rightarrow> bytes \<Rightarrow> bytes \<Rightarrow> bytes result) \<Rightarrow> bytes \<Rightarrow> bytes \<Rightarrow> bytes \<Rightarrow> bytes \<Rightarrow> bytes result" where
  "aes_decrypt_gcm unseal ciphertext key iv additional_data =
     (let enc = take (length ciphertext - GCM_TAG_LENGTH) ciphertext;
          tag = drop (length ciphertext - GCM_TAG_LENGTH) ciphertext
      in unseal key iv additional_data enc tag)"

definition aes_encrypt :: "(bytes \<Rightarrow> bytes \<Rightarrow> bytes \<Rightarrow> bytes) \<Rightarrow> bytes \<Rightarrow> bytes \<Rightarrow> bytes \<Rightarrow> bytes" where
  "aes_encrypt cbc_encrypt iv buffer key = iv @ cbc_encrypt key iv buffer"

definition aes_decrypt :: "(bytes \<Rightarrow> bytes \<Rightarrow> bytes \<Rightarrow> bytes result) \<Rightarrow> bytes \<Rightarrow> bytes \<Rightarrow> bytes result" where
  "aes_decrypt cbc_decrypt buffer key = cbc_decrypt key (take 16 buffer) (drop 16 buffer)"

text \<open>
  Decrypting undoes encrypting whenever the primitives do, for a tag of 16 bytes and, in CBC, an
  initialisation vector of 16 bytes.
\<close>

lemma gcm_roundtrip:
  assumes "seal key iv aad pt = (ct, tag)" and "length tag = 16" and "unseal key iv aad ct tag = Inr pt"
  shows "aes_decrypt_gcm unseal (aes_encrypt_gcm seal pt key iv aad) key iv aad = Inr pt"
  using assms by (simp add: aes_decrypt_gcm_def aes_encrypt_gcm_def GCM_TAG_LENGTH_def)
lemma aes_roundtrip:
  "length iv = 16 \<Longrightarrow> cbc_decrypt key iv (cbc_encrypt key iv buffer) = Inr buffer \<Longrightarrow>
   aes_decrypt cbc_decrypt (aes_encrypt cbc_encrypt iv buffer key) key = Inr buffer"
  by (simp add: aes_decrypt_def aes_encrypt_def)

end
