(* ===== verification/Noise.thy ===== *)
theory Noise
  imports Crypto
begin

text \<open>
  The Noise handshake of \<^verbatim>\<open>utils/noise_handler.py\<close>: nonces, the handler's keys
  and running hash, the client's half of the XX pattern with the certificate check, and the
  transport keys. The primitives (SHA-256, HMAC, X25519, AES-GCM, Ed25519) and the protobuf
  classes are parameters. The specification is the symmetric state of the Noise protocol
  framework, against which the handler is proved.
\<close>

section \<open>Primitives and state\<close>

record noise_crypto =
  n_sha256 :: "bytes \<Rightarrow> bytes"
  n_hmac :: "bytes \<Rightarrow> bytes \<Rightarrow> bytes"
  n_dh :: "bytes \<Rightarrow> bytes \<Rightarrow> bytes result"
  n_seal :: "bytes \<Rightarrow> bytes \<Rightarrow> bytes \<Rightarrow> bytes \<Rightarrow> bytes \<times> bytes"
  n_unseal :: "bytes \<Rightarrow> bytes \<Rightarrow> bytes \<Rightarrow> bytes \<Rightarrow> bytes \<Rightarrow> bytes result"
  n_verify :: "bytes \<Rightarrow> bytes \<Rightarrow> bytes \<Rightarrow> unit result"

definition generate_iv :: "int \<Rightarrow> bytes" where
  "generate_iv counter = replicate 8 0 @
     [to_byte (counter div 2 ^ 24), to_byte (counter div 2 ^ 16), to_byte (counter div 2 ^ 8), to_byte counter]"

record transport_state =
  t_enc_key :: bytes
  t_dec_key :: bytes
  t_read_counter :: int
  t_write_counter :: int

definition transport_encrypt :: "noise_crypto \<Rightarrow> bytes \<Rightarrow> transport_state \<Rightarrow> bytes \<times> transport_state" where
  "transport_encrypt cr plaintext t =
     (let iv = generate_iv (t_write_counter t);
          t' = t\<lparr>t_write_counter := t_write_counter t + 1\<rparr>
      in (aes_encrypt_gcm (n_seal cr) plaintext (t_enc_key t) iv [], t'))"

definition transport_decrypt :: "noise_crypto \<Rightarrow> bytes \<Rightarrow> transport_state \<Rightarrow> bytes result \<times> transport_state" where
  "transport_decrypt cr ciphertext t =
     (let iv = generate_iv (t_read_counter t);
          t' = t\<lparr>t_read_counter := t_read_counter t + 1\<rparr>
      in (aes_decrypt_gcm (n_unseal cr) ciphertext (t_dec_key t) iv [], t'))"

text \<open>The buffer of incoming bytes is kept apart, by the theory of frames.\<close>

record noise_handler =
  nh_private :: bytes
  nh_public :: bytes
  nh_header :: bytes
  nh_hash :: bytes
  nh_salt :: bytes
  nh_enc_key :: bytes
  nh_dec_key :: bytes
  nh_counter :: int
  nh_sent_intro :: bool
  nh_transport :: "transport_state option"
  nh_strict :: bool
  nh_intro_header :: bytes

definition NOISE_MODE :: string where
  "NOISE_MODE = ''Noise_XX_25519_AESGCM_SHA256'' @ replicate 4 (CHR 0x00)"

definition NOISE_WA_HEADER :: bytes where
  "NOISE_WA_HEADER = [87, 65, 6, 3]"

section \<open>NoiseHandler\<close>

definition authenticate :: "noise_crypto \<Rightarrow> bytes \<Rightarrow> noise_handler \<Rightarrow> noise_handler" where
  "authenticate cr dat h =
     (case nh_transport h of None \<Rightarrow> h\<lparr>nh_hash := n_sha256 cr (nh_hash h @ dat)\<rparr> | Some _ \<Rightarrow> h)"

definition make_intro_header :: "bytes option \<Rightarrow> bytes \<Rightarrow> bytes" where
  "make_intro_header routing_info noise_header = (case routing_info of
       None \<Rightarrow> noise_header
     | Some info \<Rightarrow>
         if info = [] then noise_header
         else utf8_encode ''ED'' @ [0, 1] @ be_bytes 3 (int (length info)) @ info @ noise_header)"

definition new_noise_handler ::
    "noise_crypto \<Rightarrow> bytes \<times> bytes \<Rightarrow> bytes \<Rightarrow> bytes option \<Rightarrow> bool \<Rightarrow> noise_handler" where
  "new_noise_handler cr key_pair noise_header routing_info strict =
     (let dat = utf8_encode NOISE_MODE;
          hash = (if length dat = 32 then dat else n_sha256 cr dat);
          h = \<lparr>nh_private = fst key_pair, nh_public = snd key_pair, nh_header = noise_header,
               nh_hash = hash, nh_salt = hash, nh_enc_key = hash, nh_dec_key = hash, nh_counter = 0,
               nh_sent_intro = False, nh_transport = None, nh_strict = strict,
               nh_intro_header = make_intro_header routing_info noise_header\<rparr>
      in authenticate cr (nh_public h) (authenticate cr (nh_header h) h))"

definition local_hkdf :: "noise_crypto \<Rightarrow> bytes \<Rightarrow> noise_handler \<Rightarrow> (bytes \<times> bytes) result" where
  "local_hkdf cr dat h =
     bindE (hkdf (n_hmac cr) 32 dat 64 (nh_salt h) []) (\<lambda>key. Inr (take 32 key, drop 32 key))"

definition mix_into_key :: "noise_crypto \<Rightarrow> bytes \<Rightarrow> noise_handler \<Rightarrow> noise_handler result" where
  "mix_into_key cr dat h = bindE (local_hkdf cr dat h) (\<lambda>(write_key, read_key).
     Inr (h\<lparr>nh_salt := write_key, nh_enc_key := read_key, nh_dec_key := read_key, nh_counter := 0\<rparr>))"

definition noise_encrypt :: "noise_crypto \<Rightarrow> bytes \<Rightarrow> noise_handler \<Rightarrow> bytes \<times> noise_handler" where
  "noise_encrypt cr plaintext h = (case nh_transport h of
       Some t \<Rightarrow> let (encrypted, t') = transport_encrypt cr plaintext t
                 in (encrypted, h\<lparr>nh_transport := Some t'\<rparr>)
     | None \<Rightarrow>
         let iv = generate_iv (nh_counter h);
             h1 = h\<lparr>nh_counter := nh_counter h + 1\<rparr>;
             encrypted = aes_encrypt_gcm (n_seal cr) plaintext (nh_enc_key h1) iv (nh_hash h1)
         in (encrypted, authenticate cr encrypted h1))"

definition noise_decrypt :: "noise_crypto \<Rightarrow> bytes \<Rightarrow> noise_handler \<Rightarrow> bytes result \<times> noise_handler" where
  "noise_decrypt cr ciphertext h = (case nh_transport h of
       Some t \<Rightarrow> let (decrypted, t') = transport_decrypt cr ciphertext t
                 in (decrypted, h\<lparr>nh_transport := Some t'\<rparr>)
     | None \<Rightarrow>
         let iv = generate_iv (nh_counter h);
             h1 = h\<lparr>nh_counter := nh_counter h + 1\<rparr>
         in case aes_decrypt_gcm (n_unseal cr) ciphertext (nh_dec_key h1) iv (nh_hash h1) of
              Inl e \<Rightarrow> (Inl e, h1)
            | Inr decrypted \<Rightarrow> (Inr decrypted, authenticate cr ciphertext h1))"

text \<open>
  \<open>finish_init\<close>. The flag \<open>_is_waiting_for_transport\<close> is set and cleared without a
  point where another task could run, so it is never seen set and no frame is ever pending.
\<close>

definition finish_init :: "noise_crypto \<Rightarrow> noise_handler \<Rightarrow> noise_handler result" where
  "finish_init cr h = bindE (local_hkdf cr [] h) (\<lambda>(write_key, read_key).
     Inr (h\<lparr>nh_transport := Some \<lparr>t_enc_key = write_key, t_dec_key = read_key,
                                   t_read_counter = 0, t_write_counter = 0\<rparr>\<rparr>))"

section \<open>The certificate chain\<close>

record noise_certificate =
  nc_details :: bytes
  nc_signature :: bytes

record cert_chain =
  cc_leaf :: "noise_certificate option"
  cc_intermediate :: "noise_certificate option"

record cert_details =
  cd_issuer_serial :: "int option"
  cd_issuer :: "string option"
  cd_key :: bytes

text \<open>The generated protobuf classes: both parsers, the second absent when there is no class for it.\<close>

record cert_lib =
  cl_chain :: "bytes \<Rightarrow> cert_chain result"
  cl_details :: "(bytes \<Rightarrow> cert_details result) option"

definition WA_CERT_SERIAL :: int where
  "WA_CERT_SERIAL = 0"

definition WA_CERT_ISSUER :: string where
  "WA_CERT_ISSUER = ''WhatsAppLongTerm1''"

definition WA_CERT_PUBLIC_KEY :: bytes where
  "WA_CERT_PUBLIC_KEY =
     [0x14, 0x23, 0x75, 0x57, 0x4d, 0x0a, 0x58, 0x71, 0x66, 0xaa, 0xe7, 0x1e, 0xbe, 0x51, 0x64, 0x37,
      0xc4, 0xa2, 0x8b, 0x73, 0xe3, 0x69, 0x5c, 0x6c, 0xe1, 0xf7, 0xf9, 0x54, 0x5d, 0xa8, 0xee, 0x6b]"

text \<open>\<open>getattr(cert, name, b"")\<close> of a field that may be missing.\<close>

definition cert_field :: "(noise_certificate \<Rightarrow> bytes) \<Rightarrow> noise_certificate option \<Rightarrow> bytes" where
  "cert_field f c = (case c of None \<Rightarrow> [] | Some x \<Rightarrow> f x)"

text \<open>The checks once both certificates and the intermediate's details are there.\<close>

definition check_chain ::
    "noise_crypto \<Rightarrow> bool \<Rightarrow> noise_certificate \<Rightarrow> noise_certificate \<Rightarrow> cert_details \<Rightarrow> unit result" where
  "check_chain cr strict leaf intermediate details =
     (if \<not> curve_verify (n_verify cr) (cd_key details) (nc_details leaf) (nc_signature leaf) then
        if strict then Inl (ValueError ''noise certificate signature invalid'') else Inr ()
      else if \<not> curve_verify (n_verify cr) WA_CERT_PUBLIC_KEY (nc_details intermediate) (nc_signature intermediate) then
        if strict then Inl (ValueError ''noise intermediate certificate signature invalid'') else Inr ()
      else case cd_issuer_serial details of
          Some serial \<Rightarrow> if serial \<noteq> WA_CERT_SERIAL
                         then Inl (ValueError ''certification match failed'') else Inr ()
        | None \<Rightarrow> (case cd_issuer details of
              Some issuer \<Rightarrow> if issuer \<noteq> WA_CERT_ISSUER
                             then Inl (ValueError ''certification match failed'') else Inr ()
            | None \<Rightarrow> Inr ()))"

definition verify_noise_cert_chain :: "noise_crypto \<Rightarrow> cert_lib option \<Rightarrow> bool \<Rightarrow> bytes \<Rightarrow> unit result" where
  "verify_noise_cert_chain cr lib strict cert_payload = (case lib of None \<Rightarrow> Inr ()
     | Some l \<Rightarrow> bindE (cl_chain l cert_payload) (\<lambda>chain.
         case cc_intermediate chain of
           None \<Rightarrow> Inl (ValueError ''invalid noise leaf certificate'')
         | Some intermediate \<Rightarrow>
             if cert_field nc_details (cc_leaf chain) = [] \<or> cert_field nc_signature (cc_leaf chain) = [] then
               Inl (ValueError ''invalid noise leaf certificate'')
             else if nc_details intermediate = [] \<or> nc_signature intermediate = [] then
               Inl (ValueError ''invalid noise intermediate certificate'')
             else case cl_details l of
                 None \<Rightarrow> Inl (ValueError ''noise certificate details type missing'')
               | Some parse \<Rightarrow> bindE (parse (nc_details intermediate)) (\<lambda>details.
                   check_chain cr strict
                     \<lparr>nc_details = cert_field nc_details (cc_leaf chain),
                      nc_signature = cert_field nc_signature (cc_leaf chain)\<rparr>
                     intermediate details)))"

section \<open>The client's handshake\<close>

text \<open>The decoded message is a dictionary of byte strings and dictionaries.\<close>

datatype field = FBytes bytes | FDict "(string \<times> field) list" | FNone

fun truthy :: "field option \<Rightarrow> bool" where
  "truthy (Some (FBytes b)) = (b \<noteq> [])"
| "truthy (Some (FDict d)) = (d \<noteq> [])"
| "truthy (Some FNone) = False"
| "truthy None = False"

definition find_server_hello :: "(string \<times> field) list \<Rightarrow> (string \<times> field) list result" where
  "find_server_hello payload =
     (let camel = map_of payload ''serverHello''; snake = map_of payload ''server_hello'';
          chosen = (if truthy camel then camel else if truthy snake then snake else Some (FDict payload))
      in case chosen of Some (FDict d) \<Rightarrow> Inr d | _ \<Rightarrow> Inl AttributeErr)"

definition bytes_field :: "string \<Rightarrow> string \<Rightarrow> (string \<times> field) list \<Rightarrow> bytes result" where
  "bytes_field name message d =
     (case map_of d name of Some (FBytes b) \<Rightarrow> Inr b | _ \<Rightarrow> Inl (ValueError message))"

definition handshake_fields :: "(string \<times> field) list \<Rightarrow> (bytes \<times> bytes \<times> bytes) result" where
  "handshake_fields payload = bindE (find_server_hello payload) (\<lambda>hello.
     bindE (bytes_field ''ephemeral'' ''invalid noise handshake: missing ephemeral key'' hello) (\<lambda>ephemeral.
     bindE (bytes_field ''static'' ''invalid noise handshake: missing static payload'' hello) (\<lambda>static.
     bindE (bytes_field ''payload'' ''invalid noise handshake: missing payload'' hello) (\<lambda>server_payload.
       Inr (ephemeral, static, server_payload)))))"

definition mix_dh :: "noise_crypto \<Rightarrow> bytes \<Rightarrow> bytes \<Rightarrow> noise_handler \<Rightarrow> noise_handler result" where
  "mix_dh cr priv pub h = bindE (n_dh cr priv pub) (\<lambda>secret. mix_into_key cr secret h)"

text \<open>
  A step that raises leaves the handler half way; the connection is then given up, so the state
  is returned only on success.
\<close>

definition process_handshake ::
    "noise_crypto \<Rightarrow> cert_lib option \<Rightarrow> (string \<times> field) list \<Rightarrow> bytes \<times> bytes \<Rightarrow> noise_handler \<Rightarrow>
     (bytes \<times> noise_handler) result" where
  "process_handshake cr lib payload noise_key h0 =
     bindE (handshake_fields payload) (\<lambda>(ephemeral, static, server_payload).
     let h1 = authenticate cr ephemeral h0 in
     bindE (mix_dh cr (nh_private h1) ephemeral h1) (\<lambda>h2.
     case noise_decrypt cr static h2 of (Inl e, _) \<Rightarrow> Inl e | (Inr decrypted_static, h3) \<Rightarrow>
     bindE (mix_dh cr (nh_private h3) decrypted_static h3) (\<lambda>h4.
     case noise_decrypt cr server_payload h4 of (Inl e, _) \<Rightarrow> Inl e | (Inr cert_decoded, h5) \<Rightarrow>
     bindE (verify_noise_cert_chain cr lib (nh_strict h5) cert_decoded) (\<lambda>_.
     case noise_encrypt cr (snd noise_key) h5 of (key_enc, h6) \<Rightarrow>
     bindE (mix_dh cr (fst noise_key) ephemeral h6) (\<lambda>h7. Inr (key_enc, h7))))))"

section \<open>The symmetric state of the Noise framework\<close>

text \<open>
  Chaining key, handshake hash, cipher key and nonce, with the operations as the Noise protocol
  framework defines them for a 32-byte hash and AES-GCM: the nonce is 32 zero bits and the counter
  as a 64-bit big-endian number, and keys come from the two-output HKDF.
\<close>

record symmetric_state =
  ss_ck :: bytes
  ss_h :: bytes
  ss_k :: bytes
  ss_n :: int

definition ss_nonce :: "int \<Rightarrow> bytes" where
  "ss_nonce n = replicate 4 0 @ be_bytes 8 n"

definition hkdf2 :: "noise_crypto \<Rightarrow> bytes \<Rightarrow> bytes \<Rightarrow> bytes \<times> bytes" where
  "hkdf2 cr ck input =
     (let temp_key = n_hmac cr ck input;
          output1 = n_hmac cr temp_key [1];
          output2 = n_hmac cr temp_key (output1 @ [2])
      in (output1, output2))"

definition mix_hash :: "noise_crypto \<Rightarrow> bytes \<Rightarrow> symmetric_state \<Rightarrow> symmetric_state" where
  "mix_hash cr dat s = s\<lparr>ss_h := n_sha256 cr (ss_h s @ dat)\<rparr>"

definition mix_key :: "noise_crypto \<Rightarrow> bytes \<Rightarrow> symmetric_state \<Rightarrow> symmetric_state" where
  "mix_key cr input s = (let (ck, k) = hkdf2 cr (ss_ck s) input in s\<lparr>ss_ck := ck, ss_k := k, ss_n := 0\<rparr>)"

definition encrypt_and_hash :: "noise_crypto \<Rightarrow> bytes \<Rightarrow> symmetric_state \<Rightarrow> bytes \<times> symmetric_state" where
  "encrypt_and_hash cr pt s =
     (let (ct, tag) = n_seal cr (ss_k s) (ss_nonce (ss_n s)) (ss_h s) pt
      in (ct @ tag, mix_hash cr (ct @ tag) (s\<lparr>ss_n := ss_n s + 1\<rparr>)))"

definition decrypt_and_hash :: "noise_crypto \<Rightarrow> bytes \<Rightarrow> symmetric_state \<Rightarrow> (bytes \<times> symmetric_state) result" where
  "decrypt_and_hash cr msg s =
     (let n = length msg - 16
      in bindE (n_unseal cr (ss_k s) (ss_nonce (ss_n s)) (ss_h s) (take n msg) (drop n msg))
           (\<lambda>pt. Inr (pt, mix_hash cr msg (s\<lparr>ss_n := ss_n s + 1\<rparr>))))"

definition initialize_symmetric :: symmetric_state where
  "initialize_symmetric = (let h = utf8_encode NOISE_MODE in \<lparr>ss_ck = h, ss_h = h, ss_k = h, ss_n = 0\<rparr>)"

text \<open>The state of the handler that matters before the transport keys exist.\<close>

definition sym_of :: "noise_handler \<Rightarrow> symmetric_state" where
  "sym_of h = \<lparr>ss_ck = nh_salt h, ss_h = nh_hash h, ss_k = nh_enc_key h, ss_n = nh_counter h\<rparr>"

definition handshaking :: "noise_handler \<Rightarrow> bool" where
  "handshaking h \<longleftrightarrow> nh_transport h = None \<and> nh_dec_key h = nh_enc_key h"

definition hmac32 :: "noise_crypto \<Rightarrow> bool" where
  "hmac32 cr \<longleftrightarrow> (\<forall>k d. length (n_hmac cr k d) = 32)"

definition aead_ok :: "noise_crypto \<Rightarrow> bool" where
  "aead_ok cr \<longleftrightarrow> (\<forall>key iv aad pt. case n_seal cr key iv aad pt of (ct, tag) \<Rightarrow>
     length ct = length pt \<and> length tag = 16 \<and> n_unseal cr key iv aad ct tag = Inr pt)"

lemma generate_iv_nonce:
  assumes "0 \<le> n" and "n < 2 ^ 32"
  shows "generate_iv n = ss_nonce n"
proof -
  have "n div 4294967296 = 0" "n div 1099511627776 = 0" "n div 281474976710656 = 0"
    "n div 72057594037927936 = 0"
    using assms by simp_all
  then have "be_bytes 8 n = replicate 4 0 @ be_bytes 4 n"
    by (simp add: eval_nat_numeral to_byte_def)
  then show ?thesis by (simp add: generate_iv_def ss_nonce_def eval_nat_numeral)
qed

lemma hkdf_noise:
  assumes "hmac32 cr" and "ck \<noteq> []"
  shows "hkdf (n_hmac cr) 32 dat 64 ck [] = Inr (case hkdf2 cr ck dat of (a, b) \<Rightarrow> a @ b)"
proof -
  have l: "\<And>k d. length (n_hmac cr k d) = 32" using assms(1) by (simp add: hmac32_def)
  have t: "to_byte 1 = 1" "to_byte 2 = 2" by (simp_all add: to_byte_def)
  show ?thesis
    using assms(2)
    by (simp add: hkdf_def hkdf2_def Let_def l t
        hkdf_expand.simps [of _ _ _ _ _ "Suc 0"] hkdf_expand.simps [of _ _ _ _ _ "Suc (Suc 0)"]
        hkdf_expand.simps [of _ _ _ _ _ "Suc (Suc (Suc 0))"])
qed

section \<open>The handler implements the symmetric state\<close>

named_theorems noise_steps \<open>each operation of the handler as one of the symmetric state\<close>

lemma sym_of_authenticate [noise_steps]:
  "handshaking h \<Longrightarrow> sym_of (authenticate cr d h) = mix_hash cr d (sym_of h)"
  by (simp add: handshaking_def authenticate_def sym_of_def mix_hash_def)

lemma handshaking_authenticate [simp]: "handshaking h \<Longrightarrow> handshaking (authenticate cr d h)"
  by (simp add: handshaking_def authenticate_def)

lemma authenticate_fixed [simp]:
  "nh_private (authenticate cr d h) = nh_private h" "nh_strict (authenticate cr d h) = nh_strict h"
  "nh_salt (authenticate cr d h) = nh_salt h" "nh_counter (authenticate cr d h) = nh_counter h"
  "nh_public (authenticate cr d h) = nh_public h" "nh_header (authenticate cr d h) = nh_header h"
  by (simp_all add: authenticate_def split: option.splits)

lemma hkdf2_length:
  "hmac32 cr \<Longrightarrow> length (fst (hkdf2 cr ck d)) = 32 \<and> length (snd (hkdf2 cr ck d)) = 32"
  by (simp add: hkdf2_def hmac32_def Let_def)

lemma local_hkdf_split:
  assumes "hmac32 cr" and "nh_salt h \<noteq> []"
  shows "local_hkdf cr d h = Inr (hkdf2 cr (nh_salt h) d)"
  using hkdf_noise [OF assms] hkdf2_length [OF assms(1), of "nh_salt h" d]
  by (simp add: local_hkdf_def split_beta prod_eq_iff)

lemma mix_into_key_noise:
  assumes "hmac32 cr" and "nh_salt h \<noteq> []" and "handshaking h"
  shows "\<exists>h'. mix_into_key cr d h = Inr h' \<and> sym_of h' = mix_key cr d (sym_of h) \<and> handshaking h' \<and>
    nh_salt h' \<noteq> [] \<and> nh_counter h' = 0 \<and> nh_private h' = nh_private h \<and> nh_strict h' = nh_strict h"
proof -
  have "fst (hkdf2 cr (nh_salt h) d) \<noteq> []"
    using hkdf2_length [OF assms(1), of "nh_salt h" d] by (metis length_0_conv numeral_eq_iff rel_simps(76))
  then show ?thesis
    using assms(3)
    by (simp add: mix_into_key_def local_hkdf_split [OF assms(1,2)] split_beta sym_of_def mix_key_def handshaking_def)
qed

lemma noise_encrypt_noise:
  assumes "handshaking h" and "0 \<le> nh_counter h" and "nh_counter h < 2 ^ 32"
  shows "noise_encrypt cr pt h = (fst (encrypt_and_hash cr pt (sym_of h)), snd (noise_encrypt cr pt h))"
    and "sym_of (snd (noise_encrypt cr pt h)) = snd (encrypt_and_hash cr pt (sym_of h))"
    and "handshaking (snd (noise_encrypt cr pt h))"
    and "nh_salt (snd (noise_encrypt cr pt h)) = nh_salt h"
    and "nh_counter (snd (noise_encrypt cr pt h)) = nh_counter h + 1"
  using assms
  by (simp_all add: noise_encrypt_def handshaking_def encrypt_and_hash_def aes_encrypt_gcm_def Let_def
      split_beta sym_of_def generate_iv_nonce mix_hash_def authenticate_def)

lemma noise_decrypt_noise:
  assumes "handshaking h" and "0 \<le> nh_counter h" and "nh_counter h < 2 ^ 32"
    and "decrypt_and_hash cr ct (sym_of h) = Inr (pt, s)"
  shows "\<exists>h'. noise_decrypt cr ct h = (Inr pt, h') \<and> sym_of h' = s \<and> handshaking h' \<and>
    nh_salt h' = nh_salt h \<and> nh_counter h' = nh_counter h + 1 \<and>
    nh_private h' = nh_private h \<and> nh_strict h' = nh_strict h"
  using assms
  by (auto simp: noise_decrypt_def handshaking_def decrypt_and_hash_def aes_decrypt_gcm_def Let_def
      sym_of_def generate_iv_nonce mix_hash_def authenticate_def GCM_TAG_LENGTH_def bindE_eq_Inr_iff)

lemma aead_okD:
  assumes "aead_ok cr" and "n_seal cr key iv aad pt = (ct, tag)"
  shows "length ct = length pt" and "length tag = 16" and "n_unseal cr key iv aad ct tag = Inr pt"
  using assms(1) [unfolded aead_ok_def, rule_format, of pt key iv aad] assms(2) by simp_all

lemma decrypt_and_hash_encrypted:
  assumes "aead_ok cr"
  shows "decrypt_and_hash cr (fst (encrypt_and_hash cr pt s)) s = Inr (pt, snd (encrypt_and_hash cr pt s))"
proof -
  obtain ct tag where s: "n_seal cr (ss_k s) (ss_nonce (ss_n s)) (ss_h s) pt = (ct, tag)" by fastforce
  have "length tag = 16" "n_unseal cr (ss_k s) (ss_nonce (ss_n s)) (ss_h s) ct tag = Inr pt"
    using aead_okD [OF assms s] by simp_all
  with s show ?thesis by (simp add: decrypt_and_hash_def encrypt_and_hash_def)
qed

section \<open>A responder of the XX pattern\<close>

text \<open>
  The server as the framework prescribes it, with an ephemeral key \<open>e\<close> and a static key
  \<open>s\<close> (private and public part): its reply to the client's ephemeral key, and its reading of
  the client's last message.
\<close>

definition responder_hello ::
    "noise_crypto \<Rightarrow> bytes \<Rightarrow> bytes \<times> bytes \<Rightarrow> bytes \<times> bytes \<Rightarrow> bytes \<Rightarrow> bytes \<Rightarrow>
     (bytes \<times> bytes \<times> symmetric_state) result" where
  "responder_hello cr prologue e s payload client_e =
     bindE (n_dh cr (fst e) client_e) (\<lambda>ee.
     bindE (n_dh cr (fst s) client_e) (\<lambda>es.
     let s1 = mix_hash cr client_e (mix_hash cr prologue initialize_symmetric);
         s2 = mix_key cr ee (mix_hash cr (snd e) s1);
         (static, s3) = encrypt_and_hash cr (snd s) s2;
         s4 = mix_key cr es s3;
         (encrypted, s5) = encrypt_and_hash cr payload s4
     in Inr (static, encrypted, s5)))"

definition responder_finish ::
    "noise_crypto \<Rightarrow> bytes \<times> bytes \<Rightarrow> bytes \<Rightarrow> bytes \<Rightarrow> symmetric_state \<Rightarrow>
     (bytes \<times> bytes \<times> (bytes \<times> bytes)) result" where
  "responder_finish cr e static payload s =
     bindE (decrypt_and_hash cr static s) (\<lambda>(client_s, s1).
     bindE (n_dh cr (fst e) client_s) (\<lambda>se.
     bindE (decrypt_and_hash cr payload (mix_key cr se s1)) (\<lambda>(client_payload, s2).
       Inr (client_s, client_payload, hkdf2 cr (ss_ck s2) []))))"

section \<open>Agreement\<close>

text \<open>What a handler in the handshake carries from step to step.\<close>

definition hs_ok :: "noise_handler \<Rightarrow> bytes \<Rightarrow> bool \<Rightarrow> bool" where
  "hs_ok h priv strict \<longleftrightarrow> handshaking h \<and> nh_salt h \<noteq> [] \<and> 0 \<le> nh_counter h \<and> nh_counter h < 2 ^ 31 \<and>
     nh_private h = priv \<and> nh_strict h = strict"

lemma new_noise_handler_sym:
  "sym_of (new_noise_handler cr ck hdr routing strict) =
     mix_hash cr (snd ck) (mix_hash cr hdr initialize_symmetric)"
  "hs_ok (new_noise_handler cr ck hdr routing strict) (fst ck) strict"
  by (simp_all add: new_noise_handler_def hs_ok_def sym_of_def mix_hash_def initialize_symmetric_def
      NOISE_MODE_def authenticate_def handshaking_def Let_def utf8_encode_def)

lemma hs_ok_authenticate [simp]: "hs_ok h p st \<Longrightarrow> hs_ok (authenticate cr d h) p st"
  by (simp add: hs_ok_def)

lemma mix_dh_step:
  assumes "hmac32 cr" and "hs_ok h p st" and "n_dh cr priv pub = Inr x"
  obtains h' where "mix_dh cr priv pub h = Inr h'" "sym_of h' = mix_key cr x (sym_of h)"
    "hs_ok h' p st" "nh_counter h' = 0"
  using mix_into_key_noise [OF assms(1), of h x] assms(2,3) by (auto simp: mix_dh_def hs_ok_def)

lemma hs_decrypt_step:
  assumes "hs_ok h p st" and "nh_counter h = 0" and "decrypt_and_hash cr ct (sym_of h) = Inr (pt, s)"
  obtains h' where "noise_decrypt cr ct h = (Inr pt, h')" "sym_of h' = s" "hs_ok h' p st" "nh_counter h' = 1"
  using noise_decrypt_noise [of h cr ct pt s] assms by (auto simp: hs_ok_def)

lemma hs_encrypt_step:
  assumes "hs_ok h p st" and "nh_counter h < 2"
  obtains h' where "noise_encrypt cr pt h = (fst (encrypt_and_hash cr pt (sym_of h)), h')"
    "sym_of h' = snd (encrypt_and_hash cr pt (sym_of h))" "handshaking h'" "nh_salt h' = nh_salt h"
    "hs_ok h' (nh_private h') (nh_strict h')" "nh_counter h' = nh_counter h + 1"
proof -
  from assms have "handshaking h" "0 \<le> nh_counter h" "nh_counter h < 2 ^ 32" by (simp_all add: hs_ok_def)
  from noise_encrypt_noise [OF this, of cr pt] that [of "snd (noise_encrypt cr pt h)"] assms
  show thesis by (simp add: hs_ok_def)
qed

lemma finish_init_keys:
  assumes "hmac32 cr" and "nh_salt h \<noteq> []"
  obtains h' where "finish_init cr h = Inr h'"
    "nh_transport h' = Some \<lparr>t_enc_key = fst (hkdf2 cr (nh_salt h) []), t_dec_key = snd (hkdf2 cr (nh_salt h) []),
                             t_read_counter = 0, t_write_counter = 0\<rparr>"
  using that by (simp add: finish_init_def local_hkdf_split [OF assms] split_beta)

definition server_hello :: "bytes \<Rightarrow> bytes \<Rightarrow> bytes \<Rightarrow> (string \<times> field) list" where
  "server_hello ephemeral static payload =
     [(''serverHello'', FDict [(''ephemeral'', FBytes ephemeral), (''static'', FBytes static), (''payload'', FBytes payload)])]"

lemma server_hello_fields: "handshake_fields (server_hello e st pl) = Inr (e, st, pl)"
  by (simp add: handshake_fields_def server_hello_def find_server_hello_def bytes_field_def Let_def)

text \<open>
  The responder's reply and state as functions of the Diffie-Hellman results, and the client's run
  on it.
\<close>

definition reply_state :: "noise_crypto \<Rightarrow> bytes \<Rightarrow> bytes \<Rightarrow> bytes \<Rightarrow> bytes \<Rightarrow> symmetric_state" where
  "reply_state cr hdr client_e e ee =
     mix_key cr ee (mix_hash cr e (mix_hash cr client_e (mix_hash cr hdr initialize_symmetric)))"

definition reply_static :: "noise_crypto \<Rightarrow> bytes \<Rightarrow> bytes \<Rightarrow> bytes \<Rightarrow> bytes \<Rightarrow> bytes \<Rightarrow> bytes \<times> symmetric_state" where
  "reply_static cr hdr client_e e ee s = encrypt_and_hash cr s (reply_state cr hdr client_e e ee)"

definition reply_payload :: "noise_crypto \<Rightarrow> bytes \<Rightarrow> bytes \<Rightarrow> bytes \<Rightarrow> bytes \<Rightarrow> bytes \<Rightarrow> bytes \<Rightarrow> bytes \<Rightarrow> bytes \<times> symmetric_state" where
  "reply_payload cr hdr client_e e ee s es chain =
     encrypt_and_hash cr chain (mix_key cr es (snd (reply_static cr hdr client_e e ee s)))"

lemmas reply_defs = reply_state_def reply_static_def reply_payload_def

lemma responder_hello_reply:
  assumes "n_dh cr (fst e) client_e = Inr ee" and "n_dh cr (fst s) client_e = Inr es"
  shows "responder_hello cr hdr e s chain client_e =
    Inr (fst (reply_static cr hdr client_e (snd e) ee (snd s)),
         reply_payload cr hdr client_e (snd e) ee (snd s) es chain)"
  by (simp add: responder_hello_def assms Let_def split_beta reply_defs)

lemma handshake_accepted:
  assumes hm: "hmac32 cr" and ae: "aead_ok cr"
    and ee: "n_dh cr (fst ck) (snd e) = Inr ee" and es: "n_dh cr (fst ck) (snd s) = Inr es"
    and se: "n_dh cr (fst nk) (snd e) = Inr se"
    and cert: "verify_noise_cert_chain cr lib strict chain = Inr ()"
  obtains h where "process_handshake cr lib (server_hello (snd e)
      (fst (reply_static cr hdr (snd ck) (snd e) ee (snd s)))
      (fst (reply_payload cr hdr (snd ck) (snd e) ee (snd s) es chain))) nk
      (new_noise_handler cr ck hdr routing strict) =
        Inr (fst (encrypt_and_hash cr (snd nk) (snd (reply_payload cr hdr (snd ck) (snd e) ee (snd s) es chain))), h)"
    "sym_of h = mix_key cr se (snd (encrypt_and_hash cr (snd nk) (snd (reply_payload cr hdr (snd ck) (snd e) ee (snd s) es chain))))"
    "hs_ok h (nh_private h) (nh_strict h)" "nh_counter h = 0"
proof -
  let ?h0 = "new_noise_handler cr ck hdr routing strict"
  let ?ah = "authenticate cr (snd e) ?h0"
  define r2 where "r2 = reply_state cr hdr (snd ck) (snd e) ee"
  define r3 where "r3 = reply_static cr hdr (snd ck) (snd e) ee (snd s)"
  define r5 where "r5 = reply_payload cr hdr (snd ck) (snd e) ee (snd s) es chain"
  have r3: "r3 = encrypt_and_hash cr (snd s) r2" by (simp add: r3_def r2_def reply_static_def)
  have r5: "r5 = encrypt_and_hash cr chain (mix_key cr es (snd r3))" by (simp add: r5_def r3_def reply_payload_def)
  have h0: "hs_ok ?ah (fst ck) strict" by (simp add: new_noise_handler_sym)
  have "sym_of ?ah = mix_hash cr (snd e) (sym_of ?h0)"
    using new_noise_handler_sym(2) by (simp add: sym_of_authenticate hs_ok_def)
  then have s0: "r2 = mix_key cr ee (sym_of ?ah)" by (simp add: new_noise_handler_sym r2_def reply_state_def)
  obtain h2 where h2: "mix_dh cr (fst ck) (snd e) ?ah = Inr h2" "sym_of h2 = r2" "hs_ok h2 (fst ck) strict" "nh_counter h2 = 0"
    using mix_dh_step [OF hm h0 ee] by (metis s0)
  have "decrypt_and_hash cr (fst r3) (sym_of h2) = Inr (snd s, snd r3)"
    using decrypt_and_hash_encrypted [OF ae] by (simp add: r3 h2(2))
  with h2 obtain h3 where h3: "noise_decrypt cr (fst r3) h2 = (Inr (snd s), h3)" "sym_of h3 = snd r3" "hs_ok h3 (fst ck) strict"
    by (metis hs_decrypt_step)
  obtain h4 where h4: "mix_dh cr (fst ck) (snd s) h3 = Inr h4" "sym_of h4 = mix_key cr es (snd r3)"
      "hs_ok h4 (fst ck) strict" "nh_counter h4 = 0"
    using mix_dh_step [OF hm h3(3) es] by (metis h3(2))
  have "decrypt_and_hash cr (fst r5) (sym_of h4) = Inr (chain, snd r5)"
    using decrypt_and_hash_encrypted [OF ae] by (simp add: r5 h4(2))
  with h4 obtain h5 where h5: "noise_decrypt cr (fst r5) h4 = (Inr chain, h5)" "sym_of h5 = snd r5"
      "hs_ok h5 (fst ck) strict" "nh_counter h5 = 1"
    by (metis hs_decrypt_step)
  obtain h6 where h6: "noise_encrypt cr (snd nk) h5 = (fst (encrypt_and_hash cr (snd nk) (snd r5)), h6)"
      "sym_of h6 = snd (encrypt_and_hash cr (snd nk) (snd r5))" "hs_ok h6 (nh_private h6) (nh_strict h6)"
    using hs_encrypt_step [OF h5(3), of cr "snd nk"] h5(2,4) by (metis one_less_numeral_iff semiring_norm(76))
  obtain h7 where h7: "mix_dh cr (fst nk) (snd e) h6 = Inr h7"
      "sym_of h7 = mix_key cr se (snd (encrypt_and_hash cr (snd nk) (snd r5)))"
      "hs_ok h7 (nh_private h6) (nh_strict h6)" "nh_counter h7 = 0"
    using mix_dh_step [OF hm h6(3) se] by (metis h6(2))
  have priv: "nh_private ?ah = fst ck" "nh_private h3 = fst ck" "nh_strict h5 = strict"
    using h0 h3(3) h5(3) by (simp_all add: hs_ok_def)
  have "process_handshake cr lib (server_hello (snd e) (fst r3) (fst r5)) nk ?h0 =
      Inr (fst (encrypt_and_hash cr (snd nk) (snd r5)), h7)"
    unfolding process_handshake_def server_hello_fields
    by (simp add: Let_def priv [simplified] h2(1) h3(1) h4(1) h5(1) cert h6(1) h7(1))
  from that [OF this [unfolded r3_def r5_def] h7(2) [unfolded r5_def] _ h7(4)] h7(3) show thesis
    by (simp add: hs_ok_def)
qed

lemma noise_handshake_run:
  assumes hm: "hmac32 cr" and ae: "aead_ok cr"
    and ee: "n_dh cr (fst ck) (snd e) = Inr ee" "n_dh cr (fst e) (snd ck) = Inr ee"
    and es: "n_dh cr (fst ck) (snd s) = Inr es" "n_dh cr (fst s) (snd ck) = Inr es"
    and se: "n_dh cr (fst nk) (snd e) = Inr se" "n_dh cr (fst e) (snd nk) = Inr se"
    and cert: "verify_noise_cert_chain cr lib strict chain = Inr ()"
  shows "\<exists>static encrypted rs key_enc h1 payload_enc h2 h3 k1 k2.
    responder_hello cr hdr e s chain (snd ck) = Inr (static, encrypted, rs) \<and>
    process_handshake cr lib (server_hello (snd e) static encrypted) nk
      (new_noise_handler cr ck hdr routing strict) = Inr (key_enc, h1) \<and>
    noise_encrypt cr payload h1 = (payload_enc, h2) \<and>
    responder_finish cr e key_enc payload_enc rs = Inr (snd nk, payload, (k1, k2)) \<and>
    nh_transport h2 = None \<and> finish_init cr h2 = Inr h3 \<and>
    nh_transport h3 = Some \<lparr>t_enc_key = k1, t_dec_key = k2, t_read_counter = 0, t_write_counter = 0\<rparr>"
proof -
  define r5 where "r5 = reply_payload cr hdr (snd ck) (snd e) ee (snd s) es chain"
  obtain h7 where h7: "process_handshake cr lib (server_hello (snd e) (fst (reply_static cr hdr (snd ck) (snd e) ee (snd s))) (fst r5)) nk
      (new_noise_handler cr ck hdr routing strict) = Inr (fst (encrypt_and_hash cr (snd nk) (snd r5)), h7)"
      "sym_of h7 = mix_key cr se (snd (encrypt_and_hash cr (snd nk) (snd r5)))"
      "hs_ok h7 (nh_private h7) (nh_strict h7)" "nh_counter h7 = 0"
    using handshake_accepted [OF hm ae ee(1) es(1) se(1) cert] unfolding r5_def by blast
  obtain h8 where h8: "noise_encrypt cr payload h7 = (fst (encrypt_and_hash cr payload (sym_of h7)), h8)"
      "sym_of h8 = snd (encrypt_and_hash cr payload (sym_of h7))" "nh_salt h8 = nh_salt h7" "nh_transport h8 = None"
    using hs_encrypt_step [OF h7(3), of cr payload] h7(4) by (metis zero_less_numeral handshaking_def)
  have salt: "nh_salt h8 \<noteq> []" using h7(3) h8(3) by (simp add: hs_ok_def)
  obtain h9 where h9: "finish_init cr h8 = Inr h9"
      "nh_transport h9 = Some \<lparr>t_enc_key = fst (hkdf2 cr (nh_salt h8) []), t_dec_key = snd (hkdf2 cr (nh_salt h8) []),
                               t_read_counter = 0, t_write_counter = 0\<rparr>"
    using finish_init_keys [OF hm salt] by metis
  have "ss_ck (sym_of h8) = nh_salt h8" by (simp add: sym_of_def)
  then have finish: "responder_finish cr e (fst (encrypt_and_hash cr (snd nk) (snd r5)))
        (fst (encrypt_and_hash cr payload (sym_of h7))) (snd r5) =
      Inr (snd nk, payload, (fst (hkdf2 cr (nh_salt h8) []), snd (hkdf2 cr (nh_salt h8) [])))"
    using decrypt_and_hash_encrypted [OF ae, of payload "sym_of h7"]
    by (simp add: responder_finish_def decrypt_and_hash_encrypted [OF ae] se h7(2) h8(2))
  have hello: "responder_hello cr hdr e s chain (snd ck) =
      Inr (fst (reply_static cr hdr (snd ck) (snd e) ee (snd s)), fst r5, snd r5)"
    by (simp add: responder_hello_reply [OF ee(2) es(2)] r5_def)
  show ?thesis
    by (intro exI conjI) (rule hello h7(1) h8(1) h8(4) finish h9)+
qed

text \<open>
  C5. The client's handshake is the initiator's side of Noise XX: with any responder that follows
  the framework, the client accepts the reply, the responder reads the client's static key and
  first payload from its answer, and both end with the same pair of transport keys. Nothing
  relates the responder's static key to the certificate chain it sends.
\<close>

theorem noise_handshake_agrees:
  assumes hm: "hmac32 cr" and ae: "aead_ok cr"
    and ee: "n_dh cr (fst ck) (snd e) = Inr ee" "n_dh cr (fst e) (snd ck) = Inr ee"
    and es: "n_dh cr (fst ck) (snd s) = Inr es" "n_dh cr (fst s) (snd ck) = Inr es"
    and se: "n_dh cr (fst nk) (snd e) = Inr se" "n_dh cr (fst e) (snd nk) = Inr se"
    and cert: "verify_noise_cert_chain cr lib strict chain = Inr ()"
  shows "\<exists>static encrypted rs key_enc h1 payload_enc h2 h3 k1 k2.
    responder_hello cr hdr e s chain (snd ck) = Inr (static, encrypted, rs) \<and>
    process_handshake cr lib (server_hello (snd e) static encrypted) nk
      (new_noise_handler cr ck hdr routing strict) = Inr (key_enc, h1) \<and>
    noise_encrypt cr payload h1 = (payload_enc, h2) \<and>
    responder_finish cr e key_enc payload_enc rs = Inr (snd nk, payload, (k1, k2)) \<and>
    finish_init cr h2 = Inr h3 \<and>
    nh_transport h3 = Some \<lparr>t_enc_key = k1, t_dec_key = k2, t_read_counter = 0, t_write_counter = 0\<rparr>"
  using noise_handshake_run [OF assms, of hdr routing payload] by blast

text \<open>Toy primitives with the assumed laws, and an accepted certificate chain.\<close>

definition demo_noise :: noise_crypto where
  "demo_noise = \<lparr>n_sha256 = \<lambda>d. [sum_list d, of_nat (length d)],
     n_hmac = \<lambda>k d. replicate 32 (sum_list k + 3 * sum_list d),
     n_dh = \<lambda>a b. Inr [sum_list a * sum_list b],
     n_seal = \<lambda>key iv aad pt. (pt, replicate 16 (sum_list key + sum_list iv + sum_list aad)),
     n_unseal = \<lambda>key iv aad ct tag. if tag = replicate 16 (sum_list key + sum_list iv + sum_list aad)
                  then Inr ct else Inl ExternalError,
     n_verify = \<lambda>pk m s. if s = pk then Inr () else Inl ExternalError\<rparr>"

definition demo_certs :: cert_lib where
  "demo_certs = \<lparr>cl_chain = \<lambda>b. Inr \<lparr>cc_leaf = Some \<lparr>nc_details = b, nc_signature = [9]\<rparr>,
       cc_intermediate = Some \<lparr>nc_details = [2], nc_signature = WA_CERT_PUBLIC_KEY\<rparr>\<rparr>,
     cl_details = Some (\<lambda>_. Inr \<lparr>cd_issuer_serial = Some 0, cd_issuer = None, cd_key = [9]\<rparr>)\<rparr>"

lemma demo_noise_ok: "hmac32 demo_noise" "aead_ok demo_noise"
  by (simp_all add: hmac32_def aead_ok_def demo_noise_def)

lemma demo_chain_accepted: "verify_noise_cert_chain demo_noise (Some demo_certs) True [1] = Inr ()"
  by (simp add: verify_noise_cert_chain_def demo_certs_def demo_noise_def cert_field_def check_chain_def
      curve_verify_def WA_CERT_PUBLIC_KEY_def WA_CERT_SERIAL_def Let_def)

theorem noise_handshake_agrees_witness:
  "\<exists>static encrypted rs key_enc h1 payload_enc h2 h3 k1 k2.
    responder_hello demo_noise NOISE_WA_HEADER ([3], [3]) ([4], [4]) [1] [5] = Inr (static, encrypted, rs) \<and>
    process_handshake demo_noise (Some demo_certs) (server_hello [3] static encrypted) ([6], [6])
      (new_noise_handler demo_noise ([5], [5]) NOISE_WA_HEADER None True) = Inr (key_enc, h1) \<and>
    noise_encrypt demo_noise [7, 8] h1 = (payload_enc, h2) \<and>
    responder_finish demo_noise ([3], [3]) key_enc payload_enc rs = Inr ([6], [7, 8], (k1, k2)) \<and>
    finish_init demo_noise h2 = Inr h3 \<and>
    nh_transport h3 = Some \<lparr>t_enc_key = k1, t_dec_key = k2, t_read_counter = 0, t_write_counter = 0\<rparr>"
  using noise_handshake_agrees [OF demo_noise_ok, of "([5], [5])" "([3], [3])" "[15]" "([4], [4])" "[20]"
      "([6], [6])" "[18]" "Some demo_certs" True "[1]" NOISE_WA_HEADER None "[7, 8]"] demo_chain_accepted
  by (simp add: demo_noise_def)

section \<open>What a completed handshake has checked\<close>

definition chain_trusted :: "noise_crypto \<Rightarrow> cert_lib \<Rightarrow> bytes \<Rightarrow> bool" where
  "chain_trusted cr lib cert \<longleftrightarrow> (\<exists>chain leaf intermediate parse details.
     cl_chain lib cert = Inr chain \<and> cc_leaf chain = Some leaf \<and> cc_intermediate chain = Some intermediate \<and>
     cl_details lib = Some parse \<and> parse (nc_details intermediate) = Inr details \<and>
     curve_verify (n_verify cr) WA_CERT_PUBLIC_KEY (nc_details intermediate) (nc_signature intermediate) \<and>
     curve_verify (n_verify cr) (cd_key details) (nc_details leaf) (nc_signature leaf) \<and>
     (case (cd_issuer_serial details, cd_issuer details) of
        (Some serial, _) \<Rightarrow> serial = WA_CERT_SERIAL
      | (None, Some issuer) \<Rightarrow> issuer = WA_CERT_ISSUER
      | (None, None) \<Rightarrow> True))"

lemma strict_chain:
  assumes "verify_noise_cert_chain cr (Some lib) True cert = Inr ()"
  shows "chain_trusted cr lib cert"
proof -
  note v = assms [unfolded verify_noise_cert_chain_def, simplified]
  obtain chain where c: "cl_chain lib cert = Inr chain"
    using v by (auto simp: bindE_eq_Inr_iff)
  obtain inter where i: "cc_intermediate chain = Some inter"
    using v c by (cases "cc_intermediate chain") auto
  obtain leaf where l: "cc_leaf chain = Some leaf"
    using v c i by (cases "cc_leaf chain") (auto simp: cert_field_def)
  obtain parse where p: "cl_details lib = Some parse"
    using v c i by (cases "cl_details lib") (auto split: if_splits)
  obtain details where d: "parse (nc_details inter) = Inr details"
    using v c i p by (cases "parse (nc_details inter)") (auto split: if_splits)
  have "\<lparr>nc_details = nc_details leaf, nc_signature = nc_signature leaf\<rparr> = leaf" by (cases leaf) simp
  moreover have "check_chain cr True \<lparr>nc_details = nc_details leaf, nc_signature = nc_signature leaf\<rparr> inter details = Inr ()"
    using v c i l p d by (auto simp: cert_field_def split: if_splits)
  ultimately have "check_chain cr True leaf inter details = Inr ()" by (simp only:)
  with c i l p d show ?thesis
    unfolding chain_trusted_def
    by (intro exI [of _ chain] exI [of _ leaf] exI [of _ inter] exI [of _ parse] exI [of _ details])
      (auto simp: check_chain_def split: if_splits option.splits)
qed

lemma mix_dh_strict: "mix_dh cr priv pub h = Inr h' \<Longrightarrow> nh_strict h' = nh_strict h"
  by (auto simp: mix_dh_def mix_into_key_def bindE_eq_Inr_iff)

lemma noise_decrypt_strict: "noise_decrypt cr ct h = (r, h') \<Longrightarrow> nh_strict h' = nh_strict h"
  by (auto simp: noise_decrypt_def Let_def split: option.splits prod.splits sum.splits)

text \<open>
  C40. With strict validation and the protobuf classes at hand, a handshake that completes has
  decrypted a certificate chain whose intermediate certificate is signed by WhatsApp's key, whose
  leaf is signed by the intermediate's key, and whose serial number or issuer is the expected one.
\<close>

theorem strict_handshake_verified:
  assumes "process_handshake cr (Some lib) payload nk h = Inr (key_enc, h')" and "nh_strict h"
  shows "\<exists>ephemeral static encrypted h4 cert h5. handshake_fields payload = Inr (ephemeral, static, encrypted) \<and>
    noise_decrypt cr encrypted h4 = (Inr cert, h5) \<and> chain_trusted cr lib cert"
proof -
  note p = assms(1) [unfolded process_handshake_def Let_def]
  obtain ephemeral static encrypted where f: "handshake_fields payload = Inr (ephemeral, static, encrypted)"
    using p by (cases "handshake_fields payload") auto
  obtain h2 where h2: "mix_dh cr (nh_private h) ephemeral (authenticate cr ephemeral h) = Inr h2"
    using p f by (cases "mix_dh cr (nh_private h) ephemeral (authenticate cr ephemeral h)") auto
  obtain ds h3 where h3: "noise_decrypt cr static h2 = (Inr ds, h3)"
    using p f h2 by (cases "noise_decrypt cr static h2"; cases "fst (noise_decrypt cr static h2)") auto
  obtain h4 where h4: "mix_dh cr (nh_private h3) ds h3 = Inr h4"
    using p f h2 h3 by (cases "mix_dh cr (nh_private h3) ds h3") auto
  obtain cert h5 where h5: "noise_decrypt cr encrypted h4 = (Inr cert, h5)"
    using p f h2 h3 h4 by (cases "noise_decrypt cr encrypted h4"; cases "fst (noise_decrypt cr encrypted h4)") auto
  have "verify_noise_cert_chain cr (Some lib) (nh_strict h5) cert = Inr ()"
    using p f h2 h3 h4 h5 by (cases "verify_noise_cert_chain cr (Some lib) (nh_strict h5) cert") auto
  moreover have "nh_strict h5"
    using assms(2) mix_dh_strict [OF h2] noise_decrypt_strict [OF h3] mix_dh_strict [OF h4]
      noise_decrypt_strict [OF h5] by simp
  ultimately show ?thesis using f h5 strict_chain by fastforce
qed

theorem strict_handshake_verified_witness:
  "\<exists>static encrypted h4 cert h5. noise_decrypt demo_noise encrypted h4 = (Inr cert, h5) \<and>
    handshake_fields (server_hello [3] static encrypted) = Inr ([3], static, encrypted) \<and>
    chain_trusted demo_noise demo_certs cert"
proof -
  define h0 where "h0 = new_noise_handler demo_noise ([5], [5]) NOISE_WA_HEADER None True"
  have dh: "n_dh demo_noise (fst ([5], [5])) (snd ([3], [3])) = Inr [15]"
    "n_dh demo_noise (fst ([5], [5])) (snd ([4], [4])) = Inr [20]"
    "n_dh demo_noise (fst ([6], [6])) (snd ([3], [3])) = Inr [18]" by (simp_all add: demo_noise_def)
  obtain static encrypted key_enc h1 where
    "process_handshake demo_noise (Some demo_certs) (server_hello [3] static encrypted) ([6], [6]) h0 = Inr (key_enc, h1)"
    unfolding h0_def
    by (rule handshake_accepted [OF demo_noise_ok dh demo_chain_accepted, of NOISE_WA_HEADER None])
      (simp only: snd_conv)
  moreover have "nh_strict h0" by (simp add: h0_def new_noise_handler_def authenticate_def Let_def)
  ultimately obtain h4 cert h5 where "noise_decrypt demo_noise encrypted h4 = (Inr cert, h5)"
    "chain_trusted demo_noise demo_certs cert"
    using strict_handshake_verified [of demo_noise demo_certs "server_hello [3] static encrypted"]
    by (simp add: server_hello_fields) blast
  then show ?thesis using server_hello_fields by blast
qed

section \<open>Nonces\<close>

text \<open>
  The nonces of one key repeat exactly when the counters agree in their low 32 bits: up to
  2^32 frames each nonce is fresh, and the next one uses the first again.
\<close>

theorem nonce_repeats_iff: "generate_iv c = generate_iv d \<longleftrightarrow> c mod 2 ^ 32 = d mod 2 ^ 32"
proof -
  have iv: "generate_iv x = replicate 8 0 @ be_bytes 4 x" for x
    by (simp add: generate_iv_def eval_nat_numeral)
  have "be_bytes 4 c = be_bytes 4 d \<longleftrightarrow> be_val (be_bytes 4 c) = be_val (be_bytes 4 d)"
    using be_val_inject [of "be_bytes 4 c" "be_bytes 4 d"] by auto
  then show ?thesis by (simp add: iv be_val_be_bytes)
qed

end
