(* ===== verification/Noise_Frames.thy ===== *)
theory Noise_Frames
  imports Noise Wa_Wire
begin

text \<open>
  Frames on the socket: \<^verbatim>\<open>encode_frame\<close> and \<^verbatim>\<open>decode_frame\<close> of
  \<^verbatim>\<open>utils/noise_handler.py\<close> and their callers \<^verbatim>\<open>send_node\<close>,
  \<^verbatim>\<open>send_raw_message\<close> and \<^verbatim>\<open>on_message_received\<close> of
  \<^verbatim>\<open>socket/socket.py\<close>. The buffer of incoming bytes is kept beside the handler: only
  \<^verbatim>\<open>decode_frame\<close> touches it, under its lock, so the callback may change the handler but
  not the buffer.
\<close>

section \<open>Sending\<close>

definition encode_frame :: "noise_crypto \<Rightarrow> bytes \<Rightarrow> noise_handler \<Rightarrow> bytes \<times> noise_handler" where
  "encode_frame cr dat h =
     (let (output, h1) = (case nh_transport h of
            Some t \<Rightarrow> let (encrypted, t') = transport_encrypt cr dat t
                      in (encrypted, h\<lparr>nh_transport := Some t'\<rparr>)
          | None \<Rightarrow> (dat, h));
          intro = (if nh_sent_intro h1 then [] else nh_intro_header h1)
      in (intro @ be_bytes 3 (int (length output)) @ output, h1\<lparr>nh_sent_intro := True\<rparr>))"

text \<open>
  \<open>is_open\<close> says whether the transport is open; what is returned is handed to it. Without a
  Noise handler the payload goes out as it is.
\<close>

definition send_raw_message ::
    "noise_crypto \<Rightarrow> bool \<Rightarrow> bytes \<Rightarrow> noise_handler option \<Rightarrow> (bytes \<times> noise_handler option) result" where
  "send_raw_message cr is_open payload noise =
     (if \<not> is_open then Inl (RuntimeError ''Connection Closed'')
      else case noise of None \<Rightarrow> Inr (payload, None)
         | Some h \<Rightarrow> let (outgoing, h') = encode_frame cr payload h in Inr (outgoing, Some h'))"

fun before_send_node :: "(node \<Rightarrow> node result) list \<Rightarrow> node \<Rightarrow> node result" where
  "before_send_node [] n = Inr n"
| "before_send_node (plugin # plugins) n = bindE (plugin n) (before_send_node plugins)"

definition send_node ::
    "noise_crypto \<Rightarrow> (node \<Rightarrow> node result) list \<Rightarrow> bool \<Rightarrow> node \<Rightarrow> noise_handler option \<Rightarrow>
     (bytes \<times> noise_handler option) result" where
  "send_node cr plugins is_open n noise =
     bindE (before_send_node plugins n) (\<lambda>current.
     bindE (encode_stanza current) (\<lambda>payload. send_raw_message cr is_open payload noise))"

section \<open>Receiving\<close>

datatype decoded = Raw bytes | Decoded node

type_synonym 'w dispatcher = "decoded \<Rightarrow> noise_handler \<times> 'w \<Rightarrow> unit result \<times> noise_handler \<times> 'w"

text \<open>The next complete frame of the buffer, and what is left of the buffer.\<close>

definition next_frame :: "bytes \<Rightarrow> (bytes \<times> bytes) option" where
  "next_frame in_bytes =
     (if length in_bytes < 3 then None
      else let size = nat (be_val (take 3 in_bytes)) in
        if length in_bytes < size + 3 then None
        else Some (take size (drop 3 in_bytes), drop (size + 3) in_bytes))"

definition decode_one ::
    "noise_crypto \<Rightarrow> (bytes \<Rightarrow> bytes result) \<Rightarrow> bytes \<Rightarrow> noise_handler \<Rightarrow> decoded result \<times> noise_handler" where
  "decode_one cr decompress frame h = (case nh_transport h of
       None \<Rightarrow> (Inr (Raw frame), h)
     | Some t \<Rightarrow> let (decrypted, t') = transport_decrypt cr frame t
                 in (bindE decrypted (\<lambda>b. bindE (decode_stanza decompress b) (\<lambda>n. Inr (Decoded n))),
                     h\<lparr>nh_transport := Some t'\<rparr>))"

lemma next_frame_shorter: "next_frame b = Some (f, r) \<Longrightarrow> length r < length b"
  by (auto simp: next_frame_def Let_def split: if_splits)

function process_data ::
    "noise_crypto \<Rightarrow> (bytes \<Rightarrow> bytes result) \<Rightarrow> 'w dispatcher \<Rightarrow> bytes \<Rightarrow> noise_handler \<times> 'w \<Rightarrow>
     unit result \<times> bytes \<times> noise_handler \<times> 'w" where
  "process_data cr decompress on_frame in_bytes s = (case next_frame in_bytes of
       None \<Rightarrow> (Inr (), in_bytes, s)
     | Some (frame, rest) \<Rightarrow>
         (case decode_one cr decompress frame (fst s) of
            (Inl e, h) \<Rightarrow> (Inl e, rest, h, snd s)
          | (Inr d, h) \<Rightarrow>
              (case on_frame d (h, snd s) of
                 (Inl e, s') \<Rightarrow> (Inl e, rest, s')
               | (Inr _, s') \<Rightarrow> process_data cr decompress on_frame rest s')))"
  by pat_completeness auto
termination
  by (relation "measure (\<lambda>(_, _, _, b, _). length b)") (auto dest: next_frame_shorter)

declare process_data.simps [simp del]

definition decode_frame ::
    "noise_crypto \<Rightarrow> (bytes \<Rightarrow> bytes result) \<Rightarrow> 'w dispatcher \<Rightarrow> bytes \<Rightarrow> bytes \<times> noise_handler \<times> 'w \<Rightarrow>
     unit result \<times> bytes \<times> noise_handler \<times> 'w" where
  "decode_frame cr decompress on_frame new_data st =
     process_data cr decompress on_frame (fst st @ new_data) (snd st)"

text \<open>
  \<open>on_message_received\<close> for the chunks the transport hands over, until one raises. Without a
  handler the chunk itself is the frame.
\<close>

fun receive_all ::
    "noise_crypto \<Rightarrow> (bytes \<Rightarrow> bytes result) \<Rightarrow> 'w dispatcher \<Rightarrow> bytes list \<Rightarrow> bytes \<times> noise_handler \<times> 'w \<Rightarrow>
     unit result \<times> bytes \<times> noise_handler \<times> 'w" where
  "receive_all cr decompress on_frame [] st = (Inr (), st)"
| "receive_all cr decompress on_frame (c # cs) st = (case decode_frame cr decompress on_frame c st of
       (Inl e, st') \<Rightarrow> (Inl e, st')
     | (Inr _, st') \<Rightarrow> receive_all cr decompress on_frame cs st')"

section \<open>The stream of bytes may be cut anywhere\<close>

lemma next_frame_append: "next_frame b = Some (f, r) \<Longrightarrow> next_frame (b @ zs) = Some (f, r @ zs)"
  by (auto simp: next_frame_def Let_def split: if_splits)

lemma process_data_stops: "process_data cr dz on b s = (Inr (), r, s') \<Longrightarrow> next_frame r = None"
proof (induction cr dz on b s rule: process_data.induct)
  case (1 cr dz on b s)
  show ?case
    using "1.prems" "1.IH"
    by (subst (asm) process_data.simps) (fastforce split: option.splits prod.splits sum.splits)
qed

lemma process_data_append:
  "process_data cr dz on (b @ zs) s = (Inr (), r, s') \<Longrightarrow>
   \<exists>r1 s1. process_data cr dz on b s = (Inr (), r1, s1) \<and> process_data cr dz on (r1 @ zs) s1 = (Inr (), r, s')"
proof (induction cr dz on b s rule: process_data.induct)
  case (1 cr dz on b s)
  show ?case
  proof (cases "next_frame b")
    case None
    then have "process_data cr dz on b s = (Inr (), b, s)" by (simp add: process_data.simps)
    with "1.prems" show ?thesis by simp
  next
    case (Some p)
    obtain f rest where p: "p = (f, rest)" by (cases p)
    note n = Some [unfolded p] next_frame_append [OF Some [unfolded p], of zs]
    obtain d h where d: "decode_one cr dz f (fst s) = (Inr d, h)"
      using "1.prems" n by (cases "decode_one cr dz f (fst s)"; cases "fst (decode_one cr dz f (fst s))")
        (auto simp: process_data.simps [of _ _ _ "b @ zs"])
    obtain s' where o: "on d (h, snd s) = (Inr (), s')"
      using "1.prems" n d by (cases "on d (h, snd s)"; cases "fst (on d (h, snd s))")
        (auto simp: process_data.simps [of _ _ _ "b @ zs"])
    show ?thesis
      using "1.prems" "1.IH" [OF Some p [symmetric] d [symmetric] refl o [symmetric] refl] n d o
      by (simp add: process_data.simps [of _ _ _ "b @ zs"] process_data.simps [of _ _ _ b])
  qed
qed

lemma receive_all_concat:
  "process_data cr dz on (b @ concat cs) s = (Inr (), r, s') \<Longrightarrow> next_frame b = None \<Longrightarrow>
   receive_all cr dz on cs (b, s) = (Inr (), r, s')"
proof (induction cs arbitrary: b s)
  case Nil
  then show ?case by (simp add: process_data.simps)
next
  case (Cons c cs)
  from Cons.prems(1) process_data_append [of cr dz on "b @ c" "concat cs" s r s']
  obtain r1 s1 where p: "process_data cr dz on (b @ c) s = (Inr (), r1, s1)"
    "process_data cr dz on (r1 @ concat cs) s1 = (Inr (), r, s')" by auto
  have "next_frame r1 = None" using process_data_stops [OF p(1)] .
  with Cons.IH [OF p(2)] p(1) show ?case by (simp add: decode_frame_def)
qed

section \<open>Framed data is read back\<close>

lemma next_frame_framed:
  assumes "length dat < 2 ^ 24"
  shows "next_frame (be_bytes 3 (int (length dat)) @ dat @ rest) = Some (dat, rest)"
proof -
  have "int (length dat) < 256 ^ 3" using assms by simp
  then have "nat (be_val (be_bytes 3 (int (length dat)))) = length dat" by (simp add: be_val_be_bytes)
  then show ?thesis by (simp add: next_frame_def Let_def)
qed

text \<open>
  The three bytes in front of a frame carry its length only below 2^24: the first frame the
  receiver cuts off is the data exactly when the data is shorter than that.
\<close>

theorem frame_length_bound:
  assumes "nh_transport h = None" and "nh_sent_intro h"
  shows "(\<exists>rest. next_frame (fst (encode_frame cr dat h)) = Some (dat, rest)) \<longleftrightarrow> length dat < 2 ^ 24"
proof
  assume "\<exists>rest. next_frame (fst (encode_frame cr dat h)) = Some (dat, rest)"
  then obtain rest where n: "next_frame (be_bytes 3 (int (length dat)) @ dat) = Some (dat, rest)"
    using assms by (auto simp: encode_frame_def)
  then have "length dat \<le> nat (be_val (be_bytes 3 (int (length dat))))"
    by (auto simp: next_frame_def Let_def split: if_splits)
  moreover have "be_val (be_bytes 3 (int (length dat))) < 256 ^ 3"
    using be_val_range [of "be_bytes 3 (int (length dat))"] by simp
  ultimately show "length dat < 2 ^ 24" by simp
next
  assume "length dat < 2 ^ 24"
  from next_frame_framed [OF this, of "[]"] show "\<exists>rest. next_frame (fst (encode_frame cr dat h)) = Some (dat, rest)"
    using assms by (simp add: encode_frame_def)
qed

definition demo_peer :: noise_handler where
  "demo_peer = (new_noise_handler demo_noise ([5], [5]) NOISE_WA_HEADER None True)\<lparr>nh_sent_intro := True\<rparr>"

theorem frame_length_bound_witness:
  "next_frame (fst (encode_frame demo_noise [1, 2] demo_peer)) = Some ([1, 2], [])"
proof -
  have "nh_transport demo_peer = None" "nh_sent_intro demo_peer"
    by (simp_all add: demo_peer_def new_noise_handler_def authenticate_def Let_def)
  from frame_length_bound [OF this, of demo_noise "[1, 2]"] show ?thesis
    using next_frame_framed [of "[1, 2]" "[]"] \<open>nh_transport demo_peer = None\<close> \<open>nh_sent_intro demo_peer\<close>
    by (simp add: encode_frame_def)
qed

section \<open>Stanzas from peer to peer\<close>

definition matched :: "transport_state \<Rightarrow> transport_state \<Rightarrow> bool" where
  "matched sender_t receiver_t \<longleftrightarrow>
     t_dec_key receiver_t = t_enc_key sender_t \<and> t_read_counter receiver_t = t_write_counter sender_t"

lemma transport_roundtrip:
  assumes "aead_ok cr" and "matched ts tr"
  shows "length (fst (transport_encrypt cr dat ts)) = length dat + 16"
    and "fst (transport_decrypt cr (fst (transport_encrypt cr dat ts)) tr) = Inr dat"
    and "matched (snd (transport_encrypt cr dat ts)) (snd (transport_decrypt cr c tr))"
proof -
  obtain ct tag where s: "n_seal cr (t_enc_key ts) (generate_iv (t_write_counter ts)) [] dat = (ct, tag)" by fastforce
  note a = aead_okD [OF assms(1) s]
  show "length (fst (transport_encrypt cr dat ts)) = length dat + 16"
    using a by (simp add: transport_encrypt_def aes_encrypt_gcm_def Let_def s)
  show "fst (transport_decrypt cr (fst (transport_encrypt cr dat ts)) tr) = Inr dat"
    using assms(2) gcm_roundtrip [where seal = "n_seal cr" and unseal = "n_unseal cr", OF s a(2,3)] by (simp add: transport_decrypt_def transport_encrypt_def Let_def matched_def)
  show "matched (snd (transport_encrypt cr dat ts)) (snd (transport_decrypt cr c tr))"
    using assms(2) by (simp add: transport_decrypt_def transport_encrypt_def Let_def matched_def)
qed

text \<open>Sending a list of stanzas over an open connection, and a callback that logs what arrives.\<close>

fun send_nodes :: "noise_crypto \<Rightarrow> node list \<Rightarrow> noise_handler option \<Rightarrow> (bytes \<times> noise_handler option) result" where
  "send_nodes cr [] noise = Inr ([], noise)"
| "send_nodes cr (n # ns) noise = bindE (send_node cr [] True n noise) (\<lambda>(b, noise').
     bindE (send_nodes cr ns noise') (\<lambda>(bs, noise''). Inr (b @ bs, noise'')))"

definition deliver :: "decoded list dispatcher" where
  "deliver d s = (Inr (), fst s, snd s @ [d])"

definition linked :: "noise_handler \<Rightarrow> noise_handler \<Rightarrow> bool" where
  "linked hs hr \<longleftrightarrow> nh_sent_intro hs \<and>
     (\<exists>ts tr. nh_transport hs = Some ts \<and> nh_transport hr = Some tr \<and> matched ts tr)"

text \<open>Its encoding, with the authentication tag, fits into a frame.\<close>

definition sendable :: "node \<Rightarrow> bool" where
  "sendable n \<longleftrightarrow> node_ok TOKEN_MAP n \<and> (\<forall>b. encode_stanza n = Inr b \<longrightarrow> length b + 16 < 2 ^ 24)"

lemma one_stanza:
  assumes cr: "aead_ok cr" and l: "linked hs hr" and ok: "sendable n"
  shows "\<exists>f hs' hr'. send_node cr [] True n (Some hs) = Inr (f, Some hs') \<and> linked hs' hr' \<and>
    (\<forall>rest log. process_data cr dz deliver (f @ rest) (hr, log) =
      process_data cr dz deliver rest (hr', log @ [Decoded (norm_node TOKEN_MAP n)]))"
proof -
  obtain b0 where "encode_node TOKEN_MAP n = Inr b0"
    "decode_decompressed_binary_node SINGLE_BYTE_TOKENS DOUBLE_BYTE_TOKENS (b0 @ []) = Inr (norm_node TOKEN_MAP n)"
    using wa.encode_decode [of n] ok unfolding sendable_def by blast
  then obtain b where b: "encode_stanza n = Inr b" "decode_stanza dz b = Inr (norm_node TOKEN_MAP n)"
    by (simp add: encode_binary_node_def decode_stanza_plain)
  obtain ts tr where t: "nh_sent_intro hs" "nh_transport hs = Some ts" "nh_transport hr = Some tr" "matched ts tr"
    using l by (auto simp: linked_def)
  let ?c = "fst (transport_encrypt cr b ts)"
  let ?hs = "hs\<lparr>nh_transport := Some (snd (transport_encrypt cr b ts)), nh_sent_intro := True\<rparr>"
  let ?hr = "hr\<lparr>nh_transport := Some (snd (transport_decrypt cr ?c tr))\<rparr>"
  have "send_node cr [] True n (Some hs) = Inr (be_bytes 3 (int (length ?c)) @ ?c, Some ?hs)"
    using t by (simp add: send_node_def b send_raw_message_def encode_frame_def Let_def split_beta)
  moreover have "linked ?hs ?hr" using transport_roundtrip(3) [OF cr t(4)] by (simp add: linked_def)
  moreover have "length ?c < 2 ^ 24" using ok b(1) transport_roundtrip(1) [OF cr t(4)] by (simp add: sendable_def)
  then have "next_frame (be_bytes 3 (int (length ?c)) @ ?c @ rest) = Some (?c, rest)" for rest
    by (rule next_frame_framed)
  then have "process_data cr dz deliver ((be_bytes 3 (int (length ?c)) @ ?c) @ rest) (hr, log) =
      process_data cr dz deliver rest (?hr, log @ [Decoded (norm_node TOKEN_MAP n)])" for rest log
    using t transport_roundtrip(2) [OF cr t(4)] b(2)
    by (subst process_data.simps) (simp add: decode_one_def split_beta deliver_def)
  ultimately show ?thesis by blast
qed

lemma many_stanzas:
  assumes "aead_ok cr" and "linked hs hr"
    and "\<And>n. n \<in> set ns \<Longrightarrow> sendable n"
  shows "\<exists>f hs' hr'. send_nodes cr ns (Some hs) = Inr (f, Some hs') \<and> linked hs' hr' \<and>
    process_data cr dz deliver f (hr, log) = (Inr (), [], hr', log @ map (Decoded \<circ> norm_node TOKEN_MAP) ns)"
  using assms
proof (induction ns arbitrary: hs hr log)
  case Nil
  then show ?case by (auto simp: process_data.simps next_frame_def)
next
  case (Cons n ns)
  obtain f hs' hr' where f: "send_node cr [] True n (Some hs) = Inr (f, Some hs')" "linked hs' hr'"
    "\<And>rest. process_data cr dz deliver (f @ rest) (hr, log) =
       process_data cr dz deliver rest (hr', log @ [Decoded (norm_node TOKEN_MAP n)])"
    using one_stanza [OF Cons.prems(1,2), of n] Cons.prems(3) by (metis list.set_intros(1))
  obtain g hs2 hr2 where "send_nodes cr ns (Some hs') = Inr (g, Some hs2)" "linked hs2 hr2"
    "process_data cr dz deliver g (hr', log @ [Decoded (norm_node TOKEN_MAP n)]) =
       (Inr (), [], hr2, (log @ [Decoded (norm_node TOKEN_MAP n)]) @ map (Decoded \<circ> norm_node TOKEN_MAP) ns)"
    using Cons.IH [OF Cons.prems(1) f(2), where log = "log @ [Decoded (norm_node TOKEN_MAP n)]"] Cons.prems(3)
    by (meson list.set_intros(2))
  with f show ?case by simp
qed

text \<open>
  C7. Between two ends of one transport, every list of stanzas the wire can carry is sent, and
  however the network cuts the bytes into chunks, the receiver is handed exactly these stanzas,
  in order, with nothing left in its buffer.
\<close>

theorem stanzas_delivered:
  assumes "aead_ok cr" and "linked hs hr"
    and "\<And>n. n \<in> set ns \<Longrightarrow> sendable n"
  shows "\<exists>f hs' hr'. send_nodes cr ns (Some hs) = Inr (f, Some hs') \<and> linked hs' hr' \<and>
    (\<forall>chunks. concat chunks = f \<longrightarrow> receive_all cr decompress deliver chunks ([], hr, log) =
       (Inr (), [], hr', log @ map (Decoded \<circ> norm_node TOKEN_MAP) ns))"
proof -
  obtain f hs' hr' where "send_nodes cr ns (Some hs) = Inr (f, Some hs')" "linked hs' hr'"
    "process_data cr decompress deliver f (hr, log) = (Inr (), [], hr', log @ map (Decoded \<circ> norm_node TOKEN_MAP) ns)"
    using many_stanzas [OF assms] by blast
  then show ?thesis
    using receive_all_concat [of cr decompress deliver "[]" _ "(hr, log)"] by (fastforce simp: next_frame_def)
qed

definition demo_ends :: "noise_handler \<times> noise_handler" where
  "demo_ends = (let t = \<lparr>t_enc_key = [1], t_dec_key = [2], t_read_counter = 0, t_write_counter = 5\<rparr>;
                    u = \<lparr>t_enc_key = [2], t_dec_key = [1], t_read_counter = 5, t_write_counter = 0\<rparr>
     in (demo_peer\<lparr>nh_transport := Some t\<rparr>, demo_peer\<lparr>nh_transport := Some u\<rparr>))"

definition hello_stanza :: node where
  "hello_stanza = Node ''iq'' [] (CList [Node ''ping'' [] CNone])"

lemma short_string:
  assumes "write_string TOKEN_MAP (Some s) = Inr b" and "s \<noteq> ''''" and "CHR ''@'' \<notin> set s"
    and "\<not> is_nibble s" and "\<not> is_hex s" and "length s < 256"
  shows "length b \<le> length s + 2"
proof -
  have "jid_decode (Some s) = Inr None" using assms(3) jid_decode_None by simp
  with assms show ?thesis
    by (auto simp: write_string.simps(2) write_string_raw_def write_byte_length_def split: option.splits if_splits)
qed

lemma hello_sendable: "sendable hello_stanza"
proof -
  have "atom_ok ''iq''" "atom_ok ''ping''" by (simp_all add: atom_ok_def ascii_valid ascii_def)
  then have "node_ok TOKEN_MAP hello_stanza" by (simp add: hello_stanza_def wire_ok_atom dict_wf_def)
  moreover have "length b + 16 < 2 ^ 24" if "encode_stanza hello_stanza = Inr b" for b
  proof -
    from that obtain x y where b: "b = 0 # write_list_start 2 @ x @ write_list_start 1 @ write_list_start 1 @ y"
      "write_string TOKEN_MAP (Some ''iq'') = Inr x" "write_string TOKEN_MAP (Some ''ping'') = Inr y"
      by (auto simp: hello_stanza_def encode_binary_node_def valid_attributes_def valid_content_def bindE_eq_Inr_iff
          numeral_2_eq_2)
    have "length x \<le> 4" "length y \<le> 6"
      using short_string [OF b(2)] short_string [OF b(3)] by (simp_all add: is_nibble_def is_hex_def is_digit_def)
    with b(1) show ?thesis by (simp add: write_list_start_def)
  qed
  ultimately show ?thesis by (simp add: sendable_def)
qed

theorem stanzas_delivered_witness:
  "\<exists>f hs' hr'. send_nodes demo_noise [hello_stanza, hello_stanza] (Some (fst demo_ends)) = Inr (f, Some hs') \<and>
    linked hs' hr' \<and>
    (\<forall>chunks. concat chunks = f \<longrightarrow>
       receive_all demo_noise (\<lambda>_. Inl ExternalError) deliver chunks ([], snd demo_ends, []) =
         (Inr (), [], hr', [] @ map (Decoded \<circ> norm_node TOKEN_MAP) [hello_stanza, hello_stanza]))"
proof (rule stanzas_delivered [OF demo_noise_ok(2)])
  show "linked (fst demo_ends) (snd demo_ends)"
    by (simp add: demo_ends_def linked_def matched_def demo_peer_def Let_def)
qed (auto simp: hello_sendable)

end
