(* ===== verification/Sender_Key.thy ===== *)
theory Sender_Key
  imports Prelude
begin

text \<open>
  The sender keys of a group session: \<^verbatim>\<open>signal/group/sender_chain_key.py\<close>,
  \<^verbatim>\<open>sender_message_key.py\<close>, \<^verbatim>\<open>sender_key_state.py\<close> and
  \<^verbatim>\<open>sender_key_record.py\<close>. The hash function HMAC-SHA256 and the key derivation
  HKDF are arguments of the definitions (\<open>hmac\<close> takes the key and the data, \<open>hkdf\<close> the
  seed), so that every theorem holds for whatever they compute.
\<close>

section \<open>Chain keys and message keys\<close>

record chain_key =
  ck_iteration :: int
  ck_seed :: bytes

record message_key =
  mk_iteration :: int
  mk_seed :: bytes
  mk_iv :: bytes
  mk_cipher_key :: bytes

definition MESSAGE_KEY_SEED :: bytes where
  "MESSAGE_KEY_SEED = [1]"

definition CHAIN_KEY_SEED :: bytes where
  "CHAIN_KEY_SEED = [2]"

text \<open>
  \<open>SenderMessageKey.__init__\<close>: the 64 derived bytes give the iv (bytes 0 to 15) and the
  cipher key (bytes 16 to 31 and 32 to 47).
\<close>

definition derive_secrets :: "(bytes \<Rightarrow> bytes) \<Rightarrow> bytes \<Rightarrow> bytes \<times> bytes" where
  "derive_secrets hkdf seed = (let material = hkdf seed in (take 32 material, drop 32 material))"

definition make_message_key :: "(bytes \<Rightarrow> bytes) \<Rightarrow> int \<Rightarrow> bytes \<Rightarrow> message_key" where
  "make_message_key hkdf iteration seed =
     (let (first, second) = derive_secrets hkdf seed in
      \<lparr>mk_iteration = iteration, mk_seed = seed, mk_iv = take 16 first,
       mk_cipher_key = take 16 (drop 16 first) @ take 16 second\<rparr>)"

definition get_sender_message_key ::
    "(bytes \<Rightarrow> bytes \<Rightarrow> bytes) \<Rightarrow> (bytes \<Rightarrow> bytes) \<Rightarrow> chain_key \<Rightarrow> message_key" where
  "get_sender_message_key hmac hkdf ck =
     make_message_key hkdf (ck_iteration ck) (hmac (ck_seed ck) MESSAGE_KEY_SEED)"

definition get_next :: "(bytes \<Rightarrow> bytes \<Rightarrow> bytes) \<Rightarrow> chain_key \<Rightarrow> chain_key" where
  "get_next hmac ck = \<lparr>ck_iteration = ck_iteration ck + 1, ck_seed = hmac (ck_seed ck) CHAIN_KEY_SEED\<rparr>"

section \<open>Sender key states\<close>

text \<open>
  The structure a state wraps. A stored message key is its iteration and its seed; the derived
  parts are computed again when it is taken out.
\<close>

record sender_key_state =
  sk_id :: int
  sk_chain :: chain_key
  sk_public :: bytes
  sk_private :: bytes
  sk_message_keys :: "(int \<times> bytes) list"

definition MAX_MESSAGE_KEYS :: nat where
  "MAX_MESSAGE_KEYS = 2000"

definition new_sender_key_state :: "int \<Rightarrow> int \<Rightarrow> bytes \<Rightarrow> bytes \<Rightarrow> bytes \<Rightarrow> sender_key_state" where
  "new_sender_key_state key_id iteration chain_key public private =
     \<lparr>sk_id = key_id, sk_chain = \<lparr>ck_iteration = iteration, ck_seed = chain_key\<rparr>,
      sk_public = public, sk_private = private, sk_message_keys = []\<rparr>"

definition set_sender_chain_key :: "chain_key \<Rightarrow> sender_key_state \<Rightarrow> sender_key_state" where
  "set_sender_chain_key ck st = st\<lparr>sk_chain := ck\<rparr>"

text \<open>A 32-byte public key is returned with the type byte 5 in front.\<close>

definition get_signing_key_public :: "sender_key_state \<Rightarrow> bytes" where
  "get_signing_key_public st =
     (if length (sk_public st) = 32 then 5 # sk_public st else sk_public st)"

definition has_sender_message_key :: "sender_key_state \<Rightarrow> int \<Rightarrow> bool" where
  "has_sender_message_key st iteration \<longleftrightarrow> list_ex (\<lambda>(i, _). i = iteration) (sk_message_keys st)"

definition add_sender_message_key :: "message_key \<Rightarrow> sender_key_state \<Rightarrow> sender_key_state" where
  "add_sender_message_key mk st =
     (let keys = sk_message_keys st @ [(mk_iteration mk, mk_seed mk)]
      in st\<lparr>sk_message_keys := (if length keys > MAX_MESSAGE_KEYS then tl keys else keys)\<rparr>)"

fun pop_iteration :: "int \<Rightarrow> (int \<times> bytes) list \<Rightarrow> ((int \<times> bytes) \<times> (int \<times> bytes) list) option" where
  "pop_iteration iteration [] = None"
| "pop_iteration iteration (item # keys) =
     (if fst item = iteration then Some (item, keys)
      else map_option (\<lambda>(found, ks). (found, item # ks)) (pop_iteration iteration keys))"

definition remove_sender_message_key ::
    "(bytes \<Rightarrow> bytes) \<Rightarrow> int \<Rightarrow> sender_key_state \<Rightarrow> message_key option \<times> sender_key_state" where
  "remove_sender_message_key hkdf iteration st =
     (case pop_iteration iteration (sk_message_keys st) of
        None \<Rightarrow> (None, st)
      | Some ((i, seed), keys) \<Rightarrow> (Some (make_message_key hkdf i seed), st\<lparr>sk_message_keys := keys\<rparr>))"

section \<open>Sender key records\<close>

type_synonym sender_key_record = "sender_key_state list"

definition MAX_STATES :: nat where
  "MAX_STATES = 5"

definition record_is_empty :: "sender_key_record \<Rightarrow> bool" where
  "record_is_empty r \<longleftrightarrow> r = []"

text \<open>
  \<open>get_sender_key_state\<close> returns a reference into the record, which the cipher then changes in
  place; the model returns the index of the state. Without a key id it is the newest state, with
  one the oldest state of that id.
\<close>

fun find_key_id :: "int \<Rightarrow> sender_key_record \<Rightarrow> nat option" where
  "find_key_id k [] = None"
| "find_key_id k (st # r) = (if sk_id st = k then Some 0 else map_option Suc (find_key_id k r))"

definition get_sender_key_state :: "int option \<Rightarrow> sender_key_record \<Rightarrow> nat option" where
  "get_sender_key_state key_id r =
     (case key_id of
        None \<Rightarrow> if r \<noteq> [] then Some (length r - 1) else None
      | Some k \<Rightarrow> find_key_id k r)"

definition add_sender_key_state :: "int \<Rightarrow> int \<Rightarrow> bytes \<Rightarrow> bytes \<Rightarrow> sender_key_record \<Rightarrow> sender_key_record" where
  "add_sender_key_state key_id iteration chain_key signature_key r =
     (let r' = r @ [new_sender_key_state key_id iteration chain_key signature_key []]
      in if length r' > MAX_STATES then tl r' else r')"

definition set_sender_key_state :: "int \<Rightarrow> int \<Rightarrow> bytes \<Rightarrow> bytes \<times> bytes \<Rightarrow> sender_key_record" where
  "set_sender_key_state key_id iteration chain_key key_pair =
     [new_sender_key_state key_id iteration chain_key (fst key_pair) (snd key_pair)]"

section \<open>Invariants\<close>

text \<open>
  A well-formed state: at most 2000 stored keys, each of an iteration the chain has passed, no
  iteration twice.
\<close>

definition state_wf :: "sender_key_state \<Rightarrow> bool" where
  "state_wf st \<longleftrightarrow> length (sk_message_keys st) \<le> MAX_MESSAGE_KEYS \<and>
     distinct (map fst (sk_message_keys st)) \<and>
     (\<forall>i \<in> set (map fst (sk_message_keys st)). i < ck_iteration (sk_chain st))"

definition record_wf :: "sender_key_record \<Rightarrow> bool" where
  "record_wf r \<longleftrightarrow> length r \<le> MAX_STATES \<and> list_all state_wf r"

lemma new_state_wf [simp]: "state_wf (new_sender_key_state k i c p q)"
  by (simp add: state_wf_def new_sender_key_state_def)

lemma add_sender_key_state_wf: "record_wf r \<Longrightarrow> record_wf (add_sender_key_state k i c s r)"
  by (cases r) (auto simp: record_wf_def add_sender_key_state_def Let_def list_all_iff)

lemma set_sender_key_state_wf: "record_wf (set_sender_key_state k i c kp)"
  by (simp add: record_wf_def set_sender_key_state_def MAX_STATES_def)

lemma find_key_id_Some: "find_key_id k r = Some j \<Longrightarrow> j < length r \<and> sk_id (r ! j) = k"
  by (induction k r arbitrary: j rule: find_key_id.induct) (auto split: if_splits)

lemma get_sender_key_state_Some: "get_sender_key_state k r = Some j \<Longrightarrow> j < length r"
  by (auto simp: get_sender_key_state_def dest: find_key_id_Some split: option.splits if_splits)

text \<open>The state added last is the one that messages are encrypted with.\<close>

lemma add_sender_key_state_newest:
  "get_sender_key_state None (add_sender_key_state k i c s r) = Some j \<Longrightarrow>
   add_sender_key_state k i c s r ! j = new_sender_key_state k i c s []"
  by (cases r) (auto simp: get_sender_key_state_def add_sender_key_state_def Let_def nth_append split: if_splits)

lemma pop_iteration_Some:
  "pop_iteration i keys = Some (x, ks) \<Longrightarrow>
   fst x = i \<and> (\<exists>as bs. keys = as @ x # bs \<and> ks = as @ bs \<and> i \<notin> fst ` set as)"
proof (induction i keys arbitrary: ks rule: pop_iteration.induct)
  case (2 i item keys)
  show ?case
  proof (cases "fst item = i")
    case True
    with 2 show ?thesis by (auto intro: exI [of _ "[]"])
  next
    case False
    with "2.prems" obtain ks' where k: "pop_iteration i keys = Some (x, ks')" "ks = item # ks'" by auto
    with "2.IH" [OF False k(1)] obtain as bs where
      "fst x = i" "keys = as @ x # bs" "ks' = as @ bs" "i \<notin> fst ` set as" by blast
    moreover from this k have "item # keys = (item # as) @ x # bs" "ks = (item # as) @ bs" by simp_all
    moreover from calculation False have "i \<notin> fst ` set (item # as)" by simp
    ultimately show ?thesis by blast
  qed
qed simp

lemma pop_iteration_None: "pop_iteration i keys = None \<longleftrightarrow> i \<notin> fst ` set keys"
  by (induction i keys rule: pop_iteration.induct) auto

lemma has_sender_message_key_iff: "has_sender_message_key st i \<longleftrightarrow> i \<in> fst ` set (sk_message_keys st)"
  by (force simp: has_sender_message_key_def list_ex_iff)

text \<open>Taking a key out keeps the state well-formed and leaves no key of that iteration.\<close>

lemma remove_sender_message_key_wf:
  assumes "state_wf st" and "remove_sender_message_key hkdf i st = (mk, st')"
  shows "state_wf st' \<and> \<not> has_sender_message_key st' i \<and> sk_chain st' = sk_chain st \<and>
    (\<forall>j. j \<noteq> i \<longrightarrow> has_sender_message_key st' j = has_sender_message_key st j)"
proof (cases "pop_iteration i (sk_message_keys st)")
  case None
  with assms show ?thesis
    by (simp add: remove_sender_message_key_def has_sender_message_key_iff pop_iteration_None)
next
  case (Some p)
  obtain x ks where p: "p = (x, ks)" by (cases p)
  from pop_iteration_Some [OF Some [unfolded p]] obtain as bs where
    k: "fst x = i" "sk_message_keys st = as @ x # bs" "ks = as @ bs" "i \<notin> fst ` set as" by blast
  have "st' = st\<lparr>sk_message_keys := ks\<rparr>"
    using assms(2) Some p by (cases x) (simp add: remove_sender_message_key_def)
  with assms(1) k show ?thesis
    by (auto simp: state_wf_def has_sender_message_key_iff)
qed

lemma add_sender_message_key_wf:
  assumes "state_wf st" and "mk_iteration mk \<notin> set (map fst (sk_message_keys st))"
    and "mk_iteration mk < ck_iteration ck" and "ck_iteration (sk_chain st) \<le> ck_iteration ck"
  shows "state_wf (add_sender_message_key mk st\<lparr>sk_chain := ck\<rparr>)"
proof (cases "length (sk_message_keys st) < MAX_MESSAGE_KEYS")
  case True
  with assms show ?thesis by (auto simp: state_wf_def add_sender_message_key_def Let_def)
next
  case False
  with assms(1) obtain k ks where "sk_message_keys st = k # ks"
    by (cases "sk_message_keys st") (auto simp: MAX_MESSAGE_KEYS_def)
  with assms show ?thesis by (auto simp: state_wf_def add_sender_message_key_def Let_def)
qed

end
