(* ===== verification/Group_Ratchet.thy ===== *)
theory Group_Ratchet
  imports Sender_Key
begin

text \<open>
  The ratchet of the group cipher: \<open>GroupCipher._get_sender_key\<close> of
  \<^verbatim>\<open>signal/group/group_cipher.py\<close>, which takes the message key of an iteration out of
  a state. The specification is the chain itself: the key of iteration \<open>i\<close> is a function of
  the chain key the state started from. The lemmas show that whatever order iterations are asked
  for in, the key returned is the one of the specification, that it is returned once only, and
  which requests succeed.
\<close>

section \<open>The code\<close>

function ratchet ::
    "(bytes \<Rightarrow> bytes \<Rightarrow> bytes) \<Rightarrow> (bytes \<Rightarrow> bytes) \<Rightarrow> int \<Rightarrow> chain_key \<Rightarrow> sender_key_state \<Rightarrow>
     chain_key \<times> sender_key_state" where
  "ratchet hmac hkdf iteration ck st =
     (if ck_iteration ck < iteration
      then ratchet hmac hkdf iteration (get_next hmac ck)
             (add_sender_message_key (get_sender_message_key hmac hkdf ck) st)
      else (ck, st))"
  by auto
termination
  by (relation "measure (\<lambda>(_, _, iteration, ck, _). nat (iteration - ck_iteration ck))")
    (auto simp: get_next_def)

declare ratchet.simps [simp del]

definition get_sender_key ::
    "(bytes \<Rightarrow> bytes \<Rightarrow> bytes) \<Rightarrow> (bytes \<Rightarrow> bytes) \<Rightarrow> sender_key_state \<Rightarrow> int \<Rightarrow>
     (message_key \<times> sender_key_state) result" where
  "get_sender_key hmac hkdf st iteration =
     (let ck = sk_chain st in
      if ck_iteration ck > iteration then
        (if has_sender_message_key st iteration then
           (case remove_sender_message_key hkdf iteration st of
              (None, _) \<Rightarrow> Inl (RuntimeError ''No sender message key found for iteration'')
            | (Some mk, st') \<Rightarrow> Inr (mk, st'))
         else Inl (RuntimeError ''Received message with old counter''))
      else if iteration - ck_iteration ck > 2000 then
        Inl (RuntimeError ''Over 2000 messages into the future'')
      else
        let (ck', st') = ratchet hmac hkdf iteration ck st
        in Inr (get_sender_message_key hmac hkdf ck', set_sender_chain_key (get_next hmac ck') st'))"

section \<open>The chain\<close>

definition chain_at :: "(bytes \<Rightarrow> bytes \<Rightarrow> bytes) \<Rightarrow> chain_key \<Rightarrow> int \<Rightarrow> chain_key" where
  "chain_at hmac base i = (get_next hmac ^^ nat (i - ck_iteration base)) base"

definition chain_message_key ::
    "(bytes \<Rightarrow> bytes \<Rightarrow> bytes) \<Rightarrow> (bytes \<Rightarrow> bytes) \<Rightarrow> chain_key \<Rightarrow> int \<Rightarrow> message_key" where
  "chain_message_key hmac hkdf base i = get_sender_message_key hmac hkdf (chain_at hmac base i)"

lemma chain_at_base [simp]: "chain_at hmac base (ck_iteration base) = base"
  by (simp add: chain_at_def)

lemma chain_at_iteration [simp]:
  assumes "ck_iteration base \<le> i"
  shows "ck_iteration (chain_at hmac base i) = i"
proof -
  have "ck_iteration ((get_next hmac ^^ n) base) = ck_iteration base + int n" for n
    by (induction n) (simp_all add: get_next_def)
  with assms show ?thesis by (simp add: chain_at_def)
qed

lemma chain_at_next:
  assumes "ck_iteration base \<le> i"
  shows "get_next hmac (chain_at hmac base i) = chain_at hmac base (i + 1)"
proof -
  have "nat (i + 1 - ck_iteration base) = Suc (nat (i - ck_iteration base))" using assms by simp
  then show ?thesis by (simp add: chain_at_def)
qed
lemma message_key_fields [simp]:
  "mk_iteration (make_message_key hkdf i seed) = i" "mk_seed (make_message_key hkdf i seed) = seed"
  by (simp_all add: make_message_key_def derive_secrets_def Let_def)

lemma chain_message_key_iteration [simp]:
  "ck_iteration base \<le> i \<Longrightarrow> mk_iteration (chain_message_key hmac hkdf base i) = i"
  by (simp add: chain_message_key_def get_sender_message_key_def)

lemma chain_message_key_again:
  "ck_iteration base \<le> i \<Longrightarrow>
   make_message_key hkdf i (mk_seed (chain_message_key hmac hkdf base i)) = chain_message_key hmac hkdf base i"
  by (simp add: chain_message_key_def get_sender_message_key_def)

definition chain_entry ::
    "(bytes \<Rightarrow> bytes \<Rightarrow> bytes) \<Rightarrow> (bytes \<Rightarrow> bytes) \<Rightarrow> chain_key \<Rightarrow> int \<Rightarrow> int \<times> bytes" where
  "chain_entry hmac hkdf base i = (i, mk_seed (chain_message_key hmac hkdf base i))"

section \<open>What the loop stores\<close>

definition last_keys :: "'a list \<Rightarrow> 'a list" where
  "last_keys xs = drop (length xs - MAX_MESSAGE_KEYS) xs"

lemma last_keys_id: "length xs \<le> MAX_MESSAGE_KEYS \<Longrightarrow> last_keys xs = xs"
  by (simp add: last_keys_def)

lemma length_last_keys: "length (last_keys xs) \<le> MAX_MESSAGE_KEYS"
  by (simp add: last_keys_def)

lemma last_keys_append: "last_keys (last_keys xs @ ys) = last_keys (xs @ ys)"
  by (simp add: last_keys_def drop_append MAX_MESSAGE_KEYS_def) (auto simp: drop_drop intro: arg_cong)

lemma add_key_last_keys:
  assumes "length (sk_message_keys st) \<le> MAX_MESSAGE_KEYS"
  shows "add_sender_message_key mk st =
    st\<lparr>sk_message_keys := last_keys (sk_message_keys st @ [(mk_iteration mk, mk_seed mk)])\<rparr>"
proof (cases "length (sk_message_keys st) = MAX_MESSAGE_KEYS")
  case True
  then show ?thesis by (simp add: add_sender_message_key_def last_keys_def Let_def drop_Suc del: drop_append)
next
  case False
  with assms show ?thesis by (simp add: add_sender_message_key_def last_keys_def Let_def)
qed
text \<open>
  The loop ends at the requested iteration and appends the keys it passes, of which the last 2000
  are kept.
\<close>

lemma ratchet_result:
  assumes "ck_iteration base \<le> i" and "i \<le> k" and "length (sk_message_keys st) \<le> MAX_MESSAGE_KEYS"
  shows "ratchet hmac hkdf k (chain_at hmac base i) st =
    (chain_at hmac base k,
     st\<lparr>sk_message_keys := last_keys (sk_message_keys st @ map (chain_entry hmac hkdf base) [i..k - 1])\<rparr>)"
  using assms
proof (induction "nat (k - i)" arbitrary: i st)
  case 0
  then have "i = k" by simp
  with 0 show ?case by (simp add: ratchet.simps [of hmac hkdf k] last_keys_id)
next
  case (Suc n)
  then have ik: "i < k" by simp
  let ?st = "add_sender_message_key (chain_message_key hmac hkdf base i) st"
  let ?e = "chain_entry hmac hkdf base"
  have st: "?st = st\<lparr>sk_message_keys := last_keys (sk_message_keys st @ [?e i])\<rparr>"
    using Suc.prems by (simp add: add_key_last_keys chain_entry_def)
  have "ratchet hmac hkdf k (chain_at hmac base i) st = ratchet hmac hkdf k (chain_at hmac base (i + 1)) ?st"
    using Suc.prems ik
    by (simp add: ratchet.simps [of hmac hkdf k "chain_at hmac base i"] chain_at_next chain_message_key_def)
  also have "\<dots> = (chain_at hmac base k,
      ?st\<lparr>sk_message_keys := last_keys (sk_message_keys ?st @ map ?e [i + 1..k - 1])\<rparr>)"
    by (rule Suc.hyps(1)) (use Suc.hyps(2) Suc.prems ik st in \<open>simp_all add: length_last_keys\<close>)
  also have "\<dots> = (chain_at hmac base k,
      st\<lparr>sk_message_keys := last_keys (sk_message_keys st @ map ?e [i..k - 1])\<rparr>)"
    using ik by (simp add: st last_keys_append upto_rec1)
  finally show ?case .
qed


section \<open>Keys are those of the chain\<close>

text \<open>
  A state is on a chain when its chain key and every stored key are those of the chain, and no key
  is stored twice.
\<close>

definition on_chain ::
    "(bytes \<Rightarrow> bytes \<Rightarrow> bytes) \<Rightarrow> (bytes \<Rightarrow> bytes) \<Rightarrow> chain_key \<Rightarrow> sender_key_state \<Rightarrow> bool" where
  "on_chain hmac hkdf base st \<longleftrightarrow>
     ck_iteration base \<le> ck_iteration (sk_chain st) \<and>
     sk_chain st = chain_at hmac base (ck_iteration (sk_chain st)) \<and>
     length (sk_message_keys st) \<le> MAX_MESSAGE_KEYS \<and>
     (\<exists>js. distinct js \<and> sk_message_keys st = map (chain_entry hmac hkdf base) js \<and>
           (\<forall>i\<in>set js. ck_iteration base \<le> i \<and> i < ck_iteration (sk_chain st)))"

text \<open>The iterations whose key a state can still produce.\<close>

definition key_available :: "sender_key_state \<Rightarrow> int \<Rightarrow> bool" where
  "key_available st i \<longleftrightarrow>
     has_sender_message_key st i \<or>
     ck_iteration (sk_chain st) \<le> i \<and> i \<le> ck_iteration (sk_chain st) + 2000"

lemma new_state_on_chain [simp]: "on_chain hmac hkdf \<lparr>ck_iteration = i, ck_seed = c\<rparr> (new_sender_key_state k i c p q)"
  using chain_at_base [of hmac "\<lparr>ck_iteration = i, ck_seed = c\<rparr>"]
  by (simp add: on_chain_def new_sender_key_state_def MAX_MESSAGE_KEYS_def)

lemma on_chain_has:
  assumes "on_chain hmac hkdf base st" and "has_sender_message_key st i"
  shows "ck_iteration base \<le> i \<and> i < ck_iteration (sk_chain st)"
  using assms by (auto simp: on_chain_def has_sender_message_key_iff chain_entry_def)

lemma fst_chain_entry [simp]: "fst (chain_entry hmac hkdf base i) = i"
  by (simp add: chain_entry_def)

lemma map_fst_chain_entry [simp]: "map fst (map (chain_entry hmac hkdf base) js) = js"
  by (induction js) simp_all

lemma image_fst_chain_entry [simp]: "fst ` chain_entry hmac hkdf base ` A = A"
  by (simp add: image_image)

lemma on_chain_wf: "on_chain hmac hkdf base st \<Longrightarrow> state_wf st"
  unfolding on_chain_def state_wf_def using map_fst_chain_entry by metis

text \<open>Taking out a stored key.\<close>

lemma get_sender_key_stored:
  assumes "on_chain hmac hkdf base st" and "has_sender_message_key st i"
  shows "\<exists>st'. get_sender_key hmac hkdf st i = Inr (chain_message_key hmac hkdf base i, st') \<and>
    on_chain hmac hkdf base st' \<and> sk_chain st' = sk_chain st \<and>
    set (map fst (sk_message_keys st')) = set (map fst (sk_message_keys st)) - {i} \<and>
    st' = st\<lparr>sk_message_keys := sk_message_keys st'\<rparr>"
proof -
  let ?e = "chain_entry hmac hkdf base"
  note i = on_chain_has [OF assms]
  obtain x ks where p: "pop_iteration i (sk_message_keys st) = Some (x, ks)"
    using assms(2) pop_iteration_None [of i "sk_message_keys st"]
    by (cases "pop_iteration i (sk_message_keys st)") (auto simp: has_sender_message_key_iff)
  from pop_iteration_Some [OF this] obtain as bs where
    x: "fst x = i" and k: "sk_message_keys st = as @ x # bs" "ks = as @ bs" by blast
  obtain js where js: "distinct js" "sk_message_keys st = map ?e js"
    "\<forall>j\<in>set js. ck_iteration base \<le> j \<and> j < ck_iteration (sk_chain st)"
    using assms(1) by (auto simp: on_chain_def)
  from js(2) k(1) have "map ?e js = as @ x # bs" by simp
  then obtain ia ib where ia: "js = ia @ i # ib" "as = map ?e ia" "bs = map ?e ib" "x = ?e i"
    using x by (auto simp: map_eq_append_conv map_eq_Cons_conv)
  let ?st = "st\<lparr>sk_message_keys := ks\<rparr>"
  have "on_chain hmac hkdf base ?st"
    using assms(1) js ia k by (auto simp: on_chain_def intro!: exI [of _ "ia @ ib"])
  moreover have "set (map fst ks) = set (map fst (sk_message_keys st)) - {i}"
    using js ia k by (auto simp: comp_def)
  moreover have "get_sender_key hmac hkdf st i = Inr (chain_message_key hmac hkdf base i, ?st)"
    using i assms(2) p ia(4) chain_message_key_again [of base i hkdf hmac]
    by (simp add: get_sender_key_def remove_sender_message_key_def chain_entry_def)
  ultimately show ?thesis by (intro exI [of _ ?st]) simp
qed

text \<open>Advancing the chain.\<close>

lemma get_sender_key_ahead:
  assumes "on_chain hmac hkdf base st"
    and "ck_iteration (sk_chain st) \<le> i" and "i \<le> ck_iteration (sk_chain st) + 2000"
  shows "get_sender_key hmac hkdf st i =
    Inr (chain_message_key hmac hkdf base i,
      st\<lparr>sk_chain := chain_at hmac base (i + 1),
         sk_message_keys := last_keys (sk_message_keys st @
           map (chain_entry hmac hkdf base) [ck_iteration (sk_chain st)..i - 1])\<rparr>)"
proof -
  let ?c = "ck_iteration (sk_chain st)"
  have b: "ck_iteration base \<le> ?c" "sk_chain st = chain_at hmac base ?c"
    "length (sk_message_keys st) \<le> MAX_MESSAGE_KEYS"
    using assms(1) by (simp_all add: on_chain_def)
  have "ratchet hmac hkdf i (sk_chain st) st = (chain_at hmac base i,
     st\<lparr>sk_message_keys := last_keys (sk_message_keys st @ map (chain_entry hmac hkdf base) [?c..i - 1])\<rparr>)"
    using ratchet_result [OF b(1) assms(2) b(3), of hmac hkdf] b(2) by simp
  then show ?thesis
    using assms b(1)
    by (simp add: get_sender_key_def Let_def set_sender_chain_key_def chain_message_key_def chain_at_next)
qed


section \<open>One request\<close>

lemma last_keys_map: "last_keys (map f xs) = map f (last_keys xs)"
  by (simp add: last_keys_def drop_map)

lemma set_last_keys: "set (last_keys xs) \<subseteq> set xs"
  by (simp add: last_keys_def set_drop_subset)

abbreviation stored_iterations :: "sender_key_state \<Rightarrow> int set" where
  "stored_iterations st \<equiv> set (map fst (sk_message_keys st))"

abbreviation same_keys :: "sender_key_state \<Rightarrow> sender_key_state \<Rightarrow> bool" where
  "same_keys st st' \<equiv> sk_id st' = sk_id st \<and> sk_public st' = sk_public st \<and> sk_private st' = sk_private st"

lemma stored_iterations_iff: "i \<in> stored_iterations st \<longleftrightarrow> has_sender_message_key st i"
  by (simp add: has_sender_message_key_iff)

lemma get_sender_key_step:
  assumes oc: "on_chain hmac hkdf base st" and "key_available st i"
  shows "\<exists>st'. get_sender_key hmac hkdf st i = Inr (chain_message_key hmac hkdf base i, st') \<and>
    on_chain hmac hkdf base st' \<and> same_keys st st' \<and>
    ck_iteration (sk_chain st') = max (ck_iteration (sk_chain st)) (i + 1) \<and>
    stored_iterations st' \<subseteq> stored_iterations st \<union> {ck_iteration (sk_chain st)..<i} - {i} \<and>
    (length (sk_message_keys st) + nat (i - ck_iteration (sk_chain st)) \<le> MAX_MESSAGE_KEYS \<longrightarrow>
     stored_iterations st' = stored_iterations st \<union> {ck_iteration (sk_chain st)..<i} - {i})"
proof (cases "has_sender_message_key st i")
  case True
  from get_sender_key_stored [OF oc True] obtain st' where st':
    "get_sender_key hmac hkdf st i = Inr (chain_message_key hmac hkdf base i, st')"
    "on_chain hmac hkdf base st'" "sk_chain st' = sk_chain st"
    "stored_iterations st' = stored_iterations st - {i}" "st' = st\<lparr>sk_message_keys := sk_message_keys st'\<rparr>"
    by blast
  have "i < ck_iteration (sk_chain st)" using on_chain_has [OF oc True] by simp
  moreover have "same_keys st st'" by (subst (1 2 3) st'(5)) simp
  ultimately show ?thesis using st' by (intro exI [of _ st']) auto
next
  case False
  let ?c = "ck_iteration (sk_chain st)" and ?e = "chain_entry hmac hkdf base"
  from False assms(2) have i: "?c \<le> i" "i \<le> ?c + 2000" by (simp_all add: key_available_def)
  obtain js where js: "distinct js" "sk_message_keys st = map ?e js"
    "\<forall>j\<in>set js. ck_iteration base \<le> j \<and> j < ?c"
    using oc by (auto simp: on_chain_def)
  have b: "ck_iteration base \<le> ?c" using oc by (simp add: on_chain_def)
  let ?js = "last_keys (js @ [?c..i - 1])"
  let ?st = "st\<lparr>sk_chain := chain_at hmac base (i + 1), sk_message_keys := map ?e ?js\<rparr>"
  have get: "get_sender_key hmac hkdf st i = Inr (chain_message_key hmac hkdf base i, ?st)"
    by (subst get_sender_key_ahead [OF oc i]) (simp add: js(2) last_keys_map [symmetric])
  have sub: "set ?js \<subseteq> set js \<union> {?c..<i}" using set_last_keys [of "js @ [?c..i - 1]"] by auto
  have "distinct (js @ [?c..i - 1])" using js(1,3) by auto
  then have "distinct ?js" by (simp only: last_keys_def distinct_drop)
  moreover have "\<forall>j\<in>set ?js. ck_iteration base \<le> j \<and> j < i + 1"
    using sub js(3) b i by fastforce
  ultimately have "on_chain hmac hkdf base ?st"
    using b i by (auto simp: on_chain_def length_last_keys)
  moreover have "stored_iterations ?st = set ?js" "stored_iterations st = set js" using js(2) by simp_all
  moreover have "i \<notin> set js" using js(3) i by auto
  moreover have "length js + nat (i - ?c) \<le> MAX_MESSAGE_KEYS \<Longrightarrow> set ?js = set js \<union> {?c..<i}"
    by (auto simp: last_keys_id)
  ultimately show ?thesis
    using get sub i b js(2) by (intro exI [of _ ?st]) auto
qed

lemma get_sender_key_unavailable:
  assumes "\<not> key_available st i"
  shows "get_sender_key hmac hkdf st i = Inl (RuntimeError
    (if i < ck_iteration (sk_chain st) then ''Received message with old counter''
     else ''Over 2000 messages into the future''))"
  using assms by (auto simp: get_sender_key_def key_available_def Let_def)

lemma on_chain_spent:
  assumes "on_chain hmac hkdf base st" and "ck_iteration (sk_chain st) > i" and "i \<notin> stored_iterations st"
  shows "get_sender_key hmac hkdf st i = Inl (RuntimeError ''Received message with old counter'')"
  using assms get_sender_key_unavailable [of st i hmac hkdf]
  by (simp add: key_available_def has_sender_message_key_iff)


definition demo_state :: sender_key_state where
  "demo_state = new_sender_key_state 7 0 [1] [] []"

lemma demo_on_chain: "on_chain hmac hkdf \<lparr>ck_iteration = 0, ck_seed = [1]\<rparr> demo_state"
  by (simp add: demo_state_def)


fun get_sender_keys ::
    "(bytes \<Rightarrow> bytes \<Rightarrow> bytes) \<Rightarrow> (bytes \<Rightarrow> bytes) \<Rightarrow> sender_key_state \<Rightarrow> int list \<Rightarrow> sender_key_state result" where
  "get_sender_keys hmac hkdf st [] = Inr st"
| "get_sender_keys hmac hkdf st (i # js) =
     bindE (get_sender_key hmac hkdf st i) (\<lambda>(_, st'). get_sender_keys hmac hkdf st' js)"

lemma get_sender_key_success:
  assumes "on_chain hmac hkdf base st" and "get_sender_key hmac hkdf st i = Inr (mk, st')"
  shows "on_chain hmac hkdf base st'" "i < ck_iteration (sk_chain st')" "i \<notin> stored_iterations st'"
    "ck_iteration (sk_chain st) \<le> ck_iteration (sk_chain st')"
    "stored_iterations st' \<subseteq> stored_iterations st \<union> {ck_iteration (sk_chain st)..<i}"
    "mk = chain_message_key hmac hkdf base i"
proof -
  have av: "key_available st i" using assms(2) get_sender_key_unavailable [of st i hmac hkdf] by force
  have "mk = chain_message_key hmac hkdf base i \<and> on_chain hmac hkdf base st' \<and>
    i < ck_iteration (sk_chain st') \<and> i \<notin> stored_iterations st' \<and>
    ck_iteration (sk_chain st) \<le> ck_iteration (sk_chain st') \<and>
    stored_iterations st' \<subseteq> stored_iterations st \<union> {ck_iteration (sk_chain st)..<i}"
    using get_sender_key_step [OF assms(1) av] assms(2) by auto
  then show "on_chain hmac hkdf base st'" "i < ck_iteration (sk_chain st')" "i \<notin> stored_iterations st'"
    "ck_iteration (sk_chain st) \<le> ck_iteration (sk_chain st')"
    "stored_iterations st' \<subseteq> stored_iterations st \<union> {ck_iteration (sk_chain st)..<i}"
    "mk = chain_message_key hmac hkdf base i" by auto
qed

lemma spent_stays_spent:
  assumes "on_chain hmac hkdf base st" and "get_sender_keys hmac hkdf st js = Inr st'"
    and "i < ck_iteration (sk_chain st)" and "i \<notin> stored_iterations st"
  shows "on_chain hmac hkdf base st' \<and> i < ck_iteration (sk_chain st') \<and> i \<notin> stored_iterations st'"
  using assms
proof (induction js arbitrary: st)
  case (Cons j js)
  then obtain mk st1 where g: "get_sender_key hmac hkdf st j = Inr (mk, st1)"
    "get_sender_keys hmac hkdf st1 js = Inr st'" by (auto simp: bindE_eq_Inr_iff)
  note s = get_sender_key_success [OF Cons.prems(1) g(1)]
  show ?case
    by (rule Cons.IH [OF s(1) g(2)]) (use s(3-5) Cons.prems(3,4) in auto)
qed simp

text \<open>
  A message key is handed out once: after a request for an iteration has succeeded, every
  later request for it, whatever is asked for in between, is refused as an old counter, so a
  message cannot be replayed.
\<close>

theorem message_key_used_once:
  assumes "on_chain hmac hkdf base st" and "get_sender_key hmac hkdf st i = Inr (mk, st1)"
    and "get_sender_keys hmac hkdf st1 js = Inr st2"
  shows "get_sender_key hmac hkdf st2 i = Inl (RuntimeError ''Received message with old counter'')"
proof -
  note s = get_sender_key_success [OF assms(1,2)]
  from spent_stays_spent [OF s(1) assms(3) s(2,3)] show ?thesis using on_chain_spent by blast
qed


theorem message_key_used_once_witness:
  "\<exists>mk st1 st2. get_sender_key (\<lambda>k d. k @ d) (\<lambda>s. s) demo_state 2 = Inr (mk, st1) \<and>
     get_sender_keys (\<lambda>k d. k @ d) (\<lambda>s. s) st1 [0, 5, 1] = Inr st2 \<and>
     get_sender_key (\<lambda>k d. k @ d) (\<lambda>s. s) st2 2 = Inl (RuntimeError ''Received message with old counter'')"
proof -
  let ?h = "\<lambda>k d. k @ d :: bytes" and ?f = "\<lambda>s. s :: bytes"
  obtain mk st1 st2 where g: "get_sender_key ?h ?f demo_state 2 = Inr (mk, st1)"
    "get_sender_keys ?h ?f st1 [0, 5, 1] = Inr st2"
    by (simp add: demo_state_def new_sender_key_state_def get_sender_key_def ratchet.simps get_next_def
        add_sender_message_key_def has_sender_message_key_def remove_sender_message_key_def
        set_sender_chain_key_def get_sender_message_key_def Let_def MAX_MESSAGE_KEYS_def)
  from message_key_used_once [OF demo_on_chain g] g show ?thesis by blast
qed

end
