(* ===== verification/Group_Message.thy ===== *)
theory Group_Message
  imports Crypto
begin

text \<open>
  The two wire messages of group encryption: \<^verbatim>\<open>signal/group/sender_key_message.py\<close>
  and \<^verbatim>\<open>sender_key_distribution_message.py\<close>, with
  \<^verbatim>\<open>ciphertext_message.py\<close>. \<open>struct.pack("<I", n)\<close> raises outside 32 unsigned
  bits, \<open>unpack_from\<close> on a buffer that is too short.
\<close>

section \<open>struct\<close>

definition pack_u32 :: "int \<Rightarrow> bytes result" where
  "pack_u32 n = (if 0 \<le> n \<and> n < 4294967296 then Inr (le_bytes 4 n) else Inl StructError)"

definition unpack_u32 :: "bytes \<Rightarrow> nat \<Rightarrow> int result" where
  "unpack_u32 buf offset =
     (if offset + 4 \<le> length buf then Inr (le_val (take 4 (drop offset buf))) else Inl StructError)"

lemma pack_u32_ok: "0 \<le> n \<Longrightarrow> n < 4294967296 \<Longrightarrow> pack_u32 n = Inr (le_bytes 4 n)"
  by (simp add: pack_u32_def)

lemma pack_u32_Inr: "pack_u32 n = Inr b \<longleftrightarrow> 0 \<le> n \<and> n < 4294967296 \<and> b = le_bytes 4 n"
  by (auto simp: pack_u32_def)

lemma unpack_pack_u32:
  assumes "pack_u32 n = Inr b" and "length pre = offset"
  shows "unpack_u32 (pre @ b @ post) offset = Inr n"
proof -
  have b: "b = le_bytes 4 n" "0 \<le> n" "n < 4294967296" using assms(1) by (simp_all add: pack_u32_Inr)
  then have "take 4 (drop offset (pre @ b @ post)) = b" using assms(2) by simp
  with b assms(2) show ?thesis by (simp add: unpack_u32_def le_val_le_bytes)
qed

lemma length_pack_u32: "pack_u32 n = Inr b \<Longrightarrow> length b = 4"
  by (auto simp: pack_u32_Inr)

lemma unpack_u32_range: "unpack_u32 buf k = Inr n \<Longrightarrow> 0 \<le> n"
  using le_val_range by (auto simp: unpack_u32_def split: if_splits)

section \<open>SenderKeyMessage\<close>

definition CURRENT_VERSION :: int where
  "CURRENT_VERSION = 3"

definition SIGNATURE_LENGTH :: nat where
  "SIGNATURE_LENGTH = 64"

unbundle bit_operations_syntax

definition ints_to_byte_high_and_low :: "int \<Rightarrow> int \<Rightarrow> int" where
  "ints_to_byte_high_and_low high low = ((push_bit 4 high OR low) AND 255) mod 256"

record sender_key_message =
  skm_serialized :: bytes
  skm_version :: int
  skm_key_id :: int
  skm_iteration :: int
  skm_ciphertext :: bytes
  skm_signature :: bytes

definition get_signature :: "(bytes \<Rightarrow> bytes \<Rightarrow> bytes result) \<Rightarrow> bytes \<Rightarrow> bytes \<Rightarrow> bytes result" where
  "get_signature sign signature_key serialized = curve_sign sign (take 32 signature_key) serialized"

definition new_sender_key_message ::
    "(bytes \<Rightarrow> bytes \<Rightarrow> bytes result) \<Rightarrow> int \<Rightarrow> int \<Rightarrow> bytes \<Rightarrow> bytes \<Rightarrow> sender_key_message result" where
  "new_sender_key_message sign key_id iteration ciphertext signature_key =
     bindE (pack_u32 key_id) (\<lambda>k.
     bindE (pack_u32 iteration) (\<lambda>i.
     bindE (pack_u32 (int (length ciphertext))) (\<lambda>l.
       let body = [to_byte (ints_to_byte_high_and_low CURRENT_VERSION CURRENT_VERSION)] @ k @ i @ l @ ciphertext
       in bindE (get_signature sign signature_key body) (\<lambda>signature.
         Inr \<lparr>skm_serialized = body @ signature, skm_version = CURRENT_VERSION, skm_key_id = key_id,
              skm_iteration = iteration, skm_ciphertext = ciphertext, skm_signature = signature\<rparr>))))"

definition message_from_serialized :: "bytes \<Rightarrow> sender_key_message result" where
  "message_from_serialized serialized =
     (if length serialized < 1 + 4 + 4 + 4 + SIGNATURE_LENGTH
      then Inl (ValueError ''invalid SenderKeyMessage payload'')
      else
        let n = length serialized - SIGNATURE_LENGTH;
            body = take n serialized
        in bindE (unpack_u32 body 1) (\<lambda>key_id.
           bindE (unpack_u32 body 5) (\<lambda>iteration.
           bindE (unpack_u32 body 9) (\<lambda>cipher_len.
             Inr \<lparr>skm_serialized = serialized, skm_version = byte_val (hd serialized) div 16,
                  skm_key_id = key_id, skm_iteration = iteration,
                  skm_ciphertext = take (nat cipher_len) (drop 13 body),
                  skm_signature = drop n serialized\<rparr>))))"

definition verify_signature ::
    "(bytes \<Rightarrow> bytes \<Rightarrow> bytes \<Rightarrow> unit result) \<Rightarrow> bytes \<Rightarrow> sender_key_message \<Rightarrow> unit result" where
  "verify_signature verify signature_key m =
     (let key = (if length signature_key = 33 \<and> hd signature_key = 5 then tl signature_key else signature_key);
          n = length (skm_serialized m) - SIGNATURE_LENGTH
      in if curve_verify verify key (take n (skm_serialized m)) (drop n (skm_serialized m)) then Inr ()
         else Inl (ValueError ''Invalid signature''))"

section \<open>SenderKeyDistributionMessage\<close>

record distribution_message =
  dm_serialized :: bytes
  dm_id :: int
  dm_iteration :: int
  dm_chain_key :: bytes
  dm_signature_key :: bytes

definition new_distribution_message :: "int \<Rightarrow> int \<Rightarrow> bytes \<Rightarrow> bytes \<Rightarrow> distribution_message result" where
  "new_distribution_message key_id iteration chain_key signature_key =
     bindE (pack_u32 key_id) (\<lambda>k.
     bindE (pack_u32 iteration) (\<lambda>i.
     bindE (pack_u32 (int (length chain_key))) (\<lambda>cl.
     bindE (pack_u32 (int (length signature_key))) (\<lambda>sl.
       Inr \<lparr>dm_serialized = [to_byte (ints_to_byte_high_and_low CURRENT_VERSION CURRENT_VERSION)]
              @ k @ i @ cl @ chain_key @ sl @ signature_key,
            dm_id = key_id, dm_iteration = iteration, dm_chain_key = chain_key,
            dm_signature_key = signature_key\<rparr>))))"

definition distribution_from_serialized :: "bytes \<Rightarrow> distribution_message result" where
  "distribution_from_serialized serialized =
     bindE (unpack_u32 serialized 1) (\<lambda>key_id.
     bindE (unpack_u32 serialized 5) (\<lambda>iteration.
     bindE (unpack_u32 serialized 9) (\<lambda>chain_len.
       let chain_key = take (nat chain_len) (drop 13 serialized);
           offset = 13 + nat chain_len
       in bindE (unpack_u32 serialized offset) (\<lambda>sig_len.
         Inr \<lparr>dm_serialized = serialized, dm_id = key_id, dm_iteration = iteration,
              dm_chain_key = chain_key,
              dm_signature_key = take (nat sig_len) (drop (offset + 4) serialized)\<rparr>))))"

section \<open>Round trips\<close>

lemma sender_key_message_parses:
  assumes "new_sender_key_message sign key_id iteration ciphertext signature_key = Inr m"
    and "length (skm_signature m) = SIGNATURE_LENGTH"
  shows "message_from_serialized (skm_serialized m) = Inr m"
proof -
  let ?v = "to_byte (ints_to_byte_high_and_low CURRENT_VERSION CURRENT_VERSION)"
  obtain k i l s where
    p: "pack_u32 key_id = Inr k" "pack_u32 iteration = Inr i" "pack_u32 (int (length ciphertext)) = Inr l"
    and s: "get_signature sign signature_key ([?v] @ k @ i @ l @ ciphertext) = Inr s"
    and m: "m = \<lparr>skm_serialized = ([?v] @ k @ i @ l @ ciphertext) @ s, skm_version = CURRENT_VERSION,
        skm_key_id = key_id, skm_iteration = iteration, skm_ciphertext = ciphertext, skm_signature = s\<rparr>"
    using assms(1) by (auto simp: new_sender_key_message_def bindE_eq_Inr_iff Let_def)
  define body where "body = [?v] @ k @ i @ l @ ciphertext"
  note len = p [THEN length_pack_u32]
  have "unpack_u32 ([?v] @ k @ (i @ l @ ciphertext)) 1 = Inr key_id"
    by (rule unpack_pack_u32 [OF p(1)]) simp
  moreover have "unpack_u32 (([?v] @ k) @ i @ (l @ ciphertext)) 5 = Inr iteration"
    by (rule unpack_pack_u32 [OF p(2)]) (simp add: len)
  moreover have "unpack_u32 (([?v] @ k @ i) @ l @ ciphertext) 9 = Inr (int (length ciphertext))"
    by (rule unpack_pack_u32 [OF p(3)]) (simp add: len)
  ultimately have u: "unpack_u32 body (Suc 0) = Inr key_id" "unpack_u32 body 5 = Inr iteration"
    "unpack_u32 body 9 = Inr (int (length ciphertext))"
    by (simp_all add: body_def)
  have b: "drop 13 body = ciphertext" "length body = 13 + length ciphertext" "hd body = ?v" "body \<noteq> []"
    by (simp_all add: body_def len)
  have sl: "length s = 64" using assms(2) m by (simp add: SIGNATURE_LENGTH_def)
  have v: "byte_val ?v div 16 = CURRENT_VERSION" by code_simp
  have ser: "skm_serialized m = body @ s" by (simp add: m body_def)
  have "message_from_serialized (body @ s) = Inr \<lparr>skm_serialized = body @ s, skm_version = CURRENT_VERSION,
      skm_key_id = key_id, skm_iteration = iteration, skm_ciphertext = ciphertext, skm_signature = s\<rparr>"
    using b(2-4) sl v by (simp add: message_from_serialized_def SIGNATURE_LENGTH_def u b(1) Let_def
        del: byte_val_to_byte)
  then show ?thesis by (simp add: ser) (simp add: m body_def)
qed
text \<open>
  Parsing the bytes of a message gives the message back, with its signature, whenever it could
  be built and the signature has 64 bytes.
\<close>

theorem sender_key_message_roundtrip:
  assumes "new_sender_key_message sign key_id iteration ciphertext signature_key = Inr m"
    and "length (skm_signature m) = SIGNATURE_LENGTH"
  shows "message_from_serialized (skm_serialized m) = Inr m \<and> skm_key_id m = key_id \<and>
    skm_iteration m = iteration \<and> skm_ciphertext m = ciphertext"
  using sender_key_message_parses [OF assms] assms(1)
  by (auto simp: new_sender_key_message_def bindE_eq_Inr_iff Let_def)

theorem sender_key_message_roundtrip_witness:
  "\<exists>m. new_sender_key_message (\<lambda>_ _. Inr (replicate 64 7)) 258 4294967295 [1, 2] [] = Inr m \<and>
       message_from_serialized (skm_serialized m) = Inr m"
proof -
  let ?sign = "\<lambda>_ _. Inr (replicate 64 7) :: bytes result"
  obtain m where m: "new_sender_key_message ?sign 258 4294967295 [1, 2] [] = Inr m"
    and "skm_signature m = replicate 64 7"
    by (simp add: new_sender_key_message_def pack_u32_def get_signature_def curve_sign_def Let_def)
  then have "length (skm_signature m) = SIGNATURE_LENGTH" by (simp add: SIGNATURE_LENGTH_def)
  from sender_key_message_roundtrip [OF m this] m show ?thesis by blast
qed

lemma distribution_message_parses:
  assumes "new_distribution_message key_id iteration chain_key signature_key = Inr m"
  shows "distribution_from_serialized (dm_serialized m) = Inr m"
proof -
  let ?v = "to_byte (ints_to_byte_high_and_low CURRENT_VERSION CURRENT_VERSION)"
  obtain k i cl sl where
    p: "pack_u32 key_id = Inr k" "pack_u32 iteration = Inr i" "pack_u32 (int (length chain_key)) = Inr cl"
      "pack_u32 (int (length signature_key)) = Inr sl"
    and m: "m = \<lparr>dm_serialized = [?v] @ k @ i @ cl @ chain_key @ sl @ signature_key, dm_id = key_id,
        dm_iteration = iteration, dm_chain_key = chain_key, dm_signature_key = signature_key\<rparr>"
    using assms by (auto simp: new_distribution_message_def bindE_eq_Inr_iff)
  note len = p [THEN length_pack_u32]
  define ser where "ser = [?v] @ k @ i @ cl @ chain_key @ sl @ signature_key"
  have "unpack_u32 ([?v] @ k @ (i @ cl @ chain_key @ sl @ signature_key)) 1 = Inr key_id"
    by (rule unpack_pack_u32 [OF p(1)]) simp
  moreover have "unpack_u32 (([?v] @ k) @ i @ (cl @ chain_key @ sl @ signature_key)) 5 = Inr iteration"
    by (rule unpack_pack_u32 [OF p(2)]) (simp add: len)
  moreover have "unpack_u32 (([?v] @ k @ i) @ cl @ (chain_key @ sl @ signature_key)) 9 = Inr (int (length chain_key))"
    by (rule unpack_pack_u32 [OF p(3)]) (simp add: len)
  moreover have "unpack_u32 (([?v] @ k @ i @ cl @ chain_key) @ sl @ signature_key) (13 + length chain_key)
      = Inr (int (length signature_key))"
    by (rule unpack_pack_u32 [OF p(4)]) (simp add: len)
  ultimately have u: "unpack_u32 ser (Suc 0) = Inr key_id" "unpack_u32 ser 5 = Inr iteration"
    "unpack_u32 ser 9 = Inr (int (length chain_key))"
    "unpack_u32 ser (13 + length chain_key) = Inr (int (length signature_key))"
    by (simp_all add: ser_def)
  have "drop 13 ser = chain_key @ sl @ signature_key" by (simp add: ser_def len)
  moreover have "drop (13 + length chain_key + 4) (([?v] @ k @ i @ cl @ chain_key @ sl) @ signature_key) = signature_key"
    by (subst drop_append) (simp add: len)
  then have "drop (13 + length chain_key + 4) ser = signature_key" by (simp only: ser_def append_assoc)
  ultimately have "distribution_from_serialized ser = Inr \<lparr>dm_serialized = ser, dm_id = key_id,
      dm_iteration = iteration, dm_chain_key = chain_key, dm_signature_key = signature_key\<rparr>"
    by (simp add: distribution_from_serialized_def u)
  then show ?thesis by (simp add: m ser_def)
qed

text \<open>
  Parsing the bytes of a distribution message gives the message back.
\<close>

theorem distribution_message_roundtrip:
  assumes "new_distribution_message key_id iteration chain_key signature_key = Inr m"
  shows "distribution_from_serialized (dm_serialized m) = Inr m \<and> dm_id m = key_id \<and>
    dm_iteration m = iteration \<and> dm_chain_key m = chain_key \<and> dm_signature_key m = signature_key"
  using distribution_message_parses [OF assms] assms
  by (auto simp: new_distribution_message_def bindE_eq_Inr_iff)

theorem distribution_message_roundtrip_witness:
  "\<exists>m. new_distribution_message 5 77 [1, 2, 3] [9] = Inr m \<and>
       distribution_from_serialized (dm_serialized m) = Inr m"
proof -
  obtain m where m: "new_distribution_message 5 77 [1, 2, 3] [9] = Inr m"
    by (simp add: new_distribution_message_def pack_u32_def)
  from distribution_message_roundtrip [OF m] m show ?thesis by blast
qed

end
