(* ===== verification/Signal_Address.thy ===== *)
theory Signal_Address
  imports Jid
begin

text \<open>
  The names sessions and sender keys are stored under: \<open>jid_to_signal_protocol_address\<close> and
  \<open>jid_to_signal_sender_key_name\<close> of \<^verbatim>\<open>signal/libsignal.py\<close>, and
  \<^verbatim>\<open>signal/group/sender_key_name.py\<close>. Two different devices must never share a
  name, since the key store is indexed by it.
\<close>

unbundle bit_operations_syntax

section \<open>Decimal numbers in names\<close>

lemma int_str_chars: "c \<in> set (int_str i) \<Longrightarrow> is_digit c \<or> c = CHR ''-''"
  by (auto simp: int_str_def dest: nat_str_digits split: if_splits)

lemma nat_str_inj: "nat_str m = nat_str n \<longleftrightarrow> m = n"
  by (metis py_int_nat_str Inr_inject of_nat_eq_iff)

lemma nat_str_no_minus: "nat_str m \<noteq> CHR ''-'' # s"
proof
  assume "nat_str m = CHR ''-'' # s"
  then have "is_digit CHR ''-''" using nat_str_digits [of "CHR ''-''" m] by simp
  then show False by (simp add: is_digit_def)
qed

lemma int_str_inj: "int_str i = int_str j \<longleftrightarrow> i = j"
  using nat_str_no_minus nat_str_no_minus [symmetric]
  by (auto simp: int_str_def nat_str_inj split: if_splits)

lemma int_str_seps [simp]:
  "CHR ''@'' \<notin> set (int_str i)" "CHR '':'' \<notin> set (int_str i)" "CHR ''_'' \<notin> set (int_str i)"
  "CHR ''.'' \<notin> set (int_str i)"
  by (auto dest!: int_str_chars simp: is_digit_def)

section \<open>Protocol addresses\<close>

record protocol_address =
  pa_name :: string
  pa_device_id :: int

definition address_str :: "protocol_address \<Rightarrow> string" where
  "address_str a = pa_name a @ CHR ''.'' # int_str (pa_device_id a)"

definition jid_to_signal_protocol_address :: "string \<Rightarrow> protocol_address result" where
  "jid_to_signal_protocol_address jid =
     bindE (jid_decode (Some jid)) (\<lambda>decoded. case decoded of
        None \<Rightarrow> Inl (ValueError ''invalid jid, missing user'')
      | Some d \<Rightarrow>
          if jid_user d = '''' then Inl (ValueError ''invalid jid, missing user'')
          else
            let device = (case jid_device d of None \<Rightarrow> 0 | Some n \<Rightarrow> n);
                domain_type = domain_int (jid_domain d);
                signal_user = (if jid_domain d \<noteq> WHATSAPP then jid_user d @ CHR ''_'' # int_str domain_type
                               else jid_user d)
            in if device = 99 \<and> jid_server d \<notin> {''hosted'', ''hosted.lid''}
               then Inl (ValueError ''unexpected non-hosted jid with device 99'')
               else Inr \<lparr>pa_name = signal_user, pa_device_id = device\<rparr>)"

text \<open>What an address stands for: the user, the device (absent is 0) and the domain.\<close>

definition jid_identity :: "full_jid \<Rightarrow> string \<times> int \<times> wa_domain" where
  "jid_identity d = (jid_user d, (case jid_device d of None \<Rightarrow> 0 | Some n \<Rightarrow> n), jid_domain d)"

definition signal_user :: "string \<Rightarrow> wa_domain \<Rightarrow> string" where
  "signal_user u p = (if p = WHATSAPP then u else u @ CHR ''_'' # int_str (domain_int p))"

lemma protocol_address_Inr:
  assumes "jid_to_signal_protocol_address jid = Inr a"
  obtains d where "jid_decode (Some jid) = Inr (Some d)" "clean_user (jid_user d)" "jid_user d \<noteq> ''''"
    "pa_name a = signal_user (jid_user d) (jid_domain d)" "jid_identity d = (jid_user d, pa_device_id a, jid_domain d)"
proof -
  obtain d where d: "jid_decode (Some jid) = Inr (Some d)"
    using assms by (auto simp: jid_to_signal_protocol_address_def bindE_eq_Inr_iff split: option.splits)
  moreover have "clean_user (jid_user d)" using jid_decode_SomeD [OF d] by blast
  ultimately show ?thesis
    using assms
    by (intro that [of d])
      (auto simp: jid_to_signal_protocol_address_def signal_user_def jid_identity_def Let_def split: if_splits)
qed

lemma domain_int_inj: "domain_int a = domain_int b \<longleftrightarrow> a = b"
  by (cases a; cases b) simp_all

lemma signal_user_inj:
  assumes "signal_user u p = signal_user v q" and "clean_user u" and "clean_user v"
  shows "u = v \<and> p = q"
proof -
  have c: "CHR ''_'' \<notin> set u" "CHR ''_'' \<notin> set v" using assms by (simp_all add: clean_user_def)
  show ?thesis
  proof (cases "p = WHATSAPP \<or> q = WHATSAPP")
    case True
    with assms(1) c show ?thesis by (auto simp: signal_user_def split: if_splits)
  next
    case False
    with assms(1) have "u @ CHR ''_'' # int_str (domain_int p) = v @ CHR ''_'' # int_str (domain_int q)"
      by (simp add: signal_user_def)
    from split_first_unique [OF this c] show ?thesis by (simp add: int_str_inj domain_int_inj)
  qed
qed

lemma address_str_inj: "address_str a = address_str b \<Longrightarrow> a = b"
  using split_last_unique [of "pa_name a" "CHR ''.''" "int_str (pa_device_id a)" "pa_name b"]
  by (simp add: address_str_def int_str_inj)

text \<open>
  Two JIDs that have a protocol address have the same one exactly when they name the same user,
  device and domain: no two devices share a session.
\<close>

theorem protocol_address_injective:
  assumes "jid_to_signal_protocol_address j1 = Inr a1" and "jid_to_signal_protocol_address j2 = Inr a2"
    and "jid_decode (Some j1) = Inr (Some d1)" and "jid_decode (Some j2) = Inr (Some d2)"
  shows "address_str a1 = address_str a2 \<longleftrightarrow> jid_identity d1 = jid_identity d2"
proof -
  from protocol_address_Inr [OF assms(1)] assms(3)
  have 1: "pa_name a1 = signal_user (jid_user d1) (jid_domain d1)" "clean_user (jid_user d1)"
    "jid_identity d1 = (jid_user d1, pa_device_id a1, jid_domain d1)" by (metis Inr_inject option.inject)+
  from protocol_address_Inr [OF assms(2)] assms(4)
  have 2: "pa_name a2 = signal_user (jid_user d2) (jid_domain d2)" "clean_user (jid_user d2)"
    "jid_identity d2 = (jid_user d2, pa_device_id a2, jid_domain d2)" by (metis Inr_inject option.inject)+
  have "address_str a1 = address_str a2 \<longleftrightarrow> pa_name a1 = pa_name a2 \<and> pa_device_id a1 = pa_device_id a2"
    using address_str_inj [of a1 a2] by (auto simp: address_str_def)
  also have "\<dots> \<longleftrightarrow> jid_identity d1 = jid_identity d2"
    using signal_user_inj [of "jid_user d1" "jid_domain d1" "jid_user d2" "jid_domain d2"] 1 2 by auto
  finally show ?thesis .
qed

theorem protocol_address_injective_witness:
  "address_str \<lparr>pa_name = ''55'', pa_device_id = 0\<rparr> \<noteq> address_str \<lparr>pa_name = ''55_1'', pa_device_id = 0\<rparr>"
proof -
  have "jid_to_signal_protocol_address ''55@s.whatsapp.net'' = Inr \<lparr>pa_name = ''55'', pa_device_id = 0\<rparr>"
    "jid_to_signal_protocol_address ''55@lid'' = Inr \<lparr>pa_name = ''55_1'', pa_device_id = 0\<rparr>"
    "jid_decode (Some ''55@s.whatsapp.net'') =
       Inr (Some \<lparr>jid_user = ''55'', jid_server = ''s.whatsapp.net'', jid_device = None, jid_domain = WHATSAPP\<rparr>)"
    "jid_decode (Some ''55@lid'') =
       Inr (Some \<lparr>jid_user = ''55'', jid_server = ''lid'', jid_device = None, jid_domain = LID\<rparr>)"
    by code_simp+
  from protocol_address_injective [OF this] show ?thesis by (simp add: jid_identity_def)
qed

section \<open>Sender key names\<close>

record sender =
  sender_id :: string
  sender_device_id :: int

record sender_key_name =
  skn_group_id :: string
  skn_sender :: sender

definition sender_str :: "sender \<Rightarrow> string" where
  "sender_str s = sender_id s @ CHR '':'' # int_str (sender_device_id s)"

definition sender_key_name_serialize :: "sender_key_name \<Rightarrow> string" where
  "sender_key_name_serialize n =
     skn_group_id n @ ''::'' @ sender_id (skn_sender n) @ ''::'' @ int_str (sender_device_id (skn_sender n))"

definition sender_key_name_equals :: "sender_key_name \<Rightarrow> sender_key_name option \<Rightarrow> bool" where
  "sender_key_name_equals n m = (case m of None \<Rightarrow> False
     | Some m \<Rightarrow> skn_group_id n = skn_group_id m \<and> sender_str (skn_sender n) = sender_str (skn_sender m))"

definition int_value :: "int \<Rightarrow> int" where
  "int_value num = (if num > 0x7FFFFFFF \<or> num < - 0x80000000 then num AND 0xFFFFFFFF else num)"

text \<open>\<open>_hash_code\<close> over the code points of the text.\<close>

definition hash_code_points :: "nat list \<Rightarrow> int" where
  "hash_code_points text = foldl (\<lambda>value ord. int_value (value * 31 + int ord)) 0 text"

definition jid_to_signal_sender_key_name :: "string \<Rightarrow> string \<Rightarrow> sender_key_name result" where
  "jid_to_signal_sender_key_name group_id user =
     bindE (jid_to_signal_protocol_address user) (\<lambda>addr.
       Inr \<lparr>skn_group_id = group_id,
            skn_sender = \<lparr>sender_id = pa_name addr, sender_device_id = pa_device_id addr\<rparr>\<rparr>)"

lemma signal_user_no_colon: "clean_user u \<Longrightarrow> CHR '':'' \<notin> set (signal_user u d)"
  by (simp add: signal_user_def clean_user_def)

lemma sender_key_name_Inr:
  assumes "jid_to_signal_sender_key_name g u = Inr n"
  shows "skn_group_id n = g \<and> CHR '':'' \<notin> set (sender_id (skn_sender n))"
proof -
  obtain a where a: "jid_to_signal_protocol_address u = Inr a" "skn_group_id n = g"
    "sender_id (skn_sender n) = pa_name a"
    using assms by (auto simp: jid_to_signal_sender_key_name_def bindE_eq_Inr_iff)
  from a(1) show ?thesis
    by (rule protocol_address_Inr) (simp add: a signal_user_no_colon)
qed

text \<open>
  The name a sender key is stored under determines the group and the sender's address, for
  every group id whatsoever: keys of different groups or senders are never mixed up.
\<close>

theorem sender_key_name_injective:
  assumes "jid_to_signal_sender_key_name g1 u1 = Inr n1" and "jid_to_signal_sender_key_name g2 u2 = Inr n2"
    and "sender_key_name_serialize n1 = sender_key_name_serialize n2"
  shows "g1 = g2 \<and> n1 = n2"
proof -
  let ?i = "\<lambda>n. sender_id (skn_sender n)" and ?d = "\<lambda>n. int_str (sender_device_id (skn_sender n))"
  have c: "skn_group_id n1 = g1" "CHR '':'' \<notin> set (?i n1)" "skn_group_id n2 = g2" "CHR '':'' \<notin> set (?i n2)"
    using sender_key_name_Inr [OF assms(1)] sender_key_name_Inr [OF assms(2)] by simp_all
  have "((g1 @ '':'') @ CHR '':'' # ?i n1 @ '':'') @ CHR '':'' # ?d n1
      = ((g2 @ '':'') @ CHR '':'' # ?i n2 @ '':'') @ CHR '':'' # ?d n2"
    using assms(3) c by (simp add: sender_key_name_serialize_def)
  from split_last_unique [OF this]
  have d: "?d n1 = ?d n2" and "(g1 @ '':'') @ CHR '':'' # ?i n1 = (g2 @ '':'') @ CHR '':'' # ?i n2" by simp_all
  from split_last_unique [OF this(2) c(2,4)] have "?i n1 = ?i n2" "g1 = g2" by simp_all
  with c d show ?thesis by (simp add: int_str_inj)
qed

theorem sender_key_name_injective_witness:
  "\<exists>n1 n2. jid_to_signal_sender_key_name ''g::x'' ''5@lid'' = Inr n1 \<and>
           jid_to_signal_sender_key_name ''g'' ''5:1@lid'' = Inr n2 \<and>
           sender_key_name_serialize n1 \<noteq> sender_key_name_serialize n2"
proof -
  have n: "jid_to_signal_sender_key_name ''g::x'' ''5@lid'' =
      Inr \<lparr>skn_group_id = ''g::x'', skn_sender = \<lparr>sender_id = ''5_1'', sender_device_id = 0\<rparr>\<rparr>"
    "jid_to_signal_sender_key_name ''g'' ''5:1@lid'' =
      Inr \<lparr>skn_group_id = ''g'', skn_sender = \<lparr>sender_id = ''5_1'', sender_device_id = 1\<rparr>\<rparr>"
    by code_simp+
  let ?n1 = "\<lparr>skn_group_id = ''g::x'', skn_sender = \<lparr>sender_id = ''5_1'', sender_device_id = 0\<rparr>\<rparr>"
  let ?n2 = "\<lparr>skn_group_id = ''g'', skn_sender = \<lparr>sender_id = ''5_1'', sender_device_id = 1\<rparr>\<rparr>"
  have "sender_key_name_serialize ?n1 \<noteq> sender_key_name_serialize ?n2"
    using sender_key_name_injective [OF n] by auto
  with n show ?thesis by blast
qed

lemma sender_key_name_equals_iff:
  "sender_key_name_equals n (Some m) \<longleftrightarrow>
   skn_group_id n = skn_group_id m \<and> skn_sender n = skn_sender m"
proof -
  have "sender_str a = sender_str b \<Longrightarrow> a = b" for a b
    using split_last_unique [of "sender_id a" "CHR '':''" "int_str (sender_device_id a)" "sender_id b"
        "int_str (sender_device_id b)"]
    by (simp add: sender_str_def int_str_inj)
  then show ?thesis by (auto simp: sender_key_name_equals_def)
qed

text \<open>The hash is the polynomial in 31 modulo 2 to the 32, unsigned.\<close>

lemma int_value_mod: "0 \<le> num \<Longrightarrow> num mod 4294967296 = int_value num mod 4294967296 \<and> 0 \<le> int_value num \<and> int_value num < 4294967296"
  using take_bit_eq_mask [of 32 num] by (auto simp: int_value_def mask_eq_exp_minus_1 take_bit_eq_mod)

lemma hash_code_word:
  "hash_code_points cs = uint (foldl (\<lambda>v c. v * 31 + of_nat c) (0 :: 32 word) cs)"
proof (induction cs rule: rev_induct)
  case Nil
  show ?case by (simp add: hash_code_points_def)
next
  case (snoc c cs)
  let ?w = "foldl (\<lambda>v c. v * 31 + of_nat c) (0 :: 32 word) cs"
  have "hash_code_points (cs @ [c]) = int_value (uint ?w * 31 + int c)"
    using snoc by (simp add: hash_code_points_def)
  moreover have "0 \<le> uint ?w * 31 + int c" by simp
  from int_value_mod [OF this]
  have "int_value (uint ?w * 31 + int c) = (uint ?w * 31 + int c) mod 4294967296" by simp
  moreover have "uint (?w * 31 + of_nat c) = (uint ?w * 31 + int c) mod 4294967296"
    by (simp add: uint_word_ariths unsigned_of_nat take_bit_eq_mod mod_simps zmod_int of_nat_mod)
  ultimately show ?case by simp
qed

end
