(* ===== verification/Group_Cipher.thy ===== *)
theory Group_Cipher
  imports Group_Ratchet Group_Message Signal_Address
begin

text \<open>
  The group cipher and the session builder: \<^verbatim>\<open>signal/group/group_cipher.py\<close>,
  \<^verbatim>\<open>group_session_builder.py\<close> and the sender key part of
  \<^verbatim>\<open>signal/libsignal.py\<close>. Both classes work on a \<open>SenderKeyStoreProtocol\<close>, of
  which they call \<open>load_sender_key\<close> and \<open>store_sender_key\<close>; the definitions take the two
  operations as arguments, the locale \<open>sender_key_store\<close> states what they promise and it is
  interpreted on the storage of \<open>libsignal.py\<close>. An operation returns its result and the store it
  leaves; a record is written back only when the operation succeeds.
\<close>

section \<open>Primitives\<close>

record group_crypto =
  g_hmac :: "bytes \<Rightarrow> bytes \<Rightarrow> bytes"
  g_hkdf :: "bytes \<Rightarrow> bytes"
  g_sign :: "bytes \<Rightarrow> bytes \<Rightarrow> bytes result"
  g_verify :: "bytes \<Rightarrow> bytes \<Rightarrow> bytes \<Rightarrow> unit result"
  g_encrypt :: "bytes \<Rightarrow> bytes \<Rightarrow> bytes \<Rightarrow> bytes result"
  g_decrypt :: "bytes \<Rightarrow> bytes \<Rightarrow> bytes \<Rightarrow> bytes result"

type_synonym 's loader = "'s \<Rightarrow> string \<Rightarrow> sender_key_record"
type_synonym 's storer = "'s \<Rightarrow> string \<Rightarrow> sender_key_record \<Rightarrow> 's"

section \<open>GroupCipher\<close>

text \<open>The part of \<open>encrypt\<close> between loading and storing: the message and the changed record.\<close>

definition encrypt_with_record :: "group_crypto \<Rightarrow> sender_key_record \<Rightarrow> bytes \<Rightarrow> (bytes \<times> sender_key_record) result" where
  "encrypt_with_record cr record padded_plaintext =
     (case get_sender_key_state None record of
        None \<Rightarrow> Inl (RuntimeError ''No session to encrypt message'')
      | Some j \<Rightarrow>
          let st = record ! j;
              iteration = ck_iteration (sk_chain st)
          in bindE (get_sender_key (g_hmac cr) (g_hkdf cr) st (if iteration = 0 then 0 else iteration + 1))
               (\<lambda>(mk, st').
             bindE (g_encrypt cr (mk_iv mk) (mk_cipher_key mk) padded_plaintext) (\<lambda>ciphertext.
             bindE (new_sender_key_message (g_sign cr) (sk_id st') (mk_iteration mk) ciphertext (sk_private st'))
               (\<lambda>m. Inr (skm_serialized m, record[j := st'])))))"

definition gc_encrypt ::
    "'s loader \<Rightarrow> 's storer \<Rightarrow> group_crypto \<Rightarrow> string \<Rightarrow> bytes \<Rightarrow> 's \<Rightarrow> bytes result \<times> 's" where
  "gc_encrypt load store cr name padded_plaintext s =
     (case encrypt_with_record cr (load s name) padded_plaintext of
        Inl e \<Rightarrow> (Inl e, s)
      | Inr (b, record) \<Rightarrow> (Inr b, store s name record))"

definition decrypt_with_record :: "group_crypto \<Rightarrow> sender_key_record \<Rightarrow> bytes \<Rightarrow> (bytes \<times> sender_key_record) result" where
  "decrypt_with_record cr record message_bytes =
     bindE (message_from_serialized message_bytes) (\<lambda>m.
       case get_sender_key_state (Some (skm_key_id m)) record of
         None \<Rightarrow> Inl (RuntimeError ''No session found to decrypt message'')
       | Some j \<Rightarrow>
           let st = record ! j
           in bindE (verify_signature (g_verify cr) (get_signing_key_public st) m) (\<lambda>_.
              bindE (get_sender_key (g_hmac cr) (g_hkdf cr) st (skm_iteration m)) (\<lambda>(mk, st').
              bindE (g_decrypt cr (mk_iv mk) (mk_cipher_key mk) (skm_ciphertext m)) (\<lambda>plaintext.
                Inr (plaintext, record[j := st'])))))"

definition gc_decrypt ::
    "'s loader \<Rightarrow> 's storer \<Rightarrow> group_crypto \<Rightarrow> string \<Rightarrow> bytes \<Rightarrow> 's \<Rightarrow> bytes result \<times> 's" where
  "gc_decrypt load store cr name message_bytes s =
     (case decrypt_with_record cr (load s name) message_bytes of
        Inl e \<Rightarrow> (Inl e, s)
      | Inr (p, record) \<Rightarrow> (Inr p, store s name record))"

section \<open>GroupSessionBuilder\<close>

definition gsb_process :: "'s loader \<Rightarrow> 's storer \<Rightarrow> string \<Rightarrow> distribution_message \<Rightarrow> 's \<Rightarrow> 's" where
  "gsb_process load store name dm s =
     store s name (add_sender_key_state (dm_id dm) (dm_iteration dm) (dm_chain_key dm) (dm_signature_key dm)
       (load s name))"

text \<open>The random key id, chain key and signing key (public, private) are arguments.\<close>

definition gsb_create ::
    "'s loader \<Rightarrow> 's storer \<Rightarrow> string \<Rightarrow> int \<times> bytes \<times> (bytes \<times> bytes) \<Rightarrow> 's \<Rightarrow> distribution_message result \<times> 's" where
  "gsb_create load store name fresh s =
     (let (key_id, sender_key, signing_key) = fresh;
          record0 = load s name;
          (record, s') = (if record_is_empty record0
             then (let r = set_sender_key_state key_id 0 sender_key signing_key in (r, store s name r))
             else (record0, s))
      in case get_sender_key_state None record of
           None \<Rightarrow> (Inl (RuntimeError ''No session state available''), s')
         | Some j \<Rightarrow>
             let st = record ! j
             in (new_distribution_message (sk_id st) (ck_iteration (sk_chain st)) (ck_seed (sk_chain st))
                   (get_signing_key_public st), s'))"

section \<open>The sender key storage of libsignal.py\<close>

text \<open>
  \<open>keys.get("sender-key", [name])\<close> and \<open>keys.set\<close>: a map from names to records. The stored
  bytes are the record in JSON, which is read back as the same record.
\<close>

type_synonym sender_keys = "string \<Rightarrow> sender_key_record option"

definition load_sender_key :: "sender_keys loader" where
  "load_sender_key keys key_id = (case keys key_id of Some r \<Rightarrow> r | None \<Rightarrow> [])"

definition store_sender_key :: "sender_keys storer" where
  "store_sender_key keys key_id record = keys(key_id \<mapsto> record)"

text \<open>What the three group operations of the repository do before they call the cipher.\<close>

definition ensure_sender_key :: "string \<Rightarrow> sender_keys \<Rightarrow> sender_keys" where
  "ensure_sender_key name keys = (case keys name of None \<Rightarrow> store_sender_key keys name [] | Some _ \<Rightarrow> keys)"

definition encrypt_group_message ::
    "group_crypto \<Rightarrow> int \<times> bytes \<times> (bytes \<times> bytes) \<Rightarrow> string \<Rightarrow> string \<Rightarrow> bytes \<Rightarrow> sender_keys \<Rightarrow>
     (bytes \<times> bytes) result \<times> sender_keys" where
  "encrypt_group_message cr fresh group_id me_id data keys =
     (case jid_to_signal_sender_key_name group_id me_id of Inl e \<Rightarrow> (Inl e, keys)
      | Inr sender_name \<Rightarrow>
          let name = sender_key_name_serialize sender_name;
              keys1 = ensure_sender_key name keys
          in case gsb_create load_sender_key store_sender_key name fresh keys1 of
               (Inl e, keys2) \<Rightarrow> (Inl e, keys2)
             | (Inr dm, keys2) \<Rightarrow>
                 (case gc_encrypt load_sender_key store_sender_key cr name data keys2 of
                    (Inl e, keys3) \<Rightarrow> (Inl e, keys3)
                  | (Inr ciphertext, keys3) \<Rightarrow> (Inr (ciphertext, dm_serialized dm), keys3)))"

definition process_sender_key_distribution_message ::
    "string option \<Rightarrow> bytes option \<Rightarrow> string \<Rightarrow> sender_keys \<Rightarrow> unit result \<times> sender_keys" where
  "process_sender_key_distribution_message group_id payload author_jid keys =
     (case group_id of None \<Rightarrow> (Inl (ValueError ''groupId is required''), keys)
      | Some g \<Rightarrow>
          if g = '''' then (Inl (ValueError ''groupId is required''), keys) else
          (case bindE (jid_to_signal_sender_key_name g author_jid) (\<lambda>n.
                bindE (case payload of None \<Rightarrow> Inl (ValueError ''Missing parameters'')
                       | Some b \<Rightarrow> distribution_from_serialized b) (\<lambda>dm. Inr (n, dm))) of
             Inl e \<Rightarrow> (Inl e, keys)
           | Inr (sender_name, dm) \<Rightarrow>
               let name = sender_key_name_serialize sender_name
               in (Inr (), gsb_process load_sender_key store_sender_key name dm (ensure_sender_key name keys))))"

definition decrypt_group_message ::
    "group_crypto \<Rightarrow> string \<Rightarrow> string \<Rightarrow> bytes \<Rightarrow> sender_keys \<Rightarrow> bytes result \<times> sender_keys" where
  "decrypt_group_message cr group_id author_jid msg keys =
     (case jid_to_signal_sender_key_name group_id author_jid of Inl e \<Rightarrow> (Inl e, keys)
      | Inr sender_name \<Rightarrow>
          gc_decrypt load_sender_key store_sender_key cr (sender_key_name_serialize sender_name) msg keys)"

section \<open>The interface of a sender key store\<close>

locale sender_key_store =
  fixes load :: "'s loader" and store :: "'s storer"
  assumes load_store: "load (store s name r) name = r"
    and load_store_other: "name \<noteq> other \<Longrightarrow> load (store s name r) other = load s other"
begin

lemma decrypt_frame:
  "other \<noteq> name \<Longrightarrow> load (snd (gc_decrypt load store cr name b s)) other = load s other"
  by (auto simp: gc_decrypt_def load_store_other split: sum.splits prod.splits)

lemma encrypt_frame:
  "other \<noteq> name \<Longrightarrow> load (snd (gc_encrypt load store cr name p s)) other = load s other"
  by (auto simp: gc_encrypt_def load_store_other split: sum.splits prod.splits)

lemma decrypt_success:
  "decrypt_with_record cr (load s name) b = Inr (p, r) \<Longrightarrow>
   fst (gc_decrypt load store cr name b s) = Inr p \<and> load (snd (gc_decrypt load store cr name b s)) name = r"
  by (simp add: gc_decrypt_def load_store)

lemma encrypt_success:
  "encrypt_with_record cr (load s name) p = Inr (b, r) \<Longrightarrow>
   fst (gc_encrypt load store cr name p s) = Inr b \<and> load (snd (gc_encrypt load store cr name p s)) name = r"
  by (simp add: gc_encrypt_def load_store)

lemma decrypt_failure:
  "fst (gc_decrypt load store cr name b s) = Inl e \<Longrightarrow> snd (gc_decrypt load store cr name b s) = s"
  by (auto simp: gc_decrypt_def split: sum.splits prod.splits)

lemma process_load:
  "load (gsb_process load store name dm s) name =
   add_sender_key_state (dm_id dm) (dm_iteration dm) (dm_chain_key dm) (dm_signature_key dm) (load s name)"
  by (simp add: gsb_process_def load_store)

lemma create_load:
  "load s name = [] \<Longrightarrow> load (snd (gsb_create load store name (k, c, kp) s)) name = set_sender_key_state k 0 c kp"
  by (simp add: gsb_create_def record_is_empty_def set_sender_key_state_def get_sender_key_state_def load_store Let_def)

lemma create_keeps:
  "load s name \<noteq> [] \<Longrightarrow> snd (gsb_create load store name fresh s) = s"
  by (auto simp: gsb_create_def record_is_empty_def Let_def split: prod.splits option.splits)

end

interpretation sks: sender_key_store load_sender_key store_sender_key
  by unfold_locales (simp_all add: load_sender_key_def store_sender_key_def)

lemma load_ensure [simp]: "load_sender_key (ensure_sender_key name keys) = load_sender_key keys"
  by (rule ext) (simp add: ensure_sender_key_def load_sender_key_def store_sender_key_def split: option.splits)

end
