(* ===== verification/Group_Session.thy ===== *)
theory Group_Session
  imports Group_Cipher
begin

text \<open>
  A group session from end to end: the sender creates its key and distributes it, encrypts a
  sequence of messages, and the receiver decrypts any of them in any order. The primitives are
  assumed to do what they document; everything between them is the program's.
\<close>

section \<open>What the primitives promise\<close>

definition primitives_ok :: "group_crypto \<Rightarrow> bytes \<Rightarrow> bytes \<Rightarrow> bool" where
  "primitives_ok cr public private \<longleftrightarrow>
     length public = 32 \<and> length private = 32 \<and>
     (\<forall>seed. length (g_hkdf cr seed) = 64) \<and>
     (\<forall>m. \<exists>s. g_sign cr private m = Inr s \<and> length s = 64 \<and> g_verify cr public m s = Inr ()) \<and>
     (\<forall>iv key p. length iv = 16 \<and> length key = 32 \<and> length p < 2147483648 \<longrightarrow>
        (\<exists>c. g_encrypt cr iv key p = Inr c \<and> length c < 4294967296 \<and> g_decrypt cr iv key c = Inr p))"

lemma chain_key_lengths:
  assumes "primitives_ok cr pub priv"
  shows "length (mk_iv (chain_message_key (g_hmac cr) (g_hkdf cr) base i)) = 16"
    and "length (mk_cipher_key (chain_message_key (g_hmac cr) (g_hkdf cr) base i)) = 32"
  using assms
  by (simp_all add: chain_message_key_def get_sender_message_key_def make_message_key_def
      derive_secrets_def primitives_ok_def Let_def)

section \<open>Messages\<close>

text \<open>A message that carries \<open>p\<close> under the key of iteration \<open>i\<close>, signed for \<open>public\<close>.\<close>

definition carries :: "group_crypto \<Rightarrow> chain_key \<Rightarrow> int \<Rightarrow> bytes \<Rightarrow> int \<Rightarrow> bytes \<Rightarrow> bytes \<Rightarrow> bool" where
  "carries cr base key_id public i p b \<longleftrightarrow>
     (\<exists>m. message_from_serialized b = Inr m \<and> skm_key_id m = key_id \<and> skm_iteration m = i \<and>
          (\<forall>pk. pk = public \<or> pk = 5 # public \<longrightarrow> verify_signature (g_verify cr) pk m = Inr ()) \<and>
          (let mk = chain_message_key (g_hmac cr) (g_hkdf cr) base i
           in g_decrypt cr (mk_iv mk) (mk_cipher_key mk) (skm_ciphertext m) = Inr p))"

lemma verify_built_message:
  assumes "primitives_ok cr public private" and "skm_serialized m = body @ s" and "g_verify cr public body s = Inr ()"
    and "length s = 64" and "pk = public \<or> pk = 5 # public"
  shows "verify_signature (g_verify cr) pk m = Inr ()"
proof -
  have "length public = 32" using assms(1) by (simp add: primitives_ok_def)
  with assms(2-5) show ?thesis
    by (auto simp: verify_signature_def curve_verify_def SIGNATURE_LENGTH_def Let_def)
qed

lemma new_message_carries:
  assumes ok: "primitives_ok cr public private" and "ck_iteration base \<le> i"
    and "0 \<le> key_id" "key_id < 4294967296" "0 \<le> i" "i < 4294967296"
    and mk: "mk = chain_message_key (g_hmac cr) (g_hkdf cr) base i"
    and "length p < 2147483648"
  shows "\<exists>c m. g_encrypt cr (mk_iv mk) (mk_cipher_key mk) p = Inr c \<and>
    new_sender_key_message (g_sign cr) key_id i c private = Inr m \<and>
    carries cr base key_id public i p (skm_serialized m)"
proof -
  have lens: "length (mk_iv mk) = 16" "length (mk_cipher_key mk) = 32"
    unfolding mk by (rule chain_key_lengths [OF ok])+
  then obtain c where c: "g_encrypt cr (mk_iv mk) (mk_cipher_key mk) p = Inr c" "length c < 4294967296"
    "g_decrypt cr (mk_iv mk) (mk_cipher_key mk) c = Inr p"
    using ok assms(8) unfolding primitives_ok_def by blast
  let ?body = "[to_byte (ints_to_byte_high_and_low CURRENT_VERSION CURRENT_VERSION)] @ le_bytes 4 key_id @
    le_bytes 4 i @ le_bytes 4 (int (length c)) @ c"
  obtain s where s: "g_sign cr private ?body = Inr s" "length s = 64" "g_verify cr public ?body s = Inr ()"
    using ok unfolding primitives_ok_def by blast
  have "length private = 32" using ok by (simp add: primitives_ok_def)
  with s(1) have "get_signature (g_sign cr) private ?body = Inr s"
    by (simp add: get_signature_def curve_sign_def)
  moreover have "int (length c) < 4294967296" using c(2) by simp
  ultimately obtain m where m: "new_sender_key_message (g_sign cr) key_id i c private = Inr m"
    "skm_serialized m = ?body @ s" "skm_key_id m = key_id" "skm_iteration m = i" "skm_ciphertext m = c"
    "skm_signature m = s"
    using assms(3-6) by (simp add: new_sender_key_message_def pack_u32_ok Let_def)
  have "message_from_serialized (skm_serialized m) = Inr m"
    by (rule sender_key_message_parses [OF m(1)]) (simp add: m s SIGNATURE_LENGTH_def)
  then have "carries cr base key_id public i p (skm_serialized m)"
    using m c(3) mk verify_built_message [OF ok m(2) s(3,2)]
    by (auto simp: carries_def Let_def)
  with c(1) m(1) show ?thesis by blast
qed


section \<open>The sender\<close>

fun gc_encrypt_all ::
    "'s loader \<Rightarrow> 's storer \<Rightarrow> group_crypto \<Rightarrow> string \<Rightarrow> bytes list \<Rightarrow> 's \<Rightarrow> bytes list result \<times> 's" where
  "gc_encrypt_all load store cr name [] s = (Inr [], s)"
| "gc_encrypt_all load store cr name (p # ps) s =
     (case gc_encrypt load store cr name p s of
        (Inl e, s') \<Rightarrow> (Inl e, s')
      | (Inr b, s') \<Rightarrow>
          (case gc_encrypt_all load store cr name ps s' of
             (Inl e, s'') \<Rightarrow> (Inl e, s'')
           | (Inr bs, s'') \<Rightarrow> (Inr (b # bs), s'')))"

fun gc_decrypt_all ::
    "'s loader \<Rightarrow> 's storer \<Rightarrow> group_crypto \<Rightarrow> string \<Rightarrow> bytes list \<Rightarrow> 's \<Rightarrow> bytes list result \<times> 's" where
  "gc_decrypt_all load store cr name [] s = (Inr [], s)"
| "gc_decrypt_all load store cr name (b # bs) s =
     (case gc_decrypt load store cr name b s of
        (Inl e, s') \<Rightarrow> (Inl e, s')
      | (Inr p, s') \<Rightarrow>
          (case gc_decrypt_all load store cr name bs s' of
             (Inl e, s'') \<Rightarrow> (Inl e, s'')
           | (Inr ps, s'') \<Rightarrow> (Inr (p # ps), s'')))"

text \<open>
  The sender's record after \<open>n\<close> messages. The code asks for iteration 0 first and then always for
  the one after the next: message \<open>n\<close> has iteration \<open>2 * n\<close>.
\<close>

definition sender_record ::
    "group_crypto \<Rightarrow> chain_key \<Rightarrow> int \<Rightarrow> bytes \<Rightarrow> nat \<Rightarrow> sender_key_record \<Rightarrow> bool" where
  "sender_record cr base key_id private n r \<longleftrightarrow>
     (\<exists>st. r = [st] \<and> on_chain (g_hmac cr) (g_hkdf cr) base st \<and> sk_id st = key_id \<and> sk_private st = private \<and>
           ck_iteration (sk_chain st) = (if n = 0 then 0 else 2 * int n - 1))"

lemma encrypt_step:
  assumes ok: "primitives_ok cr public private" and sr: "sender_record cr base key_id private n r"
    and "ck_iteration base = 0" and "0 \<le> key_id" "key_id < 4294967296"
    and "2 * int n < 4294967296" and "length p < 2147483648"
  shows "\<exists>b r'. encrypt_with_record cr r p = Inr (b, r') \<and> carries cr base key_id public (2 * int n) p b \<and>
    sender_record cr base key_id private (Suc n) r'"
proof -
  obtain st where st: "r = [st]" "on_chain (g_hmac cr) (g_hkdf cr) base st" "sk_id st = key_id"
    "sk_private st = private" "ck_iteration (sk_chain st) = (if n = 0 then 0 else 2 * int n - 1)"
    using sr by (auto simp: sender_record_def)
  let ?i = "2 * int n"
  let ?mk = "chain_message_key (g_hmac cr) (g_hkdf cr) base ?i"
  have i: "(if ck_iteration (sk_chain st) = 0 then 0 else ck_iteration (sk_chain st) + 1) = ?i"
    using st(5) by (auto split: if_splits)
  have "key_available st ?i" using st(5) by (auto simp: key_available_def)
  from get_sender_key_step [OF st(2) this] obtain st' where st':
    "get_sender_key (g_hmac cr) (g_hkdf cr) st ?i = Inr (?mk, st')" "on_chain (g_hmac cr) (g_hkdf cr) base st'"
    "same_keys st st'" "ck_iteration (sk_chain st') = max (ck_iteration (sk_chain st)) (?i + 1)" by blast
  obtain c m where m: "g_encrypt cr (mk_iv ?mk) (mk_cipher_key ?mk) p = Inr c"
    "new_sender_key_message (g_sign cr) key_id ?i c private = Inr m"
    "carries cr base key_id public ?i p (skm_serialized m)"
    using new_message_carries [OF ok _ assms(4,5) _ assms(6) refl assms(7), of base] assms(3) by auto
  have "encrypt_with_record cr r p = Inr (skm_serialized m, [st'])"
    using st'(3) st(3,4) m(1,2)
    by (simp add: encrypt_with_record_def get_sender_key_state_def st(1) i st'(1) assms(3) Let_def)
  moreover have "sender_record cr base key_id private (Suc n) [st']"
    using st st' by (auto simp: sender_record_def)
  ultimately show ?thesis using m(3) by blast
qed

section \<open>The receiver\<close>

text \<open>
  The receiver's record after the messages of the iterations \<open>S\<close>: what it holds of the chain is
  exactly what it passed and did not use.
\<close>

definition receiver_record ::
    "group_crypto \<Rightarrow> chain_key \<Rightarrow> int \<Rightarrow> bytes \<Rightarrow> int set \<Rightarrow> sender_key_record \<Rightarrow> bool" where
  "receiver_record cr base key_id public S r \<longleftrightarrow>
     (\<exists>j. get_sender_key_state (Some key_id) r = Some j \<and>
        (let st = r ! j; c = ck_iteration (sk_chain st)
         in on_chain (g_hmac cr) (g_hkdf cr) base st \<and>
            get_signing_key_public st \<in> {public, 5 # public} \<and>
            S \<subseteq> {0..<c} \<and> stored_iterations st = {0..<c} - S))"

lemma find_key_id_update:
  "find_key_id k r = Some j \<Longrightarrow> sk_id st = sk_id (r ! j) \<Longrightarrow> find_key_id k (r[j := st]) = Some j"
  by (induction k r arbitrary: j rule: find_key_id.induct) (auto split: if_splits)

lemma distinct_stored: "on_chain hm hk base st \<Longrightarrow> card (stored_iterations st) = length (sk_message_keys st)"
  using on_chain_wf [of hm hk base st] distinct_card [of "map fst (sk_message_keys st)"]
  by (simp add: state_wf_def)

lemma decrypt_step:
  assumes rr: "receiver_record cr base key_id public S r" and "ck_iteration base = 0"
    and c: "carries cr base key_id public i p b" and i: "i \<notin> S" "0 \<le> i" "i \<le> 2000"
  shows "\<exists>r'. decrypt_with_record cr r b = Inr (p, r') \<and> receiver_record cr base key_id public (insert i S) r'"
proof -
  obtain j where j: "find_key_id key_id r = Some j" and "get_sender_key_state (Some key_id) r = Some j"
    using rr by (auto simp: receiver_record_def get_sender_key_state_def)
  let ?st = "r ! j" and ?h = "g_hmac cr" and ?f = "g_hkdf cr"
  let ?c = "ck_iteration (sk_chain ?st)" and ?mk = "chain_message_key ?h ?f base i"
  have st: "on_chain ?h ?f base ?st" "get_signing_key_public ?st \<in> {public, 5 # public}"
    "S \<subseteq> {0..<?c}" "stored_iterations ?st = {0..<?c} - S"
    using rr j by (auto simp: receiver_record_def get_sender_key_state_def Let_def)
  have c0: "0 \<le> ?c" using st(1) assms(2) by (simp add: on_chain_def)
  have av: "key_available ?st i"
    using i st(4) c0 by (cases "i < ?c") (simp_all add: key_available_def has_sender_message_key_iff)
  have "card ({0..<?c} - S) \<le> card {0..<?c}" by (rule card_mono) auto
  then have "length (sk_message_keys ?st) \<le> nat ?c" using distinct_stored [OF st(1)] st(4) by simp
  moreover have "length (sk_message_keys ?st) \<le> MAX_MESSAGE_KEYS" using st(1) by (simp add: on_chain_def)
  ultimately have len: "length (sk_message_keys ?st) + nat (i - ?c) \<le> MAX_MESSAGE_KEYS"
    using i c0 by (cases "i < ?c") (simp_all add: MAX_MESSAGE_KEYS_def)
  obtain st' where st': "get_sender_key ?h ?f ?st i = Inr (?mk, st')" "on_chain ?h ?f base st'"
    "same_keys ?st st'" "ck_iteration (sk_chain st') = max ?c (i + 1)"
    "stored_iterations st' = stored_iterations ?st \<union> {?c..<i} - {i}"
    using get_sender_key_step [OF st(1) av] len by blast
  obtain m where m: "message_from_serialized b = Inr m" "skm_key_id m = key_id" "skm_iteration m = i"
    "verify_signature (g_verify cr) (get_signing_key_public ?st) m = Inr ()"
    "g_decrypt cr (mk_iv ?mk) (mk_cipher_key ?mk) (skm_ciphertext m) = Inr p"
    using c st(2) by (auto simp: carries_def Let_def)
  have "decrypt_with_record cr r b = Inr (p, r[j := st'])"
    using m j st'(1) by (simp add: decrypt_with_record_def get_sender_key_state_def Let_def)
  moreover have "receiver_record cr base key_id public (insert i S) (r[j := st'])"
  proof -
    have "find_key_id key_id (r[j := st']) = Some j" by (rule find_key_id_update [OF j]) (use st'(3) in simp)
    moreover have "get_signing_key_public st' = get_signing_key_public ?st"
      using st'(3) by (simp add: get_signing_key_public_def)
    moreover have "insert i S \<subseteq> {0..<max ?c (i + 1)}" using st(3) i by (fastforce simp: subset_iff)
    moreover have "stored_iterations st' = {0..<max ?c (i + 1)} - insert i S"
      unfolding st'(5) st(4) using st(3) i c0 by auto
    ultimately show ?thesis
      using st' st(2) find_key_id_Some [OF j] by (simp add: receiver_record_def get_sender_key_state_def)
  qed
  ultimately show ?thesis by blast
qed


section \<open>The session\<close>

context sender_key_store
begin

lemma encrypt_all_carries:
  assumes ok: "primitives_ok cr public private" and b: "ck_iteration base = 0" "0 \<le> key_id" "key_id < 4294967296"
    and "sender_record cr base key_id private n (load s name)"
    and "\<forall>p\<in>set ps. length p < 2147483648" and "2 * (n + length ps) < 4294967296"
  shows "\<exists>bs s'. gc_encrypt_all load store cr name ps s = (Inr bs, s') \<and> length bs = length ps \<and>
    (\<forall>k<length ps. carries cr base key_id public (2 * int (n + k)) (ps ! k) (bs ! k))"
  using assms(5-7)
proof (induction ps arbitrary: n s)
  case (Cons p ps)
  have n: "2 * int n < 4294967296" "length p < 2147483648" using Cons.prems by simp_all
  obtain b r where e: "encrypt_with_record cr (load s name) p = Inr (b, r)"
    "carries cr base key_id public (2 * int n) p b" "sender_record cr base key_id private (Suc n) r"
    using encrypt_step [OF ok Cons.prems(1) b n] by blast
  obtain s1 where g: "gc_encrypt load store cr name p s = (Inr b, s1)" "load s1 name = r"
    using encrypt_success [OF e(1)] by (metis prod.collapse)
  have "\<exists>bs s'. gc_encrypt_all load store cr name ps s1 = (Inr bs, s') \<and> length bs = length ps \<and>
    (\<forall>k<length ps. carries cr base key_id public (2 * int (Suc n + k)) (ps ! k) (bs ! k))"
    by (rule Cons.IH) (use Cons.prems e(3) g in simp_all)
  then obtain bs s' where r: "gc_encrypt_all load store cr name ps s1 = (Inr bs, s')" "length bs = length ps"
    "\<And>k. k < length ps \<Longrightarrow> carries cr base key_id public (2 * int (Suc n + k)) (ps ! k) (bs ! k)" by blast
  have "gc_encrypt_all load store cr name (p # ps) s = (Inr (b # bs), s')" using r(1) g(1) by simp
  moreover have "carries cr base key_id public (2 * int (n + k)) ((p # ps) ! k) ((b # bs) ! k)"
    if "k < length (p # ps)" for k
    using that e(2) r(3) [of "k - 1"] by (cases k) simp_all
  ultimately show ?case using r(2) by auto
qed simp

lemma decrypt_all_carried:
  assumes "ck_iteration base = 0" and "receiver_record cr base key_id public S (load s name)"
    and "list_all2 (\<lambda>(i, p) b. carries cr base key_id public i p b) ips bs"
    and "distinct (map fst ips)" and "\<forall>i\<in>set (map fst ips). i \<notin> S \<and> 0 \<le> i \<and> i \<le> 2000"
  shows "fst (gc_decrypt_all load store cr name bs s) = Inr (map snd ips)"
  using assms(2-5)
proof (induction ips arbitrary: bs S s)
  case (Cons ip ips)
  obtain i p where ip: "ip = (i, p)" by (cases ip)
  with Cons.prems(2) obtain b bs' where b: "bs = b # bs'" "carries cr base key_id public i p b"
    "list_all2 (\<lambda>(i, p) b. carries cr base key_id public i p b) ips bs'"
    by (auto simp: list_all2_Cons1)
  have i: "i \<notin> S" "0 \<le> i" "i \<le> 2000" using Cons.prems(4) ip by simp_all
  obtain r where r: "decrypt_with_record cr (load s name) b = Inr (p, r)"
    "receiver_record cr base key_id public (insert i S) r"
    using decrypt_step [OF Cons.prems(1) assms(1) b(2) i] by blast
  obtain s1 where g: "gc_decrypt load store cr name b s = (Inr p, s1)" "load s1 name = r"
    using decrypt_success [OF r(1)] by (metis prod.collapse)
  have "fst (gc_decrypt_all load store cr name bs' s1) = Inr (map snd ips)"
    by (rule Cons.IH [OF _ b(3)]) (use Cons.prems(3,4) r(2) g ip in auto)
  with g(1) show ?case using b(1) ip by (auto split: prod.splits)
qed simp

lemma create_sender:
  assumes "load s name = []" and "0 \<le> key_id" "key_id < 4294967296" and "length seed < 4294967296" "length public = 32"
    and "base = \<lparr>ck_iteration = 0, ck_seed = seed\<rparr>"
  shows "\<exists>dm s'. gsb_create load store name (key_id, seed, (public, private)) s = (Inr dm, s') \<and>
    sender_record cr base key_id private 0 (load s' name) \<and>
    distribution_from_serialized (dm_serialized dm) = Inr dm \<and>
    dm_id dm = key_id \<and> dm_iteration dm = 0 \<and> dm_chain_key dm = seed \<and> dm_signature_key dm = 5 # public"
proof -
  let ?st = "new_sender_key_state key_id 0 seed public private"
  have st: "sk_id ?st = key_id" "sk_chain ?st = base" "sk_private ?st = private" "get_signing_key_public ?st = 5 # public"
    using assms(5,6) by (simp_all add: new_sender_key_state_def get_signing_key_public_def)
  have b: "ck_iteration base = 0" "ck_seed base = seed" using assms(6) by simp_all
  obtain dm where dm: "new_distribution_message key_id 0 seed (5 # public) = Inr dm" "dm_id dm = key_id"
    "dm_iteration dm = 0" "dm_chain_key dm = seed" "dm_signature_key dm = 5 # public"
    using assms(2-5) by (simp add: new_distribution_message_def pack_u32_ok)
  have g: "gsb_create load store name (key_id, seed, (public, private)) s = (Inr dm, store s name [?st])"
    using assms(1) st dm(1) b
    by (simp add: gsb_create_def record_is_empty_def set_sender_key_state_def get_sender_key_state_def Let_def)
  have "sender_record cr base key_id private 0 [?st]"
    using st b new_state_on_chain assms(6) by (auto simp: sender_record_def)
  with g dm distribution_message_parses [OF dm(1)] show ?thesis
    by (intro exI [of _ dm] exI [of _ "store s name [?st]"]) (simp add: load_store)
qed

lemma process_receiver:
  assumes "find_key_id (dm_id dm) (load s name) = None" and "dm_iteration dm = 0" and "dm_signature_key dm = 5 # public"
    and "base = \<lparr>ck_iteration = 0, ck_seed = dm_chain_key dm\<rparr>" and "length public = 32"
  shows "receiver_record cr base (dm_id dm) public {} (load (gsb_process load store name dm s) name)"
proof -
  let ?st = "new_sender_key_state (dm_id dm) 0 (dm_chain_key dm) (5 # public) []"
  have none: "find_key_id k r = None \<Longrightarrow> sk_id st = k \<Longrightarrow> find_key_id k (r @ [st]) = Some (length r)" for k r st
    by (induction k r rule: find_key_id.induct) (auto split: if_splits)
  have tl: "find_key_id k r = None \<Longrightarrow> find_key_id k (tl r) = None" for k r
    by (cases r) (auto split: if_splits)
  obtain r where r: "load (gsb_process load store name dm s) name = r @ [?st]" "find_key_id (dm_id dm) r = None"
  proof (cases "length (load s name) < MAX_STATES")
    case True
    with that [of "load s name"] assms(1-3) show ?thesis
      by (simp add: process_load add_sender_key_state_def)
  next
    case False
    then have "load s name \<noteq> []" by (auto simp: MAX_STATES_def)
    with False that [of "tl (load s name)"] assms(1-3) tl show ?thesis
      by (simp add: process_load add_sender_key_state_def)
  qed
  have "find_key_id (dm_id dm) (r @ [?st]) = Some (length r)"
    by (rule none [OF r(2)]) (simp add: new_sender_key_state_def)
  moreover have "get_signing_key_public ?st = 5 # public"
    using assms(5) by (simp add: get_signing_key_public_def new_sender_key_state_def)
  moreover have "on_chain (g_hmac cr) (g_hkdf cr) base ?st" using assms(4) by simp
  moreover have "sk_message_keys ?st = []" "ck_iteration (sk_chain ?st) = 0"
    by (simp_all add: new_sender_key_state_def)
  ultimately show ?thesis by (simp add: receiver_record_def r(1) get_sender_key_state_def)
qed

end



text \<open>Primitives that keep their promises, so simple that they can be evaluated.\<close>

definition demo_crypto :: group_crypto where
  "demo_crypto = \<lparr>g_hmac = (\<lambda>k d. d @ k), g_hkdf = (\<lambda>s. take 64 (s @ replicate 64 0)),
     g_sign = (\<lambda>k m. Inr (k @ replicate 32 (of_nat (length m)))),
     g_verify = (\<lambda>k m s. if s = k @ replicate 32 (of_nat (length m)) then Inr () else Inl ExternalError),
     g_encrypt = (\<lambda>iv k p. Inr (k @ p)),
     g_decrypt = (\<lambda>iv k c. if take 32 c = k then Inr (drop 32 c) else Inl ExternalError)\<rparr>"

lemma demo_crypto_ok: "primitives_ok demo_crypto (replicate 32 3) (replicate 32 3)"
  by (auto simp: primitives_ok_def demo_crypto_def)


text \<open>
  From its second message on the sender does not use the next key of the chain: it takes the one
  after and leaves the skipped key in its own record, where nothing will ask for it.
\<close>

theorem encrypt_skips_a_key:
  assumes "sender_record cr base key_id private (Suc n) r" and "encrypt_with_record cr r p = Inr (b, r')"
    and "length (sk_message_keys (hd r)) < MAX_MESSAGE_KEYS"
  shows "ck_iteration (sk_chain (hd r')) = ck_iteration (sk_chain (hd r)) + 2 \<and>
    has_sender_message_key (hd r') (ck_iteration (sk_chain (hd r)))"
proof -
  obtain st where st: "r = [st]" "on_chain (g_hmac cr) (g_hkdf cr) base st"
    "ck_iteration (sk_chain st) = 2 * int (Suc n) - 1"
    using assms(1) by (auto simp: sender_record_def)
  let ?c = "ck_iteration (sk_chain st)"
  have c: "?c \<noteq> 0" "key_available st (?c + 1)" using st(3) by (simp_all add: key_available_def)
  from get_sender_key_step [OF st(2) c(2)] obtain st' where st':
    "get_sender_key (g_hmac cr) (g_hkdf cr) st (?c + 1) =
       Inr (chain_message_key (g_hmac cr) (g_hkdf cr) base (?c + 1), st')"
    "ck_iteration (sk_chain st') = max ?c (?c + 1 + 1)"
    "stored_iterations st' = stored_iterations st \<union> {?c..<?c + 1} - {?c + 1}"
    using assms(3) st(1) by auto
  have "r' = [st']"
    using assms(2) c(1) st'(1)
    by (auto simp: encrypt_with_record_def get_sender_key_state_def st(1) bindE_eq_Inr_iff Let_def)
  moreover have "?c \<in> stored_iterations st'" unfolding st'(3) by simp
  ultimately show ?thesis using st(1) st'(2) by (simp add: has_sender_message_key_iff)
qed


theorem encrypt_skips_a_key_witness:
  "\<exists>r b r'. encrypt_with_record demo_crypto r [9] = Inr (b, r') \<and> ck_iteration (sk_chain (hd r)) = 1 \<and>
     ck_iteration (sk_chain (hd r')) = 3 \<and> has_sender_message_key (hd r') 1"
proof -
  let ?k = "replicate 32 3 :: bytes" and ?base = "\<lparr>ck_iteration = 0, ck_seed = [1]\<rparr>"
  have "sender_record demo_crypto ?base 7 ?k 0 [new_sender_key_state 7 0 [1] ?k ?k]"
    using new_state_on_chain [of "g_hmac demo_crypto" "g_hkdf demo_crypto" 0 "[1]" 7]
    by (simp add: sender_record_def) (simp add: new_sender_key_state_def)
  then obtain r where r: "sender_record demo_crypto ?base 7 ?k (Suc 0) r"
    using encrypt_step [OF demo_crypto_ok, of ?base 7 0 _ "[8]"] by auto
  then obtain b r' where e: "encrypt_with_record demo_crypto r [9] = Inr (b, r')"
    using encrypt_step [OF demo_crypto_ok r, of "[9]"] by auto
  obtain st where st: "r = [st]" "on_chain (g_hmac demo_crypto) (g_hkdf demo_crypto) ?base st"
    "ck_iteration (sk_chain st) = 1" using r by (auto simp: sender_record_def)
  then have "stored_iterations st \<subseteq> {0}"
    using on_chain_has [OF st(2)] by (fastforce simp: has_sender_message_key_iff)
  then have "card (stored_iterations st) \<le> card {0 :: int}" by (rule card_mono [rotated]) simp
  then have "length (sk_message_keys (hd r)) < MAX_MESSAGE_KEYS"
    using distinct_stored [OF st(2)] st(1) by (simp add: MAX_MESSAGE_KEYS_def)
  from encrypt_skips_a_key [OF r e this] e st(1,3) show ?thesis
    by (intro exI [of _ r] exI [of _ b] exI [of _ r']) simp
qed

end
