(* ===== verification/Key_Store.thy ===== *)
theory Key_Store
  imports Prelude
begin

text \<open>
  The stores of Signal keys: the in-memory store and the caching store of
  \<^verbatim>\<open>utils/auth_utils.py\<close> and the store on files of
  \<^verbatim>\<open>utils/use_multi_file_auth_state.py\<close>. A store maps a key type and an id to a
  value. Callers read the result of \<open>get\<close> with \<open>.get(id)\<close>, so the result is modelled as a
  lookup function: an id that is missing and one whose value is None are the same to them. The
  locale \<open>signal_key_store\<close> is the \<open>SignalKeyStore\<close> protocol with what it promises.
\<close>

section \<open>The protocol\<close>

type_synonym 'v store = "string \<Rightarrow> string \<Rightarrow> 'v option"
type_synonym 'v lookup = "string \<Rightarrow> 'v option"
type_synonym 'v data_set = "(string, (string, 'v option) dict) dict"

definition apply_values :: "string \<Rightarrow> (string, 'v option) dict \<Rightarrow> 'v store \<Rightarrow> 'v store" where
  "apply_values key_type values s =
     foldl (\<lambda>s (item_id, value). s(key_type := (s key_type)(item_id := value))) s values"

definition apply_data :: "'v data_set \<Rightarrow> 'v store \<Rightarrow> 'v store" where
  "apply_data data s = foldl (\<lambda>s (key_type, values). apply_values key_type values s) s data"

lemma apply_data_simps [simp]:
  "apply_data [] s = s" "apply_data ((t, vs) # d) s = apply_data d (apply_values t vs s)"
  "apply_values t [] s = s"
  "apply_values t ((i, v) # vs) s = apply_values t vs (s(t := (s t)(i := v)))"
  by (simp_all add: apply_data_def apply_values_def)

lemma apply_data_append: "apply_data (d @ e) s = apply_data e (apply_data d s)"
  by (simp add: apply_data_def)

definition types_ok :: "(string \<Rightarrow> bool) \<Rightarrow> 'v data_set \<Rightarrow> bool" where
  "types_ok ok data \<longleftrightarrow> list_all (\<lambda>(t, _). ok t) data"

lemma types_ok_simps [simp]:
  "types_ok ok []" "types_ok ok ((t, vs) # d) \<longleftrightarrow> ok t \<and> types_ok ok d" "types_ok (\<lambda>_. True) d"
  by (simp_all add: types_ok_def list_all_iff split_beta)

text \<open>
  \<open>contents\<close> is what the store stands for, \<open>ok\<close> says which key types it can be used with.
\<close>

locale signal_key_store =
  fixes ok :: "string \<Rightarrow> bool" and contents :: "'s \<Rightarrow> 'v store" and inv :: "'s \<Rightarrow> bool"
    and get :: "string \<Rightarrow> string list \<Rightarrow> 's \<Rightarrow> 'v lookup \<times> 's"
    and put :: "'v data_set \<Rightarrow> 's \<Rightarrow> 's"
  assumes get_value: "inv s \<Longrightarrow> ok t \<Longrightarrow> i \<in> set ids \<Longrightarrow> fst (get t ids s) i = contents s t i"
    and get_outside: "inv s \<Longrightarrow> ok t \<Longrightarrow> i \<notin> set ids \<Longrightarrow> fst (get t ids s) i = None"
    and get_inv: "inv s \<Longrightarrow> ok t \<Longrightarrow> inv (snd (get t ids s))"
    and get_contents: "inv s \<Longrightarrow> ok t \<Longrightarrow> contents (snd (get t ids s)) = contents s"
    and put_inv: "inv s \<Longrightarrow> types_ok ok d \<Longrightarrow> inv (put d s)"
    and put_contents: "inv s \<Longrightarrow> types_ok ok d \<Longrightarrow> contents (put d s) = apply_data d (contents s)"

section \<open>InMemorySignalKeyStore\<close>

definition ims_get :: "string \<Rightarrow> string list \<Rightarrow> 'v store \<Rightarrow> 'v lookup \<times> 'v store" where
  "ims_get key_type ids s = ((\<lambda>i. if i \<in> set ids then s key_type i else None), s)"

fun ims_set_values :: "string \<Rightarrow> (string, 'v option) dict \<Rightarrow> 'v store \<Rightarrow> 'v store" where
  "ims_set_values key_type [] s = s"
| "ims_set_values key_type ((item_id, None) # values) s =
     ims_set_values key_type values (s(key_type := (s key_type)(item_id := None)))"
| "ims_set_values key_type ((item_id, Some value) # values) s =
     ims_set_values key_type values (s(key_type := (s key_type)(item_id \<mapsto> value)))"

fun ims_set :: "'v data_set \<Rightarrow> 'v store \<Rightarrow> 'v store" where
  "ims_set [] s = s"
| "ims_set ((key_type, values) # data) s = ims_set data (ims_set_values key_type values s)"

definition ims_clear :: "'v store \<Rightarrow> 'v store" where
  "ims_clear s = (\<lambda>_. Map.empty)"

lemma ims_set_values_apply: "ims_set_values t vs s = apply_values t vs s"
  by (induction t vs s rule: ims_set_values.induct) (simp_all add: fun_upd_def)

lemma ims_set_apply: "ims_set d s = apply_data d s"
  by (induction d s rule: ims_set.induct) (simp_all add: ims_set_values_apply)

interpretation ims: signal_key_store "\<lambda>_. True" "\<lambda>s. s" "\<lambda>_. True" ims_get ims_set
  by unfold_locales (simp_all add: ims_get_def ims_set_apply)

section \<open>The caching store\<close>

text \<open>
  The cache is keyed by \<open>"type.id"\<close> and holds a value (None for a deleted key) with its expiry
  time. The clock is part of the state; nothing relies on how it moves.
\<close>

record ('v, 's) cacheable =
  cs_cache :: "string \<Rightarrow> ('v option \<times> int) option"
  cs_store :: 's
  cs_now :: int
  cs_ttl :: int

definition cache_key :: "string \<Rightarrow> string \<Rightarrow> string" where
  "cache_key key_type item_id = key_type @ CHR ''.'' # item_id"

definition cs_prune :: "('v, 's) cacheable \<Rightarrow> ('v, 's) cacheable" where
  "cs_prune c = c\<lparr>cs_cache := (\<lambda>k. case cs_cache c k of
       Some (v, exp) \<Rightarrow> if exp \<le> cs_now c then None else Some (v, exp) | None \<Rightarrow> None)\<rparr>"

text \<open>
  \<open>get\<close> releases its lock while it waits for the store: it looks up the cache, asks the store for
  what is missing, and enters what it got.
\<close>

definition cs_get_cached :: "string \<Rightarrow> string list \<Rightarrow> ('v, 's) cacheable \<Rightarrow> ('v lookup \<times> string list) \<times> ('v, 's) cacheable" where
  "cs_get_cached key_type ids c =
     (let c = cs_prune c;
          hit = (\<lambda>i. cs_cache c (cache_key key_type i))
      in (((\<lambda>i. if i \<in> set ids then (case hit i of Some (v, _) \<Rightarrow> v | None \<Rightarrow> None) else None),
           filter (\<lambda>i. hit i = None) ids), c))"

definition cs_get_enter ::
    "string \<Rightarrow> string list \<Rightarrow> 'v lookup \<Rightarrow> 'v lookup \<Rightarrow> ('v, 's) cacheable \<Rightarrow> 'v lookup \<times> ('v, 's) cacheable" where
  "cs_get_enter key_type missing fetched result c =
     foldl (\<lambda>(r, c) i. case fetched i of
              None \<Rightarrow> (r, c)
            | Some v \<Rightarrow> (r(i \<mapsto> v), c\<lparr>cs_cache := (cs_cache c)(cache_key key_type i \<mapsto> (Some v, cs_now c + cs_ttl c))\<rparr>))
       (result, c) missing"

definition cs_get ::
    "(string \<Rightarrow> string list \<Rightarrow> 's \<Rightarrow> 'v lookup \<times> 's) \<Rightarrow> string \<Rightarrow> string list \<Rightarrow> ('v, 's) cacheable \<Rightarrow>
     'v lookup \<times> ('v, 's) cacheable" where
  "cs_get get key_type ids c =
     (let ((result, missing), c) = cs_get_cached key_type ids c
      in if missing = [] then (result, c)
         else let (fetched, s') = get key_type missing (cs_store c)
              in cs_get_enter key_type missing fetched result (c\<lparr>cs_store := s'\<rparr>))"

definition cs_cache_values :: "string \<Rightarrow> (string, 'v option) dict \<Rightarrow> ('v, 's) cacheable \<Rightarrow> ('v, 's) cacheable" where
  "cs_cache_values key_type values c =
     foldl (\<lambda>c (i, v). c\<lparr>cs_cache := (cs_cache c)(cache_key key_type i \<mapsto> (v, cs_now c + cs_ttl c))\<rparr>) c values"

definition cs_cache_data :: "'v data_set \<Rightarrow> ('v, 's) cacheable \<Rightarrow> ('v, 's) cacheable" where
  "cs_cache_data data c = foldl (\<lambda>c (key_type, values). cs_cache_values key_type values c) c data"

definition cs_set :: "('v data_set \<Rightarrow> 's \<Rightarrow> 's) \<Rightarrow> 'v data_set \<Rightarrow> ('v, 's) cacheable \<Rightarrow> ('v, 's) cacheable" where
  "cs_set put data c = (let c' = cs_cache_data data c in c'\<lparr>cs_store := put data (cs_store c')\<rparr>)"

definition cs_clear :: "('s \<Rightarrow> 's) \<Rightarrow> ('v, 's) cacheable \<Rightarrow> ('v, 's) cacheable" where
  "cs_clear clear c = c\<lparr>cs_cache := Map.empty, cs_store := clear (cs_store c)\<rparr>"


section \<open>The cache is coherent\<close>

text \<open>
  Every entry of the cache is what the store has. Entries of different keys are kept apart because
  no type of a key has a dot in it, which holds of every type the program uses.
\<close>

definition dot_free :: "string \<Rightarrow> bool" where
  "dot_free t \<longleftrightarrow> CHR ''.'' \<notin> set t"

definition coherent :: "'v store \<Rightarrow> (string \<Rightarrow> ('v option \<times> int) option) \<Rightarrow> bool" where
  "coherent s cache \<longleftrightarrow> (\<forall>t i v exp. dot_free t \<longrightarrow> cache (cache_key t i) = Some (v, exp) \<longrightarrow> s t i = v)"

lemma cache_key_inj: "dot_free t \<Longrightarrow> dot_free t' \<Longrightarrow> cache_key t i = cache_key t' i' \<longleftrightarrow> t = t' \<and> i = i'"
  using split_first_unique [of t "CHR ''.''" i t' i'] by (auto simp: cache_key_def dot_free_def)

lemma coherentD: "coherent s cache \<Longrightarrow> dot_free t \<Longrightarrow> cache (cache_key t i) = Some (v, exp) \<Longrightarrow> s t i = v"
  unfolding coherent_def by blast

lemma coherent_enter:
  assumes "coherent s cache" and "dot_free t"
  shows "coherent (s(t := (s t)(i := v))) (cache(cache_key t i \<mapsto> (v, e)))"
  using assms unfolding coherent_def by (auto simp: cache_key_inj)

lemma coherent_enter_same: "coherent s cache \<Longrightarrow> dot_free t \<Longrightarrow> s t i = v \<Longrightarrow> coherent s (cache(cache_key t i \<mapsto> (v, e)))"
  using coherent_enter [of s cache t i v e] by (simp add: fun_upd_idem)

lemma coherent_prune: "coherent s (cs_cache c) \<Longrightarrow> coherent s (cs_cache (cs_prune c))"
  unfolding coherent_def by (auto simp: cs_prune_def split: option.splits if_splits)

lemma cs_cache_values_simps:
  "cs_store (cs_cache_values t vs c) = cs_store c"
  "dot_free t \<Longrightarrow> coherent s (cs_cache c) \<Longrightarrow> coherent (apply_values t vs s) (cs_cache (cs_cache_values t vs c))"
proof -
  show "cs_store (cs_cache_values t vs c) = cs_store c"
    by (induction vs arbitrary: c) (auto simp: cs_cache_values_def)
  show "coherent (apply_values t vs s) (cs_cache (cs_cache_values t vs c))"
    if "dot_free t" "coherent s (cs_cache c)"
    using that(2)
  proof (induction vs arbitrary: c s)
    case (Cons iv vs)
    obtain i v where iv: "iv = (i, v)" by (cases iv)
    let ?c = "c\<lparr>cs_cache := (cs_cache c)(cache_key t i \<mapsto> (v, cs_now c + cs_ttl c))\<rparr>"
    have "coherent (s(t := (s t)(i := v))) (cs_cache ?c)"
      using coherent_enter [OF Cons.prems that(1)] by simp
    from Cons.IH [OF this] show ?case by (simp add: iv cs_cache_values_def del: fun_upd_apply)
  qed (simp add: cs_cache_values_def)
qed

lemma cs_cache_data_simps:
  "cs_store (cs_cache_data d c) = cs_store c"
  "types_ok dot_free d \<Longrightarrow> coherent s (cs_cache c) \<Longrightarrow> coherent (apply_data d s) (cs_cache (cs_cache_data d c))"
proof -
  show "cs_store (cs_cache_data d c) = cs_store c"
    by (induction d arbitrary: c) (auto simp: cs_cache_data_def cs_cache_values_simps)
  show "coherent (apply_data d s) (cs_cache (cs_cache_data d c))"
    if "types_ok dot_free d" "coherent s (cs_cache c)"
    using that
  proof (induction d arbitrary: c s)
    case (Cons tv d)
    obtain t vs where tv: "tv = (t, vs)" by (cases tv)
    have "coherent (apply_values t vs s) (cs_cache (cs_cache_values t vs c))"
      using Cons.prems tv by (intro cs_cache_values_simps) simp_all
    from Cons.IH [OF _ this] Cons.prems(1) show ?case by (simp add: tv cs_cache_data_def)
  qed (simp add: cs_cache_data_def)
qed

text \<open>Entering what the store returned.\<close>

lemma cs_get_enter_result:
  assumes "dot_free t" and "\<And>i. i \<in> set missing \<Longrightarrow> fetched i = s t i" and "coherent s (cs_cache c)"
  shows "coherent s (cs_cache (snd (cs_get_enter t missing fetched r c))) \<and>
    cs_store (snd (cs_get_enter t missing fetched r c)) = cs_store c \<and>
    (\<forall>i. fst (cs_get_enter t missing fetched r c) i =
          (if i \<in> set missing \<and> fetched i \<noteq> None then fetched i else r i))"
  using assms(2,3)
proof (induction missing arbitrary: r c)
  case (Cons j missing)
  show ?case
  proof (cases "fetched j")
    case None
    then have "cs_get_enter t (j # missing) fetched r c = cs_get_enter t missing fetched r c"
      by (simp add: cs_get_enter_def)
    with Cons None show ?thesis by auto
  next
    case (Some v)
    let ?c = "c\<lparr>cs_cache := (cs_cache c)(cache_key t j \<mapsto> (Some v, cs_now c + cs_ttl c))\<rparr>"
    have e: "cs_get_enter t (j # missing) fetched r c = cs_get_enter t missing fetched (r(j \<mapsto> v)) ?c"
      using Some by (simp add: cs_get_enter_def)
    have "s t j = Some v" using Cons.prems(1) [of j] Some by simp
    then have "coherent s (cs_cache ?c)" using Cons.prems(2) assms(1) by (simp add: coherent_enter_same)
    from Cons.IH [OF _ this, of "r(j \<mapsto> v)"] Cons.prems(1)
    have "coherent s (cs_cache (snd (cs_get_enter t missing fetched (r(j \<mapsto> v)) ?c)))"
      "cs_store (snd (cs_get_enter t missing fetched (r(j \<mapsto> v)) ?c)) = cs_store ?c"
      "\<And>i. fst (cs_get_enter t missing fetched (r(j \<mapsto> v)) ?c) i =
         (if i \<in> set missing \<and> fetched i \<noteq> None then fetched i else (r(j \<mapsto> v)) i)"
      by (simp_all del: fun_upd_apply)
    then show ?thesis unfolding e using Some by auto
  qed
qed (simp add: cs_get_enter_def)


section \<open>The caching store keeps the contract\<close>

context signal_key_store
begin

definition cs_inv :: "('v, 's) cacheable \<Rightarrow> bool" where
  "cs_inv c \<longleftrightarrow> inv (cs_store c) \<and> coherent (contents (cs_store c)) (cs_cache c)"

lemma cs_get_ok:
  assumes "cs_inv c" and "dot_free t" and "ok t"
  shows "cs_inv (snd (cs_get get t ids c)) \<and>
    contents (cs_store (snd (cs_get get t ids c))) = contents (cs_store c) \<and>
    fst (cs_get get t ids c) i = (if i \<in> set ids then contents (cs_store c) t i else None)"
proof -
  let ?s = "contents (cs_store c)" and ?p = "cs_prune c"
  let ?hit = "\<lambda>i. cs_cache ?p (cache_key t i)"
  define result where "result = (\<lambda>i. if i \<in> set ids then (case ?hit i of Some (v, _) \<Rightarrow> v | None \<Rightarrow> None) else None)"
  define missing where "missing = filter (\<lambda>i. ?hit i = None) ids"
  have p: "inv (cs_store ?p)" "coherent ?s (cs_cache ?p)" "cs_store ?p = cs_store c"
    using assms(1) coherent_prune by (auto simp: cs_inv_def cs_prune_def)
  have hit: "result i = ?s t i" if "i \<in> set ids" "i \<notin> set missing" for i
    using that coherentD [OF p(2) assms(2)] by (auto simp: result_def missing_def split: option.splits)
  have c: "cs_get_cached t ids c = ((result, missing), ?p)"
    by (simp add: cs_get_cached_def result_def missing_def Let_def)
  show ?thesis
  proof (cases "missing = []")
    case True
    then have "cs_get get t ids c = (result, ?p)" by (simp add: cs_get_def c)
    with p hit True show ?thesis by (auto simp: cs_inv_def result_def)
  next
    case False
    obtain fetched s' where g: "get t missing (cs_store c) = (fetched, s')" by (cases "get t missing (cs_store c)")
    have i: "inv (cs_store c)" using p by simp
    have f: "\<And>i. i \<in> set missing \<Longrightarrow> fetched i = ?s t i" "inv s'" "contents s' = ?s"
      using get_value [OF i assms(3), of _ missing] get_inv [OF i assms(3), of missing]
        get_contents [OF i assms(3), of missing] g by simp_all
    have r: "cs_get get t ids c = cs_get_enter t missing fetched result (?p\<lparr>cs_store := s'\<rparr>)"
      using False by (simp add: cs_get_def c g p(3))
    have "coherent ?s (cs_cache (?p\<lparr>cs_store := s'\<rparr>))" using p by simp
    from cs_get_enter_result [OF assms(2) f(1) this, of missing]
    have e: "coherent ?s (cs_cache (snd (cs_get get t ids c)))" "cs_store (snd (cs_get get t ids c)) = s'"
      "fst (cs_get get t ids c) i = (if i \<in> set missing \<and> fetched i \<noteq> None then fetched i else result i)"
      unfolding r by simp_all
    have "fst (cs_get get t ids c) i = (if i \<in> set ids then ?s t i else None)"
    proof (cases "i \<in> set missing")
      case True
      then have "result i = None" "i \<in> set ids" by (simp_all add: missing_def result_def)
      with True e(3) f(1) [OF True] show ?thesis by (cases "fetched i") simp_all
    next
      case False
      moreover have "i \<notin> set ids \<Longrightarrow> result i = None" by (simp add: result_def)
      ultimately show ?thesis using e(3) hit [of i] by auto
    qed
    with e(1,2) f(2,3) show ?thesis by (simp add: cs_inv_def)
  qed
qed

lemma cs_put_ok:
  assumes "cs_inv c" and "types_ok ok d" and "types_ok dot_free d"
  shows "cs_inv (cs_set put d c) \<and> contents (cs_store (cs_set put d c)) = apply_data d (contents (cs_store c))"
  using assms put_inv [of "cs_store c" d] put_contents [of "cs_store c" d]
  by (simp add: cs_inv_def cs_set_def cs_cache_data_simps Let_def)

lemma cs_is_store:
  "signal_key_store (\<lambda>t. ok t \<and> dot_free t) (\<lambda>c. contents (cs_store c)) cs_inv (cs_get get) (cs_set put)"
proof unfold_locales
  fix d :: "'v data_set" assume t: "types_ok (\<lambda>t. ok t \<and> dot_free t) d"
  then have "types_ok ok d" "types_ok dot_free d" by (auto simp: types_ok_def list_all_iff)
  then show "cs_inv (cs_set put d c)" "contents (cs_store (cs_set put d c)) = apply_data d (contents (cs_store c))"
    if "cs_inv c" for c using cs_put_ok that by blast+
qed (auto simp: cs_get_ok)

end

text \<open>The cache over the in-memory store, as the program builds it.\<close>

interpretation cached: signal_key_store "\<lambda>t. True \<and> dot_free t" "\<lambda>c. cs_store c" ims.cs_inv "cs_get ims_get" "cs_set ims_set"
  by (rule ims.cs_is_store)


section \<open>What a client of the cache sees\<close>

datatype 'v store_op = Get string "string list" | Put "'v data_set" | Clock int

fun op_ok :: "'v store_op \<Rightarrow> bool" where
  "op_ok (Get t ids) = dot_free t"
| "op_ok (Put d) = types_ok dot_free d"
| "op_ok (Clock n) = True"

fun run_plain :: "'v store_op list \<Rightarrow> 'v store \<Rightarrow> 'v lookup list" where
  "run_plain [] s = []"
| "run_plain (Get t ids # ops) s = (let (r, s) = ims_get t ids s in r # run_plain ops s)"
| "run_plain (Put d # ops) s = run_plain ops (ims_set d s)"
| "run_plain (Clock n # ops) s = run_plain ops s"

fun run_cached :: "'v store_op list \<Rightarrow> ('v, 'v store) cacheable \<Rightarrow> 'v lookup list" where
  "run_cached [] c = []"
| "run_cached (Get t ids # ops) c = (let (r, c) = cs_get ims_get t ids c in r # run_cached ops c)"
| "run_cached (Put d # ops) c = run_cached ops (cs_set ims_set d c)"
| "run_cached (Clock n # ops) c = run_cached ops (c\<lparr>cs_now := n\<rparr>)"

definition fresh_cache :: "int \<Rightarrow> 's \<Rightarrow> ('v, 's) cacheable" where
  "fresh_cache ttl s = \<lparr>cs_cache = Map.empty, cs_store = s, cs_now = 0, cs_ttl = ttl\<rparr>"

lemma run_cached_plain:
  "list_all op_ok ops \<Longrightarrow> ims.cs_inv c \<Longrightarrow> run_cached ops c = run_plain ops (cs_store c)"
proof (induction ops arbitrary: c)
  case (Cons x ops)
  show ?case
  proof (cases x)
    case (Get t ids)
    obtain r c' where g: "cs_get ims_get t ids c = (r, c')" by (cases "cs_get ims_get t ids c")
    have t: "True \<and> dot_free t" using Cons.prems(1) Get by simp
    have "r i = fst (ims_get t ids (cs_store c)) i" for i
      using cached.get_value [OF Cons.prems(2) t, of i ids] cached.get_outside [OF Cons.prems(2) t, of i ids] g
      by (cases "i \<in> set ids") (simp_all add: ims_get_def)
    then have r: "r = fst (ims_get t ids (cs_store c))" by (rule ext)
    have "ims.cs_inv c'" "cs_store c' = cs_store c"
      using cached.get_inv [OF Cons.prems(2) t, of ids] cached.get_contents [OF Cons.prems(2) t, of ids] g by simp_all
    with Cons g r Get show ?thesis by (simp add: ims_get_def)
  next
    case (Put d)
    then have "types_ok (\<lambda>t. True \<and> dot_free t) d" using Cons.prems(1) by simp
    with cached.put_inv [OF Cons.prems(2) this] cached.put_contents [OF Cons.prems(2) this] Cons Put
    show ?thesis by (simp add: ims_set_apply)
  next
    case (Clock n)
    then show ?thesis using Cons by (simp add: ims.cs_inv_def)
  qed
qed simp

text \<open>
  C15. A client cannot tell the caching store from the store below it: every sequence of reads and
  writes, at whatever times, returns the same values, expired and deleted entries included.
\<close>

theorem cache_transparent:
  assumes "list_all op_ok ops"
  shows "run_cached ops (fresh_cache ttl s) = run_plain ops s"
  using run_cached_plain [OF assms, of "fresh_cache ttl s"]
  by (simp add: fresh_cache_def ims.cs_inv_def coherent_def)

theorem cache_transparent_witness:
  "run_cached [Get ''session'' [''a''], Put [(''session'', [(''a'', None)])], Get ''session'' [''a'']]
     (fresh_cache 300 (\<lambda>_. [''a'' \<mapsto> (5 :: int)])) =
   run_plain [Get ''session'' [''a''], Put [(''session'', [(''a'', None)])], Get ''session'' [''a'']]
     (\<lambda>_. [''a'' \<mapsto> 5])"
  by (rule cache_transparent) (simp add: dot_free_def)

text \<open>
  The cache is transparent only while \<open>get\<close> is not interrupted. It gives up its lock to ask the
  store: a write that runs in between reaches the store, but the reader then enters the old value,
  and the cache serves it until it expires.
\<close>

theorem stale_cache_race:
  assumes "dot_free t" and "s t i = Some old" and "0 < ttl"
  shows "let c0 = fresh_cache ttl s;
             (found, c1) = cs_get_cached t [i] c0;
             (fetched, _) = ims_get t (snd found) (cs_store c1);
             c2 = cs_set ims_set [(t, [(i, Some new)])] c1;
             (_, c3) = cs_get_enter t (snd found) fetched (fst found) c2
         in cs_store c3 t i = Some new \<and> fst (cs_get ims_get t [i] c3) i = Some old"
  using assms
  by (simp add: fresh_cache_def cs_get_cached_def cs_prune_def ims_get_def cs_set_def cs_cache_data_def
      cs_cache_values_def cs_get_enter_def cs_get_def ims_set_apply Let_def)

theorem stale_cache_race_witness:
  "let c0 = fresh_cache 300 (\<lambda>_. [''5.0'' \<mapsto> (1 :: int)]);
       (found, c1) = cs_get_cached ''session'' [''5.0''] c0;
       (fetched, _) = ims_get ''session'' (snd found) (cs_store c1);
       c2 = cs_set ims_set [(''session'', [(''5.0'', Some 2)])] c1;
       (_, c3) = cs_get_enter ''session'' (snd found) fetched (fst found) c2
   in cs_store c3 ''session'' ''5.0'' = Some 2 \<and> fst (cs_get ims_get ''session'' [''5.0''] c3) ''5.0'' = Some 1"
  by (rule stale_cache_race) (simp_all add: dot_free_def)

section \<open>The store on files\<close>

text \<open>A directory maps file names to what \<open>json\<close> reads back from them.\<close>

type_synonym 'v folder = "string \<Rightarrow> 'v option"

definition fix_file_name :: "string \<Rightarrow> string" where
  "fix_file_name n = concat (map (\<lambda>c. if c = CHR ''/'' then ''__'' else if c = CHR '':'' then ''-'' else [c]) n)"

definition key_file :: "string \<Rightarrow> string \<Rightarrow> string" where
  "key_file key_type item_id = fix_file_name (key_type @ CHR ''-'' # item_id @ ''.json'')"

definition mf_get :: "string \<Rightarrow> string list \<Rightarrow> 'v folder \<Rightarrow> 'v lookup \<times> 'v folder" where
  "mf_get key_type ids f = ((\<lambda>i. if i \<in> set ids then f (key_file key_type i) else None), f)"

definition mf_set :: "'v data_set \<Rightarrow> 'v folder \<Rightarrow> 'v folder" where
  "mf_set data f = foldl (\<lambda>f (t, values). foldl (\<lambda>f (i, v). f(key_file t i := v)) f values) f data"

text \<open>
  The store on files is not a map from keys: two keys share a file exactly when their file names
  are equal, and then a write to one is read back under the other.
\<close>

theorem file_store_aliasing:
  "fst (mf_get t' [i'] (mf_set [(t, [(i, Some v)])] f)) i' =
     (if key_file t' i' = key_file t i then Some v else f (key_file t' i'))"
  by (simp add: mf_get_def mf_set_def)

lemma key_file_collisions:
  "key_file ''sender-key'' ''memory-5@g.us'' = key_file ''sender-key-memory'' ''5@g.us''"
  "key_file ''session'' ''a:b'' = key_file ''session'' ''a-b''"
  by (simp_all add: key_file_def fix_file_name_def)

end
