(* ===== verification/Transaction.thy ===== *)
theory Transaction
  imports Key_Store
begin

text \<open>
  Transactions over a key store: \<open>add_transaction_capability\<close> of
  \<^verbatim>\<open>utils/auth_utils.py\<close> and \<^verbatim>\<open>utils/pre_key_manager.py\<close>. The
  transactional store is built over any store (\<open>get\<close> and \<open>put\<close> are arguments); a transaction
  body is a program of reads and writes. The lemmas are proved once for every store that keeps the
  contract \<open>signal_key_store\<close>. The locks of the code order transactions of one key one after the
  other, and one transaction at a time is what is modelled here.
\<close>

section \<open>Dictionaries of updates\<close>

lemma map_of_dict_update_rev: "map_of (dict_update d vs) = map_of d ++ map_of (rev vs)"
proof (induction vs arbitrary: d)
  case (Cons kv vs)
  obtain k v where "kv = (k, v)" by (cases kv)
  with Cons [of "dict_set k v d"] show ?case by (simp add: dict_update_def map_add_upd_left flip: map_add_assoc) (simp add: map_add_def fun_eq_iff split: option.splits)
qed (simp add: dict_update_def)

lemma apply_values_lookup:
  "apply_values t vs s t' i = (if t' = t then (case map_of (rev vs) i of Some v \<Rightarrow> v | None \<Rightarrow> s t i) else s t' i)"
proof (induction vs arbitrary: s)
  case (Cons iv vs)
  obtain j v where "iv = (j, v)" by (cases iv)
  then show ?case
    by (simp only: apply_data_simps Cons.IH) (auto simp: map_add_def split: option.splits)
qed simp

definition data_wf :: "'v data_set \<Rightarrow> bool" where
  "data_wf m \<longleftrightarrow> dict_wf m \<and> (\<forall>p\<in>set m. dict_wf (snd p))"

lemma apply_data_lookup:
  "dict_wf m \<Longrightarrow> apply_data m s t i =
     (case map_of m t of None \<Rightarrow> s t i | Some vs \<Rightarrow> (case map_of (rev vs) i of Some v \<Rightarrow> v | None \<Rightarrow> s t i))"
proof (induction m arbitrary: s)
  case (Cons tv m)
  obtain t' vs where tv: "tv = (t', vs)" by (cases tv)
  with Cons.prems have "dict_wf m" "t' = t \<Longrightarrow> map_of m t = None"
    by (auto simp: dict_wf_def map_of_eq_None_iff)
  then show ?case
    by (simp only: tv apply_data_simps Cons.IH) (auto simp: apply_values_lookup split: option.splits)
qed simp

definition mutate :: "string \<Rightarrow> (string, 'v option) dict \<Rightarrow> 'v data_set \<Rightarrow> 'v data_set" where
  "mutate t vs m = dict_set t (dict_update (case map_of m t of Some d \<Rightarrow> d | None \<Rightarrow> []) vs) m"

lemma map_of_rev_wf: "dict_wf d \<Longrightarrow> map_of (rev d) = map_of d"
  by (simp add: dict_wf_def map_of_inject_set rev_map [symmetric])

lemma dict_set_values: "(\<forall>p\<in>set m. P (snd p)) \<Longrightarrow> P v \<Longrightarrow> \<forall>p\<in>set (dict_set k v m). P (snd p)"
  by (induction k v m rule: dict_set.induct) simp_all

lemma mutate_wf:
  assumes "data_wf m"
  shows "data_wf (mutate t vs m)"
proof -
  have m: "dict_wf m" "\<forall>p\<in>set m. dict_wf (snd p)" using assms by (simp_all add: data_wf_def)
  have "dict_wf (case map_of m t of Some d \<Rightarrow> d | None \<Rightarrow> [])"
    using m(2) by (fastforce simp: dict_wf_def split: option.splits dest: map_of_SomeD)
  then have "\<forall>p\<in>set (mutate t vs m). dict_wf (snd p)"
    unfolding mutate_def using m(2) by (intro dict_set_values dict_wf_update)
  with m(1) show ?thesis by (simp add: data_wf_def mutate_def)
qed

lemma apply_mutate:
  assumes "data_wf m"
  shows "apply_data (mutate t vs m) s = apply_values t vs (apply_data m s)"
proof (intro ext)
  fix t' i
  let ?d = "case map_of m t of Some d \<Rightarrow> d | None \<Rightarrow> []"
  have d: "dict_wf ?d" using assms by (auto simp: data_wf_def dict_wf_def split: option.splits dest: map_of_SomeD)
  have m: "dict_wf m" "dict_wf (mutate t vs m)" using assms mutate_wf [OF assms, of t vs] by (simp_all add: data_wf_def)
  have "map_of (rev (dict_update ?d vs)) = map_of (rev ?d) ++ map_of (rev vs)"
    using d by (simp add: map_of_rev_wf map_of_dict_update_rev)
  then show "apply_data (mutate t vs m) s t' i = apply_values t vs (apply_data m s) t' i"
    using m by (auto simp: apply_data_lookup apply_values_lookup mutate_def map_add_def split: option.splits)
qed

section \<open>PreKeyManager\<close>

definition PRE_KEY :: string where
  "PRE_KEY = ''pre-key''"

definition deletions :: "(string, 'v option) dict \<Rightarrow> string list" where
  "deletions values = map fst (filter (\<lambda>(_, v). v = None) values)"

definition updates :: "(string, 'v option) dict \<Rightarrow> (string, 'v option) dict" where
  "updates values = filter (\<lambda>(_, v). v \<noteq> None) values"

text \<open>Outside a transaction a deletion of a key the store does not have is dropped.\<close>

definition validate_deletions ::
    "(string \<Rightarrow> string list \<Rightarrow> 's \<Rightarrow> 'v lookup \<times> 's) \<Rightarrow> string \<Rightarrow> (string, 'v option) dict \<Rightarrow> 's \<Rightarrow>
     (string, 'v option) dict \<times> 's" where
  "validate_deletions get key_type values s =
     (if deletions values = [] then (values, s)
      else let (existing, s') = get key_type (deletions values) s
           in (filter (\<lambda>(i, v). v \<noteq> None \<or> existing i \<noteq> None) values, s'))"

type_synonym 'v tx_cache = "string \<Rightarrow> string \<Rightarrow> 'v option option"

definition cache_update :: "string \<Rightarrow> (string, 'v option) dict \<Rightarrow> 'v tx_cache \<Rightarrow> 'v tx_cache" where
  "cache_update t vs cache = foldl (\<lambda>c (i, v). c(t := (c t)(i \<mapsto> v))) cache vs"

fun process_deletions :: "string \<Rightarrow> string list \<Rightarrow> 'v tx_cache \<times> 'v data_set \<Rightarrow> 'v tx_cache \<times> 'v data_set" where
  "process_deletions t [] cm = cm"
| "process_deletions t (i # ids) (cache, m) =
     (case cache t i of
        Some (Some _) \<Rightarrow> process_deletions t ids (cache_update t [(i, None)] cache, mutate t [(i, None)] m)
      | _ \<Rightarrow> process_deletions t ids (cache, m))"

text \<open>\<open>process_operations\<close> as the transaction calls it, with \<open>is_in_transaction\<close> true.\<close>

definition process_operations ::
    "string \<Rightarrow> (string, 'v option) dict \<Rightarrow> 'v tx_cache \<times> 'v data_set \<Rightarrow> 'v tx_cache \<times> 'v data_set" where
  "process_operations t values cm =
     (if values = [] then cm
      else let (cache, m) = cm
           in process_deletions t (deletions values) (cache_update t (updates values) cache, mutate t (updates values) m))"

section \<open>The transactional store\<close>

record 'v tx_ctx =
  tx_cache :: "'v tx_cache"
  tx_mutations :: "'v data_set"
  tx_db_queries :: nat

record ('v, 's) tx_state =
  tx_store :: 's
  tx_context :: "'v tx_ctx option"

definition new_ctx :: "'v tx_ctx" where
  "new_ctx = \<lparr>tx_cache = (\<lambda>_. Map.empty), tx_mutations = [], tx_db_queries = 0\<rparr>"

definition cache_fetched :: "string \<Rightarrow> string list \<Rightarrow> 'v lookup \<Rightarrow> 'v tx_cache \<Rightarrow> 'v tx_cache" where
  "cache_fetched t missing fetched cache =
     cache(t := (\<lambda>i. if i \<in> set missing \<and> fetched i \<noteq> None then Some (fetched i) else cache t i))"

definition tx_get ::
    "(string \<Rightarrow> string list \<Rightarrow> 's \<Rightarrow> 'v lookup \<times> 's) \<Rightarrow> string \<Rightarrow> string list \<Rightarrow> ('v, 's) tx_state \<Rightarrow>
     'v lookup \<times> ('v, 's) tx_state" where
  "tx_get get key_type ids st =
     (case tx_context st of
        None \<Rightarrow> let (r, s') = get key_type ids (tx_store st) in (r, st\<lparr>tx_store := s'\<rparr>)
      | Some ctx \<Rightarrow>
          let missing = filter (\<lambda>i. tx_cache ctx key_type i = None) ids;
              (ctx', s') = (if missing = [] then (ctx, tx_store st)
                else let (fetched, s') = get key_type missing (tx_store st)
                     in (ctx\<lparr>tx_cache := cache_fetched key_type missing fetched (tx_cache ctx),
                             tx_db_queries := tx_db_queries ctx + 1\<rparr>, s'))
          in ((\<lambda>i. if i \<in> set ids then (case tx_cache ctx' key_type i of Some v \<Rightarrow> v | None \<Rightarrow> None) else None),
              st\<lparr>tx_store := s', tx_context := Some ctx'\<rparr>))"

fun normalize ::
    "(string \<Rightarrow> string list \<Rightarrow> 's \<Rightarrow> 'v lookup \<times> 's) \<Rightarrow> 'v data_set \<Rightarrow> 's \<Rightarrow> 'v data_set \<times> 's" where
  "normalize get [] s = ([], s)"
| "normalize get ((t, values) # data) s =
     (let (values', s1) = (if t = PRE_KEY then validate_deletions get PRE_KEY values s else (values, s));
          (rest, s2) = normalize get data s1
      in (if values' = [] then rest else (t, values') # rest, s2))"

fun stage :: "'v data_set \<Rightarrow> 'v tx_cache \<times> 'v data_set \<Rightarrow> 'v tx_cache \<times> 'v data_set" where
  "stage [] cm = cm"
| "stage ((t, values) # data) (cache, m) =
     (if t = PRE_KEY then stage data (process_operations t values (cache, mutate t [] m))
      else stage data (cache_update t values cache, mutate t values m))"

text \<open>Outside a transaction each key type is written to the store on its own.\<close>

definition tx_set ::
    "(string \<Rightarrow> string list \<Rightarrow> 's \<Rightarrow> 'v lookup \<times> 's) \<Rightarrow> ('v data_set \<Rightarrow> 's \<Rightarrow> 's) \<Rightarrow> 'v data_set \<Rightarrow>
     ('v, 's) tx_state \<Rightarrow> ('v, 's) tx_state" where
  "tx_set get put data st =
     (case tx_context st of
        None \<Rightarrow> let (normalized, s) = normalize get data (tx_store st)
                in st\<lparr>tx_store := foldl (\<lambda>s tv. put [tv] s) s normalized\<rparr>
      | Some ctx \<Rightarrow> let (cache, m) = stage data (tx_cache ctx, tx_mutations ctx)
                    in st\<lparr>tx_context := Some (ctx\<lparr>tx_cache := cache, tx_mutations := m\<rparr>)\<rparr>)"

section \<open>Transactions\<close>

text \<open>The body of a transaction: it returns, raises, reads or writes.\<close>

datatype ('v, 'a) prog =
    Return 'a
  | Raise exn
  | Read string "string list" "'v lookup \<Rightarrow> ('v, 'a) prog"
  | Write "'v data_set" "('v, 'a) prog"

primrec run ::
    "(string \<Rightarrow> string list \<Rightarrow> 's \<Rightarrow> 'v lookup \<times> 's) \<Rightarrow> ('v data_set \<Rightarrow> 's \<Rightarrow> 's) \<Rightarrow> ('v, 'a) prog \<Rightarrow>
     ('v, 's) tx_state \<Rightarrow> 'a result \<times> ('v, 's) tx_state" where
  "run get put (Return a) st = (Inr a, st)"
| "run get put (Raise e) st = (Inl e, st)"
| "run get put (Read t ids k) st = (case tx_get get t ids st of (r, st') \<Rightarrow> run get put (k r) st')"
| "run get put (Write d p) st = run get put p (tx_set get put d st)"

text \<open>
  The commit loop, where the first \<open>fails\<close> attempts raise in the store: it retries up to
  \<open>max_commit_retries\<close> times in all.
\<close>

function commit_loop :: "('v data_set \<Rightarrow> 's \<Rightarrow> 's) \<Rightarrow> nat \<Rightarrow> nat \<Rightarrow> nat \<Rightarrow> 'v data_set \<Rightarrow> 's \<Rightarrow> unit result \<times> 's" where
  "commit_loop put max_commit_retries fails attempt mutations s =
     (if attempt < max_commit_retries then
        (if attempt < fails then
           (if attempt = max_commit_retries - 1 then (Inl ExternalError, s)
            else commit_loop put max_commit_retries fails (attempt + 1) mutations s)
         else (Inr (), put mutations s))
      else (Inr (), s))"
  by auto
termination by (relation "measure (\<lambda>(_, max_commit_retries, _, attempt, _, _). max_commit_retries - attempt)") auto

declare commit_loop.simps [simp del]

definition transaction ::
    "(string \<Rightarrow> string list \<Rightarrow> 's \<Rightarrow> 'v lookup \<times> 's) \<Rightarrow> ('v data_set \<Rightarrow> 's \<Rightarrow> 's) \<Rightarrow> nat \<Rightarrow> nat \<Rightarrow>
     ('v, 'a) prog \<Rightarrow> ('v, 's) tx_state \<Rightarrow> 'a result \<times> ('v, 's) tx_state" where
  "transaction get put max_commit_retries fails body st =
     (case tx_context st of
        Some _ \<Rightarrow> run get put body st
      | None \<Rightarrow>
          (case run get put body (st\<lparr>tx_context := Some new_ctx\<rparr>) of
             (Inl e, st') \<Rightarrow> (Inl e, st'\<lparr>tx_context := None\<rparr>)
           | (Inr a, st') \<Rightarrow>
               let m = (case tx_context st' of Some ctx \<Rightarrow> tx_mutations ctx | None \<Rightarrow> [])
               in if m = [] then (Inr a, st'\<lparr>tx_context := None\<rparr>)
                  else case commit_loop put max_commit_retries fails 0 m (tx_store st') of
                         (Inl e, s') \<Rightarrow> (Inl e, st'\<lparr>tx_store := s', tx_context := None\<rparr>)
                       | (Inr _, s') \<Rightarrow> (Inr a, st'\<lparr>tx_store := s', tx_context := None\<rparr>)))"


section \<open>What a transaction sees\<close>

text \<open>
  The value of a key inside a transaction: what it has cached, else what the store has. The staged
  mutations, applied to the store, give the same.
\<close>

definition effective :: "'v store \<Rightarrow> 'v tx_cache \<Rightarrow> 'v store" where
  "effective s cache t i = (case cache t i of Some v \<Rightarrow> v | None \<Rightarrow> s t i)"

definition staged :: "'v store \<Rightarrow> 'v tx_cache \<times> 'v data_set \<Rightarrow> bool" where
  "staged s cm \<longleftrightarrow> data_wf (snd cm) \<and> apply_data (snd cm) s = effective s (fst cm)"

lemma staged_new: "staged s (tx_cache new_ctx, tx_mutations new_ctx)"
  by (simp add: staged_def new_ctx_def data_wf_def dict_wf_def effective_def fun_eq_iff)

lemma effective_update: "effective s (cache_update t vs cache) = apply_values t vs (effective s cache)"
proof (induction vs arbitrary: cache)
  case (Cons iv vs)
  obtain i v where iv: "iv = (i, v)" by (cases iv)
  let ?c = "cache(t := (cache t)(i \<mapsto> v))"
  have "effective s (cache_update t (iv # vs) cache) = effective s (cache_update t vs ?c)"
    by (simp add: iv cache_update_def)
  also have "\<dots> = apply_values t vs (effective s ?c)" by (rule Cons.IH)
  also have "effective s ?c = (effective s cache)(t := (effective s cache t)(i := v))"
    by (auto simp: effective_def fun_eq_iff)
  finally show ?case by (simp only: iv apply_data_simps)
qed (simp add: cache_update_def)

lemma staged_update: "staged s (cache, m) \<Longrightarrow> staged s (cache_update t vs cache, mutate t vs m)"
  by (simp add: staged_def mutate_wf apply_mutate effective_update)

lemma staged_mutate_empty: "staged s (cache, m) \<Longrightarrow> staged s (cache, mutate t [] m)"
  by (simp add: staged_def mutate_wf apply_mutate)

lemma staged_process_deletions: "staged s cm \<Longrightarrow> staged s (process_deletions t ids cm)"
proof (induction t ids cm rule: process_deletions.induct)
  case (2 t i ids cache m)
  then show ?case by (auto simp: staged_update split: option.splits)
qed simp

lemma staged_process: "staged s cm \<Longrightarrow> staged s (process_operations t vs cm)"
  by (auto simp: process_operations_def staged_update staged_process_deletions split: prod.splits)

lemma staged_stage: "staged s cm \<Longrightarrow> staged s (stage data cm)"
  by (induction data cm rule: stage.induct)
    (auto simp: staged_update staged_process staged_mutate_empty)

lemma effective_fetched:
  assumes "\<And>i. i \<in> set missing \<Longrightarrow> fetched i = s t i \<and> cache t i = None"
  shows "effective s (cache_fetched t missing fetched cache) = effective s cache"
proof (intro ext)
  fix t' i
  show "effective s (cache_fetched t missing fetched cache) t' i = effective s cache t' i"
    using assms [of i] by (auto simp: effective_def cache_fetched_def split: option.splits)
qed

text \<open>Key types without special treatment: no pre-key is deleted.\<close>

definition no_pre_key_deletion :: "'v data_set \<Rightarrow> bool" where
  "no_pre_key_deletion data \<longleftrightarrow> list_all (\<lambda>(t, vs). t = PRE_KEY \<longrightarrow> deletions vs = []) data"

primrec plain_prog :: "(string \<Rightarrow> bool) \<Rightarrow> ('v, 'a) prog \<Rightarrow> bool" where
  "plain_prog ok (Return a) = True"
| "plain_prog ok (Raise e) = True"
| "plain_prog ok (Read t ids k) = (ok t \<and> (\<forall>r. plain_prog ok (k r)))"
| "plain_prog ok (Write d p) = (types_ok ok d \<and> no_pre_key_deletion d \<and> plain_prog ok p)"

primrec typed_prog :: "(string \<Rightarrow> bool) \<Rightarrow> ('v, 'a) prog \<Rightarrow> bool" where
  "typed_prog ok (Return a) = True"
| "typed_prog ok (Raise e) = True"
| "typed_prog ok (Read t ids k) = (ok t \<and> (\<forall>r. typed_prog ok (k r)))"
| "typed_prog ok (Write d p) = (types_ok ok d \<and> typed_prog ok p)"

lemma plain_typed: "plain_prog ok p \<Longrightarrow> typed_prog ok p"
  by (induction p) auto

lemma no_deletions_updates: "deletions vs = [] \<Longrightarrow> updates vs = vs"
  by (induction vs) (auto simp: deletions_def updates_def split: if_splits)

lemma effective_stage:
  "no_pre_key_deletion data \<Longrightarrow> effective s (fst (stage data cm)) = apply_data data (effective s (fst cm))"
proof (induction data cm rule: stage.induct)
  case (2 t vals data cache m)
  then have n: "no_pre_key_deletion data" "t = PRE_KEY \<Longrightarrow> deletions vals = []"
    by (simp_all add: no_pre_key_deletion_def)
  have p: "fst (process_operations t vals (cache, mutate t [] m)) = cache_update t vals cache" if "t = PRE_KEY"
    using n(2) [OF that] no_deletions_updates [of vals]
    by (simp add: process_operations_def cache_update_def Let_def)
  show ?case
    using 2 n p by (auto simp: effective_update)
qed simp

lemma normalize_plain:
  "no_pre_key_deletion data \<Longrightarrow> normalize get data s = (filter (\<lambda>(_, vs). vs \<noteq> []) data, s)"
  by (induction "get" data s rule: normalize.induct)
    (auto simp: no_pre_key_deletion_def validate_deletions_def Let_def)

lemma apply_data_filter: "apply_data (filter (\<lambda>(_, vs). vs \<noteq> []) data) s = apply_data data s"
  by (induction data arbitrary: s) auto


section \<open>Commit\<close>

lemma commit_loop_attempt:
  "attempt < max_retries \<Longrightarrow> commit_loop put max_retries fails attempt m s =
     (if fails < max_retries then (Inr (), put m s) else (Inl ExternalError, s))"
proof (induction "max_retries - attempt" arbitrary: attempt)
  case (Suc n)
  show ?case
  proof (cases "attempt + 1 < max_retries")
    case True
    then have "commit_loop put max_retries fails (attempt + 1) m s =
      (if fails < max_retries then (Inr (), put m s) else (Inl ExternalError, s))"
      using Suc.hyps(2) by (intro Suc.hyps(1)) simp_all
    with True show ?thesis
      by (subst commit_loop.simps) (auto simp: not_less)
  next
    case False
    with Suc.prems show ?thesis by (auto simp: commit_loop.simps [of put max_retries fails attempt])
  qed
qed simp
lemma commit_loop_result:
  "commit_loop put max_retries fails 0 m s =
     (if max_retries = 0 then (Inr (), s)
      else if fails < max_retries then (Inr (), put m s) else (Inl ExternalError, s))"
  using commit_loop_attempt [of 0 max_retries put fails m s]
  by (cases "max_retries = 0") (simp_all add: commit_loop.simps [of put 0])

section \<open>Transactions over any store\<close>

context signal_key_store
begin

text \<open>A state inside a transaction, and the store it stands for.\<close>

definition in_tx :: "'v store \<Rightarrow> 'v store \<Rightarrow> ('v, 's) tx_state \<Rightarrow> bool" where
  "in_tx base view st \<longleftrightarrow> inv (tx_store st) \<and> contents (tx_store st) = base \<and>
     (\<exists>ctx. tx_context st = Some ctx \<and> staged base (tx_cache ctx, tx_mutations ctx) \<and>
            effective base (tx_cache ctx) = view)"

definition direct :: "'v store \<Rightarrow> ('v, 's) tx_state \<Rightarrow> bool" where
  "direct view st \<longleftrightarrow> inv (tx_store st) \<and> contents (tx_store st) = view \<and> tx_context st = None"

abbreviation seen :: "'v store \<Rightarrow> string \<Rightarrow> string list \<Rightarrow> 'v lookup" where
  "seen view t ids \<equiv> (\<lambda>i. if i \<in> set ids then view t i else None)"

lemma get_seen: "inv s \<Longrightarrow> ok t \<Longrightarrow> fst (get t ids s) = seen (contents s) t ids"
  by (rule ext) (simp add: get_value get_outside)

lemma tx_get_in_tx:
  assumes "in_tx base view st" and "ok t"
  shows "fst (tx_get get t ids st) = seen view t ids \<and> in_tx base view (snd (tx_get get t ids st))"
proof -
  obtain ctx where i: "inv (tx_store st)" "contents (tx_store st) = base" and c: "tx_context st = Some ctx"
    "staged base (tx_cache ctx, tx_mutations ctx)" "effective base (tx_cache ctx) = view"
    using assms(1) by (auto simp: in_tx_def)
  let ?missing = "filter (\<lambda>i. tx_cache ctx t i = None) ids"
  obtain fetched s' where g: "get t ?missing (tx_store st) = (fetched, s')"
    by (cases "get t ?missing (tx_store st)")
  have f: "fetched = seen base t ?missing" "inv s'" "contents s' = base"
    by (rule get_seen [OF i(1) assms(2), of ?missing, unfolded g fst_conv i(2)]
        get_inv [OF i(1) assms(2), of ?missing, unfolded g snd_conv]
        get_contents [OF i(1) assms(2), of ?missing, unfolded g snd_conv i(2)])+
  show ?thesis
  proof (cases "?missing = []")
    case True
    then have "\<forall>i\<in>set ids. tx_cache ctx t i \<noteq> None" by (simp add: filter_empty_conv)
    then have "(if i \<in> set ids then (case tx_cache ctx t i of Some v \<Rightarrow> v | None \<Rightarrow> None) else None) = seen view t ids i" for i
      using c(3) by (auto simp: effective_def split: option.splits)
    with True assms(1) c i show ?thesis by (simp add: tx_get_def in_tx_def)
  next
    case False
    let ?cache = "cache_fetched t ?missing fetched (tx_cache ctx)"
    let ?ctx = "ctx\<lparr>tx_cache := ?cache, tx_db_queries := tx_db_queries ctx + 1\<rparr>"
    have t: "tx_get get t ids st =
      ((\<lambda>i. if i \<in> set ids then (case ?cache t i of Some v \<Rightarrow> v | None \<Rightarrow> None) else None),
       st\<lparr>tx_store := s', tx_context := Some ?ctx\<rparr>)"
      using False by (simp add: tx_get_def c(1) g Let_def cong: if_cong)
    have e: "effective base ?cache = view"
      by (subst effective_fetched) (auto simp: f(1) c(3))
    have s: "staged base (?cache, tx_mutations ctx)"
      using c(2,3) e by (simp add: staged_def)
    have "(case ?cache t i of Some v \<Rightarrow> v | None \<Rightarrow> None) = view t i" if "i \<in> set ids" for i
      using that e [THEN fun_cong, THEN fun_cong, of t i] f(1)
      by (auto simp: effective_def cache_fetched_def split: option.splits if_splits)
    then show ?thesis using t e s f(2,3) by (auto simp: in_tx_def)
  qed
qed

lemma tx_set_in_tx:
  assumes "in_tx base view st"
  shows "\<exists>view'. in_tx base view' (tx_set get put d st) \<and> (no_pre_key_deletion d \<longrightarrow> view' = apply_data d view)"
proof -
  obtain ctx where c: "inv (tx_store st)" "contents (tx_store st) = base" "tx_context st = Some ctx"
    "staged base (tx_cache ctx, tx_mutations ctx)" "effective base (tx_cache ctx) = view"
    using assms by (auto simp: in_tx_def)
  obtain cache m where s: "stage d (tx_cache ctx, tx_mutations ctx) = (cache, m)"
    by (cases "stage d (tx_cache ctx, tx_mutations ctx)")
  have "staged base (cache, m)" using staged_stage [OF c(4), of d] s by simp
  moreover have "no_pre_key_deletion d \<Longrightarrow> effective base cache = apply_data d view"
    using effective_stage [of d base "(tx_cache ctx, tx_mutations ctx)"] s c(5) by simp
  ultimately show ?thesis using c(1-3) s
    by (intro exI [of _ "effective base cache"]) (simp add: tx_set_def in_tx_def)
qed

lemma put_each:
  "inv s \<Longrightarrow> types_ok ok d \<Longrightarrow> inv (foldl (\<lambda>s tv. put [tv] s) s d) \<and>
   contents (foldl (\<lambda>s tv. put [tv] s) s d) = apply_data d (contents s)"
proof (induction d arbitrary: s)
  case (Cons tv d)
  obtain t vs where tv: "tv = (t, vs)" by (cases tv)
  have o: "types_ok ok [tv]" "types_ok ok d" using Cons.prems(2) tv by simp_all
  from Cons.IH [OF put_inv [OF Cons.prems(1) o(1)] o(2)] put_contents [OF Cons.prems(1) o(1)]
  show ?case by (simp add: tv)
qed simp

lemma tx_set_direct:
  assumes "direct view st" and "types_ok ok d" and "no_pre_key_deletion d"
  shows "direct (apply_data d view) (tx_set get put d st)"
proof -
  let ?d = "filter (\<lambda>(_, vs). vs \<noteq> []) d"
  have "types_ok ok ?d" using assms(2) by (auto simp: types_ok_def list_all_iff)
  then show ?thesis
    using assms put_each [of "tx_store st" ?d]
    by (simp add: direct_def tx_set_def normalize_plain apply_data_filter)
qed

lemma tx_get_direct:
  assumes "direct view st" and "ok t"
  shows "fst (tx_get get t ids st) = seen view t ids \<and> direct view (snd (tx_get get t ids st))"
proof -
  obtain r s' where g: "get t ids (tx_store st) = (r, s')" by (cases "get t ids (tx_store st)")
  have i: "inv (tx_store st)" "contents (tx_store st) = view" "tx_context st = None"
    using assms(1) by (simp_all add: direct_def)
  have "r = seen view t ids" "inv s'" "contents s' = view"
    by (rule get_seen [OF i(1) assms(2), of ids, unfolded g fst_conv i(2)]
        get_inv [OF i(1) assms(2), of ids, unfolded g snd_conv]
        get_contents [OF i(1) assms(2), of ids, unfolded g snd_conv i(2)])+
  with i(3) g show ?thesis by (simp add: direct_def tx_get_def)
qed

lemma run_in_tx:
  "typed_prog ok p \<Longrightarrow> in_tx base view st \<Longrightarrow> \<exists>view'. in_tx base view' (snd (run get put p st))"
proof (induction p arbitrary: view st)
  case (Read t ids k)
  then have t: "ok t" and k: "\<And>r. typed_prog ok (k r)" by simp_all
  obtain r st' where g: "tx_get get t ids st = (r, st')" by (cases "tx_get get t ids st")
  with tx_get_in_tx [OF Read.prems(2) t, of ids] Read.IH [OF _ k, of r view st'] show ?case by simp
next
  case (Write d p)
  obtain view' where "in_tx base view' (tx_set get put d st)" using tx_set_in_tx [OF Write.prems(2)] by blast
  with Write show ?case by simp
qed auto

lemma run_refines:
  "plain_prog ok p \<Longrightarrow> in_tx base view st \<Longrightarrow> direct view st2 \<Longrightarrow>
   fst (run get put p st) = fst (run get put p st2) \<and>
   (\<exists>view'. in_tx base view' (snd (run get put p st)) \<and> direct view' (snd (run get put p st2)))"
proof (induction p arbitrary: view st st2)
  case (Read t ids k)
  then have t: "ok t" and k: "\<And>r. plain_prog ok (k r)" by simp_all
  let ?r = "seen view t ids"
  obtain st' where g: "tx_get get t ids st = (?r, st')" "in_tx base view st'"
    using tx_get_in_tx [OF Read.prems(2) t, of ids] by (metis prod.collapse)
  obtain st2' where g2: "tx_get get t ids st2 = (?r, st2')" "direct view st2'"
    using tx_get_direct [OF Read.prems(3) t, of ids] by (metis prod.collapse)
  show ?case using Read.IH [OF _ k g(2) g2(2), of ?r] g(1) g2(1) by simp
next
  case (Write d p)
  then have d: "types_ok ok d" "no_pre_key_deletion d" "plain_prog ok p" by simp_all
  obtain view' where "in_tx base view' (tx_set get put d st)" "view' = apply_data d view"
    using tx_set_in_tx [OF Write.prems(2), of d] d(2) by blast
  with Write.IH [OF d(3)] tx_set_direct [OF Write.prems(3) d(1,2)] show ?case by simp
qed auto

end


section \<open>Properties of transactions\<close>

context signal_key_store
begin

lemma enter_tx: "direct view st \<Longrightarrow> in_tx view view (st\<lparr>tx_context := Some new_ctx\<rparr>)"
  using staged_new [of view] by (auto simp: direct_def in_tx_def new_ctx_def effective_def fun_eq_iff)

lemma staged_types: "in_tx base view st \<Longrightarrow> \<exists>ctx. tx_context st = Some ctx \<and> apply_data (tx_mutations ctx) base = view"
  by (auto simp: in_tx_def staged_def)

definition tx_types_ok :: "('v, 's) tx_state \<Rightarrow> bool" where
  "tx_types_ok st \<longleftrightarrow> (\<forall>ctx. tx_context st = Some ctx \<longrightarrow> types_ok ok (tx_mutations ctx))"

lemma types_ok_dict_set: "types_ok ok m \<Longrightarrow> ok t \<Longrightarrow> types_ok ok (dict_set t d m)"
  by (induction m) auto

lemma types_ok_mutate: "types_ok ok m \<Longrightarrow> ok t \<Longrightarrow> types_ok ok (mutate t vs m)"
  by (simp add: mutate_def types_ok_dict_set)

lemma types_ok_deletions: "types_ok ok (snd cm) \<Longrightarrow> ok t \<Longrightarrow> types_ok ok (snd (process_deletions t ids cm))"
  by (induction t ids cm rule: process_deletions.induct) (auto simp: types_ok_mutate split: option.splits)

lemma types_ok_stage: "types_ok ok (snd cm) \<Longrightarrow> types_ok ok d \<Longrightarrow> types_ok ok (snd (stage d cm))"
  by (induction d cm rule: stage.induct)
    (auto simp: types_ok_mutate process_operations_def types_ok_deletions)

lemma run_types_ok:
  "typed_prog ok p \<Longrightarrow> tx_types_ok st \<Longrightarrow> tx_context st \<noteq> None \<Longrightarrow> tx_types_ok (snd (run get put p st))"
proof (induction p arbitrary: st)
  case (Read t ids k)
  obtain r st' where g: "tx_get get t ids st = (r, st')" by (cases "tx_get get t ids st")
  with Read.prems have "tx_types_ok st'" "tx_context st' \<noteq> None"
    by (auto simp: tx_get_def tx_types_ok_def Let_def split: option.splits prod.splits if_splits)
  with Read g show ?case by simp
next
  case (Write d p)
  then obtain ctx where c: "tx_context st = Some ctx" "types_ok ok (tx_mutations ctx)"
    by (auto simp: tx_types_ok_def)
  obtain cache m where s: "stage d (tx_cache ctx, tx_mutations ctx) = (cache, m)"
    by (cases "stage d (tx_cache ctx, tx_mutations ctx)")
  have "types_ok ok m" using types_ok_stage [of "(tx_cache ctx, tx_mutations ctx)" d] s c(2) Write.prems(1) by simp
  then have "tx_types_ok (tx_set get put d st)" "tx_context (tx_set get put d st) \<noteq> None"
    by (simp_all add: tx_set_def tx_types_ok_def c(1) s)
  with Write show ?case by simp
qed simp_all

lemma new_tx_types_ok: "tx_types_ok (st\<lparr>tx_context := Some new_ctx\<rparr>)"
  by (simp add: tx_types_ok_def new_ctx_def)

text \<open>How a transaction ends, in terms of the contents of the store.\<close>

lemma transaction_contents:
  assumes "direct base st" and "typed_prog ok p" and "in_tx base view (snd (run get put p (st\<lparr>tx_context := Some new_ctx\<rparr>)))"
  shows "(case transaction get put max_retries fails p st of (r, st') \<Rightarrow>
    tx_context st' = None \<and> inv (tx_store st') \<and>
    (case fst (run get put p (st\<lparr>tx_context := Some new_ctx\<rparr>)) of
       Inl e \<Rightarrow> r = Inl e \<and> contents (tx_store st') = base
     | Inr a \<Rightarrow> (r = Inl ExternalError \<and> contents (tx_store st') = base \<and> 0 < max_retries \<and> max_retries \<le> fails) \<or>
                (r = Inr a \<and> contents (tx_store st') = (if max_retries = 0 then base else view))))"
proof -
  let ?st = "st\<lparr>tx_context := Some new_ctx\<rparr>"
  obtain r st' where run: "run get put p ?st = (r, st')" by (cases "run get put p ?st")
  have "tx_types_ok st'"
    using run_types_ok [OF assms(2) new_tx_types_ok, of st] run by simp
  then obtain ctx where c: "tx_context st' = Some ctx" "apply_data (tx_mutations ctx) base = view"
    "types_ok ok (tx_mutations ctx)" "inv (tx_store st')" "contents (tx_store st') = base"
    using assms(3) run by (auto simp: in_tx_def staged_def tx_types_ok_def)
  have none: "tx_context st = None" using assms(1) by (simp add: direct_def)
  note p = put_inv [OF c(4,3)] put_contents [OF c(4,3), unfolded c(5,2)]
  have base: "tx_mutations ctx = [] \<Longrightarrow> view = base" using c(2) by simp
  show ?thesis
  proof (cases r)
    case (Inl e)
    then show ?thesis using run none c by (simp add: transaction_def)
  next
    case (Inr a)
    then show ?thesis using run none c(1,4,5) p base
      by (simp add: transaction_def commit_loop_result Let_def)
  qed
qed

lemma transaction_is_direct_run:
  assumes "direct base st" and "plain_prog ok p" and "fails < max_retries"
  shows "fst (transaction get put max_retries fails p st) = fst (run get put p st) \<and>
    contents (tx_store (snd (transaction get put max_retries fails p st))) =
      (case fst (run get put p st) of Inr _ \<Rightarrow> contents (tx_store (snd (run get put p st))) | Inl _ \<Rightarrow> base)"
proof -
  obtain view where r: "fst (run get put p (st\<lparr>tx_context := Some new_ctx\<rparr>)) = fst (run get put p st)"
    "in_tx base view (snd (run get put p (st\<lparr>tx_context := Some new_ctx\<rparr>)))"
    "direct view (snd (run get put p st))"
    using run_refines [OF assms(2) enter_tx [OF assms(1)] assms(1)] by blast
  from r(3) have "contents (tx_store (snd (run get put p st))) = view" by (simp add: direct_def)
  with transaction_contents [OF assms(1) plain_typed [OF assms(2)] r(2), of max_retries fails] r(1) assms(3)
  show ?thesis by (auto split: prod.splits sum.splits)
qed

lemma transaction_atomic:
  assumes "direct base st" and "typed_prog ok p" and "fst (transaction get put max_retries fails p st) = Inl e"
  shows "direct base (snd (transaction get put max_retries fails p st))"
proof -
  obtain view where "in_tx base view (snd (run get put p (st\<lparr>tx_context := Some new_ctx\<rparr>)))"
    using run_in_tx [OF assms(2) enter_tx [OF assms(1)]] by blast
  from transaction_contents [OF assms(1,2) this, of max_retries fails] assms(3)
  show ?thesis by (auto simp: direct_def split: prod.splits sum.splits)
qed

end


abbreviation idle :: "'s \<Rightarrow> ('v, 's) tx_state" where
  "idle s \<equiv> \<lparr>tx_store = s, tx_context = None\<rparr>"

lemma ims_direct: "ims.direct s (idle s)"
  by (simp add: ims.direct_def)

lemma typed_prog_True: "typed_prog (\<lambda>_. True) p"
  by (induction p) simp_all


definition move_session :: "string \<Rightarrow> string \<Rightarrow> (int, int) prog" where
  "move_session a b = Read ''session'' [a] (\<lambda>r. case r a of
     None \<Rightarrow> Raise (KeyError)
   | Some v \<Rightarrow> Write [(''session'', [(b, Some v), (a, None)])] (Read ''session'' [a, b] (\<lambda>r. case r b of
       None \<Rightarrow> Raise (KeyError) | Some w \<Rightarrow> Return w)))"


text \<open>
  A transaction that raises, in its body or because the last attempt to commit failed, leaves the
  store as it was, whatever the body read and wrote before.
\<close>

theorem transaction_rollback:
  assumes "fst (transaction ims_get ims_set max_commit_retries fails body (idle s)) = Inl e"
  shows "snd (transaction ims_get ims_set max_commit_retries fails body (idle s)) = idle s"
  using ims.transaction_atomic [OF ims_direct typed_prog_True assms] by (simp add: ims.direct_def)

theorem transaction_rollback_witness:
  "snd (transaction ims_get ims_set 3 3 (Write [(''session'', [(''a'', Some (1 :: int))])] (Return ())) (idle (\<lambda>_. Map.empty))) =
   idle (\<lambda>_. Map.empty)"
  by (rule transaction_rollback [where e = ExternalError])
    (simp add: transaction_def tx_set_def new_ctx_def mutate_def PRE_KEY_def dict_update_def commit_loop_result)

text \<open>
  With \<open>max_commit_retries\<close> 0 the commit loop makes no attempt at all: every transaction that
  returns reports success and its writes are lost.
\<close>

theorem no_retries_drops_writes:
  "transaction ims_get ims_set 0 fails (Write d (Return a)) (idle s) = (Inr a, idle s)"
  by (simp add: transaction_def tx_set_def commit_loop_result split: prod.splits)

text \<open>
  Deleting a pre-key works outside a transaction; inside one it is skipped as deleting a key that
  does not exist, unless the transaction happens to have read the key before.
\<close>

theorem pre_key_deletion_skipped:
  assumes "s PRE_KEY i = Some v" and "fails < max_commit_retries"
  shows "run ims_get ims_set (Write [(PRE_KEY, [(i, None)])] (Return a)) (idle s) =
      (Inr a, idle (s(PRE_KEY := (s PRE_KEY)(i := None)))) \<and>
    transaction ims_get ims_set max_commit_retries fails (Write [(PRE_KEY, [(i, None)])] (Return a)) (idle s) =
      (Inr a, idle s) \<and>
    tx_store (snd (transaction ims_get ims_set max_commit_retries fails
        (Read PRE_KEY [i] (\<lambda>_. Write [(PRE_KEY, [(i, None)])] (Return a))) (idle s))) =
      s(PRE_KEY := (s PRE_KEY)(i := None))"
  using assms
  by (simp add: transaction_def tx_set_def tx_get_def new_ctx_def validate_deletions_def deletions_def updates_def
      ims_get_def process_operations_def cache_update_def mutate_def dict_update_def commit_loop_result
      cache_fetched_def Let_def)

definition demo_keys :: "int store" where
  "demo_keys t = [''1'' \<mapsto> 9]"

theorem pre_key_deletion_skipped_witness:
  "run ims_get ims_set (Write [(PRE_KEY, [(''1'', None)])] (Return ())) (idle demo_keys) =
      (Inr (), idle (demo_keys(PRE_KEY := (demo_keys PRE_KEY)(''1'' := None)))) \<and>
    transaction ims_get ims_set 10 0 (Write [(PRE_KEY, [(''1'', None)])] (Return ())) (idle demo_keys) =
      (Inr (), idle demo_keys) \<and>
    tx_store (snd (transaction ims_get ims_set 10 0
        (Read PRE_KEY [''1''] (\<lambda>_. Write [(PRE_KEY, [(''1'', None)])] (Return ()))) (idle demo_keys))) =
      demo_keys(PRE_KEY := (demo_keys PRE_KEY)(''1'' := None))"
  by (rule pre_key_deletion_skipped) (simp_all add: demo_keys_def)

end
