(* ===== verification/Lid_Mapping.thy ===== *)
theory Lid_Mapping
  imports Jid Key_Store "HOL-Library.Char_ord" "HOL-Library.List_Lexorder"
begin

text \<open>
  The mapping between phone numbers and LIDs: \<open>LIDMappingStore\<close> of
  \<^verbatim>\<open>signal/lid_mapping.py\<close>, a cache with expiry over the key type \<open>lid-mapping\<close>
  of a key store. One operation runs at one time of the clock, which is part of the state; the
  lookup of unknown numbers over the network, \<open>pn_to_lid_func\<close>, is an argument. Sets are iterated
  in insertion order. Two equal lookups in flight share one result in the code; here lookups run one
  after the other.
\<close>

section \<open>The cache\<close>

record 's lid_store =
  lm_keys :: 's
  lm_cache :: "string \<Rightarrow> (string \<times> int) option"
  lm_now :: int
  lm_ttl :: int

definition lid_cache_get :: "string \<Rightarrow> 's lid_store \<Rightarrow> string option \<times> 's lid_store" where
  "lid_cache_get key st =
     (case lm_cache st key of
        None \<Rightarrow> (None, st)
      | Some (v, expires_at) \<Rightarrow>
          if expires_at \<le> lm_now st then (None, st\<lparr>lm_cache := (lm_cache st)(key := None)\<rparr>)
          else (Some v, st\<lparr>lm_cache := (lm_cache st)(key \<mapsto> (v, lm_now st + lm_ttl st))\<rparr>))"

definition lid_cache_set :: "string \<Rightarrow> string \<Rightarrow> 's lid_store \<Rightarrow> 's lid_store" where
  "lid_cache_set key v st = st\<lparr>lm_cache := (lm_cache st)(key \<mapsto> (v, lm_now st + lm_ttl st))\<rparr>"

definition pn_key :: "string \<Rightarrow> string" where "pn_key u = ''pn:'' @ u"
definition lid_key :: "string \<Rightarrow> string" where "lid_key u = ''lid:'' @ u"
definition reverse_key :: "string \<Rightarrow> string" where "reverse_key u = u @ ''_reverse''"

definition cache_pair :: "string \<Rightarrow> string \<Rightarrow> 's lid_store \<Rightarrow> 's lid_store" where
  "cache_pair pn_user lid_user st = lid_cache_set (lid_key lid_user) pn_user (lid_cache_set (pn_key pn_user) lid_user st)"

definition LID_MAPPING :: string where "LID_MAPPING = ''lid-mapping''"

type_synonym 's key_get = "string \<Rightarrow> string list \<Rightarrow> 's \<Rightarrow> string lookup \<times> 's"
type_synonym 's key_put = "string data_set \<Rightarrow> 's \<Rightarrow> 's"

definition keys_get :: "'s key_get \<Rightarrow> string list \<Rightarrow> 's lid_store \<Rightarrow> string lookup \<times> 's lid_store" where
  "keys_get get ids st = (let (r, s) = get LID_MAPPING ids (lm_keys st) in (r, st\<lparr>lm_keys := s\<rparr>))"

section \<open>Storing mappings\<close>

definition user_of :: "string \<Rightarrow> string result" where
  "user_of j = bindE (jid_decode (Some j)) (\<lambda>d. Inr (case d of None \<Rightarrow> '''' | Some r \<Rightarrow> jid_user r))"

text \<open>The pairs (lid, pn) that pass the checks, as (pn user, lid user).\<close>

fun validate_pairs :: "(string \<times> string) list \<Rightarrow> (string \<times> string) list result" where
  "validate_pairs [] = Inr []"
| "validate_pairs ((lid, pn) # pairs) =
     (if lid = '''' \<or> pn = '''' then validate_pairs pairs
      else if \<not> ((is_lid_user (Some lid) \<and> is_pn_user (Some pn)) \<or> (is_pn_user (Some lid) \<and> is_lid_user (Some pn)))
      then validate_pairs pairs
      else bindE (user_of lid) (\<lambda>lid_user. bindE (user_of pn) (\<lambda>pn_user.
           bindE (validate_pairs pairs) (\<lambda>rest.
             Inr (if lid_user \<noteq> '''' \<and> pn_user \<noteq> '''' then (pn_user, lid_user) # rest else rest)))))"

fun find_cached :: "(string \<times> string) list \<Rightarrow> string lookup \<times> string list \<times> 's lid_store \<Rightarrow> string lookup \<times> string list \<times> 's lid_store" where
  "find_cached [] acc = acc"
| "find_cached ((pn_user, _) # pairs) (existing, misses, st) =
     (case lid_cache_get (pn_key pn_user) st of
        (Some cached, st) \<Rightarrow> find_cached pairs (existing(pn_user \<mapsto> cached), misses, st)
      | (None, st) \<Rightarrow> find_cached pairs (existing, if pn_user \<in> set misses then misses else misses @ [pn_user], st))"

fun load_existing :: "string list \<Rightarrow> string lookup \<Rightarrow> string lookup \<times> 's lid_store \<Rightarrow> string lookup \<times> 's lid_store" where
  "load_existing [] stored acc = acc"
| "load_existing (pn_user # misses) stored (existing, st) =
     (case stored pn_user of
        Some lid_user \<Rightarrow> load_existing misses stored (existing(pn_user \<mapsto> lid_user), cache_pair pn_user lid_user st)
      | None \<Rightarrow> load_existing misses stored (existing, st))"

definition changed_pairs :: "(string \<times> string) list \<Rightarrow> string lookup \<Rightarrow> (string, string) dict" where
  "changed_pairs validated existing =
     foldl (\<lambda>d (pn_user, lid_user). if existing pn_user = Some lid_user then d else dict_set pn_user lid_user d) [] validated"

definition batch_data :: "(string, string) dict \<Rightarrow> (string, string) dict" where
  "batch_data pair_map =
     foldl (\<lambda>d (pn_user, lid_user). dict_set (reverse_key lid_user) pn_user (dict_set pn_user lid_user d)) [] pair_map"

definition store_lid_pn_mappings ::
    "'s key_get \<Rightarrow> 's key_put \<Rightarrow> (string \<times> string) list \<Rightarrow> 's lid_store \<Rightarrow> unit result \<times> 's lid_store" where
  "store_lid_pn_mappings get put pairs st =
     (case validate_pairs pairs of Inl e \<Rightarrow> (Inl e, st)
      | Inr [] \<Rightarrow> (Inr (), st)
      | Inr validated \<Rightarrow>
          let (existing, misses, st) = find_cached validated (Map.empty, [], st);
              (existing, st) = (if misses = [] then (existing, st)
                 else let (stored, st) = keys_get get misses st in load_existing misses stored (existing, st));
              pair_map = changed_pairs validated existing
          in if pair_map = [] then (Inr (), st)
             else
               let st = st\<lparr>lm_keys := put [(LID_MAPPING, map (\<lambda>(k, v). (k, Some v)) (batch_data pair_map))] (lm_keys st)\<rparr>
               in (Inr (), foldl (\<lambda>st (pn_user, lid_user). cache_pair pn_user lid_user st) st pair_map))"

section \<open>From numbers to LIDs\<close>

definition device_suffix :: "int \<Rightarrow> string" where
  "device_suffix d = (if d = 0 then '''' else CHR '':'' # int_str d)"

definition device_of :: "full_jid \<Rightarrow> int" where
  "device_of d = (case jid_device d of None \<Rightarrow> 0 | Some n \<Rightarrow> n)"

definition resolved_lid :: "full_jid \<Rightarrow> string \<Rightarrow> string" where
  "resolved_lid decoded lid_user =
     lid_user @ device_suffix (device_of decoded) @ CHR ''@'' #
     (if jid_server decoded = ''hosted'' then ''hosted.lid'' else ''lid'')"

type_synonym pairs = "(string, string \<times> string) dict"

fun lookup_pns ::
    "string list \<Rightarrow> pairs \<times> (string \<times> full_jid) list \<Rightarrow> 's lid_store \<Rightarrow>
     (pairs \<times> (string \<times> full_jid) list) result \<times> 's lid_store" where
  "lookup_pns [] acc st = (Inr acc, st)"
| "lookup_pns (pn # pns) (successful, pending) st =
     (if \<not> (is_pn_user (Some pn) \<or> is_hosted_pn_user (Some pn)) then lookup_pns pns (successful, pending) st
      else case jid_decode (Some pn) of
         Inl e \<Rightarrow> (Inl e, st)
       | Inr None \<Rightarrow> lookup_pns pns (successful, pending) st
       | Inr (Some decoded) \<Rightarrow>
           if jid_user decoded = '''' then lookup_pns pns (successful, pending) st
           else case lid_cache_get (pn_key (jid_user decoded)) st of
                  (Some cached, st) \<Rightarrow> lookup_pns pns (dict_set pn (resolved_lid decoded cached, pn) successful, pending) st
                | (None, st) \<Rightarrow> lookup_pns pns (successful, pending @ [(pn, decoded)]) st)"

definition cache_stored :: "string list \<Rightarrow> string lookup \<Rightarrow> 's lid_store \<Rightarrow> 's lid_store" where
  "cache_stored pn_users stored st =
     foldl (\<lambda>st pn_user. case stored pn_user of Some lid_user \<Rightarrow> cache_pair pn_user lid_user st | None \<Rightarrow> st) st pn_users"

text \<open>What is still unknown is collected for the network, by normalised number.\<close>

fun resolve_pending ::
    "(string \<times> full_jid) list \<Rightarrow> pairs \<times> (string, int list) dict \<Rightarrow> 's lid_store \<Rightarrow>
     (pairs \<times> (string, int list) dict) result \<times> 's lid_store" where
  "resolve_pending [] acc st = (Inr acc, st)"
| "resolve_pending ((pn, decoded) # pending) (successful, fetch) st =
     (case lid_cache_get (pn_key (jid_user decoded)) st of
        (Some cached, st) \<Rightarrow> resolve_pending pending (dict_set pn (resolved_lid decoded cached, pn) successful, fetch) st
      | (None, st) \<Rightarrow>
          (case jid_normalized_user (Some pn) of
             Inl e \<Rightarrow> (Inl e, st)
           | Inr normalized \<Rightarrow>
               let normalized_pn = (if is_hosted_pn_user (Some normalized) then jid_user decoded @ ''@s.whatsapp.net''
                                    else normalized);
                   devices = (case map_of fetch normalized_pn of None \<Rightarrow> [] | Some ds \<Rightarrow> ds)
               in resolve_pending pending (successful, dict_set normalized_pn (devices @ [device_of decoded]) fetch) st))"

definition device_pairs :: "string \<Rightarrow> string \<Rightarrow> int list \<Rightarrow> pairs \<Rightarrow> pairs" where
  "device_pairs lid_user pn_user devices successful =
     foldl (\<lambda>d device.
       let device_lid = lid_user @ device_suffix device @ CHR ''@'' # (if device = 99 then ''hosted.lid'' else ''lid'');
           device_pn = pn_user @ device_suffix device @ CHR ''@'' # (if device = 99 then ''hosted'' else ''s.whatsapp.net'')
       in dict_set device_pn (device_lid, device_pn) d) successful devices"

fun add_fetched :: "(string \<times> string) list \<Rightarrow> (string, int list) dict \<Rightarrow> pairs \<Rightarrow> pairs result" where
  "add_fetched [] fetch successful = Inr successful"
| "add_fetched ((lid, pn) # pairs) fetch successful =
     bindE (user_of pn) (\<lambda>pn_user. bindE (user_of lid) (\<lambda>lid_user.
       if pn_user = '''' \<or> lid_user = '''' then add_fetched pairs fetch successful
       else add_fetched pairs fetch (device_pairs lid_user pn_user
              (case map_of fetch pn of None \<Rightarrow> [] | Some ds \<Rightarrow> ds) successful)))"

definition get_lids_for_pns ::
    "'s key_get \<Rightarrow> 's key_put \<Rightarrow> (string list \<Rightarrow> (string \<times> string) list) option \<Rightarrow> string list \<Rightarrow> 's lid_store \<Rightarrow>
     (string \<times> string) list option result \<times> 's lid_store" where
  "get_lids_for_pns get put pn_to_lid pns st =
     (if pns = [] then (Inr None, st) else
      case lookup_pns (sort (remdups pns)) ([], []) st of
        (Inl e, st) \<Rightarrow> (Inl e, st)
      | (Inr (successful, pending), st) \<Rightarrow>
          let pn_users = sort (remdups (map (\<lambda>(_, d). jid_user d) pending));
              st = (if pending = [] then st
                    else let (stored, st) = keys_get get pn_users st in cache_stored pn_users stored st)
          in case resolve_pending pending (successful, []) st of
               (Inl e, st) \<Rightarrow> (Inl e, st)
             | (Inr (successful, fetch), st) \<Rightarrow>
                 let found = (if fetch = [] then []
                              else case pn_to_lid of None \<Rightarrow> [] | Some f \<Rightarrow> f (map fst fetch));
                     answer = (\<lambda>successful. if successful = [] then None else Some (map snd successful))
                 in if found = [] then (Inr (answer successful), st)
                    else case store_lid_pn_mappings get put found st of
                           (Inl e, st) \<Rightarrow> (Inl e, st)
                         | (Inr _, st) \<Rightarrow>
                             (bindE (add_fetched found fetch successful) (\<lambda>s. Inr (answer s)), st))"

definition get_lid_for_pn ::
    "'s key_get \<Rightarrow> 's key_put \<Rightarrow> (string list \<Rightarrow> (string \<times> string) list) option \<Rightarrow> string \<Rightarrow> 's lid_store \<Rightarrow>
     string option result \<times> 's lid_store" where
  "get_lid_for_pn get put pn_to_lid pn st =
     (let (r, st) = get_lids_for_pns get put pn_to_lid [pn] st
      in (bindE r (\<lambda>pairs. Inr (case pairs of Some (p # _) \<Rightarrow> Some (fst p) | _ \<Rightarrow> None)), st))"

section \<open>From LIDs to numbers\<close>

text \<open>The device is always written, 0 included.\<close>

definition resolved_pn :: "full_jid \<Rightarrow> string \<Rightarrow> string" where
  "resolved_pn decoded pn_user =
     pn_user @ CHR '':'' # int_str (device_of decoded) @ CHR ''@'' #
     (if jid_domain decoded = HOSTED_LID then ''hosted'' else ''s.whatsapp.net'')"

fun lookup_lids ::
    "string list \<Rightarrow> pairs \<times> (string \<times> full_jid) list \<Rightarrow> 's lid_store \<Rightarrow>
     (pairs \<times> (string \<times> full_jid) list) result \<times> 's lid_store" where
  "lookup_lids [] acc st = (Inr acc, st)"
| "lookup_lids (lid # lids) (successful, pending) st =
     (if \<not> is_lid_user (Some lid) then lookup_lids lids (successful, pending) st
      else case jid_decode (Some lid) of
         Inl e \<Rightarrow> (Inl e, st)
       | Inr None \<Rightarrow> lookup_lids lids (successful, pending) st
       | Inr (Some decoded) \<Rightarrow>
           if jid_user decoded = '''' then lookup_lids lids (successful, pending) st
           else case lid_cache_get (lid_key (jid_user decoded)) st of
                  (Some cached, st) \<Rightarrow> lookup_lids lids (dict_set lid (lid, resolved_pn decoded cached) successful, pending) st
                | (None, st) \<Rightarrow> lookup_lids lids (successful, pending @ [(lid, decoded)]) st)"

fun resolve_lids :: "(string \<times> full_jid) list \<Rightarrow> string lookup \<Rightarrow> pairs \<Rightarrow> 's lid_store \<Rightarrow> pairs \<times> 's lid_store" where
  "resolve_lids [] stored successful st = (successful, st)"
| "resolve_lids ((lid, decoded) # pending) stored successful st =
     (case lid_cache_get (lid_key (jid_user decoded)) st of
        (Some pn_user, st) \<Rightarrow> resolve_lids pending stored (dict_set lid (lid, resolved_pn decoded pn_user) successful) st
      | (None, st) \<Rightarrow>
          (case stored (reverse_key (jid_user decoded)) of
             None \<Rightarrow> resolve_lids pending stored successful st
           | Some pn_user \<Rightarrow> resolve_lids pending stored (dict_set lid (lid, resolved_pn decoded pn_user) successful)
               (lid_cache_set (pn_key pn_user) (jid_user decoded) (lid_cache_set (lid_key (jid_user decoded)) pn_user st))))"

definition get_pns_for_lids ::
    "'s key_get \<Rightarrow> string list \<Rightarrow> 's lid_store \<Rightarrow> (string \<times> string) list option result \<times> 's lid_store" where
  "get_pns_for_lids get lids st =
     (if lids = [] then (Inr None, st) else
      case lookup_lids (sort (remdups lids)) ([], []) st of
        (Inl e, st) \<Rightarrow> (Inl e, st)
      | (Inr (successful, pending), st) \<Rightarrow>
          let (successful, st) = (if pending = [] then (successful, st)
                else let (stored, st) = keys_get get (sort (remdups (map (\<lambda>(_, d). reverse_key (jid_user d)) pending))) st
                     in resolve_lids pending stored successful st)
          in (Inr (if successful = [] then None else Some (map snd successful)), st))"

definition get_pn_for_lid :: "'s key_get \<Rightarrow> string \<Rightarrow> 's lid_store \<Rightarrow> string option result \<times> 's lid_store" where
  "get_pn_for_lid get lid st =
     (let (r, st) = get_pns_for_lids get [lid] st
      in (bindE r (\<lambda>pairs. Inr (case pairs of Some (p # _) \<Rightarrow> Some (snd p) | _ \<Rightarrow> None)), st))"


section \<open>Lookups after a mapping is stored\<close>

definition lid_jid :: "string \<Rightarrow> int \<Rightarrow> string" where
  "lid_jid u d = u @ device_suffix d @ ''@lid''"

definition pn_jid :: "string \<Rightarrow> int \<Rightarrow> string" where
  "pn_jid u d = u @ device_suffix d @ ''@s.whatsapp.net''"

definition good_user :: "string \<Rightarrow> bool" where
  "good_user u \<longleftrightarrow> clean_user u \<and> u \<noteq> ''''"

lemma jid_class:
  "is_lid_user (Some (lid_jid u d))" "is_pn_user (Some (pn_jid u d))"
  by (simp_all add: is_lid_user_def is_pn_user_def jid_ends_def py_endswith_iff lid_jid_def pn_jid_def)

lemma decode_device:
  assumes "clean_user u" and "0 \<le> d"
  shows "jid_decode (Some (u @ device_suffix d @ CHR ''@'' # s)) =
    Inr (Some \<lparr>jid_user = u, jid_server = s, jid_device = (if d = 0 then None else Some d), jid_domain = server_domain s\<rparr>)"
  using assms by (simp add: device_suffix_def jid_decode_plain jid_decode_device)

lemma decode_jids:
  assumes "good_user u" and "0 \<le> d"
  shows "jid_decode (Some (lid_jid u d)) =
      Inr (Some \<lparr>jid_user = u, jid_server = ''lid'', jid_device = (if d = 0 then None else Some d), jid_domain = LID\<rparr>)"
    and "jid_decode (Some (pn_jid u d)) =
      Inr (Some \<lparr>jid_user = u, jid_server = ''s.whatsapp.net'', jid_device = (if d = 0 then None else Some d), jid_domain = WHATSAPP\<rparr>)"
  using assms decode_device [of u d "''lid''"] decode_device [of u d "''s.whatsapp.net''"]
  by (simp_all add: good_user_def lid_jid_def pn_jid_def server_domain_def)

lemma validate_single:
  assumes "good_user lu" "good_user pu" "0 \<le> d" "0 \<le> e"
  shows "validate_pairs [(lid_jid lu d, pn_jid pu e)] = Inr [(pu, lu)]"
  using assms decode_jids [of lu d] decode_jids [of pu e] jid_class
  by (simp add: user_of_def good_user_def lid_jid_def pn_jid_def)

lemma key_distinct [simp]: "pn_key u \<noteq> lid_key v" "lid_key v \<noteq> pn_key u" "pn_key u = pn_key v \<longleftrightarrow> u = v" "lid_key u = lid_key v \<longleftrightarrow> u = v"
  by (auto simp: pn_key_def lid_key_def)

lemma cache_pair_simps [simp]:
  "lm_cache (cache_pair pu lu st) = (lm_cache st)(pn_key pu \<mapsto> (lu, lm_now st + lm_ttl st), lid_key lu \<mapsto> (pu, lm_now st + lm_ttl st))"
  "lm_keys (cache_pair pu lu st) = lm_keys st" "lm_now (cache_pair pu lu st) = lm_now st" "lm_ttl (cache_pair pu lu st) = lm_ttl st"
  by (simp_all add: cache_pair_def lid_cache_set_def)

lemma reverse_not_user: "clean_user u \<Longrightarrow> reverse_key v \<noteq> u"
  by (auto simp: reverse_key_def clean_user_def)

lemma batch_single: "clean_user pu \<Longrightarrow> batch_data [(pu, lu)] = [(pu, lu), (reverse_key lu, pu)]"
  using reverse_not_user [of pu lu] by (simp add: batch_data_def)

text \<open>The cached LID of a number is the stored one.\<close>

definition pn_coherent :: "string store \<Rightarrow> 's lid_store \<Rightarrow> string \<Rightarrow> bool" where
  "pn_coherent keys st u \<longleftrightarrow> (\<forall>v e. lm_cache st (pn_key u) = Some (v, e) \<longrightarrow> keys LID_MAPPING u = Some v)"

text \<open>A key store that takes strings under the key type \<open>lid-mapping\<close>.\<close>

locale lid_key_store = signal_key_store ok contents inv get put
  for ok :: "string \<Rightarrow> bool" and contents :: "'s \<Rightarrow> string store" and inv :: "'s \<Rightarrow> bool"
    and get :: "string \<Rightarrow> string list \<Rightarrow> 's \<Rightarrow> string lookup \<times> 's"
    and put :: "string data_set \<Rightarrow> 's \<Rightarrow> 's" +
  assumes lid_type_ok: "ok LID_MAPPING"
begin

text \<open>The state maps a number to a LID, or a LID to a number, in the store and in the cache.\<close>

definition maps_pn :: "'s lid_store \<Rightarrow> string \<Rightarrow> string \<Rightarrow> bool" where
  "maps_pn st pu lu \<longleftrightarrow> inv (lm_keys st) \<and> contents (lm_keys st) LID_MAPPING pu = Some lu \<and>
     (\<forall>v e. lm_cache st (pn_key pu) = Some (v, e) \<longrightarrow> v = lu)"

definition maps_lid :: "'s lid_store \<Rightarrow> string \<Rightarrow> string \<Rightarrow> bool" where
  "maps_lid st lu pu \<longleftrightarrow> inv (lm_keys st) \<and> contents (lm_keys st) LID_MAPPING (reverse_key lu) = Some pu \<and>
     (\<forall>v e. lm_cache st (lid_key lu) = Some (v, e) \<longrightarrow> v = pu)"

lemma keys_get_single:
  assumes "inv (lm_keys st)"
  obtains r s where "keys_get get [i] st = (r, st\<lparr>lm_keys := s\<rparr>)" "r i = contents (lm_keys st) LID_MAPPING i"
    "inv s" "contents s = contents (lm_keys st)"
proof -
  obtain r s where g: "get LID_MAPPING [i] (lm_keys st) = (r, s)" by (cases "get LID_MAPPING [i] (lm_keys st)")
  show thesis
    by (rule that [of r s])
      (use g get_value [OF assms lid_type_ok, of i "[i]"] get_inv [OF assms lid_type_ok, of "[i]"]
        get_contents [OF assms lid_type_ok, of "[i]"] in \<open>simp_all add: keys_get_def\<close>)
qed

lemma lookup_mapped_pn:
  assumes m: "maps_pn st pu lu" and u: "good_user pu" "good_user lu" and d: "0 \<le> d" and ttl: "0 < lm_ttl st"
  shows "fst (get_lid_for_pn get put net (pn_jid pu d) st) = Inr (Some (lid_jid lu d))"
proof -
  let ?dec = "\<lparr>jid_user = pu, jid_server = ''s.whatsapp.net'', jid_device = (if d = 0 then None else Some d), jid_domain = WHATSAPP\<rparr>"
  have r: "resolved_lid ?dec lu = lid_jid lu d" by (simp add: resolved_lid_def device_of_def lid_jid_def)
  note dec = decode_jids(2) [OF u(1) d] jid_class(2) [of pu d]
  have pu: "pu \<noteq> ''''" using u(1) by (simp add: good_user_def)
  show ?thesis
  proof (cases "fst (lid_cache_get (pn_key pu) st)")
    case (Some v)
    then obtain st' where "lid_cache_get (pn_key pu) st = (Some lu, st')"
      using m by (auto simp: lid_cache_get_def maps_pn_def split: option.splits prod.splits if_splits)
    then show ?thesis using dec pu r by (simp add: get_lid_for_pn_def get_lids_for_pns_def)
  next
    case None
    then obtain st' where c: "lid_cache_get (pn_key pu) st = (None, st')" "lm_keys st' = lm_keys st"
      "lm_ttl st' = lm_ttl st" "lm_now st' = lm_now st"
      by (auto simp: lid_cache_get_def split: option.splits prod.splits if_splits)
    have i: "inv (lm_keys st')" using m c(2) by (simp add: maps_pn_def)
    from i obtain f s where g: "keys_get get [pu] st' = (f, st'\<lparr>lm_keys := s\<rparr>)" "f pu = contents (lm_keys st') LID_MAPPING pu"
      by (rule keys_get_single)
    have f: "f pu = Some lu" using g(2) m c(2) by (simp add: maps_pn_def)
    show ?thesis using dec pu r c g(1) f ttl
      by (simp add: get_lid_for_pn_def get_lids_for_pns_def cache_stored_def lid_cache_get_def)
  qed
qed

lemma lookup_mapped_lid:
  assumes m: "maps_lid st lu pu" and u: "good_user lu" and d: "0 \<le> d"
  shows "fst (get_pn_for_lid get (lid_jid lu d) st) =
    Inr (Some (pu @ CHR '':'' # int_str d @ ''@s.whatsapp.net''))"
proof -
  let ?dec = "\<lparr>jid_user = lu, jid_server = ''lid'', jid_device = (if d = 0 then None else Some d), jid_domain = LID\<rparr>"
  have r: "resolved_pn ?dec pu = pu @ CHR '':'' # int_str d @ ''@s.whatsapp.net''"
    by (simp add: resolved_pn_def device_of_def)
  note dec = decode_jids(1) [OF u d] jid_class(1) [of lu d]
  have lu: "lu \<noteq> ''''" using u by (simp add: good_user_def)
  show ?thesis
  proof (cases "fst (lid_cache_get (lid_key lu) st)")
    case (Some v)
    then obtain st' where "lid_cache_get (lid_key lu) st = (Some pu, st')"
      using m by (auto simp: lid_cache_get_def maps_lid_def split: option.splits prod.splits if_splits)
    then show ?thesis using dec lu r by (simp add: get_pn_for_lid_def get_pns_for_lids_def)
  next
    case None
    then obtain st' where c: "lid_cache_get (lid_key lu) st = (None, st')" "lm_keys st' = lm_keys st"
      "lm_cache st' (lid_key lu) = None"
      by (auto simp: lid_cache_get_def split: option.splits prod.splits if_splits)
    have i: "inv (lm_keys st')" using m c(2) by (simp add: maps_lid_def)
    from i obtain f s where g: "keys_get get [reverse_key lu] st' = (f, st'\<lparr>lm_keys := s\<rparr>)"
      "f (reverse_key lu) = contents (lm_keys st') LID_MAPPING (reverse_key lu)"
      by (rule keys_get_single)
    have f: "f (reverse_key lu) = Some pu" using g(2) m c(2) by (simp add: maps_lid_def)
    have n: "lid_cache_get (lid_key lu) (st'\<lparr>lm_keys := s\<rparr>) = (None, st'\<lparr>lm_keys := s\<rparr>)"
      using c(3) by (simp add: lid_cache_get_def)
    show ?thesis using dec lu r c(1) g(1) f n
      by (simp add: get_pn_for_lid_def get_pns_for_lids_def)
  qed
qed

end


context lid_key_store
begin

abbreviation store_one :: "string \<Rightarrow> string \<Rightarrow> int \<Rightarrow> int \<Rightarrow> 's lid_store \<Rightarrow> unit result \<times> 's lid_store" where
  "store_one lu pu d e st \<equiv> store_lid_pn_mappings get put [(lid_jid lu d, pn_jid pu e)] st"

definition written :: "string \<Rightarrow> string \<Rightarrow> 's lid_store \<Rightarrow> 's lid_store" where
  "written pu lu st = cache_pair pu lu
     (st\<lparr>lm_keys := put [(LID_MAPPING, [(pu, Some lu), (reverse_key lu, Some pu)])] (lm_keys st)\<rparr>)"

lemma written_maps:
  assumes "inv (lm_keys st)" and "clean_user pu"
  shows "maps_pn (written pu lu st) pu lu \<and> maps_lid (written pu lu st) lu pu \<and> lm_ttl (written pu lu st) = lm_ttl st"
proof -
  let ?d = "[(LID_MAPPING, [(pu, Some lu), (reverse_key lu, Some pu)])]"
  have t: "types_ok ok ?d" by (simp add: lid_type_ok)
  have "reverse_key lu \<noteq> pu" by (rule reverse_not_user [OF assms(2)])
  then show ?thesis
    using put_inv [OF assms(1) t] put_contents [OF assms(1) t]
    by (simp add: written_def maps_pn_def maps_lid_def)
qed

lemma store_one_cases:
  assumes "good_user lu" "good_user pu" "0 \<le> d" "0 \<le> e" and i: "inv (lm_keys st)"
    and c: "pn_coherent (contents (lm_keys st)) st pu"
  shows "fst (store_one lu pu d e st) = Inr () \<and>
    maps_pn (snd (store_one lu pu d e st)) pu lu \<and> lm_ttl (snd (store_one lu pu d e st)) = lm_ttl st \<and>
    (contents (lm_keys st) LID_MAPPING pu \<noteq> Some lu \<longrightarrow> maps_lid (snd (store_one lu pu d e st)) lu pu)"
proof -
  let ?have = "contents (lm_keys st) LID_MAPPING pu"
  have v: "validate_pairs [(lid_jid lu d, pn_jid pu e)] = Inr [(pu, lu)]" by (rule validate_single [OF assms(1-4)])
  have cl: "clean_user pu" using assms(2) by (simp add: good_user_def)
  obtain existing st2 where s: "find_cached [(pu, lu)] (Map.empty, [], st) = (existing, [], st2) \<or>
      (\<exists>ex0 st1 stored st1'. find_cached [(pu, lu)] (Map.empty, [], st) = (ex0, [pu], st1) \<and>
        keys_get get [pu] st1 = (stored, st1') \<and> load_existing [pu] stored (ex0, st1') = (existing, st2))"
    and e: "existing pu = ?have" and i2: "inv (lm_keys st2)" "lm_ttl st2 = lm_ttl st"
    and m: "?have = Some lu \<Longrightarrow> maps_pn st2 pu lu"
  proof (cases "lid_cache_get (pn_key pu) st")
    case (Pair r st1)
    show ?thesis
    proof (cases r)
      case (Some v)
      then have "?have = Some v"
        using Pair c by (auto simp: lid_cache_get_def pn_coherent_def split: option.splits prod.splits if_splits)
      moreover have "lm_keys st1 = lm_keys st" "lm_ttl st1 = lm_ttl st" "\<exists>x. lm_cache st1 (pn_key pu) = Some (v, x)"
        using Pair Some by (auto simp: lid_cache_get_def split: option.splits prod.splits if_splits)
      ultimately show ?thesis using Pair Some i
        by (intro that [of "[pu \<mapsto> v]" st1]) (auto simp: maps_pn_def)
    next
      case None
      then have k: "lm_keys st1 = lm_keys st" "lm_ttl st1 = lm_ttl st"
        using Pair by (auto simp: lid_cache_get_def split: option.splits prod.splits if_splits)
      have "inv (lm_keys st1)" using i k by simp
      then obtain f s' where g: "keys_get get [pu] st1 = (f, st1\<lparr>lm_keys := s'\<rparr>)" "f pu = ?have" "inv s'" "contents s' = contents (lm_keys st)"
        using k by (metis keys_get_single)
      let ?st2 = "case f pu of Some v \<Rightarrow> cache_pair pu v (st1\<lparr>lm_keys := s'\<rparr>) | None \<Rightarrow> st1\<lparr>lm_keys := s'\<rparr>"
      let ?ex = "case f pu of Some v \<Rightarrow> [pu \<mapsto> v] | None \<Rightarrow> Map.empty"
      show ?thesis
        by (rule that [of ?ex ?st2])
          (use Pair None g k in \<open>auto simp: maps_pn_def split: option.splits\<close>)
    qed
  qed
  have st: "store_one lu pu d e st = (if ?have = Some lu then (Inr (), st2) else (Inr (), written pu lu st2))"
    using s
  proof (elim disjE exE conjE)
    assume f: "find_cached [(pu, lu)] (Map.empty, [], st) = (existing, [], st2)"
    show ?thesis
      by (simp add: store_lid_pn_mappings_def v f e changed_pairs_def batch_single [OF cl] written_def
          del: validate_pairs.simps find_cached.simps load_existing.simps)
  next
    fix ex0 st1 stored st1'
    assume f: "find_cached [(pu, lu)] (Map.empty, [], st) = (ex0, [pu], st1)"
      "keys_get get [pu] st1 = (stored, st1')" "load_existing [pu] stored (ex0, st1') = (existing, st2)"
    show ?thesis
      by (simp add: store_lid_pn_mappings_def v f e changed_pairs_def batch_single [OF cl] written_def
          del: validate_pairs.simps find_cached.simps load_existing.simps)
  qed
  show ?thesis
    using st m written_maps [OF i2(1) cl, of lu] i2(2) by (cases "?have = Some lu") simp_all
qed

lemma maps_any_time: "maps_pn st pu lu \<Longrightarrow> maps_pn (st\<lparr>lm_now := t\<rparr>) pu lu" "maps_lid st lu pu \<Longrightarrow> maps_lid (st\<lparr>lm_now := t\<rparr>) lu pu"
  by (simp_all add: maps_pn_def maps_lid_def)

lemma lookup_after_store:
  assumes "good_user lu" "good_user pu" "0 \<le> d" "0 \<le> e" "0 \<le> d'" and "inv (lm_keys st)"
    and "pn_coherent (contents (lm_keys st)) st pu" and "0 < lm_ttl st"
  shows "fst (get_lid_for_pn get put net (pn_jid pu d') ((snd (store_one lu pu d e st))\<lparr>lm_now := t\<rparr>)) =
    Inr (Some (lid_jid lu d'))"
  using store_one_cases [OF assms(1-4,6,7)] assms(8)
  by (intro lookup_mapped_pn [OF maps_any_time(1) assms(2,1,5)]) simp_all

lemma reverse_after_store:
  assumes "good_user lu" "good_user pu" "0 \<le> d" "0 \<le> e" "0 \<le> d'" and "inv (lm_keys st)"
    and "pn_coherent (contents (lm_keys st)) st pu" and "contents (lm_keys st) LID_MAPPING pu \<noteq> Some lu"
  shows "fst (get_pn_for_lid get (lid_jid lu d') ((snd (store_one lu pu d e st))\<lparr>lm_now := t\<rparr>)) =
    Inr (Some (pu @ CHR '':'' # int_str d' @ ''@s.whatsapp.net''))"
  using store_one_cases [OF assms(1-4,6,7)] assms(8)
  by (intro lookup_mapped_lid [OF maps_any_time(2) assms(1,5)]) simp_all

end

interpretation lid_ims: lid_key_store "\<lambda>_. True" "\<lambda>s. s" "\<lambda>_. True" ims_get ims_set
  by unfold_locales simp

interpretation lid_cached: lid_key_store "\<lambda>t. True \<and> dot_free t" "\<lambda>c. cs_store c" ims.cs_inv "cs_get ims_get" "cs_set ims_set"
  by unfold_locales (simp add: LID_MAPPING_def dot_free_def)


section \<open>Properties\<close>

definition new_lid_store :: "'s \<Rightarrow> 's lid_store" where
  "new_lid_store keys = \<lparr>lm_keys = keys, lm_cache = Map.empty, lm_now = 0, lm_ttl = 3 * 24 * 60 * 60 * 1000\<rparr>"

lemma new_lid_store_simps [simp]:
  "lm_keys (new_lid_store k) = k" "lm_cache (new_lid_store k) = Map.empty" "lm_ttl (new_lid_store k) = 259200000"
  by (simp_all add: new_lid_store_def)

text \<open>
  After a mapping has been stored, looking up any device of the number gives the same device of
  the LID, at whatever later time, from the cache or from the store, and without asking the network.
\<close>

theorem lid_lookup_after_store:
  assumes "good_user lu" "good_user pu" "0 \<le> d" "0 \<le> e" "0 \<le> dev"
    and "pn_coherent (lm_keys st) st pu" and "0 < lm_ttl st"
  shows "fst (get_lid_for_pn ims_get ims_set net (pn_jid pu dev)
      ((snd (store_lid_pn_mappings ims_get ims_set [(lid_jid lu d, pn_jid pu e)] st))\<lparr>lm_now := t\<rparr>)) =
    Inr (Some (lid_jid lu dev))"
  using lid_ims.lookup_after_store [OF assms(1-5) _ assms(6,7)] by simp

theorem lid_lookup_after_store_witness:
  "fst (get_lid_for_pn ims_get ims_set None (pn_jid ''5511'' 4)
      ((snd (store_lid_pn_mappings ims_get ims_set [(lid_jid ''777'' 0, pn_jid ''5511'' 2)]
        (new_lid_store (\<lambda>_. Map.empty))))\<lparr>lm_now := 10 ^ 12\<rparr>)) = Inr (Some (lid_jid ''777'' 4))"
  by (rule lid_lookup_after_store) (simp_all add: good_user_def clean_user_def pn_coherent_def)

text \<open>
  Storing a new mapping also makes the number be found from every device of the LID, at whatever
  later time; the answer always has a device, \<open>:0\<close> for the main one.
\<close>

theorem pn_lookup_after_store:
  assumes "good_user lu" "good_user pu" "0 \<le> d" "0 \<le> e" "0 \<le> dev"
    and "pn_coherent (lm_keys st) st pu" and "lm_keys st LID_MAPPING pu \<noteq> Some lu"
  shows "fst (get_pn_for_lid ims_get (lid_jid lu dev)
      ((snd (store_lid_pn_mappings ims_get ims_set [(lid_jid lu d, pn_jid pu e)] st))\<lparr>lm_now := t\<rparr>)) =
    Inr (Some (pu @ CHR '':'' # int_str dev @ ''@s.whatsapp.net''))"
  using lid_ims.reverse_after_store [OF assms(1-5) _ assms(6,7)] by simp

theorem pn_lookup_after_store_witness:
  "fst (get_pn_for_lid ims_get (lid_jid ''777'' 0)
      ((snd (store_lid_pn_mappings ims_get ims_set [(lid_jid ''777'' 0, pn_jid ''5511'' 2)]
        (new_lid_store (\<lambda>_. Map.empty))))\<lparr>lm_now := 5\<rparr>)) =
    Inr (Some (''5511'' @ CHR '':'' # int_str 0 @ ''@s.whatsapp.net''))"
  by (rule pn_lookup_after_store) (simp_all add: good_user_def clean_user_def pn_coherent_def)

text \<open>
  A pair with number and LID swapped passes the checks but is stored the wrong way round: the LID
  user becomes the key of a number, and the number itself stays unknown.
\<close>

theorem swapped_pair_stored_reversed:
  assumes "good_user lu" "good_user pu" "0 \<le> d" "0 \<le> e" and "lu \<noteq> pu"
    and "keys LID_MAPPING pu = None" and "keys LID_MAPPING lu = None"
  shows "(case store_lid_pn_mappings ims_get ims_set [(pn_jid pu e, lid_jid lu d)] (new_lid_store keys) of (r, st) \<Rightarrow>
    r = Inr () \<and> lm_keys st LID_MAPPING lu = Some pu \<and>
    fst (get_lid_for_pn ims_get ims_set None (pn_jid pu 0) st) = Inr None)"
proof -
  have v: "validate_pairs [(pn_jid pu e, lid_jid lu d)] = Inr [(lu, pu)]"
    using assms(1-4) decode_jids [of lu d] decode_jids [of pu e] jid_class
    by (simp add: user_of_def good_user_def lid_jid_def pn_jid_def)
  have cl: "clean_user lu" "clean_user pu" "pu \<noteq> ''''" using assms(1,2) by (simp_all add: good_user_def)
  note dec = decode_jids(2) [OF assms(2), of 0] jid_class(2) [of pu 0]
  have n: "jid_normalized_user (Some (pn_jid pu 0)) = Inr (pn_jid pu 0)"
    using cl by (simp add: jid_normalized_user_def pn_jid_def device_suffix_def jid_decode_plain jid_encode_plain)
  let ?st = "cache_pair lu pu ((new_lid_store keys)\<lparr>lm_keys :=
      ims_set [(LID_MAPPING, [(lu, Some pu), (reverse_key pu, Some lu)])] keys\<rparr>)"
  have st: "store_lid_pn_mappings ims_get ims_set [(pn_jid pu e, lid_jid lu d)] (new_lid_store keys) = (Inr (), ?st)"
    by (simp add: store_lid_pn_mappings_def v lid_cache_get_def keys_get_def ims_get_def assms(7) changed_pairs_def
        batch_single [OF cl(1)] new_lid_store_def del: validate_pairs.simps)
  moreover have "lm_keys ?st LID_MAPPING lu = Some pu" "lm_keys ?st LID_MAPPING pu = None"
    using reverse_not_user [OF cl(1)] reverse_not_user [OF cl(2), symmetric] assms(5,6)
    by (auto simp: ims_set_apply)
  moreover have "fst (get_lid_for_pn ims_get ims_set None (pn_jid pu 0) ?st) = Inr None"
    using dec cl(3) n calculation(3) assms(5)
    by (simp add: get_lid_for_pn_def get_lids_for_pns_def lid_cache_get_def keys_get_def ims_get_def cache_stored_def Let_def)
  ultimately show ?thesis by simp
qed

theorem swapped_pair_stored_reversed_witness:
  "(case store_lid_pn_mappings ims_get ims_set [(pn_jid ''5511'' 0, lid_jid ''777'' 0)] (new_lid_store (\<lambda>_. Map.empty)) of (r, st) \<Rightarrow>
    r = Inr () \<and> lm_keys st LID_MAPPING ''777'' = Some ''5511'' \<and>
    fst (get_lid_for_pn ims_get ims_set None (pn_jid ''5511'' 0) st) = Inr None)"
  by (rule swapped_pair_stored_reversed) (simp_all add: good_user_def clean_user_def)

text \<open>
  Looking up a number can change what a LID maps to. When a LID has moved from one number to
  another, the store finds the new number; but looking up the old one enters its pair in both
  directions in the cache, and from then on the LID gives the old number.
\<close>

theorem lookup_poisons_reverse:
  assumes "good_user old" "good_user new" "good_user lu"
    and "keys LID_MAPPING old = Some lu" and "keys LID_MAPPING (reverse_key lu) = Some new"
  shows "let st = new_lid_store keys; st' = snd (get_lid_for_pn ims_get ims_set None (pn_jid old 0) st)
    in fst (get_pn_for_lid ims_get (lid_jid lu 0) st) = Inr (Some (new @ '':'' @ int_str 0 @ ''@s.whatsapp.net'')) \<and>
       lm_keys st' = keys \<and>
       fst (get_pn_for_lid ims_get (lid_jid lu 0) st') = Inr (Some (old @ '':'' @ int_str 0 @ ''@s.whatsapp.net''))"
proof -
  note dec = decode_jids(2) [OF assms(1), of 0] decode_jids(1) [OF assms(3), of 0] jid_class(2) [of old 0] jid_class(1) [of lu 0]
  have ne: "old \<noteq> ''''" "lu \<noteq> ''''" using assms(1,3) by (simp_all add: good_user_def)
  show ?thesis
    using dec ne assms(4,5)
    by (simp add: get_lid_for_pn_def get_lids_for_pns_def get_pn_for_lid_def get_pns_for_lids_def lid_cache_get_def
        keys_get_def ims_get_def cache_stored_def lid_cache_set_def resolved_pn_def device_of_def new_lid_store_def Let_def)
qed

text \<open>The hypotheses are met after the two mappings have been stored by the code itself.\<close>

definition moved_keys :: "string store" where
  "moved_keys = lm_keys (snd (store_lid_pn_mappings ims_get ims_set [(lid_jid ''777'' 0, pn_jid ''5522'' 0)]
     (snd (store_lid_pn_mappings ims_get ims_set [(lid_jid ''777'' 0, pn_jid ''5511'' 0)] (new_lid_store (\<lambda>_. Map.empty))))))"

lemma moved_keys_eq: "moved_keys LID_MAPPING ''5511'' = Some ''777''" "moved_keys LID_MAPPING (reverse_key ''777'') = Some ''5522''"
proof -
  have v: "validate_pairs [(lid_jid ''777'' 0, pn_jid p 0)] = Inr [(p, ''777'')]" if "good_user p" for p
    by (rule validate_single [OF _ that]) (simp_all add: good_user_def clean_user_def)
  have g: "good_user ''5511''" "good_user ''5522''" by (simp_all add: good_user_def clean_user_def)
  show "moved_keys LID_MAPPING ''5511'' = Some ''777''" "moved_keys LID_MAPPING (reverse_key ''777'') = Some ''5522''"
    by (simp_all add: moved_keys_def store_lid_pn_mappings_def v [OF g(1)] v [OF g(2)] lid_cache_get_def keys_get_def
        ims_get_def changed_pairs_def batch_data_def reverse_key_def new_lid_store_def pn_key_def
        cache_pair_def lid_cache_set_def lid_key_def del: validate_pairs.simps)
qed

theorem lookup_poisons_reverse_witness:
  "let st = new_lid_store moved_keys; st' = snd (get_lid_for_pn ims_get ims_set None (pn_jid ''5511'' 0) st)
    in fst (get_pn_for_lid ims_get (lid_jid ''777'' 0) st) = Inr (Some (''5522'' @ '':'' @ int_str 0 @ ''@s.whatsapp.net'')) \<and>
       lm_keys st' = moved_keys \<and>
       fst (get_pn_for_lid ims_get (lid_jid ''777'' 0) st') = Inr (Some (''5511'' @ '':'' @ int_str 0 @ ''@s.whatsapp.net''))"
  by (rule lookup_poisons_reverse) (simp_all add: moved_keys_eq good_user_def clean_user_def)

end
