(* ===== verification/Lt_Hash.thy ===== *)
theory Lt_Hash
  imports Prelude "HOL-Library.Multiset"
begin

text \<open>
  The summation hash of the app state: \<^verbatim>\<open>utils/lt_hash.py\<close> and the generator
  \<open>make_lt_hash_generator\<close> of \<^verbatim>\<open>utils/chat_utils.py\<close>. The hash is a vector
  of 128 bytes to which the expansion of every value MAC is added, byte by byte modulo 256. SHA-512
  is an argument. The invariant is that the hash is the sum over the index map.
\<close>

section \<open>LTHashAntiTampering\<close>

definition HASH_SIZE :: nat where
  "HASH_SIZE = 128"

definition expand_value :: "(bytes \<Rightarrow> bytes) \<Rightarrow> bytes \<Rightarrow> bytes" where
  "expand_value sha512 value_mac = sha512 value_mac @ sha512 (value_mac @ [1])"

definition fit_hash :: "bytes \<Rightarrow> bytes" where
  "fit_hash base =
     (if length base < HASH_SIZE then base @ replicate (HASH_SIZE - length base) 0
      else if length base > HASH_SIZE then take HASH_SIZE base else base)"

text \<open>\<open>& 0xFF\<close> is the arithmetic of 8-bit words.\<close>

definition sub_expanded :: "bytes \<Rightarrow> bytes \<Rightarrow> bytes" where
  "sub_expanded state expanded = map (\<lambda>idx. state ! idx - expanded ! idx) [0..<HASH_SIZE]"

definition add_expanded :: "bytes \<Rightarrow> bytes \<Rightarrow> bytes" where
  "add_expanded state expanded = map (\<lambda>idx. state ! idx + expanded ! idx) [0..<HASH_SIZE]"

definition subtract_then_add :: "(bytes \<Rightarrow> bytes) \<Rightarrow> bytes \<Rightarrow> bytes list \<Rightarrow> bytes list \<Rightarrow> bytes" where
  "subtract_then_add sha512 current_hash subtract_values add_values =
     (let state = fit_hash current_hash;
          state = foldl (\<lambda>s v. sub_expanded s (expand_value sha512 v)) state subtract_values
      in foldl (\<lambda>s v. add_expanded s (expand_value sha512 v)) state add_values)"

section \<open>The generator\<close>

datatype sync_op = OP_SET | OP_REMOVE

record lt_mutation =
  lm_index_mac :: bytes
  lm_value_mac :: bytes
  lm_operation :: sync_op

text \<open>
  The map from indexes to value MACs. The code uses the index MAC in base64 as the key, an encoding
  that keeps different MACs apart; here the key is the MAC.
\<close>

type_synonym index_map = "(bytes, bytes) dict"

record lt_generator =
  lg_map :: index_map
  lg_hash :: bytes
  lg_add :: "bytes list"
  lg_sub :: "bytes list"

definition make_lt_hash_generator :: "bytes \<Rightarrow> index_map \<Rightarrow> lt_generator" where
  "make_lt_hash_generator hash index_value_map =
     \<lparr>lg_map = index_value_map, lg_hash = (if hash = [] then replicate 128 0 else hash), lg_add = [], lg_sub = []\<rparr>"

definition mix :: "lt_mutation \<Rightarrow> lt_generator \<Rightarrow> lt_generator result" where
  "mix m g =
     (let prev = map_of (lg_map g) (lm_index_mac m) in
      if lm_operation m = OP_REMOVE \<and> prev = None then Inl (ValueError ''tried remove, but no previous op'')
      else
        let g = (if lm_operation m = OP_REMOVE then g\<lparr>lg_map := dict_pop (lm_index_mac m) (lg_map g)\<rparr>
                 else g\<lparr>lg_add := lg_add g @ [lm_value_mac m],
                        lg_map := dict_set (lm_index_mac m) (lm_value_mac m) (lg_map g)\<rparr>)
        in Inr (case prev of None \<Rightarrow> g | Some p \<Rightarrow> g\<lparr>lg_sub := lg_sub g @ [p]\<rparr>))"

fun mix_all :: "lt_mutation list \<Rightarrow> lt_generator \<Rightarrow> lt_generator result" where
  "mix_all [] g = Inr g"
| "mix_all (m # ms) g = bindE (mix m g) (mix_all ms)"

definition finish :: "(bytes \<Rightarrow> bytes) \<Rightarrow> lt_generator \<Rightarrow> bytes \<times> index_map" where
  "finish sha512 g = (subtract_then_add sha512 (lg_hash g) (lg_sub g) (lg_add g), lg_map g)"

section \<open>The hash byte by byte\<close>

definition cell :: "(bytes \<Rightarrow> bytes) \<Rightarrow> nat \<Rightarrow> bytes \<Rightarrow> byte" where
  "cell sha512 i v = expand_value sha512 v ! i"

lemma length_fit_hash [simp]: "length (fit_hash b) = HASH_SIZE"
  by (simp add: fit_hash_def)

lemma fit_hash_id: "length b = HASH_SIZE \<Longrightarrow> fit_hash b = b"
  by (simp add: fit_hash_def)

lemma foldl_sub:
  "length s = HASH_SIZE \<Longrightarrow> length (foldl (\<lambda>s v. sub_expanded s (expand_value sha512 v)) s vs) = HASH_SIZE \<and>
   (\<forall>i<HASH_SIZE. foldl (\<lambda>s v. sub_expanded s (expand_value sha512 v)) s vs ! i = s ! i - (\<Sum>v\<leftarrow>vs. cell sha512 i v))"
proof (induction vs arbitrary: s)
  case (Cons v vs)
  have "length (sub_expanded s (expand_value sha512 v)) = HASH_SIZE" by (simp add: sub_expanded_def)
  from Cons.IH [OF this] show ?case by (simp add: sub_expanded_def cell_def algebra_simps)
qed simp

lemma foldl_add:
  "length s = HASH_SIZE \<Longrightarrow> length (foldl (\<lambda>s v. add_expanded s (expand_value sha512 v)) s vs) = HASH_SIZE \<and>
   (\<forall>i<HASH_SIZE. foldl (\<lambda>s v. add_expanded s (expand_value sha512 v)) s vs ! i = s ! i + (\<Sum>v\<leftarrow>vs. cell sha512 i v))"
proof (induction vs arbitrary: s)
  case (Cons v vs)
  have "length (add_expanded s (expand_value sha512 v)) = HASH_SIZE" by (simp add: add_expanded_def)
  from Cons.IH [OF this] show ?case by (simp add: add_expanded_def cell_def algebra_simps)
qed simp

lemma subtract_then_add_cell:
  "length (subtract_then_add sha512 h subs adds) = HASH_SIZE"
  "i < HASH_SIZE \<Longrightarrow> subtract_then_add sha512 h subs adds ! i =
     fit_hash h ! i - (\<Sum>v\<leftarrow>subs. cell sha512 i v) + (\<Sum>v\<leftarrow>adds. cell sha512 i v)"
proof -
  let ?s = "foldl (\<lambda>s v. sub_expanded s (expand_value sha512 v)) (fit_hash h) subs"
  have s: "length ?s = HASH_SIZE" "\<And>i. i < HASH_SIZE \<Longrightarrow> ?s ! i = fit_hash h ! i - (\<Sum>v\<leftarrow>subs. cell sha512 i v)"
    using foldl_sub [of "fit_hash h" sha512 subs] by simp_all
  show "length (subtract_then_add sha512 h subs adds) = HASH_SIZE"
    using foldl_add [OF s(1)] by (simp add: subtract_then_add_def)
  show "subtract_then_add sha512 h subs adds ! i =
     fit_hash h ! i - (\<Sum>v\<leftarrow>subs. cell sha512 i v) + (\<Sum>v\<leftarrow>adds. cell sha512 i v)" if "i < HASH_SIZE"
    using foldl_add [OF s(1)] s(2) that by (simp add: subtract_then_add_def)
qed

section \<open>The hash is the sum over the map\<close>

definition map_sum :: "(bytes \<Rightarrow> bytes) \<Rightarrow> nat \<Rightarrow> index_map \<Rightarrow> byte" where
  "map_sum sha512 i d = (\<Sum>v\<leftarrow>map snd d. cell sha512 i v)"

definition hash_matches :: "(bytes \<Rightarrow> bytes) \<Rightarrow> bytes \<Rightarrow> index_map \<Rightarrow> bool" where
  "hash_matches sha512 hash d \<longleftrightarrow> dict_wf d \<and> length hash = HASH_SIZE \<and>
     (\<forall>i<HASH_SIZE. hash ! i = map_sum sha512 i d)"

definition old_cell :: "(bytes \<Rightarrow> bytes) \<Rightarrow> nat \<Rightarrow> bytes option \<Rightarrow> byte" where
  "old_cell sha512 i p = (case p of None \<Rightarrow> 0 | Some v \<Rightarrow> cell sha512 i v)"

lemma map_sum_set:
  "dict_wf d \<Longrightarrow> map_sum sha512 i (dict_set k v d) = map_sum sha512 i d - old_cell sha512 i (map_of d k) + cell sha512 i v"
  by (induction k v d rule: dict_set.induct) (auto simp: map_sum_def old_cell_def dict_wf_def)

lemma map_sum_pop:
  "dict_wf d \<Longrightarrow> map_sum sha512 i (dict_pop k d) = map_sum sha512 i d - old_cell sha512 i (map_of d k)"
proof (induction d)
  case (Cons p d)
  obtain k' v where p: "p = (k', v)" by (cases p)
  with Cons show ?case
    using dict_pop_absent [of k d]
    by (auto simp: map_sum_def old_cell_def dict_wf_def dict_pop_def)
qed (simp add: map_sum_def old_cell_def dict_pop_def)

text \<open>What the generator has collected accounts for the change of the map.\<close>

definition generator_inv :: "(bytes \<Rightarrow> bytes) \<Rightarrow> index_map \<Rightarrow> lt_generator \<Rightarrow> bool" where
  "generator_inv sha512 d0 g \<longleftrightarrow> dict_wf (lg_map g) \<and>
     (\<forall>i. map_sum sha512 i (lg_map g) =
        map_sum sha512 i d0 - (\<Sum>v\<leftarrow>lg_sub g. cell sha512 i v) + (\<Sum>v\<leftarrow>lg_add g. cell sha512 i v))"

lemma mix_inv:
  assumes "generator_inv sha512 d0 g" and "mix m g = Inr g'"
  shows "generator_inv sha512 d0 g' \<and> lg_hash g' = lg_hash g"
  using assms
  by (cases "lm_operation m"; cases "map_of (lg_map g) (lm_index_mac m)")
    (auto simp: mix_def generator_inv_def Let_def map_sum_set map_sum_pop old_cell_def split: if_splits)

lemma mix_all_inv:
  "generator_inv sha512 d0 g \<Longrightarrow> mix_all ms g = Inr g' \<Longrightarrow> generator_inv sha512 d0 g' \<and> lg_hash g' = lg_hash g"
proof (induction ms arbitrary: g)
  case (Cons m ms)
  then obtain g1 where "mix m g = Inr g1" "mix_all ms g1 = Inr g'" by (auto simp: bindE_eq_Inr_iff)
  with mix_inv [OF Cons.prems(1)] Cons.IH show ?case by metis
qed simp

lemma finish_matches:
  assumes "hash_matches sha512 h d0" and "generator_inv sha512 d0 g" and "lg_hash g = h"
  shows "hash_matches sha512 (fst (finish sha512 g)) (snd (finish sha512 g))"
  using assms by (simp add: hash_matches_def finish_def generator_inv_def fit_hash_id subtract_then_add_cell)

lemma make_generator_inv: "hash_matches sha512 h d \<Longrightarrow> generator_inv sha512 d (make_lt_hash_generator h d) \<and> lg_hash (make_lt_hash_generator h d) = h"
  by (auto simp: hash_matches_def generator_inv_def make_lt_hash_generator_def HASH_SIZE_def)

text \<open>
  C14. Whatever mutations are mixed in, the hash that comes out is the sum over the index map that
  comes out, if it was so before.
\<close>

theorem lt_hash_tracks_map:
  assumes "hash_matches sha512 hash d" and "mix_all ms (make_lt_hash_generator hash d) = Inr g"
  shows "hash_matches sha512 (fst (finish sha512 g)) (snd (finish sha512 g))"
proof -
  note g = make_generator_inv [OF assms(1)]
  from mix_all_inv [OF conjunct1 [OF g] assms(2)] g have "generator_inv sha512 d g" "lg_hash g = hash" by simp_all
  then show ?thesis by (rule finish_matches [OF assms(1)])
qed

definition demo_sha512 :: "bytes \<Rightarrow> bytes" where
  "demo_sha512 b = replicate 64 (sum_list b)"

lemma empty_matches: "hash_matches sha512 (replicate 128 0) []"
  by (simp add: hash_matches_def HASH_SIZE_def map_sum_def dict_wf_def)

definition demo_mutations :: "lt_mutation list" where
  "demo_mutations = [\<lparr>lm_index_mac = [1], lm_value_mac = [9], lm_operation = OP_SET\<rparr>,
     \<lparr>lm_index_mac = [2], lm_value_mac = [8], lm_operation = OP_SET\<rparr>,
     \<lparr>lm_index_mac = [1], lm_value_mac = [9], lm_operation = OP_REMOVE\<rparr>]"

lemma demo_mutations_mixed: "mix_all demo_mutations (make_lt_hash_generator (replicate 128 0) []) =
  Inr \<lparr>lg_map = [([2], [8])], lg_hash = replicate 128 0, lg_add = [[9], [8]], lg_sub = [[9]]\<rparr>"
  by (simp add: demo_mutations_def mix_def make_lt_hash_generator_def dict_pop_def)

theorem lt_hash_tracks_map_witness:
  "hash_matches demo_sha512 (subtract_then_add demo_sha512 (replicate 128 0) [[9]] [[9], [8]]) [([2], [8])]"
  using lt_hash_tracks_map [OF empty_matches demo_mutations_mixed, of demo_sha512] by (simp add: finish_def)

lemma map_sum_perm: "mset d = mset e \<Longrightarrow> map_sum sha512 i d = map_sum sha512 i e"
  unfolding map_sum_def by (metis mset_map sum_mset_sum_list)


text \<open>
  The hash depends only on the entries of the map, not on the order or the number of the mutations
  that led to it: two clients that end with the same entries have the same hash.
\<close>

theorem lt_hash_order_independent:
  assumes "mix_all ms (make_lt_hash_generator (replicate 128 0) []) = Inr g"
    and "mix_all ns (make_lt_hash_generator (replicate 128 0) []) = Inr g'" and "mset (lg_map g) = mset (lg_map g')"
  shows "fst (finish sha512 g) = fst (finish sha512 g')"
proof -
  have tracks: "hash_matches sha512 (fst (finish sha512 x)) (snd (finish sha512 x))"
    if "mix_all xs (make_lt_hash_generator (replicate 128 0) []) = Inr x" for xs x
  proof -
    note m = make_generator_inv [OF empty_matches [of sha512]]
    from mix_all_inv [OF conjunct1 [OF m] that] m show ?thesis
      by (intro finish_matches [OF empty_matches]) simp_all
  qed
  have "length (fst (finish sha512 g)) = HASH_SIZE" "length (fst (finish sha512 g')) = HASH_SIZE"
    "\<And>i. i < HASH_SIZE \<Longrightarrow> fst (finish sha512 g) ! i = fst (finish sha512 g') ! i"
    using tracks [OF assms(1)] tracks [OF assms(2)] map_sum_perm [OF assms(3)]
    by (simp_all add: hash_matches_def finish_def)
  then show ?thesis by (simp add: list_eq_iff_nth_eq)
qed

theorem lt_hash_order_independent_witness:
  "subtract_then_add demo_sha512 (replicate 128 0) [[9]] [[9], [8]] = subtract_then_add demo_sha512 (replicate 128 0) [] [[8]]"
proof -
  have "mix_all [\<lparr>lm_index_mac = [2], lm_value_mac = [8], lm_operation = OP_SET\<rparr>] (make_lt_hash_generator (replicate 128 0) []) =
    Inr \<lparr>lg_map = [([2], [8])], lg_hash = replicate 128 0, lg_add = [[8]], lg_sub = []\<rparr>"
    by (simp add: mix_def make_lt_hash_generator_def)
  from lt_hash_order_independent [OF demo_mutations_mixed this, of demo_sha512] show ?thesis by (simp add: finish_def)
qed

end
