(* ===== verification/App_State.thy ===== *)
theory App_State
  imports Lt_Hash Crypto
begin

text \<open>
  App state patches: the key expansion, the MACs and the encoder and decoder of patches of
  \<^verbatim>\<open>utils/chat_utils.py\<close>. HMAC, the hash, the cipher and \<open>json\<close> are a
  record of arguments; a JSON value is of any type \<open>'j\<close>. Key ids are the bytes whose base64 the
  code uses. \<open>on_mutation\<close> is modelled by the list of mutations it is called with, which is kept
  when the decoder raises afterwards.
\<close>

record 'j sync_lib =
  sy_hmac256 :: "bytes \<Rightarrow> bytes \<Rightarrow> bytes"
  sy_hmac512 :: "bytes \<Rightarrow> bytes \<Rightarrow> bytes"
  sy_sha512 :: "bytes \<Rightarrow> bytes"
  sy_encrypt :: "bytes \<Rightarrow> bytes \<Rightarrow> bytes \<Rightarrow> bytes"
  sy_decrypt :: "bytes \<Rightarrow> bytes \<Rightarrow> bytes \<Rightarrow> bytes result"
  sy_dumps_index :: "'j \<Rightarrow> bytes"
  sy_dumps :: "'j \<times> 'j \<times> int \<Rightarrow> bytes"
  sy_loads :: "bytes \<Rightarrow> ('j \<times> 'j \<times> int) result"

section \<open>Keys and MACs\<close>

text \<open>\<open>hmac_sign\<close> takes the data first and the key second.\<close>

definition hmac_sign :: "(bytes \<Rightarrow> bytes \<Rightarrow> bytes) \<Rightarrow> bytes \<Rightarrow> bytes \<Rightarrow> bytes" where
  "hmac_sign hmac buffer key = hmac key buffer"

record sync_keys =
  index_key :: bytes
  value_encryption_key :: bytes
  value_mac_key :: bytes
  snapshot_mac_key :: bytes
  patch_mac_key :: bytes

function mutation_material :: "(bytes \<Rightarrow> bytes \<Rightarrow> bytes) \<Rightarrow> bytes \<Rightarrow> bytes \<Rightarrow> bytes \<Rightarrow> nat \<Rightarrow> bytes result" where
  "mutation_material hmac512 seed keydata material counter =
     (if length material < 160 then
        (if counter > 255 then Inl (ValueError ''bytes must be in range(0, 256)'')
         else mutation_material hmac512 seed keydata
                (material @ hmac_sign hmac512 (seed @ [to_byte (int counter)]) keydata) (counter + 1))
      else Inr material)"
  by auto
termination by (relation "measure (\<lambda>(_, _, _, _, counter). 256 - counter)") auto

declare mutation_material.simps [simp del]

definition mutation_keys :: "(bytes \<Rightarrow> bytes \<Rightarrow> bytes) \<Rightarrow> bytes \<Rightarrow> sync_keys result" where
  "mutation_keys hmac512 keydata =
     (let seed = hmac_sign hmac512 keydata (utf8_encode ''app-state-sync-key-seed'')
      in bindE (mutation_material hmac512 seed keydata [] 1) (\<lambda>material.
           Inr \<lparr>index_key = take 32 material, value_encryption_key = take 32 (drop 32 material),
                value_mac_key = take 32 (drop 64 material), snapshot_mac_key = take 32 (drop 96 material),
                patch_mac_key = take 32 (drop 128 material)\<rparr>))"

definition generate_mac :: "(bytes \<Rightarrow> bytes \<Rightarrow> bytes) \<Rightarrow> sync_op \<Rightarrow> bytes \<Rightarrow> bytes \<Rightarrow> bytes \<Rightarrow> bytes result" where
  "generate_mac hmac512 operation data key_id key =
     (let op_byte = (if operation = OP_SET then 1 else 2);
          key_data = op_byte # key_id
      in if length key_data > 255 then Inl (ValueError ''byte must be in range(0, 256)'')
         else let suffix = replicate 7 0 @ [to_byte (int (length key_data))];
                  total = key_data @ data @ suffix
              in Inr (take 32 (hmac_sign hmac512 total key)))"

definition to_64_bit_network_order :: "int \<Rightarrow> bytes result" where
  "to_64_bit_network_order v = (if 0 \<le> v \<and> v < 2 ^ 64 then Inr (be_bytes 8 v) else Inl OverflowErr)"

definition generate_snapshot_mac :: "(bytes \<Rightarrow> bytes \<Rightarrow> bytes) \<Rightarrow> bytes \<Rightarrow> int \<Rightarrow> string \<Rightarrow> bytes \<Rightarrow> bytes result" where
  "generate_snapshot_mac hmac256 lthash version name key =
     bindE (to_64_bit_network_order version) (\<lambda>v. Inr (hmac_sign hmac256 (lthash @ v @ utf8_encode name) key))"

definition generate_patch_mac ::
    "(bytes \<Rightarrow> bytes \<Rightarrow> bytes) \<Rightarrow> bytes \<Rightarrow> bytes list \<Rightarrow> int \<Rightarrow> string \<Rightarrow> bytes \<Rightarrow> bytes result" where
  "generate_patch_mac hmac256 snapshot_mac value_macs version patch_type key =
     bindE (to_64_bit_network_order version) (\<lambda>v.
       Inr (hmac_sign hmac256 (snapshot_mac @ concat value_macs @ v @ utf8_encode patch_type) key))"

section \<open>Patches\<close>

record app_state =
  as_version :: int
  as_hash :: bytes
  as_map :: index_map

definition new_lthash_state :: app_state where
  "new_lthash_state = \<lparr>as_version = 0, as_hash = replicate 128 0, as_map = []\<rparr>"

record sync_record =
  sr_operation :: sync_op
  sr_index_blob :: bytes
  sr_value_blob :: bytes
  sr_key_id :: bytes

record sync_patch =
  sp_patch_mac :: bytes
  sp_snapshot_mac :: bytes
  sp_key_id :: bytes
  sp_version :: int
  sp_mutations :: "sync_record list"

record 'j patch_create =
  pc_index :: 'j
  pc_action :: 'j
  pc_operation :: sync_op
  pc_api_version :: int
  pc_type :: string

type_synonym key_fetch = "bytes \<Rightarrow> bytes option"

definition fetch_keys :: "'j sync_lib \<Rightarrow> key_fetch \<Rightarrow> bytes \<Rightarrow> sync_keys result" where
  "fetch_keys lib get_app_state_sync_key key_id =
     (case get_app_state_sync_key key_id of
        None \<Rightarrow> Inl (ValueError ''failed to find key'')
      | Some keydata \<Rightarrow> mutation_keys (sy_hmac512 lib) keydata)"

text \<open>The initialisation vector that \<open>aes_encrypt\<close> draws is an argument.\<close>

definition encode_syncd_patch ::
    "'j sync_lib \<Rightarrow> bytes \<Rightarrow> 'j patch_create \<Rightarrow> bytes \<Rightarrow> app_state \<Rightarrow> key_fetch \<Rightarrow> (sync_patch \<times> app_state) result" where
  "encode_syncd_patch lib iv pc enc_key_id state get_app_state_sync_key =
     (if enc_key_id = [] then Inl (ValueError ''myAppStateKey not present'') else
      bindE (fetch_keys lib get_app_state_sync_key enc_key_id) (\<lambda>key_set.
        let index_buffer = sy_dumps_index lib (pc_index pc);
            encoded = sy_dumps lib (pc_index pc, pc_action pc, pc_api_version pc);
            enc_value = aes_encrypt (sy_encrypt lib) iv encoded (value_encryption_key key_set)
        in bindE (generate_mac (sy_hmac512 lib) (pc_operation pc) enc_value enc_key_id (value_mac_key key_set)) (\<lambda>value_mac.
        let index_mac = hmac_sign (sy_hmac256 lib) index_buffer (index_key key_set)
        in bindE (mix \<lparr>lm_index_mac = index_mac, lm_value_mac = value_mac, lm_operation = pc_operation pc\<rparr>
                   (make_lt_hash_generator (as_hash state) (as_map state))) (\<lambda>g.
        let (hash, index_map) = finish (sy_sha512 lib) g;
            version = as_version state + 1
        in bindE (generate_snapshot_mac (sy_hmac256 lib) hash version (pc_type pc) (snapshot_mac_key key_set)) (\<lambda>snapshot_mac.
           bindE (generate_patch_mac (sy_hmac256 lib) snapshot_mac [value_mac] version (pc_type pc) (patch_mac_key key_set)) (\<lambda>patch_mac.
             Inr (\<lparr>sp_patch_mac = patch_mac, sp_snapshot_mac = snapshot_mac, sp_key_id = enc_key_id, sp_version = version,
                   sp_mutations = [\<lparr>sr_operation = pc_operation pc, sr_index_blob = index_mac,
                                    sr_value_blob = enc_value @ value_mac, sr_key_id = enc_key_id\<rparr>]\<rparr>,
                  \<lparr>as_version = version, as_hash = hash, as_map = dict_set index_mac value_mac index_map\<rparr>)))))))"

text \<open>One mutation: what it says, and the entry for the hash.\<close>

definition decode_mutation ::
    "'j sync_lib \<Rightarrow> key_fetch \<Rightarrow> bool \<Rightarrow> sync_record \<Rightarrow> (('j \<times> 'j \<times> int) \<times> lt_mutation) result" where
  "decode_mutation lib get_app_state_sync_key validate_macs r =
     bindE (fetch_keys lib get_app_state_sync_key (sr_key_id r)) (\<lambda>keys.
       let content = sr_value_blob r in
       if length content < 32 then Inl (ValueError ''invalid mutation value blob'')
       else
         let enc_content = take (length content - 32) content;
             og_value_mac = drop (length content - 32) content
         in bindE (if validate_macs
                   then bindE (generate_mac (sy_hmac512 lib) (sr_operation r) enc_content (sr_key_id r) (value_mac_key keys))
                     (\<lambda>content_mac. if content_mac \<noteq> og_value_mac then Inl (ValueError ''HMAC content verification failed'') else Inr ())
                   else Inr ()) (\<lambda>_.
            bindE (aes_decrypt (sy_decrypt lib) enc_content (value_encryption_key keys)) (\<lambda>decoded_raw.
            bindE (sy_loads lib decoded_raw) (\<lambda>decoded.
              if validate_macs \<and>
                 hmac_sign (sy_hmac256 lib) (sy_dumps_index lib (fst decoded)) (index_key keys) \<noteq> sr_index_blob r
              then Inl (ValueError ''HMAC index verification failed'')
              else Inr (decoded, \<lparr>lm_index_mac = sr_index_blob r, lm_value_mac = og_value_mac,
                                  lm_operation = sr_operation r\<rparr>)))))"

text \<open>The mutations handed to \<open>on_mutation\<close>, and the generator at the end.\<close>

fun decode_mutations ::
    "'j sync_lib \<Rightarrow> key_fetch \<Rightarrow> bool \<Rightarrow> sync_record list \<Rightarrow> lt_generator \<Rightarrow>
     ('j \<times> 'j \<times> int) list \<times> lt_generator result" where
  "decode_mutations lib get_key validate_macs [] g = ([], Inr g)"
| "decode_mutations lib get_key validate_macs (r # rs) g =
     (case decode_mutation lib get_key validate_macs r of
        Inl e \<Rightarrow> ([], Inl e)
      | Inr (decoded, m) \<Rightarrow>
          (case mix m g of
             Inl e \<Rightarrow> ([decoded], Inl e)
           | Inr g' \<Rightarrow> (let (ds, res) = decode_mutations lib get_key validate_macs rs g' in (decoded # ds, res))))"

definition decode_syncd_mutations ::
    "'j sync_lib \<Rightarrow> key_fetch \<Rightarrow> bool \<Rightarrow> sync_record list \<Rightarrow> bytes \<Rightarrow> index_map \<Rightarrow>
     ('j \<times> 'j \<times> int) list \<times> (bytes \<times> index_map) result" where
  "decode_syncd_mutations lib get_key validate_macs rs hash index_map =
     (let (ds, res) = decode_mutations lib get_key validate_macs rs (make_lt_hash_generator hash index_map)
      in (ds, bindE res (\<lambda>g. Inr (finish (sy_sha512 lib) g))))"

definition decode_syncd_patch ::
    "'j sync_lib \<Rightarrow> key_fetch \<Rightarrow> bool \<Rightarrow> sync_patch \<Rightarrow> string \<Rightarrow> bytes \<Rightarrow> index_map \<Rightarrow>
     ('j \<times> 'j \<times> int) list \<times> (bytes \<times> index_map) result" where
  "decode_syncd_patch lib get_key validate_macs msg name hash index_map =
     (case (if validate_macs
            then bindE (fetch_keys lib get_key (sp_key_id msg)) (\<lambda>keys.
                 bindE (generate_patch_mac (sy_hmac256 lib) (sp_snapshot_mac msg)
                    (map (\<lambda>r. drop (length (sr_value_blob r) - 32) (sr_value_blob r)) (sp_mutations msg))
                    (sp_version msg) name (patch_mac_key keys)) (\<lambda>patch_mac.
                 if patch_mac \<noteq> sp_patch_mac msg then Inl (ValueError ''Invalid patch mac'') else Inr ()))
            else Inr ()) of
        Inl e \<Rightarrow> ([], Inl e)
      | Inr _ \<Rightarrow> decode_syncd_mutations lib get_key validate_macs (sp_mutations msg) hash index_map)"


section \<open>Encoding, taken apart\<close>

lemma dict_set_twice [simp]: "dict_set k v (dict_set k w d) = dict_set k v d"
  by (induction d) auto

lemma dict_pop_set [simp]: "dict_pop k (dict_set k v d) = dict_pop k d"
  by (induction d) (auto simp: dict_pop_def)

lemma dict_pop_twice [simp]: "dict_pop k (dict_pop k d) = dict_pop k d"
  by (simp add: dict_pop_def)

lemma encode_syncd_patch_ex:
  assumes "encode_syncd_patch lib iv pc key_id state get_key = Inr (patch, state')"
  shows "\<exists>keys enc vm idx g hash m smac pmac.
    fetch_keys lib get_key key_id = Inr keys \<and>
    enc = aes_encrypt (sy_encrypt lib) iv (sy_dumps lib (pc_index pc, pc_action pc, pc_api_version pc)) (value_encryption_key keys) \<and>
    generate_mac (sy_hmac512 lib) (pc_operation pc) enc key_id (value_mac_key keys) = Inr vm \<and>
    idx = hmac_sign (sy_hmac256 lib) (sy_dumps_index lib (pc_index pc)) (index_key keys) \<and>
    mix \<lparr>lm_index_mac = idx, lm_value_mac = vm, lm_operation = pc_operation pc\<rparr> (make_lt_hash_generator (as_hash state) (as_map state)) = Inr g \<and>
    finish (sy_sha512 lib) g = (hash, m) \<and>
    generate_patch_mac (sy_hmac256 lib) smac [vm] (as_version state + 1) (pc_type pc) (patch_mac_key keys) = Inr pmac \<and>
    patch = \<lparr>sp_patch_mac = pmac, sp_snapshot_mac = smac, sp_key_id = key_id, sp_version = as_version state + 1,
       sp_mutations = [\<lparr>sr_operation = pc_operation pc, sr_index_blob = idx, sr_value_blob = enc @ vm, sr_key_id = key_id\<rparr>]\<rparr> \<and>
    state' = \<lparr>as_version = as_version state + 1, as_hash = hash, as_map = dict_set idx vm m\<rparr>"
  using assms
  by (auto simp: encode_syncd_patch_def bindE_eq_Inr_iff Let_def split_beta prod_eq_iff split: if_splits)

lemma encode_syncd_patch_Inr:
  assumes "encode_syncd_patch lib iv pc key_id state get_key = Inr (patch, state')"
  obtains keys enc vm idx g hash m smac pmac where
    "fetch_keys lib get_key key_id = Inr keys"
    "enc = aes_encrypt (sy_encrypt lib) iv (sy_dumps lib (pc_index pc, pc_action pc, pc_api_version pc)) (value_encryption_key keys)"
    "generate_mac (sy_hmac512 lib) (pc_operation pc) enc key_id (value_mac_key keys) = Inr vm"
    "idx = hmac_sign (sy_hmac256 lib) (sy_dumps_index lib (pc_index pc)) (index_key keys)"
    "mix \<lparr>lm_index_mac = idx, lm_value_mac = vm, lm_operation = pc_operation pc\<rparr> (make_lt_hash_generator (as_hash state) (as_map state)) = Inr g"
    "finish (sy_sha512 lib) g = (hash, m)"
    "generate_patch_mac (sy_hmac256 lib) smac [vm] (as_version state + 1) (pc_type pc) (patch_mac_key keys) = Inr pmac"
    "patch = \<lparr>sp_patch_mac = pmac, sp_snapshot_mac = smac, sp_key_id = key_id, sp_version = as_version state + 1,
       sp_mutations = [\<lparr>sr_operation = pc_operation pc, sr_index_blob = idx, sr_value_blob = enc @ vm, sr_key_id = key_id\<rparr>]\<rparr>"
    "state' = \<lparr>as_version = as_version state + 1, as_hash = hash, as_map = dict_set idx vm m\<rparr>"
  using encode_syncd_patch_ex [OF assms] that by blast

lemma mix_single:
  assumes "mix \<lparr>lm_index_mac = idx, lm_value_mac = vm, lm_operation = oper\<rparr> (make_lt_hash_generator h d) = Inr g"
  shows "lg_map g = (if oper = OP_REMOVE then dict_pop idx d else dict_set idx vm d)"
  using assms by (auto simp: mix_def make_lt_hash_generator_def Let_def split: if_splits option.splits)

lemma length_generate_mac:
  "(\<And>k d. length (hmac512 k d) = 64) \<Longrightarrow> generate_mac hmac512 oper data kid key = Inr mac \<Longrightarrow> length mac = 32"
  by (auto simp: generate_mac_def hmac_sign_def Let_def split: if_splits)

section \<open>Properties\<close>

text \<open>What the primitives and \<open>json\<close> promise, for the vector \<open>iv\<close> that was drawn.\<close>

definition lib_ok :: "'j sync_lib \<Rightarrow> bytes \<Rightarrow> bool" where
  "lib_ok lib iv \<longleftrightarrow> length iv = 16 \<and> (\<forall>v. sy_loads lib (sy_dumps lib v) = Inr v) \<and>
     (\<forall>key p. sy_decrypt lib key iv (sy_encrypt lib key iv p) = Inr p) \<and>
     (\<forall>k d. length (sy_hmac512 lib k d) = 64)"

lemma decode_encoded_mutation:
  assumes ok: "lib_ok lib iv" and keys: "fetch_keys lib get_key key_id = Inr keys"
    and enc: "enc = aes_encrypt (sy_encrypt lib) iv (sy_dumps lib v) (value_encryption_key keys)"
    and vm: "generate_mac (sy_hmac512 lib) oper enc key_id (value_mac_key keys) = Inr vm"
    and idx: "idx = hmac_sign (sy_hmac256 lib) (sy_dumps_index lib (fst v)) (index_key keys)"
  shows "decode_mutation lib get_key True \<lparr>sr_operation = oper, sr_index_blob = idx, sr_value_blob = enc @ vm, sr_key_id = key_id\<rparr>
    = Inr (v, \<lparr>lm_index_mac = idx, lm_value_mac = vm, lm_operation = oper\<rparr>)"
proof -
  have "length vm = 32" using length_generate_mac [OF _ vm] ok by (simp add: lib_ok_def)
  moreover have "aes_decrypt (sy_decrypt lib) enc (value_encryption_key keys) = Inr (sy_dumps lib v)"
    using ok unfolding enc lib_ok_def by (intro aes_roundtrip) simp_all
  moreover have "sy_loads lib (sy_dumps lib v) = Inr v" using ok unfolding lib_ok_def by blast
  ultimately show ?thesis using keys vm idx by (simp add: decode_mutation_def Let_def)
qed

lemma encoded_patch_decodes:
  assumes "lib_ok lib iv" and "encode_syncd_patch lib iv pc key_id state get_key = Inr (patch, state')"
  shows "decode_syncd_patch lib get_key True patch (pc_type pc) (as_hash state) (as_map state) =
    ([(pc_index pc, pc_action pc, pc_api_version pc)],
     Inr (as_hash state', if pc_operation pc = OP_SET then as_map state'
                          else dict_pop (sr_index_blob (hd (sp_mutations patch))) (as_map state')))"
  using assms(2)
proof (rule encode_syncd_patch_Inr)
  fix keys enc vm idx g hash m smac pmac
  assume keys: "fetch_keys lib get_key key_id = Inr keys"
    and enc: "enc = aes_encrypt (sy_encrypt lib) iv (sy_dumps lib (pc_index pc, pc_action pc, pc_api_version pc)) (value_encryption_key keys)"
    and vm: "generate_mac (sy_hmac512 lib) (pc_operation pc) enc key_id (value_mac_key keys) = Inr vm"
    and idx: "idx = hmac_sign (sy_hmac256 lib) (sy_dumps_index lib (pc_index pc)) (index_key keys)"
    and mix: "mix \<lparr>lm_index_mac = idx, lm_value_mac = vm, lm_operation = pc_operation pc\<rparr>
      (make_lt_hash_generator (as_hash state) (as_map state)) = Inr g"
    and fin: "finish (sy_sha512 lib) g = (hash, m)"
    and pmac: "generate_patch_mac (sy_hmac256 lib) smac [vm] (as_version state + 1) (pc_type pc) (patch_mac_key keys) = Inr pmac"
    and patch: "patch = \<lparr>sp_patch_mac = pmac, sp_snapshot_mac = smac, sp_key_id = key_id, sp_version = as_version state + 1,
       sp_mutations = [\<lparr>sr_operation = pc_operation pc, sr_index_blob = idx, sr_value_blob = enc @ vm, sr_key_id = key_id\<rparr>]\<rparr>"
    and st': "state' = \<lparr>as_version = as_version state + 1, as_hash = hash, as_map = dict_set idx vm m\<rparr>"
  have "length vm = 32" using length_generate_mac [OF _ vm] assms(1) by (simp add: lib_ok_def)
  moreover have d: "decode_mutation lib get_key True
      \<lparr>sr_operation = pc_operation pc, sr_index_blob = idx, sr_value_blob = enc @ vm, sr_key_id = key_id\<rparr>
    = Inr ((pc_index pc, pc_action pc, pc_api_version pc),
           \<lparr>lm_index_mac = idx, lm_value_mac = vm, lm_operation = pc_operation pc\<rparr>)"
    by (rule decode_encoded_mutation [OF assms(1) keys enc vm]) (simp add: idx)
  moreover have m: "m = (if pc_operation pc = OP_REMOVE then dict_pop idx (as_map state) else dict_set idx vm (as_map state))"
    using mix_single [OF mix] fin by (simp add: finish_def)
  have "pc_operation pc = OP_SET \<Longrightarrow> dict_set idx vm m = m" "pc_operation pc \<noteq> OP_SET \<Longrightarrow> dict_pop idx m = m"
    by (cases "pc_operation pc"; simp add: m)+
  ultimately show ?thesis
    using keys pmac mix fin by (simp add: decode_syncd_patch_def decode_syncd_mutations_def patch st')
qed

lemma mutation_keys_ok:
  assumes "\<And>k d. length (hmac512 k d) = 64"
  shows "\<exists>keys. mutation_keys hmac512 keydata = Inr keys \<and> length (index_key keys) = 32 \<and>
    length (value_encryption_key keys) = 32 \<and> length (value_mac_key keys) = 32 \<and>
    length (snapshot_mac_key keys) = 32 \<and> length (patch_mac_key keys) = 32"
proof -
  have "\<exists>m. mutation_material hmac512 seed keydata [] 1 = Inr m \<and> length m = 192" for seed
    by (simp add: mutation_material.simps hmac_sign_def assms)
  then obtain m where "mutation_material hmac512 (hmac_sign hmac512 keydata (utf8_encode ''app-state-sync-key-seed'')) keydata [] 1 = Inr m"
    "length m = 192" by blast
  then show ?thesis by (simp add: mutation_keys_def Let_def)
qed

lemma encode_syncd_patch_succeeds:
  assumes "lib_ok lib iv" and "get_key key_id = Some keydata" and "key_id \<noteq> []" "length key_id < 255"
    and "0 \<le> as_version state" "as_version state + 1 < 2 ^ 64"
    and "\<And>keys. fetch_keys lib get_key key_id = Inr keys \<Longrightarrow> pc_operation pc = OP_REMOVE \<Longrightarrow>
      map_of (as_map state) (hmac_sign (sy_hmac256 lib) (sy_dumps_index lib (pc_index pc)) (index_key keys)) \<noteq> None"
  shows "\<exists>patch state'. encode_syncd_patch lib iv pc key_id state get_key = Inr (patch, state') \<and>
    as_version state' = as_version state + 1 \<and> sp_version patch = as_version state'"
proof -
  obtain keys where k: "fetch_keys lib get_key key_id = Inr keys"
    using mutation_keys_ok [of "sy_hmac512 lib" keydata] assms(1,2) by (auto simp: fetch_keys_def lib_ok_def)
  let ?enc = "aes_encrypt (sy_encrypt lib) iv (sy_dumps lib (pc_index pc, pc_action pc, pc_api_version pc)) (value_encryption_key keys)"
  let ?idx = "hmac_sign (sy_hmac256 lib) (sy_dumps_index lib (pc_index pc)) (index_key keys)"
  obtain vm where vm: "generate_mac (sy_hmac512 lib) (pc_operation pc) ?enc key_id (value_mac_key keys) = Inr vm"
    using assms(4) by (simp add: generate_mac_def Let_def)
  obtain g where g: "mix \<lparr>lm_index_mac = ?idx, lm_value_mac = vm, lm_operation = pc_operation pc\<rparr>
      (make_lt_hash_generator (as_hash state) (as_map state)) = Inr g"
    using assms(7) [OF k] by (auto simp: mix_def make_lt_hash_generator_def Let_def)
  obtain hash m where f: "finish (sy_sha512 lib) g = (hash, m)" by (cases "finish (sy_sha512 lib) g")
  obtain x where x: "to_64_bit_network_order (as_version state + 1) = Inr x"
    using assms(5,6) by (simp add: to_64_bit_network_order_def)
  show ?thesis
    using assms(3) by (simp add: encode_syncd_patch_def k vm g f x generate_snapshot_mac_def generate_patch_mac_def Let_def)
qed
text \<open>
  With a key that is present, setting a value always gives a patch, and the decoder accepts it with
  all MACs checked: it yields the index, the action and the version that were put in, and arrives at
  the encoder's hash and map.
\<close>

theorem syncd_patch_roundtrip:
  assumes "lib_ok lib iv" and "get_key key_id = Some keydata" and "key_id \<noteq> []" "length key_id < 255"
    and "0 \<le> as_version state" "as_version state + 1 < 2 ^ 64" and "pc_operation pc = OP_SET"
  shows "\<exists>patch state'. encode_syncd_patch lib iv pc key_id state get_key = Inr (patch, state') \<and>
    decode_syncd_patch lib get_key True patch (pc_type pc) (as_hash state) (as_map state) =
      ([(pc_index pc, pc_action pc, pc_api_version pc)], Inr (as_hash state', as_map state'))"
proof -
  obtain patch state' where e: "encode_syncd_patch lib iv pc key_id state get_key = Inr (patch, state')"
    using encode_syncd_patch_succeeds [where get_key = get_key and key_id = key_id and pc = pc, OF assms(1-6)] assms(7) by auto
  from encoded_patch_decodes [OF assms(1) e] e assms(7) show ?thesis by auto
qed

text \<open>A library that keeps its promises, for JSON values that are numbers.\<close>

definition demo_loads :: "bytes \<Rightarrow> (nat \<times> nat \<times> int) result" where
  "demo_loads b =
     (let i = length (takeWhile ((=) 0) b); b = tl (dropWhile ((=) 0) b);
          v = length (takeWhile ((=) 0) b); b = tl (dropWhile ((=) 0) b);
          n = int (length (tl b))
      in Inr (i, v, if hd b = 0 then n else - n))"

definition demo_lib :: "nat sync_lib" where
  "demo_lib = \<lparr>sy_hmac256 = (\<lambda>k d. d @ k), sy_hmac512 = (\<lambda>k d. take 64 (d @ k @ replicate 64 1)),
     sy_sha512 = demo_sha512, sy_encrypt = (\<lambda>key iv p. key @ p),
     sy_decrypt = (\<lambda>key iv c. Inr (drop (length key) c)), sy_dumps_index = (\<lambda>i. replicate i 1),
     sy_dumps = (\<lambda>(i, v, n). replicate i 0 @ [1] @ replicate v 0 @ [1] @ (if n < 0 then 1 else 0) # replicate (nat \<bar>n\<bar>) 0),
     sy_loads = demo_loads\<rparr>"

lemma takeWhile_replicate_0: "takeWhile ((=) (0 :: byte)) (replicate n 0 @ 1 # r) = replicate n 0"
  "dropWhile ((=) (0 :: byte)) (replicate n 0 @ 1 # r) = 1 # r"
  by (induction n) auto

lemma demo_lib_ok: "lib_ok demo_lib (replicate 16 0)"
  by (auto simp: lib_ok_def demo_lib_def demo_loads_def takeWhile_replicate_0 Let_def)

definition demo_patch :: "sync_op \<Rightarrow> nat patch_create" where
  "demo_patch oper = \<lparr>pc_index = 4, pc_action = 2, pc_operation = oper, pc_api_version = 3, pc_type = ''regular_low''\<rparr>"

definition demo_keys :: key_fetch where
  "demo_keys = (\<lambda>k. if k = [1] then Some [5, 6] else None)"

theorem syncd_patch_roundtrip_witness:
  "\<exists>patch state'. encode_syncd_patch demo_lib (replicate 16 0) (demo_patch OP_SET) [1] new_lthash_state demo_keys = Inr (patch, state') \<and>
    decode_syncd_patch demo_lib demo_keys True patch (pc_type (demo_patch OP_SET)) (as_hash new_lthash_state) (as_map new_lthash_state) =
      ([(pc_index (demo_patch OP_SET), pc_action (demo_patch OP_SET), pc_api_version (demo_patch OP_SET))],
       Inr (as_hash state', as_map state'))"
  by (rule syncd_patch_roundtrip [OF demo_lib_ok, of _ _ "[5, 6]"])
    (simp_all add: demo_keys_def new_lthash_state_def demo_patch_def)

text \<open>
  A patch that sets a value keeps the invariant of the app state: the hash is the sum over the
  index map.
\<close>

theorem set_patch_keeps_hash:
  assumes "encode_syncd_patch lib iv pc key_id state get_key = Inr (patch, state')" and "pc_operation pc = OP_SET"
    and "hash_matches (sy_sha512 lib) (as_hash state) (as_map state)"
  shows "hash_matches (sy_sha512 lib) (as_hash state') (as_map state')"
  using assms(1)
proof (rule encode_syncd_patch_Inr)
  fix keys enc vm idx g hash m smac pmac
  assume mix: "mix \<lparr>lm_index_mac = idx, lm_value_mac = vm, lm_operation = pc_operation pc\<rparr>
      (make_lt_hash_generator (as_hash state) (as_map state)) = Inr g"
    and fin: "finish (sy_sha512 lib) g = (hash, m)"
    and st': "state' = \<lparr>as_version = as_version state + 1, as_hash = hash, as_map = dict_set idx vm m\<rparr>"
  note i = make_generator_inv [OF assms(3)]
  have "hash_matches (sy_sha512 lib) hash m"
    using finish_matches [OF assms(3)] mix_inv [OF conjunct1 [OF i] mix] i fin by fastforce
  moreover have "m = dict_set idx vm (as_map state)"
    using mix_single [OF mix] fin assms(2) by (simp add: finish_def)
  then have "dict_set idx vm m = m" by simp
  ultimately show ?thesis by (simp add: st')
qed

text \<open>
  A patch that removes an entry breaks it: after the generator has taken the entry out, the encoder
  enters it again, under the MAC of the removal. The hash is that of the map without the entry, so
  it is wrong for the map the caller keeps unless the expansion of that MAC is zero.
\<close>

theorem remove_patch_leaves_entry:
  assumes "encode_syncd_patch lib iv pc key_id state get_key = Inr (patch, state')" and "pc_operation pc = OP_REMOVE"
    and "hash_matches (sy_sha512 lib) (as_hash state) (as_map state)"
  shows "let idx = sr_index_blob (hd (sp_mutations patch)) in
    hash_matches (sy_sha512 lib) (as_hash state') (dict_pop idx (as_map state')) \<and>
    (\<exists>vm. map_of (as_map state') idx = Some vm \<and>
      ((\<exists>i<HASH_SIZE. cell (sy_sha512 lib) i vm \<noteq> 0) \<longrightarrow> \<not> hash_matches (sy_sha512 lib) (as_hash state') (as_map state')))"
  using assms(1)
proof (rule encode_syncd_patch_Inr)
  fix keys enc vm idx g hash m smac pmac
  assume mix: "mix \<lparr>lm_index_mac = idx, lm_value_mac = vm, lm_operation = pc_operation pc\<rparr>
      (make_lt_hash_generator (as_hash state) (as_map state)) = Inr g"
    and fin: "finish (sy_sha512 lib) g = (hash, m)"
    and patch: "patch = \<lparr>sp_patch_mac = pmac, sp_snapshot_mac = smac, sp_key_id = key_id, sp_version = as_version state + 1,
       sp_mutations = [\<lparr>sr_operation = pc_operation pc, sr_index_blob = idx, sr_value_blob = enc @ vm, sr_key_id = key_id\<rparr>]\<rparr>"
    and st': "state' = \<lparr>as_version = as_version state + 1, as_hash = hash, as_map = dict_set idx vm m\<rparr>"
  note i = make_generator_inv [OF assms(3)]
  have h: "hash_matches (sy_sha512 lib) hash m"
    using finish_matches [OF assms(3)] mix_inv [OF conjunct1 [OF i] mix] i fin by fastforce
  have m: "m = dict_pop idx (as_map state)" using mix_single [OF mix] fin assms(2) by (simp add: finish_def)
  then have none: "map_of m idx = None" by simp
  have "\<not> hash_matches (sy_sha512 lib) hash (dict_set idx vm m)"
    if "i < HASH_SIZE" "cell (sy_sha512 lib) i vm \<noteq> 0" for i
  proof
    assume "hash_matches (sy_sha512 lib) hash (dict_set idx vm m)"
    then have "map_sum (sy_sha512 lib) i (dict_set idx vm m) = map_sum (sy_sha512 lib) i m"
      using h that(1) by (simp add: hash_matches_def)
    with h none that(2) show False
      by (simp add: map_sum_set hash_matches_def old_cell_def)
  qed
  then show ?thesis using h m by (auto simp: patch st')
qed

lemma decode_mutations_authentic:
  assumes "d \<in> set (fst (decode_mutations lib get_key True rs g))"
  shows "\<exists>r\<in>set rs. \<exists>keys. fetch_keys lib get_key (sr_key_id r) = Inr keys \<and>
    generate_mac (sy_hmac512 lib) (sr_operation r) (take (length (sr_value_blob r) - 32) (sr_value_blob r)) (sr_key_id r)
      (value_mac_key keys) = Inr (drop (length (sr_value_blob r) - 32) (sr_value_blob r)) \<and>
    hmac_sign (sy_hmac256 lib) (sy_dumps_index lib (fst d)) (index_key keys) = sr_index_blob r"
  using assms
proof (induction rs arbitrary: g)
  case (Cons r rs)
  show ?case
  proof (cases "decode_mutation lib get_key True r")
    case (Inl e)
    with Cons.prems show ?thesis by simp
  next
    case (Inr p)
    obtain d' m where p: "p = (d', m)" by (cases p)
    have auth: "\<exists>keys. fetch_keys lib get_key (sr_key_id r) = Inr keys \<and>
      generate_mac (sy_hmac512 lib) (sr_operation r) (take (length (sr_value_blob r) - 32) (sr_value_blob r)) (sr_key_id r)
        (value_mac_key keys) = Inr (drop (length (sr_value_blob r) - 32) (sr_value_blob r)) \<and>
      hmac_sign (sy_hmac256 lib) (sy_dumps_index lib (fst d')) (index_key keys) = sr_index_blob r"
      using Inr by (auto simp: decode_mutation_def p bindE_eq_Inr_iff Let_def split: if_splits)
    show ?thesis
    proof (cases "d = d'")
      case True
      with auth show ?thesis by auto
    next
      case False
      with Cons.prems Inr p obtain g' where "mix m g = Inr g'" by (cases "mix m g") auto
      with False Cons.prems Inr p have "d \<in> set (fst (decode_mutations lib get_key True rs g'))"
        by (simp add: split_beta)
      from Cons.IH [OF this] show ?thesis by auto
    qed
  qed
qed simp




lemma demo_set_patch: "\<exists>patch st. encode_syncd_patch demo_lib (replicate 16 0) (demo_patch OP_SET) [1] new_lthash_state demo_keys = Inr (patch, st)"
  using encode_syncd_patch_succeeds [OF demo_lib_ok, of demo_keys "[1]" "[5, 6]" new_lthash_state "demo_patch OP_SET"]
  by (auto simp: demo_keys_def new_lthash_state_def demo_patch_def)

theorem set_patch_keeps_hash_witness:
  "\<exists>patch st. encode_syncd_patch demo_lib (replicate 16 0) (demo_patch OP_SET) [1] new_lthash_state demo_keys = Inr (patch, st) \<and>
     hash_matches demo_sha512 (as_hash st) (as_map st)"
proof -
  obtain patch st where e: "encode_syncd_patch demo_lib (replicate 16 0) (demo_patch OP_SET) [1] new_lthash_state demo_keys = Inr (patch, st)"
    using demo_set_patch by blast
  have "hash_matches (sy_sha512 demo_lib) (as_hash new_lthash_state) (as_map new_lthash_state)"
    by (simp add: new_lthash_state_def empty_matches)
  from set_patch_keeps_hash [OF e _ this] e show ?thesis by (auto simp: demo_patch_def demo_lib_def)
qed


lemma demo_remove_patch:
  "\<exists>state patch st. encode_syncd_patch demo_lib (replicate 16 0) (demo_patch OP_REMOVE) [1] state demo_keys = Inr (patch, st) \<and>
     hash_matches demo_sha512 (as_hash state) (as_map state)"
proof -
  obtain patch st where e: "encode_syncd_patch demo_lib (replicate 16 0) (demo_patch OP_SET) [1] new_lthash_state demo_keys = Inr (patch, st)"
    and v: "as_version st = 1"
    using encode_syncd_patch_succeeds [OF demo_lib_ok, of demo_keys "[1]" "[5, 6]" new_lthash_state "demo_patch OP_SET"]
    by (auto simp: demo_keys_def new_lthash_state_def demo_patch_def)
  have "hash_matches (sy_sha512 demo_lib) (as_hash new_lthash_state) (as_map new_lthash_state)"
    by (simp add: new_lthash_state_def empty_matches)
  from e have h: "hash_matches demo_sha512 (as_hash st) (as_map st)"
  proof (rule encode_syncd_patch_Inr)
    fix keys enc vm idx g hash m smac pmac
    assume mix: "mix \<lparr>lm_index_mac = idx, lm_value_mac = vm, lm_operation = pc_operation (demo_patch OP_SET)\<rparr>
        (make_lt_hash_generator (as_hash new_lthash_state) (as_map new_lthash_state)) = Inr g"
      and fin: "finish (sy_sha512 demo_lib) g = (hash, m)"
      and st: "st = \<lparr>as_version = as_version new_lthash_state + 1, as_hash = hash, as_map = dict_set idx vm m\<rparr>"
    have em: "hash_matches demo_sha512 (replicate 128 0) []" by (rule empty_matches)
    note i = make_generator_inv [OF em]
    have "hash_matches demo_sha512 hash m"
      using finish_matches [OF em] mix_inv [OF conjunct1 [OF i]] mix i fin
      by (fastforce simp: new_lthash_state_def demo_lib_def)
    moreover have "m = [(idx, vm)]"
      using mix_single [OF mix] fin by (simp add: finish_def demo_patch_def new_lthash_state_def)
    ultimately show ?thesis by (simp add: st)
  qed
  have "map_of (as_map st) (hmac_sign (sy_hmac256 demo_lib) (sy_dumps_index demo_lib (pc_index (demo_patch OP_REMOVE))) (index_key keys)) \<noteq> None"
    if "fetch_keys demo_lib demo_keys [1] = Inr keys" for keys
    using e that by (auto elim!: encode_syncd_patch_Inr simp: demo_patch_def)
  then obtain patch2 st2 where "encode_syncd_patch demo_lib (replicate 16 0) (demo_patch OP_REMOVE) [1] st demo_keys = Inr (patch2, st2)"
    using encode_syncd_patch_succeeds [OF demo_lib_ok, of demo_keys "[1]" "[5, 6]" st "demo_patch OP_REMOVE"] v
    by (auto simp: demo_keys_def)
  with h show ?thesis by blast
qed

theorem remove_patch_leaves_entry_witness:
  "\<exists>state patch st. encode_syncd_patch demo_lib (replicate 16 0) (demo_patch OP_REMOVE) [1] state demo_keys = Inr (patch, st) \<and>
     (let idx = sr_index_blob (hd (sp_mutations patch)) in
      hash_matches (sy_sha512 demo_lib) (as_hash st) (dict_pop idx (as_map st)) \<and>
      (\<exists>vm. map_of (as_map st) idx = Some vm))"
proof -
  obtain state patch st where e: "encode_syncd_patch demo_lib (replicate 16 0) (demo_patch OP_REMOVE) [1] state demo_keys = Inr (patch, st)"
    and h: "hash_matches (sy_sha512 demo_lib) (as_hash state) (as_map state)"
    using demo_remove_patch by (auto simp: demo_lib_def)
  have r: "pc_operation (demo_patch OP_REMOVE) = OP_REMOVE" by (simp add: demo_patch_def)
  from remove_patch_leaves_entry [OF e r h] e show ?thesis
    by (intro exI [of _ state] exI [of _ patch] exI [of _ st]) (auto simp: Let_def)
qed

end
