(* ===== verification/Keyed_Mutex.thy ===== *)
theory Keyed_Mutex
  imports Prelude
begin

text \<open>
  \<^verbatim>\<open>KeyedMutex\<close> of \<^verbatim>\<open>utils/make_mutex.py\<close> with any number of tasks. A step is
  what one task does between two points where another may run. The bodies of
  \<^verbatim>\<open>_get_lock\<close> and \<^verbatim>\<open>_release_lock\<close> hold the guard without such a
  point, so each is one step; an \<open>asyncio.Lock\<close> is a number with at most one owner; a task that
  waits may be cancelled, which runs the \<open>finally\<close> clause.
\<close>

section \<open>State and operations\<close>

type_synonym task = nat
type_synonym lock = nat

datatype pc = Idle | Waiting string lock | Running string lock | Leaving string

record keyed_mutex =
  km_locks :: "string \<Rightarrow> lock option"
  km_ref_count :: "string \<Rightarrow> int"
  km_owner :: "lock \<Rightarrow> task option"
  km_next :: lock
  km_pc :: "task \<Rightarrow> pc"

definition new_keyed_mutex :: keyed_mutex where
  "new_keyed_mutex = \<lparr>km_locks = (\<lambda>_. None), km_ref_count = (\<lambda>_. 0), km_owner = (\<lambda>_. None),
     km_next = 0, km_pc = (\<lambda>_. Idle)\<rparr>"

text \<open>A key without a count reads as zero: the counts are a \<open>defaultdict(int)\<close>.\<close>

definition get_lock :: "string \<Rightarrow> keyed_mutex \<Rightarrow> lock \<times> keyed_mutex" where
  "get_lock key s =
     (let s1 = (case km_locks s key of
                  None \<Rightarrow> s\<lparr>km_locks := (km_locks s)(key \<mapsto> km_next s), km_next := Suc (km_next s)\<rparr>
                | Some _ \<Rightarrow> s);
          s2 = s1\<lparr>km_ref_count := (km_ref_count s1)(key := km_ref_count s1 key + 1)\<rparr>
      in (the (km_locks s2 key), s2))"

definition release_lock :: "string \<Rightarrow> keyed_mutex \<Rightarrow> keyed_mutex" where
  "release_lock key s =
     (let s1 = s\<lparr>km_ref_count := (km_ref_count s)(key := km_ref_count s key - 1)\<rparr>
      in if km_ref_count s1 key \<le> 0
         then s1\<lparr>km_ref_count := (km_ref_count s1)(key := 0), km_locks := (km_locks s1)(key := None)\<rparr>
         else s1)"

definition goto :: "task \<Rightarrow> pc \<Rightarrow> keyed_mutex \<Rightarrow> keyed_mutex" where
  "goto t p s = s\<lparr>km_pc := (km_pc s)(t := p)\<rparr>"

text \<open>The steps of \<open>mutex\<close>: get the lock, enter, leave the critical section, release.\<close>

inductive mutex_step :: "keyed_mutex \<Rightarrow> keyed_mutex \<Rightarrow> bool" where
  enter: "km_pc s t = Idle \<Longrightarrow> get_lock key s = (l, s') \<Longrightarrow> mutex_step s (goto t (Waiting key l) s')"
| acquire: "km_pc s t = Waiting key l \<Longrightarrow> km_owner s l = None \<Longrightarrow>
    mutex_step s (goto t (Running key l) (s\<lparr>km_owner := (km_owner s)(l \<mapsto> t)\<rparr>))"
| finish_task: "km_pc s t = Running key l \<Longrightarrow>
    mutex_step s (goto t (Leaving key) (s\<lparr>km_owner := (km_owner s)(l := None)\<rparr>))"
| cancel: "km_pc s t = Waiting key l \<Longrightarrow> mutex_step s (goto t (Leaving key) s)"
| leave: "km_pc s t = Leaving key \<Longrightarrow> mutex_step s (goto t Idle (release_lock key s))"

inductive mutex_reachable :: "keyed_mutex \<Rightarrow> bool" where
  start: "mutex_reachable new_keyed_mutex"
| step: "mutex_reachable s \<Longrightarrow> mutex_step s s' \<Longrightarrow> mutex_reachable s'"

section \<open>The invariant\<close>

text \<open>
  The count of a key is the number of tasks between \<open>_get_lock\<close> and \<open>_release_lock\<close>, the key has
  a lock exactly while there are any, all of them use that lock, and a lock's owner is the task
  that runs under it.
\<close>

fun on_key :: "string \<Rightarrow> pc \<Rightarrow> bool" where
  "on_key k Idle = False"
| "on_key k (Waiting k' _) = (k = k')"
| "on_key k (Running k' _) = (k = k')"
| "on_key k (Leaving k') = (k = k')"

fun lock_of :: "pc \<Rightarrow> (string \<times> lock) option" where
  "lock_of (Waiting k l) = Some (k, l)"
| "lock_of (Running k l) = Some (k, l)"
| "lock_of _ = None"

definition users :: "keyed_mutex \<Rightarrow> string \<Rightarrow> task set" where
  "users s k = {t. on_key k (km_pc s t)}"

definition mutex_inv :: "keyed_mutex \<Rightarrow> bool" where
  "mutex_inv s \<longleftrightarrow>
     (\<forall>k. finite (users s k) \<and> km_ref_count s k = int (card (users s k)) \<and>
          (km_locks s k = None \<longleftrightarrow> users s k = {})) \<and>
     (\<forall>t k l. lock_of (km_pc s t) = Some (k, l) \<longrightarrow> km_locks s k = Some l) \<and>
     (\<forall>k l. km_locks s k = Some l \<longrightarrow> l < km_next s) \<and>
     (\<forall>k k' l. km_locks s k = Some l \<longrightarrow> km_locks s k' = Some l \<longrightarrow> k = k') \<and>
     (\<forall>t l. km_owner s l = Some t \<longleftrightarrow> (\<exists>k. km_pc s t = Running k l))"

lemma goto_simps [simp]:
  "km_locks (goto t p s) = km_locks s" "km_ref_count (goto t p s) = km_ref_count s"
  "km_owner (goto t p s) = km_owner s" "km_next (goto t p s) = km_next s"
  "km_pc (goto t p s) = (km_pc s)(t := p)"
  by (simp_all add: goto_def)

lemma mutex_inv_new: "mutex_inv new_keyed_mutex"
  by (simp add: mutex_inv_def new_keyed_mutex_def users_def)

text \<open>The two operations on counts and locks, as what they do to the three maps.\<close>

lemma get_lock_effect:
  assumes "get_lock key s = (l, s')" and "mutex_inv s"
  shows "km_pc s' = km_pc s" "km_owner s' = km_owner s"
    "km_ref_count s' = (km_ref_count s)(key := km_ref_count s key + 1)"
    "km_locks s' = (km_locks s)(key \<mapsto> l)" "l < km_next s'" "km_next s \<le> km_next s'"
    "km_locks s key = Some l \<or> km_locks s key = None \<and> l = km_next s"
  using assms by (auto simp: get_lock_def mutex_inv_def Let_def split: option.splits)

lemma mutex_invI:
  assumes "\<And>k. finite (users s k)" and "\<And>k. km_ref_count s k = int (card (users s k))"
    and "\<And>k. km_locks s k = None \<longleftrightarrow> users s k = {}"
    and "\<And>t k l. lock_of (km_pc s t) = Some (k, l) \<Longrightarrow> km_locks s k = Some l"
    and "\<And>k l. km_locks s k = Some l \<Longrightarrow> l < km_next s"
    and "\<And>k k' l. km_locks s k = Some l \<Longrightarrow> km_locks s k' = Some l \<Longrightarrow> k = k'"
    and "\<And>t l. km_owner s l = Some t \<longleftrightarrow> (\<exists>k. km_pc s t = Running k l)"
  shows "mutex_inv s"
  using assms unfolding mutex_inv_def by blast

lemma mutex_invD:
  assumes "mutex_inv s"
  shows "finite (users s k)" and "km_ref_count s k = int (card (users s k))"
    and "km_locks s k = None \<longleftrightarrow> users s k = {}"
    and "lock_of (km_pc s t) = Some (k, l) \<Longrightarrow> km_locks s k = Some l"
    and "km_locks s k = Some l \<Longrightarrow> l < km_next s"
    and "km_locks s k = Some l \<Longrightarrow> km_locks s k' = Some l \<Longrightarrow> k = k'"
    and "km_owner s l = Some t \<longleftrightarrow> (\<exists>k. km_pc s t = Running k l)"
  using assms unfolding mutex_inv_def by blast+

lemma enter_inv:
  assumes inv: "mutex_inv s" and pc: "km_pc s t = Idle" and g: "get_lock key s = (l, s')"
  shows "mutex_inv (goto t (Waiting key l) s')"
proof (rule mutex_invI)
  note e = get_lock_effect [OF g inv] and i = mutex_invD [OF inv]
  have u: "users (goto t (Waiting key l) s') k = (if k = key then insert t (users s k) else users s k)" for k
    using pc e(1) by (auto simp: users_def)
  have t: "t \<notin> users s k" for k using pc by (simp add: users_def)
  show "finite (users (goto t (Waiting key l) s') k)" for k using i(1) u by simp
  show "km_ref_count (goto t (Waiting key l) s') k = int (card (users (goto t (Waiting key l) s') k))" for k
    using i(1,2) u t by (simp add: e(3))
  show "km_locks (goto t (Waiting key l) s') k = None \<longleftrightarrow> users (goto t (Waiting key l) s') k = {}" for k
    using i(3) [of k] u by (simp add: e(4))
  show "km_locks (goto t (Waiting key l) s') k = Some m"
    if "lock_of (km_pc (goto t (Waiting key l) s') t') = Some (k, m)" for t' k m
    using that i(4) [of t' k m] e(7) by (auto simp: e(1,4) split: if_splits)
  show "m < km_next (goto t (Waiting key l) s')" if "km_locks (goto t (Waiting key l) s') k = Some m" for k m
    using that i(5) [of k m] e(5,6) by (auto simp: e(4) split: if_splits)
  show "k = k'" if "km_locks (goto t (Waiting key l) s') k = Some m" "km_locks (goto t (Waiting key l) s') k' = Some m"
    for k k' m
  proof -
    have old: "k'' = key" if "km_locks s k'' = Some l" for k''
      using e(7) i(5) [OF that] i(6) [OF that, of key] by auto
    show ?thesis
      using that old [of k] old [of k'] i(6) [of k m k'] by (simp add: e(4) split: if_splits)
  qed
  show "km_owner (goto t (Waiting key l) s') m = Some t' \<longleftrightarrow> (\<exists>k. km_pc (goto t (Waiting key l) s') t' = Running k m)"
    for t' m
    using i(7) [of m t'] pc by (auto simp: e(1,2))
qed

text \<open>Steps that stay on the same key and change only the owner and the program counter.\<close>

lemma same_key_inv:
  assumes inv: "mutex_inv s"
    and key: "\<And>k. on_key k (km_pc s t) \<longleftrightarrow> on_key k p"
    and lk: "\<And>k l. lock_of p = Some (k, l) \<Longrightarrow> lock_of (km_pc s t) = Some (k, l)"
    and own: "\<And>t' l. owner l = Some t' \<longleftrightarrow> (\<exists>k. ((km_pc s)(t := p)) t' = Running k l)"
  shows "mutex_inv (goto t p (s\<lparr>km_owner := owner\<rparr>))"
proof -
  note i = mutex_invD [OF inv]
  have u: "users (goto t p (s\<lparr>km_owner := owner\<rparr>)) k = users s k" for k
    using key by (auto simp: users_def)
  show ?thesis
  proof (rule mutex_invI)
    show "km_locks (goto t p (s\<lparr>km_owner := owner\<rparr>)) k = Some l"
      if "lock_of (km_pc (goto t p (s\<lparr>km_owner := owner\<rparr>)) t') = Some (k, l)" for t' k l
      using that i(4) [of t' k l] lk [of k l] by (auto split: if_splits)
    show "km_owner (goto t p (s\<lparr>km_owner := owner\<rparr>)) l = Some t' \<longleftrightarrow>
        (\<exists>k. km_pc (goto t p (s\<lparr>km_owner := owner\<rparr>)) t' = Running k l)" for t' l
      using own [of l t'] by simp
    show "k = k'" if "km_locks (goto t p (s\<lparr>km_owner := owner\<rparr>)) k = Some l"
        "km_locks (goto t p (s\<lparr>km_owner := owner\<rparr>)) k' = Some l" for k k' l
      using that i(6) by simp
  qed (use i(1,2,3,5) in \<open>simp_all add: u\<close>)
qed

lemma leave_inv:
  assumes inv: "mutex_inv s" and pc: "km_pc s t = Leaving key"
  shows "mutex_inv (goto t Idle (release_lock key s))"
proof -
  note i = mutex_invD [OF inv]
  have t: "t \<in> users s key" "\<And>k. k \<noteq> key \<Longrightarrow> t \<notin> users s k" using pc by (simp_all add: users_def)
  have card: "int (card (users s key - {t})) = int (card (users s key)) - 1"
    using i(1) [of key] t(1) by (metis card_Suc_Diff1 of_nat_Suc add_diff_cancel_left')
  define gone where "gone \<longleftrightarrow> users s key - {t} = {}"
  have less: "km_ref_count s key - 1 = int (card (users s key - {t}))"
    using card by (simp add: i(2))
  have ref: "km_ref_count s key - 1 \<le> 0 \<longleftrightarrow> gone"
    unfolding less gone_def using i(1) [of key] by (simp del: Diff_eq_empty_iff)
  have r: "km_locks (release_lock key s) = (if gone then (km_locks s)(key := None) else km_locks s)"
    "km_ref_count (release_lock key s) = (km_ref_count s)(key := int (card (users s key - {t})))"
    "km_pc (release_lock key s) = km_pc s" "km_owner (release_lock key s) = km_owner s"
    "km_next (release_lock key s) = km_next s"
    using ref less by (auto simp: release_lock_def Let_def gone_def fun_eq_iff)
  have u: "users (goto t Idle (release_lock key s)) k = (if k = key then users s key - {t} else users s k)" for k
    using pc by (auto simp: users_def r(3))
  have others: "\<not> on_key key (km_pc s t')" if gone "t' \<noteq> t" for t'
    using that by (auto simp: gone_def users_def)
  have lk: "k \<noteq> key" if gone "lock_of (km_pc s t') = Some (k, l)" "t' \<noteq> t" for t' k l
    using others [OF that(1,3)] that(2) by (cases "km_pc s t'") auto
  show ?thesis
  proof (rule mutex_invI)
    show "km_locks (goto t Idle (release_lock key s)) k = None \<longleftrightarrow> users (goto t Idle (release_lock key s)) k = {}" for k
      using i(3) [of k] t by (auto simp: u r gone_def)
    show "km_locks (goto t Idle (release_lock key s)) k = Some l"
      if "lock_of (km_pc (goto t Idle (release_lock key s)) t') = Some (k, l)" for t' k l
      using that i(4) [of t' k l] lk [of t' k l] by (auto simp: r split: if_splits)
  qed (use i pc in \<open>auto simp: u r split: if_splits\<close>)
qed

lemma mutex_step_inv: "mutex_step s s' \<Longrightarrow> mutex_inv s \<Longrightarrow> mutex_inv s'"
proof (induction rule: mutex_step.induct)
  case (enter s t key l s')
  then show ?case by (blast intro: enter_inv)
next
  case (acquire s t key l)
  note i = mutex_invD(7) [OF acquire.prems]
  show ?case
  proof (rule same_key_inv [OF acquire.prems])
    show "((km_owner s)(l \<mapsto> t)) l' = Some t' \<longleftrightarrow> (\<exists>k. ((km_pc s)(t := Running key l)) t' = Running k l')" for t' l'
      using acquire.hyps i [of l' t'] i [of l' t] by auto
  qed (use acquire.hyps in auto)
next
  case (finish_task s t key l)
  note i = mutex_invD(7) [OF finish_task.prems]
  show ?case
  proof (rule same_key_inv [OF finish_task.prems])
    show "((km_owner s)(l := None)) l' = Some t' \<longleftrightarrow> (\<exists>k. ((km_pc s)(t := Leaving key)) t' = Running k l')" for t' l'
      using finish_task.hyps i [of l' t'] i [of l' t] by auto
  qed (use finish_task.hyps in auto)
next
  case (cancel s t key l)
  note i = mutex_invD(7) [OF cancel.prems]
  have "mutex_inv (goto t (Leaving key) (s\<lparr>km_owner := km_owner s\<rparr>))"
  proof (rule same_key_inv [OF cancel.prems])
    show "km_owner s l' = Some t' \<longleftrightarrow> (\<exists>k. ((km_pc s)(t := Leaving key)) t' = Running k l')" for t' l'
      using cancel.hyps i [of l' t'] by auto
  qed (use cancel.hyps in auto)
  then show ?case by simp
next
  case (leave s t key)
  then show ?case by (blast intro: leave_inv)
qed

lemma mutex_reachable_inv: "mutex_reachable s \<Longrightarrow> mutex_inv s"
  by (induction rule: mutex_reachable.induct) (auto intro: mutex_inv_new mutex_step_inv)

section \<open>Mutual exclusion, exact counts, progress\<close>


text \<open>
  C34. Two tasks never run under the same key at once, although the lock of a key is dropped and
  made anew whenever nobody uses it.
\<close>

theorem keyed_mutex_exclusion:
  assumes "mutex_reachable s" and "km_pc s t = Running key l" and "km_pc s t' = Running key l'"
  shows "t = t'"
proof -
  note i = mutex_invD [OF mutex_reachable_inv [OF assms(1)]]
  have "km_locks s key = Some l" "km_locks s key = Some l'"
    using i(4) [of t key l] i(4) [of t' key l'] assms(2,3) by simp_all
  then show ?thesis using i(7) [of l t] i(7) [of l t'] assms(2,3) by auto
qed

text \<open>
  The count of a key is always the number of tasks inside \<open>mutex\<close> for it, cancelled ones
  included, and the key has a lock exactly while that number is not zero: nothing leaks.
\<close>

theorem keyed_mutex_counts:
  assumes "mutex_reachable s"
  shows "km_ref_count s key = int (card {t. on_key key (km_pc s t)}) \<and>
    (km_locks s key = None \<longleftrightarrow> (\<forall>t. \<not> on_key key (km_pc s t)))"
  using mutex_invD(2,3) [OF mutex_reachable_inv [OF assms], of key] by (simp add: users_def)

text \<open>
  A task that waits can always get its turn: there are steps after which it runs, and if it is
  alone on its key it can run at once, whatever goes on under other keys.
\<close>

theorem keyed_mutex_progress:
  assumes "mutex_reachable s" and "km_pc s t = Waiting key l"
  shows "\<exists>s'. mutex_step\<^sup>*\<^sup>* s s' \<and> km_pc s' t = Running key l \<and>
    ((\<forall>t'. on_key key (km_pc s t') \<longrightarrow> t' = t) \<longrightarrow> mutex_step s s')"
proof (cases "km_owner s l")
  case None
  with mutex_step.acquire [OF assms(2)] show ?thesis
    by (intro exI [of _ "goto t (Running key l) (s\<lparr>km_owner := (km_owner s)(l \<mapsto> t)\<rparr>)"]) auto
next
  case (Some u)
  note i = mutex_invD [OF mutex_reachable_inv [OF assms(1)]]
  obtain k where u: "km_pc s u = Running k l" using i(7) [of l u] Some by blast
  have "k = key" using i(4) [of u k l] i(4) [of t key l] i(6) [of k l key] u assms(2) by simp
  have "u \<noteq> t" using u assms(2) by auto
  define s1 where "s1 = goto u (Leaving k) (s\<lparr>km_owner := (km_owner s)(l := None)\<rparr>)"
  have "mutex_step s s1" unfolding s1_def by (rule mutex_step.finish_task [OF u])
  moreover have "km_pc s1 t = Waiting key l" "km_owner s1 l = None"
    using assms(2) \<open>u \<noteq> t\<close> by (simp_all add: s1_def)
  note mutex_step.acquire [OF this]
  ultimately have "mutex_step\<^sup>*\<^sup>* s (goto t (Running key l) (s1\<lparr>km_owner := (km_owner s1)(l \<mapsto> t)\<rparr>))"
    by (meson converse_rtranclp_into_rtranclp r_into_rtranclp)
  then show ?thesis
    using u \<open>k = key\<close> \<open>u \<noteq> t\<close>
    by (intro exI [of _ "goto t (Running key l) (s1\<lparr>km_owner := (km_owner s1)(l \<mapsto> t)\<rparr>)"]) fastforce
qed

text \<open>A run: task 0 runs under a key for which task 1 waits.\<close>

definition demo_waiting :: keyed_mutex where
  "demo_waiting = goto 1 (Waiting ''a'' 0) (snd (get_lock ''a''
     ((goto 0 (Running ''a'' 0) (goto 0 (Waiting ''a'' 0) (snd (get_lock ''a'' new_keyed_mutex))))\<lparr>km_owner := [0 \<mapsto> 0]\<rparr>)))"

lemma demo_waiting_reachable: "mutex_reachable demo_waiting"
proof -
  let ?s1 = "goto 0 (Waiting ''a'' 0) (snd (get_lock ''a'' new_keyed_mutex))"
  let ?s2 = "goto 0 (Running ''a'' 0) (?s1\<lparr>km_owner := [0 \<mapsto> 0]\<rparr>)"
  have "mutex_reachable ?s1"
    by (rule mutex_reachable.step [OF mutex_reachable.start], rule mutex_step.enter)
      (simp_all add: new_keyed_mutex_def get_lock_def Let_def)
  moreover have "mutex_step ?s1 (goto 0 (Running ''a'' 0) (?s1\<lparr>km_owner := (km_owner ?s1)(0 \<mapsto> 0)\<rparr>))"
    by (rule mutex_step.acquire) (simp_all add: new_keyed_mutex_def get_lock_def Let_def)
  moreover have "km_owner ?s1 = Map.empty" by (simp add: new_keyed_mutex_def get_lock_def Let_def)
  ultimately have "mutex_reachable ?s2" using mutex_reachable.step by simp
  moreover have "mutex_step ?s2 demo_waiting"
    unfolding demo_waiting_def
    by (rule mutex_step.enter) (simp_all add: new_keyed_mutex_def get_lock_def Let_def goto_def)
  ultimately show ?thesis by (rule mutex_reachable.step)
qed

lemma demo_waiting_pcs: "km_pc demo_waiting 0 = Running ''a'' 0" "km_pc demo_waiting 1 = Waiting ''a'' 0"
  by (simp_all add: demo_waiting_def get_lock_def new_keyed_mutex_def goto_def Let_def)

theorem keyed_mutex_exclusion_witness:
  "km_pc demo_waiting 0 = Running ''a'' 0 \<and> km_pc demo_waiting 1 \<noteq> Running ''a'' 0"
  using keyed_mutex_exclusion [OF demo_waiting_reachable demo_waiting_pcs(1), of 1 0] demo_waiting_pcs(1) by auto

theorem keyed_mutex_counts_witness:
  "km_ref_count demo_waiting ''a'' = int (card {t. on_key ''a'' (km_pc demo_waiting t)}) \<and>
    (km_locks demo_waiting ''a'' = None \<longleftrightarrow> (\<forall>t. \<not> on_key ''a'' (km_pc demo_waiting t)))"
  by (rule keyed_mutex_counts [OF demo_waiting_reachable])

theorem keyed_mutex_progress_witness:
  "\<exists>s'. mutex_step\<^sup>*\<^sup>* demo_waiting s' \<and> km_pc s' 1 = Running ''a'' 0"
  using keyed_mutex_progress [OF demo_waiting_reachable demo_waiting_pcs(2)] by blast

end
