(* ===== verification/Ttl_Cache.thy ===== *)
theory Ttl_Cache
  imports Prelude
begin

text \<open>
  \<^verbatim>\<open>_TTLOrderedCache\<close> of \<^verbatim>\<open>utils/message_retry_manager.py\<close>: an ordered
  dictionary with a time to live and a bound on its size, from which the least recently used entry
  goes first. The clock is an argument, one reading per operation.
\<close>

section \<open>Operations\<close>

record 'v ttl_cache =
  tc_max_items :: "nat option"
  tc_ttl :: int
  tc_store :: "(string, 'v \<times> int) dict"

definition new_ttl_cache :: "nat option \<Rightarrow> int \<Rightarrow> 'v ttl_cache" where
  "new_ttl_cache max_items ttl = \<lparr>tc_max_items = max_items, tc_ttl = ttl, tc_store = []\<rparr>"

definition purge_expired :: "int \<Rightarrow> 'v ttl_cache \<Rightarrow> 'v ttl_cache" where
  "purge_expired now c =
     (if tc_ttl c \<le> 0 then c
      else c\<lparr>tc_store := filter (\<lambda>(_, _, expiry). \<not> expiry \<le> now) (tc_store c)\<rparr>)"

definition evict_if_needed :: "'v ttl_cache \<Rightarrow> 'v ttl_cache" where
  "evict_if_needed c = (case tc_max_items c of
       None \<Rightarrow> c
     | Some m \<Rightarrow> c\<lparr>tc_store := drop (length (tc_store c) - m) (tc_store c)\<rparr>)"

definition tc_set :: "int \<Rightarrow> string \<Rightarrow> 'v \<Rightarrow> 'v ttl_cache \<Rightarrow> 'v ttl_cache" where
  "tc_set now key value c =
     (let c1 = purge_expired now c;
          expiry = (if tc_ttl c > 0 then now + tc_ttl c else 2 ^ 63 - 1);
          c2 = c1\<lparr>tc_store := dict_pop key (tc_store c1)\<rparr>;
          c3 = c2\<lparr>tc_store := dict_set key (value, expiry) (tc_store c2)\<rparr>
      in evict_if_needed c3)"

definition tc_get :: "int \<Rightarrow> string \<Rightarrow> 'v ttl_cache \<Rightarrow> 'v option \<times> 'v ttl_cache" where
  "tc_get now key c =
     (let c1 = purge_expired now c
      in case map_of (tc_store c1) key of
           None \<Rightarrow> (None, c1)
         | Some (value, expiry) \<Rightarrow>
             let c2 = c1\<lparr>tc_store := dict_pop key (tc_store c1)\<rparr>
             in if expiry \<le> now then (None, c2)
                else (Some value, c2\<lparr>tc_store := dict_set key (value, expiry) (tc_store c2)\<rparr>))"

definition tc_delete :: "string \<Rightarrow> 'v ttl_cache \<Rightarrow> 'v ttl_cache" where
  "tc_delete key c = c\<lparr>tc_store := dict_pop key (tc_store c)\<rparr>"

section \<open>The invariant: distinct keys and a bounded size\<close>

definition tc_inv :: "'v ttl_cache \<Rightarrow> bool" where
  "tc_inv c \<longleftrightarrow> dict_wf (tc_store c) \<and>
     (case tc_max_items c of None \<Rightarrow> True | Some m \<Rightarrow> length (tc_store c) \<le> m)"

lemma diff_diff_le [simp]: "(n::nat) - (n - m) \<le> m"
  by simp

lemma tc_inv_new [simp]: "tc_inv (new_ttl_cache m ttl)"
  by (simp add: tc_inv_def new_ttl_cache_def dict_wf_def split: option.splits)

lemma tc_settings [simp]:
  "tc_max_items (purge_expired now c) = tc_max_items c" "tc_ttl (purge_expired now c) = tc_ttl c"
  "tc_max_items (tc_set now k v c) = tc_max_items c" "tc_ttl (tc_set now k v c) = tc_ttl c"
  "tc_max_items (snd (tc_get now k c)) = tc_max_items c" "tc_ttl (snd (tc_get now k c)) = tc_ttl c"
  "tc_max_items (tc_delete k c) = tc_max_items c" "tc_ttl (tc_delete k c) = tc_ttl c"
  by (simp_all add: purge_expired_def tc_set_def tc_get_def tc_delete_def evict_if_needed_def Let_def
      split: option.splits)

lemma purge_store:
  "tc_store (purge_expired now c) =
     (if tc_ttl c \<le> 0 then tc_store c else filter (\<lambda>(_, _, expiry). \<not> expiry \<le> now) (tc_store c))"
  by (simp add: purge_expired_def)

lemma tc_inv_purge [simp]: "tc_inv c \<Longrightarrow> tc_inv (purge_expired now c)"
  by (auto simp: tc_inv_def purge_store split: option.splits intro: le_trans [OF length_filter_le])

lemma tc_inv_set [simp]: "tc_inv c \<Longrightarrow> tc_inv (tc_set now k v c)"
  using tc_inv_purge [of c now]
  by (auto simp: tc_inv_def tc_set_def evict_if_needed_def Let_def split: option.splits)

lemma tc_inv_delete [simp]: "tc_inv c \<Longrightarrow> tc_inv (tc_delete k c)"
  by (auto simp: tc_inv_def tc_delete_def split: option.splits intro: le_trans [OF length_dict_pop_le])

lemma tc_inv_get [simp]: "tc_inv c \<Longrightarrow> tc_inv (snd (tc_get now k c))"
proof -
  assume "tc_inv c"
  then have i: "tc_inv (purge_expired now c)" by simp
  show ?thesis
  proof (cases "map_of (tc_store (purge_expired now c)) k")
    case None
    with i show ?thesis by (simp add: tc_get_def)
  next
    case (Some p)
    note length_dict_pop_less [OF this]
    with i Some show ?thesis
      by (cases p) (auto simp: tc_get_def tc_inv_def Let_def split: option.splits)
  qed
qed

section \<open>What the bound evicts\<close>

datatype 'v tc_op = Set string 'v | Get string | Delete string

fun op_key :: "'v tc_op \<Rightarrow> string" where
  "op_key (Set k _) = k"
| "op_key (Get k) = k"
| "op_key (Delete k) = k"

fun tc_apply :: "int \<Rightarrow> 'v tc_op \<Rightarrow> 'v ttl_cache \<Rightarrow> 'v ttl_cache" where
  "tc_apply now (Set k v) c = tc_set now k v c"
| "tc_apply now (Get k) c = snd (tc_get now k c)"
| "tc_apply now (Delete k) c = tc_delete k c"

fun tc_run :: "(int \<times> 'v tc_op) list \<Rightarrow> 'v ttl_cache \<Rightarrow> 'v ttl_cache" where
  "tc_run [] c = c"
| "tc_run ((now, op) # ops) c = tc_run ops (tc_apply now op c)"

lemma tc_inv_apply [simp]: "tc_inv c \<Longrightarrow> tc_inv (tc_apply now op c)"
  by (cases op) simp_all

lemma tc_settings_apply [simp]:
  "tc_max_items (tc_apply now op c) = tc_max_items c" "tc_ttl (tc_apply now op c) = tc_ttl c"
  by (cases op; simp)+

text \<open>The entry is there, and the entries used after it have keys in \<open>K\<close>.\<close>

definition held :: "string \<Rightarrow> 'v \<Rightarrow> int \<Rightarrow> string set \<Rightarrow> (string, 'v \<times> int) dict \<Rightarrow> bool" where
  "held k v expiry K d \<longleftrightarrow> (\<exists>xs ys. d = xs @ (k, v, expiry) # ys \<and> fst ` set ys \<subseteq> K)"

lemma held_filter: "held k v e K d \<Longrightarrow> P (k, v, e) \<Longrightarrow> held k v e K (filter P d)"
  unfolding held_def by (fastforce simp: image_def)

lemma held_purge: "held k v e K (tc_store c) \<Longrightarrow> now < e \<Longrightarrow> held k v e K (tc_store (purge_expired now c))"
  by (simp add: purge_store held_filter)

lemma held_pop: "held k v e K d \<Longrightarrow> k' \<noteq> k \<Longrightarrow> held k v e K (dict_pop k' d)"
  unfolding dict_pop_def by (rule held_filter) auto

lemma held_snoc: "held k v e K d \<Longrightarrow> held k v e (insert k' K) (d @ [(k', p)])"
proof -
  assume "held k v e K d"
  then obtain xs ys where "d = xs @ (k, v, e) # ys" "fst ` set ys \<subseteq> K" by (auto simp: held_def)
  then have "d @ [(k', p)] = xs @ (k, v, e) # (ys @ [(k', p)])" "fst ` set (ys @ [(k', p)]) \<subseteq> insert k' K" by auto
  then show ?thesis unfolding held_def by blast
qed

lemma held_mono: "held k v e K d \<Longrightarrow> K \<subseteq> K' \<Longrightarrow> held k v e K' d"
  unfolding held_def by blast

lemma held_drop:
  assumes "held k v e K d" and "dict_wf d" and "finite K" and "card K < m"
  shows "held k v e K (drop (length d - m) d)"
proof -
  obtain xs ys where d: "d = xs @ (k, v, e) # ys" "fst ` set ys \<subseteq> K" using assms(1) by (auto simp: held_def)
  have "distinct (map fst ys)" using assms(2) d(1) by (simp add: dict_wf_def)
  then have "length ys = card (fst ` set ys)" by (metis distinct_card length_map list.set_map)
  then have "length ys < m" using card_mono [OF assms(3) d(2)] assms(4) by simp
  then have "length d - m \<le> length xs" using d(1) by simp
  then have "drop (length d - m) d = drop (length d - m) xs @ (k, v, e) # ys" using d(1) by simp
  with d(2) show ?thesis unfolding held_def by blast
qed

lemma map_of_held: "held k v e K d \<Longrightarrow> dict_wf d \<Longrightarrow> map_of d k = Some (v, e)"
  by (auto simp: held_def dict_wf_def map_of_eq_None_iff map_add_def split: option.splits)

lemma held_step:
  assumes h: "held k v e K (tc_store c)" and i: "tc_inv c" and now: "now < e"
    and m: "tc_max_items c = Some m" and K: "finite K" "card (K \<union> ({op_key op} - {k})) < m"
    and op: "op_key op = k \<longrightarrow> op = Get k"
  shows "held k v e (K \<union> ({op_key op} - {k})) (tc_store (tc_apply now op c))"
proof (cases op)
  case (Set k' v')
  with op have k': "k' \<noteq> k" by auto
  let ?d = "dict_pop k' (tc_store (purge_expired now c))"
  have "held k v e (insert k' K) (dict_set k' (v', x) ?d)" for x
    using held_pop [OF held_purge [OF h now] k'] by (simp add: dict_set_pop held_snoc)
  moreover have "dict_wf (dict_set k' (v', x) ?d)" for x
    using tc_inv_purge [OF i, of now] by (simp add: tc_inv_def)
  ultimately have "held k v e (insert k' K) (drop (length (dict_set k' (v', x) ?d) - m) (dict_set k' (v', x) ?d))" for x
    by (rule held_drop) (use K k' Set in auto)
  then show ?thesis using Set k' m by (simp add: tc_set_def evict_if_needed_def Let_def)
next
  case (Get k')
  let ?c = "purge_expired now c"
  have wf: "dict_wf (tc_store ?c)" using tc_inv_purge [OF i, of now] by (simp add: tc_inv_def)
  have p: "held k v e K (tc_store ?c)" by (rule held_purge [OF h now])
  show ?thesis
  proof (cases "k' = k")
    case True
    have "held k v e {} (dict_pop k (tc_store ?c) @ [(k, v, e)])" by (auto simp: held_def)
    then have "held k v e K (dict_pop k (tc_store ?c) @ [(k, v, e)])" by (rule held_mono) simp
    then show ?thesis
      using Get True map_of_held [OF p wf] now by (simp add: tc_get_def Let_def dict_set_pop)
  next
    case False
    have "held k v e (insert k' K) (tc_store ?c)" "held k v e (insert k' K) (dict_pop k' (tc_store ?c))"
      using held_mono [OF p] held_mono [OF held_pop [OF p False]] by blast+
    then show ?thesis
      using Get False held_snoc [OF held_pop [OF p False], of k']
      by (auto simp: tc_get_def Let_def dict_set_pop split: option.splits)
  qed
next
  case (Delete k')
  with op have "k' \<noteq> k" by auto
  then show ?thesis
    using Delete held_mono [OF held_pop [OF h, of k'], of "insert k' K"] by (auto simp: tc_delete_def)
qed

lemma held_run:
  assumes "held k v e K (tc_store c)" and "tc_inv c" and "tc_max_items c = Some m" and "finite K"
    and "card (K \<union> (op_key ` snd ` set ops - {k})) < m"
    and "\<And>t op. (t, op) \<in> set ops \<Longrightarrow> t < e \<and> (op_key op = k \<longrightarrow> op = Get k)"
  shows "held k v e (K \<union> (op_key ` snd ` set ops - {k})) (tc_store (tc_run ops c)) \<and> tc_inv (tc_run ops c)"
  using assms
proof (induction ops arbitrary: c K)
  case Nil
  then show ?case by simp
next
  case (Cons p ops)
  obtain t op where p: "p = (t, op)" by (cases p)
  let ?K = "K \<union> ({op_key op} - {k})"
  have split: "K \<union> (op_key ` snd ` set (p # ops) - {k}) = ?K \<union> (op_key ` snd ` set ops - {k})"
    using p by auto
  have "card ?K \<le> card (?K \<union> (op_key ` snd ` set ops - {k}))"
    by (rule card_mono) (use Cons.prems(4) in auto)
  then have "card ?K < m" using Cons.prems(5) unfolding split by simp
  moreover have "t < e" "op_key op = k \<longrightarrow> op = Get k" using Cons.prems(6) [of t op] p by auto
  ultimately have h: "held k v e ?K (tc_store (tc_apply t op c))"
    using held_step [OF Cons.prems(1,2) _ Cons.prems(3,4)] by blast
  show ?case
    using Cons.IH [OF h, unfolded split [symmetric]] Cons.prems(2-5) Cons.prems(6) p
    by (metis (no_types, lifting) finite.emptyI finite.insertI finite_Diff finite_UnI list.set_intros(2)
        tc_inv_apply tc_run.simps(2) tc_settings_apply(1))
qed

lemma tc_set_held:
  assumes "tc_inv c" and "tc_max_items c = Some m" and "0 < m" and "0 < tc_ttl c"
  shows "held k v (now + tc_ttl c) {} (tc_store (tc_set now k v c))"
proof -
  let ?d = "dict_pop k (tc_store (purge_expired now c)) @ [(k, v, now + tc_ttl c)]"
  have "dict_wf (dict_set k (v, now + tc_ttl c) (dict_pop k (tc_store (purge_expired now c))))"
    using tc_inv_purge [OF assms(1), of now] by (simp add: tc_inv_def)
  then have wf: "dict_wf ?d" by (simp only: dict_set_pop)
  have "held k v (now + tc_ttl c) {} ?d" by (auto simp: held_def)
  from this wf have "held k v (now + tc_ttl c) {} (drop (length ?d - m) ?d)" by (rule held_drop) (use assms in auto)
  then show ?thesis using assms by (simp add: tc_set_def evict_if_needed_def Let_def dict_set_pop)
qed

text \<open>
  C35. Bounded least-recently-used behaviour: a value set into a cache of \<open>m\<close> entries is still
  returned, until its time to live is over, as long as the operations since then neither
  overwrote nor deleted it and touched fewer than \<open>m\<close> other keys. The cache never holds more
  than \<open>m\<close> entries.
\<close>

theorem lru_retains:
  assumes "tc_inv c" and "tc_max_items c = Some m" and "0 < tc_ttl c"
    and ops: "\<And>t op. (t, op) \<in> set ops \<Longrightarrow> t < start + tc_ttl c \<and> (op_key op = k \<longrightarrow> op = Get k)"
    and few: "card (op_key ` snd ` set ops - {k}) < m" and "now < start + tc_ttl c"
  shows "fst (tc_get now k (tc_run ops (tc_set start k v c))) = Some v \<and>
    length (tc_store (tc_run ops (tc_set start k v c))) \<le> m"
proof -
  let ?e = "start + tc_ttl c" and ?c = "tc_run ops (tc_set start k v c)"
  have "0 < m" using few by simp
  from tc_set_held [OF assms(1,2) this assms(3)]
  have "held k v ?e (op_key ` snd ` set ops - {k}) (tc_store ?c) \<and> tc_inv ?c"
    using held_run [of k v ?e "{}" "tc_set start k v c" m ops] assms by simp
  then have h: "held k v ?e (op_key ` snd ` set ops - {k}) (tc_store ?c)" and i: "tc_inv ?c" by simp_all
  have "map_of (tc_store (purge_expired now ?c)) k = Some (v, ?e)"
    by (rule map_of_held [OF held_purge [OF h assms(6)]]) (use tc_inv_purge [OF i] in \<open>simp add: tc_inv_def\<close>)
  moreover have "tc_max_items (tc_run ops c') = tc_max_items c'" for c'
    by (induction ops arbitrary: c') auto
  with assms(2) have "tc_max_items ?c = Some m" by simp
  with i have "length (tc_store ?c) \<le> m" by (simp add: tc_inv_def)
  ultimately show ?thesis using assms(6) by (simp add: tc_get_def Let_def)
qed

theorem lru_retains_witness:
  "let c = tc_run [(1, Set ''b'' 2), (2, Get ''a''), (3, Set ''c'' (3::int))] (tc_set 0 ''a'' 1 (new_ttl_cache (Some 3) 10))
   in fst (tc_get 9 ''a'' c) = Some 1 \<and> length (tc_store c) \<le> 3"
proof -
  have "{''b'', ''a'', ''c''} - {''a''} = {''b'', ''c''}" by auto
  then have "card (op_key ` snd ` set [(1, Set ''b'' 2), (2, Get ''a''), (3, Set ''c'' (3::int))] - {''a''}) < 3" by simp
  then show ?thesis
    unfolding Let_def
    by (intro lru_retains [where start = 0 and ops = "[(1, Set ''b'' 2), (2, Get ''a''), (3, Set ''c'' 3)]"])
      (auto simp: new_ttl_cache_def tc_inv_def dict_wf_def)
qed

end
