(* ===== verification/Retry_Manager.thy ===== *)
theory Retry_Manager
  imports Ttl_Cache
begin

text \<open>
  \<^verbatim>\<open>MessageRetryManager\<close> of \<^verbatim>\<open>utils/message_retry_manager.py\<close>: the cache of
  recently sent messages, the retry counters, the rate limit on rebuilding a session and the
  delayed phone requests. The clock is an argument; a \<open>threading.Timer\<close> is a number.
\<close>

section \<open>Retry reasons\<close>

definition RECENT_MESSAGES_SIZE :: nat where "RECENT_MESSAGES_SIZE = 512"
definition MESSAGE_KEY_SEPARATOR :: string where "MESSAGE_KEY_SEPARATOR = [CHR 0x00]"
definition RECREATE_SESSION_TIMEOUT :: int where "RECREATE_SESSION_TIMEOUT = 60 * 60 * 1000"
definition PHONE_REQUEST_DELAY :: int where "PHONE_REQUEST_DELAY = 3000"

datatype retry_reason =
    UnknownError
  | SignalErrorNoSession
  | SignalErrorInvalidKey
  | SignalErrorInvalidKeyId
  | SignalErrorInvalidMessage
  | SignalErrorInvalidSignature
  | SignalErrorFutureMessage
  | SignalErrorBadMac
  | SignalErrorInvalidSession
  | SignalErrorInvalidMsgKey
  | BadBroadcastEphemeralSetting
  | UnknownCompanionNoPrekey
  | AdvFailure
  | StatusRevokeDelay

definition all_reasons :: "retry_reason list" where
  "all_reasons = [UnknownError, SignalErrorNoSession, SignalErrorInvalidKey, SignalErrorInvalidKeyId,
     SignalErrorInvalidMessage, SignalErrorInvalidSignature, SignalErrorFutureMessage, SignalErrorBadMac,
     SignalErrorInvalidSession, SignalErrorInvalidMsgKey, BadBroadcastEphemeralSetting,
     UnknownCompanionNoPrekey, AdvFailure, StatusRevokeDelay]"

fun reason_code :: "retry_reason \<Rightarrow> int" where
  "reason_code UnknownError = 0"
| "reason_code SignalErrorNoSession = 1"
| "reason_code SignalErrorInvalidKey = 2"
| "reason_code SignalErrorInvalidKeyId = 3"
| "reason_code SignalErrorInvalidMessage = 4"
| "reason_code SignalErrorInvalidSignature = 5"
| "reason_code SignalErrorFutureMessage = 6"
| "reason_code SignalErrorBadMac = 7"
| "reason_code SignalErrorInvalidSession = 8"
| "reason_code SignalErrorInvalidMsgKey = 9"
| "reason_code BadBroadcastEphemeralSetting = 10"
| "reason_code UnknownCompanionNoPrekey = 11"
| "reason_code AdvFailure = 12"
| "reason_code StatusRevokeDelay = 13"

definition MAC_ERROR_CODES :: "retry_reason set" where
  "MAC_ERROR_CODES = {SignalErrorInvalidMessage, SignalErrorBadMac}"

definition is_mac_error :: "retry_reason option \<Rightarrow> bool" where
  "is_mac_error error_code = (case error_code of None \<Rightarrow> False | Some e \<Rightarrow> e \<in> MAC_ERROR_CODES)"

definition parse_retry_error_code :: "string option \<Rightarrow> retry_reason option" where
  "parse_retry_error_code error_attr = (case error_attr of None \<Rightarrow> None
     | Some s \<Rightarrow>
         if s = '''' then None
         else (case py_int s of
                 Inl _ \<Rightarrow> None
               | Inr code \<Rightarrow>
                   if reason_code UnknownError \<le> code \<and> code \<le> reason_code StatusRevokeDelay
                   then Some (all_reasons ! nat code) else Some UnknownError))"

section \<open>State\<close>

record statistics =
  totalRetries :: int
  successfulRetries :: int
  failedRetries :: int
  mediaRetries :: int
  sessionRecreations :: int
  phoneRequests :: int

type_synonym timer = nat

record 'm retry_manager =
  rm_max :: int
  rm_recent :: "('m \<times> int) ttl_cache"
  rm_key_index :: "string \<Rightarrow> string option"
  rm_history :: "int ttl_cache"
  rm_counters :: "int ttl_cache"
  rm_pending :: "string \<Rightarrow> timer option"
  rm_armed :: "(timer \<times> string) list"
  rm_next_timer :: timer
  rm_statistics :: statistics

definition new_retry_manager :: "int \<Rightarrow> 'm retry_manager" where
  "new_retry_manager max_msg_retry_count =
     \<lparr>rm_max = max_msg_retry_count,
      rm_recent = new_ttl_cache (Some RECENT_MESSAGES_SIZE) (5 * 60 * 1000),
      rm_key_index = (\<lambda>_. None),
      rm_history = new_ttl_cache None (RECREATE_SESSION_TIMEOUT * 2),
      rm_counters = new_ttl_cache None (15 * 60 * 1000),
      rm_pending = (\<lambda>_. None), rm_armed = [], rm_next_timer = 0,
      rm_statistics = \<lparr>totalRetries = 0, successfulRetries = 0, failedRetries = 0, mediaRetries = 0,
                       sessionRecreations = 0, phoneRequests = 0\<rparr>\<rparr>"

section \<open>Operations\<close>

definition key_to_string :: "string \<Rightarrow> string \<Rightarrow> string" where
  "key_to_string to message_id = to @ MESSAGE_KEY_SEPARATOR @ message_id"

definition add_recent_message :: "int \<Rightarrow> string \<Rightarrow> string \<Rightarrow> 'm \<Rightarrow> 'm retry_manager \<Rightarrow> 'm retry_manager" where
  "add_recent_message now to message_id message m =
     (let key = key_to_string to message_id
      in m\<lparr>rm_recent := tc_set now key (message, now) (rm_recent m),
           rm_key_index := (rm_key_index m)(message_id \<mapsto> key)\<rparr>)"

definition get_recent_message ::
    "int \<Rightarrow> string \<Rightarrow> string \<Rightarrow> 'm retry_manager \<Rightarrow> ('m \<times> int) option \<times> 'm retry_manager" where
  "get_recent_message now to message_id m =
     (let (r, c) = tc_get now (key_to_string to message_id) (rm_recent m) in (r, m\<lparr>rm_recent := c\<rparr>))"

definition remove_recent_message :: "string \<Rightarrow> 'm retry_manager \<Rightarrow> 'm retry_manager" where
  "remove_recent_message message_id m =
     (let m1 = m\<lparr>rm_key_index := (rm_key_index m)(message_id := None)\<rparr>
      in case rm_key_index m message_id of
           None \<Rightarrow> m1
         | Some key \<Rightarrow> if key = '''' then m1 else m1\<lparr>rm_recent := tc_delete key (rm_recent m1)\<rparr>)"

definition mac_reason :: "retry_reason \<Rightarrow> string" where
  "mac_reason e = ''MAC error (code '' @ int_str (reason_code e) @ '': '' @
     (if e = SignalErrorInvalidMessage then ''SignalErrorInvalidMessage'' else ''SignalErrorBadMac'') @
     ''), immediate session recreation''"

definition record_recreation :: "int \<Rightarrow> string \<Rightarrow> 'm retry_manager \<Rightarrow> 'm retry_manager" where
  "record_recreation now jid m =
     m\<lparr>rm_history := tc_set now jid now (rm_history m),
       rm_statistics := (rm_statistics m)\<lparr>sessionRecreations := sessionRecreations (rm_statistics m) + 1\<rparr>\<rparr>"

definition should_recreate_session ::
    "int \<Rightarrow> string \<Rightarrow> bool \<Rightarrow> retry_reason option \<Rightarrow> 'm retry_manager \<Rightarrow> (string \<times> bool) \<times> 'm retry_manager" where
  "should_recreate_session now jid has_session error_code m =
     (if \<not> has_session then
        ((''we don't have a Signal session with them'', True), record_recreation now jid m)
      else if is_mac_error error_code then
        ((mac_reason (the error_code), True), record_recreation now jid m)
      else
        let (prev_time, c) = tc_get now jid (rm_history m);
            m1 = m\<lparr>rm_history := c\<rparr>
        in if (case prev_time of None \<Rightarrow> True | Some p \<Rightarrow> p = 0 \<or> now - p > RECREATE_SESSION_TIMEOUT)
           then ((''retry count > 1 and over an hour since last recreation'', True), record_recreation now jid m1)
           else (('''', False), m1))"

definition count_of :: "int option \<Rightarrow> int" where
  "count_of v = (case v of None \<Rightarrow> 0 | Some n \<Rightarrow> n)"

definition increment_retry_count :: "int \<Rightarrow> string \<Rightarrow> 'm retry_manager \<Rightarrow> int \<times> 'm retry_manager" where
  "increment_retry_count now message_id m =
     (let (v, c) = tc_get now message_id (rm_counters m);
          current = count_of v + 1
      in (current, m\<lparr>rm_counters := tc_set now message_id current c,
           rm_statistics := (rm_statistics m)\<lparr>totalRetries := totalRetries (rm_statistics m) + 1\<rparr>\<rparr>))"

definition get_retry_count :: "int \<Rightarrow> string \<Rightarrow> 'm retry_manager \<Rightarrow> int \<times> 'm retry_manager" where
  "get_retry_count now message_id m =
     (let (v, c) = tc_get now message_id (rm_counters m) in (count_of v, m\<lparr>rm_counters := c\<rparr>))"

definition has_exceeded_max_retries :: "int \<Rightarrow> string \<Rightarrow> 'm retry_manager \<Rightarrow> bool \<times> 'm retry_manager" where
  "has_exceeded_max_retries now message_id m =
     (let (n, m') = get_retry_count now message_id m in (n \<ge> rm_max m', m'))"

text \<open>Cancelling takes the timer off the list of those that will still fire.\<close>

definition cancel_pending_phone_request :: "string \<Rightarrow> 'm retry_manager \<Rightarrow> 'm retry_manager" where
  "cancel_pending_phone_request message_id m =
     (let m1 = m\<lparr>rm_pending := (rm_pending m)(message_id := None)\<rparr>
      in case rm_pending m message_id of
           None \<Rightarrow> m1
         | Some t \<Rightarrow> m1\<lparr>rm_armed := filter (\<lambda>(t', _). t' \<noteq> t) (rm_armed m1)\<rparr>)"

definition schedule_phone_request :: "string \<Rightarrow> 'm retry_manager \<Rightarrow> 'm retry_manager" where
  "schedule_phone_request message_id m =
     (let m1 = cancel_pending_phone_request message_id m; t = rm_next_timer m1
      in m1\<lparr>rm_next_timer := Suc t, rm_pending := (rm_pending m1)(message_id \<mapsto> t),
            rm_armed := rm_armed m1 @ [(t, message_id)]\<rparr>)"

text \<open>A timer that fires: its thread runs \<open>_run\<close>, and the callback is called with the identifier.\<close>

definition fire_timer :: "timer \<Rightarrow> 'm retry_manager \<Rightarrow> string option \<times> 'm retry_manager" where
  "fire_timer t m = (case map_of (rm_armed m) t of
       None \<Rightarrow> (None, m)
     | Some message_id \<Rightarrow>
         (Some message_id,
          m\<lparr>rm_armed := filter (\<lambda>(t', _). t' \<noteq> t) (rm_armed m),
            rm_pending := (rm_pending m)(message_id := None),
            rm_statistics := (rm_statistics m)\<lparr>phoneRequests := phoneRequests (rm_statistics m) + 1\<rparr>\<rparr>))"

definition forget_message :: "string \<Rightarrow> 'm retry_manager \<Rightarrow> 'm retry_manager" where
  "forget_message message_id m =
     remove_recent_message message_id (cancel_pending_phone_request message_id
       (m\<lparr>rm_counters := tc_delete message_id (rm_counters m)\<rparr>))"

definition mark_retry_success :: "string \<Rightarrow> 'm retry_manager \<Rightarrow> 'm retry_manager" where
  "mark_retry_success message_id m = forget_message message_id
     (m\<lparr>rm_statistics := (rm_statistics m)\<lparr>successfulRetries := successfulRetries (rm_statistics m) + 1\<rparr>\<rparr>)"

definition mark_retry_failed :: "string \<Rightarrow> 'm retry_manager \<Rightarrow> 'm retry_manager" where
  "mark_retry_failed message_id m = forget_message message_id
     (m\<lparr>rm_statistics := (rm_statistics m)\<lparr>failedRetries := failedRetries (rm_statistics m) + 1\<rparr>\<rparr>)"

section \<open>Counting retries\<close>

lemma tc_get_unbounded:
  assumes "tc_inv c"
  shows "fst (tc_get now k c) = (case map_of (tc_store (purge_expired now c)) k of
      None \<Rightarrow> None | Some (v, e) \<Rightarrow> if e \<le> now then None else Some v)"
    and "map_of (tc_store (snd (tc_get now k c))) k = (case map_of (tc_store (purge_expired now c)) k of
      None \<Rightarrow> None | Some (v, e) \<Rightarrow> if e \<le> now then None else Some (v, e))"
    and "k' \<noteq> k \<Longrightarrow> map_of (tc_store (snd (tc_get now k c))) k' = map_of (tc_store (purge_expired now c)) k'"
  by (auto simp: tc_get_def Let_def split: option.splits)

lemma map_of_purge:
  assumes "tc_inv c" and "0 < tc_ttl c"
  shows "map_of (tc_store (purge_expired now c)) k = (case map_of (tc_store c) k of
      None \<Rightarrow> None | Some (v, e) \<Rightarrow> if e \<le> now then None else Some (v, e))"
  using assms by (simp add: purge_store tc_inv_def map_of_filter_wf split: option.splits)

lemma map_of_tc_set:
  assumes "tc_inv c" and "0 < tc_ttl c" and "tc_max_items c = None"
  shows "map_of (tc_store (tc_set now k v c)) = (map_of (tc_store (purge_expired now c)))(k \<mapsto> (v, now + tc_ttl c))"
  using assms by (auto simp: tc_set_def evict_if_needed_def Let_def fun_eq_iff)

definition counters_ok :: "'m retry_manager \<Rightarrow> bool" where
  "counters_ok m \<longleftrightarrow> tc_inv (rm_counters m) \<and> tc_max_items (rm_counters m) = None \<and>
     tc_ttl (rm_counters m) = 15 * 60 * 1000"

text \<open>The count of a message, as entries that are still alive at the end of a window show it.\<close>

definition counted :: "int \<Rightarrow> string \<Rightarrow> int \<Rightarrow> 'm retry_manager \<Rightarrow> bool" where
  "counted start message_id n m \<longleftrightarrow>
     (if n = 0 then map_of (tc_store (rm_counters m)) message_id = None
      else \<exists>e. start + 15 * 60 * 1000 \<le> e \<and> map_of (tc_store (rm_counters m)) message_id = Some (n, e))"

lemma counters_ok_new: "counters_ok (new_retry_manager mx)" "counted start i 0 (new_retry_manager mx)"
  by (simp_all add: counters_ok_def counted_def new_retry_manager_def new_ttl_cache_def tc_inv_def dict_wf_def)

lemma increment_step:
  assumes ok: "counters_ok m" and now: "start \<le> now" "now < start + 15 * 60 * 1000"
    and n: "0 \<le> n" "counted start message_id n m"
  shows "counters_ok (snd (increment_retry_count now message_id m))"
    and "fst (increment_retry_count now message_id m) = n + 1"
    and "counted start message_id (n + 1) (snd (increment_retry_count now message_id m))"
proof -
  let ?c = "rm_counters m" let ?c' = "snd (tc_get now message_id ?c)"
  have i: "tc_inv ?c" "tc_max_items ?c = None" "tc_ttl ?c = 15 * 60 * 1000" using ok by (auto simp: counters_ok_def)
  have v: "count_of (fst (tc_get now message_id ?c)) = n"
    using n now by (auto simp: tc_get_unbounded [OF i(1)] map_of_purge i counted_def count_of_def split: if_splits)
  then show "fst (increment_retry_count now message_id m) = n + 1"
    by (simp add: increment_retry_count_def split_beta Let_def)
  show "counters_ok (snd (increment_retry_count now message_id m))"
    using i by (simp add: increment_retry_count_def split_beta Let_def counters_ok_def)
  show "counted start message_id (n + 1) (snd (increment_retry_count now message_id m))"
    using i n now v by (simp add: increment_retry_count_def split_beta Let_def counted_def map_of_tc_set)
qed

lemma increment_other:
  assumes "counters_ok m" and "start \<le> now" and "now < start + 15 * 60 * 1000"
    and "counted start message_id n m" and "j \<noteq> message_id"
  shows "counters_ok (snd (increment_retry_count now j m)) \<and>
    counted start message_id n (snd (increment_retry_count now j m))"
proof -
  let ?c = "rm_counters m" let ?c' = "snd (tc_get now j ?c)"
  have i: "tc_inv ?c" "tc_max_items ?c = None" "tc_ttl ?c = 15 * 60 * 1000" using assms(1) by (auto simp: counters_ok_def)
  have i': "tc_inv ?c'" "tc_max_items ?c' = None" "tc_ttl ?c' = 15 * 60 * 1000" using i by simp_all
  have "map_of (tc_store ?c') message_id = map_of (tc_store (purge_expired now ?c)) message_id"
    using tc_get_unbounded(3) [OF i(1), of message_id j now] assms(5) by simp
  then show ?thesis
    using assms i i' by (auto simp: increment_retry_count_def split_beta Let_def counters_ok_def counted_def
        map_of_tc_set map_of_purge split: if_splits)
qed

fun increment_all :: "(int \<times> string) list \<Rightarrow> 'm retry_manager \<Rightarrow> 'm retry_manager" where
  "increment_all [] m = m"
| "increment_all ((now, message_id) # ops) m = increment_all ops (snd (increment_retry_count now message_id m))"

lemma increment_all_counted:
  "counters_ok m \<Longrightarrow> 0 \<le> n \<Longrightarrow> counted start message_id n m \<Longrightarrow>
   (\<And>t j. (t, j) \<in> set ops \<Longrightarrow> start \<le> t \<and> t < start + 15 * 60 * 1000) \<Longrightarrow>
   counters_ok (increment_all ops m) \<and>
   counted start message_id (n + int (count_list (map snd ops) message_id)) (increment_all ops m)"
proof (induction ops arbitrary: m n)
  case Nil
  then show ?case by simp
next
  case (Cons p ops)
  obtain t j where p: "p = (t, j)" by (cases p)
  have t: "start \<le> t" "t < start + 15 * 60 * 1000" using Cons.prems(4) [of t j] p by auto
  show ?case
  proof (cases "j = message_id")
    case True
    note s = increment_step [OF Cons.prems(1) t Cons.prems(2,3)]
    have "counters_ok (increment_all ops (snd (increment_retry_count t message_id m))) \<and>
        counted start message_id (n + 1 + int (count_list (map snd ops) message_id))
          (increment_all ops (snd (increment_retry_count t message_id m)))"
      using Cons.prems(2,4) by (intro Cons.IH [OF s(1) _ s(3)]) auto
    with True p show ?thesis by (simp add: add.assoc)
  next
    case False
    note s = increment_other [OF Cons.prems(1) t Cons.prems(3) False]
    have "counters_ok (increment_all ops (snd (increment_retry_count t j m))) \<and>
        counted start message_id (n + int (count_list (map snd ops) message_id))
          (increment_all ops (snd (increment_retry_count t j m)))"
      using Cons.prems(2,4) s by (intro Cons.IH) auto
    with False p show ?thesis by simp
  qed
qed

text \<open>
  Retries are counted exactly per message: within fifteen minutes from a fresh start, whatever
  other messages are retried in between, the limit is reported as exceeded exactly when the
  message has been counted that often.
\<close>

theorem retry_limit_exact:
  assumes "\<And>t j. (t, j) \<in> set ops \<Longrightarrow> start \<le> t \<and> t < start + 15 * 60 * 1000"
    and "start \<le> now" and "now < start + 15 * 60 * 1000"
  shows "fst (has_exceeded_max_retries now message_id (increment_all ops (new_retry_manager mx :: 'm retry_manager))) \<longleftrightarrow>
    mx \<le> int (count_list (map snd ops) message_id)"
proof -
  let ?m = "increment_all ops (new_retry_manager mx :: 'm retry_manager)" and ?n = "int (count_list (map snd ops) message_id)"
  have "counters_ok ?m \<and> counted start message_id (0 + ?n) ?m"
    using assms(1) by (intro increment_all_counted counters_ok_new) auto
  then have ok: "counters_ok ?m" "counted start message_id ?n ?m" by simp_all
  have "rm_max (increment_all ops m) = rm_max m" for m :: "'m retry_manager"
    by (induction ops m rule: increment_all.induct) (simp_all add: increment_retry_count_def split_beta Let_def)
  then have "rm_max ?m = mx" by (simp add: new_retry_manager_def)
  moreover have "count_of (fst (tc_get now message_id (rm_counters ?m))) = ?n"
    using ok assms(2,3) by (auto simp: counters_ok_def tc_get_unbounded map_of_purge counted_def count_of_def split: if_splits)
  ultimately show ?thesis
    by (simp add: has_exceeded_max_retries_def get_retry_count_def split_beta Let_def)
qed

theorem retry_limit_exact_witness:
  "fst (has_exceeded_max_retries 9 ''m'' (increment_all [(1, ''m''), (2, ''x''), (3, ''m'')] (new_retry_manager 2))) \<longleftrightarrow>
    2 \<le> int (count_list (map snd [(1::int, ''m''), (2, ''x''), (3, ''m'')]) ''m'')"
  by (rule retry_limit_exact [where start = 0]) auto

section \<open>Rebuilding sessions\<close>

definition history_ok :: "'m retry_manager \<Rightarrow> bool" where
  "history_ok m \<longleftrightarrow> tc_inv (rm_history m) \<and> tc_max_items (rm_history m) = None \<and>
     tc_ttl (rm_history m) = RECREATE_SESSION_TIMEOUT * 2"

lemma record_recreation_entry:
  assumes "history_ok m"
  shows "map_of (tc_store (rm_history (record_recreation now jid m))) jid = Some (now, now + RECREATE_SESSION_TIMEOUT * 2)"
    and "history_ok (record_recreation now jid m)"
proof -
  have "0 < tc_ttl (rm_history m)" using assms by (simp add: history_ok_def RECREATE_SESSION_TIMEOUT_def)
  with assms show "map_of (tc_store (rm_history (record_recreation now jid m))) jid = Some (now, now + RECREATE_SESSION_TIMEOUT * 2)"
    by (simp add: record_recreation_def map_of_tc_set history_ok_def)
  from assms show "history_ok (record_recreation now jid m)"
    by (simp add: record_recreation_def history_ok_def)
qed

text \<open>
  Sessions are rebuilt at most once an hour per contact: after a rebuild at time \<open>t\<close>, with a
  session in place and no MAC error, the next one is granted exactly when more than an hour has
  gone by.
\<close>

theorem recreation_rate_limited:
  assumes "history_ok m" and "snd (fst (should_recreate_session t jid has_session error_code m))"
    and "0 < t" and "t \<le> now"
  shows "snd (fst (should_recreate_session now jid True None
      (snd (should_recreate_session t jid has_session error_code m)))) \<longleftrightarrow> RECREATE_SESSION_TIMEOUT < now - t"
proof -
  define mh where "mh = m\<lparr>rm_history := snd (tc_get t jid (rm_history m))\<rparr>"
  have "history_ok mh" using assms(1) by (simp add: history_ok_def mh_def)
  moreover have "snd (should_recreate_session t jid has_session error_code m) = record_recreation t jid m \<or>
      snd (should_recreate_session t jid has_session error_code m) = record_recreation t jid mh"
    using assms(2) unfolding should_recreate_session_def mh_def
    by (auto simp: Let_def split_beta split: if_splits)
  ultimately obtain m1 where m1: "history_ok m1"
      "snd (should_recreate_session t jid has_session error_code m) = record_recreation t jid m1"
    using assms(1) by blast
  let ?c = "rm_history (record_recreation t jid m1)"
  note e = record_recreation_entry [OF m1(1), of t jid]
  have i: "tc_inv ?c" "0 < tc_ttl ?c" using e(2) by (simp_all add: history_ok_def RECREATE_SESSION_TIMEOUT_def)
  have "fst (tc_get now jid ?c) = (if t + RECREATE_SESSION_TIMEOUT * 2 \<le> now then None else Some t)"
    using e(1) by (simp add: tc_get_unbounded [OF i(1)] map_of_purge [OF i])
  then show ?thesis
    using assms(3,4) m1(2)
    by (simp add: should_recreate_session_def is_mac_error_def split_beta Let_def RECREATE_SESSION_TIMEOUT_def)
qed

theorem recreation_rate_limited_witness:
  "snd (fst (should_recreate_session 3600006 ''a@lid'' True None
      (snd (should_recreate_session 5 ''a@lid'' False None (new_retry_manager 3))))) \<longleftrightarrow>
     RECREATE_SESSION_TIMEOUT < 3600006 - 5"
  by (rule recreation_rate_limited)
    (simp_all add: history_ok_def new_retry_manager_def new_ttl_cache_def tc_inv_def dict_wf_def
      should_recreate_session_def)

section \<open>The index of recent messages\<close>

fun add_all :: "(int \<times> string \<times> string \<times> 'm) list \<Rightarrow> 'm retry_manager \<Rightarrow> 'm retry_manager" where
  "add_all [] m = m"
| "add_all ((now, to, message_id, msg) # ops) m = add_all ops (add_recent_message now to message_id msg m)"

text \<open>
  The cache of recent messages is bounded, its index by message identifier is not: it keeps an
  entry for every message ever added until the message is marked, so it outgrows the cache.
\<close>

theorem recent_index_grows:
  "length (tc_store (rm_recent (add_all ops (new_retry_manager mx)))) \<le> RECENT_MESSAGES_SIZE \<and>
   dom (rm_key_index (add_all ops (new_retry_manager mx))) = (\<lambda>(_, _, message_id, _). message_id) ` set ops"
proof -
  have "tc_inv (rm_recent m) \<Longrightarrow> tc_max_items (rm_recent m) = Some RECENT_MESSAGES_SIZE \<Longrightarrow>
      tc_inv (rm_recent (add_all ops m)) \<and> tc_max_items (rm_recent (add_all ops m)) = Some RECENT_MESSAGES_SIZE \<and>
      dom (rm_key_index (add_all ops m)) = dom (rm_key_index m) \<union> (\<lambda>(_, _, message_id, _). message_id) ` set ops"
    for m :: "'a retry_manager"
    by (induction ops m rule: add_all.induct) (auto simp: add_recent_message_def Let_def)
  from this [of "new_retry_manager mx"] show ?thesis
    by (auto simp: new_retry_manager_def tc_inv_def new_ttl_cache_def dict_wf_def split: option.splits)
qed

end
