(* ===== verification/Identity.thy ===== *)
theory Identity
  imports Jid
begin

text \<open>
  The identity resolver of \<^verbatim>\<open>utils/identity.py\<close>: phone numbers and JIDs of one person
  are collected under a user identifier, with indexes by JID. The references it returns are
  copies, so they are values here. White space and digits are ASCII.
\<close>

section \<open>Phone numbers\<close>

definition clean_phone :: "string \<Rightarrow> string" where
  "clean_phone value = filter (\<lambda>c. is_digit c \<or> c = CHR ''+'') (py_strip value)"

definition drop_plus :: "string \<Rightarrow> string" where
  "drop_plus s = (case s of c # cs \<Rightarrow> if c = CHR ''+'' then cs else s | [] \<Rightarrow> [])"

text \<open>The pattern \<open>^\+?\d{6,20}$\<close>.\<close>

definition e164_match :: "string \<Rightarrow> bool" where
  "e164_match s = (let d = drop_plus s in list_all is_digit d \<and> 6 \<le> length d \<and> length d \<le> 20)"

definition normalize_phone :: "string \<Rightarrow> string result" where
  "normalize_phone value =
     (let cleaned = drop_plus (clean_phone value)
      in if e164_match cleaned then Inr cleaned else Inl (ValueError ''invalid phone-like value''))"

definition phone_to_pn_jid :: "string \<Rightarrow> string result" where
  "phone_to_pn_jid phone = bindE (normalize_phone phone) (\<lambda>normalized. Inr (normalized @ ''@s.whatsapp.net''))"

definition is_probable_phone :: "string \<Rightarrow> bool" where
  "is_probable_phone value =
     (let candidate = drop_plus (clean_phone value)
      in candidate \<noteq> '''' \<and> list_all is_digit candidate \<and> 6 \<le> length candidate \<and> length candidate \<le> 20 \<and>
         CHR ''@'' \<notin> set value)"

section \<open>Kinds of JIDs and user identifiers\<close>

datatype jid_kind = PN | LID_KIND | GROUP | NEWSLETTER | BROADCAST | BOT | UNKNOWN

fun kind_value :: "jid_kind \<Rightarrow> string" where
  "kind_value PN = ''pn''"
| "kind_value LID_KIND = ''lid''"
| "kind_value GROUP = ''group''"
| "kind_value NEWSLETTER = ''newsletter''"
| "kind_value BROADCAST = ''broadcast''"
| "kind_value BOT = ''bot''"
| "kind_value UNKNOWN = ''unknown''"

definition detect_jid_kind :: "string option \<Rightarrow> jid_kind" where
  "detect_jid_kind j =
     (if j = None \<or> j = Some '''' then UNKNOWN
      else if is_pn_user j \<or> is_hosted_pn_user j then PN
      else if is_lid_user j \<or> is_hosted_lid_user j then LID_KIND
      else if is_jid_group j then GROUP
      else if is_jid_newsletter j then NEWSLETTER
      else if is_jid_broadcast j then BROADCAST
      else if is_jid_bot j then BOT
      else UNKNOWN)"

definition canonical_user_id_from_jid :: "string \<Rightarrow> string result" where
  "canonical_user_id_from_jid j = bindE (jid_decode (Some j)) (\<lambda>decoded. case decoded of
       None \<Rightarrow> Inr (''unknown:'' @ j)
     | Some d \<Rightarrow> Inr (kind_value (detect_jid_kind (Some j)) @ '':'' @ (if jid_user d = '''' then j else jid_user d)))"

definition ensure_jid :: "string \<Rightarrow> string result" where
  "ensure_jid value =
     (let text = py_strip value
      in if CHR ''@'' \<in> set text then jid_normalized_user (Some text)
         else if is_probable_phone text then phone_to_pn_jid text
         else Inr (jid_encode (Some text) ''s.whatsapp.net'' None None))"

section \<open>The resolver\<close>

datatype ref_source = FROM_USER_ID | FROM_JID | FROM_PHONE | FROM_UNKNOWN

record user_ref =
  ur_user_id :: string
  ur_jid :: "string option"
  ur_pn :: "string option"
  ur_lid :: "string option"
  ur_kind :: jid_kind
  ur_user :: "string option"
  ur_server :: "string option"
  ur_device :: "int option"
  ur_source :: ref_source

record identity_state =
  by_user_id :: "(string, user_ref) dict"
  by_jid :: "string \<Rightarrow> string option"
  pn_to_user_id :: "string \<Rightarrow> string option"
  lid_to_user_id :: "string \<Rightarrow> string option"

definition new_identity_state :: identity_state where
  "new_identity_state =
     \<lparr>by_user_id = [], by_jid = Map.empty, pn_to_user_id = Map.empty, lid_to_user_id = Map.empty\<rparr>"

record resolve_result =
  rr_ref :: user_ref
  rr_created :: bool
  rr_merged :: bool

text \<open>Truth of an optional string, and an index entry for one.\<close>

definition given :: "string option \<Rightarrow> bool" where
  "given v \<longleftrightarrow> v \<noteq> None \<and> v \<noteq> Some ''''"

definition index_at :: "string option \<Rightarrow> string \<Rightarrow> (string \<Rightarrow> string option) \<Rightarrow> (string \<Rightarrow> string option)" where
  "index_at j user_id m = (if given j then m(the j \<mapsto> user_id) else m)"

definition text_jid :: "string \<Rightarrow> (string \<times> ref_source) result" where
  "text_jid text =
     (if is_probable_phone text then bindE (phone_to_pn_jid text) (\<lambda>j. Inr (j, FROM_PHONE))
      else if CHR ''@'' \<in> set text then bindE (jid_normalized_user (Some text)) (\<lambda>j. Inr (j, FROM_JID))
      else bindE (ensure_jid text) (\<lambda>j. Inr (j, FROM_JID)))"

definition make_ref :: "string \<Rightarrow> ref_source \<Rightarrow> user_ref result" where
  "make_ref j src =
     bindE (canonical_user_id_from_jid j) (\<lambda>user_id.
     bindE (jid_decode (Some j)) (\<lambda>decoded.
       let kind = detect_jid_kind (Some j)
       in Inr \<lparr>ur_user_id = user_id, ur_jid = Some j, ur_pn = (if kind = PN then Some j else None),
               ur_lid = (if kind = LID_KIND then Some j else None), ur_kind = kind,
               ur_user = map_option jid_user decoded, ur_server = map_option jid_server decoded,
               ur_device = (case decoded of None \<Rightarrow> None | Some d \<Rightarrow> jid_device d), ur_source = src\<rparr>))"

definition add_ref :: "user_ref \<Rightarrow> string \<Rightarrow> identity_state \<Rightarrow> identity_state" where
  "add_ref ref j s =
     s\<lparr>by_user_id := dict_set (ur_user_id ref) ref (by_user_id s),
       by_jid := (by_jid s)(j \<mapsto> ur_user_id ref),
       pn_to_user_id := index_at (ur_pn ref) (ur_user_id ref) (pn_to_user_id s),
       lid_to_user_id := index_at (ur_lid ref) (ur_user_id ref) (lid_to_user_id s)\<rparr>"

definition resolve_text :: "string \<Rightarrow> identity_state \<Rightarrow> resolve_result result \<times> identity_state" where
  "resolve_text value s =
     (let text = py_strip value
      in if text = '''' then (Inl (ValueError ''empty identity value''), s)
         else case map_of (by_user_id s) text of
           Some ref \<Rightarrow> (Inr \<lparr>rr_ref = ref, rr_created = False, rr_merged = False\<rparr>, s)
         | None \<Rightarrow>
             (case text_jid text of
                Inl e \<Rightarrow> (Inl e, s)
              | Inr (j, src) \<Rightarrow>
                  (case by_jid s j of
                     Some user_id \<Rightarrow>
                       (case map_of (by_user_id s) user_id of
                          None \<Rightarrow> (Inl KeyError, s)
                        | Some existing \<Rightarrow> (Inr \<lparr>rr_ref = existing, rr_created = False, rr_merged = False\<rparr>, s))
                   | None \<Rightarrow>
                       (case make_ref j src of
                          Inl e \<Rightarrow> (Inl e, s)
                        | Inr ref \<Rightarrow> (Inr \<lparr>rr_ref = ref, rr_created = True, rr_merged = False\<rparr>, add_ref ref j s)))))"

definition first_given :: "'a option \<Rightarrow> 'a option \<Rightarrow> 'a option" where
  "first_given base incoming = (case base of None \<Rightarrow> incoming | Some _ \<Rightarrow> base)"

definition merge_refs :: "user_ref \<Rightarrow> user_ref \<Rightarrow> user_ref" where
  "merge_refs base incoming =
     base\<lparr>ur_jid := first_given (ur_jid base) (ur_jid incoming),
          ur_pn := first_given (ur_pn base) (ur_pn incoming),
          ur_lid := first_given (ur_lid base) (ur_lid incoming),
          ur_user := first_given (ur_user base) (ur_user incoming),
          ur_server := first_given (ur_server base) (ur_server incoming),
          ur_device := first_given (ur_device base) (ur_device incoming),
          ur_kind := (if ur_kind base = UNKNOWN then ur_kind incoming else ur_kind base),
          ur_source := (if ur_source base = FROM_UNKNOWN then ur_source incoming else ur_source base)\<rparr>"

text \<open>The missing fields of a reference that is passed in.\<close>

definition complete_ref :: "user_ref \<Rightarrow> user_ref result" where
  "complete_ref ref0 =
     (let ref1 = (if \<not> given (ur_jid ref0) \<and> given (ur_pn ref0) then ref0\<lparr>ur_jid := ur_pn ref0\<rparr> else ref0);
          ref2 = (if \<not> given (ur_jid ref1) \<and> given (ur_lid ref1) then ref1\<lparr>ur_jid := ur_lid ref1\<rparr> else ref1)
      in if \<not> given (ur_jid ref2) then Inl (ValueError ''UserRef must include at least one of jid/pn_jid/lid_jid'')
         else
           let kind = detect_jid_kind (ur_jid ref2)
           in bindE (if ur_user_id ref2 = ''''
                     then bindE (canonical_user_id_from_jid (the (ur_jid ref2))) (\<lambda>u. Inr (ref2\<lparr>ur_user_id := u\<rparr>))
                     else Inr ref2) (\<lambda>ref3.
              let ref4 = (if kind = PN \<and> \<not> given (ur_pn ref3) then ref3\<lparr>ur_pn := ur_jid ref3\<rparr> else ref3)
              in Inr (if kind = LID_KIND \<and> \<not> given (ur_lid ref4) then ref4\<lparr>ur_lid := ur_jid ref4\<rparr> else ref4)))"

definition resolve_user_ref :: "user_ref \<Rightarrow> identity_state \<Rightarrow> resolve_result result \<times> identity_state" where
  "resolve_user_ref value s = (case complete_ref value of
       Inl e \<Rightarrow> (Inl e, s)
     | Inr ref \<Rightarrow>
         (case map_of (by_user_id s) (ur_user_id ref) of
            None \<Rightarrow> (Inr \<lparr>rr_ref = ref, rr_created = True, rr_merged = False\<rparr>, add_ref ref (the (ur_jid ref)) s)
          | Some existing \<Rightarrow>
              let m = merge_refs existing ref; u = ur_user_id m
              in (Inr \<lparr>rr_ref = m, rr_created = False, rr_merged = True\<rparr>,
                  s\<lparr>by_user_id := dict_set u m (by_user_id s),
                    by_jid := index_at (ur_lid m) u (index_at (ur_pn m) u (index_at (ur_jid m) u (by_jid s))),
                    pn_to_user_id := index_at (ur_pn m) u (pn_to_user_id s),
                    lid_to_user_id := index_at (ur_lid m) u (lid_to_user_id s)\<rparr>)))"

datatype identity_input = Text string | Ref user_ref

fun resolve :: "identity_input \<Rightarrow> identity_state \<Rightarrow> resolve_result result \<times> identity_state" where
  "resolve (Text t) s = resolve_text t s"
| "resolve (Ref r) s = resolve_user_ref r s"

definition merge_user_ids :: "string \<Rightarrow> string \<Rightarrow> identity_state \<Rightarrow> user_ref result \<times> identity_state" where
  "merge_user_ids left right s =
     (case (map_of (by_user_id s) left, map_of (by_user_id s) right) of
        (Some left_ref, Some right_ref) \<Rightarrow>
          if left = right then (Inr left_ref, s)
          else
            let m0 = merge_refs left_ref right_ref;
                m1 = (if given (ur_pn right_ref) \<and> \<not> given (ur_pn m0) then m0\<lparr>ur_pn := ur_pn right_ref\<rparr> else m0);
                m2 = (if given (ur_lid right_ref) \<and> \<not> given (ur_lid m1) then m1\<lparr>ur_lid := ur_lid right_ref\<rparr> else m1);
                canonical_id = (if ur_kind m2 = PN \<or> ur_kind left_ref = PN
                                then if ur_kind left_ref = PN then ur_user_id left_ref else ur_user_id right_ref
                                else ur_user_id left_ref);
                m = m2\<lparr>ur_user_id := canonical_id\<rparr>;
                u = ur_user_id m;
                jids = [ur_jid m, ur_pn m, ur_lid m, ur_jid left_ref, ur_jid right_ref,
                        ur_pn left_ref, ur_pn right_ref, ur_lid left_ref, ur_lid right_ref]
            in (Inr m,
                s\<lparr>by_user_id := dict_set u m (dict_pop right (dict_pop left (by_user_id s))),
                  by_jid := foldr (\<lambda>j. index_at j u) jids (by_jid s),
                  pn_to_user_id := index_at (ur_pn m) u (pn_to_user_id s),
                  lid_to_user_id := index_at (ur_lid m) u (lid_to_user_id s)\<rparr>)
      | _ \<Rightarrow> (Inl KeyError, s))"

definition link_pn_lid :: "string \<Rightarrow> string \<Rightarrow> identity_state \<Rightarrow> resolve_result result \<times> identity_state" where
  "link_pn_lid pn lid s = (case resolve_text pn s of
       (Inl e, s1) \<Rightarrow> (Inl e, s1)
     | (Inr pn_res, s1) \<Rightarrow>
         (case resolve_text lid s1 of
            (Inl e, s2) \<Rightarrow> (Inl e, s2)
          | (Inr lid_res, s2) \<Rightarrow>
              (case merge_user_ids (ur_user_id (rr_ref pn_res)) (ur_user_id (rr_ref lid_res)) s2 of
                 (Inl e, s3) \<Rightarrow> (Inl e, s3)
               | (Inr m, s3) \<Rightarrow> (Inr \<lparr>rr_ref = m, rr_created = False, rr_merged = True\<rparr>, s3))))"

definition as_chat_jid :: "identity_input \<Rightarrow> jid_kind \<Rightarrow> identity_state \<Rightarrow> string result \<times> identity_state" where
  "as_chat_jid value prefer s = (case resolve value s of
       (Inl e, s') \<Rightarrow> (Inl e, s')
     | (Inr result, s') \<Rightarrow>
         let ref = rr_ref result
         in (if prefer = LID_KIND \<and> given (ur_lid ref) then Inr (the (ur_lid ref))
             else if given (ur_pn ref) then Inr (the (ur_pn ref))
             else if given (ur_lid ref) then Inr (the (ur_lid ref))
             else if given (ur_jid ref) then Inr (the (ur_jid ref))
             else Inl (ValueError ''cannot resolve chat JID''), s'))"

definition get_ref :: "string \<Rightarrow> identity_state \<Rightarrow> user_ref option" where
  "get_ref user_id s = map_of (by_user_id s) user_id"

definition all_refs :: "identity_state \<Rightarrow> user_ref list" where
  "all_refs s = map snd (by_user_id s)"

section \<open>The indexes agree\<close>

text \<open>References stand under their own identifier, and no JID points to an unknown one.\<close>

definition ids_ok :: "identity_state \<Rightarrow> bool" where
  "ids_ok s \<longleftrightarrow> dict_wf (by_user_id s) \<and>
     (\<forall>u ref. map_of (by_user_id s) u = Some ref \<longrightarrow> ur_user_id ref = u) \<and>
     (\<forall>j u. by_jid s j = Some u \<longrightarrow> map_of (by_user_id s) u \<noteq> None)"

lemma ids_ok_new: "ids_ok new_identity_state"
  by (simp add: ids_ok_def new_identity_state_def dict_wf_def)

lemma index_at_SomeD: "index_at j u m x = Some v \<Longrightarrow> v = u \<or> m x = Some v"
  by (auto simp: index_at_def split: if_splits)

lemma ids_ok_update:
  assumes "ids_ok s" and "ur_user_id ref = u"
    and "\<And>j v. m j = Some v \<Longrightarrow> v = u \<or> by_jid s j = Some v"
  shows "ids_ok (s\<lparr>by_user_id := dict_set u ref (by_user_id s), by_jid := m,
                   pn_to_user_id := p, lid_to_user_id := l\<rparr>)"
  using assms unfolding ids_ok_def by (auto split: if_splits) (metis option.distinct(1) not_None_eq)+

lemma add_ref_ok: "ids_ok s \<Longrightarrow> ids_ok (add_ref ref j s)"
  unfolding add_ref_def by (rule ids_ok_update) (auto split: if_splits)

lemma resolve_text_ok: "ids_ok s \<Longrightarrow> ids_ok (snd (resolve_text t s))"
  by (auto simp: resolve_text_def Let_def add_ref_ok split: option.splits sum.splits prod.splits)

lemma resolve_user_ref_ok: "ids_ok s \<Longrightarrow> ids_ok (snd (resolve_user_ref r s))"
proof (cases "complete_ref r")
  case (Inr ref)
  assume ok: "ids_ok s"
  show ?thesis
  proof (cases "map_of (by_user_id s) (ur_user_id ref)")
    case None
    with Inr ok show ?thesis by (simp add: resolve_user_ref_def add_ref_ok)
  next
    case (Some existing)
    show ?thesis
      unfolding resolve_user_ref_def Inr Some sum.case option.case Let_def snd_conv
      by (rule ids_ok_update [OF ok refl]) (blast dest!: index_at_SomeD)
  qed
qed (simp add: resolve_user_ref_def)

lemma resolve_ok: "ids_ok s \<Longrightarrow> ids_ok (snd (resolve v s))"
  by (cases v) (simp_all add: resolve_text_ok resolve_user_ref_ok)

fun resolve_all :: "identity_input list \<Rightarrow> identity_state \<Rightarrow> identity_state" where
  "resolve_all [] s = s"
| "resolve_all (v # vs) s = resolve_all vs (snd (resolve v s))"

lemma resolve_all_ok: "ids_ok s \<Longrightarrow> ids_ok (resolve_all vs s)"
  by (induction vs arbitrary: s) (simp_all add: resolve_ok)

lemma py_int_no_KeyError: "py_int t \<noteq> Inl KeyError"
proof -
  have "digits_val acc u \<noteq> Inl KeyError" for acc u
    by (induction acc u rule: digits_val.induct) (auto split: list.splits)
  then show ?thesis
    by (auto simp: py_int_def unsigned_val_def bindE_eq_Inl_iff split: list.splits)
qed

lemma jid_decode_no_KeyError: "jid_decode j \<noteq> Inl KeyError"
  by (auto simp: jid_decode_def Let_def bindE_eq_Inl_iff domain_of_int_def py_int_no_KeyError
      split: option.splits list.splits if_splits)

lemma jid_texts_no_KeyError: "text_jid t \<noteq> Inl KeyError" "make_ref j src \<noteq> Inl KeyError"
  by (auto simp: text_jid_def make_ref_def ensure_jid_def phone_to_pn_jid_def normalize_phone_def Let_def
      jid_normalized_user_def canonical_user_id_from_jid_def bindE_eq_Inl_iff jid_decode_no_KeyError
      split: option.splits if_splits)

lemma resolve_text_no_KeyError:
  assumes "ids_ok s"
  shows "fst (resolve_text t s) \<noteq> Inl KeyError"
proof (cases "text_jid (py_strip t)")
  case (Inl e)
  with jid_texts_no_KeyError(1) [of "py_strip t"] show ?thesis
    by (simp add: resolve_text_def Let_def split: option.splits)
next
  case (Inr p)
  obtain j src where p: "p = (j, src)" by (cases p)
  have "by_jid s j = Some u \<Longrightarrow> map_of (by_user_id s) u \<noteq> None" for u
    using assms by (simp add: ids_ok_def)
  moreover have "make_ref j src \<noteq> Inl KeyError" by (rule jid_texts_no_KeyError)
  ultimately show ?thesis
    using Inr p by (cases "make_ref j src") (auto simp: resolve_text_def Let_def split: option.splits)
qed

text \<open>
  As long as identities are only resolved, from texts or from references, the indexes agree:
  whatever was resolved before, resolving never fails on a dangling entry.
\<close>

theorem resolve_never_dangles:
  "ids_ok (resolve_all vs new_identity_state) \<and>
   fst (resolve_text t (resolve_all vs new_identity_state)) \<noteq> Inl KeyError"
proof
  show ok: "ids_ok (resolve_all vs new_identity_state)" by (rule resolve_all_ok [OF ids_ok_new])
  show "fst (resolve_text t (resolve_all vs new_identity_state)) \<noteq> Inl KeyError"
    by (rule resolve_text_no_KeyError [OF ok])
qed

section \<open>Linking a phone number with a LID\<close>

definition plain_user :: "string \<Rightarrow> bool" where
  "plain_user u \<longleftrightarrow> clean_user u \<and> u \<noteq> '''' \<and> (\<forall>c\<in>set u. \<not> is_space c)"

lemma py_strip_id:
  assumes "u \<noteq> ''''" and "\<not> is_space (hd u)" and "\<not> is_space (last u)"
  shows "py_strip u = u"
proof -
  have "dropWhile is_space s = s" if "s \<noteq> ''''" "\<not> is_space (hd s)" for s
    using that by (cases s) auto
  from this [of u] this [of "rev u"] assms show ?thesis by (simp add: py_strip_def hd_rev)
qed

definition user_servers :: "string list" where
  "user_servers = [''s.whatsapp.net'', ''lid'', ''hosted'', ''hosted.lid'']"

definition simple_ref :: "string \<Rightarrow> string \<Rightarrow> user_ref" where
  "simple_ref u srv =
     (let j = u @ CHR ''@'' # srv; kind = (if srv \<in> {''s.whatsapp.net'', ''hosted''} then PN else LID_KIND)
      in \<lparr>ur_user_id = kind_value kind @ CHR '':'' # u, ur_jid = Some j,
          ur_pn = (if kind = PN then Some j else None), ur_lid = (if kind = LID_KIND then Some j else None),
          ur_kind = kind, ur_user = Some u, ur_server = Some srv, ur_device = None, ur_source = FROM_JID\<rparr>)"

lemma kind_of_user:
  assumes "srv \<in> set user_servers"
  shows "detect_jid_kind (Some (u @ CHR ''@'' # srv)) = (if srv \<in> {''s.whatsapp.net'', ''hosted''} then PN else LID_KIND)"
proof -
  have "py_endswith (u @ CHR ''@'' # srv) (CHR ''@'' # t) \<longleftrightarrow> srv = t" if "CHR ''@'' \<notin> set t" for t
  proof
    assume "py_endswith (u @ CHR ''@'' # srv) (CHR ''@'' # t)"
    then obtain r where "u @ CHR ''@'' # srv = r @ CHR ''@'' # t" by (auto simp: py_endswith_iff)
    from split_last_unique [OF this] that assms show "srv = t" by (auto simp: user_servers_def)
  qed (simp add: py_endswith_iff)
  from this [of "''s.whatsapp.net''"] this [of "''lid''"] this [of "''hosted''"] this [of "''hosted.lid''"] assms
  show ?thesis
    by (auto simp: detect_jid_kind_def jid_ends_def is_pn_user_def is_lid_user_def is_hosted_pn_user_def
        is_hosted_lid_user_def user_servers_def)
qed

lemma resolve_simple:
  assumes u: "plain_user u" and srv: "srv \<in> set user_servers"
  shows "resolve_text (u @ CHR ''@'' # srv) s = (let t = u @ CHR ''@'' # srv in
    case map_of (by_user_id s) t of
      Some ref \<Rightarrow> (Inr \<lparr>rr_ref = ref, rr_created = False, rr_merged = False\<rparr>, s)
    | None \<Rightarrow> (case by_jid s t of
        Some v \<Rightarrow> (case map_of (by_user_id s) v of
            None \<Rightarrow> (Inl KeyError, s)
          | Some existing \<Rightarrow> (Inr \<lparr>rr_ref = existing, rr_created = False, rr_merged = False\<rparr>, s))
      | None \<Rightarrow> (Inr \<lparr>rr_ref = simple_ref u srv, rr_created = True, rr_merged = False\<rparr>, add_ref (simple_ref u srv) t s)))"
proof -
  let ?t = "u @ CHR ''@'' # srv"
  have c: "clean_user u" "u \<noteq> ''''" using u by (simp_all add: plain_user_def)
  have "\<not> is_space (last srv)" "srv \<noteq> ''''" "srv \<noteq> ''c.us''"
    using srv by (auto simp: user_servers_def is_space_def)
  moreover have "\<not> is_space (hd u)" using u by (simp add: plain_user_def)
  ultimately have strip: "py_strip ?t = ?t" using c by (intro py_strip_id) auto
  have tj: "text_jid ?t = Inr (?t, FROM_JID)"
    using jid_decode_plain [OF c(1), of srv] \<open>srv \<noteq> ''c.us''\<close>
    by (simp add: text_jid_def is_probable_phone_def Let_def jid_normalized_user_def jid_encode_def)
  have mr: "make_ref ?t FROM_JID = Inr (simple_ref u srv)"
    using jid_decode_plain [OF c(1), of srv] kind_of_user [OF srv, of u] c(2)
    by (simp add: make_ref_def canonical_user_id_from_jid_def simple_ref_def Let_def)
  show ?thesis
    by (simp add: resolve_text_def strip tj mr Let_def split: option.splits)
qed

lemma no_colon_key:
  assumes "plain_user u" and "srv \<in> set user_servers"
  shows "u @ CHR ''@'' # srv \<noteq> k @ CHR '':'' # v"
proof
  assume "u @ CHR ''@'' # srv = k @ CHR '':'' # v"
  then have "CHR '':'' \<in> set (u @ CHR ''@'' # srv)" by simp
  with assms show False by (auto simp: plain_user_def clean_user_def user_servers_def)
qed

lemma servers [simp]:
  "''s.whatsapp.net'' \<in> set user_servers" "''lid'' \<in> set user_servers" "''hosted.lid'' \<in> set user_servers"
  by (simp_all add: user_servers_def)

text \<open>The identifiers of plain users.\<close>

definition pn_id :: "string \<Rightarrow> string" where
  "pn_id p = ''pn'' @ CHR '':'' # p"

definition lid_id :: "string \<Rightarrow> string" where
  "lid_id u = ''lid'' @ CHR '':'' # u"

lemma ids_distinct [simp]: "pn_id p \<noteq> lid_id u" "lid_id u \<noteq> pn_id p"
  by (simp_all add: pn_id_def lid_id_def)

lemma ids_not_jids:
  assumes "plain_user u" and "srv \<in> set user_servers"
  shows "u @ CHR ''@'' # srv \<noteq> pn_id p" "u @ CHR ''@'' # srv \<noteq> lid_id v"
  using no_colon_key [OF assms] by (simp_all only: pn_id_def lid_id_def not_False_eq_True)

lemma simple_ref_fields:
  "ur_user_id (simple_ref p ''s.whatsapp.net'') = pn_id p" "ur_user_id (simple_ref u ''lid'') = lid_id u"
  "ur_user_id (simple_ref u ''hosted.lid'') = lid_id u"
  by (simp_all add: simple_ref_def Let_def pn_id_def lid_id_def)

text \<open>The reference that linking makes out of a number and a LID.\<close>

definition linked_ref :: "string \<Rightarrow> string \<Rightarrow> string \<Rightarrow> user_ref" where
  "linked_ref p u srv = (simple_ref p ''s.whatsapp.net'')\<lparr>ur_lid := Some (u @ CHR ''@'' # srv)\<rparr>"

lemma merge_simple_refs:
  assumes "srv \<in> {''lid'', ''hosted.lid''}"
  shows "merge_refs (simple_ref p ''s.whatsapp.net'') (simple_ref u srv) = linked_ref p u srv"
  using assms by (auto simp: merge_refs_def first_given_def simple_ref_def linked_ref_def Let_def)

lemma linked_ref_fields:
  "ur_user_id (linked_ref p u srv) = pn_id p" "ur_kind (linked_ref p u srv) = PN"
  "given (ur_pn (linked_ref p u srv))" "given (ur_lid (linked_ref p u srv))"
  "ur_pn (linked_ref p u srv) = Some (p @ ''@s.whatsapp.net'')" "ur_lid (linked_ref p u srv) = Some (u @ CHR ''@'' # srv)"
  "ur_jid (linked_ref p u srv) = Some (p @ ''@s.whatsapp.net'')"
  by (simp_all add: linked_ref_def simple_ref_def Let_def given_def pn_id_def)

lemma simple_ref_jids:
  assumes "srv \<in> {''lid'', ''hosted.lid''}"
  shows "ur_kind (simple_ref p ''s.whatsapp.net'') = PN" "ur_jid (simple_ref p ''s.whatsapp.net'') = Some (p @ ''@s.whatsapp.net'')"
    "ur_pn (simple_ref p ''s.whatsapp.net'') = Some (p @ ''@s.whatsapp.net'')" "ur_lid (simple_ref p ''s.whatsapp.net'') = None"
    "ur_jid (simple_ref u srv) = Some (u @ CHR ''@'' # srv)" "ur_lid (simple_ref u srv) = Some (u @ CHR ''@'' # srv)"
    "ur_pn (simple_ref u srv) = None"
  using assms by (auto simp: simple_ref_def Let_def)

lemma index_at_simps: "index_at None u m = m" "j \<noteq> '''' \<Longrightarrow> index_at (Some j) u m = m(j \<mapsto> u)"
  by (simp_all add: index_at_def given_def)

lemma given_simps: "\<not> given None" "given (Some j) \<longleftrightarrow> j \<noteq> ''''"
  by (simp_all add: given_def)

lemma merge_simple:
  assumes srv: "srv \<in> {''lid'', ''hosted.lid''}"
    and p: "map_of (by_user_id s) (pn_id p) = Some (simple_ref p ''s.whatsapp.net'')"
    and u: "map_of (by_user_id s) (lid_id u) = Some (simple_ref u srv)"
  obtains s' where "merge_user_ids (pn_id p) (lid_id u) s = (Inr (linked_ref p u srv), s')"
    "map_of (by_user_id s') = (map_of (by_user_id s))(lid_id u := None, pn_id p \<mapsto> linked_ref p u srv)"
    "by_jid s' = (by_jid s)(p @ ''@s.whatsapp.net'' \<mapsto> pn_id p, u @ CHR ''@'' # srv \<mapsto> pn_id p)"
proof -
  have id: "(linked_ref p u srv)\<lparr>ur_user_id := pn_id p\<rparr> = linked_ref p u srv"
    using linked_ref_fields(1) [of p u srv] by (cases "linked_ref p u srv") simp
  have ne: "p @ ''@s.whatsapp.net'' \<noteq> u @ CHR ''@'' # srv"
    using split_last_unique [of u "CHR ''@''" srv p "''s.whatsapp.net''"] srv by auto
  let ?s = "s\<lparr>by_user_id := dict_set (pn_id p) (linked_ref p u srv) (dict_pop (lid_id u) (dict_pop (pn_id p) (by_user_id s))),
      by_jid := (by_jid s)(p @ ''@s.whatsapp.net'' \<mapsto> pn_id p, u @ CHR ''@'' # srv \<mapsto> pn_id p),
      pn_to_user_id := (pn_to_user_id s)(p @ ''@s.whatsapp.net'' \<mapsto> pn_id p),
      lid_to_user_id := (lid_to_user_id s)(u @ CHR ''@'' # srv \<mapsto> pn_id p)\<rparr>"
  have "merge_user_ids (pn_id p) (lid_id u) s = (Inr (linked_ref p u srv), ?s)"
    unfolding merge_user_ids_def p u prod.case option.case Let_def merge_simple_refs [OF srv]
    by (simp add: linked_ref_fields simple_ref_jids [OF srv] simple_ref_fields id index_at_simps given_simps
        fun_upd_twist [OF ne])
  moreover have "map_of (by_user_id ?s) = (map_of (by_user_id s))(lid_id u := None, pn_id p \<mapsto> linked_ref p u srv)"
    by (simp add: fun_eq_iff)
  ultimately show thesis using that by simp
qed

lemma link_fresh:
  assumes p: "plain_user p" and u: "plain_user u" and srv: "srv \<in> {''lid'', ''hosted.lid''}"
    and s: "map_of (by_user_id s) (p @ ''@s.whatsapp.net'') = None" "by_jid s (p @ ''@s.whatsapp.net'') = None"
    and l: "map_of (by_user_id s) (u @ CHR ''@'' # srv) = None"
      "by_jid s (u @ CHR ''@'' # srv) = None \<or>
       by_jid s (u @ CHR ''@'' # srv) = Some (lid_id u) \<and>
       map_of (by_user_id s) (lid_id u) = Some (simple_ref u srv)"
  shows "fst (link_pn_lid (p @ ''@s.whatsapp.net'') (u @ CHR ''@'' # srv) s) =
      Inr \<lparr>rr_ref = linked_ref p u srv, rr_created = False, rr_merged = True\<rparr>"
    and "map_of (by_user_id (snd (link_pn_lid (p @ ''@s.whatsapp.net'') (u @ CHR ''@'' # srv) s))) =
      (map_of (by_user_id s))(lid_id u := None, pn_id p \<mapsto> linked_ref p u srv)"
    and "by_jid (snd (link_pn_lid (p @ ''@s.whatsapp.net'') (u @ CHR ''@'' # srv) s)) =
      (by_jid s)(p @ ''@s.whatsapp.net'' \<mapsto> pn_id p, u @ CHR ''@'' # srv \<mapsto> pn_id p)"
proof -
  let ?P = "p @ ''@s.whatsapp.net''" and ?L = "u @ CHR ''@'' # srv"
  have srv': "srv \<in> set user_servers" "srv \<noteq> ''s.whatsapp.net''" using srv by auto
  note rp = resolve_simple [OF p servers(1), of s, unfolded Let_def]
  define s1 where "s1 = add_ref (simple_ref p ''s.whatsapp.net'') ?P s"
  have r1: "resolve_text ?P s = (Inr \<lparr>rr_ref = simple_ref p ''s.whatsapp.net'', rr_created = True, rr_merged = False\<rparr>, s1)"
    using rp s by (simp add: s1_def)
  have ne: "?L \<noteq> ?P"
    using split_last_unique [of u "CHR ''@''" srv p "''s.whatsapp.net''"] srv by auto
  have m1: "map_of (by_user_id s1) = (map_of (by_user_id s))(pn_id p \<mapsto> simple_ref p ''s.whatsapp.net'')"
    "by_jid s1 = (by_jid s)(?P \<mapsto> pn_id p)"
    by (simp_all add: s1_def add_ref_def simple_ref_fields)
  have uid: "ur_user_id (simple_ref u srv) = lid_id u" using srv simple_ref_fields(2,3) by auto
  obtain b s2 where r2: "resolve_text ?L s1 = (Inr \<lparr>rr_ref = simple_ref u srv, rr_created = b, rr_merged = False\<rparr>, s2)"
    and m2: "map_of (by_user_id s2) = (map_of (by_user_id s1))(lid_id u \<mapsto> simple_ref u srv)"
      "(by_jid s2)(?L := x) = (by_jid s1)(?L := x)" for x
  proof (cases "by_jid s ?L")
    case None
    have "map_of (by_user_id s1) ?L = None" "by_jid s1 ?L = None"
      using l(1) None m1 ne ids_not_jids [OF u srv'(1)] by auto
    then have "resolve_text ?L s1 = (Inr \<lparr>rr_ref = simple_ref u srv, rr_created = True, rr_merged = False\<rparr>,
        add_ref (simple_ref u srv) ?L s1)"
      using resolve_simple [OF u srv'(1), of s1] by (simp add: Let_def)
    then show thesis by (rule that) (simp_all add: add_ref_def uid)
  next
    case (Some k)
    have "map_of (by_user_id s1) ?L = None" using l(1) m1 ids_not_jids [OF u srv'(1)] by auto
    moreover have "by_jid s1 ?L = Some (lid_id u)"
      "map_of (by_user_id s1) (lid_id u) = Some (simple_ref u srv)"
      using l(2) Some m1 ne by auto
    ultimately have "resolve_text ?L s1 = (Inr \<lparr>rr_ref = simple_ref u srv, rr_created = False, rr_merged = False\<rparr>, s1)"
      using resolve_simple [OF u srv'(1), of s1] by (simp add: Let_def)
    then show thesis
      by (rule that) (use \<open>map_of (by_user_id s1) (lid_id u) = Some (simple_ref u srv)\<close> in auto)
  qed
  have at: "map_of (by_user_id s2) (pn_id p) = Some (simple_ref p ''s.whatsapp.net'')"
    "map_of (by_user_id s2) (lid_id u) = Some (simple_ref u srv)"
    by (simp_all add: m2 m1)
  obtain s3 where m: "merge_user_ids (pn_id p) (lid_id u) s2 = (Inr (linked_ref p u srv), s3)"
    "map_of (by_user_id s3) = (map_of (by_user_id s2))(lid_id u := None, pn_id p \<mapsto> linked_ref p u srv)"
    "by_jid s3 = (by_jid s2)(?P \<mapsto> pn_id p, ?L \<mapsto> pn_id p)"
    using merge_simple [OF srv at] by blast
  have link: "link_pn_lid ?P ?L s = (Inr \<lparr>rr_ref = linked_ref p u srv, rr_created = False, rr_merged = True\<rparr>, s3)"
    by (simp add: link_pn_lid_def r1 r2 uid simple_ref_fields m(1))
  show "fst (link_pn_lid ?P ?L s) = Inr \<lparr>rr_ref = linked_ref p u srv, rr_created = False, rr_merged = True\<rparr>"
    by (simp add: link)
  show "map_of (by_user_id (snd (link_pn_lid ?P ?L s))) =
      (map_of (by_user_id s))(lid_id u := None, pn_id p \<mapsto> linked_ref p u srv)"
    by (simp add: link m(2) m2(1) m1(1) fun_eq_iff)
  have "(by_jid s3) = (by_jid s2)(?L \<mapsto> pn_id p, ?P \<mapsto> pn_id p)" using m(3) ne by (simp add: fun_upd_twist)
  then show "by_jid (snd (link_pn_lid ?P ?L s)) = (by_jid s)(?P \<mapsto> pn_id p, ?L \<mapsto> pn_id p)"
    using m2(2) [of "Some (pn_id p)"] ne by (simp add: link m1(2) fun_upd_twist)
qed

text \<open>
  After a phone number and a LID have been linked, both resolve to one and the same
  reference, which carries both addresses, and a chat with either goes to the number or to the
  LID as the caller prefers.
\<close>

theorem link_joins:
  assumes "plain_user p" and "plain_user u"
    and "s = snd (link_pn_lid (p @ ''@s.whatsapp.net'') (u @ ''@lid'') new_identity_state)"
    and "t = p @ ''@s.whatsapp.net'' \<or> t = u @ ''@lid''"
  shows "resolve_text t s = (Inr \<lparr>rr_ref = linked_ref p u ''lid'', rr_created = False, rr_merged = False\<rparr>, s) \<and>
    as_chat_jid (Text t) PN s = (Inr (p @ ''@s.whatsapp.net''), s) \<and>
    as_chat_jid (Text t) LID_KIND s = (Inr (u @ ''@lid''), s)"
proof -
  have "by_user_id new_identity_state = []" "by_jid new_identity_state = Map.empty"
    by (simp_all add: new_identity_state_def)
  then have link: "map_of (by_user_id s) = [pn_id p \<mapsto> linked_ref p u ''lid'']"
    "by_jid s = [p @ ''@s.whatsapp.net'' \<mapsto> pn_id p, u @ ''@lid'' \<mapsto> pn_id p]"
    using link_fresh(2,3) [OF assms(1,2), of "''lid''" new_identity_state] by (simp_all add: assms(3) fun_eq_iff)
  have keys: "p @ ''@s.whatsapp.net'' \<noteq> pn_id p" "u @ ''@lid'' \<noteq> pn_id p"
    using ids_not_jids(1) [OF assms(1) servers(1)] ids_not_jids(1) [OF assms(2) servers(2)] by simp_all
  have r: "resolve_text t s = (Inr \<lparr>rr_ref = linked_ref p u ''lid'', rr_created = False, rr_merged = False\<rparr>, s)"
    using assms(4) resolve_simple [OF assms(1) servers(1), of s] resolve_simple [OF assms(2) servers(2), of s] keys
    by (auto simp: link Let_def)
  then show ?thesis
    by (simp add: as_chat_jid_def Let_def linked_ref_fields given_simps)
qed

lemma demo_users: "plain_user ''4915''" "plain_user ''77''"
  by (simp_all add: plain_user_def clean_user_def is_space_def)

theorem link_joins_witness:
  "let s = snd (link_pn_lid ''4915@s.whatsapp.net'' ''77@lid'' new_identity_state)
   in as_chat_jid (Text ''77@lid'') PN s = (Inr ''4915@s.whatsapp.net'', s)"
  using link_joins [OF demo_users refl, of "''77@lid''"] by (simp add: Let_def)

text \<open>
  Linking can leave a dangling entry: when a LID was seen under its plain and its hosted
  server, and the hosted one is linked to a number, resolving the plain one raises.
\<close>

theorem link_leaves_dangling:
  assumes "plain_user p" and "plain_user u"
  shows "fst (resolve_text (u @ ''@lid'')
    (snd (link_pn_lid (p @ ''@s.whatsapp.net'') (u @ ''@hosted.lid'')
      (resolve_all [Text (u @ ''@lid''), Text (u @ ''@hosted.lid'')] new_identity_state)))) = Inl KeyError"
proof -
  let ?L = "u @ ''@lid''" and ?H = "u @ ''@hosted.lid''" and ?P = "p @ ''@s.whatsapp.net''"
  define s1 where "s1 = add_ref (simple_ref u ''lid'') ?L new_identity_state"
  define s2 where "s2 = add_ref (simple_ref u ''hosted.lid'') ?H s1"
  have m1: "map_of (by_user_id s1) = [lid_id u \<mapsto> simple_ref u ''lid'']" "by_jid s1 = [?L \<mapsto> lid_id u]"
    by (simp_all add: s1_def add_ref_def new_identity_state_def simple_ref_fields fun_eq_iff)
  have m2: "map_of (by_user_id s2) = [lid_id u \<mapsto> simple_ref u ''hosted.lid'']" "by_jid s2 = [?L \<mapsto> lid_id u, ?H \<mapsto> lid_id u]"
    by (simp_all add: s2_def add_ref_def simple_ref_fields m1)
  note n = ids_not_jids [OF assms(2) servers(2), simplified] ids_not_jids [OF assms(2) servers(3), simplified]
    ids_not_jids [OF assms(1) servers(1), simplified]
  have "snd (resolve_text ?L new_identity_state) = s1"
    using resolve_simple [OF assms(2) servers(2), of new_identity_state]
    by (simp add: Let_def new_identity_state_def s1_def)
  moreover have "snd (resolve_text ?H s1) = s2"
    using resolve_simple [OF assms(2) servers(3), of s1] n by (simp add: Let_def m1 s2_def)
  ultimately have s: "resolve_all [Text ?L, Text ?H] new_identity_state = s2" by simp
  have ne: "?P \<noteq> ?L" "?P \<noteq> ?H"
    using split_last_unique [of p "CHR ''@''" "''s.whatsapp.net''" u "''lid''"]
      split_last_unique [of p "CHR ''@''" "''s.whatsapp.net''" u "''hosted.lid''"] by auto
  define s3 where "s3 = snd (link_pn_lid ?P ?H s2)"
  have m3: "map_of (by_user_id s3) = [pn_id p \<mapsto> linked_ref p u ''hosted.lid'']"
    "by_jid s3 ?L = Some (lid_id u)"
    using link_fresh(2,3) [OF assms, of "''hosted.lid''" s2] n ne unfolding s3_def
    by (auto simp: m2 fun_eq_iff)
  have "fst (resolve_text ?L s3) = Inl KeyError"
    using resolve_simple [OF assms(2) servers(2), of s3] n m3 by (simp add: Let_def)
  then show ?thesis unfolding s s3_def .
qed

theorem link_leaves_dangling_witness:
  "fst (resolve_text ''77@lid''
    (snd (link_pn_lid ''4915@s.whatsapp.net'' ''77@hosted.lid''
      (resolve_all [Text ''77@lid'', Text ''77@hosted.lid''] new_identity_state)))) = Inl KeyError"
  using link_leaves_dangling [OF demo_users] by simp

end
