(* ===== verification/Py_Value.thy ===== *)
theory Py_Value
  imports Prelude
begin

text \<open>
  Dynamically typed values: the JSON-like dictionaries in which messages, chats and contacts are
  passed around. Dictionaries keep their insertion order. Floats and objects of other classes do
  not occur in the modelled code.
\<close>

datatype pyval =
    PNone
  | PBool bool
  | PInt int
  | PStr string
  | PBytes bytes
  | PList "pyval list"
  | PDict "(string \<times> pyval) list"

type_synonym pydict = "(string, pyval) dict"

text \<open>\<open>bool(v)\<close>, \<open>d.get(k)\<close>, \<open>a or b\<close> and \<open>a or b or \<dots>\<close>.\<close>

fun truthy :: "pyval \<Rightarrow> bool" where
  "truthy PNone = False"
| "truthy (PBool b) = b"
| "truthy (PInt i) = (i \<noteq> 0)"
| "truthy (PStr s) = (s \<noteq> '''')"
| "truthy (PBytes b) = (b \<noteq> [])"
| "truthy (PList l) = (l \<noteq> [])"
| "truthy (PDict d) = (d \<noteq> [])"

definition py_get :: "string \<Rightarrow> pydict \<Rightarrow> pyval" where
  "py_get k d = (case map_of d k of None \<Rightarrow> PNone | Some v \<Rightarrow> v)"

definition py_or :: "pyval \<Rightarrow> pyval \<Rightarrow> pyval" where
  "py_or a b = (if truthy a then a else b)"

fun first_truthy :: "pyval list \<Rightarrow> pyval" where
  "first_truthy [] = PNone"
| "first_truthy [v] = v"
| "first_truthy (v # w # vs) = py_or v (first_truthy (w # vs))"

text \<open>
  \<open>isinstance(v, int)\<close> holds of truth values too. A value where a text is expected, and
  where a dictionary is expected.
\<close>

definition as_int :: "pyval \<Rightarrow> int option" where
  "as_int v = (case v of PInt i \<Rightarrow> Some i | PBool b \<Rightarrow> Some (of_bool b) | _ \<Rightarrow> None)"

definition as_str :: "pyval \<Rightarrow> string option" where
  "as_str v = (case v of PStr s \<Rightarrow> Some s | _ \<Rightarrow> None)"

definition text_or_empty :: "pyval \<Rightarrow> string" where
  "text_or_empty v = (case v of PStr s \<Rightarrow> s | _ \<Rightarrow> '''')"

definition as_dict :: "pyval \<Rightarrow> pydict option" where
  "as_dict v = (case v of PDict d \<Rightarrow> Some d | _ \<Rightarrow> None)"

definition dict_or_empty :: "pyval \<Rightarrow> pydict" where
  "dict_or_empty v = (case v of PDict d \<Rightarrow> d | _ \<Rightarrow> [])"

text \<open>Iterating over a value that should be a list.\<close>

definition as_list :: "pyval \<Rightarrow> pyval list result" where
  "as_list v = (case v of PList l \<Rightarrow> Inr l | _ \<Rightarrow> Inl TypeErr)"

text \<open>\<open>{k: v for k, v in d.items() if v is not None}\<close>, done in place by \<open>trim_undefined\<close>.\<close>

definition trim_undefined :: "pydict \<Rightarrow> pydict" where
  "trim_undefined obj = filter (\<lambda>(k, v). v \<noteq> PNone) obj"

text \<open>A sub-string test, \<open>t in s\<close>.\<close>

fun py_contains :: "string \<Rightarrow> string \<Rightarrow> bool" where
  "py_contains t [] = (t = [])"
| "py_contains t (c # s) = (py_startswith (c # s) t \<or> py_contains t s)"

text \<open>The body of a \<open>for\<close> loop may raise; what it has changed until then stays.\<close>

type_synonym 's outcome = "exn option \<times> 's"

fun for_each :: "('a \<Rightarrow> 's \<Rightarrow> 's outcome) \<Rightarrow> 'a list \<Rightarrow> 's \<Rightarrow> 's outcome" where
  "for_each f [] s = (None, s)"
| "for_each f (x # xs) s = (case f x s of
       (Some e, s') \<Rightarrow> (Some e, s')
     | (None, s') \<Rightarrow> for_each f xs s')"

lemma for_each_pure: "for_each (\<lambda>x s. (None, f x s)) xs s = (None, fold f xs s)"
  by (induction xs arbitrary: s) simp_all

lemma for_each_append:
  "for_each f (xs @ ys) s = (case for_each f xs s of (Some e, s') \<Rightarrow> (Some e, s') | (None, s') \<Rightarrow> for_each f ys s')"
  by (induction xs arbitrary: s) (auto split: prod.splits option.splits)

lemma for_each_invariant:
  assumes "I s" and "\<And>x s. x \<in> set xs \<Longrightarrow> I s \<Longrightarrow> I (snd (f x s))"
  shows "I (snd (for_each f xs s))"
  using assms
proof (induction xs arbitrary: s)
  case (Cons x xs)
  then have "I (snd (f x s))" by simp
  with Cons.IH [of "snd (f x s)"] Cons.prems(2) show ?case by (auto split: prod.splits option.splits)
qed simp

section \<open>Reading and writing fields\<close>

lemma py_get_set [simp]: "py_get k (dict_set k' v d) = (if k = k' then v else py_get k d)"
  by (simp add: py_get_def)

lemma py_get_pop [simp]: "py_get k (dict_pop k' d) = (if k = k' then PNone else py_get k d)"
  by (simp add: py_get_def)

lemma py_get_Nil [simp]: "py_get k [] = PNone"
  by (simp add: py_get_def)

lemma py_get_Cons [simp]: "py_get k ((k', v) # d) = (if k = k' then v else py_get k d)"
  by (simp add: py_get_def)

lemma py_get_update:
  "dict_wf e \<Longrightarrow> py_get k (dict_update d e) = (if k \<in> dom (map_of e) then py_get k e else py_get k d)"
  by (auto simp: py_get_def map_of_dict_update map_add_def split: option.splits)

lemma py_get_truthy_dom: "truthy (py_get k d) \<Longrightarrow> k \<in> dom (map_of d)"
  by (auto simp: py_get_def split: option.splits)

lemma dict_update_simps [simp]:
  "dict_update d [] = d" "dict_update d ((k, v) # e) = dict_update (dict_set k v d) e"
  by (simp_all add: dict_update_def)

lemma dict_wf_trim [simp]: "dict_wf d \<Longrightarrow> dict_wf (trim_undefined d)"
  by (simp add: trim_undefined_def)

lemma py_get_trim [simp]: "dict_wf d \<Longrightarrow> py_get k (trim_undefined d) = py_get k d"
  by (simp add: py_get_def trim_undefined_def map_of_filter_wf split: option.splits)

lemma as_int_simps [simp]:
  "as_int PNone = None" "as_int (PInt i) = Some i" "as_int (PBool b) = Some (of_bool b)" "as_int (PStr s) = None"
  by (simp_all add: as_int_def)

lemma as_str_simps [simp]: "as_str (PStr s) = Some s" "as_str PNone = None"
  by (simp_all add: as_str_def)

lemma as_dict_simps [simp]: "as_dict (PDict d) = Some d" "as_dict PNone = None"
  by (simp_all add: as_dict_def)

lemma dict_set_not_Nil [simp]: "dict_set k v d \<noteq> []"
  by (cases d) (auto split: if_splits)

lemma dict_update_assoc:
  assumes "dict_wf d" and "dict_wf e"
  shows "map_of (dict_update (dict_update a d) e) = map_of (dict_update a (dict_update d e))"
  using assms by (simp add: map_of_dict_update)

end
