(* ===== verification/Message_Content.thy ===== *)
theory Message_Content
  imports Py_Value Jid
begin

text \<open>
  What the processing of messages reads from them: the content below the wrappers
  (\<^verbatim>\<open>utils/messages.py\<close>), the author of a key (\<^verbatim>\<open>utils/generics.py\<close>), which messages
  are real and count as unread (\<^verbatim>\<open>utils/process_message.py\<close>), and the reactions, receipts,
  votes and responses that are attached to a message. A message is a dictionary; its \<open>key\<close>,
  \<open>message\<close> and \<open>reactions\<close> fields hold a dictionary, or nothing, and a list of dictionaries.
\<close>

section \<open>Content\<close>

definition content_type_key :: "string \<Rightarrow> bool" where
  "content_type_key k \<longleftrightarrow> (k = ''conversation'' \<or> py_contains ''Message'' k) \<and> k \<noteq> ''senderKeyDistributionMessage''"

definition get_content_type :: "pydict option \<Rightarrow> string option" where
  "get_content_type content = (case content of None \<Rightarrow> None | Some c \<Rightarrow> find content_type_key (map fst c))"

definition wrapper_keys :: "string list" where
  "wrapper_keys = [''ephemeralMessage'', ''viewOnceMessage'', ''documentWithCaptionMessage'', ''viewOnceMessageV2'',
     ''viewOnceMessageV2Extension'', ''editedMessage'', ''associatedChildMessage'', ''groupStatusMessage'',
     ''groupStatusMessageV2'']"

fun unwrap :: "nat \<Rightarrow> pydict \<Rightarrow> pydict" where
  "unwrap 0 current = current"
| "unwrap (Suc n) current =
     (let inner = first_truthy (map (\<lambda>k. py_get k current) wrapper_keys)
      in if \<not> truthy inner then current
         else case inner of
           PDict d \<Rightarrow> (case py_get ''message'' d of PDict msg \<Rightarrow> unwrap n msg | _ \<Rightarrow> current)
         | _ \<Rightarrow> current)"

definition normalize_message_content :: "pydict option \<Rightarrow> pydict option" where
  "normalize_message_content content =
     (case content of None \<Rightarrow> None | Some c \<Rightarrow> if c = [] then None else Some (unwrap 5 c))"

definition extract_from_template_message :: "pydict \<Rightarrow> pydict" where
  "extract_from_template_message msg =
     (if truthy (py_get ''imageMessage'' msg) then [(''imageMessage'', py_get ''imageMessage'' msg)]
      else if truthy (py_get ''documentMessage'' msg) then [(''documentMessage'', py_get ''documentMessage'' msg)]
      else if truthy (py_get ''videoMessage'' msg) then [(''videoMessage'', py_get ''videoMessage'' msg)]
      else if truthy (py_get ''locationMessage'' msg) then [(''locationMessage'', py_get ''locationMessage'' msg)]
      else [(''conversation'',
             first_truthy [py_get ''contentText'' msg, py_get ''hydratedContentText'' msg, PStr ''''])])"

definition extract_message_content :: "pydict option \<Rightarrow> pydict option" where
  "extract_message_content content =
     (case normalize_message_content content of
        None \<Rightarrow> None
      | Some n \<Rightarrow>
          if n = [] then None
          else if truthy (py_get ''buttonsMessage'' n)
          then Some (extract_from_template_message (dict_or_empty (py_get ''buttonsMessage'' n)))
          else
            let t = dict_or_empty (py_get ''templateMessage'' n)
            in if truthy (py_get ''hydratedFourRowTemplate'' t)
               then Some (extract_from_template_message (dict_or_empty (py_get ''hydratedFourRowTemplate'' t)))
               else if truthy (py_get ''hydratedTemplate'' t)
               then Some (extract_from_template_message (dict_or_empty (py_get ''hydratedTemplate'' t)))
               else if truthy (py_get ''fourRowTemplate'' t)
               then Some (extract_from_template_message (dict_or_empty (py_get ''fourRowTemplate'' t)))
               else Some n)"

section \<open>Keys\<close>

definition get_key_author :: "pyval \<Rightarrow> string \<Rightarrow> pyval" where
  "get_key_author key me_id = (case key of
       PDict d \<Rightarrow>
         if truthy (py_get ''fromMe'' d) then PStr me_id
         else first_truthy [py_get ''participantAlt'' d, py_get ''remoteJidAlt'' d, py_get ''participant'' d,
                            py_get ''remoteJid'' d, PStr '''']
     | _ \<Rightarrow> PStr '''')"

definition message_key :: "pydict \<Rightarrow> pydict" where
  "message_key m = dict_or_empty (py_get ''key'' m)"

definition get_chat_id :: "pydict \<Rightarrow> string option" where
  "get_chat_id key =
     (let remote_jid = (case map_of key ''remoteJid'' of None \<Rightarrow> Some '''' | Some v \<Rightarrow> as_str v);
          participant = as_str (py_get ''participant'' key);
          from_me = truthy (py_get ''fromMe'' key)
      in if is_jid_broadcast remote_jid \<and> \<not> is_jid_status_broadcast (case remote_jid of None \<Rightarrow> '''' | Some j \<Rightarrow> j) \<and> \<not> from_me
         then (if participant = None \<or> participant = Some '''' then remote_jid else participant)
         else remote_jid)"

section \<open>Real messages\<close>

datatype stub_type = Stub int string

fun stub_code :: "stub_type \<Rightarrow> int" where
  "stub_code (Stub c n) = c"

fun stub_name :: "stub_type \<Rightarrow> string" where
  "stub_name (Stub c n) = n"

definition stub_matches :: "pyval \<Rightarrow> stub_type \<Rightarrow> bool" where
  "stub_matches value target = (case value of
       PStr s \<Rightarrow> s = stub_name target
     | v \<Rightarrow> as_int v = Some (stub_code target))"

definition real_msg_stub_types :: "stub_type list" where
  "real_msg_stub_types = [Stub 103 ''CALL_MISSED_GROUP_VIDEO'', Stub 102 ''CALL_MISSED_GROUP_VOICE'',
     Stub 101 ''CALL_MISSED_VIDEO'', Stub 100 ''CALL_MISSED_VOICE'']"

definition real_msg_req_me_stub_types :: "stub_type list" where
  "real_msg_req_me_stub_types = [Stub 27 ''GROUP_PARTICIPANT_ADD'']"

definition is_real_message :: "pydict \<Rightarrow> bool" where
  "is_real_message message =
     (let normalized = normalize_message_content (as_dict (py_get ''message'' message));
          has_content = (get_content_type normalized \<noteq> None);
          stub_type = py_get ''messageStubType'' message;
          stub_is_real = list_ex (stub_matches stub_type) real_msg_stub_types;
          stub_req_me = list_ex (stub_matches stub_type) real_msg_req_me_stub_types;
          part = (\<lambda>k. case normalized of None \<Rightarrow> PNone | Some n \<Rightarrow> py_get k n)
      in ((case normalized of None \<Rightarrow> False | Some n \<Rightarrow> n \<noteq> []) \<or> stub_is_real \<or> stub_req_me) \<and> has_content \<and>
         \<not> truthy (part ''protocolMessage'') \<and> \<not> truthy (part ''reactionMessage'') \<and>
         \<not> truthy (part ''pollUpdateMessage''))"

definition should_increment_chat_unread :: "pydict \<Rightarrow> bool" where
  "should_increment_chat_unread message \<longleftrightarrow>
     \<not> truthy (py_get ''fromMe'' (message_key message)) \<and> \<not> truthy (py_get ''messageStubType'' message)"

section \<open>What is attached to a message\<close>

text \<open>\<open>target.get(field, [])\<close> as a list of dictionaries; a field that holds no list raises.\<close>

definition attached :: "string \<Rightarrow> pydict \<Rightarrow> pydict list result" where
  "attached field m = (case map_of m field of
       None \<Rightarrow> Inr []
     | Some v \<Rightarrow> bindE (as_list v) (\<lambda>l. Inr (map dict_or_empty l)))"

definition other_authors :: "string \<Rightarrow> pyval \<Rightarrow> pydict list \<Rightarrow> pydict list" where
  "other_authors key_field author items =
     filter (\<lambda>item. get_key_author (py_get key_field item) ''me'' \<noteq> author) items"

definition update_message_with_reaction :: "pydict \<Rightarrow> pydict \<Rightarrow> pydict result" where
  "update_message_with_reaction msg reaction =
     (let author_id = get_key_author (py_get ''key'' reaction) ''me''
      in bindE (attached ''reactions'' msg) (\<lambda>items.
         let reactions = other_authors ''key'' author_id items;
             merged = dict_set ''text'' (py_or (py_get ''text'' reaction) (PStr '''')) reaction
         in Inr (dict_set ''reactions'' (PList (map PDict (reactions @ [merged]))) msg)))"

fun update_receipts :: "pydict \<Rightarrow> pydict list \<Rightarrow> pydict list" where
  "update_receipts receipt [] = [receipt]"
| "update_receipts receipt (item # items) =
     (if py_get ''userJid'' item = py_get ''userJid'' receipt
      then (if item = [] then item # items @ [receipt] else dict_update item receipt # items)
      else item # update_receipts receipt items)"

definition update_message_with_receipt :: "pydict \<Rightarrow> pydict \<Rightarrow> pydict result" where
  "update_message_with_receipt msg receipt =
     bindE (attached ''userReceipt'' msg) (\<lambda>receipts.
       Inr (dict_set ''userReceipt'' (PList (map PDict (update_receipts receipt receipts))) msg))"

definition update_message_with_poll_update :: "pydict \<Rightarrow> pydict \<Rightarrow> pydict result" where
  "update_message_with_poll_update msg update =
     (let author_id = get_key_author (py_get ''pollUpdateMessageKey'' update) ''me''
      in bindE (attached ''pollUpdates'' msg) (\<lambda>items.
         let updates = other_authors ''pollUpdateMessageKey'' author_id items;
             vote = dict_or_empty (py_get ''vote'' update)
         in Inr (dict_set ''pollUpdates''
              (PList (map PDict (if truthy (py_get ''selectedOptions'' vote) then updates @ [update] else updates))) msg)))"

definition update_message_with_event_response :: "pydict \<Rightarrow> pydict \<Rightarrow> pydict result" where
  "update_message_with_event_response msg update =
     (let author_id = get_key_author (py_get ''eventResponseMessageKey'' update) ''me''
      in bindE (attached ''eventResponses'' msg) (\<lambda>items.
         Inr (dict_set ''eventResponses''
           (PList (map PDict (other_authors ''eventResponseMessageKey'' author_id items @ [update]))) msg)))"


section \<open>One reaction per author\<close>

definition reaction_author :: "pydict \<Rightarrow> pyval" where
  "reaction_author r = get_key_author (py_get ''key'' r) ''me''"

definition with_text :: "pydict \<Rightarrow> pydict" where
  "with_text r = dict_set ''text'' (py_or (py_get ''text'' r) (PStr '''')) r"

definition reactions_by :: "pyval \<Rightarrow> pydict \<Rightarrow> pydict list" where
  "reactions_by a m = (case attached ''reactions'' m of
       Inl e \<Rightarrow> [] | Inr items \<Rightarrow> filter (\<lambda>r. reaction_author r = a) items)"

fun react_all :: "pydict list \<Rightarrow> pydict \<Rightarrow> pydict result" where
  "react_all [] m = Inr m"
| "react_all (r # rs) m = bindE (update_message_with_reaction m r) (react_all rs)"

lemma author_with_text [simp]: "reaction_author (with_text r) = reaction_author r"
  by (simp add: reaction_author_def with_text_def)

lemma dict_or_empty_simps [simp]: "dict_or_empty (PDict d) = d" "dict_or_empty PNone = []"
  by (simp_all add: dict_or_empty_def)

lemma attached_set: "attached field (dict_set field (PList (map PDict ds)) m) = Inr ds"
  by (simp add: attached_def as_list_def comp_def)

lemma react_step:
  assumes "attached ''reactions'' m = Inr items"
  shows "\<exists>m'. update_message_with_reaction m r = Inr m' \<and>
    attached ''reactions'' m' = Inr (filter (\<lambda>x. reaction_author x \<noteq> reaction_author r) items @ [with_text r])"
  using attached_set [of "''reactions''"] assms
  by (simp add: update_message_with_reaction_def other_authors_def reaction_author_def with_text_def Let_def del: map_append)

text \<open>
  Each author has at most one reaction, the last: after any sequence of reactions to a message
  whose reactions can be read, the reactions by an author are the last one that was added, and
  those of authors who did not react again are as they were.
\<close>

theorem last_reaction_counts:
  assumes "attached ''reactions'' m = Inr items"
  shows "\<exists>m'. react_all rs m = Inr m' \<and>
    reactions_by a m' = (case filter (\<lambda>r. reaction_author r = a) rs of
       [] \<Rightarrow> filter (\<lambda>r. reaction_author r = a) items | xs \<Rightarrow> [with_text (last xs)])"
  using assms
proof (induction rs arbitrary: m items)
  case Nil
  then show ?case by (simp add: reactions_by_def)
next
  case (Cons r rs)
  let ?rest = "filter (\<lambda>x. reaction_author x \<noteq> reaction_author r) items @ [with_text r]"
  obtain m1 where m1: "update_message_with_reaction m r = Inr m1" "attached ''reactions'' m1 = Inr ?rest"
    using react_step [OF Cons.prems, of r] by blast
  have "filter (\<lambda>x. reaction_author x = a) ?rest =
      (if reaction_author r = a then [with_text r] else filter (\<lambda>x. reaction_author x = a) items)"
    by (auto simp: filter_empty_conv intro: filter_cong)
  with Cons.IH [OF m1(2)] m1(1) show ?case
    by (auto split: list.splits)
qed

theorem last_reaction_counts_witness:
  "\<exists>m'. react_all [[(''text'', PStr ''a'')], [(''text'', PStr ''b'')]] [] = Inr m' \<and>
    reactions_by (PStr '''') m' = [with_text [(''text'', PStr ''b'')]]"
  using last_reaction_counts [of "[]" "[]" "[[(''text'', PStr ''a'')], [(''text'', PStr ''b'')]]" "PStr ''''"]
  by (simp add: attached_def reaction_author_def get_key_author_def)


section \<open>Stub types\<close>

text \<open>The stub type never decides whether a message is real: without content it is not.\<close>

lemma stub_type_irrelevant: "is_real_message (dict_set ''messageStubType'' v m) = is_real_message m"
proof -
  have "content \<noteq> None \<and> content \<noteq> Some []" if "get_content_type content \<noteq> None" for content
    using that by (auto simp: get_content_type_def split: option.splits)
  then show ?thesis by (fastforce simp: is_real_message_def Let_def)
qed

end
