(* ===== verification/Event_Buffer.thy ===== *)
theory Event_Buffer
  imports Message_Content
begin

text \<open>
  The event buffer of \<^verbatim>\<open>utils/event_buffer.py\<close>: while buffering, events are merged
  into one collection (\<open>append_event\<close>), which \<open>flush\<close> turns into one event per kind
  (\<open>consolidate_events\<close>). Payload dictionaries are values: no dictionary is shared between
  two events. Identifiers are texts. A chat update may carry a condition, a closure that looks at
  the buffered data and answers true, false or not yet; it is a value of type \<open>'c\<close>, kept apart
  from the other fields, with an evaluator as parameter. Time-outs are in \<open>Buffer_Timers\<close>.
\<close>

section \<open>Data\<close>

record history_set =
  hs_chats :: "(string, pydict) dict"
  hs_contacts :: "(string, pydict) dict"
  hs_messages :: "(string, pydict) dict"
  hs_empty :: bool
  hs_sync_type :: pyval
  hs_progress :: pyval
  hs_session_id :: pyval
  hs_is_latest :: pyval

record 'c chat_update =
  cu_fields :: pydict
  cu_conditional :: "'c option"

record message_upsert =
  mu_message :: pydict
  mu_type :: string

record 'c buffer_data =
  bd_history :: history_set
  bd_chat_upserts :: "(string, pydict) dict"
  bd_chat_updates :: "(string, 'c chat_update) dict"
  bd_chat_deletes :: "string set"
  bd_contact_upserts :: "(string, pydict) dict"
  bd_contact_updates :: "(string, pydict) dict"
  bd_message_upserts :: "(string, message_upsert) dict"
  bd_message_updates :: "(string, pydict \<times> pydict) dict"
  bd_message_deletes :: "(string, pydict) dict"
  bd_message_reactions :: "(string, pydict) dict"
  bd_message_receipts :: "(string, pydict) dict"
  bd_group_updates :: "(string, pydict) dict"

definition make_buffer_data :: "'c buffer_data" where
  "make_buffer_data =
     \<lparr>bd_history = \<lparr>hs_chats = [], hs_contacts = [], hs_messages = [], hs_empty = True, hs_sync_type = PNone,
                   hs_progress = PNone, hs_session_id = PNone, hs_is_latest = PBool False\<rparr>,
      bd_chat_upserts = [], bd_chat_updates = [], bd_chat_deletes = {}, bd_contact_upserts = [],
      bd_contact_updates = [], bd_message_upserts = [], bd_message_updates = [], bd_message_deletes = [],
      bd_message_reactions = [], bd_message_receipts = [], bd_group_updates = []\<rparr>"

record history_event =
  he_chats :: "pydict list"
  he_contacts :: "pydict list"
  he_messages :: "pydict list"
  he_sync_type :: pyval
  he_progress :: pyval
  he_session_id :: pyval
  he_is_latest :: pyval

text \<open>The payload of each event; \<open>Messages_Delete None\<close> has no list of keys.\<close>

datatype 'c event =
    History_Set history_event
  | Chats_Upsert "pydict list"
  | Chats_Update "'c chat_update list"
  | Chats_Delete "string set"
  | Contacts_Upsert "pydict list"
  | Contacts_Update "pydict list"
  | Messages_Upsert "pydict list" "string option"
  | Messages_Update "(pydict \<times> pydict) list"
  | Messages_Delete "pydict list option"
  | Messages_Reaction "(pydict \<times> pydict) list"
  | Receipt_Update "(pydict \<times> pydict) list"
  | Groups_Update "pydict list"
  | Other_Event string pyval

fun bufferable :: "'c event \<Rightarrow> bool" where
  "bufferable (Other_Event n v) = False"
| "bufferable e = True"

section \<open>Merging chats\<close>

text \<open>\<open>get(d, "id") or ""\<close>, and the required field \<open>d["id"]\<close>.\<close>

definition id_or_empty :: "pydict \<Rightarrow> string" where
  "id_or_empty d = (case py_get ''id'' d of PStr s \<Rightarrow> s | _ \<Rightarrow> '''')"

definition required_id :: "pydict \<Rightarrow> string result" where
  "required_id d = (case map_of d ''id'' of None \<Rightarrow> Inl KeyError | Some v \<Rightarrow>
     (case v of PStr s \<Rightarrow> Inr s | _ \<Rightarrow> Inl TypeErr))"

text \<open>The text of a key; its fields are texts or absent.\<close>

definition key_part :: "pyval \<Rightarrow> string" where
  "key_part v = (case v of PStr s \<Rightarrow> s | _ \<Rightarrow> ''None'')"

definition stringify_message_key :: "pydict \<Rightarrow> string" where
  "stringify_message_key key =
     key_part (py_get ''remoteJid'' key) @ '','' @ key_part (py_get ''id'' key) @ '','' @
     (if truthy (py_get ''fromMe'' key) then ''1'' else ''0'')"

text \<open>The two unread counts that \<open>_concat_chats\<close> works on, and what it leaves in \<open>b\<close>.\<close>

definition concat_chats :: "pydict \<Rightarrow> pydict \<Rightarrow> pydict" where
  "concat_chats a b =
     (let wipe = (py_get ''unreadCount'' b = PNone \<and> (case as_int (py_get ''unreadCount'' a) of Some x \<Rightarrow> x < 0 | None \<Rightarrow> False));
          a1 = (if wipe then dict_set ''unreadCount'' PNone a else a);
          b1 = (if wipe then dict_set ''unreadCount'' PNone b else b);
          b2 = (case (as_int (py_get ''unreadCount'' a1), as_int (py_get ''unreadCount'' b1)) of
                  (Some x, Some y) \<Rightarrow> if y \<ge> 0 then dict_set ''unreadCount'' (PInt (max y 0 + max x 0)) b1 else b1
                | _ \<Rightarrow> b1)
      in dict_update a1 b2)"

section \<open>Adding an event\<close>

definition set_chat :: "bool \<Rightarrow> string \<Rightarrow> pydict \<Rightarrow> 'c buffer_data \<Rightarrow> 'c buffer_data" where
  "set_chat in_history k chat bd =
     (if in_history then bd\<lparr>bd_history := (bd_history bd)\<lparr>hs_chats := dict_set k chat (hs_chats (bd_history bd))\<rparr>\<rparr>
      else bd\<lparr>bd_chat_upserts := dict_set k chat (bd_chat_upserts bd)\<rparr>)"

text \<open>A dictionary that is there and not empty.\<close>

definition present :: "'k \<Rightarrow> ('k, ('a \<times> 'b) list) dict \<Rightarrow> ('a \<times> 'b) list option" where
  "present k d = (case map_of d k of Some v \<Rightarrow> if v = [] then None else Some v | None \<Rightarrow> None)"

text \<open>
  \<open>_absorbing_chat_update\<close> on the chat that is stored in the history or among the
  upserts under \<open>k\<close>.
\<close>

definition absorbing_chat_update ::
    "('c \<Rightarrow> 'c buffer_data \<Rightarrow> bool option) \<Rightarrow> bool \<Rightarrow> string \<Rightarrow> pydict \<Rightarrow> 'c buffer_data \<Rightarrow> 'c buffer_data" where
  "absorbing_chat_update holds in_history k existing bd =
     (let chat_id = id_or_empty existing in
      case map_of (bd_chat_updates bd) chat_id of
        None \<Rightarrow> bd
      | Some update \<Rightarrow>
          if cu_fields update = [] \<and> cu_conditional update = None then bd
          else case (case cu_conditional update of None \<Rightarrow> Some True | Some c \<Rightarrow> holds c bd) of
            None \<Rightarrow> bd
          | Some True \<Rightarrow>
              (set_chat in_history k (dict_update existing (concat_chats (cu_fields update) existing)) bd)
                \<lparr>bd_chat_updates := dict_pop chat_id (bd_chat_updates bd)\<rparr>
          | Some False \<Rightarrow> bd\<lparr>bd_chat_updates := dict_pop chat_id (bd_chat_updates bd)\<rparr>)"

type_synonym 'c buffering = "string set \<times> 'c buffer_data"

definition history_chat ::
    "('c \<Rightarrow> 'c buffer_data \<Rightarrow> bool option) \<Rightarrow> pydict \<Rightarrow> 'c buffering \<Rightarrow> 'c buffering" where
  "history_chat holds chat = (\<lambda>(cache, bd).
     let chat_id = id_or_empty chat in
     case present chat_id (hs_chats (bd_history bd)) of
       Some existing \<Rightarrow>
         (cache, set_chat True chat_id
           (dict_set ''endOfHistoryTransferType'' (py_get ''endOfHistoryTransferType'' chat) existing) bd)
     | None \<Rightarrow>
         if chat_id \<notin> cache
         then (insert chat_id cache, absorbing_chat_update holds True chat_id chat (set_chat True chat_id chat bd))
         else (cache, bd))"

definition history_contact :: "pydict \<Rightarrow> 'c buffering \<Rightarrow> 'c buffering outcome" where
  "history_contact contact = (\<lambda>(cache, bd).
     case required_id contact of
       Inl e \<Rightarrow> (Some e, cache, bd)
     | Inr contact_id \<Rightarrow>
         let put = (\<lambda>v. bd\<lparr>bd_history := (bd_history bd)\<lparr>hs_contacts := dict_set contact_id v (hs_contacts (bd_history bd))\<rparr>\<rparr>)
         in case present contact_id (hs_contacts (bd_history bd)) of
              Some existing \<Rightarrow> (None, cache, put (dict_update existing (trim_undefined contact)))
            | None \<Rightarrow>
                let history_id = ''c:'' @ contact_id;
                    has_any_name = truthy (first_truthy [py_get ''notify'' contact, py_get ''name'' contact, py_get ''verifiedName'' contact])
                in if history_id \<notin> cache \<or> has_any_name then (None, insert history_id cache, put contact)
                   else (None, cache, bd))"

definition history_message :: "pydict \<Rightarrow> 'c buffering \<Rightarrow> 'c buffering" where
  "history_message message = (\<lambda>(cache, bd).
     let key = stringify_message_key (message_key message)
     in if present key (hs_messages (bd_history bd)) = None \<and> key \<notin> cache
        then (insert key cache,
              bd\<lparr>bd_history := (bd_history bd)\<lparr>hs_messages := dict_set key message (hs_messages (bd_history bd))\<rparr>\<rparr>)
        else (cache, bd))"

definition history_fields :: "history_event \<Rightarrow> 'c buffering \<Rightarrow> 'c buffering" where
  "history_fields ev = (\<lambda>(cache, bd). (cache, bd\<lparr>bd_history := (bd_history bd)
     \<lparr>hs_empty := False, hs_sync_type := he_sync_type ev, hs_progress := he_progress ev,
      hs_session_id := he_session_id ev, hs_is_latest := py_or (he_is_latest ev) (hs_is_latest (bd_history bd))\<rparr>\<rparr>))"

definition chat_upsert :: "('c \<Rightarrow> 'c buffer_data \<Rightarrow> bool option) \<Rightarrow> pydict \<Rightarrow> 'c buffer_data \<Rightarrow> 'c buffer_data" where
  "chat_upsert holds chat bd =
     (let chat_id = id_or_empty chat;
          (in_history, upsert) =
            (case present chat_id (bd_chat_upserts bd) of
               Some u \<Rightarrow> (False, concat_chats u chat)
             | None \<Rightarrow> (case present chat_id (hs_chats (bd_history bd)) of
                 Some u \<Rightarrow> (True, concat_chats u chat)
               | None \<Rightarrow> (False, chat)));
          bd1 = absorbing_chat_update holds in_history chat_id upsert (set_chat in_history chat_id upsert bd)
      in bd1\<lparr>bd_chat_deletes := bd_chat_deletes bd1 - {chat_id}\<rparr>)"

definition chat_update_event ::
    "('c \<Rightarrow> 'c buffer_data \<Rightarrow> bool option) \<Rightarrow> 'c chat_update \<Rightarrow> 'c buffer_data \<Rightarrow> 'c buffer_data" where
  "chat_update_event holds update bd =
     (let chat_id = id_or_empty (cu_fields update) in
      if chat_id = '''' then bd
      else
        let matches = (case cu_conditional update of None \<Rightarrow> Some True | Some c \<Rightarrow> holds c bd);
            bd1 = (case matches of
                None \<Rightarrow> bd\<lparr>bd_chat_updates := dict_set chat_id update (bd_chat_updates bd)\<rparr>
              | Some False \<Rightarrow> bd
              | Some True \<Rightarrow>
                  (case present chat_id (hs_chats (bd_history bd)) of
                     Some u \<Rightarrow> set_chat True chat_id (concat_chats u (cu_fields update)) bd
                   | None \<Rightarrow>
                       (case present chat_id (bd_chat_upserts bd) of
                          Some u \<Rightarrow> set_chat False chat_id (concat_chats u (cu_fields update)) bd
                        | None \<Rightarrow>
                            let old = (case map_of (bd_chat_updates bd) chat_id of
                                Some u \<Rightarrow> u | None \<Rightarrow> \<lparr>cu_fields = [], cu_conditional = None\<rparr>)
                            in bd\<lparr>bd_chat_updates := dict_set chat_id
                                 (old\<lparr>cu_fields := concat_chats (cu_fields old) (cu_fields update)\<rparr>) (bd_chat_updates bd)\<rparr>)))
        in bd1\<lparr>bd_chat_deletes := bd_chat_deletes bd1 - {chat_id}\<rparr>)"

definition chats_delete :: "string set \<Rightarrow> 'c buffer_data \<Rightarrow> 'c buffer_data" where
  "chats_delete ids bd =
     bd\<lparr>bd_chat_deletes := bd_chat_deletes bd \<union> ids,
        bd_chat_updates := filter (\<lambda>(k, v). k \<notin> ids) (bd_chat_updates bd),
        bd_chat_upserts := filter (\<lambda>(k, v). k \<notin> ids) (bd_chat_upserts bd),
        bd_history := (bd_history bd)\<lparr>hs_chats := filter (\<lambda>(k, v). k \<notin> ids) (hs_chats (bd_history bd))\<rparr>\<rparr>"

definition set_contact :: "bool \<Rightarrow> string \<Rightarrow> pydict \<Rightarrow> 'c buffer_data \<Rightarrow> 'c buffer_data" where
  "set_contact in_history k contact bd =
     (if in_history
      then bd\<lparr>bd_history := (bd_history bd)\<lparr>hs_contacts := dict_set k contact (hs_contacts (bd_history bd))\<rparr>\<rparr>
      else bd\<lparr>bd_contact_upserts := dict_set k contact (bd_contact_upserts bd)\<rparr>)"

text \<open>
  A new contact is stored as it is; \<open>trim_undefined\<close> works in place, so it also loses its empty
  fields when it is then updated with itself.
\<close>

definition contact_upsert :: "pydict \<Rightarrow> 'c buffer_data \<Rightarrow> 'c buffer_data outcome" where
  "contact_upsert contact bd = (case required_id contact of
       Inl e \<Rightarrow> (Some e, bd)
     | Inr contact_id \<Rightarrow>
         let (in_history, upsert, updated) =
               (case present contact_id (bd_contact_upserts bd) of
                  Some u \<Rightarrow> (False, dict_update u (trim_undefined contact), dict_update u (trim_undefined contact))
                | None \<Rightarrow> (case present contact_id (hs_contacts (bd_history bd)) of
                    Some u \<Rightarrow> (True, dict_update u (trim_undefined contact), dict_update u (trim_undefined contact))
                  | None \<Rightarrow> (False, contact, trim_undefined contact)))
         in if present contact_id (bd_contact_updates bd) \<noteq> None
            then (None, (set_contact in_history contact_id updated bd)
                    \<lparr>bd_contact_updates := dict_pop contact_id (bd_contact_updates bd)\<rparr>)
            else (None, set_contact in_history contact_id upsert bd))"

definition contact_update :: "pydict \<Rightarrow> 'c buffer_data \<Rightarrow> 'c buffer_data" where
  "contact_update update bd =
     (let contact_id = id_or_empty update in
      if contact_id = '''' then bd
      else case present contact_id (hs_contacts (bd_history bd)) of
          Some u \<Rightarrow> set_contact True contact_id (dict_update u update) bd
        | None \<Rightarrow> (case present contact_id (bd_contact_upserts bd) of
            Some u \<Rightarrow> set_contact False contact_id (dict_update u update) bd
          | None \<Rightarrow>
              let old = (case map_of (bd_contact_updates bd) contact_id of Some u \<Rightarrow> u | None \<Rightarrow> [])
              in bd\<lparr>bd_contact_updates := dict_set contact_id (dict_update old update) (bd_contact_updates bd)\<rparr>))"

text \<open>The message of a buffered upsert, if it is there and not empty.\<close>

definition upserted_message :: "string \<Rightarrow> 'c buffer_data \<Rightarrow> pydict option" where
  "upserted_message key bd = (case map_of (bd_message_upserts bd) key of
       Some u \<Rightarrow> if mu_message u = [] then None else Some (mu_message u)
     | None \<Rightarrow> None)"

definition first_of :: "'a option \<Rightarrow> 'a option \<Rightarrow> 'a option" where
  "first_of a b = (case a of None \<Rightarrow> b | Some x \<Rightarrow> Some x)"

definition message_upsert_event :: "string \<Rightarrow> pydict \<Rightarrow> 'c buffer_data \<Rightarrow> 'c buffer_data" where
  "message_upsert_event upsert_type message bd =
     (let key = stringify_message_key (message_key message);
          message1 = (case first_of (upserted_message key bd) (present key (hs_messages (bd_history bd))) of
              Some existing \<Rightarrow> dict_set ''messageTimestamp'' (py_get ''messageTimestamp'' existing) message
            | None \<Rightarrow> message);
          (message2, updates) = (case map_of (bd_message_updates bd) key of
              Some (k, update) \<Rightarrow> (dict_update message1 update, dict_pop key (bd_message_updates bd))
            | None \<Rightarrow> (message1, bd_message_updates bd));
          bd1 = bd\<lparr>bd_message_updates := updates\<rparr>
      in if present key (hs_messages (bd_history bd)) \<noteq> None
         then bd1\<lparr>bd_history := (bd_history bd1)\<lparr>hs_messages := dict_set key message2 (hs_messages (bd_history bd1))\<rparr>\<rparr>
         else
           let prev_notify = (case map_of (bd_message_upserts bd) key of Some u \<Rightarrow> mu_type u = ''notify'' | None \<Rightarrow> False)
           in bd1\<lparr>bd_message_upserts := dict_set key
                \<lparr>mu_message = message2, mu_type = (if upsert_type = ''notify'' \<or> prev_notify then ''notify'' else upsert_type)\<rparr>
                (bd_message_upserts bd1)\<rparr>)"

text \<open>
  \<open>_decrement_chat_read_counter_if_msg_did_unread\<close>: the chat is looked up among the chat
  updates, then among the upserts.
\<close>

definition read_chat :: "pydict \<Rightarrow> pydict" where
  "read_chat chat = (case as_int (py_get ''unreadCount'' chat) of
       Some n \<Rightarrow> if n > 0 then (if n - 1 = 0 then dict_pop ''unreadCount'' chat
                                 else dict_set ''unreadCount'' (PInt (n - 1)) chat) else chat
     | None \<Rightarrow> chat)"

definition decrement_chat_read_counter :: "pydict \<Rightarrow> 'c buffer_data \<Rightarrow> 'c buffer_data" where
  "decrement_chat_read_counter message bd =
     (let chat_id = key_part (py_get ''remoteJid'' (message_key message)) in
      if \<not> truthy (py_get ''remoteJid'' (message_key message)) then bd
      else if \<not> (is_real_message message \<and> should_increment_chat_unread message) then bd
      else case map_of (bd_chat_updates bd) chat_id of
          Some u \<Rightarrow>
            if cu_fields u \<noteq> [] \<or> cu_conditional u \<noteq> None
            then bd\<lparr>bd_chat_updates := dict_set chat_id (u\<lparr>cu_fields := read_chat (cu_fields u)\<rparr>) (bd_chat_updates bd)\<rparr>
            else (case present chat_id (bd_chat_upserts bd) of None \<Rightarrow> bd | Some c \<Rightarrow> set_chat False chat_id (read_chat c) bd)
        | None \<Rightarrow> (case present chat_id (bd_chat_upserts bd) of None \<Rightarrow> bd | Some c \<Rightarrow> set_chat False chat_id (read_chat c) bd))"

definition status_read :: int where
  "status_read = 4"

definition message_update_event :: "pydict \<times> pydict \<Rightarrow> 'c buffer_data \<Rightarrow> 'c buffer_data" where
  "message_update_event item bd =
     (let (item_key, update) = item;
          key = stringify_message_key item_key;
          now_read = (as_int (py_get ''status'' update) = Some status_read \<and> \<not> truthy (py_get ''fromMe'' item_key))
      in case present key (hs_messages (bd_history bd)) of
           Some m \<Rightarrow>
             let existing = dict_update m update;
                 bd1 = bd\<lparr>bd_history := (bd_history bd)\<lparr>hs_messages := dict_set key existing (hs_messages (bd_history bd))\<rparr>\<rparr>
             in if now_read then decrement_chat_read_counter existing bd1 else bd1
         | None \<Rightarrow> (case map_of (bd_message_upserts bd) key of
             Some u \<Rightarrow>
               if mu_message u \<noteq> [] then
                 let existing = dict_update (mu_message u) update;
                     bd1 = bd\<lparr>bd_message_upserts := dict_set key (u\<lparr>mu_message := existing\<rparr>) (bd_message_upserts bd)\<rparr>
                 in if now_read then decrement_chat_read_counter existing bd1 else bd1
               else bd\<lparr>bd_message_updates := dict_set key
                 (case map_of (bd_message_updates bd) key of Some (k, u) \<Rightarrow> (k, dict_update u update)
                  | None \<Rightarrow> (item_key, dict_update [] update)) (bd_message_updates bd)\<rparr>
           | None \<Rightarrow> bd\<lparr>bd_message_updates := dict_set key
                 (case map_of (bd_message_updates bd) key of Some (k, u) \<Rightarrow> (k, dict_update u update)
                  | None \<Rightarrow> (item_key, dict_update [] update)) (bd_message_updates bd)\<rparr>))"

definition message_delete :: "pydict \<Rightarrow> 'c buffer_data \<Rightarrow> 'c buffer_data" where
  "message_delete key_obj bd =
     (let key = stringify_message_key key_obj
      in bd\<lparr>bd_message_deletes := (if map_of (bd_message_deletes bd) key = None
                                   then dict_set key key_obj (bd_message_deletes bd) else bd_message_deletes bd),
            bd_message_upserts := dict_pop key (bd_message_upserts bd),
            bd_message_updates := dict_pop key (bd_message_updates bd)\<rparr>)"

text \<open>
  Reactions and receipts go to the buffered message, or are collected under its key. \<open>attach\<close>
  and \<open>field\<close> are those of the two kinds.
\<close>

definition attach_to_message ::
    "(pydict \<Rightarrow> pydict \<Rightarrow> pydict result) \<Rightarrow> string \<Rightarrow> ('c buffer_data \<Rightarrow> (string, pydict) dict) \<Rightarrow>
     ((string, pydict) dict \<Rightarrow> 'c buffer_data \<Rightarrow> 'c buffer_data) \<Rightarrow> pydict \<times> pydict \<Rightarrow> 'c buffer_data \<Rightarrow>
     'c buffer_data outcome" where
  "attach_to_message attach field get_items put_items item bd =
     (let (item_key, x) = item; key = stringify_message_key item_key in
      case map_of (bd_message_upserts bd) key of
        Some u \<Rightarrow>
          (case attach (mu_message u) x of
             Inl e \<Rightarrow> (Some e, bd)
           | Inr m \<Rightarrow> (None, bd\<lparr>bd_message_upserts := dict_set key (u\<lparr>mu_message := m\<rparr>) (bd_message_upserts bd)\<rparr>))
      | None \<Rightarrow>
          let items = (case map_of (get_items bd) key of
                None \<Rightarrow> dict_set key [(''key'', PDict item_key), (field, PList [])] (get_items bd)
              | Some _ \<Rightarrow> get_items bd);
              target = (case map_of items key of None \<Rightarrow> [] | Some t \<Rightarrow> t)
          in (case attach target x of
                Inl e \<Rightarrow> (Some e, put_items items bd)
              | Inr t \<Rightarrow> (None, put_items (dict_set key t items) bd)))"

definition message_reaction :: "pydict \<times> pydict \<Rightarrow> 'c buffer_data \<Rightarrow> 'c buffer_data outcome" where
  "message_reaction = attach_to_message update_message_with_reaction ''reactions'' bd_message_reactions
     (\<lambda>d bd. bd\<lparr>bd_message_reactions := d\<rparr>)"

definition message_receipt :: "pydict \<times> pydict \<Rightarrow> 'c buffer_data \<Rightarrow> 'c buffer_data outcome" where
  "message_receipt = attach_to_message update_message_with_receipt ''userReceipt'' bd_message_receipts
     (\<lambda>d bd. bd\<lparr>bd_message_receipts := d\<rparr>)"

definition group_update :: "pydict \<Rightarrow> 'c buffer_data \<Rightarrow> 'c buffer_data" where
  "group_update update bd =
     (let group_id = id_or_empty update in
      if group_id = '''' then bd
      else bd\<lparr>bd_group_updates := dict_set group_id
             (dict_update (case map_of (bd_group_updates bd) group_id of Some g \<Rightarrow> g | None \<Rightarrow> []) update)
             (bd_group_updates bd)\<rparr>)"

definition on_data :: "('c buffer_data \<Rightarrow> 'c buffer_data) \<Rightarrow> 'c buffering \<Rightarrow> 'c buffering outcome" where
  "on_data f = (\<lambda>(cache, bd). (None, cache, f bd))"

definition on_data_outcome :: "('c buffer_data \<Rightarrow> 'c buffer_data outcome) \<Rightarrow> 'c buffering \<Rightarrow> 'c buffering outcome" where
  "on_data_outcome f = (\<lambda>(cache, bd). let (e, bd') = f bd in (e, cache, bd'))"

fun append_event ::
    "('c \<Rightarrow> 'c buffer_data \<Rightarrow> bool option) \<Rightarrow> 'c event \<Rightarrow> 'c buffering \<Rightarrow> 'c buffering outcome" where
  "append_event holds (History_Set ev) s =
     (case for_each history_contact (he_contacts ev) (fold (history_chat holds) (he_chats ev) s) of
        (Some e, s') \<Rightarrow> (Some e, s')
      | (None, s') \<Rightarrow> (None, history_fields ev (fold history_message (he_messages ev) s')))"
| "append_event holds (Chats_Upsert chats) s = on_data (fold (chat_upsert holds) chats) s"
| "append_event holds (Chats_Update updates) s = on_data (fold (chat_update_event holds) updates) s"
| "append_event holds (Chats_Delete ids) s = on_data (chats_delete ids) s"
| "append_event holds (Contacts_Upsert contacts) s = on_data_outcome (for_each contact_upsert contacts) s"
| "append_event holds (Contacts_Update updates) s = on_data (fold contact_update updates) s"
| "append_event holds (Messages_Upsert messages upsert_type) s =
     on_data (fold (message_upsert_event (case upsert_type of None \<Rightarrow> ''notify'' | Some t \<Rightarrow> t)) messages) s"
| "append_event holds (Messages_Update items) s = on_data (fold message_update_event items) s"
| "append_event holds (Messages_Delete keys) s =
     on_data (fold message_delete (case keys of None \<Rightarrow> [] | Some ks \<Rightarrow> ks)) s"
| "append_event holds (Messages_Reaction items) s = on_data_outcome (for_each message_reaction items) s"
| "append_event holds (Receipt_Update items) s = on_data_outcome (for_each message_receipt items) s"
| "append_event holds (Groups_Update updates) s = on_data (fold group_update updates) s"
| "append_event holds (Other_Event n v) s = (Some (ValueError (n @ '' cannot be buffered'')), s)"

section \<open>Emitting and flushing\<close>

text \<open>The reactions, or receipts, of every key as one list of pairs.\<close>

definition keyed_items :: "string \<Rightarrow> (string, pydict) dict \<Rightarrow> (pydict \<times> pydict) list" where
  "keyed_items field items = concat (map (\<lambda>(k, item).
     case attached field item of Inl e \<Rightarrow> [] | Inr xs \<Rightarrow> map (\<lambda>x. (dict_or_empty (py_get ''key'' item), x)) xs) items)"

definition some_event :: "bool \<Rightarrow> 'c event \<Rightarrow> 'c event list" where
  "some_event b e = (if b then [e] else [])"

definition consolidate_events :: "'c buffer_data \<Rightarrow> 'c event list" where
  "consolidate_events bd =
     (let h = bd_history bd; reactions = keyed_items ''reactions'' (bd_message_reactions bd);
          receipts = keyed_items ''userReceipt'' (bd_message_receipts bd)
      in some_event (\<not> hs_empty h) (History_Set \<lparr>he_chats = map snd (hs_chats h), he_contacts = map snd (hs_contacts h),
             he_messages = map snd (hs_messages h), he_sync_type = hs_sync_type h, he_progress = hs_progress h,
             he_session_id = hs_session_id h, he_is_latest = hs_is_latest h\<rparr>) @
         some_event (bd_chat_upserts bd \<noteq> []) (Chats_Upsert (map snd (bd_chat_upserts bd))) @
         some_event (bd_chat_updates bd \<noteq> []) (Chats_Update (map snd (bd_chat_updates bd))) @
         some_event (bd_chat_deletes bd \<noteq> {}) (Chats_Delete (bd_chat_deletes bd)) @
         some_event (bd_message_upserts bd \<noteq> [])
           (Messages_Upsert (map (mu_message \<circ> snd) (bd_message_upserts bd)) (Some (mu_type (snd (hd (bd_message_upserts bd)))))) @
         some_event (bd_message_updates bd \<noteq> []) (Messages_Update (map snd (bd_message_updates bd))) @
         some_event (bd_message_deletes bd \<noteq> []) (Messages_Delete (Some (map snd (bd_message_deletes bd)))) @
         some_event (reactions \<noteq> []) (Messages_Reaction reactions) @
         some_event (receipts \<noteq> []) (Receipt_Update receipts) @
         some_event (bd_contact_upserts bd \<noteq> []) (Contacts_Upsert (map snd (bd_contact_upserts bd))) @
         some_event (bd_contact_updates bd \<noteq> []) (Contacts_Update (map snd (bd_contact_updates bd))) @
         some_event (bd_group_updates bd \<noteq> []) (Groups_Update (map snd (bd_group_updates bd))))"

record 'c emitter =
  em_history_cache :: "string set"
  em_data :: "'c buffer_data"
  em_buffering :: bool

definition make_event_buffer :: "'c emitter" where
  "make_event_buffer = \<lparr>em_history_cache = {}, em_data = make_buffer_data, em_buffering = False\<rparr>"

definition max_history_cache_size :: nat where
  "max_history_cache_size = 10000"

text \<open>\<open>flush\<close> returns whether there was something to end, and the events it releases.\<close>

definition flush :: "'c emitter \<Rightarrow> bool \<times> 'c event list \<times> 'c emitter" where
  "flush em =
     (if \<not> em_buffering em then (False, [], em)
      else
        let bd = em_data em;
            waiting = filter (\<lambda>(k, u). cu_conditional u \<noteq> None) (bd_chat_updates bd);
            decided = filter (\<lambda>(k, u). cu_conditional u = None) (bd_chat_updates bd)
        in (True, consolidate_events (bd\<lparr>bd_chat_updates := decided\<rparr>),
            em\<lparr>em_buffering := False,
               em_history_cache := (if card (em_history_cache em) > max_history_cache_size then {} else em_history_cache em),
               em_data := make_buffer_data\<lparr>bd_chat_updates := waiting\<rparr>\<rparr>))"

text \<open>
  The first part of \<open>emit\<close>: buffered messages of another type go out at once. The second
  part buffers the event or releases it.
\<close>

definition release_other_type :: "'c event \<Rightarrow> 'c buffer_data \<Rightarrow> 'c event list \<times> 'c buffer_data" where
  "release_other_type ev bd = (case ev of
       Messages_Upsert messages event_type \<Rightarrow>
         (case bd_message_upserts bd of
            [] \<Rightarrow> ([], bd)
          | (k, u) # rest \<Rightarrow>
              if Some (mu_type u) \<noteq> event_type
              then ([Messages_Upsert (map (mu_message \<circ> snd) (bd_message_upserts bd)) (Some (mu_type u))],
                    bd\<lparr>bd_message_upserts := []\<rparr>)
              else ([], bd))
     | _ \<Rightarrow> ([], bd))"

definition emit ::
    "('c \<Rightarrow> 'c buffer_data \<Rightarrow> bool option) \<Rightarrow> 'c event \<Rightarrow> 'c emitter \<Rightarrow> exn option \<times> 'c event list \<times> 'c emitter" where
  "emit holds ev em =
     (let (released, bd) = release_other_type ev (em_data em) in
      if em_buffering em \<and> bufferable ev
      then (case append_event holds ev (em_history_cache em, bd) of
              (err, cache, bd') \<Rightarrow> (err, released, em\<lparr>em_history_cache := cache, em_data := bd'\<rparr>))
      else (None, released @ [ev], em\<lparr>em_data := bd\<rparr>))"

definition start_buffering :: "'c emitter \<Rightarrow> 'c emitter" where
  "start_buffering em = em\<lparr>em_buffering := True\<rparr>"

section \<open>What the operations leave alone\<close>

text \<open>Chats, contacts, messages and groups are kept in parts of their own.\<close>

named_theorems untouched \<open>parts of the buffer that an operation does not change\<close>

lemma chat_ops_untouched [untouched, simp]:
  "bd_message_upserts (set_chat h k c bd) = bd_message_upserts bd"
  "bd_group_updates (set_chat h k c bd) = bd_group_updates bd"
  "bd_message_updates (set_chat h k c bd) = bd_message_updates bd"
  "hs_empty (bd_history (set_chat h k c bd)) = hs_empty (bd_history bd)"
  "hs_messages (bd_history (set_chat h k c bd)) = hs_messages (bd_history bd)"
  by (simp_all add: set_chat_def)

lemma absorbing_untouched [untouched, simp]:
  "bd_message_upserts (absorbing_chat_update holds h k c bd) = bd_message_upserts bd"
  "bd_group_updates (absorbing_chat_update holds h k c bd) = bd_group_updates bd"
  "bd_message_updates (absorbing_chat_update holds h k c bd) = bd_message_updates bd"
  "hs_empty (bd_history (absorbing_chat_update holds h k c bd)) = hs_empty (bd_history bd)"
  "hs_messages (bd_history (absorbing_chat_update holds h k c bd)) = hs_messages (bd_history bd)"
  by (simp_all add: absorbing_chat_update_def Let_def split: option.splits bool.splits)

lemma chat_upsert_untouched [untouched, simp]:
  "bd_message_upserts (chat_upsert holds c bd) = bd_message_upserts bd"
  "bd_group_updates (chat_upsert holds c bd) = bd_group_updates bd"
  "bd_message_updates (chat_upsert holds c bd) = bd_message_updates bd"
  "hs_empty (bd_history (chat_upsert holds c bd)) = hs_empty (bd_history bd)"
  "hs_messages (bd_history (chat_upsert holds c bd)) = hs_messages (bd_history bd)"
  by (simp_all add: chat_upsert_def Let_def split: option.splits prod.splits)

lemma chat_update_untouched [untouched, simp]:
  "bd_message_upserts (chat_update_event holds u bd) = bd_message_upserts bd"
  "bd_group_updates (chat_update_event holds u bd) = bd_group_updates bd"
  "bd_message_updates (chat_update_event holds u bd) = bd_message_updates bd"
  "hs_empty (bd_history (chat_update_event holds u bd)) = hs_empty (bd_history bd)"
  "hs_messages (bd_history (chat_update_event holds u bd)) = hs_messages (bd_history bd)"
  by (simp_all add: chat_update_event_def Let_def split: option.splits bool.splits)

lemma chats_delete_untouched [untouched, simp]:
  "bd_message_upserts (chats_delete ids bd) = bd_message_upserts bd"
  "bd_group_updates (chats_delete ids bd) = bd_group_updates bd"
  "bd_message_updates (chats_delete ids bd) = bd_message_updates bd"
  "hs_empty (bd_history (chats_delete ids bd)) = hs_empty (bd_history bd)"
  "hs_messages (bd_history (chats_delete ids bd)) = hs_messages (bd_history bd)"
  by (simp_all add: chats_delete_def)

lemma history_untouched [untouched, simp]:
  "bd_message_upserts (snd (history_chat holds c s)) = bd_message_upserts (snd s)"
  "bd_group_updates (snd (history_chat holds c s)) = bd_group_updates (snd s)"
  "bd_message_updates (snd (history_chat holds c s)) = bd_message_updates (snd s)"
  "hs_empty (bd_history (snd (history_chat holds c s))) = hs_empty (bd_history (snd s))"
  "hs_messages (bd_history (snd (history_chat holds c s))) = hs_messages (bd_history (snd s))"
  "bd_message_upserts (snd (history_message m s)) = bd_message_upserts (snd s)"
  "bd_group_updates (snd (history_message m s)) = bd_group_updates (snd s)"
  "bd_message_updates (snd (history_message m s)) = bd_message_updates (snd s)"
  "hs_empty (bd_history (snd (history_message m s))) = hs_empty (bd_history (snd s))"
  "bd_message_upserts (snd (history_fields ev s)) = bd_message_upserts (snd s)"
  "bd_group_updates (snd (history_fields ev s)) = bd_group_updates (snd s)"
  "bd_message_updates (snd (history_fields ev s)) = bd_message_updates (snd s)"
  "hs_messages (bd_history (snd (history_fields ev s))) = hs_messages (bd_history (snd s))"
  by (cases s; simp add: history_chat_def history_message_def history_fields_def Let_def split: option.splits)+

lemma contact_untouched [untouched, simp]:
  "bd_message_upserts (set_contact h k c bd) = bd_message_upserts bd"
  "bd_group_updates (set_contact h k c bd) = bd_group_updates bd"
  "bd_message_updates (set_contact h k c bd) = bd_message_updates bd"
  "hs_empty (bd_history (set_contact h k c bd)) = hs_empty (bd_history bd)"
  "hs_messages (bd_history (set_contact h k c bd)) = hs_messages (bd_history bd)"
  by (simp_all add: set_contact_def)

lemma contact_ops_untouched [untouched, simp]:
  "bd_message_upserts (snd (contact_upsert c bd)) = bd_message_upserts bd"
  "bd_group_updates (snd (contact_upsert c bd)) = bd_group_updates bd"
  "bd_message_updates (snd (contact_upsert c bd)) = bd_message_updates bd"
  "hs_empty (bd_history (snd (contact_upsert c bd))) = hs_empty (bd_history bd)"
  "hs_messages (bd_history (snd (contact_upsert c bd))) = hs_messages (bd_history bd)"
  "bd_message_upserts (contact_update u bd) = bd_message_upserts bd"
  "bd_group_updates (contact_update u bd) = bd_group_updates bd"
  "bd_message_updates (contact_update u bd) = bd_message_updates bd"
  "hs_empty (bd_history (contact_update u bd)) = hs_empty (bd_history bd)"
  "hs_messages (bd_history (contact_update u bd)) = hs_messages (bd_history bd)"
  by (simp_all add: contact_upsert_def contact_update_def Let_def split: option.splits sum.splits prod.splits)

lemma history_contact_untouched [untouched, simp]:
  "bd_message_upserts (snd (snd (history_contact c s))) = bd_message_upserts (snd s)"
  "bd_group_updates (snd (snd (history_contact c s))) = bd_group_updates (snd s)"
  "bd_message_updates (snd (snd (history_contact c s))) = bd_message_updates (snd s)"
  "hs_empty (bd_history (snd (snd (history_contact c s)))) = hs_empty (bd_history (snd s))"
  "hs_messages (bd_history (snd (snd (history_contact c s)))) = hs_messages (bd_history (snd s))"
  by (cases s; simp add: history_contact_def Let_def split: option.splits sum.splits)+

lemma decrement_untouched [untouched, simp]:
  "bd_message_upserts (decrement_chat_read_counter m bd) = bd_message_upserts bd"
  "bd_group_updates (decrement_chat_read_counter m bd) = bd_group_updates bd"
  "bd_message_updates (decrement_chat_read_counter m bd) = bd_message_updates bd"
  "hs_empty (bd_history (decrement_chat_read_counter m bd)) = hs_empty (bd_history bd)"
  "hs_messages (bd_history (decrement_chat_read_counter m bd)) = hs_messages (bd_history bd)"
  by (simp_all add: decrement_chat_read_counter_def Let_def split: option.splits)

lemma message_ops_untouched [untouched, simp]:
  "bd_group_updates (message_upsert_event t m bd) = bd_group_updates bd"
  "bd_group_updates (message_update_event it bd) = bd_group_updates bd"
  "bd_group_updates (message_delete k bd) = bd_group_updates bd"
  "bd_group_updates (snd (message_reaction it bd)) = bd_group_updates bd"
  "bd_group_updates (snd (message_receipt it bd)) = bd_group_updates bd"
  "bd_message_upserts (group_update u bd) = bd_message_upserts bd"
  "hs_messages (bd_history (group_update u bd)) = hs_messages (bd_history bd)"
  "bd_message_updates (group_update u bd) = bd_message_updates bd"
  "bd_message_updates (snd (message_reaction it bd)) = bd_message_updates bd"
  "bd_message_updates (snd (message_receipt it bd)) = bd_message_updates bd"
  "bd_history (snd (message_reaction it bd)) = bd_history bd"
  "bd_history (snd (message_receipt it bd)) = bd_history bd"
  "bd_history (message_delete k bd) = bd_history bd"
  "bd_history (group_update u bd) = bd_history bd"
  by (cases it; simp add: message_upsert_event_def message_update_event_def message_delete_def message_reaction_def
      message_receipt_def attach_to_message_def group_update_def Let_def split: option.splits prod.splits sum.splits)+

lemma history_messages_untouched [untouched, simp]:
  "bd_message_upserts (snd (fold history_message ms s)) = bd_message_upserts (snd s)"
  "bd_group_updates (snd (fold history_message ms s)) = bd_group_updates (snd s)"
  "bd_message_updates (snd (fold history_message ms s)) = bd_message_updates (snd s)"
  by (induction ms arbitrary: s) simp_all

section \<open>Invariants of the buffer\<close>

text \<open>
  An interface for properties of the buffered data: what every step on one item keeps, for the
  events \<open>allowed\<close> selects, every event keeps.
\<close>

locale buffer_invariant =
  fixes holds :: "'c \<Rightarrow> 'c buffer_data \<Rightarrow> bool option"
    and keeps :: "'c buffer_data \<Rightarrow> bool"
    and allowed :: "'c event \<Rightarrow> bool"
  assumes history_steps:
      "keeps bd \<Longrightarrow> keeps (snd (history_chat holds c (cache, bd)))"
      "keeps bd \<Longrightarrow> keeps (snd (snd (history_contact c (cache, bd))))"
      "keeps bd \<Longrightarrow> keeps (snd (history_fields ev (fold history_message ms (cache, bd))))"
    and chat_steps:
      "keeps bd \<Longrightarrow> keeps (chat_upsert holds c bd)"
      "keeps bd \<Longrightarrow> keeps (chat_update_event holds u bd)"
      "keeps bd \<Longrightarrow> keeps (chats_delete ids bd)"
    and contact_steps:
      "keeps bd \<Longrightarrow> keeps (snd (contact_upsert c bd))"
      "keeps bd \<Longrightarrow> keeps (contact_update c bd)"
    and message_upsert_step:
      "keeps bd \<Longrightarrow> allowed (Messages_Upsert ms ty) \<Longrightarrow> m \<in> set ms \<Longrightarrow>
        keeps (message_upsert_event (case ty of None \<Rightarrow> ''notify'' | Some t \<Rightarrow> t) m bd)"
    and message_update_step:
      "keeps bd \<Longrightarrow> allowed (Messages_Update items) \<Longrightarrow> it \<in> set items \<Longrightarrow> keeps (message_update_event it bd)"
    and message_delete_step:
      "keeps bd \<Longrightarrow> allowed (Messages_Delete (Some ks)) \<Longrightarrow> k \<in> set ks \<Longrightarrow> keeps (message_delete k bd)"
    and attached_steps:
      "keeps bd \<Longrightarrow> keeps (snd (message_reaction it bd))"
      "keeps bd \<Longrightarrow> keeps (snd (message_receipt it bd))"
    and group_step:
      "keeps bd \<Longrightarrow> allowed (Groups_Update us) \<Longrightarrow> g \<in> set us \<Longrightarrow> keeps (group_update g bd)"
begin

lemma fold_keeps:
  assumes "keeps bd" and "\<And>x bd. x \<in> set xs \<Longrightarrow> keeps bd \<Longrightarrow> keeps (f x bd)"
  shows "keeps (fold f xs bd)"
  using assms by (induction xs arbitrary: bd) auto

lemma fold_pair_keeps:
  assumes "keeps (snd s)" and "\<And>x cache bd. keeps bd \<Longrightarrow> keeps (snd (f x (cache, bd)))"
  shows "keeps (snd (fold f xs s))"
  using assms(1)
proof (induction xs arbitrary: s)
  case (Cons x xs)
  with assms(2) [of "snd s" x "fst s"] show ?case by simp
qed simp

lemma append_keeps:
  assumes "keeps (snd s)" and "allowed ev"
  shows "keeps (snd (snd (append_event holds ev s)))"
proof (cases ev)
  case (History_Set h)
  have 1: "keeps (snd (snd (for_each history_contact (he_contacts h) (fold (history_chat holds) (he_chats h) s))))"
    by (rule for_each_invariant [where I = "\<lambda>s. keeps (snd s)"])
      (auto intro!: fold_pair_keeps assms(1) history_steps(1) intro: history_steps(2))
  then have "keeps (snd (history_fields h (fold history_message (he_messages h)
      (snd (for_each history_contact (he_contacts h) (fold (history_chat holds) (he_chats h) s))))))"
    by (metis history_steps(3) prod.collapse)
  moreover obtain e s' where
    "for_each history_contact (he_contacts h) (fold (history_chat holds) (he_chats h) s) = (e, s')"
    by (cases "for_each history_contact (he_contacts h) (fold (history_chat holds) (he_chats h) s)")
  ultimately show ?thesis using 1 by (cases e) (simp_all add: History_Set)
next
  case (Contacts_Upsert cs)
  have "keeps (snd (for_each contact_upsert cs (snd s)))"
    by (rule for_each_invariant [where I = keeps, OF assms(1)]) (rule contact_steps(1))
  then show ?thesis by (cases s; cases "for_each contact_upsert cs (snd s)") (simp add: Contacts_Upsert on_data_outcome_def Let_def)
next
  case (Messages_Reaction items)
  have "keeps (snd (for_each message_reaction items (snd s)))"
    by (rule for_each_invariant [where I = keeps, OF assms(1)]) (rule attached_steps(1))
  then show ?thesis by (cases s; cases "for_each message_reaction items (snd s)") (simp add: Messages_Reaction on_data_outcome_def Let_def)
next
  case (Receipt_Update items)
  have "keeps (snd (for_each message_receipt items (snd s)))"
    by (rule for_each_invariant [where I = keeps, OF assms(1)]) (rule attached_steps(2))
  then show ?thesis by (cases s; cases "for_each message_receipt items (snd s)") (simp add: Receipt_Update on_data_outcome_def Let_def)
next
  case (Messages_Delete ks)
  have "keeps (fold message_delete (case ks of None \<Rightarrow> [] | Some ks \<Rightarrow> ks) (snd s))"
  proof (cases ks)
    case (Some xs)
    have "keeps (fold message_delete xs (snd s))"
      by (rule fold_keeps [OF assms(1)], rule message_delete_step [where ks = xs]) (use assms(2) Messages_Delete Some in auto)
    with Some show ?thesis by simp
  qed (simp add: assms(1))
  then show ?thesis by (cases s) (simp add: Messages_Delete on_data_def)
next
  case (Messages_Upsert ms ty)
  have "keeps (fold (message_upsert_event (case ty of None \<Rightarrow> ''notify'' | Some t \<Rightarrow> t)) ms (snd s))"
    by (rule fold_keeps [OF assms(1)], rule message_upsert_step [where ms = ms]) (use assms(2) Messages_Upsert in auto)
  then show ?thesis by (cases s) (simp add: Messages_Upsert on_data_def)
next
  case (Messages_Update items)
  have "keeps (fold message_update_event items (snd s))"
    by (rule fold_keeps [OF assms(1)], rule message_update_step [where items = items]) (use assms(2) Messages_Update in auto)
  then show ?thesis by (cases s) (simp add: Messages_Update on_data_def)
next
  case (Groups_Update us)
  have "keeps (fold group_update us (snd s))"
    by (rule fold_keeps [OF assms(1)], rule group_step [where us = us]) (use assms(2) Groups_Update in auto)
  then show ?thesis by (cases s) (simp add: Groups_Update on_data_def)
qed (use assms(1) in \<open>cases s; simp add: on_data_def fold_keeps chat_steps contact_steps\<close>)+

end

end
