(* ===== verification/Event_Flow.thy ===== *)
theory Event_Flow
  imports Event_Buffer
begin

text \<open>
  What a listener gets from the event buffer over time: sequences of emitted events and flushes,
  the type under which messages are released, the coalescing of group updates, and what is lost
  in between.
\<close>

section \<open>Runs\<close>

datatype 'c action = Emit "'c event" | Flush | Buffer

fun act :: "('c \<Rightarrow> 'c buffer_data \<Rightarrow> bool option) \<Rightarrow> 'c action \<Rightarrow> 'c emitter \<Rightarrow> 'c event list \<times> 'c emitter" where
  "act holds (Emit ev) em = snd (emit holds ev em)"
| "act holds Flush em = snd (flush em)"
| "act holds Buffer em = ([], start_buffering em)"

fun run_actions ::
    "('c \<Rightarrow> 'c buffer_data \<Rightarrow> bool option) \<Rightarrow> 'c action list \<Rightarrow> 'c emitter \<Rightarrow> 'c event list \<times> 'c emitter" where
  "run_actions holds [] em = ([], em)"
| "run_actions holds (a # acts) em =
     (let (out, em') = act holds a em; (out', em'') = run_actions holds acts em' in (out @ out', em''))"

lemma run_actions_append:
  "run_actions holds (as @ bs) em =
     (let (out, em') = run_actions holds as em; (out', em'') = run_actions holds bs em' in (out @ out', em''))"
  by (induction as arbitrary: em) (simp_all add: Let_def split: prod.splits)

section \<open>Messages keep their type\<close>

definition types_of :: "(string, message_upsert) dict \<Rightarrow> string set" where
  "types_of d = mu_type ` snd ` set d"

definition of_type :: "string \<Rightarrow> 'c event \<Rightarrow> bool" where
  "of_type t ev = (case ev of
       Messages_Upsert ms ty \<Rightarrow> (case ty of None \<Rightarrow> ''notify'' | Some t' \<Rightarrow> t') = t | _ \<Rightarrow> True)"

lemma types_of_set: "types_of (dict_set k u d) \<subseteq> insert (mu_type u) (types_of d)"
  using values_dict_set [of k u d] unfolding types_of_def by blast

lemma types_of_pop: "types_of (dict_pop k d) \<subseteq> types_of d"
  using set_dict_pop [of k d] unfolding types_of_def by blast

lemma types_of_member: "map_of d k = Some u \<Longrightarrow> mu_type u \<in> types_of d"
  unfolding types_of_def by (force dest: map_of_SomeD)

lemma types_of_simps [simp]: "types_of [] = {}" "types_of ((k, u) # d) = insert (mu_type u) (types_of d)"
  by (simp_all add: types_of_def)

text \<open>An update or an attachment changes the message of one upsert, not its type.\<close>

lemma message_changed_types:
  "map_of d k = Some u \<Longrightarrow> types_of (dict_set k (u\<lparr>mu_message := m\<rparr>) d) \<subseteq> types_of d"
  using types_of_set [of k "u\<lparr>mu_message := m\<rparr>" d] types_of_member [of d k u] by auto

lemma message_upsert_types:
  assumes "types_of (bd_message_upserts bd) \<subseteq> {t}"
  shows "types_of (bd_message_upserts (message_upsert_event t m bd)) \<subseteq> {t}"
proof -
  let ?k = "stringify_message_key (message_key m)" and ?d = "bd_message_upserts bd"
  have t: "mu_type u = t" if "map_of ?d k = Some u" for k u
    using types_of_member [OF that] assms by auto
  obtain m' where "bd_message_upserts (message_upsert_event t m bd) \<in>
      {?d, dict_set ?k \<lparr>mu_message = m', mu_type = t\<rparr> ?d}"
    using t by (fastforce simp: message_upsert_event_def Let_def split: option.splits prod.splits)
  with types_of_set [of ?k "\<lparr>mu_message = m', mu_type = t\<rparr>" ?d] assms show ?thesis by auto
qed

lemma message_update_types: "types_of (bd_message_upserts (message_update_event it bd)) \<subseteq> types_of (bd_message_upserts bd)"
  unfolding message_update_event_def Let_def
  by (auto split: option.splits prod.splits dest!: subsetD [OF message_changed_types])

lemma message_delete_types: "types_of (bd_message_upserts (message_delete k bd)) \<subseteq> types_of (bd_message_upserts bd)"
  by (simp add: message_delete_def Let_def types_of_pop)

lemma attach_types:
  assumes "\<And>d bd. bd_message_upserts (put d bd) = bd_message_upserts bd"
  shows "types_of (bd_message_upserts (snd (attach_to_message attach field get put it bd))) \<subseteq> types_of (bd_message_upserts bd)"
  unfolding attach_to_message_def Let_def
  by (auto simp: assms split: option.splits prod.splits sum.splits dest!: subsetD [OF message_changed_types])

lemma attached_types:
  "types_of (bd_message_upserts (snd (message_reaction it bd))) \<subseteq> types_of (bd_message_upserts bd)"
  "types_of (bd_message_upserts (snd (message_receipt it bd))) \<subseteq> types_of (bd_message_upserts bd)"
  unfolding message_reaction_def message_receipt_def by (rule attach_types; simp)+

interpretation one_type: buffer_invariant holds "\<lambda>bd. types_of (bd_message_upserts bd) \<subseteq> {t}" "of_type t" for holds t
proof unfold_locales
  fix bd :: "'a buffer_data" and ms ty m
  assume "types_of (bd_message_upserts bd) \<subseteq> {t}" and "of_type t (Messages_Upsert ms ty)"
  then show "types_of (bd_message_upserts (message_upsert_event (case ty of None \<Rightarrow> ''notify'' | Some t \<Rightarrow> t) m bd)) \<subseteq> {t}"
    using message_upsert_types by (simp add: of_type_def)
qed (use message_update_types message_delete_types attached_types in
    \<open>(simp; fail) | blast\<close>)+

definition event_type :: "string option \<Rightarrow> string" where
  "event_type ty = (case ty of None \<Rightarrow> ''notify'' | Some t \<Rightarrow> t)"

definition typed_messages :: "'c event list \<Rightarrow> (pydict \<times> string) list" where
  "typed_messages evs = concat (map (\<lambda>ev. case ev of
       Messages_Upsert ms ty \<Rightarrow> map (\<lambda>m. (m, event_type ty)) ms | _ \<Rightarrow> []) evs)"

definition buffered_messages :: "'c buffer_data \<Rightarrow> (pydict \<times> string) list" where
  "buffered_messages bd = map (\<lambda>(k, u). (mu_message u, mu_type u)) (bd_message_upserts bd)"

definition uniform :: "'c buffer_data \<Rightarrow> bool" where
  "uniform bd \<longleftrightarrow> (\<exists>t. types_of (bd_message_upserts bd) \<subseteq> {t})"

lemma uniform_released:
  assumes "uniform bd" and "bd_message_upserts bd = (k, u) # rest"
  shows "map (\<lambda>m. (m, mu_type u)) (map (mu_message \<circ> snd) (bd_message_upserts bd)) = buffered_messages bd"
  using assms by (fastforce simp: uniform_def types_of_def buffered_messages_def)

lemma typed_messages_consolidate:
  assumes "uniform bd"
  shows "typed_messages (consolidate_events bd) = buffered_messages bd"
proof (cases "bd_message_upserts bd")
  case Nil
  then show ?thesis
    by (simp add: consolidate_events_def typed_messages_def some_event_def buffered_messages_def Let_def)
next
  case (Cons p rest)
  obtain k u where p: "p = (k, u)" by (cases p)
  show ?thesis
    using uniform_released [OF assms, of k u rest] Cons
    by (simp add: consolidate_events_def typed_messages_def some_event_def event_type_def Let_def p)
qed

lemma emit_uniform:
  assumes "uniform (em_data em)"
  shows "uniform (em_data (snd (snd (emit holds ev em))))"
    and "ev = Messages_Upsert ms ty \<Longrightarrow> em_buffering em \<Longrightarrow>
      types_of (bd_message_upserts (em_data (snd (snd (emit holds ev em))))) \<subseteq> {event_type ty}"
proof -
  let ?bd = "snd (release_other_type ev (em_data em))"
  obtain t where t: "types_of (bd_message_upserts (em_data em)) \<subseteq> {t}" using assms by (auto simp: uniform_def)
  define T where "T = (case ev of Messages_Upsert ms ty \<Rightarrow> event_type ty | _ \<Rightarrow> t)"
  have r: "types_of (bd_message_upserts ?bd) \<subseteq> {T}"
    using t unfolding T_def by (auto simp: release_other_type_def event_type_def split: event.splits list.splits)
  have "of_type T ev" by (simp add: of_type_def T_def event_type_def split: event.splits)
  with one_type.append_keeps [of "(em_history_cache em, ?bd)" T ev holds] r
  have a: "types_of (bd_message_upserts (snd (snd (append_event holds ev (em_history_cache em, ?bd))))) \<subseteq> {T}"
    by simp
  show "uniform (em_data (snd (snd (emit holds ev em))))"
    unfolding uniform_def
    by (rule exI [of _ T]) (use r a in \<open>auto simp: emit_def Let_def simp del: append_event.simps split: prod.splits\<close>)
  show "types_of (bd_message_upserts (em_data (snd (snd (emit holds ev em))))) \<subseteq> {event_type ty}"
    if "ev = Messages_Upsert ms ty" "em_buffering em"
    using a that by (auto simp: T_def emit_def Let_def simp del: append_event.simps split: prod.splits)
qed

lemma act_uniform: "uniform (em_data em) \<Longrightarrow> uniform (em_data (snd (act holds a em)))"
proof (cases a)
  case (Emit ev)
  assume "uniform (em_data em)"
  with emit_uniform(1) show ?thesis by (simp add: Emit)
qed (auto simp: flush_def start_buffering_def make_buffer_data_def uniform_def types_of_def Let_def)

lemma run_uniform: "uniform (em_data em) \<Longrightarrow> uniform (em_data (snd (run_actions holds acts em)))"
proof (induction acts arbitrary: em)
  case (Cons a acts)
  from Cons.IH [OF act_uniform [OF Cons.prems]] show ?case by (simp add: Let_def split_beta)
qed simp

text \<open>
  Messages keep their type: whatever was emitted and flushed before, everything a messages event
  buffers has the type of that event, and a flush releases each buffered message under its own
  type, although the consolidated event takes the type of the first message for all of them.
\<close>

theorem messages_keep_their_type:
  assumes "em = snd (run_actions holds acts make_event_buffer)" and "em_buffering em"
  shows "typed_messages (fst (snd (flush em))) = buffered_messages (em_data em) \<and>
    types_of (bd_message_upserts (em_data (snd (snd (emit holds (Messages_Upsert ms ty) em))))) \<subseteq> {event_type ty}"
proof
  have "uniform (em_data em)"
    unfolding assms(1) by (rule run_uniform) (simp add: make_event_buffer_def make_buffer_data_def uniform_def types_of_def)
  then show "types_of (bd_message_upserts (em_data (snd (snd (emit holds (Messages_Upsert ms ty) em))))) \<subseteq> {event_type ty}"
    by (rule emit_uniform(2)) (simp_all add: assms(2))
  from \<open>uniform (em_data em)\<close> have u: "uniform (em_data em\<lparr>bd_chat_updates := d\<rparr>)" for d by (simp add: uniform_def)
  show "typed_messages (fst (snd (flush em))) = buffered_messages (em_data em)"
    using assms(2) typed_messages_consolidate [OF u] by (simp add: flush_def Let_def buffered_messages_def)
qed

section \<open>Group updates are coalesced without loss\<close>

text \<open>
  A listener that keeps the fields of every group. For it, the released events have the effect of
  the emitted ones.
\<close>

type_synonym group_view = "string \<Rightarrow> (string \<Rightarrow> pyval option) option"

definition fields_of :: "(string \<Rightarrow> pyval option) option \<Rightarrow> string \<Rightarrow> pyval option" where
  "fields_of g = (case g of None \<Rightarrow> Map.empty | Some m \<Rightarrow> m)"

definition see_group :: "pydict \<Rightarrow> group_view \<Rightarrow> group_view" where
  "see_group update s =
     (let k = id_or_empty update in if k = '''' then s else s(k \<mapsto> fields_of (s k) ++ map_of update))"

fun see_event :: "'c event \<Rightarrow> group_view \<Rightarrow> group_view" where
  "see_event (Groups_Update us) s = fold see_group us s"
| "see_event ev s = s"

definition see :: "'c event list \<Rightarrow> group_view \<Rightarrow> group_view" where
  "see evs s = fold see_event evs s"

definition groups_ok :: "(string, pydict) dict \<Rightarrow> bool" where
  "groups_ok d \<longleftrightarrow> dict_wf d \<and> (\<forall>k g. map_of d k = Some g \<longrightarrow> id_or_empty g = k \<and> k \<noteq> '''' \<and> dict_wf g)"

lemma see_stored:
  assumes "groups_ok d"
  shows "fold see_group (map snd d) s =
    (\<lambda>k. case map_of d k of None \<Rightarrow> s k | Some g \<Rightarrow> Some (fields_of (s k) ++ map_of g))"
  using assms
proof (induction d arbitrary: s)
  case (Cons p d)
  obtain k g where p: "p = (k, g)" by (cases p)
  from Cons.prems have wf: "dict_wf d" "map_of d k = None" and g: "id_or_empty g = k" "k \<noteq> ''''"
    by (simp_all add: groups_ok_def dict_wf_def p map_of_eq_None_iff)
  then have "groups_ok d" using Cons.prems by (simp add: groups_ok_def p) (metis option.distinct(1))
  from Cons.IH [OF this] wf(2) g show ?case
    by (auto simp: p see_group_def Let_def intro!: ext split: option.splits)
qed simp

lemma id_or_empty_update:
  assumes "dict_wf u" and "id_or_empty u \<noteq> ''''"
  shows "id_or_empty (dict_update g u) = id_or_empty u"
proof -
  have "''id'' \<in> dom (map_of u)"
    using assms(2) by (auto simp: id_or_empty_def py_get_def split: option.splits)
  then show ?thesis using assms(1) by (simp add: id_or_empty_def py_get_update)
qed

lemma group_update_sees:
  assumes "groups_ok (bd_group_updates bd)" and "dict_wf u"
  shows "groups_ok (bd_group_updates (group_update u bd))"
    and "fold see_group (map snd (bd_group_updates (group_update u bd))) s =
      see_group u (fold see_group (map snd (bd_group_updates bd)) s)"
proof -
  let ?k = "id_or_empty u" and ?d = "bd_group_updates bd"
  let ?g = "dict_update (case map_of ?d ?k of Some g \<Rightarrow> g | None \<Rightarrow> []) u"
  have wf: "dict_wf (case map_of ?d ?k of Some g \<Rightarrow> g | None \<Rightarrow> [])"
    using assms(1) by (auto simp: groups_ok_def dict_wf_def split: option.splits)
  show ok: "groups_ok (bd_group_updates (group_update u bd))"
    using assms wf id_or_empty_update by (auto simp: group_update_def groups_ok_def Let_def)
  show "fold see_group (map snd (bd_group_updates (group_update u bd))) s =
      see_group u (fold see_group (map snd ?d) s)"
    using assms unfolding see_stored [OF ok] see_stored [OF assms(1)]
    by (auto simp: group_update_def see_group_def Let_def map_of_dict_update fields_of_def intro!: ext split: option.splits)
qed

interpretation other_groups: buffer_invariant holds "\<lambda>bd. bd_group_updates bd = d" "\<lambda>ev. \<forall>us. ev \<noteq> Groups_Update us"
  for holds d
  by unfold_locales simp_all


text \<open>One emitted event: what is released and what stays together have the effect of the event.\<close>

definition view :: "'c buffer_data \<Rightarrow> group_view \<Rightarrow> group_view" where
  "view bd s = fold see_group (map snd (bd_group_updates bd)) s"

definition group_events_wf :: "'c event \<Rightarrow> bool" where
  "group_events_wf ev = (case ev of Groups_Update us \<Rightarrow> list_all dict_wf us | _ \<Rightarrow> True)"

lemma fold_group_update_sees:
  assumes "groups_ok (bd_group_updates bd)" and "list_all dict_wf us"
  shows "groups_ok (bd_group_updates (fold group_update us bd)) \<and>
    view (fold group_update us bd) s = fold see_group us (view bd s)"
  using assms
proof (induction us arbitrary: bd)
  case (Cons u us)
  from group_update_sees [OF Cons.prems(1), of u] Cons show ?case by (simp add: view_def)
qed (simp add: view_def)

lemma append_sees:
  assumes "groups_ok (bd_group_updates (snd c))" and "group_events_wf ev"
  shows "groups_ok (bd_group_updates (snd (snd (append_event holds ev c)))) \<and>
    view (snd (snd (append_event holds ev c))) s = see_event ev (view (snd c) s)"
proof (cases "\<exists>us. ev = Groups_Update us")
  case True
  with fold_group_update_sees [OF assms(1)] assms(2) show ?thesis
    by (cases c) (auto simp: on_data_def group_events_wf_def)
next
  case False
  with other_groups.append_keeps [of c "bd_group_updates (snd c)" ev holds]
  have "bd_group_updates (snd (snd (append_event holds ev c))) = bd_group_updates (snd c)" by simp
  moreover have "see_event ev s = s" for s using False by (cases ev) auto
  ultimately show ?thesis using assms(1) by (simp add: view_def)
qed

lemma release_sees:
  "bd_group_updates (snd (release_other_type ev bd)) = bd_group_updates bd"
  "see (fst (release_other_type ev bd)) s = s"
  by (auto simp: release_other_type_def see_def split: event.splits list.splits)

lemma see_append: "see (as @ bs) s = see bs (see as s)"
  by (simp add: see_def)

lemma see_simps [simp]: "see [] s = s" "see [ev] s = see_event ev s"
  by (simp_all add: see_def)

lemma see_consolidated: "see (consolidate_events bd) s = view bd s"
  by (simp add: consolidate_events_def see_def view_def some_event_def Let_def)

definition idle_ok :: "'c emitter \<Rightarrow> bool" where
  "idle_ok em \<longleftrightarrow> groups_ok (bd_group_updates (em_data em)) \<and> (\<not> em_buffering em \<longrightarrow> bd_group_updates (em_data em) = [])"

fun emitted :: "'c action list \<Rightarrow> 'c event list" where
  "emitted [] = []"
| "emitted (Emit ev # acts) = ev # emitted acts"
| "emitted (a # acts) = emitted acts"

lemma act_sees:
  assumes "idle_ok em" and "list_all group_events_wf (emitted [a])"
  shows "idle_ok (snd (act holds a em)) \<and>
    view (em_data (snd (act holds a em))) (see (fst (act holds a em)) s) = see (emitted [a]) (view (em_data em) s)"
proof (cases a)
  case (Emit ev)
  let ?bd = "snd (release_other_type ev (em_data em))"
  have ok: "groups_ok (bd_group_updates (snd (em_history_cache em, ?bd)))" "group_events_wf ev"
    using assms by (simp_all add: idle_ok_def release_sees Emit)
  note ap = append_sees [OF ok]
  have v: "view ?bd s = view (em_data em) s" by (simp add: view_def release_sees)
  show ?thesis
  proof (cases "em_buffering em \<and> bufferable ev")
    case True
    obtain e c bd' where a: "append_event holds ev (em_history_cache em, ?bd) = (e, c, bd')"
      by (cases "append_event holds ev (em_history_cache em, ?bd)") auto
    with ap [of holds s] True v assms show ?thesis
      by (auto simp: Emit emit_def idle_ok_def Let_def see_def release_sees [unfolded see_def] split_beta)
  next
    case False
    have "bufferable ev \<or> see_event ev s = s" for s by (cases ev) auto
    with False assms(1) show ?thesis
      by (auto simp: Emit emit_def idle_ok_def Let_def see_append release_sees view_def split_beta)
  qed
next
  case Flush
  with assms(1) show ?thesis
    by (auto simp: flush_def idle_ok_def see_consolidated make_buffer_data_def groups_ok_def dict_wf_def
        view_def Let_def)
next
  case Buffer
  with assms(1) show ?thesis by (auto simp: start_buffering_def idle_ok_def see_def)
qed

lemma run_sees:
  assumes "idle_ok em" and "list_all group_events_wf (emitted acts)"
  shows "idle_ok (snd (run_actions holds acts em)) \<and>
    view (em_data (snd (run_actions holds acts em))) (see (fst (run_actions holds acts em)) s) =
      see (emitted acts) (view (em_data em) s)"
  using assms
proof (induction acts arbitrary: em s)
  case (Cons a acts)
  have e: "emitted (a # acts) = emitted [a] @ emitted acts" by (cases a) simp_all
  with Cons.prems have a: "list_all group_events_wf (emitted [a])" and r: "list_all group_events_wf (emitted acts)"
    by simp_all
  note 1 = act_sees [OF Cons.prems(1) a, of holds]
  with Cons.IH [OF conjunct1 [OF 1] r] show ?case
    by (simp add: Let_def split_beta e see_append)
qed (simp add: see_def)

text \<open>
  Group updates are coalesced without loss: at every moment, a listener that has applied the
  released events and then applies what a flush would release has the view of a listener that
  applied every emitted event at once.
\<close>

theorem group_updates_coalesced:
  assumes "list_all group_events_wf (emitted acts)"
    and "run_actions holds acts make_event_buffer = (out, em)"
  shows "see (fst (snd (flush em))) (see out s) = see (emitted acts) s"
proof -
  have "idle_ok (make_event_buffer :: 'a emitter)"
    by (simp add: idle_ok_def make_event_buffer_def make_buffer_data_def groups_ok_def dict_wf_def)
  from run_sees [OF this assms(1), of holds s] assms(2)
  have "idle_ok em" "view (em_data em) (see out s) = see (emitted acts) s"
    by (simp_all add: make_event_buffer_def make_buffer_data_def view_def)
  then show ?thesis
    by (cases "em_buffering em")
      (simp_all add: flush_def see_consolidated Let_def view_def idle_ok_def)
qed


section \<open>Messages are not lost\<close>

text \<open>
  Messages are found under the text of their key as long as no update replaces the key, and a
  history part that holds messages is not marked as empty.
\<close>

definition keyed :: "('v \<Rightarrow> pydict) \<Rightarrow> (string, 'v) dict \<Rightarrow> bool" where
  "keyed f d \<longleftrightarrow> (\<forall>k v. (k, v) \<in> set d \<longrightarrow> stringify_message_key (message_key (f v)) = k)"

definition key_free :: "pydict \<Rightarrow> bool" where
  "key_free u \<longleftrightarrow> dict_wf u \<and> map_of u ''key'' = None"

definition well_keyed :: "'c buffer_data \<Rightarrow> bool" where
  "well_keyed bd \<longleftrightarrow> keyed mu_message (bd_message_upserts bd) \<and> keyed (\<lambda>m. m) (hs_messages (bd_history bd)) \<and>
     (\<forall>k v. (k, v) \<in> set (bd_message_updates bd) \<longrightarrow> key_free (snd v)) \<and>
     (hs_empty (bd_history bd) \<longrightarrow> hs_messages (bd_history bd) = [])"

definition held :: "'c buffer_data \<Rightarrow> string set" where
  "held bd = fst ` set (bd_message_upserts bd) \<union> fst ` set (hs_messages (bd_history bd))"

text \<open>Events that do not touch message keys, and those that moreover do not delete \<open>k\<close>.\<close>

definition key_preserving :: "'c event \<Rightarrow> bool" where
  "key_preserving ev = (case ev of Messages_Update items \<Rightarrow> list_all (key_free \<circ> snd) items | _ \<Rightarrow> True)"

definition not_deleting :: "string \<Rightarrow> 'c event \<Rightarrow> bool" where
  "not_deleting k ev = (case ev of Messages_Delete (Some ks) \<Rightarrow> k \<notin> stringify_message_key ` set ks | _ \<Rightarrow> True)"

lemma keyed_set:
  "keyed f d \<Longrightarrow> stringify_message_key (message_key (f v)) = k \<Longrightarrow> keyed f (dict_set k v d)"
  using set_dict_set [of k v d] by (auto simp: keyed_def)

lemma keyed_pop: "keyed f d \<Longrightarrow> keyed f (dict_pop k d)"
  using set_dict_pop [of k d] by (auto simp: keyed_def)

lemma keyed_member: "keyed f d \<Longrightarrow> map_of d k = Some v \<Longrightarrow> stringify_message_key (message_key (f v)) = k"
  by (auto simp: keyed_def dest: map_of_SomeD)

lemma message_key_set [simp]: "k \<noteq> ''key'' \<Longrightarrow> message_key (dict_set k v m) = message_key m"
  by (simp add: message_key_def)

lemma message_key_update: "key_free u \<Longrightarrow> message_key (dict_update m u) = message_key m"
  by (simp add: message_key_def key_free_def py_get_update domIff)

lemma key_free_update: "key_free u \<Longrightarrow> key_free v \<Longrightarrow> key_free (dict_update v u)"
  by (simp add: key_free_def map_of_dict_update map_add_None)

lemma presentD: "present k d = Some v \<Longrightarrow> map_of d k = Some v"
  by (auto simp: present_def split: option.splits if_splits)

text \<open>The parts of the buffer, one at a time.\<close>

lemma well_keyed_upserts:
  "well_keyed bd \<Longrightarrow> stringify_message_key (message_key (mu_message u)) = k \<Longrightarrow>
   well_keyed (bd\<lparr>bd_message_upserts := dict_set k u (bd_message_upserts bd)\<rparr>)"
  by (simp add: well_keyed_def keyed_set)

lemma well_keyed_history:
  "well_keyed bd \<Longrightarrow> stringify_message_key (message_key m) = k \<Longrightarrow> \<not> hs_empty (bd_history bd) \<Longrightarrow>
   well_keyed (bd\<lparr>bd_history := (bd_history bd)\<lparr>hs_messages := dict_set k m (hs_messages (bd_history bd))\<rparr>\<rparr>)"
  using keyed_set [of "\<lambda>m. m"] by (simp add: well_keyed_def)

lemma well_keyed_updates_set:
  "well_keyed bd \<Longrightarrow> key_free (snd u) \<Longrightarrow>
   well_keyed (bd\<lparr>bd_message_updates := dict_set k u (bd_message_updates bd)\<rparr>)"
  using set_dict_set [of k u "bd_message_updates bd"] unfolding well_keyed_def by auto

lemma well_keyed_updates_pop:
  "well_keyed bd \<Longrightarrow> well_keyed (bd\<lparr>bd_message_updates := dict_pop k (bd_message_updates bd)\<rparr>)"
  using set_dict_pop [of k "bd_message_updates bd"] unfolding well_keyed_def by auto

lemma well_keyed_stored:
  assumes "well_keyed bd"
  shows "map_of (bd_message_upserts bd) k = Some u \<Longrightarrow> stringify_message_key (message_key (mu_message u)) = k"
    and "map_of (hs_messages (bd_history bd)) k = Some m \<Longrightarrow> stringify_message_key (message_key m) = k \<and> \<not> hs_empty (bd_history bd)"
    and "map_of (bd_message_updates bd) k = Some v \<Longrightarrow> key_free (snd v)"
proof -
  show "map_of (bd_message_upserts bd) k = Some u \<Longrightarrow> stringify_message_key (message_key (mu_message u)) = k"
    using assms keyed_member [of mu_message "bd_message_upserts bd" k u] by (simp add: well_keyed_def)
  show "map_of (hs_messages (bd_history bd)) k = Some m \<Longrightarrow>
      stringify_message_key (message_key m) = k \<and> \<not> hs_empty (bd_history bd)"
    using assms keyed_member [of "\<lambda>m. m" "hs_messages (bd_history bd)" k m] by (auto simp: well_keyed_def)
  show "map_of (bd_message_updates bd) k = Some v \<Longrightarrow> key_free (snd v)"
    using assms unfolding well_keyed_def by (blast dest: map_of_SomeD)
qed

text \<open>One message event.\<close>

lemma message_upsert_result:
  fixes m :: pydict
  assumes "well_keyed bd"
  defines "k \<equiv> stringify_message_key (message_key m)"
  obtains m' ups ty where "message_key m' = message_key m"
    and "ups = bd_message_updates bd \<or> ups = dict_pop k (bd_message_updates bd)"
    and "message_upsert_event t m bd =
          (let bd1 = bd\<lparr>bd_message_updates := ups\<rparr> in
           if present k (hs_messages (bd_history bd)) \<noteq> None
           then bd1\<lparr>bd_history := (bd_history bd1)\<lparr>hs_messages := dict_set k m' (hs_messages (bd_history bd1))\<rparr>\<rparr>
           else bd1\<lparr>bd_message_upserts := dict_set k \<lparr>mu_message = m', mu_type = ty\<rparr> (bd_message_upserts bd1)\<rparr>)"
proof -
  define m1 where "m1 = (case first_of (upserted_message k bd) (present k (hs_messages (bd_history bd))) of
      Some existing \<Rightarrow> dict_set ''messageTimestamp'' (py_get ''messageTimestamp'' existing) m | None \<Rightarrow> m)"
  define ty where "ty = (if t = ''notify'' \<or> (case map_of (bd_message_upserts bd) k of
      Some u \<Rightarrow> mu_type u = ''notify'' | None \<Rightarrow> False) then ''notify'' else t)"
  have m1: "message_key m1 = message_key m" by (simp add: m1_def split: option.splits)
  show ?thesis
  proof (cases "map_of (bd_message_updates bd) k")
    case None
    show ?thesis
      by (rule that [of m1 "bd_message_updates bd" ty])
        (simp_all add: m1 message_upsert_event_def None Let_def m1_def [symmetric] k_def [symmetric] ty_def [symmetric])
  next
    case (Some p)
    obtain j u where p: "p = (j, u)" by (cases p)
    with well_keyed_stored(3) [OF assms(1) Some] have "key_free u" by simp
    then show ?thesis
      by (intro that [of "dict_update m1 u" "dict_pop k (bd_message_updates bd)" ty])
        (simp_all add: m1 message_key_update message_upsert_event_def Some p Let_def
          m1_def [symmetric] k_def [symmetric] ty_def [symmetric])
  qed
qed

lemma message_upsert_keyed:
  assumes "well_keyed bd"
  shows "well_keyed (message_upsert_event t m bd)"
    and "held (message_upsert_event t m bd) = insert (stringify_message_key (message_key m)) (held bd)"
proof -
  obtain m' ups ty where r: "message_key m' = message_key m"
    "ups = bd_message_updates bd \<or> ups = dict_pop (stringify_message_key (message_key m)) (bd_message_updates bd)"
    "message_upsert_event t m bd =
       (let bd1 = bd\<lparr>bd_message_updates := ups\<rparr>; k = stringify_message_key (message_key m) in
        if present k (hs_messages (bd_history bd)) \<noteq> None
        then bd1\<lparr>bd_history := (bd_history bd1)\<lparr>hs_messages := dict_set k m' (hs_messages (bd_history bd1))\<rparr>\<rparr>
        else bd1\<lparr>bd_message_upserts := dict_set k \<lparr>mu_message = m', mu_type = ty\<rparr> (bd_message_upserts bd1)\<rparr>)"
    using message_upsert_result [OF assms, of m t] unfolding Let_def by blast
  let ?bd1 = "bd\<lparr>bd_message_updates := ups\<rparr>"
  have wk: "well_keyed ?bd1"
    using r(2) assms well_keyed_updates_pop [OF assms] by auto
  show "well_keyed (message_upsert_event t m bd)"
    using well_keyed_upserts [OF wk, of "\<lparr>mu_message = m', mu_type = ty\<rparr>"] well_keyed_history [OF wk, of m']
      well_keyed_stored(2) [OF assms]
    by (auto simp: r Let_def dest: presentD)
  show "held (message_upsert_event t m bd) = insert (stringify_message_key (message_key m)) (held bd)"
    by (auto simp: r held_def Let_def)
qed

lemma message_update_keyed:
  assumes "well_keyed bd" and "key_free (snd it)"
  shows "well_keyed (message_update_event it bd)" and "held bd \<subseteq> held (message_update_event it bd)"
proof -
  obtain ik u where it: "it = (ik, u)" by (cases it)
  let ?k = "stringify_message_key ik"
  have u: "key_free u" using assms(2) it by simp
  have dec: "well_keyed (decrement_chat_read_counter m bd') = well_keyed bd'" for m and bd' :: "'a buffer_data"
    by (simp add: well_keyed_def)
  have "key_free []" by (simp add: key_free_def dict_wf_def)
  then have new: "key_free (dict_update [] u)" by (rule key_free_update [OF u])
  have upd: "well_keyed (bd\<lparr>bd_message_updates := dict_set ?k
      (case map_of (bd_message_updates bd) ?k of Some (k, v) \<Rightarrow> (k, dict_update v u) | None \<Rightarrow> (ik, dict_update [] u))
      (bd_message_updates bd)\<rparr>)"
    using well_keyed_stored(3) [OF assms(1), of ?k] new u
    by (intro well_keyed_updates_set [OF assms(1)]) (auto simp: key_free_update split: option.splits)
  have ups: "well_keyed (bd\<lparr>bd_message_upserts := dict_set ?k (v\<lparr>mu_message := dict_update (mu_message v) u\<rparr>) (bd_message_upserts bd)\<rparr>)"
    if "map_of (bd_message_upserts bd) ?k = Some v" for v
    by (rule well_keyed_upserts [OF assms(1)]) (simp add: message_key_update u well_keyed_stored(1) [OF assms(1) that])
  have his: "well_keyed (bd\<lparr>bd_history := (bd_history bd)\<lparr>hs_messages := dict_set ?k (dict_update m u) (hs_messages (bd_history bd))\<rparr>\<rparr>)"
    if "present ?k (hs_messages (bd_history bd)) = Some m" for m
    by (rule well_keyed_history [OF assms(1)])
      (use well_keyed_stored(2) [OF assms(1) presentD [OF that]] in \<open>simp_all add: message_key_update u\<close>)
  show "well_keyed (message_update_event it bd)"
    using upd ups his unfolding message_update_event_def it Let_def
    by (simp add: dec split: option.splits)
  show "held bd \<subseteq> held (message_update_event it bd)"
    unfolding message_update_event_def held_def it Let_def by (auto split: option.splits)
qed

lemma attach_keyed:
  assumes "well_keyed bd" and "\<And>m m'. attach m x = Inr m' \<Longrightarrow> message_key m' = message_key m"
    and "\<And>d bd. well_keyed (put d bd) = well_keyed bd \<and> held (put d bd) = held bd"
  shows "well_keyed (snd (attach_to_message attach field get put (ik, x) bd)) \<and>
    held bd \<subseteq> held (snd (attach_to_message attach field get put (ik, x) bd))"
proof (cases "map_of (bd_message_upserts bd) (stringify_message_key ik)")
  case None
  then show ?thesis
    by (simp add: attach_to_message_def Let_def assms split: sum.splits)
next
  case (Some u)
  have "well_keyed (bd\<lparr>bd_message_upserts := dict_set (stringify_message_key ik) (u\<lparr>mu_message := m\<rparr>) (bd_message_upserts bd)\<rparr>)"
    if "attach (mu_message u) x = Inr m" for m
    by (rule well_keyed_upserts [OF assms(1)]) (simp add: assms(2) [OF that] well_keyed_stored(1) [OF assms(1) Some])
  then show ?thesis
    by (auto simp: attach_to_message_def Let_def Some assms(1) held_def split: sum.splits)
qed

lemma attached_keyed:
  assumes "well_keyed bd"
  shows "well_keyed (snd (message_reaction it bd)) \<and> held bd \<subseteq> held (snd (message_reaction it bd))"
    and "well_keyed (snd (message_receipt it bd)) \<and> held bd \<subseteq> held (snd (message_receipt it bd))"
proof -
  obtain ik x where it: "it = (ik, x)" by (cases it)
  show "well_keyed (snd (message_reaction it bd)) \<and> held bd \<subseteq> held (snd (message_reaction it bd))"
    unfolding message_reaction_def it
    by (rule attach_keyed [OF assms]) (auto simp: update_message_with_reaction_def Let_def result_iffs well_keyed_def held_def)
  show "well_keyed (snd (message_receipt it bd)) \<and> held bd \<subseteq> held (snd (message_receipt it bd))"
    unfolding message_receipt_def it
    by (rule attach_keyed [OF assms]) (auto simp: update_message_with_receipt_def Let_def result_iffs well_keyed_def held_def)
qed


lemma history_messages_keyed:
  assumes "well_keyed (snd s)"
  shows "well_keyed (snd (history_fields ev (fold history_message ms s)))"
    and "held (snd s) \<subseteq> held (snd (history_fields ev (fold history_message ms s)))"
proof -
  have "keyed (\<lambda>m. m) (hs_messages (bd_history (snd (fold history_message ms s)))) \<and> held (snd s) \<subseteq> held (snd (fold history_message ms s))"
    if "keyed (\<lambda>m. m) (hs_messages (bd_history (snd s)))"
    using that
  proof (induction ms arbitrary: s)
    case (Cons m ms)
    obtain cache bd where s: "s = (cache, bd)" by (cases s)
    have "keyed (\<lambda>m. m) (hs_messages (bd_history (snd (history_message m s)))) \<and> held (snd s) \<subseteq> held (snd (history_message m s))"
      using Cons.prems by (auto simp: s history_message_def Let_def held_def intro!: keyed_set)
    with Cons.IH [of "history_message m s"] show ?case by auto
  qed simp
  moreover obtain cache bd' where f: "fold history_message ms s = (cache, bd')"
    by (cases "fold history_message ms s")
  moreover have "bd_message_upserts bd' = bd_message_upserts (snd s)" "bd_message_updates bd' = bd_message_updates (snd s)"
    using history_messages_untouched(1,3) [of ms s] by (simp_all add: f)
  ultimately show "well_keyed (snd (history_fields ev (fold history_message ms s)))"
    "held (snd s) \<subseteq> held (snd (history_fields ev (fold history_message ms s)))"
    using assms by (simp_all add: well_keyed_def held_def history_fields_def)
qed

lemma untouched_keyed [simp]:
  "well_keyed (snd (history_chat holds c s)) = well_keyed (snd s)" "held (snd (history_chat holds c s)) = held (snd s)"
  "well_keyed (snd (snd (history_contact c s))) = well_keyed (snd s)" "held (snd (snd (history_contact c s))) = held (snd s)"
  "well_keyed (chat_upsert holds c bd) = well_keyed bd" "held (chat_upsert holds c bd) = held bd"
  "well_keyed (chat_update_event holds u bd) = well_keyed bd" "held (chat_update_event holds u bd) = held bd"
  "well_keyed (chats_delete ids bd) = well_keyed bd" "held (chats_delete ids bd) = held bd"
  "well_keyed (snd (contact_upsert c bd)) = well_keyed bd" "held (snd (contact_upsert c bd)) = held bd"
  "well_keyed (contact_update c bd) = well_keyed bd" "held (contact_update c bd) = held bd"
  "well_keyed (group_update c bd) = well_keyed bd" "held (group_update c bd) = held bd"
  by (simp_all add: well_keyed_def held_def)

lemma message_delete_keyed:
  "well_keyed bd \<Longrightarrow> well_keyed (message_delete k bd)"
  "held (message_delete k bd) \<supseteq> held bd - {stringify_message_key k}"
proof -
  show "well_keyed bd \<Longrightarrow> well_keyed (message_delete k bd)"
    using set_dict_pop [of "stringify_message_key k" "bd_message_updates bd"]
    unfolding well_keyed_def message_delete_def Let_def by (auto intro: keyed_pop)
  show "held (message_delete k bd) \<supseteq> held bd - {stringify_message_key k}"
    by (auto simp: held_def message_delete_def Let_def)
qed

interpretation keys_stay: buffer_invariant holds "\<lambda>bd. well_keyed bd \<and> (b \<longrightarrow> k \<in> held bd)"
  "\<lambda>ev. key_preserving ev \<and> (b \<longrightarrow> not_deleting k ev)" for holds b k
proof unfold_locales
  fix bd :: "'a buffer_data" and ms :: "pydict list" and ty m
  assume "well_keyed bd \<and> (b \<longrightarrow> k \<in> held bd)"
  with message_upsert_keyed [of bd _ m]
  show "well_keyed (message_upsert_event (case ty of None \<Rightarrow> ''notify'' | Some t \<Rightarrow> t) m bd) \<and>
      (b \<longrightarrow> k \<in> held (message_upsert_event (case ty of None \<Rightarrow> ''notify'' | Some t \<Rightarrow> t) m bd))" by simp
next
  fix bd :: "'a buffer_data" and items :: "(pydict \<times> pydict) list" and it
  assume "well_keyed bd \<and> (b \<longrightarrow> k \<in> held bd)" "key_preserving (Messages_Update items :: 'a event) \<and> (b \<longrightarrow> not_deleting k (Messages_Update items :: 'a event))" "it \<in> set items"
  with message_update_keyed [of bd it]
  show "well_keyed (message_update_event it bd) \<and> (b \<longrightarrow> k \<in> held (message_update_event it bd))"
    by (auto simp: key_preserving_def list_all_iff)
next
  fix bd :: "'a buffer_data" and ks :: "pydict list" and j
  assume "well_keyed bd \<and> (b \<longrightarrow> k \<in> held bd)" "key_preserving (Messages_Delete (Some ks) :: 'a event) \<and> (b \<longrightarrow> not_deleting k (Messages_Delete (Some ks) :: 'a event))" "j \<in> set ks"
  with message_delete_keyed [of bd j]
  show "well_keyed (message_delete j bd) \<and> (b \<longrightarrow> k \<in> held (message_delete j bd))"
    by (auto simp: not_deleting_def)
next
  fix bd :: "'a buffer_data" and ev ms and cache :: "string set"
  assume "well_keyed bd \<and> (b \<longrightarrow> k \<in> held bd)"
  with history_messages_keyed [of "(cache, bd)" ev ms]
  show "well_keyed (snd (history_fields ev (fold history_message ms (cache, bd)))) \<and>
      (b \<longrightarrow> k \<in> held (snd (history_fields ev (fold history_message ms (cache, bd)))))" by auto
qed (use attached_keyed in \<open>(simp; fail) | blast\<close>)+

text \<open>The keys of the messages that are released.\<close>

definition released_keys :: "'c event list \<Rightarrow> string set" where
  "released_keys evs = (\<Union>ev\<in>set evs. case ev of
       Messages_Upsert ms ty \<Rightarrow> (stringify_message_key \<circ> message_key) ` set ms
     | History_Set h \<Rightarrow> (stringify_message_key \<circ> message_key) ` set (he_messages h)
     | _ \<Rightarrow> {})"

lemma keyed_values: "keyed f d \<Longrightarrow> (\<lambda>x. stringify_message_key (message_key (f (snd x)))) ` set d = fst ` set d"
  by (force simp: keyed_def intro!: image_cong)

lemma released_consolidated: "well_keyed bd \<Longrightarrow> held bd \<subseteq> released_keys (consolidate_events bd)"
  using keyed_values [of mu_message "bd_message_upserts bd"] keyed_values [of "\<lambda>m. m" "hs_messages (bd_history bd)"]
  unfolding well_keyed_def held_def
  by (cases "hs_empty (bd_history bd)"; cases "bd_message_upserts bd")
    (auto simp: released_keys_def consolidate_events_def some_event_def Let_def image_image)


lemma released_append [simp]: "released_keys (as @ bs) = released_keys as \<union> released_keys bs"
  by (simp add: released_keys_def)

lemma released_simps [simp]:
  "released_keys [] = {}"
  "released_keys [Messages_Upsert ms ty] = (stringify_message_key \<circ> message_key) ` set ms"
  by (simp_all add: released_keys_def)

lemma release_other_keyed:
  assumes "well_keyed bd"
  shows "well_keyed (snd (release_other_type ev bd))"
    and "held bd \<subseteq> released_keys (fst (release_other_type ev bd)) \<union> held (snd (release_other_type ev bd))"
proof -
  have k: "(\<lambda>x. stringify_message_key (message_key (mu_message (snd x)))) ` set (bd_message_upserts bd) = fst ` set (bd_message_upserts bd)"
    by (rule keyed_values) (use assms in \<open>simp add: well_keyed_def\<close>)
  have "well_keyed (bd\<lparr>bd_message_upserts := []\<rparr>)" using assms by (simp add: well_keyed_def keyed_def)
  moreover have "held bd \<subseteq> released_keys [Messages_Upsert (map (mu_message \<circ> snd) (bd_message_upserts bd)) ty] \<union>
      held (bd\<lparr>bd_message_upserts := []\<rparr>)" for ty
    using k by (auto simp: held_def image_image)
  ultimately show "well_keyed (snd (release_other_type ev bd))"
    "held bd \<subseteq> released_keys (fst (release_other_type ev bd)) \<union> held (snd (release_other_type ev bd))"
    using assms by (auto simp: release_other_type_def split: event.splits list.splits)
qed

definition em_ok :: "'c emitter \<Rightarrow> bool" where
  "em_ok em \<longleftrightarrow> well_keyed (em_data em) \<and> (\<not> em_buffering em \<longrightarrow> held (em_data em) = {})"

lemma well_keyed_new: "well_keyed (make_buffer_data\<lparr>bd_chat_updates := d\<rparr>)" "held (make_buffer_data\<lparr>bd_chat_updates := d\<rparr>) = {}"
  by (simp_all add: well_keyed_def held_def keyed_def make_buffer_data_def)

lemma emit_keyed:
  assumes "em_ok em" and "key_preserving ev"
  shows "em_ok (snd (snd (emit holds ev em)))"
    and "not_deleting k ev \<Longrightarrow> k \<in> held (em_data em) \<Longrightarrow>
      k \<in> released_keys (fst (snd (emit holds ev em))) \<union> held (em_data (snd (snd (emit holds ev em))))"
proof -
  let ?r = "release_other_type ev (em_data em)"
  have wk: "well_keyed (em_data em)" using assms(1) by (simp add: em_ok_def)
  note rel = release_other_keyed [OF wk, of ev]
  obtain e c bd' where a: "append_event holds ev (em_history_cache em, snd ?r) = (e, c, bd')"
    by (cases "append_event holds ev (em_history_cache em, snd ?r)") auto
  have keeps: "well_keyed bd' \<and> (b \<longrightarrow> k \<in> held bd')"
    if "b \<longrightarrow> k \<in> held (snd ?r)" "b \<longrightarrow> not_deleting k ev" for b
    using keys_stay.append_keeps [of "(em_history_cache em, snd ?r)" b k ev holds] rel(1) that assms(2) a by simp
  have empty: "held (snd ?r) \<subseteq> held (em_data em)"
    by (auto simp: release_other_type_def held_def split: event.splits list.splits)
  show "em_ok (snd (snd (emit holds ev em)))"
    using keeps [of False] rel(1) empty assms(1) by (auto simp: em_ok_def emit_def a Let_def split_beta)
  show "k \<in> released_keys (fst (snd (emit holds ev em))) \<union> held (em_data (snd (snd (emit holds ev em))))"
    if "not_deleting k ev" "k \<in> held (em_data em)"
  proof (cases "em_buffering em \<and> bufferable ev")
    case True
    with keeps [of True] rel(2) that show ?thesis by (auto simp: emit_def a Let_def split_beta)
  next
    case False
    with rel(2) that show ?thesis by (auto simp: emit_def Let_def split_beta)
  qed
qed

lemma fold_upserts_held:
  "well_keyed bd \<Longrightarrow> well_keyed (fold (message_upsert_event t) ms bd) \<and>
    held (fold (message_upsert_event t) ms bd) = held bd \<union> (stringify_message_key \<circ> message_key) ` set ms"
  by (induction ms arbitrary: bd) (auto simp: message_upsert_keyed)

lemma emit_upsert_held:
  assumes "em_ok em" and "m \<in> set ms"
  shows "stringify_message_key (message_key m) \<in> released_keys (fst (snd (emit holds (Messages_Upsert ms ty) em))) \<union>
    held (em_data (snd (snd (emit holds (Messages_Upsert ms ty) em))))"
proof -
  have "well_keyed (em_data em)" using assms(1) by (simp add: em_ok_def)
  from fold_upserts_held [OF release_other_keyed(1) [OF this]] assms(2) show ?thesis
    by (auto simp: emit_def on_data_def Let_def split_beta)
qed

lemma act_keyed:
  assumes "em_ok em" and "list_all key_preserving (emitted [a])"
  shows "em_ok (snd (act holds a em))"
    and "list_all (not_deleting k) (emitted [a]) \<Longrightarrow> k \<in> held (em_data em) \<Longrightarrow>
      k \<in> released_keys (fst (act holds a em)) \<union> held (em_data (snd (act holds a em)))"
proof -
  have flush: "em_ok (snd (snd (flush em)))" "held (em_data em) \<subseteq> released_keys (fst (snd (flush em)))"
  proof -
    let ?bd = "em_data em\<lparr>bd_chat_updates := filter (\<lambda>(k, u). cu_conditional u = None) (bd_chat_updates (em_data em))\<rparr>"
    have "well_keyed ?bd" "held ?bd = held (em_data em)"
      using assms(1) by (simp_all add: em_ok_def well_keyed_def held_def)
    with released_consolidated [of ?bd] have r: "held (em_data em) \<subseteq> released_keys (consolidate_events ?bd)" by simp
    show "em_ok (snd (snd (flush em)))" "held (em_data em) \<subseteq> released_keys (fst (snd (flush em)))"
      using r assms(1) by (cases "em_buffering em"; simp add: flush_def em_ok_def Let_def well_keyed_new)+
  qed
  show "em_ok (snd (act holds a em))"
    using flush emit_keyed(1) [OF assms(1)] assms by (cases a) (auto simp: start_buffering_def em_ok_def)
  show "k \<in> released_keys (fst (act holds a em)) \<union> held (em_data (snd (act holds a em)))"
    if "list_all (not_deleting k) (emitted [a])" "k \<in> held (em_data em)"
    using flush emit_keyed(2) [OF assms(1)] assms(2) that by (cases a) (auto simp: start_buffering_def)
qed

lemma emitted_Cons: "emitted (a # acts) = emitted [a] @ emitted acts"
  by (cases a) simp_all

lemma emitted_append: "emitted (as @ bs) = emitted as @ emitted bs"
  by (induction as rule: emitted.induct) simp_all

lemma run_keyed:
  assumes "em_ok em" and "list_all key_preserving (emitted acts)"
  shows "em_ok (snd (run_actions holds acts em))"
    and "list_all (not_deleting k) (emitted acts) \<Longrightarrow> k \<in> held (em_data em) \<Longrightarrow>
      k \<in> released_keys (fst (run_actions holds acts em)) \<union> held (em_data (snd (run_actions holds acts em)))"
  using assms
proof (induction acts arbitrary: em)
  case (Cons a acts)
  {
    case 1
    with Cons.IH(1) [of "snd (act holds a em)"] act_keyed(1) [of em a] show ?case
      by (simp add: emitted_Cons [of a acts] Let_def split_beta)
  next
    case 2
    with Cons.IH(2) [of "snd (act holds a em)"] act_keyed(1) [of em a]
      act_keyed(2) [where em = em and a = a and holds = holds and k = k] show ?case
      by (auto simp: emitted_Cons [of a acts] Let_def split_beta)
  }
qed simp_all

text \<open>
  C33. No message is lost: whatever happens before and after, a message that was emitted has been
  released, or is released by the next flush, unless it was deleted in between or an update
  replaced the key of a message.
\<close>

theorem messages_delivered:
  assumes "list_all key_preserving (emitted (before @ Emit (Messages_Upsert ms ty) # after))"
    and "m \<in> set ms" and "list_all (not_deleting (stringify_message_key (message_key m))) (emitted after)"
    and "run_actions holds (before @ Emit (Messages_Upsert ms ty) # after) make_event_buffer = (out, em)"
  shows "stringify_message_key (message_key m) \<in> released_keys (out @ fst (snd (flush em)))"
proof -
  let ?k = "stringify_message_key (message_key m)" and ?up = "Emit (Messages_Upsert ms ty)"
  define em1 where "em1 = snd (run_actions holds before make_event_buffer)"
  define em2 where "em2 = snd (act holds ?up em1)"
  have kp: "list_all key_preserving (emitted before)" "list_all key_preserving (emitted after)"
    using assms(1) by (simp_all add: emitted_append)
  have "em_ok (make_event_buffer :: 'a emitter)"
    by (simp add: em_ok_def make_event_buffer_def well_keyed_def held_def keyed_def make_buffer_data_def)
  then have ok1: "em_ok em1" using run_keyed(1) kp(1) by (simp add: em1_def)
  have ok2: "em_ok em2"
    unfolding em2_def by (rule act_keyed(1) [OF ok1]) (simp add: key_preserving_def)
  have out: "released_keys (fst (act holds ?up em1)) \<union> released_keys (fst (run_actions holds after em2)) \<subseteq> released_keys out"
    "em = snd (run_actions holds after em2)"
    using assms(4) by (auto simp: run_actions_append em1_def em2_def Let_def split_beta)
  have "?k \<in> released_keys (fst (act holds ?up em1)) \<union> held (em_data em2)"
    using emit_upsert_held [OF ok1 assms(2), of holds ty] by (simp add: em2_def)
  with run_keyed [OF ok2 kp(2), where holds = holds] assms(3) out
  have "?k \<in> released_keys out \<union> held (em_data em)" "em_ok em" by auto
  with act_keyed(2) [where em = em and a = Flush and holds = holds and k = ?k] show ?thesis
    by (cases "em_buffering em") (auto simp: em_ok_def flush_def Let_def dest: well_keyed_new(2) [THEN equalityD1, THEN subsetD])
qed


section \<open>What a listener does not get\<close>

text \<open>Merging a chat that has unread messages with the mark that it was read keeps the count.\<close>

lemma read_mark_lost:
  assumes "as_int (py_get ''unreadCount'' a) = Some n" and "n > 0"
    and "dict_wf b" and "py_get ''unreadCount'' b = PInt 0"
  shows "py_get ''unreadCount'' (concat_chats a b) = PInt n"
  using assms by (simp add: concat_chats_def Let_def py_get_update)

text \<open>A chat that was marked as unread loses the mark with the next update of any field.\<close>

lemma unread_mark_lost:
  assumes "as_int (py_get ''unreadCount'' a) = Some n" and "n < 0"
    and "dict_wf b" and "py_get ''unreadCount'' b = PNone"
  shows "py_get ''unreadCount'' (concat_chats a b) = PNone"
  using assms by (simp add: concat_chats_def Let_def py_get_update)

text \<open>The update of a contact that is not known yet is dropped when the contact comes.\<close>

lemma contact_update_dropped:
  assumes "required_id contact = Inr k" and "present k (bd_contact_updates bd) \<noteq> None"
    and "map_of (bd_contact_upserts bd) k = None" and "map_of (hs_contacts (bd_history bd)) k = None"
  shows "map_of (bd_contact_upserts (snd (contact_upsert contact bd))) k = Some (trim_undefined contact)"
    and "map_of (bd_contact_updates (snd (contact_upsert contact bd))) k = None"
  using assms by (auto simp: contact_upsert_def set_contact_def present_def [of k "bd_contact_upserts bd"]
      present_def [of k "hs_contacts (bd_history bd)"] Let_def split: option.splits)

section \<open>Examples\<close>

definition demo_condition :: "unit \<Rightarrow> unit buffer_data \<Rightarrow> bool option" where
  "demo_condition c bd = None"

definition demo_msg :: "string \<Rightarrow> pydict" where
  "demo_msg i = [(''key'', PDict [(''remoteJid'', PStr ''1@lid''), (''id'', PStr i)])]"

lemma demo_msg_key: "stringify_message_key (message_key (demo_msg i)) = ''1@lid,'' @ i @ '',0''"
  by (simp add: demo_msg_def message_key_def dict_or_empty_def stringify_message_key_def key_part_def)

theorem messages_keep_their_type_witness:
  "let em = snd (run_actions demo_condition [Buffer, Emit (Messages_Upsert [demo_msg ''A''] (Some ''append''))] make_event_buffer)
   in typed_messages (fst (snd (flush em))) = buffered_messages (em_data em) \<and>
      types_of (bd_message_upserts (em_data (snd (snd (emit demo_condition (Messages_Upsert [demo_msg ''B''] None) em))))) \<subseteq> {event_type None}"
  unfolding Let_def
  by (rule messages_keep_their_type [OF refl])
    (simp add: start_buffering_def make_event_buffer_def emit_def release_other_type_def make_buffer_data_def on_data_def Let_def)

definition demo_subject :: "string \<Rightarrow> unit action" where
  "demo_subject s = Emit (Groups_Update [[(''id'', PStr ''9@g.us''), (''subject'', PStr s)]])"

theorem group_updates_coalesced_witness:
  "let (out, em) = run_actions demo_condition [Buffer, demo_subject ''a'', demo_subject ''b''] make_event_buffer
   in see (fst (snd (flush em))) (see out Map.empty) = see (emitted [Buffer, demo_subject ''a'', demo_subject ''b'']) Map.empty"
proof -
  have "list_all group_events_wf (emitted [Buffer, demo_subject ''a'', demo_subject ''b''])"
    by (simp add: demo_subject_def group_events_wf_def dict_wf_def)
  then show ?thesis by (simp add: split_beta group_updates_coalesced [OF _ prod.collapse [symmetric]] del: run_actions.simps emitted.simps)
qed

theorem messages_delivered_witness:
  "let (out, em) = run_actions demo_condition
     ([Buffer, Emit (Messages_Delete (Some [message_key (demo_msg ''A'')]))] @
      Emit (Messages_Upsert [demo_msg ''A''] None) # [Flush, Buffer]) make_event_buffer
   in ''1@lid,A,0'' \<in> released_keys (out @ fst (snd (flush em)))"
proof -
  let ?before = "[Buffer, Emit (Messages_Delete (Some [message_key (demo_msg ''A'')]))]" and ?after = "[Flush, Buffer]"
  obtain out em where r: "run_actions demo_condition (?before @ Emit (Messages_Upsert [demo_msg ''A''] None) # ?after)
      make_event_buffer = (out, em)"
    by (cases "run_actions demo_condition (?before @ Emit (Messages_Upsert [demo_msg ''A''] None) # ?after) make_event_buffer")
  have "stringify_message_key (message_key (demo_msg ''A'')) \<in> released_keys (out @ fst (snd (flush em)))"
    by (rule messages_delivered [OF _ _ _ r]) (simp_all add: key_preserving_def)
  then have "''1@lid,A,0'' \<in> released_keys (out @ fst (snd (flush em)))" by (simp only: demo_msg_key append.simps)
  with r show ?thesis by (simp only: Let_def case_prod_conv)
qed

text \<open>A message that is deleted and comes again is released before its own deletion.\<close>

lemma message_released_before_deletion:
  "fst (run_actions demo_condition [Buffer, Emit (Messages_Delete (Some [message_key (demo_msg ''A'')])),
     Emit (Messages_Upsert [demo_msg ''A''] (Some ''notify'')), Flush] make_event_buffer) =
   [Messages_Upsert [demo_msg ''A''] (Some ''notify''), Messages_Delete (Some [message_key (demo_msg ''A'')])]"
  by (simp add: start_buffering_def make_event_buffer_def emit_def release_other_type_def make_buffer_data_def on_data_def
      message_delete_def message_upsert_event_def upserted_message_def first_of_def present_def flush_def
      consolidate_events_def some_event_def keyed_items_def dict_pop_def Let_def)

end
