(* ===== verification/Buffer_Timers.thy ===== *)
theory Buffer_Timers
  imports Prelude
begin

text \<open>
  When the event buffer is flushed: the counter and the timers of \<^verbatim>\<open>utils/event_buffer.py\<close>.
  A timer handle is absent, armed, or has fired; the code never clears a handle when it fires,
  only when a flush cancels it. Functions wrapped by \<open>create_buffered_function\<close> run
  concurrently and may fail.
\<close>

datatype timer = No_Timer | Armed | Fired

record timers =
  bt_buffering :: bool
  bt_count :: int
  bt_timeout :: timer
  bt_pending :: timer
  bt_singles :: nat
  bt_running :: nat

definition new_timers :: timers where
  "new_timers = \<lparr>bt_buffering = False, bt_count = 0, bt_timeout = No_Timer, bt_pending = No_Timer,
     bt_singles = 0, bt_running = 0\<rparr>"

definition t_buffer :: "timers \<Rightarrow> timers" where
  "t_buffer s =
     (let s1 = (if \<not> bt_buffering s then s\<lparr>bt_buffering := True, bt_count := 0, bt_timeout := Armed\<rparr> else s)
      in s1\<lparr>bt_count := bt_count s1 + 1\<rparr>)"

definition t_flush :: "timers \<Rightarrow> timers" where
  "t_flush s =
     (if \<not> bt_buffering s then s
      else s\<lparr>bt_buffering := False, bt_count := 0, bt_timeout := No_Timer, bt_pending := No_Timer\<rparr>)"

definition timeout_hit :: "timers \<Rightarrow> timers" where
  "timeout_hit s = (let s1 = s\<lparr>bt_timeout := Fired\<rparr> in if bt_buffering s1 then t_flush s1 else s1)"

text \<open>The end of a wrapped function; \<open>ok\<close> tells whether it returned a result.\<close>

definition wrapper_ends :: "bool \<Rightarrow> timers \<Rightarrow> timers" where
  "wrapper_ends ok s =
     (let s1 = (if ok \<and> bt_count s = 1 then s\<lparr>bt_singles := bt_singles s + 1\<rparr> else s);
          s2 = s1\<lparr>bt_count := max 0 (bt_count s1 - 1), bt_running := bt_running s1 - 1\<rparr>
      in if bt_count s2 = 0 \<and> bt_pending s2 = No_Timer then s2\<lparr>bt_pending := Armed\<rparr> else s2)"

definition maybe_flush_single :: "timers \<Rightarrow> timers" where
  "maybe_flush_single s =
     (let s1 = s\<lparr>bt_singles := bt_singles s - 1\<rparr>
      in if bt_buffering s1 \<and> bt_count s1 = 1 then t_flush s1 else s1)"

definition pending_fires :: "timers \<Rightarrow> timers" where
  "pending_fires s = t_flush (s\<lparr>bt_pending := Fired\<rparr>)"

inductive timer_step :: "timers \<Rightarrow> timers \<Rightarrow> bool" where
  step_start: "timer_step s (t_buffer (s\<lparr>bt_running := bt_running s + 1\<rparr>))"
| step_end: "bt_running s > 0 \<Longrightarrow> timer_step s (wrapper_ends ok s)"
| step_buffer: "timer_step s (t_buffer s)"
| step_flush: "timer_step s (t_flush s)"
| step_timeout: "bt_timeout s = Armed \<Longrightarrow> timer_step s (timeout_hit s)"
| step_single: "bt_singles s > 0 \<Longrightarrow> timer_step s (maybe_flush_single s)"
| step_pending: "bt_pending s = Armed \<Longrightarrow> timer_step s (pending_fires s)"

abbreviation timer_reachable :: "timers \<Rightarrow> bool" where
  "timer_reachable s \<equiv> timer_step\<^sup>*\<^sup>* new_timers s"

definition timers_ok :: "timers \<Rightarrow> bool" where
  "timers_ok s \<longleftrightarrow> 0 \<le> bt_count s \<and> (bt_buffering s \<longleftrightarrow> bt_timeout s = Armed) \<and> (\<not> bt_buffering s \<longrightarrow> bt_count s = 0) \<and>
     (bt_buffering s \<longrightarrow> bt_count s = 0 \<longrightarrow> bt_pending s \<noteq> No_Timer)"

lemmas timer_ops = t_buffer_def t_flush_def timeout_hit_def wrapper_ends_def maybe_flush_single_def pending_fires_def Let_def

lemma timer_step_ok: "timer_step s s' \<Longrightarrow> timers_ok s \<Longrightarrow> timers_ok s'"
  by (induction rule: timer_step.induct) (auto simp: timers_ok_def timer_ops)

lemma timer_reachable_ok: "timer_reachable s \<Longrightarrow> timers_ok s"
proof (induction rule: rtranclp_induct)
  case base
  show ?case by (simp add: timers_ok_def new_timers_def)
next
  case (step y z)
  then show ?case using timer_step_ok by blast
qed

text \<open>
  The buffer never gets stuck: whenever it is buffering, the time-out of 30 seconds is armed and
  ends the buffering when it fires; and when the last wrapped function is over, the short flush
  timer is armed or has fired already.
\<close>

theorem buffer_always_released:
  assumes "timer_reachable s" and "bt_buffering s"
  shows "timer_step s (timeout_hit s) \<and> \<not> bt_buffering (timeout_hit s) \<and>
    (bt_count s = 0 \<longrightarrow> bt_pending s = Armed \<or> bt_pending s = Fired)"
proof (intro conjI impI)
  have ok: "timers_ok s" using assms(1) by (rule timer_reachable_ok)
  then show "timer_step s (timeout_hit s)" using assms(2) by (auto simp: timers_ok_def intro: step_timeout)
  show "\<not> bt_buffering (timeout_hit s)" by (simp add: timer_ops)
  show "bt_pending s = Armed \<or> bt_pending s = Fired" if "bt_count s = 0"
    using ok that assms(2) by (cases "bt_pending s") (auto simp: timers_ok_def)
qed

theorem buffer_always_released_witness:
  "let s = t_buffer new_timers in timer_step s (timeout_hit s) \<and> \<not> bt_buffering (timeout_hit s)"
proof -
  have "timer_reachable (t_buffer new_timers)" by (rule r_into_rtranclp) (rule step_buffer)
  moreover have "bt_buffering (t_buffer new_timers)" by (simp add: t_buffer_def new_timers_def Let_def)
  ultimately show ?thesis using buffer_always_released by (simp add: Let_def)
qed

text \<open>
  That is as much as holds: the timer that has fired may be of no use. A flush during a wrapped function leaves its timer without effect: when the function ends, the
  short timer is armed although nothing is buffered, fires without clearing its handle, and the
  next wrapped function does not arm a new one. Its events wait for the long time-out.
\<close>

theorem stale_flush_timer:
  "\<exists>s. timer_reachable s \<and> bt_buffering s \<and> bt_running s = 0 \<and> bt_count s = 0 \<and> bt_pending s = Fired \<and>
    \<not> (\<exists>s'. timer_step s s' \<and> \<not> bt_buffering s' \<and> s' \<notin> {timeout_hit s, t_flush s})"
proof -
  let ?start = "\<lambda>s. t_buffer (s\<lparr>bt_running := bt_running s + 1\<rparr>)"
  define s1 where "s1 = t_flush (?start new_timers)"
  define s2 where "s2 = pending_fires (wrapper_ends False s1)"
  define s3 where "s3 = wrapper_ends False (?start s2)"
  have s1: "s1 = new_timers\<lparr>bt_running := 1\<rparr>" by (simp add: s1_def timer_ops new_timers_def)
  have s2: "s2 = new_timers\<lparr>bt_pending := Fired\<rparr>" by (simp add: s2_def s1 timer_ops new_timers_def)
  have s3: "s3 = \<lparr>bt_buffering = True, bt_count = 0, bt_timeout = Armed, bt_pending = Fired, bt_singles = 0, bt_running = 0\<rparr>"
    by (simp add: s3_def s2 timer_ops new_timers_def)
  have t1: "timer_step new_timers (?start new_timers)" by (rule step_start)
  have t2: "timer_step (?start new_timers) s1" unfolding s1_def by (rule step_flush)
  have t3: "timer_step s1 (wrapper_ends False s1)" by (rule step_end) (simp add: s1)
  have t4: "timer_step (wrapper_ends False s1) s2"
    unfolding s2_def by (rule step_pending) (simp add: s1 timer_ops new_timers_def)
  have t5: "timer_step s2 (?start s2)" by (rule step_start)
  have t6: "timer_step (?start s2) s3"
    unfolding s3_def by (rule step_end) (simp add: s2 timer_ops new_timers_def)
  have "timer_reachable s3"
    by (rule converse_rtranclp_into_rtranclp [where r = timer_step, OF t1], rule converse_rtranclp_into_rtranclp [where r = timer_step, OF t2],
        rule converse_rtranclp_into_rtranclp [where r = timer_step, OF t3], rule converse_rtranclp_into_rtranclp [where r = timer_step, OF t4],
        rule converse_rtranclp_into_rtranclp [where r = timer_step, OF t5], rule converse_rtranclp_into_rtranclp [where r = timer_step, OF t6],
        rule rtranclp.rtrancl_refl)
  moreover have "s' = timeout_hit s3 \<or> s' = t_flush s3" if "timer_step s3 s'" "\<not> bt_buffering s'" for s'
    using that by cases (auto simp: s3 timer_ops)
  ultimately show ?thesis by (intro exI [of _ s3]) (auto simp: s3)
qed

end
