(* ===== verification/Event_Bus.thy ===== *)
theory Event_Bus
  imports Prelude "HOL-Library.Multiset"
begin

text \<open>
  The simple event bus of \<^verbatim>\<open>utils/event_bus.py\<close>. Nested \<open>buffer\<close> calls are counted;
  the \<open>flush\<close> that ends the outermost one starts a task that delivers the buffered events,
  while the caller goes on. Deliveries of one event are one step; the tasks that were started run
  in any order. Events are of type \<open>'e\<close>.
\<close>

section \<open>Listeners\<close>

text \<open>
  The handlers of an event in the order they are called; both buses keep them like this.
  \<open>list.remove\<close> takes out the first occurrence.
\<close>

type_synonym 'h handlers = "(string, 'h list) dict"

definition handlers_of :: "string \<Rightarrow> 'h handlers \<Rightarrow> 'h list" where
  "handlers_of event hs = (case map_of hs event of None \<Rightarrow> [] | Some l \<Rightarrow> l)"

definition on_event :: "string \<Rightarrow> 'h \<Rightarrow> 'h handlers \<Rightarrow> 'h handlers" where
  "on_event event h hs = dict_set event (handlers_of event hs @ [h]) hs"

definition off_event :: "string \<Rightarrow> 'h \<Rightarrow> 'h handlers \<Rightarrow> 'h handlers" where
  "off_event event h hs =
     (if h \<in> set (handlers_of event hs) then dict_set event (remove1 h (handlers_of event hs)) hs else hs)"

definition remove_all_listeners :: "string \<Rightarrow> 'h handlers \<Rightarrow> 'h handlers" where
  "remove_all_listeners event hs = dict_pop event hs"

lemma handlers_of_simps [simp]:
  "handlers_of e (on_event e' h hs) = (if e = e' then handlers_of e hs @ [h] else handlers_of e hs)"
  "handlers_of e (off_event e' h hs) = (if e = e' then remove1 h (handlers_of e hs) else handlers_of e hs)"
  "handlers_of e (remove_all_listeners e' hs) = (if e = e' then [] else handlers_of e hs)"
  by (auto simp: on_event_def off_event_def remove_all_listeners_def handlers_of_def remove1_idem split: option.splits)

text \<open>Unsubscribing what was not there before the subscription leaves the handlers as they were.\<close>

lemma on_off: "h \<notin> set (handlers_of event hs) \<Longrightarrow> handlers_of e (off_event event h (on_event event h hs)) = handlers_of e hs"
  by (simp add: remove1_append)

section \<open>Buffering\<close>

record 'e event_bus =
  eb_buffering :: bool
  eb_depth :: nat
  eb_events :: "'e list"
  eb_tasks :: "'e list list"
  eb_delivered :: "'e list"

definition new_event_bus :: "'e event_bus" where
  "new_event_bus = \<lparr>eb_buffering = False, eb_depth = 0, eb_events = [], eb_tasks = [], eb_delivered = []\<rparr>"

definition bus_emit :: "'e \<Rightarrow> 'e event_bus \<Rightarrow> 'e event_bus" where
  "bus_emit e s =
     (if eb_buffering s then s\<lparr>eb_events := eb_events s @ [e]\<rparr>
      else s\<lparr>eb_delivered := eb_delivered s @ [e]\<rparr>)"

definition bus_buffer :: "'e event_bus \<Rightarrow> 'e event_bus" where
  "bus_buffer s = s\<lparr>eb_depth := eb_depth s + 1, eb_buffering := True\<rparr>"

definition bus_flush :: "'e event_bus \<Rightarrow> bool \<times> 'e event_bus" where
  "bus_flush s =
     (let s1 = (if eb_depth s > 0 then s\<lparr>eb_depth := eb_depth s - 1\<rparr> else s) in
      if eb_depth s1 > 0 then (False, s1)
      else
        let s2 = s1\<lparr>eb_events := [], eb_buffering := False\<rparr>
        in if eb_events s1 = [] then (False, s2)
           else (True, s2\<lparr>eb_tasks := eb_tasks s2 @ [eb_events s1]\<rparr>))"

text \<open>One step of the program, or of one of the tasks it has started.\<close>

datatype 'e bus_action = Bus_Emit 'e | Bus_Buffer | Bus_Flush

fun bus_act :: "'e bus_action \<Rightarrow> 'e event_bus \<Rightarrow> 'e event_bus" where
  "bus_act (Bus_Emit e) s = bus_emit e s"
| "bus_act Bus_Buffer s = bus_buffer s"
| "bus_act Bus_Flush s = snd (bus_flush s)"

inductive bus_run :: "'e bus_action list \<Rightarrow> 'e event_bus \<Rightarrow> bool" where
  bus_start: "bus_run [] new_event_bus"
| bus_program: "bus_run acts s \<Longrightarrow> bus_run (acts @ [a]) (bus_act a s)"
| bus_task: "bus_run acts s \<Longrightarrow> eb_tasks s = before @ (e # es) # after \<Longrightarrow>
    bus_run acts (s\<lparr>eb_tasks := before @ es # after, eb_delivered := eb_delivered s @ [e]\<rparr>)"
| bus_task_ends: "bus_run acts s \<Longrightarrow> eb_tasks s = before @ [] # after \<Longrightarrow>
    bus_run acts (s\<lparr>eb_tasks := before @ after\<rparr>)"

fun bus_emitted :: "'e bus_action list \<Rightarrow> 'e list" where
  "bus_emitted [] = []"
| "bus_emitted (Bus_Emit e # acts) = e # bus_emitted acts"
| "bus_emitted (a # acts) = bus_emitted acts"

text \<open>The nesting depth after a program: a \<open>flush\<close> too many does nothing.\<close>

fun bus_depth :: "'e bus_action list \<Rightarrow> nat \<Rightarrow> nat" where
  "bus_depth [] n = n"
| "bus_depth (Bus_Emit e # acts) n = bus_depth acts n"
| "bus_depth (Bus_Buffer # acts) n = bus_depth acts (n + 1)"
| "bus_depth (Bus_Flush # acts) n = bus_depth acts (n - 1)"

lemma bus_emitted_append: "bus_emitted (as @ bs) = bus_emitted as @ bus_emitted bs"
  by (induction as rule: bus_emitted.induct) simp_all

lemma bus_depth_append: "bus_depth (as @ bs) n = bus_depth bs (bus_depth as n)"
  by (induction as n rule: bus_depth.induct) simp_all

definition bus_ok :: "'e bus_action list \<Rightarrow> 'e event_bus \<Rightarrow> bool" where
  "bus_ok acts s \<longleftrightarrow> mset (eb_delivered s) + mset (concat (eb_tasks s)) + mset (eb_events s) = mset (bus_emitted acts) \<and>
     eb_depth s = bus_depth acts 0 \<and> (eb_buffering s \<longleftrightarrow> eb_depth s > 0) \<and> (\<not> eb_buffering s \<longrightarrow> eb_events s = [])"

lemma bus_act_ok: "bus_ok acts s \<Longrightarrow> bus_ok (acts @ [a]) (bus_act a s)"
  by (cases a) (auto simp: bus_ok_def bus_emit_def bus_buffer_def bus_flush_def bus_emitted_append bus_depth_append ac_simps Let_def)

lemma bus_run_ok: "bus_run acts s \<Longrightarrow> bus_ok acts s"
proof (induction rule: bus_run.induct)
  case bus_start
  show ?case by (simp add: bus_ok_def new_event_bus_def)
next
  case (bus_program acts s a)
  then show ?case by (simp add: bus_act_ok)
next
  case (bus_task acts s before e es after)
  then show ?case by (simp add: bus_ok_def)
next
  case (bus_task_ends acts s before after)
  then show ?case by (simp add: bus_ok_def)
qed

text \<open>
  Every event is delivered exactly once: what has been delivered, what waits in a task and what is
  buffered are the emitted events; nothing is buffered outside a buffered section; so when no
  section is open and the tasks are done, the deliveries are a permutation of the emissions.
\<close>

theorem bus_conserves:
  assumes "bus_run acts s"
  shows "mset (eb_delivered s) + mset (concat (eb_tasks s)) + mset (eb_events s) = mset (bus_emitted acts) \<and>
    (bus_depth acts 0 = 0 \<longrightarrow> eb_tasks s = [] \<longrightarrow> mset (eb_delivered s) = mset (bus_emitted acts))"
proof (intro conjI impI)
  show all: "mset (eb_delivered s) + mset (concat (eb_tasks s)) + mset (eb_events s) = mset (bus_emitted acts)"
    using bus_run_ok [OF assms] by (simp add: bus_ok_def)
  show "mset (eb_delivered s) = mset (bus_emitted acts)" if "bus_depth acts 0 = 0" "eb_tasks s = []"
    using bus_run_ok [OF assms] that all by (simp add: bus_ok_def)
qed

text \<open>
  The order is not kept: an event that is emitted right after the end of a buffered section is
  delivered before the events of the section, whose task has not started yet.
\<close>

lemma bus_demo:
  "bus_run [Bus_Buffer, Bus_Emit a, Bus_Flush, Bus_Emit b]
     \<lparr>eb_buffering = False, eb_depth = 0, eb_events = [], eb_tasks = [[a]], eb_delivered = [b]\<rparr>"
proof -
  have "bus_run (((([] @ [Bus_Buffer]) @ [Bus_Emit a]) @ [Bus_Flush]) @ [Bus_Emit b])
      (bus_act (Bus_Emit b) (bus_act Bus_Flush (bus_act (Bus_Emit a) (bus_act Bus_Buffer new_event_bus))))"
    by (intro bus_program bus_start)
  then show ?thesis by (simp add: new_event_bus_def bus_buffer_def bus_emit_def bus_flush_def)
qed

theorem bus_conserves_witness:
  "mset [2 :: nat] + mset (concat [[1]]) + mset [] = mset (bus_emitted [Bus_Buffer, Bus_Emit 1, Bus_Flush, Bus_Emit 2])"
  using conjunct1 [OF bus_conserves [OF bus_demo [of "1 :: nat" 2]]] by simp

lemma bus_overtaken:
  "bus_run [Bus_Buffer, Bus_Emit a, Bus_Flush, Bus_Emit b]
     \<lparr>eb_buffering = False, eb_depth = 0, eb_events = [], eb_tasks = [[]], eb_delivered = [b, a]\<rparr>"
  using bus_task [OF bus_demo, of a b "[]" a "[]" "[]"] by simp

end
