(* ===== verification/Usync.thy ===== *)
theory Usync
  imports Binary_Node
begin

text \<open>
  User queries (\<^verbatim>\<open>wausync/\<close>): the query elements and result parsers of each protocol, the
  query that \<open>execute_usync_query\<close> of \<^verbatim>\<open>socket/socket.py\<close> sends, and the parsing of
  its result. A time is its number of seconds; \<open>datetime.fromtimestamp\<close> rejects years outside
  1 to 9999.
\<close>

section \<open>Users and protocols\<close>

record usync_user =
  uu_id :: "string option"
  uu_lid :: "string option"
  uu_phone :: "string option"
  uu_persona_id :: "string option"

datatype usync_protocol =
  Device_Protocol | Contact_Protocol | Status_Protocol | Disappearing_Mode_Protocol | Bot_Profile_Protocol | Lid_Protocol

fun protocol_name :: "usync_protocol \<Rightarrow> string" where
  "protocol_name Device_Protocol = ''devices''"
| "protocol_name Contact_Protocol = ''contact''"
| "protocol_name Status_Protocol = ''status''"
| "protocol_name Disappearing_Mode_Protocol = ''disappearing_mode''"
| "protocol_name Bot_Profile_Protocol = ''bot''"
| "protocol_name Lid_Protocol = ''lid''"

fun get_query_element :: "usync_protocol \<Rightarrow> node" where
  "get_query_element Device_Protocol = Node ''devices'' [(''version'', AStr ''2'')] CNone"
| "get_query_element Contact_Protocol = Node ''contact'' [] CNone"
| "get_query_element Status_Protocol = Node ''status'' [] CNone"
| "get_query_element Disappearing_Mode_Protocol = Node ''disappearing_mode'' [] CNone"
| "get_query_element Bot_Profile_Protocol = Node ''bot'' [] (CList [Node ''profile'' [(''v'', AStr ''1'')] CNone])"
| "get_query_element Lid_Protocol = Node ''lid'' [] CNone"

definition str_or_empty :: "string option \<Rightarrow> string" where
  "str_or_empty s = (case s of None \<Rightarrow> '''' | Some t \<Rightarrow> t)"

definition str_given :: "string option \<Rightarrow> bool" where
  "str_given s \<longleftrightarrow> str_or_empty s \<noteq> ''''"

fun get_user_element :: "usync_protocol \<Rightarrow> usync_user \<Rightarrow> node option" where
  "get_user_element Device_Protocol u = None"
| "get_user_element Contact_Protocol u = Some (Node ''contact'' [] (CStr (str_or_empty (uu_phone u))))"
| "get_user_element Status_Protocol u = None"
| "get_user_element Disappearing_Mode_Protocol u = None"
| "get_user_element Bot_Profile_Protocol u =
     Some (Node ''bot'' [] (CList [Node ''profile'' [(''persona_id'', AStr (str_or_empty (uu_persona_id u)))] CNone]))"
| "get_user_element Lid_Protocol u =
     (if str_given (uu_lid u) then Some (Node ''lid'' [(''jid'', AStr (str_or_empty (uu_lid u)))] CNone) else None)"

section \<open>Parsers\<close>

record device_list_data =
  dl_id :: int
  dl_key_index :: int
  dl_is_hosted :: bool

record key_index_data =
  ki_timestamp :: int
  ki_signed_key_index :: "bytes option"
  ki_expected_timestamp :: "int option"

record parsed_device_info =
  pd_device_list :: "device_list_data list"
  pd_key_index :: "key_index_data option"

record bot_profile_info =
  bp_jid :: string
  bp_name :: string
  bp_attributes :: string
  bp_description :: string
  bp_category :: string
  bp_is_default :: bool
  bp_prompts :: "string list"
  bp_persona_id :: string
  bp_commands :: "(string \<times> string) list"
  bp_commands_description :: string

datatype usync_value =
    Devices parsed_device_info
  | Contact bool
  | Status "string option" "int option"
  | Disappearing int "int option"
  | Bot bot_profile_info
  | Lid string

text \<open>\<open>int(attrs.get(k, d))\<close>, \<open>attrs.get(k, "")\<close> where a text is required.\<close>

definition attr_int_value :: "attr_value \<Rightarrow> int result" where
  "attr_int_value v = (case v of AStr s \<Rightarrow> py_int s | ANone \<Rightarrow> Inl TypeErr | AInt i \<Rightarrow> Inr i)"

definition attr_int :: "attrs \<Rightarrow> string \<Rightarrow> int result" where
  "attr_int a k = (case map_of a k of None \<Rightarrow> Inr 0 | Some v \<Rightarrow> attr_int_value v)"

definition attr_text :: "attrs \<Rightarrow> string \<Rightarrow> string result" where
  "attr_text a k = (case map_of a k of None \<Rightarrow> Inr '''' | Some v \<Rightarrow>
     (case v of AStr s \<Rightarrow> Inr s | _ \<Rightarrow> Inl (ValueError ''validation'')))"

definition set_at :: "int \<Rightarrow> int option result" where
  "set_at ts =
     (if ts = 0 then Inr None
      else if - 62135596800 \<le> ts \<and> ts \<le> 253402300799 then Inr (Some ts)
      else Inl (ValueError ''year is out of range''))"

fun mapE :: "('a \<Rightarrow> 'b result) \<Rightarrow> 'a list \<Rightarrow> 'b list result" where
  "mapE f [] = Inr []"
| "mapE f (x # xs) = bindE (f x) (\<lambda>y. bindE (mapE f xs) (\<lambda>ys. Inr (y # ys)))"

definition node_children :: "node option \<Rightarrow> node list" where
  "node_children n = (case n of None \<Rightarrow> [] | Some nd \<Rightarrow> get_all_binary_node_children nd)"

definition parse_device :: "node \<Rightarrow> device_list_data result" where
  "parse_device item =
     bindE (attr_int (node_attrs item) ''id'') (\<lambda>i.
     bindE (attr_int (node_attrs item) ''key-index'') (\<lambda>k.
       Inr \<lparr>dl_id = i, dl_key_index = k, dl_is_hosted = (attr_get (node_attrs item) ''is_hosted'' = AStr ''true'')\<rparr>))"

definition parse_key_index :: "node \<Rightarrow> key_index_data result" where
  "parse_key_index n =
     bindE (attr_int (node_attrs n) ''ts'') (\<lambda>ts.
     bindE (case map_of (node_attrs n) ''expected_ts'' of None \<Rightarrow> Inr None
            | Some v \<Rightarrow> bindE (attr_int_value v) (\<lambda>e. Inr (Some e))) (\<lambda>e.
       Inr \<lparr>ki_timestamp = ts, ki_signed_key_index = (case node_content n of CBytes b \<Rightarrow> Some b | _ \<Rightarrow> None),
            ki_expected_timestamp = e\<rparr>))"

definition parse_devices :: "node \<Rightarrow> parsed_device_info result" where
  "parse_devices n =
     (if node_tag n \<noteq> ''devices'' then Inr \<lparr>pd_device_list = [], pd_key_index = None\<rparr>
      else
        bindE (assert_node_error_free n) (\<lambda>_.
        bindE (mapE parse_device (filter (\<lambda>c. node_tag c = ''device'')
                 (node_children (get_binary_node_child (Some n) ''device-list'')))) (\<lambda>ds.
        bindE (case get_binary_node_child (Some n) ''key-index-list'' of
                 None \<Rightarrow> Inr None | Some k \<Rightarrow> bindE (parse_key_index k) (\<lambda>v. Inr (Some v))) (\<lambda>ki.
          Inr \<lparr>pd_device_list = ds, pd_key_index = ki\<rparr>))))"

definition parse_contact :: "node \<Rightarrow> bool result" where
  "parse_contact n =
     (if node_tag n = ''contact''
      then bindE (assert_node_error_free n) (\<lambda>_. Inr (attr_get (node_attrs n) ''type'' = AStr ''in''))
      else Inr False)"

definition parse_status :: "node \<Rightarrow> usync_value option result" where
  "parse_status n =
     (if node_tag n \<noteq> ''status'' then Inr None
      else
        bindE (assert_node_error_free n) (\<lambda>_.
        bindE (case node_content n of
                 CBytes b \<Rightarrow> bindE (utf8_decode b) (\<lambda>s. Inr (Some s))
               | CStr s \<Rightarrow> Inr (Some s)
               | _ \<Rightarrow> Inr None) (\<lambda>raw.
        bindE (attr_int (node_attrs n) ''t'') (\<lambda>ts.
        bindE (set_at ts) (\<lambda>at.
        bindE (if \<not> str_given raw
               then bindE (attr_int (node_attrs n) ''code'') (\<lambda>code. Inr (if code = 401 then Some '''' else None))
               else Inr raw) (\<lambda>status.
          Inr (Some (Status status at))))))))"

definition parse_disappearing_mode :: "node \<Rightarrow> usync_value option result" where
  "parse_disappearing_mode n =
     (if node_tag n \<noteq> ''disappearing_mode'' then Inr None
      else
        bindE (assert_node_error_free n) (\<lambda>_.
        bindE (attr_int (node_attrs n) ''duration'') (\<lambda>duration.
        bindE (attr_int (node_attrs n) ''t'') (\<lambda>ts.
        bindE (set_at ts) (\<lambda>at. Inr (Some (Disappearing duration at)))))))"

definition child_text :: "node option \<Rightarrow> string \<Rightarrow> string result" where
  "child_text n t = bindE (get_binary_node_child_string n t) (\<lambda>s. Inr (str_or_empty s))"

definition parse_prompt :: "node \<Rightarrow> string result" where
  "parse_prompt prompt =
     bindE (child_text (Some prompt) ''emoji'') (\<lambda>emoji.
     bindE (child_text (Some prompt) ''text'') (\<lambda>text. Inr (py_strip (emoji @ '' '' @ text))))"

definition parse_command :: "node \<Rightarrow> (string \<times> string) result" where
  "parse_command command =
     bindE (child_text (Some command) ''name'') (\<lambda>name.
     bindE (child_text (Some command) ''description'') (\<lambda>description. Inr (name, description)))"

text \<open>A commands node without a description leaves a required field without a text.\<close>

definition parse_bot_profile :: "node \<Rightarrow> bot_profile_info result" where
  "parse_bot_profile n =
     (case get_binary_node_child (get_binary_node_child (Some n) ''bot'') ''profile'' of
        None \<Rightarrow> Inl (ValueError ''missing bot/profile node in USync response'')
      | Some profile \<Rightarrow>
          let commands_node = get_binary_node_child (Some profile) ''commands'';
              prompts_node = get_binary_node_child (Some profile) ''prompts''
          in bindE (mapE parse_command (get_binary_node_children commands_node ''command'')) (\<lambda>commands.
             bindE (mapE parse_prompt (get_binary_node_children prompts_node ''prompt'')) (\<lambda>prompts.
             bindE (attr_text (node_attrs n) ''jid'') (\<lambda>jid.
             bindE (child_text (Some profile) ''name'') (\<lambda>name.
             bindE (child_text (Some profile) ''attributes'') (\<lambda>attributes.
             bindE (child_text (Some profile) ''description'') (\<lambda>description.
             bindE (child_text (Some profile) ''category'') (\<lambda>category.
             bindE (attr_text (node_attrs profile) ''persona_id'') (\<lambda>persona_id.
             bindE (if commands_node = None then Inr ''''
                    else bindE (get_binary_node_child_string commands_node ''description'') (\<lambda>d.
                      case d of None \<Rightarrow> Inl (ValueError ''validation'') | Some s \<Rightarrow> Inr s)) (\<lambda>commands_description.
               Inr \<lparr>bp_jid = jid, bp_name = name, bp_attributes = attributes, bp_description = description,
                    bp_category = category, bp_is_default = (get_binary_node_child (Some profile) ''default'' \<noteq> None),
                    bp_prompts = prompts, bp_persona_id = persona_id, bp_commands = commands,
                    bp_commands_description = commands_description\<rparr>))))))))))"

fun parser :: "usync_protocol \<Rightarrow> node \<Rightarrow> usync_value option result" where
  "parser Device_Protocol n = bindE (parse_devices n) (\<lambda>d. Inr (Some (Devices d)))"
| "parser Contact_Protocol n = bindE (parse_contact n) (\<lambda>b. Inr (Some (Contact b)))"
| "parser Status_Protocol n = parse_status n"
| "parser Disappearing_Mode_Protocol n = parse_disappearing_mode n"
| "parser Bot_Profile_Protocol n = bindE (parse_bot_profile n) (\<lambda>b. Inr (Some (Bot b)))"
| "parser Lid_Protocol n =
     (if node_tag n = ''lid'' then
        (case attr_get (node_attrs n) ''val'' of AStr s \<Rightarrow> Inr (Some (Lid s)) | _ \<Rightarrow> Inr None)
      else Inr None)"

section \<open>Queries\<close>

record usync_query =
  uq_protocols :: "usync_protocol list"
  uq_users :: "usync_user list"
  uq_context :: string
  uq_mode :: string

definition new_usync_query :: usync_query where
  "new_usync_query = \<lparr>uq_protocols = [], uq_users = [], uq_context = ''interactive'', uq_mode = ''query''\<rparr>"

definition with_context :: "string \<Rightarrow> usync_query \<Rightarrow> usync_query" where
  "with_context c q = q\<lparr>uq_context := c\<rparr>"

definition with_mode :: "string \<Rightarrow> usync_query \<Rightarrow> usync_query" where
  "with_mode m q = q\<lparr>uq_mode := m\<rparr>"

definition with_user :: "usync_user \<Rightarrow> usync_query \<Rightarrow> usync_query" where
  "with_user u q = q\<lparr>uq_users := uq_users q @ [u]\<rparr>"

definition with_protocol :: "usync_protocol \<Rightarrow> usync_query \<Rightarrow> usync_query" where
  "with_protocol p q = q\<lparr>uq_protocols := uq_protocols q @ [p]\<rparr>"

definition user_node :: "usync_protocol list \<Rightarrow> usync_user \<Rightarrow> node" where
  "user_node protocols u =
     Node ''user'' (if \<not> str_given (uu_phone u) \<and> str_given (uu_id u) then [(''jid'', AStr (str_or_empty (uu_id u)))] else [])
       (CList (List.map_filter (\<lambda>p. get_user_element p u) protocols))"

definition usync_iq :: "string \<Rightarrow> usync_query \<Rightarrow> node result" where
  "usync_iq sid q =
     (if uq_protocols q = [] then Inl (ValueError ''USyncQuery must have at least one protocol'')
      else Inr (Node ''iq'' [(''to'', AStr ''s.whatsapp.net''), (''type'', AStr ''get''), (''xmlns'', AStr ''usync'')]
        (CList [Node ''usync'' [(''context'', AStr (uq_context q)), (''mode'', AStr (uq_mode q)), (''sid'', AStr sid),
                                (''last'', AStr ''true''), (''index'', AStr ''0'')]
          (CList [Node ''query'' [] (CList (map get_query_element (uq_protocols q))),
                  Node ''list'' [] (CList (map (user_node (uq_protocols q)) (uq_users q)))])])))"

section \<open>Results\<close>

type_synonym usync_item = "string \<times> (string, usync_value) dict"

record usync_result =
  ur_list :: "usync_item list"
  ur_side_list :: "usync_item list"

definition protocol_for :: "usync_protocol list \<Rightarrow> string \<Rightarrow> usync_protocol option" where
  "protocol_for protocols tag = find (\<lambda>p. protocol_name p = tag) protocols"

fun parse_contents :: "usync_protocol list \<Rightarrow> node list \<Rightarrow> (string, usync_value) dict \<Rightarrow> (string, usync_value) dict result" where
  "parse_contents protocols [] dat = Inr dat"
| "parse_contents protocols (c # cs) dat =
     (case protocol_for protocols (node_tag c) of
        None \<Rightarrow> parse_contents protocols cs dat
      | Some p \<Rightarrow> bindE (parser p c) (\<lambda>parsed.
          parse_contents protocols cs (case parsed of None \<Rightarrow> dat | Some v \<Rightarrow> dict_set (node_tag c) v dat)))"

fun parse_items :: "usync_protocol list \<Rightarrow> node list \<Rightarrow> usync_item list result" where
  "parse_items protocols [] = Inr []"
| "parse_items protocols (n # ns) =
     (let item_id = attr_get (node_attrs n) ''jid'' in
      if \<not> attr_truthy item_id then parse_items protocols ns
      else
        bindE (parse_contents protocols (get_all_binary_node_children n) []) (\<lambda>dat.
        bindE (case item_id of AStr s \<Rightarrow> Inr s | _ \<Rightarrow> Inl (ValueError ''validation'')) (\<lambda>i.
        bindE (parse_items protocols ns) (\<lambda>items. Inr ((i, dat) # items)))))"

definition parse_usync_query_result :: "usync_protocol list \<Rightarrow> node option \<Rightarrow> usync_result option result" where
  "parse_usync_query_result protocols result =
     (case result of
        None \<Rightarrow> Inr None
      | Some n \<Rightarrow>
          if attr_get (node_attrs n) ''type'' \<noteq> AStr ''result'' then Inr None
          else
            let usync = get_binary_node_child (Some n) ''usync''
            in bindE (parse_items protocols (node_children (get_binary_node_child usync ''list''))) (\<lambda>l.
               bindE (parse_items protocols (node_children (get_binary_node_child usync ''side_list''))) (\<lambda>s.
                 Inr (Some \<lparr>ur_list = l, ur_side_list = s\<rparr>))))"


section \<open>What the server answers is what is read\<close>

text \<open>The answer to a query for devices and LIDs, as the server writes it.\<close>

record device_answer =
  da_jid :: string
  da_devices :: "device_list_data list"
  da_key_index :: "key_index_data option"
  da_lid :: "string option"

definition device_node :: "device_list_data \<Rightarrow> node" where
  "device_node d = Node ''device'' ([(''id'', AStr (int_str (dl_id d))), (''key-index'', AStr (int_str (dl_key_index d)))] @
     (if dl_is_hosted d then [(''is_hosted'', AStr ''true'')] else [])) CNone"

definition key_index_node :: "key_index_data \<Rightarrow> node" where
  "key_index_node k = Node ''key-index-list'' ((''ts'', AStr (int_str (ki_timestamp k))) #
     (case ki_expected_timestamp k of None \<Rightarrow> [] | Some e \<Rightarrow> [(''expected_ts'', AStr (int_str e))]))
     (case ki_signed_key_index k of None \<Rightarrow> CNone | Some b \<Rightarrow> CBytes b)"

definition answer_user :: "device_answer \<Rightarrow> node" where
  "answer_user a = Node ''user'' [(''jid'', AStr (da_jid a))] (CList
     (Node ''devices'' [] (CList (Node ''device-list'' [] (CList (map device_node (da_devices a))) #
        (case da_key_index a of None \<Rightarrow> [] | Some k \<Rightarrow> [key_index_node k]))) #
      (case da_lid a of None \<Rightarrow> [] | Some l \<Rightarrow> [Node ''lid'' [(''val'', AStr l)] CNone])))"

definition answer :: "device_answer list \<Rightarrow> node" where
  "answer as = Node ''iq'' [(''type'', AStr ''result'')]
     (CList [Node ''usync'' [] (CList [Node ''list'' [] (CList (map answer_user as))])])"

definition answer_ok :: "device_answer \<Rightarrow> bool" where
  "answer_ok a \<longleftrightarrow> da_jid a \<noteq> '''' \<and> list_all (\<lambda>d. 0 \<le> dl_id d \<and> 0 \<le> dl_key_index d) (da_devices a) \<and>
     (case da_key_index a of None \<Rightarrow> True | Some k \<Rightarrow> 0 \<le> ki_timestamp k \<and>
        (case ki_expected_timestamp k of None \<Rightarrow> True | Some e \<Rightarrow> 0 \<le> e))"

definition answer_item :: "device_answer \<Rightarrow> usync_item" where
  "answer_item a = (da_jid a,
     (''devices'', Devices \<lparr>pd_device_list = da_devices a, pd_key_index = da_key_index a\<rparr>) #
     (case da_lid a of None \<Rightarrow> [] | Some l \<Rightarrow> [(''lid'', Lid l)]))"

lemmas child_defs = get_binary_node_child_def get_binary_node_children_def get_all_binary_node_children_def node_children_def

lemma parse_device_node: "0 \<le> dl_id d \<Longrightarrow> 0 \<le> dl_key_index d \<Longrightarrow> parse_device (device_node d) = Inr d"
  by (simp add: parse_device_def device_node_def attr_int_def attr_int_value_def attr_get_def py_int_int_str)

lemma parse_device_nodes:
  "list_all (\<lambda>d. 0 \<le> dl_id d \<and> 0 \<le> dl_key_index d) ds \<Longrightarrow> mapE parse_device (map device_node ds) = Inr ds"
  by (induction ds) (simp_all add: parse_device_node)

lemma parse_key_index_node:
  "0 \<le> ki_timestamp k \<Longrightarrow> (case ki_expected_timestamp k of None \<Rightarrow> True | Some e \<Rightarrow> 0 \<le> e) \<Longrightarrow>
   parse_key_index (key_index_node k) = Inr k"
  by (auto simp: parse_key_index_def key_index_node_def attr_int_def attr_int_value_def py_int_int_str split: option.splits)

lemma device_tags [simp]: "filter (\<lambda>c. node_tag c = ''device'') (map device_node ds) = map device_node ds"
  by (induction ds) (simp_all add: device_node_def)

lemma parse_answer_user:
  assumes "answer_ok a"
  shows "parse_contents [Device_Protocol, Lid_Protocol] (get_all_binary_node_children (answer_user a)) [] = Inr (snd (answer_item a))"
proof -
  have k: "node_tag (key_index_node k) = ''key-index-list''" for k by (simp add: key_index_node_def)
  have "parse_devices (Node ''devices'' [] (CList (Node ''device-list'' [] (CList (map device_node (da_devices a))) #
        (case da_key_index a of None \<Rightarrow> [] | Some k \<Rightarrow> [key_index_node k])))) =
      Inr \<lparr>pd_device_list = da_devices a, pd_key_index = da_key_index a\<rparr>"
    using assms by (auto simp: parse_devices_def assert_node_error_free_def child_defs parse_device_nodes k
        parse_key_index_node answer_ok_def split: option.splits)
  then show ?thesis
    by (auto simp: answer_user_def answer_item_def get_all_binary_node_children_def protocol_for_def attr_get_def split: option.splits)
qed

lemma parse_answer_items:
  "list_all answer_ok as \<Longrightarrow> parse_items [Device_Protocol, Lid_Protocol] (map answer_user as) = Inr (map answer_item as)"
proof (induction as)
  case (Cons a as)
  then have "attr_get (node_attrs (answer_user a)) ''jid'' = AStr (da_jid a)" "da_jid a \<noteq> ''''"
    by (simp_all add: answer_user_def attr_get_def answer_ok_def)
  with Cons parse_answer_user [of a] show ?case by (simp add: answer_item_def Let_def)
qed simp

text \<open>
  The devices and LIDs the server lists are what a device query returns, user by user and in
  order, whatever optional parts are there.
\<close>

theorem usync_answer_read:
  assumes "list_all answer_ok as"
  shows "parse_usync_query_result [Device_Protocol, Lid_Protocol] (Some (answer as)) =
    Inr (Some \<lparr>ur_list = map answer_item as, ur_side_list = []\<rparr>)"
  using parse_answer_items [OF assms]
  by (simp add: parse_usync_query_result_def answer_def attr_get_def child_defs)

definition demo_answer :: device_answer where
  "demo_answer = \<lparr>da_jid = ''4915@s.whatsapp.net'',
     da_devices = [\<lparr>dl_id = 0, dl_key_index = 0, dl_is_hosted = False\<rparr>, \<lparr>dl_id = 17, dl_key_index = 3, dl_is_hosted = True\<rparr>],
     da_key_index = Some \<lparr>ki_timestamp = 1700000000, ki_signed_key_index = Some [1, 2], ki_expected_timestamp = None\<rparr>,
     da_lid = Some ''77@lid''\<rparr>"

theorem usync_answer_read_witness:
  "parse_usync_query_result [Device_Protocol, Lid_Protocol] (Some (answer [demo_answer])) =
    Inr (Some \<lparr>ur_list = map answer_item [demo_answer], ur_side_list = []\<rparr>)"
  by (rule usync_answer_read) (simp add: demo_answer_def answer_ok_def)

end
