(* ===== verification/Pairwise_Session.thy ===== *)
theory Pairwise_Session
  imports Lid_Mapping Signal_Address Crypto Binary_Node
begin

text \<open>
  Sessions between two devices: \<open>_SignalStorage\<close>, \<open>_SimpleSessionCipher\<close> and the session
  operations of the repository in \<^verbatim>\<open>signal/libsignal.py\<close>. The one key store of the
  code is kept in parts by key type: the LID mapping, the byte values (sessions and identity keys)
  and the device lists; no operation mixes the types. Random bytes are arguments. The repository
  runs its operations in transactions, which do what their body does (theory \<open>Transaction\<close>).
  A session key is 32 bytes, so the cipher accepts it.
\<close>

record ('l, 's) session_env =
  se_lid_get :: "'l key_get"
  se_lid_put :: "'l key_put"
  se_net :: "(string list \<Rightarrow> (string \<times> string) list) option"
  se_get :: "string \<Rightarrow> string list \<Rightarrow> 's \<Rightarrow> bytes lookup \<times> 's"
  se_put :: "bytes data_set \<Rightarrow> 's \<Rightarrow> 's"
  se_sha256 :: "bytes \<Rightarrow> bytes"
  se_seal :: "bytes \<Rightarrow> bytes \<Rightarrow> bytes \<Rightarrow> bytes \<Rightarrow> bytes \<times> bytes"
  se_unseal :: "bytes \<Rightarrow> bytes \<Rightarrow> bytes \<Rightarrow> bytes \<Rightarrow> bytes \<Rightarrow> bytes result"

record ('l, 's) signal_storage =
  sg_lids :: "'l lid_store"
  sg_keys :: 's
  sg_device_lists :: "string \<Rightarrow> string list option"
  sg_migrated :: "string set"

section \<open>Addresses in the store\<close>

text \<open>\<open>s.partition(c)\<close>, and \<open>s.split(c, 1)\<close> for an \<open>s\<close> that contains \<open>c\<close>.\<close>

definition before_first :: "char \<Rightarrow> string \<Rightarrow> string" where
  "before_first c s = takeWhile (\<lambda>x. x \<noteq> c) s"

definition after_first :: "char \<Rightarrow> string \<Rightarrow> string" where
  "after_first c s = drop (Suc (length (before_first c s))) s"

definition resolve_lid_signal_address ::
    "('l, 's) session_env \<Rightarrow> string \<Rightarrow> ('l, 's) signal_storage \<Rightarrow> string result \<times> ('l, 's) signal_storage" where
  "resolve_lid_signal_address env addr st =
     (if CHR ''.'' \<notin> set addr then (Inr addr, st)
      else
        let user_domain = before_first CHR ''.'' addr; device = after_first CHR ''.'' addr;
            user = before_first CHR ''_'' user_domain; raw = after_first CHR ''_'' user_domain
        in case (if raw = '''' then Inr 0 else py_int raw) of
             Inl e \<Rightarrow> (Inl e, st)
           | Inr domain_type \<Rightarrow>
               if domain_type \<in> {domain_int LID, domain_int HOSTED_LID} then (Inr addr, st)
               else
                 let pn = user @ (if device = ''0'' then '''' else CHR '':'' # device) @ ''@'' @
                          (if domain_type = domain_int HOSTED then ''hosted'' else ''s.whatsapp.net'')
                 in case get_lid_for_pn (se_lid_get env) (se_lid_put env) (se_net env) pn (sg_lids st) of
                      (Inl e, l) \<Rightarrow> (Inl e, st\<lparr>sg_lids := l\<rparr>)
                    | (Inr None, l) \<Rightarrow> (Inr addr, st\<lparr>sg_lids := l\<rparr>)
                    | (Inr (Some lid), l) \<Rightarrow>
                        (if lid = '''' then Inr addr
                         else bindE (jid_to_signal_protocol_address lid) (\<lambda>a. Inr (address_str a)), st\<lparr>sg_lids := l\<rparr>))"

definition bytes_get ::
    "('l, 's) session_env \<Rightarrow> string \<Rightarrow> string list \<Rightarrow> ('l, 's) signal_storage \<Rightarrow> bytes lookup \<times> ('l, 's) signal_storage" where
  "bytes_get env key_type ids st = (let (r, s) = se_get env key_type ids (sg_keys st) in (r, st\<lparr>sg_keys := s\<rparr>))"

definition load_bytes ::
    "('l, 's) session_env \<Rightarrow> string \<Rightarrow> string \<Rightarrow> ('l, 's) signal_storage \<Rightarrow> bytes option result \<times> ('l, 's) signal_storage" where
  "load_bytes env key_type addr st = (case resolve_lid_signal_address env addr st of
       (Inl e, st) \<Rightarrow> (Inl e, st)
     | (Inr wire, st) \<Rightarrow> let (stored, st) = bytes_get env key_type [wire] st in (Inr (stored wire), st))"

definition load_session_bytes ::
    "('l, 's) session_env \<Rightarrow> string \<Rightarrow> ('l, 's) signal_storage \<Rightarrow> bytes option result \<times> ('l, 's) signal_storage" where
  "load_session_bytes env = load_bytes env ''session''"

definition load_identity_key ::
    "('l, 's) session_env \<Rightarrow> string \<Rightarrow> ('l, 's) signal_storage \<Rightarrow> bytes option result \<times> ('l, 's) signal_storage" where
  "load_identity_key env = load_bytes env ''identity-key''"

definition bytes_put :: "('l, 's) session_env \<Rightarrow> bytes data_set \<Rightarrow> ('l, 's) signal_storage \<Rightarrow> ('l, 's) signal_storage" where
  "bytes_put env data st = st\<lparr>sg_keys := se_put env data (sg_keys st)\<rparr>"

definition store_session_bytes ::
    "('l, 's) session_env \<Rightarrow> string \<Rightarrow> bytes option \<Rightarrow> ('l, 's) signal_storage \<Rightarrow> unit result \<times> ('l, 's) signal_storage" where
  "store_session_bytes env addr data st = (case resolve_lid_signal_address env addr st of
       (Inl e, st) \<Rightarrow> (Inl e, st)
     | (Inr wire, st) \<Rightarrow> (Inr (), bytes_put env [(''session'', [(wire, data)])] st))"

definition save_identity ::
    "('l, 's) session_env \<Rightarrow> string \<Rightarrow> bytes \<Rightarrow> ('l, 's) signal_storage \<Rightarrow> bool result \<times> ('l, 's) signal_storage" where
  "save_identity env addr identity_key st = (case resolve_lid_signal_address env addr st of
       (Inl e, st) \<Rightarrow> (Inl e, st)
     | (Inr wire, st) \<Rightarrow>
         let (stored, st) = bytes_get env ''identity-key'' [wire] st;
             existing = (case stored wire of None \<Rightarrow> [] | Some b \<Rightarrow> b)
         in if existing \<noteq> [] \<and> existing \<noteq> identity_key
            then (Inr True, bytes_put env [(''session'', [(wire, None)]), (''identity-key'', [(wire, Some identity_key)])] st)
            else if existing = []
            then (Inr True, bytes_put env [(''identity-key'', [(wire, Some identity_key)])] st)
            else (Inr False, st))"

section \<open>The session cipher\<close>

definition get_or_create_session_key ::
    "('l, 's) session_env \<Rightarrow> bytes \<Rightarrow> string \<Rightarrow> ('l, 's) signal_storage \<Rightarrow> bytes result \<times> ('l, 's) signal_storage" where
  "get_or_create_session_key env rnd addr st = (case load_session_bytes env addr st of
       (Inl e, st) \<Rightarrow> (Inl e, st)
     | (Inr existing, st) \<Rightarrow>
         (case existing of
            Some (b # bs) \<Rightarrow> (Inr (b # bs), st)
          | _ \<Rightarrow>
              let fresh = se_sha256 env (utf8_encode (addr @ CHR '':'' # bytes_hex rnd))
              in (case store_session_bytes env addr (Some fresh) st of
                    (Inl e, st) \<Rightarrow> (Inl e, st)
                  | (Inr _, st) \<Rightarrow> (Inr fresh, st))))"

text \<open>The type of the message, 3 for the first one of a session and 1 afterwards, and its body.\<close>

definition session_encrypt ::
    "('l, 's) session_env \<Rightarrow> bytes \<Rightarrow> bytes \<Rightarrow> string \<Rightarrow> bytes \<Rightarrow> ('l, 's) signal_storage \<Rightarrow>
     (int \<times> bytes) result \<times> ('l, 's) signal_storage" where
  "session_encrypt env rnd iv addr data st = (case load_session_bytes env addr st of
       (Inl e, st) \<Rightarrow> (Inl e, st)
     | (Inr existing, st) \<Rightarrow>
         (case get_or_create_session_key env rnd addr st of
            (Inl e, st) \<Rightarrow> (Inl e, st)
          | (Inr key, st) \<Rightarrow>
              (Inr (if existing = None then 3 else 1, iv @ aes_encrypt_gcm (se_seal env) data key iv []), st)))"

definition decrypt_pre_key_whisper_message ::
    "('l, 's) session_env \<Rightarrow> bytes \<Rightarrow> string \<Rightarrow> bytes \<Rightarrow> ('l, 's) signal_storage \<Rightarrow> bytes result \<times> ('l, 's) signal_storage" where
  "decrypt_pre_key_whisper_message env rnd addr ciphertext st = (case get_or_create_session_key env rnd addr st of
       (Inl e, st) \<Rightarrow> (Inl e, st)
     | (Inr key, st) \<Rightarrow> (aes_decrypt_gcm (se_unseal env) (drop 12 ciphertext) key (take 12 ciphertext) [], st))"

definition decrypt_whisper_message ::
    "('l, 's) session_env \<Rightarrow> string \<Rightarrow> bytes \<Rightarrow> ('l, 's) signal_storage \<Rightarrow> bytes result \<times> ('l, 's) signal_storage" where
  "decrypt_whisper_message env addr ciphertext st = (case load_session_bytes env addr st of
       (Inl e, st) \<Rightarrow> (Inl e, st)
     | (Inr key, st) \<Rightarrow>
         (case key of
            Some (b # bs) \<Rightarrow> (aes_decrypt_gcm (se_unseal env) (drop 12 ciphertext) (b # bs) (take 12 ciphertext) [], st)
          | _ \<Rightarrow> (Inl (ValueError ''no session''), st)))"

section \<open>The repository\<close>

definition address_of :: "string \<Rightarrow> string result" where
  "address_of jid = bindE (jid_to_signal_protocol_address jid) (\<lambda>a. Inr (address_str a))"

definition encrypt_message ::
    "('l, 's) session_env \<Rightarrow> bytes \<Rightarrow> bytes \<Rightarrow> string \<Rightarrow> bytes \<Rightarrow> ('l, 's) signal_storage \<Rightarrow>
     (string \<times> bytes) result \<times> ('l, 's) signal_storage" where
  "encrypt_message env rnd iv jid data st = (case address_of jid of
       Inl e \<Rightarrow> (Inl e, st)
     | Inr addr \<Rightarrow>
         (case session_encrypt env rnd iv addr data st of
            (Inl e, st) \<Rightarrow> (Inl e, st)
          | (Inr (kind, body), st) \<Rightarrow> (Inr (if kind = 3 then ''pkmsg'' else ''msg'', body), st)))"

definition decrypt_message ::
    "('l, 's) session_env \<Rightarrow> bytes \<Rightarrow> string \<Rightarrow> string \<Rightarrow> bytes \<Rightarrow> ('l, 's) signal_storage \<Rightarrow>
     bytes result \<times> ('l, 's) signal_storage" where
  "decrypt_message env rnd jid mode ciphertext st = (case address_of jid of
       Inl e \<Rightarrow> (Inl e, st)
     | Inr addr \<Rightarrow> if mode = ''pkmsg'' then decrypt_pre_key_whisper_message env rnd addr ciphertext st
                  else decrypt_whisper_message env addr ciphertext st)"

text \<open>The keys of a bundle, as far as the session depends on them.\<close>

record key_bundle =
  kb_identity :: bytes
  kb_signed_pre_key :: bytes
  kb_pre_key :: bytes

definition bundle_material :: "key_bundle \<Rightarrow> bytes" where
  "bundle_material b = kb_identity b @ kb_signed_pre_key b @ kb_pre_key b"

definition inject_e2e_session ::
    "('l, 's) session_env \<Rightarrow> bytes \<Rightarrow> string \<Rightarrow> key_bundle \<Rightarrow> ('l, 's) signal_storage \<Rightarrow> unit result \<times> ('l, 's) signal_storage" where
  "inject_e2e_session env rnd jid bundle st =
     (let material = (if bundle_material bundle = [] then rnd else bundle_material bundle);
          key = se_sha256 env material
      in case address_of jid of Inl e \<Rightarrow> (Inl e, st) | Inr addr \<Rightarrow> store_session_bytes env addr (Some key) st)"

definition validate_session ::
    "('l, 's) session_env \<Rightarrow> string \<Rightarrow> ('l, 's) signal_storage \<Rightarrow> bool \<times> ('l, 's) signal_storage" where
  "validate_session env jid st = (case address_of jid of
       Inl e \<Rightarrow> (False, st)
     | Inr addr \<Rightarrow> (case load_session_bytes env addr st of
         (Inl e, st) \<Rightarrow> (False, st)
       | (Inr session, st) \<Rightarrow> (case session of Some (_ # _) \<Rightarrow> True | _ \<Rightarrow> False, st)))"

fun addresses_of :: "string list \<Rightarrow> string list result" where
  "addresses_of [] = Inr []"
| "addresses_of (j # js) = bindE (address_of j) (\<lambda>a. bindE (addresses_of js) (\<lambda>as. Inr (a # as)))"

definition delete_session ::
    "('l, 's) session_env \<Rightarrow> string list \<Rightarrow> ('l, 's) signal_storage \<Rightarrow> unit result \<times> ('l, 's) signal_storage" where
  "delete_session env jids st =
     (if jids = [] then (Inr (), st)
      else case addresses_of jids of
        Inl e \<Rightarrow> (Inl e, st)
      | Inr addrs \<Rightarrow> (Inr (), bytes_put env [(''session'', foldl (\<lambda>d a. dict_set a None d) [] addrs)] st))"

text \<open>
  \<open>migrate_session\<close> looks for sessions of every listed device under \<open>user.device\<close>, names the device
  of each it finds, and moves what is stored under its address to the address of the same device
  of the LID. It counts what was migrated, skipped and seen.
\<close>

definition session_jid :: "string \<Rightarrow> int \<Rightarrow> string" where
  "session_jid user device_num =
     (if device_num = 0 then user @ ''@s.whatsapp.net''
      else if device_num = 99 then user @ '':99@hosted''
      else user @ '':'' @ int_str device_num @ ''@s.whatsapp.net'')"

fun session_jids :: "string \<Rightarrow> string list \<Rightarrow> bytes lookup \<Rightarrow> string list result" where
  "session_jids user [] sessions = Inr []"
| "session_jids user (key # keys) sessions =
     (case sessions key of
        Some (b # bs) \<Rightarrow> bindE (py_int (after_first CHR ''.'' key)) (\<lambda>n.
          bindE (session_jids user keys sessions) (\<lambda>js. Inr (session_jid user n # js)))
      | _ \<Rightarrow> session_jids user keys sessions)"

text \<open>One operation: the address a session comes from, the one it goes to, and the device's name.\<close>

definition migration_op :: "string \<Rightarrow> string \<Rightarrow> (string \<times> string \<times> string) result" where
  "migration_op to_jid jid =
     bindE (jid_decode (Some jid)) (\<lambda>decoded.
     bindE (address_of jid) (\<lambda>from_addr.
     bindE (transfer_device jid to_jid) (\<lambda>to_lid.
     bindE (address_of to_lid) (\<lambda>to_addr.
       let pn_user = (case decoded of None \<Rightarrow> '''' | Some d \<Rightarrow> jid_user d);
           device_id = (case decoded of None \<Rightarrow> 0 | Some d \<Rightarrow> (case jid_device d of None \<Rightarrow> 0 | Some n \<Rightarrow> n))
       in Inr (from_addr, to_addr, pn_user @ CHR ''.'' # int_str device_id)))))"

fun migration_ops :: "string \<Rightarrow> string list \<Rightarrow> (string \<times> string \<times> string) list result" where
  "migration_ops to_jid [] = Inr []"
| "migration_ops to_jid (j # js) =
     bindE (migration_op to_jid j) (\<lambda>p. bindE (migration_ops to_jid js) (\<lambda>ps. Inr (p # ps)))"

fun migrate_all ::
    "(string \<times> string \<times> string) list \<Rightarrow> bytes lookup \<Rightarrow> (string, bytes option) dict \<times> nat \<times> string set \<Rightarrow>
     (string, bytes option) dict \<times> nat \<times> string set" where
  "migrate_all [] pn_sessions acc = acc"
| "migrate_all ((from_addr, to_addr, device_key) # ops) pn_sessions (updates, migrated, cache) =
     (if device_key \<in> cache then migrate_all ops pn_sessions (updates, migrated, cache)
      else case pn_sessions from_addr of
          Some (b # bs) \<Rightarrow> migrate_all ops pn_sessions
            (dict_set from_addr None (dict_set to_addr (Some (b # bs)) updates), migrated + 1, insert device_key cache)
        | _ \<Rightarrow> migrate_all ops pn_sessions (updates, migrated, cache))"

record migration_result =
  mr_migrated :: nat
  mr_skipped :: nat
  mr_total :: nat

definition migrate_session ::
    "('l, 's) session_env \<Rightarrow> string \<Rightarrow> string \<Rightarrow> ('l, 's) signal_storage \<Rightarrow>
     migration_result result \<times> ('l, 's) signal_storage" where
  "migrate_session env from_jid to_jid st =
     (if from_jid = '''' \<or> \<not> (is_lid_user (Some to_jid) \<or> is_hosted_lid_user (Some to_jid))
      then (Inr \<lparr>mr_migrated = 0, mr_skipped = 0, mr_total = 0\<rparr>, st)
      else if \<not> (is_pn_user (Some from_jid) \<or> is_hosted_pn_user (Some from_jid))
      then (Inr \<lparr>mr_migrated = 0, mr_skipped = 0, mr_total = 1\<rparr>, st)
      else case jid_decode (Some from_jid) of
        Inl e \<Rightarrow> (Inl e, st)
      | Inr decoded_from \<Rightarrow>
          let user = (case decoded_from of None \<Rightarrow> '''' | Some d \<Rightarrow> jid_user d);
              from_device = int_str (case decoded_from of None \<Rightarrow> 0 | Some d \<Rightarrow> (case jid_device d of None \<Rightarrow> 0 | Some n \<Rightarrow> n))
          in if user = '''' then (Inr \<lparr>mr_migrated = 0, mr_skipped = 0, mr_total = 0\<rparr>, st)
             else
               let stored = (case sg_device_lists st user of None \<Rightarrow> [] | Some l \<Rightarrow> l);
                   user_devices = (if from_device \<in> set stored then stored else stored @ [from_device]);
                   ids = map (\<lambda>device. user @ CHR ''.'' # device) user_devices;
                   (existing, st) = bytes_get env ''session'' ids st
               in case bindE (session_jids user (rev (remdups (rev ids))) existing) (migration_ops to_jid) of
                    Inl e \<Rightarrow> (Inl e, st)
                  | Inr ops \<Rightarrow>
                      let (pn_sessions, st) = bytes_get env ''session'' (map fst ops) st;
                          (updates, migrated, cache) = migrate_all ops pn_sessions ([], 0, sg_migrated st);
                          st = st\<lparr>sg_migrated := cache\<rparr>;
                          st = (if updates = [] then st else bytes_put env [(''session'', updates)] st)
                      in (Inr \<lparr>mr_migrated = migrated, mr_skipped = length ops - migrated, mr_total = length ops\<rparr>, st))"

section \<open>Sessions with LIDs\<close>

text \<open>The part of the stores that the session operations rely on.\<close>

locale session_stores =
  lids: lid_key_store lok lcontents linv "se_lid_get env" "se_lid_put env" +
  keys: signal_key_store kok kcontents kinv "se_get env" "se_put env"
  for env :: "('l, 's) session_env" and lok lcontents linv kok kcontents kinv +
  assumes session_ok: "kok ''session''"
begin

definition session_at :: "('l, 's) signal_storage \<Rightarrow> string \<Rightarrow> bytes option" where
  "session_at st addr = kcontents (sg_keys st) ''session'' addr"

end

definition plain_lid :: "string \<Rightarrow> int \<Rightarrow> bool" where
  "plain_lid u d \<longleftrightarrow> good_user u \<and> CHR ''.'' \<notin> set u \<and> 0 \<le> d \<and> d \<noteq> 99"

definition lid_address :: "string \<Rightarrow> int \<Rightarrow> string" where
  "lid_address u d = u @ ''_1.'' @ int_str d"

definition pn_address :: "string \<Rightarrow> int \<Rightarrow> string" where
  "pn_address u d = u @ CHR ''.'' # int_str d"

lemma before_after_first:
  "c \<notin> set u \<Longrightarrow> before_first c (u @ c # r) = u" "c \<notin> set u \<Longrightarrow> after_first c (u @ c # r) = r"
  "c \<notin> set u \<Longrightarrow> before_first c u = u" "c \<notin> set u \<Longrightarrow> after_first c u = []"
proof -
  show 1: "c \<notin> set u \<Longrightarrow> before_first c (u @ c # r) = u"
    unfolding before_first_def by (subst takeWhile_append2) auto
  then show "c \<notin> set u \<Longrightarrow> after_first c (u @ c # r) = r" by (simp add: after_first_def)
  show 2: "c \<notin> set u \<Longrightarrow> before_first c u = u" unfolding before_first_def by (subst takeWhile_eq_all_conv) auto
  then show "c \<notin> set u \<Longrightarrow> after_first c u = []" by (simp add: after_first_def)
qed

lemma int_str_one: "int_str 1 = ''1''"
  by code_simp

lemma address_of_lid: "plain_lid u d \<Longrightarrow> address_of (lid_jid u d) = Inr (lid_address u d)"
  by (simp add: address_of_def jid_to_signal_protocol_address_def decode_jids(1) plain_lid_def good_user_def
      lid_address_def address_str_def int_str_one)

lemma address_of_pn: "plain_lid u d \<Longrightarrow> address_of (pn_jid u d) = Inr (pn_address u d)"
  by (simp add: address_of_def jid_to_signal_protocol_address_def decode_jids(2) plain_lid_def good_user_def
      pn_address_def address_str_def)

lemma resolve_lid_address:
  assumes "plain_lid u d"
  shows "resolve_lid_signal_address env (lid_address u d) st = (Inr (lid_address u d), st)"
proof -
  have c: "CHR ''_'' \<notin> set u" "CHR ''.'' \<notin> set u" using assms by (simp_all add: plain_lid_def good_user_def clean_user_def)
  have "lid_address u d = (u @ ''_1'') @ CHR ''.'' # int_str d" by (simp add: lid_address_def)
  with c before_after_first(1,2) [of "CHR ''.''" "u @ ''_1''" "int_str d"]
  have b: "before_first CHR ''.'' (lid_address u d) = u @ ''_1''" "after_first CHR ''.'' (lid_address u d) = int_str d"
    "CHR ''.'' \<in> set (lid_address u d)" by simp_all
  have a: "after_first CHR ''_'' (u @ ''_1'') = ''1''"
    using before_after_first(2) [OF c(1), of "''1''"] by simp
  have "py_int ''1'' = Inr 1" by code_simp
  then show ?thesis by (simp add: resolve_lid_signal_address_def b a)
qed

context session_stores
begin

lemma bytes_get_session:
  assumes "kinv (sg_keys st)"
  obtains st' where "bytes_get env ''session'' [a] st = (fst (se_get env ''session'' [a] (sg_keys st)), st')"
    and "fst (se_get env ''session'' [a] (sg_keys st)) a = session_at st a"
    and "kinv (sg_keys st')" and "session_at st' = session_at st" and "sg_lids st' = sg_lids st"
  using keys.get_value [OF assms session_ok, of a "[a]"] keys.get_inv [OF assms session_ok, of "[a]"]
    keys.get_contents [OF assms session_ok, of "[a]"]
  by (intro that [of "st\<lparr>sg_keys := snd (se_get env ''session'' [a] (sg_keys st))\<rparr>"])
    (simp_all add: bytes_get_def split_beta session_at_def fun_eq_iff)

lemma load_lid_session:
  assumes "plain_lid u d" and "kinv (sg_keys st)"
  obtains st' where "load_session_bytes env (lid_address u d) st = (Inr (session_at st (lid_address u d)), st')"
    and "kinv (sg_keys st')" and "session_at st' = session_at st" and "sg_lids st' = sg_lids st"
proof -
  obtain st' where "bytes_get env ''session'' [lid_address u d] st =
      (fst (se_get env ''session'' [lid_address u d] (sg_keys st)), st')"
    "fst (se_get env ''session'' [lid_address u d] (sg_keys st)) (lid_address u d) = session_at st (lid_address u d)"
    "kinv (sg_keys st')" "session_at st' = session_at st" "sg_lids st' = sg_lids st"
    using bytes_get_session [OF assms(2)] by metis
  then show thesis
    by (intro that [of st']) (simp_all add: load_session_bytes_def load_bytes_def resolve_lid_address [OF assms(1)])
qed

lemma put_session:
  assumes "kinv (sg_keys st)"
  shows "kinv (sg_keys (bytes_put env [(''session'', [(a, v)])] st))"
    and "session_at (bytes_put env [(''session'', [(a, v)])] st) = (session_at st)(a := v)"
    and "sg_lids (bytes_put env [(''session'', [(a, v)])] st) = sg_lids st"
proof -
  have t: "types_ok kok [(''session'', [(a, v)])]" by (simp add: session_ok)
  from keys.put_inv [OF assms t] keys.put_contents [OF assms t]
  show "kinv (sg_keys (bytes_put env [(''session'', [(a, v)])] st))"
    "session_at (bytes_put env [(''session'', [(a, v)])] st) = (session_at st)(a := v)"
    by (simp_all add: bytes_put_def session_at_def fun_eq_iff)
  show "sg_lids (bytes_put env [(''session'', [(a, v)])] st) = sg_lids st" by (simp add: bytes_put_def)
qed

text \<open>With a session, encrypting uses its key and says so.\<close>

lemma encrypt_with_session:
  assumes "plain_lid u d" and "kinv (sg_keys st)" and "session_at st (lid_address u d) = Some k" and "k \<noteq> []"
  shows "fst (encrypt_message env rnd iv (lid_jid u d) p st) = Inr (''msg'', iv @ aes_encrypt_gcm (se_seal env) p k iv [])"
proof -
  obtain st1 where l1: "load_session_bytes env (lid_address u d) st = (Inr (Some k), st1)"
    "kinv (sg_keys st1)" "session_at st1 = session_at st"
    using load_lid_session [OF assms(1,2)] assms(3) by metis
  obtain st2 where l2: "load_session_bytes env (lid_address u d) st1 = (Inr (Some k), st2)"
    using load_lid_session [OF assms(1) l1(2)] l1(3) assms(3) by metis
  obtain b bs where k: "k = b # bs" using assms(4) by (cases k) auto
  show ?thesis
    by (simp add: encrypt_message_def address_of_lid [OF assms(1)] session_encrypt_def get_or_create_session_key_def l1(1) l2 k)
qed

lemma decrypt_with_session:
  assumes "plain_lid u d" and "kinv (sg_keys st)" and "session_at st (lid_address u d) = Some k" and "k \<noteq> []"
  shows "fst (decrypt_message env rnd (lid_jid u d) ''msg'' c st) = aes_decrypt_gcm (se_unseal env) (drop 12 c) k (take 12 c) []"
proof -
  obtain st1 where l1: "load_session_bytes env (lid_address u d) st = (Inr (Some k), st1)"
    using load_lid_session [OF assms(1,2)] assms(3) by metis
  obtain b bs where k: "k = b # bs" using assms(4) by (cases k) auto
  show ?thesis
    by (simp add: decrypt_message_def address_of_lid [OF assms(1)] decrypt_whisper_message_def l1 k)
qed

lemma decrypt_without_session:
  assumes "plain_lid u d" and "kinv (sg_keys st)" and "session_at st (lid_address u d) = None"
  shows "fst (decrypt_message env rnd (lid_jid u d) ''msg'' c st) = Inl (ValueError ''no session'')"
proof -
  obtain st1 where l1: "load_session_bytes env (lid_address u d) st = (Inr None, st1)"
    using load_lid_session [OF assms(1,2)] assms(3) by metis
  show ?thesis
    by (simp add: decrypt_message_def address_of_lid [OF assms(1)] decrypt_whisper_message_def l1)
qed

lemma inject_sets_session:
  assumes "plain_lid u d" and "kinv (sg_keys st)" and "bundle_material b \<noteq> []"
  shows "fst (inject_e2e_session env rnd (lid_jid u d) b st) = Inr ()"
    and "kinv (sg_keys (snd (inject_e2e_session env rnd (lid_jid u d) b st)))"
    and "session_at (snd (inject_e2e_session env rnd (lid_jid u d) b st)) =
      (session_at st)(lid_address u d \<mapsto> se_sha256 env (bundle_material b))"
  using put_session [OF assms(2), of "lid_address u d" "Some (se_sha256 env (bundle_material b))"] assms(3)
  by (simp_all add: inject_e2e_session_def address_of_lid [OF assms(1)] store_session_bytes_def
      resolve_lid_address [OF assms(1)])

end


section \<open>Numbers whose LID is known\<close>

definition plain_pair :: "string \<Rightarrow> string \<Rightarrow> int \<Rightarrow> bool" where
  "plain_pair pu lu d \<longleftrightarrow> plain_lid pu d \<and> plain_lid lu d"

lemma int_str_zero_iff: "int_str d = ''0'' \<longleftrightarrow> d = 0"
proof -
  have "int_str 0 = ''0''" by code_simp
  then show ?thesis using int_str_inj [of d 0] by simp
qed

lemma split_pn_address:
  assumes "plain_lid u d"
  shows "before_first CHR ''.'' (pn_address u d) = u" "after_first CHR ''.'' (pn_address u d) = int_str d"
    "CHR ''.'' \<in> set (pn_address u d)" "before_first CHR ''_'' u = u" "after_first CHR ''_'' u = ''''"
  using assms before_after_first(1,2) [of "CHR ''.''" u "int_str d"] before_after_first(3,4) [of "CHR ''_''" u]
  by (simp_all add: pn_address_def plain_lid_def good_user_def clean_user_def)

context session_stores
begin

lemma resolve_mapped_number:
  assumes "lids.maps_pn (sg_lids st) pu lu" and "0 < lm_ttl (sg_lids st)" and "plain_pair pu lu d"
  obtains l where "resolve_lid_signal_address env (pn_address pu d) st = (Inr (lid_address lu d), st\<lparr>sg_lids := l\<rparr>)"
proof -
  have p: "plain_lid pu d" "plain_lid lu d" using assms(3) by (simp_all add: plain_pair_def)
  have pn: "pu @ (if int_str d = ''0'' then '''' else CHR '':'' # int_str d) @ ''@s.whatsapp.net'' = pn_jid pu d"
    by (simp add: pn_jid_def device_suffix_def int_str_zero_iff)
  obtain l where "get_lid_for_pn (se_lid_get env) (se_lid_put env) (se_net env) (pn_jid pu d) (sg_lids st) = (Inr (Some (lid_jid lu d)), l)"
    using lids.lookup_mapped_pn [OF assms(1) _ _ _ assms(2), where d = d and net = "se_net env"] p
    by (metis plain_lid_def prod.collapse)
  moreover have "lid_jid lu d \<noteq> ''''" by (simp add: lid_jid_def)
  moreover have "bindE (jid_to_signal_protocol_address (lid_jid lu d)) (\<lambda>a. Inr (address_str a)) = Inr (lid_address lu d)"
    using address_of_lid [OF p(2)] by (simp add: address_of_def)
  ultimately show thesis
    using split_pn_address [OF p(1)] pn
    by (intro that [of l]) (simp add: resolve_lid_signal_address_def Let_def)
qed

lemma load_mapped_number:
  assumes "lids.maps_pn (sg_lids st) pu lu" and "0 < lm_ttl (sg_lids st)" and "plain_pair pu lu d" and "kinv (sg_keys st)"
  shows "fst (load_session_bytes env (pn_address pu d) st) = Inr (session_at st (lid_address lu d))"
proof -
  obtain l where r: "resolve_lid_signal_address env (pn_address pu d) st = (Inr (lid_address lu d), st\<lparr>sg_lids := l\<rparr>)"
    using resolve_mapped_number [OF assms(1-3)] .
  have "kinv (sg_keys (st\<lparr>sg_lids := l\<rparr>))" using assms(4) by simp
  then obtain st' where "bytes_get env ''session'' [lid_address lu d] (st\<lparr>sg_lids := l\<rparr>) =
      (fst (se_get env ''session'' [lid_address lu d] (sg_keys (st\<lparr>sg_lids := l\<rparr>))), st')"
    "fst (se_get env ''session'' [lid_address lu d] (sg_keys (st\<lparr>sg_lids := l\<rparr>))) (lid_address lu d) =
      session_at (st\<lparr>sg_lids := l\<rparr>) (lid_address lu d)"
    using bytes_get_session by metis
  then show ?thesis by (simp add: load_session_bytes_def load_bytes_def r session_at_def)
qed

lemma store_mapped_number:
  assumes "lids.maps_pn (sg_lids st) pu lu" and "0 < lm_ttl (sg_lids st)" and "plain_pair pu lu d" and "kinv (sg_keys st)"
  shows "session_at (snd (store_session_bytes env (pn_address pu d) v st)) = (session_at st)(lid_address lu d := v)"
proof -
  obtain l where r: "resolve_lid_signal_address env (pn_address pu d) st = (Inr (lid_address lu d), st\<lparr>sg_lids := l\<rparr>)"
    using resolve_mapped_number [OF assms(1-3)] .
  have "session_at (bytes_put env [(''session'', [(lid_address lu d, v)])] (st\<lparr>sg_lids := l\<rparr>)) =
      (session_at (st\<lparr>sg_lids := l\<rparr>))(lid_address lu d := v)"
    by (rule put_session(2)) (simp add: assms(4))
  moreover have "session_at (st\<lparr>sg_lids := l\<rparr>) = session_at st" by (simp add: session_at_def fun_eq_iff)
  ultimately show ?thesis by (simp add: store_session_bytes_def r)
qed

lemma delete_number:
  assumes "plain_pair pu lu d" and "kinv (sg_keys st)"
  shows "session_at (snd (delete_session env [pn_jid pu d] st)) = (session_at st)(pn_address pu d := None)"
    and "kinv (sg_keys (snd (delete_session env [pn_jid pu d] st)))"
    and "sg_lids (snd (delete_session env [pn_jid pu d] st)) = sg_lids st"
  using put_session [OF assms(2), of "pn_address pu d" None] assms(1)
  by (simp_all add: delete_session_def address_of_pn plain_pair_def)

end

section \<open>Migration\<close>

lemma map_of_apply_values:
  "dict_wf vs \<Longrightarrow> apply_values t vs s t i = (case map_of vs i of None \<Rightarrow> s t i | Some v \<Rightarrow> v)"
  unfolding dict_wf_def
proof (induction vs arbitrary: s)
  case (Cons p vs)
  obtain j v where p: "p = (j, v)" by (cases p)
  with Cons have "map_of vs j = None" by (simp add: map_of_eq_None_iff)
  with Cons p show ?case by (auto split: option.splits)
qed simp

definition move_op :: "string \<Rightarrow> string \<Rightarrow> int \<Rightarrow> string \<times> string \<times> string" where
  "move_op pu lu d = (pn_address pu d, lid_address lu d, pn_address pu d)"

lemma address_inj [simp]:
  assumes "plain_lid u d"
  shows "pn_address u d = pn_address u e \<longleftrightarrow> d = e" "lid_address v d = lid_address v e \<longleftrightarrow> d = e"
    "pn_address u d \<noteq> lid_address v e"
proof -
  show "pn_address u d = pn_address u e \<longleftrightarrow> d = e" "lid_address v d = lid_address v e \<longleftrightarrow> d = e"
    by (simp_all add: pn_address_def lid_address_def int_str_inj)
  have "CHR ''_'' \<notin> set (pn_address u d)"
    using assms by (simp add: pn_address_def plain_lid_def good_user_def clean_user_def)
  moreover have "CHR ''_'' \<in> set (lid_address v e)" by (simp add: lid_address_def)
  ultimately show "pn_address u d \<noteq> lid_address v e" by metis
qed

text \<open>What is collected for a list of devices that all have a session.\<close>

lemma migrate_all_moves:
  assumes "distinct ds" and "\<And>d. d \<in> set ds \<Longrightarrow> plain_pair pu lu d \<and> (\<exists>b bs. f (pn_address pu d) = Some (b # bs)) \<and> pn_address pu d \<notin> cache"
  shows "\<exists>updates cache'. migrate_all (map (move_op pu lu) ds) f (u0, n, cache) = (updates, n + length ds, cache') \<and>
    (dict_wf u0 \<longrightarrow> dict_wf updates) \<and>
    (\<forall>d\<in>set ds. map_of updates (pn_address pu d) = Some None \<and> map_of updates (lid_address lu d) = Some (f (pn_address pu d))) \<and>
    (\<forall>a. a \<notin> pn_address pu ` set ds \<longrightarrow> a \<notin> lid_address lu ` set ds \<longrightarrow> map_of updates a = map_of u0 a)"
  using assms
proof (induction ds arbitrary: u0 n cache)
  case (Cons d ds)
  from Cons.prems(2) [of d] obtain b bs where d: "plain_pair pu lu d" "f (pn_address pu d) = Some (b # bs)"
    "pn_address pu d \<notin> cache" by auto
  let ?u1 = "dict_set (pn_address pu d) None (dict_set (lid_address lu d) (Some (b # bs)) u0)"
  have rest: "plain_pair pu lu e \<and> (\<exists>b bs. f (pn_address pu e) = Some (b # bs)) \<and> pn_address pu e \<notin> insert (pn_address pu d) cache"
    if "e \<in> set ds" for e
    using Cons.prems(1) Cons.prems(2) [of e] that by (auto simp: pn_address_def int_str_inj)
  obtain updates cache' where IH:
    "migrate_all (map (move_op pu lu) ds) f (?u1, n + 1, insert (pn_address pu d) cache) = (updates, n + 1 + length ds, cache')"
    "dict_wf ?u1 \<longrightarrow> dict_wf updates"
    "\<forall>d\<in>set ds. map_of updates (pn_address pu d) = Some None \<and> map_of updates (lid_address lu d) = Some (f (pn_address pu d))"
    "\<forall>a. a \<notin> pn_address pu ` set ds \<longrightarrow> a \<notin> lid_address lu ` set ds \<longrightarrow> map_of updates a = map_of ?u1 a"
    using Cons.IH [of "insert (pn_address pu d) cache" ?u1 "n + 1"] Cons.prems(1) rest by auto
  have pl: "plain_lid pu d" using d(1) by (simp add: plain_pair_def)
  have "lid_address lu d \<noteq> pn_address pu e" if "e \<in> set (d # ds)" for e
    using address_inj(3) [of pu e lu d] Cons.prems(2) [OF that] unfolding plain_pair_def by metis
  then have "lid_address lu d \<notin> pn_address pu ` set ds" "lid_address lu d \<noteq> pn_address pu d" by auto
  moreover have "pn_address pu d \<notin> pn_address pu ` set ds" "lid_address lu d \<notin> lid_address lu ` set ds"
    "pn_address pu d \<notin> lid_address lu ` set ds"
    using Cons.prems(1) address_inj(3) [OF pl, where v = lu] by (auto simp: pn_address_def lid_address_def int_str_inj)
  ultimately have "map_of updates (pn_address pu d) = Some None"
    "map_of updates (lid_address lu d) = Some (f (pn_address pu d))"
    using IH(4) d(2) by (simp_all only: map_of_dict_set fun_upd_apply if_False if_True simp_thms)
  moreover have "map_of updates a = map_of u0 a"
    if "a \<notin> pn_address pu ` set (d # ds)" "a \<notin> lid_address lu ` set (d # ds)" for a
    using that IH(4) by (simp del: image_iff)
  moreover have "dict_wf u0 \<longrightarrow> dict_wf updates" using IH(2) by simp
  moreover have "migrate_all (map (move_op pu lu) (d # ds)) f (u0, n, cache) = (updates, n + length (d # ds), cache')"
    using IH(1) d(2,3) by (simp add: move_op_def)
  moreover note IH(3)
  ultimately show ?case by (intro exI [of _ updates] exI [of _ cache'] conjI ballI allI impI) auto
qed simp

lemma session_jid_plain: "plain_lid u d \<Longrightarrow> session_jid u d = pn_jid u d"
  by (simp add: session_jid_def pn_jid_def device_suffix_def plain_lid_def)

lemma session_jids_all:
  assumes "\<And>d. d \<in> set ds \<Longrightarrow> plain_lid u d \<and> (\<exists>b bs. f (pn_address u d) = Some (b # bs))"
  shows "session_jids u (map (pn_address u) ds) f = Inr (map (pn_jid u) ds)"
  using assms
proof (induction ds)
  case (Cons d ds)
  from Cons.prems [of d] obtain b bs where d: "plain_lid u d" "f (pn_address u d) = Some (b # bs)" by auto
  from Cons d show ?case
    by (simp add: split_pn_address session_jid_plain py_int_int_str plain_lid_def)
qed simp

lemma migration_op_plain:
  assumes "plain_pair pu lu d" and "plain_lid lu e"
  shows "migration_op (lid_jid lu e) (pn_jid pu d) = Inr (move_op pu lu d)"
proof -
  have p: "plain_lid pu d" "plain_lid lu d" using assms(1) by (simp_all add: plain_pair_def)
  have g: "good_user pu" "good_user lu" "0 \<le> d" "0 \<le> e" using p assms(2) by (simp_all add: plain_lid_def)
  have "jid_encode (Some lu) ''lid'' (Some d) None = lid_jid lu d"
    using jid_encode_device [of d lu "''lid''"] jid_encode_zero [of lu "''lid''"]
    by (cases "d = 0") (simp_all add: lid_jid_def device_suffix_def)
  then have "transfer_device (pn_jid pu d) (lid_jid lu e) = Inr (lid_jid lu d)"
    using decode_jids(2) [OF g(1,3)] decode_jids(1) [OF g(2,4)] by (cases "d = 0") (simp_all add: transfer_device_def)
  then show ?thesis
    using decode_jids(2) [OF g(1,3)] address_of_pn [OF p(1)] address_of_lid [OF p(2)]
    by (auto simp: migration_op_def move_op_def pn_address_def)
qed

lemma migration_ops_plain:
  "(\<And>d. d \<in> set ds \<Longrightarrow> plain_pair pu lu d) \<Longrightarrow> plain_lid lu e \<Longrightarrow>
   migration_ops (lid_jid lu e) (map (pn_jid pu) ds) = Inr (map (move_op pu lu) ds)"
  by (induction ds) (simp_all add: migration_op_plain)

context session_stores
begin

lemma bytes_get_sessions:
  assumes "kinv (sg_keys st)"
  obtains f ks where "bytes_get env ''session'' ids st = (f, st\<lparr>sg_keys := ks\<rparr>)"
    and "\<And>a. a \<in> set ids \<Longrightarrow> f a = session_at st a" and "kinv ks"
    and "\<And>a. kcontents ks ''session'' a = session_at st a"
proof -
  obtain f ks where "se_get env ''session'' ids (sg_keys st) = (f, ks)" by (cases "se_get env ''session'' ids (sg_keys st)")
  with keys.get_value [OF assms session_ok, of _ ids] keys.get_inv [OF assms session_ok, of ids]
    keys.get_contents [OF assms session_ok, of ids]
  show thesis by (intro that [of f ks]) (simp_all add: bytes_get_def session_at_def)
qed

lemma put_sessions:
  assumes "kinv (sg_keys st)" and "dict_wf updates"
  shows "kinv (sg_keys (bytes_put env [(''session'', updates)] st))"
    and "session_at (bytes_put env [(''session'', updates)] st) a =
      (case map_of updates a of None \<Rightarrow> session_at st a | Some v \<Rightarrow> v)"
proof -
  have t: "types_ok kok [(''session'', updates)]" by (simp add: session_ok)
  from keys.put_inv [OF assms(1) t] show "kinv (sg_keys (bytes_put env [(''session'', updates)] st))"
    by (simp add: bytes_put_def)
  from keys.put_contents [OF assms(1) t]
  show "session_at (bytes_put env [(''session'', updates)] st) a =
      (case map_of updates a of None \<Rightarrow> session_at st a | Some v \<Rightarrow> v)"
    by (simp add: bytes_put_def session_at_def map_of_apply_values [OF assms(2)] split: option.split)
qed

text \<open>Every session of the number moves to the LID, and nothing else changes.\<close>

lemma migrate_moves_sessions:
  assumes ds: "distinct ds" "e \<in> set ds" "plain_lid lu e'"
    and each: "\<And>d. d \<in> set ds \<Longrightarrow> plain_pair pu lu d \<and> (\<exists>b bs. session_at st (pn_address pu d) = Some (b # bs)) \<and>
      pn_address pu d \<notin> sg_migrated st"
    and list: "sg_device_lists st pu = Some (map int_str ds)" and k: "kinv (sg_keys st)"
  shows "\<exists>st'. migrate_session env (pn_jid pu e) (lid_jid lu e') st =
      (Inr \<lparr>mr_migrated = length ds, mr_skipped = 0, mr_total = length ds\<rparr>, st') \<and> kinv (sg_keys st') \<and>
    (\<forall>d\<in>set ds. session_at st' (lid_address lu d) = session_at st (pn_address pu d) \<and> session_at st' (pn_address pu d) = None) \<and>
    (\<forall>a. a \<notin> pn_address pu ` set ds \<longrightarrow> a \<notin> lid_address lu ` set ds \<longrightarrow> session_at st' a = session_at st a) \<and>
    sg_lids st' = sg_lids st"
proof -
  let ?ids = "map (pn_address pu) ds"
  have e: "plain_lid pu e" using each [OF ds(2)] by (simp add: plain_pair_def)
  then have gu: "good_user pu" "0 \<le> e" "pu \<noteq> ''''" by (simp_all add: plain_lid_def good_user_def)
  have ids: "rev (remdups (rev ?ids)) = ?ids"
    using ds(1) by (simp add: distinct_map distinct_remdups_id inj_on_def pn_address_def int_str_inj)
  have idl: "map (\<lambda>device. pu @ CHR ''.'' # device) (map int_str ds) = ?ids" by (simp add: pn_address_def)
  obtain f ks where g: "bytes_get env ''session'' ?ids st = (f, st\<lparr>sg_keys := ks\<rparr>)"
    "\<And>a. a \<in> set ?ids \<Longrightarrow> f a = session_at st a" "kinv ks" "\<And>a. kcontents ks ''session'' a = session_at st a"
    using bytes_get_sessions [OF k] by metis
  let ?st1 = "st\<lparr>sg_keys := ks\<rparr>"
  have s1: "session_at ?st1 = session_at st" by (simp add: session_at_def [of ?st1] fun_eq_iff g(4))
  have "kinv (sg_keys ?st1)" using g(3) by simp
  then obtain f2 ks2 where g2: "bytes_get env ''session'' ?ids ?st1 = (f2, ?st1\<lparr>sg_keys := ks2\<rparr>)"
    "\<And>a. a \<in> set ?ids \<Longrightarrow> f2 a = session_at st a" "kinv ks2" "\<And>a. kcontents ks2 ''session'' a = session_at st a"
    using bytes_get_sessions [of ?st1 ?ids] s1 by metis
  have "session_jids pu ?ids f = Inr (map (pn_jid pu) ds)"
    using each g(2) by (intro session_jids_all) (auto simp: plain_pair_def)
  then have ops: "bindE (session_jids pu ?ids f) (migration_ops (lid_jid lu e')) = Inr (map (move_op pu lu) ds)"
    using migration_ops_plain [of ds pu lu e'] each ds(3) by simp
  have m2: "\<And>d. d \<in> set ds \<Longrightarrow> plain_pair pu lu d \<and> (\<exists>b bs. f2 (pn_address pu d) = Some (b # bs)) \<and> pn_address pu d \<notin> sg_migrated st"
    using each g2(2) by auto
  obtain updates cache' where m: "migrate_all (map (move_op pu lu) ds) f2 ([], 0, sg_migrated st) = (updates, length ds, cache')"
    "dict_wf updates"
    "\<forall>d\<in>set ds. map_of updates (pn_address pu d) = Some None \<and> map_of updates (lid_address lu d) = Some (f2 (pn_address pu d))"
    "\<forall>a. a \<notin> pn_address pu ` set ds \<longrightarrow> a \<notin> lid_address lu ` set ds \<longrightarrow> map_of updates a = None"
    using migrate_all_moves [OF ds(1) m2, of "[]" 0] by (auto simp: dict_wf_def)
  have ne: "updates \<noteq> []" using m(3) ds(2) by auto
  let ?st2 = "st\<lparr>sg_keys := ks2, sg_migrated := cache'\<rparr>"
  have s2: "session_at ?st2 a = session_at st a" "kinv (sg_keys ?st2)" for a
    by (simp_all add: session_at_def [of ?st2] g2(3,4))
  have run: "migrate_session env (pn_jid pu e) (lid_jid lu e') st =
    (Inr \<lparr>mr_migrated = length ds, mr_skipped = 0, mr_total = length ds\<rparr>, bytes_put env [(''session'', updates)] ?st2)"
  proof -
    have "map fst (map (move_op pu lu) ds) = ?ids" by (simp add: move_op_def)
    moreover have "int_str e \<in> set (map int_str ds)" using ds(2) by simp
    moreover have "(case (if e = 0 then None else Some e) of None \<Rightarrow> 0 | Some n \<Rightarrow> n) = e" by simp
    moreover have "pn_jid pu e \<noteq> ''''" by (simp add: pn_jid_def)
    ultimately show ?thesis
      using ops g(1) g2(1) ne m(1) decode_jids(2) [OF gu(1,2)] jid_class gu(3) list ids idl
      by (simp add: migrate_session_def Let_def del: map_map)
  qed
  show ?thesis
    using run put_sessions [OF s2(2) m(2)] m(3,4) s2(1) g2(2)
    by (intro exI [of _ "bytes_put env [(''session'', updates)] ?st2"]) (auto simp: bytes_put_def)
qed

end


section \<open>On the in-memory stores\<close>

definition mem_env ::
    "(bytes \<Rightarrow> bytes) \<Rightarrow> (bytes \<Rightarrow> bytes \<Rightarrow> bytes \<Rightarrow> bytes \<Rightarrow> bytes \<times> bytes) \<Rightarrow>
     (bytes \<Rightarrow> bytes \<Rightarrow> bytes \<Rightarrow> bytes \<Rightarrow> bytes \<Rightarrow> bytes result) \<Rightarrow> (string list \<Rightarrow> (string \<times> string) list) option \<Rightarrow>
     (string store, bytes store) session_env" where
  "mem_env sha seal unseal net = \<lparr>se_lid_get = ims_get, se_lid_put = ims_set, se_net = net, se_get = ims_get,
     se_put = ims_set, se_sha256 = sha, se_seal = seal, se_unseal = unseal\<rparr>"

lemma mem_env_simps [simp]:
  "se_lid_get (mem_env sha seal unseal net) = ims_get" "se_lid_put (mem_env sha seal unseal net) = ims_set"
  "se_net (mem_env sha seal unseal net) = net" "se_get (mem_env sha seal unseal net) = ims_get"
  "se_put (mem_env sha seal unseal net) = ims_set" "se_sha256 (mem_env sha seal unseal net) = sha"
  "se_seal (mem_env sha seal unseal net) = seal" "se_unseal (mem_env sha seal unseal net) = unseal"
  by (simp_all add: mem_env_def)

interpretation mem: session_stores "mem_env sha seal unseal net" "\<lambda>_. True" "\<lambda>s. s" "\<lambda>_. True" "\<lambda>_. True" "\<lambda>s. s" "\<lambda>_. True"
  for sha seal unseal net
  by unfold_locales (simp_all add: ims_get_def ims_set_apply)

lemma mem_session_at [simp]: "mem.session_at st a = sg_keys st ''session'' a"
  by (simp add: mem.session_at_def)

text \<open>What the sessions rely on of the cipher: sealing with a tag of 16 bytes, and unsealing what was sealed.\<close>

definition cipher_ok ::
    "(bytes \<Rightarrow> bytes \<Rightarrow> bytes \<Rightarrow> bytes \<Rightarrow> bytes \<times> bytes) \<Rightarrow> (bytes \<Rightarrow> bytes \<Rightarrow> bytes \<Rightarrow> bytes \<Rightarrow> bytes \<Rightarrow> bytes result) \<Rightarrow> bool" where
  "cipher_ok seal unseal \<longleftrightarrow> (\<forall>k iv aad p. length (snd (seal k iv aad p)) = 16 \<and>
     unseal k iv aad (fst (seal k iv aad p)) (snd (seal k iv aad p)) = Inr p)"

lemma cipher_roundtrip: "cipher_ok seal unseal \<Longrightarrow> aes_decrypt_gcm unseal (aes_encrypt_gcm seal p k iv aad) k iv aad = Inr p"
  by (intro gcm_roundtrip [of seal _ _ _ _ "fst (seal k iv aad p)" "snd (seal k iv aad p)"]) (simp_all add: cipher_ok_def)

text \<open>A cipher for the witnesses: the key's first byte is added, and the tag is empty of meaning.\<close>

definition sample_seal :: "bytes \<Rightarrow> bytes \<Rightarrow> bytes \<Rightarrow> bytes \<Rightarrow> bytes \<times> bytes" where
  "sample_seal k iv aad p = (map (\<lambda>b. b + (case k of [] \<Rightarrow> 0 | x # _ \<Rightarrow> x)) p, replicate 16 0)"

definition sample_unseal :: "bytes \<Rightarrow> bytes \<Rightarrow> bytes \<Rightarrow> bytes \<Rightarrow> bytes \<Rightarrow> bytes result" where
  "sample_unseal k iv aad c t = Inr (map (\<lambda>b. b - (case k of [] \<Rightarrow> 0 | x # _ \<Rightarrow> x)) c)"

lemma sample_cipher_ok [simp]: "cipher_ok sample_seal sample_unseal"
  by (simp add: cipher_ok_def sample_seal_def sample_unseal_def o_def)

definition sample_storage :: "(string \<times> bytes) list \<Rightarrow> (string store, bytes store) signal_storage" where
  "sample_storage sessions = \<lparr>sg_lids = new_lid_store (\<lambda>_. Map.empty),
     sg_keys = (\<lambda>t. if t = ''session'' then map_of sessions else Map.empty), sg_device_lists = Map.empty, sg_migrated = {}\<rparr>"

lemma sample_storage_session [simp]: "sg_keys (sample_storage l) ''session'' = map_of l"
  by (simp add: sample_storage_def)

section \<open>Properties\<close>

text \<open>
  C31. Two devices that hold the same session key under each other's LID address understand each
  other: what one encrypts is a \<open>msg\<close>, and the other decrypts it to the text it came from.
\<close>

theorem session_delivers:
  assumes "plain_lid a d" and "plain_lid b e" and "cipher_ok seal unseal" and "length iv = 12" and "key \<noteq> []"
    and "sg_keys alice ''session'' (lid_address b e) = Some key" and "sg_keys bob ''session'' (lid_address a d) = Some key"
  shows "\<exists>c. fst (encrypt_message (mem_env sha seal unseal net) rnd iv (lid_jid b e) p alice) = Inr (''msg'', c) \<and>
    fst (decrypt_message (mem_env sha seal unseal net) rnd' (lid_jid a d) ''msg'' c bob) = Inr p"
  using mem.encrypt_with_session [OF assms(2), of alice key sha seal unseal net rnd iv p]
    mem.decrypt_with_session [OF assms(1), of bob key sha seal unseal net rnd' "iv @ aes_encrypt_gcm seal p key iv []"]
    cipher_roundtrip [OF assms(3)] assms(4-7) by simp

theorem session_delivers_witness:
  "\<exists>c. fst (encrypt_message (mem_env id sample_seal sample_unseal None) [] (replicate 12 7) (lid_jid ''22'' 3) [104, 105]
      (sample_storage [(''22_1.3'', [9, 9])])) = Inr (''msg'', c) \<and>
    fst (decrypt_message (mem_env id sample_seal sample_unseal None) [] (lid_jid ''11'' 0) ''msg'' c
      (sample_storage [(''11_1.0'', [9, 9])])) = Inr [104, 105]"
proof (rule session_delivers)
  have "lid_address ''22'' 3 = ''22_1.3''" "lid_address ''11'' 0 = ''11_1.0''"
    unfolding lid_address_def by code_simp+
  then show "sg_keys (sample_storage [(''22_1.3'', [9, 9])]) ''session'' (lid_address ''22'' 3) = Some [9, 9]"
    "sg_keys (sample_storage [(''11_1.0'', [9, 9])]) ''session'' (lid_address ''11'' 0) = Some [9, 9]" by simp_all
qed (simp_all add: plain_lid_def good_user_def clean_user_def)

text \<open>
  Finding: a session made from a pre-key bundle has the hash of the bundle's public keys as its
  key. Whoever saw the bundle, as the server does, reads what is sent in the session.
\<close>

theorem public_bundle_decrypts:
  assumes "plain_lid b e" and "cipher_ok seal unseal" and "length iv = 12" and "bundle_material bundle \<noteq> []"
    and "sha (bundle_material bundle) \<noteq> []"
  shows "\<exists>c. fst (encrypt_message (mem_env sha seal unseal net) rnd iv (lid_jid b e) p
      (snd (inject_e2e_session (mem_env sha seal unseal net) rnd' (lid_jid b e) bundle alice))) = Inr (''msg'', c) \<and>
    aes_decrypt_gcm unseal (drop 12 c) (sha (bundle_material bundle)) (take 12 c) [] = Inr p"
  using mem.inject_sets_session(3) [OF assms(1) _ assms(4), where st = alice and sha = sha and seal = seal and unseal = unseal and net = net and rnd = rnd']
    mem.encrypt_with_session [OF assms(1), of "snd (inject_e2e_session (mem_env sha seal unseal net) rnd' (lid_jid b e) bundle alice)"
      "sha (bundle_material bundle)" sha seal unseal net rnd iv p]
    cipher_roundtrip [OF assms(2)] assms(3,5) by (simp add: fun_eq_iff)

theorem public_bundle_decrypts_witness:
  "\<exists>c. fst (encrypt_message (mem_env id sample_seal sample_unseal None) [] (replicate 12 7) (lid_jid ''22'' 3) [104, 105]
      (snd (inject_e2e_session (mem_env id sample_seal sample_unseal None) [] (lid_jid ''22'' 3)
        \<lparr>kb_identity = [1], kb_signed_pre_key = [2], kb_pre_key = [3]\<rparr> (sample_storage [])))) = Inr (''msg'', c) \<and>
    aes_decrypt_gcm sample_unseal (drop 12 c) (id (bundle_material \<lparr>kb_identity = [1], kb_signed_pre_key = [2], kb_pre_key = [3]\<rparr>))
      (take 12 c) [] = Inr [104, 105]"
  by (rule public_bundle_decrypts) (simp_all add: plain_lid_def good_user_def clean_user_def bundle_material_def)

text \<open>
  Finding: the first message of a session made from a bundle says \<open>msg\<close>, so a recipient without
  a session for the sender, as it is before the first message, raises an error instead of setting one up.
\<close>

theorem injected_session_unreadable:
  assumes "plain_lid a d" and "plain_lid b e" and "bundle_material bundle \<noteq> []"
    and "sha (bundle_material bundle) \<noteq> []" and "sg_keys bob ''session'' (lid_address a d) = None"
  shows "\<exists>c. fst (encrypt_message (mem_env sha seal unseal net) rnd iv (lid_jid b e) p
      (snd (inject_e2e_session (mem_env sha seal unseal net) rnd' (lid_jid b e) bundle alice))) = Inr (''msg'', c) \<and>
    fst (decrypt_message (mem_env sha seal unseal net) rnd'' (lid_jid a d) ''msg'' c bob) = Inl (ValueError ''no session'')"
  using mem.inject_sets_session(3) [OF assms(2) _ assms(3), where st = alice and sha = sha and seal = seal and unseal = unseal and net = net and rnd = rnd']
    mem.encrypt_with_session [OF assms(2), of "snd (inject_e2e_session (mem_env sha seal unseal net) rnd' (lid_jid b e) bundle alice)"
      "sha (bundle_material bundle)" sha seal unseal net rnd iv p]
    mem.decrypt_without_session [OF assms(1)] assms(4,5) by (simp add: fun_eq_iff)

theorem injected_session_unreadable_witness:
  "\<exists>c. fst (encrypt_message (mem_env id sample_seal sample_unseal None) [] (replicate 12 7) (lid_jid ''22'' 3) [104, 105]
      (snd (inject_e2e_session (mem_env id sample_seal sample_unseal None) [] (lid_jid ''22'' 3)
        \<lparr>kb_identity = [1], kb_signed_pre_key = [2], kb_pre_key = [3]\<rparr> (sample_storage [])))) = Inr (''msg'', c) \<and>
    fst (decrypt_message (mem_env id sample_seal sample_unseal None) [] (lid_jid ''11'' 0) ''msg'' c (sample_storage [])) =
      Inl (ValueError ''no session'')"
  by (rule injected_session_unreadable) (simp_all add: plain_lid_def good_user_def clean_user_def bundle_material_def)


text \<open>A number whose LID the mapping has; the cache, if it knows the number, says the same.\<close>

definition knows_lid :: "(string store, bytes store) signal_storage \<Rightarrow> string \<Rightarrow> string \<Rightarrow> bool" where
  "knows_lid st pu lu \<longleftrightarrow> lm_keys (sg_lids st) LID_MAPPING pu = Some lu \<and> 0 < lm_ttl (sg_lids st) \<and>
     (case lm_cache (sg_lids st) (pn_key pu) of None \<Rightarrow> True | Some (v, _) \<Rightarrow> v = lu)"

lemma knows_lid_maps: "knows_lid st pu lu \<Longrightarrow> lid_ims.maps_pn (sg_lids st) pu lu"
  "knows_lid st pu lu \<Longrightarrow> 0 < lm_ttl (sg_lids st)"
  by (auto simp: knows_lid_def lid_ims.maps_pn_def split: option.splits)

text \<open>
  Finding: deleting the session of a number whose LID is known deletes nothing that is used: the
  session is stored under the LID, the deletion names the number, and the session goes on being valid.
\<close>

theorem delete_misses_lid_session:
  assumes "knows_lid st pu lu" and "plain_pair pu lu d" and "sg_keys st ''session'' (lid_address lu d) = Some (b # bs)"
  shows "fst (delete_session (mem_env sha seal unseal net) [pn_jid pu d] st) = Inr () \<and>
    fst (validate_session (mem_env sha seal unseal net) (pn_jid pu d)
      (snd (delete_session (mem_env sha seal unseal net) [pn_jid pu d] st)))"
proof -
  let ?env = "mem_env sha seal unseal net" and ?st = "snd (delete_session (mem_env sha seal unseal net) [pn_jid pu d] st)"
  have p: "plain_lid pu d" using assms(2) by (simp add: plain_pair_def)
  have del: "fst (delete_session ?env [pn_jid pu d] st) = Inr ()"
    by (simp add: delete_session_def address_of_pn [OF p])
  have l: "sg_lids ?st = sg_lids st" and s: "sg_keys ?st ''session'' (lid_address lu d) = Some (b # bs)"
    using mem.delete_number(1,3) [OF assms(2), where st = st and sha = sha and seal = seal and unseal = unseal and net = net]
      assms(3) address_inj(3) [OF p, of lu d]
    by (simp_all add: fun_eq_iff)
  have "knows_lid ?st pu lu" using assms(1) by (simp add: knows_lid_def l)
  from mem.load_mapped_number [OF knows_lid_maps [OF this] assms(2), where sha = sha and seal = seal and unseal = unseal and net = net]
  have "fst (load_session_bytes ?env (pn_address pu d) ?st) = Inr (Some (b # bs))" by (simp add: s)
  with del show ?thesis
    by (auto simp: validate_session_def address_of_pn [OF p] split: prod.splits sum.splits)
qed


lemma sample_addresses:
  "lid_address ''77'' 4 = ''77_1.4''" "pn_address ''55'' 0 = ''55.0''" "pn_address ''55'' 4 = ''55.4''"
  unfolding lid_address_def pn_address_def by code_simp+

theorem delete_misses_lid_session_witness:
  "let st = (sample_storage [(''77_1.4'', [5])])
       \<lparr>sg_lids := new_lid_store (\<lambda>t. if t = LID_MAPPING then [''55'' \<mapsto> ''77''] else Map.empty)\<rparr>
   in fst (delete_session (mem_env id sample_seal sample_unseal None) [pn_jid ''55'' 4] st) = Inr () \<and>
     fst (validate_session (mem_env id sample_seal sample_unseal None) (pn_jid ''55'' 4)
       (snd (delete_session (mem_env id sample_seal sample_unseal None) [pn_jid ''55'' 4] st)))"
  unfolding Let_def
  by (rule delete_misses_lid_session [where lu = "''77''" and b = 5 and bs = "[]"])
    (simp_all add: knows_lid_def plain_pair_def plain_lid_def good_user_def clean_user_def sample_addresses sample_storage_def)


end
