(* ===== verification/Pre_Keys.thy ===== *)
theory Pre_Keys
  imports Pairwise_Session Key_Store
begin

text \<open>
  Pre-keys: \<^verbatim>\<open>utils/signal.py\<close> (generation, the upload stanza, reading the bundles of
  others) and the operations of \<^verbatim>\<open>socket/socket.py\<close> that upload them and rotate the
  signed pre-key. Generated key pairs, the clock and the server's answers are arguments. Integers
  go into stanzas in a fixed width, and \<open>int.to_bytes\<close> raises when they do not fit.
\<close>

section \<open>Stanzas\<close>

record key_pair =
  kp_public :: bytes
  kp_private :: bytes

record signed_key =
  spk_id :: int
  spk_public :: bytes
  spk_signature :: bytes

definition encode_big_endian :: "int \<Rightarrow> nat \<Rightarrow> bytes result" where
  "encode_big_endian v width = (if 0 \<le> v \<and> v < 256 ^ width then Inr (be_bytes width v) else Inl OverflowErr)"

definition xmpp_signed_pre_key :: "signed_key \<Rightarrow> node result" where
  "xmpp_signed_pre_key k = bindE (encode_big_endian (spk_id k) 3) (\<lambda>i.
     Inr (Node ''skey'' [] (CList [Node ''id'' [] (CBytes i), Node ''value'' [] (CBytes (spk_public k)),
                                   Node ''signature'' [] (CBytes (spk_signature k))])))"

definition xmpp_pre_key :: "key_pair \<Rightarrow> int \<Rightarrow> node result" where
  "xmpp_pre_key pair key_id = bindE (encode_big_endian key_id 3) (\<lambda>i.
     Inr (Node ''key'' [] (CList [Node ''id'' [] (CBytes i), Node ''value'' [] (CBytes (kp_public pair))])))"

section \<open>The next block of pre-keys\<close>

record pre_key_creds =
  pc_next_pre_key_id :: int
  pc_first_unuploaded :: int
  pc_registration_id :: int
  pc_identity_public :: bytes
  pc_signed_pre_key :: signed_key

text \<open>The new keys with their ids, the last id, and the start and length of the block to upload.\<close>

definition generate_or_get_pre_keys :: "(int \<Rightarrow> key_pair) \<Rightarrow> pre_key_creds \<Rightarrow> int \<Rightarrow> (int \<times> key_pair) list \<times> int \<times> int \<times> int" where
  "generate_or_get_pre_keys gen creds key_range =
     (let available = pc_next_pre_key_id creds - pc_first_unuploaded creds;
          remaining = key_range - available;
          last_pre_key_id = pc_next_pre_key_id creds + remaining - 1;
          new_pre_keys = (if 0 < remaining then map (\<lambda>i. (i, gen i)) [pc_next_pre_key_id creds .. last_pre_key_id] else [])
      in (new_pre_keys, last_pre_key_id, pc_first_unuploaded creds, key_range))"

definition get_pre_keys ::
    "(string \<Rightarrow> string list \<Rightarrow> 's \<Rightarrow> key_pair lookup \<times> 's) \<Rightarrow> int \<Rightarrow> int \<Rightarrow> 's \<Rightarrow> (string \<times> key_pair) list \<times> 's" where
  "get_pre_keys get min_id limit s =
     (let ids = map int_str [min_id .. limit - 1]; (found, s) = get ''pre-key'' ids s
      in (List.map_filter (\<lambda>i. map_option (Pair i) (found i)) ids, s))"

text \<open>The update of the credentials (the next id and the first one not uploaded) and the keys.\<close>

definition get_next_pre_keys ::
    "(string \<Rightarrow> string list \<Rightarrow> 's \<Rightarrow> key_pair lookup \<times> 's) \<Rightarrow> (key_pair data_set \<Rightarrow> 's \<Rightarrow> 's) \<Rightarrow> (int \<Rightarrow> key_pair) \<Rightarrow>
     pre_key_creds \<Rightarrow> int \<Rightarrow> 's \<Rightarrow> ((int \<times> int) \<times> (string \<times> key_pair) list) \<times> 's" where
  "get_next_pre_keys get put gen creds count s =
     (let (new_pre_keys, last_pre_key_id, start, span) = generate_or_get_pre_keys gen creds count;
          update = (max (last_pre_key_id + 1) (pc_next_pre_key_id creds), max (pc_first_unuploaded creds) (last_pre_key_id + 1));
          s = (if new_pre_keys = [] then s
               else put [(''pre-key'', map (\<lambda>(i, k). (int_str i, Some k)) new_pre_keys)] s);
          (pre_keys, s) = get_pre_keys get start (start + span) s
      in ((update, pre_keys), s))"

fun key_nodes :: "(string \<times> key_pair) list \<Rightarrow> node list result" where
  "key_nodes [] = Inr []"
| "key_nodes ((key, pair) # keys) = bindE (py_int key) (\<lambda>i. bindE (xmpp_pre_key pair i) (\<lambda>n.
     bindE (key_nodes keys) (\<lambda>ns. Inr (n # ns))))"

definition KEY_BUNDLE_TYPE :: bytes where
  "KEY_BUNDLE_TYPE = [5]"

definition get_next_pre_keys_node ::
    "(string \<Rightarrow> string list \<Rightarrow> 's \<Rightarrow> key_pair lookup \<times> 's) \<Rightarrow> (key_pair data_set \<Rightarrow> 's \<Rightarrow> 's) \<Rightarrow> (int \<Rightarrow> key_pair) \<Rightarrow>
     pre_key_creds \<Rightarrow> int \<Rightarrow> 's \<Rightarrow> ((int \<times> int) \<times> node) result \<times> 's" where
  "get_next_pre_keys_node get put gen creds count s =
     (let ((update, pre_keys), s) = get_next_pre_keys get put gen creds count s
      in (bindE (encode_big_endian (pc_registration_id creds) 4) (\<lambda>reg.
          bindE (key_nodes pre_keys) (\<lambda>ns.
          bindE (xmpp_signed_pre_key (pc_signed_pre_key creds)) (\<lambda>sk.
            Inr (update, Node ''iq'' [(''xmlns'', AStr ''encrypt''), (''type'', AStr ''set''), (''to'', AStr S_WHATSAPP_NET)]
              (CList [Node ''registration'' [] (CBytes reg), Node ''type'' [] (CBytes KEY_BUNDLE_TYPE),
                      Node ''identity'' [] (CBytes (pc_identity_public creds)), Node ''list'' [] (CList ns), sk]))))), s))"

section \<open>Uploading\<close>

definition MIN_PREKEY_COUNT :: int where
  "MIN_PREKEY_COUNT = 5"

definition INITIAL_PREKEY_COUNT :: int where
  "INITIAL_PREKEY_COUNT = 812"

definition MIN_UPLOAD_INTERVAL :: int where
  "MIN_UPLOAD_INTERVAL = 5000"

record 's upload_state =
  us_creds :: pre_key_creds
  us_keys :: 's
  us_last_upload_time :: int
  us_updates :: "(int \<times> int) list"

text \<open>What becomes of one attempt: an answer at a time, an error, or the time-out of the whole upload.\<close>

datatype upload_answer = Answered int | Refused exn | Timed_Out

text \<open>The result with the time of the answer, the number of stanzas sent, and the milliseconds slept between them.\<close>

function upload_attempts :: "(nat \<Rightarrow> upload_answer) \<Rightarrow> nat \<Rightarrow> int result \<times> nat \<times> int" where
  "upload_attempts answers attempt =
     (case answers attempt of
        Answered t \<Rightarrow> (Inr t, 1, 0)
      | Timed_Out \<Rightarrow> (Inl (RuntimeError ''Pre-key upload timeout''), 1, 0)
      | Refused e \<Rightarrow>
          if 3 \<le> attempt then (Inl e, 1, 0)
          else let delay_ms = min (1000 * 2 ^ attempt) 10000; (r, sent, slept) = upload_attempts answers (attempt + 1)
               in (r, sent + 1, delay_ms + slept))"
  by pat_completeness auto
termination by (relation "measure (\<lambda>(_, attempt). 3 - attempt)") auto

declare upload_attempts.simps [simp del]

definition upload_pre_keys ::
    "(string \<Rightarrow> string list \<Rightarrow> 's \<Rightarrow> key_pair lookup \<times> 's) \<Rightarrow> (key_pair data_set \<Rightarrow> 's \<Rightarrow> 's) \<Rightarrow> (int \<Rightarrow> key_pair) \<Rightarrow>
     int \<Rightarrow> unit result option \<Rightarrow> (nat \<Rightarrow> upload_answer) \<Rightarrow> int \<Rightarrow> nat \<Rightarrow> 's upload_state \<Rightarrow> unit result \<times> 's upload_state" where
  "upload_pre_keys get put gen now running answers count retry_count st =
     (if retry_count = 0 \<and> now - us_last_upload_time st < MIN_UPLOAD_INTERVAL then (Inr (), st)
      else case running of
        Some outcome \<Rightarrow> (outcome, st)
      | None \<Rightarrow>
          (case get_next_pre_keys_node get put gen (us_creds st) count (us_keys st) of
             (Inl e, _) \<Rightarrow> (Inl e, st)
           | (Inr ((next_id, first_id), node), s) \<Rightarrow>
               let st = st\<lparr>us_keys := s, us_creds := (us_creds st)\<lparr>pc_next_pre_key_id := next_id, pc_first_unuploaded := first_id\<rparr>,
                           us_updates := us_updates st @ [(next_id, first_id)]\<rparr>
               in case upload_attempts answers retry_count of
                    (Inl e, _) \<Rightarrow> (Inl e, st)
                  | (Inr t, _) \<Rightarrow> (Inr (), st\<lparr>us_last_upload_time := t\<rparr>)))"

text \<open>The answer to the question how many pre-keys the server has.\<close>

definition available_pre_keys :: "node \<Rightarrow> int result" where
  "available_pre_keys n = (case get_binary_node_child (Some n) ''count'' of
       None \<Rightarrow> Inr 0
     | Some c \<Rightarrow> (let v = attr_get (node_attrs c) ''value'' in
         if attr_truthy v then (case v of AStr s \<Rightarrow> py_int s | AInt i \<Rightarrow> Inr i | ANone \<Rightarrow> Inr 0) else Inr 0))"

definition verify_current_pre_key_exists ::
    "(string \<Rightarrow> string list \<Rightarrow> 's \<Rightarrow> key_pair lookup \<times> 's) \<Rightarrow> 's upload_state \<Rightarrow> (bool \<times> int) \<times> 's upload_state" where
  "verify_current_pre_key_exists get st =
     (let current = pc_next_pre_key_id (us_creds st) - 1
      in if current \<le> 0 then ((False, 0), st)
         else let (found, s) = get ''pre-key'' [int_str current] (us_keys st)
              in ((found (int_str current) \<noteq> None, current), st\<lparr>us_keys := s\<rparr>))"

definition upload_pre_keys_to_server_if_required ::
    "(string \<Rightarrow> string list \<Rightarrow> 's \<Rightarrow> key_pair lookup \<times> 's) \<Rightarrow> (key_pair data_set \<Rightarrow> 's \<Rightarrow> 's) \<Rightarrow> (int \<Rightarrow> key_pair) \<Rightarrow>
     int \<Rightarrow> unit result option \<Rightarrow> (nat \<Rightarrow> upload_answer) \<Rightarrow> node result \<Rightarrow> 's upload_state \<Rightarrow> 's upload_state" where
  "upload_pre_keys_to_server_if_required get put gen now running answers server_count st =
     (case bindE server_count available_pre_keys of
        Inl _ \<Rightarrow> st
      | Inr pre_key_count \<Rightarrow>
          let threshold = (if pre_key_count = 0 then INITIAL_PREKEY_COUNT else MIN_PREKEY_COUNT);
              ((current_exists, current_id), st) = verify_current_pre_key_exists get st
          in if pre_key_count \<le> threshold \<or> (\<not> current_exists \<and> 0 < current_id)
             then snd (upload_pre_keys get put gen now running answers threshold 0 st) else st)"

definition digest_key_bundle ::
    "(string \<Rightarrow> string list \<Rightarrow> 's \<Rightarrow> key_pair lookup \<times> 's) \<Rightarrow> (key_pair data_set \<Rightarrow> 's \<Rightarrow> 's) \<Rightarrow> (int \<Rightarrow> key_pair) \<Rightarrow>
     int \<Rightarrow> unit result option \<Rightarrow> (nat \<Rightarrow> upload_answer) \<Rightarrow> node result \<Rightarrow> 's upload_state \<Rightarrow> unit result \<times> 's upload_state" where
  "digest_key_bundle get put gen now running answers reply st =
     (case reply of
        Inl e \<Rightarrow> (Inl e, st)
      | Inr n \<Rightarrow>
          if get_binary_node_child (Some n) ''digest'' \<noteq> None then (Inr (), st)
          else case upload_pre_keys get put gen now running answers MIN_PREKEY_COUNT 0 st of
                 (Inl e, st) \<Rightarrow> (Inl e, st)
               | (Inr _, st) \<Rightarrow> (Inl (RuntimeError ''encrypt/get digest returned no digest node''), st))"

definition rotate_signed_pre_key :: "(int \<Rightarrow> signed_key) \<Rightarrow> unit result \<Rightarrow> pre_key_creds \<Rightarrow> unit result \<times> pre_key_creds" where
  "rotate_signed_pre_key sign reply creds =
     (let skey = sign (spk_id (pc_signed_pre_key creds) + 1)
      in case bindE (xmpp_signed_pre_key skey) (\<lambda>_. reply) of
           Inl e \<Rightarrow> (Inl e, creds)
         | Inr _ \<Rightarrow> (Inr (), creds\<lparr>pc_signed_pre_key := skey\<rparr>))"

section \<open>The storage that the session cipher sees\<close>

text \<open>The private and public half of a stored pre-key, and of the own signed pre-key and identity.\<close>

definition load_pre_key ::
    "(string \<Rightarrow> string list \<Rightarrow> 's \<Rightarrow> key_pair lookup \<times> 's) \<Rightarrow> int \<Rightarrow> 's \<Rightarrow> (bytes \<times> bytes) option \<times> 's" where
  "load_pre_key get key_id s =
     (let (stored, s) = get ''pre-key'' [int_str key_id] s
      in (map_option (\<lambda>k. (kp_private k, kp_public k)) (stored (int_str key_id)), s))"

definition remove_pre_key :: "(key_pair data_set \<Rightarrow> 's \<Rightarrow> 's) \<Rightarrow> int \<Rightarrow> 's \<Rightarrow> 's" where
  "remove_pre_key put key_id s = put [(''pre-key'', [(int_str key_id, None)])] s"

definition load_signed_pre_key :: "bytes \<Rightarrow> pre_key_creds \<Rightarrow> bytes \<times> bytes" where
  "load_signed_pre_key private creds = (private, spk_public (pc_signed_pre_key creds))"

definition get_our_registration_id :: "pre_key_creds \<Rightarrow> int" where
  "get_our_registration_id creds = pc_registration_id creds"

definition get_our_identity :: "bytes \<Rightarrow> pre_key_creds \<Rightarrow> bytes \<times> bytes" where
  "get_our_identity private creds = (private, generate_signal_pub_key (pc_identity_public creds))"

section \<open>The bundles of others\<close>

record extracted_key =
  ek_id :: "int option"
  ek_public :: bytes
  ek_signature :: "bytes option"

definition bytes_or_empty :: "bytes option \<Rightarrow> bytes" where
  "bytes_or_empty b = (case b of None \<Rightarrow> [] | Some x \<Rightarrow> x)"

definition extract_key :: "node option \<Rightarrow> extracted_key option result" where
  "extract_key key_node = (case key_node of
       None \<Rightarrow> Inr None
     | Some n \<Rightarrow> bindE (get_binary_node_child_uint n ''id'' 3) (\<lambda>i.
         Inr (Some \<lparr>ek_id = i, ek_public = generate_signal_pub_key (bytes_or_empty (get_binary_node_child_buffer key_node ''value'')),
                   ek_signature = get_binary_node_child_buffer key_node ''signature''\<rparr>)))"

fun inject_users ::
    "('l, 's) session_env \<Rightarrow> (nat \<Rightarrow> bytes) \<Rightarrow> node list \<Rightarrow> ('l, 's) signal_storage \<Rightarrow> unit result \<times> ('l, 's) signal_storage" where
  "inject_users env rnd [] st = (Inr (), st)"
| "inject_users env rnd (n # ns) st =
     (let jid = attr_get (node_attrs n) ''jid'' in
      case get_binary_node_child_uint n ''registration'' 4 of
        Inl e \<Rightarrow> (Inl e, st)
      | Inr registration_id \<Rightarrow>
          if \<not> attr_truthy jid \<or> registration_id = None then inject_users env rnd ns st
          else case bindE (extract_key (get_binary_node_child (Some n) ''skey'')) (\<lambda>sk.
                    bindE (extract_key (get_binary_node_child (Some n) ''key'')) (\<lambda>pk. Inr (sk, pk))) of
                 Inl e \<Rightarrow> (Inl e, st)
               | Inr (sk, pk) \<Rightarrow>
                   (case inject_e2e_session env (rnd (length ns)) (attr_str jid)
                      \<lparr>kb_identity = generate_signal_pub_key (bytes_or_empty (get_binary_node_child_buffer (Some n) ''identity'')),
                       kb_signed_pre_key = (case sk of None \<Rightarrow> [] | Some k \<Rightarrow> ek_public k),
                       kb_pre_key = (case pk of None \<Rightarrow> [] | Some k \<Rightarrow> ek_public k)\<rparr> st of
                      (Inl e, st) \<Rightarrow> (Inl e, st)
                    | (Inr _, st) \<Rightarrow> inject_users env rnd ns st))"

fun errors_free :: "node list \<Rightarrow> unit result" where
  "errors_free [] = Inr ()"
| "errors_free (n # ns) = bindE (assert_node_error_free n) (\<lambda>_. errors_free ns)"

text \<open>The chunks of 100 users are injected one after the other, that is, all users in order.\<close>

definition parse_and_inject_e2e_sessions ::
    "('l, 's) session_env \<Rightarrow> (nat \<Rightarrow> bytes) \<Rightarrow> node \<Rightarrow> ('l, 's) signal_storage \<Rightarrow> unit result \<times> ('l, 's) signal_storage" where
  "parse_and_inject_e2e_sessions env rnd n st =
     (let user_nodes = get_binary_node_children (get_binary_node_child (Some n) ''list'') ''user''
      in case errors_free user_nodes of Inl e \<Rightarrow> (Inl e, st) | Inr _ \<Rightarrow> inject_users env rnd user_nodes st)"


section \<open>The block that is uploaded\<close>

locale pre_key_store = signal_key_store ok contents inv get put
  for ok :: "string \<Rightarrow> bool" and contents :: "'s \<Rightarrow> key_pair store" and inv :: "'s \<Rightarrow> bool"
    and get :: "string \<Rightarrow> string list \<Rightarrow> 's \<Rightarrow> key_pair lookup \<times> 's"
    and put :: "key_pair data_set \<Rightarrow> 's \<Rightarrow> 's" +
  assumes pre_key_ok: "ok ''pre-key''"

text \<open>Every generated key that was not uploaded yet is in the store.\<close>

definition pre_keys_kept :: "pre_key_creds \<Rightarrow> key_pair store \<Rightarrow> bool" where
  "pre_keys_kept creds s \<longleftrightarrow> pc_first_unuploaded creds \<le> pc_next_pre_key_id creds \<and>
     (\<forall>i \<in> {pc_first_unuploaded creds ..< pc_next_pre_key_id creds}. s ''pre-key'' (int_str i) \<noteq> None)"

definition advance :: "pre_key_creds \<Rightarrow> int \<times> int \<Rightarrow> pre_key_creds" where
  "advance creds u = creds\<lparr>pc_next_pre_key_id := fst u, pc_first_unuploaded := snd u\<rparr>"

lemma generated_block:
  assumes "pc_first_unuploaded creds \<le> pc_next_pre_key_id creds" and "0 \<le> count"
  shows "generate_or_get_pre_keys gen creds count =
    (map (\<lambda>i. (i, gen i)) [pc_next_pre_key_id creds .. pc_first_unuploaded creds + count - 1],
     pc_first_unuploaded creds + count - 1, pc_first_unuploaded creds, count)"
  using assms by (auto simp: generate_or_get_pre_keys_def Let_def add.commute)

lemma apply_new_keys:
  "apply_values t (map (\<lambda>i. (int_str i, Some (gen i))) ids) s t' k =
    (if t' = t \<and> k \<in> int_str ` set ids then Some (gen (THE i. k = int_str i)) else s t' k)"
proof (induction ids arbitrary: s)
  case (Cons i ids)
  have "(THE j. int_str i = int_str j) = i" by (rule the_equality) (auto simp: int_str_inj)
  with Cons show ?case by auto
qed simp

lemma map_filter_total:
  "(\<And>i. i \<in> set ids \<Longrightarrow> f i = Some (g i)) \<Longrightarrow> List.map_filter (\<lambda>i. map_option (Pair i) (f i)) ids = map (\<lambda>i. (i, g i)) ids"
  by (induction ids) simp_all

context pre_key_store
begin

lemma upload_block:
  assumes k: "pre_keys_kept creds (contents s)" and c: "0 \<le> count" and i: "inv s"
  obtains u keys s' where "get_next_pre_keys get put gen creds count s = ((u, keys), s')"
    and "u = (max (pc_first_unuploaded creds + count) (pc_next_pre_key_id creds), pc_first_unuploaded creds + count)"
    and "map fst keys = map int_str [pc_first_unuploaded creds .. pc_first_unuploaded creds + count - 1]"
    and "\<And>k. k \<in> set keys \<Longrightarrow> contents s' ''pre-key'' (fst k) = Some (snd k)"
    and "inv s'" and "pre_keys_kept (advance creds u) (contents s')"
    and "\<And>t j. t \<noteq> ''pre-key'' \<or> (\<forall>i\<in>{pc_next_pre_key_id creds ..< pc_first_unuploaded creds + count}. j \<noteq> int_str i) \<Longrightarrow>
      contents s' t j = contents s t j"
proof -
  let ?f = "pc_first_unuploaded creds" and ?n = "pc_next_pre_key_id creds"
  let ?new = "[?n .. ?f + count - 1]" and ?ids = "map int_str [?f .. ?f + count - 1]"
  have fn: "?f \<le> ?n" using k by (simp add: pre_keys_kept_def)
  let ?d = "[(''pre-key'', map (\<lambda>i. (int_str i, Some (gen i))) ?new)]"
  define s1 where "s1 = (if ?new = [] then s else put ?d s)"
  have t: "types_ok ok ?d" by (simp add: pre_key_ok)
  have s1: "inv s1" "contents s1 = apply_data ?d (contents s)"
    using i put_inv [OF i t] put_contents [OF i t] by (auto simp: s1_def)
  have in_new: "int_str j \<in> int_str ` set ?new \<longleftrightarrow> j \<in> {?n ..< ?f + count}" for j by (auto simp: int_str_inj image_iff)
  have kept: "contents s1 ''pre-key'' (int_str j) \<noteq> None" if "?f \<le> j" "j < max (?f + count) ?n" for j
    using k that in_new [of j] by (auto simp: s1(2) apply_new_keys pre_keys_kept_def)
  obtain found s2 where g: "get ''pre-key'' ?ids s1 = (found, s2)" by (cases "get ''pre-key'' ?ids s1")
  have s2: "inv s2" "contents s2 = contents s1"
    using get_inv [OF s1(1) pre_key_ok, of ?ids] get_contents [OF s1(1) pre_key_ok, of ?ids] by (simp_all add: g)
  have val: "found j = contents s1 ''pre-key'' j" if "j \<in> set ?ids" for j
    using get_value [OF s1(1) pre_key_ok that] by (simp add: g)
  define val' where "val' = (\<lambda>j. the (contents s1 ''pre-key'' j))"
  have found: "found j = Some (val' j)" if "j \<in> set ?ids" for j
    using val [OF that] kept that fn unfolding val'_def by auto
  have keys: "List.map_filter (\<lambda>i. map_option (Pair i) (found i)) ?ids = map (\<lambda>i. (i, val' i)) ?ids"
    by (rule map_filter_total) (rule found)
  let ?u = "(max (?f + count) ?n, ?f + count)"
  have nx: "get_next_pre_keys get put gen creds count s = ((?u, map (\<lambda>i. (i, val' i)) ?ids), s2)"
  proof -
    have "(if map (\<lambda>i. (i, gen i)) ?new = [] then s
        else put [(''pre-key'', map (\<lambda>(i, k). (int_str i, Some k)) (map (\<lambda>i. (i, gen i)) ?new))] s) = s1"
      by (simp add: s1_def o_def)
    moreover have "get_pre_keys get ?f (?f + count) s1 = (map (\<lambda>i. (i, val' i)) ?ids, s2)"
      using g keys by (simp add: get_pre_keys_def Let_def)
    ultimately show ?thesis
      using c by (simp add: get_next_pre_keys_def generated_block [OF fn c] Let_def max_def)
  qed
  show thesis
  proof (rule that [OF nx refl _ _ s2(1)])
    show "map fst (map (\<lambda>i. (i, val' i)) ?ids) = ?ids" by (simp add: o_def)
    show "contents s2 ''pre-key'' (fst k) = Some (snd k)" if "k \<in> set (map (\<lambda>i. (i, val' i)) ?ids)" for k
      using that val found s2(2) by fastforce
    show "pre_keys_kept (advance creds ?u) (contents s2)"
      using kept c fn by (auto simp: pre_keys_kept_def advance_def s2(2))
    show "contents s2 t j = contents s t j"
      if "t \<noteq> ''pre-key'' \<or> (\<forall>i\<in>{?n ..< ?f + count}. j \<noteq> int_str i)" for t j
      using that by (auto simp: s2(2) s1(2) apply_new_keys)
  qed
qed

end


interpretation pre_keys_mem: pre_key_store "\<lambda>_. True" "\<lambda>s. s" "\<lambda>_. True" ims_get ims_set
  by unfold_locales simp

interpretation pre_keys_cached: pre_key_store "\<lambda>t. True \<and> dot_free t" "\<lambda>c. cs_store c" ims.cs_inv "cs_get ims_get" "cs_set ims_set"
  by unfold_locales (simp add: dot_free_def)

section \<open>Reading what was written\<close>

lemma be_val_of_encoded: "encode_big_endian v n = Inr b \<Longrightarrow> length b = n \<and> be_val b = v"
  by (auto simp: encode_big_endian_def be_val_be_bytes split: if_splits)

lemma uint_of_encoded: "encode_big_endian v n = Inr b \<Longrightarrow> buffer_to_uint b n = Inr v"
  using be_val_of_encoded [of v n b] by (simp add: buffer_to_uint_spec)

lemmas bundle_access = get_binary_node_child_uint_def get_binary_node_child_buffer_def get_binary_node_child_def
  get_binary_node_children_def bytes_or_empty_def

lemma pre_key_node_read:
  assumes "xmpp_pre_key pair i = Inr n"
  shows "node_tag n = ''key''" and "extract_key (Some n) =
    Inr (Some \<lparr>ek_id = Some i, ek_public = generate_signal_pub_key (kp_public pair), ek_signature = None\<rparr>)"
  using assms by (auto simp: xmpp_pre_key_def extract_key_def bundle_access uint_of_encoded result_iffs)

lemma signed_key_node_read:
  assumes "xmpp_signed_pre_key k = Inr n"
  shows "node_tag n = ''skey''" and "extract_key (Some n) =
    Inr (Some \<lparr>ek_id = Some (spk_id k), ek_public = generate_signal_pub_key (spk_public k), ek_signature = Some (spk_signature k)\<rparr>)"
  using assms by (auto simp: xmpp_signed_pre_key_def extract_key_def bundle_access uint_of_encoded result_iffs)

lemma encode_fits: "0 \<le> v \<Longrightarrow> v < 256 ^ n \<Longrightarrow> \<exists>b. encode_big_endian v n = Inr b"
  by (simp add: encode_big_endian_def)

lemma xmpp_pre_key_fits: "0 \<le> i \<Longrightarrow> i < 2 ^ 24 \<Longrightarrow> \<exists>n. xmpp_pre_key pair i = Inr n"
  using encode_fits [of i 3] by (auto simp: xmpp_pre_key_def)

lemma key_nodes_read:
  assumes "map fst keys = map int_str ids" and "\<And>i. i \<in> set ids \<Longrightarrow> 0 \<le> i \<and> i < 2 ^ 24"
  shows "\<exists>ns. key_nodes keys = Inr ns \<and> filter (\<lambda>n. node_tag n = ''key'') ns = ns \<and>
    map (\<lambda>n. extract_key (Some n)) ns = map (\<lambda>(i, p). Inr (Some
      \<lparr>ek_id = Some i, ek_public = generate_signal_pub_key (kp_public p), ek_signature = None\<rparr>)) (zip ids (map snd keys))"
  using assms
proof (induction keys arbitrary: ids)
  case (Cons kp keys)
  then obtain i is' where ids: "ids = i # is'" "fst kp = int_str i" "map fst keys = map int_str is'" by (cases ids) auto
  obtain ns where "key_nodes keys = Inr ns" "filter (\<lambda>n. node_tag n = ''key'') ns = ns"
    "map (\<lambda>n. extract_key (Some n)) ns = map (\<lambda>(i, p). Inr (Some
      \<lparr>ek_id = Some i, ek_public = generate_signal_pub_key (kp_public p), ek_signature = None\<rparr>)) (zip is' (map snd keys))"
    using Cons.IH [OF ids(3)] Cons.prems(2) ids(1) by auto
  moreover obtain n where n: "xmpp_pre_key (snd kp) i = Inr n"
    using Cons.prems(2) [of i] ids(1) xmpp_pre_key_fits [of i] by auto
  moreover have "0 \<le> i" using Cons.prems(2) [of i] ids(1) by simp
  ultimately show ?case
    using ids pre_key_node_read [OF n] by (cases kp) (simp add: py_int_int_str)
qed simp

section \<open>Properties\<close>



definition sample_pair :: "int \<Rightarrow> key_pair" where
  "sample_pair i = \<lparr>kp_public = [to_byte i], kp_private = [to_byte (i + 1)]\<rparr>"

definition sample_creds :: pre_key_creds where
  "sample_creds = \<lparr>pc_next_pre_key_id = 3, pc_first_unuploaded = 2, pc_registration_id = 77, pc_identity_public = [4],
     pc_signed_pre_key = \<lparr>spk_id = 1, spk_public = [8], spk_signature = [9]\<rparr>\<rparr>"

lemma sample_creds_simps [simp]:
  "pc_next_pre_key_id sample_creds = 3" "pc_first_unuploaded sample_creds = 2" "pc_registration_id sample_creds = 77"
  "spk_id (pc_signed_pre_key sample_creds) = 1"
  by (simp_all add: sample_creds_def)

lemma sample_kept: "pre_keys_kept sample_creds (\<lambda>t. if t = ''pre-key'' then [int_str 2 \<mapsto> sample_pair 2] else Map.empty)"
proof -
  have "{2..<3} = {2::int}" by auto
  then show ?thesis by (simp add: pre_keys_kept_def)
qed


text \<open>The ids that a sequence of uploads announces, whether their stanzas arrive or not.\<close>

fun prepared_ids ::
    "(string \<Rightarrow> string list \<Rightarrow> 's \<Rightarrow> key_pair lookup \<times> 's) \<Rightarrow> (key_pair data_set \<Rightarrow> 's \<Rightarrow> 's) \<Rightarrow>
     ((int \<Rightarrow> key_pair) \<times> int) list \<Rightarrow> pre_key_creds \<Rightarrow> 's \<Rightarrow> string list" where
  "prepared_ids get put [] creds s = []"
| "prepared_ids get put ((gen, count) # uploads) creds s =
     (let ((u, keys), s') = get_next_pre_keys get put gen creds count s
      in map fst keys @ prepared_ids get put uploads (advance creds u) s')"

context pre_key_store
begin

lemma prepared_ids_block:
  assumes "pre_keys_kept creds (contents s)" and "inv s" and "list_all (\<lambda>(_, count). 0 \<le> count) uploads"
  shows "prepared_ids get put uploads creds s =
    map int_str [pc_first_unuploaded creds .. pc_first_unuploaded creds + sum_list (map snd uploads) - 1]"
  using assms
proof (induction uploads arbitrary: creds s)
  case (Cons up uploads)
  obtain gen count where up: "up = (gen, count)" by (cases up)
  have c: "0 \<le> count" using Cons.prems(3) up by simp
  let ?f = "pc_first_unuploaded creds"
  obtain u keys s' where b: "get_next_pre_keys get put gen creds count s = ((u, keys), s')" "snd u = ?f + count"
    "map fst keys = map int_str [?f .. ?f + count - 1]" "inv s'" "pre_keys_kept (advance creds u) (contents s')"
    by (rule upload_block [OF Cons.prems(1) c Cons.prems(2), where gen = gen]) (rule that, simp_all)
  have sum: "0 \<le> sum_list (map snd uploads)"
    using Cons.prems(3) by (intro sum_list_nonneg) (auto simp: list_all_iff)
  have "pc_first_unuploaded (advance creds u) = ?f + count" by (simp add: advance_def b(2))
  with Cons.IH [OF b(5,4)] Cons.prems(3)
  have "prepared_ids get put uploads (advance creds u) s' =
      map int_str [?f + count .. ?f + count + sum_list (map snd uploads) - 1]" by simp
  moreover have "[?f .. ?f + (count + sum_list (map snd uploads)) - 1] =
      [?f .. ?f + count - 1] @ [?f + count .. ?f + count + sum_list (map snd uploads) - 1]"
    using upto_split1 [of ?f "?f + count" "?f + count + sum_list (map snd uploads) - 1"] c sum
    by (cases "sum_list (map snd uploads) = 0") (auto simp: algebra_simps upto_split1)
  ultimately show ?case by (simp add: up b(1,3) del: upto.simps)
qed simp

end

text \<open>
  Over any sequence of uploads, of any sizes, the ids that are announced are consecutive: none
  is announced twice and none is left out.
\<close>

theorem uploads_consecutive:
  assumes "pre_keys_kept creds s" and "list_all (\<lambda>(_, count). 0 \<le> count) uploads"
  shows "prepared_ids ims_get ims_set uploads creds s =
      map int_str [pc_first_unuploaded creds .. pc_first_unuploaded creds + sum_list (map snd uploads) - 1] \<and>
    distinct (prepared_ids ims_get ims_set uploads creds s)"
  using pre_keys_mem.prepared_ids_block [OF assms(1) TrueI assms(2)]
  by (simp add: distinct_map inj_on_def int_str_inj)

theorem uploads_consecutive_witness:
  "prepared_ids ims_get ims_set [(sample_pair, 5), (sample_pair, 0), (sample_pair, 812)] sample_creds
      (\<lambda>t. if t = ''pre-key'' then [int_str 2 \<mapsto> sample_pair 2] else Map.empty) =
      map int_str [pc_first_unuploaded sample_creds .. pc_first_unuploaded sample_creds +
        sum_list (map snd [(sample_pair, 5), (sample_pair, 0), (sample_pair, 812)]) - 1] \<and>
    distinct (prepared_ids ims_get ims_set [(sample_pair, 5), (sample_pair, 0), (sample_pair, 812)] sample_creds
      (\<lambda>t. if t = ''pre-key'' then [int_str 2 \<mapsto> sample_pair 2] else Map.empty))"
  by (rule uploads_consecutive [OF sample_kept]) simp

text \<open>
  An upload sends its stanza at most four times, and waits at most seven seconds in between, well
  within the time-out of the whole upload.
\<close>

theorem upload_attempts_bounded:
  "case upload_attempts answers attempt of (_, sent, slept) \<Rightarrow> 1 \<le> sent \<and> sent \<le> 4 - min attempt 3 \<and> 0 \<le> slept \<and> slept \<le> 7000"
proof -
  have step: "case upload_attempts answers n of (_, sent, slept) \<Rightarrow> 1 \<le> sent \<and> sent \<le> 4 - min n 3 \<and> 0 \<le> slept \<and>
      slept \<le> (if n = 0 then 7000 else if n = 1 then 6000 else if n = 2 then 4000 else 0)" for n
  proof (induction answers n rule: upload_attempts.induct)
    case (1 answers n)
    have "n = 0 \<or> n = 1 \<or> n = 2 \<or> 3 \<le> n" by linarith
    with 1 show ?case
      by (subst upload_attempts.simps) (elim disjE; auto split: upload_answer.splits prod.splits simp: Let_def)
  qed
  show ?thesis using step [of attempt] by (auto split: if_splits)
qed


text \<open>
  Finding: the credentials move past the keys before the server has answered. When every attempt
  fails the keys are counted as uploaded, and no later upload announces them.
\<close>

lemma attempts_refused: "fst (upload_attempts (\<lambda>_. Refused e) attempt) = Inl e"
proof (induction "\<lambda>_::nat. Refused e" attempt rule: upload_attempts.induct)
  case (1 attempt)
  then show ?case by (subst upload_attempts.simps) (auto simp: split_beta Let_def)
qed

theorem failed_upload_skips_keys:
  assumes "get_next_pre_keys_node get put gen (us_creds st) count (us_keys st) = (Inr (u, n), s)"
    and "MIN_UPLOAD_INTERVAL \<le> now - us_last_upload_time st"
  shows "upload_pre_keys get put gen now None (\<lambda>_. Refused e) count 0 st =
    (Inl e, st\<lparr>us_keys := s, us_creds := advance (us_creds st) u, us_updates := us_updates st @ [u]\<rparr>)"
  using assms attempts_refused [of e 0]
  by (cases u; cases "upload_attempts (\<lambda>_. Refused e) 0") (simp add: upload_pre_keys_def advance_def Let_def)

text \<open>
  Finding: ids never wrap. Once a block reaches past 2^24 its stanza cannot be written, and the state
  stays as it is, so no later upload succeeds either.
\<close>

lemma key_nodes_overflow:
  "map fst keys = map int_str ids \<Longrightarrow> (\<forall>i\<in>set ids. 0 \<le> i) \<Longrightarrow> \<exists>i\<in>set ids. 2 ^ 24 \<le> i \<Longrightarrow> key_nodes keys = Inl OverflowErr"
proof (induction keys arbitrary: ids)
  case (Cons kp keys)
  then obtain i is' where ids: "ids = i # is'" "fst kp = int_str i" "map fst keys = map int_str is'" by (cases ids) auto
  have i: "0 \<le> i" "(\<forall>i\<in>set is'. 0 \<le> i)" using Cons.prems(2) ids(1) by auto
  show ?case
  proof (cases "2 ^ 24 \<le> i")
    case True
    then show ?thesis using ids(2) i(1) by (cases kp) (simp add: py_int_int_str xmpp_pre_key_def encode_big_endian_def)
  next
    case False
    then obtain n where "xmpp_pre_key (snd kp) i = Inr n" using xmpp_pre_key_fits i(1) by force
    moreover have "key_nodes keys = Inl OverflowErr"
      using False Cons.IH [OF ids(3) i(2)] Cons.prems(3) ids(1) by auto
    ultimately show ?thesis using ids(2) i(1) by (cases kp) (simp add: py_int_int_str)
  qed
qed simp

theorem upload_overflows:
  assumes "pre_keys_kept (us_creds st) (us_keys st)" and "0 < count" and "0 \<le> pc_first_unuploaded (us_creds st)"
    and "2 ^ 24 < pc_first_unuploaded (us_creds st) + count"
    and "0 \<le> pc_registration_id (us_creds st)" "pc_registration_id (us_creds st) < 2 ^ 32"
    and "MIN_UPLOAD_INTERVAL \<le> now - us_last_upload_time st"
  shows "upload_pre_keys ims_get ims_set gen now None answers count 0 st = (Inl OverflowErr, st)"
proof -
  let ?f = "pc_first_unuploaded (us_creds st)"
  have c: "0 \<le> count" using assms(2) by simp
  obtain u keys s' where b: "get_next_pre_keys ims_get ims_set gen (us_creds st) count (us_keys st) = ((u, keys), s')"
    "map fst keys = map int_str [?f .. ?f + count - 1]"
    by (rule pre_keys_mem.upload_block [OF assms(1) c TrueI, where gen = gen]) (rule that, assumption+)
  have "?f + count - 1 \<in> set [?f .. ?f + count - 1]" "2 ^ 24 \<le> ?f + count - 1" using assms(2,4) by simp_all
  moreover have "\<forall>i\<in>set [?f .. ?f + count - 1]. 0 \<le> i" using assms(3) by simp
  ultimately have "key_nodes keys = Inl OverflowErr" using key_nodes_overflow [OF b(2)] by blast
  moreover obtain reg where "encode_big_endian (pc_registration_id (us_creds st)) 4 = Inr reg"
    using encode_fits [OF assms(5), of 4] assms(6) by auto
  ultimately show ?thesis
    using assms(7) b(1) by (simp add: upload_pre_keys_def get_next_pre_keys_node_def)
qed

section \<open>Sessions from bundles\<close>

text \<open>The bundle of one device, as the server passes it on from what the device uploaded.\<close>

record published =
  bu_user :: string
  bu_device :: int
  bu_registration :: int
  bu_identity :: bytes
  bu_signed :: signed_key
  bu_key_id :: int
  bu_key :: key_pair

definition bundle_node :: "published \<Rightarrow> node result" where
  "bundle_node b =
     bindE (encode_big_endian (bu_registration b) 4) (\<lambda>reg.
     bindE (xmpp_signed_pre_key (bu_signed b)) (\<lambda>sk.
     bindE (xmpp_pre_key (bu_key b) (bu_key_id b)) (\<lambda>k.
       Inr (Node ''user'' [(''jid'', AStr (lid_jid (bu_user b) (bu_device b)))]
         (CList [Node ''registration'' [] (CBytes reg), Node ''identity'' [] (CBytes (bu_identity b)), sk, k])))))"

definition bundle_keys :: "published \<Rightarrow> key_bundle" where
  "bundle_keys b = \<lparr>kb_identity = generate_signal_pub_key (bu_identity b),
     kb_signed_pre_key = generate_signal_pub_key (spk_public (bu_signed b)),
     kb_pre_key = generate_signal_pub_key (kp_public (bu_key b))\<rparr>"

lemma bundle_node_inject:
  assumes "bundle_node b = Inr n"
  shows "node_tag n = ''user''" and "assert_node_error_free n = Inr ()"
    and "inject_users env rnd (n # ns) st = (case inject_e2e_session env (rnd (length ns))
      (lid_jid (bu_user b) (bu_device b)) (bundle_keys b) st of (Inl e, st) \<Rightarrow> (Inl e, st) | (Inr _, st) \<Rightarrow> inject_users env rnd ns st)"
proof -
  from assms obtain reg sk k where x: "encode_big_endian (bu_registration b) 4 = Inr reg"
    "xmpp_signed_pre_key (bu_signed b) = Inr sk" "xmpp_pre_key (bu_key b) (bu_key_id b) = Inr k"
    "n = Node ''user'' [(''jid'', AStr (lid_jid (bu_user b) (bu_device b)))]
         (CList [Node ''registration'' [] (CBytes reg), Node ''identity'' [] (CBytes (bu_identity b)), sk, k])"
    by (auto simp: bundle_node_def result_iffs)
  note r = signed_key_node_read [OF x(2)] pre_key_node_read [OF x(3)]
  show "node_tag n = ''user''" by (simp add: x(4))
  show "assert_node_error_free n = Inr ()"
    using r(1,3) by (simp add: x(4) assert_node_error_free_def get_binary_node_child_def get_binary_node_children_def)
  have "lid_jid (bu_user b) (bu_device b) \<noteq> ''''" by (simp add: lid_jid_def)
  with r uint_of_encoded [OF x(1)] show "inject_users env rnd (n # ns) st = (case inject_e2e_session env (rnd (length ns))
      (lid_jid (bu_user b) (bu_device b)) (bundle_keys b) st of (Inl e, st) \<Rightarrow> (Inl e, st) | (Inr _, st) \<Rightarrow> inject_users env rnd ns st)"
    by (simp add: x(4) bundle_access attr_get_def bundle_keys_def)
qed


definition bundle_address :: "published \<Rightarrow> string" where
  "bundle_address b = lid_address (bu_user b) (bu_device b)"

lemma material_given: "bundle_material (bundle_keys b) \<noteq> []"
  by (auto simp: bundle_material_def bundle_keys_def generate_signal_pub_key_def)

lemma inject_users_all:
  assumes "list_all2 (\<lambda>b n. bundle_node b = Inr n) bs ns" and "\<And>b. b \<in> set bs \<Longrightarrow> plain_lid (bu_user b) (bu_device b)"
    and "distinct (map bundle_address bs)"
  shows "fst (inject_users (mem_env sha seal unseal net) rnd ns st) = Inr () \<and>
    (\<forall>b\<in>set bs. sg_keys (snd (inject_users (mem_env sha seal unseal net) rnd ns st)) ''session'' (bundle_address b) =
      Some (sha (bundle_material (bundle_keys b)))) \<and>
    (\<forall>a. a \<notin> bundle_address ` set bs \<longrightarrow>
      sg_keys (snd (inject_users (mem_env sha seal unseal net) rnd ns st)) ''session'' a = sg_keys st ''session'' a)"
  using assms
proof (induction arbitrary: st rule: list_all2_induct)
  case (Cons b bs n ns)
  let ?env = "mem_env sha seal unseal net" and ?key = "sha (bundle_material (bundle_keys b))"
  let ?r = "inject_e2e_session ?env (rnd (length ns)) (lid_jid (bu_user b) (bu_device b)) (bundle_keys b) st"
  have p: "plain_lid (bu_user b) (bu_device b)" using Cons.prems(1) [of b] by simp
  have r: "fst ?r = Inr ()" "sg_keys (snd ?r) ''session'' = (sg_keys st ''session'')(bundle_address b \<mapsto> ?key)"
    using mem.inject_sets_session(1,3) [OF p _ material_given, where st = st and sha = sha and seal = seal
        and unseal = unseal and net = net and rnd = "rnd (length ns)"]
    by (simp_all add: bundle_address_def fun_eq_iff)
  then have "inject_users ?env rnd (n # ns) st = inject_users ?env rnd ns (snd ?r)"
    using bundle_node_inject(3) [OF Cons.hyps(1), of ?env rnd ns st] by (cases ?r) simp
  moreover note Cons.IH [of "snd ?r"]
  moreover have "bundle_address b \<notin> bundle_address ` set bs" "distinct (map bundle_address bs)" using Cons.prems(2) by simp_all
  ultimately show ?case using Cons.prems(1) r(2) by simp
qed simp

lemma bundles_inject:
  assumes "list_all2 (\<lambda>b n. bundle_node b = Inr n) bs ns" and "\<And>b. b \<in> set bs \<Longrightarrow> plain_lid (bu_user b) (bu_device b)"
    and "distinct (map bundle_address bs)"
  shows "\<exists>st'. parse_and_inject_e2e_sessions (mem_env sha seal unseal net) rnd
      (Node ''iq'' [] (CList [Node ''list'' [] (CList ns)])) st = (Inr (), st') \<and>
    (\<forall>b\<in>set bs. sg_keys st' ''session'' (bundle_address b) = Some (sha (bundle_material (bundle_keys b)))) \<and>
    (\<forall>a. a \<notin> bundle_address ` set bs \<longrightarrow> sg_keys st' ''session'' a = sg_keys st ''session'' a)"
proof -
  have tags: "filter (\<lambda>n. node_tag n = ''user'') ns = ns \<and> errors_free ns = Inr ()"
    using assms(1) by (induction rule: list_all2_induct) (simp_all add: bundle_node_inject(1,2))
  have "parse_and_inject_e2e_sessions (mem_env sha seal unseal net) rnd (Node ''iq'' [] (CList [Node ''list'' [] (CList ns)])) st =
      inject_users (mem_env sha seal unseal net) rnd ns st"
    using tags by (simp add: parse_and_inject_e2e_sessions_def get_binary_node_child_def get_binary_node_children_def)
  then show ?thesis
    using inject_users_all [OF assms, where st = st and sha = sha and seal = seal and unseal = unseal and net = net and rnd = rnd]
    by (intro exI [of _ "snd (inject_users (mem_env sha seal unseal net) rnd ns st)"])
      (metis prod.collapse)
qed

text \<open>
  Reading the bundles of a list of devices gives every one of them a session, with a key made of
  its bundle, and touches no other session.
\<close>

theorem bundles_give_sessions:
  assumes "list_all2 (\<lambda>b n. bundle_node b = Inr n) bs ns" and "\<And>b. b \<in> set bs \<Longrightarrow> plain_lid (bu_user b) (bu_device b)"
    and "distinct (map bundle_address bs)"
  shows "\<exists>st'. parse_and_inject_e2e_sessions (mem_env sha seal unseal net) rnd
      (Node ''iq'' [] (CList [Node ''list'' [] (CList ns)])) st = (Inr (), st') \<and>
    (\<forall>b\<in>set bs. sg_keys st' ''session'' (bundle_address b) = Some (sha (bundle_material (bundle_keys b)))) \<and>
    (\<forall>a. a \<notin> bundle_address ` set bs \<longrightarrow> sg_keys st' ''session'' a = sg_keys st ''session'' a)"
  by (rule bundles_inject [OF assms])

definition sample_bundle :: published where
  "sample_bundle = \<lparr>bu_user = ''22'', bu_device = 3, bu_registration = 9, bu_identity = [1],
     bu_signed = \<lparr>spk_id = 1, spk_public = [2], spk_signature = [3]\<rparr>, bu_key_id = 4, bu_key = sample_pair 5\<rparr>"

theorem bundles_give_sessions_witness:
  "\<exists>n st'. parse_and_inject_e2e_sessions (mem_env id sample_seal sample_unseal None) (\<lambda>_. [])
      (Node ''iq'' [] (CList [Node ''list'' [] (CList [n])])) (sample_storage []) = (Inr (), st') \<and>
    (\<forall>b\<in>set [sample_bundle]. sg_keys st' ''session'' (bundle_address b) = Some (id (bundle_material (bundle_keys b)))) \<and>
    (\<forall>a. a \<notin> bundle_address ` set [sample_bundle] \<longrightarrow> sg_keys st' ''session'' a = sg_keys (sample_storage []) ''session'' a)"
proof -
  obtain n where n: "bundle_node sample_bundle = Inr n"
    by (simp add: bundle_node_def sample_bundle_def encode_big_endian_def xmpp_signed_pre_key_def xmpp_pre_key_def)
  show ?thesis
    by (rule exI [of _ n], rule bundles_give_sessions)
      (simp_all add: n, simp add: sample_bundle_def plain_lid_def good_user_def clean_user_def)
qed

end
