(* ===== verification/Device_Fanout.thy ===== *)
theory Device_Fanout
  imports Pre_Keys Usync Message_Content
begin

text \<open>
  To which devices a message goes: \<open>extract_device_jids\<close> of \<^verbatim>\<open>utils/signal.py\<close> and, of
  \<^verbatim>\<open>socket/messages_send.py\<close>, the caches, \<open>get_usync_devices\<close>, \<open>assert_sessions\<close> and
  \<open>create_participant_nodes\<close>. The server's answer to a stanza, the encoding of a message and the
  configured patch are arguments; no external device cache is configured, which is the default. The
  clock does not move within an operation.
\<close>

section \<open>State\<close>

record device_entry =
  de_user :: string
  de_device :: int
  de_server :: string

datatype patched = Same_For_All pydict | Per_Jid "(string option \<times> pydict) list"

record ('l, 's) send_env =
  sv_session :: "('l, 's) session_env"
  sv_query :: "node \<Rightarrow> node result"
  sv_tag :: string
  sv_encode :: "pydict \<Rightarrow> bytes result"
  sv_patch :: "pydict \<Rightarrow> string list option \<Rightarrow> patched"
  sv_random :: "nat \<Rightarrow> bytes"
  sv_iv :: "nat \<Rightarrow> bytes"
  sv_me_id :: string
  sv_me_lid :: "string option"

record ('l, 's) send_state =
  sd_storage :: "('l, 's) signal_storage"
  sd_user_devices :: "string \<Rightarrow> (device_entry list \<times> int) option"
  sd_peer_sessions :: "string \<Rightarrow> (bool \<times> int) option"
  sd_now :: int
  sd_draws :: nat

text \<open>\<open>_ExpiringMap\<close>; both caches live 300 seconds.\<close>

definition expiring_get :: "int \<Rightarrow> string \<Rightarrow> (string \<Rightarrow> ('a \<times> int) option) \<Rightarrow> 'a option \<times> (string \<Rightarrow> ('a \<times> int) option)" where
  "expiring_get now key m = (case m key of
       None \<Rightarrow> (None, m)
     | Some (v, expires_at) \<Rightarrow> if expires_at \<le> now then (None, m(key := None)) else (Some v, m))"

definition cache_ttl_ms :: int where
  "cache_ttl_ms = 300 * 1000"

definition expiring_set :: "int \<Rightarrow> string \<Rightarrow> 'a \<Rightarrow> (string \<Rightarrow> ('a \<times> int) option) \<Rightarrow> (string \<Rightarrow> ('a \<times> int) option)" where
  "expiring_set now key v m = m(key \<mapsto> (v, now + cache_ttl_ms))"

section \<open>Devices\<close>

definition resolved_domain :: "wa_domain \<Rightarrow> bool \<Rightarrow> wa_domain" where
  "resolved_domain d is_hosted = (if is_hosted then if d = LID then HOSTED_LID else HOSTED else d)"

definition wanted_device :: "full_jid option \<Rightarrow> string \<Rightarrow> bool \<Rightarrow> string \<Rightarrow> device_list_data \<Rightarrow> bool" where
  "wanted_device mine my_lid exclude_zero_devices user d \<longleftrightarrow>
     \<not> (exclude_zero_devices \<and> dl_id d = 0) \<and>
     \<not> ((map_option jid_user mine = Some user \<or> my_lid = user) \<and>
        (case mine of None \<Rightarrow> None | Some m \<Rightarrow> jid_device m) = Some (dl_id d)) \<and>
     \<not> (dl_id d \<noteq> 0 \<and> dl_key_index d = 0)"

fun extract_devices :: "full_jid option \<Rightarrow> string \<Rightarrow> bool \<Rightarrow> (string \<times> device_list_data list) list \<Rightarrow> device_entry list result" where
  "extract_devices mine my_lid exclude_zero [] = Inr []"
| "extract_devices mine my_lid exclude_zero ((item_id, device_list) # results) =
     bindE (jid_decode (Some item_id)) (\<lambda>decoded.
     bindE (extract_devices mine my_lid exclude_zero results) (\<lambda>rest.
       Inr ((case decoded of
               None \<Rightarrow> []
             | Some d \<Rightarrow> map (\<lambda>e. \<lparr>de_user = jid_user d, de_device = dl_id e,
                 de_server = get_server_from_domain_type (jid_server d)
                   (Some (domain_int (resolved_domain (jid_domain d) (dl_is_hosted e))))\<rparr>)
                 (filter (wanted_device mine my_lid exclude_zero (jid_user d)) device_list)) @ rest)))"

definition extract_device_jids ::
    "(string \<times> device_list_data list) list \<Rightarrow> string \<Rightarrow> string \<Rightarrow> bool \<Rightarrow> device_entry list result" where
  "extract_device_jids results my_jid my_lid exclude_zero_devices =
     bindE (jid_decode (Some my_jid)) (\<lambda>mine. extract_devices mine my_lid exclude_zero_devices results)"

section \<open>Sessions for devices\<close>

text \<open>Which JIDs need a bundle: those without a session, as far as the cache knows, or all when forced.\<close>

fun requiring_fetch ::
    "('l, 's) session_env \<Rightarrow> bool \<Rightarrow> string list \<Rightarrow> ('l, 's) send_state \<Rightarrow> string list result \<times> ('l, 's) send_state" where
  "requiring_fetch env force [] st = (Inr [], st)"
| "requiring_fetch env force (jid # jids) st =
     (case address_of jid of
        Inl e \<Rightarrow> (Inl e, st)
      | Inr signal_id \<Rightarrow>
          let (cached, peers) = expiring_get (sd_now st) signal_id (sd_peer_sessions st); st = st\<lparr>sd_peer_sessions := peers\<rparr>
          in if cached = Some True \<and> \<not> force then requiring_fetch env force jids st
             else
               let (skip, st) = (if cached = None then
                     let (has_session, storage) = validate_session env jid (sd_storage st)
                     in (has_session \<and> \<not> force,
                         st\<lparr>sd_storage := storage,
                            sd_peer_sessions := expiring_set (sd_now st) signal_id has_session (sd_peer_sessions st)\<rparr>)
                   else (False, st))
               in case requiring_fetch env force jids st of
                    (Inl e, st) \<Rightarrow> (Inl e, st)
                  | (Inr rest, st) \<Rightarrow> (Inr (if skip then rest else jid # rest), st))"

definition is_lid_like :: "string \<Rightarrow> bool" where
  "is_lid_like jid \<longleftrightarrow> is_lid_user (Some jid) \<or> is_hosted_lid_user (Some jid)"

definition is_pn_like :: "string \<Rightarrow> bool" where
  "is_pn_like jid \<longleftrightarrow> \<not> is_lid_like jid \<and> (is_pn_user (Some jid) \<or> is_hosted_pn_user (Some jid))"

text \<open>\<open>list(dict.fromkeys(l))\<close>.\<close>

definition unique :: "'a list \<Rightarrow> 'a list" where
  "unique l = rev (remdups (rev l))"

definition mapped_lid :: "(string \<times> string) list \<Rightarrow> string \<Rightarrow> string" where
  "mapped_lid pairs pn = (case map_of (rev (filter (\<lambda>(p, l). p \<noteq> '''' \<and> l \<noteq> '''') (map prod.swap pairs))) pn of
     Some lid \<Rightarrow> lid | None \<Rightarrow> pn)"

text \<open>The JIDs that are sent to the server: LIDs as they are, numbers by their LID where it is known.\<close>

definition wire_jids :: "('l, 's) session_env \<Rightarrow> string list \<Rightarrow> ('l, 's) send_state \<Rightarrow> string list result \<times> ('l, 's) send_state" where
  "wire_jids env jids st =
     (let pn_jids = filter is_pn_like jids; others = filter (\<lambda>j. \<not> is_pn_like j) jids in
      if pn_jids = [] then (Inr (unique others), st)
      else let (r, lids) = get_lids_for_pns (se_lid_get env) (se_lid_put env) (se_net env) pn_jids (sg_lids (sd_storage st));
               st = st\<lparr>sd_storage := (sd_storage st)\<lparr>sg_lids := lids\<rparr>\<rparr>
           in (bindE r (\<lambda>pairs. Inr (unique (others @
                 map (mapped_lid (case pairs of None \<Rightarrow> [] | Some l \<Rightarrow> l)) pn_jids))), st))"

definition key_iq :: "string list \<Rightarrow> bool \<Rightarrow> node" where
  "key_iq jids force = Node ''iq'' [(''xmlns'', AStr ''encrypt''), (''type'', AStr ''get''), (''to'', AStr S_WHATSAPP_NET)]
     (CList [Node ''key'' [] (CList (map (\<lambda>jid. Node ''user'' ((''jid'', AStr jid) #
        (if force then [(''reason'', AStr ''identity'')] else [])) CNone) jids))])"

fun mark_sessions :: "string list \<Rightarrow> ('l, 's) send_state \<Rightarrow> unit result \<times> ('l, 's) send_state" where
  "mark_sessions [] st = (Inr (), st)"
| "mark_sessions (jid # jids) st = (case address_of jid of
       Inl e \<Rightarrow> (Inl e, st)
     | Inr signal_id \<Rightarrow> mark_sessions jids
         (st\<lparr>sd_peer_sessions := expiring_set (sd_now st) signal_id True (sd_peer_sessions st)\<rparr>))"

definition assert_sessions ::
    "('l, 's) send_env \<Rightarrow> string list \<Rightarrow> bool \<Rightarrow> ('l, 's) send_state \<Rightarrow> bool result \<times> ('l, 's) send_state" where
  "assert_sessions env jids force st =
     (case requiring_fetch (sv_session env) force (unique jids) st of
        (Inl e, st) \<Rightarrow> (Inl e, st)
      | (Inr [], st) \<Rightarrow> (Inr False, st)
      | (Inr fetch, st) \<Rightarrow>
          (case wire_jids (sv_session env) fetch st of
             (Inl e, st) \<Rightarrow> (Inl e, st)
           | (Inr [], st) \<Rightarrow> (Inr False, st)
           | (Inr wire, st) \<Rightarrow>
               (case sv_query env (key_iq wire force) of
                  Inl e \<Rightarrow> (Inl e, st)
                | Inr reply \<Rightarrow>
                    (case parse_and_inject_e2e_sessions (sv_session env) (\<lambda>i. sv_random env (sd_draws st + i)) reply (sd_storage st) of
                       (Inl e, storage) \<Rightarrow> (Inl e, st\<lparr>sd_storage := storage\<rparr>)
                     | (Inr _, storage) \<Rightarrow>
                         (case mark_sessions wire (st\<lparr>sd_storage := storage, sd_draws := sd_draws st + length wire\<rparr>) of
                            (Inl e, st) \<Rightarrow> (Inl e, st)
                          | (Inr _, st) \<Rightarrow> (Inr True, st))))))"


section \<open>The devices of a list of users\<close>

definition entry_jid :: "device_entry \<Rightarrow> string" where
  "entry_jid e = jid_encode (Some (de_user e)) (de_server e) (Some (de_device e)) None"

text \<open>
  Devices that are named explicitly are taken as they are; for the others the normalised JID and the
  user are looked up. A device comes with its JID.
\<close>

fun split_jids :: "string list \<Rightarrow> ((device_entry \<times> string) list \<times> (string \<times> string) list) result" where
  "split_jids [] = Inr ([], [])"
| "split_jids (raw # jids) =
     bindE (jid_decode (Some raw)) (\<lambda>decoded.
     let user = (case decoded of None \<Rightarrow> '''' | Some d \<Rightarrow> jid_user d);
         device = (case decoded of None \<Rightarrow> None | Some d \<Rightarrow> jid_device d)
     in case device of
          Some n \<Rightarrow>
            if 0 \<le> n \<and> user \<noteq> '''' then bindE (split_jids jids) (\<lambda>(explicit, named).
              Inr ((\<lparr>de_user = user, de_device = n, de_server = ''''\<rparr>, raw) # explicit, named))
            else bindE (jid_normalized_user (Some raw)) (\<lambda>normalized. bindE (split_jids jids) (\<lambda>(explicit, named).
              Inr (explicit, if normalized \<noteq> '''' \<and> user \<noteq> '''' then (normalized, user) # named else named)))
        | None \<Rightarrow>
            bindE (jid_normalized_user (Some raw)) (\<lambda>normalized. bindE (split_jids jids) (\<lambda>(explicit, named).
              Inr (explicit, if normalized \<noteq> '''' \<and> user \<noteq> '''' then (normalized, user) # named else named))))"

definition cached_entry :: "string \<Rightarrow> device_entry \<Rightarrow> device_entry \<times> string" where
  "cached_entry user e =
     (let u = (if de_user e = '''' then user else de_user e);
          s = (if de_server e = '''' then ''s.whatsapp.net'' else de_server e)
      in (e\<lparr>de_user := u\<rparr>, jid_encode (Some u) s (Some (de_device e)) None))"

fun from_cache ::
    "bool \<Rightarrow> (string \<times> string) list \<Rightarrow> ('l, 's) send_state \<Rightarrow> ((device_entry \<times> string) list \<times> string list) \<times> ('l, 's) send_state" where
  "from_cache use_cache [] st = (([], []), st)"
| "from_cache use_cache ((jid, user) # named) st =
     (let (cached, st) = (if use_cache
            then let (c, m) = expiring_get (sd_now st) user (sd_user_devices st) in (c, st\<lparr>sd_user_devices := m\<rparr>)
            else (None, st))
      in case cached of
           Some (e # es) \<Rightarrow> let ((found, fetch), st) = from_cache use_cache named st
                            in ((map (cached_entry user) (e # es) @ found, fetch), st)
         | _ \<Rightarrow> let ((found, fetch), st) = from_cache use_cache named st in ((found, jid # fetch), st))"

fun lid_users :: "string list \<Rightarrow> string list result" where
  "lid_users [] = Inr []"
| "lid_users (jid # jids) =
     (if is_lid_like jid then bindE (user_of jid) (\<lambda>u. bindE (lid_users jids) (\<lambda>us. Inr (if u = '''' then us else u # us)))
      else lid_users jids)"

definition item_lid :: "usync_item \<Rightarrow> string" where
  "item_lid item = (case map_of (snd item) ''lid'' of Some (Lid l) \<Rightarrow> l | _ \<Rightarrow> '''')"

definition item_devices :: "usync_item \<Rightarrow> device_list_data list" where
  "item_devices item = (case map_of (snd item) ''devices'' of Some (Devices d) \<Rightarrow> pd_device_list d | _ \<Rightarrow> [])"

text \<open>The server of an extracted device: that of a LID, where the user was asked for by LID.\<close>

definition final_entry :: "string list \<Rightarrow> device_entry \<Rightarrow> device_entry" where
  "final_entry requested_lids e =
     (let server = (if de_server e = '''' then ''s.whatsapp.net'' else de_server e)
      in e\<lparr>de_server := (if de_user e \<in> set requested_lids
             then if server = ''s.whatsapp.net'' then ''lid'' else if server = ''hosted'' then ''hosted.lid'' else server
             else server)\<rparr>)"

definition device_map :: "device_entry list \<Rightarrow> (string, device_entry list) dict" where
  "device_map es = foldl (\<lambda>d e. dict_set (de_user e) ((case map_of d (de_user e) of None \<Rightarrow> [] | Some l \<Rightarrow> l) @ [e]) d) [] es"

text \<open>The mapping between the numbers and LIDs that came with the answer, and sessions for the LIDs.\<close>

definition learn_lids ::
    "('l, 's) send_env \<Rightarrow> usync_item list \<Rightarrow> ('l, 's) send_state \<Rightarrow> unit result \<times> ('l, 's) send_state" where
  "learn_lids env items st =
     (let pairs = map (\<lambda>i. (item_lid i, fst i)) (filter (\<lambda>i. item_lid i \<noteq> '''') items) in
      if pairs = [] then (Inr (), st)
      else case store_lid_pn_mappings (se_lid_get (sv_session env)) (se_lid_put (sv_session env)) pairs (sg_lids (sd_storage st)) of
             (Inl e, lids) \<Rightarrow> (Inl e, st\<lparr>sd_storage := (sd_storage st)\<lparr>sg_lids := lids\<rparr>\<rparr>)
           | (Inr _, lids) \<Rightarrow>
               (Inr (), snd (assert_sessions env (map fst pairs) True (st\<lparr>sd_storage := (sd_storage st)\<lparr>sg_lids := lids\<rparr>\<rparr>))))"

definition keep_devices :: "(string, device_entry list) dict \<Rightarrow> ('l, 's) send_state \<Rightarrow> ('l, 's) send_state" where
  "keep_devices found st =
     st\<lparr>sd_user_devices := foldl (\<lambda>m (user, es). expiring_set (sd_now st) user es m) (sd_user_devices st) found,
        sd_storage := (sd_storage st)\<lparr>sg_device_lists := foldl (\<lambda>m (user, es). m(user \<mapsto> map (\<lambda>e. int_str (de_device e)) es))
          (sg_device_lists (sd_storage st)) found\<rparr>\<rparr>"

definition device_query :: "string list \<Rightarrow> usync_query" where
  "device_query jids = foldl (\<lambda>q jid. with_user \<lparr>uu_id = Some jid, uu_lid = None, uu_phone = None, uu_persona_id = None\<rparr> q)
     (with_protocol Lid_Protocol (with_protocol Device_Protocol (with_context ''message'' new_usync_query))) jids"

definition get_usync_devices ::
    "('l, 's) send_env \<Rightarrow> string list \<Rightarrow> bool \<Rightarrow> bool \<Rightarrow> ('l, 's) send_state \<Rightarrow>
     (device_entry \<times> string) list result \<times> ('l, 's) send_state" where
  "get_usync_devices env jids use_cache ignore_zero_devices st =
     (case split_jids jids of
        Inl e \<Rightarrow> (Inl e, st)
      | Inr (explicit, named) \<Rightarrow>
          let ((found, to_fetch), st) = from_cache use_cache named st in
          if to_fetch = [] then (Inr (explicit @ found), st)
          else case bindE (lid_users to_fetch) (\<lambda>us. bindE (usync_iq (sv_tag env) (device_query to_fetch)) (\<lambda>iq.
                    bindE (sv_query env iq) (\<lambda>reply.
                    bindE (parse_usync_query_result [Device_Protocol, Lid_Protocol] (Some reply)) (\<lambda>r. Inr (us, r))))) of
                 Inl e \<Rightarrow> (Inl e, st)
               | Inr (requested_lids, None) \<Rightarrow> (Inr (explicit @ found), st)
               | Inr (requested_lids, Some result) \<Rightarrow>
                   (case learn_lids env (ur_list result) st of
                      (Inl e, st) \<Rightarrow> (Inl e, st)
                    | (Inr _, st) \<Rightarrow>
                        (case extract_device_jids (map (\<lambda>i. (fst i, item_devices i)) (ur_list result)) (sv_me_id env)
                               (str_or_empty (sv_me_lid env)) ignore_zero_devices of
                           Inl e \<Rightarrow> (Inl e, st)
                         | Inr extracted \<Rightarrow>
                             let final = map (final_entry requested_lids) (filter (\<lambda>e. de_user e \<noteq> '''') extracted)
                             in (Inr (explicit @ found @ map (\<lambda>e. (e, entry_jid e)) final), keep_devices (device_map final) st))))"

section \<open>Encrypting for recipients\<close>

text \<open>The messages to encrypt, each with its recipient.\<close>

definition patched_messages :: "patched \<Rightarrow> string list \<Rightarrow> (string \<times> pydict) list" where
  "patched_messages p recipient_jids = (case p of
       Same_For_All m \<Rightarrow> map (\<lambda>r. (r, m)) recipient_jids
     | Per_Jid items \<Rightarrow> List.map_filter (\<lambda>(i, r, m).
         let recipient = (if str_given r then str_or_empty r
                          else if i < length recipient_jids then recipient_jids ! i else '''')
         in if recipient = '''' then None else Some (recipient, m)) (enumerate 0 items))"

definition user_of_opt :: "string option \<Rightarrow> string option result" where
  "user_of_opt j = (case j of None \<Rightarrow> Inr None | Some s \<Rightarrow> bindE (jid_decode (Some s)) (\<lambda>d. Inr (map_option jid_user d)))"

text \<open>Own devices get the copy for devices of the sender, except the sending one.\<close>

definition message_for :: "('l, 's) send_env \<Rightarrow> string option \<Rightarrow> string option \<Rightarrow> pydict \<Rightarrow> string \<Rightarrow> pydict \<Rightarrow> pydict result" where
  "message_for env me_id_user me_lid_user dsm_message jid m =
     (if dsm_message = [] then Inr m
      else bindE (user_of_opt (Some jid)) (\<lambda>target_user.
        let is_own_user = target_user = me_id_user \<or> (str_given me_lid_user \<and> target_user = me_lid_user);
            is_exact_sender = jid = sv_me_id env \<or> (str_given (sv_me_lid env) \<and> Some jid = sv_me_lid env)
        in Inr (if is_own_user \<and> \<not> is_exact_sender then dsm_message else m)))"

definition enc_node :: "string \<Rightarrow> string \<Rightarrow> attrs \<Rightarrow> bytes \<Rightarrow> node" where
  "enc_node jid enc_type extra_attrs ciphertext = Node ''to'' [(''jid'', AStr jid)]
     (CList [Node ''enc'' (dict_update [(''v'', AStr ''2''), (''type'', AStr enc_type)] extra_attrs) (CBytes ciphertext)])"

text \<open>A recipient for which something raises gets no node; what was changed for it stays.\<close>

fun encrypt_each ::
    "('l, 's) send_env \<Rightarrow> string option \<Rightarrow> string option \<Rightarrow> attrs \<Rightarrow> pydict \<Rightarrow> (string \<times> pydict) list \<Rightarrow>
     ('l, 's) send_state \<Rightarrow> (node list \<times> bool) \<times> ('l, 's) send_state" where
  "encrypt_each env mu lu extra_attrs dsm [] st = (([], False), st)"
| "encrypt_each env mu lu extra_attrs dsm ((jid, m) # ms) st =
     (if jid = '''' then encrypt_each env mu lu extra_attrs dsm ms st
      else case bindE (message_for env mu lu dsm jid m) (sv_encode env) of
        Inl _ \<Rightarrow> encrypt_each env mu lu extra_attrs dsm ms st
      | Inr payload \<Rightarrow>
          (case encrypt_message (sv_session env) (sv_random env (sd_draws st)) (sv_iv env (sd_draws st)) jid payload (sd_storage st) of
             (Inl _, storage) \<Rightarrow> encrypt_each env mu lu extra_attrs dsm ms (st\<lparr>sd_storage := storage, sd_draws := sd_draws st + 1\<rparr>)
           | (Inr (enc_type, ciphertext), storage) \<Rightarrow>
               let ((nodes, identity), st) = encrypt_each env mu lu extra_attrs dsm ms
                     (st\<lparr>sd_storage := storage, sd_draws := sd_draws st + 1\<rparr>)
               in ((enc_node jid enc_type extra_attrs ciphertext # nodes, enc_type = ''pkmsg'' \<or> identity), st)))"

definition create_participant_nodes ::
    "('l, 's) send_env \<Rightarrow> string list \<Rightarrow> pydict \<Rightarrow> attrs \<Rightarrow> pydict \<Rightarrow> ('l, 's) send_state \<Rightarrow>
     (node list \<times> bool) result \<times> ('l, 's) send_state" where
  "create_participant_nodes env recipient_jids message extra_attrs dsm_message st =
     (if recipient_jids = [] then (Inr ([], False), st)
      else case bindE (user_of_opt (Some (sv_me_id env))) (\<lambda>mu.
               bindE (if str_given (sv_me_lid env) then user_of_opt (sv_me_lid env) else Inr None) (\<lambda>lu. Inr (mu, lu))) of
             Inl e \<Rightarrow> (Inl e, st)
           | Inr (mu, lu) \<Rightarrow>
               let ((nodes, identity), st) = encrypt_each env mu lu extra_attrs dsm_message
                     (patched_messages (sv_patch env message (Some recipient_jids)) recipient_jids) st
               in if nodes = [] then (Inl (RuntimeError ''All encryptions failed''), st) else (Inr (nodes, identity), st))"


section \<open>Every device is reached\<close>

lemma mem_load_lid:
  "plain_lid u d \<Longrightarrow> load_session_bytes (mem_env sha seal unseal net) (lid_address u d) st = (Inr (sg_keys st ''session'' (lid_address u d)), st)"
  by (simp add: load_session_bytes_def load_bytes_def resolve_lid_address bytes_get_def ims_get_def)

lemma mem_validate_lid:
  "plain_lid u d \<Longrightarrow> sg_keys st ''session'' (lid_address u d) = None \<Longrightarrow>
   validate_session (mem_env sha seal unseal net) (lid_jid u d) st = (False, st)"
  by (simp add: validate_session_def address_of_lid mem_load_lid)

lemma mem_encrypt_lid:
  assumes "plain_lid u d" and "sg_keys st ''session'' (lid_address u d) = Some k" and "k \<noteq> []"
  shows "encrypt_message (mem_env sha seal unseal net) rnd iv (lid_jid u d) p st =
    (Inr (''msg'', iv @ aes_encrypt_gcm seal p k iv []), st)"
  using assms by (cases k) (simp_all add: encrypt_message_def address_of_lid session_encrypt_def mem_load_lid
      get_or_create_session_key_def)

definition bundle_jid :: "published \<Rightarrow> string" where
  "bundle_jid b = lid_jid (bu_user b) (bu_device b)"

definition plain_bundle :: "published \<Rightarrow> bool" where
  "plain_bundle b \<longleftrightarrow> plain_lid (bu_user b) (bu_device b)"

lemma bundle_address_of: "plain_bundle b \<Longrightarrow> address_of (bundle_jid b) = Inr (bundle_address b)"
  by (simp add: bundle_jid_def bundle_address_def plain_bundle_def address_of_lid)

lemma requiring_fetch_all:
  assumes "\<And>b. b \<in> set bs \<Longrightarrow> plain_bundle b \<and> sd_peer_sessions st (bundle_address b) = None \<and>
      sg_keys (sd_storage st) ''session'' (bundle_address b) = None"
    and "distinct (map bundle_address bs)"
  shows "\<exists>peers. requiring_fetch (mem_env sha seal unseal net) False (map bundle_jid bs) st =
    (Inr (map bundle_jid bs), st\<lparr>sd_peer_sessions := peers\<rparr>)"
  using assms
proof (induction bs arbitrary: st)
  case Nil
  show ?case by (simp add: exI [of _ "sd_peer_sessions st"])
next
  case (Cons b bs)
  let ?env = "mem_env sha seal unseal net"
  let ?st = "st\<lparr>sd_peer_sessions := expiring_set (sd_now st) (bundle_address b) False (sd_peer_sessions st)\<rparr>"
  have b: "plain_bundle b" "sd_peer_sessions st (bundle_address b) = None"
    "sg_keys (sd_storage st) ''session'' (bundle_address b) = None" using Cons.prems(1) [of b] by simp_all
  have "validate_session ?env (bundle_jid b) (sd_storage st) = (False, sd_storage st)"
    using mem_validate_lid b(1,3) by (simp add: plain_bundle_def bundle_address_def bundle_jid_def)
  moreover have "expiring_get (sd_now st) (bundle_address b) (sd_peer_sessions st) = (None, sd_peer_sessions st)"
    by (simp add: expiring_get_def b(2))
  moreover obtain peers where "requiring_fetch ?env False (map bundle_jid bs) ?st = (Inr (map bundle_jid bs), ?st\<lparr>sd_peer_sessions := peers\<rparr>)"
  proof -
    have "plain_bundle c \<and> sd_peer_sessions ?st (bundle_address c) = None \<and>
        sg_keys (sd_storage ?st) ''session'' (bundle_address c) = None" if "c \<in> set bs" for c
    proof -
      have "bundle_address b \<notin> bundle_address ` set bs" using Cons.prems(2) by simp
      with that have "bundle_address c \<noteq> bundle_address b" by (metis image_eqI)
      then show ?thesis using Cons.prems(1) [of c] that by (simp add: expiring_set_def)
    qed
    from Cons.IH [OF this] Cons.prems(2) show thesis using that by simp blast
  qed
  ultimately show ?case
    using bundle_address_of [OF b(1)] by (simp, blast)
qed

lemma unique_distinct: "distinct l \<Longrightarrow> unique l = l"
  by (simp add: unique_def distinct_remdups_id)

lemma distinct_jids:
  assumes "\<And>b. b \<in> set bs \<Longrightarrow> plain_bundle b" and "distinct (map bundle_address bs)"
  shows "distinct (map bundle_jid bs)"
proof -
  have "bundle_jid a = bundle_jid b \<Longrightarrow> bundle_address a = bundle_address b" if "a \<in> set bs" "b \<in> set bs" for a b
    using bundle_address_of [OF assms(1) [OF that(1)]] bundle_address_of [OF assms(1) [OF that(2)]] by simp
  with assms(2) show ?thesis unfolding distinct_map inj_on_def by blast
qed

lemma mark_sessions_ok:
  "(\<And>b. b \<in> set bs \<Longrightarrow> plain_bundle b) \<Longrightarrow>
   \<exists>peers. mark_sessions (map bundle_jid bs) st = (Inr (), st\<lparr>sd_peer_sessions := peers\<rparr>)"
proof (induction bs arbitrary: st)
  case Nil
  show ?case by (simp add: exI [of _ "sd_peer_sessions st"])
next
  case (Cons b bs)
  let ?st = "st\<lparr>sd_peer_sessions := expiring_set (sd_now st) (bundle_address b) True (sd_peer_sessions st)\<rparr>"
  obtain peers where "mark_sessions (map bundle_jid bs) ?st = (Inr (), ?st\<lparr>sd_peer_sessions := peers\<rparr>)"
    using Cons.IH [of ?st] Cons.prems by (meson list.set_intros(2))
  then show ?case using bundle_address_of [of b] Cons.prems by (simp, blast)
qed

text \<open>Asserting sessions with devices that have none asks for their bundles and sets them all up.\<close>

lemma assert_sessions_fetches:
  assumes env: "sv_session env = mem_env sha seal unseal net" and ne: "bs \<noteq> []"
    and b: "\<And>b. b \<in> set bs \<Longrightarrow> plain_bundle b \<and> sd_peer_sessions st (bundle_address b) = None \<and>
      sg_keys (sd_storage st) ''session'' (bundle_address b) = None"
    and d: "distinct (map bundle_address bs)" and ns: "list_all2 (\<lambda>b n. bundle_node b = Inr n) bs ns"
    and q: "sv_query env (key_iq (map bundle_jid bs) False) = Inr (Node ''iq'' [] (CList [Node ''list'' [] (CList ns)]))"
  obtains st' where "assert_sessions env (map bundle_jid bs) False st = (Inr True, st')"
    and "\<And>b. b \<in> set bs \<Longrightarrow> sg_keys (sd_storage st') ''session'' (bundle_address b) = Some (sha (bundle_material (bundle_keys b)))"
proof -
  let ?jids = "map bundle_jid bs"
  have pb: "\<And>b. b \<in> set bs \<Longrightarrow> plain_bundle b" using b by blast
  have dj: "distinct ?jids" by (rule distinct_jids [OF pb d])
  obtain peers where r: "requiring_fetch (sv_session env) False ?jids st = (Inr ?jids, st\<lparr>sd_peer_sessions := peers\<rparr>)"
    using requiring_fetch_all [OF b d] unfolding env by blast
  let ?st = "st\<lparr>sd_peer_sessions := peers\<rparr>"
  have "\<not> is_pn_like (bundle_jid b)" for b using jid_class(1) by (simp add: is_pn_like_def is_lid_like_def bundle_jid_def)
  then have "filter is_pn_like ?jids = []" "filter (\<lambda>j. \<not> is_pn_like j) ?jids = ?jids" by (simp_all add: filter_empty_conv)
  then have w: "wire_jids (sv_session env) ?jids ?st = (Inr ?jids, ?st)" by (simp add: wire_jids_def unique_distinct [OF dj])
  obtain storage where i: "parse_and_inject_e2e_sessions (sv_session env) (\<lambda>i. sv_random env (sd_draws ?st + i))
      (Node ''iq'' [] (CList [Node ''list'' [] (CList ns)])) (sd_storage ?st) = (Inr (), storage)"
    "\<forall>b\<in>set bs. sg_keys storage ''session'' (bundle_address b) = Some (sha (bundle_material (bundle_keys b)))"
    using bundles_inject [OF ns _ d, where st = "sd_storage ?st" and sha = sha and seal = seal and unseal = unseal and net = net
        and rnd = "\<lambda>i. sv_random env (sd_draws ?st + i)"] pb
    by (auto simp: env plain_bundle_def)
  obtain peers2 where m: "mark_sessions ?jids (?st\<lparr>sd_storage := storage, sd_draws := sd_draws ?st + length ?jids\<rparr>) =
      (Inr (), ?st\<lparr>sd_storage := storage, sd_draws := sd_draws ?st + length ?jids, sd_peer_sessions := peers2\<rparr>)"
    using mark_sessions_ok [where bs = bs and st = "?st\<lparr>sd_storage := storage, sd_draws := sd_draws ?st + length ?jids\<rparr>"] pb
    by blast
  obtain j js where js: "?jids = j # js" using ne by (cases bs) auto
  have "assert_sessions env ?jids False st =
      (Inr True, ?st\<lparr>sd_storage := storage, sd_draws := sd_draws ?st + length ?jids, sd_peer_sessions := peers2\<rparr>)"
    using r w q i(1) m unfolding js by (simp add: assert_sessions_def unique_distinct [OF dj [unfolded js]])
  then show thesis by (rule that) (simp add: i(2))
qed


text \<open>What is encrypted for devices that have sessions.\<close>

definition sealed_for :: "(bytes \<Rightarrow> bytes) \<Rightarrow> (bytes \<Rightarrow> bytes \<Rightarrow> bytes \<Rightarrow> bytes \<Rightarrow> bytes \<Rightarrow> bytes result) \<Rightarrow> attrs \<Rightarrow> bytes \<Rightarrow>
    published \<Rightarrow> node \<Rightarrow> bool" where
  "sealed_for sha unseal extra_attrs p b n \<longleftrightarrow> (\<exists>c. n = enc_node (bundle_jid b) ''msg'' extra_attrs c \<and>
     aes_decrypt_gcm unseal (drop 12 c) (sha (bundle_material (bundle_keys b))) (take 12 c) [] = Inr p)"

lemma encrypt_each_sealed:
  assumes env: "sv_session env = mem_env sha seal unseal net" "cipher_ok seal unseal" "\<And>n. length (sv_iv env n) = 12"
    and enc: "sv_encode env m = Inr p"
    and b: "\<And>b. b \<in> set bs \<Longrightarrow> plain_bundle b \<and> sha (bundle_material (bundle_keys b)) \<noteq> [] \<and>
      sg_keys (sd_storage st) ''session'' (bundle_address b) = Some (sha (bundle_material (bundle_keys b)))"
    and mf: "\<And>b. b \<in> set bs \<Longrightarrow> message_for env mu lu dsm (bundle_jid b) m = Inr m"
  shows "\<exists>nodes st'. encrypt_each env mu lu extra_attrs dsm (map (\<lambda>b. (bundle_jid b, m)) bs) st = ((nodes, False), st') \<and>
    list_all2 (sealed_for sha unseal extra_attrs p) bs nodes"
  using b mf
proof (induction bs arbitrary: st)
  case (Cons b bs)
  let ?k = "sha (bundle_material (bundle_keys b))" and ?iv = "sv_iv env (sd_draws st)"
  let ?c = "?iv @ aes_encrypt_gcm seal p ?k ?iv []" and ?st = "st\<lparr>sd_storage := sd_storage st, sd_draws := sd_draws st + 1\<rparr>"
  have b: "plain_lid (bu_user b) (bu_device b)" "?k \<noteq> []"
    "sg_keys (sd_storage st) ''session'' (lid_address (bu_user b) (bu_device b)) = Some ?k"
    using Cons.prems(1) [of b] by (simp_all add: plain_bundle_def bundle_address_def)
  have e: "encrypt_message (sv_session env) (sv_random env (sd_draws st)) ?iv (bundle_jid b) p (sd_storage st) =
      (Inr (''msg'', ?c), sd_storage st)"
    unfolding env(1) bundle_jid_def by (rule mem_encrypt_lid [OF b(1,3,2)])
  obtain nodes st' where r: "encrypt_each env mu lu extra_attrs dsm (map (\<lambda>b. (bundle_jid b, m)) bs) ?st = ((nodes, False), st')"
    "list_all2 (sealed_for sha unseal extra_attrs p) bs nodes"
    using Cons.IH [of ?st] Cons.prems by auto
  have "sealed_for sha unseal extra_attrs p b (enc_node (bundle_jid b) ''msg'' extra_attrs ?c)"
    unfolding sealed_for_def
    using cipher_roundtrip [OF env(2), of p ?k ?iv "[]"] env(3) [of "sd_draws st"] by (intro exI [of _ ?c]) simp
  moreover have "bundle_jid b \<noteq> ''''" by (simp add: bundle_jid_def lid_jid_def)
  ultimately show ?case using r e enc Cons.prems(2) [of b] by simp
qed simp

lemma participant_nodes_sealed:
  assumes env: "sv_session env = mem_env sha seal unseal net" "cipher_ok seal unseal" "\<And>n. length (sv_iv env n) = 12"
    and enc: "sv_encode env m = Inr p" "\<And>js. sv_patch env m js = Same_For_All m"
    and me: "user_of_opt (Some (sv_me_id env)) = Inr mu" "sv_me_lid env = None" and ne: "bs \<noteq> []"
    and b: "\<And>b. b \<in> set bs \<Longrightarrow> plain_bundle b \<and> sha (bundle_material (bundle_keys b)) \<noteq> [] \<and>
      sg_keys (sd_storage st) ''session'' (bundle_address b) = Some (sha (bundle_material (bundle_keys b)))"
    and mf: "\<And>b. b \<in> set bs \<Longrightarrow> message_for env mu None dsm (bundle_jid b) m = Inr m"
  shows "\<exists>nodes st'. create_participant_nodes env (map bundle_jid bs) m extra_attrs dsm st = (Inr (nodes, False), st') \<and>
    nodes \<noteq> [] \<and> list_all2 (sealed_for sha unseal extra_attrs p) bs nodes"
proof -
  from encrypt_each_sealed [OF env enc(1) b mf, where extra_attrs = extra_attrs]
  obtain nodes st' where e: "encrypt_each env mu None extra_attrs dsm (map (\<lambda>b. (bundle_jid b, m)) bs) st = ((nodes, False), st')"
    "list_all2 (sealed_for sha unseal extra_attrs p) bs nodes" by blast
  have "nodes \<noteq> []" using e(2) ne by auto
  then have "create_participant_nodes env (map bundle_jid bs) m extra_attrs dsm st = (Inr (nodes, False), st')"
    using e(1) ne me enc(2) by (simp add: create_participant_nodes_def patched_messages_def o_def str_given_def str_or_empty_def)
  with \<open>nodes \<noteq> []\<close> e(2) show ?thesis by blast
qed

section \<open>Properties\<close>

text \<open>
  For devices without a session, asserting sessions fetches their bundles, and encrypting then
  gives every one of them exactly one node, in order, that decrypts with its session's key to the
  message.
\<close>

theorem every_device_reached:
  assumes env: "sv_session env = mem_env sha seal unseal net" "cipher_ok seal unseal" "\<And>n. length (sv_iv env n) = 12"
    and enc: "sv_encode env m = Inr p" "\<And>js. sv_patch env m js = Same_For_All m"
    and me: "user_of_opt (Some (sv_me_id env)) = Inr mu" "sv_me_lid env = None"
    and ne: "bs \<noteq> []" and k: "\<And>b. sha (bundle_material (bundle_keys b)) \<noteq> []"
    and b: "\<And>b. b \<in> set bs \<Longrightarrow> plain_bundle b \<and> sd_peer_sessions st (bundle_address b) = None \<and>
      sg_keys (sd_storage st) ''session'' (bundle_address b) = None"
    and d: "distinct (map bundle_address bs)" and ns: "list_all2 (\<lambda>b n. bundle_node b = Inr n) bs ns"
    and q: "sv_query env (key_iq (map bundle_jid bs) False) = Inr (Node ''iq'' [] (CList [Node ''list'' [] (CList ns)]))"
  shows "\<exists>st' nodes st''. assert_sessions env (map bundle_jid bs) False st = (Inr True, st') \<and>
    create_participant_nodes env (map bundle_jid bs) m extra_attrs [] st' = (Inr (nodes, False), st'') \<and>
    list_all2 (sealed_for sha unseal extra_attrs p) bs nodes"
proof -
  obtain st' where a: "assert_sessions env (map bundle_jid bs) False st = (Inr True, st')"
    "\<And>b. b \<in> set bs \<Longrightarrow> sg_keys (sd_storage st') ''session'' (bundle_address b) = Some (sha (bundle_material (bundle_keys b)))"
    using assert_sessions_fetches [OF env(1) ne b d ns q] by blast
  have "\<And>b. b \<in> set bs \<Longrightarrow> plain_bundle b \<and> sha (bundle_material (bundle_keys b)) \<noteq> [] \<and>
      sg_keys (sd_storage st') ''session'' (bundle_address b) = Some (sha (bundle_material (bundle_keys b)))"
    using a(2) b k by blast
  from participant_nodes_sealed [OF env enc me ne this, where dsm = "[]" and extra_attrs = extra_attrs] a(1)
  show ?thesis by (simp add: message_for_def) blast
qed

definition sample_node :: node where
  "sample_node = (case bundle_node sample_bundle of Inr n \<Rightarrow> n | Inl _ \<Rightarrow> Node '''' [] CNone)"

definition sample_env :: "(string store, bytes store) send_env" where
  "sample_env = \<lparr>sv_session = mem_env (\<lambda>b. 5 # b) sample_seal sample_unseal None,
     sv_query = (\<lambda>_. Inr (Node ''iq'' [] (CList [Node ''list'' [] (CList [sample_node])]))), sv_tag = ''1'',
     sv_encode = (\<lambda>_. Inr [104, 105]), sv_patch = (\<lambda>m _. Same_For_All m), sv_random = (\<lambda>_. []),
     sv_iv = (\<lambda>_. replicate 12 7), sv_me_id = ''11@s.whatsapp.net'', sv_me_lid = None\<rparr>"

definition sample_state :: "(string store, bytes store) send_state" where
  "sample_state = \<lparr>sd_storage = sample_storage [], sd_user_devices = Map.empty, sd_peer_sessions = Map.empty, sd_now = 0, sd_draws = 0\<rparr>"

theorem every_device_reached_witness:
  "\<exists>st' nodes st''. assert_sessions sample_env (map bundle_jid [sample_bundle]) False sample_state = (Inr True, st') \<and>
    create_participant_nodes sample_env (map bundle_jid [sample_bundle]) [(''conversation'', PStr ''hi'')] [] [] st' =
      (Inr (nodes, False), st'') \<and>
    list_all2 (sealed_for (\<lambda>b. 5 # b) sample_unseal [] [104, 105]) [sample_bundle] nodes"
proof (rule every_device_reached)
  show "user_of_opt (Some (sv_me_id sample_env)) = Inr (Some ''11'')"
    unfolding sample_env_def by code_simp
  show "list_all2 (\<lambda>b n. bundle_node b = Inr n) [sample_bundle] [sample_node]"
    by (simp add: sample_node_def bundle_node_def sample_bundle_def encode_big_endian_def xmpp_signed_pre_key_def xmpp_pre_key_def)
  show "cipher_ok sample_seal sample_unseal" by simp
  fix b assume "b \<in> set [sample_bundle]"
  then show "plain_bundle b \<and> sd_peer_sessions sample_state (bundle_address b) = None \<and>
      sg_keys (sd_storage sample_state) ''session'' (bundle_address b) = None"
    by (simp add: sample_state_def plain_bundle_def sample_bundle_def plain_lid_def good_user_def clean_user_def)
qed (simp_all add: sample_env_def)

text \<open>
  Finding: the own LID is passed to \<open>extract_device_jids\<close> as a JID, while it is compared with users.
  The own device is recognised under the number, but not under the LID.
\<close>

theorem own_lid_device_kept:
  assumes "good_user pu" "good_user lu" "0 < d" "pu \<noteq> lu" "dl_id e = d" "dl_key_index e \<noteq> 0" "\<not> dl_is_hosted e"
  shows "extract_device_jids [(pn_jid pu 0, [e]), (lid_jid lu 0, [e])] (pn_jid pu d) (lid_jid lu d) False =
    Inr [\<lparr>de_user = lu, de_device = d, de_server = ''lid''\<rparr>]"
proof -
  have ne: "lid_jid lu d \<noteq> lu" "lid_jid lu d \<noteq> pu" using assms(1) by (auto simp: lid_jid_def good_user_def clean_user_def)
  show ?thesis
    using assms ne decode_jids [of pu] decode_jids [of lu]
    by (simp add: extract_device_jids_def wanted_device_def resolved_domain_def get_server_from_domain_type_def)
qed

text \<open>
  Finding: that a number has no session is remembered, and not forgotten when a session is set up
  under its LID. Until the entry expires every message fetches a bundle again, which replaces the session.
\<close>

theorem absence_remembered:
  assumes "plain_lid pu d" and "sd_peer_sessions st (pn_address pu d) = Some (False, t)" and "sd_now st < t"
  shows "requiring_fetch env False [pn_jid pu d] st = (Inr [pn_jid pu d], st)"
    and "plain_lid lu d \<Longrightarrow> sd_peer_sessions (snd (mark_sessions [lid_jid lu d] st)) (pn_address pu d) = Some (False, t)"
  using assms address_inj(3) [OF assms(1), of lu d]
  by (simp_all add: address_of_pn address_of_lid expiring_get_def expiring_set_def)

end
