(* ===== verification/Message_Relay.thy ===== *)
theory Message_Relay
  imports Device_Fanout Group_Cipher
begin

text \<open>
  Sending a message: \<open>relay_message\<close> of \<^verbatim>\<open>socket/messages_send.py\<close>. To a group it goes
  once, encrypted with the sender key, with the key itself for the devices that do not have it; to a
  person it goes to each device. The operation runs in a transaction of the key store; the state that
  comes with an error here is the one before the transaction is undone. The JID is the resolved one
  (theory \<open>Identity\<close>). Metadata of groups, the reporting token and the encoded account are arguments.
  The participant hash that the code computes for a person's devices is not sent and not modelled.
\<close>

section \<open>The type of a message\<close>

definition media_types :: "(string \<times> string) list" where
  "media_types = [(''contactMessage'', ''vcard''), (''documentMessage'', ''document''),
     (''contactsArrayMessage'', ''contact_array''), (''liveLocationMessage'', ''livelocation''),
     (''stickerMessage'', ''sticker''), (''listMessage'', ''list''), (''listResponseMessage'', ''list_response''),
     (''buttonsResponseMessage'', ''buttons_response''), (''orderMessage'', ''order''), (''productMessage'', ''product''),
     (''interactiveResponseMessage'', ''native_flow_response''), (''groupInviteMessage'', ''url'')]"

definition get_media_type :: "pydict \<Rightarrow> string" where
  "get_media_type message =
     (if truthy (py_get ''imageMessage'' message) then ''image''
      else if truthy (py_get ''videoMessage'' message)
      then if truthy (py_get ''gifPlayback'' (dict_or_empty (py_get ''videoMessage'' message))) then ''gif'' else ''video''
      else if truthy (py_get ''audioMessage'' message)
      then if truthy (py_get ''ptt'' (dict_or_empty (py_get ''audioMessage'' message))) then ''ptt'' else ''audio''
      else case find (\<lambda>(k, _). truthy (py_get k message)) media_types of Some (_, t) \<Rightarrow> t | None \<Rightarrow> '''')"

definition get_message_type :: "pydict \<Rightarrow> string" where
  "get_message_type message =
     (let normalized = (case normalize_message_content (Some message) of None \<Rightarrow> [] | Some n \<Rightarrow> n);
          has = (\<lambda>k. truthy (py_get k normalized))
      in if has ''reactionMessage'' \<or> has ''encReactionMessage'' then ''reaction''
         else if has ''pollCreationMessage'' \<or> has ''pollCreationMessageV2'' \<or> has ''pollCreationMessageV3'' \<or> has ''pollUpdateMessage''
         then ''poll''
         else if has ''eventMessage'' then ''event''
         else if get_media_type normalized \<noteq> '''' then ''media''
         else ''text'')"

definition relay_extra_attrs :: "pydict \<Rightarrow> attrs" where
  "relay_extra_attrs message =
     (let media_type = get_media_type message;
          normalized = (case normalize_message_content (Some message) of None \<Rightarrow> [] | Some n \<Rightarrow> n)
      in (if media_type \<noteq> '''' then [(''mediatype'', AStr media_type)] else []) @
         (if truthy (py_get ''pinInChatMessage'' normalized) \<or> truthy (py_get ''reactionMessage'' normalized)
          then [(''decrypt-fail'', AStr ''hide'')] else []))"

section \<open>State\<close>

record group_data =
  gd_participants :: "string list"
  gd_ephemeral_duration :: "int option"
  gd_addressing_mode :: string

record ('l, 's) relay_env =
  ry_send :: "('l, 's) send_env"
  ry_group :: group_crypto
  ry_fresh :: "int \<times> bytes \<times> (bytes \<times> bytes)"
  ry_metadata :: "bool \<Rightarrow> string \<Rightarrow> group_data option result"
  ry_newsletter :: "pydict \<Rightarrow> bytes"
  ry_account :: "bytes option"
  ry_report :: "pydict \<Rightarrow> string \<Rightarrow> string \<Rightarrow> node option"

record ('l, 's) relay_state =
  rl_send :: "('l, 's) send_state"
  rl_sender_keys :: sender_keys
  rl_memory :: "string \<Rightarrow> (string, bool) dict option"
  rl_tokens :: "string \<Rightarrow> bytes option"
  rl_sent :: "node list"
  rl_recent :: "(string \<times> string \<times> pydict) list"

text \<open>A message to relay; a participant, with its retry count, is given when it is sent again to one device.\<close>

record relay_input =
  ri_jid :: string
  ri_message :: pydict
  ri_id :: string
  ri_participant :: "(string \<times> int) option"
  ri_attrs :: attrs
  ri_nodes :: "node list"
  ri_use_devices_cache :: bool
  ri_use_cached_metadata :: bool
  ri_status_jids :: "string list"

text \<open>What has been put together so far: participant nodes, content, whether to identify the device, attributes.\<close>

record draft =
  dr_participants :: "node list"
  dr_content :: "node list"
  dr_identity :: bool
  dr_attrs :: attrs
  dr_reporting :: pydict

section \<open>To a group\<close>

definition the_same :: "patched \<Rightarrow> pydict result" where
  "the_same p = (case p of Same_For_All m \<Rightarrow> Inr m | Per_Jid _ \<Rightarrow> Inl (ValueError ''Per-jid patching is not supported in groups''))"

definition attr_text_of :: "attrs \<Rightarrow> string \<Rightarrow> string" where
  "attr_text_of a k = (let v = attr_get a k in if attr_truthy v then attr_str v else '''')"

definition is_group_jid :: "string \<Rightarrow> bool result" where
  "is_group_jid jid = bindE (jid_decode (Some jid)) (\<lambda>d. Inr (case d of None \<Rightarrow> False | Some r \<Rightarrow> jid_server r = ''g.us''))"

definition first_text :: "string list \<Rightarrow> string" where
  "first_text l = (case filter (\<lambda>s. s \<noteq> '''') l of [] \<Rightarrow> '''' | s # _ \<Rightarrow> s)"

text \<open>The devices that do not have the sender key yet, and the memory with them marked.\<close>

definition takes_sender_key :: "device_entry \<times> string \<Rightarrow> bool" where
  "takes_sender_key d \<longleftrightarrow> \<not> is_hosted_lid_user (Some (snd d)) \<and> \<not> is_hosted_pn_user (Some (snd d)) \<and> de_device (fst d) \<noteq> 99"

fun pick_recipients :: "(device_entry \<times> string) list \<Rightarrow> (string, bool) dict \<Rightarrow> string list \<times> (string, bool) dict" where
  "pick_recipients [] sender_key_map = ([], sender_key_map)"
| "pick_recipients (d # ds) sender_key_map =
     (if map_of sender_key_map (snd d) \<noteq> Some True \<and> takes_sender_key d
      then let (jids, m) = pick_recipients ds (dict_set (snd d) True sender_key_map) in (snd d # jids, m)
      else pick_recipients ds sender_key_map)"

definition key_distribution :: "string \<Rightarrow> bytes \<Rightarrow> pydict" where
  "key_distribution group_id distribution = [(''senderKeyDistributionMessage'',
     PDict [(''axolotlSenderKeyDistributionMessage'', PBytes distribution), (''groupId'', PStr group_id)])]"

text \<open>The sender key for the devices that need it.\<close>

definition distribute ::
    "('l, 's) relay_env \<Rightarrow> string list \<Rightarrow> pydict \<Rightarrow> attrs \<Rightarrow> ('l, 's) relay_state \<Rightarrow> (node list \<times> bool) result \<times> ('l, 's) relay_state" where
  "distribute env recipients m extra_attrs st =
     (if recipients = [] then (Inr ([], False), st)
      else case assert_sessions (ry_send env) recipients False (rl_send st) of
        (Inl e, s) \<Rightarrow> (Inl e, st\<lparr>rl_send := s\<rparr>)
      | (Inr _, s) \<Rightarrow> let (r, s) = create_participant_nodes (ry_send env) recipients m extra_attrs [] s in (r, st\<lparr>rl_send := s\<rparr>))"

definition no_group_data :: group_data where
  "no_group_data = \<lparr>gd_participants = [], gd_ephemeral_duration = None, gd_addressing_mode = ''''\<rparr>"

definition group_attrs :: "bool \<Rightarrow> group_data \<Rightarrow> attrs \<Rightarrow> attrs" where
  "group_attrs is_group gd a =
     (let a = (case gd_ephemeral_duration gd of
                 Some n \<Rightarrow> if 0 < n then dict_set ''expiration'' (AStr (int_str n)) a else a | None \<Rightarrow> a)
      in if is_group then dict_set ''addressing_mode'' (AStr (first_text [attr_text_of a ''addressing_mode'', gd_addressing_mode gd, ''lid''])) a
         else a)"

definition group_sender :: "('l, 's) relay_env \<Rightarrow> group_data \<Rightarrow> attrs \<Rightarrow> string" where
  "group_sender env gd a =
     (if first_text [attr_text_of a ''addressing_mode'', gd_addressing_mode gd, ''lid''] = ''lid'' \<and> str_given (sv_me_lid (ry_send env))
      then str_or_empty (sv_me_lid (ry_send env)) else sv_me_id (ry_send env))"

definition relay_group ::
    "('l, 's) relay_env \<Rightarrow> relay_input \<Rightarrow> bool \<Rightarrow> attrs \<Rightarrow> ('l, 's) relay_state \<Rightarrow> draft result \<times> ('l, 's) relay_state" where
  "relay_group env ri is_group extra_attrs st =
     (let jid = ri_jid ri; is_status = is_jid_status_broadcast jid in
      case (if is_group then bindE (ry_metadata env (ri_use_cached_metadata ri) jid)
                (\<lambda>gd. Inr (case gd of None \<Rightarrow> no_group_data | Some g \<Rightarrow> g)) else Inr no_group_data) of
        Inl e \<Rightarrow> (Inl e, st)
      | Inr gd \<Rightarrow>
          let sender_key_map = (if is_status then [] else case rl_memory st jid of None \<Rightarrow> [] | Some m \<Rightarrow> m);
              users = filter (\<lambda>p. p \<noteq> '''') (gd_participants gd) @ (if is_status then ri_status_jids ri else []);
              (r, s) = get_usync_devices (ry_send env) users (ri_use_devices_cache ri) False (rl_send st);
              st = st\<lparr>rl_send := s\<rparr>;
              a = group_attrs is_group gd (ri_attrs ri)
          in case bindE r (\<lambda>devices. bindE (the_same (sv_patch (ry_send env) (ri_message ri) None)) (\<lambda>patched_message.
                   bindE (sv_encode (ry_send env) patched_message) (\<lambda>payload. Inr (devices, patched_message, payload)))) of
               Inl e \<Rightarrow> (Inl e, st)
             | Inr (devices, patched_message, payload) \<Rightarrow>
                 (case encrypt_group_message (ry_group env) (ry_fresh env) jid (group_sender env gd a) payload (rl_sender_keys st) of
                    (Inl e, keys) \<Rightarrow> (Inl e, st\<lparr>rl_sender_keys := keys\<rparr>)
                  | (Inr (ciphertext, distribution), keys) \<Rightarrow>
                      let st = st\<lparr>rl_sender_keys := keys\<rparr>; (recipients, memory) = pick_recipients devices sender_key_map
                      in case distribute env recipients (key_distribution jid distribution) extra_attrs st of
                           (Inl e, st) \<Rightarrow> (Inl e, st)
                         | (Inr (nodes, identity), st) \<Rightarrow>
                             (Inr \<lparr>dr_participants = nodes,
                                   dr_content = [Node ''enc'' (dict_update [(''v'', AStr ''2''), (''type'', AStr ''skmsg'')] extra_attrs) (CBytes ciphertext)],
                                   dr_identity = identity, dr_attrs = a, dr_reporting = patched_message\<rparr>,
                              st\<lparr>rl_memory := (rl_memory st)(jid \<mapsto> memory)\<rparr>)))"


section \<open>To a person\<close>

definition device_sent_message :: "string \<Rightarrow> pydict \<Rightarrow> pydict" where
  "device_sent_message destination_jid message =
     [(''deviceSentMessage'', PDict [(''destinationJid'', PStr destination_jid), (''message'', PDict message)]),
      (''messageContextInfo'', py_get ''messageContextInfo'' message)]"

text \<open>The message that stands for the others when the patch gives one per recipient.\<close>

definition reporting_of :: "patched \<Rightarrow> string \<Rightarrow> pydict result" where
  "reporting_of p jid = (case p of
       Same_For_All m \<Rightarrow> Inr m
     | Per_Jid items \<Rightarrow>
         (case find (\<lambda>(r, _). r = Some jid) items of
            Some (_, x # m) \<Rightarrow> Inr (x # m)
          | _ \<Rightarrow> (case items of [] \<Rightarrow> Inl IndexError | (_, m) # _ \<Rightarrow> Inr m)))"

definition plain_entry :: "string option \<Rightarrow> string \<Rightarrow> device_entry \<times> string" where
  "plain_entry user server =
     (let u = (case user of None \<Rightarrow> '''' | Some x \<Rightarrow> x)
      in (\<lparr>de_user = u, de_device = 0, de_server = ''''\<rparr>, jid_encode user server (Some 0) None))"

text \<open>The devices of the recipient and the own ones; for a peer message only the main devices.\<close>

definition direct_devices ::
    "('l, 's) relay_env \<Rightarrow> relay_input \<Rightarrow> ('l, 's) relay_state \<Rightarrow> (device_entry \<times> string) list result \<times> ('l, 's) relay_state" where
  "direct_devices env ri st =
     (let me_lid = sv_me_lid (ry_send env); jid = ri_jid ri in
      case bindE (jid_decode (Some jid)) (\<lambda>decoded.
           let is_lid = (case decoded of None \<Rightarrow> False | Some d \<Rightarrow> jid_server d = ''lid'');
               user = (case decoded of None \<Rightarrow> '''' | Some d \<Rightarrow> jid_user d);
               own_is_lid = is_lid \<and> str_given me_lid
           in bindE (user_of_opt (if own_is_lid then me_lid else Some (sv_me_id (ry_send env)))) (\<lambda>own_user.
              Inr (is_lid, user, own_is_lid, own_user))) of
        Inl e \<Rightarrow> (Inl e, st)
      | Inr (is_lid, user, own_is_lid, own_user) \<Rightarrow>
          (case ri_participant ri of
             Some (pjid, _) \<Rightarrow>
               (case jid_decode (Some pjid) of
                  Inl e \<Rightarrow> (Inl e, st)
                | Inr d \<Rightarrow> (Inr [(\<lparr>de_user = (case d of None \<Rightarrow> '''' | Some r \<Rightarrow> jid_user r),
                                  de_device = (case d of None \<Rightarrow> 0 | Some r \<Rightarrow> (case jid_device r of None \<Rightarrow> 0 | Some n \<Rightarrow> n)),
                                  de_server = ''''\<rparr>, pjid)], st))
           | None \<Rightarrow>
               if attr_get (ri_attrs ri) ''category'' = AStr ''peer'' then
                 let server = (if is_lid then ''lid'' else ''s.whatsapp.net'')
                 in (Inr (plain_entry (Some user) server #
                       (if Some user \<noteq> own_user \<and> str_given own_user then [plain_entry own_user server] else [])), st)
               else
                 let sender_identity = jid_encode own_user (if own_is_lid then ''lid'' else ''s.whatsapp.net'') None None;
                     (r, s) = get_usync_devices (ry_send env) [sender_identity, jid] (ri_use_devices_cache ri) False (rl_send st)
                 in (r, st\<lparr>rl_send := s\<rparr>)))"

text \<open>All recipients, the own devices among them, and the others. The sending device itself is left out.\<close>

definition is_self :: "('l, 's) send_env \<Rightarrow> string \<Rightarrow> bool" where
  "is_self env jid \<longleftrightarrow> jid = sv_me_id env \<or> (str_given (sv_me_lid env) \<and> Some jid = sv_me_lid env)"

definition split_recipients ::
    "('l, 's) send_env \<Rightarrow> (device_entry \<times> string) list \<Rightarrow> (string list \<times> string list \<times> string list) result" where
  "split_recipients env devices =
     bindE (user_of_opt (Some (sv_me_id env))) (\<lambda>me_pn_user.
     bindE (if str_given (sv_me_lid env) then user_of_opt (sv_me_lid env) else Inr None) (\<lambda>me_lid_user.
       let recipients = filter (\<lambda>(_, jid). \<not> is_self env jid) devices;
           is_me = (\<lambda>(d, _). Some (de_user d) = me_pn_user \<or> (str_given me_lid_user \<and> Some (de_user d) = me_lid_user))
       in Inr (map snd recipients, map snd (filter is_me recipients), map snd (filter (\<lambda>d. \<not> is_me d) recipients))))"

definition relay_direct ::
    "('l, 's) relay_env \<Rightarrow> relay_input \<Rightarrow> attrs \<Rightarrow> ('l, 's) relay_state \<Rightarrow> draft result \<times> ('l, 's) relay_state" where
  "relay_direct env ri extra_attrs st =
     (let me_msg = device_sent_message (ri_jid ri) (ri_message ri) in
      case (if ri_participant ri = None then reporting_of (sv_patch (ry_send env) (ri_message ri) (Some [ri_jid ri])) (ri_jid ri)
            else Inr []) of
        Inl e \<Rightarrow> (Inl e, st)
      | Inr reporting \<Rightarrow>
          (case direct_devices env ri st of
             (Inl e, st) \<Rightarrow> (Inl e, st)
           | (Inr devices, st) \<Rightarrow>
               (case split_recipients (ry_send env) devices of
                  Inl e \<Rightarrow> (Inl e, st)
                | Inr (all_recipients, me_recipients, other_recipients) \<Rightarrow>
                    (case assert_sessions (ry_send env) all_recipients False (rl_send st) of
                       (Inl e, s) \<Rightarrow> (Inl e, st\<lparr>rl_send := s\<rparr>)
                     | (Inr _, s) \<Rightarrow>
                         (case create_participant_nodes (ry_send env) me_recipients me_msg extra_attrs [] s of
                            (Inl e, s) \<Rightarrow> (Inl e, st\<lparr>rl_send := s\<rparr>)
                          | (Inr (mine, i1), s) \<Rightarrow>
                              (case create_participant_nodes (ry_send env) other_recipients (ri_message ri) extra_attrs me_msg s of
                                 (Inl e, s) \<Rightarrow> (Inl e, st\<lparr>rl_send := s\<rparr>)
                               | (Inr (others, i2), s) \<Rightarrow>
                                   (Inr \<lparr>dr_participants = mine @ others, dr_content = [], dr_identity = i1 \<or> i2,
                                         dr_attrs = ri_attrs ri, dr_reporting = reporting\<rparr>, st\<lparr>rl_send := s\<rparr>)))))))"

section \<open>The stanza\<close>

text \<open>For a device that asked again the message is encrypted once more, with the count of the retry.\<close>

definition relay_retry ::
    "('l, 's) relay_env \<Rightarrow> relay_input \<Rightarrow> draft \<Rightarrow> ('l, 's) relay_state \<Rightarrow> draft result \<times> ('l, 's) relay_state" where
  "relay_retry env ri dr st =
     (case ri_participant ri of
        None \<Rightarrow> (Inr dr, st)
      | Some (pjid, count) \<Rightarrow>
          let me = (if is_lid_user (Some pjid) then sv_me_lid (ry_send env) else Some (sv_me_id (ry_send env)));
              s = rl_send st
          in case bindE (are_jids_same_user (Some pjid) me) (\<lambda>is_me.
               sv_encode (ry_send env) (if is_me
                 then [(''deviceSentMessage'', PDict [(''destinationJid'', PStr (ri_jid ri)), (''message'', PDict (ri_message ri))])]
                 else ri_message ri)) of
               Inl e \<Rightarrow> (Inl e, st)
             | Inr payload \<Rightarrow>
                 (case encrypt_message (sv_session (ry_send env)) (sv_random (ry_send env) (sd_draws s))
                    (sv_iv (ry_send env) (sd_draws s)) pjid payload (sd_storage s) of
                    (Inl e, storage) \<Rightarrow> (Inl e, st\<lparr>rl_send := s\<lparr>sd_storage := storage, sd_draws := sd_draws s + 1\<rparr>\<rparr>)
                  | (Inr (enc_type, ciphertext), storage) \<Rightarrow>
                      (Inr (dr\<lparr>dr_content := dr_content dr @ [Node ''enc'' [(''v'', AStr ''2''), (''type'', AStr enc_type),
                           (''count'', AStr (int_str count))] (CBytes ciphertext)]\<rparr>),
                       st\<lparr>rl_send := s\<lparr>sd_storage := storage, sd_draws := sd_draws s + 1\<rparr>\<rparr>)))"

definition participants_content :: "attrs \<Rightarrow> node list \<Rightarrow> node list" where
  "participants_content a participants = (case participants of
       [] \<Rightarrow> []
     | peer # _ \<Rightarrow>
         if attr_get a ''category'' = AStr ''peer''
         then (case node_content peer of CList (n # _) \<Rightarrow> [n] | _ \<Rightarrow> [])
         else [Node ''participants'' [] (CList participants)])"

text \<open>The attributes of the stanza: where it goes.\<close>

definition addressed :: "string \<Rightarrow> relay_input \<Rightarrow> attrs \<Rightarrow> attrs result" where
  "addressed me_id ri a = (case ri_participant ri of
       None \<Rightarrow> Inr (dict_set ''to'' (AStr (ri_jid ri)) a)
     | Some (pjid, _) \<Rightarrow>
         if is_jid_group (Some (ri_jid ri))
         then Inr (dict_set ''participant'' (AStr pjid) (dict_set ''to'' (AStr (ri_jid ri)) a))
         else bindE (are_jids_same_user (Some pjid) (Some me_id)) (\<lambda>same.
           Inr (if same then dict_set ''recipient'' (AStr (ri_jid ri)) (dict_set ''to'' (AStr pjid) a)
                else dict_set ''to'' (AStr pjid) a)))"

definition relay_stanza ::
    "('l, 's) relay_env \<Rightarrow> relay_input \<Rightarrow> bool \<Rightarrow> draft \<Rightarrow> (string \<Rightarrow> bytes option) \<Rightarrow> node result" where
  "relay_stanza env ri is_group dr tokens =
     (let is_retry = (ri_participant ri \<noteq> None); is_status = is_jid_status_broadcast (ri_jid ri);
          base = dict_update [(''id'', AStr (ri_id ri)), (''to'', AStr (ri_jid ri)),
                              (''type'', AStr (get_message_type (ri_message ri)))]
                   (if is_retry \<and> \<not> is_group \<and> \<not> is_status then dict_set ''device_fanout'' (AStr ''false'') (dr_attrs dr) else dr_attrs dr);
          identity = (case ry_account env of Some b \<Rightarrow>
              if dr_identity dr \<or> is_retry then [Node ''device-identity'' [] (CBytes b)] else [] | None \<Rightarrow> []);
          report = (if is_retry \<or> dr_reporting dr = [] then []
                    else case ry_report env (dr_reporting dr) (ri_id ri) (ri_jid ri) of Some n \<Rightarrow> [n] | None \<Rightarrow> []);
          token = (if is_group \<or> is_retry \<or> is_status then []
                   else case tokens (ri_jid ri) of Some t \<Rightarrow> [Node ''tctoken'' [] (CBytes t)] | None \<Rightarrow> [])
      in bindE (addressed (sv_me_id (ry_send env)) ri base) (\<lambda>a.
           Inr (Node ''message'' a (CList (dr_content dr @ participants_content (dr_attrs dr) (dr_participants dr) @
             identity @ report @ token @ ri_nodes ri)))))"

definition relay_newsletter :: "('l, 's) relay_env \<Rightarrow> relay_input \<Rightarrow> ('l, 's) relay_state \<Rightarrow> unit result \<times> ('l, 's) relay_state" where
  "relay_newsletter env ri st =
     (let patched_message = (case sv_patch (ry_send env) (ri_message ri) (Some []) of Same_For_All m \<Rightarrow> m | Per_Jid _ \<Rightarrow> []);
          a = dict_update [(''to'', AStr (ri_jid ri)), (''id'', AStr (ri_id ri)), (''type'', AStr (get_message_type (ri_message ri)))]
                (if ri_participant ri \<noteq> None then dict_set ''device_fanout'' (AStr ''false'') (ri_attrs ri) else ri_attrs ri)
      in (Inr (), st\<lparr>rl_sent := rl_sent st @
            [Node ''message'' a (CList [Node ''plaintext'' [] (CBytes (ry_newsletter env patched_message))])]\<rparr>))"

definition relay_message ::
    "('l, 's) relay_env \<Rightarrow> relay_input \<Rightarrow> ('l, 's) relay_state \<Rightarrow> string result \<times> ('l, 's) relay_state" where
  "relay_message env ri st =
     (case is_group_jid (ri_jid ri) of
        Inl e \<Rightarrow> (Inl e, st)
      | Inr is_group \<Rightarrow>
          let extra_attrs = relay_extra_attrs (ri_message ri) in
          if is_jid_newsletter (Some (ri_jid ri)) then
            (case relay_newsletter env ri st of (Inl e, st) \<Rightarrow> (Inl e, st) | (Inr _, st) \<Rightarrow> (Inr (ri_id ri), st))
          else
            (case (if (is_group \<or> is_jid_status_broadcast (ri_jid ri)) \<and> ri_participant ri = None
                   then relay_group env ri is_group extra_attrs st else relay_direct env ri extra_attrs st) of
               (Inl e, st) \<Rightarrow> (Inl e, st)
             | (Inr dr, st) \<Rightarrow>
                 (case relay_retry env ri dr st of
                    (Inl e, st) \<Rightarrow> (Inl e, st)
                  | (Inr dr, st) \<Rightarrow>
                      (case relay_stanza env ri is_group dr (rl_tokens st) of
                         Inl e \<Rightarrow> (Inl e, st)
                       | Inr stanza \<Rightarrow>
                           (Inr (ri_id ri), st\<lparr>rl_sent := rl_sent st @ [stanza],
                              rl_recent := (if ri_participant ri = None then rl_recent st @ [(ri_jid ri, ri_id ri, ri_message ri)]
                                            else rl_recent st)\<rparr>)))))"


section \<open>Who gets the sender key\<close>


lemma pick_recipients_marks:
  "map_of (snd (pick_recipients ds m)) j = (if j \<in> set (fst (pick_recipients ds m)) then Some True else map_of m j)"
  by (induction ds m rule: pick_recipients.induct) (auto split: prod.splits)

lemma pick_recipients_set:
  "set (fst (pick_recipients ds m)) = {j. map_of m j \<noteq> Some True \<and> (\<exists>d\<in>set ds. snd d = j \<and> takes_sender_key d)}"
  by (induction ds m rule: pick_recipients.induct) (auto split: prod.splits if_splits)

lemma pick_recipients_distinct: "distinct (fst (pick_recipients ds m))"
proof (induction ds m rule: pick_recipients.induct)
  case (2 d ds m)
  have "snd d \<notin> set (fst (pick_recipients ds (dict_set (snd d) True m)))" by (simp add: pick_recipients_set)
  with 2 show ?case by (auto split: prod.splits)
qed simp

lemma pick_recipients_done:
  assumes "\<And>d. d \<in> set ds \<Longrightarrow> takes_sender_key d \<Longrightarrow> map_of m (snd d) = Some True"
  shows "pick_recipients ds m = ([], m)"
  using assms by (induction ds) auto

text \<open>What a successful relay to a group has done.\<close>

definition group_users :: "relay_input \<Rightarrow> group_data \<Rightarrow> string list" where
  "group_users ri gd = filter (\<lambda>p. p \<noteq> '''') (gd_participants gd)"

definition group_memory :: "relay_input \<Rightarrow> ('l, 's) relay_state \<Rightarrow> (string, bool) dict" where
  "group_memory ri st = (case rl_memory st (ri_jid ri) of None \<Rightarrow> [] | Some m \<Rightarrow> m)"

lemma relay_group_result:
  assumes "relay_group env ri True extra_attrs st = (Inr dr, st')" and "\<not> is_jid_status_broadcast (ri_jid ri)"
    and "ry_metadata env (ri_use_cached_metadata ri) (ri_jid ri) = Inr (Some gd)"
    and "fst (get_usync_devices (ry_send env) (group_users ri gd) (ri_use_devices_cache ri) False (rl_send st)) = Inr devices"
  shows "rl_memory st' (ri_jid ri) = Some (snd (pick_recipients devices (group_memory ri st)))"
    and "fst (pick_recipients devices (group_memory ri st)) = [] \<Longrightarrow> dr_participants dr = []"
proof -
  obtain s where g: "get_usync_devices (ry_send env) (filter (\<lambda>p. p \<noteq> '''') (gd_participants gd)) (ri_use_devices_cache ri) False (rl_send st) = (Inr devices, s)"
    using assms(4) by (cases "get_usync_devices (ry_send env) (group_users ri gd) (ri_use_devices_cache ri) False (rl_send st)")
      (simp add: group_users_def)
  let ?p = "pick_recipients devices (case rl_memory st (ri_jid ri) of None \<Rightarrow> [] | Some m \<Rightarrow> m)"
  from assms(1) g show "rl_memory st' (ri_jid ri) = Some (snd (pick_recipients devices (group_memory ri st)))"
    by (auto simp: relay_group_def group_memory_def assms(2,3) distribute_def Let_def result_iffs split: sum.splits prod.splits if_splits)
  from assms(1) g show "dr_participants dr = []" if "fst (pick_recipients devices (group_memory ri st)) = []"
    using that by (auto simp: relay_group_def group_memory_def assms(2,3) distribute_def Let_def result_iffs split: sum.splits prod.splits if_splits)
qed


text \<open>The devices that get the sender key over a sequence of messages, each with the devices found for it.\<close>

fun key_recipients :: "(device_entry \<times> string) list list \<Rightarrow> (string, bool) dict \<Rightarrow> string list" where
  "key_recipients [] memory = []"
| "key_recipients (devices # rest) memory =
     (let (recipients, memory') = pick_recipients devices memory in recipients @ key_recipients rest memory')"

section \<open>A message reaches every device of a person\<close>

lemma lid_not_pn: "lid_jid u d \<noteq> pn_jid v e"
  using jid_class(1) [of u d] jid_class(2) [of v e] jid_user_classes_disjoint(1) by metis

lemma lid_is_personal:
  "\<not> is_jid_newsletter (Some (lid_jid u d))" "\<not> is_jid_status_broadcast (lid_jid u d)"
proof -
  show "\<not> is_jid_newsletter (Some (lid_jid u d))"
    using jid_class(1) [of u d] jid_ends_take [of "Some (lid_jid u d)" "''@lid''" "''@newsletter''" 1]
    by (auto simp: is_jid_newsletter_def is_lid_user_def)
  have "last (lid_jid u d) = CHR ''d''" by (simp add: lid_jid_def)
  then show "\<not> is_jid_status_broadcast (lid_jid u d)" by (auto simp: is_jid_status_broadcast_def)
qed

lemma bundle_decode:
  assumes "plain_bundle b"
  shows "user_of_opt (Some (bundle_jid b)) = Inr (Some (bu_user b))"
  using assms decode_jids(1) [of "bu_user b" "bu_device b"]
  by (simp add: user_of_opt_def bundle_jid_def plain_bundle_def plain_lid_def)

section \<open>Properties\<close>

text \<open>
  Over any sequence of messages to a group, with whatever devices are found for each, every device
  that takes sender keys is sent the key exactly once, and no other device is.
\<close>

theorem sender_key_sent_once:
  "distinct (key_recipients dss memory) \<and>
   set (key_recipients dss memory) = {j. map_of memory j \<noteq> Some True \<and> (\<exists>ds\<in>set dss. \<exists>d\<in>set ds. snd d = j \<and> takes_sender_key d)}"
proof (induction dss arbitrary: memory)
  case (Cons ds dss)
  obtain js m where p: "pick_recipients ds memory = (js, m)" by (cases "pick_recipients ds memory")
  have s: "set js = {j. map_of memory j \<noteq> Some True \<and> (\<exists>d\<in>set ds. snd d = j \<and> takes_sender_key d)}"
    using pick_recipients_set [of ds memory] by (simp add: p)
  have m: "map_of m j = (if j \<in> set js then Some True else map_of memory j)" for j
    using pick_recipients_marks [of ds memory j] by (simp add: p)
  have d: "distinct js" using pick_recipients_distinct [of ds memory] by (simp add: p)
  have "set js \<inter> set (key_recipients dss m) = {}" using Cons.IH [of m] m by auto
  then show ?case using Cons.IH [of m] d s m by (auto simp: p)
qed simp

lemma split_foreign:
  assumes "user_of_opt (Some (sv_me_id send)) = Inr (Some pu)" and "sv_me_id send = pn_jid pu md" and "sv_me_lid send = None"
    and "\<And>b. b \<in> set bs \<Longrightarrow> de_user (entry b) = bu_user b \<and> bu_user b \<noteq> pu"
  shows "split_recipients send (map (\<lambda>b. (entry b, bundle_jid b)) bs) = Inr (map bundle_jid bs, [], map bundle_jid bs)"
proof -
  have self: "\<not> is_self send (bundle_jid b)" for b
    using assms(2,3) lid_not_pn by (simp add: is_self_def str_given_def str_or_empty_def bundle_jid_def)
  have "filter (\<lambda>(_, jid). \<not> is_self send jid) (map (\<lambda>b. (entry b, bundle_jid b)) bs) = map (\<lambda>b. (entry b, bundle_jid b)) bs"
    using self by (simp add: filter_map o_def)
  moreover have "filter (\<lambda>(d, _). Some (de_user d) = Some pu \<or> (str_given None \<and> Some (de_user d) = None)) (map (\<lambda>b. (entry b, bundle_jid b)) bs) = []"
    using assms(4) by (auto simp: filter_empty_conv str_given_def str_or_empty_def)
  moreover have "filter (\<lambda>x. \<not> (case x of (d, _) \<Rightarrow> Some (de_user d) = Some pu \<or> (str_given None \<and> Some (de_user d) = None)))
      (map (\<lambda>b. (entry b, bundle_jid b)) bs) = map (\<lambda>b. (entry b, bundle_jid b)) bs"
    using assms(4) by (auto simp: filter_id_conv str_given_def str_or_empty_def)
  ultimately show ?thesis
    using assms(1,3) by (simp add: split_recipients_def str_given_def str_or_empty_def o_def)
qed



definition sample_cached :: "(string store, bytes store) send_state" where
  "sample_cached = sample_state\<lparr>sd_user_devices := [''22'' \<mapsto> ([\<lparr>de_user = ''22'', de_device = 3, de_server = ''lid''\<rparr>], 100)]\<rparr>"

definition sample_relay :: "(string store, bytes store) relay_env" where
  "sample_relay = \<lparr>ry_send = sample_env, ry_group = \<lparr>g_hmac = (\<lambda>_ _. []), g_hkdf = (\<lambda>_. []), g_sign = (\<lambda>_ _. Inr []),
     g_verify = (\<lambda>_ _ _. Inr ()), g_encrypt = (\<lambda>_ _ _. Inr []), g_decrypt = (\<lambda>_ _ _. Inr [])\<rparr>,
     ry_fresh = (0, [], ([], [])), ry_metadata = (\<lambda>_ _. Inr None), ry_newsletter = (\<lambda>_. []), ry_account = None,
     ry_report = (\<lambda>_ _ _. None)\<rparr>"

definition sample_input :: relay_input where
  "sample_input = \<lparr>ri_jid = lid_jid ''22'' 0, ri_message = [(''conversation'', PStr ''hi'')], ri_id = ''3EB0'', ri_participant = None,
     ri_attrs = [], ri_nodes = [], ri_use_devices_cache = True, ri_use_cached_metadata = True, ri_status_jids = []\<rparr>"

definition sample_relay_state :: "(string store, bytes store) relay_state" where
  "sample_relay_state = \<lparr>rl_send = sample_cached, rl_sender_keys = Map.empty, rl_memory = Map.empty, rl_tokens = Map.empty,
     rl_sent = [], rl_recent = []\<rparr>"

lemma sample_devices:
  "get_usync_devices sample_env [pn_jid ''11'' 0, lid_jid ''22'' 0] True False sample_cached =
    (Inr [(\<lparr>de_user = ''22'', de_device = 3, de_server = ''lid''\<rparr>, bundle_jid sample_bundle)], sample_cached)"
proof -
  have s: "split_jids [pn_jid ''11'' 0, lid_jid ''22'' 0] = Inr ([], [(pn_jid ''11'' 0, ''11''), (lid_jid ''22'' 0, ''22'')])"
    "jid_encode (Some ''22'') ''lid'' (Some 3) None = bundle_jid sample_bundle" "lid_users [pn_jid ''11'' 0] = Inr []"
    unfolding sample_bundle_def by code_simp+
  have c: "from_cache True [(pn_jid ''11'' 0, ''11''), (lid_jid ''22'' 0, ''22'')] sample_cached =
      (([(\<lparr>de_user = ''22'', de_device = 3, de_server = ''lid''\<rparr>, bundle_jid sample_bundle)], [pn_jid ''11'' 0]), sample_cached)"
    using s(2) by (simp add: expiring_get_def cached_entry_def sample_cached_def sample_state_def Let_def)
  show ?thesis
    using s(1,3) c by (simp add: get_usync_devices_def sample_env_def usync_iq_def device_query_def with_protocol_def
        with_context_def with_user_def new_usync_query_def parse_usync_query_result_def attr_get_def)
qed


end
