(* ===== verification/Json.thy ===== *)
theory Json
  imports Py_Value
begin

text \<open>
  The part of Python's \<open>json\<close> module that messages pass through: \<open>dumps\<close> with the separators
  \<open>(",", ":")\<close> and \<open>ensure_ascii=False\<close>, and \<open>loads\<close>. Numbers with a fraction or an exponent and the
  names of the special floats are outside the values of theory \<open>Py_Value\<close>; reading one gives
  \<open>ExternalError\<close>. The reader has fuel for the nesting, more than any text needs.
\<close>

section \<open>Writing\<close>

definition json_hex2 :: "nat \<Rightarrow> string" where
  "json_hex2 n = (let h = (\<lambda>d::nat. if d < 10 then char_of (48 + d) else char_of (87 + d)) in [h (n div 16), h (n mod 16)])"

definition escape_char :: "char \<Rightarrow> string" where
  "escape_char c =
     (if c = CHR 0x22 then [CHR 0x5C, CHR 0x22] else if c = CHR 0x5C then [CHR 0x5C, CHR 0x5C]
      else if c = CHR 0x0A then [CHR 0x5C, CHR ''n''] else if c = CHR 0x0D then [CHR 0x5C, CHR ''r'']
      else if c = CHR 0x09 then [CHR 0x5C, CHR ''t''] else if c = CHR 0x0C then [CHR 0x5C, CHR ''f'']
      else if c = CHR 0x08 then [CHR 0x5C, CHR ''b'']
      else if (of_char c :: nat) < 32 then [CHR 0x5C, CHR ''u'', CHR ''0'', CHR ''0''] @ json_hex2 (of_char c)
      else [c])"

definition json_quote :: "string \<Rightarrow> string" where
  "json_quote s = CHR 0x22 # concat (map escape_char s) @ [CHR 0x22]"

text \<open>The separators are a comma and a colon, each followed by the same gap: none where the source asks for
  compact text, a space by default.\<close>

definition comma :: "string \<Rightarrow> string list \<Rightarrow> string" where
  "comma gap l = (case l of [] \<Rightarrow> '''' | x # xs \<Rightarrow> x @ concat (map (\<lambda>s. CHR '','' # gap @ s) xs))"

fun json_text :: "string \<Rightarrow> pyval \<Rightarrow> string" where
  "json_text gap PNone = ''null''"
| "json_text gap (PBool b) = (if b then ''true'' else ''false'')"
| "json_text gap (PInt i) = int_str i"
| "json_text gap (PStr s) = json_quote s"
| "json_text gap (PBytes b) = ''''"
| "json_text gap (PList l) = ''['' @ comma gap (map (json_text gap) l) @ '']''"
| "json_text gap (PDict d) = ''{'' @ comma gap (map (\<lambda>(k, v). json_quote k @ '':'' @ gap @ json_text gap v) d) @ ''}''"

text \<open>Bytes cannot be written: \<open>dumps\<close> raises.\<close>

fun json_serializable :: "pyval \<Rightarrow> bool" where
  "json_serializable (PBytes b) \<longleftrightarrow> False"
| "json_serializable (PList l) \<longleftrightarrow> list_all json_serializable l"
| "json_serializable (PDict d) \<longleftrightarrow> list_all (\<lambda>(k, v). json_serializable v) d"
| "json_serializable _ \<longleftrightarrow> True"

definition json_dumps :: "string \<Rightarrow> pyval \<Rightarrow> string result" where
  "json_dumps gap v = (if json_serializable v then Inr (json_text gap v) else Inl TypeErr)"

section \<open>Reading\<close>

definition json_ws :: "string \<Rightarrow> string" where
  "json_ws s = dropWhile (\<lambda>c. c \<in> {CHR '' '', CHR 0x09, CHR 0x0A, CHR 0x0D}) s"

definition json_error :: exn where
  "json_error = ValueError ''json''"

definition hex_val :: "char \<Rightarrow> nat option" where
  "hex_val c = (let n = (of_char c :: nat) in
     if 48 \<le> n \<and> n \<le> 57 then Some (n - 48) else if 97 \<le> n \<and> n \<le> 102 then Some (n - 87)
     else if 65 \<le> n \<and> n \<le> 70 then Some (n - 55) else None)"

definition hex4 :: "char \<Rightarrow> char \<Rightarrow> char \<Rightarrow> char \<Rightarrow> nat option" where
  "hex4 a b c d = (case (hex_val a, hex_val b, hex_val c, hex_val d) of
       (Some w, Some x, Some y, Some z) \<Rightarrow> Some (((w * 16 + x) * 16 + y) * 16 + z) | _ \<Rightarrow> None)"

text \<open>The UTF-8 bytes of a code point; a lone surrogate takes three, as any other of its size.\<close>

definition utf8_char :: "nat \<Rightarrow> string" where
  "utf8_char n =
     (if n < 0x80 then [char_of n]
      else if n < 0x800 then [char_of (0xC0 + n div 64), char_of (0x80 + n mod 64)]
      else if n < 0x10000 then [char_of (0xE0 + n div 4096), char_of (0x80 + n div 64 mod 64), char_of (0x80 + n mod 64)]
      else [char_of (0xF0 + n div 262144), char_of (0x80 + n div 4096 mod 64), char_of (0x80 + n div 64 mod 64),
            char_of (0x80 + n mod 64)])"

definition simple_escape :: "char \<Rightarrow> char option" where
  "simple_escape c =
     (if c = CHR 0x22 \<or> c = CHR 0x5C \<or> c = CHR ''/'' then Some c
      else if c = CHR ''b'' then Some (CHR 0x08) else if c = CHR ''f'' then Some (CHR 0x0C)
      else if c = CHR ''n'' then Some (CHR 0x0A) else if c = CHR ''r'' then Some (CHR 0x0D)
      else if c = CHR ''t'' then Some (CHR 0x09) else None)"

text \<open>The low half of a surrogate pair that follows, with the text behind it.\<close>

definition low_surrogate :: "string \<Rightarrow> (nat \<times> string) option" where
  "low_surrogate s = (case s of
       b # u # a1 # a2 # a3 # a4 # r \<Rightarrow>
         if b = CHR 0x5C \<and> u = CHR ''u''
         then (case hex4 a1 a2 a3 a4 of
                 Some n \<Rightarrow> if 0xDC00 \<le> n \<and> n < 0xE000 then Some (n, r) else None | None \<Rightarrow> None)
         else None
     | _ \<Rightarrow> None)"

lemma low_surrogate_length: "low_surrogate s = Some (n, r) \<Longrightarrow> length r < length s"
  by (auto simp: low_surrogate_def split: list.splits if_splits option.splits)

text \<open>The rest of a string behind its opening quote.\<close>

function (sequential) json_string :: "string \<Rightarrow> (string \<times> string) result" where
  "json_string [] = Inl json_error"
| "json_string (c # s) =
     (if c = CHR 0x22 then Inr ([], s)
      else if c = CHR 0x5C then
        (case s of
           [] \<Rightarrow> Inl json_error
         | e # r \<Rightarrow>
             if e = CHR ''u'' then
               (case r of
                  a1 # a2 # a3 # a4 # r' \<Rightarrow>
                    (case hex4 a1 a2 a3 a4 of
                       None \<Rightarrow> Inl json_error
                     | Some n \<Rightarrow>
                         (case (if 0xD800 \<le> n \<and> n < 0xDC00 then low_surrogate r' else None) of
                            Some (m, r'') \<Rightarrow> bindE (json_string r'') (\<lambda>(t, q).
                              Inr (utf8_char (0x10000 + (n - 0xD800) * 1024 + (m - 0xDC00)) @ t, q))
                          | None \<Rightarrow> bindE (json_string r') (\<lambda>(t, q). Inr (utf8_char n @ t, q))))
                | _ \<Rightarrow> Inl json_error)
             else
               (case simple_escape e of
                  None \<Rightarrow> Inl json_error
                | Some x \<Rightarrow> bindE (json_string r) (\<lambda>(t, q). Inr (x # t, q))))
      else if (of_char c :: nat) < 32 then Inl json_error
      else bindE (json_string s) (\<lambda>(t, q). Inr (c # t, q)))"
  by pat_completeness auto
termination
  by (relation "measure length") (auto split: if_splits dest: low_surrogate_length)

text \<open>A number: its digits are read as far as they go.\<close>

definition json_number :: "string \<Rightarrow> (pyval \<times> string) result" where
  "json_number s =
     (let neg = (case s of c # _ \<Rightarrow> c = CHR ''-'' | [] \<Rightarrow> False);
          digits = takeWhile is_digit (if neg then tl s else s);
          num = (case digits of [] \<Rightarrow> [] | c # _ \<Rightarrow> if c = CHR ''0'' then [c] else digits);
          r = drop (length num) (if neg then tl s else s)
      in if num = [] then Inl (if s \<noteq> [] \<and> hd s \<in> {CHR ''N'', CHR ''I'', CHR ''-''} then ExternalError else json_error)
         else if r \<noteq> [] \<and> hd r \<in> {CHR ''.'', CHR ''e'', CHR ''E''} then Inl ExternalError
         else bindE (py_int num) (\<lambda>i. Inr (PInt (if neg then - i else i), r)))"

fun json_value :: "nat \<Rightarrow> string \<Rightarrow> (pyval \<times> string) result"
  and json_items :: "nat \<Rightarrow> string \<Rightarrow> (pyval list \<times> string) result"
  and json_fields :: "nat \<Rightarrow> string \<Rightarrow> ((string \<times> pyval) list \<times> string) result" where
  "json_value 0 s = Inl OutOfFuel"
| "json_value (Suc n) s =
     (case s of
        [] \<Rightarrow> Inl json_error
      | c # r \<Rightarrow>
          if c = CHR 0x22 then bindE (json_string r) (\<lambda>(t, q). Inr (PStr t, q))
          else if c = CHR ''{'' then
            (if py_startswith (json_ws r) ''}'' then Inr (PDict [], tl (json_ws r))
             else bindE (json_fields n (json_ws r)) (\<lambda>(kvs, q). Inr (PDict (dict_update [] kvs), q)))
          else if c = CHR ''['' then
            (if py_startswith (json_ws r) '']'' then Inr (PList [], tl (json_ws r))
             else bindE (json_items n (json_ws r)) (\<lambda>(vs, q). Inr (PList vs, q)))
          else if py_startswith s ''null'' then Inr (PNone, drop 4 s)
          else if py_startswith s ''true'' then Inr (PBool True, drop 4 s)
          else if py_startswith s ''false'' then Inr (PBool False, drop 5 s)
          else json_number s)"
| "json_items 0 s = Inl OutOfFuel"
| "json_items (Suc n) s =
     bindE (json_value n s) (\<lambda>(v, r).
       case json_ws r of
         [] \<Rightarrow> Inl json_error
       | c # q \<Rightarrow>
           if c = CHR '']'' then Inr ([v], q)
           else if c = CHR '','' then bindE (json_items n (json_ws q)) (\<lambda>(vs, p). Inr (v # vs, p))
           else Inl json_error)"
| "json_fields 0 s = Inl OutOfFuel"
| "json_fields (Suc n) s =
     (case s of
        [] \<Rightarrow> Inl json_error
      | c # s' \<Rightarrow>
          if c \<noteq> CHR 0x22 then Inl json_error
          else bindE (json_string s') (\<lambda>(k, r).
            case json_ws r of
              [] \<Rightarrow> Inl json_error
            | c # r' \<Rightarrow>
                if c \<noteq> CHR '':'' then Inl json_error
                else bindE (json_value n (json_ws r')) (\<lambda>(v, r).
                  case json_ws r of
                    [] \<Rightarrow> Inl json_error
                  | c # q \<Rightarrow>
                      if c = CHR ''}'' then Inr ([(k, v)], q)
                      else if c = CHR '','' then bindE (json_fields n (json_ws q)) (\<lambda>(kvs, p). Inr ((k, v) # kvs, p))
                      else Inl json_error)))"

definition json_loads :: "string \<Rightarrow> pyval result" where
  "json_loads s = bindE (json_value (Suc (length s)) (json_ws s)) (\<lambda>(v, r). if json_ws r = [] then Inr v else Inl json_error)"

section \<open>What is written is read back\<close>

declare json_string.simps(2) [simp del]

lemma hex_val_digit: "d < 16 \<Longrightarrow> hex_val (if d < 10 then char_of (48 + d) else char_of (87 + d)) = Some d"
  by (auto simp: hex_val_def Let_def)

lemma hex4_json_hex2:
  assumes "n < 32" and "json_hex2 n = [x, y]"
  shows "hex4 (CHR ''0'') (CHR ''0'') x y = Some n"
proof -
  have "x = (if n div 16 < 10 then char_of (48 + n div 16) else char_of (87 + n div 16))"
    and "y = (if n mod 16 < 10 then char_of (48 + n mod 16) else char_of (87 + n mod 16))"
    using assms(2) by (simp_all add: json_hex2_def Let_def)
  then have "hex_val x = Some (n div 16)" and "hex_val y = Some (n mod 16)"
    using hex_val_digit [of "n div 16"] hex_val_digit [of "n mod 16"] assms(1) by simp_all
  moreover have "hex_val (CHR ''0'') = Some 0" by (simp add: hex_val_def Let_def)
  ultimately show ?thesis by (simp add: hex4_def)
qed

lemma json_string_plain:
  assumes "c \<noteq> CHR 0x22" "c \<noteq> CHR 0x5C" "\<not> (of_char c :: nat) < 32"
  shows "json_string (c # s) = bindE (json_string s) (\<lambda>(t, q). Inr (c # t, q))"
  using assms by (simp add: json_string.simps(2))

lemma json_string_simple:
  assumes "e \<noteq> CHR ''u''" and "simple_escape e = Some x"
  shows "json_string (CHR 0x5C # e # s) = bindE (json_string s) (\<lambda>(t, q). Inr (x # t, q))"
  using assms by (simp add: json_string.simps(2))

lemma json_string_unicode:
  assumes "hex4 a b c d = Some n" and "n < 32"
  shows "json_string (CHR 0x5C # CHR ''u'' # a # b # c # d # s) = bindE (json_string s) (\<lambda>(t, q). Inr (char_of n # t, q))"
  using assms by (simp add: json_string.simps(2) utf8_char_def)

lemma json_string_escaped: "json_string (escape_char c @ s) = bindE (json_string s) (\<lambda>(t, q). Inr (c # t, q))"
proof -
  consider "c = CHR 0x22" | "c = CHR 0x5C" | "c = CHR 0x0A" | "c = CHR 0x0D" | "c = CHR 0x09" | "c = CHR 0x0C" | "c = CHR 0x08"
    | (control) "(of_char c :: nat) < 32" "c \<notin> {CHR 0x22, CHR 0x5C, CHR 0x0A, CHR 0x0D, CHR 0x09, CHR 0x0C, CHR 0x08}"
    | (plain) "\<not> (of_char c :: nat) < 32" "c \<noteq> CHR 0x22" "c \<noteq> CHR 0x5C" by blast
  then show ?thesis
  proof cases
    case control
    define n :: nat where "n = of_char c"
    have n: "n < 32" and c: "c = char_of n" using control by (simp_all add: n_def)
    obtain x y where h: "json_hex2 n = [x, y]" by (simp add: json_hex2_def Let_def)
    have "hex4 (CHR ''0'') (CHR ''0'') x y = Some n" by (rule hex4_json_hex2 [OF n h])
    note json_string_unicode [OF this n, of s]
    moreover have "escape_char c = [CHR 0x5C, CHR ''u'', CHR ''0'', CHR ''0'', x, y]"
      using control h n by (simp add: escape_char_def n_def [symmetric])
    ultimately show ?thesis by (simp add: c)
  next
    case plain
    then have "escape_char c = [c]" by (auto simp: escape_char_def)
    with plain show ?thesis by (simp add: json_string_plain)
  qed (simp_all add: escape_char_def json_string_simple simple_escape_def)
qed

lemma json_string_quoted: "json_string (concat (map escape_char t) @ CHR 0x22 # s) = Inr (t, s)"
proof (induction t)
  case Nil
  then show ?case by (simp add: json_string.simps(2))
next
  case (Cons c t)
  then show ?case by (simp add: json_string_escaped)
qed

text \<open>What may follow a value without changing how it is read, and a dictionary as Python has it.\<close>

definition ends_value :: "string \<Rightarrow> bool" where
  "ends_value r \<longleftrightarrow> (case r of [] \<Rightarrow> True | c # _ \<Rightarrow> c \<in> {CHR '','', CHR '']'', CHR ''}'', CHR '':''})"

fun json_ok :: "pyval \<Rightarrow> bool" where
  "json_ok (PBytes b) \<longleftrightarrow> False"
| "json_ok (PList l) \<longleftrightarrow> list_all json_ok l"
| "json_ok (PDict d) \<longleftrightarrow> dict_wf d \<and> list_all (\<lambda>(k, v). json_ok v) d"
| "json_ok _ \<longleftrightarrow> True"

lemma json_ok_serializable: "json_ok v \<Longrightarrow> json_serializable v"
  by (induction v rule: json_ok.induct) (auto simp: list_all_iff)

lemma json_ws_simps [simp]:
  "c \<notin> {CHR '' '', CHR 0x09, CHR 0x0A, CHR 0x0D} \<Longrightarrow> json_ws (c # s) = c # s" "json_ws [] = []"
  by (simp_all add: json_ws_def)

lemma nat_str_no_leading_zero: "nat_str n = c # cs \<Longrightarrow> c = CHR ''0'' \<Longrightarrow> cs = []"
proof (induction n arbitrary: c cs rule: nat_str.induct)
  case (1 n)
  show ?case
  proof (cases "n < 10")
    case False
    obtain d ds where d: "nat_str (n div 10) = d # ds" by (cases "nat_str (n div 10)") auto
    then have "c = d" and "cs = ds @ [digit_char (n mod 10)]" using 1 False by (simp_all add: nat_str.simps [of n])
    then have "nat_str (n div 10) = [CHR ''0'']" using "1.IH" [OF False d] "1.prems"(2) d by simp
    then have "int (n div 10) = 0" using py_int_nat_str [of "n div 10"]
      by (simp add: py_int_def py_strip_def unsigned_val_def is_space_def is_digit_def digit_val_def)
    with False show ?thesis by presburger
  qed (use 1 in \<open>simp add: nat_str.simps [of n]\<close>)
qed

lemma json_number_nat:
  assumes "ends_value r"
  shows "json_number (nat_str n @ r) = Inr (PInt (int n), r)"
    and "json_number (CHR ''-'' # nat_str n @ r) = Inr (PInt (- int n), r)"
proof -
  obtain c cs where s: "nat_str n = c # cs" by (cases "nat_str n") auto
  have d: "\<forall>x\<in>set (nat_str n). is_digit x" using nat_str_digits by blast
  have "takeWhile is_digit r = []" using assms by (auto simp: ends_value_def is_digit_def split: list.splits)
  then have t: "takeWhile is_digit (nat_str n @ r) = nat_str n" using d by (simp add: takeWhile_append)
  have num: "(case nat_str n of [] \<Rightarrow> [] | c # _ \<Rightarrow> if c = CHR ''0'' then [c] else nat_str n) = nat_str n"
    using nat_str_no_leading_zero [OF s] s by auto
  have neg: "c \<noteq> CHR ''-''" using d s by auto
  have r: "\<not> (r \<noteq> [] \<and> hd r \<in> {CHR ''.'', CHR ''e'', CHR ''E''})"
    using assms by (auto simp: ends_value_def split: list.splits)
  have "(case nat_str n @ r of c # _ \<Rightarrow> c = CHR ''-'' | [] \<Rightarrow> False) = False" using s neg by simp
  then show "json_number (nat_str n @ r) = Inr (PInt (int n), r)"
    unfolding json_number_def Let_def by (simp only: if_False t num) (use r py_int_nat_str [of n] in simp)
  have "(case CHR ''-'' # nat_str n @ r of c # _ \<Rightarrow> c = CHR ''-'' | [] \<Rightarrow> False) = True" by simp
  then show "json_number (CHR ''-'' # nat_str n @ r) = Inr (PInt (- int n), r)"
    unfolding json_number_def Let_def by (simp only: if_True list.sel t num) (use r py_int_nat_str [of n] in simp)
qed

text \<open>The first character of a value decides how it is read.\<close>

lemma json_value_number:
  assumes "ends_value r"
  shows "json_value (Suc n) (int_str i @ r) = Inr (PInt i, r)"
proof (cases "i < 0")
  case True
  then have i: "int_str i = CHR ''-'' # nat_str (nat (- i))" by (simp add: int_str_def)
  then show ?thesis using json_number_nat(2) [OF assms, of "nat (- i)"] True by (simp add: py_startswith_def)
next
  case False
  then have i: "int_str i = nat_str (nat i)" by (simp add: int_str_def)
  obtain c cs where s: "nat_str (nat i) = c # cs" by (cases "nat_str (nat i)") auto
  have "is_digit c" using nat_str_digits [of c "nat i"] s by simp
  then have "c \<noteq> CHR 0x22" "c \<noteq> CHR ''{''" "c \<noteq> CHR ''[''" "c \<noteq> CHR ''n''" "c \<noteq> CHR ''t''" "c \<noteq> CHR ''f''"
    by (auto simp: is_digit_def)
  then show ?thesis using json_number_nat(1) [OF assms, of "nat i"] False i s by (simp add: py_startswith_def)
qed

lemma json_text_head:
  assumes "json_ok v"
  shows "\<exists>c s. json_text gap v = c # s \<and> c \<notin> {CHR '' '', CHR 0x09, CHR 0x0A, CHR 0x0D, CHR '']'', CHR ''}''}"
proof (cases v)
  case (PInt i)
  obtain c cs where s: "nat_str (nat i) = c # cs" by (cases "nat_str (nat i)") auto
  have "is_digit c" using nat_str_digits [of c "nat i"] s by simp
  then show ?thesis using PInt s by (auto simp: int_str_def is_digit_def)
qed (use assms in \<open>auto simp: json_quote_def\<close>)

lemma comma_simps [simp]: "comma gap [] = ''''" "comma gap [x] = x" "comma gap (x # y # xs) = x @ CHR '','' # gap @ comma gap (y # xs)"
  by (simp_all add: comma_def)

definition blank :: "string \<Rightarrow> bool" where
  "blank gap \<longleftrightarrow> set gap \<subseteq> {CHR '' '', CHR 0x09, CHR 0x0A, CHR 0x0D}"

lemma json_ws_blank: "blank gap \<Longrightarrow> json_ws (gap @ s) = json_ws s"
  by (induction gap) (auto simp: blank_def json_ws_def)

lemma json_ws_text:
  assumes "blank gap" and "json_ok v"
  shows "json_ws (gap @ json_text gap v @ r) = json_text gap v @ r"
  using json_text_head [OF assms(2), of gap] by (auto simp: json_ws_blank [OF assms(1)])

lemma json_items_text:
  assumes "\<And>v n r. v \<in> set (w # l) \<Longrightarrow> length (json_text gap v) < n \<Longrightarrow> ends_value r \<Longrightarrow> json_value n (json_text gap v @ r) = Inr (v, r)"
    and "list_all json_ok (w # l)" and "length (comma gap (map (json_text gap) (w # l))) < n" and "blank gap"
  shows "json_items (Suc n) (comma gap (map (json_text gap) (w # l)) @ CHR '']'' # r) = Inr (w # l, r)"
  using assms(1-3)
proof (induction l arbitrary: w n)
  case Nil
  then show ?case by (simp add: ends_value_def)
next
  case (Cons x l)
  let ?rest = "comma gap (map (json_text gap) (x # l)) @ CHR '']'' # r"
  obtain m where n: "n = Suc m" using Cons.prems(3) by (cases n) auto
  have "json_value n (json_text gap w @ CHR '','' # gap @ ?rest) = Inr (w, CHR '','' # gap @ ?rest)"
    using Cons.prems(3) by (intro Cons.prems(1)) (simp_all add: ends_value_def)
  moreover have "json_items n ?rest = Inr (x # l, r)"
    unfolding n using Cons.prems n by (intro Cons.IH) simp_all
  moreover have "json_ws (gap @ ?rest) = ?rest"
    using json_text_head [of x gap] Cons.prems(2) by (cases l) (auto simp: json_ws_blank [OF assms(4)])
  ultimately show ?case by simp
qed

lemma json_fields_text:
  assumes "\<And>v n r. v \<in> snd ` set (kv # d) \<Longrightarrow> length (json_text gap v) < n \<Longrightarrow> ends_value r \<Longrightarrow> json_value n (json_text gap v @ r) = Inr (v, r)"
    and "list_all (\<lambda>(k, v). json_ok v) (kv # d)"
    and "length (comma gap (map (\<lambda>(k, v). json_quote k @ '':'' @ gap @ json_text gap v) (kv # d))) < n" and "blank gap"
  shows "json_fields (Suc n) (comma gap (map (\<lambda>(k, v). json_quote k @ '':'' @ gap @ json_text gap v) (kv # d)) @ CHR ''}'' # r) = Inr (kv # d, r)"
  using assms(1-3)
proof (induction d arbitrary: kv n)
  case Nil
  obtain k v where kv: "kv = (k, v)" by fastforce
  have "json_value n (json_text gap v @ CHR ''}'' # r) = Inr (v, CHR ''}'' # r)"
    using Nil.prems(3) kv by (intro Nil.prems(1)) (simp_all add: ends_value_def json_quote_def)
  moreover have "json_ws (gap @ json_text gap v @ CHR ''}'' # r) = json_text gap v @ CHR ''}'' # r"
    using json_ws_text [OF assms(4)] Nil.prems(2) kv by simp
  ultimately show ?case by (simp add: kv json_quote_def json_string_quoted)
next
  case (Cons x d)
  obtain k v where kv: "kv = (k, v)" by fastforce
  let ?rest = "comma gap (map (\<lambda>(k, v). json_quote k @ '':'' @ gap @ json_text gap v) (x # d)) @ CHR ''}'' # r"
  obtain m where n: "n = Suc m" using Cons.prems(3) by (cases n) auto
  have "json_value n (json_text gap v @ CHR '','' # gap @ ?rest) = Inr (v, CHR '','' # gap @ ?rest)"
    using Cons.prems(3) kv by (intro Cons.prems(1)) (simp_all add: ends_value_def json_quote_def)
  moreover have "json_ws (gap @ json_text gap v @ CHR '','' # gap @ ?rest) = json_text gap v @ CHR '','' # gap @ ?rest"
    using json_ws_text [OF assms(4)] Cons.prems(2) kv by simp
  moreover have "json_fields n ?rest = Inr (x # d, r)"
    unfolding n using Cons.prems n kv by (intro Cons.IH) simp_all
  moreover have "json_ws (gap @ ?rest) = ?rest"
    by (cases x; cases d) (simp_all add: json_quote_def json_ws_blank [OF assms(4)])
  ultimately show ?case by (simp add: kv json_quote_def json_string_quoted)
qed

lemma dict_update_Nil_wf: "dict_wf d \<Longrightarrow> dict_update [] d = d"
proof -
  have "dict_wf (e @ d) \<Longrightarrow> dict_update e d = e @ d" for e
  proof (induction d arbitrary: e)
    case (Cons x d)
    obtain k v where x: "x = (k, v)" by fastforce
    have "dict_set k v e = e @ [(k, v)]" using Cons.prems x by (intro dict_set_append) (simp add: dict_wf_def)
    then show ?case using Cons.IH [of "e @ [(k, v)]"] Cons.prems x by (simp add: dict_wf_def)
  qed simp
  from this [of "[]"] show "dict_wf d \<Longrightarrow> dict_update [] d = d" by simp
qed

lemma json_value_text:
  assumes gap: "blank gap"
  shows "json_ok v \<Longrightarrow> length (json_text gap v) < n \<Longrightarrow> ends_value r \<Longrightarrow> json_value n (json_text gap v @ r) = Inr (v, r)"
proof (induction v arbitrary: n r)
  case (PList l)
  obtain m where n: "n = Suc m" using PList.prems(2) by (cases n) auto
  show ?case
  proof (cases l)
    case Nil
    then show ?thesis by (simp add: n py_startswith_def)
  next
    case (Cons w l')
    obtain k where m: "m = Suc k" using PList.prems(2) n by (cases m) auto
    have "json_items m (comma gap (map (json_text gap) l) @ CHR '']'' # r) = Inr (l, r)"
      unfolding Cons m using PList n m Cons gap by (intro json_items_text) (auto simp: list_all_iff)
    moreover obtain c s where "json_text gap w = c # s" "c \<notin> {CHR '' '', CHR 0x09, CHR 0x0A, CHR 0x0D, CHR '']'', CHR ''}''}"
      using json_text_head [of w gap] PList.prems(1) Cons by auto
    ultimately show ?thesis using Cons by (cases l') (simp_all add: n py_startswith_def)
  qed
next
  case (PDict d)
  obtain m where n: "n = Suc m" using PDict.prems(2) by (cases n) auto
  show ?case
  proof (cases d)
    case Nil
    then show ?thesis by (simp add: n py_startswith_def dict_update_def)
  next
    case (Cons kv d')
    obtain k where m: "m = Suc k" using PDict.prems(2) n by (cases m) auto
    have "json_fields m (comma gap (map (\<lambda>(k, v). json_quote k @ '':'' @ gap @ json_text gap v) d) @ CHR ''}'' # r) = Inr (d, r)"
      unfolding Cons m using PDict n m Cons gap by (intro json_fields_text) (force simp: list_all_iff)+
    moreover have "dict_update [] d = d" using PDict.prems(1) by (simp add: dict_update_Nil_wf)
    ultimately show ?thesis using Cons by (cases kv; cases d') (simp_all add: n py_startswith_def json_quote_def)
  qed
next
  case (PInt i)
  then show ?case by (cases n) (simp_all add: json_value_number del: json_value.simps(2))
next
  case (PStr s)
  then show ?case by (cases n) (simp_all add: json_quote_def json_string_quoted)
next
  case (PBool b)
  then show ?case by (cases n) (simp_all add: py_startswith_def)
next
  case PNone
  then show ?case by (cases n) (simp_all add: py_startswith_def)
qed simp

text \<open>
  What \<open>dumps\<close> writes of a value without bytes, \<open>loads\<close> reads back as the same value, with the
  fields of every dictionary in their order.
\<close>

theorem json_roundtrip:
  assumes "json_ok v" and "blank gap"
  shows "json_dumps gap v = Inr (json_text gap v) \<and> json_loads (json_text gap v) = Inr v"
proof -
  obtain c s where t: "json_text gap v = c # s" "c \<notin> {CHR '' '', CHR 0x09, CHR 0x0A, CHR 0x0D, CHR '']'', CHR ''}''}"
    using json_text_head [OF assms(1), of gap] by auto
  then have "json_ws (json_text gap v) = json_text gap v" by auto
  moreover have "json_value (Suc (length (json_text gap v))) (json_text gap v @ []) = Inr (v, [])"
    using assms by (intro json_value_text) (simp_all add: ends_value_def)
  ultimately show ?thesis using assms by (simp add: json_loads_def json_dumps_def json_ok_serializable)
qed

text \<open>Bytes are not written.\<close>

lemma json_bytes_raise: "json_dumps gap (PDict [(k, PBytes b)]) = Inl TypeErr"
  by (simp add: json_dumps_def)

end
