(* ===== verification/Generics.thy ===== *)
theory Generics
  imports Json Jid Binary_Node "HOL-Library.Char_ord" "HOL-Library.List_Lexorder"
begin

unbundle bit_operations_syntax

text \<open>
  Helpers of \<^verbatim>\<open>utils/generics.py\<close>: the padding and the encoding of messages, identifiers,
  receipt types and stream errors, and the text form of pairing codes. Random bytes, the time and
  the hash functions are arguments. Of \<^verbatim>\<open>socket/messages_send.py\<close> it has
  \<open>_wire_normalize\<close> and \<open>_encode_message\<close>, and of \<^verbatim>\<open>utils/decode_wa_message.py\<close> the
  reading of a decrypted payload. Network access and asynchronous waiting are not modelled.
\<close>

section \<open>Base64\<close>

definition b64_alphabet :: string where
  "b64_alphabet = ''ABCDEFGHIJKLMNOPQRSTUVWXYZabcdefghijklmnopqrstuvwxyz0123456789+/''"

text \<open>\<open>base64.b64encode(b).decode("ascii")\<close>.\<close>

fun b64encode :: "bytes \<Rightarrow> string" where
  "b64encode [] = ''''"
| "b64encode [a] = [b64_alphabet ! (unat a div 4), b64_alphabet ! (unat a mod 4 * 16), CHR ''='', CHR ''='']"
| "b64encode [a, b] = [b64_alphabet ! (unat a div 4), b64_alphabet ! (unat a mod 4 * 16 + unat b div 16),
     b64_alphabet ! (unat b mod 16 * 4), CHR ''='']"
| "b64encode (a # b # c # r) = [b64_alphabet ! (unat a div 4), b64_alphabet ! (unat a mod 4 * 16 + unat b div 16),
     b64_alphabet ! (unat b mod 16 * 4 + unat c div 64), b64_alphabet ! (unat c mod 64)] @ b64encode r"

section \<open>Padding\<close>

definition pad_length :: "byte \<Rightarrow> nat" where
  "pad_length pad_byte = unat (pad_byte AND 0x0F) + 1"

definition write_random_pad_max16 :: "byte \<Rightarrow> bytes \<Rightarrow> bytes" where
  "write_random_pad_max16 pad_byte msg = msg @ replicate (pad_length pad_byte) (of_nat (pad_length pad_byte))"

text \<open>With a last byte of 0 the slice \<open>buff[:-0]\<close> is empty.\<close>

definition unpad_random_max16 :: "bytes \<Rightarrow> bytes result" where
  "unpad_random_max16 buff =
     (if buff = [] then Inl (ValueError ''unpad_random_max16 received empty bytes'')
      else let pad_len = unat (last buff) in
           if pad_len > length buff
           then Inl (ValueError (''invalid pad length '' @ nat_str pad_len @ '' for '' @ nat_str (length buff) @ '' bytes''))
           else Inr (if pad_len = 0 then [] else take (length buff - pad_len) buff))"

section \<open>Messages\<close>

text \<open>Bytes inside a message are turned into their base64 text before it is written.\<close>

fun wire_normalize :: "pyval \<Rightarrow> pyval" where
  "wire_normalize (PBytes b) = PStr (b64encode b)"
| "wire_normalize (PDict d) = PDict (map (\<lambda>(k, v). (k, wire_normalize v)) d)"
| "wire_normalize (PList l) = PList (map wire_normalize l)"
| "wire_normalize v = v"

definition encode_newsletter_message :: "pyval \<Rightarrow> bytes result" where
  "encode_newsletter_message message = bindE (json_dumps '''' message) (\<lambda>s. Inr (utf8_encode s))"

definition encode_wa_message :: "byte \<Rightarrow> pyval \<Rightarrow> bytes result" where
  "encode_wa_message pad_byte message =
     bindE (json_dumps '''' message) (\<lambda>s. Inr (write_random_pad_max16 pad_byte (utf8_encode s)))"

definition encode_message :: "byte \<Rightarrow> pydict \<Rightarrow> bytes result" where
  "encode_message pad_byte message = encode_wa_message pad_byte (wire_normalize (PDict message))"

text \<open>
  A decrypted payload: a message of the protocol, which the argument reads and gives as a dictionary,
  else a JSON object, else the bytes themselves.
\<close>

definition read_payload :: "(bytes \<Rightarrow> pydict option) \<Rightarrow> bytes \<Rightarrow> pydict" where
  "read_payload proto_message payload = (case proto_message payload of
       Some m \<Rightarrow> m
     | None \<Rightarrow> (case bindE (utf8_decode payload) json_loads of Inr (PDict d) \<Rightarrow> d | _ \<Rightarrow> [(''raw'', PBytes payload)]))"

section \<open>Identifiers\<close>

definition upper_hex :: "bytes \<Rightarrow> string" where
  "upper_hex b = map (\<lambda>c. let n = (of_char c :: nat) in if 97 \<le> n \<and> n \<le> 102 then char_of (n - 32) else c) (bytes_hex b)"

definition take_padded :: "nat \<Rightarrow> bytes \<Rightarrow> bytes" where
  "take_padded n b = take n b @ replicate (n - length b) 0"

definition generate_message_id_v2 :: "(bytes \<Rightarrow> bytes) \<Rightarrow> int \<Rightarrow> bytes \<Rightarrow> string option \<Rightarrow> string result" where
  "generate_message_id_v2 sha now_sec random_tail user_id =
     (let user = (case user_id of None \<Rightarrow> Inr '''' | Some j \<Rightarrow> if j = '''' then Inr '''' else
                    bindE (jid_decode (Some j)) (\<lambda>d. Inr (case d of None \<Rightarrow> '''' | Some r \<Rightarrow> jid_user r)))
      in bindE user (\<lambda>u.
           let data = be_bytes 8 now_sec @ take_padded 20 (if u = '''' then [] else utf8_encode (u @ ''@c.us'')) @ random_tail
           in Inr (''3EB0'' @ take 18 (upper_hex (sha data)))))"

definition generate_message_id :: "bytes \<Rightarrow> string" where
  "generate_message_id random = ''3EB0'' @ upper_hex random"

definition generate_registration_id :: "bytes \<Rightarrow> int" where
  "generate_registration_id random = be_val random mod 2 ^ 14"

definition generate_md_tag_prefix :: "bytes \<Rightarrow> string" where
  "generate_md_tag_prefix four = int_str (be_val (take 2 four)) @ ''.'' @ int_str (be_val (drop 2 four)) @ ''-''"

text \<open>The hash of a list of participants, in any order.\<close>

definition generate_participant_hash_v2 :: "(bytes \<Rightarrow> bytes) \<Rightarrow> string list \<Rightarrow> string" where
  "generate_participant_hash_v2 sha participants =
     ''2:'' @ take 6 (b64encode (sha (utf8_encode (concat (sort participants)))))"

definition crockford_characters :: string where
  "crockford_characters = ''123456789ABCDEFGHJKLMNPQRSTVWXYZ''"

text \<open>The inner loop takes five bits at a time from the top; the number keeps growing.\<close>

fun crockford_out :: "nat \<Rightarrow> nat \<Rightarrow> string \<times> nat" where
  "crockford_out val bit_count =
     (if 5 \<le> bit_count
      then let (out, left) = crockford_out val (bit_count - 5)
           in (crockford_characters ! (val div 2 ^ (bit_count - 5) mod 32) # out, left)
      else ([], bit_count))"

declare crockford_out.simps [simp del]

fun crockford_from :: "bytes \<Rightarrow> nat \<Rightarrow> nat \<Rightarrow> string" where
  "crockford_from [] val bit_count =
     (if 0 < bit_count then [crockford_characters ! (val * 2 ^ (5 - bit_count) mod 32)] else [])"
| "crockford_from (e # r) val bit_count =
     (let v = val * 256 + unat e; (out, left) = crockford_out v (bit_count + 8) in out @ crockford_from r v left)"

definition bytes_to_crockford :: "bytes \<Rightarrow> string" where
  "bytes_to_crockford buffer = crockford_from buffer 0 0"

section \<open>Receipts and errors of the stream\<close>

datatype message_status = ERROR | PENDING | SERVER_ACK | DELIVERY_ACK | READ | PLAYED

fun status_int :: "message_status \<Rightarrow> int" where
  "status_int ERROR = 0" | "status_int PENDING = 1" | "status_int SERVER_ACK = 2"
| "status_int DELIVERY_ACK = 3" | "status_int READ = 4" | "status_int PLAYED = 5"

definition get_status_from_receipt_type :: "string option \<Rightarrow> message_status" where
  "get_status_from_receipt_type receipt_type = (case receipt_type of
       None \<Rightarrow> DELIVERY_ACK
     | Some t \<Rightarrow> if t = ''sender'' then SERVER_ACK else if t = ''played'' then PLAYED
                else if t = ''read'' \<or> t = ''read-self'' then READ else DELIVERY_ACK)"

datatype disconnect_reason =
    connectionClosed | timedOut | connectionReplaced | loggedOut | badSession | restartRequired
  | multideviceMismatch | forbidden | unavailableService

text \<open>\<open>connectionLost\<close> is another name of \<open>timedOut\<close>, since both are 408.\<close>

fun disconnect_int :: "disconnect_reason \<Rightarrow> int" where
  "disconnect_int connectionClosed = 428" | "disconnect_int timedOut = 408"
| "disconnect_int connectionReplaced = 440" | "disconnect_int loggedOut = 401"
| "disconnect_int badSession = 500" | "disconnect_int restartRequired = 515"
| "disconnect_int multideviceMismatch = 411" | "disconnect_int forbidden = 403"
| "disconnect_int unavailableService = 503"

text \<open>\<open>int(attr or default)\<close>.\<close>

definition attr_int_or :: "attr_value \<Rightarrow> int \<Rightarrow> int result" where
  "attr_int_or a d = (case a of AStr s \<Rightarrow> if s = '''' then Inr d else py_int s | AInt i \<Rightarrow> Inr (if i = 0 then d else i) | ANone \<Rightarrow> Inr d)"

definition get_error_code_from_stream_error :: "node \<Rightarrow> (string \<times> int) result" where
  "get_error_code_from_stream_error n =
     (let reason = (case get_all_binary_node_children n of [] \<Rightarrow> ''unknown'' | c # _ \<Rightarrow> node_tag c);
          fallback = (if reason = ''conflict'' then connectionReplaced else badSession)
      in bindE (attr_int_or (attr_get (node_attrs n) ''code'') (disconnect_int fallback)) (\<lambda>status_code.
           Inr (if status_code = disconnect_int restartRequired then ''restart required'' else reason, status_code)))"

definition is_wa_business_platform :: "string \<Rightarrow> bool" where
  "is_wa_business_platform platform \<longleftrightarrow> platform = ''smbi'' \<or> platform = ''smba''"


section \<open>Padding is taken off again\<close>

lemma pad_length_range: "1 \<le> pad_length b" "pad_length b \<le> 16"
proof -
  have "unat b AND 15 = unat b mod 16" using take_bit_eq_mask [of 4 "unat b"] by (simp add: take_bit_eq_mod mask_eq_exp_minus_1)
  then have "unat (b AND 0x0F) < 16" by (simp add: unsigned_and_eq)
  then show "1 \<le> pad_length b" "pad_length b \<le> 16" by (simp_all add: pad_length_def)
qed

lemma unpad_pad: "unpad_random_max16 (write_random_pad_max16 b msg) = Inr msg"
proof -
  let ?n = "pad_length b"
  obtain k where k: "?n = Suc k" using pad_length_range(1) [of b] by (cases ?n) auto
  have "unat (of_nat ?n :: byte) = ?n" using pad_length_range(2) [of b] by (simp add: unat_of_nat)
  moreover have "last (msg @ replicate ?n (of_nat ?n :: byte)) = of_nat ?n" using k by (simp add: last_append)
  ultimately show ?thesis using k by (simp add: unpad_random_max16_def write_random_pad_max16_def Let_def)
qed

text \<open>The characters of a code are the five-bit digits of the buffer, from the top, with zeros at the end.\<close>

lemma crockford_out_eq:
  "crockford_out v n = (map (\<lambda>i. crockford_characters ! (v div 2 ^ (n - 5 * Suc i) mod 32)) [0..<n div 5], n mod 5)"
proof (induction v n rule: crockford_out.induct)
  case (1 v n)
  show ?case
  proof (cases "5 \<le> n")
    case True
    then have "n div 5 = Suc ((n - 5) div 5)" and "n mod 5 = (n - 5) mod 5"
      by (simp_all add: le_div_geq le_mod_geq)
    moreover have "[0..<Suc m] = 0 # map Suc [0..<m]" for m by (simp add: upt_conv_Cons map_Suc_upt del: upt_Suc)
    ultimately show ?thesis using True 1 by (subst crockford_out.simps) (simp add: comp_def del: upt_Suc)
  next
    case False
    then show ?thesis by (subst crockford_out.simps) simp
  qed
qed

definition digit_of :: "nat \<Rightarrow> nat \<Rightarrow> nat \<Rightarrow> nat" where
  "digit_of v n i = (if 5 * Suc i \<le> n then v div 2 ^ (n - 5 * Suc i) else v * 2 ^ (5 * Suc i - n)) mod 32"

lemma div_exp_split: "r < 2 ^ a \<Longrightarrow> (v * 2 ^ a + r) div 2 ^ (a + b) = (v::nat) div 2 ^ b"
  by (simp add: power_add div_mult2_eq)

lemma map_shift_upt: "map (\<lambda>j. f (k + j)) [0..<m] = map f [k..<k + m]"
  by (rule nth_equalityI) auto

lemma be_val_Cons_nat: "nat (be_val (e # r)) = unat e * 2 ^ (8 * length r) + nat (be_val r)"
  using be_val_range(1) [of r] by (simp add: byte_val_def nat_add_distrib nat_mult_distrib nat_power_eq power_mult)

lemma crockford_from_eq:
  "n < 5 \<Longrightarrow> crockford_from bs v n =
     map (\<lambda>i. crockford_characters ! digit_of (v * 2 ^ (8 * length bs) + nat (be_val bs)) (n + 8 * length bs) i)
       [0..<(n + 8 * length bs + 4) div 5]"
proof (induction bs arbitrary: v n)
  case Nil
  then have "n = 0 \<or> (n + 4) div 5 = 1" by auto
  then show ?case using Nil by (auto simp: digit_of_def)
next
  case (Cons e r)
  let ?w = "v * 256 + unat e" and ?a = "8 * length r" and ?k = "(n + 8) div 5"
  let ?X = "v * 2 ^ (8 * length (e # r)) + nat (be_val (e # r))" and ?T = "n + 8 * length (e # r)"
  let ?D = "\<lambda>i. crockford_characters ! digit_of ?X ?T i"
  have X: "?X = ?w * 2 ^ ?a + nat (be_val r)"
    unfolding be_val_Cons_nat by (simp add: power_add algebra_simps del: be_val.simps)
  have r: "nat (be_val r) < 2 ^ ?a" using be_val_range [of r] by (simp add: power_mult nat_less_iff)
  have "crockford_characters ! (?w div 2 ^ (n + 8 - 5 * Suc i) mod 32) = ?D i" if "i < ?k" for i
  proof -
    have "5 * Suc i \<le> n + 8" using that by auto
    then have "?T - 5 * Suc i = ?a + (n + 8 - 5 * Suc i)" and "5 * Suc i \<le> ?T" by auto
    then show ?thesis using div_exp_split [OF r, of ?w "n + 8 - 5 * Suc i"] by (simp only: digit_of_def X if_True)
  qed
  then have first: "fst (crockford_out ?w (n + 8)) = map ?D [0..<?k]" by (simp add: crockford_out_eq)
  have left: "(n + 8) mod 5 + ?a = ?T - 5 * ?k" and le: "5 * ?k \<le> ?T"
    using mult_div_mod_eq [of 5 "n + 8"] by (simp_all, linarith)
  have "digit_of ?X (?T - 5 * ?k) j = digit_of ?X ?T (?k + j)" for j
    using le by (auto simp: digit_of_def algebra_simps)
  then have "crockford_from r ?w ((n + 8) mod 5) = map (\<lambda>j. ?D (?k + j)) [0..<(?T - 5 * ?k + 4) div 5]"
    using Cons.IH [of "(n + 8) mod 5" ?w] by (simp only: X [symmetric] left mod_less_divisor)
  also have "\<dots> = map ?D [?k..<?k + (?T - 5 * ?k + 4) div 5]"
    by (rule map_shift_upt)
  also have "?k + (?T - 5 * ?k + 4) div 5 = (?T + 4) div 5" using le by auto
  finally have "crockford_from (e # r) v n = map ?D [0..<?k] @ map ?D [?k..<(?T + 4) div 5]"
    using first by (simp add: crockford_out_eq Let_def)
  also have "\<dots> = map ?D ([0..<?k] @ [?k..<(?T + 4) div 5])" by (rule map_append [symmetric])
  also have "[0..<?k] @ [?k..<(?T + 4) div 5] = [0..<(?T + 4) div 5]"
    using upt_add_eq_append [of 0 ?k "(?T + 4) div 5 - ?k"] div_le_mono [of "n + 8" "?T + 4" 5] by simp
  finally show ?case .
qed

theorem crockford_digits:
  "bytes_to_crockford bs = map (\<lambda>i. crockford_characters ! digit_of (nat (be_val bs)) (8 * length bs) i)
     [0..<(8 * length bs + 4) div 5]"
  using crockford_from_eq [of 0 bs 0] by (simp add: bytes_to_crockford_def)

section \<open>A message survives the way\<close>

text \<open>Texts of valid UTF-8, and dictionaries with distinct keys: what a Python value is.\<close>

fun plain_value :: "pyval \<Rightarrow> bool" where
  "plain_value (PStr s) \<longleftrightarrow> str_valid s"
| "plain_value (PList l) \<longleftrightarrow> list_all plain_value l"
| "plain_value (PDict d) \<longleftrightarrow> dict_wf d \<and> list_all (\<lambda>(k, v). str_valid k \<and> plain_value v) d"
| "plain_value _ \<longleftrightarrow> True"

lemma utf8_valid_cases:
  assumes "utf8_valid (a # xs)"
  obtains "unat a < 128" "utf8_valid xs"
    | b ys where "194 \<le> unat a" "unat a < 224" "xs = b # ys" "utf8_cont b" "utf8_valid ys"
    | b c ys where "224 \<le> unat a" "unat a < 240" "xs = b # c # ys" "utf8_cont b" "utf8_cont c"
        "(unat a = 224 \<longrightarrow> 160 \<le> unat b) \<and> (unat a = 237 \<longrightarrow> unat b < 160)" "utf8_valid ys"
    | b c d ys where "240 \<le> unat a" "unat a < 245" "xs = b # c # d # ys" "utf8_cont b" "utf8_cont c" "utf8_cont d"
        "(unat a = 240 \<longrightarrow> 144 \<le> unat b) \<and> (unat a = 244 \<longrightarrow> unat b < 144)" "utf8_valid ys"
proof -
  consider "unat a < 128" | "194 \<le> unat a" "unat a < 224" | "224 \<le> unat a" "unat a < 240" | "240 \<le> unat a" "unat a < 245"
    | "128 \<le> unat a" "unat a < 194 \<or> 245 \<le> unat a" by linarith
  then show thesis
  proof cases
    case 2
    then show ?thesis using assms that(2) by (cases xs) auto
  next
    case 3
    then show ?thesis using assms that(3) by (cases xs; cases "tl xs") auto
  next
    case 4
    then show ?thesis using assms that(4) by (cases xs; cases "tl xs"; cases "tl (tl xs)") auto
  qed (use assms that(1) in auto)
qed

lemma utf8_valid_append: "utf8_valid a \<Longrightarrow> utf8_valid (a @ b) \<longleftrightarrow> utf8_valid b"
proof (induction a rule: length_induct)
  case (1 a)
  show ?case
  proof (cases a)
    case (Cons x xs)
    from "1.prems" have "utf8_valid (x # xs)" by (simp only: Cons)
    then show ?thesis
    proof (cases rule: utf8_valid_cases)
      case 1
      then show ?thesis using "1.IH" [rule_format, of xs] Cons by simp
    next
      case (2 b ys)
      then show ?thesis using "1.IH" [rule_format, of ys] Cons by simp
    next
      case (3 b c ys)
      then show ?thesis using "1.IH" [rule_format, of ys] Cons by simp
    next
      case (4 b c d ys)
      then show ?thesis using "1.IH" [rule_format, of ys] Cons by simp
    qed
  qed simp
qed

lemma str_valid_append: "str_valid s \<Longrightarrow> str_valid (s @ t) \<longleftrightarrow> str_valid t"
  by (simp add: str_valid_def utf8_encode_append utf8_valid_append)

lemma str_valid_Cons: "(of_char c :: nat) < 128 \<Longrightarrow> str_valid (c # s) \<longleftrightarrow> str_valid s"
  using str_valid_append [of "[c]" s] ascii_valid [of "[c]"] by (simp add: ascii_def)

lemma str_valid_Nil [simp]: "str_valid []"
  by (simp add: str_valid_def utf8_encode_def)

lemma escape_high: "128 \<le> unat b \<Longrightarrow> escape_char (char_of_byte b) = [char_of_byte b]"
proof -
  assume a: "128 \<le> unat b"
  have "(of_char (char_of_byte b) :: nat) = unat b"
    using unsigned_less [of b, where ?'a = nat] by (simp add: char_of_byte_def)
  then have "128 \<le> (of_char (char_of_byte b) :: nat)" using a by simp
  then show ?thesis by (auto simp: escape_char_def)
qed

lemma escape_low: "unat b < 128 \<Longrightarrow> ascii (escape_char (char_of_byte b))"
  by (auto simp: escape_char_def ascii_def json_hex2_def char_of_byte_def Let_def)

lemma utf8_valid_escaped:
  "utf8_valid bs \<Longrightarrow> utf8_valid (concat (map (\<lambda>b. utf8_encode (escape_char (char_of_byte b))) bs))"
proof (induction bs rule: length_induct)
  case (1 bs)
  have low: "utf8_valid (utf8_encode (escape_char (char_of_byte a)) @ r) \<longleftrightarrow> utf8_valid r" if "unat a < 128" for r a
    using ascii_valid [OF escape_low [OF that]] by (simp add: utf8_valid_append str_valid_def)
  have high: "utf8_encode (escape_char (char_of_byte b)) = [b]" if "128 \<le> unat b" for b
    using escape_high [OF that] by (simp add: utf8_encode_def)
  have cont: "utf8_encode (escape_char (char_of_byte b)) = [b]" if "utf8_cont b" for b
    using that by (intro high) (simp add: utf8_cont_def)
  show ?case
  proof (cases bs)
    case (Cons x xs)
    from "1.prems" have "utf8_valid (x # xs)" by (simp only: Cons)
    then show ?thesis
    proof (cases rule: utf8_valid_cases)
      case 1
      then show ?thesis using "1.IH" [rule_format, of xs] Cons by (simp add: low)
    next
      case (2 b ys)
      then show ?thesis using "1.IH" [rule_format, of ys] Cons high [of x] cont by simp
    next
      case (3 b c ys)
      then show ?thesis using "1.IH" [rule_format, of ys] Cons high [of x] cont by simp
    next
      case (4 b c d ys)
      then show ?thesis using "1.IH" [rule_format, of ys] Cons high [of x] cont by simp
    qed
  qed simp
qed

lemma str_valid_quote: "str_valid s \<Longrightarrow> str_valid (json_quote s)"
proof -
  assume "str_valid s"
  then have "utf8_valid (utf8_encode (concat (map escape_char s)))"
    using utf8_valid_escaped [of "utf8_encode s"] by (simp add: str_valid_def utf8_encode_def map_concat comp_def)
  then show ?thesis by (simp add: json_quote_def str_valid_Cons str_valid_append str_valid_def [symmetric])
qed

lemma str_valid_comma: "list_all str_valid l \<Longrightarrow> str_valid (comma '''' l)"
proof (cases l)
  case (Cons x xs)
  have "list_all str_valid xs \<Longrightarrow> str_valid (concat (map (\<lambda>s. CHR '','' # s) xs))" for xs
    by (induction xs) (simp_all add: str_valid_Cons str_valid_append)
  then show "list_all str_valid l \<Longrightarrow> str_valid (comma '''' l)" by (simp add: Cons comma_def str_valid_append)
qed (simp add: comma_def)

lemma ascii_int_str: "ascii (int_str i)"
proof -
  have "ascii (nat_str n)" for n using nat_str_digits [of _ n] by (force simp: ascii_def is_digit_def)
  then show ?thesis by (auto simp: int_str_def ascii_def)
qed

lemma str_valid_json_text: "plain_value v \<Longrightarrow> str_valid (json_text '''' v)"
proof (induction v)
  case (PList l)
  then have "list_all str_valid (map (json_text '''') l)" by (simp add: list_all_iff)
  then show ?case by (simp add: str_valid_Cons str_valid_append str_valid_comma)
next
  case (PDict d)
  then have "list_all str_valid (map (\<lambda>(k, v). json_quote k @ '':'' @ json_text '''' v) d)"
    by (fastforce simp: list_all_iff str_valid_append str_valid_Cons str_valid_quote)
  then show ?case by (simp add: str_valid_Cons str_valid_append str_valid_comma)
qed (simp_all add: str_valid_Cons str_valid_quote ascii_valid ascii_int_str)

lemma ascii_b64: "ascii (b64encode b)"
proof -
  have d: "of_char (b64_alphabet ! n) < (128::nat)" if "n < 64" for n
  proof -
    have "list_all (\<lambda>c. of_char c < (128::nat)) b64_alphabet" and "length b64_alphabet = 64"
      by (simp_all add: b64_alphabet_def)
    then show ?thesis using that by (metis list_all_length)
  qed
  have b: "unat (x :: byte) < 256" for x using unsigned_less [of x, where ?'a = nat] by simp
  have "unat x div 4 < 64" "unat x mod 4 * 16 + unat y div 16 < 64" "unat x mod 16 * 4 + unat y div 64 < 64"
    "unat x mod 64 < 64" "unat x mod 4 * 16 < 64" "unat x mod 16 * 4 < 64" for x y :: byte
    using b [of x] b [of y] by auto
  then show ?thesis by (induction b rule: b64encode.induct) (simp_all add: ascii_def d)
qed

lemma dict_wf_map_values: "dict_wf (map (\<lambda>(k, v). (k, f v)) d) \<longleftrightarrow> dict_wf d"
  by (simp add: dict_wf_def comp_def case_prod_unfold)

lemma wire_normalize_ok: "plain_value v \<Longrightarrow> json_ok (wire_normalize v) \<and> plain_value (wire_normalize v)"
  by (induction v) (auto simp: list_all_iff dict_wf_map_values ascii_valid ascii_b64)

text \<open>
  A message that is encoded and padded by the sender is read back by the receiver, whatever the
  padding, as the same dictionary with the texts for its bytes, provided that its JSON text is not by
  accident a message of the protocol.
\<close>

theorem message_payload_roundtrip:
  assumes "plain_value (PDict m)" and "proto_message (utf8_encode (json_text '''' (wire_normalize (PDict m)))) = None"
  shows "\<exists>b m'. encode_message pad_byte m = Inr b \<and> wire_normalize (PDict m) = PDict m' \<and>
    bindE (unpad_random_max16 b) (\<lambda>p. Inr (read_payload proto_message p)) = Inr m'"
proof -
  let ?v = "wire_normalize (PDict m)" and ?m = "map (\<lambda>(k, v). (k, wire_normalize v)) m"
  have ok: "json_ok ?v" "plain_value ?v" using wire_normalize_ok [OF assms(1)] by simp_all
  have "json_dumps '''' ?v = Inr (json_text '''' ?v)" and "json_loads (json_text '''' ?v) = Inr (PDict ?m)"
    using json_roundtrip [OF ok(1), of "''''"] by (simp_all add: blank_def)
  moreover have "utf8_decode (utf8_encode (json_text '''' ?v)) = Inr (json_text '''' ?v)"
    by (rule utf8_decode_encode) (rule str_valid_json_text [OF ok(2)])
  ultimately have "encode_message pad_byte m = Inr (write_random_pad_max16 pad_byte (utf8_encode (json_text '''' ?v)))"
    and "read_payload proto_message (utf8_encode (json_text '''' ?v)) = ?m"
    using assms(2) by (simp_all only: encode_message_def encode_wa_message_def read_payload_def bindE_simps option.case
        sum.case pyval.case)
  then show ?thesis by (simp add: unpad_pad)
qed

theorem message_payload_roundtrip_witness:
  "\<exists>b. encode_message 7 [(''conversation'', PStr ''hi''), (''key'', PBytes [1, 2])] = Inr b \<and>
    bindE (unpad_random_max16 b) (\<lambda>p. Inr (read_payload (\<lambda>_. None) p))
      = Inr [(''conversation'', PStr ''hi''), (''key'', PStr ''AQI='')]"
proof -
  have "plain_value (PDict [(''conversation'', PStr ''hi''), (''key'', PBytes [1, 2])])"
    by (simp add: dict_wf_def str_valid_Cons)
  from message_payload_roundtrip [OF this, of "\<lambda>_. None" 7] show ?thesis
    by (simp add: b64_alphabet_def)
qed

text \<open>Padding of length 0, which no sender writes, empties the message.\<close>

lemma zero_padding_empties: "unpad_random_max16 (msg @ [0]) = Inr []"
  by (simp add: unpad_random_max16_def)

end
