(* ===== verification/Incoming_Message.thy ===== *)
theory Incoming_Message
  imports Message_Relay Generics
begin

text \<open>
  Reading a message stanza: \<^verbatim>\<open>utils/decode_wa_message.py\<close>. First its attributes, which say
  where the message belongs and who wrote it, then the encrypted contents. A message is a dictionary
  as in theory \<open>Py_Value\<close>. The parser of the protocol's messages is an argument. Attributes of a
  stanza that was received are texts. An operation that raises in the middle keeps what it has
  changed, so the message is part of the state.
\<close>

section \<open>Attributes\<close>

fun attr_val :: "attr_value \<Rightarrow> pyval" where
  "attr_val (AStr s) = PStr s"
| "attr_val ANone = PNone"
| "attr_val (AInt i) = PInt i"

text \<open>An attribute as a value, and as a text that is given and not empty.\<close>

definition attr_py :: "attrs \<Rightarrow> string \<Rightarrow> pyval" where
  "attr_py a k = attr_val (attr_get a k)"

definition attr_given :: "attrs \<Rightarrow> string \<Rightarrow> string option" where
  "attr_given a k = (case attr_get a k of AStr s \<Rightarrow> if s = '''' then None else Some s | _ \<Rightarrow> None)"

record addressing =
  ad_mode :: pyval
  ad_sender_alt :: pyval
  ad_recipient_alt :: pyval

definition extract_addressing_context :: "attrs \<Rightarrow> addressing" where
  "extract_addressing_context a =
     (let sender = py_or (attr_py a ''participant'') (attr_py a ''from'');
          mode = py_or (attr_py a ''addressing_mode'')
                   (PStr (if py_endswith (text_or_empty sender) ''lid'' then ''lid'' else ''pn''))
      in if mode = PStr ''lid''
         then \<lparr>ad_mode = mode,
               ad_sender_alt = first_truthy [attr_py a ''participant_pn'', attr_py a ''sender_pn'', attr_py a ''peer_recipient_pn''],
               ad_recipient_alt = attr_py a ''recipient_pn''\<rparr>
         else \<lparr>ad_mode = mode,
               ad_sender_alt = first_truthy [attr_py a ''participant_lid'', attr_py a ''sender_lid'', attr_py a ''peer_recipient_lid''],
               ad_recipient_alt = attr_py a ''recipient_lid''\<rparr>)"

section \<open>Where a message belongs\<close>

datatype msg_type = Chat | Group | Direct_Peer_Status | Other_Status | Peer_Broadcast | Other_Broadcast | Newsletter

text \<open>\<open>_is_me\<close> and \<open>_is_me_lid\<close>, and their disjunction, which asks for the LID only when needed.\<close>

definition is_me :: "string \<Rightarrow> string \<Rightarrow> bool result" where
  "is_me me jid = are_jids_same_user (Some jid) (Some me)"

definition is_me_any :: "string \<Rightarrow> string \<Rightarrow> string \<Rightarrow> bool result" where
  "is_me_any me_id me_lid jid = bindE (is_me me_id jid) (\<lambda>m. if m then Inr True else is_me me_lid jid)"

definition is_user_jid :: "string \<Rightarrow> bool" where
  "is_user_jid jid \<longleftrightarrow> is_pn_user (Some jid) \<or> is_lid_user (Some jid) \<or> is_hosted_lid_user (Some jid) \<or> is_hosted_pn_user (Some jid)"

definition broadcast_type :: "string \<Rightarrow> bool \<Rightarrow> msg_type" where
  "broadcast_type from_jid is_participant_me =
     (if is_jid_status_broadcast from_jid then if is_participant_me then Direct_Peer_Status else Other_Status
      else if is_participant_me then Peer_Broadcast else Other_Broadcast)"

text \<open>The type, the chat, the author and whether the message is the own one.\<close>

definition message_place ::
    "string \<Rightarrow> string \<Rightarrow> string \<Rightarrow> string option \<Rightarrow> string option \<Rightarrow> (msg_type \<times> string \<times> string \<times> bool) result" where
  "message_place me_id me_lid from_jid participant recipient =
     (if is_user_jid from_jid then
        (case recipient of
           Some r \<Rightarrow>
             if is_jid_meta_ai (Some r) then Inr (Chat, from_jid, from_jid, False)
             else bindE (is_me_any me_id me_lid from_jid) (\<lambda>mine.
               if mine then Inr (Chat, r, from_jid, True) else Inl (ValueError ''recipient present but message not from me''))
         | None \<Rightarrow> Inr (Chat, from_jid, from_jid, False))
      else if is_jid_group (Some from_jid) then
        (case participant of
           None \<Rightarrow> Inl (ValueError ''No participant in group message'')
         | Some p \<Rightarrow> bindE (is_me_any me_id me_lid p) (\<lambda>mine. Inr (Group, from_jid, p, mine)))
      else if is_jid_broadcast (Some from_jid) then
        (case participant of
           None \<Rightarrow> Inl (ValueError ''No participant in broadcast message'')
         | Some p \<Rightarrow> bindE (is_me me_id p) (\<lambda>mine. Inr (broadcast_type from_jid mine, from_jid, p, mine)))
      else if is_jid_newsletter (Some from_jid) then
        bindE (is_me_any me_id me_lid from_jid) (\<lambda>mine. Inr (Newsletter, from_jid, from_jid, mine))
      else Inl (ValueError ''Unknown message type''))"

record decoded_message =
  dn_message :: pydict
  dn_author :: string
  dn_sender :: string

definition decode_message_node :: "attrs \<Rightarrow> string \<Rightarrow> string \<Rightarrow> decoded_message result" where
  "decode_message_node a me_id me_lid =
     (case attr_given a ''from'' of
        None \<Rightarrow> Inl (ValueError (''message stanza missing '' @ CHR 0x27 # ''from'' @ [CHR 0x27]))
      | Some from_jid \<Rightarrow>
          bindE (message_place me_id me_lid from_jid (attr_given a ''participant'') (attr_given a ''recipient''))
            (\<lambda>(msg_type, chat_id, author, from_me).
          bindE (attr_int_or (attr_get a ''t'') 0) (\<lambda>t.
            let ctx = extract_addressing_context a; in_group = is_jid_group (Some chat_id);
                key = [(''remoteJid'', PStr chat_id),
                       (''remoteJidAlt'', if in_group then PNone else ad_sender_alt ctx),
                       (''fromMe'', PBool from_me), (''id'', attr_py a ''id''),
                       (''participant'', attr_py a ''participant''),
                       (''participantAlt'', if in_group then ad_sender_alt ctx else PNone),
                       (''addressingMode'', ad_mode ctx)] @
                      (if msg_type = Newsletter \<and> attr_given a ''server_id'' \<noteq> None
                       then [(''server_id'', attr_py a ''server_id'')] else [])
            in Inr \<lparr>dn_message = [(''key'', PDict key), (''category'', attr_py a ''category''), (''messageTimestamp'', PInt t),
                                   (''pushName'', attr_py a ''notify''), (''broadcast'', PBool (is_jid_broadcast (Some from_jid)))] @
                                  (if from_me then [(''status'', PInt (status_int SERVER_ACK))] else []),
                    dn_author = author, dn_sender = (if msg_type = Chat then author else chat_id)\<rparr>)))"

section \<open>The contents\<close>

definition NO_MESSAGE_FOUND_ERROR_TEXT :: string where
  "NO_MESSAGE_FOUND_ERROR_TEXT = ''Message absent from node''"

definition MISSING_KEYS_ERROR_TEXT :: string where
  "MISSING_KEYS_ERROR_TEXT = ''Key used already or never filled''"

definition CIPHERTEXT_STUB :: int where
  "CIPHERTEXT_STUB = 2"

text \<open>\<open>str(error)\<close>. The texts of the library's own exceptions are not those the code looks for.\<close>

fun exn_text :: "exn \<Rightarrow> string" where
  "exn_text (ValueError s) = s"
| "exn_text (RuntimeError s) = s"
| "exn_text _ = ''error''"

definition get_decryption_jid ::
    "('l, 's) session_env \<Rightarrow> string \<Rightarrow> ('l, 's) signal_storage \<Rightarrow> string result \<times> ('l, 's) signal_storage" where
  "get_decryption_jid env sender st =
     (if is_lid_user (Some sender) \<or> is_hosted_lid_user (Some sender) then (Inr sender, st)
      else let (r, l) = get_lid_for_pn (se_lid_get env) (se_lid_put env) (se_net env) sender (sg_lids st)
           in (bindE r (\<lambda>mapped. Inr (case mapped of Some m \<Rightarrow> if m = '''' then sender else m | None \<Rightarrow> sender)), st\<lparr>sg_lids := l\<rparr>))"

text \<open>One content, decrypted by its type.\<close>

definition decrypt_content ::
    "('l, 's) relay_env \<Rightarrow> string \<Rightarrow> string \<Rightarrow> string \<Rightarrow> attr_value \<Rightarrow> bytes \<Rightarrow> ('l, 's) relay_state \<Rightarrow>
     bytes result \<times> ('l, 's) relay_state" where
  "decrypt_content env sender author decryption_jid e2e_type content st =
     (if e2e_type = AStr ''skmsg'' then
        let (r, keys) = decrypt_group_message (ry_group env) sender author content (rl_sender_keys st)
        in (r, st\<lparr>rl_sender_keys := keys\<rparr>)
      else if e2e_type = AStr ''pkmsg'' \<or> e2e_type = AStr ''msg'' then
        let s = rl_send st;
            (r, storage) = decrypt_message (sv_session (ry_send env)) (sv_random (ry_send env) (sd_draws s)) decryption_jid
              (attr_str e2e_type) content (sd_storage s)
        in (r, st\<lparr>rl_send := s\<lparr>sd_storage := storage, sd_draws := sd_draws s + 1\<rparr>\<rparr>)
      else if e2e_type = AStr ''plaintext'' then (Inr content, st)
      else (Inl (ValueError (''Unknown e2e type: '' @ attr_str e2e_type)), st))"

text \<open>The message with what the payload adds, and the message that could not be read.\<close>

definition add_content :: "pydict \<Rightarrow> pydict \<Rightarrow> pydict" where
  "add_content parsed m = (case py_get ''message'' m of
       PDict (x # xs) \<Rightarrow> dict_set ''message'' (PDict (dict_update (x # xs) parsed)) m
     | _ \<Rightarrow> dict_set ''message'' (PDict parsed) m)"

definition mark_ciphertext :: "string \<Rightarrow> pydict \<Rightarrow> pydict" where
  "mark_ciphertext reason m =
     dict_set ''messageStubParameters'' (PList [PStr reason]) (dict_set ''messageStubType'' (PInt CIPHERTEXT_STUB) m)"

definition mark_view_once :: "pydict \<Rightarrow> pydict" where
  "mark_view_once m = dict_set ''key'' (PDict (dict_set ''isViewOnce'' (PBool True) (dict_or_empty (py_get ''key'' m)))) m"

type_synonym ('l, 's) reading = "pydict \<times> nat \<times> ('l, 's) relay_state"

text \<open>One child of the stanza. Looking up the LID and reading the retry count may raise out of the loop.\<close>

definition read_item ::
    "('l, 's) relay_env \<Rightarrow> (bytes \<Rightarrow> pydict option) \<Rightarrow> string \<Rightarrow> string \<Rightarrow> node \<Rightarrow> ('l, 's) reading \<Rightarrow> ('l, 's) reading outcome" where
  "read_item env proto_message sender author item = (\<lambda>(m, decryptables, st).
     (let tag = node_tag item; a = node_attrs item;
          m = (if tag = ''unavailable'' \<and> attr_get a ''type'' = AStr ''view_once'' then mark_view_once m else m)
      in case (if tag = ''enc'' then case attr_given a ''count'' of None \<Rightarrow> Inr m
                 | Some s \<Rightarrow> bindE (py_int s) (\<lambda>n. Inr (dict_set ''retryCount'' (PInt n) m)) else Inr m) of
        Inl e \<Rightarrow> (Some e, (m, decryptables, st))
      | Inr m \<Rightarrow>
          (case node_content item of
             CBytes content \<Rightarrow>
               if tag \<noteq> ''enc'' \<and> tag \<noteq> ''plaintext'' then (None, (m, decryptables, st))
               else
                 let n = decryptables + 1; s = rl_send st;
                     (r, storage) = get_decryption_jid (sv_session (ry_send env)) author (sd_storage s);
                     st = st\<lparr>rl_send := s\<lparr>sd_storage := storage\<rparr>\<rparr>
                 in (case r of
                       Inl e \<Rightarrow> (Some e, (m, n, st))
                     | Inr decryption_jid \<Rightarrow>
                         let e2e_type = (if tag = ''plaintext'' then AStr ''plaintext'' else attr_get a ''type'');
                             (r, st) = decrypt_content env sender author decryption_jid e2e_type content st
                         in (None, (case bindE r (\<lambda>b. if e2e_type \<noteq> AStr ''plaintext'' then unpad_random_max16 b else Inr b) of
                               Inl e \<Rightarrow> mark_ciphertext (exn_text e) m
                             | Inr payload \<Rightarrow> add_content (read_payload proto_message payload) m, n, st)))
           | _ \<Rightarrow> (None, (m, decryptables, st)))))"

text \<open>\<open>decrypt\<close>: all children, and the mark for a stanza without content.\<close>

definition is_view_once :: "pydict \<Rightarrow> bool" where
  "is_view_once m \<longleftrightarrow> truthy (py_get ''isViewOnce'' (dict_or_empty (py_get ''key'' m)))"

definition decrypt_node ::
    "('l, 's) relay_env \<Rightarrow> (bytes \<Rightarrow> pydict option) \<Rightarrow> node \<Rightarrow> decoded_message \<Rightarrow> ('l, 's) relay_state \<Rightarrow>
     (pydict \<times> ('l, 's) relay_state) outcome" where
  "decrypt_node env proto_message n d st =
     (case for_each (read_item env proto_message (dn_sender d) (dn_author d)) (get_all_binary_node_children n) (dn_message d, 0, st) of
        (Some e, (m, _, st)) \<Rightarrow> (Some e, (m, st))
      | (None, (m, decryptables, st)) \<Rightarrow>
          (None, (if decryptables = 0 \<and> \<not> is_view_once m then mark_ciphertext NO_MESSAGE_FOUND_ERROR_TEXT m else m, st)))"

section \<open>Who a message is from\<close>

lemma is_me_any_true:
  "is_me_any me_id me_lid jid = Inr True \<Longrightarrow> is_me me_id jid = Inr True \<or> is_me me_lid jid = Inr True"
  by (auto simp: is_me_any_def result_iffs split: if_splits)

lemma message_place_mine:
  assumes "message_place me_id me_lid from_jid p r = Inr (ty, chat, author, True)"
  shows "is_me me_id author = Inr True \<or> is_me me_lid author = Inr True"
  using assms by (auto simp: message_place_def result_iffs split: if_splits option.splits dest: is_me_any_true)

lemma message_place_author:
  assumes "message_place me_id me_lid from_jid p r = Inr (ty, chat, author, mine)"
  shows "author = from_jid \<or> Some author = p"
  using assms by (auto simp: message_place_def result_iffs split: if_splits option.splits)

definition key_of :: "pydict \<Rightarrow> pydict" where
  "key_of m = dict_or_empty (py_get ''key'' m)"

text \<open>
  C29. A message counts as the own one only when its author is the own user, by number or LID, and the
  author is who the stanza says it is from or who it names as the participant.
\<close>

theorem own_message_authentic:
  assumes "decode_message_node a me_id me_lid = Inr d" and "py_get ''fromMe'' (key_of (dn_message d)) = PBool True"
  shows "(are_jids_same_user (Some (dn_author d)) (Some me_id) = Inr True \<or>
          are_jids_same_user (Some (dn_author d)) (Some me_lid) = Inr True) \<and>
    (attr_given a ''from'' = Some (dn_author d) \<or> attr_given a ''participant'' = Some (dn_author d))"
proof -
  obtain from_jid ty chat author mine t where f: "attr_given a ''from'' = Some from_jid"
    and p: "message_place me_id me_lid from_jid (attr_given a ''participant'') (attr_given a ''recipient'') = Inr (ty, chat, author, mine)"
    and d: "dn_author d = author" "py_get ''fromMe'' (key_of (dn_message d)) = PBool mine"
    using assms(1) by (auto simp: decode_message_node_def Let_def key_of_def dict_or_empty_def result_iffs split: option.splits)
  have "mine = True" using assms(2) d(2) by simp
  with p have "is_me me_id author = Inr True \<or> is_me me_lid author = Inr True" using message_place_mine by blast
  then show ?thesis using message_place_author [OF p] f d(1) by (auto simp: is_me_def)
qed

section \<open>Sender keys are not learnt from messages\<close>

lemma gc_decrypt_unknown:
  assumes "load_sender_key keys name = []"
  shows "\<exists>e. gc_decrypt load_sender_key store_sender_key cr name b keys = (Inl e, keys)"
proof -
  have "\<exists>e. decrypt_with_record cr [] b = Inl e"
    by (cases "message_from_serialized b") (auto simp: decrypt_with_record_def get_sender_key_state_def)
  then show ?thesis using assms by (auto simp: gc_decrypt_def)
qed

lemma decrypt_group_unknown:
  assumes "load_sender_key keys name = []"
  shows "load_sender_key (snd (decrypt_group_message cr g author b keys)) name = []"
proof (cases "jid_to_signal_sender_key_name g author")
  case (Inr sn)
  show ?thesis
  proof (cases "sender_key_name_serialize sn = name")
    case True
    then show ?thesis using gc_decrypt_unknown [OF assms, of cr b] Inr assms by (auto simp: decrypt_group_message_def)
  next
    case False
    then show ?thesis using sks.decrypt_frame [of name "sender_key_name_serialize sn" cr b keys] Inr assms
      by (simp add: decrypt_group_message_def)
  qed
qed (use assms in \<open>simp add: decrypt_group_message_def\<close>)

definition no_key :: "string \<Rightarrow> ('l, 's) relay_state \<Rightarrow> bool" where
  "no_key name st \<longleftrightarrow> load_sender_key (rl_sender_keys st) name = []"

lemma no_key_send [simp]: "no_key name (st\<lparr>rl_send := s\<rparr>) \<longleftrightarrow> no_key name st"
  by (simp add: no_key_def)

lemma decrypt_content_no_key: "no_key name st \<Longrightarrow> no_key name (snd (decrypt_content env sender author j ty b st))"
  using decrypt_group_unknown [of "rl_sender_keys st" name "ry_group env" sender author b]
  by (auto simp: decrypt_content_def Let_def no_key_def split: prod.splits)

lemma read_item_no_key:
  assumes "no_key name (snd (snd r))"
  shows "no_key name (snd (snd (snd (read_item env pm sender author item r))))"
proof -
  obtain m n st where r: "r = (m, n, st)" by (metis prod.exhaust)
  then have "no_key name st" using assms by simp
  then have "no_key name (snd (decrypt_content env sender author j ty b (st\<lparr>rl_send := s\<rparr>)))" for j ty b s
    by (intro decrypt_content_no_key) simp
  then show ?thesis using \<open>no_key name st\<close> unfolding r read_item_def
    by (auto simp: Let_def split: sum.splits prod.splits content.splits)
       (metis snd_conv)+
qed

lemma decrypt_node_no_key:
  assumes "no_key name st"
  shows "no_key name (snd (snd (decrypt_node env pm n d st)))"
proof -
  have "no_key name (snd (snd (snd (for_each (read_item env pm (dn_sender d) (dn_author d)) (get_all_binary_node_children n) (dn_message d, 0, st)))))"
    by (rule for_each_invariant [where I = "\<lambda>r. no_key name (snd (snd r))"]) (simp_all add: assms read_item_no_key)
  then show ?thesis by (auto simp: decrypt_node_def split: prod.splits option.splits)
qed

text \<open>The state after a sequence of messages, each read with what its attributes say.\<close>

definition read_all ::
    "('l, 's) relay_env \<Rightarrow> (bytes \<Rightarrow> pydict option) \<Rightarrow> (node \<times> decoded_message) list \<Rightarrow> ('l, 's) relay_state \<Rightarrow> ('l, 's) relay_state" where
  "read_all env proto_message msgs st = foldl (\<lambda>st (n, d). snd (snd (decrypt_node env proto_message n d st))) st msgs"

lemma read_all_no_key: "no_key name st \<Longrightarrow> no_key name (read_all env pm msgs st)"
  unfolding read_all_def by (induction msgs arbitrary: st) (auto intro: decrypt_node_no_key)

text \<open>
  Finding: nothing that is received teaches a sender key, although it arrives in a message. So a group
  message of an author whose key is not stored stays without content, whatever was received before it.
\<close>

theorem group_message_never_read:
  assumes "jid_to_signal_sender_key_name (dn_sender d) (dn_author d) = Inr sn"
    and "load_sender_key (rl_sender_keys st) (sender_key_name_serialize sn) = []"
  shows "py_get ''message'' (fst (snd (decrypt_node env pm
      (Node ''message'' a (CList [Node ''enc'' [(''v'', AStr ''2''), (''type'', AStr ''skmsg'')] (CBytes c)])) d
      (read_all env pm msgs st)))) = py_get ''message'' (dn_message d)"
proof -
  let ?st = "read_all env pm msgs st"
  have k: "load_sender_key (rl_sender_keys ?st) (sender_key_name_serialize sn) = []"
    using read_all_no_key [of "sender_key_name_serialize sn" st env pm msgs] assms(2) by (simp add: no_key_def)
  obtain e where "gc_decrypt load_sender_key store_sender_key (ry_group env) (sender_key_name_serialize sn) c (rl_sender_keys ?st)
      = (Inl e, rl_sender_keys ?st)" using gc_decrypt_unknown [OF k] by blast
  then have "decrypt_group_message (ry_group env) (dn_sender d) (dn_author d) c (rl_sender_keys ?st) = (Inl e, rl_sender_keys ?st)"
    using assms(1) by (simp add: decrypt_group_message_def)
  then have r: "decrypt_content env (dn_sender d) (dn_author d) j (AStr ''skmsg'') c (?st\<lparr>rl_send := s\<rparr>)
      = (Inl e, ?st\<lparr>rl_send := s, rl_sender_keys := rl_sender_keys ?st\<rparr>)" for j s
    by (simp add: decrypt_content_def)
  obtain rj sto where g: "get_decryption_jid (sv_session (ry_send env)) (dn_author d) (sd_storage (rl_send ?st)) = (rj, sto)"
    by fastforce
  show ?thesis
    by (cases rj) (simp_all add: decrypt_node_def get_all_binary_node_children_def read_item_def r g attr_given_def attr_get_def
        mark_ciphertext_def)
qed

section \<open>What was sent is read\<close>

lemma enc_attrs:
  "attr_get (dict_update [(''v'', AStr ''2''), (''type'', AStr t)] (relay_extra_attrs m)) ''type'' = AStr t"
  "attr_get (dict_update [(''v'', AStr ''2''), (''type'', AStr t)] (relay_extra_attrs m)) ''count'' = ANone"
  by (simp_all add: relay_extra_attrs_def Let_def attr_get_def)

lemma decode_from_user:
  assumes "attr_given a ''from'' = Some j" and "is_user_jid j" and "attr_given a ''recipient'' = None"
    and "attr_int_or (attr_get a ''t'') 0 = Inr t" and "\<not> is_jid_group (Some j)"
  obtains d where "decode_message_node a me_id me_lid = Inr d" and "dn_author d = j" and "dn_sender d = j"
    and "py_get ''remoteJid'' (key_of (dn_message d)) = PStr j" and "py_get ''fromMe'' (key_of (dn_message d)) = PBool False"
    and "py_get ''message'' (dn_message d) = PNone" and "py_get ''messageStubType'' (dn_message d) = PNone"
proof -
  have p: "message_place me_id me_lid j (attr_given a ''participant'') (attr_given a ''recipient'') = Inr (Chat, j, j, False)"
    using assms(2,3) by (simp add: message_place_def)
  show thesis
    by (rule that [of "case decode_message_node a me_id me_lid of Inr d \<Rightarrow> d"])
      (simp_all add: decode_message_node_def assms(1,4,5) p key_of_def dict_or_empty_def Let_def)
qed

lemma lid_not_group: "\<not> is_jid_group (Some (lid_jid u d))"
  using jid_class(1) [of u d] jid_ends_take [of "Some (lid_jid u d)" "''@lid''" "''@g.us''" 1]
  by (auto simp: is_lid_user_def is_jid_group_def)


section \<open>At concrete inputs\<close>

definition own_copy :: attrs where
  "own_copy = [(''from'', AStr ''11@s.whatsapp.net''), (''recipient'', AStr ''22@s.whatsapp.net''), (''id'', AStr ''A'')]"

theorem own_message_authentic_witness:
  "\<exists>d. decode_message_node own_copy ''11:3@s.whatsapp.net'' ''33:3@lid'' = Inr d \<and>
    (are_jids_same_user (Some (dn_author d)) (Some ''11:3@s.whatsapp.net'') = Inr True \<or>
     are_jids_same_user (Some (dn_author d)) (Some ''33:3@lid'') = Inr True) \<and>
    (attr_given own_copy ''from'' = Some (dn_author d) \<or> attr_given own_copy ''participant'' = Some (dn_author d))"
proof -
  have "is_me_any ''11:3@s.whatsapp.net'' ''33:3@lid'' ''11@s.whatsapp.net'' = Inr True"
    by code_simp
  then obtain d where "decode_message_node own_copy ''11:3@s.whatsapp.net'' ''33:3@lid'' = Inr d"
    and "py_get ''fromMe'' (key_of (dn_message d)) = PBool True"
    by (simp add: decode_message_node_def own_copy_def attr_given_def attr_get_def message_place_def is_user_jid_def is_pn_user_def
        jid_ends_def py_endswith_def is_jid_meta_ai_def attr_int_or_def key_of_def dict_or_empty_def Let_def)
  then show ?thesis using own_message_authentic by blast
qed

definition group_text :: decoded_message where
  "group_text = \<lparr>dn_message = [], dn_author = ''22@lid'', dn_sender = ''1@g.us''\<rparr>"

theorem group_message_never_read_witness:
  "\<exists>sn. jid_to_signal_sender_key_name ''1@g.us'' ''22@lid'' = Inr sn \<and>
    py_get ''message'' (fst (snd (decrypt_node sample_relay (\<lambda>_. None)
      (Node ''message'' [] (CList [Node ''enc'' [(''v'', AStr ''2''), (''type'', AStr ''skmsg'')] (CBytes [1])])) group_text
      (read_all sample_relay (\<lambda>_. None) [] sample_relay_state)))) = py_get ''message'' (dn_message group_text)"
proof -
  have "case jid_to_signal_sender_key_name ''1@g.us'' ''22@lid'' of Inr sn \<Rightarrow> True | Inl _ \<Rightarrow> False" by code_simp
  then obtain sn where sn: "jid_to_signal_sender_key_name ''1@g.us'' ''22@lid'' = Inr sn" by (auto split: sum.splits)
  have "jid_to_signal_sender_key_name (dn_sender group_text) (dn_author group_text) = Inr sn" using sn by (simp add: group_text_def)
  moreover have "load_sender_key (rl_sender_keys sample_relay_state) (sender_key_name_serialize sn) = []"
    by (simp add: sample_relay_state_def load_sender_key_def)
  ultimately have "py_get ''message'' (fst (snd (decrypt_node sample_relay (\<lambda>_. None)
      (Node ''message'' [] (CList [Node ''enc'' [(''v'', AStr ''2''), (''type'', AStr ''skmsg'')] (CBytes [1])])) group_text
      (read_all sample_relay (\<lambda>_. None) [] sample_relay_state)))) = py_get ''message'' (dn_message group_text)"
    by (rule group_message_never_read)
  with sn show ?thesis by blast
qed

definition sample_text :: pydict where
  "sample_text = [(''conversation'', PStr ''hi'')]"

definition sample_key :: bytes where
  "sample_key = 5 # bundle_material (bundle_keys sample_bundle)"

definition sample_receiver :: "(string store, bytes store) relay_state" where
  "sample_receiver = sample_relay_state\<lparr>rl_send := sample_state\<lparr>sd_storage := sample_storage [(lid_address ''11'' 0, sample_key)]\<rparr>\<rparr>"


end
