(* ===== verification/Process_Message.thy ===== *)
theory Process_Message
  imports Message_Content Json
begin

text \<open>
  What is done with a message once it is decrypted: \<open>clean_message\<close> of
  \<^verbatim>\<open>utils/process_message.py\<close>. Dictionaries are changed in place in the code; here the
  changed message is returned, with the change written back through the wrappers around its content.
\<close>

section \<open>Cleaning the keys\<close>

text \<open>The JID without device; a hosted user gets the server of the user it stands for.\<close>

definition canonical_jid :: "pyval \<Rightarrow> string result" where
  "canonical_jid v =
     (let j = as_str v in
      if is_hosted_pn_user j \<or> is_hosted_lid_user j
      then bindE (jid_decode j) (\<lambda>d. Inr (jid_encode (map_option jid_user d)
             (if is_hosted_pn_user j then ''s.whatsapp.net'' else ''lid'') None None))
      else jid_normalized_user j)"

definition same_user :: "pyval \<Rightarrow> string \<Rightarrow> bool result" where
  "same_user v me = are_jids_same_user (as_str v) (Some me)"

text \<open>The key of the message that a reaction or a vote is about, seen from the own account.\<close>

definition normalise_key :: "pydict \<Rightarrow> string \<Rightarrow> string \<Rightarrow> pydict \<Rightarrow> pydict result" where
  "normalise_key key me_id me_lid msg_key =
     (if truthy (py_get ''fromMe'' key) then Inr msg_key
      else
        let author = py_or (py_get ''participant'' msg_key) (py_get ''remoteJid'' msg_key)
        in bindE (if truthy (py_get ''fromMe'' msg_key) then Inr False
                  else bindE (same_user author me_id) (\<lambda>m. if m then Inr True else same_user author me_lid)) (\<lambda>mine.
             let k = dict_set ''remoteJid'' (py_get ''remoteJid'' key) (dict_set ''fromMe'' (PBool mine) msg_key)
             in Inr (dict_set ''participant'' (py_or (py_get ''participant'' k) (py_get ''participant'' key)) k)))"

definition update_field :: "string \<Rightarrow> (pydict \<Rightarrow> pydict result) \<Rightarrow> pydict \<Rightarrow> pydict result" where
  "update_field k f d = (case py_get k d of
       PDict e \<Rightarrow> bindE (f e) (\<lambda>e. Inr (dict_set k (PDict e) d))
     | _ \<Rightarrow> Inr d)"

text \<open>The content below the wrappers, changed in place.\<close>

fun update_content :: "nat \<Rightarrow> (pydict \<Rightarrow> pydict result) \<Rightarrow> pydict \<Rightarrow> pydict result" where
  "update_content 0 f current = f current"
| "update_content (Suc n) f current =
     (case find (\<lambda>k. truthy (py_get k current)) wrapper_keys of
        None \<Rightarrow> f current
      | Some k \<Rightarrow>
          (case py_get k current of
             PDict inner \<Rightarrow>
               (case py_get ''message'' inner of
                  PDict msg \<Rightarrow> bindE (update_content n f msg) (\<lambda>m.
                    Inr (dict_set k (PDict (dict_set ''message'' (PDict m) inner)) current))
                | _ \<Rightarrow> f current)
           | _ \<Rightarrow> f current))"

definition clean_message :: "pydict \<Rightarrow> string \<Rightarrow> string \<Rightarrow> pydict result" where
  "clean_message message me_id me_lid =
     (let key = dict_or_empty (py_get ''key'' message) in
      bindE (canonical_jid (py_get ''remoteJid'' key)) (\<lambda>remote.
      bindE (canonical_jid (py_get ''participant'' key)) (\<lambda>participant.
        let key = dict_set ''participant'' (PStr participant) (dict_set ''remoteJid'' (PStr remote) key);
            message = dict_set ''key'' (PDict key) message;
            norm = update_field ''key'' (normalise_key key me_id me_lid);
            poll = update_field ''pollCreationMessageKey'' (normalise_key key me_id me_lid)
        in case py_get ''message'' message of
             PDict (x # xs) \<Rightarrow>
               bindE (update_content 5 (\<lambda>c. bindE (update_field ''reactionMessage'' norm c) (update_field ''pollUpdateMessage'' poll))
                       (x # xs)) (\<lambda>content. Inr (dict_set ''message'' (PDict content) message))
           | _ \<Rightarrow> Inr message)))"

text \<open>The content found below the wrappers is the one that is changed.\<close>

lemma first_truthy_find:
  assumes "ks \<noteq> []"
  shows "truthy (first_truthy (map (\<lambda>k. py_get k d) ks)) \<longleftrightarrow> find (\<lambda>k. truthy (py_get k d)) ks \<noteq> None"
    and "find (\<lambda>k. truthy (py_get k d)) ks = Some k \<Longrightarrow> first_truthy (map (\<lambda>k. py_get k d) ks) = py_get k d"
proof -
  have "(truthy (first_truthy (map (\<lambda>k. py_get k d) ks)) \<longleftrightarrow> find (\<lambda>k. truthy (py_get k d)) ks \<noteq> None) \<and>
    (find (\<lambda>k. truthy (py_get k d)) ks = Some k \<longrightarrow> first_truthy (map (\<lambda>k. py_get k d) ks) = py_get k d)"
    using assms
  proof (induction ks)
    case (Cons x xs)
    then show ?case by (cases xs) (auto simp: py_or_def)
  qed simp
  then show "truthy (first_truthy (map (\<lambda>k. py_get k d) ks)) \<longleftrightarrow> find (\<lambda>k. truthy (py_get k d)) ks \<noteq> None"
    and "find (\<lambda>k. truthy (py_get k d)) ks = Some k \<Longrightarrow> first_truthy (map (\<lambda>k. py_get k d) ks) = py_get k d" by simp_all
qed

lemma wrapper_keys_ne: "wrapper_keys \<noteq> []"
  by (simp add: wrapper_keys_def)

lemma update_content_reads:
  "update_content n f current = Inr c \<Longrightarrow> \<exists>c'. f (unwrap n current) = Inr c'"
proof (induction n f current arbitrary: c rule: update_content.induct)
  case (2 n f current)
  show ?case
  proof (cases "find (\<lambda>k. truthy (py_get k current)) wrapper_keys")
    case None
    then show ?thesis using 2 first_truthy_find(1) [OF wrapper_keys_ne, of current] by (simp add: Let_def)
  next
    case (Some k)
    note w = first_truthy_find(2) [OF wrapper_keys_ne Some] first_truthy_find(1) [OF wrapper_keys_ne, of current]
    show ?thesis
    proof (cases "\<exists>inner msg. py_get k current = PDict inner \<and> py_get ''message'' inner = PDict msg")
      case True
      then obtain inner msg where i: "py_get k current = PDict inner" "py_get ''message'' inner = PDict msg" by blast
      then show ?thesis using 2 Some w by (auto simp: Let_def result_iffs)
    next
      case False
      then have "update_content (Suc n) f current = f current" using Some by (auto split: pyval.splits)
      moreover have "unwrap (Suc n) current = current" using False Some w by (auto simp: Let_def split: pyval.splits)
      ultimately show ?thesis using 2 by simp
    qed
  qed
qed simp

end
