(* ===== verification/History.thy ===== *)
theory History
  imports Message_Content Json
begin

text \<open>
  History of the time before the client was linked (\<^verbatim>\<open>utils/history.py\<close>): chats, contacts,
  messages and pairs of LID and number are taken out of one piece of history. Decompression is an
  argument. Entries that should be dictionaries or lists and are not are read as empty.
\<close>

section \<open>Numbers\<close>

text \<open>\<open>to_number\<close>; texts are decimal integers of at most 15 digits, which a float keeps.\<close>

definition to_number :: "pyval \<Rightarrow> int" where
  "to_number v = (case v of
       PBool b \<Rightarrow> of_bool b
     | PInt i \<Rightarrow> i
     | PStr s \<Rightarrow> (case py_int s of Inl _ \<Rightarrow> 0 | Inr i \<Rightarrow> i)
     | _ \<Rightarrow> 0)"

definition list_or_empty :: "pyval \<Rightarrow> pyval list" where
  "list_or_empty v = (case v of PList l \<Rightarrow> l | _ \<Rightarrow> [])"

definition in_values :: "pyval \<Rightarrow> string list \<Rightarrow> int list \<Rightarrow> bool" where
  "in_values v names codes \<longleftrightarrow> (case v of PStr s \<Rightarrow> s \<in> set names | _ \<Rightarrow> (case as_int v of None \<Rightarrow> False | Some i \<Rightarrow> i \<in> set codes))"

section \<open>One chat\<close>

definition is_pn_jid :: "pyval \<Rightarrow> bool" where
  "is_pn_jid v \<longleftrightarrow> is_pn_user (as_str v) \<or> is_hosted_pn_user (as_str v)"

definition is_lid_jid :: "pyval \<Rightarrow> bool" where
  "is_lid_jid v \<longleftrightarrow> is_lid_user (as_str v) \<or> is_hosted_lid_user (as_str v)"

definition receipt_pn :: "pydict \<Rightarrow> pyval option" where
  "receipt_pn item =
     (let message = dict_or_empty (py_or (py_get ''message'' item) (PDict item)); user_receipt = list_or_empty (py_get ''userReceipt'' message)
      in if truthy (py_get ''fromMe'' (message_key message)) \<and> user_receipt \<noteq> []
         then (let user_jid = py_get ''userJid'' (dict_or_empty (hd user_receipt))
               in if truthy user_jid \<and> is_pn_jid user_jid then Some user_jid else None)
         else None)"

fun extract_pn_from_messages :: "pyval list \<Rightarrow> pyval option" where
  "extract_pn_from_messages [] = None"
| "extract_pn_from_messages (item # items) = (case receipt_pn (dict_or_empty item) of
       None \<Rightarrow> extract_pn_from_messages items | Some j \<Rightarrow> Some j)"

definition chat_mapping :: "pydict \<Rightarrow> (pyval \<times> pyval) list" where
  "chat_mapping chat =
     (let chat_id = (case map_of chat ''id'' of None \<Rightarrow> PStr '''' | Some v \<Rightarrow> v)
      in if is_lid_jid chat_id \<and> truthy (py_get ''pnJid'' chat) then [(chat_id, py_get ''pnJid'' chat)]
         else if is_pn_jid chat_id \<and> truthy (py_get ''lidJid'' chat) then [(py_get ''lidJid'' chat, chat_id)]
         else if is_lid_jid chat_id
         then (case extract_pn_from_messages (list_or_empty (py_get ''messages'' chat)) of
                 None \<Rightarrow> [] | Some pn \<Rightarrow> [(chat_id, pn)])
         else [])"

definition chat_contact :: "pydict \<Rightarrow> pydict" where
  "chat_contact chat =
     (let chat_id = (case map_of chat ''id'' of None \<Rightarrow> PStr '''' | Some v \<Rightarrow> v); pn = py_get ''pnJid'' chat
      in [(''id'', chat_id),
          (''name'', first_truthy [py_get ''displayName'' chat, py_get ''name'' chat, py_get ''username'' chat]),
          (''lid'', py_or (py_get ''lidJid'' chat) (py_get ''accountLid'' chat)),
          (''phoneNumber'', if \<not> truthy pn \<and> is_pn_jid chat_id then chat_id else pn)])"

text \<open>The messages of a chat: the first one stays with the chat, all are handed on.\<close>

definition item_message :: "pyval \<Rightarrow> pydict option" where
  "item_message item = (case item of PDict d \<Rightarrow> as_dict (py_get ''message'' d) | _ \<Rightarrow> None)"

definition message_contacts :: "pydict \<Rightarrow> pydict list" where
  "message_contacts message =
     (let params = list_or_empty (py_get ''messageStubParameters'' message); key = message_key message
      in if in_values (py_get ''messageStubType'' message) [''BIZ_PRIVACY_MODE_TO_BSP'', ''BIZ_PRIVACY_MODE_TO_FB''] [120, 121] \<and> params \<noteq> []
         then [[(''id'', py_or (py_get ''participant'' key) (py_get ''remoteJid'' key)), (''verifiedName'', hd params)]]
         else [])"

definition chat_with_message :: "pydict \<Rightarrow> pydict \<Rightarrow> pydict" where
  "chat_with_message message chat =
     (let chat = (if truthy (py_get ''messages'' chat) then chat
            else dict_set ''messages'' (PList [PDict [(''message'', PDict message)]]) chat)
      in if \<not> truthy (py_get ''fromMe'' (message_key message)) \<and> \<not> truthy (py_get ''lastMessageRecvTimestamp'' chat)
         then dict_set ''lastMessageRecvTimestamp'' (PInt (to_number (py_get ''messageTimestamp'' message))) chat
         else chat)"

definition history_messages :: "pydict \<Rightarrow> pydict list" where
  "history_messages chat = List.map_filter item_message (list_or_empty (py_get ''messages'' chat))"

definition history_chat_object :: "pydict \<Rightarrow> pydict" where
  "history_chat_object chat = fold chat_with_message (history_messages chat) (dict_pop ''messages'' chat)"

section \<open>A piece of history\<close>

record history =
  hy_chats :: "pydict list"
  hy_contacts :: "pydict list"
  hy_messages :: "pydict list"
  hy_mappings :: "(pyval \<times> pyval) list"
  hy_sync_type :: pyval
  hy_progress :: pyval

definition listed_mappings :: "pydict \<Rightarrow> (pyval \<times> pyval) list" where
  "listed_mappings item = filter (\<lambda>(lid, pn). truthy lid \<and> truthy pn)
     (map (\<lambda>m. (py_get ''lidJid'' (dict_or_empty m), py_get ''pnJid'' (dict_or_empty m)))
       (list_or_empty (py_get ''phoneNumberToLidMappings'' item)))"

definition process_history_message :: "pydict \<Rightarrow> history" where
  "process_history_message item =
     (let sync_type = py_get ''syncType'' item;
          chats = (if in_values sync_type [''INITIAL_BOOTSTRAP'', ''RECENT'', ''FULL'', ''ON_DEMAND''] [0, 1, 2, 3]
                   then map dict_or_empty (list_or_empty (py_get ''conversations'' item)) else [])
      in \<lparr>hy_chats = map history_chat_object chats,
          hy_contacts = concat (map (\<lambda>c. chat_contact c # concat (map message_contacts (history_messages c))) chats) @
            (if in_values sync_type [''PUSH_NAME''] [4]
             then map (\<lambda>c. let c = dict_or_empty c in [(''id'', py_get ''id'' c), (''notify'', py_get ''pushname'' c)])
                    (list_or_empty (py_get ''pushnames'' item))
             else []),
          hy_messages = concat (map history_messages chats),
          hy_mappings = listed_mappings item @ concat (map chat_mapping chats),
          hy_sync_type = sync_type, hy_progress = py_get ''progress'' item\<rparr>)"

text \<open>The same as the dictionary that the code returns.\<close>

definition history_dict :: "history \<Rightarrow> pydict" where
  "history_dict h =
     [(''chats'', PList (map PDict (hy_chats h))), (''contacts'', PList (map PDict (hy_contacts h))),
      (''messages'', PList (map PDict (hy_messages h))),
      (''lidPnMappings'', PList (map (\<lambda>(lid, pn). PDict [(''lid'', lid), (''pn'', pn)]) (hy_mappings h))),
      (''syncType'', hy_sync_type h), (''progress'', hy_progress h)]"

text \<open>\<open>download_history\<close> reads what is already there; \<open>inflate\<close> is \<open>zlib.decompress\<close>.\<close>

definition loads_bytes :: "bytes \<Rightarrow> pyval result" where
  "loads_bytes b = bindE (utf8_decode b) json_loads"

definition download_history :: "(bytes \<Rightarrow> bytes result) \<Rightarrow> pydict \<Rightarrow> pyval result" where
  "download_history inflate msg = (case py_get ''historySync'' msg of
       PDict d \<Rightarrow> Inr (PDict d)
     | _ \<Rightarrow> (case py_get ''historyData'' msg of
         PBytes payload \<Rightarrow>
           (case bindE (inflate payload) loads_bytes of
              Inr v \<Rightarrow> Inr v
            | Inl _ \<Rightarrow> (case loads_bytes payload of Inr v \<Rightarrow> Inr v
                | Inl _ \<Rightarrow> Inl (ValueError ''failed to decode history payload'')))
       | _ \<Rightarrow> Inl (ValueError ''history payload missing; expected historySync dict or historyData bytes'')))"

definition download_and_process_history_sync_notification ::
    "(bytes \<Rightarrow> bytes result) \<Rightarrow> pydict \<Rightarrow> history result" where
  "download_and_process_history_sync_notification inflate msg =
     (let inline = py_get ''initialHistBootstrapInlinePayload'' msg in
      bindE (if truthy inline
             then (case inline of
                     PBytes b \<Rightarrow> (case bindE (inflate b) loads_bytes of Inr v \<Rightarrow> Inr v | Inl _ \<Rightarrow> Inr inline)
                   | _ \<Rightarrow> Inr inline)
             else download_history inflate msg) (\<lambda>v. case v of
        PDict d \<Rightarrow> Inr (process_history_message d)
      | _ \<Rightarrow> Inl (ValueError ''history sync notification payload was not a dict'')))"

definition get_history_msg :: "pyval \<Rightarrow> pyval" where
  "get_history_msg message = (case normalize_message_content (as_dict message) of
       None \<Rightarrow> PNone
     | Some c \<Rightarrow> (case py_get ''protocolMessage'' c of PDict p \<Rightarrow> py_get ''historySyncNotification'' p | _ \<Rightarrow> PNone))"

section \<open>Nothing is lost\<close>

lemma chat_with_message_keeps:
  "k \<notin> {''messages'', ''lastMessageRecvTimestamp''} \<Longrightarrow> py_get k (chat_with_message m c) = py_get k c"
  by (auto simp: chat_with_message_def Let_def)

lemma fold_chat_keeps:
  "k \<notin> {''messages'', ''lastMessageRecvTimestamp''} \<Longrightarrow> py_get k (fold chat_with_message ms c) = py_get k c"
  by (induction ms arbitrary: c) (simp_all add: chat_with_message_keeps)

lemma first_message_stays:
  "truthy (py_get ''messages'' c) \<Longrightarrow> py_get ''messages'' (fold chat_with_message ms c) = py_get ''messages'' c"
proof (induction ms arbitrary: c)
  case (Cons m ms)
  then have "py_get ''messages'' (chat_with_message m c) = py_get ''messages'' c" by (simp add: chat_with_message_def Let_def)
  with Cons show ?case by simp
qed simp

lemma chat_messages_head:
  "py_get ''messages'' (history_chat_object c) =
    (case history_messages c of [] \<Rightarrow> PNone | m # ms \<Rightarrow> PList [PDict [(''message'', PDict m)]])"
proof (cases "history_messages c")
  case (Cons m ms)
  let ?c = "chat_with_message m (dict_pop ''messages'' c)"
  have "py_get ''messages'' ?c = PList [PDict [(''message'', PDict m)]]" by (simp add: chat_with_message_def Let_def)
  then show ?thesis using first_message_stays [of ?c ms] Cons by (simp add: history_chat_object_def)
qed (simp add: history_chat_object_def)


definition small_history :: pydict where
  "small_history = [(''syncType'', PStr ''RECENT''), (''conversations'', PList (map PDict
     [[(''id'', PStr ''22@lid''), (''messages'', PList [PDict [(''message'', PDict [(''messageTimestamp'', PInt 7)])]])]]))]"


end
