(* ===== verification/Message_Effects.thy ===== *)
theory Message_Effects
  imports Process_Message History Pairwise_Session App_State
begin

text \<open>
  What a message does to the account and to the chats besides being shown: \<open>process_message\<close> of
  \<^verbatim>\<open>utils/process_message.py\<close>. Events are kept in the order they are emitted. The
  repository and the key store are present; no cache of placeholders is configured. Decompression,
  the cipher, the decoding of event responses and the application's messages are arguments. A
  transaction of the key store does what its body does (theory \<open>Transaction\<close>).
\<close>

section \<open>Bytes out of dictionaries\<close>

text \<open>\<open>base64.b64decode\<close> skips what is not of the alphabet and stops at padding that completes four characters.\<close>

definition b64_value :: "char \<Rightarrow> nat option" where
  "b64_value c = (let n = (of_char c :: nat) in
     if 65 \<le> n \<and> n \<le> 90 then Some (n - 65) else if 97 \<le> n \<and> n \<le> 122 then Some (n - 71)
     else if 48 \<le> n \<and> n \<le> 57 then Some (n + 4) else if c = CHR ''+'' then Some 62 else if c = CHR ''/'' then Some 63 else None)"

fun b64_from :: "string \<Rightarrow> nat \<Rightarrow> nat \<Rightarrow> nat \<Rightarrow> bytes result" where
  "b64_from [] quad left pads = (if quad = 0 then Inr [] else Inl (ValueError ''Incorrect padding''))"
| "b64_from (c # s) quad left pads =
     (if c = CHR ''='' then (if 2 \<le> quad \<and> 4 \<le> quad + pads + 1 then Inr [] else b64_from s quad left (if 2 \<le> quad then pads + 1 else pads))
      else case b64_value c of
        None \<Rightarrow> b64_from s quad left pads
      | Some v \<Rightarrow>
          if quad = 0 then b64_from s 1 v 0
          else if quad = 1 then bindE (b64_from s 2 (v mod 16) 0) (\<lambda>r. Inr (word_of_nat (left * 4 + v div 16) # r))
          else if quad = 2 then bindE (b64_from s 3 (v mod 4) 0) (\<lambda>r. Inr (word_of_nat (left * 16 + v div 4) # r))
          else bindE (b64_from s 0 0 0) (\<lambda>r. Inr (word_of_nat (left * 64 + v) # r)))"

definition b64decode :: "string \<Rightarrow> bytes result" where
  "b64decode s = (if ascii s then b64_from s 0 0 0 else Inl (ValueError ''string argument should contain only ASCII characters''))"

text \<open>\<open>s.encode("latin1")\<close>: the characters below \<open>U+0100\<close>, which take two bytes from \<open>U+0080\<close> on.\<close>

fun latin1_encode :: "string \<Rightarrow> bytes result" where
  "latin1_encode [] = Inr []"
| "latin1_encode (c # s) =
     (let n = (of_char c :: nat) in
      if n < 128 then bindE (latin1_encode s) (\<lambda>r. Inr (word_of_nat n # r))
      else case s of
        d # s' \<Rightarrow> if n = 0xC2 \<or> n = 0xC3 then bindE (latin1_encode s') (\<lambda>r. Inr (word_of_nat (n mod 4 * 64 + of_char d mod 64) # r))
                  else Inl (ValueError ''latin1'')
      | [] \<Rightarrow> Inl (ValueError ''latin1''))"

fun byte_list :: "pyval list \<Rightarrow> bytes result" where
  "byte_list [] = Inr []"
| "byte_list (v # vs) = (case as_int v of
       Some i \<Rightarrow> if 0 \<le> i \<and> i < 256 then bindE (byte_list vs) (\<lambda>r. Inr (word_of_int i # r)) else Inl (ValueError ''byte'')
     | None \<Rightarrow> Inl TypeErr)"

definition to_bytes :: "pyval \<Rightarrow> bytes result" where
  "to_bytes v = (case v of
       PBytes b \<Rightarrow> Inr b
     | PList l \<Rightarrow> (case byte_list l of Inr b \<Rightarrow> Inr b | Inl _ \<Rightarrow> Inr [])
     | PStr s \<Rightarrow> (case b64decode (s @ replicate ((4 - length s mod 4) mod 4) (CHR ''='')) of
         Inr b \<Rightarrow> Inr b | Inl _ \<Rightarrow> latin1_encode s)
     | _ \<Rightarrow> Inr [])"

section \<open>Secret answers\<close>

text \<open>
  Answers to an event and votes in a poll are sealed with a key made from the secret of the message
  they answer, the identifier of that message and the two people; the identifier and the one who
  answers are authenticated too.
\<close>

definition response_key :: "(bytes \<Rightarrow> bytes \<Rightarrow> bytes) \<Rightarrow> string \<Rightarrow> string \<Rightarrow> string \<Rightarrow> string \<Rightarrow> bytes \<Rightarrow> bytes" where
  "response_key hmac use_case msg_id creator answerer enc_key =
     (let sign = utf8_encode msg_id @ utf8_encode creator @ utf8_encode answerer @ utf8_encode use_case @ [1];
          key0 = hmac_sign hmac enc_key (replicate 32 0)
      in hmac_sign hmac sign key0)"

definition decrypt_response ::
    "(bytes \<Rightarrow> bytes \<Rightarrow> bytes) \<Rightarrow> (bytes \<Rightarrow> bytes \<Rightarrow> bytes \<Rightarrow> bytes \<Rightarrow> bytes \<Rightarrow> bytes result) \<Rightarrow> (bytes \<Rightarrow> pydict result) \<Rightarrow>
     string \<Rightarrow> pydict \<Rightarrow> string \<Rightarrow> string \<Rightarrow> bytes \<Rightarrow> string \<Rightarrow> pydict result" where
  "decrypt_response hmac unseal decode use_case response creator msg_id enc_key answerer =
     (if response = [] then Inr []
      else
        bindE (to_bytes (py_or (py_get ''encPayload'' response) (py_get ''enc_payload'' response))) (\<lambda>enc_payload.
        bindE (to_bytes (py_or (py_get ''encIv'' response) (py_get ''enc_iv'' response))) (\<lambda>enc_iv.
          if enc_payload = [] \<or> enc_iv = [] then Inr []
          else bindE (aes_decrypt_gcm unseal enc_payload (response_key hmac use_case msg_id creator answerer enc_key) enc_iv
                 (utf8_encode msg_id @ [0] @ utf8_encode answerer)) decode)))"

definition decrypt_event_response where
  "decrypt_event_response hmac unseal decode = decrypt_response hmac unseal decode ''Event Response''"

definition decrypt_poll_vote where
  "decrypt_poll_vote hmac unseal decode = decrypt_response hmac unseal decode ''Poll Vote''"

section \<open>State\<close>

record ('l, 's) process_env =
  pv_session :: "('l, 's) session_env"
  pv_creds :: pydict
  pv_process_history :: bool
  pv_inflate :: "bytes \<Rightarrow> bytes result"
  pv_get_message :: "pydict \<Rightarrow> pydict option"
  pv_hmac :: "bytes \<Rightarrow> bytes \<Rightarrow> bytes"
  pv_unseal :: "bytes \<Rightarrow> bytes \<Rightarrow> bytes \<Rightarrow> bytes \<Rightarrow> bytes \<Rightarrow> bytes result"
  pv_event_response :: "bytes \<Rightarrow> pydict result"

record ('l, 's) process_state =
  ps_storage :: "('l, 's) signal_storage"
  ps_sync_keys :: "string \<Rightarrow> pyval option"
  ps_events :: "(string \<times> pyval) list"
  ps_chat :: pydict

definition ps_emit :: "string \<Rightarrow> pyval \<Rightarrow> ('l, 's) process_state \<Rightarrow> ('l, 's) process_state" where
  "ps_emit name data st = st\<lparr>ps_events := ps_events st @ [(name, data)]\<rparr>"

definition chat_set :: "string \<Rightarrow> pyval \<Rightarrow> ('l, 's) process_state \<Rightarrow> ('l, 's) process_state" where
  "chat_set k v st = st\<lparr>ps_chat := dict_set k v (ps_chat st)\<rparr>"

definition pv_me_id :: "('l, 's) process_env \<Rightarrow> string" where
  "pv_me_id env = text_or_empty (py_get ''id'' (dict_or_empty (py_get ''me'' (pv_creds env))))"


section \<open>Protocol messages\<close>

text \<open>The type of a protocol message, which is a name or a number.\<close>

definition type_is :: "pydict \<Rightarrow> string \<Rightarrow> int \<Rightarrow> bool" where
  "type_is protocol name code \<longleftrightarrow> (case py_get ''type'' protocol of PStr s \<Rightarrow> s = name | v \<Rightarrow> as_int v = Some code)"

definition on_demand :: "pyval \<Rightarrow> bool" where
  "on_demand sync_type \<longleftrightarrow> in_values sync_type [''ON_DEMAND''] [3]"

definition text_pairs :: "(pyval \<times> pyval) list \<Rightarrow> (string \<times> string) list" where
  "text_pairs ps = map (\<lambda>(lid, pn). (text_or_empty lid, text_or_empty pn)) ps"

definition store_mappings ::
    "('l, 's) process_env \<Rightarrow> (string \<times> string) list \<Rightarrow> ('l, 's) process_state \<Rightarrow> ('l, 's) process_state outcome" where
  "store_mappings env pairs st =
     (let s = ps_storage st;
          (r, lids) = store_lid_pn_mappings (se_lid_get (pv_session env)) (se_lid_put (pv_session env)) pairs (sg_lids s)
      in (case r of Inl e \<Rightarrow> Some e | Inr _ \<Rightarrow> None, st\<lparr>ps_storage := s\<lparr>sg_lids := lids\<rparr>\<rparr>))"

text \<open>A piece of history: noted in the credentials unless it was asked for, read, its mappings stored and all of it handed on.\<close>

definition process_history ::
    "('l, 's) process_env \<Rightarrow> pydict \<Rightarrow> pydict \<Rightarrow> ('l, 's) process_state \<Rightarrow> ('l, 's) process_state outcome" where
  "process_history env message notification st =
     (let old = py_get ''processedHistoryMessages'' (pv_creds env); is_latest = \<not> truthy old;
          sync_type = py_get ''syncType'' notification;
          st = (if on_demand sync_type then st
            else ps_emit ''creds.update'' (PDict [(''processedHistoryMessages'', PList (list_or_empty old @
              [PDict [(''key'', py_get ''key'' message), (''messageTimestamp'', py_get ''messageTimestamp'' message)]]))]) st)
      in case download_and_process_history_sync_notification (pv_inflate env) notification of
           Inl e \<Rightarrow> (Some e, st)
         | Inr h \<Rightarrow>
             let st = (if hy_mappings h = [] then st else snd (store_mappings env (text_pairs (hy_mappings h)) st))
             in (None, ps_emit ''messaging-history.set''
                  (PDict (history_dict h @ [(''isLatest'', PBool (\<not> on_demand sync_type \<and> is_latest)),
                     (''peerDataRequestSessionId'', py_get ''peerDataRequestSessionId'' notification)])) st))"

text \<open>The keys of the app state are stored under their identifiers; the last one becomes the current one.\<close>

definition shared_keys :: "pyval \<Rightarrow> (string \<times> pyval) list" where
  "shared_keys keys = filter (\<lambda>(i, v). i \<noteq> '''')
     (map (\<lambda>item. let d = dict_or_empty item in (text_or_empty (py_get ''keyId'' (dict_or_empty (py_get ''keyId'' d))), py_get ''keyData'' d))
       (list_or_empty keys))"

definition store_sync_key :: "string \<times> pyval \<Rightarrow> (string \<Rightarrow> pyval option) \<Rightarrow> (string \<Rightarrow> pyval option)" where
  "store_sync_key kv m = m(fst kv := (if snd kv = PNone then None else Some (snd kv)))"

definition process_key_share :: "pydict \<Rightarrow> ('l, 's) process_state \<Rightarrow> ('l, 's) process_state" where
  "process_key_share protocol st =
     (let keys = py_get ''keys'' (dict_or_empty (py_get ''appStateSyncKeyShare'' protocol)); new = shared_keys keys
      in if \<not> truthy keys then st
         else ps_emit ''creds.update'' (PDict [(''myAppStateKeyId'', PStr (if new = [] then '''' else fst (last new)))])
                (st\<lparr>ps_sync_keys := fold store_sync_key new (ps_sync_keys st)\<rparr>))"

definition with_id :: "pydict \<Rightarrow> pydict \<Rightarrow> pydict" where
  "with_id key protocol = dict_set ''id'' (py_get ''id'' (dict_or_empty (py_get ''key'' protocol))) key"

definition process_revoke :: "pydict \<Rightarrow> pydict \<Rightarrow> ('l, 's) process_state \<Rightarrow> ('l, 's) process_state" where
  "process_revoke message protocol = ps_emit ''messages.update'' (PList [PDict
     [(''key'', PDict (with_id (message_key message) protocol)),
      (''update'', PDict [(''message'', PNone), (''messageStubType'', PStr ''REVOKE''), (''key'', py_get ''key'' message)])]])"

definition process_edit :: "pydict \<Rightarrow> pydict \<Rightarrow> ('l, 's) process_state \<Rightarrow> ('l, 's) process_state" where
  "process_edit message protocol = ps_emit ''messages.update'' (PList [PDict
     [(''key'', PDict (with_id (message_key message) protocol)),
      (''update'', PDict [(''message'', PDict [(''editedMessage'', PDict [(''message'', py_get ''editedMessage'' protocol)])]),
         (''messageTimestamp'', if truthy (py_get ''timestampMs'' protocol)
            then PInt (to_number (py_get ''timestampMs'' protocol) div 1000) else py_get ''messageTimestamp'' message)])]])"

text \<open>Messages that the phone sends again. Without a cache they are taken as they are.\<close>

definition process_resent :: "pydict \<Rightarrow> ('l, 's) process_state \<Rightarrow> ('l, 's) process_state" where
  "process_resent protocol st =
     (let response = dict_or_empty (py_get ''peerDataOperationRequestResponseMessage'' protocol);
          infos = map (\<lambda>r. dict_or_empty (py_get ''webMessageInfo'' (dict_or_empty (py_get ''placeholderMessageResendResponse'' (dict_or_empty r)))))
                    (list_or_empty (py_get ''peerDataOperationResult'' response))
      in fold (\<lambda>info. ps_emit ''messages.upsert'' (PDict [(''messages'', PList [PDict info]), (''type'', PStr ''notify''),
            (''requestId'', py_get ''stanzaId'' response)])) (filter (\<lambda>info. info \<noteq> []) infos) st)"

definition process_label :: "pydict \<Rightarrow> pydict \<Rightarrow> ('l, 's) process_state \<Rightarrow> ('l, 's) process_state" where
  "process_label message protocol st =
     (let label = py_get ''label'' (dict_or_empty (py_get ''memberLabel'' protocol)); key = message_key message
      in if \<not> truthy label then st
         else ps_emit ''group.member-tag.update'' (PDict [(''groupId'', py_get ''id'' (ps_chat st)), (''label'', label),
                (''participant'', py_get ''participant'' key), (''participantAlt'', py_get ''participantAlt'' key),
                (''messageTimestamp'', PInt (to_number (py_get ''messageTimestamp'' message)))]) st)"

text \<open>Numbers that move to LIDs: the pairs are stored, and the sessions of each number migrated.\<close>

definition number_text :: "pyval \<Rightarrow> string" where
  "number_text v = (case v of PStr s \<Rightarrow> s | PInt i \<Rightarrow> int_str i | _ \<Rightarrow> '''')"

definition migration_pairs :: "pydict \<Rightarrow> (string \<times> string) list" where
  "migration_pairs protocol =
     (let payload = dict_or_empty (py_get ''encodedMappingPayload'' (dict_or_empty (py_get ''lidMigrationMappingSyncMessage'' protocol)))
      in map (\<lambda>(lid, pn). (number_text lid @ ''@lid'', number_text pn @ ''@s.whatsapp.net''))
           (filter (\<lambda>(lid, pn). truthy lid \<and> truthy pn)
             (map (\<lambda>item. let d = dict_or_empty item in (py_or (py_get ''latestLid'' d) (py_get ''assignedLid'' d), py_get ''pn'' d))
               (list_or_empty (py_get ''pnToLidMappings'' payload)))))"

definition migrate_pair :: "('l, 's) process_env \<Rightarrow> string \<times> string \<Rightarrow> ('l, 's) process_state \<Rightarrow> ('l, 's) process_state outcome" where
  "migrate_pair env pair st =
     (let (r, storage) = migrate_session (pv_session env) (snd pair) (fst pair) (ps_storage st)
      in (case r of Inl e \<Rightarrow> Some e | Inr _ \<Rightarrow> None, st\<lparr>ps_storage := storage\<rparr>))"

definition process_migration ::
    "('l, 's) process_env \<Rightarrow> pydict \<Rightarrow> ('l, 's) process_state \<Rightarrow> ('l, 's) process_state outcome" where
  "process_migration env protocol st =
     (let pairs = migration_pairs protocol in
      if pairs = [] then (None, st)
      else case store_mappings env pairs st of
        (Some e, st) \<Rightarrow> (Some e, st)
      | (None, st) \<Rightarrow> for_each (migrate_pair env) pairs st)"

definition process_protocol ::
    "('l, 's) process_env \<Rightarrow> pydict \<Rightarrow> pydict \<Rightarrow> ('l, 's) process_state \<Rightarrow> ('l, 's) process_state outcome" where
  "process_protocol env message protocol st =
     (if type_is protocol ''HISTORY_SYNC_NOTIFICATION'' 5 then
        (if pv_process_history env
         then process_history env message (dict_or_empty (py_get ''historySyncNotification'' protocol)) st else (None, st))
      else if type_is protocol ''APP_STATE_SYNC_KEY_SHARE'' 10 then (None, process_key_share protocol st)
      else if type_is protocol ''REVOKE'' 0 then (None, process_revoke message protocol st)
      else if type_is protocol ''EPHEMERAL_SETTING'' 3 then
        (None, chat_set ''ephemeralExpiration'' (py_get ''ephemeralExpiration'' protocol)
           (chat_set ''ephemeralSettingTimestamp'' (PInt (to_number (py_get ''messageTimestamp'' message))) st))
      else if py_get ''type'' protocol = PStr ''PEER_DATA_OPERATION_REQUEST_RESPONSE_MESSAGE'' then (None, process_resent protocol st)
      else if py_get ''type'' protocol = PStr ''MESSAGE_EDIT'' then (None, process_edit message protocol st)
      else if py_get ''type'' protocol = PStr ''GROUP_MEMBER_LABEL_CHANGE'' then (None, process_label message protocol st)
      else if py_get ''type'' protocol = PStr ''LID_MIGRATION_MAPPING_SYNC'' then process_migration env protocol st
      else (None, st))"


section \<open>Reactions and answers\<close>

definition process_reaction :: "pydict \<Rightarrow> pydict \<Rightarrow> ('l, 's) process_state \<Rightarrow> ('l, 's) process_state" where
  "process_reaction message reaction = ps_emit ''messages.reaction'' (PList [PDict
     [(''reaction'', PDict (dict_set ''key'' (py_get ''key'' message) reaction)), (''key'', py_get ''key'' reaction)]])"

text \<open>The creator of an event, as the number that a LID stands for.\<close>

definition creator_number ::
    "('l, 's) process_env \<Rightarrow> pyval \<Rightarrow> ('l, 's) process_state \<Rightarrow> string option result \<times> ('l, 's) process_state" where
  "creator_number env creator st =
     (if truthy creator \<and> py_endswith (text_or_empty creator) ''@lid'' then
        let s = ps_storage st; (r, lids) = get_pn_for_lid (se_lid_get (pv_session env)) (text_or_empty creator) (sg_lids s)
        in (r, st\<lparr>ps_storage := s\<lparr>sg_lids := lids\<rparr>\<rparr>)
      else (Inr (as_str creator), st))"

definition enc_key_bytes :: "pyval \<Rightarrow> bytes" where
  "enc_key_bytes v = (case v of PBytes b \<Rightarrow> b | _ \<Rightarrow> utf8_encode (text_or_empty v))"

definition event_response ::
    "('l, 's) process_env \<Rightarrow> pydict \<Rightarrow> pydict \<Rightarrow> pydict \<Rightarrow> pydict \<Rightarrow> string option \<Rightarrow> pydict option result" where
  "event_response env message answer creation_key event_msg creator_pn =
     bindE (jid_normalized_user (Some (pv_me_id env))) (\<lambda>me.
     bindE (jid_normalized_user creator_pn) (\<lambda>creator_jid.
       let creator = text_or_empty (get_key_author (PDict [(''remoteJid'', PStr creator_jid), (''fromMe'', PBool (Some me = creator_pn))]) me);
           responder = text_or_empty (get_key_author (py_get ''key'' message) me);
           secret = py_get ''messageSecret'' (dict_or_empty (py_get ''messageContextInfo'' event_msg))
       in if \<not> truthy secret then Inr None
          else bindE (decrypt_event_response (pv_hmac env) (pv_unseal env) (pv_event_response env) answer creator
                 (text_or_empty (py_get ''id'' creation_key)) (enc_key_bytes secret) responder) (\<lambda>r. Inr (Some r))))"

definition process_event_response ::
    "('l, 's) process_env \<Rightarrow> pydict \<Rightarrow> pydict \<Rightarrow> ('l, 's) process_state \<Rightarrow> ('l, 's) process_state" where
  "process_event_response env message answer st =
     (let creation_key = dict_or_empty (py_get ''eventCreationMessageKey'' answer) in
      case pv_get_message env creation_key of
        Some (x # xs) \<Rightarrow>
          (case creator_number env (py_or (py_get ''participant'' creation_key) (py_get ''remoteJid'' creation_key)) st of
             (Inl _, st) \<Rightarrow> st
           | (Inr creator_pn, st) \<Rightarrow>
               (case event_response env message answer creation_key (x # xs) creator_pn of
                  Inr (Some response) \<Rightarrow> ps_emit ''messages.update'' (PList [PDict [(''key'', PDict creation_key),
                    (''update'', PDict [(''eventResponses'', PList [PDict [(''eventResponseMessageKey'', py_get ''key'' message),
                       (''senderTimestampMs'', py_get ''timestampMs'' response), (''response'', PDict response)]])])]]) st
                | _ \<Rightarrow> st))
      | _ \<Rightarrow> st)"

section \<open>What a group stub reports\<close>

definition GROUP_PARTICIPANT_CHANGE_NUMBER :: stub_type where "GROUP_PARTICIPANT_CHANGE_NUMBER = Stub 33 ''GROUP_PARTICIPANT_CHANGE_NUMBER''"
definition GROUP_PARTICIPANT_LEAVE :: stub_type where "GROUP_PARTICIPANT_LEAVE = Stub 32 ''GROUP_PARTICIPANT_LEAVE''"
definition GROUP_PARTICIPANT_REMOVE :: stub_type where "GROUP_PARTICIPANT_REMOVE = Stub 28 ''GROUP_PARTICIPANT_REMOVE''"
definition GROUP_PARTICIPANT_ADD :: stub_type where "GROUP_PARTICIPANT_ADD = Stub 27 ''GROUP_PARTICIPANT_ADD''"
definition GROUP_PARTICIPANT_INVITE :: stub_type where "GROUP_PARTICIPANT_INVITE = Stub 31 ''GROUP_PARTICIPANT_INVITE''"
definition GROUP_PARTICIPANT_ADD_REQUEST_JOIN :: stub_type where
  "GROUP_PARTICIPANT_ADD_REQUEST_JOIN = Stub 71 ''GROUP_PARTICIPANT_ADD_REQUEST_JOIN''"
definition GROUP_PARTICIPANT_DEMOTE :: stub_type where "GROUP_PARTICIPANT_DEMOTE = Stub 30 ''GROUP_PARTICIPANT_DEMOTE''"
definition GROUP_PARTICIPANT_PROMOTE :: stub_type where "GROUP_PARTICIPANT_PROMOTE = Stub 29 ''GROUP_PARTICIPANT_PROMOTE''"
definition GROUP_CHANGE_ANNOUNCE :: stub_type where "GROUP_CHANGE_ANNOUNCE = Stub 26 ''GROUP_CHANGE_ANNOUNCE''"
definition GROUP_CHANGE_RESTRICT :: stub_type where "GROUP_CHANGE_RESTRICT = Stub 25 ''GROUP_CHANGE_RESTRICT''"
definition GROUP_CHANGE_SUBJECT :: stub_type where "GROUP_CHANGE_SUBJECT = Stub 21 ''GROUP_CHANGE_SUBJECT''"
definition GROUP_CHANGE_DESCRIPTION :: stub_type where "GROUP_CHANGE_DESCRIPTION = Stub 24 ''GROUP_CHANGE_DESCRIPTION''"
definition GROUP_CHANGE_INVITE_LINK :: stub_type where "GROUP_CHANGE_INVITE_LINK = Stub 23 ''GROUP_CHANGE_INVITE_LINK''"
definition GROUP_MEMBER_ADD_MODE :: stub_type where "GROUP_MEMBER_ADD_MODE = Stub 171 ''GROUP_MEMBER_ADD_MODE''"
definition GROUP_MEMBERSHIP_JOIN_APPROVAL_MODE :: stub_type where
  "GROUP_MEMBERSHIP_JOIN_APPROVAL_MODE = Stub 145 ''GROUP_MEMBERSHIP_JOIN_APPROVAL_MODE''"
definition GROUP_MEMBERSHIP_JOIN_APPROVAL_REQUEST_NON_ADMIN_ADD :: stub_type where
  "GROUP_MEMBERSHIP_JOIN_APPROVAL_REQUEST_NON_ADMIN_ADD = Stub 172 ''GROUP_MEMBERSHIP_JOIN_APPROVAL_REQUEST_NON_ADMIN_ADD''"

lemmas stub_defs = GROUP_PARTICIPANT_CHANGE_NUMBER_def GROUP_PARTICIPANT_LEAVE_def GROUP_PARTICIPANT_REMOVE_def
  GROUP_PARTICIPANT_ADD_def GROUP_PARTICIPANT_INVITE_def GROUP_PARTICIPANT_ADD_REQUEST_JOIN_def GROUP_PARTICIPANT_DEMOTE_def
  GROUP_PARTICIPANT_PROMOTE_def GROUP_CHANGE_ANNOUNCE_def GROUP_CHANGE_RESTRICT_def GROUP_CHANGE_SUBJECT_def
  GROUP_CHANGE_DESCRIPTION_def GROUP_CHANGE_INVITE_LINK_def GROUP_MEMBER_ADD_MODE_def GROUP_MEMBERSHIP_JOIN_APPROVAL_MODE_def
  GROUP_MEMBERSHIP_JOIN_APPROVAL_REQUEST_NON_ADMIN_ADD_def

definition stub_params :: "pydict \<Rightarrow> pyval list" where
  "stub_params message = list_or_empty (py_get ''messageStubParameters'' message)"

definition first_param :: "pydict \<Rightarrow> pyval" where
  "first_param message = (case stub_params message of [] \<Rightarrow> PNone | v # _ \<Rightarrow> v)"

text \<open>A parameter is a dictionary or its JSON text; any other text is taken as a LID and a number at once.\<close>

definition parse_participant :: "pyval \<Rightarrow> pydict list" where
  "parse_participant item = (case item of
       PDict d \<Rightarrow> [d]
     | PStr s \<Rightarrow> (case json_loads s of
         Inr (PDict d) \<Rightarrow> [d] | Inr _ \<Rightarrow> [] | Inl _ \<Rightarrow> [[(''lid'', PStr s), (''phoneNumber'', PStr s)]])
     | _ \<Rightarrow> [])"

definition parse_participants :: "pydict \<Rightarrow> pydict list" where
  "parse_participants message = concat (map parse_participant (stub_params message))"

fun participants_include_me :: "string \<Rightarrow> pydict list \<Rightarrow> bool result" where
  "participants_include_me me_id [] = Inr False"
| "participants_include_me me_id (p # ps) =
     bindE (are_jids_same_user (Some me_id) (as_str (py_get ''phoneNumber'' p))) (\<lambda>b.
       if b then Inr True else participants_include_me me_id ps)"

definition stub_place :: "pydict \<Rightarrow> pydict" where
  "stub_place message = (let key = message_key message in
     [(''author'', py_get ''participant'' key), (''authorPn'', py_get ''participantAlt'' key)])"

definition emit_participants_update :: "pydict \<Rightarrow> string \<Rightarrow> pydict list \<Rightarrow> ('l, 's) process_state \<Rightarrow> ('l, 's) process_state" where
  "emit_participants_update message action participants = ps_emit ''group-participants.update''
     (PDict ((''id'', py_get ''remoteJid'' (message_key message)) # stub_place message @
        [(''participants'', PList (map PDict participants)), (''action'', PStr action)]))"

definition emit_group_update :: "pydict \<Rightarrow> string \<Rightarrow> pyval \<Rightarrow> ('l, 's) process_state \<Rightarrow> ('l, 's) process_state" where
  "emit_group_update message k v = ps_emit ''groups.update''
     (PList [PDict ([(''id'', py_get ''remoteJid'' (message_key message)), (k, v)] @ stub_place message)])"

definition is_on :: "pyval \<Rightarrow> bool" where
  "is_on v \<longleftrightarrow> v = PStr ''true'' \<or> v = PStr ''on'' \<or> as_int v = Some 1"

definition process_join_request :: "pydict \<Rightarrow> ('l, 's) process_state \<Rightarrow> ('l, 's) process_state outcome" where
  "process_join_request message st =
     (let params = stub_params message; at = (\<lambda>n. if n < length params then params ! n else PNone) in
      case (case params of PStr s # _ \<Rightarrow> json_loads s | _ \<Rightarrow> Inr (PDict [])) of
        Inl e \<Rightarrow> (Some e, st)
      | Inr (PDict participant) \<Rightarrow>
          (None, ps_emit ''group.join-request'' (PDict ((''id'', py_get ''remoteJid'' (message_key message)) # stub_place message @
             [(''participant'', py_get ''lid'' participant), (''participantPn'', py_get ''pn'' participant),
              (''action'', at 1), (''method'', at 2)])) st)
      | Inr _ \<Rightarrow> (Some AttributeErr, st))"

definition process_stub ::
    "('l, 's) process_env \<Rightarrow> pydict \<Rightarrow> ('l, 's) process_state \<Rightarrow> ('l, 's) process_state outcome" where
  "process_stub env message st =
     (let is_stub = stub_matches (py_get ''messageStubType'' message); ps = parse_participants message; v = first_param message;
          me = participants_include_me (pv_me_id env) ps;
          report = (\<lambda>action. emit_participants_update message action ps); group = emit_group_update message
      in if is_stub GROUP_PARTICIPANT_CHANGE_NUMBER then (None, report ''modify'' st)
         else if is_stub GROUP_PARTICIPANT_LEAVE \<or> is_stub GROUP_PARTICIPANT_REMOVE then
           (let st = report ''remove'' st in
            case me of Inl e \<Rightarrow> (Some e, st) | Inr b \<Rightarrow> (None, if b then chat_set ''readOnly'' (PBool True) st else st))
         else if is_stub GROUP_PARTICIPANT_ADD \<or> is_stub GROUP_PARTICIPANT_INVITE \<or> is_stub GROUP_PARTICIPANT_ADD_REQUEST_JOIN then
           (case me of Inl e \<Rightarrow> (Some e, st)
            | Inr b \<Rightarrow> (None, report ''add'' (if b then chat_set ''readOnly'' (PBool False) st else st)))
         else if is_stub GROUP_PARTICIPANT_DEMOTE then (None, report ''demote'' st)
         else if is_stub GROUP_PARTICIPANT_PROMOTE then (None, report ''promote'' st)
         else if is_stub GROUP_CHANGE_ANNOUNCE then (None, group ''announce'' (PBool (is_on v)) st)
         else if is_stub GROUP_CHANGE_RESTRICT then (None, group ''restrict'' (PBool (is_on v)) st)
         else if is_stub GROUP_CHANGE_SUBJECT then (None, group ''subject'' v (chat_set ''name'' v st))
         else if is_stub GROUP_CHANGE_DESCRIPTION then (None, group ''desc'' v (chat_set ''description'' v st))
         else if is_stub GROUP_CHANGE_INVITE_LINK then (None, group ''inviteCode'' v st)
         else if is_stub GROUP_MEMBER_ADD_MODE then (None, group ''memberAddMode'' (PBool (v = PStr ''all_member_add'')) st)
         else if is_stub GROUP_MEMBERSHIP_JOIN_APPROVAL_MODE then (None, group ''joinApprovalMode'' (PBool (v = PStr ''on'')) st)
         else if is_stub GROUP_MEMBERSHIP_JOIN_APPROVAL_REQUEST_NON_ADMIN_ADD then process_join_request message st
         else (None, st))"

section \<open>A message\<close>

definition unread_chat :: "pydict \<Rightarrow> pydict \<Rightarrow> pydict" where
  "unread_chat message chat =
     (let chat = dict_set ''conversationTimestamp'' (PInt (to_number (py_get ''messageTimestamp'' message)))
            (dict_set ''messages'' (PList [PDict [(''message'', PDict message)]]) chat)
      in if should_increment_chat_unread message then dict_set ''unreadCount'' (PInt 1) chat else chat)"

definition message_chat :: "('l, 's) process_env \<Rightarrow> pydict \<Rightarrow> pydict \<Rightarrow> pydict" where
  "message_chat env message chat =
     (let content = dict_or_empty (case normalize_message_content (as_dict (py_get ''message'' message)) of None \<Rightarrow> PNone | Some c \<Rightarrow> PDict c);
          chat = (if is_real_message message then unread_chat message chat else chat);
          own_reaction = truthy (py_get ''fromMe'' (dict_or_empty (py_get ''key'' (dict_or_empty (py_get ''reactionMessage'' content)))))
      in if (is_real_message message \<or> own_reaction) \<and>
            truthy (py_get ''unarchiveChats'' (dict_or_empty (py_get ''accountSettings'' (pv_creds env))))
         then dict_set ''readOnly'' (PBool False) (dict_set ''archived'' (PBool False) chat) else chat)"

definition process_content ::
    "('l, 's) process_env \<Rightarrow> pydict \<Rightarrow> ('l, 's) process_state \<Rightarrow> ('l, 's) process_state outcome" where
  "process_content env message st =
     (let content = (case normalize_message_content (as_dict (py_get ''message'' message)) of None \<Rightarrow> [] | Some c \<Rightarrow> c) in
      case py_get ''protocolMessage'' content of
        PDict protocol \<Rightarrow> process_protocol env message protocol st
      | _ \<Rightarrow>
          if truthy (py_get ''reactionMessage'' content)
          then (None, process_reaction message (dict_or_empty (py_get ''reactionMessage'' content)) st)
          else if truthy (py_get ''encEventResponseMessage'' content)
          then (None, process_event_response env message (dict_or_empty (py_get ''encEventResponseMessage'' content)) st)
          else if truthy (py_get ''messageStubType'' message) then process_stub env message st
          else (None, st))"

definition process_message ::
    "('l, 's) process_env \<Rightarrow> pydict \<Rightarrow> ('l, 's) process_state \<Rightarrow> ('l, 's) process_state outcome" where
  "process_message env message st =
     (case jid_normalized_user (get_chat_id (message_key message)) of
        Inl e \<Rightarrow> (Some e, st)
      | Inr jid \<Rightarrow>
          (case process_content env message (st\<lparr>ps_chat := message_chat env message [(''id'', PStr jid)]\<rparr>) of
             (Some e, st) \<Rightarrow> (Some e, st)
           | (None, st) \<Rightarrow>
               (None, if 1 < length (ps_chat st) then ps_emit ''chats.update'' (PList [PDict (ps_chat st)]) st else st)))"

end
