(* ===== verification/Recv_State.thy ===== *)
theory Recv_State
  imports Incoming_Message Message_Effects Retry_Manager Identity
begin

text \<open>
  The socket that receives: the chain of socket classes, the state and the environment of their
  methods, acknowledgements, receipts (\<open>send_receipt\<close> of \<^verbatim>\<open>socket/messages_send.py\<close>),
  requests to the phone and for a placeholder's content (\<^verbatim>\<open>socket/messages_recv.py\<close>). What
  is sent is the list of nodes of theory \<open>Message_Relay\<close>; events are kept in the order they are
  emitted. The repository is there and no external caches are configured. The clock does not move
  within an operation; what other tasks do to the cache of placeholders while one sleeps is an
  argument, as is the account's encoded identity.
\<close>

section \<open>The class of the socket\<close>

text \<open>
  The sockets of the library form one chain of classes; the factory makes the last one. A method is
  that of the nearest class that defines it. \<open>_ensure_signal_repository\<close> is defined twice: the one of
  \<^verbatim>\<open>messages_send.py\<close> returns the repository, the one of \<^verbatim>\<open>messages_recv.py\<close>
  makes it and returns nothing.
\<close>

datatype socket_class = Messages_Send_Socket | Messages_Recv_Socket | Chats_Socket | Groups_Socket
  | Newsletter_Socket | Business_Socket | Communities_Socket

definition socket_chain :: "socket_class list" where
  "socket_chain = [Messages_Send_Socket, Messages_Recv_Socket, Chats_Socket, Groups_Socket, Newsletter_Socket,
     Business_Socket, Communities_Socket]"

definition method_order :: "socket_class \<Rightarrow> socket_class list" where
  "method_order cls = cls # rev (takeWhile (\<lambda>c. c \<noteq> cls) socket_chain)"

fun own_ensure :: "socket_class \<Rightarrow> ('r option \<Rightarrow> 'r option) option" where
  "own_ensure Messages_Send_Socket = Some (\<lambda>repository. repository)"
| "own_ensure Messages_Recv_Socket = Some (\<lambda>repository. None)"
| "own_ensure _ = None"

definition ensure_signal_repository :: "socket_class \<Rightarrow> 'r option \<Rightarrow> 'r option" where
  "ensure_signal_repository cls repository =
     (case List.map_filter own_ensure (method_order cls) of f # _ \<Rightarrow> f repository | [] \<Rightarrow> None)"

section \<open>State\<close>

text \<open>
  Of the first synchronisation: the state, whether its timer is armed, the section of the event buffer
  it has opened (calls of \<open>buffer\<close> less calls of \<open>flush\<close>), the calls of \<open>flush\<close> that are
  due, and the counter of the account. \<open>re_resync\<close> is the outcome of
  fetching collections of the app state.
\<close>

datatype sync_phase = Connecting | Awaiting_Initial_Sync | Syncing | Online

record initial_sync =
  sy_phase :: sync_phase
  sy_timer :: bool
  sy_section :: int
  sy_due :: nat
  sy_counter :: int

record ('l, 's) recv_env =
  re_relay :: "('l, 's) relay_env"
  re_class :: socket_class
  re_proto :: "bytes \<Rightarrow> pydict option"
  re_now :: int
  re_ignored :: "string \<Rightarrow> bool"
  re_max_retry :: int
  re_get_message :: "pydict \<Rightarrow> pydict option"
  re_auto_recreate :: bool
  re_device_identity :: bytes
  re_open :: bool
  re_gen :: "int \<Rightarrow> key_pair"
  re_message_id :: string
  re_meanwhile :: "(string \<Rightarrow> pyval option) \<Rightarrow> (string \<Rightarrow> pyval option)"
  re_process :: "('l, 's) process_env"
  re_should_sync :: "pyval \<Rightarrow> bool"
  re_resync :: "string list \<Rightarrow> exn option \<times> (string \<times> pyval) list"

record ('l, 's) recv_state =
  rv_relay :: "('l, 's) relay_state"
  rv_ids :: identity_state
  rv_manager :: "pydict retry_manager option"
  rv_counts :: "string \<Rightarrow> int option"
  rv_placeholder :: "string \<Rightarrow> pyval option"
  rv_cleanups :: "string list"
  rv_active_receipts :: bool
  rv_creds :: pre_key_creds
  rv_pre_keys :: "key_pair store"
  rv_events :: "(string \<times> pyval) list"
  rv_sync_keys :: "string \<Rightarrow> pyval option"
  rv_sync :: initial_sync

definition me_id_of :: "('l, 's) recv_env \<Rightarrow> string" where
  "me_id_of env = sv_me_id (ry_send (re_relay env))"

definition me_lid_of :: "('l, 's) recv_env \<Rightarrow> string" where
  "me_lid_of env = (case sv_me_lid (ry_send (re_relay env)) of None \<Rightarrow> '''' | Some l \<Rightarrow> l)"

definition now_ms :: "('l, 's) recv_env \<Rightarrow> int" where
  "now_ms env = re_now env * 1000"

definition send_node :: "node \<Rightarrow> ('l, 's) recv_state \<Rightarrow> ('l, 's) recv_state" where
  "send_node n st = st\<lparr>rv_relay := (rv_relay st)\<lparr>rl_sent := rl_sent (rv_relay st) @ [n]\<rparr>\<rparr>"

definition emit_event :: "string \<Rightarrow> pyval \<Rightarrow> ('l, 's) recv_state \<Rightarrow> ('l, 's) recv_state" where
  "emit_event name data st = st\<lparr>rv_events := rv_events st @ [(name, data)]\<rparr>"

definition sent :: "('l, 's) recv_state \<Rightarrow> node list" where
  "sent st = rl_sent (rv_relay st)"

definition on_manager :: "(pydict retry_manager \<Rightarrow> pydict retry_manager) \<Rightarrow> ('l, 's) recv_state \<Rightarrow> ('l, 's) recv_state" where
  "on_manager f st = st\<lparr>rv_manager := map_option f (rv_manager st)\<rparr>"

section \<open>Acknowledgements and receipts\<close>

text \<open>\<open>attrs.get(k, d)\<close>.\<close>

definition attr_default :: "attrs \<Rightarrow> string \<Rightarrow> string \<Rightarrow> attr_value" where
  "attr_default a k d = (case map_of a k of None \<Rightarrow> AStr d | Some v \<Rightarrow> v)"

definition optional_attr :: "attrs \<Rightarrow> string \<Rightarrow> attrs" where
  "optional_attr a k = (if attr_truthy (attr_get a k) then [(k, attr_get a k)] else [])"

definition ack_node :: "string \<Rightarrow> node \<Rightarrow> int option \<Rightarrow> node" where
  "ack_node me_id n error_code =
     (let a = node_attrs n; is_message = (node_tag n = ''message'');
          unavailable = (get_binary_node_child (Some n) ''unavailable'' \<noteq> None);
          typed = attr_truthy (attr_get a ''type'') \<and>
                  (\<not> is_message \<or> unavailable \<or> (error_code \<noteq> None \<and> error_code \<noteq> Some 0))
      in Node ''ack''
           ([(''to'', attr_default a ''from'' ''''), (''id'', attr_default a ''id'' ''''), (''class'', AStr (node_tag n))] @
            (case error_code of None \<Rightarrow> [] | Some e \<Rightarrow> [(''error'', AStr (int_str e))]) @
            optional_attr a ''participant'' @ optional_attr a ''recipient'' @
            (if typed then [(''type'', attr_get a ''type'')] else []) @
            (if is_message \<and> unavailable \<and> me_id \<noteq> '''' then [(''from'', AStr me_id)] else []))
           CNone)"

definition send_message_ack :: "('l, 's) recv_env \<Rightarrow> node \<Rightarrow> int option \<Rightarrow> ('l, 's) recv_state \<Rightarrow> ('l, 's) recv_state" where
  "send_message_ack env n error_code st = send_node (ack_node (me_id_of env) n error_code) st"

definition NACK_ParsingError :: int where "NACK_ParsingError = 487"
definition NACK_MissingMessageSecret :: int where "NACK_MissingMessageSecret = 495"
definition NACK_UnhandledError :: int where "NACK_UnhandledError = 500"

definition receipt_attrs :: "int \<Rightarrow> string \<Rightarrow> string option \<Rightarrow> string list \<Rightarrow> string option \<Rightarrow> attrs" where
  "receipt_attrs now jid participant message_ids receipt_type =
     [(''id'', AStr (hd message_ids))] @
     (if receipt_type = Some ''read'' \<or> receipt_type = Some ''read-self'' then [(''t'', AStr (int_str now))] else []) @
     (if receipt_type = Some ''sender'' \<and> (is_pn_user (Some jid) \<or> is_lid_user (Some jid))
      then [(''recipient'', AStr jid), (''to'', AStr (case participant of None \<Rightarrow> '''' | Some p \<Rightarrow> p))]
      else [(''to'', AStr jid)] @ (case participant of None \<Rightarrow> [] | Some p \<Rightarrow> [(''participant'', AStr p)])) @
     (case receipt_type of None \<Rightarrow> [] | Some t \<Rightarrow> if t = '''' then [] else [(''type'', AStr t)])"

definition receipt_content :: "string list \<Rightarrow> content" where
  "receipt_content message_ids = (case tl message_ids of [] \<Rightarrow> CNone
     | remaining \<Rightarrow> CList [Node ''list'' [] (CList (map (\<lambda>i. Node ''item'' [(''id'', AStr i)] CNone) remaining))])"

text \<open>\<open>send_receipt\<close>; both JIDs are resolved first.\<close>

definition send_receipt ::
    "('l, 's) recv_env \<Rightarrow> string \<Rightarrow> string option \<Rightarrow> string list \<Rightarrow> string option \<Rightarrow> ('l, 's) recv_state \<Rightarrow>
     unit result \<times> ('l, 's) recv_state" where
  "send_receipt env jid participant message_ids receipt_type st =
     (if message_ids = [] then (Inl (ValueError ''missing ids in receipt''), st)
      else case as_chat_jid (Text jid) PN (rv_ids st) of
        (Inl e, ids) \<Rightarrow> (Inl e, st\<lparr>rv_ids := ids\<rparr>)
      | (Inr resolved, ids) \<Rightarrow>
          (case (case participant of
                   None \<Rightarrow> (Inr None, ids)
                 | Some p \<Rightarrow> if p = '''' then (Inr None, ids)
                            else (case as_chat_jid (Text p) PN ids of
                                    (Inl e, i) \<Rightarrow> (Inl e, i) | (Inr q, i) \<Rightarrow> (Inr (Some q), i))) of
             (Inl e, ids) \<Rightarrow> (Inl e, st\<lparr>rv_ids := ids\<rparr>)
           | (Inr who, ids) \<Rightarrow>
               (Inr (), send_node (Node ''receipt'' (receipt_attrs (re_now env) resolved who message_ids receipt_type)
                  (receipt_content message_ids)) (st\<lparr>rv_ids := ids\<rparr>))))"

section \<open>Relaying from the socket\<close>

text \<open>\<open>self.relay_message\<close>: the repository is looked up first, then the chat's JID is resolved.\<close>

definition self_relay ::
    "('l, 's) recv_env \<Rightarrow> relay_input \<Rightarrow> ('l, 's) recv_state \<Rightarrow> string result \<times> ('l, 's) recv_state" where
  "self_relay env ri st =
     (if ensure_signal_repository (re_class env) (Some ()) = None then (Inl (RuntimeError ''signal repository unavailable''), st)
      else case as_chat_jid (Text (ri_jid ri)) PN (rv_ids st) of
        (Inl e, ids) \<Rightarrow> (Inl e, st\<lparr>rv_ids := ids\<rparr>)
      | (Inr jid, ids) \<Rightarrow>
          let (r, rl) = relay_message (re_relay env) (ri\<lparr>ri_jid := jid\<rparr>) (rv_relay st)
          in (r, st\<lparr>rv_relay := rl, rv_ids := ids\<rparr>))"

definition plain_relay :: "string \<Rightarrow> pydict \<Rightarrow> string \<Rightarrow> attrs \<Rightarrow> node list \<Rightarrow> relay_input" where
  "plain_relay jid message message_id a nodes =
     \<lparr>ri_jid = jid, ri_message = message, ri_id = message_id, ri_participant = None, ri_attrs = a, ri_nodes = nodes,
      ri_use_devices_cache = True, ri_use_cached_metadata = True, ri_status_jids = []\<rparr>"

definition send_peer_data_operation_message ::
    "('l, 's) recv_env \<Rightarrow> pydict \<Rightarrow> ('l, 's) recv_state \<Rightarrow> string result \<times> ('l, 's) recv_state" where
  "send_peer_data_operation_message env operation st =
     (if me_id_of env = '''' then (Inl (RuntimeError ''Not authenticated''), st)
      else self_relay env
        (plain_relay (me_id_of env)
           [(''protocolMessage'', PDict [(''peerDataOperationRequestMessage'', PDict operation),
                                         (''type'', PStr ''PEER_DATA_OPERATION_REQUEST_MESSAGE'')])]
           (re_message_id env)
           [(''category'', AStr ''peer''), (''push_priority'', AStr ''high_force'')]
           [Node ''meta'' [(''appdata'', AStr ''default'')] CNone]) st)"

definition fetch_message_history ::
    "('l, 's) recv_env \<Rightarrow> int \<Rightarrow> pydict \<Rightarrow> int \<Rightarrow> ('l, 's) recv_state \<Rightarrow> string result \<times> ('l, 's) recv_state" where
  "fetch_message_history env how_many oldest_msg_key oldest_msg_timestamp st =
     (if me_id_of env = '''' then (Inl (RuntimeError ''Not authenticated''), st)
      else send_peer_data_operation_message env
        [(''historySyncOnDemandRequest'',
            PDict [(''chatJid'', py_get ''remoteJid'' oldest_msg_key),
                   (''oldestMsgFromMe'', PBool (truthy (py_get ''fromMe'' oldest_msg_key))),
                   (''oldestMsgId'', py_get ''id'' oldest_msg_key), (''oldestMsgTimestampMs'', PInt oldest_msg_timestamp),
                   (''onDemandMsgCount'', PInt how_many)]),
         (''peerDataOperationRequestType'', PStr ''HISTORY_SYNC_ON_DEMAND'')] st)"

section \<open>Placeholders\<close>

definition cached :: "('l, 's) recv_state \<Rightarrow> string \<Rightarrow> bool" where
  "cached st msg_id \<longleftrightarrow> (case rv_placeholder st msg_id of None \<Rightarrow> False | Some v \<Rightarrow> truthy v)"

text \<open>
  The content of a message that came without one is asked for from the phone: unless that was already
  done, two seconds later, if it has not come by then. Eight seconds after a request the cleanup runs.
\<close>

definition request_placeholder_resend ::
    "('l, 's) recv_env \<Rightarrow> pydict \<Rightarrow> pydict option \<Rightarrow> ('l, 's) recv_state \<Rightarrow> string option result \<times> ('l, 's) recv_state" where
  "request_placeholder_resend env msg_key msg_data st =
     (if me_id_of env = '''' then (Inl (RuntimeError ''Not authenticated''), st)
      else
        let msg_id = (case py_get ''id'' msg_key of PStr s \<Rightarrow> s | _ \<Rightarrow> '''') in
        if msg_id = '''' \<or> cached st msg_id then (Inr None, st)
        else
          let v = (case msg_data of Some (x # xs) \<Rightarrow> PDict (x # xs) | _ \<Rightarrow> PBool True);
              st = st\<lparr>rv_placeholder := re_meanwhile env ((rv_placeholder st)(msg_id \<mapsto> v))\<rparr>
          in if \<not> cached st msg_id then (Inr (Some ''RESOLVED''), st)
             else case send_peer_data_operation_message env
                 [(''placeholderMessageResendRequest'', PList [PDict [(''messageKey'', PDict msg_key)]]),
                  (''peerDataOperationRequestType'', PStr ''PLACEHOLDER_MESSAGE_RESEND'')] st of
                 (Inl e, st) \<Rightarrow> (Inl e, st)
               | (Inr request_id, st) \<Rightarrow> (Inr (Some request_id), st\<lparr>rv_cleanups := rv_cleanups st @ [msg_id]\<rparr>))"

definition placeholder_cleanup :: "string \<Rightarrow> ('l, 's) recv_state \<Rightarrow> ('l, 's) recv_state" where
  "placeholder_cleanup msg_id st =
     (let st = st\<lparr>rv_cleanups := remove1 msg_id (rv_cleanups st)\<rparr>
      in if cached st msg_id then st\<lparr>rv_placeholder := (rv_placeholder st)(msg_id := None)\<rparr> else st)"

section \<open>What is sent\<close>

named_theorems sent_rules \<open>what an operation adds to the nodes that are sent\<close>

lemma sent_simps [simp, sent_rules]:
  "sent (send_node n st) = sent st @ [n]" "sent (emit_event k v st) = sent st" "sent (on_manager f st) = sent st"
  "sent (st\<lparr>rv_ids := ids\<rparr>) = sent st"
  "sent (st\<lparr>rv_manager := mo\<rparr>) = sent st" "sent (st\<lparr>rv_placeholder := p\<rparr>) = sent st" "sent (st\<lparr>rv_cleanups := cl\<rparr>) = sent st"
  "sent (st\<lparr>rv_events := ev\<rparr>) = sent st" "sent (st\<lparr>rv_sync := sy\<rparr>) = sent st"
  "sent (st\<lparr>rv_sync_keys := sk\<rparr>) = sent st" "sent (st\<lparr>rv_pre_keys := pk\<rparr>) = sent st" "sent (st\<lparr>rv_creds := cr\<rparr>) = sent st"
  "sent (st\<lparr>rv_relay := rl\<rparr>) = rl_sent rl" "sent (send_message_ack env n c st) = sent st @ [ack_node (me_id_of env) n c]"
  by (simp_all add: sent_def send_node_def emit_event_def on_manager_def send_message_ack_def)

lemma decrypt_content_sent: "rl_sent (snd (decrypt_content env sender author j ty b st)) = rl_sent st"
  by (auto simp: decrypt_content_def Let_def split: prod.splits)

lemma read_item_sent: "rl_sent (snd (snd (snd (read_item env pm sender author item r)))) = rl_sent (snd (snd r))"
proof -
  obtain m n st where r: "r = (m, n, st)" by (metis prod.exhaust)
  have "rl_sent (snd (decrypt_content env sender author j ty b (st\<lparr>rl_send := s\<rparr>))) = rl_sent st" for j ty b s
    by (simp add: decrypt_content_sent)
  then show ?thesis unfolding r read_item_def
    by (auto simp: Let_def split: sum.splits prod.splits content.splits) (metis snd_conv)+
qed

lemma decrypt_node_sent: "rl_sent (snd (snd (decrypt_node env pm n d st))) = rl_sent st"
proof -
  have "rl_sent (snd (snd (snd (for_each (read_item env pm (dn_sender d) (dn_author d)) (get_all_binary_node_children n) (dn_message d, 0, st)))))
      = rl_sent st"
    by (rule for_each_invariant [where I = "\<lambda>r. rl_sent (snd (snd r)) = rl_sent st"]) (simp_all add: read_item_sent)
  then show ?thesis by (auto simp: decrypt_node_def split: prod.splits option.splits)
qed

section \<open>The sockets that receive cannot send\<close>

text \<open>
  Finding: in every class but the first the method that should give the repository returns nothing, so
  \<open>relay_message\<close> raises before anything is sent. The factory makes the last class.
\<close>

lemma receiving_class_no_repository: "cls \<noteq> Messages_Send_Socket \<Longrightarrow> ensure_signal_repository cls r = None"
  by (cases cls) (simp_all add: ensure_signal_repository_def method_order_def socket_chain_def map_filter_simps)

lemma sending_class_repository: "ensure_signal_repository Messages_Send_Socket r = r"
  by (simp add: ensure_signal_repository_def method_order_def socket_chain_def map_filter_simps)

lemma self_relay_none:
  "re_class env \<noteq> Messages_Send_Socket \<Longrightarrow> self_relay env ri st = (Inl (RuntimeError ''signal repository unavailable''), st)"
  by (simp add: self_relay_def receiving_class_no_repository)

theorem full_socket_cannot_relay:
  "self_relay (env\<lparr>re_class := last socket_chain\<rparr>) ri st = (Inl (RuntimeError ''signal repository unavailable''), st)"
  by (rule self_relay_none) (simp add: socket_chain_def)

lemma placeholder_not_sent:
  assumes "re_class env \<noteq> Messages_Send_Socket"
  shows "sent (snd (request_placeholder_resend env k md st)) = sent st"
  using assms by (simp add: request_placeholder_resend_def send_peer_data_operation_message_def self_relay_none Let_def
      split: pyval.split option.split list.split)

end
