(* ===== verification/Chat_Sync.thy ===== *)
theory Chat_Sync
  imports Recv_State
begin

text \<open>
  The first synchronisation and \<open>upsert_message\<close> of \<^verbatim>\<open>socket/chats.py\<close>: a message is
  announced, its sender's name noted, and processed (theory \<open>Message_Effects\<close>). From the end of the
  pending notifications until the app state has been fetched, events are held back in a section of
  the event buffer. \<open>asyncio.gather\<close> starts processing and fetching together; the model does one
  after the other.
\<close>

section \<open>Phases\<close>

definition on_sync :: "(initial_sync \<Rightarrow> initial_sync) \<Rightarrow> ('l, 's) recv_state \<Rightarrow> ('l, 's) recv_state" where
  "on_sync f st = st\<lparr>rv_sync := f (rv_sync st)\<rparr>"

definition go_online :: "initial_sync \<Rightarrow> initial_sync" where
  "go_online sy = sy\<lparr>sy_phase := Online, sy_section := sy_section sy - 1\<rparr>"

definition clear_sync_timeout :: "initial_sync \<Rightarrow> initial_sync" where
  "clear_sync_timeout sy = sy\<lparr>sy_timer := False\<rparr>"

definition start_sync_timeout :: "initial_sync \<Rightarrow> initial_sync" where
  "start_sync_timeout sy = (clear_sync_timeout sy)\<lparr>sy_timer := True\<rparr>"

definition on_sync_timeout :: "initial_sync \<Rightarrow> initial_sync" where
  "on_sync_timeout sy = (let sy = sy\<lparr>sy_timer := False\<rparr> in if sy_phase sy = Awaiting_Initial_Sync then go_online sy else sy)"

definition handle_connection_update :: "bool \<Rightarrow> pydict \<Rightarrow> initial_sync \<Rightarrow> initial_sync" where
  "handle_connection_update will_sync_history update sy =
     (if \<not> truthy (py_get ''receivedPendingNotifications'' update) \<or> sy_phase sy \<noteq> Connecting then sy
      else
        let sy = sy\<lparr>sy_phase := Awaiting_Initial_Sync, sy_section := sy_section sy + 1\<rparr>
        in if \<not> will_sync_history then sy\<lparr>sy_phase := Online, sy_due := sy_due sy + 1\<rparr> else start_sync_timeout sy)"

definition flush_due :: "initial_sync \<Rightarrow> initial_sync" where
  "flush_due sy = (if sy_due sy = 0 then sy else sy\<lparr>sy_due := sy_due sy - 1, sy_section := sy_section sy - 1\<rparr>)"

definition PROCESSABLE_NAMES :: "string list" where
  "PROCESSABLE_NAMES = [''INITIAL_BOOTSTRAP'', ''PUSH_NAME'', ''RECENT'', ''FULL'', ''ON_DEMAND'', ''NON_BLOCKING_DATA'', ''INITIAL_STATUS_V3'']"

text \<open>A message with history ends the waiting.\<close>

definition history_arrives :: "bool \<Rightarrow> initial_sync \<Rightarrow> initial_sync" where
  "history_arrives should_process sy =
     (if sy_phase sy \<noteq> Awaiting_Initial_Sync then sy
      else let sy = clear_sync_timeout sy in if should_process then sy\<lparr>sy_phase := Syncing\<rparr> else go_online sy)"

definition ALL_WA_PATCH_NAMES :: "string list" where
  "ALL_WA_PATCH_NAMES = [''critical_block'', ''critical_unblock_low'', ''regular_high'', ''regular_low'', ''regular'']"

definition do_app_state_sync :: "('l, 's) recv_env \<Rightarrow> ('l, 's) recv_state \<Rightarrow> ('l, 's) recv_state outcome" where
  "do_app_state_sync env st =
     (if sy_phase (rv_sync st) \<noteq> Syncing then (None, st)
      else let (x, evs) = re_resync env ALL_WA_PATCH_NAMES; st = st\<lparr>rv_events := rv_events st @ evs\<rparr>
        in case x of
             Some e \<Rightarrow> (Some e, st)
           | None \<Rightarrow>
               let st = on_sync go_online st; n = sy_counter (rv_sync st) + 1
               in (None, emit_event ''creds.update'' (PDict [(''accountSyncCounter'', PInt n)]) (on_sync (\<lambda>sy. sy\<lparr>sy_counter := n\<rparr>) st)))"

section \<open>A new message\<close>

definition note_push_name :: "('l, 's) recv_env \<Rightarrow> pydict \<Rightarrow> ('l, 's) recv_state \<Rightarrow> ('l, 's) recv_state outcome" where
  "note_push_name env m st =
     (let push_name = py_get ''pushName'' m; key = key_of m; from_me = truthy (py_get ''fromMe'' key);
          me = dict_or_empty (py_get ''me'' (pv_creds (re_process env)));
          jid = py_or (py_get ''participant'' key) (py_get ''remoteJid'' key);
          jid = (if from_me then py_or (py_get ''id'' me) jid else jid)
      in if \<not> truthy push_name then (None, st)
         else case (if truthy jid then bindE (jid_normalized_user (as_str jid)) (\<lambda>j. Inr (PStr j)) else Inr jid) of
           Inl e \<Rightarrow> (Some e, st)
         | Inr jid \<Rightarrow>
             (None,
              if \<not> from_me \<and> truthy jid
              then emit_event ''contacts.update'' (PList [PDict [(''id'', jid), (''notify'', push_name),
                     (''verifiedName'', py_get ''verifiedBizName'' m)]]) st
              else if py_get ''name'' me \<noteq> push_name
              then emit_event ''creds.update'' (PDict [(''me'', PDict (dict_set ''name'' push_name me))]) st
              else st))"

text \<open>\<open>process_message\<close> on the state of the socket.\<close>

definition run_process_message ::
    "('l, 's) recv_env \<Rightarrow> bool \<Rightarrow> pydict \<Rightarrow> ('l, 's) recv_state \<Rightarrow> ('l, 's) recv_state outcome" where
  "run_process_message env should_process m st =
     (let rl = rv_relay st; sd = rl_send rl;
          penv = (re_process env)\<lparr>pv_session := sv_session (ry_send (re_relay env)), pv_process_history := should_process,
                                  pv_get_message := re_get_message env\<rparr>;
          (x, ps) = process_message penv m \<lparr>ps_storage = sd_storage sd, ps_sync_keys = rv_sync_keys st, ps_events = rv_events st, ps_chat = []\<rparr>
      in (x, st\<lparr>rv_relay := rl\<lparr>rl_send := sd\<lparr>sd_storage := ps_storage ps\<rparr>\<rparr>, rv_sync_keys := ps_sync_keys ps, rv_events := ps_events ps\<rparr>))"

definition upsert_message_impl ::
    "('l, 's) recv_env \<Rightarrow> pydict \<Rightarrow> string \<Rightarrow> ('l, 's) recv_state \<Rightarrow> ('l, 's) recv_state outcome" where
  "upsert_message_impl env m kind st =
     (let st = emit_event ''messages.upsert'' (PDict [(''messages'', PList [PDict m]), (''type'', PStr kind)]) st in
      case note_push_name env m st of
        (Some e, st) \<Rightarrow> (Some e, st)
      | (None, st) \<Rightarrow>
          let history_msg = get_history_msg (py_get ''message'' m);
              should_process = (truthy history_msg \<and> re_should_sync env history_msg \<and>
                in_values (py_get ''syncType'' (dict_or_empty history_msg)) PROCESSABLE_NAMES [0, 1, 2, 3, 4, 5, 6]);
              st = (if truthy history_msg then on_sync (history_arrives should_process) st else st);
              (x, st) = run_process_message env should_process m st;
              (y, st) = (if should_process then do_app_state_sync env st else (None, st))
          in case (x, y) of
               (Some e, _) \<Rightarrow> (Some e, st)
             | (None, Some e) \<Rightarrow> (Some e, st)
             | (None, None) \<Rightarrow>
                 let protocol = dict_or_empty (py_get ''protocolMessage'' (dict_or_empty (py_get ''message'' m)))
                 in if truthy (py_get ''appStateSyncKeyShare'' protocol) then do_app_state_sync env st else (None, st))"

text \<open>Only the classes from \<open>ChatsSocket\<close> on have the method; the others announce the message.\<close>

definition has_upsert :: "socket_class \<Rightarrow> bool" where
  "has_upsert cls \<longleftrightarrow> Chats_Socket \<in> set (method_order cls)"

definition upsert_message ::
    "('l, 's) recv_env \<Rightarrow> pydict \<Rightarrow> string \<Rightarrow> ('l, 's) recv_state \<Rightarrow> ('l, 's) recv_state outcome" where
  "upsert_message env m kind st =
     (if has_upsert (re_class env) then upsert_message_impl env m kind st
      else (None, emit_event ''messages.upsert'' (PDict [(''messages'', PList [PDict m]), (''type'', PStr kind)]) st))"

section \<open>Nothing is sent\<close>

lemma on_sync_sent [simp, sent_rules]: "sent (on_sync f st) = sent st"
  by (simp add: on_sync_def)

lemma do_app_state_sync_sent [simp]: "sent (snd (do_app_state_sync env st)) = sent st"
  by (simp add: do_app_state_sync_def Let_def split: prod.split option.split)

lemma note_push_name_sent [simp]: "sent (snd (note_push_name env m st)) = sent st"
  by (simp add: note_push_name_def Let_def split: sum.split)

lemma run_process_message_sent [simp]: "sent (snd (run_process_message env b m st)) = sent st"
  by (simp add: run_process_message_def Let_def sent_def split: prod.split)

lemma upsert_impl_sent: "sent (snd (upsert_message_impl env m kind st)) = sent st"
proof -
  let ?st = "emit_event ''messages.upsert'' (PDict [(''messages'', PList [PDict m]), (''type'', PStr kind)]) st"
  obtain x s1 where n: "note_push_name env m ?st = (x, s1)" by fastforce
  have s1: "sent s1 = sent st" using arg_cong [OF n, of "\<lambda>p. sent (snd p)"] by simp
  show ?thesis
  proof (cases x)
    case None
    let ?h = "get_history_msg (py_get ''message'' m)"
    define b where "b = (truthy ?h \<and> re_should_sync env ?h \<and>
      in_values (py_get ''syncType'' (dict_or_empty ?h)) PROCESSABLE_NAMES [0, 1, 2, 3, 4, 5, 6])"
    define s2 where "s2 = (if truthy ?h then on_sync (history_arrives b) s1 else s1)"
    obtain y s3 where r: "run_process_message env b m s2 = (y, s3)" by fastforce
    obtain z s4 where d: "(if b then do_app_state_sync env s3 else (None, s3)) = (z, s4)" by fastforce
    have "sent s2 = sent st" using s1 by (simp add: s2_def)
    then have "sent s3 = sent st" using arg_cong [OF r, of "\<lambda>p. sent (snd p)"] by simp
    then have s4: "sent s4 = sent st" using arg_cong [OF d, of "\<lambda>p. sent (snd p)"] by (simp split: if_splits)
    have "upsert_message_impl env m kind st = (case (y, z) of
               (Some e, _) \<Rightarrow> (Some e, s4)
             | (None, Some e) \<Rightarrow> (Some e, s4)
             | (None, None) \<Rightarrow>
                 let protocol = dict_or_empty (py_get ''protocolMessage'' (dict_or_empty (py_get ''message'' m)))
                 in if truthy (py_get ''appStateSyncKeyShare'' protocol) then do_app_state_sync env s4 else (None, s4))"
      unfolding upsert_message_impl_def Let_def b_def [symmetric] n None prod.case option.case s2_def [symmetric] r d ..
    then show ?thesis using s4 by (auto simp: Let_def split: option.splits)
  qed (use n s1 in \<open>simp add: upsert_message_impl_def Let_def\<close>)
qed

lemma upsert_message_sent [simp]: "sent (snd (upsert_message env m kind st)) = sent st"
  by (simp add: upsert_message_def upsert_impl_sent)

section \<open>The section of the event buffer\<close>

datatype sync_event = Update bool pydict | Timeout | Due | History bool | Resynced bool

fun sync_step :: "sync_event \<Rightarrow> initial_sync \<Rightarrow> initial_sync" where
  "sync_step (Update will_sync update) sy = handle_connection_update will_sync update sy"
| "sync_step Timeout sy = (if sy_timer sy then on_sync_timeout sy else sy)"
| "sync_step Due sy = flush_due sy"
| "sync_step (History should_process) sy = history_arrives should_process sy"
| "sync_step (Resynced ok) sy = (if sy_phase sy = Syncing \<and> ok then (go_online sy)\<lparr>sy_counter := sy_counter sy + 1\<rparr> else sy)"

definition new_sync :: initial_sync where
  "new_sync = \<lparr>sy_phase = Connecting, sy_timer = False, sy_section = 0, sy_due = 0, sy_counter = 0\<rparr>"

lemma do_app_state_sync_step:
  "rv_sync (snd (do_app_state_sync env st)) = sync_step (Resynced (fst (re_resync env ALL_WA_PATCH_NAMES) = None)) (rv_sync st)"
  by (auto simp: do_app_state_sync_def Let_def on_sync_def emit_event_def go_online_def split: prod.split option.split)

definition sync_ok :: "initial_sync \<Rightarrow> bool" where
  "sync_ok sy \<longleftrightarrow> sy_section sy = of_bool (sy_phase sy \<in> {Awaiting_Initial_Sync, Syncing}) + int (sy_due sy) \<and>
     (sy_timer sy \<longleftrightarrow> sy_phase sy = Awaiting_Initial_Sync)"

lemma sync_step_ok: "sync_ok sy \<Longrightarrow> sync_ok (sync_step e sy)"
  by (cases e) (auto simp: sync_ok_def handle_connection_update_def on_sync_timeout_def flush_due_def history_arrives_def
      go_online_def start_sync_timeout_def clear_sync_timeout_def Let_def)

text \<open>
  The section that holds events back for the first synchronisation is opened once and closed once:
  in every sequence of events it is open exactly while history is awaited or the app state fetched, or
  while the closing call is due; and history is awaited exactly while the timer runs that ends the
  waiting, so waiting never goes on for ever.
\<close>

theorem sync_section_balanced:
  "let sy = fold sync_step es new_sync in
   sy_section sy = of_bool (sy_phase sy \<in> {Awaiting_Initial_Sync, Syncing}) + int (sy_due sy) \<and>
   (sy_timer sy \<longleftrightarrow> sy_phase sy = Awaiting_Initial_Sync) \<and>
   sy_phase (sync_step Timeout sy) = (if sy_phase sy = Awaiting_Initial_Sync then Online else sy_phase sy) \<and>
   sy_section (sync_step Timeout sy) = of_bool (sy_phase sy = Syncing) + int (sy_due sy)"
proof -
  have "sync_ok sy \<Longrightarrow> sync_ok (fold sync_step es sy)" for sy
    by (induction es arbitrary: sy) (simp_all add: sync_step_ok)
  moreover have "sync_ok new_sync" by (simp add: sync_ok_def new_sync_def)
  ultimately have "sync_ok (fold sync_step es new_sync)" by blast
  then show ?thesis by (auto simp: sync_ok_def Let_def on_sync_timeout_def go_online_def)
qed

text \<open>
  Finding: when the app state cannot be fetched, the phase stays \<open>Syncing\<close>, for which there is no
  timer: the section stays open until another message with history or keys arrives.
\<close>

theorem failed_resync_holds_events:
  "let sy = fold sync_step [Update True [(''receivedPendingNotifications'', PBool True)], History True, Resynced False] new_sync in
   sy_phase sy = Syncing \<and> sy_section sy = 1 \<and> sync_step Timeout sy = sy \<and> sync_step Due sy = sy \<and>
   (\<forall>w u. sync_step (Update w u) sy = sy) \<and> (\<forall>b. sync_step (History b) sy = sy)"
  by (simp add: new_sync_def handle_connection_update_def start_sync_timeout_def clear_sync_timeout_def history_arrives_def flush_due_def Let_def)

end
