(* ===== verification/Message_Receive.thy ===== *)
theory Message_Receive
  imports Chat_Sync
begin

text \<open>
  Receiving messages: the handler of message stanzas in \<^verbatim>\<open>socket/messages_recv.py\<close>, with
  the requests to send a message again. State and environment are those of theory \<open>Recv_State\<close>.
\<close>

section \<open>Asking the sender again\<close>

definition counter_key :: "string \<Rightarrow> string \<Rightarrow> string" where
  "counter_key message_id participant = message_id @ CHR '':'' # participant"

definition retry_count_get :: "string \<Rightarrow> ('l, 's) recv_state \<Rightarrow> int" where
  "retry_count_get key st = (case rv_counts st key of None \<Rightarrow> 0 | Some n \<Rightarrow> n)"

definition retry_count_set :: "string \<Rightarrow> int \<Rightarrow> ('l, 's) recv_state \<Rightarrow> ('l, 's) recv_state" where
  "retry_count_set key n st = st\<lparr>rv_counts := (rv_counts st)(key \<mapsto> n)\<rparr>"

definition retry_count_del :: "string \<Rightarrow> ('l, 's) recv_state \<Rightarrow> ('l, 's) recv_state" where
  "retry_count_del key st = st\<lparr>rv_counts := (rv_counts st)(key := None)\<rparr>"

text \<open>The number of this request, or none when the limit is reached.\<close>

definition next_retry ::
    "('l, 's) recv_env \<Rightarrow> string \<Rightarrow> string \<Rightarrow> ('l, 's) recv_state \<Rightarrow> int option \<times> ('l, 's) recv_state" where
  "next_retry env msg_id participant st =
     (let key = counter_key msg_id participant in
      case rv_manager st of
        Some m \<Rightarrow>
          let (exceeded, m) = has_exceeded_max_retries (now_ms env) msg_id m in
          if exceeded then (None, st\<lparr>rv_manager := Some (mark_retry_failed msg_id m)\<rparr>)
          else let (n, m) = increment_retry_count (now_ms env) msg_id m
               in (Some n, retry_count_set key n (st\<lparr>rv_manager := Some m\<rparr>))
      | None \<Rightarrow>
          let n = retry_count_get key st in
          if n \<ge> re_max_retry env then (None, retry_count_del key st)
          else (Some (n + 1), retry_count_set key (n + 1) st))"

definition resend_key :: "pydict \<Rightarrow> pydict" where
  "resend_key key = [(''remoteJid'', py_get ''remoteJid'' key), (''fromMe'', PBool (truthy (py_get ''fromMe'' key))),
     (''id'', py_get ''id'' key), (''participant'', py_get ''participant'' key)]"

text \<open>The phone is asked too: later when there is a manager, which holds the timer, else at once.\<close>

definition ask_phone :: "('l, 's) recv_env \<Rightarrow> pydict \<Rightarrow> string \<Rightarrow> ('l, 's) recv_state \<Rightarrow> ('l, 's) recv_state" where
  "ask_phone env key msg_id st = (case rv_manager st of
       Some m \<Rightarrow> st\<lparr>rv_manager := Some (schedule_phone_request msg_id m)\<rparr>
     | None \<Rightarrow> snd (request_placeholder_resend env (resend_key key) None st))"

text \<open>A pre-key for a new session, with the other public keys.\<close>

definition retry_keys ::
    "('l, 's) recv_env \<Rightarrow> ('l, 's) recv_state \<Rightarrow> node list result \<times> ('l, 's) recv_state" where
  "retry_keys env st =
     (let creds = rv_creds st;
          ((update, pre_keys), s) = get_next_pre_keys ims_get ims_set (re_gen env) creds 1 (rv_pre_keys st);
          st = st\<lparr>rv_pre_keys := s\<rparr>
      in case pre_keys of
           [] \<Rightarrow> (Inr [], st)
         | (key_id, key) # _ \<Rightarrow>
             (case bindE (py_int key_id) (\<lambda>i. bindE (xmpp_pre_key key i) (\<lambda>k.
                   bindE (xmpp_signed_pre_key (pc_signed_pre_key creds)) (\<lambda>sk. Inr [k, sk]))) of
                Inl e \<Rightarrow> (Inl e, st)
              | Inr ns \<Rightarrow>
                  (Inr [Node ''keys'' [] (CList ([Node ''type'' [] (CBytes KEY_BUNDLE_TYPE),
                      Node ''identity'' [] (CBytes (pc_identity_public creds))] @ ns @
                      (if re_device_identity env = [] then [] else [Node ''device-identity'' [] (CBytes (re_device_identity env))])))],
                   emit_event ''creds.update''
                     (PDict [(''nextPreKeyId'', PInt (fst update)), (''firstUnuploadedPreKeyId'', PInt (snd update))])
                     (st\<lparr>rv_creds := advance creds update\<rparr>))))"

definition retry_receipt :: "node \<Rightarrow> pyval \<Rightarrow> int \<Rightarrow> bytes \<Rightarrow> node list \<Rightarrow> node" where
  "retry_receipt n msg_id retry_count registration keys =
     (let a = node_attrs n in
      Node ''receipt''
        ([(''id'', AStr (text_or_empty msg_id)), (''type'', AStr ''retry''), (''to'', attr_default a ''from'' '''')] @
         optional_attr a ''recipient'' @ optional_attr a ''participant'')
        (CList ([Node ''retry'' [(''count'', AStr (int_str retry_count)), (''id'', attr_default a ''id'' ''''),
                   (''t'', attr_default a ''t'' ''''), (''v'', AStr ''1''), (''error'', AStr ''0'')] CNone,
                 Node ''registration'' [] (CBytes registration)] @ keys)))"

definition send_retry_request ::
    "('l, 's) recv_env \<Rightarrow> node \<Rightarrow> bool \<Rightarrow> ('l, 's) recv_state \<Rightarrow> unit result \<times> ('l, 's) recv_state" where
  "send_retry_request env n force_include_keys st =
     (case decode_message_node (node_attrs n) (me_id_of env) (me_lid_of env) of
        Inl e \<Rightarrow> (Inl e, st)
      | Inr d \<Rightarrow>
          let key = key_of (dn_message d); msg_id = py_get ''id'' key in
          if \<not> truthy msg_id then (Inr (), st)
          else
            (case next_retry env (text_or_empty msg_id) (text_or_empty (py_get ''participant'' key)) st of
               (None, st) \<Rightarrow> (Inr (), st)
             | (Some retry_count, st) \<Rightarrow>
                 let st = (if retry_count \<le> 2 then ask_phone env key (text_or_empty msg_id) st else st) in
                 (case encode_big_endian (pc_registration_id (rv_creds st)) 4 of
                    Inl e \<Rightarrow> (Inl e, st)
                  | Inr registration \<Rightarrow>
                      (case (if retry_count > 1 \<or> force_include_keys then retry_keys env st else (Inr [], st)) of
                         (Inl e, st) \<Rightarrow> (Inl e, st)
                       | (Inr keys, st) \<Rightarrow> (Inr (), send_node (retry_receipt n msg_id retry_count registration keys) st)))))"

section \<open>A message stanza\<close>

definition PLACEHOLDER_MAX_AGE_SECONDS :: int where "PLACEHOLDER_MAX_AGE_SECONDS = 14 * 24 * 60 * 60"
definition STATUS_EXPIRY_SECONDS :: int where "STATUS_EXPIRY_SECONDS = 24 * 60 * 60"

definition message_age :: "('l, 's) recv_env \<Rightarrow> pydict \<Rightarrow> int" where
  "message_age env m = re_now env - (case as_int (py_get ''messageTimestamp'' m) of None \<Rightarrow> 0 | Some t \<Rightarrow> t)"

definition no_fanout :: "string list" where
  "no_fanout = [''bot_unavailable_fanout'', ''hosted_unavailable_fanout'', ''view_once_unavailable_fanout'']"

text \<open>A message without content: its placeholder is asked for when it is young enough. The answer is an acknowledgement.\<close>

definition handle_absent ::
    "('l, 's) recv_env \<Rightarrow> node \<Rightarrow> pydict \<Rightarrow> ('l, 's) recv_state \<Rightarrow> ('l, 's) recv_state" where
  "handle_absent env n m st =
     (let unavailable_type = (case get_binary_node_child (Some n) ''unavailable'' of
            None \<Rightarrow> ANone | Some u \<Rightarrow> attr_get (node_attrs u) ''type'');
          msg_data = map (\<lambda>k. (k, py_get k m)) [''key'', ''messageTimestamp'', ''pushName'', ''participant'', ''verifiedBizName'']
      in send_message_ack env n None
           (if unavailable_type \<notin> AStr ` set no_fanout \<and> message_age env m \<le> PLACEHOLDER_MAX_AGE_SECONDS
            then (case request_placeholder_resend env (resend_key (key_of m)) (Some msg_data) st of
                    (Inr (Some request_id), st) \<Rightarrow>
                      if request_id \<noteq> '''' \<and> request_id \<noteq> ''RESOLVED''
                      then emit_event ''messages.update'' (PList [PDict [(''key'', py_get ''key'' m),
                             (''update'', PDict [(''messageStubParameters'',
                                PList [PStr NO_MESSAGE_FOUND_ERROR_TEXT, PStr request_id])])]]) st
                      else st
                  | (_, st) \<Rightarrow> st)
            else st))"

text \<open>A message that cannot be decrypted is asked for again, and refused.\<close>

definition handle_unreadable ::
    "('l, 's) recv_env \<Rightarrow> node \<Rightarrow> ('l, 's) recv_state \<Rightarrow> ('l, 's) recv_state" where
  "handle_unreadable env n st =
     (if \<not> re_open env then st
      else send_message_ack env n (Some NACK_UnhandledError)
             (snd (send_retry_request env n (get_binary_node_child (Some n) ''enc'' = None) st)))"

text \<open>The type of the receipt for a message that was read, and the participant it names.\<close>

definition receipt_for :: "pydict \<Rightarrow> string \<Rightarrow> bool \<Rightarrow> pyval \<Rightarrow> string option \<times> string option" where
  "receipt_for key author send_active_receipts category =
     (let participant = as_str (py_get ''participant'' key) in
      if category = PStr ''peer'' then (Some ''peer_msg'', participant)
      else if truthy (py_get ''fromMe'' key)
      then (Some ''sender'', if is_lid_user (as_str (py_get ''remoteJid'' key)) \<or> is_lid_user (as_str (py_get ''remoteJidAlt'' key))
                             then Some author else participant)
      else if \<not> send_active_receipts then (Some ''inactive'', participant)
      else (None, participant))"

definition handle_read ::
    "('l, 's) recv_env \<Rightarrow> node \<Rightarrow> pydict \<Rightarrow> string \<Rightarrow> pyval \<Rightarrow> ('l, 's) recv_state \<Rightarrow> unit result \<times> ('l, 's) recv_state" where
  "handle_read env n m author category st =
     (let key = key_of m; msg_id = text_or_empty (py_get ''id'' key); remote = text_or_empty (py_get ''remoteJid'' key);
          st = (if msg_id = '''' then st else on_manager (cancel_pending_phone_request msg_id) st)
      in if is_jid_newsletter (Some remote) then (Inr (), send_message_ack env n None st)
         else
           let (receipt_type, participant) = receipt_for key author (rv_active_receipts st) category in
           (case send_receipt env remote participant [msg_id] receipt_type st of
              (Inl e, st) \<Rightarrow> (Inl e, st)
            | (Inr _, st) \<Rightarrow>
                if truthy (get_history_msg (py_get ''message'' m)) then
                  (case jid_normalized_user (Some remote) of
                     Inl e \<Rightarrow> (Inl e, st)
                   | Inr user \<Rightarrow> send_receipt env user None [msg_id] (Some ''hist_sync'') st)
                else (Inr (), st)))"

text \<open>The message is cleaned and handed on, as new or, from the queue of the time offline, as an old one.\<close>

definition upsert_kind :: "attrs \<Rightarrow> string" where
  "upsert_kind a = (if attr_truthy (attr_get a ''offline'') then ''append'' else ''notify'')"

definition deliver :: "('l, 's) recv_env \<Rightarrow> node \<Rightarrow> pydict \<Rightarrow> ('l, 's) recv_state \<Rightarrow> unit result \<times> ('l, 's) recv_state" where
  "deliver env n m st = (case clean_message m (me_id_of env) (me_lid_of env) of
       Inl e \<Rightarrow> (Inl e, st)
     | Inr m \<Rightarrow> (let (x, st) = upsert_message env m (upsert_kind (node_attrs n)) st in (case x of Some e \<Rightarrow> Inl e | None \<Rightarrow> Inr (), st)))"

definition is_stub :: "pydict \<Rightarrow> bool" where
  "is_stub m \<longleftrightarrow> as_int (py_get ''messageStubType'' m) = Some CIPHERTEXT_STUB"

definition stub_error :: "pydict \<Rightarrow> string" where
  "stub_error m = (case py_get ''messageStubParameters'' m of PList (PStr s # _) \<Rightarrow> s | _ \<Rightarrow> '''')"

text \<open>Recent messages are kept for those who ask for them again.\<close>

definition remember_message :: "('l, 's) recv_env \<Rightarrow> pydict \<Rightarrow> ('l, 's) recv_state \<Rightarrow> ('l, 's) recv_state" where
  "remember_message env m st =
     (let key = key_of m; remote = text_or_empty (py_get ''remoteJid'' key); msg_id = text_or_empty (py_get ''id'' key)
      in case py_get ''message'' m of
           PDict (x # xs) \<Rightarrow> if remote \<noteq> '''' \<and> msg_id \<noteq> ''''
             then on_manager (add_recent_message (now_ms env) remote msg_id (x # xs)) st else st
         | _ \<Rightarrow> st)"

text \<open>\<open>_work\<close> behind the decryption.\<close>

definition handle_decrypted ::
    "('l, 's) recv_env \<Rightarrow> node \<Rightarrow> decoded_message \<Rightarrow> pydict \<Rightarrow> ('l, 's) recv_state \<Rightarrow> unit result \<times> ('l, 's) recv_state" where
  "handle_decrypted env n d m st =
     (let st = remember_message env m st in
      if is_stub m \<and> py_get ''category'' m \<noteq> PStr ''peer'' then
        if stub_error m = MISSING_KEYS_ERROR_TEXT then (Inr (), send_message_ack env n (Some NACK_ParsingError) st)
        else if stub_error m = NO_MESSAGE_FOUND_ERROR_TEXT then deliver env n m (handle_absent env n m st)
        else if is_jid_status_broadcast (text_or_empty (py_get ''remoteJid'' (key_of m))) \<and> message_age env m > STATUS_EXPIRY_SECONDS
        then (Inr (), send_message_ack env n None st)
        else deliver env n m (handle_unreadable env n st)
      else
        (case handle_read env n m (dn_author d) (py_get ''category'' (dn_message d)) st of
           (Inl e, st) \<Rightarrow> (Inl e, st)
         | (Inr _, st) \<Rightarrow> deliver env n m st))"

definition handle_message_node :: "('l, 's) recv_env \<Rightarrow> node \<Rightarrow> ('l, 's) recv_state \<Rightarrow> ('l, 's) recv_state" where
  "handle_message_node env n st =
     (let a = node_attrs n; from_jid = attr_str (attr_default a ''from'' '''') in
      if re_ignored env from_jid \<and> attr_get a ''from'' \<noteq> AStr S_WHATSAPP_NET
      then send_message_ack env n (Some NACK_UnhandledError) st
      else if (case get_binary_node_child (Some n) ''enc'' of None \<Rightarrow> False | Some e \<Rightarrow> attr_get (node_attrs e) ''type'' = AStr ''msmsg'')
      then send_message_ack env n (Some NACK_MissingMessageSecret) st
      else case decode_message_node a (me_id_of env) (me_lid_of env) of
        Inl _ \<Rightarrow> send_message_ack env n (Some NACK_ParsingError) st
      | Inr d \<Rightarrow>
          (case decrypt_node (re_relay env) (re_proto env) n d (rv_relay st) of
             (Some _, (_, rl)) \<Rightarrow> st\<lparr>rv_relay := rl\<rparr>
           | (None, (m, rl)) \<Rightarrow> snd (handle_decrypted env n d m (st\<lparr>rv_relay := rl\<rparr>))))"

section \<open>Every stanza is answered\<close>

lemma retry_counts_sent [simp, sent_rules]:
  "sent (retry_count_set k i st) = sent st" "sent (retry_count_del k st) = sent st"
  by (simp_all add: retry_count_set_def retry_count_del_def sent_def)

lemma sent_remember [simp]: "sent (remember_message env m st) = sent st"
  by (simp add: remember_message_def Let_def split: pyval.split list.split)

text \<open>The nodes that answer a stanza, and the request to send it again, which is no answer.\<close>

definition is_ack :: "string \<Rightarrow> node \<Rightarrow> node \<Rightarrow> bool" where
  "is_ack me n r \<longleftrightarrow> (\<exists>c. r = ack_node me n c)"

definition is_read_receipt :: "node \<Rightarrow> bool" where
  "is_read_receipt r \<longleftrightarrow> node_tag r = ''receipt'' \<and> attr_get (node_attrs r) ''type'' \<noteq> AStr ''retry''"

definition is_retry_receipt :: "node \<Rightarrow> bool" where
  "is_retry_receipt r \<longleftrightarrow> node_tag r = ''receipt'' \<and> attr_get (node_attrs r) ''type'' = AStr ''retry''"

lemma ack_tag [simp]: "node_tag (ack_node me n c) = ''ack''"
  by (simp add: ack_node_def Let_def)

lemma retry_receipt_is: "is_retry_receipt (retry_receipt n i c reg keys)"
  by (simp add: is_retry_receipt_def retry_receipt_def Let_def attr_get_def)

lemma retry_keys_sent: "sent (snd (retry_keys env st)) = sent st"
  by (auto simp: retry_keys_def Let_def split: prod.splits list.splits sum.splits)

lemma next_retry_sent: "sent (snd (next_retry env i p st)) = sent st"
  by (auto simp: next_retry_def Let_def split: option.splits prod.splits)

lemma ask_phone_sent: "re_class env \<noteq> Messages_Send_Socket \<Longrightarrow> sent (ask_phone env k i st) = sent st"
  by (simp add: ask_phone_def placeholder_not_sent split: option.split)

lemma send_retry_request_sent:
  assumes "re_class env \<noteq> Messages_Send_Socket"
  shows "\<exists>rs. sent (snd (send_retry_request env n f st)) = sent st @ rs \<and> length rs \<le> 1 \<and> (\<forall>r\<in>set rs. is_retry_receipt r)"
proof (cases "decode_message_node (node_attrs n) (me_id_of env) (me_lid_of env)")
  case (Inr d)
  let ?k = "key_of (dn_message d)"
  let ?i = "text_or_empty (py_get ''id'' ?k)" and ?p = "text_or_empty (py_get ''participant'' ?k)"
  obtain c s1 where nr: "next_retry env ?i ?p st = (c, s1)" by fastforce
  have s1: "sent s1 = sent st" using next_retry_sent [of env ?i ?p st] nr by simp
  show ?thesis
  proof (cases c)
    case (Some cnt)
    let ?s2 = "if cnt \<le> 2 then ask_phone env ?k ?i s1 else s1"
    have s2: "sent ?s2 = sent st" using s1 ask_phone_sent [OF assms] by simp
    obtain rk s3 where rk: "(if cnt > 1 \<or> f then retry_keys env ?s2 else (Inr [], ?s2)) = (rk, s3)" by fastforce
    have s3: "sent s3 = sent st" using retry_keys_sent [of env ?s2] rk s2 by (auto split: if_splits)
    show ?thesis
    proof (cases "truthy (py_get ''id'' ?k) \<and> (\<exists>reg keys. encode_big_endian (pc_registration_id (rv_creds ?s2)) 4 = Inr reg \<and> rk = Inr keys)")
      case True
      then obtain reg keys where "encode_big_endian (pc_registration_id (rv_creds ?s2)) 4 = Inr reg" "rk = Inr keys" by blast
      then have "snd (send_retry_request env n f st) = send_node (retry_receipt n (py_get ''id'' ?k) cnt reg keys) s3"
        using True Inr nr Some rk by (simp add: send_retry_request_def Let_def)
      then show ?thesis by (intro exI [of _ "[retry_receipt n (py_get ''id'' ?k) cnt reg keys]"]) (simp add: s3 retry_receipt_is)
    next
      case False
      then have "sent (snd (send_retry_request env n f st)) = sent st"
        using Inr nr Some rk s2 s3 by (auto simp: send_retry_request_def Let_def split: sum.split)
      then show ?thesis by simp
    qed
  next
    case None
    then have "sent (snd (send_retry_request env n f st)) = sent st" using Inr nr s1 by (simp add: send_retry_request_def Let_def)
    then show ?thesis by simp
  qed
qed (simp add: send_retry_request_def)

lemma handle_unreadable_sent:
  assumes "re_class env \<noteq> Messages_Send_Socket" and "re_open env"
  shows "\<exists>rs. sent (handle_unreadable env n st) = sent st @ rs @ [ack_node (me_id_of env) n (Some NACK_UnhandledError)] \<and>
    length rs \<le> 1 \<and> (\<forall>r\<in>set rs. is_retry_receipt r)"
  using send_retry_request_sent [OF assms(1), of n "get_binary_node_child (Some n) ''enc'' = None" st] assms(2)
  by (auto simp: handle_unreadable_def)

lemma handle_absent_sent:
  assumes "re_class env \<noteq> Messages_Send_Socket"
  shows "sent (handle_absent env n m st) = sent st @ [ack_node (me_id_of env) n None]"
  using placeholder_not_sent [OF assms]
  by (auto simp: handle_absent_def Let_def split: prod.splits sum.splits option.splits) (metis snd_conv)+

lemma deliver_sent: "sent (snd (deliver env n m st)) = sent st"
  by (simp add: deliver_def split_beta split: sum.split)

lemma receipt_attrs_type:
  "receipt_type \<noteq> Some ''retry'' \<Longrightarrow> attr_get (receipt_attrs now j p ids receipt_type) ''type'' \<noteq> AStr ''retry''"
  by (auto simp: receipt_attrs_def attr_get_def split: option.splits)

lemma send_receipt_sent:
  assumes "fst (send_receipt env j p ids ty st) = Inr ()" and "ty \<noteq> Some ''retry''"
  shows "\<exists>r. sent (snd (send_receipt env j p ids ty st)) = sent st @ [r] \<and> is_read_receipt r"
  using assms by (auto simp: send_receipt_def is_read_receipt_def receipt_attrs_type split: prod.splits sum.splits option.splits if_splits)

lemma send_receipt_failed:
  "fst (send_receipt env j p ids ty st) = Inl e \<Longrightarrow> sent (snd (send_receipt env j p ids ty st)) = sent st"
  by (auto simp: send_receipt_def split: prod.splits sum.splits option.splits if_splits)

lemma handle_read_sent:
  assumes "fst (handle_read env n m author cat st) = Inr ()"
  shows "\<exists>rs. sent (snd (handle_read env n m author cat st)) = sent st @ rs \<and> rs \<noteq> [] \<and>
    (rs = [ack_node (me_id_of env) n None] \<or> (\<forall>r\<in>set rs. is_read_receipt r))"
proof -
  let ?k = "key_of m" and ?i = "text_or_empty (py_get ''id'' (key_of m))" and ?rem = "text_or_empty (py_get ''remoteJid'' (key_of m))"
  define s1 where "s1 = (if ?i = '''' then st else on_manager (cancel_pending_phone_request ?i) st)"
  have s1: "sent s1 = sent st" by (simp add: s1_def)
  obtain ty who where ty: "receipt_for ?k author (rv_active_receipts s1) cat = (ty, who)" by fastforce
  then have nr: "ty \<noteq> Some ''retry''" by (auto simp: receipt_for_def Let_def split: if_splits)
  show ?thesis
  proof (cases "is_jid_newsletter (Some ?rem)")
    case True
    then show ?thesis by (simp add: handle_read_def Let_def)
  next
    case False
    obtain r s2 where r: "send_receipt env ?rem who [?i] ty s1 = (r, s2)" by fastforce
    have h: "handle_read env n m author cat st = (case r of Inl e \<Rightarrow> (Inl e, s2) | Inr _ \<Rightarrow>
        if truthy (get_history_msg (py_get ''message'' m)) then
          (case jid_normalized_user (Some ?rem) of Inl e \<Rightarrow> (Inl e, s2) | Inr user \<Rightarrow> send_receipt env user None [?i] (Some ''hist_sync'') s2)
        else (Inr (), s2))"
      using False ty r by (simp add: handle_read_def Let_def s1_def [symmetric] split: sum.split)
    then have "r = Inr ()" using assms by (cases r) auto
    then obtain q where q: "sent s2 = sent st @ [q]" "is_read_receipt q"
      using send_receipt_sent [of env ?rem who "[?i]" ty s1] r nr s1 by auto
    show ?thesis
    proof (cases "truthy (get_history_msg (py_get ''message'' m))")
      case True
      then obtain user where u: "handle_read env n m author cat st = send_receipt env user None [?i] (Some ''hist_sync'') s2"
        using h assms \<open>r = Inr ()\<close> by (auto split: sum.splits)
      then obtain q2 where "sent (snd (handle_read env n m author cat st)) = sent s2 @ [q2]" "is_read_receipt q2"
        using send_receipt_sent [of env user None "[?i]" "Some ''hist_sync''" s2] assms by auto
      then show ?thesis using q by (intro exI [of _ "[q, q2]"]) simp
    next
      case False
      then show ?thesis using h \<open>r = Inr ()\<close> q by (intro exI [of _ "[q]"]) simp
    qed
  qed
qed

lemma handle_decrypted_sent:
  assumes "re_class env \<noteq> Messages_Send_Socket" and "re_open env" and "fst (handle_decrypted env n d m st) = Inr ()"
  shows "\<exists>rs ns. sent (snd (handle_decrypted env n d m st)) = sent st @ rs @ ns \<and> length rs \<le> 1 \<and> (\<forall>r\<in>set rs. is_retry_receipt r) \<and>
    ns \<noteq> [] \<and> ((\<exists>c. ns = [ack_node (me_id_of env) n c]) \<or>
      ((\<forall>r\<in>set ns. is_read_receipt r) \<and> rs = [] \<and> (\<not> is_stub m \<or> py_get ''category'' m = PStr ''peer'')))"
proof (cases "is_stub m \<and> py_get ''category'' m \<noteq> PStr ''peer''")
  case True
  define s1 where "s1 = remember_message env m st"
  have s1: "sent s1 = sent st" by (simp add: s1_def)
  let ?A = "stub_error m = MISSING_KEYS_ERROR_TEXT" and ?B = "stub_error m = NO_MESSAGE_FOUND_ERROR_TEXT"
    and ?C = "is_jid_status_broadcast (text_or_empty (py_get ''remoteJid'' (key_of m))) \<and> message_age env m > STATUS_EXPIRY_SECONDS"
  have h: "handle_decrypted env n d m st =
      (if ?A then (Inr (), send_message_ack env n (Some NACK_ParsingError) s1)
       else if ?B then deliver env n m (handle_absent env n m s1)
       else if ?C then (Inr (), send_message_ack env n None s1) else deliver env n m (handle_unreadable env n s1))"
    unfolding handle_decrypted_def Let_def s1_def if_P [OF True] ..
  have "(\<exists>c. snd (handle_decrypted env n d m st) = send_message_ack env n c s1) \<or>
      snd (handle_decrypted env n d m st) = snd (deliver env n m (handle_absent env n m s1)) \<or>
      snd (handle_decrypted env n d m st) = snd (deliver env n m (handle_unreadable env n s1))"
    unfolding h by auto
  then consider (refused) c where "snd (handle_decrypted env n d m st) = send_message_ack env n c s1"
    | (absent) "snd (handle_decrypted env n d m st) = snd (deliver env n m (handle_absent env n m s1))"
    | (unreadable) "snd (handle_decrypted env n d m st) = snd (deliver env n m (handle_unreadable env n s1))" by blast
  then show ?thesis
  proof cases
    case refused
    then show ?thesis by (intro exI [of _ "[]"] exI [of _ "[ack_node (me_id_of env) n c]"]) (auto simp: s1)
  next
    case absent
    then show ?thesis
      by (intro exI [of _ "[]"] exI [of _ "[ack_node (me_id_of env) n None]"]) (auto simp: deliver_sent handle_absent_sent [OF assms(1)] s1)
  next
    case unreadable
    from handle_unreadable_sent [OF assms(1,2), of n s1] obtain rs where
      rs: "sent (handle_unreadable env n s1) = sent s1 @ rs @ [ack_node (me_id_of env) n (Some NACK_UnhandledError)]"
        "length rs \<le> 1" "\<forall>r\<in>set rs. is_retry_receipt r" by blast
    then show ?thesis
      using unreadable by (intro exI [of _ rs] exI [of _ "[ack_node (me_id_of env) n (Some NACK_UnhandledError)]"]) (auto simp: deliver_sent s1)
  qed
next
  case False
  let ?s1 = "remember_message env m st"
  have h: "handle_decrypted env n d m st = (case handle_read env n m (dn_author d) (py_get ''category'' (dn_message d)) ?s1 of
      (Inl e, st) \<Rightarrow> (Inl e, st) | (Inr _, st) \<Rightarrow> deliver env n m st)"
    unfolding handle_decrypted_def Let_def if_not_P [OF False] ..
  obtain r s2 where r: "handle_read env n m (dn_author d) (py_get ''category'' (dn_message d)) ?s1 = (r, s2)" by fastforce
  then have "r = Inr ()" using h assms(3) by (cases r) auto
  then obtain ns where ns: "sent s2 = sent st @ ns" "ns \<noteq> []" "ns = [ack_node (me_id_of env) n None] \<or> (\<forall>r\<in>set ns. is_read_receipt r)"
    using handle_read_sent [of env n m "dn_author d" "py_get ''category'' (dn_message d)" ?s1] r by auto
  have "sent (snd (handle_decrypted env n d m st)) = sent s2" using h r \<open>r = Inr ()\<close> by (simp add: deliver_sent)
  then show ?thesis using ns False by (intro exI [of _ "[]"] exI [of _ ns]) auto
qed



section \<open>The limit of retry requests\<close>



lemma deleted_count:
  assumes "counters_ok m"
  shows "fst (tc_get now i (rm_counters (forget_message i m))) = None"
proof -
  have i: "tc_inv (rm_counters (forget_message i m))" "0 < tc_ttl (rm_counters (forget_message i m))"
    "map_of (tc_store (rm_counters (forget_message i m))) i = None"
    using assms by (simp_all add: counters_ok_def forget_message_def remove_recent_message_def cancel_pending_phone_request_def
        Let_def tc_delete_def tc_inv_def split: option.split)
  then show ?thesis by (simp add: tc_get_unbounded(1) [OF i(1)] map_of_purge [OF i(1,2)])
qed


lemma get_nothing_twice:
  assumes "tc_inv c" and "0 < tc_ttl c" and "fst (tc_get now i c) = None"
  shows "fst (tc_get now i (snd (tc_get now i c))) = None"
proof -
  have "map_of (tc_store (snd (tc_get now i c))) i = None"
    using assms(3) unfolding tc_get_unbounded [OF assms(1)] map_of_purge [OF assms(1,2)] by (auto split: option.splits if_splits)
  moreover have "tc_inv (snd (tc_get now i c))" "0 < tc_ttl (snd (tc_get now i c))" using assms by simp_all
  ultimately show ?thesis by (simp add: tc_get_unbounded(1) map_of_purge)
qed

lemma uncounted_is_first:
  assumes "0 < rm_max m" and "counters_ok m" and "fst (tc_get (now_ms env) i (rm_counters m)) = None"
  shows "fst (next_retry env i p (st\<lparr>rv_manager := Some m\<rparr>)) = Some 1"
proof -
  have "fst (tc_get (now_ms env) i (snd (tc_get (now_ms env) i (rm_counters m)))) = None"
    using assms by (intro get_nothing_twice) (simp_all add: counters_ok_def)
  then show ?thesis
    using assms by (simp add: next_retry_def Let_def has_exceeded_max_retries_def get_retry_count_def increment_retry_count_def
        count_of_def split_beta)
qed

text \<open>
  A request to send a message again is refused when the limit is reached, but that forgets the
  count: the next one for the same message is the first of a new series.
\<close>

theorem retry_limit_restarts:
  assumes "case rv_manager st of None \<Rightarrow> 0 < re_max_retry env | Some m \<Rightarrow> 0 < rm_max m \<and> counters_ok m"
    and "fst (next_retry env i p st) = None"
  shows "fst (next_retry env i p (snd (next_retry env i p st))) = Some 1"
proof (cases "rv_manager st")
  case None
  then show ?thesis
    using assms by (auto simp: next_retry_def Let_def retry_count_del_def retry_count_set_def retry_count_get_def split: if_splits)
next
  case (Some m)
  let ?m = "snd (has_exceeded_max_retries (now_ms env) i m)"
  have ok: "counters_ok ?m" "rm_max ?m = rm_max m"
    using assms Some by (simp_all add: has_exceeded_max_retries_def get_retry_count_def counters_ok_def split_beta)
  have s: "snd (next_retry env i p st) = st\<lparr>rv_manager := Some (mark_retry_failed i ?m)\<rparr>"
    using assms Some by (auto simp: next_retry_def Let_def split: prod.splits if_splits)
  obtain m' where m': "mark_retry_failed i ?m = forget_message i m'" "counters_ok m'" "rm_max m' = rm_max m"
    using ok by (auto simp: mark_retry_failed_def counters_ok_def)
  have "rm_max (forget_message i m') = rm_max m" "counters_ok (forget_message i m')" using m'
    by (simp_all add: forget_message_def remove_recent_message_def cancel_pending_phone_request_def counters_ok_def Let_def
        split: option.split)
  then show ?thesis
    using deleted_count [OF m'(2), of "now_ms env" i] assms(1) Some by (simp add: s m'(1) uncounted_is_first)
qed

section \<open>At concrete inputs\<close>

definition sample_process :: "(string store, bytes store) process_env" where
  "sample_process = \<lparr>pv_session = sv_session sample_env, pv_creds = [], pv_process_history = False, pv_inflate = (\<lambda>_. Inl ExternalError),
     pv_get_message = (\<lambda>_. None), pv_hmac = (\<lambda>_ _. []), pv_unseal = (\<lambda>_ _ _ _ _. Inl ExternalError), pv_event_response = (\<lambda>_. Inr [])\<rparr>"

definition sample_recv :: "(string store, bytes store) recv_env" where
  "sample_recv = \<lparr>re_relay = sample_relay, re_class = Communities_Socket, re_proto = (\<lambda>_. None), re_now = 1000, re_ignored = (\<lambda>_. False),
     re_max_retry = 1, re_get_message = (\<lambda>_. None), re_auto_recreate = True, re_device_identity = [], re_open = True,
     re_gen = (\<lambda>_. \<lparr>kp_public = [], kp_private = []\<rparr>), re_message_id = ''3EB0'', re_meanwhile = (\<lambda>c. c),
     re_process = sample_process, re_should_sync = (\<lambda>_. True), re_resync = (\<lambda>_. (None, []))\<rparr>"

definition sample_recv_state :: "(string store, bytes store) recv_state" where
  "sample_recv_state = \<lparr>rv_relay = sample_relay_state, rv_ids = new_identity_state, rv_manager = None, rv_counts = Map.empty,
     rv_placeholder = Map.empty, rv_cleanups = [], rv_active_receipts = False,
     rv_creds = \<lparr>pc_next_pre_key_id = 1, pc_first_unuploaded = 1, pc_registration_id = 7, pc_identity_public = [],
       pc_signed_pre_key = \<lparr>spk_id = 1, spk_public = [], spk_signature = []\<rparr>\<rparr>,
     rv_pre_keys = (\<lambda>_ _. None), rv_events = [], rv_sync_keys = Map.empty, rv_sync = new_sync\<rparr>"

text \<open>A message for which there is no session.\<close>

definition unreadable_text :: node where
  "unreadable_text = Node ''message'' [(''from'', AStr ''22@lid''), (''id'', AStr ''A''), (''t'', AStr ''990'')]
     (CList [Node ''enc'' [(''v'', AStr ''2''), (''type'', AStr ''msg'')] (CBytes [1])])"


theorem retry_limit_restarts_witness:
  "fst (next_retry sample_recv ''A'' '''' (snd (next_retry sample_recv ''A'' '''' (retry_count_set ''A:'' 1 sample_recv_state)))) = Some 1"
  by (rule retry_limit_restarts)
    (simp_all add: sample_recv_def sample_recv_state_def retry_count_set_def next_retry_def counter_key_def retry_count_get_def Let_def)


end
