(* ===== verification/Receipts.thy ===== *)
theory Receipts
  imports Message_Receive
begin

text \<open>
  Receipts of \<^verbatim>\<open>socket/messages_recv.py\<close>: what a receipt reports of messages that
  were sent, sending a message again when a receipt asks for it, negative acknowledgements and the
  switch to active receipts. State and environment are those of theory \<open>Message_Receive\<close>; an
  operation gives the exception that it lets through, if any, and the state it leaves.
\<close>

section \<open>Sending again\<close>

definition will_send_message_again :: "('l, 's) recv_env \<Rightarrow> string \<Rightarrow> string \<Rightarrow> ('l, 's) recv_state \<Rightarrow> bool" where
  "will_send_message_again env message_id participant st \<longleftrightarrow>
     retry_count_get (counter_key message_id participant) st < re_max_retry env"

definition update_send_message_again_count :: "string \<Rightarrow> string \<Rightarrow> ('l, 's) recv_state \<Rightarrow> ('l, 's) recv_state" where
  "update_send_message_again_count message_id participant st =
     (let key = counter_key message_id participant in retry_count_set key (retry_count_get key st + 1) st)"

text \<open>\<open>_to_int(v, d)\<close>.\<close>

definition to_int_or :: "attr_value \<Rightarrow> int \<Rightarrow> int" where
  "to_int_or a d = (case a of AStr s \<Rightarrow> (case py_int s of Inl _ \<Rightarrow> d | Inr i \<Rightarrow> i) | AInt i \<Rightarrow> i | ANone \<Rightarrow> d)"

text \<open>The session with the one who asks is dropped when the manager advises it.\<close>

definition recreate_session :: "('l, 's) recv_env \<Rightarrow> string \<Rightarrow> int \<Rightarrow> ('l, 's) recv_state \<Rightarrow> ('l, 's) recv_state" where
  "recreate_session env participant retry_count st =
     (if re_auto_recreate env \<and> retry_count > 1 then
        (case rv_manager st of
           None \<Rightarrow> st
         | Some m \<Rightarrow>
             let rl = rv_relay st; sd = rl_send rl; session_env = sv_session (ry_send (re_relay env));
                 (has_session, storage) = validate_session session_env participant (sd_storage sd);
                 ((reason, recreate), m) = should_recreate_session (now_ms env) participant has_session None m;
                 storage = (if recreate
                   then (case address_of participant of
                           Inl e \<Rightarrow> storage
                         | Inr session_id \<Rightarrow> bytes_put session_env [(''session'', [(session_id, None)])] storage)
                   else storage)
             in st\<lparr>rv_relay := rl\<lparr>rl_send := sd\<lparr>sd_storage := storage\<rparr>\<rparr>, rv_manager := Some m\<rparr>)
      else st)"

text \<open>The message that was sent, from the recent ones or from the application.\<close>

definition message_to_resend ::
    "('l, 's) recv_env \<Rightarrow> pydict \<Rightarrow> string \<Rightarrow> string \<Rightarrow> ('l, 's) recv_state \<Rightarrow> pydict option \<times> ('l, 's) recv_state" where
  "message_to_resend env key remote_jid msg_id st =
     (let (cached_msg, st) = (case rv_manager st of
            None \<Rightarrow> (None, st)
          | Some m \<Rightarrow> let (r, m) = get_recent_message (now_ms env) remote_jid msg_id m in (r, st\<lparr>rv_manager := Some m\<rparr>))
      in case cached_msg of
           Some (msg, _) \<Rightarrow> (Some msg, on_manager (mark_retry_success msg_id) st)
         | None \<Rightarrow> let msg = re_get_message env (dict_set ''id'' (PStr msg_id) key)
                  in (msg, if msg = None then st else on_manager (mark_retry_success msg_id) st))"

definition send_again ::
    "('l, 's) recv_env \<Rightarrow> pydict \<Rightarrow> string \<Rightarrow> string \<Rightarrow> string \<Rightarrow> ('l, 's) recv_state \<Rightarrow> ('l, 's) recv_state outcome" where
  "send_again env key remote_jid participant msg_id st =
     (if msg_id = '''' then (None, st)
      else let (msg, st) = message_to_resend env key remote_jid msg_id st in
        case msg of
          Some (x # xs) \<Rightarrow>
            if \<not> will_send_message_again env msg_id participant st then (None, st)
            else
              let st = update_send_message_again_count msg_id participant st;
                  (r, st) = self_relay env (plain_relay remote_jid (x # xs) msg_id [] []) st
              in (case r of Inl e \<Rightarrow> Some e | Inr _ \<Rightarrow> None, st)
        | _ \<Rightarrow> (None, on_manager (mark_retry_failed msg_id) st))"

definition send_messages_again ::
    "('l, 's) recv_env \<Rightarrow> pydict \<Rightarrow> string list \<Rightarrow> node \<Rightarrow> ('l, 's) recv_state \<Rightarrow> ('l, 's) recv_state outcome" where
  "send_messages_again env key ids retry_node st =
     (let remote_jid = text_or_empty (py_get ''remoteJid'' key);
          participant = text_or_empty (py_or (py_get ''participant'' key) (PStr remote_jid))
      in if remote_jid = '''' \<or> participant = '''' then (None, st)
         else case jid_decode (Some participant) of
           Inl e \<Rightarrow> (Some e, st)
         | Inr _ \<Rightarrow>
             for_each (send_again env key remote_jid participant) ids
               (recreate_session env participant (to_int_or (attr_get (node_attrs retry_node) ''count'') 1) st))"

section \<open>A receipt\<close>

definition receipt_ids :: "node \<Rightarrow> string list" where
  "receipt_ids n = attr_str (attr_default (node_attrs n) ''id'' '''') #
     (case node_content n of
        CList (list_node # _) \<Rightarrow>
          filter (\<lambda>i. i \<noteq> '''') (map (\<lambda>item. text_or_empty (attr_py (node_attrs item) ''id''))
            (get_binary_node_children (Some list_node) ''item''))
      | _ \<Rightarrow> [])"

definition receipt_key :: "attrs \<Rightarrow> string \<Rightarrow> bool \<Rightarrow> pydict" where
  "receipt_key a remote_jid is_node_from_me =
     [(''remoteJid'', PStr remote_jid), (''id'', PStr ''''),
      (''fromMe'', PBool (\<not> attr_truthy (attr_get a ''recipient'') \<or>
         (attr_get a ''type'' = AStr ''retry'' \<or> attr_get a ''type'' = AStr ''sender'') \<and> is_node_from_me)),
      (''participant'', attr_py a ''participant'')]"

text \<open>The event a receipt is reported by: per participant in a group or for a status, else as an update of the message.\<close>

definition report_receipt ::
    "attrs \<Rightarrow> string \<Rightarrow> pydict \<Rightarrow> string list \<Rightarrow> ('l, 's) recv_state \<Rightarrow> ('l, 's) recv_state outcome" where
  "report_receipt a remote_jid key ids st =
     (let status = status_int (get_status_from_receipt_type (attr_given a ''type''));
          key_for = (\<lambda>i. PDict (dict_set ''id'' (PStr i) key)) in
      if is_jid_group (Some remote_jid) \<or> is_jid_status_broadcast remote_jid then
        (case attr_given a ''participant'' of
           None \<Rightarrow> (None, st)
         | Some participant \<Rightarrow>
             (case (jid_normalized_user (Some participant), attr_int_or (attr_get a ''t'') 0) of
                (Inr user, Inr t) \<Rightarrow>
                  (None, emit_event ''message-receipt.update''
                     (PList (map (\<lambda>i. PDict [(''key'', key_for i),
                        (''receipt'', PDict [(''userJid'', PStr user),
                           (if status = 1 then ''receiptTimestamp'' else ''readTimestamp'', PInt t)])]) ids)) st)
              | (Inl e, _) \<Rightarrow> (Some e, st)
              | (_, Inl e) \<Rightarrow> (Some e, st)))
      else
        (case attr_int_or (attr_get a ''t'') 0 of
           Inl e \<Rightarrow> (Some e, st)
         | Inr t \<Rightarrow>
             (None, emit_event ''messages.update''
                (PList (map (\<lambda>i. PDict [(''key'', key_for i),
                   (''update'', PDict [(''status'', PInt status), (''messageTimestamp'', PInt t)])]) ids)) st)))"

definition handle_receipt ::
    "('l, 's) recv_env \<Rightarrow> node \<Rightarrow> string \<Rightarrow> bool \<Rightarrow> ('l, 's) recv_state \<Rightarrow> ('l, 's) recv_state outcome" where
  "handle_receipt env n remote_jid is_node_from_me st =
     (let a = node_attrs n; key = receipt_key a remote_jid is_node_from_me; ids = receipt_ids n in
      case report_receipt a remote_jid key ids st of
        (Some e, st) \<Rightarrow> (Some e, st)
      | (None, st) \<Rightarrow>
          let participant = py_or (py_get ''participant'' key) (attr_py a ''from'') in
          if attr_get a ''type'' = AStr ''retry'' \<and> truthy participant \<and> truthy (py_get ''fromMe'' key)
          then send_messages_again env (dict_set ''participant'' participant key) ids
                 (case get_binary_node_child (Some n) ''retry'' of
                    None \<Rightarrow> Node ''retry'' [(''count'', AStr ''1'')] CNone | Some r \<Rightarrow> r) st
          else (None, st))"

text \<open>\<open>_handle_receipt_node\<close>: the acknowledgement is sent in a \<open>finally\<close> clause.\<close>

definition handle_receipt_node ::
    "('l, 's) recv_env \<Rightarrow> node \<Rightarrow> ('l, 's) recv_state \<Rightarrow> ('l, 's) recv_state outcome" where
  "handle_receipt_node env n st =
     (let a = node_attrs n; sv = ry_send (re_relay env);
          from_jid = text_or_empty (attr_py a ''from'');
          me_jid = (if py_contains ''lid'' from_jid then sv_me_lid sv else Some (me_id_of env))
      in case are_jids_same_user (Some (case attr_given a ''participant'' of None \<Rightarrow> from_jid | Some p \<Rightarrow> p)) me_jid of
           Inl e \<Rightarrow> (Some e, st)
         | Inr is_node_from_me \<Rightarrow>
             let remote_jid = (if \<not> is_node_from_me \<or> is_jid_group (Some from_jid) then from_jid
                               else case attr_given a ''recipient'' of None \<Rightarrow> from_jid | Some r \<Rightarrow> r);
                 (x, st) = (if re_ignored env remote_jid \<and> remote_jid \<noteq> S_WHATSAPP_NET then (None, st)
                            else handle_receipt env n remote_jid is_node_from_me st)
             in (x, send_message_ack env n None st))"

section \<open>Negative acknowledgements and presence\<close>

definition handle_ack_node :: "node \<Rightarrow> ('l, 's) recv_state \<Rightarrow> ('l, 's) recv_state" where
  "handle_ack_node n st =
     (let a = node_attrs n in
      if attr_get a ''class'' = AStr ''message'' \<and> attr_truthy (attr_get a ''error'')
      then emit_event ''messages.update''
             (PList [PDict [(''key'', PDict [(''remoteJid'', attr_py a ''from''), (''fromMe'', PBool True), (''id'', attr_py a ''id'')]),
                (''update'', PDict [(''status'', PInt 0), (''messageStubParameters'', PList [attr_py a ''error''])])]]) st
      else st)"

definition handle_recv_connection_update :: "pydict \<Rightarrow> ('l, 's) recv_state \<Rightarrow> ('l, 's) recv_state" where
  "handle_recv_connection_update update st =
     (case py_get ''isOnline'' update of PBool b \<Rightarrow> st\<lparr>rv_active_receipts := b\<rparr> | _ \<Rightarrow> st)"


section \<open>A receipt is acknowledged, and nothing more is sent\<close>

lemma send_again_not_sent:
  assumes "re_class env \<noteq> Messages_Send_Socket"
  shows "sent (snd (send_again env key remote participant i st)) = sent st"
  using assms by (simp add: send_again_def message_to_resend_def update_send_message_again_count_def self_relay_none Let_def
      split: prod.split option.split list.split)

lemma recreate_session_sent [simp]: "sent (recreate_session env participant c st) = sent st"
  by (auto simp: recreate_session_def Let_def sent_def split: option.split prod.split)

lemma send_messages_again_not_sent:
  assumes "re_class env \<noteq> Messages_Send_Socket"
  shows "sent (snd (send_messages_again env key ids r st)) = sent st"
proof -
  have "sent (snd (for_each (send_again env key j p) ids s)) = sent s" for j p s
    by (rule for_each_invariant [where I = "\<lambda>s'. sent s' = sent s"]) (simp_all add: send_again_not_sent [OF assms])
  then show ?thesis by (simp add: send_messages_again_def Let_def split: sum.split)
qed

lemma report_receipt_sent [simp]: "sent (snd (report_receipt a j key ids st)) = sent st"
  by (simp add: report_receipt_def Let_def split: option.split sum.split)

lemma handle_receipt_not_sent:
  assumes "re_class env \<noteq> Messages_Send_Socket"
  shows "sent (snd (handle_receipt env n j mine st)) = sent st"
proof -
  obtain x s where r: "report_receipt (node_attrs n) j (receipt_key (node_attrs n) j mine) (receipt_ids n) st = (x, s)" by fastforce
  then have "sent s = sent st" using report_receipt_sent by (metis snd_conv)
  then show ?thesis using r by (simp add: handle_receipt_def Let_def send_messages_again_not_sent [OF assms] split: option.split)
qed

text \<open>
  A receipt is acknowledged whatever becomes of it, even when its handling raises, unless the
  identity of its sender cannot be read. Nothing else is sent: a message that a receipt asks for
  again is never sent again by the sockets that the factory makes.
\<close>

theorem receipt_only_acknowledged:
  fixes env :: "('l, 's) recv_env"
  defines "full \<equiv> env\<lparr>re_class := last socket_chain\<rparr>"
  shows "sent (snd (handle_receipt_node full n st)) = sent st @
    (if \<exists>mine. are_jids_same_user
          (Some (case attr_given (node_attrs n) ''participant'' of None \<Rightarrow> text_or_empty (attr_py (node_attrs n) ''from'') | Some p \<Rightarrow> p))
          (if py_contains ''lid'' (text_or_empty (attr_py (node_attrs n) ''from'')) then sv_me_lid (ry_send (re_relay env))
           else Some (me_id_of env)) = Inr mine
     then [ack_node (me_id_of env) n None] else [])"
proof -
  have c: "re_class full \<noteq> Messages_Send_Socket" "re_relay full = re_relay env" "me_id_of full = me_id_of env"
    by (simp_all add: full_def socket_chain_def me_id_of_def)
  have "sent (snd (let (x, s) = (if b then (None, st) else handle_receipt full n j mine st) in (x, send_message_ack full n None s))) =
      sent st @ [ack_node (me_id_of env) n None]" for b j mine
    using handle_receipt_not_sent [OF c(1), of n j mine st] c by (simp add: split_beta)
  then show ?thesis by (simp add: handle_receipt_node_def Let_def c split: sum.split)
qed

section \<open>Receipts in groups\<close>

text \<open>
  Finding: whatever its type, a receipt in a group reports the time at which the message was read.
  The other kind of time is meant for the status of a delivery, which is compared with 1; it is 3.
\<close>

theorem group_receipt_is_read:
  assumes "is_jid_group (Some remote_jid)" and "attr_given a ''participant'' = Some participant"
    and "jid_normalized_user (Some participant) = Inr user" and "attr_int_or (attr_get a ''t'') 0 = Inr t"
  shows "report_receipt a remote_jid key ids st =
    (None, emit_event ''message-receipt.update''
       (PList (map (\<lambda>i. PDict [(''key'', PDict (dict_set ''id'' (PStr i) key)),
          (''receipt'', PDict [(''userJid'', PStr user), (''readTimestamp'', PInt t)])]) ids)) st)"
proof -
  have "status_int (get_status_from_receipt_type ty) \<noteq> 1" for ty
    by (simp add: get_status_from_receipt_type_def split: option.split)
  then show ?thesis using assms by (simp add: report_receipt_def Let_def)
qed

definition delivered_in_group :: attrs where
  "delivered_in_group = [(''from'', AStr ''1@g.us''), (''participant'', AStr ''22@lid''), (''t'', AStr ''990'')]"

theorem group_receipt_is_read_witness:
  "report_receipt delivered_in_group ''1@g.us'' [] [''A''] sample_recv_state =
    (None, emit_event ''message-receipt.update''
       (PList (map (\<lambda>i. PDict [(''key'', PDict (dict_set ''id'' (PStr i) [])),
          (''receipt'', PDict [(''userJid'', PStr ''22@lid''), (''readTimestamp'', PInt 990)])]) [''A''])) sample_recv_state)"
proof (rule group_receipt_is_read)
  show "attr_given delivered_in_group ''participant'' = Some ''22@lid''" by code_simp
  show "jid_normalized_user (Some ''22@lid'') = Inr ''22@lid''" by code_simp
  show "attr_int_or (attr_get delivered_in_group ''t'') 0 = Inr 990" by code_simp
  show "is_jid_group (Some ''1@g.us'')" by code_simp
qed

end
