(* ===== verification/Node_Dispatch.thy ===== *)
theory Node_Dispatch
  imports Binary_Node Py_Value Event_Bus
begin

text \<open>
  How incoming stanzas reach their handlers (\<^verbatim>\<open>socket/messages_recv.py\<close>): at once, inside
  a buffered section, or, for what the server kept while the client was away, through a queue that one
  task at a time works off. The handlers, with the state \<open>'s\<close> they work on, are an argument; a handler
  is one step. Tasks are interleaved at their awaits.
\<close>

section \<open>State and operations\<close>

text \<open>\<open>s.lower()\<close>, of the ASCII letters; no other letter gives one of the words below.\<close>

definition py_lower :: "string \<Rightarrow> string" where
  "py_lower s = map (\<lambda>c. if (65::nat) \<le> of_char c \<and> of_char c \<le> (90::nat) then char_of (of_char c + (32::nat)) else c) s"

definition is_offline_attr :: "attr_value \<Rightarrow> bool" where
  "is_offline_attr v = (case v of
       ANone \<Rightarrow> False
     | AStr s \<Rightarrow> py_lower (py_strip s) \<notin> {'''', ''0'', ''false'', ''none'', ''null''}
     | AInt i \<Rightarrow> i \<noteq> 0)"

type_synonym 's node_handlers = "string \<Rightarrow> ((node \<Rightarrow> 's \<Rightarrow> 's outcome) \<times> string) option"

record 's dispatcher =
  dp_queue :: "(string \<times> node) list"
  dp_processing :: bool
  dp_current :: "(string \<times> node) option"
  dp_tasks :: nat
  dp_open :: bool
  dp_app :: 's
  dp_errors :: "(exn \<times> string) list"
  dp_handled :: "(string \<times> node) list"

definition new_dispatcher :: "'s \<Rightarrow> 's dispatcher" where
  "new_dispatcher app = \<lparr>dp_queue = [], dp_processing = False, dp_current = None, dp_tasks = 0, dp_open = True,
     dp_app = app, dp_errors = [], dp_handled = []\<rparr>"

definition report_node_error :: "exn \<Rightarrow> string \<Rightarrow> 's dispatcher \<Rightarrow> 's dispatcher" where
  "report_node_error e identifier d = d\<lparr>dp_errors := dp_errors d @ [(e, identifier)]\<rparr>"

text \<open>The handler of a kind of stanza; what it raises is reported.\<close>

definition run_handler :: "'s node_handlers \<Rightarrow> string \<Rightarrow> node \<Rightarrow> 's dispatcher \<Rightarrow> 's dispatcher" where
  "run_handler hs node_type n d = (case hs node_type of
       None \<Rightarrow> report_node_error (RuntimeError (''unknown offline node type: '' @ node_type)) ''processing offline node'' d
     | Some (handler, identifier) \<Rightarrow>
         let (x, app) = handler n (dp_app d); d = d\<lparr>dp_app := app\<rparr>
         in (case x of None \<Rightarrow> d | Some e \<Rightarrow> report_node_error e identifier d))"

text \<open>A stanza that is handled at once is handled in a buffered section, which ends even when the handler raises.\<close>

definition process_node_with_buffer :: "'e bus_action list \<times> exn option \<Rightarrow> 'e bus_action list \<times> exn option" where
  "process_node_with_buffer work = ([Bus_Buffer] @ fst work @ [Bus_Flush], snd work)"

definition enqueue_offline_node :: "string \<Rightarrow> node \<Rightarrow> 's dispatcher \<Rightarrow> 's dispatcher" where
  "enqueue_offline_node node_type n d =
     (let d = d\<lparr>dp_queue := dp_queue d @ [(node_type, n)]\<rparr>
      in if dp_processing d then d else d\<lparr>dp_tasks := dp_tasks d + 1\<rparr>)"

definition dispatch_incoming_node :: "'s node_handlers \<Rightarrow> string \<Rightarrow> node \<Rightarrow> 's dispatcher \<Rightarrow> 's dispatcher" where
  "dispatch_incoming_node hs node_type n d =
     (if is_offline_attr (attr_get (node_attrs n) ''offline'') then enqueue_offline_node node_type n d
      else run_handler hs node_type n d)"

text \<open>\<open>_process_offline_nodes\<close>, from await to await.\<close>

definition start_processing :: "'s dispatcher \<Rightarrow> 's dispatcher" where
  "start_processing d =
     (let d = d\<lparr>dp_tasks := dp_tasks d - 1\<rparr> in if dp_processing d then d else d\<lparr>dp_processing := True\<rparr>)"

definition take_node :: "'s dispatcher \<Rightarrow> 's dispatcher" where
  "take_node d = (case dp_queue d of
       [] \<Rightarrow> d\<lparr>dp_processing := False\<rparr>
     | x # xs \<Rightarrow> if \<not> dp_open d then d\<lparr>dp_processing := False\<rparr> else d\<lparr>dp_queue := xs, dp_current := Some x\<rparr>)"

definition finish_node :: "'s node_handlers \<Rightarrow> 's dispatcher \<Rightarrow> 's dispatcher" where
  "finish_node hs d = (case dp_current d of
       None \<Rightarrow> d
     | Some (node_type, n) \<Rightarrow>
         run_handler hs node_type n (d\<lparr>dp_current := None, dp_handled := dp_handled d @ [(node_type, n)]\<rparr>))"

section \<open>Steps\<close>

inductive task_step :: "'s node_handlers \<Rightarrow> 's dispatcher \<Rightarrow> 's dispatcher \<Rightarrow> bool" for hs where
  starts: "0 < dp_tasks d \<Longrightarrow> task_step hs d (start_processing d)"
| takes: "dp_processing d \<Longrightarrow> dp_current d = None \<Longrightarrow> task_step hs d (take_node d)"
| finishes: "dp_current d = Some x \<Longrightarrow> task_step hs d (finish_node hs d)"

text \<open>
  A run, with the stanzas of the time offline in the order of their arrival, and whether the transport
  has been closed.
\<close>

inductive dispatch_run :: "'s node_handlers \<Rightarrow> (string \<times> node) list \<Rightarrow> bool \<Rightarrow> 's dispatcher \<Rightarrow> bool" for hs where
  connected: "dispatch_run hs [] False (new_dispatcher app)"
| arrives: "dispatch_run hs arrived closed d \<Longrightarrow>
    dispatch_run hs (if is_offline_attr (attr_get (node_attrs n) ''offline'') then arrived @ [(node_type, n)] else arrived) closed
      (dispatch_incoming_node hs node_type n d)"
| works: "dispatch_run hs arrived closed d \<Longrightarrow> task_step hs d d' \<Longrightarrow> dispatch_run hs arrived closed d'"
| closes: "dispatch_run hs arrived closed d \<Longrightarrow> dispatch_run hs arrived True (d\<lparr>dp_open := False\<rparr>)"
| opens: "dispatch_run hs arrived closed d \<Longrightarrow> dispatch_run hs arrived closed (d\<lparr>dp_open := True\<rparr>)"

inductive_cases task_stepE: "task_step hs d d'"

definition dispatch_ok :: "(string \<times> node) list \<Rightarrow> bool \<Rightarrow> 's dispatcher \<Rightarrow> bool" where
  "dispatch_ok arrived closed d \<longleftrightarrow>
     dp_handled d @ (case dp_current d of None \<Rightarrow> [] | Some x \<Rightarrow> [x]) @ dp_queue d = arrived \<and>
     (dp_current d \<noteq> None \<longrightarrow> dp_processing d) \<and>
     (\<not> closed \<longrightarrow> dp_open d \<and> (dp_queue d \<noteq> [] \<longrightarrow> dp_processing d \<or> 0 < dp_tasks d))"

lemma run_handler_simps [simp]:
  "dp_queue (run_handler hs k n d) = dp_queue d" "dp_processing (run_handler hs k n d) = dp_processing d"
  "dp_current (run_handler hs k n d) = dp_current d" "dp_tasks (run_handler hs k n d) = dp_tasks d"
  "dp_open (run_handler hs k n d) = dp_open d" "dp_handled (run_handler hs k n d) = dp_handled d"
  by (simp_all add: run_handler_def report_node_error_def Let_def split: option.split prod.split)

lemma task_step_ok: "task_step hs d d' \<Longrightarrow> dispatch_ok arrived closed d \<Longrightarrow> dispatch_ok arrived closed d'"
  by (erule task_stepE) (auto simp: dispatch_ok_def start_processing_def take_node_def finish_node_def Let_def split: list.splits)

lemma dispatch_run_ok: "dispatch_run hs arrived closed d \<Longrightarrow> dispatch_ok arrived closed d"
proof (induction rule: dispatch_run.induct)
  case (arrives arrived closed d n node_type)
  then show ?case by (auto simp: dispatch_ok_def dispatch_incoming_node_def enqueue_offline_node_def Let_def)
next
  case (works arrived closed d d')
  then show ?case by (simp add: task_step_ok)
qed (auto simp: dispatch_ok_def new_dispatcher_def)

section \<open>Order and progress\<close>


text \<open>What the tasks still have to do; every step of a task does some of it.\<close>

definition remaining_work :: "'s dispatcher \<Rightarrow> nat" where
  "remaining_work d = 3 * length (dp_queue d) + (if dp_current d = None then 0 else 1) + 2 * dp_tasks d + of_bool (dp_processing d)"

lemma task_step_works: "task_step hs d d' \<Longrightarrow> remaining_work d' < remaining_work d"
  by (erule task_stepE)
    (auto simp: remaining_work_def start_processing_def take_node_def finish_node_def Let_def split: list.splits)

lemma task_steps_end: "wfp (task_step hs)\<inverse>\<inverse>"
  by (rule wfp_if_convertible_to_nat [where f = remaining_work]) (auto intro: task_step_works)

lemma idle_drained:
  assumes "dispatch_ok arrived False d" and "\<not> (\<exists>d'. task_step hs d d')"
  shows "dp_handled d = arrived"
proof -
  have "dp_tasks d = 0" using assms(2) task_step.starts [of d hs] by (cases "dp_tasks d") auto
  moreover have "dp_current d = None" using assms(2) task_step.finishes [of d _ hs] by (cases "dp_current d") auto
  moreover have "\<not> dp_processing d" using assms(2) task_step.takes [of d hs] calculation(2) by blast
  ultimately show ?thesis using assms(1) by (auto simp: dispatch_ok_def)
qed

text \<open>
  C23. While the transport stays open everything that arrived gets handled: the tasks come to an end
  by themselves, and when none of them can go on, the queue has been worked off.
\<close>

theorem offline_drained:
  assumes run: "dispatch_run hs arrived False d" and steps: "(task_step hs)\<^sup>*\<^sup>* d d'"
    and idle: "\<not> (\<exists>d''. task_step hs d' d'')"
  shows "wfp (task_step hs)\<inverse>\<inverse> \<and> dp_handled d' = arrived"
proof
  have "dispatch_run hs arrived False d'" using steps by (induction rule: rtranclp_induct) (use run in \<open>auto intro: works\<close>)
  then show "dp_handled d' = arrived" using idle_drained [OF dispatch_run_ok idle] by simp
qed (rule task_steps_end)

text \<open>
  Finding: what is left in the queue when the transport closes is not taken up again when it opens;
  it waits until another stanza of that kind arrives.
\<close>

definition left_behind :: "(string \<times> node) list \<Rightarrow> 's \<Rightarrow> 's dispatcher" where
  "left_behind waiting app = (new_dispatcher app)\<lparr>dp_queue := waiting\<rparr>"

theorem reconnect_leaves_queue:
  fixes hs :: "'s node_handlers"
  defines "n \<equiv> Node ''message'' [(''offline'', AStr ''1'')] CNone"
  shows "dispatch_run hs [(''message'', n)] True (left_behind [(''message'', n)] app) \<and>
    \<not> (\<exists>d'. task_step hs (left_behind [(''message'', n)] app) d')"
proof
  have off: "is_offline_attr (attr_get (node_attrs n) ''offline'')" unfolding n_def by code_simp
  let ?d = "dispatch_incoming_node hs ''message'' n (new_dispatcher app)"
  have "dispatch_run hs [(''message'', n)] False ?d"
    using arrives [OF connected, of hs n "''message''" app] off by simp
  then have "dispatch_run hs [(''message'', n)] True (start_processing (?d\<lparr>dp_open := False\<rparr>))"
    using off by (intro works [OF closes task_step.starts]) (simp_all add: dispatch_incoming_node_def enqueue_offline_node_def new_dispatcher_def)
  then have "dispatch_run hs [(''message'', n)] True ((take_node (start_processing (?d\<lparr>dp_open := False\<rparr>)))\<lparr>dp_open := True\<rparr>)"
    by (intro opens works [OF _ task_step.takes])
      (simp_all add: off dispatch_incoming_node_def enqueue_offline_node_def start_processing_def new_dispatcher_def)
  also have "(take_node (start_processing (?d\<lparr>dp_open := False\<rparr>)))\<lparr>dp_open := True\<rparr> = left_behind [(''message'', n)] app"
    by (simp add: off dispatch_incoming_node_def enqueue_offline_node_def start_processing_def take_node_def new_dispatcher_def left_behind_def)
  finally show "dispatch_run hs [(''message'', n)] True (left_behind [(''message'', n)] app)" .
  show "\<not> (\<exists>d'. task_step hs (left_behind [(''message'', n)] app) d')"
    by (auto simp: left_behind_def new_dispatcher_def elim!: task_stepE)
qed

section \<open>At a concrete input\<close>

definition late_text :: node where
  "late_text = Node ''message'' [(''offline'', AStr ''1'')] CNone"

definition after_late_text :: "unit dispatcher" where
  "after_late_text = dispatch_incoming_node (\<lambda>_. None) ''message'' late_text (new_dispatcher ())"

lemma late_text_run: "dispatch_run (\<lambda>_. None) [(''message'', late_text)] False after_late_text"
proof -
  have "is_offline_attr (attr_get (node_attrs late_text) ''offline'')" by code_simp
  then show ?thesis using arrives [OF connected, of "\<lambda>_. None" late_text "''message''" "()"] by (simp add: after_late_text_def)
qed


definition late_text_done :: "unit dispatcher" where
  "late_text_done = take_node (finish_node (\<lambda>_. None) (take_node (start_processing after_late_text)))"

lemma late_text_offline: "is_offline_attr (attr_get (node_attrs late_text) ''offline'')"
  by code_simp

lemmas late_text_states = after_late_text_def dispatch_incoming_node_def late_text_offline enqueue_offline_node_def
  start_processing_def take_node_def finish_node_def new_dispatcher_def

lemma late_text_steps: "(task_step (\<lambda>_. None))\<^sup>*\<^sup>* after_late_text late_text_done"
proof -
  let ?h = "\<lambda>_. None" and ?a = "after_late_text"
  have "task_step ?h ?a (start_processing ?a)" by (rule task_step.starts) (simp add: late_text_states)
  moreover have "task_step ?h (start_processing ?a) (take_node (start_processing ?a))"
    by (rule task_step.takes) (simp_all add: late_text_states)
  moreover have "task_step ?h (take_node (start_processing ?a)) (finish_node ?h (take_node (start_processing ?a)))"
    by (rule task_step.finishes [where x = "(''message'', late_text)"]) (simp add: late_text_states)
  moreover have "task_step ?h (finish_node ?h (take_node (start_processing ?a))) late_text_done"
    unfolding late_text_done_def by (rule task_step.takes) (simp_all add: late_text_states run_handler_def report_node_error_def)
  ultimately show ?thesis by (meson converse_rtranclp_into_rtranclp rtranclp.rtrancl_refl)
qed

theorem offline_drained_witness:
  "wfp (task_step (\<lambda>_. None) :: unit dispatcher \<Rightarrow> _)\<inverse>\<inverse> \<and> dp_handled late_text_done = [(''message'', late_text)]"
  by (rule offline_drained [OF late_text_run late_text_steps])
    (auto simp: late_text_done_def late_text_states elim!: task_stepE)

section \<open>The buffered section\<close>

text \<open>However the handler ends, the section that was opened for it is closed again.\<close>

lemma buffered_section_closed:
  assumes "\<And>k. 0 < k \<Longrightarrow> bus_depth acts k = k"
  shows "bus_depth (fst (process_node_with_buffer (acts, x))) k = k"
  using assms by (simp add: process_node_with_buffer_def bus_depth_append)

end
