(* ===== verification/Group_Notification.thy ===== *)
theory Group_Notification
  imports Receipts Json
begin

text \<open>
  What the server reports of a group, as a message with a stub type and text parameters
  (\<^verbatim>\<open>_handle_group_notification\<close> of \<^verbatim>\<open>socket/messages_recv.py\<close>), with the metadata
  of a new group (\<^verbatim>\<open>socket/groups.py\<close>). Attributes of an incoming stanza are texts.
  Participants travel as JSON text inside the message; \<open>Message_Effects\<close> reads them back. JIDs
  are ASCII, so that \<open>ensure_ascii\<close> of \<open>json.dumps\<close> changes nothing.
\<close>

section \<open>Metadata\<close>

text \<open>A field of a \<open>pydantic\<close> model that is a text, and one that may be missing.\<close>

definition text_field :: "attr_value \<Rightarrow> pyval result" where
  "text_field v = (case v of AStr s \<Rightarrow> Inr (PStr s) | _ \<Rightarrow> Inl (ValueError ''validation''))"

definition optional_field :: "attr_value \<Rightarrow> pyval result" where
  "optional_field v = (case v of AStr s \<Rightarrow> Inr (PStr s) | ANone \<Rightarrow> Inr PNone | AInt _ \<Rightarrow> Inl (ValueError ''validation''))"

text \<open>\<open>_to_int(v, d)\<close> of \<^verbatim>\<open>socket/groups.py\<close>.\<close>

definition int_field :: "attr_value \<Rightarrow> pyval \<Rightarrow> pyval" where
  "int_field v d = (case v of AStr s \<Rightarrow> (case py_int s of Inl _ \<Rightarrow> d | Inr i \<Rightarrow> PInt i) | AInt i \<Rightarrow> PInt i | ANone \<Rightarrow> d)"

definition child_attr :: "node option \<Rightarrow> string \<Rightarrow> attr_value" where
  "child_attr child k = (case child of None \<Rightarrow> ANone | Some c \<Rightarrow> attr_get (node_attrs c) k)"

definition jid_field :: "attr_value \<Rightarrow> pyval result" where
  "jid_field v = (if attr_truthy v then bindE (jid_normalized_user (Some (attr_str v))) (\<lambda>j. Inr (PStr j)) else Inr PNone)"

text \<open>
  A participant: a number is only taken for one who is named by LID, and the other way round.
\<close>

definition attr_text_opt :: "attrs \<Rightarrow> string \<Rightarrow> string option" where
  "attr_text_opt a k = (case attr_get a k of AStr s \<Rightarrow> Some s | _ \<Rightarrow> None)"

definition participant_jid :: "attrs \<Rightarrow> string option" where
  "participant_jid a = (case attr_default a ''jid'' '''' of AStr s \<Rightarrow> Some s | _ \<Rightarrow> None)"

definition phone_number_of :: "attrs \<Rightarrow> pyval" where
  "phone_number_of a = (if is_lid_user (participant_jid a) \<and> is_pn_user (attr_text_opt a ''phone_number'') then attr_py a ''phone_number'' else PNone)"

definition lid_of :: "attrs \<Rightarrow> pyval" where
  "lid_of a = (if is_pn_user (participant_jid a) \<and> is_lid_user (attr_text_opt a ''lid'') then attr_py a ''lid'' else PNone)"

definition group_participant :: "node \<Rightarrow> pyval result" where
  "group_participant n =
     (let a = node_attrs n; admin = attr_get a ''type'' in
      bindE (text_field (attr_default a ''jid'' '''')) (\<lambda>i.
        if admin \<in> {ANone, AStr ''admin'', AStr ''superadmin''}
        then Inr (PDict (trim_undefined [(''id'', i), (''lid'', lid_of a), (''phoneNumber'', phone_number_of a), (''admin'', attr_val admin)]))
        else Inl (ValueError ''validation'')))"

definition with_group_server :: "string \<Rightarrow> string" where
  "with_group_server raw_id = (if CHR ''@'' \<in> set raw_id then raw_id else jid_encode (Some raw_id) ''g.us'' None None)"

text \<open>The fields in the order of the model, without those that are None.\<close>

definition extract_group_metadata :: "node \<Rightarrow> pydict result" where
  "extract_group_metadata result =
     (case get_binary_node_child (Some result) ''group'' of
        None \<Rightarrow> Inl (ValueError ''group metadata node missing <group> child'')
      | Some g \<Rightarrow>
          let a = node_attrs g; child = get_binary_node_child (Some g); desc = child ''description'';
              has = (\<lambda>tag. PBool (child tag \<noteq> None));
              raw_id = (if attr_truthy (attr_get a ''id'') then attr_str (attr_get a ''id'') else '''')
          in bindE (get_binary_node_child_string desc ''body'') (\<lambda>body.
             bindE (jid_field (child_attr desc ''participant'')) (\<lambda>desc_owner.
             bindE (jid_field (child_attr desc ''participant_pn'')) (\<lambda>desc_owner_pn.
             bindE (get_binary_node_child_string (Some g) ''member_add_mode'') (\<lambda>add_mode.
             bindE (mapE group_participant (get_binary_node_children (Some g) ''participant'')) (\<lambda>participants.
             bindE (mapE (\<lambda>k. optional_field (attr_get a k)) [''notify'', ''creator_country_code'', ''s_o'', ''s_o_pn'']) (\<lambda>texts.
             bindE (optional_field (child_attr desc ''id'')) (\<lambda>desc_id.
             bindE (optional_field (child_attr (child ''linked_parent'') ''jid'')) (\<lambda>linked_parent.
             bindE (text_field (attr_default a ''subject'' '''')) (\<lambda>subject.
             bindE (jid_field (attr_get a ''creator'')) (\<lambda>owner.
             bindE (jid_field (attr_get a ''creator_pn'')) (\<lambda>owner_pn.
               Inr (trim_undefined
                 [(''id'', PStr (with_group_server raw_id)), (''notify'', texts ! 0),
                  (''addressingMode'', PStr (if attr_get a ''addressing_mode'' = AStr ''lid'' then ''lid'' else ''pn'')),
                  (''owner'', owner), (''ownerPn'', owner_pn), (''owner_country_code'', texts ! 1), (''subject'', subject),
                  (''subjectOwner'', texts ! 2), (''subjectOwnerPn'', texts ! 3), (''subjectTime'', int_field (attr_get a ''s_t'') PNone),
                  (''creation'', int_field (attr_get a ''creation'') PNone),
                  (''desc'', case body of None \<Rightarrow> PNone | Some s \<Rightarrow> PStr s), (''descOwner'', desc_owner), (''descOwnerPn'', desc_owner_pn),
                  (''descId'', desc_id), (''descTime'', int_field (child_attr desc ''t'') PNone), (''linkedParent'', linked_parent),
                  (''restrict'', has ''locked''), (''announce'', has ''announcement''), (''memberAddMode'', PBool (add_mode = Some ''all_member_add'')),
                  (''joinApprovalMode'', has ''membership_approval_mode''), (''isCommunity'', has ''parent''),
                  (''isCommunityAnnounce'', has ''default_sub_group''),
                  (''size'', int_field (attr_get a ''size'') (PInt (int (length participants)))), (''participants'', PList participants),
                  (''ephemeralDuration'', int_field (child_attr (child ''ephemeral'') ''expiration'') PNone)])))))))))))))"

text \<open>\<open>_extract_group_metadata\<close>: what can be read when the stanza is not as expected.\<close>

definition group_metadata_or_basic :: "node \<Rightarrow> pydict result" where
  "group_metadata_or_basic n =
     (case extract_group_metadata n of
        Inr m \<Rightarrow> Inr m
      | Inl _ \<Rightarrow>
          (case get_binary_node_child (Some n) ''group'' of
             None \<Rightarrow> Inr []
           | Some g \<Rightarrow>
               let a = node_attrs g; group_id = attr_str (attr_default a ''id'' '''')
               in bindE (jid_field (attr_get a ''creator'')) (\<lambda>owner.
                  bindE (jid_field (attr_get a ''creator_pn'')) (\<lambda>owner_pn.
                    Inr [(''id'', PStr (if group_id \<noteq> '''' \<and> CHR ''@'' \<notin> set group_id then group_id @ ''@g.us'' else group_id)),
                         (''subject'', attr_val (attr_default a ''subject'' '''')), (''owner'', owner), (''ownerPn'', owner_pn),
                         (''creation'', PInt (to_int_or (attr_get a ''creation'') 0))]))))"

section \<open>The notification\<close>

text \<open>\<open>decode("utf-8", errors="ignore")\<close>: bytes that are not part of a well-formed sequence are left out.\<close>

function utf8_ignore :: "bytes \<Rightarrow> bytes" where
  "utf8_ignore [] = []"
| "utf8_ignore (b # bs) =
     (if utf8_valid [b] then b # utf8_ignore bs
      else if utf8_valid (b # take 1 bs) then b # take 1 bs @ utf8_ignore (drop 1 bs)
      else if utf8_valid (b # take 2 bs) then b # take 2 bs @ utf8_ignore (drop 2 bs)
      else if utf8_valid (b # take 3 bs) then b # take 3 bs @ utf8_ignore (drop 3 bs)
      else utf8_ignore bs)"
  by pat_completeness auto
termination by (relation "measure length") auto

definition decode_text :: "content \<Rightarrow> string option" where
  "decode_text c = (case c of CBytes b \<Rightarrow> Some (map char_of_byte (utf8_ignore b)) | CStr s \<Rightarrow> Some s | _ \<Rightarrow> None)"

definition changed_participant :: "node \<Rightarrow> pydict" where
  "changed_participant n = (let a = node_attrs n in
     [(''id'', attr_val (attr_default a ''jid'' '''')), (''phoneNumber'', phone_number_of a), (''lid'', lid_of a),
      (''admin'', attr_py a ''type'')])"

definition stub :: "stub_type \<Rightarrow> pyval list \<Rightarrow> pydict" where
  "stub t params = [(''messageStubType'', PInt (stub_code t)), (''messageStubParameters'', PList params)]"

definition participant_stub :: "string \<Rightarrow> stub_type option" where
  "participant_stub tag = map_of [(''promote'', GROUP_PARTICIPANT_PROMOTE), (''demote'', GROUP_PARTICIPANT_DEMOTE),
     (''remove'', GROUP_PARTICIPANT_REMOVE), (''add'', GROUP_PARTICIPANT_ADD), (''leave'', GROUP_PARTICIPANT_LEAVE)] tag"

text \<open>One who removes only oneself has left.\<close>

definition leaves_alone :: "string \<Rightarrow> node list \<Rightarrow> string option \<Rightarrow> string option \<Rightarrow> bool result" where
  "leaves_alone tag items acting_lid acting_pn =
     (case items of
        [item] \<Rightarrow>
          if tag = ''remove'' then
            bindE (are_jids_same_user (participant_jid (node_attrs item)) acting_lid) (\<lambda>b.
              if b then Inr True else are_jids_same_user (participant_jid (node_attrs item)) acting_pn)
          else Inr False
      | _ \<Rightarrow> Inr False)"

definition participants_change :: "string \<Rightarrow> stub_type \<Rightarrow> node list \<Rightarrow> string option \<Rightarrow> string option \<Rightarrow> pydict result" where
  "participants_change tag t items acting_lid acting_pn =
     bindE (leaves_alone tag items acting_lid acting_pn) (\<lambda>left.
     bindE (mapE (\<lambda>item. json_dumps '' '' (PDict (changed_participant item))) items) (\<lambda>texts.
       Inr (stub (if left then GROUP_PARTICIPANT_LEAVE else t) (map PStr texts))))"

definition GROUP_CREATE :: stub_type where "GROUP_CREATE = Stub 20 ''GROUP_CREATE''"

text \<open>The request of one to join, as JSON text.\<close>

definition join_request :: "attr_value \<Rightarrow> attr_value \<Rightarrow> string result" where
  "join_request lid pn = json_dumps '' '' (PDict [(''lid'', attr_val lid), (''pn'', attr_val pn)])"

text \<open>The message for every kind but the creation of a group; an empty one is not announced.\<close>

definition group_change :: "node \<Rightarrow> node \<Rightarrow> pydict result" where
  "group_change full_node child =
     (let a = node_attrs full_node; c = node_attrs child; tag = node_tag child;
          acting_lid = attr_get a ''participant''; acting_pn = attr_get a ''participant_pn'';
          affected = get_binary_node_child (Some child) ''participant'';
          affected_lid = (case affected of None \<Rightarrow> acting_lid | Some p \<Rightarrow> attr_get (node_attrs p) ''jid'');
          affected_pn = (case affected of None \<Rightarrow> acting_pn | Some p \<Rightarrow> attr_get (node_attrs p) ''phone_number'');
          items = get_binary_node_children (Some child) ''participant'';
          switch = (\<lambda>on. [PStr (if tag = on then ''on'' else ''off'')])
      in if tag = ''ephemeral'' \<or> tag = ''not_ephemeral''
         then Inr [(''message'', PDict [(''protocolMessage'', PDict [(''type'', PStr ''EPHEMERAL_SETTING''),
                     (''ephemeralExpiration'', PInt (to_int_or (attr_get c ''expiration'') 0))])])]
         else if tag = ''modify''
         then Inr (stub GROUP_PARTICIPANT_CHANGE_NUMBER (map (\<lambda>p. attr_val (attr_default (node_attrs p) ''jid'' '''')) items))
         else case participant_stub tag of
           Some t \<Rightarrow> participants_change tag t items (attr_text_opt a ''participant'') (attr_text_opt a ''participant_pn'')
         | None \<Rightarrow>
           if tag = ''subject'' then Inr (stub GROUP_CHANGE_SUBJECT [attr_val (attr_default c ''subject'' '''')])
           else if tag = ''description'' then
             (case get_binary_node_child (Some child) ''body'' of
                None \<Rightarrow> Inr [(''messageStubType'', PInt (stub_code GROUP_CHANGE_DESCRIPTION))]
              | Some body \<Rightarrow>
                  (case decode_text (node_content body) of
                     Some (x # xs) \<Rightarrow> Inr (stub GROUP_CHANGE_DESCRIPTION [PStr (x # xs)])
                   | _ \<Rightarrow> Inr [(''messageStubType'', PInt (stub_code GROUP_CHANGE_DESCRIPTION))]))
           else if tag = ''announcement'' \<or> tag = ''not_announcement'' then Inr (stub GROUP_CHANGE_ANNOUNCE (switch ''announcement''))
           else if tag = ''locked'' \<or> tag = ''unlocked'' then Inr (stub GROUP_CHANGE_RESTRICT (switch ''locked''))
           else if tag = ''invite'' then Inr (stub GROUP_CHANGE_INVITE_LINK [attr_val (attr_default c ''code'' '''')])
           else if tag = ''member_add_mode'' then
             (case decode_text (node_content child) of None \<Rightarrow> Inr [] | Some s \<Rightarrow> Inr (stub GROUP_MEMBER_ADD_MODE [PStr s]))
           else if tag = ''membership_approval_mode'' then
             (case get_binary_node_child (Some child) ''group_join'' of None \<Rightarrow> Inr []
              | Some j \<Rightarrow> Inr (stub GROUP_MEMBERSHIP_JOIN_APPROVAL_MODE [attr_val (attr_default (node_attrs j) ''state'' '''')]))
           else if tag = ''created_membership_requests'' then
             bindE (join_request affected_lid affected_pn) (\<lambda>s.
               Inr (stub GROUP_MEMBERSHIP_JOIN_APPROVAL_REQUEST_NON_ADMIN_ADD
                      [PStr s, PStr ''created'', attr_val (attr_default c ''request_method'' '''')]))
           else if tag = ''revoked_membership_requests'' then
             bindE (are_jids_same_user (as_str (attr_val affected_lid)) (as_str (attr_val acting_lid))) (\<lambda>is_denied.
             bindE (join_request affected_lid affected_pn) (\<lambda>s.
               Inr (stub GROUP_MEMBERSHIP_JOIN_APPROVAL_REQUEST_NON_ADMIN_ADD [PStr s, PStr (if is_denied then ''revoked'' else ''rejected'')])))
           else Inr [])"

definition handle_group_notification ::
    "node \<Rightarrow> node \<Rightarrow> ('l, 's) recv_state \<Rightarrow> pydict result \<times> ('l, 's) recv_state" where
  "handle_group_notification full_node child st =
     (if node_tag child = ''create'' then
        (case group_metadata_or_basic child of
           Inl e \<Rightarrow> (Inl e, st)
         | Inr metadata \<Rightarrow>
             let subject = py_or (py_get ''subject'' metadata) (PStr ''''); a = node_attrs full_node
             in (Inr (stub GROUP_CREATE [subject] @ [(''key'', PDict [(''participant'', py_get ''owner'' metadata), (''participantAlt'', py_get ''ownerPn'' metadata)])]),
                 emit_event ''groups.upsert''
                   (PList [PDict (dict_update metadata [(''author'', attr_py a ''participant''), (''authorPn'', attr_py a ''participant_pn'')])])
                   (emit_event ''chats.upsert''
                      (PList [PDict [(''id'', py_get ''id'' metadata), (''name'', subject), (''conversationTimestamp'', py_get ''creation'' metadata)]]) st)))
      else (group_change full_node child, st))"

lemma handle_group_notification_sent [simp]: "sent (snd (handle_group_notification full_node child st)) = sent st"
  by (simp add: handle_group_notification_def Let_def split: sum.split)

text \<open>The message is filed under the group, with the participant who acted.\<close>

definition notification_message :: "('l, 's) recv_env \<Rightarrow> node \<Rightarrow> pydict \<Rightarrow> pydict result" where
  "notification_message env n msg =
     (let a = node_attrs n; participant = attr_py a ''participant'' in
      bindE (are_jids_same_user (as_str (py_or participant (attr_py a ''from''))) (Some (me_id_of env))) (\<lambda>from_me.
        let key = [(''remoteJid'', attr_py a ''from''), (''fromMe'', PBool from_me), (''participant'', participant), (''id'', attr_py a ''id'')];
            msg = dict_set ''key'' (PDict (dict_update key (dict_or_empty (py_get ''key'' msg)))) msg;
            msg = (if truthy (py_get ''participant'' msg) then msg else dict_set ''participant'' participant msg)
        in Inr (dict_set ''messageTimestamp'' (PInt (to_int_or (attr_get a ''t'') (re_now env))) msg)))"

definition upsert_notification_message ::
    "('l, 's) recv_env \<Rightarrow> node \<Rightarrow> pydict \<Rightarrow> ('l, 's) recv_state \<Rightarrow> ('l, 's) recv_state outcome" where
  "upsert_notification_message env n msg st =
     (if \<not> attr_truthy (attr_get (node_attrs n) ''from'') then (None, st)
      else case notification_message env n msg of
        Inl e \<Rightarrow> (Some e, st)
      | Inr msg \<Rightarrow> upsert_message env msg ''append'' st)"

lemma upsert_notification_sent [simp]: "sent (snd (upsert_notification_message env n msg st)) = sent st"
  by (simp add: upsert_notification_message_def split: sum.split)

end
