(* ===== verification/Identity_Change.thy ===== *)
theory Identity_Change
  imports Device_Fanout
begin

text \<open>
  A contact's new identity key (\<^verbatim>\<open>utils/identity_change_handler.py\<close>): the session with the
  contact's primary device is made anew, at most once in five seconds. The clock is in
  milliseconds.
\<close>

section \<open>A set of names that expire\<close>

type_synonym ttl_bools = "string \<Rightarrow> int option"

definition ttl_bool_get :: "int \<Rightarrow> string \<Rightarrow> ttl_bools \<Rightarrow> bool \<times> ttl_bools" where
  "ttl_bool_get now key data = (case data key of
       None \<Rightarrow> (False, data)
     | Some e \<Rightarrow> if e \<le> now then (False, data(key := None)) else (True, data))"

definition ttl_bool_set :: "int \<Rightarrow> int \<Rightarrow> string \<Rightarrow> bool \<Rightarrow> ttl_bools \<Rightarrow> ttl_bools" where
  "ttl_bool_set ttl_ms now key v data = data(key := if v then Some (now + ttl_ms) else None)"

definition debounce_ms :: int where
  "debounce_ms = 5000"

section \<open>A notification\<close>

datatype identity_action = No_Identity_Node | Invalid_Notification | Skipped_Companion_Device int | Skipped_Self_Primary
  | Debounced | Skipped_Offline | Skipped_No_Session | Session_Refreshed | Session_Refresh_Failed exn

definition attr_string :: "attrs \<Rightarrow> string \<Rightarrow> string option" where
  "attr_string a k = (case attr_get a k of AStr s \<Rightarrow> if s = '''' then None else Some s | _ \<Rightarrow> None)"

definition is_self_primary :: "string \<Rightarrow> string option \<Rightarrow> string \<Rightarrow> bool result" where
  "is_self_primary me_id me_lid from_jid =
     (if me_id = '''' then Inr False
      else bindE (are_jids_same_user (Some from_jid) (Some me_id)) (\<lambda>b.
        if b then Inr True
        else if me_lid = None \<or> me_lid = Some '''' then Inr False
        else are_jids_same_user (Some from_jid) me_lid))"

definition device_or_0 :: "full_jid option \<Rightarrow> int" where
  "device_or_0 decoded = (case decoded of None \<Rightarrow> 0 | Some d \<Rightarrow> (case jid_device d of None \<Rightarrow> 0 | Some k \<Rightarrow> k))"

text \<open>The session is asked for, and made anew when there is one and the notification is a live one.\<close>

definition refresh_session ::
    "('l, 's) send_env \<Rightarrow> string \<Rightarrow> bool \<Rightarrow> ('l, 's) send_state \<Rightarrow> identity_action \<times> ('l, 's) send_state" where
  "refresh_session env from_jid offline st =
     (let (has_session, storage) = validate_session (sv_session env) from_jid (sd_storage st); st = st\<lparr>sd_storage := storage\<rparr>
      in if \<not> has_session then (Skipped_No_Session, st)
         else if offline then (Skipped_Offline, st)
         else case assert_sessions env [from_jid] True st of
           (Inl e, st) \<Rightarrow> (Session_Refresh_Failed e, st)
         | (Inr _, st) \<Rightarrow> (Session_Refreshed, st))"

text \<open>Whether a change is to be acted on: by a primary device of another account, not lately seen.\<close>

definition handle_identity_change ::
    "('l, 's) send_env \<Rightarrow> int \<Rightarrow> node \<Rightarrow> ttl_bools \<times> ('l, 's) send_state \<Rightarrow>
     identity_action result \<times> ttl_bools \<times> ('l, 's) send_state" where
  "handle_identity_change env now n = (\<lambda>(cache, st).
     (case attr_string (node_attrs n) ''from'' of
        None \<Rightarrow> (Inr Invalid_Notification, cache, st)
      | Some from_jid \<Rightarrow>
          if get_binary_node_child (Some n) ''identity'' = None then (Inr No_Identity_Node, cache, st)
          else
            (case jid_decode (Some from_jid) of
               Inl e \<Rightarrow> (Inl e, cache, st)
             | Inr decoded \<Rightarrow>
                 if device_or_0 decoded \<noteq> 0 then (Inr (Skipped_Companion_Device (device_or_0 decoded)), cache, st)
                 else
                   (case is_self_primary (sv_me_id env) (sv_me_lid env) from_jid of
                      Inl e \<Rightarrow> (Inl e, cache, st)
                    | Inr mine \<Rightarrow>
                        if mine then (Inr Skipped_Self_Primary, cache, st)
                        else
                          let (debounced, cache) = ttl_bool_get now from_jid cache
                          in if debounced then (Inr Debounced, cache, st)
                             else let (a, st) = refresh_session env from_jid (attr_string (node_attrs n) ''offline'' \<noteq> None) st
                                  in (Inr a, ttl_bool_set debounce_ms now from_jid True cache, st)))))"

section \<open>How often\<close>

definition asserted :: "identity_action result \<Rightarrow> bool" where
  "asserted r \<longleftrightarrow> r = Inr Session_Refreshed \<or> (\<exists>e. r = Inr (Session_Refresh_Failed e))"

text \<open>A run of notifications with the time of each: what each one gave.\<close>

fun identity_run ::
    "('l, 's) send_env \<Rightarrow> (int \<times> node) list \<Rightarrow> ttl_bools \<times> ('l, 's) send_state \<Rightarrow> identity_action result list" where
  "identity_run env [] s = []"
| "identity_run env ((now, n) # l) s =
     (let (r, s) = handle_identity_change env now n s in r # identity_run env l s)"

definition named :: "node \<Rightarrow> string option" where
  "named n = attr_string (node_attrs n) ''from''"

lemma handle_identity_change_cache:
  assumes "handle_identity_change env now n (cache, st) = (r, cache', st')"
  shows "asserted r \<Longrightarrow> \<exists>j. named n = Some j \<and> cache' j = Some (now + debounce_ms) \<and> (\<forall>e. cache j = Some e \<longrightarrow> e \<le> now)"
    and "cache j = Some e \<Longrightarrow> now < e \<Longrightarrow> \<exists>e'. cache' j = Some e' \<and> e \<le> e'"
proof -
  show "\<exists>j. named n = Some j \<and> cache' j = Some (now + debounce_ms) \<and> (\<forall>e. cache j = Some e \<longrightarrow> e \<le> now)" if "asserted r"
    using assms that
    by (auto simp: handle_identity_change_def Let_def named_def asserted_def ttl_bool_get_def ttl_bool_set_def
        split: option.splits sum.splits if_splits prod.splits bool.splits)
  show "\<exists>e'. cache' j = Some e' \<and> e \<le> e'" if "cache j = Some e" "now < e"
    using assms that
    by (auto simp: handle_identity_change_def Let_def ttl_bool_get_def ttl_bool_set_def
        split: option.splits sum.splits if_splits prod.splits bool.splits)
qed

lemma identity_run_length [simp]: "length (identity_run env l s) = length l"
  by (induction l arbitrary: s) (auto simp: Let_def split: prod.split)

lemma no_assertion_while_kept:
  assumes "sorted (map fst l)" and "cache j = Some e" and "i < length l" and "fst (l ! i) < e" and "named (snd (l ! i)) = Some j"
  shows "\<not> asserted (identity_run env l (cache, st) ! i)"
  using assms
proof (induction l arbitrary: cache st i e)
  case (Cons x l)
  obtain now n where x: "x = (now, n)" by fastforce
  obtain r cache' st' where h: "handle_identity_change env now n (cache, st) = (r, cache', st')" by (cases "handle_identity_change env now n (cache, st)") auto
  show ?case
  proof (cases i)
    case 0
    then have "now < e" "named n = Some j" using Cons.prems x by simp_all
    then have "\<not> asserted r" using handle_identity_change_cache(1) [OF h] Cons.prems(2) by fastforce
    then show ?thesis using 0 by (simp add: x h)
  next
    case (Suc k)
    then have "now \<le> fst (l ! k)" using Cons.prems(1,3) x by simp
    then have "now < e" using Cons.prems(4) Suc by simp
    then obtain e' where "cache' j = Some e'" "e \<le> e'" using handle_identity_change_cache(2) [OF h Cons.prems(2)] by blast
    then show ?thesis using Cons.IH [of cache' e' k st'] Cons.prems Suc by (simp add: x h)
  qed
qed simp

text \<open>
  The session with a contact is made anew at most once in five seconds, whatever notifications
  arrive and whatever becomes of the attempts.
\<close>

theorem identity_refresh_limited:
  assumes "sorted (map fst l)" and "i < k" and "k < length l"
    and "asserted (identity_run env l (cache, st) ! i)" and "asserted (identity_run env l (cache, st) ! k)"
    and "named (snd (l ! i)) = named (snd (l ! k))"
  shows "fst (l ! i) + 5000 \<le> fst (l ! k)"
  using assms
proof (induction l arbitrary: cache st i k)
  case (Cons x l)
  obtain now n where x: "x = (now, n)" by fastforce
  obtain r cache' st' where h: "handle_identity_change env now n (cache, st) = (r, cache', st')" by (cases "handle_identity_change env now n (cache, st)") auto
  obtain k' where k: "k = Suc k'" using Cons.prems(2) by (cases k) auto
  show ?case
  proof (cases i)
    case 0
    then obtain j where j: "named n = Some j" "cache' j = Some (now + debounce_ms)"
      using handle_identity_change_cache(1) [OF h] Cons.prems(4) by (auto simp: x h)
    have "\<not> fst (l ! k') < now + debounce_ms"
      using no_assertion_while_kept [of l cache' j "now + debounce_ms" k' env st'] Cons.prems j 0 k by (auto simp: x h)
    then show ?thesis using 0 k by (simp add: x debounce_ms_def)
  next
    case (Suc i')
    then show ?thesis using Cons.IH [of i' k' cache' st'] Cons.prems k by (simp add: x h)
  qed
qed simp

text \<open>
  Finding: the name is remembered before it is known whether anything will be done. A notification of
  the time offline, which refreshes nothing, or one without a session suppresses the live one after it.
\<close>

lemma skipped_offline_guards:
  assumes "handle_identity_change env now n (cache, st) = (Inr Skipped_Offline, cache', st')"
  shows "\<exists>j d. named n = Some j \<and> jid_decode (Some j) = Inr d \<and>
    device_or_0 d = 0 \<and>
    is_self_primary (sv_me_id env) (sv_me_lid env) j = Inr False \<and> cache' j = Some (now + debounce_ms)"
  using assms
  by (auto simp: handle_identity_change_def Let_def named_def ttl_bool_get_def ttl_bool_set_def
      split: option.split_asm sum.split_asm if_split_asm prod.split_asm bool.split_asm)

theorem skipped_change_debounces:
  assumes "handle_identity_change env now n (cache, st) = (Inr Skipped_Offline, cache', st')"
    and "now' < now + 5000" and "named n' = named n" and "get_binary_node_child (Some n') ''identity'' \<noteq> None"
  shows "fst (handle_identity_change env now' n' (cache', st')) = Inr Debounced"
proof -
  obtain j d where "named n = Some j" "jid_decode (Some j) = Inr d" "cache' j = Some (now + debounce_ms)"
      "device_or_0 d = 0"
      "is_self_primary (sv_me_id env) (sv_me_lid env) j = Inr False"
    using skipped_offline_guards [OF assms(1)] by blast
  then show ?thesis
    using assms(2-4) by (simp add: handle_identity_change_def named_def ttl_bool_get_def debounce_ms_def Let_def)
qed


section \<open>At a concrete input\<close>

definition new_key :: node where
  "new_key = Node ''notification'' [(''from'', AStr ''22@lid'')] (CList [Node ''identity'' [] CNone])"

definition offline_env :: "(string store, bytes store) send_env" where
  "offline_env = sample_env\<lparr>sv_query := (\<lambda>_. Inl OverflowErr)\<rparr>"

definition in_session :: "(string store, bytes store) send_state" where
  "in_session = sample_state\<lparr>sd_storage := (sample_storage [])\<lparr>sg_keys := (\<lambda>t k. if t = ''session'' \<and> k = ''22_1.0'' then Some [1] else None)\<rparr>\<rparr>"

definition two_changes :: "(int \<times> node) list" where
  "two_changes = [(0, new_key), (6000, new_key)]"

theorem identity_refresh_limited_witness:
  "fst (two_changes ! 0) + 5000 \<le> fst (two_changes ! 1)"
proof (rule identity_refresh_limited)
  have "identity_run offline_env two_changes (Map.empty, in_session) = replicate 2 (Inr (Session_Refresh_Failed OverflowErr))"
    by code_simp
  then show "asserted (identity_run offline_env two_changes (Map.empty, in_session) ! 0)"
    and "asserted (identity_run offline_env two_changes (Map.empty, in_session) ! 1)"
    by (simp_all add: asserted_def)
qed (simp_all add: two_changes_def)

end
