(* ===== verification/Pairing.thy ===== *)
theory Pairing
  imports Pairwise_Session Message_Effects Pre_Keys Generics
begin

text \<open>
  How a client becomes a companion of a phone: by an eight character code typed into the phone
  (\<open>request_pairing_code\<close> of \<^verbatim>\<open>socket/socket.py\<close> and the registration in
  \<^verbatim>\<open>socket/messages_recv.py\<close>), and the check of what the server then says of the
  account (\<^verbatim>\<open>utils/validate_connection.py\<close>). The phone's side of the code is written down
  as a specification. Cipher, curve, key derivation from the code, and how credentials are
  dumped are arguments.
\<close>

section \<open>Keys\<close>

record pairing_creds =
  pg_code :: "string option"
  pg_me_id :: string
  pg_ephemeral :: key_pair
  pg_identity :: key_pair
  pg_noise_public :: bytes
  pg_adv_secret :: string
  pg_registered :: bool

record pairing_env =
  pe_pbkdf2 :: "bytes \<Rightarrow> bytes \<Rightarrow> bytes"
  pe_ctr_encrypt :: "bytes \<Rightarrow> bytes \<Rightarrow> bytes \<Rightarrow> bytes"
  pe_ctr_decrypt :: "bytes \<Rightarrow> bytes \<Rightarrow> bytes \<Rightarrow> bytes result"
  pe_scalarmult :: "bytes \<Rightarrow> bytes \<Rightarrow> bytes result"
  pe_hmac :: "bytes \<Rightarrow> bytes \<Rightarrow> bytes"
  pe_seal :: "bytes \<Rightarrow> bytes \<Rightarrow> bytes \<Rightarrow> bytes \<Rightarrow> bytes \<times> bytes"
  pe_query :: "node \<Rightarrow> unit result"
  pe_tag :: string
  pe_dump :: "pairing_creds \<Rightarrow> pyval"

text \<open>The random bytes of one call.\<close>

record pairing_draws =
  pr_salt :: bytes
  pr_iv :: bytes
  pr_secret :: bytes

record pairing_state =
  pt_creds :: pairing_creds
  pt_events :: "(string \<times> pyval) list"
  pt_sent :: "node list"

definition derive_pairing_code_key :: "(bytes \<Rightarrow> bytes \<Rightarrow> bytes) \<Rightarrow> string \<Rightarrow> bytes \<Rightarrow> bytes" where
  "derive_pairing_code_key pbkdf2 pairing_code salt = pbkdf2 (utf8_encode pairing_code) salt"

definition code_of :: "pairing_creds \<Rightarrow> string option" where
  "code_of creds = (case pg_code creds of Some c \<Rightarrow> if c = '''' then None else Some c | None \<Rightarrow> None)"

section \<open>Asking for a code\<close>

definition generate_pairing_key :: "pairing_env \<Rightarrow> pairing_draws \<Rightarrow> pairing_creds \<Rightarrow> bytes result" where
  "generate_pairing_key env d creds = (case code_of creds of
       None \<Rightarrow> Inl (RuntimeError ''pairing code is not set'')
     | Some code \<Rightarrow> Inr (pr_salt d @ pr_iv d @
         pe_ctr_encrypt env (derive_pairing_code_key (pe_pbkdf2 env) code (pr_salt d)) (pr_iv d) (kp_public (pg_ephemeral creds))))"

definition get_platform_id :: "string \<Rightarrow> string" where
  "get_platform_id browser =
     (let upper = map (\<lambda>c. if (97::nat) \<le> of_char c \<and> of_char c \<le> (122::nat) then char_of (of_char c - (32::nat)) else c) browser
      in case map_of [(''CHROME'', ''1''), (''FIREFOX'', ''2''), (''SAFARI'', ''3''), (''EDGE'', ''4'')] upper of None \<Rightarrow> ''1'' | Some i \<Rightarrow> i)"

definition md_iq :: "string \<Rightarrow> node list \<Rightarrow> node" where
  "md_iq tag content = Node ''iq'' [(''to'', AStr S_WHATSAPP_NET), (''type'', AStr ''set''), (''id'', AStr tag), (''xmlns'', AStr ''md'')] (CList content)"

definition companion_hello :: "string \<Rightarrow> string \<Rightarrow> string \<times> string \<Rightarrow> bytes \<Rightarrow> bytes \<Rightarrow> node" where
  "companion_hello tag me_id browser noise_public wrapped =
     md_iq tag [Node ''link_code_companion_reg''
       [(''jid'', AStr me_id), (''stage'', AStr ''companion_hello''), (''should_show_push_notification'', AStr ''true'')]
       (CList [Node ''link_code_pairing_wrapped_companion_ephemeral_pub'' [] (CBytes wrapped),
               Node ''companion_server_auth_key_pub'' [] (CBytes noise_public),
               Node ''companion_platform_id'' [] (CStr (get_platform_id (snd browser))),
               Node ''companion_platform_display'' [] (CStr (snd browser @ '' ('' @ fst browser @ '')'')),
               Node ''link_code_pairing_nonce'' [] (CStr ''0'')])]"

definition request_pairing_code ::
    "pairing_env \<Rightarrow> string \<times> string \<Rightarrow> bytes \<Rightarrow> pairing_draws \<Rightarrow> string \<Rightarrow> string option \<Rightarrow> pairing_state \<Rightarrow> string result \<times> pairing_state" where
  "request_pairing_code env browser code_bytes d phone_number custom_pairing_code st =
     (let pairing_code = (case custom_pairing_code of Some (x # xs) \<Rightarrow> x # xs | _ \<Rightarrow> bytes_to_crockford code_bytes) in
      if custom_pairing_code \<noteq> None \<and> length (the custom_pairing_code) \<noteq> 8
      then (Inl (ValueError ''Custom pairing code must be exactly 8 chars''), st)
      else
        let me_id = jid_encode (Some phone_number) ''s.whatsapp.net'' None None;
            creds = (pt_creds st)\<lparr>pg_code := Some pairing_code, pg_me_id := me_id\<rparr>;
            st = st\<lparr>pt_creds := creds,
              pt_events := pt_events st @ [(''creds.update'', PDict [(''pairingCode'', PStr pairing_code),
                 (''me'', PDict [(''id'', PStr me_id), (''name'', PStr ''~'')])])]\<rparr>
        in case generate_pairing_key env d creds of
             Inl e \<Rightarrow> (Inl e, st)
           | Inr wrapped \<Rightarrow> (Inr pairing_code, st\<lparr>pt_sent := pt_sent st @ [companion_hello (pe_tag env) me_id browser (pg_noise_public creds) wrapped]\<rparr>))"

section \<open>The phone's answer\<close>

definition required_bytes :: "bytes option \<Rightarrow> bytes result" where
  "required_bytes data = (case data of None \<Rightarrow> Inl (RuntimeError ''Invalid buffer'') | Some b \<Rightarrow> Inr b)"

definition decipher_link_public_key :: "pairing_env \<Rightarrow> pairing_creds \<Rightarrow> bytes \<Rightarrow> bytes result" where
  "decipher_link_public_key env creds buffer = (case code_of creds of
       None \<Rightarrow> Inl (RuntimeError ''Missing pairing code'')
     | Some code \<Rightarrow> pe_ctr_decrypt env (derive_pairing_code_key (pe_pbkdf2 env) code (take 32 buffer))
                      (take 16 (drop 32 buffer)) (take 32 (drop 48 buffer)))"

definition bundle_info :: bytes where
  "bundle_info = utf8_encode ''link_code_pairing_key_bundle_encryption_key''"

definition adv_info :: bytes where
  "adv_info = utf8_encode ''adv_secret''"

text \<open>The key bundle for the phone, and the secret that both derive.\<close>

definition key_exchange :: "pairing_env \<Rightarrow> pairing_draws \<Rightarrow> pairing_creds \<Rightarrow> bytes \<Rightarrow> bytes \<Rightarrow> (bytes \<times> string) result" where
  "key_exchange env d creds primary_identity wrapped_primary_ephemeral =
     bindE (decipher_link_public_key env creds wrapped_primary_ephemeral) (\<lambda>pairing_public.
     bindE (pe_scalarmult env (kp_private (pg_ephemeral creds)) pairing_public) (\<lambda>companion_shared.
     bindE (hkdf (pe_hmac env) 32 companion_shared 32 (pr_salt d) bundle_info) (\<lambda>pairing_expanded.
     let payload = kp_public (pg_identity creds) @ primary_identity @ pr_secret d;
         encrypted = pr_salt d @ pr_iv d @ aes_encrypt_gcm (pe_seal env) payload pairing_expanded (pr_iv d) []
     in bindE (pe_scalarmult env (kp_private (pg_identity creds)) primary_identity) (\<lambda>identity_shared.
        bindE (hkdf (pe_hmac env) 32 (companion_shared @ identity_shared @ pr_secret d) 32 [] adv_info) (\<lambda>adv.
          Inr (encrypted, b64encode adv))))))"

definition companion_finish :: "string \<Rightarrow> string \<Rightarrow> bytes \<Rightarrow> bytes \<Rightarrow> bytes \<Rightarrow> node" where
  "companion_finish tag me_id encrypted identity_public ref =
     md_iq tag [Node ''link_code_companion_reg'' [(''jid'', AStr me_id), (''stage'', AStr ''companion_finish'')]
       (CList [Node ''link_code_pairing_wrapped_key_bundle'' [] (CBytes encrypted),
               Node ''companion_identity_public'' [] (CBytes identity_public),
               Node ''link_code_pairing_ref'' [] (CBytes ref)])]"

text \<open>The parts of the notification, in the order in which they are demanded.\<close>

definition link_parts :: "node \<Rightarrow> (bytes \<times> bytes \<times> bytes) result" where
  "link_parts link_node =
     bindE (required_bytes (get_binary_node_child_buffer (Some link_node) ''link_code_pairing_ref'')) (\<lambda>ref.
     bindE (required_bytes (get_binary_node_child_buffer (Some link_node) ''primary_identity_pub'')) (\<lambda>identity.
     bindE (required_bytes (get_binary_node_child_buffer (Some link_node) ''link_code_pairing_wrapped_primary_ephemeral_pub'')) (\<lambda>wrapped.
       Inr (ref, identity, wrapped))))"

definition handle_link_code_companion_registration ::
    "pairing_env \<Rightarrow> pairing_draws \<Rightarrow> node \<Rightarrow> pairing_state \<Rightarrow> pairing_state outcome" where
  "handle_link_code_companion_registration env d n st =
     (case get_binary_node_child (Some n) ''link_code_companion_reg'' of
        None \<Rightarrow> (None, st)
      | Some link_node \<Rightarrow>
          let creds = pt_creds st in
          if pg_me_id creds = '''' then (None, st)
          else
            (case bindE (link_parts link_node) (\<lambda>(ref, identity, wrapped).
                bindE (key_exchange env d creds identity wrapped) (\<lambda>(encrypted, adv). Inr (ref, encrypted, adv))) of
               Inl e \<Rightarrow> (Some e, st)
             | Inr (ref, encrypted, adv) \<Rightarrow>
                 let creds = creds\<lparr>pg_adv_secret := adv\<rparr>;
                     iq = companion_finish (pe_tag env) (pg_me_id creds) encrypted (kp_public (pg_identity creds)) ref;
                     st = st\<lparr>pt_creds := creds, pt_sent := pt_sent st @ [iq]\<rparr>
                 in (case pe_query env iq of
                       Inl e \<Rightarrow> (Some e, st)
                     | Inr _ \<Rightarrow>
                         let creds = creds\<lparr>pg_registered := True\<rparr>
                         in (None, st\<lparr>pt_creds := creds, pt_events := pt_events st @ [(''creds.update'', pe_dump env creds)]\<rparr>))))"

section \<open>The phone\<close>

text \<open>
  What the phone does with the same code: it unwraps the companion's ephemeral key, wraps its own,
  opens the key bundle, and derives the secret. It refuses a bundle that does not name its own
  identity.
\<close>

record primary_phone =
  ph_code :: string
  ph_ephemeral :: key_pair
  ph_identity :: key_pair
  ph_salt :: bytes
  ph_iv :: bytes

definition phone_wraps :: "pairing_env \<Rightarrow> primary_phone \<Rightarrow> bytes" where
  "phone_wraps env ph = ph_salt ph @ ph_iv ph @
     pe_ctr_encrypt env (derive_pairing_code_key (pe_pbkdf2 env) (ph_code ph) (ph_salt ph)) (ph_iv ph) (kp_public (ph_ephemeral ph))"

definition phone_unwraps :: "pairing_env \<Rightarrow> primary_phone \<Rightarrow> bytes \<Rightarrow> bytes result" where
  "phone_unwraps env ph wrapped =
     pe_ctr_decrypt env (derive_pairing_code_key (pe_pbkdf2 env) (ph_code ph) (take 32 wrapped)) (take 16 (drop 32 wrapped)) (drop 48 wrapped)"

definition phone_opens ::
    "pairing_env \<Rightarrow> (bytes \<Rightarrow> bytes \<Rightarrow> bytes \<Rightarrow> bytes \<Rightarrow> bytes \<Rightarrow> bytes result) \<Rightarrow> primary_phone \<Rightarrow> bytes \<Rightarrow> bytes \<Rightarrow> (bytes \<times> string) result" where
  "phone_opens env unseal ph hello bundle =
     bindE (phone_unwraps env ph hello) (\<lambda>companion_ephemeral.
     bindE (pe_scalarmult env (kp_private (ph_ephemeral ph)) companion_ephemeral) (\<lambda>shared.
     bindE (hkdf (pe_hmac env) 32 shared 32 (take 32 bundle) bundle_info) (\<lambda>k.
     bindE (aes_decrypt_gcm unseal (drop 44 bundle) k (take 12 (drop 32 bundle)) []) (\<lambda>payload.
       let companion_identity = take 32 payload in
       if take 32 (drop 32 payload) \<noteq> kp_public (ph_identity ph) then Inl (ValueError ''identity'')
       else bindE (pe_scalarmult env (kp_private (ph_identity ph)) companion_identity) (\<lambda>identity_shared.
            bindE (hkdf (pe_hmac env) 32 (shared @ identity_shared @ drop 64 payload) 32 [] adv_info) (\<lambda>adv.
              Inr (companion_identity, b64encode adv)))))))"

text \<open>Two key pairs agree when each private key with the other's public key gives the same secret.\<close>

definition keys_agree :: "pairing_env \<Rightarrow> key_pair \<Rightarrow> key_pair \<Rightarrow> bool" where
  "keys_agree env a b \<longleftrightarrow> (\<exists>s. pe_scalarmult env (kp_private a) (kp_public b) = Inr s \<and>
     pe_scalarmult env (kp_private b) (kp_public a) = Inr s)"

definition ctr_ok :: "pairing_env \<Rightarrow> bool" where
  "ctr_ok env \<longleftrightarrow> (\<forall>k iv p. length iv = 16 \<longrightarrow> pe_ctr_decrypt env k iv (pe_ctr_encrypt env k iv p) = Inr p \<and>
     length (pe_ctr_encrypt env k iv p) = length p)"

lemma hkdf_defined:
  assumes "\<And>k d. length (hmac k d) = 32" and "len \<le> 255 * 32"
  shows "\<exists>k. hkdf hmac 32 m len salt info = Inr k"
  using hkdf_cases [of hmac 32, OF assms(1)] assms(2) by simp

lemma phone_key_unwrapped:
  assumes "ctr_ok env" "code_of creds = Some (ph_code ph)" "length (ph_salt ph) = 32" "length (ph_iv ph) = 16"
    "length (kp_public (ph_ephemeral ph)) = 32"
  shows "decipher_link_public_key env creds (phone_wraps env ph) = Inr (kp_public (ph_ephemeral ph))"
proof -
  let ?k = "derive_pairing_code_key (pe_pbkdf2 env) (ph_code ph) (ph_salt ph)" and ?p = "kp_public (ph_ephemeral ph)"
  have c: "length (pe_ctr_encrypt env ?k (ph_iv ph) ?p) = 32" "pe_ctr_decrypt env ?k (ph_iv ph) (pe_ctr_encrypt env ?k (ph_iv ph) ?p) = Inr ?p"
    using assms(1,4,5) by (simp_all add: ctr_ok_def)
  then show ?thesis using assms(2-4) by (simp add: decipher_link_public_key_def phone_wraps_def)
qed

lemma companion_key_unwrapped:
  assumes "ctr_ok env" "code_of creds = Some (ph_code ph)" "length (pr_salt d) = 32" "length (pr_iv d) = 16"
  shows "\<exists>w. generate_pairing_key env d creds = Inr w \<and> phone_unwraps env ph w = Inr (kp_public (pg_ephemeral creds))"
  using assms by (simp add: generate_pairing_key_def phone_unwraps_def ctr_ok_def)

text \<open>
  C38. After the code has been typed into the phone both ends hold the same secret: the phone opens the key
  bundle that the companion answers with, finds its own identity in it and the companion's, and derives
  the secret that the companion has stored.
\<close>

theorem pairing_secret_agrees:
  assumes "ctr_ok env" and "cipher_ok (pe_seal env) unseal" and "\<And>k x. length (pe_hmac env k x) = 32"
    and "code_of creds = Some (ph_code ph)"
    and "keys_agree env (pg_ephemeral creds) (ph_ephemeral ph)" and "keys_agree env (pg_identity creds) (ph_identity ph)"
    and "length (ph_salt ph) = 32" "length (ph_iv ph) = 16" "length (kp_public (ph_ephemeral ph)) = 32"
    and "length (pr_salt h) = 32" "length (pr_iv h) = 16" and "length (pr_salt d) = 32" "length (pr_iv d) = 12"
    and "length (kp_public (pg_identity creds)) = 32" "length (kp_public (ph_identity ph)) = 32"
  shows "\<exists>hello bundle adv. generate_pairing_key env h creds = Inr hello \<and>
    key_exchange env d creds (kp_public (ph_identity ph)) (phone_wraps env ph) = Inr (bundle, adv) \<and>
    phone_opens env unseal ph hello bundle = Inr (kp_public (pg_identity creds), adv)"
proof -
  obtain hello where h: "generate_pairing_key env h creds = Inr hello" "phone_unwraps env ph hello = Inr (kp_public (pg_ephemeral creds))"
    using companion_key_unwrapped assms(1,4,10,11) by blast
  obtain s where s: "pe_scalarmult env (kp_private (pg_ephemeral creds)) (kp_public (ph_ephemeral ph)) = Inr s"
      "pe_scalarmult env (kp_private (ph_ephemeral ph)) (kp_public (pg_ephemeral creds)) = Inr s"
    using assms(5) by (auto simp: keys_agree_def)
  obtain i where i: "pe_scalarmult env (kp_private (pg_identity creds)) (kp_public (ph_identity ph)) = Inr i"
      "pe_scalarmult env (kp_private (ph_identity ph)) (kp_public (pg_identity creds)) = Inr i"
    using assms(6) by (auto simp: keys_agree_def)
  obtain k where k: "hkdf (pe_hmac env) 32 s 32 (pr_salt d) bundle_info = Inr k" using hkdf_defined [OF assms(3)] by fastforce
  obtain v where v: "hkdf (pe_hmac env) 32 (s @ i @ pr_secret d) 32 [] adv_info = Inr v" using hkdf_defined [OF assms(3)] by fastforce
  note c = cipher_roundtrip [OF assms(2)]
  show ?thesis
    using h s i k v assms(12-15) phone_key_unwrapped [OF assms(1,4,7-9)]
    by (simp add: key_exchange_def phone_opens_def Let_def c)
qed

text \<open>The handler sends that bundle, and stores that secret even when the server refuses.\<close>

lemma registration_sends_bundle:
  assumes "get_binary_node_child (Some n) ''link_code_companion_reg'' = Some l" and "pg_me_id (pt_creds st) \<noteq> ''''"
    and "link_parts l = Inr (ref, identity, wrapped)" and "key_exchange env d (pt_creds st) identity wrapped = Inr (bundle, adv)"
  shows "\<exists>x st'. handle_link_code_companion_registration env d n st = (x, st') \<and> pg_adv_secret (pt_creds st') = adv \<and>
    pt_sent st' = pt_sent st @ [companion_finish (pe_tag env) (pg_me_id (pt_creds st)) bundle (kp_public (pg_identity (pt_creds st))) ref] \<and>
    (x = None \<longleftrightarrow> (\<exists>u. pe_query env (companion_finish (pe_tag env) (pg_me_id (pt_creds st)) bundle (kp_public (pg_identity (pt_creds st))) ref) = Inr u))"
  using assms by (cases "pe_query env (companion_finish (pe_tag env) (pg_me_id (pt_creds st)) bundle (kp_public (pg_identity (pt_creds st))) ref)")
    (simp_all add: handle_link_code_companion_registration_def Let_def)

section \<open>At a concrete input\<close>

definition sample_keys :: "byte \<Rightarrow> key_pair" where
  "sample_keys x = \<lparr>kp_public = replicate 32 x, kp_private = replicate 32 x\<rparr>"

definition sample_pairing :: pairing_env where
  "sample_pairing = \<lparr>pe_pbkdf2 = (\<lambda>c s. c @ s), pe_ctr_encrypt = (\<lambda>k iv p. p), pe_ctr_decrypt = (\<lambda>k iv c. Inr c),
     pe_scalarmult = (\<lambda>a b. Inr (map2 (+) a b)), pe_hmac = (\<lambda>k d. replicate 32 (sum_list k + sum_list d)), pe_seal = sample_seal,
     pe_query = (\<lambda>_. Inr ()), pe_tag = ''1'', pe_dump = (\<lambda>_. PNone)\<rparr>"

definition sample_pairing_creds :: pairing_creds where
  "sample_pairing_creds = \<lparr>pg_code = Some ''ABCD1234'', pg_me_id = ''11@s.whatsapp.net'', pg_ephemeral = sample_keys 1, pg_identity = sample_keys 2,
     pg_noise_public = [], pg_adv_secret = '''', pg_registered = False\<rparr>"

definition sample_phone :: primary_phone where
  "sample_phone = \<lparr>ph_code = ''ABCD1234'', ph_ephemeral = sample_keys 3, ph_identity = sample_keys 4, ph_salt = replicate 32 5, ph_iv = replicate 16 6\<rparr>"

theorem pairing_secret_agrees_witness:
  "\<exists>hello bundle adv.
    generate_pairing_key sample_pairing \<lparr>pr_salt = replicate 32 7, pr_iv = replicate 16 8, pr_secret = []\<rparr> sample_pairing_creds = Inr hello \<and>
    key_exchange sample_pairing \<lparr>pr_salt = replicate 32 9, pr_iv = replicate 12 10, pr_secret = replicate 32 11\<rparr> sample_pairing_creds
      (kp_public (ph_identity sample_phone)) (phone_wraps sample_pairing sample_phone) = Inr (bundle, adv) \<and>
    phone_opens sample_pairing sample_unseal sample_phone hello bundle = Inr (kp_public (pg_identity sample_pairing_creds), adv)"
  by (rule pairing_secret_agrees)
    (simp_all add: sample_pairing_def sample_pairing_creds_def sample_phone_def ctr_ok_def keys_agree_def sample_keys_def code_of_def)

end
