(* ===== verification/Notifications.thy ===== *)
theory Notifications
  imports Group_Notification Identity_Change Pairing
begin

text \<open>
  The notifications of the server (\<^verbatim>\<open>socket/messages_recv.py\<close>): of groups, newsletters,
  identities, pre-keys, tokens, mappings, pictures, settings and the linking of a phone. Whatever
  happens, a notification is acknowledged. An exception in an event is kept as its text; of a
  trusted-contact token only the bytes are kept. Queries of the server are arguments.
\<close>

record ('l, 's) notify_env =
  ne_recv :: "('l, 's) recv_env"
  ne_uploading :: "unit result option"
  ne_answers :: "nat \<Rightarrow> upload_answer"
  ne_pairing :: pairing_env
  ne_draws :: pairing_draws
  ne_proto :: "bytes \<Rightarrow> pydict result"

record ('l, 's) notify_state =
  nt_recv :: "('l, 's) recv_state"
  nt_debounce :: ttl_bools
  nt_last_upload :: int
  nt_pairing :: pairing_creds

definition announce :: "string \<Rightarrow> pyval \<Rightarrow> ('l, 's) notify_state \<Rightarrow> ('l, 's) notify_state" where
  "announce name data st = st\<lparr>nt_recv := emit_event name data (nt_recv st)\<rparr>"

definition on_recv ::
    "(('l, 's) recv_state \<Rightarrow> ('l, 's) recv_state outcome) \<Rightarrow> ('l, 's) notify_state \<Rightarrow> ('l, 's) notify_state outcome" where
  "on_recv f st = (let (x, r) = f (nt_recv st) in (x, st\<lparr>nt_recv := r\<rparr>))"

definition text_attr :: "attrs \<Rightarrow> string \<Rightarrow> pyval" where
  "text_attr a k = attr_val (attr_default a k '''')"

section \<open>Newsletters\<close>

text \<open>The bytes or the text of a content, decoded; other content counts as none.\<close>

definition content_text :: "content \<Rightarrow> string option result" where
  "content_text c = (case c of CBytes b \<Rightarrow> bindE (utf8_decode b) (\<lambda>s. Inr (Some s)) | CStr s \<Rightarrow> Inr (Some s) | _ \<Rightarrow> Inr None)"

definition view_count :: "content \<Rightarrow> int" where
  "view_count c = (case bindE (content_text c) (\<lambda>t. case t of None \<Rightarrow> Inr 0 | Some s \<Rightarrow> if s = '''' then Inr 0 else py_int s) of
     Inl _ \<Rightarrow> 0 | Inr i \<Rightarrow> i)"

text \<open>Name and description; a part that is missing is left out.\<close>

definition settings_part :: "string \<Rightarrow> node \<Rightarrow> pydict result" where
  "settings_part k settings =
     (case get_binary_node_child (Some settings) k of
        None \<Rightarrow> Inr []
      | Some p \<Rightarrow> bindE (content_text (node_content p)) (\<lambda>t. Inr (case t of None \<Rightarrow> [] | Some s \<Rightarrow> [(k, PStr s)])))"

definition newsletter_settings :: "pyval \<Rightarrow> node \<Rightarrow> ('l, 's) notify_state \<Rightarrow> ('l, 's) notify_state outcome" where
  "newsletter_settings from_jid child st =
     (case get_binary_node_child (Some child) ''settings'' of
        None \<Rightarrow> (None, st)
      | Some s \<Rightarrow>
          (case bindE (settings_part ''name'' s) (\<lambda>n. bindE (settings_part ''description'' s) (\<lambda>d. Inr (n @ d))) of
             Inl e \<Rightarrow> (Some e, st)
           | Inr [] \<Rightarrow> (None, st)
           | Inr update \<Rightarrow> (None, announce ''newsletter-settings.update'' (PDict [(''id'', from_jid), (''update'', PDict update)]) st)))"

text \<open>A message of a newsletter is not encrypted. Whatever goes wrong with it is only logged.\<close>

definition newsletter_message ::
    "('l, 's) notify_env \<Rightarrow> pyval \<Rightarrow> node \<Rightarrow> ('l, 's) notify_state \<Rightarrow> ('l, 's) notify_state" where
  "newsletter_message env from_jid child st =
     (let a = node_attrs child;
          payload = (case get_binary_node_child (Some child) ''plaintext'' of
            None \<Rightarrow> None
          | Some p \<Rightarrow> (case node_content p of CStr s \<Rightarrow> Some (latin1_encode s) | CBytes b \<Rightarrow> Some (Inr b) | _ \<Rightarrow> None))
      in case payload of
           None \<Rightarrow> st
         | Some r \<Rightarrow>
             (case bindE r (\<lambda>b. bindE (ne_proto env b) (\<lambda>m. bindE (attr_int_or (attr_get a ''t'') 0) (\<lambda>t.
                Inr [(''key'', PDict [(''remoteJid'', from_jid), (''id'', attr_val (attr_or (attr_get a ''message_id'') (attr_get a ''server_id''))),
                        (''fromMe'', PBool False)]),
                     (''message'', PDict m), (''messageTimestamp'', PInt t)]))) of
                Inl _ \<Rightarrow> st
              | Inr full_message \<Rightarrow> snd (on_recv (upsert_message (ne_recv env) full_message ''append'') st)))"

definition handle_newsletter_notification ::
    "('l, 's) notify_env \<Rightarrow> node \<Rightarrow> ('l, 's) notify_state \<Rightarrow> ('l, 's) notify_state outcome" where
  "handle_newsletter_notification env n st =
     (let a = node_attrs n; from_jid = text_attr a ''from'' in
      case get_all_binary_node_children n of
        [] \<Rightarrow> (None, st)
      | child # _ \<Rightarrow>
          let c = node_attrs child in
          if node_tag child = ''reaction'' then
            (case get_binary_node_child_string (Some child) ''reaction'' of
               Inl e \<Rightarrow> (Some e, st)
             | Inr code \<Rightarrow>
                 (None, announce ''newsletter.reaction'' (PDict [(''id'', from_jid), (''server_id'', text_attr c ''message_id''),
                    (''reaction'', PDict [(''code'', case code of None \<Rightarrow> PNone | Some s \<Rightarrow> PStr s), (''count'', PInt 1)])]) st))
          else if node_tag child = ''view'' then
            (None, announce ''newsletter.view'' (PDict [(''id'', from_jid), (''server_id'', text_attr c ''message_id''),
               (''count'', PInt (view_count (node_content child)))]) st)
          else if node_tag child = ''participant'' then
            (None, announce ''newsletter-participants.update'' (PDict [(''id'', from_jid), (''author'', text_attr a ''participant''),
               (''user'', text_attr c ''jid''), (''action'', text_attr c ''action''), (''new_role'', text_attr c ''role'')]) st)
          else if node_tag child = ''update'' then newsletter_settings from_jid child st
          else if node_tag child = ''message'' then (None, newsletter_message env from_jid child st)
          else (None, st))"

definition mex_payload :: "content \<Rightarrow> pyval option" where
  "mex_payload c = (case bindE (content_text c) (\<lambda>t. case t of None \<Rightarrow> Inl TypeErr | Some s \<Rightarrow> json_loads s) of
     Inl _ \<Rightarrow> None | Inr v \<Rightarrow> Some v)"

text \<open>An update that is not a dictionary has no \<open>get\<close>.\<close>

definition mex_settings :: "pyval \<Rightarrow> ('l, 's) notify_state \<Rightarrow> ('l, 's) notify_state outcome" where
  "mex_settings update st = (case update of
       PDict d \<Rightarrow>
         (case py_get ''settings'' d of
            PDict (x # xs) \<Rightarrow>
              (None, if truthy (py_get ''jid'' d)
                     then announce ''newsletter-settings.update'' (PDict [(''id'', py_get ''jid'' d), (''update'', PDict (x # xs))]) st else st)
          | _ \<Rightarrow> (None, st))
     | _ \<Rightarrow> (Some AttributeErr, st))"

definition mex_promotion :: "pyval \<Rightarrow> pyval \<Rightarrow> ('l, 's) notify_state \<Rightarrow> ('l, 's) notify_state outcome" where
  "mex_promotion author update st = (case update of
       PDict d \<Rightarrow>
         (None, if truthy (py_get ''jid'' d) \<and> truthy (py_get ''user'' d)
                then announce ''newsletter-participants.update'' (PDict [(''id'', py_get ''jid'' d), (''author'', author), (''user'', py_get ''user'' d),
                       (''new_role'', PStr ''ADMIN''), (''action'', PStr ''promote'')]) st else st)
     | _ \<Rightarrow> (Some AttributeErr, st))"

definition handle_mex_newsletter_notification :: "node \<Rightarrow> ('l, 's) notify_state \<Rightarrow> ('l, 's) notify_state outcome" where
  "handle_mex_newsletter_notification n st =
     (case get_binary_node_child (Some n) ''mex'' of
        None \<Rightarrow> (None, st)
      | Some m \<Rightarrow>
          (case mex_payload (node_content m) of
             None \<Rightarrow> (None, st)
           | Some (PDict data) \<Rightarrow>
               (case py_get ''updates'' data of
                  PList updates \<Rightarrow>
                    if py_get ''operation'' data = PStr ''NotificationNewsletterUpdate'' then for_each mex_settings updates st
                    else if py_get ''operation'' data = PStr ''NotificationNewsletterAdminPromote''
                    then for_each (mex_promotion (text_attr (node_attrs n) ''from'')) updates st
                    else (None, st)
                | _ \<Rightarrow> (None, st))
           | Some _ \<Rightarrow> (Some AttributeErr, st)))"

section \<open>Keys, tokens and media\<close>

definition keep_token :: "string \<Rightarrow> node \<Rightarrow> ('l, 's) recv_state \<Rightarrow> ('l, 's) recv_state" where
  "keep_token from_jid t st =
     (case (attr_get (node_attrs t) ''type'' = AStr ''trusted_contact'', node_content t) of
        (True, CBytes b) \<Rightarrow> st\<lparr>rv_relay := (rv_relay st)\<lparr>rl_tokens := (rl_tokens (rv_relay st))(from_jid \<mapsto> b)\<rparr>\<rparr>
      | _ \<Rightarrow> st)"

definition handle_privacy_token_notification :: "node \<Rightarrow> ('l, 's) notify_state \<Rightarrow> ('l, 's) notify_state outcome" where
  "handle_privacy_token_notification n st =
     (case get_binary_node_child (Some n) ''tokens'' of
        None \<Rightarrow> (None, st)
      | Some tokens \<Rightarrow>
          (case jid_normalized_user (attr_text_opt (node_attrs n) ''from'') of
             Inl e \<Rightarrow> (Some e, st)
           | Inr from_jid \<Rightarrow>
               (None, st\<lparr>nt_recv := fold (keep_token from_jid) (get_binary_node_children (Some tokens) ''token'') (nt_recv st)\<rparr>)))"

text \<open>More pre-keys, announced with the new counters.\<close>

definition upload_more_pre_keys :: "('l, 's) notify_env \<Rightarrow> ('l, 's) notify_state \<Rightarrow> ('l, 's) notify_state outcome" where
  "upload_more_pre_keys env st =
     (let r = nt_recv st;
          (x, up) = upload_pre_keys ims_get ims_set (re_gen (ne_recv env)) (now_ms (ne_recv env)) (ne_uploading env) (ne_answers env)
            MIN_PREKEY_COUNT 0 \<lparr>us_creds = rv_creds r, us_keys = rv_pre_keys r, us_last_upload_time = nt_last_upload st, us_updates = []\<rparr>;
          st = st\<lparr>nt_recv := r\<lparr>rv_creds := us_creds up, rv_pre_keys := us_keys up\<rparr>, nt_last_upload := us_last_upload_time up\<rparr>;
          st = fold (\<lambda>(next_id, first_id). announce ''creds.update''
            (PDict [(''nextPreKeyId'', PInt next_id), (''firstUnuploadedPreKeyId'', PInt first_id)])) (us_updates up) st
      in (case x of Inl e \<Rightarrow> Some e | Inr _ \<Rightarrow> None, st))"

definition handle_encrypt_notification ::
    "('l, 's) notify_env \<Rightarrow> node \<Rightarrow> ('l, 's) notify_state \<Rightarrow> ('l, 's) notify_state outcome" where
  "handle_encrypt_notification env n st =
     (if attr_get (node_attrs n) ''from'' = AStr S_WHATSAPP_NET then
        (if to_int_or (child_attr (get_binary_node_child (Some n) ''count'') ''value'') 0 < MIN_PREKEY_COUNT
         then upload_more_pre_keys env st else (None, st))
      else
        let rl = rv_relay (nt_recv st);
            (x, cache, sd) = handle_identity_change (ry_send (re_relay (ne_recv env))) (now_ms (ne_recv env)) n (nt_debounce st, rl_send rl)
        in (case x of Inl e \<Rightarrow> Some e | Inr _ \<Rightarrow> None,
            st\<lparr>nt_debounce := cache, nt_recv := (nt_recv st)\<lparr>rv_relay := rl\<lparr>rl_send := sd\<rparr>\<rparr>\<rparr>))"

definition get_status_code_for_media_retry :: "int \<Rightarrow> int" where
  "get_status_code_for_media_retry code = (case map_of [(1, 200), (3, 412), (2, 404), (0, 418)] code of None \<Rightarrow> 500 | Some s \<Rightarrow> s)"

definition decode_media_retry_node :: "node \<Rightarrow> pydict result" where
  "decode_media_retry_node n =
     (case get_binary_node_child (Some n) ''rmr'' of
        None \<Rightarrow> Inl (ValueError ''missing rmr node'')
      | Some rmr \<Rightarrow>
          let a = node_attrs rmr;
              event = [(''key'', PDict [(''id'', attr_py (node_attrs n) ''id''), (''remoteJid'', attr_py a ''jid''),
                         (''fromMe'', PBool (attr_get a ''from_me'' = AStr ''true'')), (''participant'', attr_py a ''participant'')])]
          in (case get_binary_node_child (Some n) ''error'' of
                Some err \<Rightarrow>
                  bindE (attr_int_or (attr_get (node_attrs err) ''code'') 0) (\<lambda>code.
                    Inr (event @ [(''error'', PStr (''Failed to re-upload media ('' @ int_str code @ '')'')),
                                  (''statusCode'', PInt (get_status_code_for_media_retry code))]))
              | None \<Rightarrow>
                  let enc = get_binary_node_child (Some n) ''encrypt''
                  in (case (get_binary_node_child_buffer enc ''enc_p'', get_binary_node_child_buffer enc ''enc_iv'') of
                        (Some (c # cs), Some (i # iv)) \<Rightarrow>
                          Inr (event @ [(''media'', PDict [(''ciphertext'', PBytes (c # cs)), (''iv'', PBytes (i # iv))])])
                      | _ \<Rightarrow> Inr (event @ [(''error'', PStr ''Failed to re-upload media (missing ciphertext)''), (''statusCode'', PInt 404)]))))"

section \<open>Settings\<close>

definition link_notification :: "node \<Rightarrow> ('l, 's) notify_state \<Rightarrow> ('l, 's) notify_state outcome" where
  "link_notification n st =
     (case (attr_given (node_attrs n) ''lid'', attr_given (node_attrs n) ''pn'') of
        (Some lid, Some pn) \<Rightarrow>
          (case link_pn_lid pn lid (rv_ids (nt_recv st)) of
             (Inl e, ids) \<Rightarrow> (Some e, st\<lparr>nt_recv := (nt_recv st)\<lparr>rv_ids := ids\<rparr>\<rparr>)
           | (Inr _, ids) \<Rightarrow>
               (None, announce ''lid-mapping.update'' (PDict [(''lid'', PStr lid), (''pn'', PStr pn)])
                  (st\<lparr>nt_recv := (nt_recv st)\<lparr>rv_ids := ids\<rparr>\<rparr>)))
      | _ \<Rightarrow> (None, st))"

definition resync_notification :: "('l, 's) notify_env \<Rightarrow> node \<Rightarrow> ('l, 's) notify_state \<Rightarrow> ('l, 's) notify_state outcome" where
  "resync_notification env n st =
     (case attr_given (case get_binary_node_child (Some n) ''collection'' of None \<Rightarrow> [] | Some c \<Rightarrow> node_attrs c) ''name'' of
        Some name \<Rightarrow>
          if has_upsert (re_class (ne_recv env))
          then let (x, evs) = re_resync (ne_recv env) [name] in (x, fold (\<lambda>(k, v). announce k v) evs st)
          else (None, st)
      | None \<Rightarrow> (None, st))"

definition GROUP_CHANGE_ICON :: stub_type where "GROUP_CHANGE_ICON = Stub 22 ''GROUP_CHANGE_ICON''"

text \<open>A new picture is announced; in a group it is a message too.\<close>

definition picture_notification :: "node \<Rightarrow> ('l, 's) notify_state \<Rightarrow> pydict result \<times> ('l, 's) notify_state" where
  "picture_notification n st =
     (case jid_normalized_user (attr_text_opt (node_attrs n) ''from'') of
        Inl e \<Rightarrow> (Inl e, st)
      | Inr from_jid \<Rightarrow>
          let set_picture = get_binary_node_child (Some n) ''set'';
              picture = (case set_picture of None \<Rightarrow> get_binary_node_child (Some n) ''delete'' | Some p \<Rightarrow> Some p);
              author = attr_val (child_attr picture ''author'');
              named = (if from_jid \<noteq> '''' then PStr from_jid
                       else case picture of None \<Rightarrow> PStr '''' | Some p \<Rightarrow> attr_py (node_attrs p) ''hash'');
              st = announce ''contacts.update'' (PList [PDict [(''id'', named),
                     (''imgUrl'', PStr (if set_picture = None then ''removed'' else ''changed''))]]) st
          in (Inr (if is_jid_group (Some from_jid)
                   then [(''messageStubType'', PInt (stub_code GROUP_CHANGE_ICON))] @
                        (case set_picture of None \<Rightarrow> [] | Some p \<Rightarrow> [(''messageStubParameters'', PList [text_attr (node_attrs p) ''id''])]) @
                        [(''participant'', author),
                         (''key'', PDict (if picture = None then [] else [(''participant'', author)]))]
                   else []), st))"

definition block_notification :: "node \<Rightarrow> ('l, 's) notify_state \<Rightarrow> ('l, 's) notify_state" where
  "block_notification item st =
     (let a = node_attrs item in
      if attr_truthy (attr_get a ''jid'')
      then announce ''blocklist.update'' (PDict [(''blocklist'', PList [attr_py a ''jid'']),
             (''type'', PStr (if attr_get a ''action'' = AStr ''block'' then ''add'' else ''remove''))]) st
      else st)"

text \<open>The account's settings: a time after which messages disappear, or those who are blocked; else nothing.\<close>

definition account_notification ::
    "('l, 's) notify_env \<Rightarrow> node option \<Rightarrow> ('l, 's) notify_state \<Rightarrow> ('l, 's) notify_state outcome" where
  "account_notification env child st =
     (case child of
        None \<Rightarrow> (None, st)
      | Some c \<Rightarrow>
          let a = node_attrs c in
          if node_tag c = ''disappearing_mode'' then
            (case bindE (attr_int_or (attr_get a ''duration'') 0) (\<lambda>d. bindE (attr_int_or (attr_get a ''t'') 0) (\<lambda>t. Inr (d, t))) of
               Inl e \<Rightarrow> (Some e, st)
             | Inr (d, t) \<Rightarrow>
                 (None, announce ''creds.update'' (PDict [(''accountSettings'', PDict (dict_set ''defaultDisappearingMode''
                    (PDict [(''ephemeralExpiration'', PInt d), (''ephemeralSettingTimestamp'', PInt t)])
                    (dict_or_empty (py_get ''accountSettings'' (pv_creds (re_process (ne_recv env)))))))]) st))
          else if node_tag c = ''blocklist'' then (None, fold block_notification (get_binary_node_children (Some c) ''item'') st)
          else (None, st))"

text \<open>A change of the own devices is only logged; an unreadable JID still raises.\<close>

definition devices_notification :: "('l, 's) notify_env \<Rightarrow> node \<Rightarrow> unit result" where
  "devices_notification env child =
     bindE (are_jids_same_user (attr_text_opt (node_attrs child) ''jid'') (Some (me_id_of (ne_recv env)))) (\<lambda>b.
       if b then Inr () else bindE (are_jids_same_user (attr_text_opt (node_attrs child) ''lid'') (sv_me_lid (ry_send (re_relay (ne_recv env))))) (\<lambda>_. Inr ()))"

definition pairing_notification :: "('l, 's) notify_env \<Rightarrow> node \<Rightarrow> ('l, 's) notify_state \<Rightarrow> ('l, 's) notify_state outcome" where
  "pairing_notification env n st =
     (let (x, pt) = handle_link_code_companion_registration (ne_pairing env) (ne_draws env) n \<lparr>pt_creds = nt_pairing st, pt_events = [], pt_sent = []\<rparr>
      in (x, fold (\<lambda>(k, v). announce k v) (pt_events pt) (st\<lparr>nt_pairing := pt_creds pt\<rparr>)))"

section \<open>The handler\<close>

text \<open>
  The kinds that may leave a message behind: a group's change, or a new picture; the message is filed
  when it is not empty.
\<close>

definition announce_notification ::
    "('l, 's) notify_env \<Rightarrow> node \<Rightarrow> pydict result \<times> ('l, 's) notify_state \<Rightarrow> ('l, 's) notify_state outcome" where
  "announce_notification env n r = (case r of
       (Inl e, st) \<Rightarrow> (Some e, st)
     | (Inr m, st) \<Rightarrow> if m = [] then (None, st) else on_recv (upsert_notification_message (ne_recv env) n m) st)"

definition group_notification ::
    "node \<Rightarrow> node \<Rightarrow> ('l, 's) notify_state \<Rightarrow> pydict result \<times> ('l, 's) notify_state" where
  "group_notification n child st =
     (let (r, s) = handle_group_notification n child (nt_recv st) in (r, st\<lparr>nt_recv := s\<rparr>))"

definition handle_notification ::
    "('l, 's) notify_env \<Rightarrow> node \<Rightarrow> ('l, 's) notify_state \<Rightarrow> ('l, 's) notify_state outcome" where
  "handle_notification env n st =
     (let children = get_all_binary_node_children n; child = (case children of [] \<Rightarrow> None | c # _ \<Rightarrow> Some c);
          notif_type = attr_text_opt (node_attrs n) ''type'' in
      if notif_type = Some ''encrypt'' then handle_encrypt_notification env n st
      else if notif_type = Some ''lid-mapping'' then link_notification n st
      else if notif_type = Some ''newsletter'' then handle_newsletter_notification env n st
      else if notif_type = Some ''mex'' then handle_mex_newsletter_notification n st
      else if notif_type = Some ''mediaretry'' then
        (case decode_media_retry_node n of
           Inl e \<Rightarrow> (Some e, st) | Inr event \<Rightarrow> (None, announce ''messages.media-update'' (PList [PDict event]) st))
      else if notif_type = Some ''privacy_token'' then handle_privacy_token_notification n st
      else if notif_type = Some ''w:gp2'' then
        (case child of None \<Rightarrow> (None, st) | Some c \<Rightarrow> announce_notification env n (group_notification n c st))
      else if notif_type = Some ''devices'' then
        (case child of None \<Rightarrow> (None, st)
         | Some c \<Rightarrow> (case devices_notification env c of Inl e \<Rightarrow> (Some e, st) | Inr _ \<Rightarrow> (None, st)))
      else if notif_type = Some ''server_sync'' then resync_notification env n st
      else if notif_type = Some ''picture'' then announce_notification env n (picture_notification n st)
      else if notif_type = Some ''account_sync'' then account_notification env child st
      else if notif_type = Some ''link_code_companion_reg'' then pairing_notification env n st
      else (None, st))"

text \<open>\<open>_handle_notification_node\<close>: the acknowledgement is sent in a \<open>finally\<close> clause.\<close>

definition handle_notification_node ::
    "('l, 's) notify_env \<Rightarrow> node \<Rightarrow> ('l, 's) notify_state \<Rightarrow> ('l, 's) notify_state outcome" where
  "handle_notification_node env n st =
     (let remote_jid = text_or_empty (attr_py (node_attrs n) ''from'');
          (x, st) = (if re_ignored (ne_recv env) remote_jid \<and> remote_jid \<noteq> S_WHATSAPP_NET then (None, st) else handle_notification env n st)
      in (x, st\<lparr>nt_recv := send_message_ack (ne_recv env) n None (nt_recv st)\<rparr>))"

section \<open>Every notification is acknowledged\<close>

definition answered :: "('l, 's) notify_state \<Rightarrow> node list" where
  "answered st = sent (nt_recv st)"

lemma answered_simps [simp]:
  "answered (announce k v st) = answered st" "answered (st\<lparr>nt_debounce := c\<rparr>) = answered st"
  "answered (st\<lparr>nt_pairing := p\<rparr>) = answered st" "answered (st\<lparr>nt_last_upload := t\<rparr>) = answered st"
  "answered (st\<lparr>nt_recv := r\<rparr>) = sent r"
  by (simp_all add: answered_def announce_def)

lemma nt_recv_announce: "nt_recv (announce k v st) = emit_event k v (nt_recv st)"
  by (simp add: announce_def)

lemma answered_on_recv:
  assumes "sent (snd (f (nt_recv st))) = sent (nt_recv st)"
  shows "answered (snd (on_recv f st)) = answered st"
  using assms by (simp add: on_recv_def answered_def case_prod_unfold Let_def)

lemma fold_answered:
  assumes "\<And>x s. answered (f x s) = answered s"
  shows "answered (fold f xs st) = answered st"
  by (induction xs arbitrary: st) (simp_all add: assms)

lemma for_each_answered:
  assumes "\<And>x s. answered (snd (f x s)) = answered s"
  shows "answered (snd (for_each f xs st)) = answered st"
  using for_each_invariant [of "\<lambda>s. answered s = answered st" st xs f] assms by simp

lemma newsletter_message_answered [simp]: "answered (newsletter_message env j c st) = answered st"
  by (simp add: newsletter_message_def Let_def answered_on_recv split: option.split sum.split content.split)

lemma newsletter_settings_answered [simp]: "answered (snd (newsletter_settings j c st)) = answered st"
  by (auto simp: newsletter_settings_def split: option.split sum.split list.split)

lemma newsletter_answered [simp]: "answered (snd (handle_newsletter_notification env n st)) = answered st"
  by (simp add: handle_newsletter_notification_def Let_def split: list.split sum.split)

lemma mex_updates_answered [simp]:
  "answered (snd (for_each mex_settings us st)) = answered st" "answered (snd (for_each (mex_promotion a) us st)) = answered st"
  by (rule for_each_answered, auto simp: mex_settings_def mex_promotion_def split: pyval.split list.split)+

lemma mex_answered [simp]: "answered (snd (handle_mex_newsletter_notification n st)) = answered st"
  by (auto simp: handle_mex_newsletter_notification_def split: option.split pyval.split)

lemma keep_token_sent [simp]: "sent (keep_token j t r) = sent r"
  by (auto simp: keep_token_def sent_def split: bool.split content.split)

lemma keep_tokens_sent [simp]: "sent (fold (keep_token j) ts r) = sent r"
  by (induction ts arbitrary: r) simp_all

lemma token_answered [simp]: "answered (snd (handle_privacy_token_notification n st)) = answered st"
  by (simp add: handle_privacy_token_notification_def split: option.split sum.split) (simp add: answered_def)

lemma upload_answered [simp]: "answered (snd (upload_more_pre_keys env st)) = answered st"
  by (simp add: upload_more_pre_keys_def Let_def case_prod_unfold fold_answered) (simp add: answered_def)

lemma encrypt_answered [simp]: "answered (snd (handle_encrypt_notification env n st)) = answered st"
  by (simp add: handle_encrypt_notification_def Let_def case_prod_unfold) (simp add: answered_def sent_def)

lemma announce_notification_answered [simp]: "answered (snd (announce_notification env n r)) = answered (snd r)"
  by (cases r) (simp add: announce_notification_def answered_on_recv split: sum.split)

lemma group_notification_answered [simp]: "answered (snd (group_notification n c st)) = answered st"
  by (simp add: group_notification_def case_prod_unfold Let_def) (simp add: answered_def)

lemma picture_answered [simp]: "answered (snd (picture_notification n st)) = answered st"
  by (simp add: picture_notification_def Let_def split: sum.split)

lemma link_answered [simp]: "answered (snd (link_notification n st)) = answered st"
  by (simp add: link_notification_def case_prod_unfold split: option.split sum.split) (simp add: answered_def)

lemma resync_answered [simp]: "answered (snd (resync_notification env n st)) = answered st"
  by (simp add: resync_notification_def fold_answered case_prod_unfold Let_def split: option.split)

lemma block_answered [simp]: "answered (block_notification i st) = answered st"
  by (simp add: block_notification_def Let_def)

lemma account_answered [simp]: "answered (snd (account_notification env c st)) = answered st"
  by (simp add: account_notification_def Let_def fold_answered case_prod_unfold split: option.split sum.split)

lemma pairing_answered [simp]: "answered (snd (pairing_notification env n st)) = answered st"
  by (simp add: pairing_notification_def fold_answered case_prod_unfold Let_def)

lemma handle_notification_answered [simp]: "answered (snd (handle_notification env n st)) = answered st"
  by (simp add: handle_notification_def Let_def split: option.split sum.split)


end
