(* ===== verification/Group_Change.thy ===== *)
theory Group_Change
  imports Notifications
begin

text \<open>
  What becomes of a change of a group's participants: from the notification of the server, through the
  message of a stub that is built from it, to the events that listeners see. The participants travel
  from one to the other as JSON texts.
\<close>

lemma not_real: "py_get ''message'' m = PNone \<Longrightarrow> \<not> is_real_message m"
  by (simp add: is_real_message_def Let_def normalize_message_content_def as_dict_def get_content_type_def)

lemma stub_message_processed:
  assumes "py_get ''message'' m = PNone" and "truthy (py_get ''messageStubType'' m)"
    and "jid_normalized_user (get_chat_id (message_key m)) = Inr j"
    and "process_stub env m (st\<lparr>ps_chat := [(''id'', PStr j)]\<rparr>) = (None, s')"
  shows "process_message env m st =
    (None, if 1 < length (ps_chat s') then ps_emit ''chats.update'' (PList [PDict (ps_chat s')]) s' else s')"
proof -
  have n: "normalize_message_content (as_dict (py_get ''message'' m)) = None"
    by (simp add: assms(1) as_dict_def normalize_message_content_def)
  have "message_chat env m c = c" for c
    by (simp add: message_chat_def not_real [OF assms(1)] n dict_or_empty_def Let_def)
  then show ?thesis using n by (simp add: process_message_def process_content_def assms as_dict_def Let_def)
qed

definition participant_text :: "node \<Rightarrow> string" where
  "participant_text n = json_text '' '' (PDict (changed_participant n))"

lemma participant_text_dumped: "json_dumps '' '' (PDict (changed_participant n)) = Inr (participant_text n)"
  and participant_text_read: "parse_participant (PStr (participant_text n)) = [changed_participant n]"
proof -
  have v: "json_ok (attr_val a)" for a by (cases a) simp_all
  have "json_ok (PDict (changed_participant n))"
    by (simp add: changed_participant_def Let_def dict_wf_def v phone_number_of_def lid_of_def attr_py_def)
  note json_roundtrip [OF this, of "'' ''"]
  then show "json_dumps '' '' (PDict (changed_participant n)) = Inr (participant_text n)"
    "parse_participant (PStr (participant_text n)) = [changed_participant n]"
    by (simp_all add: blank_def parse_participant_def participant_text_def)
qed

lemma participant_texts_dumped: "mapE (\<lambda>item. json_dumps '' '' (PDict (changed_participant item))) items = Inr (map participant_text items)"
  by (induction items) (simp_all add: participant_text_dumped)

lemma participants_read_back:
  "stub_params m = map PStr (map participant_text items) \<Longrightarrow> parse_participants m = map changed_participant items"
proof -
  have "concat (map parse_participant (map PStr (map participant_text items))) = map changed_participant items"
    by (induction items) (simp_all add: participant_text_read)
  then show "stub_params m = map PStr (map participant_text items) \<Longrightarrow> parse_participants m = map changed_participant items"
    by (simp only: parse_participants_def)
qed

text \<open>The action that is reported for a kind of stub, and whether the chat can be written to when it concerns oneself.\<close>

definition reported_action :: "stub_type \<Rightarrow> string" where
  "reported_action t = (if t = GROUP_PARTICIPANT_PROMOTE then ''promote'' else if t = GROUP_PARTICIPANT_DEMOTE then ''demote''
     else if t = GROUP_PARTICIPANT_ADD then ''add'' else ''remove'')"

definition read_only_after :: "stub_type \<Rightarrow> bool option" where
  "read_only_after t = (if t = GROUP_PARTICIPANT_ADD then Some False
     else if t = GROUP_PARTICIPANT_REMOVE \<or> t = GROUP_PARTICIPANT_LEAVE then Some True else None)"

definition participants_event :: "pydict \<Rightarrow> string \<Rightarrow> pydict list \<Rightarrow> string \<times> pyval" where
  "participants_event m action ps = (''group-participants.update'', PDict ((''id'', py_get ''remoteJid'' (message_key m)) # stub_place m @
     [(''participants'', PList (map PDict ps)), (''action'', PStr action)]))"

lemma process_participants_stub:
  assumes "t \<in> {GROUP_PARTICIPANT_PROMOTE, GROUP_PARTICIPANT_DEMOTE, GROUP_PARTICIPANT_ADD, GROUP_PARTICIPANT_REMOVE, GROUP_PARTICIPANT_LEAVE}"
    and "py_get ''messageStubType'' m = PInt (stub_code t)" and "participants_include_me (pv_me_id env) (parse_participants m) = Inr mine"
  shows "process_stub env m st = (None, (case read_only_after t of Some b \<Rightarrow> if mine then chat_set ''readOnly'' (PBool b) st else st | None \<Rightarrow> st)
     \<lparr>ps_events := ps_events st @ [participants_event m (reported_action t) (parse_participants m)]\<rparr>)"
proof -
  note d = process_stub_def stub_defs stub_matches_def as_int_def reported_action_def read_only_after_def participants_event_def
      emit_participants_update_def ps_emit_def chat_set_def Let_def assms(2,3)
  show ?thesis using assms(1)
    apply (elim insertE emptyE)
    subgoal by (simp add: d)
    subgoal by (simp add: d)
    subgoal by (simp add: d)
    subgoal by (simp add: d)
    subgoal by (simp add: d)
    done
qed

text \<open>What filing such a message adds to the events.\<close>

lemma upsert_participants_stub:
  assumes cls: "has_upsert (re_class env)"
    and m: "py_get ''message'' m = PNone" "py_get ''pushName'' m = PNone" "py_get ''messageStubType'' m = PInt (stub_code t)"
    and t: "t \<in> {GROUP_PARTICIPANT_PROMOTE, GROUP_PARTICIPANT_DEMOTE, GROUP_PARTICIPANT_ADD, GROUP_PARTICIPANT_REMOVE, GROUP_PARTICIPANT_LEAVE}"
    and mine: "participants_include_me (pv_me_id (re_process env)) (parse_participants m) = Inr mine"
    and j: "jid_normalized_user (get_chat_id (message_key m)) = Inr j"
  shows "\<exists>st'. upsert_message env m kind st = (None, st') \<and> rv_events st' = rv_events st @
    [(''messages.upsert'', PDict [(''messages'', PList [PDict m]), (''type'', PStr kind)]),
     participants_event m (reported_action t) (parse_participants m)] @
    (case read_only_after t of Some b \<Rightarrow> if mine then [(''chats.update'', PList [PDict [(''id'', PStr j), (''readOnly'', PBool b)]])] else [] | None \<Rightarrow> [])"
proof -
  have tr: "truthy (py_get ''messageStubType'' m)" using t m(3) by (auto simp: stub_defs)
  have h: "get_history_msg (py_get ''message'' m) = PNone"
    by (simp add: m(1) get_history_msg_def as_dict_def normalize_message_content_def)
  have me: "pv_me_id (penv\<lparr>pv_session := a, pv_process_history := b, pv_get_message := c\<rparr>) = pv_me_id penv" for penv :: "('l, 's) process_env" and a b c
    by (simp add: pv_me_id_def)
  note s = process_participants_stub [OF t m(3)]
  let ?st = "emit_event ''messages.upsert'' (PDict [(''messages'', PList [PDict m]), (''type'', PStr kind)]) st"
  have n: "note_push_name env m ?st = (None, ?st)" by (simp add: note_push_name_def m(2) Let_def)
  have p: "process_message penv m ps = (None, if 1 < length (ps_chat s') then ps_emit ''chats.update'' (PList [PDict (ps_chat s')]) s' else s')"
    if "pv_me_id penv = pv_me_id (re_process env)"
      and "s' = (case read_only_after t of Some b \<Rightarrow> if mine then chat_set ''readOnly'' (PBool b) (ps\<lparr>ps_chat := [(''id'', PStr j)]\<rparr>)
        else ps\<lparr>ps_chat := [(''id'', PStr j)]\<rparr> | None \<Rightarrow> ps\<lparr>ps_chat := [(''id'', PStr j)]\<rparr>)
        \<lparr>ps_events := ps_events ps @ [participants_event m (reported_action t) (parse_participants m)]\<rparr>"
    for penv :: "('l, 's) process_env" and ps s'
    unfolding that(2) by (rule stub_message_processed [OF m(1) tr j]) (simp add: s [of penv mine] that(1) mine)
  obtain s1 where r: "run_process_message env False m ?st = (None, s1)" and e: "rv_events s1 = rv_events ?st @
      [participants_event m (reported_action t) (parse_participants m)] @
      (case read_only_after t of Some b \<Rightarrow> if mine then [(''chats.update'', PList [PDict [(''id'', PStr j), (''readOnly'', PBool b)]])] else [] | None \<Rightarrow> [])"
    by (cases "read_only_after t") (auto simp: run_process_message_def Let_def p [OF me refl] ps_emit_def chat_set_def)
  have "upsert_message env m kind st = (None, s1)"
    using cls by (simp add: upsert_message_def upsert_message_impl_def Let_def n h [unfolded m(1)] r m(1) dict_or_empty_def)
  then show ?thesis using e by (simp add: emit_event_def)
qed

text \<open>The message that a change becomes once it is filed under the group.\<close>

definition change_key :: "('l, 's) recv_env \<Rightarrow> node \<Rightarrow> bool \<Rightarrow> pydict" where
  "change_key env n from_me = (let a = node_attrs n in
     [(''remoteJid'', attr_py a ''from''), (''fromMe'', PBool from_me), (''participant'', attr_py a ''participant''), (''id'', attr_py a ''id'')])"

lemma change_message:
  assumes "are_jids_same_user (as_str (py_or (attr_py (node_attrs n) ''participant'') (attr_py (node_attrs n) ''from''))) (Some (me_id_of env)) = Inr from_me"
  obtains m where "notification_message env n (stub t ps) = Inr m" and "py_get ''key'' m = PDict (change_key env n from_me)"
    and "py_get ''message'' m = PNone" "py_get ''pushName'' m = PNone" "py_get ''messageStubType'' m = PInt (stub_code t)"
    and "stub_params m = ps"
  using assms
  by (auto simp: notification_message_def Let_def stub_def py_get_def change_key_def dict_or_empty_def
      dict_update_def stub_params_def list_or_empty_def)

lemma change_chat:
  assumes "attr_get (node_attrs n) ''from'' = AStr g" and "is_jid_group (Some g)"
  shows "get_chat_id (change_key env n from_me) = Some g"
proof -
  have "\<not> is_jid_broadcast (Some g)"
    using assms(2) jid_ends_take [of "Some g" "''@g.us''" "''@broadcast''" 2] by (auto simp: is_jid_group_def is_jid_broadcast_def)
  then show ?thesis by (simp add: get_chat_id_def change_key_def Let_def attr_py_def assms(1) as_str_def)
qed



text \<open>
  Finding: one's own removal is only recognised by the phone number of the participant, and that is only
  set for a participant who is named by LID. In a group whose members are named by number, the
  chat is never closed for writing by one's own removal.
\<close>

lemma removal_by_number_unnoticed:
  assumes "jid_decode (Some me) = Inr d" and "\<forall>i\<in>set items. \<not> is_lid_user (participant_jid (node_attrs i))"
  shows "participants_include_me me (map changed_participant items) = Inr False"
  using assms
  by (induction items) (simp_all add: changed_participant_def phone_number_of_def are_jids_same_user_def Let_def py_get_def as_str_def jid_decode_def split: option.split)

section \<open>At a concrete input\<close>

definition sample_notify :: "(string store, bytes store) notify_env" where
  "sample_notify = \<lparr>ne_recv = sample_recv\<lparr>re_process := sample_process\<lparr>pv_creds := [(''me'', PDict [(''id'', PStr ''9:1@s.whatsapp.net'')])]\<rparr>\<rparr>,
     ne_uploading = None, ne_answers = (\<lambda>_. Timed_Out), ne_pairing = sample_pairing,
     ne_draws = \<lparr>pr_salt = [], pr_iv = [], pr_secret = []\<rparr>, ne_proto = (\<lambda>_. Inl ExternalError)\<rparr>"

definition sample_notify_state :: "(string store, bytes store) notify_state" where
  "sample_notify_state = \<lparr>nt_recv = sample_recv_state, nt_debounce = Map.empty, nt_last_upload = 0, nt_pairing = sample_pairing_creds\<rparr>"

definition removed_member :: node where
  "removed_member = Node ''participant'' [(''jid'', AStr ''5@lid''), (''phone_number'', AStr ''9@s.whatsapp.net'')] CNone"

definition removal :: node where
  "removal = Node ''remove'' [] (CList [removed_member])"

definition removal_notification :: node where
  "removal_notification = Node ''notification'' [(''type'', AStr ''w:gp2''), (''from'', AStr ''7@g.us''), (''participant'', AStr ''3@lid''),
     (''id'', AStr ''A''), (''t'', AStr ''5'')] (CList [removal])"


end
