(* ===== verification/Account_Identity.thy ===== *)
theory Account_Identity
  imports Pairing
begin

text \<open>
  What the client tells the server when it logs in or registers, and the check of the account that
  the server names after a successful pairing (\<^verbatim>\<open>utils/validate_connection.py\<close>). The
  signature scheme, MD5 and the protobuf encoding of the device's properties are arguments.
\<close>

section \<open>Bytes written as text\<close>

definition is_hex_text :: "string \<Rightarrow> bool" where
  "is_hex_text s \<longleftrightarrow> s \<noteq> [] \<and> list_all (\<lambda>c. hex_val c \<noteq> None) s"

text \<open>\<open>bytes.fromhex\<close> takes pairs of digits, with white space between pairs.\<close>

fun py_fromhex :: "string \<Rightarrow> bytes result" where
  "py_fromhex [] = Inr []"
| "py_fromhex [c] = (if is_space c then Inr [] else Inl (ValueError ''fromhex''))"
| "py_fromhex (c # d # s) =
     (if is_space c then py_fromhex (d # s)
      else case (hex_val c, hex_val d) of
        (Some h, Some l) \<Rightarrow> bindE (py_fromhex s) (\<lambda>r. Inr (word_of_nat (16 * h + l) # r))
      | _ \<Rightarrow> Inl (ValueError ''fromhex''))"

text \<open>\<open>base64.b64decode(s, validate=True)\<close>: only the alphabet, then the padding that completes four characters.\<close>

definition b64_strict :: "string \<Rightarrow> bytes result" where
  "b64_strict s =
     (let body = takeWhile (\<lambda>c. b64_value c \<noteq> None) s; pad = drop (length body) s
      in if list_all (\<lambda>c. c = CHR ''='') pad \<and> length s mod 4 = 0 \<and> length pad \<le> 2 then b64decode s
         else Inl (ValueError ''base64''))"

definition decode_text_bytes :: "string \<Rightarrow> bytes" where
  "decode_text_bytes value =
     (let t = py_strip value; prefers_hex = (even (length t) \<and> is_hex_text t) in
      if t = '''' then []
      else if prefers_hex then (case py_fromhex t of Inr b \<Rightarrow> b | Inl _ \<Rightarrow> [])
      else (case b64_strict t of
              Inr b \<Rightarrow> b
            | Inl _ \<Rightarrow> (case py_fromhex t of Inr b \<Rightarrow> b | Inl _ \<Rightarrow> utf8_encode t)))"

text \<open>An attribute as bytes; of a number \<open>bytes(n)\<close> makes that many zeros.\<close>

definition decode_encoded_bytes :: "attr_value \<Rightarrow> bytes result" where
  "decode_encoded_bytes v = (case v of
       AStr s \<Rightarrow> Inr (decode_text_bytes s)
     | ANone \<Rightarrow> Inr []
     | AInt i \<Rightarrow> if i < 0 then Inl (ValueError ''negative count'') else Inr (replicate (nat i) 0))"

definition decode_adv_secret_key :: "string \<Rightarrow> bytes" where
  "decode_adv_secret_key value =
     (let t = py_strip value in
      if t = '''' then []
      else (case b64_strict t of
              Inr b \<Rightarrow> b
            | Inl _ \<Rightarrow> (case py_fromhex t of Inr b \<Rightarrow> b | Inl _ \<Rightarrow> utf8_encode t)))"

section \<open>The account\<close>

record account_crypto =
  ac_hmac :: "bytes \<Rightarrow> bytes \<Rightarrow> bytes"
  ac_sign :: "bytes \<Rightarrow> bytes \<Rightarrow> bytes result"
  ac_verify :: "bytes \<Rightarrow> bytes \<Rightarrow> bytes \<Rightarrow> unit result"

record account =
  an_details :: bytes
  an_signature_key :: bytes
  an_device_signature :: bytes

record paired =
  pd_account :: account
  pd_jid :: string
  pd_lid :: string
  pd_name :: attr_value
  pd_platform :: attr_value
  pd_identity :: "string \<times> bytes"
  pd_reply :: node

definition ACCOUNT_SIG_PREFIX :: bytes where "ACCOUNT_SIG_PREFIX = [6, 0]"
definition DEVICE_SIG_PREFIX :: bytes where "DEVICE_SIG_PREFIX = [6, 1]"
definition HOSTED_ACCOUNT_SIG_PREFIX :: bytes where "HOSTED_ACCOUNT_SIG_PREFIX = [6, 5]"

text \<open>\<open>create_signal_identity\<close>, of device 0.\<close>

definition create_signal_identity :: "string \<Rightarrow> bytes \<Rightarrow> string \<times> bytes" where
  "create_signal_identity wid account_signature_key = (wid, generate_signal_pub_key account_signature_key)"

text \<open>Python's text of the dictionary of hexadecimal texts.\<close>

definition py_quoted :: "string \<Rightarrow> string" where
  "py_quoted s = [CHR 0x27] @ s @ [CHR 0x27]"

definition encode_signed_device_identity :: "account \<Rightarrow> bool \<Rightarrow> bytes" where
  "encode_signed_device_identity a include_signature_key =
     utf8_encode (''{'' @ py_quoted ''details'' @ '': '' @ py_quoted (bytes_hex (an_details a)) @ '', '' @
       py_quoted ''accountSignatureKey'' @ '': '' @
         (if include_signature_key \<and> an_signature_key a \<noteq> [] then py_quoted (bytes_hex (an_signature_key a)) else ''None'') @ '', '' @
       py_quoted ''deviceSignature'' @ '': '' @ py_quoted (bytes_hex (an_device_signature a)) @ ''}'')"

text \<open>The details: from an attribute, or the content.\<close>

definition account_details :: "node \<Rightarrow> bytes result" where
  "account_details n = (case attr_get (node_attrs n) ''details'' of
       AStr s \<Rightarrow> Inr (utf8_encode s)
     | _ \<Rightarrow> (case node_content n of
              CBytes b \<Rightarrow> Inr b
            | CStr s \<Rightarrow> Inr (decode_text_bytes s)
            | CNone \<Rightarrow> Inr []
            | CList l \<Rightarrow> (if l = [] then Inr [] else Inl TypeErr)
            | COther \<Rightarrow> Inl TypeErr))"

definition hmac_prefix :: "attrs \<Rightarrow> bytes" where
  "hmac_prefix a = (if attr_get a ''account_type'' = AStr ''HOSTED'' then HOSTED_ACCOUNT_SIG_PREFIX else [])"

definition signature_prefix :: "attrs \<Rightarrow> bytes" where
  "signature_prefix a = (if attr_get a ''device_type'' = AStr ''HOSTED'' then HOSTED_ACCOUNT_SIG_PREFIX else ACCOUNT_SIG_PREFIX)"

text \<open>The signature of the account over the own identity, and the own signature over both.\<close>

definition check_signature :: "account_crypto \<Rightarrow> key_pair \<Rightarrow> attrs \<Rightarrow> bytes \<Rightarrow> (bytes \<times> bytes) result" where
  "check_signature c identity a details =
     (if attr_truthy (attr_get a ''account_signature_key'') \<and> attr_truthy (attr_get a ''account_signature'') then
        bindE (decode_encoded_bytes (attr_get a ''account_signature_key'')) (\<lambda>key_bytes.
        bindE (decode_encoded_bytes (attr_get a ''account_signature'')) (\<lambda>sig_bytes.
          if \<not> curve_verify (ac_verify c) key_bytes (signature_prefix a @ details @ kp_public identity) sig_bytes
          then Inl (ValueError ''Failed to verify account signature'')
          else bindE (curve_sign (ac_sign c) (kp_private identity) (DEVICE_SIG_PREFIX @ details @ kp_public identity @ key_bytes)) (\<lambda>s.
            Inr (key_bytes, s))))
      else Inr (kp_public identity, []))"

definition check_hmac :: "account_crypto \<Rightarrow> string \<Rightarrow> attrs \<Rightarrow> bytes \<Rightarrow> unit result" where
  "check_hmac c adv_secret a details =
     bindE (decode_encoded_bytes (attr_get a ''hmac'')) (\<lambda>hmac_bytes.
       if hmac_bytes \<noteq> [] \<and> hmac_bytes \<noteq> ac_hmac c (decode_adv_secret_key adv_secret) (hmac_prefix a @ details)
       then Inl (ValueError ''Invalid account signature'') else Inr ())"

definition pair_device_sign :: "attr_value \<Rightarrow> attr_value \<Rightarrow> bytes \<Rightarrow> node" where
  "pair_device_sign msg_id key_index account_enc =
     Node ''iq'' [(''to'', AStr S_WHATSAPP_NET), (''type'', AStr ''result''), (''id'', if attr_truthy msg_id then msg_id else AStr '''')]
       (CList [Node ''pair-device-sign'' [] (CList [Node ''device-identity''
          [(''key-index'', AStr (if attr_truthy key_index then attr_str key_index else ''0''))] (CBytes account_enc)])])"

definition configure_successful_pairing :: "account_crypto \<Rightarrow> string \<Rightarrow> key_pair \<Rightarrow> node \<Rightarrow> paired result" where
  "configure_successful_pairing c adv_secret identity stanza =
     (let success = get_binary_node_child (Some stanza) ''pair-success''; child = get_binary_node_child success in
      case (child ''device-identity'', child ''device'') of
        (Some di, Some device) \<Rightarrow>
          let jid = attr_get (node_attrs device) ''jid''; lid = attr_get (node_attrs device) ''lid''; a = node_attrs di in
          if \<not> attr_truthy jid \<or> \<not> attr_truthy lid then Inl (ValueError ''pair success node missing jid/lid'')
          else
            bindE (account_details di) (\<lambda>details.
            bindE (check_hmac c adv_secret a details) (\<lambda>_.
            bindE (check_signature c identity a details) (\<lambda>(key_bytes, device_signature).
              let acc = \<lparr>an_details = details, an_signature_key = key_bytes, an_device_signature = device_signature\<rparr>
              in Inr \<lparr>pd_account = acc, pd_jid = attr_str jid, pd_lid = attr_str lid,
                      pd_name = (case child ''biz'' of None \<Rightarrow> ANone | Some b \<Rightarrow> attr_get (node_attrs b) ''name''),
                      pd_platform = (case child ''platform'' of None \<Rightarrow> ANone | Some p \<Rightarrow> attr_get (node_attrs p) ''name''),
                      pd_identity = create_signal_identity (attr_str lid) key_bytes,
                      pd_reply = pair_device_sign (attr_get (node_attrs stanza) ''id'') (attr_get a ''key-index'')
                                   (encode_signed_device_identity acc False)\<rparr>)))
      | _ \<Rightarrow> Inl (ValueError ''Missing device-identity or device in pair success node''))"

section \<open>Logging in and registering\<close>

record client_config =
  cc_version :: "int \<times> int \<times> int"
  cc_browser :: "string \<times> string"
  cc_country :: string
  cc_sync_full_history :: bool
  cc_md5 :: "bytes \<Rightarrow> bytes"
  cc_device_props :: "pydict \<Rightarrow> pyval"

definition get_user_agent :: "client_config \<Rightarrow> pydict" where
  "get_user_agent cfg = (let (a, b, c) = cc_version cfg in
     [(''appVersion'', PDict [(''primary'', PInt a), (''secondary'', PInt b), (''tertiary'', PInt c)]), (''platform'', PStr ''WEB''),
      (''releaseChannel'', PStr ''RELEASE''), (''osVersion'', PStr ''0.1''), (''device'', PStr ''Desktop''), (''osBuildNumber'', PStr ''0.1''),
      (''localeLanguageIso6391'', PStr ''en''), (''mnc'', PStr ''000''), (''mcc'', PStr ''000''),
      (''localeCountryIso31661Alpha2'', PStr (cc_country cfg))])"

definition get_web_info :: "client_config \<Rightarrow> pydict" where
  "get_web_info cfg = [(''webSubPlatform'', PStr
     (if cc_sync_full_history cfg \<and> snd (cc_browser cfg) = ''Desktop''
      then if fst (cc_browser cfg) = ''Mac OS'' then ''DARWIN'' else if fst (cc_browser cfg) = ''Windows'' then ''WIN32'' else ''WEB_BROWSER''
      else ''WEB_BROWSER''))]"

definition get_client_payload :: "client_config \<Rightarrow> pydict" where
  "get_client_payload cfg = [(''connectType'', PStr ''WIFI_UNKNOWN''), (''connectReason'', PStr ''USER_ACTIVATED''),
     (''userAgent'', PDict (get_user_agent cfg)), (''webInfo'', PDict (get_web_info cfg))]"

definition generate_login_node :: "string \<Rightarrow> client_config \<Rightarrow> pydict result" where
  "generate_login_node user_jid cfg =
     bindE (jid_decode (Some user_jid)) (\<lambda>decoded.
     bindE (case decoded of None \<Rightarrow> Inr 0 | Some d \<Rightarrow> if jid_user d = '''' then Inr 0 else py_int (jid_user d)) (\<lambda>username.
       Inr (get_client_payload cfg @ [(''passive'', PBool True), (''pull'', PBool True), (''username'', PInt username),
         (''device'', case decoded of None \<Rightarrow> PNone | Some d \<Rightarrow> (case jid_device d of None \<Rightarrow> PNone | Some k \<Rightarrow> PInt k)),
         (''lidDbMigrated'', PBool False)])))"

definition get_platform_type :: "string \<Rightarrow> string" where
  "get_platform_type platform = (let upper = map (\<lambda>c. if (97::nat) \<le> of_char c \<and> of_char c \<le> (122::nat) then char_of (of_char c - (32::nat)) else c) platform
     in if upper \<in> {''CHROME'', ''FIREFOX'', ''SAFARI'', ''EDGE''} then upper else ''CHROME'')"

definition history_sync_config :: pydict where
  "history_sync_config = [(''storageQuotaMb'', PInt 10240), (''inlineInitialPayloadInE2EeMsg'', PBool True), (''supportCallLogHistory'', PBool False),
     (''supportBotUserAgentChatHistory'', PBool True), (''supportCagReactionsAndPolls'', PBool True), (''supportBizHostedMsg'', PBool True),
     (''supportRecentSyncChunkMessageCountTuning'', PBool True), (''supportHostedGroupMsg'', PBool True), (''supportFbidBotChatHistory'', PBool True),
     (''supportMessageAssociation'', PBool True), (''supportGroupHistory'', PBool False)]"

definition companion_props :: "client_config \<Rightarrow> pydict" where
  "companion_props cfg = [(''os'', PStr (fst (cc_browser cfg))), (''platformType'', PStr (get_platform_type (snd (cc_browser cfg)))),
     (''requireFullSync'', PBool (cc_sync_full_history cfg)), (''historySyncConfig'', PDict history_sync_config),
     (''version'', PDict [(''primary'', PInt 10), (''secondary'', PInt 15), (''tertiary'', PInt 7)])]"

definition version_text :: "client_config \<Rightarrow> string" where
  "version_text cfg = (let (a, b, c) = cc_version cfg in int_str a @ ''.'' @ int_str b @ ''.'' @ int_str c)"

definition generate_registration_node :: "int \<Rightarrow> signed_key \<Rightarrow> bytes \<Rightarrow> client_config \<Rightarrow> pydict result" where
  "generate_registration_node registration_id signed_pre_key identity_public cfg =
     bindE (encode_big_endian registration_id 4) (\<lambda>regid.
     bindE (encode_big_endian (spk_id signed_pre_key) 3) (\<lambda>skey_id.
       Inr (get_client_payload cfg @ [(''passive'', PBool False), (''pull'', PBool False),
         (''devicePairingData'', PDict [(''buildHash'', PBytes (cc_md5 cfg (utf8_encode (version_text cfg)))),
            (''deviceProps'', cc_device_props cfg (companion_props cfg)), (''eRegid'', PBytes regid), (''eKeytype'', PBytes KEY_BUNDLE_TYPE),
            (''eIdent'', PBytes identity_public), (''eSkeyId'', PBytes skey_id), (''eSkeyVal'', PBytes (spk_public signed_pre_key)),
            (''eSkeySig'', PBytes (spk_signature signed_pre_key))])])))"

section \<open>What a successful pairing shows\<close>

lemma b64_values: "map b64_value b64_alphabet = map Some [0..<64]"
  by (simp add: b64_alphabet_def b64_value_def upt_rec)

lemma b64_value_alphabet: "n < 64 \<Longrightarrow> b64_value (b64_alphabet ! n) = Some n"
proof -
  assume n: "n < 64"
  have "length b64_alphabet = 64" by (simp add: b64_alphabet_def)
  then have "b64_value (b64_alphabet ! n) = map b64_value b64_alphabet ! n" using n by simp
  then show ?thesis using n by (simp add: b64_values)
qed

lemma b64_alphabet_not_pad: "n < 64 \<Longrightarrow> b64_alphabet ! n \<noteq> CHR ''=''"
proof
  assume "n < 64" "b64_alphabet ! n = CHR ''=''"
  then show False using b64_value_alphabet [of n] by (simp add: b64_value_def)
qed

lemma b64_from_digit:
  assumes "n < 64"
  shows "b64_from ((b64_alphabet ! n) # s) 0 left pads = b64_from s 1 n 0"
    and "b64_from ((b64_alphabet ! n) # s) 1 left pads = bindE (b64_from s 2 (n mod 16) 0) (\<lambda>r. Inr (word_of_nat (left * 4 + n div 16) # r))"
    and "b64_from ((b64_alphabet ! n) # s) 2 left pads = bindE (b64_from s 3 (n mod 4) 0) (\<lambda>r. Inr (word_of_nat (left * 16 + n div 4) # r))"
    and "b64_from ((b64_alphabet ! n) # s) 3 left pads = bindE (b64_from s 0 0 0) (\<lambda>r. Inr (word_of_nat (left * 64 + n) # r))"
  using assms by (simp_all add: b64_alphabet_not_pad b64_value_alphabet)

lemma byte_lt: "unat (a :: byte) < 256"
  using unsigned_less [of a, where ?'a = nat] by simp

lemma byte_digits:
  fixes a b c :: byte
  shows "unat a div 4 < 64" "unat a mod 4 * 16 + unat b div 16 < 64" "unat b mod 16 * 4 + unat c div 64 < 64" "unat c mod 64 < 64"
    "unat a mod 4 * 16 < 64" "unat b mod 16 * 4 < 64"
  using byte_lt [of a] byte_lt [of b] byte_lt [of c] by auto

lemma byte_parts:
  fixes a b c :: byte
  shows "word_of_nat (unat a div 4 * 4 + (unat a mod 4 * 16 + unat b div 16) div 16) = a"
    "word_of_nat ((unat a mod 4 * 16 + unat b div 16) mod 16 * 16 + (unat b mod 16 * 4 + unat c div 64) div 4) = b"
    "word_of_nat ((unat b mod 16 * 4 + unat c div 64) mod 4 * 64 + unat c mod 64) = c"
    "word_of_nat (unat a div 4 * 4 + unat a mod 4 * 16 div 16) = a"
    "word_of_nat ((unat a mod 4 * 16 + unat b div 16) mod 16 * 16 + unat b mod 16 * 4 div 4) = b"
proof -
  have b16: "unat b div 16 < 16" and c64: "unat c div 64 < 4" using byte_lt [of b] byte_lt [of c] by auto
  have p: "(unat a mod 4 * 16 + unat b div 16) div 16 = unat a mod 4" "(unat a mod 4 * 16 + unat b div 16) mod 16 = unat b div 16"
    "(unat b mod 16 * 4 + unat c div 64) div 4 = unat b mod 16" "(unat b mod 16 * 4 + unat c div 64) mod 4 = unat c div 64"
    using b16 c64 by simp_all
  have s: "unat a div 4 * 4 + unat a mod 4 = unat a" "unat b div 16 * 16 + unat b mod 16 = unat b" "unat c div 64 * 64 + unat c mod 64 = unat c"
    by (rule div_mult_mod_eq)+
  show "word_of_nat (unat a div 4 * 4 + (unat a mod 4 * 16 + unat b div 16) div 16) = a" unfolding p s by simp
  show "word_of_nat ((unat a mod 4 * 16 + unat b div 16) mod 16 * 16 + (unat b mod 16 * 4 + unat c div 64) div 4) = b"
    unfolding p s by simp
  show "word_of_nat ((unat b mod 16 * 4 + unat c div 64) mod 4 * 64 + unat c mod 64) = c" unfolding p s by simp
  have q: "unat a mod 4 * 16 div 16 = unat a mod 4" "unat b mod 16 * 4 div 4 = unat b mod 16" by simp_all
  show "word_of_nat (unat a div 4 * 4 + unat a mod 4 * 16 div 16) = a" unfolding q s by simp
  show "word_of_nat ((unat a mod 4 * 16 + unat b div 16) mod 16 * 16 + unat b mod 16 * 4 div 4) = b"
    unfolding p q s by simp
qed

declare b64_from.simps(2) [simp del]

lemma b64_from_pad:
  "b64_from ''=='' 2 left 0 = Inr []" "b64_from ''='' 3 left 0 = Inr []"
  by (simp_all add: b64_from.simps(2))

lemma b64_roundtrip: "b64_from (b64encode b) 0 0 0 = Inr b"
  by (induction b rule: b64encode.induct)
    (simp_all only: b64encode.simps append_Cons append_Nil b64_from_digit byte_digits byte_parts b64_from_pad b64_from.simps(1)
      bindE_simps if_True simp_thms)

lemma b64_shape:
  "length (b64encode b) mod 4 = 0 \<and> (\<exists>body pad. b64encode b = body @ pad \<and> list_all (\<lambda>c. b64_value c \<noteq> None) body \<and> pad \<in> {'''', ''='', ''==''})"
proof (induction b rule: b64encode.induct)
  case (4 a b c r)
  obtain body pad where r: "b64encode r = body @ pad" "list_all (\<lambda>c. b64_value c \<noteq> None) body" "pad \<in> {'''', ''='', ''==''}"
    using 4 by blast
  have "length (b64encode r) mod 4 = 0" using 4 by blast
  then have "(4 + length (b64encode r)) mod 4 = 0" by presburger
  then show ?case
    using r by (intro conjI exI [of _ "[b64_alphabet ! (unat a div 4), b64_alphabet ! (unat a mod 4 * 16 + unat b div 16),
      b64_alphabet ! (unat b mod 16 * 4 + unat c div 64), b64_alphabet ! (unat c mod 64)] @ body"] exI [of _ pad])
      (simp_all add: b64_value_alphabet byte_digits)
next
  case (2 a)
  then show ?case
    by (intro conjI exI [of _ "[b64_alphabet ! (unat a div 4), b64_alphabet ! (unat a mod 4 * 16)]"] exI [of _ "''==''"])
      (simp_all add: b64_value_alphabet byte_digits)
next
  case (3 a b)
  then show ?case
    by (intro conjI exI [of _ "[b64_alphabet ! (unat a div 4), b64_alphabet ! (unat a mod 4 * 16 + unat b div 16), b64_alphabet ! (unat b mod 16 * 4)]"]
        exI [of _ "''=''"])
      (simp_all add: b64_value_alphabet byte_digits)
qed auto

lemma b64_strict_roundtrip: "b64_strict (b64encode b) = Inr b"
proof -
  obtain body pad where s: "b64encode b = body @ pad" "list_all (\<lambda>c. b64_value c \<noteq> None) body" "pad \<in> {'''', ''='', ''==''}"
    using b64_shape by blast
  have "b64_value (CHR ''='') = None" by (simp add: b64_value_def)
  then have "takeWhile (\<lambda>c. b64_value c \<noteq> None) pad = []" using s(3) by auto
  then have "takeWhile (\<lambda>c. b64_value c \<noteq> None) (b64encode b) = body"
    using s(2) by (simp add: s(1) takeWhile_append2 list_all_iff)
  moreover have "list_all (\<lambda>c. c = CHR ''='') pad \<and> length pad \<le> 2" using s(3) by auto
  moreover have "b64decode (b64encode b) = Inr b" by (simp add: b64decode_def ascii_b64 b64_roundtrip)
  moreover have "drop (length body) (b64encode b) = pad" by (simp add: s(1))
  moreover have "length (b64encode b) - length body = length pad" by (simp add: s(1))
  ultimately show ?thesis using b64_shape [of b] by (simp add: b64_strict_def Let_def)
qed

lemma b64_no_space: "c \<in> set (b64encode b) \<Longrightarrow> \<not> is_space c"
proof -
  obtain body pad where s: "b64encode b = body @ pad" "list_all (\<lambda>c. b64_value c \<noteq> None) body" "pad \<in> {'''', ''='', ''==''}"
    using b64_shape by blast
  assume "c \<in> set (b64encode b)"
  then have "b64_value c \<noteq> None \<or> c = CHR ''=''" using s by (auto simp: list_all_iff)
  then show "\<not> is_space c" by (auto simp: b64_value_def is_space_def Let_def split: if_splits)
qed

lemma strip_b64: "py_strip (b64encode k) = b64encode k"
proof -
  have "dropWhile is_space s = s" if "\<And>c. c \<in> set s \<Longrightarrow> \<not> is_space c" for s using that by (cases s) simp_all
  from this [of "b64encode k"] this [of "rev (b64encode k)"] show ?thesis
    using b64_no_space [of _ k] by (simp add: py_strip_def)
qed

lemma adv_secret_read: "decode_adv_secret_key (b64encode k) = k"
proof -
  note strip_b64 [of k]
  moreover have "b64encode k = '''' \<longleftrightarrow> k = []" by (cases k rule: b64encode.cases) simp_all
  ultimately show ?thesis by (simp add: decode_adv_secret_key_def b64_strict_roundtrip Let_def)
qed

text \<open>The secret of theory \<open>Pairing\<close> authenticates the details: with it the phone's code for them is accepted.\<close>

lemma phone_hmac_accepted:
  assumes "attr_get a ''hmac'' = AStr (b64encode (ac_hmac c k (hmac_prefix a @ details)))" and "odd (length (b64encode (ac_hmac c k (hmac_prefix a @ details)))) \<or>
    \<not> is_hex_text (b64encode (ac_hmac c k (hmac_prefix a @ details)))"
  shows "check_hmac c (b64encode k) a details = Inr ()"
proof -
  let ?h = "ac_hmac c k (hmac_prefix a @ details)"
  note strip_b64 [of ?h]
  moreover have "b64encode ?h = '''' \<longleftrightarrow> ?h = []" by (cases ?h rule: b64encode.cases) simp_all
  ultimately have "decode_text_bytes (b64encode ?h) = ?h"
    using assms(2) by (auto simp: decode_text_bytes_def b64_strict_roundtrip Let_def)
  then show ?thesis by (simp add: check_hmac_def decode_encoded_bytes_def assms(1) adv_secret_read)
qed


text \<open>
  Finding: both are optional. A server that leaves them out pairs the client with any account, whatever
  the secret of the code or the QR image.
\<close>

definition bare_success :: "string \<Rightarrow> string \<Rightarrow> bytes \<Rightarrow> node" where
  "bare_success jid lid details = Node ''iq'' [(''id'', AStr ''1'')] (CList [Node ''pair-success'' [] (CList
     [Node ''device-identity'' [] (CBytes details), Node ''device'' [(''jid'', AStr jid), (''lid'', AStr lid)] CNone])])"

theorem unsigned_pairing_accepted:
  "\<exists>p. configure_successful_pairing c adv_secret identity (bare_success (x # jid) (y # lid) details) = Inr p \<and>
     pd_jid p = x # jid \<and> pd_lid p = y # lid \<and>
     pd_account p = \<lparr>an_details = details, an_signature_key = kp_public identity, an_device_signature = []\<rparr>"
  by (simp add: configure_successful_pairing_def bare_success_def Let_def account_details_def check_hmac_def check_signature_def
      decode_encoded_bytes_def get_binary_node_child_def get_binary_node_children_def attr_get_def)

section \<open>At a concrete input\<close>

definition sample_crypto :: account_crypto where
  "sample_crypto = \<lparr>ac_hmac = (\<lambda>k d. [sum_list k + sum_list d]), ac_sign = (\<lambda>k m. Inr (k @ m)),
     ac_verify = (\<lambda>k m s. if s = k @ take 1 m then Inr () else Inl ExternalError)\<rparr>"

definition sample_identity :: key_pair where
  "sample_identity = \<lparr>kp_public = [3], kp_private = [4]\<rparr>"

definition signed_identity_node :: node where
  "signed_identity_node = Node ''device-identity'' [(''hmac'', AStr ''0d''), (''account_signature_key'', AStr ''07''), (''account_signature'', AStr ''0706'')]
     (CBytes [8])"

definition signed_success :: node where
  "signed_success = Node ''iq'' [(''id'', AStr ''1'')] (CList [Node ''pair-success'' [] (CList
     [signed_identity_node, Node ''device'' [(''jid'', AStr ''11@s.whatsapp.net''), (''lid'', AStr ''22@lid'')] CNone])])"


end
