(* ===== verification/Query_Loop.thy ===== *)
theory Query_Loop
  imports Binary_Node
begin

text \<open>
  Queries of the server (\<^verbatim>\<open>query\<close> of \<^verbatim>\<open>socket/client.py\<close>) and the loop that
  receives their answers (\<^verbatim>\<open>_recv_loop\<close>, \<^verbatim>\<open>_dispatch_node\<close> of \<^verbatim>\<open>socket/socket.py\<close>). A
  query leaves a future under the id of its stanza and waits for it. The loop takes one stanza
  at a time: it first awaits the listeners of the stanza and then completes the future. Listeners
  run inside the loop; a query of theirs is one of the task \<open>Loop\<close>. Futures are numbered.
\<close>

section \<open>The operations\<close>

datatype task = Loop | Task nat

record query_state =
  qs_futures :: "node option list"
  qs_pending :: "attr_value \<Rightarrow> nat option"
  qs_waiting :: "task \<Rightarrow> (attr_value \<times> nat) option"
  qs_handled :: "node option"
  qs_counter :: int
  qs_returned :: "(task \<times> attr_value \<times> node option) list"

definition new_queries :: query_state where
  "new_queries = \<lparr>qs_futures = [], qs_pending = Map.empty, qs_waiting = Map.empty, qs_handled = None, qs_counter = 0, qs_returned = []\<rparr>"

definition next_message_id :: "query_state \<Rightarrow> string \<times> query_state" where
  "next_message_id s = (let c = qs_counter s + 1 in (''python.'' @ int_str c, s\<lparr>qs_counter := c\<rparr>))"

definition generate_message_tag :: "string \<Rightarrow> int \<Rightarrow> string \<times> int" where
  "generate_message_tag tag_prefix counter = (tag_prefix @ int_str (counter + 1), counter + 1)"

text \<open>A stanza without an id gets one. The future is there before the stanza is sent, and stays if sending raises.\<close>

definition query_id :: "node \<Rightarrow> query_state \<Rightarrow> attr_value \<times> query_state" where
  "query_id n s = (case map_of (node_attrs n) ''id'' of
       Some i \<Rightarrow> (i, s)
     | None \<Rightarrow> (let (i, s) = next_message_id s in (AStr i, s)))"

definition query :: "task \<Rightarrow> node \<Rightarrow> bool \<Rightarrow> query_state \<Rightarrow> query_state" where
  "query t n is_sent s =
     (let (i, s) = query_id n s; f = length (qs_futures s);
          s = s\<lparr>qs_futures := qs_futures s @ [None], qs_pending := (qs_pending s)(i \<mapsto> f)\<rparr>
      in if is_sent then s\<lparr>qs_waiting := (qs_waiting s)(t \<mapsto> (i, f))\<rparr> else s)"

text \<open>The end of a query, with its answer or, after the time-out, without one.\<close>

definition end_query :: "task \<Rightarrow> attr_value \<Rightarrow> node option \<Rightarrow> query_state \<Rightarrow> query_state" where
  "end_query t i r s = s\<lparr>qs_pending := (qs_pending s)(i := None), qs_waiting := (qs_waiting s)(t := None),
     qs_returned := qs_returned s @ [(t, i, r)]\<rparr>"

definition resolve_query :: "node \<Rightarrow> query_state \<Rightarrow> query_state" where
  "resolve_query n s =
     (let i = attr_get (node_attrs n) ''id'' in
      case (if attr_truthy i then qs_pending s i else None) of
        None \<Rightarrow> s
      | Some f \<Rightarrow> if qs_futures s ! f = None then s\<lparr>qs_futures := (qs_futures s)[f := Some n]\<rparr> else s)"

section \<open>Tasks and the loop\<close>

text \<open>
  A task that does not wait may ask; the loop's listeners only run while a stanza is handled. A
  listener that raises ends the handling of the stanza.
\<close>

inductive query_step :: "query_state \<Rightarrow> query_state \<Rightarrow> bool" where
  ask: "qs_waiting s t = None \<Longrightarrow> t = Loop \<longrightarrow> qs_handled s \<noteq> None \<Longrightarrow> query_step s (query t n is_sent s)"
| arrive: "qs_handled s = None \<Longrightarrow> query_step s (s\<lparr>qs_handled := Some n\<rparr>)"
| handled: "qs_handled s = Some n \<Longrightarrow> qs_waiting s Loop = None \<Longrightarrow> query_step s (resolve_query n (s\<lparr>qs_handled := None\<rparr>))"
| raised: "qs_handled s = Some n \<Longrightarrow> qs_waiting s Loop = None \<Longrightarrow> query_step s (s\<lparr>qs_handled := None\<rparr>)"
| answer: "qs_waiting s t = Some (i, f) \<Longrightarrow> qs_futures s ! f = Some n \<Longrightarrow> query_step s (end_query t i (Some n) s)"
| timed_out: "qs_waiting s t = Some (i, f) \<Longrightarrow> qs_futures s ! f = None \<Longrightarrow> query_step s (end_query t i None s)"

inductive query_reachable :: "query_state \<Rightarrow> bool" where
  start: "query_reachable new_queries"
| step: "query_reachable s \<Longrightarrow> query_step s s' \<Longrightarrow> query_reachable s'"

text \<open>
  Every future that is kept or waited for exists; one that a task waits for is only kept under the id
  of its query, and what it holds has that id.
\<close>

definition queries_ok :: "query_state \<Rightarrow> bool" where
  "queries_ok s \<longleftrightarrow>
     (\<forall>i f. qs_pending s i = Some f \<longrightarrow> f < length (qs_futures s)) \<and>
     (\<forall>t i f. qs_waiting s t = Some (i, f) \<longrightarrow> f < length (qs_futures s) \<and> (\<forall>j. qs_pending s j = Some f \<longrightarrow> j = i) \<and>
        (\<forall>n. qs_futures s ! f = Some n \<longrightarrow> attr_get (node_attrs n) ''id'' = i \<and> attr_truthy i)) \<and>
     (\<forall>t i n. (t, i, Some n) \<in> set (qs_returned s) \<longrightarrow> attr_get (node_attrs n) ''id'' = i \<and> attr_truthy i)"

text \<open>While a listener waits for an answer the loop stands still, and no answer has come.\<close>

definition loop_starves :: "query_state \<Rightarrow> bool" where
  "loop_starves s \<longleftrightarrow>
     (\<forall>i f. qs_waiting s Loop = Some (i, f) \<longrightarrow> qs_handled s \<noteq> None \<and> f < length (qs_futures s) \<and> qs_futures s ! f = None) \<and>
     (\<forall>i r. (Loop, i, r) \<in> set (qs_returned s) \<longrightarrow> r = None)"

lemma query_id_fields [simp]:
  "qs_futures (snd (query_id n s)) = qs_futures s" "qs_pending (snd (query_id n s)) = qs_pending s"
  "qs_waiting (snd (query_id n s)) = qs_waiting s" "qs_handled (snd (query_id n s)) = qs_handled s"
  "qs_returned (snd (query_id n s)) = qs_returned s"
  by (simp_all add: query_id_def next_message_id_def Let_def split: option.split)

lemma query_fields [simp]:
  "qs_futures (query t n b s) = qs_futures s @ [None]"
  "qs_pending (query t n b s) = (qs_pending s)(fst (query_id n s) \<mapsto> length (qs_futures s))"
  "qs_waiting (query t n b s) = (if b then (qs_waiting s)(t \<mapsto> (fst (query_id n s), length (qs_futures s))) else qs_waiting s)"
  "qs_handled (query t n b s) = qs_handled s" "qs_returned (query t n b s) = qs_returned s"
  by (simp_all add: query_def case_prod_unfold Let_def)

lemma end_query_fields [simp]:
  "qs_futures (end_query t i r s) = qs_futures s" "qs_pending (end_query t i r s) = (qs_pending s)(i := None)"
  "qs_waiting (end_query t i r s) = (qs_waiting s)(t := None)" "qs_handled (end_query t i r s) = qs_handled s"
  "qs_returned (end_query t i r s) = qs_returned s @ [(t, i, r)]"
  by (simp_all add: end_query_def)

lemma resolve_query_fields [simp]:
  "qs_pending (resolve_query n s) = qs_pending s" "qs_waiting (resolve_query n s) = qs_waiting s"
  "qs_handled (resolve_query n s) = qs_handled s" "qs_returned (resolve_query n s) = qs_returned s"
  "length (qs_futures (resolve_query n s)) = length (qs_futures s)"
  by (simp_all add: resolve_query_def Let_def split: option.split)

lemma nth_update_cases: "xs[i := x] ! j = y \<Longrightarrow> xs ! j = y \<or> i = j \<and> y = x"
  by (cases "i = j"; cases "j < length xs") (simp_all add: list_update_beyond)

lemma resolve_query_result:
  "qs_futures (resolve_query n s) ! f = Some m \<Longrightarrow> qs_futures s ! f = Some m \<or>
     m = n \<and> attr_truthy (attr_get (node_attrs n) ''id'') \<and> qs_pending s (attr_get (node_attrs n) ''id'') = Some f"
  by (auto simp: resolve_query_def Let_def dest!: nth_update_cases split: option.splits if_splits)

lemma queries_ok_query: "queries_ok s \<Longrightarrow> queries_ok (query t n b s)"
  unfolding queries_ok_def
  apply (intro conjI)
  subgoal by (auto simp: less_Suc_eq split: if_splits)
  subgoal by (fastforce simp: nth_append split: if_splits)
  subgoal by simp
  done

lemma queries_ok_resolve: "queries_ok s \<Longrightarrow> queries_ok (resolve_query n s)"
  unfolding queries_ok_def
  apply (intro conjI)
  subgoal by simp
  subgoal by (auto dest!: resolve_query_result) blast+
  subgoal by simp
  done

lemma queries_ok_step: "query_step s s' \<Longrightarrow> queries_ok s \<Longrightarrow> queries_ok s'"
proof (induction rule: query_step.induct)
  case (handled s n)
  then have "queries_ok (s\<lparr>qs_handled := None\<rparr>)" by (simp add: queries_ok_def)
  then show ?case by (rule queries_ok_resolve)
next
  case (answer s t i f n)
  then show ?case unfolding queries_ok_def by (auto split: if_splits)
next
  case (timed_out s t i f)
  then show ?case unfolding queries_ok_def by (auto split: if_splits)
qed (auto simp: queries_ok_query, simp_all add: queries_ok_def)

lemma loop_starves_step: "query_step s s' \<Longrightarrow> loop_starves s \<Longrightarrow> loop_starves s'"
proof (induction rule: query_step.induct)
  case (ask s t n b)
  then show ?case by (auto simp: loop_starves_def nth_append split: if_splits)
next
  case (answer s t i f n)
  then show ?case by (auto simp: loop_starves_def split: if_splits)
qed (auto simp: loop_starves_def split: if_splits)

lemma reachable_queries_ok: "query_reachable s \<Longrightarrow> queries_ok s"
  by (induction rule: query_reachable.induct) (blast intro: queries_ok_step | simp add: queries_ok_def new_queries_def)+

lemma reachable_loop_starves: "query_reachable s \<Longrightarrow> loop_starves s"
  by (induction rule: query_reachable.induct) (blast intro: loop_starves_step | simp add: loop_starves_def new_queries_def)+


section \<open>What a query returns\<close>

text \<open>
  C25. A query only ever returns a stanza that carries its id: whatever other tasks ask at the same time and in
  whatever order stanzas arrive, an answer is never taken for that of another query.
\<close>

theorem query_answer_matches:
  assumes "query_reachable s" and "(t, i, Some n) \<in> set (qs_returned s)"
  shows "attr_get (node_attrs n) ''id'' = i"
  using reachable_queries_ok [OF assms(1)] assms(2) by (auto simp: queries_ok_def)

text \<open>
  A query that a listener of a stanza makes is never answered, because the loop that would receive the
  answer waits for the listener: it can only time out. The listeners that log in, refresh
  sessions or fetch collections query in this way.
\<close>

theorem listener_query_starves:
  assumes "query_reachable s" and "(Loop, i, r) \<in> set (qs_returned s)"
  shows "r = None"
  using reachable_loop_starves [OF assms(1)] assms(2) by (simp add: loop_starves_def)

text \<open>
  C26. Any other query is answered when its stanza arrives: if the future under its id is its own, the loop
  takes the stanza, hands it over, and the query returns it.
\<close>

theorem query_answered:
  assumes "query_reachable s" and "qs_waiting s t = Some (i, f)" and "qs_pending s i = Some f" and "qs_futures s ! f = None"
    and "qs_handled s = None" and "attr_get (node_attrs n) ''id'' = i" and "attr_truthy i"
  shows "\<exists>s1 s2 s3. query_step s s1 \<and> query_step s1 s2 \<and> query_step s2 s3 \<and> qs_returned s3 = qs_returned s @ [(t, i, Some n)] \<and>
    qs_waiting s3 t = None \<and> qs_handled s3 = None"
proof -
  have f: "f < length (qs_futures s)" using reachable_queries_ok [OF assms(1)] assms(2) by (auto simp: queries_ok_def)
  have idle: "qs_waiting s Loop = None"
    using reachable_loop_starves [OF assms(1)] assms(5) by (cases "qs_waiting s Loop") (auto simp: loop_starves_def)
  let ?s1 = "s\<lparr>qs_handled := Some n\<rparr>"
  let ?s2 = "resolve_query n (?s1\<lparr>qs_handled := None\<rparr>)"
  have "query_step s ?s1" using assms(5) by (rule arrive)
  moreover have "query_step ?s1 ?s2" by (rule handled) (simp_all add: idle)
  moreover have "query_step ?s2 (end_query t i (Some n) ?s2)"
    by (rule answer [where f = f]) (simp_all add: resolve_query_def assms(2-7) f)
  moreover have "qs_returned (end_query t i (Some n) ?s2) = qs_returned s @ [(t, i, Some n)]"
    "qs_waiting (end_query t i (Some n) ?s2) t = None" "qs_handled (end_query t i (Some n) ?s2) = None" by simp_all
  ultimately show ?thesis by blast
qed

text \<open>The tags that the socket makes for its queries differ, so no query displaces another.\<close>

fun message_tags :: "string \<Rightarrow> int \<Rightarrow> nat \<Rightarrow> string list" where
  "message_tags tag_prefix c 0 = []"
| "message_tags tag_prefix c (Suc k) = (let (t, c') = generate_message_tag tag_prefix c in t # message_tags tag_prefix c' k)"

lemma message_tags_form: "message_tags tag_prefix c k = map (\<lambda>j. tag_prefix @ int_str (c + int j)) [1..<Suc k]"
proof (induction k arbitrary: c)
  case (Suc k)
  have "map (\<lambda>j. tag_prefix @ int_str (c + 1 + int j)) [1..<Suc k] = map (\<lambda>j. tag_prefix @ int_str (c + int j)) [2..<Suc (Suc k)]"
    by (simp add: map_Suc_upt [symmetric] numeral_2_eq_2 comp_def algebra_simps del: upt_Suc)
  then show ?case
    by (simp add: Suc generate_message_tag_def upt_conv_Cons numeral_2_eq_2 del: upt_Suc)
qed simp

lemma message_tags_distinct:
  assumes "0 \<le> c" shows "distinct (message_tags tag_prefix c k)"
proof -
  have "inj_on (\<lambda>j. tag_prefix @ int_str (c + int j)) (set [1..<Suc k])"
  proof (rule inj_onI)
    fix i j assume "tag_prefix @ int_str (c + int i) = tag_prefix @ int_str (c + int j)"
    then have "py_int (int_str (c + int i)) = py_int (int_str (c + int j))" by simp
    then show "i = j" using assms by (simp add: py_int_int_str)
  qed
  then show ?thesis by (simp add: message_tags_form distinct_map del: upt_Suc)
qed

text \<open>
  Finding: when sending the stanza raises, the future stays under its id; the clean-up only covers the
  waiting.
\<close>

lemma failed_send_leaves_future:
  "\<exists>i. qs_pending (query t n False s) i = Some (length (qs_futures s)) \<and> qs_waiting (query t n False s) = qs_waiting s"
  by auto

text \<open>
  Finding: the answer is handed over after the listeners; when one of them raises, the query that waits for
  this very stanza is left to time out.
\<close>

lemma raising_listener_loses_answer:
  assumes "qs_handled s = Some n" and "qs_waiting s Loop = None"
  shows "query_step s (s\<lparr>qs_handled := None\<rparr>)" and "qs_futures (s\<lparr>qs_handled := None\<rparr>) = qs_futures s"
  using assms by (auto intro: raised)

section \<open>At concrete inputs\<close>

definition sample_query :: "string \<Rightarrow> node" where
  "sample_query i = Node ''iq'' [(''id'', AStr i)] CNone"

lemma sample_run: "query_reachable (query (Task 1) (sample_query ''a'') True new_queries)"
  by (rule query_reachable.step [OF query_reachable.start]) (rule ask, simp_all add: new_queries_def)

definition answered_once :: query_state where
  "answered_once = end_query (Task 1) (AStr ''a'') (Some (sample_query ''a''))
     (resolve_query (sample_query ''a'') (query (Task 1) (sample_query ''a'') True new_queries\<lparr>qs_handled := None\<rparr>))"

definition starved_once :: query_state where
  "starved_once = end_query Loop (AStr ''b'') None (query Loop (sample_query ''b'') True (new_queries\<lparr>qs_handled := Some (sample_query ''c'')\<rparr>))"

lemma answered_once_reachable: "query_reachable answered_once"
proof -
  let ?s = "query (Task 1) (sample_query ''a'') True new_queries"
  have "query_reachable (?s\<lparr>qs_handled := Some (sample_query ''a'')\<rparr>)"
    by (rule query_reachable.step [OF sample_run]) (rule arrive, simp add: new_queries_def)
  then have "query_reachable (resolve_query (sample_query ''a'') (?s\<lparr>qs_handled := Some (sample_query ''a''), qs_handled := None\<rparr>))"
    by (rule query_reachable.step) (rule handled, simp_all add: new_queries_def)
  moreover have "query_step (resolve_query (sample_query ''a'') (?s\<lparr>qs_handled := Some (sample_query ''a''), qs_handled := None\<rparr>)) answered_once"
    unfolding answered_once_def
    by (simp, rule answer [where f = 0]) (simp_all add: resolve_query_def sample_query_def query_id_def new_queries_def attr_get_def Let_def)
  ultimately show ?thesis by (rule query_reachable.step)
qed

lemma starved_once_reachable: "query_reachable starved_once"
proof -
  have "query_reachable (new_queries\<lparr>qs_handled := Some (sample_query ''c'')\<rparr>)"
    by (rule query_reachable.step [OF query_reachable.start]) (rule arrive, simp add: new_queries_def)
  then have "query_reachable (query Loop (sample_query ''b'') True (new_queries\<lparr>qs_handled := Some (sample_query ''c'')\<rparr>))"
    by (rule query_reachable.step) (rule ask, simp_all add: new_queries_def)
  from query_reachable.step [OF this timed_out] show ?thesis
    by (simp add: starved_once_def sample_query_def query_id_def new_queries_def)
qed

theorem query_answer_matches_witness: "attr_get (node_attrs (sample_query ''a'')) ''id'' = AStr ''a''"
  by (rule query_answer_matches [OF answered_once_reachable, of "Task 1"]) (simp add: answered_once_def)

theorem listener_query_starves_witness: "snd (snd (hd (qs_returned starved_once))) = None"
  by (rule listener_query_starves [OF starved_once_reachable, of "AStr ''b''"]) (simp add: starved_once_def new_queries_def)

theorem query_answered_witness:
  "\<exists>s1 s2 s3. query_step (query (Task 1) (sample_query ''a'') True new_queries) s1 \<and> query_step s1 s2 \<and> query_step s2 s3 \<and>
    qs_returned s3 = qs_returned (query (Task 1) (sample_query ''a'') True new_queries) @ [(Task 1, AStr ''a'', Some (sample_query ''a''))] \<and>
    qs_waiting s3 (Task 1) = None \<and> qs_handled s3 = None"
  by (rule query_answered [OF sample_run, of _ _ 0]) (simp_all add: new_queries_def query_id_def sample_query_def attr_get_def)

end
