(* ===== verification/Core_Socket.thy ===== *)
theory Core_Socket
  imports Account_Identity Notifications Query_Loop
begin

text \<open>
  The core of the socket (\<^verbatim>\<open>socket/socket.py\<close>): the end of a connection, keeping it alive, logging
  in and pairing, and the credentials. What is sent and emitted is kept in order; of the listeners only
  the socket's own one of \<open>creds.update\<close> runs. Whether a stanza can be sent, the answers
  to queries, the clock and the closing of the transport are arguments. The credentials are a
  dictionary by field names; pre-keys have their own state (theory \<open>Pre_Keys\<close>).
\<close>

section \<open>State\<close>

record 's core_state =
  co_creds :: pydict
  co_closed :: bool
  co_keep_alive :: bool
  co_receiving :: bool
  co_qr :: bool
  co_buffered :: bool
  co_flushes :: nat
  co_offset :: int
  co_listening :: bool
  co_events :: "(string \<times> pyval) list"
  co_sent :: "node list"
  co_keys :: "'s upload_state"

record 's core_env =
  ce_open :: bool
  ce_now :: int
  ce_send :: "node \<Rightarrow> unit result"
  ce_query :: "node \<Rightarrow> node result"
  ce_tag :: string
  ce_close :: "unit result"
  ce_crypto :: account_crypto
  ce_qr_timeout :: "int option"
  ce_keep_alive_ms :: int
  ce_get :: "string \<Rightarrow> string list \<Rightarrow> 's \<Rightarrow> key_pair lookup \<times> 's"
  ce_put :: "key_pair data_set \<Rightarrow> 's \<Rightarrow> 's"
  ce_gen :: "int \<Rightarrow> key_pair"
  ce_uploading :: "unit result option"
  ce_answers :: "nat \<Rightarrow> upload_answer"

definition and_then :: "'s outcome \<Rightarrow> ('s \<Rightarrow> 's outcome) \<Rightarrow> 's outcome" where
  "and_then r f = (case r of (Some e, s) \<Rightarrow> (Some e, s) | (None, s) \<Rightarrow> f s)"

text \<open>\<open>except Exception\<close> around a statement whose error is only logged.\<close>

definition logged :: "'s outcome \<Rightarrow> 's outcome" where
  "logged r = (None, snd r)"

lemma and_then_simps [simp]: "and_then (None, s) f = f s" "and_then (Some e, s) f = (Some e, s)"
  by (simp_all add: and_then_def)

definition co_emit :: "string \<Rightarrow> pyval \<Rightarrow> 's core_state \<Rightarrow> 's core_state" where
  "co_emit k v st = st\<lparr>co_events := co_events st @ [(k, v)]\<rparr>"

definition co_send :: "'s core_env \<Rightarrow> node \<Rightarrow> 's core_state \<Rightarrow> 's core_state outcome" where
  "co_send env n st = (case ce_send env n of Inl e \<Rightarrow> (Some e, st) | Inr _ \<Rightarrow> (None, st\<lparr>co_sent := co_sent st @ [n]\<rparr>))"

definition co_query :: "'s core_env \<Rightarrow> node \<Rightarrow> (node \<Rightarrow> 's core_state \<Rightarrow> 's core_state outcome) \<Rightarrow> 's core_state \<Rightarrow> 's core_state outcome" where
  "co_query env n f st =
     (let st = st\<lparr>co_sent := co_sent st @ [n]\<rparr> in case ce_query env n of Inl e \<Rightarrow> (Some e, st) | Inr r \<Rightarrow> f r st)"

section \<open>The end of a connection\<close>

text \<open>\<open>disconnect\<close>; an error of the transport is passed on before the event.\<close>

definition disconnect :: "'s core_env \<Rightarrow> 's core_state \<Rightarrow> 's core_state outcome" where
  "disconnect env st =
     (let st' = st\<lparr>co_keep_alive := False, co_qr := False, co_receiving := False\<rparr>
      in case ce_close env of
           Inl e \<Rightarrow> (Some e, st')
         | Inr _ \<Rightarrow> (None, if co_closed st then st' else co_emit ''connection.update'' (PDict [(''connection'', PStr ''close'')]) st'))"

text \<open>\<open>end\<close>, with the text of the error; the listeners of the connection's state are removed after the event.\<close>

definition last_disconnect :: "'s core_env \<Rightarrow> string \<Rightarrow> pyval" where
  "last_disconnect env message = PDict [(''connection'', PStr ''close''),
     (''lastDisconnect'', PDict [(''error'', PStr message), (''date'', PInt (ce_now env))])]"

definition end_connection :: "'s core_env \<Rightarrow> string \<Rightarrow> 's core_state \<Rightarrow> 's core_state outcome" where
  "end_connection env message st =
     (if co_closed st then (None, st)
      else and_then (disconnect env (st\<lparr>co_closed := True, co_buffered := False, co_keep_alive := False\<rparr>)) (\<lambda>st.
             (None, (co_emit ''connection.update'' (last_disconnect env message) st)\<lparr>co_listening := False\<rparr>)))"

definition handle_stream_error_node :: "'s core_env \<Rightarrow> string \<times> int \<Rightarrow> 's core_state \<Rightarrow> 's core_state outcome" where
  "handle_stream_error_node env error st =
     end_connection env (''Stream Errored ('' @ fst error @ '') ['' @ int_str (snd error) @ '']'') st"

definition handle_failure_node :: "'s core_env \<Rightarrow> node \<Rightarrow> 's core_state \<Rightarrow> 's core_state outcome" where
  "handle_failure_node env n st =
     (case attr_int_or (attr_get (node_attrs n) ''reason'') 500 of
        Inl e \<Rightarrow> (Some e, st)
      | Inr reason \<Rightarrow> end_connection env (''Connection Failure ('' @ int_str reason @ '')'') st)"

definition handle_xmlstreamend_node :: "'s core_env \<Rightarrow> 's core_state \<Rightarrow> 's core_state outcome" where
  "handle_xmlstreamend_node env st = end_connection env ''Connection Terminated by Server'' st"

text \<open>A turn of the loop that keeps the connection alive; \<open>last\<close> is the time at which something was received.\<close>

definition ping_node :: "string \<Rightarrow> node" where
  "ping_node tag = Node ''iq'' [(''id'', AStr tag), (''to'', AStr S_WHATSAPP_NET), (''type'', AStr ''get''), (''xmlns'', AStr ''w:p'')]
     (CList [Node ''ping'' [] CNone])"

definition keep_alive_turn :: "'s core_env \<Rightarrow> int \<Rightarrow> 's core_state \<Rightarrow> 's core_state outcome" where
  "keep_alive_turn env last_recv st =
     (let interval_ms = (if ce_keep_alive_ms env = 0 then 30000 else ce_keep_alive_ms env) in
      if ce_now env - last_recv > interval_ms + 5000 then end_connection env ''Connection was lost'' st
      else if \<not> ce_open env then (None, st)
      else logged (co_query env (ping_node (ce_tag env)) (\<lambda>_ st. (None, st)) st))"

section \<open>Time\<close>

definition update_server_time_offset :: "'s core_env \<Rightarrow> node \<Rightarrow> 's core_state \<Rightarrow> 's core_state" where
  "update_server_time_offset env n st =
     (let t = attr_get (node_attrs n) ''t'' in
      case (if attr_truthy t then (case t of AStr s \<Rightarrow> py_int s | AInt i \<Rightarrow> Inr i | ANone \<Rightarrow> Inl TypeErr) else Inr 0) of
        Inl _ \<Rightarrow> st
      | Inr parsed \<Rightarrow> if parsed \<le> 0 then st else st\<lparr>co_offset := parsed * 1000 - ce_now env\<rparr>)"

definition day_ms :: int where "day_ms = 24 * 60 * 60 * 1000"
definition week_ms :: int where "week_ms = 7 * 24 * 60 * 60 * 1000"

definition get_unified_session_id :: "'s core_env \<Rightarrow> 's core_state \<Rightarrow> string" where
  "get_unified_session_id env st = int_str ((ce_now env + co_offset st + 3 * day_ms) mod week_ms)"

definition send_unified_session :: "'s core_env \<Rightarrow> 's core_state \<Rightarrow> 's core_state" where
  "send_unified_session env st =
     (if ce_open env
      then snd (co_send env (Node ''ib'' [] (CList [Node ''unified_session'' [(''id'', AStr (get_unified_session_id env st))] CNone])) st)
      else st)"

section \<open>The credentials\<close>

text \<open>The fields of \<open>AuthenticationCreds\<close> with their aliases.\<close>

definition creds_fields :: "(string \<times> string) list" where
  "creds_fields = [(''noise_key'', ''noiseKey''), (''pairing_ephemeral_key_pair'', ''pairingEphemeralKeyPair''),
     (''signed_identity_key'', ''signedIdentityKey''), (''signed_pre_key'', ''signedPreKey''), (''registration_id'', ''registrationId''),
     (''adv_secret_key'', ''advSecretKey''), (''processed_history_messages'', ''processedHistoryMessages''),
     (''next_pre_key_id'', ''nextPreKeyId''), (''first_unuploaded_pre_key_id'', ''firstUnuploadedPreKeyId''),
     (''account_sync_counter'', ''accountSyncCounter''), (''account_settings'', ''accountSettings''), (''registered'', ''registered''),
     (''pairing_code'', ''pairingCode''), (''last_prop_hash'', ''lastPropHash''), (''routing_info'', ''routingInfo''),
     (''additional_data'', ''additional_data''), (''me'', ''me''), (''account'', ''account''), (''signal_identities'', ''signalIdentities''),
     (''my_app_state_key_id'', ''myAppStateKeyId''), (''last_account_sync_timestamp'', ''lastAccountSyncTimestamp''),
     (''platform'', ''platform'')]"

definition set_creds_field :: "pydict \<Rightarrow> string \<times> string \<Rightarrow> pydict \<Rightarrow> pydict" where
  "set_creds_field update f creds =
     (case map_of update (fst f) of
        Some v \<Rightarrow> dict_set (fst f) v creds
      | None \<Rightarrow> (case map_of update (snd f) of Some v \<Rightarrow> dict_set (fst f) v creds | None \<Rightarrow> creds))"

definition me_name :: "pydict \<Rightarrow> pyval" where
  "me_name creds = (case py_get ''me'' creds of PDict d \<Rightarrow> py_get ''name'' d | _ \<Rightarrow> PNone)"

definition presence_node :: "pyval \<Rightarrow> node" where
  "presence_node name = Node ''presence'' [(''name'', case name of PStr s \<Rightarrow> AStr s | PInt i \<Rightarrow> AInt i | _ \<Rightarrow> ANone)] CNone"

text \<open>A new name is announced; failing to send it or to store the credentials is only logged.\<close>

definition handle_creds_update :: "'s core_env \<Rightarrow> pydict \<Rightarrow> 's core_state \<Rightarrow> 's core_state" where
  "handle_creds_update env update st =
     (let creds = fold (set_creds_field update) creds_fields (co_creds st); new_name = me_name creds; st' = st\<lparr>co_creds := creds\<rparr>
      in if truthy new_name \<and> me_name (co_creds st) \<noteq> new_name then snd (co_send env (presence_node new_name) st') else st')"

definition emit_creds :: "'s core_env \<Rightarrow> pydict \<Rightarrow> 's core_state \<Rightarrow> 's core_state" where
  "emit_creds env update st = handle_creds_update env update (co_emit ''creds.update'' (PDict update) st)"

definition creds_me :: "pydict \<Rightarrow> pydict" where
  "creds_me creds = dict_or_empty (py_get ''me'' creds)"

definition creds_key_pair :: "string \<Rightarrow> pydict \<Rightarrow> key_pair" where
  "creds_key_pair k creds = (let d = dict_or_empty (py_get k creds); b = (\<lambda>v. case v of PBytes b \<Rightarrow> b | _ \<Rightarrow> [])
     in \<lparr>kp_public = b (py_get ''public'' d), kp_private = b (py_get ''private'' d)\<rparr>)"

section \<open>Pairing by a code on the screen\<close>

definition result_iq :: "node \<Rightarrow> node" where
  "result_iq stanza = Node ''iq'' [(''to'', AStr S_WHATSAPP_NET), (''type'', AStr ''result''), (''id'', attr_default (node_attrs stanza) ''id'' '''')] CNone"

definition qr_text :: "pydict \<Rightarrow> string \<Rightarrow> string" where
  "qr_text creds ref = ref @ '','' @ b64encode (kp_public (creds_key_pair ''noise_key'' creds)) @ '','' @
     b64encode (kp_public (creds_key_pair ''signed_identity_key'' creds)) @ '','' @ text_or_empty (py_get ''adv_secret_key'' creds)"

definition ref_text :: "node \<Rightarrow> string" where
  "ref_text n = (case decode_text (node_content n) of None \<Rightarrow> '''' | Some s \<Rightarrow> s)"

text \<open>
  The task that shows one code after the other, with the milliseconds it sleeps. \<open>turns\<close> says of each
  turn of its loop whether the transport is open; it is cancelled in the sleep before the first one missing.
\<close>

fun show_codes ::
    "'s core_env \<Rightarrow> pydict \<Rightarrow> int \<Rightarrow> int \<Rightarrow> bool list \<Rightarrow> node list \<Rightarrow> 's core_state \<Rightarrow> int list \<times> 's core_state outcome" where
  "show_codes env creds wait next_wait turns [] st = ([], end_connection env ''QR refs attempts ended'' st)"
| "show_codes env creds wait next_wait [] (r # refs) st = ([], None, st)"
| "show_codes env creds wait next_wait (is_open # turns) (r # refs) st =
     (if \<not> is_open then ([], None, st)
      else if ref_text r = '''' then show_codes env creds wait next_wait turns refs st
      else let (slept, x) = show_codes env creds next_wait next_wait turns refs
                 (co_emit ''connection.update'' (PDict [(''qr'', PStr (qr_text creds (ref_text r)))]) st)
           in (wait # slept, x))"

definition handle_pair_device_node :: "'s core_env \<Rightarrow> node \<Rightarrow> 's core_state \<Rightarrow> node list \<times> 's core_state outcome" where
  "handle_pair_device_node env stanza st =
     (case co_send env (result_iq stanza) st of
        (Some e, st) \<Rightarrow> ([], Some e, st)
      | (None, st) \<Rightarrow>
          let refs = get_binary_node_children (get_binary_node_child (Some stanza) ''pair-device'') ''ref''
          in (refs, None, if refs = [] then st else st\<lparr>co_qr := True\<rparr>))"

definition run_codes :: "'s core_env \<Rightarrow> bool list \<Rightarrow> node list \<Rightarrow> 's core_state \<Rightarrow> int list \<times> 's core_state outcome" where
  "run_codes env turns refs st =
     (let t = (\<lambda>d. case ce_qr_timeout env of None \<Rightarrow> d | Some i \<Rightarrow> if i = 0 then d else i)
      in show_codes env (co_creds st) (t 60000) (t 20000) turns refs st)"

section \<open>The account is paired\<close>

text \<open>\<open>SignalIdentity.model_dump\<close>, and the update of the credentials.\<close>

definition identity_value :: "string \<times> bytes \<Rightarrow> pyval" where
  "identity_value i = PDict [(''identifier'', PDict [(''name'', PStr (fst i)), (''deviceId'', PInt 0)]), (''name'', PStr (fst i)),
     (''deviceId'', PInt 0), (''identifierKey'', PBytes (snd i))]"

definition account_value :: "account \<Rightarrow> pyval" where
  "account_value a = PDict [(''details'', PBytes (an_details a)), (''accountSignatureKey'', PBytes (an_signature_key a)),
     (''deviceSignature'', PBytes (an_device_signature a))]"

definition pairing_update :: "pydict \<Rightarrow> paired \<Rightarrow> pydict" where
  "pairing_update creds p =
     [(''account'', account_value (pd_account p)),
      (''me'', PDict [(''id'', PStr (pd_jid p)), (''name'', attr_val (pd_name p)), (''lid'', PStr (pd_lid p))]),
      (''signalIdentities'', PList (list_or_empty (py_get ''signal_identities'' creds) @ [identity_value (pd_identity p)])),
      (''platform'', attr_val (pd_platform p))]"

definition new_login :: "'s core_state \<Rightarrow> 's core_state" where
  "new_login st = co_emit ''connection.update'' (PDict [(''isNewLogin'', PBool True), (''qr'', PNone)]) st"

text \<open>What follows whatever error: the device of the stanza is taken without the checks.\<close>

definition pair_anyway :: "'s core_env \<Rightarrow> node \<Rightarrow> 's core_state \<Rightarrow> 's core_state outcome" where
  "pair_anyway env stanza st =
     (let a = (case get_binary_node_child (get_binary_node_child (Some stanza) ''pair-success'') ''device'' of
                 None \<Rightarrow> [] | Some d \<Rightarrow> node_attrs d);
          jid = attr_get a ''jid''; lid = attr_get a ''lid''; me = dict_set ''id'' (attr_val jid) (creds_me (co_creds st));
          me = (if attr_truthy lid then dict_set ''lid'' (attr_val lid) me else me);
          st = (if attr_truthy jid then new_login (emit_creds env [(''me'', PDict me)] st) else st)
      in co_send env (result_iq stanza) st)"

definition handle_pair_success_node :: "'s core_env \<Rightarrow> node \<Rightarrow> 's core_state \<Rightarrow> 's core_state outcome" where
  "handle_pair_success_node env stanza st =
     (let st = update_server_time_offset env stanza st; creds = co_creds st in
      case configure_successful_pairing (ce_crypto env) (text_or_empty (py_get ''adv_secret_key'' creds)) (creds_key_pair ''signed_identity_key'' creds) stanza of
        Inl e \<Rightarrow> pair_anyway env stanza st
      | Inr p \<Rightarrow>
          (case co_send env (pd_reply p) (new_login (emit_creds env (pairing_update creds p) st)) of
             (Some e, st) \<Rightarrow> pair_anyway env stanza st
           | (None, st) \<Rightarrow> (None, send_unified_session env st)))"

definition handle_iq_node :: "'s core_env \<Rightarrow> node \<Rightarrow> 's core_state \<Rightarrow> node list \<times> 's core_state outcome" where
  "handle_iq_node env n st =
     (if get_binary_node_child (Some n) ''pair-device'' \<noteq> None \<and> attr_get (node_attrs n) ''type'' = AStr ''set''
      then handle_pair_device_node env n st
      else if get_binary_node_child (Some n) ''pair-success'' \<noteq> None then ([], handle_pair_success_node env n st)
      else ([], None, st))"

section \<open>Logging in\<close>

definition passive_iq :: "string \<Rightarrow> node" where
  "passive_iq tag = Node ''iq'' [(''to'', AStr S_WHATSAPP_NET), (''xmlns'', AStr ''passive''), (''type'', AStr ''set'')] (CList [Node tag [] CNone])"

definition send_passive_iq :: "'s core_env \<Rightarrow> string \<Rightarrow> 's core_state \<Rightarrow> 's core_state outcome" where
  "send_passive_iq env tag st = co_query env (passive_iq tag) (\<lambda>_ st. (None, st)) st"

definition count_iq :: "string \<Rightarrow> node" where
  "count_iq tag = Node ''iq'' [(''id'', AStr tag), (''xmlns'', AStr ''encrypt''), (''type'', AStr ''get''), (''to'', AStr S_WHATSAPP_NET)]
     (CList [Node ''count'' [] CNone])"

definition digest_iq :: node where
  "digest_iq = Node ''iq'' [(''to'', AStr S_WHATSAPP_NET), (''type'', AStr ''get''), (''xmlns'', AStr ''encrypt'')] (CList [Node ''digest'' [] CNone])"

text \<open>The check of the pre-keys asks the server first; its errors and those of the digest are logged.\<close>

definition check_pre_keys :: "'s core_env \<Rightarrow> 's core_state \<Rightarrow> 's core_state" where
  "check_pre_keys env st =
     (let n = count_iq (ce_tag env) in
      st\<lparr>co_sent := co_sent st @ [n],
         co_keys := upload_pre_keys_to_server_if_required (ce_get env) (ce_put env) (ce_gen env) (ce_now env) (ce_uploading env) (ce_answers env)
           (ce_query env n) (co_keys st)\<rparr>)"

definition check_digest :: "'s core_env \<Rightarrow> 's core_state \<Rightarrow> 's core_state" where
  "check_digest env st =
     st\<lparr>co_sent := co_sent st @ [digest_iq],
        co_keys := snd (digest_key_bundle (ce_get env) (ce_put env) (ce_gen env) (ce_now env) (ce_uploading env) (ce_answers env)
          (ce_query env digest_iq) (co_keys st))\<rparr>"

definition handle_success_node :: "'s core_env \<Rightarrow> node \<Rightarrow> 's core_state \<Rightarrow> 's core_state" where
  "handle_success_node env n st =
     (let st = check_pre_keys env ((update_server_time_offset env n st)\<lparr>co_qr := False\<rparr>);
          st = (case send_passive_iq env ''active'' st of (Some e, st) \<Rightarrow> st | (None, st) \<Rightarrow> check_digest env st);
          lid = attr_get (node_attrs n) ''lid'';
          st = (if attr_truthy lid then emit_creds env [(''me'', PDict (dict_set ''lid'' (attr_val lid) (creds_me (co_creds st))))] st else st)
      in send_unified_session env (co_emit ''connection.update'' (PDict [(''connection'', PStr ''open'')]) st))"

section \<open>Information of the server\<close>

definition routing_update :: "content \<Rightarrow> bytes option" where
  "routing_update c = (case c of CBytes (b # bs) \<Rightarrow> Some (b # bs) | CStr (x # xs) \<Rightarrow> Some (utf8_encode (x # xs)) | _ \<Rightarrow> None)"

definition handle_ib_node :: "'s core_env \<Rightarrow> node \<Rightarrow> 's core_state \<Rightarrow> 's core_state outcome" where
  "handle_ib_node env n st =
     (let child = get_binary_node_child (Some n) in
      if child ''downgrade_webclient'' \<noteq> None then end_connection env ''Multi-device beta not joined'' st
      else
        and_then (if child ''offline_preview'' = None then (None, st)
                  else co_send env (Node ''ib'' [] (CList [Node ''offline_batch'' [(''count'', AStr ''100'')] CNone])) st) (\<lambda>st.
        let routing = get_binary_node_child (child ''edge_routing'') ''routing_info'';
            st = (case (case routing of None \<Rightarrow> None | Some r \<Rightarrow> routing_update (node_content r)) of
                    None \<Rightarrow> st
                  | Some b \<Rightarrow> emit_creds env [(''routingInfo'', PBytes b)] (st\<lparr>co_creds := dict_set ''routing_info'' (PBytes b) (co_creds st)\<rparr>))
        in case child ''offline'' of
             None \<Rightarrow> (None, st)
           | Some offline \<Rightarrow>
               (case attr_int_or (attr_get (node_attrs offline) ''count'') 0 of
                  Inl e \<Rightarrow> (Some e, st)
                | Inr _ \<Rightarrow>
                    let st = (if co_buffered st then st\<lparr>co_flushes := co_flushes st + 1, co_buffered := False\<rparr> else st)
                    in (None, co_emit ''connection.update'' (PDict [(''receivedPendingNotifications'', PBool True)]) st))))"

section \<open>Leaving\<close>

definition remove_companion_iq :: "string \<Rightarrow> string \<Rightarrow> node" where
  "remove_companion_iq tag jid = Node ''iq'' [(''to'', AStr S_WHATSAPP_NET), (''type'', AStr ''set''), (''id'', AStr tag), (''xmlns'', AStr ''md'')]
     (CList [Node ''remove-companion-device'' [(''jid'', AStr jid), (''reason'', AStr ''user_initiated'')] CNone])"

definition logout :: "'s core_env \<Rightarrow> string option \<Rightarrow> 's core_state \<Rightarrow> 's core_state outcome" where
  "logout env msg st =
     (let jid = text_or_empty (py_get ''id'' (creds_me (co_creds st))) in
      and_then (if jid = '''' then (None, st) else co_send env (remove_companion_iq (ce_tag env) jid) st)
        (end_connection env (case msg of Some (c # cs) \<Rightarrow> c # cs | _ \<Rightarrow> ''Intentional Logout'')))"

section \<open>A connection ends once\<close>

lemma end_connection_open:
  assumes "\<not> co_closed st" and "ce_close env = Inr ()"
  shows "end_connection env m st = (None, st\<lparr>co_closed := True, co_buffered := False, co_keep_alive := False, co_qr := False, co_receiving := False,
    co_listening := False, co_events := co_events st @ [(''connection.update'', last_disconnect env m)]\<rparr>)"
  using assms by (simp add: end_connection_def disconnect_def co_emit_def)

lemma end_connection_closed [simp]: "co_closed st \<Longrightarrow> end_connection env m st = (None, st)"
  by (simp add: end_connection_def)

lemma end_connections_closed: "co_closed st \<Longrightarrow> for_each (\<lambda>(env, m). end_connection env m) rest st = (None, st)"
  by (induction rest) auto


text \<open>
  Finding: an error while the transport is closed leaves the connection marked as closed without an event,
  and nothing announces the end afterwards.
\<close>

lemma failed_close_unannounced:
  assumes "\<not> co_closed st" and "ce_close env = Inl e"
  shows "\<exists>st'. end_connection env m st = (Some e, st') \<and> co_events st' = co_events st \<and> (\<forall>env' m'. end_connection env' m' st' = (None, st'))"
  using assms by (simp add: end_connection_def disconnect_def and_then_def)

section \<open>The credentials after an update\<close>

lemma set_creds_field_other: "f \<noteq> fst g \<Longrightarrow> py_get f (set_creds_field u g creds) = py_get f creds"
  by (auto simp: set_creds_field_def split: option.split)

lemma set_creds_field_own: "py_get f (set_creds_field u (f, a) creds) =
    (case map_of u f of Some v \<Rightarrow> v | None \<Rightarrow> (case map_of u a of Some v \<Rightarrow> v | None \<Rightarrow> py_get f creds))"
  by (auto simp: set_creds_field_def split: option.split)

lemma set_creds_fields_other: "f \<notin> fst ` set fs \<Longrightarrow> py_get f (fold (set_creds_field u) fs creds) = py_get f creds"
  by (induction fs arbitrary: creds) (auto simp: set_creds_field_other)

lemma set_creds_fields:
  assumes "distinct (map fst fs)" and "(f, a) \<in> set fs"
  shows "py_get f (fold (set_creds_field u) fs creds) =
    (case map_of u f of Some v \<Rightarrow> v | None \<Rightarrow> (case map_of u a of Some v \<Rightarrow> v | None \<Rightarrow> py_get f creds))"
  using assms
proof (induction fs arbitrary: creds)
  case (Cons g fs)
  show ?case
  proof (cases "(f, a) = g")
    case True
    then have "f \<notin> fst ` set fs" using Cons.prems by (metis distinct.simps(2) fst_conv list.simps(9) set_map)
    note o = set_creds_fields_other [OF this]
    show ?thesis by (simp add: True [symmetric] o set_creds_field_own)
  next
    case False
    then have m: "(f, a) \<in> set fs" using Cons.prems by auto
    then have "f \<in> set (map fst fs)" by force
    then have "f \<noteq> fst g" using Cons.prems(1) by (metis distinct.simps(2) list.simps(9))
    note o = set_creds_field_other [OF this]
    show ?thesis using Cons m by (simp add: o split: option.split)
  qed
qed simp

lemma creds_fields_distinct: "distinct (map fst creds_fields)" "distinct (map snd creds_fields)"
  by code_simp+

lemma handle_creds_update_creds: "co_creds (handle_creds_update env u st) = fold (set_creds_field u) creds_fields (co_creds st)"
  by (simp add: handle_creds_update_def co_send_def Let_def split: sum.split)

text \<open>
  After an update of the credentials every field holds what the update says under its name or, failing that, its
  alias, and every other field is as it was.
\<close>

theorem creds_updated:
  assumes "(f, a) \<in> set creds_fields"
  shows "py_get f (co_creds (handle_creds_update env u st)) =
    (case map_of u f of Some v \<Rightarrow> v | None \<Rightarrow> (case map_of u a of Some v \<Rightarrow> v | None \<Rightarrow> py_get f (co_creds st)))"
  using set_creds_fields [OF creds_fields_distinct(1) assms] by (simp add: handle_creds_update_creds)

lemma emit_creds_creds: "co_creds (emit_creds env u st) = fold (set_creds_field u) creds_fields (co_creds st)"
  by (simp add: emit_creds_def handle_creds_update_creds co_emit_def)

lemma emit_creds_events: "co_events (emit_creds env u st) = co_events st @ [(''creds.update'', PDict u)]"
  by (simp add: emit_creds_def handle_creds_update_def co_send_def co_emit_def Let_def split: sum.split)

section \<open>Pairing\<close>

text \<open>
  C28. Finding: whatever the checks of the account identity find, a forged one included, the device that the stanza names
  is taken: it becomes the own identity, a new login is announced and the server is told that all is well.
\<close>

theorem forged_pairing_accepted:
  assumes "configure_successful_pairing (ce_crypto env) (text_or_empty (py_get ''adv_secret_key'' (co_creds st)))
      (creds_key_pair ''signed_identity_key'' (co_creds st)) stanza = Inl e"
    and "get_binary_node_child (get_binary_node_child (Some stanza) ''pair-success'') ''device'' = Some device"
    and "attr_get (node_attrs device) ''jid'' = AStr j" and "j \<noteq> ''''" and "ce_send env (result_iq stanza) = Inr ()"
  shows "\<exists>st'. handle_pair_success_node env stanza st = (None, st') \<and> py_get ''id'' (creds_me (co_creds st')) = PStr j \<and>
    last (co_events st') = (''connection.update'', PDict [(''isNewLogin'', PBool True), (''qr'', PNone)]) \<and>
    last (co_sent st') = result_iq stanza"
proof -
  have c: "co_creds (update_server_time_offset env stanza st) = co_creds st"
    by (simp add: update_server_time_offset_def Let_def split: sum.split)
  have m: "(''me'', ''me'') \<in> set creds_fields" by (simp add: creds_fields_def)
  note u = set_creds_fields [OF creds_fields_distinct(1) m]
  show ?thesis
    using assms by (auto simp: handle_pair_success_node_def Let_def c pair_anyway_def co_send_def new_login_def co_emit_def creds_me_def
        emit_creds_creds u dict_or_empty_def)
qed

section \<open>Logging in\<close>

lemma login_steps_events [simp]:
  "co_events (update_server_time_offset env n st) = co_events st" "co_events (check_pre_keys env st) = co_events st"
  "co_events (check_digest env st) = co_events st" "co_events (send_unified_session env st) = co_events st"
  "co_creds (update_server_time_offset env n st) = co_creds st" "co_creds (check_pre_keys env st) = co_creds st"
  "co_creds (check_digest env st) = co_creds st" "co_creds (send_unified_session env st) = co_creds st"
  by (simp_all add: update_server_time_offset_def check_pre_keys_def check_digest_def send_unified_session_def co_send_def Let_def
      split: sum.split)

lemma passive_iq_events [simp]:
  "co_events (snd (send_passive_iq env tag st)) = co_events st" "co_creds (snd (send_passive_iq env tag st)) = co_creds st"
  by (simp_all add: send_passive_iq_def co_query_def Let_def split: sum.split)

text \<open>
  Whichever of the queries of a login fail, the login is announced: after the update of the own LID, when the server
  names it, the connection is reported as open, and nothing else is.
\<close>

theorem login_announced:
  "co_events (handle_success_node env n st) = co_events st @
     (if attr_truthy (attr_get (node_attrs n) ''lid'')
      then [(''creds.update'', PDict [(''me'', PDict (dict_set ''lid'' (attr_val (attr_get (node_attrs n) ''lid'')) (creds_me (co_creds st))))])] else []) @
     [(''connection.update'', PDict [(''connection'', PStr ''open'')])]"
proof -
  let ?s = "check_pre_keys env ((update_server_time_offset env n st)\<lparr>co_qr := False\<rparr>)"
  define s2 where "s2 = (case send_passive_iq env ''active'' ?s of (Some e, s) \<Rightarrow> s | (None, s) \<Rightarrow> check_digest env s)"
  have "co_events s2 = co_events st \<and> co_creds s2 = co_creds st"
  proof (cases "send_passive_iq env ''active'' ?s")
    case (Pair x s)
    then have "co_events s = co_events ?s" "co_creds s = co_creds ?s" using passive_iq_events [of env "''active''" ?s] by (metis snd_conv)+
    then show ?thesis using Pair by (cases x) (simp_all add: s2_def)
  qed
  then show ?thesis
    unfolding handle_success_node_def Let_def s2_def [symmetric] by (simp add: emit_creds_events co_emit_def)
qed

section \<open>Codes on the screen\<close>

definition shown :: "pydict \<Rightarrow> node list \<Rightarrow> (string \<times> pyval) list" where
  "shown creds refs = map (\<lambda>r. (''connection.update'', PDict [(''qr'', PStr (qr_text creds (ref_text r)))])) refs"

lemma shown_simps [simp]: "shown creds [] = []"
  "shown creds (r # refs) = (''connection.update'', PDict [(''qr'', PStr (qr_text creds (ref_text r)))]) # shown creds refs"
  by (simp_all add: shown_def)

text \<open>
  While the transport is open every code is shown once, in the order of the references, the first for its own time
  and each later one for the shorter one; then the connection ends.
\<close>

theorem codes_shown:
  assumes "\<forall>r\<in>set refs. ref_text r \<noteq> ''''" and "\<not> co_closed st" and "ce_close env = Inr ()" and "refs \<noteq> []"
  shows "\<exists>st'. show_codes env creds wait next_wait (replicate (length refs) True) refs st =
      (wait # replicate (length refs - 1) next_wait, None, st') \<and>
    co_events st' = co_events st @ shown creds refs @ [(''connection.update'', last_disconnect env ''QR refs attempts ended'')]"
  using assms
proof (induction refs arbitrary: wait st)
  case (Cons r refs)
  let ?st = "co_emit ''connection.update'' (PDict [(''qr'', PStr (qr_text creds (ref_text r)))]) st"
  have st: "\<not> co_closed ?st" "co_events ?st = co_events st @ [(''connection.update'', PDict [(''qr'', PStr (qr_text creds (ref_text r)))])]"
    using Cons.prems by (simp_all add: co_emit_def)
  show ?case
  proof (cases "refs = []")
    case True
    then show ?thesis using Cons.prems st end_connection_open [OF st(1) Cons.prems(3)] by simp
  next
    case False
    then obtain st' where "show_codes env creds next_wait next_wait (replicate (length refs) True) refs ?st =
        (next_wait # replicate (length refs - 1) next_wait, None, st')"
        "co_events st' = co_events ?st @ shown creds refs @ [(''connection.update'', last_disconnect env ''QR refs attempts ended'')]"
      using Cons.IH [OF _ st(1)] Cons.prems by fastforce
    moreover have "next_wait # replicate (length refs - 1) next_wait = replicate (length refs) next_wait"
      using False by (cases refs) simp_all
    ultimately show ?thesis using Cons.prems st by simp
  qed
qed simp

text \<open>Until the task ends, what has been shown is an initial part of the codes, and the connection only ends after all of them.\<close>

lemma codes_in_order:
  "\<exists>k x. co_events (snd (snd (show_codes env creds wait next_wait turns refs st))) =
     co_events st @ shown creds (take k (filter (\<lambda>r. ref_text r \<noteq> '''') refs)) @ x \<and>
     (x \<noteq> [] \<longrightarrow> k = length (filter (\<lambda>r. ref_text r \<noteq> '''') refs))"
proof (induction env creds wait next_wait turns refs st rule: show_codes.induct)
  case (1 env creds wait next_wait turns st)
  have "\<exists>x. co_events (snd (end_connection env m st)) = co_events st @ x" for m
    by (cases "ce_close env") (auto simp: end_connection_def disconnect_def and_then_def co_emit_def)
  then show ?case by (auto intro: exI [of _ "0::nat"])
next
  case (3 env creds wait next_wait is_open turns r refs st)
  then show ?case
  proof (cases "is_open \<and> ref_text r \<noteq> ''''")
    case True
    with 3(2) obtain k x where "co_events (snd (snd (show_codes env creds next_wait next_wait turns refs
          (co_emit ''connection.update'' (PDict [(''qr'', PStr (qr_text creds (ref_text r)))]) st)))) =
        co_events (co_emit ''connection.update'' (PDict [(''qr'', PStr (qr_text creds (ref_text r)))]) st) @
        shown creds (take k (filter (\<lambda>r. ref_text r \<noteq> '''') refs)) @ x"
      "x \<noteq> [] \<longrightarrow> k = length (filter (\<lambda>r. ref_text r \<noteq> '''') refs)" by blast
    then show ?thesis using True by (intro exI [of _ "Suc k"] exI [of _ x]) (simp add: case_prod_unfold co_emit_def Let_def)
  qed (use 3(1) in \<open>auto intro: exI [of _ "0::nat"]\<close>)
qed (auto intro: exI [of _ "0::nat"])

section \<open>At concrete inputs\<close>

definition sample_core_env :: "unit core_env" where
  "sample_core_env = \<lparr>ce_open = True, ce_now = 5000, ce_send = (\<lambda>_. Inr ()), ce_query = (\<lambda>_. Inl ExternalError), ce_tag = ''1'', ce_close = Inr (),
     ce_crypto = sample_crypto, ce_qr_timeout = None, ce_keep_alive_ms = 30000, ce_get = (\<lambda>_ _ s. (Map.empty, s)), ce_put = (\<lambda>_ s. s),
     ce_gen = (\<lambda>_. sample_keys 1), ce_uploading = None, ce_answers = (\<lambda>_. Timed_Out)\<rparr>"

definition sample_core :: "unit core_state" where
  "sample_core = \<lparr>co_creds = [(''adv_secret_key'', PStr ''''), (''me'', PNone)], co_closed = False, co_keep_alive = True, co_receiving = True, co_qr = True,
     co_buffered = False, co_flushes = 0, co_offset = 0, co_listening = True, co_events = [], co_sent = [],
     co_keys = \<lparr>us_creds = rv_creds sample_recv_state, us_keys = (), us_last_upload_time = 0, us_updates = []\<rparr>\<rparr>"

text \<open>A pairing whose code is wrong.\<close>

definition forged_device :: node where
  "forged_device = Node ''device'' [(''jid'', AStr ''66@s.whatsapp.net''), (''lid'', AStr ''7@lid'')] CNone"

definition forged_success :: node where
  "forged_success = Node ''iq'' [(''id'', AStr ''1'')] (CList [Node ''pair-success'' []
     (CList [Node ''device-identity'' [(''details'', AStr ''x''), (''hmac'', AStr ''00'')] CNone, forged_device])])"


theorem creds_updated_witness:
  "py_get ''routing_info'' (co_creds (handle_creds_update sample_core_env [(''routingInfo'', PBytes [1])] sample_core)) =
    (case map_of [(''routingInfo'', PBytes [1])] ''routing_info'' of Some v \<Rightarrow> v
     | None \<Rightarrow> (case map_of [(''routingInfo'', PBytes [1])] ''routingInfo'' of Some v \<Rightarrow> v
        | None \<Rightarrow> py_get ''routing_info'' (co_creds sample_core)))"
  by (rule creds_updated) (simp add: creds_fields_def)

theorem forged_pairing_accepted_witness:
  "\<exists>st'. handle_pair_success_node sample_core_env forged_success sample_core = (None, st') \<and>
    py_get ''id'' (creds_me (co_creds st')) = PStr ''66@s.whatsapp.net'' \<and>
    last (co_events st') = (''connection.update'', PDict [(''isNewLogin'', PBool True), (''qr'', PNone)]) \<and>
    last (co_sent st') = result_iq forged_success"
proof (rule forged_pairing_accepted)
  show "configure_successful_pairing (ce_crypto sample_core_env) (text_or_empty (py_get ''adv_secret_key'' (co_creds sample_core)))
      (creds_key_pair ''signed_identity_key'' (co_creds sample_core)) forged_success = Inl (ValueError ''Invalid account signature'')"
    by code_simp
  show "get_binary_node_child (get_binary_node_child (Some forged_success) ''pair-success'') ''device'' = Some forged_device"
    by code_simp
  show "attr_get (node_attrs forged_device) ''jid'' = AStr ''66@s.whatsapp.net''" by code_simp
qed (simp_all add: sample_core_env_def)

theorem codes_shown_witness:
  "\<exists>st'. show_codes sample_core_env [] 60000 20000 (replicate (length [Node ''ref'' [] (CStr ''a''), Node ''ref'' [] (CStr ''b'')]) True)
      [Node ''ref'' [] (CStr ''a''), Node ''ref'' [] (CStr ''b'')] sample_core =
      (60000 # replicate (length [Node ''ref'' [] (CStr ''a''), Node ''ref'' [] (CStr ''b'')] - 1) 20000, None, st') \<and>
    co_events st' = co_events sample_core @ shown [] [Node ''ref'' [] (CStr ''a''), Node ''ref'' [] (CStr ''b'')] @
      [(''connection.update'', last_disconnect sample_core_env ''QR refs attempts ended'')]"
  by (rule codes_shown) (simp_all add: sample_core_def sample_core_env_def ref_text_def decode_text_def)

end
