(* ===== verification/Login.thy ===== *)
theory Login
  imports Core_Socket Noise_Frames
begin

text \<open>
  From the open transport to a logged-in connection (\<^verbatim>\<open>validate_connection\<close>, \<^verbatim>\<open>connect\<close> of
  \<^verbatim>\<open>socket/socket.py\<close>): the client's half of the handshake over frames, and which payload it
  carries. Protobuf encoding is an argument, as is what the transport does. Bytes come out of the
  protobuf library as base64 text.
\<close>

section \<open>The server's hello\<close>

definition pad4 :: "string \<Rightarrow> string" where
  "pad4 s = s @ replicate ((4 - length s mod 4) mod 4) (CHR ''='')"

text \<open>Each of the three fields that is a text becomes its bytes; one that does not decode stays.\<close>

definition coerce_field :: "string \<Rightarrow> pydict \<Rightarrow> pydict" where
  "coerce_field k target = (case py_get k target of
       PStr s \<Rightarrow> (case b64decode (pad4 s) of Inl _ \<Rightarrow> target | Inr b \<Rightarrow> dict_set k (PBytes b) target)
     | _ \<Rightarrow> target)"

definition coerce_fields :: "pydict \<Rightarrow> pydict" where
  "coerce_fields = fold coerce_field [''ephemeral'', ''static'', ''payload'']"

definition coerce_handshake_bytes :: "pydict \<Rightarrow> pydict" where
  "coerce_handshake_bytes payload = (case py_get ''serverHello'' payload of
       PDict hello \<Rightarrow> dict_set ''serverHello'' (PDict (coerce_fields hello)) payload
     | _ \<Rightarrow> coerce_fields payload)"

text \<open>What the handshake reads: bytes and dictionaries; any other value is of no use to it.\<close>

fun handshake_value :: "pyval \<Rightarrow> field" where
  "handshake_value (PBytes b) = FBytes b"
| "handshake_value (PDict d) = FDict (map (\<lambda>(k, v). (k, handshake_value v)) d)"
| "handshake_value _ = FNone"

definition handshake_dict :: "pydict \<Rightarrow> (string \<times> field) list" where
  "handshake_dict d = map (\<lambda>(k, v). (k, handshake_value v)) d"

section \<open>The client's half\<close>

record login_creds =
  lc_me_id :: string
  lc_noise_key :: "bytes \<times> bytes"
  lc_routing :: "bytes option"
  lc_registration_id :: int
  lc_signed_pre_key :: signed_key
  lc_identity_public :: bytes

record login_env =
  lg_crypto :: noise_crypto
  lg_certs :: "cert_lib option"
  lg_strict :: bool
  lg_opened :: "unit result"
  lg_ephemeral :: "bytes \<times> bytes"
  lg_encode :: "string \<Rightarrow> pydict \<Rightarrow> bytes"
  lg_decode :: "bytes \<Rightarrow> pydict result"
  lg_reply :: "bytes \<Rightarrow> bytes result"
  lg_send :: "bytes \<Rightarrow> unit result"
  lg_config :: client_config

text \<open>A device that is paired logs in, any other registers.\<close>

definition client_payload :: "client_config \<Rightarrow> login_creds \<Rightarrow> pydict result" where
  "client_payload cfg c =
     (if lc_me_id c \<noteq> '''' then generate_login_node (lc_me_id c) cfg
      else generate_registration_node (lc_registration_id c) (lc_signed_pre_key c) (lc_identity_public c) cfg)"

definition client_hello :: "login_env \<Rightarrow> bytes" where
  "client_hello env = lg_encode env ''HandshakeMessage''
     [(''clientHello'', PDict [(''ephemeral'', PBytes (snd (lg_ephemeral env)))])]"

definition client_finish :: "login_env \<Rightarrow> bytes \<Rightarrow> bytes \<Rightarrow> bytes" where
  "client_finish env static payload = lg_encode env ''HandshakeMessage''
     [(''clientFinish'', PDict [(''static'', PBytes static), (''payload'', PBytes payload)])]"

text \<open>The frames that were sent are part of the result.\<close>

definition validate_connection :: "login_env \<Rightarrow> login_creds \<Rightarrow> (bytes list \<times> noise_handler) result" where
  "validate_connection env c =
     (let cr = lg_crypto env in
      bindE (lg_opened env) (\<lambda>_.
      let h = new_noise_handler cr (lg_ephemeral env) NOISE_WA_HEADER (lc_routing c) (lg_strict env);
          (frame, h) = encode_frame cr (client_hello env) h
      in bindE (lg_reply env frame) (\<lambda>response.
         bindE (lg_decode env response) (\<lambda>handshake.
         bindE (process_handshake cr (lg_certs env) (handshake_dict (coerce_handshake_bytes handshake)) (lc_noise_key c) h) (\<lambda>(key_enc, h).
         bindE (client_payload (lg_config env) c) (\<lambda>p.
         let (payload_enc, h) = noise_encrypt cr (lg_encode env ''ClientPayload'' p) h;
             (frame', h) = encode_frame cr (client_finish env key_enc payload_enc) h
         in bindE (lg_send env frame') (\<lambda>_. bindE (finish_init cr h) (\<lambda>h. Inr ([frame, frame'], h)))))))))"

section \<open>Connecting\<close>

text \<open>\<open>validate\<close> is what becomes of the handshake; what the plugins and the transport do before it may raise.\<close>

definition connect ::
    "'s core_env \<Rightarrow> (exn \<Rightarrow> string) \<Rightarrow> bool \<Rightarrow> string \<Rightarrow> unit result \<Rightarrow> ('s core_state \<Rightarrow> 's core_state outcome) \<Rightarrow> 's core_state \<Rightarrow> 's core_state outcome" where
  "connect env describe mobile url prepare validate st =
     (if mobile \<or> py_startswith url ''tcp:'' then (Some (RuntimeError ''Mobile API is not supported anymore''), st)
      else
        let st = st\<lparr>co_closed := False\<rparr> in
        case prepare of
          Inl e \<Rightarrow> (Some e, st)
        | Inr _ \<Rightarrow>
            let st = st\<lparr>co_receiving := True, co_buffered := (text_or_empty (py_get ''id'' (creds_me (co_creds st))) \<noteq> '''')\<rparr>;
                st = co_emit ''connection.update'' (PDict [(''connection'', PStr ''connecting''), (''receivedPendingNotifications'', PBool False),
                       (''qr'', PNone)]) st
            in (case validate st of
                 (None, st) \<Rightarrow> (None, st\<lparr>co_keep_alive := True\<rparr>)
               | (Some e, st) \<Rightarrow> and_then (end_connection env (describe e) st) (\<lambda>st. (Some e, st))))"


section \<open>The handshake does not look at the intro flag\<close>

definition intro_sent :: "noise_handler \<Rightarrow> noise_handler" where
  "intro_sent h = h\<lparr>nh_sent_intro := True\<rparr>"

lemma intro_sent_fields [simp]:
  "nh_private (intro_sent h) = nh_private h" "nh_strict (intro_sent h) = nh_strict h" "nh_salt (intro_sent h) = nh_salt h"
  "nh_transport (intro_sent h) = nh_transport h" "intro_sent (intro_sent h) = intro_sent h"
  by (simp_all add: intro_sent_def)

lemma authenticate_intro [simp]: "authenticate cr d (intro_sent h) = intro_sent (authenticate cr d h)"
  by (simp add: authenticate_def intro_sent_def split: option.split)

lemma local_hkdf_intro [simp]: "local_hkdf cr d (intro_sent h) = local_hkdf cr d h"
  by (simp add: local_hkdf_def)

lemma mix_dh_intro: "mix_dh cr priv pub h = Inr h' \<Longrightarrow> mix_dh cr priv pub (intro_sent h) = Inr (intro_sent h')"
  by (auto simp: mix_dh_def mix_into_key_def result_iffs intro_sent_def local_hkdf_def)

lemma noise_encrypt_intro: "noise_encrypt cr d h = (c, h') \<Longrightarrow> noise_encrypt cr d (intro_sent h) = (c, intro_sent h')"
  by (auto simp: noise_encrypt_def intro_sent_def authenticate_def Let_def split: option.splits prod.splits)

lemma noise_decrypt_intro: "noise_decrypt cr d h = (c, h') \<Longrightarrow> noise_decrypt cr d (intro_sent h) = (c, intro_sent h')"
  by (auto simp: noise_decrypt_def intro_sent_def authenticate_def Let_def split: option.splits prod.splits sum.splits)

lemma finish_init_intro: "finish_init cr h = Inr h' \<Longrightarrow> finish_init cr (intro_sent h) = Inr (intro_sent h')"
  by (auto simp: finish_init_def result_iffs intro_sent_def local_hkdf_def)

lemma process_handshake_intro:
  assumes "process_handshake cr lib p nk h = Inr (k, h')"
  shows "process_handshake cr lib p nk (intro_sent h) = Inr (k, intro_sent h')"
proof -
  note run = assms [unfolded process_handshake_def Let_def]
  obtain e s c where f: "handshake_fields p = Inr (e, s, c)"
    using run by (cases "handshake_fields p") auto
  obtain h2 where h2: "mix_dh cr (nh_private (authenticate cr e h)) e (authenticate cr e h) = Inr h2"
    using run f by (cases "mix_dh cr (nh_private (authenticate cr e h)) e (authenticate cr e h)") auto
  obtain ds h3 where h3: "noise_decrypt cr s h2 = (Inr ds, h3)"
    using run f h2 by (cases "noise_decrypt cr s h2"; cases "fst (noise_decrypt cr s h2)") auto
  obtain h4 where h4: "mix_dh cr (nh_private h3) ds h3 = Inr h4"
    using run f h2 h3 by (cases "mix_dh cr (nh_private h3) ds h3") auto
  obtain cert h5 where h5: "noise_decrypt cr c h4 = (Inr cert, h5)"
    using run f h2 h3 h4 by (cases "noise_decrypt cr c h4"; cases "fst (noise_decrypt cr c h4)") auto
  obtain u where v: "verify_noise_cert_chain cr lib (nh_strict h5) cert = Inr u"
    using run f h2 h3 h4 h5 by (cases "verify_noise_cert_chain cr lib (nh_strict h5) cert") auto
  obtain h6 where h6: "noise_encrypt cr (snd nk) h5 = (k, h6)" "mix_dh cr (fst nk) e h6 = Inr h'"
    using run f h2 h3 h4 h5 v
    by (cases "noise_encrypt cr (snd nk) h5"; cases "mix_dh cr (fst nk) e (snd (noise_encrypt cr (snd nk) h5))") auto
  note steps = mix_dh_intro [OF h2] noise_decrypt_intro [OF h3] mix_dh_intro [OF h4] noise_decrypt_intro [OF h5]
    noise_encrypt_intro [OF h6(1)] mix_dh_intro [OF h6(2)]
  show ?thesis using f v steps by (simp add: process_handshake_def)
qed

definition plain_frame :: "bytes \<Rightarrow> bytes" where
  "plain_frame d = be_bytes 3 (int (length d)) @ d"

lemma encode_frame_handshake:
  "nh_transport h = None \<Longrightarrow> encode_frame cr d h = ((if nh_sent_intro h then [] else nh_intro_header h) @ plain_frame d, intro_sent h)"
  by (simp add: encode_frame_def intro_sent_def plain_frame_def)

lemma new_noise_handler_intro [simp]:
  "\<not> nh_sent_intro (new_noise_handler cr ck hdr routing strict)"
  "nh_intro_header (new_noise_handler cr ck hdr routing strict) = make_intro_header routing hdr"
  by (simp_all add: new_noise_handler_def Let_def authenticate_def split: option.split)

section \<open>Logging in\<close>

text \<open>The hello as the protobuf library gives it, and that it reads as the bytes that were sent.\<close>

definition hello_texts :: "bytes \<Rightarrow> bytes \<Rightarrow> bytes \<Rightarrow> pydict" where
  "hello_texts e s p = [(''serverHello'', PDict [(''ephemeral'', PStr (b64encode e)), (''static'', PStr (b64encode s)), (''payload'', PStr (b64encode p))])]"

lemma length_b64encode: "length (b64encode b) mod 4 = 0"
  by (induction b rule: b64encode.induct) simp_all

lemma coerced_text: "b64decode (pad4 (b64encode b)) = Inr b"
  by (simp add: pad4_def length_b64encode b64decode_def ascii_b64 b64_roundtrip)

lemma hello_read: "handshake_dict (coerce_handshake_bytes (hello_texts e s p)) = server_hello e s p"
  by (simp add: hello_texts_def coerce_handshake_bytes_def coerce_fields_def coerce_field_def coerced_text py_get_def
      handshake_dict_def server_hello_def)

text \<open>
  C6. Against any server that follows the Noise framework, connecting completes: two frames are sent, the first with
  the intro; from the second one the server reads the device's static key and the payload that is right for it (that
  of a login exactly if the device is paired), and both sides hold the same transport keys.
\<close>

theorem login_completes:
  fixes env :: login_env and c :: login_creds
  defines "cr \<equiv> lg_crypto env" and "ck \<equiv> lg_ephemeral env" and "nk \<equiv> lc_noise_key c"
  assumes prims: "hmac32 cr" "aead_ok cr"
    and ee: "n_dh cr (fst ck) (snd e) = Inr ee" "n_dh cr (fst e) (snd ck) = Inr ee"
    and es: "n_dh cr (fst ck) (snd s) = Inr es" "n_dh cr (fst s) (snd ck) = Inr es"
    and se: "n_dh cr (fst nk) (snd e) = Inr se" "n_dh cr (fst e) (snd nk) = Inr se"
    and cert: "verify_noise_cert_chain cr (lg_certs env) (lg_strict env) chain = Inr ()"
    and hello: "responder_hello cr NOISE_WA_HEADER e s chain (snd ck) = Inr (static, encrypted, rs)"
    and transport: "lg_opened env = Inr ()" "\<And>f. lg_send env f = Inr ()" "\<And>f. lg_reply env f = Inr response"
      "lg_decode env response = Inr (hello_texts (snd e) static encrypted)"
    and payload: "client_payload (lg_config env) c = Inr p"
  shows "\<exists>h key_enc payload_enc k1 k2.
    validate_connection env c = Inr ([make_intro_header (lc_routing c) NOISE_WA_HEADER @ plain_frame (lg_encode env ''HandshakeMessage''
        [(''clientHello'', PDict [(''ephemeral'', PBytes (snd ck))])]),
      plain_frame (lg_encode env ''HandshakeMessage''
        [(''clientFinish'', PDict [(''static'', PBytes key_enc), (''payload'', PBytes payload_enc)])])], h) \<and>
    responder_finish cr e key_enc payload_enc rs = Inr (snd nk, lg_encode env ''ClientPayload'' p, (k1, k2)) \<and>
    nh_transport h = Some \<lparr>t_enc_key = k1, t_dec_key = k2, t_read_counter = 0, t_write_counter = 0\<rparr>"
proof -
  let ?h0 = "new_noise_handler cr ck NOISE_WA_HEADER (lc_routing c) (lg_strict env)"
  obtain key_enc h1 payload_enc h2 h3 k1 k2 where run:
      "process_handshake cr (lg_certs env) (server_hello (snd e) static encrypted) nk ?h0 = Inr (key_enc, h1)"
      "noise_encrypt cr (lg_encode env ''ClientPayload'' p) h1 = (payload_enc, h2)"
      "responder_finish cr e key_enc payload_enc rs = Inr (snd nk, lg_encode env ''ClientPayload'' p, (k1, k2))"
      "nh_transport h2 = None" "finish_init cr h2 = Inr h3"
      "nh_transport h3 = Some \<lparr>t_enc_key = k1, t_dec_key = k2, t_read_counter = 0, t_write_counter = 0\<rparr>"
    using noise_handshake_run [OF prims ee es se cert, of NOISE_WA_HEADER "lc_routing c" "lg_encode env ''ClientPayload'' p"] hello
    by auto
  have "hs_ok ?h0 (fst ck) (lg_strict env)" by (rule new_noise_handler_sym)
  then have t0: "nh_transport ?h0 = None" by (simp add: hs_ok_def handshaking_def)
  have f1: "encode_frame cr (client_hello env) ?h0 =
      (make_intro_header (lc_routing c) NOISE_WA_HEADER @ plain_frame (client_hello env), intro_sent ?h0)"
    by (simp add: encode_frame_handshake [OF t0])
  have f2: "encode_frame cr (client_finish env key_enc payload_enc) (intro_sent h2) =
      (plain_frame (client_finish env key_enc payload_enc), intro_sent h2)"
    using encode_frame_handshake [of "intro_sent h2"] run(4) by (simp add: intro_sent_def)
  have "validate_connection env c =
      Inr ([make_intro_header (lc_routing c) NOISE_WA_HEADER @ plain_frame (client_hello env),
        plain_frame (client_finish env key_enc payload_enc)], intro_sent h3)"
    using f1 f2 process_handshake_intro [OF run(1)] noise_encrypt_intro [OF run(2)] finish_init_intro [OF run(5)] transport payload
    by (simp add: validate_connection_def Let_def hello_read cr_def ck_def nk_def)
  then show ?thesis using run by (auto simp: client_hello_def client_finish_def ck_def)
qed

definition demo_client :: client_config where
  "demo_client = \<lparr>cc_version = (2, 3000, 1), cc_browser = (''Mac OS'', ''Chrome''), cc_country = ''US'',
     cc_sync_full_history = False, cc_md5 = (\<lambda>_. []), cc_device_props = PDict\<rparr>"

definition demo_login :: login_env where
  "demo_login = \<lparr>lg_crypto = demo_noise, lg_certs = Some demo_certs, lg_strict = True, lg_opened = Inr (),
     lg_ephemeral = ([5], [5]), lg_encode = (\<lambda>_ _. [7, 8]),
     lg_decode = (\<lambda>_. bindE (responder_hello demo_noise NOISE_WA_HEADER ([3], [3]) ([4], [4]) [1] [5])
       (\<lambda>(static, encrypted, _). Inr (hello_texts [3] static encrypted))),
     lg_reply = (\<lambda>_. Inr [1]), lg_send = (\<lambda>_. Inr ()), lg_config = demo_client\<rparr>"

definition demo_device :: login_creds where
  "demo_device = \<lparr>lc_me_id = ''1:2@s.whatsapp.net'', lc_noise_key = ([6], [6]), lc_routing = None, lc_registration_id = 1,
     lc_signed_pre_key = \<lparr>spk_id = 1, spk_public = [], spk_signature = []\<rparr>, lc_identity_public = []\<rparr>"

theorem login_completes_witness:
  "\<exists>f1 f2 h. validate_connection demo_login demo_device = Inr ([f1, f2], h) \<and> nh_transport h \<noteq> None"
proof -
  have dh: "n_dh demo_noise (fst ([5], [5])) (snd ([3], [3])) = Inr [15]" "n_dh demo_noise (fst ([3], [3])) (snd ([5], [5])) = Inr [15]"
    "n_dh demo_noise (fst ([5], [5])) (snd ([4], [4])) = Inr [20]" "n_dh demo_noise (fst ([4], [4])) (snd ([5], [5])) = Inr [20]"
    "n_dh demo_noise (fst ([6], [6])) (snd ([3], [3])) = Inr [18]" "n_dh demo_noise (fst ([3], [3])) (snd ([6], [6])) = Inr [18]"
    by (simp_all add: demo_noise_def)
  obtain static encrypted rs where hello:
      "responder_hello demo_noise NOISE_WA_HEADER ([3], [3]) ([4], [4]) [1] [5] = Inr (static, encrypted, rs)"
    using noise_handshake_run [OF demo_noise_ok dh demo_chain_accepted] by (metis snd_conv)
  have "\<not> isl (client_payload demo_client demo_device)" by code_simp
  then obtain p where p: "client_payload (lg_config demo_login) demo_device = Inr p"
    by (auto simp: demo_login_def isl_def split: sum.splits) (metis sum.exhaust)
  have f: "lg_crypto demo_login = demo_noise" "lg_ephemeral demo_login = ([5], [5])" "lc_noise_key demo_device = ([6], [6])"
    "lg_certs demo_login = Some demo_certs" "lg_strict demo_login" by (simp_all add: demo_login_def demo_device_def)
  show ?thesis
    using login_completes [of demo_login "([3], [3])" "[15]" "([4], [4])" "[20]" demo_device "[18]" "[1]" static encrypted rs "[1]" p]
      demo_chain_accepted hello demo_noise_ok p
    by (fastforce simp: f demo_login_def demo_noise_def)
qed

section \<open>Connecting and losing the connection\<close>

text \<open>A connection that cannot be validated is ended, with one event after the first.\<close>

lemma failed_connect_ends:
  assumes "\<not> mobile" and "\<not> py_startswith url ''tcp:''" and "ce_close env = Inr ()"
    and "\<And>st. validate st = (Some e, st)"
  shows "\<exists>st'. connect env describe mobile url (Inr ()) validate st = (Some e, st') \<and> co_closed st' \<and>
    co_events st' = co_events st @ [(''connection.update'', PDict [(''connection'', PStr ''connecting''), (''receivedPendingNotifications'', PBool False),
      (''qr'', PNone)]), (''connection.update'', last_disconnect env (describe e))]"
proof -
  let ?st = "co_emit ''connection.update'' (PDict [(''connection'', PStr ''connecting''), (''receivedPendingNotifications'', PBool False), (''qr'', PNone)])
    (st\<lparr>co_closed := False, co_receiving := True, co_buffered := text_or_empty (py_get ''id'' (creds_me (co_creds st))) \<noteq> ''''\<rparr>)"
  have "\<not> co_closed ?st" by (simp add: co_emit_def)
  note end_connection_open [OF this assms(3), of "describe e"]
  then show ?thesis using assms(1,2) by (simp add: connect_def assms(4) Let_def co_emit_def)
qed

end
