(* ===== verification/Actions.thy ===== *)
theory Actions
  imports Wa_Wire Identity Py_Value
begin

text \<open>
  What the operations of a socket are made of (\<^verbatim>\<open>query_node\<close> and \<^verbatim>\<open>send_node\<close> of
  \<^verbatim>\<open>socket/socket.py\<close>, \<^verbatim>\<open>resolve_chat_jid\<close> of \<^verbatim>\<open>socket/client.py\<close>): they resolve addresses,
  make identifiers, ask the server and read its answers, and any of this may raise. Of such
  an operation it can be proved, by rules that follow its structure, that the wire can carry every
  stanza it sends.
\<close>

section \<open>Operations\<close>

text \<open>The answers of the server depend on all that was sent; identifiers are numbered as they are made.\<close>

record action_state =
  at_ids :: identity_state
  at_sent :: "node list"
  at_events :: "(string \<times> pyval) list"
  at_count :: nat

record action_env =
  ae_id :: "nat \<Rightarrow> string"
  ae_query :: "node list \<Rightarrow> node \<Rightarrow> node result"
  ae_send :: "node list \<Rightarrow> node \<Rightarrow> unit result"

type_synonym 'a action = "action_env \<Rightarrow> action_state \<Rightarrow> 'a result \<times> action_state"

definition give :: "'a \<Rightarrow> 'a action" where
  "give x env st = (Inr x, st)"

definition fail_with :: "exn \<Rightarrow> 'a action" where
  "fail_with e env st = (Inl e, st)"

definition bindA :: "'a action \<Rightarrow> ('a \<Rightarrow> 'b action) \<Rightarrow> 'b action" where
  "bindA m f env st = (case m env st of (Inl e, st) \<Rightarrow> (Inl e, st) | (Inr x, st) \<Rightarrow> f x env st)"

text \<open>A computation without effect, and \<open>try\<close> with \<open>except Exception\<close>.\<close>

definition compute :: "'a result \<Rightarrow> 'a action" where
  "compute r env st = (r, st)"

definition attempt :: "'a action \<Rightarrow> 'a option action" where
  "attempt m env st = (case m env st of (Inl e, st) \<Rightarrow> (Inr None, st) | (Inr x, st) \<Rightarrow> (Inr (Some x), st))"

fun map_act :: "('a \<Rightarrow> 'b action) \<Rightarrow> 'a list \<Rightarrow> 'b list action" where
  "map_act f [] = give []"
| "map_act f (x # xs) = bindA (f x) (\<lambda>y. bindA (map_act f xs) (\<lambda>ys. give (y # ys)))"

definition fresh :: "string action" where
  "fresh env st = (Inr (ae_id env (at_count st)), st\<lparr>at_count := at_count st + 1\<rparr>)"

definition publish :: "string \<Rightarrow> pyval \<Rightarrow> unit action" where
  "publish k v env st = (Inr (), st\<lparr>at_events := at_events st @ [(k, v)]\<rparr>)"

definition resolve_chat_jid :: "string \<Rightarrow> string action" where
  "resolve_chat_jid t env st = (let (r, ids) = as_chat_jid (Text t) PN (at_ids st) in (r, st\<lparr>at_ids := ids\<rparr>))"

definition send_stanza :: "node \<Rightarrow> unit action" where
  "send_stanza n env st = (ae_send env (at_sent st) n, st\<lparr>at_sent := at_sent st @ [n]\<rparr>)"

definition ask :: "node \<Rightarrow> node action" where
  "ask n env st = (ae_query env (at_sent st) n, st\<lparr>at_sent := at_sent st @ [n]\<rparr>)"

text \<open>A query without an identifier gets one.\<close>

definition query_node :: "node \<Rightarrow> node action" where
  "query_node n =
     (if map_of (node_attrs n) ''id'' \<noteq> None then ask n
      else bindA fresh (\<lambda>i. ask (Node (node_tag n) (node_attrs n @ [(''id'', AStr i)]) (node_content n))))"

section \<open>Stanzas as they are built\<close>

text \<open>An element without attributes, one with a text as bytes, an attribute that is a text.\<close>

definition str_attrs :: "(string \<times> string) list \<Rightarrow> attrs" where
  "str_attrs = map (\<lambda>(k, v). (k, AStr v))"

definition element :: "string \<Rightarrow> (string \<times> string) list \<Rightarrow> content \<Rightarrow> node" where
  "element tag a c = Node tag (str_attrs a) c"

abbreviation leaf :: "string \<Rightarrow> node" where
  "leaf tag \<equiv> element tag [] CNone"

abbreviation text_node :: "string \<Rightarrow> string \<Rightarrow> node" where
  "text_node tag s \<equiv> element tag [] (CBytes (utf8_encode s))"

abbreviation iq :: "(string \<times> string) list \<Rightarrow> node list \<Rightarrow> node" where
  "iq a ns \<equiv> element ''iq'' a (CList ns)"

section \<open>What can be sent\<close>

abbreviation ok_text :: "string \<Rightarrow> bool" where
  "ok_text \<equiv> wire_ok TOKEN_MAP"

abbreviation ok_node :: "node \<Rightarrow> bool" where
  "ok_node \<equiv> node_ok TOKEN_MAP"

definition short_text :: "string \<Rightarrow> bool" where
  "short_text s \<longleftrightarrow> length s < 4294967296"

text \<open>
  An address that, once normalised, stays as it is and can be sent, and references that hold only
  such addresses.
\<close>

definition stable_jid :: "string \<Rightarrow> bool" where
  "stable_jid j \<longleftrightarrow> (case text_jid (py_strip j) of Inl _ \<Rightarrow> True | Inr (j', _) \<Rightarrow> j' = j)"

definition ok_resolved :: "string \<Rightarrow> bool" where
  "ok_resolved j \<longleftrightarrow> ok_text j \<and> length j < 65536 \<and> stable_jid j"

definition ok_jid :: "string option \<Rightarrow> bool" where
  "ok_jid j \<longleftrightarrow> (case j of None \<Rightarrow> True | Some s \<Rightarrow> ok_resolved s)"

definition ok_address :: "string \<Rightarrow> bool" where
  "ok_address t \<longleftrightarrow> (case text_jid (py_strip t) of Inl _ \<Rightarrow> True | Inr (j, _) \<Rightarrow> ok_resolved j)"

definition ok_ref :: "user_ref \<Rightarrow> bool" where
  "ok_ref ref \<longleftrightarrow> ok_jid (ur_jid ref) \<and> ok_jid (ur_pn ref) \<and> ok_jid (ur_lid ref)"

definition ok_ids :: "identity_state \<Rightarrow> bool" where
  "ok_ids s \<longleftrightarrow> (\<forall>u ref. map_of (by_user_id s) u = Some ref \<longrightarrow> ok_ref ref)"

definition ok_state :: "action_state \<Rightarrow> bool" where
  "ok_state st \<longleftrightarrow> ok_ids (at_ids st) \<and> list_all ok_node (at_sent st)"

text \<open>Identifiers, also cut off; and answers that can be sent in turn, with an address for the group they are about.\<close>

definition ok_id :: "string \<Rightarrow> bool" where
  "ok_id i \<longleftrightarrow> ok_text i \<and> ok_text (take 12 i)"

definition group_jid_of :: "string \<Rightarrow> string" where
  "group_jid_of i = (if CHR ''@'' \<in> set i then i else i @ ''@g.us'')"

definition ok_answer :: "node \<Rightarrow> bool" where
  "ok_answer r \<longleftrightarrow> ok_node r \<and>
     (case get_binary_node_child (Some r) ''group'' of None \<Rightarrow> True
      | Some g \<Rightarrow> (case attr_get (node_attrs g) ''id'' of AStr i \<Rightarrow> i = '''' \<or> ok_address (group_jid_of i) | _ \<Rightarrow> True))"

definition ok_env :: "action_env \<Rightarrow> bool" where
  "ok_env env \<longleftrightarrow> (\<forall>k. ok_id (ae_id env k)) \<and> (\<forall>ns n r. ae_query env ns n = Inr r \<longrightarrow> ok_answer r)"

text \<open>The operation keeps to the wire, and what it returns satisfies \<open>P\<close>.\<close>

definition safe :: "action_env \<Rightarrow> ('a \<Rightarrow> bool) \<Rightarrow> 'a action \<Rightarrow> bool" where
  "safe env P m \<longleftrightarrow> (\<forall>st. ok_state st \<longrightarrow> ok_state (snd (m env st)) \<and> (\<forall>x. fst (m env st) = Inr x \<longrightarrow> P x))"

lemma safe_give: "P x \<Longrightarrow> safe env P (give x)"
  by (simp add: safe_def give_def)

lemma safe_fail: "safe env P (fail_with e)"
  by (simp add: safe_def fail_with_def)

lemma safe_compute: "(\<And>x. r = Inr x \<Longrightarrow> P x) \<Longrightarrow> safe env P (compute r)"
  by (simp add: safe_def compute_def)

lemma safe_bind: "safe env P m \<Longrightarrow> (\<And>x. P x \<Longrightarrow> safe env Q (f x)) \<Longrightarrow> safe env Q (bindA m f)"
  unfolding safe_def bindA_def by (fastforce split: prod.splits sum.splits)

lemma safe_attempt: "safe env P m \<Longrightarrow> safe env (\<lambda>r. \<forall>x. r = Some x \<longrightarrow> P x) (attempt m)"
  unfolding safe_def attempt_def by (fastforce split: prod.splits sum.splits)

lemma safe_weaken: "safe env P m \<Longrightarrow> (\<And>x. P x \<Longrightarrow> Q x) \<Longrightarrow> safe env Q m"
  by (simp add: safe_def)

lemma safe_map: "(\<And>x. x \<in> set xs \<Longrightarrow> safe env P (f x)) \<Longrightarrow> safe env (\<lambda>ys. list_all P ys \<and> length ys = length xs) (map_act f xs)"
proof (induction xs)
  case (Cons x xs)
  show ?case
    by (auto intro!: safe_bind [where P = P] safe_bind [where P = "\<lambda>ys. list_all P ys \<and> length ys = length xs"] safe_give Cons)
qed (simp add: safe_give)

lemma safe_fresh: "ok_env env \<Longrightarrow> safe env ok_id fresh"
  by (auto simp: safe_def fresh_def ok_env_def ok_state_def)

lemma safe_emit: "safe env (\<lambda>_. True) (publish k v)"
  by (simp add: safe_def publish_def ok_state_def)

lemma safe_send: "ok_node n \<Longrightarrow> safe env (\<lambda>_. True) (send_stanza n)"
  by (simp add: safe_def send_stanza_def ok_state_def)

lemma safe_ask: "ok_env env \<Longrightarrow> ok_node n \<Longrightarrow> safe env ok_answer (ask n)"
  by (auto simp: safe_def ask_def ok_state_def ok_env_def)

lemma ok_id_text: "ok_id i \<Longrightarrow> ok_text i"
  by (simp add: ok_id_def)

lemma ok_id_cut: "ok_id i \<Longrightarrow> ok_text (take 12 i)"
  by (simp add: ok_id_def)

lemma ok_answer_node: "ok_answer r \<Longrightarrow> ok_node r"
  by (simp add: ok_answer_def)

lemma ok_id_key: "ok_text ''id''"
  by (rule wire_ok_atom) (simp add: atom_ok_def ascii_valid ascii_def)

lemma ok_with_id:
  assumes "ok_node (Node tag a c)" and "map_of a ''id'' = None" and "ok_text i" and "length a < 30000"
  shows "ok_node (Node tag (a @ [(''id'', AStr i)]) c)"
  using assms by (auto simp: dict_wf_def attr_ok_def ok_id_key map_of_eq_None_iff)

lemma safe_query:
  assumes "ok_env env" and "ok_node n" and "length (node_attrs n) < 30000"
  shows "safe env ok_answer (query_node n)"
proof (cases "map_of (node_attrs n) ''id''")
  case None
  have "ok_node (Node (node_tag n) (node_attrs n @ [(''id'', AStr i)]) (node_content n))" if "ok_text i" for i
    using ok_with_id [OF _ None that assms(3), of "node_tag n" "node_content n"] assms(2) by (cases n) simp
  then have "safe env ok_answer (bindA fresh (\<lambda>i. ask (Node (node_tag n) (node_attrs n @ [(''id'', AStr i)]) (node_content n))))"
    by (intro safe_bind [OF safe_fresh] safe_ask assms(1)) (blast dest: ok_id_text)
  then show ?thesis using None by (simp add: query_node_def)
qed (simp add: query_node_def safe_ask assms)

section \<open>Resolved addresses can be sent\<close>

lemma ok_ids_add: "ok_ids s \<Longrightarrow> ok_ref ref \<Longrightarrow> ok_ids (add_ref ref j s)"
  by (simp add: ok_ids_def add_ref_def)

lemma make_ref_ok: "make_ref j src = Inr ref \<Longrightarrow> ok_resolved j \<Longrightarrow> ok_ref ref"
  by (auto simp: make_ref_def ok_ref_def ok_jid_def Let_def bindE_eq_Inr_iff)

lemma resolve_text_ok_ref:
  assumes "ok_ids s" and "ok_address t"
  shows "ok_ids (snd (resolve_text t s)) \<and> (\<forall>r. fst (resolve_text t s) = Inr r \<longrightarrow> ok_ref (rr_ref r))"
  using assms
  by (auto simp: resolve_text_def Let_def ok_address_def ok_ids_def [of s] make_ref_ok intro: ok_ids_add
      split: option.splits sum.splits prod.splits)

lemma chat_jid_ok:
  assumes "ok_ids s" and "ok_address t"
  shows "ok_ids (snd (as_chat_jid (Text t) PN s)) \<and> (\<forall>j. fst (as_chat_jid (Text t) PN s) = Inr j \<longrightarrow> ok_resolved j)"
proof (cases "resolve_text t s")
  case (Pair r s')
  have ok: "ok_ids s'" "\<And>x. r = Inr x \<Longrightarrow> ok_ref (rr_ref x)" using resolve_text_ok_ref [OF assms] Pair by simp_all
  show ?thesis
  proof (cases r)
    case (Inr x)
    have "ok_jid (ur_jid (rr_ref x))" "ok_jid (ur_pn (rr_ref x))" "ok_jid (ur_lid (rr_ref x))"
      using ok(2) [OF Inr] by (simp_all add: ok_ref_def)
    then show ?thesis using Pair Inr ok(1) by (auto simp: as_chat_jid_def Let_def given_def ok_jid_def)
  qed (use Pair ok(1) in \<open>simp add: as_chat_jid_def\<close>)
qed

lemma safe_resolve: "ok_address t \<Longrightarrow> safe env ok_resolved (resolve_chat_jid t)"
  using chat_jid_ok by (fastforce simp: safe_def resolve_chat_jid_def ok_state_def split: prod.splits)

section \<open>Which addresses those are\<close>

lemma wire_ok_user:
  assumes "clean_user u" and "atom_ok u" and "atom_ok srv" and "srv \<noteq> ''''"
  shows "wire_ok tm (u @ CHR ''@'' # srv)"
  using assms jid_decode_plain by (simp add: wire_ok_def jid_encode_def)

text \<open>The strings of the program itself, and the address of all groups.\<close>

definition plain_text :: "string \<Rightarrow> bool" where
  "plain_text s \<longleftrightarrow> list_all (\<lambda>c. c \<noteq> CHR ''@'' \<and> of_char c < (128 :: nat)) s \<and> length s < 4294967296"

lemma ok_plain: "plain_text s \<Longrightarrow> ok_text s"
  using ascii_valid [of s] by (intro wire_ok_atom) (auto simp: plain_text_def atom_ok_def list_all_iff ascii_def)

lemma plain_text_Nil: "plain_text ''''"
  by (simp add: plain_text_def)

lemma plain_text_Cons: "plain_text (c # cs) \<longleftrightarrow> c \<noteq> CHR ''@'' \<and> of_char c < (128 :: nat) \<and> length cs < 4294967295 \<and> plain_text cs"
  by (auto simp: plain_text_def)

lemma ok_group_server: "ok_text ''@g.us''"
  using wire_ok_user [of "''''" "''g.us''" TOKEN_MAP] by (simp add: clean_user_def atom_ok_def ascii_valid ascii_def)

lemma ok_strs: "list_all (attr_ok tm) (str_attrs a) \<longleftrightarrow> list_all (\<lambda>(k, v). wire_ok tm k \<and> wire_ok tm v) a"
  by (induction a) (auto simp: str_attrs_def attr_ok_def)

lemma str_attrs_wf: "dict_wf (str_attrs a) \<longleftrightarrow> distinct (map fst a)"
  by (simp add: dict_wf_def str_attrs_def comp_def case_prod_unfold)

lemma str_attrs_length: "length (str_attrs a) = length a"
  by (simp add: str_attrs_def)

lemma ok_element:
  "ok_node (element tag a c) \<longleftrightarrow> tag \<noteq> '''' \<and> ok_text tag \<and> distinct (map fst a) \<and>
     list_all (\<lambda>(k, v). ok_text k \<and> ok_text v) a \<and> length a < 32767 \<and> content_ok TOKEN_MAP c"
  by (auto simp: element_def ok_strs str_attrs_wf str_attrs_length)

lemma element_attrs: "node_attrs (element tag a c) = str_attrs a"
  by (simp add: element_def)

lemma ok_utf8: "content_ok TOKEN_MAP (CBytes (utf8_encode s)) \<longleftrightarrow> short_text s"
  by (simp add: short_text_def utf8_encode_def)

lemma ok_elements: "nodes_ok TOKEN_MAP (n # ns) \<longleftrightarrow> (node_tag n = '''' \<or> ok_node n) \<and> nodes_ok TOKEN_MAP ns"
  by simp

lemma ok_resolved_text: "ok_resolved j \<Longrightarrow> ok_text j"
  by (simp add: ok_resolved_def)

lemma ok_resolved_address: "ok_resolved j \<Longrightarrow> ok_address j"
  by (auto simp: ok_address_def ok_resolved_def stable_jid_def split: sum.splits)

lemmas wire_simps = ok_resolved_text ok_resolved_address ok_id_text ok_id_cut ok_answer_node ok_element ok_utf8 ok_plain plain_text_Nil plain_text_Cons ok_group_server element_attrs str_attrs_length
declare content_ok.simps(3) [simp del]

section \<open>Rules for operations\<close>

text \<open>A collection of rules that take an operation apart; what is left to show is that its stanzas can be sent.\<close>

named_theorems safe_intros

lemma safe_if [safe_intros]: "(b \<Longrightarrow> safe env P m) \<Longrightarrow> (\<not> b \<Longrightarrow> safe env P n) \<Longrightarrow> safe env P (if b then m else n)"
  by simp

lemma safe_option [safe_intros]:
  "(x = None \<Longrightarrow> safe env P m) \<Longrightarrow> (\<And>y. x = Some y \<Longrightarrow> safe env P (f y)) \<Longrightarrow> safe env P (case x of None \<Rightarrow> m | Some y \<Rightarrow> f y)"
  by (cases x) simp_all

lemma safe_done [safe_intros]: "safe env (\<lambda>_. True) (give x)"
  by (simp add: safe_give)

lemma safe_done_compute [safe_intros]: "safe env (\<lambda>_. True) (compute r)"
  by (simp add: safe_compute)

text \<open>Each primitive comes as the beginning of a sequence and, where it may be, as its end.\<close>

lemma safe_bind_compute [safe_intros]:
  "(\<And>x. r = Inr x \<Longrightarrow> safe env Q (f x)) \<Longrightarrow> safe env Q (bindA (compute r) f)"
  by (rule safe_bind [OF safe_compute [where P = "\<lambda>x. r = Inr x"]]) simp_all

lemma safe_bind_give [safe_intros]: "safe env Q (f x) \<Longrightarrow> safe env Q (bindA (give x) f)"
  by (rule safe_bind [OF safe_give [where P = "\<lambda>y. y = x"]]) simp_all

lemmas safe_binds [safe_intros] = safe_bind [OF safe_fresh] safe_bind [OF safe_emit] safe_bind [OF safe_send]
  safe_bind [OF safe_resolve] safe_bind [OF safe_query]

lemmas safe_ends [safe_intros] = safe_fail safe_emit safe_send safe_weaken [OF safe_query TrueI]

text \<open>Elements that name one address each, as for the participants of a group.\<close>

definition jid_elements :: "string \<Rightarrow> string list \<Rightarrow> node list action" where
  "jid_elements tag = map_act (\<lambda>t. bindA (resolve_chat_jid t) (\<lambda>j. give (element tag [(''jid'', j)] CNone)))"

lemma ok_nodes: "nodes_ok tm ns \<longleftrightarrow> (\<forall>n\<in>set ns. node_tag n = '''' \<or> node_ok tm n)"
  by (induction ns) auto

lemma ok_nodes_append: "nodes_ok tm (ns @ ns') \<longleftrightarrow> nodes_ok tm ns \<and> nodes_ok tm ns'"
  by (simp add: ok_nodes ball_Un)

lemma safe_jid_elements:
  assumes "plain_text tag" and "tag \<noteq> ''''" and "list_all ok_address ts"
  shows "safe env (\<lambda>ns. nodes_ok TOKEN_MAP ns \<and> length ns = length ts) (jid_elements tag ts)"
proof -
  have "safe env (\<lambda>ns. list_all ok_node ns \<and> length ns = length ts) (jid_elements tag ts)"
    unfolding jid_elements_def
    by (intro safe_map safe_bind [OF safe_resolve] safe_give)
      (use assms in \<open>auto simp: wire_simps list_all_iff\<close>)
  then show ?thesis by (rule safe_weaken) (simp add: ok_nodes list_all_iff)
qed

lemmas safe_bind_jid_elements [safe_intros] = safe_bind [OF safe_jid_elements]

end
