(* ===== verification/Group_Actions.thy ===== *)
theory Group_Actions
  imports Actions Group_Notification
begin

text \<open>
  The operations on groups (\<^verbatim>\<open>socket/groups.py\<close>): each resolves its addresses, asks the server
  and reads the answer. \<open>clean_dirty_bits\<close> is that of \<^verbatim>\<open>socket/chats.py\<close>.
\<close>

section \<open>Asking about groups\<close>

definition ALL_GROUPS :: string where "ALL_GROUPS = ''@g.us''"

definition group_query :: "string \<Rightarrow> string \<Rightarrow> node list \<Rightarrow> node action" where
  "group_query jid type content =
     bindA (if jid = ALL_GROUPS then give jid else resolve_chat_jid jid) (\<lambda>resolved.
       query_node (iq [(''type'', type), (''xmlns'', ''w:g2''), (''to'', resolved)] content))"

definition interactive :: node where
  "interactive = element ''query'' [(''request'', ''interactive'')] CNone"

definition group_metadata :: "string \<Rightarrow> pydict action" where
  "group_metadata jid = bindA (group_query jid ''get'' [interactive]) (\<lambda>result. compute (extract_group_metadata result))"

text \<open>The groups of an answer by their identifiers; \<open>extract\<close> reads one of them.\<close>

definition metadata_id :: "pydict \<Rightarrow> string" where
  "metadata_id m = text_or_empty (py_get ''id'' m)"

fun collect_metadata :: "(node \<Rightarrow> pydict result) \<Rightarrow> node list \<Rightarrow> (string, pyval) dict \<Rightarrow> (string, pyval) dict result" where
  "collect_metadata extract [] data = Inr data"
| "collect_metadata extract (g # gs) data =
     bindE (extract (Node ''result'' [] (CList [g]))) (\<lambda>meta. collect_metadata extract gs (dict_set (metadata_id meta) (PDict meta) data))"

definition participating_iq :: node where
  "participating_iq = iq [(''to'', ALL_GROUPS), (''xmlns'', ''w:g2''), (''type'', ''get'')]
     [element ''participating'' [] (CList [leaf ''participants'', leaf ''description''])]"

definition fetch_all :: "string \<Rightarrow> string \<Rightarrow> (node \<Rightarrow> pydict result) \<Rightarrow> (string, pyval) dict action" where
  "fetch_all parent tag extract =
     bindA (query_node participating_iq) (\<lambda>result.
     bindA (compute (case get_binary_node_child (Some result) parent of
              None \<Rightarrow> Inr [] | Some c \<Rightarrow> collect_metadata extract (get_binary_node_children (Some c) tag) [])) (\<lambda>data.
     bindA (publish ''groups.update'' (PList (map snd data))) (\<lambda>_. give data)))"

definition group_fetch_all_participating :: "(string, pyval) dict action" where
  "group_fetch_all_participating = fetch_all ''groups'' ''group'' extract_group_metadata"

definition clean_dirty_bits :: "string \<Rightarrow> string option \<Rightarrow> unit action" where
  "clean_dirty_bits type from_timestamp =
     bindA fresh (\<lambda>tag. send_stanza
       (iq [(''to'', S_WHATSAPP_NET), (''type'', ''set''), (''xmlns'', ''urn:xmpp:whatsapp:dirty''), (''id'', tag)]
         [element ''clean'' ((''type'', type) # (case from_timestamp of None \<Rightarrow> [] | Some t \<Rightarrow> [(''timestamp'', t)])) CNone]))"

definition dirty_type :: "node \<Rightarrow> attr_value" where
  "dirty_type n = child_attr (get_binary_node_child (Some n) ''dirty'') ''type''"

definition handle_group_dirty :: "node \<Rightarrow> unit action" where
  "handle_group_dirty n =
     (if dirty_type n \<noteq> AStr ''groups'' then give ()
      else bindA group_fetch_all_participating (\<lambda>_. clean_dirty_bits ''groups'' None))"

section \<open>Changing groups\<close>

definition group_create :: "string \<Rightarrow> string list \<Rightarrow> pydict action" where
  "group_create subject participants =
     bindA fresh (\<lambda>key.
     bindA (jid_elements ''participant'' participants) (\<lambda>ns.
     bindA (group_query ALL_GROUPS ''set'' [element ''create'' [(''subject'', subject), (''key'', key)] (CList ns)]) (\<lambda>result.
       compute (extract_group_metadata result))))"

definition group_leave :: "string \<Rightarrow> unit action" where
  "group_leave i = bindA (group_query ALL_GROUPS ''set'' [element ''leave'' [] (CList [element ''group'' [(''id'', i)] CNone])]) (\<lambda>_. give ())"

definition group_update_subject :: "string \<Rightarrow> string \<Rightarrow> unit action" where
  "group_update_subject jid subject = bindA (group_query jid ''set'' [text_node ''subject'' subject]) (\<lambda>_. give ())"

definition group_request_participants_list :: "string \<Rightarrow> attrs list action" where
  "group_request_participants_list jid =
     bindA (group_query jid ''get'' [leaf ''membership_approval_requests'']) (\<lambda>result.
       give (map node_attrs (get_binary_node_children
         (get_binary_node_child (Some result) ''membership_approval_requests'') ''membership_approval_request'')))"

text \<open>What the server says of each participant: a status, which is 200 unless there is an error, and the address.\<close>

definition participant_results :: "node option \<Rightarrow> (attr_value \<times> attr_value \<times> node) list" where
  "participant_results parent =
     map (\<lambda>p. (attr_default (node_attrs p) ''error'' ''200'', attr_default (node_attrs p) ''jid'' '''', p))
       (get_binary_node_children parent ''participant'')"

definition group_request_participants_update ::
    "string \<Rightarrow> string list \<Rightarrow> string \<Rightarrow> (attr_value \<times> attr_value \<times> node) list action" where
  "group_request_participants_update jid participants act =
     bindA (jid_elements ''participant'' participants) (\<lambda>ns.
     bindA (group_query jid ''set'' [element ''membership_requests_action'' [] (CList [element act [] (CList ns)])]) (\<lambda>result.
       give (participant_results (get_binary_node_child (get_binary_node_child (Some result) ''membership_requests_action'') act))))"

definition group_participants_update ::
    "string \<Rightarrow> string list \<Rightarrow> string \<Rightarrow> (attr_value \<times> attr_value \<times> node) list action" where
  "group_participants_update jid participants act =
     bindA (jid_elements ''participant'' participants) (\<lambda>ns.
     bindA (group_query jid ''set'' [element act [] (CList ns)]) (\<lambda>result.
       give (participant_results (get_binary_node_child (Some result) act))))"

text \<open>A description that is missing or empty deletes; the identifier of the one before is passed on.\<close>

definition description_node :: "string option \<Rightarrow> (string \<times> string) list \<Rightarrow> string \<Rightarrow> node" where
  "description_node description first prev =
     element ''description'' (first @ (if prev = '''' then [] else [(''prev'', prev)]))
       (case description of Some (c # cs) \<Rightarrow> CList [text_node ''body'' (c # cs)] | _ \<Rightarrow> CNone)"

definition description_attrs :: "string option \<Rightarrow> (string \<times> string) list action" where
  "description_attrs description =
     (if description = None \<or> description = Some '''' then give [(''delete'', ''true'')]
      else bindA fresh (\<lambda>i. give [(''id'', i)]))"

definition previous_description :: "pydict \<Rightarrow> string" where
  "previous_description metadata = text_or_empty (py_get ''descId'' metadata)"

definition parent_community :: "pydict \<Rightarrow> string" where
  "parent_community metadata = text_or_empty (py_get ''linkedParent'' metadata)"

definition group_update_description :: "string \<Rightarrow> string option \<Rightarrow> unit action" where
  "group_update_description jid description =
     bindA (group_metadata jid) (\<lambda>metadata.
     bindA (description_attrs description) (\<lambda>first.
     bindA (group_query jid ''set'' [description_node description first (previous_description metadata)]) (\<lambda>_. give ())))"

section \<open>Invitations\<close>

definition invite_code :: "node \<Rightarrow> attr_value" where
  "invite_code result = child_attr (get_binary_node_child (Some result) ''invite'') ''code''"

definition group_invite_code :: "string \<Rightarrow> attr_value action" where
  "group_invite_code jid = bindA (group_query jid ''get'' [leaf ''invite'']) (\<lambda>result. give (invite_code result))"

definition group_revoke_invite :: "string \<Rightarrow> attr_value action" where
  "group_revoke_invite jid = bindA (group_query jid ''set'' [leaf ''invite'']) (\<lambda>result. give (invite_code result))"

definition group_accept_invite :: "string \<Rightarrow> attr_value action" where
  "group_accept_invite code =
     bindA (group_query ALL_GROUPS ''set'' [element ''invite'' [(''code'', code)] CNone]) (\<lambda>results.
       give (child_attr (get_binary_node_child (Some results) ''group'') ''jid''))"

definition group_revoke_invite_v4 :: "string \<Rightarrow> string \<Rightarrow> bool action" where
  "group_revoke_invite_v4 group_jid invited_jid =
     bindA (resolve_chat_jid invited_jid) (\<lambda>invited.
     bindA (group_query group_jid ''set'' [element ''revoke'' [] (CList [element ''participant'' [(''jid'', invited)] CNone])]) (\<lambda>_.
       give True))"

definition group_get_invite_info :: "string \<Rightarrow> pydict action" where
  "group_get_invite_info code =
     bindA (group_query ALL_GROUPS ''get'' [element ''invite'' [(''code'', code)] CNone]) (\<lambda>results.
       compute (extract_group_metadata results))"

section \<open>Settings\<close>

definition ephemeral_node :: "int \<Rightarrow> node" where
  "ephemeral_node expiration =
     (if expiration = 0 then leaf ''not_ephemeral'' else element ''ephemeral'' [(''expiration'', int_str expiration)] CNone)"

definition group_toggle_ephemeral :: "string \<Rightarrow> int \<Rightarrow> unit action" where
  "group_toggle_ephemeral jid expiration = bindA (group_query jid ''set'' [ephemeral_node expiration]) (\<lambda>_. give ())"

definition group_setting_update :: "string \<Rightarrow> string \<Rightarrow> unit action" where
  "group_setting_update jid setting = bindA (group_query jid ''set'' [leaf setting]) (\<lambda>_. give ())"

definition group_member_add_mode :: "string \<Rightarrow> string \<Rightarrow> unit action" where
  "group_member_add_mode jid mode = bindA (group_query jid ''set'' [element ''member_add_mode'' [] (CStr mode)]) (\<lambda>_. give ())"

definition approval_mode_node :: "string \<Rightarrow> string \<Rightarrow> node" where
  "approval_mode_node join mode = element ''membership_approval_mode'' [] (CList [element join [(''state'', mode)] CNone])"

definition group_join_approval_mode :: "string \<Rightarrow> string \<Rightarrow> unit action" where
  "group_join_approval_mode jid mode = bindA (group_query jid ''set'' [approval_mode_node ''group_join'' mode]) (\<lambda>_. give ())"

section \<open>Accepting an invitation that came as a message\<close>

text \<open>
  \<open>str\<close> of a text, a number, a truth value or None; nothing else is in an invitation. \<open>ask_group\<close> is the
  query of the kind of group, \<open>upsert\<close> files the message, \<open>me\<close> is the own contact and \<open>now\<close> the time.
\<close>

fun py_text :: "pyval \<Rightarrow> string" where
  "py_text (PStr s) = s"
| "py_text (PInt i) = int_str i"
| "py_text (PBool b) = (if b then ''True'' else ''False'')"
| "py_text PNone = ''None''"
| "py_text _ = ''''"

definition invite_field :: "string \<Rightarrow> string \<Rightarrow> pydict \<Rightarrow> pyval" where
  "invite_field k k' invite = py_or (py_get k invite) (py_get k' invite)"

definition key_object :: "pyval \<Rightarrow> pydict" where
  "key_object key = (case key of PStr s \<Rightarrow> [(''remoteJid'', PStr s)] | v \<Rightarrow> dict_or_empty v)"

definition expired_invite :: "pydict \<Rightarrow> pydict \<Rightarrow> pyval" where
  "expired_invite key invite = PList [PDict [(''key'', PDict key), (''update'', PDict [(''message'',
     PDict [(''groupInviteMessage'', PDict (dict_set ''inviteCode'' (PStr '''') (dict_set ''inviteExpiration'' (PInt 0) invite)))])])]]"

definition joined_message :: "pyval \<Rightarrow> string \<Rightarrow> pyval \<Rightarrow> string \<Rightarrow> int \<Rightarrow> pydict" where
  "joined_message group_jid i admin me_text now =
     [(''key'', PDict [(''remoteJid'', group_jid), (''id'', PStr i), (''fromMe'', PBool False), (''participant'', admin)]),
      (''messageStubType'', PInt 27), (''messageStubParameters'', PList [PStr me_text]), (''participant'', admin), (''messageTimestamp'', PInt now)]"

definition accept_node :: "pyval \<Rightarrow> pyval \<Rightarrow> pydict \<Rightarrow> node" where
  "accept_node code expiration key = element ''accept'' [(''code'', py_text code), (''expiration'', py_text expiration),
     (''admin'', case map_of key ''remoteJid'' of None \<Rightarrow> '''' | Some v \<Rightarrow> py_text v)] CNone"

definition accept_invite_v4 ::
    "(string \<Rightarrow> string \<Rightarrow> node list \<Rightarrow> node action) \<Rightarrow> (pydict \<Rightarrow> unit action) \<Rightarrow> pydict \<Rightarrow> int \<Rightarrow> pyval \<Rightarrow> pydict \<Rightarrow> attr_value action" where
  "accept_invite_v4 ask_group upsert me now key invite =
     (let key = key_object key;
          group_jid = invite_field ''groupJid'' ''group_jid'' invite; code = invite_field ''inviteCode'' ''invite_code'' invite;
          expiration = invite_field ''inviteExpiration'' ''invite_expiration'' invite in
      if \<not> truthy group_jid \<or> \<not> truthy code \<or> expiration = PNone
      then fail_with (ValueError ''invite_message must include groupJid/inviteCode/inviteExpiration'')
      else bindA (ask_group (text_or_empty group_jid) ''set'' [accept_node code expiration key]) (\<lambda>results.
           bindA (if truthy (py_get ''id'' key) then publish ''messages.update'' (expired_invite key invite) else give ()) (\<lambda>_.
           bindA fresh (\<lambda>i.
           bindA (compute (json_dumps '' '' (PDict me))) (\<lambda>me_text.
           bindA (upsert (joined_message group_jid i (py_get ''remoteJid'' key) me_text now)) (\<lambda>_.
             give (attr_get (node_attrs results) ''from'')))))))"

definition group_accept_invite_v4 ::
    "(pydict \<Rightarrow> unit action) \<Rightarrow> pydict \<Rightarrow> int \<Rightarrow> pyval \<Rightarrow> pydict \<Rightarrow> attr_value action" where
  "group_accept_invite_v4 = accept_invite_v4 group_query"

text \<open>An invitation that does not expire has the expiration 0, which is taken for missing.\<close>

lemma unlimited_invite_refused:
  assumes "map_of invite ''inviteExpiration'' = Some (PInt 0)" and "map_of invite ''invite_expiration'' = None"
  shows "accept_invite_v4 ask_group upsert me now key invite env st =
    (Inl (ValueError ''invite_message must include groupJid/inviteCode/inviteExpiration''), st)"
  using assms by (simp add: accept_invite_v4_def invite_field_def py_get_def py_or_def Let_def fail_with_def)

section \<open>All operations\<close>

datatype group_op =
    G_Metadata string | G_Fetch_All | G_Dirty node | G_Create string "string list" | G_Leave string | G_Subject string string
  | G_Requests string | G_Update_Requests string "string list" string | G_Participants string "string list" string
  | G_Description string "string option" | G_Invite_Code string | G_Revoke_Invite string | G_Accept_Invite string
  | G_Revoke_V4 string string | G_Accept_V4 "pydict \<Rightarrow> unit action" pydict int pyval pydict | G_Invite_Info string
  | G_Ephemeral string int | G_Setting string string | G_Add_Mode string string | G_Approval_Mode string string

definition run_only :: "'a action \<Rightarrow> unit action" where
  "run_only m = bindA m (\<lambda>_. give ())"

lemma safe_run_only [safe_intros]: "safe env (\<lambda>_. True) m \<Longrightarrow> safe env (\<lambda>_. True) (run_only m)"
  unfolding run_only_def by (rule safe_bind) (simp_all add: safe_done)

fun run_group_op :: "group_op \<Rightarrow> unit action" where
  "run_group_op (G_Metadata jid) = run_only (group_metadata jid)"
| "run_group_op G_Fetch_All = run_only group_fetch_all_participating"
| "run_group_op (G_Dirty n) = handle_group_dirty n"
| "run_group_op (G_Create subject participants) = run_only (group_create subject participants)"
| "run_group_op (G_Leave i) = group_leave i"
| "run_group_op (G_Subject jid subject) = group_update_subject jid subject"
| "run_group_op (G_Requests jid) = run_only (group_request_participants_list jid)"
| "run_group_op (G_Update_Requests jid participants act) = run_only (group_request_participants_update jid participants act)"
| "run_group_op (G_Participants jid participants act) = run_only (group_participants_update jid participants act)"
| "run_group_op (G_Description jid description) = group_update_description jid description"
| "run_group_op (G_Invite_Code jid) = run_only (group_invite_code jid)"
| "run_group_op (G_Revoke_Invite jid) = run_only (group_revoke_invite jid)"
| "run_group_op (G_Accept_Invite code) = run_only (group_accept_invite code)"
| "run_group_op (G_Revoke_V4 jid invited) = run_only (group_revoke_invite_v4 jid invited)"
| "run_group_op (G_Accept_V4 upsert me now key invite) = run_only (group_accept_invite_v4 upsert me now key invite)"
| "run_group_op (G_Invite_Info code) = run_only (group_get_invite_info code)"
| "run_group_op (G_Ephemeral jid expiration) = group_toggle_ephemeral jid expiration"
| "run_group_op (G_Setting jid setting) = group_setting_update jid setting"
| "run_group_op (G_Add_Mode jid mode) = group_member_add_mode jid mode"
| "run_group_op (G_Approval_Mode jid mode) = group_join_approval_mode jid mode"

text \<open>
  Arguments that the wire can carry. A word that becomes a tag is not empty, lists are shorter than 65535, and what
  files a message sends only what can be sent.
\<close>

definition ok_group :: "string \<Rightarrow> bool" where
  "ok_group jid \<longleftrightarrow> jid = ALL_GROUPS \<or> ok_address jid"

definition ok_list :: "string list \<Rightarrow> bool" where
  "ok_list ts \<longleftrightarrow> list_all ok_address ts \<and> length ts < 65535"

definition ok_tag :: "string \<Rightarrow> bool" where
  "ok_tag t \<longleftrightarrow> t \<noteq> '''' \<and> ok_text t"

definition ok_invite :: "action_env \<Rightarrow> (pydict \<Rightarrow> unit action) \<Rightarrow> pyval \<Rightarrow> pydict \<Rightarrow> bool" where
  "ok_invite env upsert key invite \<longleftrightarrow> (\<forall>m. safe env (\<lambda>_. True) (upsert m)) \<and>
     ok_group (text_or_empty (invite_field ''groupJid'' ''group_jid'' invite)) \<and>
     ok_text (text_or_empty (invite_field ''groupJid'' ''group_jid'' invite)) \<and>
     ok_text (py_text (invite_field ''inviteCode'' ''invite_code'' invite)) \<and>
     ok_text (py_text (invite_field ''inviteExpiration'' ''invite_expiration'' invite)) \<and>
     (case map_of (key_object key) ''remoteJid'' of None \<Rightarrow> True | Some v \<Rightarrow> ok_text (py_text v))"

fun ok_group_op :: "action_env \<Rightarrow> group_op \<Rightarrow> bool" where
  "ok_group_op env (G_Metadata jid) \<longleftrightarrow> ok_group jid"
| "ok_group_op env G_Fetch_All \<longleftrightarrow> True"
| "ok_group_op env (G_Dirty n) \<longleftrightarrow> True"
| "ok_group_op env (G_Create subject participants) \<longleftrightarrow> ok_text subject \<and> ok_list participants"
| "ok_group_op env (G_Leave i) \<longleftrightarrow> ok_text i"
| "ok_group_op env (G_Subject jid subject) \<longleftrightarrow> ok_group jid \<and> short_text subject"
| "ok_group_op env (G_Requests jid) \<longleftrightarrow> ok_group jid"
| "ok_group_op env (G_Update_Requests jid participants act) \<longleftrightarrow> ok_group jid \<and> ok_list participants \<and> ok_tag act"
| "ok_group_op env (G_Participants jid participants act) \<longleftrightarrow> ok_group jid \<and> ok_list participants \<and> ok_tag act"
| "ok_group_op env (G_Description jid description) \<longleftrightarrow> ok_group jid \<and> (case description of None \<Rightarrow> True | Some d \<Rightarrow> short_text d)"
| "ok_group_op env (G_Invite_Code jid) \<longleftrightarrow> ok_group jid"
| "ok_group_op env (G_Revoke_Invite jid) \<longleftrightarrow> ok_group jid"
| "ok_group_op env (G_Accept_Invite code) \<longleftrightarrow> ok_text code"
| "ok_group_op env (G_Revoke_V4 jid invited) \<longleftrightarrow> ok_group jid \<and> ok_address invited"
| "ok_group_op env (G_Accept_V4 upsert me now key invite) \<longleftrightarrow> ok_invite env upsert key invite"
| "ok_group_op env (G_Invite_Info code) \<longleftrightarrow> ok_text code"
| "ok_group_op env (G_Ephemeral jid expiration) \<longleftrightarrow> ok_group jid \<and> ok_text (int_str expiration)"
| "ok_group_op env (G_Setting jid setting) \<longleftrightarrow> ok_group jid \<and> ok_tag setting"
| "ok_group_op env (G_Add_Mode jid mode) \<longleftrightarrow> ok_group jid \<and> ok_text mode"
| "ok_group_op env (G_Approval_Mode jid mode) \<longleftrightarrow> ok_group jid \<and> ok_text mode"

section \<open>Every stanza can be sent\<close>

lemma safe_group_query:
  assumes "ok_env env" and "ok_group jid" and "ok_text type" and "length ns < 65536" and "nodes_ok TOKEN_MAP ns"
  shows "safe env ok_answer (group_query jid type ns)"
proof -
  have "safe env ok_text (if jid = ALL_GROUPS then give jid else resolve_chat_jid jid)"
    using assms(2) by (auto simp: ok_group_def ALL_GROUPS_def intro!: safe_give safe_weaken [OF safe_resolve] ok_group_server ok_resolved_text)
  then show ?thesis unfolding group_query_def
    by (rule safe_bind) (use assms in \<open>auto intro!: safe_query simp: wire_simps\<close>)
qed

lemmas safe_bind_group_query [safe_intros] = safe_bind [OF safe_group_query]

lemma ok_all_groups: "ok_group ALL_GROUPS" "ok_text ALL_GROUPS"
  by (simp_all add: ok_group_def ALL_GROUPS_def ok_group_server)

text \<open>A text that the metadata takes from the server can be sent back.\<close>

lemma ok_text_Nil: "ok_text ''''"
  by (simp add: ok_plain plain_text_Nil)

lemma ok_attr_get: "list_all (attr_ok TOKEN_MAP) a \<Longrightarrow> attr_get a k = AStr s \<Longrightarrow> ok_text s"
  by (auto simp: attr_get_def attr_ok_def list_all_iff dest!: map_of_SomeD split: option.splits)

lemma ok_child:
  assumes "ok_node n" and "get_binary_node_child (Some n) tag = Some c" and "tag \<noteq> ''''"
  shows "ok_node c"
proof -
  obtain ns rest where ns: "node_content n = CList ns" "filter (\<lambda>c. node_tag c = tag) ns = c # rest"
    using assms(2) by (auto simp: get_binary_node_child_def get_binary_node_children_def split: content.splits list.splits)
  then have "c \<in> set (filter (\<lambda>c. node_tag c = tag) ns)" by simp
  then have c: "c \<in> set ns" "node_tag c = tag" by simp_all
  have "nodes_ok TOKEN_MAP ns" using assms(1) ns(1) by (cases n) simp
  then show ?thesis using c assms(3) by (auto simp: ok_nodes)
qed

lemma child_attr_ok:
  assumes "ok_node n" and "tag \<noteq> ''''" and "child_attr (get_binary_node_child (Some n) tag) k = AStr s"
  shows "ok_text s"
proof (cases "get_binary_node_child (Some n) tag")
  case (Some c)
  then have "ok_node c" by (rule ok_child [OF assms(1) _ assms(2)])
  then show ?thesis using assms(3) Some by (cases c) (auto simp: child_attr_def dest: ok_attr_get)
qed (use assms in \<open>simp add: child_attr_def\<close>)

text \<open>Two fields are texts of the server: the identifier of the description and the community.\<close>

lemma metadata_texts:
  assumes "extract_group_metadata result = Inr m" and "get_binary_node_child (Some result) ''group'' = Some g"
  shows "optional_field (child_attr (get_binary_node_child (Some g) ''description'') ''id'') = Inr (py_get ''descId'' m) \<and>
    optional_field (child_attr (get_binary_node_child (Some g) ''linked_parent'') ''jid'') = Inr (py_get ''linkedParent'' m)"
  using assms(1) unfolding extract_group_metadata_def assms(2) option.case Let_def bindE_eq_Inr_iff
  apply (elim exE conjE)
  apply (simp only: sum.inject)
  apply (drule sym [of _ m])
  apply (simp add: dict_wf_def py_get_def [of _ "_ # _"])
  done

lemma optional_field_ok:
  assumes "optional_field (child_attr (get_binary_node_child (Some n) tag) k) = Inr v" and "ok_node n" and "tag \<noteq> ''''"
  shows "ok_text (text_or_empty v)"
  using assms(1) child_attr_ok [OF assms(2,3), of k]
  by (auto simp: optional_field_def text_or_empty_def ok_text_Nil split: attr_value.splits)

lemma metadata_texts_ok:
  assumes "extract_group_metadata result = Inr m" and "ok_node result"
  shows "ok_text (text_or_empty (py_get ''descId'' m)) \<and> ok_text (text_or_empty (py_get ''linkedParent'' m))"
proof -
  obtain g where g: "get_binary_node_child (Some result) ''group'' = Some g"
    using assms(1) by (auto simp: extract_group_metadata_def split: option.splits)
  have "ok_node g" by (rule ok_child [OF assms(2) g]) simp
  then show ?thesis
    using metadata_texts [OF assms(1) g] optional_field_ok by blast
qed


lemma safe_group_metadata:
  assumes "ok_env env" and "ok_group jid"
  shows "safe env (\<lambda>m. ok_text (previous_description m) \<and> ok_text (parent_community m)) (group_metadata jid)"
proof -
  have "safe env ok_answer (group_query jid ''get'' [interactive])"
    by (intro safe_group_query assms) (simp_all add: wire_simps interactive_def)
  then show ?thesis unfolding group_metadata_def
    by (rule safe_bind) (auto intro!: safe_compute simp: previous_description_def parent_community_def dest: metadata_texts_ok ok_answer_node)
qed

lemmas safe_group_metadatas [safe_intros] = safe_bind [OF safe_group_metadata] safe_weaken [OF safe_group_metadata TrueI]

lemma safe_fetch_all: "ok_env env \<Longrightarrow> safe env (\<lambda>_. True) (fetch_all parent tag extract)"
  unfolding fetch_all_def participating_iq_def by (intro safe_intros) (simp_all add: wire_simps ok_all_groups S_WHATSAPP_NET_def)

lemmas safe_fetch_alls [safe_intros] = safe_fetch_all safe_bind [OF safe_fetch_all]

lemma safe_clean_dirty_bits [safe_intros]:
  "ok_env env \<Longrightarrow> ok_text type \<Longrightarrow> (\<And>t. from = Some t \<Longrightarrow> ok_text t) \<Longrightarrow> safe env (\<lambda>_. True) (clean_dirty_bits type from)"
  unfolding clean_dirty_bits_def by (intro safe_intros) (auto simp: wire_simps S_WHATSAPP_NET_def split: option.split)

lemma safe_dirty: "ok_env env \<Longrightarrow> safe env (\<lambda>_. True) (handle_group_dirty n)"
  unfolding handle_group_dirty_def group_fetch_all_participating_def by (intro safe_intros) (simp_all add: wire_simps)

lemma safe_description_attrs:
  "ok_env env \<Longrightarrow> safe env (\<lambda>a. \<exists>k v. a = [(k, v)] \<and> k \<in> {''delete'', ''id''} \<and> ok_text v) (description_attrs description)"
  unfolding description_attrs_def by (intro safe_if safe_give safe_bind [OF safe_fresh]) (auto simp: wire_simps)

lemmas safe_bind_description_attrs [safe_intros] = safe_bind [OF safe_description_attrs]

lemma ok_description_node:
  "k \<in> {''delete'', ''id''} \<Longrightarrow> ok_text v \<Longrightarrow> ok_text prev \<Longrightarrow> (\<And>d. description = Some d \<Longrightarrow> short_text d) \<Longrightarrow>
    ok_node (description_node description [(k, v)] prev)"
  by (auto simp: description_node_def wire_simps split: option.split list.split)

lemma safe_update_description:
  assumes "ok_env env" and "ok_group jid" and "\<And>d. description = Some d \<Longrightarrow> short_text d"
  shows "safe env (\<lambda>_. True) (group_update_description jid description)"
  unfolding group_update_description_def
  by (intro safe_intros assms(1,2)) (auto simp: wire_simps intro: ok_description_node assms(3))

lemma safe_accept_v4:
  assumes "ok_env env" and "ok_invite env upsert key invite"
    and "\<And>jid n. ok_group jid \<Longrightarrow> ok_text jid \<Longrightarrow> ok_node n \<Longrightarrow> safe env ok_answer (ask_group jid ''set'' [n])"
  shows "safe env (\<lambda>_. True) (accept_invite_v4 ask_group upsert me now key invite)"
proof -
  have up: "safe env (\<lambda>_. True) (upsert m)" for m using assms(2) by (simp add: ok_invite_def)
  show ?thesis
    unfolding accept_invite_v4_def Let_def
    by (intro safe_bind [OF assms(3)] safe_bind [OF up] safe_bind [OF safe_if [OF safe_emit safe_done]] safe_intros assms(1))
      (use assms(2) in \<open>auto simp: ok_invite_def accept_node_def wire_simps split: option.split\<close>)
qed

lemma group_op_safe:
  assumes "ok_env env" and "ok_group_op env a"
  shows "safe env (\<lambda>_. True) (run_group_op a)"
proof -
  note unfold = group_create_def group_leave_def group_update_subject_def group_request_participants_list_def
    group_request_participants_update_def group_participants_update_def group_invite_code_def group_revoke_invite_def
    group_accept_invite_def group_revoke_invite_v4_def group_get_invite_info_def group_toggle_ephemeral_def
    group_setting_update_def group_member_add_mode_def group_join_approval_mode_def group_fetch_all_participating_def
    ephemeral_node_def approval_mode_node_def
  show ?thesis
  proof (cases a)
    case (G_Dirty n)
    then show ?thesis using assms by (simp add: safe_dirty)
  next
    case (G_Description jid description)
    then show ?thesis using assms by (auto intro!: safe_update_description)
  next
    case (G_Accept_V4 upsert me now key invite)
    then show ?thesis using assms
      by (auto simp: group_accept_invite_v4_def wire_simps intro!: safe_run_only safe_accept_v4 safe_group_query)
  qed (use assms in \<open>simp only: run_group_op.simps ok_group_op.simps unfold;
      intro safe_intros; simp add: wire_simps ok_list_def ok_tag_def ok_all_groups\<close>)+
qed

end
