(* ===== verification/Community_Actions.thy ===== *)
theory Community_Actions
  imports Group_Actions
begin

text \<open>
  The operations on communities (\<^verbatim>\<open>socket/communities.py\<close>). Most ask what the operations on groups
  ask, with other tags; a group that was made is looked up once more.
\<close>

section \<open>Metadata\<close>

definition community_participant :: "node \<Rightarrow> pyval result" where
  "community_participant n =
     (let a = node_attrs n; admin = attr_get a ''type'' in
      bindE (text_field (attr_default a ''jid'' '''')) (\<lambda>i.
        if admin \<in> {ANone, AStr ''admin'', AStr ''superadmin''}
        then Inr (PDict (trim_undefined [(''id'', i), (''admin'', attr_val admin)]))
        else Inl (ValueError ''validation'')))"

text \<open>A field of the model that only takes \<open>pn\<close> or \<open>lid\<close>.\<close>

definition addressing_field :: "string option \<Rightarrow> pyval result" where
  "addressing_field t = (case t of None \<Rightarrow> Inr PNone
     | Some s \<Rightarrow> if s \<in> {''pn'', ''lid''} then Inr (PStr s) else Inl (ValueError ''validation''))"

definition extract_community_metadata :: "node \<Rightarrow> pydict result" where
  "extract_community_metadata result =
     (case get_binary_node_child (Some result) ''community'' of
        None \<Rightarrow> Inl (ValueError ''community metadata node missing <community> child'')
      | Some g \<Rightarrow>
          let a = node_attrs g; child = get_binary_node_child (Some g); desc = child ''description'';
              has = (\<lambda>tag. PBool (child tag \<noteq> None));
              raw_id = (if attr_truthy (attr_get a ''id'') then attr_str (attr_get a ''id'') else '''');
              nodes = get_binary_node_children (Some g) ''participant''
          in bindE (get_binary_node_child_string desc ''body'') (\<lambda>body.
             bindE (get_binary_node_child_string (Some g) ''member_add_mode'') (\<lambda>add_mode.
             bindE (mapE community_participant nodes) (\<lambda>participants.
             bindE (jid_field (attr_get a ''creator'')) (\<lambda>owner.
             bindE (get_binary_node_child_string (Some g) ''addressing_mode'') (\<lambda>mode.
             bindE (addressing_field mode) (\<lambda>addressing.
             bindE (text_field (attr_default a ''subject'' '''')) (\<lambda>subject.
             bindE (optional_field (attr_get a ''s_o'')) (\<lambda>subject_owner.
             bindE (optional_field (child_attr desc ''id'')) (\<lambda>desc_id.
             bindE (optional_field (child_attr (child ''linked_parent'') ''jid'')) (\<lambda>linked_parent.
               Inr (trim_undefined
                 [(''id'', PStr (with_group_server raw_id)), (''addressingMode'', addressing), (''owner'', owner), (''subject'', subject),
                  (''subjectOwner'', subject_owner), (''subjectTime'', int_field (attr_get a ''s_t'') (PInt 0)),
                  (''creation'', int_field (attr_get a ''creation'') (PInt 0)),
                  (''desc'', case body of None \<Rightarrow> PNone | Some s \<Rightarrow> PStr s), (''descId'', desc_id), (''linkedParent'', linked_parent),
                  (''restrict'', has ''locked''), (''announce'', has ''announcement''), (''memberAddMode'', PBool (add_mode = Some ''all_member_add'')),
                  (''joinApprovalMode'', has ''membership_approval_mode''), (''isCommunity'', has ''parent''),
                  (''isCommunityAnnounce'', has ''default_sub_community''), (''size'', PInt (int (length nodes))), (''participants'', PList participants),
                  (''ephemeralDuration'', case child ''ephemeral'' of None \<Rightarrow> PNone | Some e \<Rightarrow> int_field (attr_get (node_attrs e) ''expiration'') (PInt 0))]))))))))))))"

section \<open>Asking about communities\<close>

definition community_query :: "string \<Rightarrow> string \<Rightarrow> node list \<Rightarrow> node action" where
  "community_query jid type content = query_node (iq [(''type'', type), (''xmlns'', ''w:g2''), (''to'', jid)] content)"

definition community_metadata :: "string \<Rightarrow> pydict action" where
  "community_metadata jid =
     bindA (resolve_chat_jid jid) (\<lambda>resolved.
     bindA (community_query resolved ''get'' [interactive]) (\<lambda>result. compute (extract_community_metadata result)))"

definition community_fetch_all_participating :: "(string, pyval) dict action" where
  "community_fetch_all_participating = fetch_all ''communities'' ''community'' extract_community_metadata"

definition handle_ib_dirty :: "node \<Rightarrow> unit action" where
  "handle_ib_dirty n =
     (if dirty_type n \<noteq> AStr ''communities'' then give ()
      else bindA community_fetch_all_participating (\<lambda>_. clean_dirty_bits ''groups'' None))"

definition parse_group_result :: "node \<Rightarrow> pydict option action" where
  "parse_group_result n =
     (case attr_text_opt (case get_binary_node_child (Some n) ''group'' of None \<Rightarrow> [] | Some g \<Rightarrow> node_attrs g) ''id'' of
        None \<Rightarrow> give None
      | Some i \<Rightarrow> if i = '''' then give None else attempt (group_metadata (group_jid_of i)))"

definition community_create :: "string \<Rightarrow> string \<Rightarrow> pydict option action" where
  "community_create subject body =
     bindA fresh (\<lambda>i.
     bindA (community_query ALL_GROUPS ''set'' [element ''create'' [(''subject'', subject)] (CList
         [element ''description'' [(''id'', take 12 i)] (CList [text_node ''body'' body]),
          element ''parent'' [(''default_membership_approval_mode'', ''request_required'')] CNone,
          leaf ''allow_non_admin_sub_group_creation'', leaf ''create_general_chat''])]) parse_group_result)"

definition community_create_group :: "string \<Rightarrow> string list \<Rightarrow> string \<Rightarrow> pydict option action" where
  "community_create_group subject participants parent_jid =
     bindA fresh (\<lambda>key.
     bindA (resolve_chat_jid parent_jid) (\<lambda>parent.
     bindA (jid_elements ''participant'' participants) (\<lambda>ns.
     bindA (community_query ALL_GROUPS ''set'' [element ''create'' [(''subject'', subject), (''key'', key)]
         (CList (ns @ [element ''linked_parent'' [(''jid'', parent)] CNone]))]) parse_group_result)))"

definition community_leave :: "string \<Rightarrow> unit action" where
  "community_leave i =
     run_only (community_query ALL_GROUPS ''set'' [element ''leave'' [] (CList [element ''community'' [(''id'', i)] CNone])])"

text \<open>One stanza to a community whose address is resolved first.\<close>

definition community_ask :: "string \<Rightarrow> string \<Rightarrow> node \<Rightarrow> node action" where
  "community_ask jid type n = bindA (resolve_chat_jid jid) (\<lambda>resolved. community_query resolved type [n])"

definition community_update_subject :: "string \<Rightarrow> string \<Rightarrow> unit action" where
  "community_update_subject jid subject = run_only (community_ask jid ''set'' (text_node ''subject'' subject))"

definition linked_group :: "string \<Rightarrow> node" where
  "linked_group group_jid = element ''group'' [(''jid'', group_jid)] CNone"

definition community_link_group :: "string \<Rightarrow> string \<Rightarrow> unit action" where
  "community_link_group group_jid parent_jid =
     bindA (resolve_chat_jid group_jid) (\<lambda>g.
     bindA (resolve_chat_jid parent_jid) (\<lambda>parent.
       run_only (community_query parent ''set'' [element ''links'' [] (CList
         [element ''link'' [(''link_type'', ''sub_group'')] (CList [linked_group g])])])))"

definition community_unlink_group :: "string \<Rightarrow> string \<Rightarrow> unit action" where
  "community_unlink_group group_jid parent_jid =
     bindA (resolve_chat_jid group_jid) (\<lambda>g.
     bindA (resolve_chat_jid parent_jid) (\<lambda>parent.
       run_only (community_query parent ''set'' [element ''unlink'' [(''unlink_type'', ''sub_group'')] (CList [linked_group g])])))"

text \<open>A sub-group as it is listed; \<open>jid_encode\<close> of an identifier that is a text.\<close>

definition linked_group_data :: "node \<Rightarrow> pydict result" where
  "linked_group_data n =
     (let a = node_attrs n; opt = (\<lambda>k. if attr_truthy (attr_get a k) then int_field (attr_get a k) (PInt 0) else PNone) in
      bindE (jid_field (attr_get a ''creator'')) (\<lambda>owner.
        Inr [(''id'', if attr_truthy (attr_get a ''id'') then PStr (jid_encode (Some (attr_str (attr_get a ''id''))) ''g.us'' None None) else PNone),
             (''subject'', attr_val (attr_default a ''subject'' '''')), (''creation'', opt ''creation''), (''owner'', owner), (''size'', opt ''size'')]))"

definition community_fetch_linked_groups :: "string \<Rightarrow> pydict action" where
  "community_fetch_linked_groups jid =
     bindA (resolve_chat_jid jid) (\<lambda>resolved.
     bindA (group_metadata resolved) (\<lambda>metadata.
     let parent = parent_community metadata; community_jid = (if parent = '''' then resolved else parent) in
     bindA (community_query community_jid ''get'' [leaf ''sub_groups'']) (\<lambda>result.
     bindA (compute (mapE linked_group_data
         (get_binary_node_children (get_binary_node_child (Some result) ''sub_groups'') ''group''))) (\<lambda>groups.
       give [(''communityJid'', PStr community_jid), (''isCommunity'', PBool (parent = '''')), (''linkedGroups'', PList (map PDict groups))]))))"

definition community_request_participants_list :: "string \<Rightarrow> attrs list action" where
  "community_request_participants_list jid =
     bindA (community_ask jid ''get'' (leaf ''membership_approval_requests'')) (\<lambda>result.
       give (map node_attrs (get_binary_node_children
         (get_binary_node_child (Some result) ''membership_approval_requests'') ''membership_approval_request'')))"

definition community_request_participants_update ::
    "string \<Rightarrow> string list \<Rightarrow> string \<Rightarrow> (attr_value \<times> attr_value \<times> node) list action" where
  "community_request_participants_update jid participants act =
     bindA (resolve_chat_jid jid) (\<lambda>resolved.
     bindA (jid_elements ''participant'' participants) (\<lambda>ns.
     bindA (community_query resolved ''set'' [element ''membership_requests_action'' [] (CList [element act [] (CList ns)])]) (\<lambda>result.
       give (participant_results (get_binary_node_child (get_binary_node_child (Some result) ''membership_requests_action'') act)))))"

definition community_participants_update ::
    "string \<Rightarrow> string list \<Rightarrow> string \<Rightarrow> (attr_value \<times> attr_value \<times> node) list action" where
  "community_participants_update jid participants act =
     bindA (resolve_chat_jid jid) (\<lambda>resolved.
     bindA (jid_elements ''participant'' participants) (\<lambda>ns.
     bindA (community_query resolved ''set'' [element act (if act = ''remove'' then [(''linked_groups'', ''true'')] else []) (CList ns)]) (\<lambda>result.
       give (participant_results (get_binary_node_child (Some result) act)))))"

definition community_update_description :: "string \<Rightarrow> string option \<Rightarrow> unit action" where
  "community_update_description jid description =
     bindA (resolve_chat_jid jid) (\<lambda>resolved.
     bindA (community_metadata resolved) (\<lambda>metadata.
     bindA (description_attrs description) (\<lambda>first.
       run_only (community_query resolved ''set'' [description_node description first (previous_description metadata)]))))"

section \<open>Invitations and settings\<close>

definition community_invite_code :: "string \<Rightarrow> attr_value action" where
  "community_invite_code jid = bindA (community_ask jid ''get'' (leaf ''invite'')) (\<lambda>result. give (invite_code result))"

definition community_revoke_invite :: "string \<Rightarrow> attr_value action" where
  "community_revoke_invite jid = bindA (community_ask jid ''set'' (leaf ''invite'')) (\<lambda>result. give (invite_code result))"

definition community_accept_invite :: "string \<Rightarrow> attr_value action" where
  "community_accept_invite code =
     bindA (community_query ALL_GROUPS ''set'' [element ''invite'' [(''code'', code)] CNone]) (\<lambda>results.
       give (child_attr (get_binary_node_child (Some results) ''community'') ''jid''))"

definition community_revoke_invite_v4 :: "string \<Rightarrow> string \<Rightarrow> bool action" where
  "community_revoke_invite_v4 community_jid invited_jid =
     bindA (resolve_chat_jid community_jid) (\<lambda>resolved.
     bindA (resolve_chat_jid invited_jid) (\<lambda>invited.
     bindA (community_query resolved ''set'' [element ''revoke'' [] (CList [element ''participant'' [(''jid'', invited)] CNone])]) (\<lambda>_.
       give True)))"

definition community_accept_invite_v4 ::
    "(pydict \<Rightarrow> unit action) \<Rightarrow> pydict \<Rightarrow> int \<Rightarrow> pyval \<Rightarrow> pydict \<Rightarrow> attr_value action" where
  "community_accept_invite_v4 = accept_invite_v4 community_query"

definition community_get_invite_info :: "string \<Rightarrow> pydict action" where
  "community_get_invite_info code =
     bindA (community_query ALL_GROUPS ''get'' [element ''invite'' [(''code'', code)] CNone]) (\<lambda>results.
       compute (extract_community_metadata results))"

definition community_toggle_ephemeral :: "string \<Rightarrow> int \<Rightarrow> unit action" where
  "community_toggle_ephemeral jid expiration = run_only (community_ask jid ''set'' (ephemeral_node expiration))"

definition community_setting_update :: "string \<Rightarrow> string \<Rightarrow> unit action" where
  "community_setting_update jid setting = run_only (community_ask jid ''set'' (leaf setting))"

definition community_member_add_mode :: "string \<Rightarrow> string \<Rightarrow> unit action" where
  "community_member_add_mode jid mode = run_only (community_ask jid ''set'' (element ''member_add_mode'' [] (CStr mode)))"

definition community_join_approval_mode :: "string \<Rightarrow> string \<Rightarrow> unit action" where
  "community_join_approval_mode jid mode = run_only (community_ask jid ''set'' (approval_mode_node ''community_join'' mode))"

definition get_communities :: "node action" where
  "get_communities = query_node (iq [(''to'', ''s.whatsapp.net''), (''type'', ''get''), (''xmlns'', ''w:g2'')]
     [element ''communities'' [(''query'', ''all'')] CNone])"

definition link_group_to_community :: "string \<Rightarrow> string \<Rightarrow> node action" where
  "link_group_to_community community_jid group_jid =
     bindA (resolve_chat_jid community_jid) (\<lambda>c.
     bindA (resolve_chat_jid group_jid) (\<lambda>g.
       query_node (iq [(''to'', c), (''type'', ''set''), (''xmlns'', ''w:g2'')] [element ''link_group'' [(''jid'', g)] CNone])))"

section \<open>Every stanza can be sent\<close>

datatype community_op =
    C_Metadata string | C_Fetch_All | C_Dirty node | C_Create string string | C_Create_Group string "string list" string | C_Leave string
  | C_Subject string string | C_Link string string | C_Unlink string string | C_Linked_Groups string | C_Requests string
  | C_Update_Requests string "string list" string | C_Participants string "string list" string | C_Description string "string option"
  | C_Invite_Code string | C_Revoke_Invite string | C_Accept_Invite string | C_Revoke_V4 string string
  | C_Accept_V4 "pydict \<Rightarrow> unit action" pydict int pyval pydict | C_Invite_Info string | C_Ephemeral string int | C_Setting string string
  | C_Add_Mode string string | C_Approval_Mode string string | C_List | C_Link_To string string

fun run_community_op :: "community_op \<Rightarrow> unit action" where
  "run_community_op (C_Metadata jid) = run_only (community_metadata jid)"
| "run_community_op C_Fetch_All = run_only community_fetch_all_participating"
| "run_community_op (C_Dirty n) = handle_ib_dirty n"
| "run_community_op (C_Create subject body) = run_only (community_create subject body)"
| "run_community_op (C_Create_Group subject participants parent) = run_only (community_create_group subject participants parent)"
| "run_community_op (C_Leave i) = community_leave i"
| "run_community_op (C_Subject jid subject) = community_update_subject jid subject"
| "run_community_op (C_Link g parent) = community_link_group g parent"
| "run_community_op (C_Unlink g parent) = community_unlink_group g parent"
| "run_community_op (C_Linked_Groups jid) = run_only (community_fetch_linked_groups jid)"
| "run_community_op (C_Requests jid) = run_only (community_request_participants_list jid)"
| "run_community_op (C_Update_Requests jid participants act) = run_only (community_request_participants_update jid participants act)"
| "run_community_op (C_Participants jid participants act) = run_only (community_participants_update jid participants act)"
| "run_community_op (C_Description jid description) = community_update_description jid description"
| "run_community_op (C_Invite_Code jid) = run_only (community_invite_code jid)"
| "run_community_op (C_Revoke_Invite jid) = run_only (community_revoke_invite jid)"
| "run_community_op (C_Accept_Invite code) = run_only (community_accept_invite code)"
| "run_community_op (C_Revoke_V4 jid invited) = run_only (community_revoke_invite_v4 jid invited)"
| "run_community_op (C_Accept_V4 upsert me now key invite) = run_only (community_accept_invite_v4 upsert me now key invite)"
| "run_community_op (C_Invite_Info code) = run_only (community_get_invite_info code)"
| "run_community_op (C_Ephemeral jid expiration) = community_toggle_ephemeral jid expiration"
| "run_community_op (C_Setting jid setting) = community_setting_update jid setting"
| "run_community_op (C_Add_Mode jid mode) = community_member_add_mode jid mode"
| "run_community_op (C_Approval_Mode jid mode) = community_join_approval_mode jid mode"
| "run_community_op C_List = run_only get_communities"
| "run_community_op (C_Link_To c g) = run_only (link_group_to_community c g)"

fun ok_community_op :: "action_env \<Rightarrow> community_op \<Rightarrow> bool" where
  "ok_community_op env (C_Metadata jid) \<longleftrightarrow> ok_address jid"
| "ok_community_op env C_Fetch_All \<longleftrightarrow> True"
| "ok_community_op env (C_Dirty n) \<longleftrightarrow> True"
| "ok_community_op env (C_Create subject body) \<longleftrightarrow> ok_text subject \<and> short_text body"
| "ok_community_op env (C_Create_Group subject participants parent) \<longleftrightarrow> ok_text subject \<and> ok_list participants \<and> ok_address parent"
| "ok_community_op env (C_Leave i) \<longleftrightarrow> ok_text i"
| "ok_community_op env (C_Subject jid subject) \<longleftrightarrow> ok_address jid \<and> short_text subject"
| "ok_community_op env (C_Link g parent) \<longleftrightarrow> ok_address g \<and> ok_address parent"
| "ok_community_op env (C_Unlink g parent) \<longleftrightarrow> ok_address g \<and> ok_address parent"
| "ok_community_op env (C_Linked_Groups jid) \<longleftrightarrow> ok_address jid"
| "ok_community_op env (C_Requests jid) \<longleftrightarrow> ok_address jid"
| "ok_community_op env (C_Update_Requests jid participants act) \<longleftrightarrow> ok_address jid \<and> ok_list participants \<and> ok_tag act"
| "ok_community_op env (C_Participants jid participants act) \<longleftrightarrow> ok_address jid \<and> ok_list participants \<and> ok_tag act"
| "ok_community_op env (C_Description jid description) \<longleftrightarrow> ok_address jid \<and> (case description of None \<Rightarrow> True | Some d \<Rightarrow> short_text d)"
| "ok_community_op env (C_Invite_Code jid) \<longleftrightarrow> ok_address jid"
| "ok_community_op env (C_Revoke_Invite jid) \<longleftrightarrow> ok_address jid"
| "ok_community_op env (C_Accept_Invite code) \<longleftrightarrow> ok_text code"
| "ok_community_op env (C_Revoke_V4 jid invited) \<longleftrightarrow> ok_address jid \<and> ok_address invited"
| "ok_community_op env (C_Accept_V4 upsert me now key invite) \<longleftrightarrow> ok_invite env upsert key invite"
| "ok_community_op env (C_Invite_Info code) \<longleftrightarrow> ok_text code"
| "ok_community_op env (C_Ephemeral jid expiration) \<longleftrightarrow> ok_address jid \<and> ok_text (int_str expiration)"
| "ok_community_op env (C_Setting jid setting) \<longleftrightarrow> ok_address jid \<and> ok_tag setting"
| "ok_community_op env (C_Add_Mode jid mode) \<longleftrightarrow> ok_address jid \<and> ok_text mode"
| "ok_community_op env (C_Approval_Mode jid mode) \<longleftrightarrow> ok_address jid \<and> ok_text mode"
| "ok_community_op env C_List \<longleftrightarrow> True"
| "ok_community_op env (C_Link_To c g) \<longleftrightarrow> ok_address c \<and> ok_address g"

lemma safe_community_query:
  assumes "ok_env env" and "ok_text jid" and "ok_text type" and "length ns < 65536" and "nodes_ok TOKEN_MAP ns"
  shows "safe env ok_answer (community_query jid type ns)"
  unfolding community_query_def by (rule safe_query) (use assms in \<open>auto simp: wire_simps\<close>)

lemmas safe_community_queries [safe_intros] = safe_bind [OF safe_community_query] safe_weaken [OF safe_community_query TrueI]

lemma safe_community_ask:
  assumes "ok_env env" and "ok_address jid" and "ok_text type" and "ok_node n"
  shows "safe env ok_answer (community_ask jid type n)"
  unfolding community_ask_def
  by (intro safe_bind [OF safe_resolve] safe_community_query assms) (simp_all add: wire_simps assms(4))

lemmas safe_community_asks [safe_intros] = safe_bind [OF safe_community_ask] safe_weaken [OF safe_community_ask TrueI]

lemma community_texts:
  assumes "extract_community_metadata result = Inr m" and "get_binary_node_child (Some result) ''community'' = Some g"
  shows "optional_field (child_attr (get_binary_node_child (Some g) ''description'') ''id'') = Inr (py_get ''descId'' m)"
  using assms(1) unfolding extract_community_metadata_def assms(2) option.case Let_def bindE_eq_Inr_iff
  apply (elim exE conjE)
  apply (simp only: sum.inject)
  apply (drule sym [of _ m])
  apply (simp add: dict_wf_def py_get_def [of _ "_ # _"])
  done

lemma community_texts_ok:
  assumes "extract_community_metadata result = Inr m" and "ok_node result"
  shows "ok_text (previous_description m)"
proof -
  obtain g where g: "get_binary_node_child (Some result) ''community'' = Some g"
    using assms(1) by (auto simp: extract_community_metadata_def split: option.splits)
  have "ok_node g" by (rule ok_child [OF assms(2) g]) simp
  then show ?thesis
    using community_texts [OF assms(1) g] optional_field_ok unfolding previous_description_def by blast
qed

lemma safe_community_metadata:
  assumes "ok_env env" and "ok_address jid"
  shows "safe env (\<lambda>m. ok_text (previous_description m)) (community_metadata jid)"
  unfolding community_metadata_def
  by (intro safe_bind [OF safe_resolve] safe_bind [OF safe_community_query] safe_compute assms)
    (auto simp: wire_simps interactive_def intro: community_texts_ok)

lemmas safe_community_metadatas [safe_intros] = safe_bind [OF safe_community_metadata] safe_weaken [OF safe_community_metadata TrueI]

lemma safe_parse_group_result [safe_intros]:
  assumes "ok_env env" and "ok_answer r"
  shows "safe env (\<lambda>_. True) (parse_group_result r)"
proof -
  have "ok_group (group_jid_of i)" if "attr_text_opt (case get_binary_node_child (Some r) ''group'' of None \<Rightarrow> [] | Some g \<Rightarrow> node_attrs g) ''id'' = Some i"
    and "i \<noteq> ''''" for i
    using that assms(2) by (auto simp: ok_answer_def attr_text_opt_def ok_group_def attr_get_def split: option.splits attr_value.splits)
  then show ?thesis unfolding parse_group_result_def
    by (intro safe_intros safe_weaken [OF safe_attempt [OF safe_group_metadata] TrueI] assms(1))
qed

lemma safe_linked_groups:
  assumes "ok_env env" and "ok_address jid"
  shows "safe env (\<lambda>_. True) (community_fetch_linked_groups jid)"
  unfolding community_fetch_linked_groups_def Let_def
  by (intro safe_intros assms) (auto simp: wire_simps ok_group_def)

lemma community_op_safe:
  assumes "ok_env env" and "ok_community_op env a"
  shows "safe env (\<lambda>_. True) (run_community_op a)"
proof -
  note unfold = handle_ib_dirty_def community_fetch_all_participating_def community_create_def community_create_group_def
    community_leave_def community_update_subject_def community_link_group_def community_unlink_group_def linked_group_def
    community_request_participants_list_def community_request_participants_update_def community_participants_update_def
    community_invite_code_def community_revoke_invite_def community_accept_invite_def community_revoke_invite_v4_def
    community_get_invite_info_def community_toggle_ephemeral_def community_setting_update_def community_member_add_mode_def
    community_join_approval_mode_def get_communities_def link_group_to_community_def ephemeral_node_def approval_mode_node_def
  show ?thesis
  proof (cases a)
    case (C_Linked_Groups jid)
    then show ?thesis using assms by (simp add: safe_run_only safe_linked_groups)
  next
    case (C_Description jid description)
    then show ?thesis using assms
      by (auto simp: community_update_description_def wire_simps intro!: safe_intros ok_description_node)
  next
    case (C_Accept_V4 upsert me now key invite)
    then show ?thesis using assms
      by (auto simp: community_accept_invite_v4_def wire_simps intro!: safe_run_only safe_accept_v4 safe_community_query)
  qed (use assms in \<open>simp only: run_community_op.simps ok_community_op.simps unfold;
      intro safe_intros; simp add: wire_simps ok_list_def ok_tag_def ok_all_groups ok_nodes_append\<close>)+
qed

end
