(* ===== verification/Newsletter_Actions.thy ===== *)
theory Newsletter_Actions
  imports Group_Actions
begin

text \<open>
  The operations on newsletters (\<^verbatim>\<open>socket/newsletter.py\<close>), which are GraphQL queries in JSON
  (\<^verbatim>\<open>socket/mex.py\<close>). Of an error that the server reports the text is kept, not the status code. Texts
  are ASCII, as in the rest of the JSON.
\<close>

section \<open>GraphQL queries\<close>

definition mex_node :: "string \<Rightarrow> string \<Rightarrow> string \<Rightarrow> node" where
  "mex_node tag query_id text =
     iq [(''id'', tag), (''type'', ''get''), (''to'', S_WHATSAPP_NET), (''xmlns'', ''w:mex'')]
       [element ''query'' [(''query_id'', query_id)] (CBytes (utf8_encode text))]"

definition w_mex_query :: "pydict \<Rightarrow> string \<Rightarrow> node action" where
  "w_mex_query variables query_id =
     bindA fresh (\<lambda>tag.
     bindA (compute (json_dumps '''' (PDict [(''variables'', PDict variables)]))) (\<lambda>text.
       query_node (mex_node tag query_id text)))"

text \<open>\<open>(v or {})\<close> where a dictionary is needed, and \<open>int(v or d)\<close>.\<close>

definition or_dict :: "pyval \<Rightarrow> pydict result" where
  "or_dict v = (if \<not> truthy v then Inr [] else case v of PDict d \<Rightarrow> Inr d | _ \<Rightarrow> Inl AttributeErr)"

definition int_or :: "pyval \<Rightarrow> int \<Rightarrow> int result" where
  "int_or v d = (if \<not> truthy v then Inr d
     else case v of PInt i \<Rightarrow> Inr i | PBool b \<Rightarrow> Inr 1 | PStr s \<Rightarrow> py_int s | _ \<Rightarrow> Inl TypeErr)"

definition error_message :: "pydict \<Rightarrow> string" where
  "error_message item = py_text (case map_of item ''message'' of None \<Rightarrow> PStr ''Unknown error'' | Some m \<Rightarrow> m)"

definition graphql_error :: "pyval list \<Rightarrow> exn result" where
  "graphql_error errors =
     bindE (or_dict (py_get ''extensions'' (dict_or_empty (hd errors)))) (\<lambda>extensions.
     bindE (int_or (py_get ''error_code'' extensions) 400) (\<lambda>_.
       Inr (RuntimeError (''GraphQL server error: '' @ py_join '', '' (map error_message (List.map_filter as_dict errors))))))"

text \<open>The part of the answer that is asked for; None where the structure is another.\<close>

fun follow_path :: "string list \<Rightarrow> pyval \<Rightarrow> pyval" where
  "follow_path [] v = v"
| "follow_path (k # ks) v = (case v of PDict d \<Rightarrow> follow_path ks (py_get k d) | _ \<Rightarrow> PNone)"

definition select_path :: "string \<Rightarrow> pyval \<Rightarrow> pyval option" where
  "select_path path response =
     (let some = (\<lambda>v. if v = PNone then None else Some v) in
      if path = '''' then some response
      else case response of
        PDict d \<Rightarrow> (case map_of d path of Some v \<Rightarrow> Some v | None \<Rightarrow> some (follow_path (py_split (CHR ''.'') path) response))
      | _ \<Rightarrow> some (follow_path (py_split (CHR ''.'') path) response))"

definition path_words :: "string \<Rightarrow> string" where
  "path_words path = map (\<lambda>c. if c = CHR ''_'' then CHR '' '' else c) (if py_startswith path ''xwa2_'' then drop 5 path else path)"

definition unexpected :: "string \<Rightarrow> exn" where
  "unexpected path = RuntimeError (''Failed to '' @ path_words path @ '', unexpected response structure.'')"

text \<open>The content of the result: JSON in bytes or text; children are not a dictionary. None if there is no content.\<close>

definition mex_content :: "node \<Rightarrow> pyval option result" where
  "mex_content result =
     (case get_binary_node_child (Some result) ''result'' of
        None \<Rightarrow> Inr None
      | Some child \<Rightarrow> (case node_content child of
            CBytes (b # bs) \<Rightarrow> bindE (utf8_decode (b # bs)) (\<lambda>s. bindE (json_loads s) (\<lambda>v. Inr (Some v)))
          | CStr (c # cs) \<Rightarrow> bindE (json_loads (c # cs)) (\<lambda>v. Inr (Some v))
          | CList (n # ns) \<Rightarrow> Inr (Some (PList []))
          | _ \<Rightarrow> Inr None))"

definition read_mex :: "string \<Rightarrow> node \<Rightarrow> pyval result" where
  "read_mex path result =
     bindE (mex_content result) (\<lambda>parsed. case parsed of
       None \<Rightarrow> Inl (unexpected path)
     | Some v \<Rightarrow>
         let d = dict_or_empty v in
         (case py_get ''errors'' d of
            PList (e # es) \<Rightarrow> bindE (graphql_error (e # es)) Inl
          | _ \<Rightarrow> (case select_path path (case map_of d ''data'' of None \<Rightarrow> PDict [] | Some r \<Rightarrow> r) of
                   None \<Rightarrow> Inl (unexpected path) | Some r \<Rightarrow> Inr r)))"

definition execute_wmex_query :: "pydict \<Rightarrow> string \<Rightarrow> string \<Rightarrow> pyval action" where
  "execute_wmex_query variables query_id path = bindA (w_mex_query variables query_id) (\<lambda>result. compute (read_mex path result))"

section \<open>The answers\<close>

definition parse_newsletter_create_response :: "pyval \<Rightarrow> pydict result" where
  "parse_newsletter_create_response response =
     (case response of
        PDict data \<Rightarrow>
          bindE (or_dict (py_get ''thread_metadata'' data)) (\<lambda>thread.
          bindE (or_dict (py_get ''viewer_metadata'' data)) (\<lambda>viewer.
          bindE (or_dict (py_get ''picture'' thread)) (\<lambda>picture.
          bindE (or_dict (py_get ''name'' thread)) (\<lambda>name.
          bindE (int_or (py_get ''creation_time'' thread) 0) (\<lambda>creation_time.
          bindE (or_dict (py_get ''description'' thread)) (\<lambda>description.
          bindE (int_or (py_get ''subscribers_count'' thread) 0) (\<lambda>subscribers.
            Inr [(''id'', py_get ''id'' data), (''owner'', PNone), (''name'', py_get ''text'' name), (''creation_time'', PInt creation_time),
              (''description'', py_get ''text'' description), (''invite'', py_get ''invite'' thread), (''subscribers'', PInt subscribers),
              (''verification'', py_get ''verification'' thread),
              (''picture'', PDict [(''id'', py_get ''id'' picture), (''directPath'', py_get ''direct_path'' picture)]),
              (''mute_state'', py_get ''mute'' viewer)])))))))
      | _ \<Rightarrow> Inl AttributeErr)"

definition has_text_id :: "pyval \<Rightarrow> bool" where
  "has_text_id v = (case v of PDict d \<Rightarrow> as_str (py_get ''id'' d) \<noteq> None | _ \<Rightarrow> False)"

definition parse_newsletter_metadata :: "pyval \<Rightarrow> pydict option" where
  "parse_newsletter_metadata result =
     (let nested = py_get ''result'' (dict_or_empty result) in
      if has_text_id result then as_dict result else if has_text_id nested then as_dict nested else None)"

section \<open>The operations\<close>

definition newsletter_create :: "string \<Rightarrow> string option \<Rightarrow> pydict action" where
  "newsletter_create name description =
     bindA (execute_wmex_query [(''input'', PDict [(''name'', PStr name),
         (''description'', case description of None \<Rightarrow> PNone | Some d \<Rightarrow> PStr d)])] ''8823471724422422'' ''xwa2_newsletter_create'') (\<lambda>raw.
       compute (parse_newsletter_create_response raw))"

definition newsletter_update :: "string \<Rightarrow> pydict \<Rightarrow> pyval action" where
  "newsletter_update jid updates =
     bindA (resolve_chat_jid jid) (\<lambda>resolved.
       execute_wmex_query [(''newsletter_id'', PStr resolved), (''updates'', PDict (dict_set ''settings'' PNone updates))]
         ''24250201037901610'' ''xwa2_newsletter_update'')"

text \<open>What is asked of a newsletter alone, and of a newsletter and one of its users.\<close>

definition newsletter_query :: "string \<Rightarrow> string \<Rightarrow> string \<Rightarrow> pyval action" where
  "newsletter_query jid query_id path =
     bindA (resolve_chat_jid jid) (\<lambda>resolved. execute_wmex_query [(''newsletter_id'', PStr resolved)] query_id path)"

definition newsletter_user_query :: "string \<Rightarrow> string \<Rightarrow> string \<Rightarrow> string \<Rightarrow> pyval action" where
  "newsletter_user_query jid user_jid query_id path =
     bindA (resolve_chat_jid jid) (\<lambda>resolved.
     bindA (resolve_chat_jid user_jid) (\<lambda>user.
       execute_wmex_query [(''newsletter_id'', PStr resolved), (''user_id'', PStr user)] query_id path))"

definition newsletter_subscribers :: "string \<Rightarrow> pyval action" where
  "newsletter_subscribers jid = newsletter_query jid ''9783111038412085'' ''xwa2_newsletter_subscribers''"

definition newsletter_follow :: "string \<Rightarrow> pyval action" where
  "newsletter_follow jid = newsletter_query jid ''7871414976211147'' ''xwa2_newsletter_follow''"

definition newsletter_unfollow :: "string \<Rightarrow> pyval action" where
  "newsletter_unfollow jid = newsletter_query jid ''7238632346214362'' ''xwa2_newsletter_unfollow''"

definition newsletter_mute :: "string \<Rightarrow> pyval action" where
  "newsletter_mute jid = newsletter_query jid ''29766401636284406'' ''xwa2_newsletter_mute_v2''"

definition newsletter_unmute :: "string \<Rightarrow> pyval action" where
  "newsletter_unmute jid = newsletter_query jid ''9864994326891137'' ''xwa2_newsletter_unmute_v2''"

definition newsletter_delete :: "string \<Rightarrow> pyval action" where
  "newsletter_delete jid = newsletter_query jid ''30062808666639665'' ''xwa2_newsletter_delete_v2''"

definition newsletter_change_owner :: "string \<Rightarrow> string \<Rightarrow> pyval action" where
  "newsletter_change_owner jid owner = newsletter_user_query jid owner ''7341777602580933'' ''xwa2_newsletter_change_owner''"

definition newsletter_demote :: "string \<Rightarrow> string \<Rightarrow> pyval action" where
  "newsletter_demote jid user = newsletter_user_query jid user ''6551828931592903'' ''xwa2_newsletter_demote''"

definition newsletter_admin_count :: "string \<Rightarrow> int action" where
  "newsletter_admin_count jid =
     bindA (newsletter_query jid ''7130823597031706'' ''xwa2_newsletter_admin'') (\<lambda>response.
       compute (bindE (or_dict response) (\<lambda>d. int_or (py_get ''admin_count'' d) 0)))"

definition ascii_upper :: "string \<Rightarrow> string" where
  "ascii_upper = map (\<lambda>c. if (97::nat) \<le> of_char c \<and> of_char c \<le> (122::nat) then char_of (of_char c - (32::nat)) else c)"

definition newsletter_metadata :: "string \<Rightarrow> string \<Rightarrow> pydict option action" where
  "newsletter_metadata type key =
     bindA (execute_wmex_query [(''fetch_creation_time'', PBool True), (''fetch_full_image'', PBool True),
         (''fetch_viewer_metadata'', PBool True), (''input'', PDict [(''key'', PStr key), (''type'', PStr (ascii_upper type))])]
         ''6563316087068696'' ''xwa2_newsletter'') (\<lambda>result. give (parse_newsletter_metadata result))"

definition newsletter_update_name :: "string \<Rightarrow> string \<Rightarrow> pyval action" where
  "newsletter_update_name jid name = newsletter_update jid [(''name'', PStr name)]"

definition newsletter_update_description :: "string \<Rightarrow> string \<Rightarrow> pyval action" where
  "newsletter_update_description jid description = newsletter_update jid [(''description'', PStr description)]"

text \<open>\<open>picture\<close> is what the image library makes of the content.\<close>

definition newsletter_update_picture :: "string \<Rightarrow> pydict result \<Rightarrow> pyval action" where
  "newsletter_update_picture jid picture =
     bindA (compute picture) (\<lambda>pic. case py_get ''img'' pic of
       PBytes img \<Rightarrow> newsletter_update jid [(''picture'', PStr (b64encode img))]
     | _ \<Rightarrow> fail_with (ValueError ''generate_profile_picture() did not return binary image payload''))"

definition newsletter_remove_picture :: "string \<Rightarrow> pyval action" where
  "newsletter_remove_picture jid = newsletter_update jid [(''picture'', PStr '''')]"

definition given_text :: "string option \<Rightarrow> string" where
  "given_text t = (case t of None \<Rightarrow> '''' | Some s \<Rightarrow> s)"

definition newsletter_react_message :: "string \<Rightarrow> string \<Rightarrow> string option \<Rightarrow> unit action" where
  "newsletter_react_message jid server_id reaction =
     (let r = given_text reaction in
      bindA (resolve_chat_jid jid) (\<lambda>resolved.
      bindA fresh (\<lambda>tag.
      bindA (query_node (element ''message'' ([(''to'', resolved)] @ (if r = '''' then [(''edit'', ''7'')] else []) @
               [(''type'', ''reaction''), (''server_id'', server_id), (''id'', tag)])
             (CList [element ''reaction'' (if r = '''' then [] else [(''code'', r)]) CNone]))) (\<lambda>_. give ()))))"

definition newsletter_iq :: "string \<Rightarrow> string \<Rightarrow> string \<Rightarrow> node \<Rightarrow> node" where
  "newsletter_iq tag type resolved child = iq [(''id'', tag), (''type'', type), (''xmlns'', ''newsletter''), (''to'', resolved)] [child]"

definition newsletter_fetch_messages :: "string \<Rightarrow> int \<Rightarrow> int option \<Rightarrow> int option \<Rightarrow> node action" where
  "newsletter_fetch_messages jid count_wanted since after =
     bindA (resolve_chat_jid jid) (\<lambda>resolved.
     bindA fresh (\<lambda>tag.
       query_node (newsletter_iq tag ''get'' resolved (element ''message_updates''
         ([(''count'', int_str count_wanted)] @ (case since of None \<Rightarrow> [] | Some i \<Rightarrow> [(''since'', int_str i)]) @
          (case after of None \<Rightarrow> [] | Some i \<Rightarrow> if i > 0 then [(''after'', int_str i)] else [])) CNone))))"

definition subscribe_newsletter_updates :: "string \<Rightarrow> attr_value option action" where
  "subscribe_newsletter_updates jid =
     bindA (resolve_chat_jid jid) (\<lambda>resolved.
     bindA fresh (\<lambda>tag.
     bindA (query_node (newsletter_iq tag ''set'' resolved (element ''live_updates'' [] (CList [])))) (\<lambda>result.
       let duration = child_attr (get_binary_node_child (Some result) ''live_updates'') ''duration''
       in give (if attr_truthy duration then Some duration else None))))"

section \<open>Every stanza can be sent\<close>

definition short_value :: "pyval \<Rightarrow> bool" where
  "short_value v \<longleftrightarrow> length (json_text '''' v) < 2147483648"

lemma escape_char_length: "length (escape_char c) \<le> 6"
  by (simp add: escape_char_def json_hex2_def Let_def)

lemma json_quote_length: "length (json_quote s) \<le> 6 * length s + 2"
proof -
  have "length (concat (map escape_char s)) \<le> 6 * length s"
    by (induction s) (auto intro: add_mono escape_char_length simp: le_trans [OF add_mono [OF escape_char_length]])
  then show ?thesis by (simp add: json_quote_def)
qed

text \<open>The addresses among the variables are short; of the other values it is asked for.\<close>

lemma variables_short:
  "ok_resolved j \<Longrightarrow> short_value (PDict [(''newsletter_id'', PStr j)])"
  "ok_resolved j \<Longrightarrow> ok_resolved k \<Longrightarrow> short_value (PDict [(''newsletter_id'', PStr j), (''user_id'', PStr k)])"
  "ok_resolved j \<Longrightarrow> length (json_text '''' v) < 1073741824 \<Longrightarrow> short_value (PDict [(''newsletter_id'', PStr j), (''updates'', v)])"
  using json_quote_length [of j] json_quote_length [of k] json_quote_length [of "''newsletter_id''"]
    json_quote_length [of "''user_id''"] json_quote_length [of "''updates''"]
  by (auto simp: short_value_def ok_resolved_def comma_def)

lemma safe_wmex:
  assumes "ok_env env" and "short_value (PDict variables)" and "ok_text query_id"
  shows "safe env (\<lambda>_. True) (execute_wmex_query variables query_id path)"
proof -
  have "short_text t" if "json_dumps '''' (PDict [(''variables'', PDict variables)]) = Inr t" for t
    using that assms(2) json_quote_length [of "''variables''"]
    by (auto simp: json_dumps_def short_text_def short_value_def comma_def split: if_splits)
  then have "safe env ok_answer (w_mex_query variables query_id)"
    unfolding w_mex_query_def mex_node_def
    by (intro safe_bind [OF safe_fresh] safe_bind_compute safe_query assms(1)) (simp_all add: wire_simps assms(3) S_WHATSAPP_NET_def)
  then show ?thesis unfolding execute_wmex_query_def by (rule safe_bind) (rule safe_done_compute)
qed

lemmas safe_wmexs [safe_intros] = safe_wmex safe_bind [OF safe_wmex]

datatype newsletter_op =
    N_Create string "string option" | N_Update string pydict | N_Subscribers string | N_Metadata string string | N_Follow string | N_Unfollow string
  | N_Mute string | N_Unmute string | N_Name string string | N_Description string string | N_Picture string "pydict result"
  | N_Remove_Picture string | N_React string string "string option" | N_Messages string int "int option" "int option"
  | N_Subscribe string | N_Admin_Count string | N_Change_Owner string string | N_Demote string string | N_Delete string

fun run_newsletter_op :: "newsletter_op \<Rightarrow> unit action" where
  "run_newsletter_op (N_Create name description) = run_only (newsletter_create name description)"
| "run_newsletter_op (N_Update jid updates) = run_only (newsletter_update jid updates)"
| "run_newsletter_op (N_Subscribers jid) = run_only (newsletter_subscribers jid)"
| "run_newsletter_op (N_Metadata type key) = run_only (newsletter_metadata type key)"
| "run_newsletter_op (N_Follow jid) = run_only (newsletter_follow jid)"
| "run_newsletter_op (N_Unfollow jid) = run_only (newsletter_unfollow jid)"
| "run_newsletter_op (N_Mute jid) = run_only (newsletter_mute jid)"
| "run_newsletter_op (N_Unmute jid) = run_only (newsletter_unmute jid)"
| "run_newsletter_op (N_Name jid name) = run_only (newsletter_update_name jid name)"
| "run_newsletter_op (N_Description jid description) = run_only (newsletter_update_description jid description)"
| "run_newsletter_op (N_Picture jid picture) = run_only (newsletter_update_picture jid picture)"
| "run_newsletter_op (N_Remove_Picture jid) = run_only (newsletter_remove_picture jid)"
| "run_newsletter_op (N_React jid server_id reaction) = newsletter_react_message jid server_id reaction"
| "run_newsletter_op (N_Messages jid n since after) = run_only (newsletter_fetch_messages jid n since after)"
| "run_newsletter_op (N_Subscribe jid) = run_only (subscribe_newsletter_updates jid)"
| "run_newsletter_op (N_Admin_Count jid) = run_only (newsletter_admin_count jid)"
| "run_newsletter_op (N_Change_Owner jid owner) = run_only (newsletter_change_owner jid owner)"
| "run_newsletter_op (N_Demote jid user) = run_only (newsletter_demote jid user)"
| "run_newsletter_op (N_Delete jid) = run_only (newsletter_delete jid)"

text \<open>Arguments that the wire can carry: addresses, texts of JSON below 100 million characters, and numbers.\<close>

definition small_text :: "string \<Rightarrow> bool" where
  "small_text s \<longleftrightarrow> length s < 100000000"

definition ok_int :: "int \<Rightarrow> bool" where
  "ok_int i \<longleftrightarrow> ok_text (int_str i)"

fun ok_newsletter_op :: "newsletter_op \<Rightarrow> bool" where
  "ok_newsletter_op (N_Create name description) \<longleftrightarrow> small_text name \<and> small_text (given_text description)"
| "ok_newsletter_op (N_Update jid updates) \<longleftrightarrow> ok_address jid \<and> length (json_text '''' (PDict (dict_set ''settings'' PNone updates))) < 1073741824"
| "ok_newsletter_op (N_Metadata type key) \<longleftrightarrow> small_text type \<and> small_text key"
| "ok_newsletter_op (N_Name jid name) \<longleftrightarrow> ok_address jid \<and> small_text name"
| "ok_newsletter_op (N_Description jid description) \<longleftrightarrow> ok_address jid \<and> small_text description"
| "ok_newsletter_op (N_Picture jid picture) \<longleftrightarrow> ok_address jid \<and>
     (\<forall>pic img. picture = Inr pic \<longrightarrow> py_get ''img'' pic = PBytes img \<longrightarrow> small_text (b64encode img))"
| "ok_newsletter_op (N_React jid server_id reaction) \<longleftrightarrow> ok_address jid \<and> ok_text server_id \<and> ok_text (given_text reaction)"
| "ok_newsletter_op (N_Messages jid n since after) \<longleftrightarrow> ok_address jid \<and> ok_int n \<and> pred_option ok_int since \<and> pred_option ok_int after"
| "ok_newsletter_op (N_Subscribers jid) \<longleftrightarrow> ok_address jid"
| "ok_newsletter_op (N_Follow jid) \<longleftrightarrow> ok_address jid"
| "ok_newsletter_op (N_Unfollow jid) \<longleftrightarrow> ok_address jid"
| "ok_newsletter_op (N_Mute jid) \<longleftrightarrow> ok_address jid"
| "ok_newsletter_op (N_Unmute jid) \<longleftrightarrow> ok_address jid"
| "ok_newsletter_op (N_Remove_Picture jid) \<longleftrightarrow> ok_address jid"
| "ok_newsletter_op (N_Subscribe jid) \<longleftrightarrow> ok_address jid"
| "ok_newsletter_op (N_Admin_Count jid) \<longleftrightarrow> ok_address jid"
| "ok_newsletter_op (N_Delete jid) \<longleftrightarrow> ok_address jid"
| "ok_newsletter_op (N_Change_Owner jid user) \<longleftrightarrow> ok_address jid \<and> ok_address user"
| "ok_newsletter_op (N_Demote jid user) \<longleftrightarrow> ok_address jid \<and> ok_address user"

lemma text_update_short:
  assumes "small_text s" and "length k < 1000"
  shows "length (json_text '''' (PDict (dict_set ''settings'' PNone [(k, PStr s)]))) < 1073741824"
  using assms json_quote_length [of s] json_quote_length [of k] json_quote_length [of "''settings''"]
  by (auto simp: small_text_def comma_def)

lemma safe_newsletter_update [safe_intros]:
  assumes "ok_env env" and "ok_address jid" and "length (json_text '''' (PDict (dict_set ''settings'' PNone updates))) < 1073741824"
  shows "safe env (\<lambda>_. True) (newsletter_update jid updates)"
  unfolding newsletter_update_def
  by (intro safe_intros assms(1,2) variables_short(3)) (use assms(3) in \<open>simp_all add: wire_simps\<close>)

lemma safe_newsletter_query [safe_intros]:
  assumes "ok_env env" and "ok_address jid" and "ok_text query_id"
  shows "safe env (\<lambda>_. True) (newsletter_query jid query_id path)"
  unfolding newsletter_query_def by (intro safe_intros assms variables_short(1)) (simp_all add: wire_simps)

lemma safe_newsletter_user_query [safe_intros]:
  assumes "ok_env env" and "ok_address jid" and "ok_address user" and "ok_text query_id"
  shows "safe env (\<lambda>_. True) (newsletter_user_query jid user query_id path)"
  unfolding newsletter_user_query_def by (intro safe_intros assms variables_short(2)) (simp_all add: wire_simps)

lemma input_short:
  assumes "small_text a" and "small_text b"
  shows "short_value (PDict [(''input'', PDict [(''name'', PStr a), (''description'', case d of None \<Rightarrow> PNone | Some _ \<Rightarrow> PStr b)])])"
    "short_value (PDict [(''fetch_creation_time'', PBool True), (''fetch_full_image'', PBool True),
       (''fetch_viewer_metadata'', PBool True), (''input'', PDict [(''key'', PStr a), (''type'', PStr b)])])"
  using assms json_quote_length [of a] json_quote_length [of b] json_quote_length [of "''input''"] json_quote_length [of "''name''"]
    json_quote_length [of "''description''"] json_quote_length [of "''fetch_creation_time''"] json_quote_length [of "''fetch_full_image''"]
    json_quote_length [of "''fetch_viewer_metadata''"] json_quote_length [of "''key''"] json_quote_length [of "''type''"]
  by (auto simp: short_value_def small_text_def comma_def split: option.split)

lemma safe_newsletter_create:
  assumes "ok_env env" and "small_text name" and "small_text (given_text description)"
  shows "safe env (\<lambda>_. True) (newsletter_create name description)"
proof -
  have "short_value (PDict [(''input'', PDict [(''name'', PStr name), (''description'', case description of None \<Rightarrow> PNone | Some d \<Rightarrow> PStr d)])])"
    using input_short(1) [OF assms(2), of "given_text description" description] assms(3)
    by (cases description) (simp_all add: given_text_def)
  then show ?thesis unfolding newsletter_create_def by (intro safe_intros assms(1)) (simp_all add: wire_simps)
qed

lemma safe_newsletter_metadata:
  assumes "ok_env env" and "small_text type" and "small_text key"
  shows "safe env (\<lambda>_. True) (newsletter_metadata type key)"
proof -
  have "small_text (ascii_upper type)" using assms(2) by (simp add: small_text_def ascii_upper_def)
  then show ?thesis unfolding newsletter_metadata_def
    by (intro safe_intros assms(1) input_short(2)) (simp_all add: wire_simps assms(3))
qed

lemma safe_newsletter_picture:
  assumes "ok_env env" and "ok_newsletter_op (N_Picture jid picture)"
  shows "safe env (\<lambda>_. True) (newsletter_update_picture jid picture)"
  unfolding newsletter_update_picture_def
  using assms by (auto intro!: safe_bind_compute safe_newsletter_update text_update_short safe_fail split: pyval.split)

lemma safe_newsletter_fetch:
  assumes "ok_env env" and "ok_newsletter_op (N_Messages jid n since after)"
  shows "safe env (\<lambda>_. True) (newsletter_fetch_messages jid n since after)"
  unfolding newsletter_fetch_messages_def newsletter_iq_def
  by (intro safe_intros assms(1)) (use assms(2) in \<open>auto simp: wire_simps ok_int_def split: option.split\<close>)

lemma newsletter_op_safe:
  assumes "ok_env env" and "ok_newsletter_op a"
  shows "safe env (\<lambda>_. True) (run_newsletter_op a)"
proof -
  note unfold = newsletter_subscribers_def newsletter_follow_def newsletter_unfollow_def newsletter_mute_def newsletter_unmute_def
    newsletter_delete_def newsletter_change_owner_def newsletter_demote_def newsletter_admin_count_def newsletter_update_name_def
    newsletter_update_description_def newsletter_remove_picture_def newsletter_react_message_def subscribe_newsletter_updates_def
    newsletter_iq_def Let_def
  show ?thesis
  proof (cases a)
    case (N_Create name description)
    then show ?thesis using assms by (simp add: safe_run_only safe_newsletter_create)
  next
    case (N_Metadata type key)
    then show ?thesis using assms by (simp add: safe_run_only safe_newsletter_metadata)
  next
    case (N_Picture jid picture)
    then show ?thesis using assms by (simp add: safe_run_only safe_newsletter_picture)
  next
    case (N_Messages jid n since after)
    then show ?thesis using assms by (simp add: safe_run_only safe_newsletter_fetch)
  qed (use assms in \<open>simp only: run_newsletter_op.simps ok_newsletter_op.simps unfold;
      intro safe_intros safe_bind [OF safe_newsletter_query] text_update_short; simp add: wire_simps small_text_def\<close>)+
qed

end
