(* ===== verification/Business_Actions.thy ===== *)
theory Business_Actions
  imports Newsletter_Actions
begin

text \<open>
  The operations of business accounts (\<^verbatim>\<open>socket/business.py\<close>) and the product stanzas they send
  and read (\<^verbatim>\<open>utils/business.py\<close>). Uploading files is an argument, and a product or a
  profile is given by the fields of its model.
\<close>

section \<open>Products as stanzas\<close>

definition child_text :: "node option \<Rightarrow> string \<Rightarrow> string result" where
  "child_text n tag = bindE (get_binary_node_child_string n tag) (\<lambda>t. Inr (given_text t))"

definition child_int :: "node option \<Rightarrow> string \<Rightarrow> int result" where
  "child_int n tag = bindE (child_text n tag) (\<lambda>t. py_int (if t = '''' then ''0'' else t))"

definition field_node :: "string \<Rightarrow> pyval \<Rightarrow> node list" where
  "field_node tag v = (if v = PNone then [] else [text_node tag (py_text v)])"

definition image_node :: "pyval \<Rightarrow> node result" where
  "image_node v = (case v of
       PDict d \<Rightarrow> (case map_of d ''url'' of
           Some u \<Rightarrow> Inr (element ''image'' [] (CList [text_node ''url'' (py_text u)]))
         | None \<Rightarrow> Inl (ValueError ''expected product image to already be uploaded''))
     | _ \<Rightarrow> Inl (ValueError ''expected product image to already be uploaded''))"

definition product_images :: "pydict \<Rightarrow> node list result" where
  "product_images p = (case py_get ''images'' p of
       PList (i # is') \<Rightarrow> bindE (mapE image_node (i # is')) (\<lambda>ns. Inr [element ''media'' [] (CList ns)])
     | _ \<Rightarrow> Inr [])"

text \<open>Only a product that is created has a country of origin; None stands for an exemption.\<close>

definition origin_attrs :: "pydict \<Rightarrow> (string \<times> string) list" where
  "origin_attrs p = (if map_of p ''originCountryCode'' = Some PNone then [(''compliance_category'', ''COUNTRY_ORIGIN_EXEMPT'')] else [])"

definition origin_nodes :: "pydict \<Rightarrow> node list" where
  "origin_nodes p = (case map_of p ''originCountryCode'' of
       None \<Rightarrow> []
     | Some v \<Rightarrow> if v = PNone then []
         else [element ''compliance_info'' [] (CList [text_node ''country_code_origin'' (py_text v)])])"

definition hidden_attrs :: "pydict \<Rightarrow> (string \<times> string) list" where
  "hidden_attrs p = (let v = py_get ''isHidden'' p in
     if v = PNone then [] else [(''is_hidden'', if truthy v then ''true'' else ''false'')])"

definition to_product_node :: "string option \<Rightarrow> pydict \<Rightarrow> node result" where
  "to_product_node product_id p =
     bindE (product_images p) (\<lambda>media.
       Inr (element ''product'' (origin_attrs p @ hidden_attrs p) (CList
         ((case product_id of None \<Rightarrow> [] | Some i \<Rightarrow> [text_node ''id'' i]) @ field_node ''name'' (py_get ''name'' p) @
          field_node ''description'' (py_get ''description'' p) @ field_node ''retailer_id'' (py_get ''retailerId'' p) @ media @
          field_node ''price'' (py_get ''price'' p) @ field_node ''currency'' (py_get ''currency'' p) @ origin_nodes p))))"

definition parse_image_urls :: "node option \<Rightarrow> pyval result" where
  "parse_image_urls media =
     (let img = get_binary_node_child media ''image'' in
      bindE (child_text img ''request_image_url'') (\<lambda>requested.
      bindE (child_text img ''original_image_url'') (\<lambda>original.
        Inr (PDict [(''requested'', PStr requested), (''original'', PStr original)]))))"

definition optional_text :: "string option \<Rightarrow> pyval" where
  "optional_text t = (case t of None \<Rightarrow> PNone | Some s \<Rightarrow> PStr s)"

definition parse_product_node :: "node \<Rightarrow> pydict result" where
  "parse_product_node n =
     (let child = get_binary_node_child (Some n) in
      bindE (child_text (Some n) ''id'') (\<lambda>i.
      bindE (parse_image_urls (child ''media'')) (\<lambda>urls.
      bindE (child_text (child ''status_info'') ''status'') (\<lambda>status.
      bindE (child_text (Some n) ''name'') (\<lambda>name.
      bindE (get_binary_node_child_string (Some n) ''retailer_id'') (\<lambda>retailer_id.
      bindE (get_binary_node_child_string (Some n) ''url'') (\<lambda>url.
      bindE (child_text (Some n) ''description'') (\<lambda>description.
      bindE (child_int (Some n) ''price'') (\<lambda>price.
      bindE (child_text (Some n) ''currency'') (\<lambda>currency.
        Inr [(''id'', PStr i), (''imageUrls'', urls), (''reviewStatus'', PDict [(''whatsapp'', PStr status)]), (''availability'', PStr ''in stock''),
          (''name'', PStr name), (''retailerId'', optional_text retailer_id), (''url'', optional_text url),
          (''description'', PStr description), (''price'', PInt price), (''currency'', PStr currency),
          (''isHidden'', PBool (attr_get (node_attrs n) ''is_hidden'' = AStr ''true''))]))))))))))"

section \<open>Catalogs, collections and orders\<close>

definition parse_catalog_node :: "node \<Rightarrow> pydict result" where
  "parse_catalog_node n =
     (let catalog = get_binary_node_child (Some n) ''product_catalog'' in
      bindE (mapE parse_product_node (get_binary_node_children catalog ''product'')) (\<lambda>products.
      bindE (get_binary_node_child_string (get_binary_node_child catalog ''paging'') ''after'') (\<lambda>after.
        Inr [(''products'', PList (map PDict products)), (''nextPageCursor'', optional_text after)])))"

definition parse_status_info :: "node \<Rightarrow> pyval result" where
  "parse_status_info n =
     (let status = get_binary_node_child (Some n) ''status_info'' in
      bindE (child_text status ''status'') (\<lambda>s.
      bindE (get_binary_node_child_string status ''can_appeal'') (\<lambda>a.
        Inr (PDict [(''status'', PStr s), (''canAppeal'', PBool (a = Some ''true''))]))))"

definition parse_collection :: "node \<Rightarrow> pyval result" where
  "parse_collection n =
     bindE (child_text (Some n) ''id'') (\<lambda>i.
     bindE (child_text (Some n) ''name'') (\<lambda>name.
     bindE (mapE parse_product_node (get_binary_node_children (Some n) ''product'')) (\<lambda>products.
     bindE (parse_status_info n) (\<lambda>status.
       Inr (PDict [(''id'', PStr i), (''name'', PStr name), (''products'', PList (map PDict products)), (''status'', status)])))))"

definition parse_collections_node :: "node \<Rightarrow> pydict result" where
  "parse_collections_node n =
     bindE (mapE parse_collection (get_binary_node_children (get_binary_node_child (Some n) ''collections'') ''collection'')) (\<lambda>cs.
       Inr [(''collections'', PList cs)])"

definition parse_order_product :: "node \<Rightarrow> pyval result" where
  "parse_order_product n =
     bindE (child_text (Some n) ''id'') (\<lambda>i.
     bindE (child_text (Some n) ''name'') (\<lambda>name.
     bindE (child_text (get_binary_node_child (Some n) ''image'') ''url'') (\<lambda>url.
     bindE (child_int (Some n) ''price'') (\<lambda>price.
     bindE (child_text (Some n) ''currency'') (\<lambda>currency.
     bindE (child_int (Some n) ''quantity'') (\<lambda>quantity.
       Inr (PDict [(''id'', PStr i), (''imageUrl'', PStr url), (''name'', PStr name), (''quantity'', PInt quantity),
         (''currency'', PStr currency), (''price'', PInt price)])))))))"

definition parse_order_details_node :: "node \<Rightarrow> pydict result" where
  "parse_order_details_node n =
     (let order = get_binary_node_child (Some n) ''order''; price = get_binary_node_child order ''price'' in
      bindE (mapE parse_order_product (get_binary_node_children order ''product'')) (\<lambda>products.
      bindE (child_int price ''total'') (\<lambda>total.
      bindE (child_text price ''currency'') (\<lambda>currency.
        Inr [(''price'', PDict [(''currency'', PStr currency), (''total'', PInt total)]), (''products'', PList products)]))))"

section \<open>The profile\<close>

definition profile_text_nodes :: "pydict \<Rightarrow> node list" where
  "profile_text_nodes profile =
     concat (map (\<lambda>k. let v = py_get k profile in if v = PNone then [] else [element k [] (CStr (py_text v))])
       [''address'', ''email'', ''description''])"

definition website_nodes :: "pydict \<Rightarrow> node list" where
  "website_nodes profile = (case py_get ''websites'' profile of
       PList ws \<Rightarrow> map (\<lambda>w. element ''website'' [] (CStr (py_text w))) ws | _ \<Rightarrow> [])"

definition opening_attrs :: "pydict \<Rightarrow> (string \<times> string) list" where
  "opening_attrs day =
     (let time = (\<lambda>k name. let v = py_get k day in if v = PNone then [] else [(name, py_text v)]) in
      [(''day_of_week'', py_text (py_get ''day'' day)), (''mode'', py_text (py_get ''mode'' day))] @
      (if py_get ''mode'' day = PStr ''specific_hours''
       then time ''openTimeInMinutes'' ''open_time'' @ time ''closeTimeInMinutes'' ''close_time'' else []))"

definition hours_nodes :: "pydict \<Rightarrow> node list" where
  "hours_nodes profile = (case py_get ''hours'' profile of
       PDict hours \<Rightarrow>
         [element ''business_hours'' [(''timezone'', if truthy (py_get ''timezone'' hours) then py_text (py_get ''timezone'' hours) else '''')]
           (CList (map (\<lambda>day. element ''business_hours_config'' (opening_attrs day) CNone)
             (List.map_filter as_dict (case py_get ''days'' hours of PList days \<Rightarrow> days | _ \<Rightarrow> []))))]
     | _ \<Rightarrow> [])"

definition profile_node :: "node list \<Rightarrow> node" where
  "profile_node ns = iq [(''to'', ''s.whatsapp.net''), (''type'', ''set''), (''xmlns'', ''w:biz'')]
     [element ''business_profile'' [(''v'', ''3''), (''mutation_type'', ''delta'')] (CList ns)]"

definition update_business_profile :: "pydict \<Rightarrow> node action" where
  "update_business_profile profile =
     query_node (profile_node (profile_text_nodes profile @ website_nodes profile @ hours_nodes profile))"

text \<open>\<open>uploaded\<close> is what the upload of the picture returns.\<close>

definition or_empty_text :: "pyval \<Rightarrow> string" where
  "or_empty_text v = (if truthy v then py_text v else '''')"

definition update_cover_photo :: "pydict result \<Rightarrow> string action" where
  "update_cover_photo uploaded =
     bindA (compute uploaded) (\<lambda>u.
     bindA (query_node (profile_node [element ''cover_photo'' [(''id'', py_text (py_get ''fbid'' u)), (''op'', ''update''),
         (''token'', or_empty_text (py_get ''meta_hmac'' u)), (''ts'', or_empty_text (py_get ''ts'' u))] CNone])) (\<lambda>_.
       give (py_text (py_get ''fbid'' u))))"

definition remove_cover_photo :: "string \<Rightarrow> node action" where
  "remove_cover_photo photo_id = query_node (profile_node [element ''cover_photo'' [(''op'', ''delete''), (''id'', photo_id)] CNone])"

section \<open>The catalog\<close>

definition biz_iq :: "string \<Rightarrow> (string \<times> string) list \<Rightarrow> string \<Rightarrow> node \<Rightarrow> node" where
  "biz_iq type extra xmlns n = iq ([(''to'', S_WHATSAPP_NET), (''type'', type), (''xmlns'', xmlns)] @ extra) [n]"

definition dimensions :: "node list" where
  "dimensions = [text_node ''width'' ''100'', text_node ''height'' ''100'']"

text \<open>Without an address, or with an empty one, it is the own catalog; a limit of 0 is 10.\<close>

definition or_me :: "string option \<Rightarrow> string \<Rightarrow> string" where
  "or_me jid me = (if given_text jid = '''' then me else given_text jid)"

definition get_catalog :: "string \<Rightarrow> string option \<Rightarrow> int option \<Rightarrow> string option \<Rightarrow> pydict action" where
  "get_catalog me jid limit cursor =
     bindA (resolve_chat_jid (or_me jid me)) (\<lambda>resolved.
     bindA (query_node (biz_iq ''get'' [] ''w:biz:catalog''
         (element ''product_catalog'' [(''jid'', resolved), (''allow_shop_source'', ''true'')]
           (CList ([text_node ''limit'' (int_str (case limit of None \<Rightarrow> 10 | Some i \<Rightarrow> if i = 0 then 10 else i))] @ dimensions @
             (if given_text cursor = '''' then [] else [text_node ''after'' (given_text cursor)])))))) (\<lambda>result.
       compute (parse_catalog_node result)))"

definition get_collections :: "string \<Rightarrow> string option \<Rightarrow> int \<Rightarrow> pydict action" where
  "get_collections me jid limit =
     bindA (resolve_chat_jid (or_me jid me)) (\<lambda>resolved.
     bindA (query_node (biz_iq ''get'' [(''smax_id'', ''35'')] ''w:biz:catalog''
         (element ''collections'' [(''biz_jid'', resolved)]
           (CList ([text_node ''collection_limit'' (int_str limit), text_node ''item_limit'' (int_str limit)] @ dimensions))))) (\<lambda>result.
       compute (parse_collections_node result)))"

definition get_order_details :: "string \<Rightarrow> string \<Rightarrow> pydict action" where
  "get_order_details order_id token =
     bindA (query_node (biz_iq ''get'' [(''smax_id'', ''5'')] ''fb:thrift_iq''
         (element ''order'' [(''op'', ''get''), (''id'', order_id)]
           (CList [element ''image_dimensions'' [] (CList dimensions), text_node ''token'' token])))) (\<lambda>result.
       compute (parse_order_details_node result))"

text \<open>\<open>upload\<close> stores the images and returns the product with their addresses.\<close>

definition answered_product :: "string \<Rightarrow> node \<Rightarrow> pydict option result" where
  "answered_product tag result =
     (case get_binary_node_child (get_binary_node_child (Some result) tag) ''product'' of
        None \<Rightarrow> Inr None | Some p \<Rightarrow> bindE (parse_product_node p) (\<lambda>d. Inr (Some d)))"

definition product_edit :: "string \<Rightarrow> string option \<Rightarrow> (pydict \<Rightarrow> pydict result) \<Rightarrow> pydict \<Rightarrow> pydict option action" where
  "product_edit tag product_id upload p =
     bindA (compute (upload p)) (\<lambda>p.
     bindA (compute (to_product_node product_id p)) (\<lambda>n.
     bindA (query_node (biz_iq ''set'' [] ''w:biz:catalog'' (element tag [(''v'', ''1'')] (CList (n # dimensions))))) (\<lambda>result.
       compute (answered_product tag result))))"

definition product_update :: "string \<Rightarrow> (pydict \<Rightarrow> pydict result) \<Rightarrow> pydict \<Rightarrow> pydict option action" where
  "product_update product_id = product_edit ''product_catalog_edit'' (Some product_id)"

definition product_create :: "(pydict \<Rightarrow> pydict result) \<Rightarrow> pydict \<Rightarrow> pydict option action" where
  "product_create upload p =
     product_edit ''product_catalog_add'' None upload (if py_get ''isHidden'' p = PNone then dict_set ''isHidden'' (PBool False) p else p)"

definition product_delete :: "string list \<Rightarrow> int action" where
  "product_delete product_ids =
     bindA (query_node (biz_iq ''set'' [] ''w:biz:catalog'' (element ''product_catalog_delete'' [(''v'', ''1'')]
         (CList (map (\<lambda>i. element ''product'' [] (CList [text_node ''id'' i])) product_ids))))) (\<lambda>result.
       compute (case get_binary_node_child (Some result) ''product_catalog_delete'' of
         None \<Rightarrow> Inr 0 | Some d \<Rightarrow> attr_int_or (attr_get (node_attrs d) ''deleted_count'') 0))"

section \<open>A product that is sent reads as it was\<close>

lemma text_child: "get_binary_node_children (Some (element tag a (CList ns))) k = filter (\<lambda>c. node_tag c = k) ns"
  by (simp add: get_binary_node_children_def element_def)

lemma node_tag_element [simp]: "node_tag (element tag a c) = tag" "node_content (element tag a c) = c"
  by (simp_all add: element_def)

lemma field_node_none: "tag \<noteq> k \<Longrightarrow> filter (\<lambda>c. node_tag c = k) (field_node tag v) = []"
  by (simp add: field_node_def)

lemma field_node_own: "filter (\<lambda>c. node_tag c = tag) (field_node tag v) = field_node tag v"
  by (simp add: field_node_def)

lemma origin_nodes_none: "k \<noteq> ''compliance_info'' \<Longrightarrow> filter (\<lambda>c. node_tag c = k) (origin_nodes p) = []"
  by (simp add: origin_nodes_def split: option.split)

lemma media_none: "product_images p = Inr media \<Longrightarrow> k \<noteq> ''media'' \<Longrightarrow> filter (\<lambda>c. node_tag c = k) media = []"
  by (auto simp: product_images_def bindE_eq_Inr_iff split: pyval.splits list.splits)

lemma hidden_read:
  "attr_get (str_attrs (origin_attrs p @ hidden_attrs p)) ''is_hidden'' = AStr ''true'' \<longleftrightarrow> truthy (py_get ''isHidden'' p)"
  by (auto simp: origin_attrs_def hidden_attrs_def str_attrs_def attr_get_def Let_def)

text \<open>The images come back under other names, so only the other fields are compared.\<close>

definition product_fields :: "string list" where
  "product_fields = [''id'', ''name'', ''description'', ''retailerId'', ''price'', ''currency'', ''isHidden'']"

lemma product_read_back_fields:
  assumes "to_product_node (Some i) p = Inr n"
    and "py_get ''name'' p = PStr name" and "py_get ''description'' p = PStr description" and "py_get ''retailerId'' p = optional_text retailer_id"
    and "py_get ''price'' p = PInt price" and "py_get ''currency'' p = PStr currency"
    and "list_all str_valid [i, name, description, given_text retailer_id, currency]" and "0 \<le> price"
  shows "child_text (Some n) ''id'' = Inr i" "child_text (Some n) ''name'' = Inr name" "child_text (Some n) ''description'' = Inr description"
    "get_binary_node_child_string (Some n) ''retailer_id'' = Inr retailer_id" "child_int (Some n) ''price'' = Inr price"
    "child_text (Some n) ''currency'' = Inr currency" "get_binary_node_child_string (Some n) ''url'' = Inr None"
    "get_binary_node_child (Some n) ''status_info'' = None"
proof -
  obtain media where media: "product_images p = Inr media" using assms(1) by (auto simp: to_product_node_def bindE_eq_Inr_iff)
  have price: "str_valid (int_str price)" using assms(8)
    by (intro ascii_valid) (auto simp: ascii_def int_str_nonneg is_digit_def dest!: nat_str_digits)
  have ne: "int_str price \<noteq> ''''" using assms(8) by (simp add: int_str_nonneg)
  note n = assms(1) [unfolded to_product_node_def media, simplified]
  note simps = n [symmetric] child_text_def child_int_def get_binary_node_child_string_def get_binary_node_child_def text_child
    field_node_none field_node_own origin_nodes_none media_none [OF media] assms(2-6) field_node_def utf8_decode_encode given_text_def
  show "child_text (Some n) ''id'' = Inr i" using assms(7) by (simp add: simps)
  show "child_text (Some n) ''name'' = Inr name" using assms(7) by (simp add: simps)
  show "child_text (Some n) ''description'' = Inr description" using assms(7) by (simp add: simps)
  show "get_binary_node_child_string (Some n) ''retailer_id'' = Inr retailer_id"
    using assms(7) by (cases retailer_id) (simp_all add: simps optional_text_def)
  show "child_int (Some n) ''price'' = Inr price" using price ne assms(8) by (simp add: simps py_int_int_str)
  show "child_text (Some n) ''currency'' = Inr currency" using assms(7) by (simp add: simps)
  show "get_binary_node_child_string (Some n) ''url'' = Inr None" by (simp add: simps)
  show "get_binary_node_child (Some n) ''status_info'' = None" by (simp add: simps)
qed

lemma image_node_reads:
  assumes "image_node v = Inr im"
  shows "get_binary_node_children (Some im) ''request_image_url'' = []" "get_binary_node_children (Some im) ''original_image_url'' = []"
  using assms by (auto simp: image_node_def text_child split: pyval.splits option.splits)

lemma images_read:
  assumes "product_images p = Inr media" and "to_product_node product_id p = Inr n"
  shows "parse_image_urls (get_binary_node_child (Some n) ''media'') = Inr (PDict [(''requested'', PStr ''''), (''original'', PStr '''')])"
proof -
  have n: "get_binary_node_children (Some n) ''media'' = filter (\<lambda>c. node_tag c = ''media'') media"
    using assms by (auto simp: to_product_node_def text_child field_node_none origin_nodes_none split: option.split)
  have none: "parse_image_urls None = Inr (PDict [(''requested'', PStr ''''), (''original'', PStr '''')])"
    by (simp add: parse_image_urls_def child_text_def get_binary_node_child_string_def get_binary_node_child_def
        get_binary_node_children_def given_text_def)
  show ?thesis
  proof (cases media)
    case Nil
    then show ?thesis using n none by (simp add: get_binary_node_child_def)
  next
    case (Cons m ms)
    then obtain ims vs where m: "m = element ''media'' [] (CList ims)" "ms = []" "mapE image_node vs = Inr ims"
      using assms(1) by (auto simp: product_images_def bindE_eq_Inr_iff simp del: mapE.simps split: pyval.splits list.splits)
    have "get_binary_node_children (Some im) k = []" if "im \<in> set ims" "k \<in> {''request_image_url'', ''original_image_url''}" for im k
      using m(3) that image_node_reads by (induction vs arbitrary: ims) (auto simp: bindE_eq_Inr_iff)
    then have "get_binary_node_children (get_binary_node_child (Some m) ''image'') k = []"
      if "k \<in> {''request_image_url'', ''original_image_url''}" for k
      using that m(1) by (auto simp: get_binary_node_child_def text_child get_binary_node_children_def [of None] split: list.split
          dest: filter_eq_ConsD)
    then show ?thesis using n Cons m
      by (simp add: get_binary_node_child_def [of "Some n"] parse_image_urls_def child_text_def get_binary_node_child_string_def
          given_text_def) (simp add: get_binary_node_child_def given_text_def)
  qed
qed

text \<open>
  C9. What a shop says of a product arrives: reading the stanza that is sent for it gives its identifier, texts, price and
  visibility back.
\<close>

theorem product_read_back:
  assumes "to_product_node (Some i) p = Inr n"
    and "py_get ''name'' p = PStr name" and "py_get ''description'' p = PStr description" and "py_get ''retailerId'' p = optional_text retailer_id"
    and "py_get ''price'' p = PInt price" and "py_get ''currency'' p = PStr currency"
    and "list_all str_valid [i, name, description, given_text retailer_id, currency]" and "0 \<le> price"
  shows "parse_product_node n = Inr [(''id'', PStr i), (''imageUrls'', PDict [(''requested'', PStr ''''), (''original'', PStr '''')]),
    (''reviewStatus'', PDict [(''whatsapp'', PStr '''')]), (''availability'', PStr ''in stock''), (''name'', PStr name),
    (''retailerId'', optional_text retailer_id), (''url'', PNone), (''description'', PStr description), (''price'', PInt price),
    (''currency'', PStr currency), (''isHidden'', PBool (truthy (py_get ''isHidden'' p)))]"
proof -
  obtain media where media: "product_images p = Inr media" using assms(1) by (auto simp: to_product_node_def bindE_eq_Inr_iff)
  have hidden: "attr_get (node_attrs n) ''is_hidden'' = AStr ''true'' \<longleftrightarrow> truthy (py_get ''isHidden'' p)"
    using assms(1) hidden_read [of p] media by (auto simp: to_product_node_def element_attrs)
  have "child_text None k = Inr ''''" for k
    by (simp add: child_text_def get_binary_node_child_string_def get_binary_node_child_def get_binary_node_children_def given_text_def)
  then show ?thesis
    using product_read_back_fields [OF assms] images_read [OF media assms(1)] hidden
    by (simp add: parse_product_node_def optional_text_def Let_def)
qed

definition sample_product :: pydict where
  "sample_product = [(''name'', PStr ''tea''), (''retailerId'', PNone), (''url'', PNone), (''description'', PStr ''green''), (''price'', PInt 250),
     (''currency'', PStr ''EUR''), (''isHidden'', PBool True), (''originCountryCode'', PNone), (''images'', PList [PDict [(''url'', PStr ''https://x'')]])]"

theorem product_read_back_witness:
  "\<exists>n. to_product_node (Some ''77'') sample_product = Inr n \<and>
    (case parse_product_node n of Inl _ \<Rightarrow> False | Inr d \<Rightarrow> py_get ''name'' d = PStr ''tea'' \<and> py_get ''price'' d = PInt 250)"
proof -
  obtain n where n: "to_product_node (Some ''77'') sample_product = Inr n"
    by (simp add: to_product_node_def product_images_def sample_product_def py_get_def image_node_def)
  have f: "py_get ''name'' sample_product = PStr ''tea''" "py_get ''description'' sample_product = PStr ''green''"
    "py_get ''retailerId'' sample_product = optional_text None" "py_get ''price'' sample_product = PInt 250"
    "py_get ''currency'' sample_product = PStr ''EUR''"
    by (simp_all add: sample_product_def py_get_def optional_text_def)
  have "list_all str_valid [''77'', ''tea'', ''green'', given_text None, ''EUR'']"
    by (simp add: ascii_valid ascii_def given_text_def)
  from product_read_back [OF n f this] n show ?thesis by (simp add: py_get_def)
qed

section \<open>What cannot be written in a profile\<close>

text \<open>
  The texts of a profile are content that is a string, so one with an \<open>@\<close> is taken for an address; with a
  colon before it, as in a line that names a mail address, \<open>int\<close> raises in the encoder.
\<close>

lemma profile_mail_raises:
  "\<exists>n. profile_text_nodes [(''description'', PStr ''Mail: shop@example.com'')] = [n] \<and> encode_stanza n = Inl (ValueError ''int'')"
proof -
  have "jid_decode (Some ''Mail: shop@example.com'') = Inl (ValueError ''int'')" by code_simp
  then have "write_string TOKEN_MAP (Some ''Mail: shop@example.com'') = Inl (ValueError ''int'')"
    using write_string_at [of "''Mail: shop@example.com''"] by simp
  moreover have "wire_ok TOKEN_MAP ''description''" by (simp add: wire_simps)
  then obtain b where "write_string TOKEN_MAP (Some ''description'') = Inr b" using wa.read_str_rt by blast
  moreover have "profile_text_nodes [(''description'', PStr ''Mail: shop@example.com'')] =
      [element ''description'' [] (CStr ''Mail: shop@example.com'')]"
    by (simp add: profile_text_nodes_def py_get_def Let_def)
  ultimately show ?thesis by (simp add: element_def str_attrs_def encode_binary_node_def valid_attributes_def)
qed

section \<open>Every stanza can be sent\<close>

datatype business_op =
    B_Profile pydict | B_Cover "pydict result" | B_Remove_Cover string | B_Catalog string "string option" "int option" "string option"
  | B_Collections string "string option" int | B_Order string string | B_Update string "pydict \<Rightarrow> pydict result" pydict
  | B_Create "pydict \<Rightarrow> pydict result" pydict | B_Delete "string list"

fun run_business_op :: "business_op \<Rightarrow> unit action" where
  "run_business_op (B_Profile profile) = run_only (update_business_profile profile)"
| "run_business_op (B_Cover uploaded) = run_only (update_cover_photo uploaded)"
| "run_business_op (B_Remove_Cover photo_id) = run_only (remove_cover_photo photo_id)"
| "run_business_op (B_Catalog me jid limit cursor) = run_only (get_catalog me jid limit cursor)"
| "run_business_op (B_Collections me jid limit) = run_only (get_collections me jid limit)"
| "run_business_op (B_Order order_id token) = run_only (get_order_details order_id token)"
| "run_business_op (B_Update product_id upload p) = run_only (product_update product_id upload p)"
| "run_business_op (B_Create upload p) = run_only (product_create upload p)"
| "run_business_op (B_Delete product_ids) = run_only (product_delete product_ids)"

text \<open>What the upload and the conversion of a product or of a profile give must be sendable; texts are short.\<close>

definition ok_upload :: "string option \<Rightarrow> (pydict \<Rightarrow> pydict result) \<Rightarrow> pydict \<Rightarrow> bool" where
  "ok_upload product_id upload p \<longleftrightarrow> (case bindE (upload p) (to_product_node product_id) of Inl _ \<Rightarrow> True | Inr n \<Rightarrow> ok_node n)"

definition ok_cover :: "pydict \<Rightarrow> bool" where
  "ok_cover u \<longleftrightarrow> ok_text (py_text (py_get ''fbid'' u)) \<and> ok_text (or_empty_text (py_get ''meta_hmac'' u)) \<and> ok_text (or_empty_text (py_get ''ts'' u))"

fun ok_business_op :: "business_op \<Rightarrow> bool" where
  "ok_business_op (B_Profile profile) \<longleftrightarrow>
     (let ns = profile_text_nodes profile @ website_nodes profile @ hours_nodes profile in length ns < 65536 \<and> list_all ok_node ns)"
| "ok_business_op (B_Cover uploaded) \<longleftrightarrow> (case uploaded of Inl _ \<Rightarrow> True | Inr u \<Rightarrow> ok_cover u)"
| "ok_business_op (B_Remove_Cover photo_id) \<longleftrightarrow> ok_text photo_id"
| "ok_business_op (B_Catalog me jid limit cursor) \<longleftrightarrow> ok_address (or_me jid me) \<and> pred_option (\<lambda>i. short_text (int_str i)) limit \<and> short_text (given_text cursor)"
| "ok_business_op (B_Collections me jid limit) \<longleftrightarrow> ok_address (or_me jid me) \<and> short_text (int_str limit)"
| "ok_business_op (B_Order order_id token) \<longleftrightarrow> ok_text order_id \<and> short_text token"
| "ok_business_op (B_Update product_id upload p) \<longleftrightarrow> ok_upload (Some product_id) upload p"
| "ok_business_op (B_Create upload p) \<longleftrightarrow> ok_upload None upload (if py_get ''isHidden'' p = PNone then dict_set ''isHidden'' (PBool False) p else p)"
| "ok_business_op (B_Delete product_ids) \<longleftrightarrow> list_all short_text product_ids \<and> length product_ids < 65536"

lemma ok_dimensions: "nodes_ok TOKEN_MAP dimensions" "length dimensions = 2"
  by (simp_all add: dimensions_def wire_simps short_text_def)

lemma ok_dimension: "n \<in> set dimensions \<Longrightarrow> ok_node n"
  by (auto simp: dimensions_def wire_simps short_text_def)

lemma safe_product_edit [safe_intros]:
  assumes "ok_env env" and "ok_upload product_id upload p" and "plain_text tag" and "tag \<noteq> ''''"
  shows "safe env (\<lambda>_. True) (product_edit tag product_id upload p)"
  unfolding product_edit_def biz_iq_def
  by (intro safe_intros assms(1))
    (use assms(2-4) in \<open>auto simp: wire_simps ok_upload_def ok_dimensions S_WHATSAPP_NET_def\<close>)

lemma safe_get_catalog:
  assumes "ok_env env" and "ok_business_op (B_Catalog me jid limit cursor)"
  shows "safe env (\<lambda>_. True) (get_catalog me jid limit cursor)"
proof -
  have "short_text (int_str 10)" by (simp add: short_text_def int_str_def nat_str.simps)
  then show ?thesis
    unfolding get_catalog_def biz_iq_def
    by (intro safe_intros assms(1))
      (use assms(2) in \<open>auto simp: wire_simps ok_dimensions ok_nodes_append S_WHATSAPP_NET_def split: option.split\<close>)
qed

lemma business_op_safe:
  assumes "ok_env env" and "ok_business_op a"
  shows "safe env (\<lambda>_. True) (run_business_op a)"
proof -
  note unfold = update_business_profile_def update_cover_photo_def remove_cover_photo_def get_collections_def get_order_details_def
    product_update_def product_create_def product_delete_def profile_node_def biz_iq_def
  show ?thesis
  proof (cases a)
    case (B_Catalog me jid limit cursor)
    then show ?thesis using assms by (simp add: safe_run_only safe_get_catalog)
  qed (use assms in \<open>simp only: run_business_op.simps ok_business_op.simps unfold;
      intro safe_intros; auto simp: wire_simps ok_dimensions ok_dimension ok_nodes ok_cover_def S_WHATSAPP_NET_def list_all_iff\<close>)+
qed

end
