(* ===== verification/Chat_Actions.thy ===== *)
theory Chat_Actions
  imports Community_Actions Business_Actions Recv_State Usync
begin

text \<open>
  The operations of \<^verbatim>\<open>socket/chats.py\<close> on profiles, privacy, presence and addresses, the tokens of
  trusted contacts (\<^verbatim>\<open>utils/tc_token_utils.py\<close>), and which handler of stanzas that mark state
  as dirty runs in which class of socket. What the socket keeps between calls (the privacy settings, the
  time of the last account synchronisation) is passed and returned.
\<close>

section \<open>Settings of the server\<close>

definition read_settings :: "string \<Rightarrow> string \<Rightarrow> node \<Rightarrow> (attr_value, attr_value) dict" where
  "read_settings parent tag result = (case get_binary_node_child (Some result) parent of
       None \<Rightarrow> [] | Some n \<Rightarrow> reduce_binary_node_to_dictionary n tag)"

definition fetch_props :: "string \<Rightarrow> ((attr_value, attr_value) dict \<times> attr_value) action" where
  "fetch_props last_hash =
     bindA (query_node (iq [(''to'', S_WHATSAPP_NET), (''xmlns'', ''w''), (''type'', ''get'')]
         [element ''props'' [(''protocol'', ''2''), (''hash'', last_hash)] CNone])) (\<lambda>result.
     let h = child_attr (get_binary_node_child (Some result) ''props'') ''hash'' in
     bindA (if attr_truthy h then publish ''creds.update'' (PDict [(''lastPropHash'', attr_val h)]) else give ()) (\<lambda>_.
       give (read_settings ''props'' ''prop'' result, h)))"

text \<open>The settings that are known are asked for again only by force.\<close>

definition fetch_privacy_settings :: "(attr_value, attr_value) dict option \<Rightarrow> bool \<Rightarrow> (attr_value, attr_value) dict action" where
  "fetch_privacy_settings known force =
     (if known = None \<or> force
      then bindA (query_node (iq [(''xmlns'', ''privacy''), (''to'', S_WHATSAPP_NET), (''type'', ''get'')] [leaf ''privacy''])) (\<lambda>result.
             give (read_settings ''privacy'' ''category'' result))
      else give (the known))"

definition privacy_query :: "string \<Rightarrow> string \<Rightarrow> unit action" where
  "privacy_query name v =
     run_only (query_node (iq [(''xmlns'', ''privacy''), (''to'', S_WHATSAPP_NET), (''type'', ''set'')]
       [element ''privacy'' [] (CList [element ''category'' [(''name'', name), (''value'', v)] CNone])]))"

text \<open>The methods \<open>update_messages_privacy\<close> to \<open>update_groups_add_privacy\<close> by their categories.\<close>

definition privacy_categories :: "string list" where
  "privacy_categories = [''messages'', ''calladd'', ''last'', ''online'', ''profile'', ''status'', ''readreceipts'', ''groupadd'']"

definition update_default_disappearing_mode :: "int \<Rightarrow> unit action" where
  "update_default_disappearing_mode duration =
     run_only (query_node (iq [(''xmlns'', ''disappearing_mode''), (''to'', S_WHATSAPP_NET), (''type'', ''set'')]
       [element ''disappearing_mode'' [(''duration'', int_str duration)] CNone]))"

definition get_bot_list_v2 :: "(attr_value \<times> attr_value) list action" where
  "get_bot_list_v2 =
     bindA (query_node (iq [(''xmlns'', ''bot''), (''to'', S_WHATSAPP_NET), (''type'', ''get'')] [element ''bot'' [(''v'', ''2'')] CNone])) (\<lambda>response.
       give (concat (map (\<lambda>section.
           if attr_get (node_attrs section) ''type'' = AStr ''all''
           then map (\<lambda>b. (attr_default (node_attrs b) ''jid'' '''', attr_default (node_attrs b) ''persona_id'' ''''))
                  (get_binary_node_children (Some section) ''bot'')
           else [])
         (get_binary_node_children (get_binary_node_child (Some response) ''bot'') ''section''))))"

section \<open>Profiles\<close>

definition node_text :: "node option \<Rightarrow> string option" where
  "node_text n = (case n of None \<Rightarrow> None | Some c \<Rightarrow> decode_text (node_content c))"

definition optional_int :: "attr_value \<Rightarrow> pyval result" where
  "optional_int v = (case v of ANone \<Rightarrow> Inr PNone | AStr s \<Rightarrow> bindE (py_int s) (\<lambda>i. Inr (PInt i)) | AInt i \<Rightarrow> Inr (PInt i))"

definition hours_config :: "node \<Rightarrow> pyval result" where
  "hours_config n =
     (let a = node_attrs n in
      bindE (text_field (attr_get a ''day_of_week'')) (\<lambda>day.
      bindE (text_field (attr_get a ''mode'')) (\<lambda>mode.
      bindE (optional_int (attr_get a ''open_time'')) (\<lambda>open_time.
      bindE (optional_int (attr_get a ''close_time'')) (\<lambda>close_time.
        Inr (PDict (trim_undefined [(''day_of_week'', day), (''mode'', mode), (''open_time'', open_time), (''close_time'', close_time)])))))))"

definition business_profile :: "node \<Rightarrow> pydict result" where
  "business_profile profile =
     (let child = get_binary_node_child (Some profile); hours = child ''business_hours''; text = (\<lambda>t. optional_text (node_text (child t))) in
      bindE (mapE hours_config (get_binary_node_children hours ''business_hours_config'')) (\<lambda>config.
      bindE (optional_field (attr_get (node_attrs profile) ''jid'')) (\<lambda>wid.
      bindE (optional_field (child_attr hours ''timezone'')) (\<lambda>timezone.
        Inr [(''wid'', wid), (''address'', text ''address''), (''description'', PStr (given_text (node_text (child ''description'')))),
          (''website'', PList (case node_text (child ''website'') of Some (c # cs) \<Rightarrow> [PStr (c # cs)] | _ \<Rightarrow> [])),
          (''email'', text ''email''), (''category'', optional_text (node_text (get_binary_node_child (child ''categories'') ''category''))),
          (''business_hours'', PDict [(''timezone'', timezone), (''business_config'', PList config)])]))))"

definition get_business_profile :: "string \<Rightarrow> pydict option action" where
  "get_business_profile jid =
     bindA (resolve_chat_jid jid) (\<lambda>resolved.
     bindA (query_node (iq [(''to'', S_WHATSAPP_NET), (''xmlns'', ''w:biz''), (''type'', ''get'')]
         [element ''business_profile'' [(''v'', ''244'')] (CList [element ''profile'' [(''jid'', resolved)] CNone])])) (\<lambda>results.
       case get_binary_node_child (get_binary_node_child (Some results) ''business_profile'') ''profile'' of
         None \<Rightarrow> give None
       | Some p \<Rightarrow> compute (bindE (business_profile p) (\<lambda>d. Inr (Some d)))))"

text \<open>Whose picture it is: none is named for the own one, nor as long as the own address is not known.\<close>

definition picture_target :: "string \<Rightarrow> string \<Rightarrow> (string \<times> string) list result" where
  "picture_target me jid =
     (if jid = '''' then Inl (ValueError ''jid is required for profile picture updates'')
      else bindE (jid_normalized_user (Some me)) (\<lambda>me_id. bindE (jid_normalized_user (Some jid)) (\<lambda>normalized.
        Inr (if me_id \<noteq> '''' \<and> normalized \<noteq> me_id \<and> normalized \<noteq> '''' then [(''target'', normalized)] else []))))"

definition picture_iq :: "(string \<times> string) list \<Rightarrow> content \<Rightarrow> node" where
  "picture_iq target c =
     element ''iq'' ([(''to'', S_WHATSAPP_NET), (''type'', ''set''), (''xmlns'', ''w:profile:picture'')] @ target) c"

definition update_profile_picture :: "string \<Rightarrow> bytes result \<Rightarrow> string \<Rightarrow> node action" where
  "update_profile_picture me picture jid =
     bindA (compute (picture_target me jid)) (\<lambda>target.
     bindA (compute picture) (\<lambda>img.
       query_node (picture_iq target (CList [element ''picture'' [(''type'', ''image'')] (CBytes img)]))))"

definition remove_profile_picture :: "string \<Rightarrow> string \<Rightarrow> node action" where
  "remove_profile_picture me jid = bindA (compute (picture_target me jid)) (\<lambda>target. query_node (picture_iq target CNone))"

definition update_profile_status :: "string \<Rightarrow> unit action" where
  "update_profile_status status =
     run_only (query_node (iq [(''to'', S_WHATSAPP_NET), (''type'', ''set''), (''xmlns'', ''status'')] [text_node ''status'' status]))"

definition fetch_status_iq :: "string \<Rightarrow> node action" where
  "fetch_status_iq jid =
     bindA (resolve_chat_jid jid) (\<lambda>resolved.
       query_node (iq [(''to'', S_WHATSAPP_NET), (''type'', ''get''), (''xmlns'', ''status'')] [element ''status'' [(''jid'', resolved)] CNone]))"

definition fetch_profile_picture_url :: "string \<Rightarrow> string \<Rightarrow> node action" where
  "fetch_profile_picture_url jid picture_type =
     bindA (resolve_chat_jid jid) (\<lambda>resolved.
       query_node (iq [(''to'', S_WHATSAPP_NET), (''type'', ''get''), (''xmlns'', ''w:profile:picture'')]
         [element ''picture'' [(''jid'', resolved), (''type'', picture_type)] CNone]))"

section \<open>Tokens of trusted contacts\<close>

text \<open>\<open>tokens\<close> reads the key store, which may raise; then, and without a token, the content stays.\<close>

fun token_content :: "pyval \<Rightarrow> content" where
  "token_content (PBytes b) = CBytes b"
| "token_content (PStr s) = CStr s"
| "token_content _ = COther"

definition build_tc_token_from_jid :: "(string \<Rightarrow> pyval result) option \<Rightarrow> string \<Rightarrow> node list \<Rightarrow> node list option" where
  "build_tc_token_from_jid tokens jid base =
     (let unchanged = (if base = [] then None else Some base) in
      case tokens of
        None \<Rightarrow> unchanged
      | Some get \<Rightarrow> (case bindE (get jid) or_dict of
            Inl _ \<Rightarrow> unchanged
          | Inr entry \<Rightarrow> if truthy (py_get ''token'' entry)
              then Some (base @ [element ''tctoken'' [] (token_content (py_get ''token'' entry))]) else unchanged))"

definition profile_picture_url :: "(string \<Rightarrow> pyval result) option \<Rightarrow> string \<Rightarrow> string \<Rightarrow> attr_value action" where
  "profile_picture_url tokens jid picture_type =
     (let base = [element ''picture'' [(''type'', picture_type), (''query'', ''url'')] CNone] in
      bindA (compute (jid_normalized_user (Some jid))) (\<lambda>normalized.
      bindA (query_node (iq [(''target'', normalized), (''to'', S_WHATSAPP_NET), (''type'', ''get''), (''xmlns'', ''w:profile:picture'')]
          (case build_tc_token_from_jid tokens normalized base of None \<Rightarrow> base | Some ns \<Rightarrow> ns))) (\<lambda>result.
        give (child_attr (get_binary_node_child (Some result) ''picture'') ''url''))))"

section \<open>Blocking, calls and presence\<close>

definition fetch_blocklist :: "attr_value list action" where
  "fetch_blocklist =
     bindA (query_node (element ''iq'' [(''xmlns'', ''blocklist''), (''to'', S_WHATSAPP_NET), (''type'', ''get'')] CNone)) (\<lambda>result.
       give (map (\<lambda>n. attr_default (node_attrs n) ''jid'' '''') (get_binary_node_children (get_binary_node_child (Some result) ''list'') ''item'')))"

definition update_block_status :: "string \<Rightarrow> string \<Rightarrow> unit action" where
  "update_block_status jid act =
     bindA (resolve_chat_jid jid) (\<lambda>resolved.
       run_only (query_node (iq [(''xmlns'', ''blocklist''), (''to'', S_WHATSAPP_NET), (''type'', ''set'')]
         [element ''item'' [(''action'', act), (''jid'', resolved)] CNone])))"

definition create_call_link :: "string \<Rightarrow> int option \<Rightarrow> attr_value action" where
  "create_call_link media start_time =
     bindA fresh (\<lambda>tag.
     bindA (query_node (element ''call'' [(''id'', tag), (''to'', ''@call'')] (CList [element ''link_create'' [(''media'', media)]
         (case start_time of None \<Rightarrow> CNone | Some t \<Rightarrow> CList [element ''event'' [(''start_time'', int_str t)] CNone])]))) (\<lambda>result.
       give (child_attr (get_binary_node_child (Some result) ''link_create'') ''token'')))"

text \<open>
  Without a name the own presence is not sent. The session identifier that goes with being available is sent by
  another task (theory \<open>Core_Socket\<close>). What is typed is reported from the address of the chat's kind.
\<close>

definition chatstate_sender :: "pydict \<Rightarrow> string \<Rightarrow> string result" where
  "chatstate_sender me to_jid =
     bindE (jid_decode (Some to_jid)) (\<lambda>decoded.
     let is_lid = (case decoded of None \<Rightarrow> False | Some d \<Rightarrow> jid_server d = ''lid'');
         from_jid = py_or (if is_lid then py_get ''lid'' me else py_get ''id'' me) (py_or (py_get ''id'' me) (PStr ''''))
     in Inr (py_text from_jid))"

definition send_presence_update :: "pydict \<Rightarrow> string \<Rightarrow> string \<Rightarrow> unit action" where
  "send_presence_update me type to_jid =
     (if type = ''available'' \<or> type = ''unavailable''
      then let name = py_get ''name'' me in
           if \<not> truthy name then give ()
           else bindA (publish ''connection.update'' (PDict [(''isOnline'', PBool (type = ''available''))])) (\<lambda>_.
                  send_stanza (element ''presence'' [(''name'', filter (\<lambda>c. c \<noteq> CHR ''@'') (py_text name)), (''type'', type)] CNone))
      else if to_jid = '''' then fail_with (ValueError ''to_jid is required for chatstate presence updates'')
      else bindA (compute (chatstate_sender me to_jid)) (\<lambda>sender.
             send_stanza (element ''chatstate'' [(''from'', sender), (''to'', to_jid)]
               (CList [if type = ''recording'' then element ''composing'' [(''media'', ''audio'')] CNone else leaf type]))))"

definition presence_subscribe :: "(string \<Rightarrow> pyval result) option \<Rightarrow> string \<Rightarrow> unit action" where
  "presence_subscribe tokens to_jid =
     bindA fresh (\<lambda>tag. send_stanza (element ''presence'' [(''to'', to_jid), (''id'', tag), (''type'', ''subscribe'')]
       (case build_tc_token_from_jid tokens to_jid [] of None \<Rightarrow> CNone | Some ns \<Rightarrow> CList ns)))"

text \<open>The presence that another user's stanza reports; None if it reports none.\<close>

definition reported_presence :: "node \<Rightarrow> pydict option result" where
  "reported_presence n =
     (if node_tag n = ''presence''
      then let last = attr_get (node_attrs n) ''last'' in
           bindE (if attr_truthy last \<and> last \<noteq> AStr ''deny'' then optional_int last else Inr PNone) (\<lambda>seen.
             Inr (Some [(''lastKnownPresence'', PStr (if attr_get (node_attrs n) ''type'' = AStr ''unavailable'' then ''unavailable'' else ''available'')),
               (''lastSeen'', seen)]))
      else (case node_content n of
              CList (c # cs) \<Rightarrow> Inr (Some [(''lastKnownPresence'', PStr
                (if attr_get (node_attrs c) ''media'' = AStr ''audio'' then ''recording''
                 else if node_tag c = ''paused'' then ''available'' else node_tag c))])
            | _ \<Rightarrow> Inr None))"

definition handle_presence_update :: "(string \<Rightarrow> bool) \<Rightarrow> node \<Rightarrow> unit action" where
  "handle_presence_update ignored n =
     (let a = node_attrs n; jid = attr_str (attr_get a ''from'');
          participant = (if attr_truthy (attr_get a ''participant'') then attr_str (attr_get a ''participant'') else jid) in
      if \<not> attr_truthy (attr_get a ''from'') then give ()
      else if ignored jid \<and> jid \<noteq> S_WHATSAPP_NET then give ()
      else bindA (compute (reported_presence n)) (\<lambda>presence. case presence of
        None \<Rightarrow> give ()
      | Some p \<Rightarrow> publish ''presence.update'' (PDict [(''id'', PStr jid), (''presences'', PDict [(participant, PDict p)])])))"

section \<open>Asking for users\<close>

definition execute_usync_query :: "usync_query \<Rightarrow> usync_result option action" where
  "execute_usync_query q =
     (if uq_protocols q = [] then fail_with (ValueError ''USyncQuery must have at least one protocol'')
      else bindA fresh (\<lambda>sid.
           bindA (compute (usync_iq sid q)) (\<lambda>n.
           bindA (query_node n) (\<lambda>result. compute (parse_usync_query_result (uq_protocols q) (Some result))))))"

definition no_user :: usync_user where
  "no_user = \<lparr>uu_id = None, uu_lid = None, uu_phone = None, uu_persona_id = None\<rparr>"

definition users_with_id :: "string list \<Rightarrow> usync_user list action" where
  "users_with_id = map_act (\<lambda>t. bindA (resolve_chat_jid t) (\<lambda>j. give (no_user\<lparr>uu_id := Some j\<rparr>)))"

definition listed :: "usync_result option \<Rightarrow> usync_item list option" where
  "listed = map_option ur_list"

definition fetch_about :: "usync_protocol \<Rightarrow> string list \<Rightarrow> usync_item list option action" where
  "fetch_about protocol jids =
     bindA (users_with_id jids) (\<lambda>users.
     bindA (execute_usync_query (new_usync_query\<lparr>uq_protocols := [protocol], uq_users := users\<rparr>)) (\<lambda>result. give (listed result)))"

definition fetch_statuses :: "string list \<Rightarrow> usync_item list option action" where
  "fetch_statuses = fetch_about Status_Protocol"

definition fetch_disappearing_duration :: "string list \<Rightarrow> usync_item list option action" where
  "fetch_disappearing_duration = fetch_about Disappearing_Mode_Protocol"

definition phone_of :: "string \<Rightarrow> string" where
  "phone_of jid = CHR ''+'' # hd (py_split (CHR '':'') (hd (py_split (CHR ''@'') (filter (\<lambda>c. c \<noteq> CHR ''+'') jid))))"

definition on_whatsapp :: "string list \<Rightarrow> (string \<times> bool) list action" where
  "on_whatsapp phone_numbers =
     (let users = map (\<lambda>t. no_user\<lparr>uu_phone := Some (phone_of t)\<rparr>) (filter (\<lambda>t. \<not> is_lid_user (Some t)) phone_numbers) in
      if users = [] then give []
      else bindA (execute_usync_query (new_usync_query\<lparr>uq_protocols := [Contact_Protocol], uq_users := users\<rparr>)) (\<lambda>result.
        give (List.map_filter (\<lambda>(i, dat). if map_of dat ''contact'' = Some (Contact True) then Some (i, True) else None)
          (case listed result of None \<Rightarrow> [] | Some l \<Rightarrow> l))))"

definition pn_from_lid_usync :: "string list \<Rightarrow> (string \<times> string) list action" where
  "pn_from_lid_usync jids =
     bindA (users_with_id (filter (\<lambda>t. \<not> is_lid_user (Some t)) jids)) (\<lambda>users.
     if users = [] then give []
     else bindA (execute_usync_query (new_usync_query\<lparr>uq_protocols := [Lid_Protocol], uq_users := users, uq_context := ''background''\<rparr>)) (\<lambda>result.
       give (List.map_filter (\<lambda>(i, dat). case map_of dat ''lid'' of Some (Lid l) \<Rightarrow> if l = '''' then None else Some (i, l) | _ \<Rightarrow> None)
         (case listed result of None \<Rightarrow> [] | Some l \<Rightarrow> l))))"

section \<open>State marked as dirty\<close>

text \<open>
  The account's synchronisation: the time of the last one is acknowledged and replaced. \<open>handle_ib_dirty\<close>
  of communities has the same name as this handler and replaces it in the classes that extend
  \<^verbatim>\<open>CommunitiesSocket\<close>. Every class attaches its handler by that name when it connects, so what runs
  is what the class of the socket means by it.
\<close>

type_synonym dirty_handler = "int option \<Rightarrow> node \<Rightarrow> int option action"

definition handle_account_dirty :: dirty_handler where
  "handle_account_dirty prev n =
     (let dirty = get_binary_node_child (Some n) ''dirty''; timestamp = child_attr dirty ''timestamp'' in
      if dirty \<noteq> None \<and> dirty_type n = AStr ''account_sync'' \<and> attr_truthy timestamp
      then bindA (case prev of Some t \<Rightarrow> if t \<noteq> 0 then clean_dirty_bits ''account_sync'' (Some (int_str t)) else give () | None \<Rightarrow> give ()) (\<lambda>_.
           bindA (compute (attr_int_value timestamp)) (\<lambda>t.
           bindA (publish ''creds.update'' (PDict [(''lastAccountSyncTimestamp'', PInt t)])) (\<lambda>_. give (Some t))))
      else give prev)"

definition keeping :: "(node \<Rightarrow> unit action) \<Rightarrow> dirty_handler" where
  "keeping h prev n = bindA (h n) (\<lambda>_. give prev)"

fun own_ib_dirty :: "socket_class \<Rightarrow> dirty_handler option" where
  "own_ib_dirty Chats_Socket = Some handle_account_dirty"
| "own_ib_dirty Communities_Socket = Some (keeping handle_ib_dirty)"
| "own_ib_dirty _ = None"

definition ib_dirty :: "socket_class \<Rightarrow> dirty_handler" where
  "ib_dirty cls = (case List.map_filter own_ib_dirty (method_order cls) of h # _ \<Rightarrow> h | [] \<Rightarrow> (\<lambda>prev n. give prev))"

text \<open>What each class attaches when a socket of class \<open>cls\<close> connects, the base classes first.\<close>

fun attached_by :: "socket_class \<Rightarrow> socket_class \<Rightarrow> dirty_handler list" where
  "attached_by cls Chats_Socket = [ib_dirty cls]"
| "attached_by cls Groups_Socket = [keeping handle_group_dirty]"
| "attached_by cls Communities_Socket = [ib_dirty cls]"
| "attached_by cls _ = []"

definition dirty_handlers :: "socket_class \<Rightarrow> dirty_handler list" where
  "dirty_handlers cls = concat (map (attached_by cls) (rev (method_order cls)))"

text \<open>One handler after the other; the first that raises ends the delivery. The time stays what it was when one raises.\<close>

definition caught :: "'a \<Rightarrow> 'a action \<Rightarrow> ('a \<times> exn option) action" where
  "caught x m env st = (case m env st of (Inl e, st) \<Rightarrow> (Inr (x, Some e), st) | (Inr y, st) \<Rightarrow> (Inr (y, None), st))"

fun run_handlers :: "dirty_handler list \<Rightarrow> int option \<Rightarrow> node \<Rightarrow> (int option \<times> exn option) action" where
  "run_handlers [] prev n = give (prev, None)"
| "run_handlers (h # hs) prev n = bindA (caught prev (h prev n)) (\<lambda>(prev, e). case e of
     Some e \<Rightarrow> give (prev, Some e) | None \<Rightarrow> run_handlers hs prev n)"

definition dispatch_dirty :: "socket_class \<Rightarrow> int option \<Rightarrow> node \<Rightarrow> (int option \<times> exn option) action" where
  "dispatch_dirty cls = run_handlers (dirty_handlers cls)"

lemma dirty_handlers_simps:
  "dirty_handlers Chats_Socket = [handle_account_dirty]"
  "dirty_handlers Communities_Socket = [keeping handle_ib_dirty, keeping handle_group_dirty, keeping handle_ib_dirty]"
  by (simp_all add: dirty_handlers_def ib_dirty_def method_order_def socket_chain_def map_filter_simps)

text \<open>
  The socket that the package makes is a \<^verbatim>\<open>CommunitiesSocket\<close>: there the account's synchronisation is
  never acknowledged and its time never kept, whatever it was.
\<close>

theorem account_sync_ignored:
  "dirty_type n = AStr ''account_sync'' \<longrightarrow> dispatch_dirty Communities_Socket prev n env st = (Inr (prev, None), st)"
  by (simp add: dispatch_dirty_def dirty_handlers_simps keeping_def handle_ib_dirty_def handle_group_dirty_def caught_def bindA_def give_def)

definition account_sync :: "string \<Rightarrow> node" where
  "account_sync t = Node ''ib'' [] (CList [Node ''dirty'' [(''type'', AStr ''account_sync''), (''timestamp'', AStr t)] CNone])"

theorem account_sync_ignored_witness:
  "dispatch_dirty Communities_Socket None (account_sync ''1700000000'') env st = (Inr (None, None), st)"
  using account_sync_ignored [of "account_sync ''1700000000''" None env st]
  by (simp add: account_sync_def dirty_type_def child_attr_def child_defs attr_get_def)

lemma account_sync_kept:
  "dispatch_dirty Chats_Socket None (account_sync ''17'') env st =
     (Inr (Some 17, None), st\<lparr>at_events := at_events st @ [(''creds.update'', PDict [(''lastAccountSyncTimestamp'', PInt 17)])]\<rparr>)"
proof -
  have "py_int ''17'' = Inr 17" by code_simp
  then show ?thesis unfolding dispatch_dirty_def dirty_handlers_simps
    by (simp add: handle_account_dirty_def account_sync_def dirty_type_def child_attr_def child_defs attr_get_def
        caught_def bindA_def give_def compute_def publish_def attr_int_value_def)
qed

section \<open>What these operations send\<close>

datatype chat_op =
    H_Props string | H_Privacy_Settings "(attr_value, attr_value) dict option" bool | H_Privacy string string | H_Disappearing int
  | H_Bots | H_Business_Profile string | H_Picture string "bytes result" string | H_Remove_Picture string string | H_Status string
  | H_Status_Iq string | H_Picture_Iq string string | H_Picture_Url "(string \<Rightarrow> pyval result) option" string string | H_Blocklist
  | H_Block string string | H_Call_Link string "int option" | H_Presence pydict string string
  | H_Subscribe "(string \<Rightarrow> pyval result) option" string | H_Presence_Update "string \<Rightarrow> bool" node | H_Statuses "string list"
  | H_Durations "string list" | H_On_Whatsapp "string list" | H_Lids "string list" | H_Clean string "string option"
  | H_Dirty socket_class "int option" node

fun run_chat_op :: "chat_op \<Rightarrow> unit action" where
  "run_chat_op (H_Props last_hash) = run_only (fetch_props last_hash)"
| "run_chat_op (H_Privacy_Settings known force) = run_only (fetch_privacy_settings known force)"
| "run_chat_op (H_Privacy name v) = privacy_query name v"
| "run_chat_op (H_Disappearing duration) = update_default_disappearing_mode duration"
| "run_chat_op H_Bots = run_only get_bot_list_v2"
| "run_chat_op (H_Business_Profile jid) = run_only (get_business_profile jid)"
| "run_chat_op (H_Picture me picture jid) = run_only (update_profile_picture me picture jid)"
| "run_chat_op (H_Remove_Picture me jid) = run_only (remove_profile_picture me jid)"
| "run_chat_op (H_Status status) = update_profile_status status"
| "run_chat_op (H_Status_Iq jid) = run_only (fetch_status_iq jid)"
| "run_chat_op (H_Picture_Iq jid type) = run_only (fetch_profile_picture_url jid type)"
| "run_chat_op (H_Picture_Url tokens jid type) = run_only (profile_picture_url tokens jid type)"
| "run_chat_op H_Blocklist = run_only fetch_blocklist"
| "run_chat_op (H_Block jid act) = update_block_status jid act"
| "run_chat_op (H_Call_Link media t) = run_only (create_call_link media t)"
| "run_chat_op (H_Presence me type to_jid) = send_presence_update me type to_jid"
| "run_chat_op (H_Subscribe tokens to_jid) = presence_subscribe tokens to_jid"
| "run_chat_op (H_Presence_Update ignored n) = handle_presence_update ignored n"
| "run_chat_op (H_Statuses jids) = run_only (fetch_statuses jids)"
| "run_chat_op (H_Durations jids) = run_only (fetch_disappearing_duration jids)"
| "run_chat_op (H_On_Whatsapp numbers) = run_only (on_whatsapp numbers)"
| "run_chat_op (H_Lids jids) = run_only (pn_from_lid_usync jids)"
| "run_chat_op (H_Clean type t) = clean_dirty_bits type t"
| "run_chat_op (H_Dirty cls prev n) = run_only (dispatch_dirty cls prev n)"

text \<open>Of a profile picture, of a token and of the users asked for, what is sent must be short enough or text of the wire.\<close>

definition ok_target :: "string \<Rightarrow> string \<Rightarrow> bool" where
  "ok_target me jid \<longleftrightarrow> (case picture_target me jid of Inl _ \<Rightarrow> True | Inr t \<Rightarrow> list_all (\<lambda>(k, v). ok_text v) t)"

definition ok_token :: "(string \<Rightarrow> pyval result) option \<Rightarrow> string \<Rightarrow> bool" where
  "ok_token tokens jid \<longleftrightarrow> (case build_tc_token_from_jid tokens jid [] of None \<Rightarrow> True | Some ns \<Rightarrow> list_all ok_node ns)"

definition ok_user :: "usync_user \<Rightarrow> bool" where
  "ok_user u \<longleftrightarrow> ok_text (str_or_empty (uu_id u)) \<and> ok_text (str_or_empty (uu_lid u)) \<and>
     ok_text (str_or_empty (uu_phone u)) \<and> ok_text (str_or_empty (uu_persona_id u))"

fun ok_chat_op :: "chat_op \<Rightarrow> bool" where
  "ok_chat_op (H_Props last_hash) \<longleftrightarrow> ok_text last_hash"
| "ok_chat_op (H_Privacy_Settings known force) \<longleftrightarrow> True"
| "ok_chat_op (H_Privacy name v) \<longleftrightarrow> ok_text name \<and> ok_text v"
| "ok_chat_op (H_Disappearing duration) \<longleftrightarrow> ok_text (int_str duration)"
| "ok_chat_op H_Bots \<longleftrightarrow> True"
| "ok_chat_op (H_Business_Profile jid) \<longleftrightarrow> ok_address jid"
| "ok_chat_op (H_Picture me picture jid) \<longleftrightarrow> ok_target me jid \<and> (\<forall>b. picture = Inr b \<longrightarrow> length b < 4294967296)"
| "ok_chat_op (H_Remove_Picture me jid) \<longleftrightarrow> ok_target me jid"
| "ok_chat_op (H_Status status) \<longleftrightarrow> short_text status"
| "ok_chat_op (H_Status_Iq jid) \<longleftrightarrow> ok_address jid"
| "ok_chat_op (H_Picture_Iq jid type) \<longleftrightarrow> ok_address jid \<and> ok_text type"
| "ok_chat_op (H_Picture_Url tokens jid type) \<longleftrightarrow> ok_text type \<and>
     (\<forall>j. jid_normalized_user (Some jid) = Inr j \<longrightarrow> ok_text j \<and> ok_token tokens j)"
| "ok_chat_op H_Blocklist \<longleftrightarrow> True"
| "ok_chat_op (H_Block jid act) \<longleftrightarrow> ok_address jid \<and> ok_text act"
| "ok_chat_op (H_Call_Link media t) \<longleftrightarrow> ok_text media \<and> (\<forall>i. t = Some i \<longrightarrow> ok_text (int_str i))"
| "ok_chat_op (H_Presence me type to_jid) \<longleftrightarrow> ok_text to_jid \<and> ok_tag type \<and>
     ok_text (filter (\<lambda>c. c \<noteq> CHR ''@'') (py_text (py_get ''name'' me))) \<and>
     (\<forall>j. chatstate_sender me to_jid = Inr j \<longrightarrow> ok_text j)"
| "ok_chat_op (H_Subscribe tokens to_jid) \<longleftrightarrow> ok_text to_jid \<and> ok_token tokens to_jid"
| "ok_chat_op (H_Presence_Update ignored n) \<longleftrightarrow> True"
| "ok_chat_op (H_Statuses jids) \<longleftrightarrow> ok_list jids"
| "ok_chat_op (H_Durations jids) \<longleftrightarrow> ok_list jids"
| "ok_chat_op (H_On_Whatsapp numbers) \<longleftrightarrow> length numbers < 65536 \<and> (\<forall>t\<in>set numbers. ok_text (phone_of t))"
| "ok_chat_op (H_Lids jids) \<longleftrightarrow> ok_list jids"
| "ok_chat_op (H_Clean type t) \<longleftrightarrow> ok_text type \<and> (\<forall>s. t = Some s \<longrightarrow> ok_text s)"
| "ok_chat_op (H_Dirty cls prev n) \<longleftrightarrow> (\<forall>t. prev = Some t \<longrightarrow> ok_text (int_str t))"

lemma query_element_ok: "ok_node (get_query_element p)"
  by (cases p) (simp_all add: wire_simps attr_ok_def dict_wf_def)

lemma user_element_ok: "ok_user u \<Longrightarrow> get_user_element p u = Some n \<Longrightarrow> ok_node n"
  by (cases p) (auto simp: wire_simps ok_user_def attr_ok_def dict_wf_def split: if_splits)

lemma user_node_ok:
  assumes "ok_user u" and "length ps < 65536"
  shows "ok_node (user_node ps u)"
proof -
  have "n \<in> set (List.map_filter (\<lambda>p. get_user_element p u) ps) \<Longrightarrow> ok_node n" for n
    using user_element_ok [OF assms(1)] by (auto simp: map_filter_def)
  moreover have "length (List.map_filter (\<lambda>p. get_user_element p u) ps) < 65536"
    using assms(2) le_less_trans [OF length_filter_le] by (auto simp: map_filter_def)
  ultimately show ?thesis using assms(1)
    by (auto simp: user_node_def wire_simps ok_user_def ok_nodes attr_ok_def dict_wf_def)
qed

lemma usync_iq_ok:
  assumes "usync_iq sid q = Inr n" and "ok_text sid" and "ok_text (uq_context q)" and "ok_text (uq_mode q)"
    and "list_all ok_user (uq_users q)" and "length (uq_users q) < 65536" and "length (uq_protocols q) < 65536"
  shows "ok_node n \<and> length (node_attrs n) < 30000"
  using assms query_element_ok user_node_ok
  by (auto simp: usync_iq_def wire_simps ok_nodes attr_ok_def dict_wf_def list_all_iff split: if_splits)

lemma safe_usync:
  assumes "ok_env env" and "ok_text (uq_context q)" and "ok_text (uq_mode q)"
    and "list_all ok_user (uq_users q)" and "length (uq_users q) < 65536" and "length (uq_protocols q) < 65536"
  shows "safe env (\<lambda>_. True) (execute_usync_query q)"
  unfolding execute_usync_query_def
  by (intro safe_intros assms(1)) (use assms usync_iq_ok ok_id_text in blast)+

lemma safe_users_with_id:
  assumes "list_all ok_address ts"
  shows "safe env (\<lambda>us. list_all ok_user us \<and> length us = length ts) (users_with_id ts)"
  unfolding users_with_id_def
  by (intro safe_map safe_bind [OF safe_resolve] safe_give)
    (use assms in \<open>auto simp: list_all_iff ok_user_def no_user_def str_or_empty_def wire_simps\<close>)

lemmas safe_usyncs [safe_intros] = safe_bind [OF safe_usync] safe_bind [OF safe_users_with_id]

lemma token_nodes:
  assumes "ok_token tokens jid" and "list_all ok_node base" and "build_tc_token_from_jid tokens jid base = Some ns"
  shows "list_all ok_node ns \<and> length ns \<le> length base + 1"
  using assms
  by (auto simp: ok_token_def build_tc_token_from_jid_def Let_def split: option.splits sum.splits pyval.splits list.splits if_splits)

lemma safe_handlers [safe_intros]:
  assumes "safe env (\<lambda>_. True) (h prev n)" and "\<And>p. safe env (\<lambda>_. True) (run_handlers hs p n)"
  shows "safe env (\<lambda>_. True) (run_handlers (h # hs) prev n)"
proof -
  have "safe env (\<lambda>_. True) (caught prev (h prev n))"
    using assms(1) unfolding safe_def caught_def by (fastforce split: prod.splits sum.splits)
  then show ?thesis unfolding run_handlers.simps
    by (rule safe_bind) (auto split: option.splits intro!: safe_intros assms(2))
qed

lemma safe_keeping [safe_intros]: "safe env (\<lambda>_. True) (h n) \<Longrightarrow> safe env (\<lambda>_. True) (keeping h prev n)"
  unfolding keeping_def by (rule safe_bind) (simp_all add: safe_done)

lemma safe_account_dirty:
  assumes "ok_env env" and "\<forall>t. prev = Some t \<longrightarrow> ok_text (int_str t)"
  shows "safe env (\<lambda>_. True) (handle_account_dirty prev n)"
proof -
  have "safe env (\<lambda>_. True) (case prev of Some t \<Rightarrow> if t \<noteq> 0 then clean_dirty_bits ''account_sync'' (Some (int_str t)) else give () | None \<Rightarrow> give ())"
    by (intro safe_intros assms(1)) (use assms(2) in \<open>auto simp: wire_simps\<close>)
  note bind = safe_bind [OF this]
  show ?thesis unfolding handle_account_dirty_def Let_def
    by (rule safe_if, rule bind) (intro safe_intros)+
qed

lemma safe_dispatch_dirty:
  assumes "ok_env env" and "\<forall>t. prev = Some t \<longrightarrow> ok_text (int_str t)"
  shows "safe env (\<lambda>_. True) (dispatch_dirty cls prev n)"
proof -
  have nil: "safe env (\<lambda>_. True) (run_handlers [] p n)" for p by (simp add: safe_done)
  have ib: "safe env (\<lambda>_. True) (handle_ib_dirty n)"
    using community_op_safe [OF assms(1), of "C_Dirty n"] by simp
  show ?thesis unfolding dispatch_dirty_def
    by (cases cls) (simp_all add: dirty_handlers_def ib_dirty_def method_order_def socket_chain_def map_filter_simps
        safe_handlers safe_account_dirty [OF assms] safe_keeping safe_dirty [OF assms(1)] ib nil
        del: run_handlers.simps)
qed

lemma picture_iq_ok:
  assumes "picture_target me jid = Inr t" and "ok_target me jid" and "content_ok TOKEN_MAP c"
  shows "ok_node (picture_iq t c)" and "length (node_attrs (picture_iq t c)) < 30000"
  using assms by (auto simp: picture_target_def ok_target_def picture_iq_def wire_simps S_WHATSAPP_NET_def bindE_eq_Inr_iff split: if_splits)

lemma safe_pictures:
  assumes "ok_env env" and "ok_target me jid"
  shows "safe env (\<lambda>_. True) (remove_profile_picture me jid)"
    and "(\<And>b. picture = Inr b \<Longrightarrow> length b < 4294967296) \<Longrightarrow> safe env (\<lambda>_. True) (update_profile_picture me picture jid)"
  unfolding remove_profile_picture_def update_profile_picture_def
  by (intro safe_intros assms(1); rule picture_iq_ok [OF _ assms(2)]; simp add: wire_simps content_ok.simps(3))+

lemma safe_picture_url:
  assumes "ok_env env" and "ok_text type" and "\<And>j. jid_normalized_user (Some jid) = Inr j \<Longrightarrow> ok_text j \<and> ok_token tokens j"
  shows "safe env (\<lambda>_. True) (profile_picture_url tokens jid type)"
proof -
  have base: "list_all ok_node [element ''picture'' [(''type'', type), (''query'', ''url'')] CNone]"
    using assms(2) by (simp add: wire_simps)
  show ?thesis unfolding profile_picture_url_def Let_def
    by (intro safe_intros assms(1))
      (use base assms(3) token_nodes [OF _ base] in \<open>fastforce simp: wire_simps ok_nodes list_all_iff S_WHATSAPP_NET_def split: option.split\<close>)+
qed

lemma ok_call_server: "ok_text ''@call''"
  using wire_ok_user [of "''''" "''call''" TOKEN_MAP] by (simp add: clean_user_def atom_ok_def ascii_valid ascii_def)

lemma safe_call_link:
  assumes "ok_env env" and "ok_text media" and "\<And>i. t = Some i \<Longrightarrow> ok_text (int_str i)"
  shows "safe env (\<lambda>_. True) (create_call_link media t)"
  unfolding create_call_link_def
  by (intro safe_intros assms(1)) (use assms(2,3) in \<open>auto simp: wire_simps ok_call_server split: option.split\<close>)

lemma safe_subscribe:
  assumes "ok_env env" and "ok_text to_jid" and "ok_token tokens to_jid"
  shows "safe env (\<lambda>_. True) (presence_subscribe tokens to_jid)"
  unfolding presence_subscribe_def
  by (intro safe_intros assms(1))
    (use assms(2,3) token_nodes [OF assms(3), of "[]"] in \<open>fastforce simp: wire_simps ok_nodes list_all_iff split: option.split\<close>)

lemma filter_length: "length xs < k \<Longrightarrow> length (filter p xs) < k"
  by (rule le_less_trans [OF length_filter_le])

lemma safe_users_list:
  assumes "ok_env env" and "ok_list jids"
  shows "safe env (\<lambda>_. True) (fetch_about p jids)" and "safe env (\<lambda>_. True) (pn_from_lid_usync jids)"
proof -
  have len: "length (filter (\<lambda>t. \<not> is_lid_user (Some t)) jids) < 65536" if "length jids < 65535"
    by (rule filter_length) (use that in simp)
  show "safe env (\<lambda>_. True) (fetch_about p jids)" "safe env (\<lambda>_. True) (pn_from_lid_usync jids)"
    unfolding fetch_about_def pn_from_lid_usync_def
    by (intro safe_intros assms(1);
        use assms(2) len in \<open>simp add: ok_list_def list_all_iff new_usync_query_def wire_simps\<close>)+
qed

lemma safe_on_whatsapp:
  assumes "ok_env env" and "length ts < 65536" and "\<forall>t\<in>set ts. ok_text (phone_of t)"
  shows "safe env (\<lambda>_. True) (on_whatsapp ts)"
  unfolding on_whatsapp_def Let_def
  by (intro safe_intros assms(1); use assms(2,3) filter_length [OF assms(2)] in
      \<open>simp add: list_all_iff new_usync_query_def wire_simps ok_user_def no_user_def str_or_empty_def\<close>)

lemma chat_op_safe:
  assumes "ok_env env" and "ok_chat_op a"
  shows "safe env (\<lambda>_. True) (run_chat_op a)"
proof -
  note unfold = fetch_props_def fetch_privacy_settings_def privacy_query_def update_default_disappearing_mode_def get_bot_list_v2_def
    get_business_profile_def update_profile_picture_def remove_profile_picture_def picture_iq_def update_profile_status_def
    fetch_status_iq_def fetch_profile_picture_url_def fetch_blocklist_def update_block_status_def create_call_link_def
    send_presence_update_def Let_def presence_subscribe_def handle_presence_update_def fetch_statuses_def
    fetch_disappearing_duration_def fetch_about_def on_whatsapp_def pn_from_lid_usync_def
  show ?thesis
  proof (cases a)
    case (H_Dirty cls prev n)
    then show ?thesis using assms by (simp add: safe_run_only safe_dispatch_dirty)
  next
    case (H_Picture me picture jid)
    then show ?thesis using assms by (auto intro!: safe_run_only safe_pictures)
  next
    case (H_Remove_Picture me jid)
    then show ?thesis using assms by (auto intro!: safe_run_only safe_pictures)
  next
    case (H_Picture_Url tokens jid type)
    then show ?thesis using assms by (auto intro!: safe_run_only safe_picture_url)
  next
    case (H_Call_Link media t)
    then show ?thesis using assms by (auto intro!: safe_run_only safe_call_link)
  next
    case (H_Subscribe tokens to_jid)
    then show ?thesis using assms by (simp add: safe_subscribe)
  next
    case (H_Statuses jids)
    then show ?thesis using assms by (simp add: fetch_statuses_def safe_run_only safe_users_list)
  next
    case (H_Durations jids)
    then show ?thesis using assms by (simp add: fetch_disappearing_duration_def safe_run_only safe_users_list)
  next
    case (H_On_Whatsapp numbers)
    then show ?thesis using assms by (auto intro!: safe_run_only safe_on_whatsapp)
  next
    case (H_Clean type t)
    then show ?thesis using assms by (auto intro!: safe_clean_dirty_bits)
  next
    case (H_Lids jids)
    then show ?thesis using assms by (simp add: safe_run_only safe_users_list)
  qed (use assms in \<open>simp only: run_chat_op.simps ok_chat_op.simps unfold;
      intro safe_intros; auto simp: wire_simps ok_nodes ok_list_def ok_tag_def S_WHATSAPP_NET_def list_all_iff\<close>)+
qed

end
