(* ===== verification/Socket_Actions.thy ===== *)
theory Socket_Actions
  imports Chat_Actions
begin

text \<open>
  The operations of the socket that the package makes, which has those of all classes: groups,
  communities, newsletters, business accounts and chats. Whatever sequence of them is called, and
  whichever of them raise, the wire can carry what they send.
\<close>

datatype socket_op =
    Group_Op group_op | Newsletter_Op newsletter_op | Community_Op community_op | Business_Op business_op | Chat_Op chat_op

fun run_socket_op :: "socket_op \<Rightarrow> unit action" where
  "run_socket_op (Group_Op a) = run_group_op a"
| "run_socket_op (Newsletter_Op a) = run_newsletter_op a"
| "run_socket_op (Community_Op a) = run_community_op a"
| "run_socket_op (Business_Op a) = run_business_op a"
| "run_socket_op (Chat_Op a) = run_chat_op a"

text \<open>The caller goes on after an operation that raised.\<close>

definition run_socket_ops :: "action_env \<Rightarrow> socket_op list \<Rightarrow> action_state \<Rightarrow> action_state" where
  "run_socket_ops env ops st = fold (\<lambda>a st. snd (run_socket_op a env st)) ops st"

fun ok_socket_op :: "action_env \<Rightarrow> socket_op \<Rightarrow> bool" where
  "ok_socket_op env (Group_Op a) = ok_group_op env a"
| "ok_socket_op env (Newsletter_Op a) = ok_newsletter_op a"
| "ok_socket_op env (Community_Op a) = ok_community_op env a"
| "ok_socket_op env (Business_Op a) = ok_business_op a"
| "ok_socket_op env (Chat_Op a) = ok_chat_op a"

lemma socket_op_safe: "ok_env env \<Longrightarrow> ok_socket_op env a \<Longrightarrow> safe env (\<lambda>_. True) (run_socket_op a)"
  by (cases a) (simp_all add: group_op_safe newsletter_op_safe community_op_safe business_op_safe chat_op_safe)

lemma socket_ops_keep:
  assumes "ok_env env" and "list_all (ok_socket_op env) ops" and "ok_state st"
  shows "ok_state (run_socket_ops env ops st)"
  using assms(2,3)
proof (induction ops arbitrary: st)
  case (Cons a ops)
  then have "ok_state (snd (run_socket_op a env st))"
    using socket_op_safe [OF assms(1), of a] by (simp add: safe_def)
  with Cons show ?case by (simp add: run_socket_ops_def)
qed (simp add: run_socket_ops_def)

definition sendable :: "node \<Rightarrow> bool" where
  "sendable n \<longleftrightarrow> (case encode_stanza n of Inl _ \<Rightarrow> False
     | Inr b \<Rightarrow> decode_stanza (\<lambda>_. Inl ExternalError) b = Inr (norm_node TOKEN_MAP n))"

lemma ok_node_sendable:
  assumes "ok_node n"
  shows "sendable n"
proof -
  obtain b where "encode_node TOKEN_MAP n = Inr b"
    "decode_decompressed_binary_node SINGLE_BYTE_TOKENS DOUBLE_BYTE_TOKENS (b @ []) = Inr (norm_node TOKEN_MAP n)"
    using wa.encode_decode [OF assms] by blast
  then show ?thesis by (simp add: sendable_def encode_binary_node_def decode_stanza_plain)
qed


definition quiet_server :: action_env where
  "quiet_server = \<lparr>ae_id = (\<lambda>k. ''3EB0''), ae_query = (\<lambda>ns n. if length ns < 2 then Inr (Node ''iq'' [] CNone) else Inl ExternalError),
     ae_send = (\<lambda>ns n. Inr ())\<rparr>"

definition some_operations :: "socket_op list" where
  "some_operations = [Group_Op (G_Create ''Team'' [''5511@s.whatsapp.net'']), Community_Op (C_Accept_Invite ''code''),
     Newsletter_Op (N_Name ''5511@s.whatsapp.net'' ''News''), Business_Op (B_Remove_Cover ''17''), Chat_Op (H_Block ''5511@s.whatsapp.net'' ''block'')]"

lemma address_example: "ok_address ''5511@s.whatsapp.net''"
proof -
  have "text_jid (py_strip ''5511@s.whatsapp.net'') = Inr (''5511@s.whatsapp.net'', FROM_JID)" by code_simp
  moreover have "ok_text ''5511@s.whatsapp.net''"
    using wire_ok_user [of "''5511''" "''s.whatsapp.net''" TOKEN_MAP] by (simp add: clean_user_def atom_ok_def ascii_valid ascii_def)
  ultimately show ?thesis
    by (simp add: ok_address_def ok_resolved_def stable_jid_def)
qed

definition new_action_state :: action_state where
  "new_action_state = \<lparr>at_ids = new_identity_state, at_sent = [], at_events = [], at_count = 0\<rparr>"

lemma quiet_server_ok: "ok_env quiet_server"
proof -
  have "ok_id ''3EB0''" unfolding ok_id_def by (simp add: ok_plain plain_text_Nil plain_text_Cons)
  moreover have "ok_answer (Node ''iq'' [] CNone)"
    by (simp add: ok_answer_def child_defs dict_wf_def ok_plain plain_text_Nil plain_text_Cons)
  ultimately show ?thesis
    unfolding ok_env_def quiet_server_def by (simp split: if_split)
qed

lemma new_action_state_ok: "ok_state new_action_state"
  by (simp add: ok_state_def new_action_state_def ok_ids_def new_identity_state_def)

lemma some_operations_ok: "list_all (ok_socket_op env) some_operations"
  using address_example
  by (simp add: some_operations_def ok_list_def wire_simps small_text_def)


lemma some_operations_send: "map node_tag (at_sent (run_socket_ops quiet_server some_operations new_action_state)) =
    [''iq'', ''iq'', ''iq'', ''iq'', ''iq'']"
  by code_simp

end
