(* ===== verification/Sync_Actions.thy ===== *)
theory Sync_Actions
  imports Newsletter_Actions History App_State "HOL-Library.Countable"
begin

text \<open>
  Changes of the settings of a chat: the patch that a change is turned into and the events that such a
  patch causes on the other devices of the account (\<^verbatim>\<open>chat_modification_to_app_patch\<close> and
  \<^verbatim>\<open>process_sync_action\<close> of \<^verbatim>\<open>utils/chat_utils.py\<close>, \<^verbatim>\<open>utils/sync_action_utils.py\<close>). The condition
  that an update of a chat may carry is kept as what it closes over, with its evaluator beside it.
  The settings that an \<open>unarchiveChatsSetting\<close> updates in place are a fresh copy, so that update has no effect.
\<close>

section \<open>From a change to a patch\<close>

definition dict_copy :: "pyval \<Rightarrow> pydict result" where
  "dict_copy v = (if \<not> truthy v then Inr [] else case v of PDict d \<Rightarrow> Inr d | _ \<Rightarrow> Inl TypeErr)"

definition dict_item :: "string \<Rightarrow> pyval \<Rightarrow> pyval result" where
  "dict_item k v = (case v of
       PDict d \<Rightarrow> (case map_of d k of None \<Rightarrow> Inl KeyError | Some x \<Rightarrow> Inr x)
     | _ \<Rightarrow> Inl TypeErr)"

definition first_item :: "pyval \<Rightarrow> pyval result" where
  "first_item v = (case v of PList (x # xs) \<Rightarrow> Inr x | PList [] \<Rightarrow> Inl IndexError | PDict d \<Rightarrow> Inl KeyError
     | PStr (c # cs) \<Rightarrow> Inr (PStr [c]) | PStr [] \<Rightarrow> Inl IndexError | _ \<Rightarrow> Inl TypeErr)"

definition get_dict :: "pyval \<Rightarrow> pydict result" where
  "get_dict v = (case v of PDict d \<Rightarrow> Inr d | _ \<Rightarrow> Inl AttributeErr)"

definition as_jid :: "pyval \<Rightarrow> string result" where
  "as_jid v = (case v of PStr s \<Rightarrow> Inr s | _ \<Rightarrow> Inl AttributeErr)"

definition range_message :: "pyval \<Rightarrow> pyval result" where
  "range_message v =
     bindE (get_dict v) (\<lambda>item. bindE (dict_copy (py_get ''key'' item)) (\<lambda>key.
     if \<not> truthy (py_get ''id'' key) \<or> \<not> truthy (py_get ''remoteJid'' key) then Inl (ValueError ''Incomplete key'')
     else bindE (as_jid (py_get ''remoteJid'' key)) (\<lambda>remote.
     if is_jid_group (Some remote) \<and> \<not> truthy (py_get ''fromMe'' key) \<and> \<not> truthy (py_get ''participant'' key)
     then Inl (ValueError ''Expected not-from-me group message to include participant'')
     else if \<not> truthy (py_get ''messageTimestamp'' item) \<or> to_number (py_get ''messageTimestamp'' item) = 0
     then Inl (ValueError ''Missing timestamp in last message list'')
     else bindE (if truthy (py_get ''participant'' key)
                 then bindE (as_jid (py_get ''participant'' key)) (\<lambda>p. bindE (jid_normalized_user (Some p)) (\<lambda>n.
                        Inr (dict_set ''participant'' (PStr n) key)))
                 else Inr key) (\<lambda>key. Inr (PDict (dict_set ''key'' (PDict key) item))))))"

fun range_messages :: "pyval list \<Rightarrow> pyval list result" where
  "range_messages [] = Inr []"
| "range_messages (v # vs) = bindE (range_message v) (\<lambda>m. bindE (range_messages vs) (\<lambda>ms. Inr (m # ms)))"

definition get_message_range :: "pyval \<Rightarrow> pyval result" where
  "get_message_range last_messages = (case last_messages of
       PList ms \<Rightarrow> bindE (range_messages ms) (\<lambda>messages.
         Inr (PDict [(''lastMessageTimestamp'', if ms = [] then PNone else py_get ''messageTimestamp'' (dict_or_empty (last ms))),
                     (''messages'', if messages = [] then PNone else PList messages)]))
     | v \<Rightarrow> Inr (py_or v (PDict [])))"

definition set_patch :: "int \<Rightarrow> pydict \<Rightarrow> pyval list \<Rightarrow> string \<Rightarrow> int \<Rightarrow> pydict" where
  "set_patch now sync_action index type version =
     [(''syncAction'', PDict (dict_set ''timestamp'' (PInt now) sync_action)), (''index'', PList index), (''type'', PStr type),
      (''apiVersion'', PInt version), (''operation'', PInt 1)]"

definition own_flag :: "pydict \<Rightarrow> pyval" where
  "own_flag key = PStr (if truthy (py_get ''fromMe'' key) then ''1'' else ''0'')"

text \<open>\<open>now\<close> is the time in milliseconds. The change named first in this order is the one that counts.\<close>

definition modification_names :: "string list" where
  "modification_names = [''mute'', ''archive'', ''markRead'', ''deleteForMe'', ''clear'', ''pin'', ''contact'', ''disableLinkPreviews'', ''star'',
     ''delete'', ''pushNameSetting'', ''quickReply'', ''addLabel'', ''addChatLabel'', ''removeChatLabel'', ''addMessageLabel'', ''removeMessageLabel'']"

definition range_action :: "string \<Rightarrow> pydict \<Rightarrow> pydict \<Rightarrow> (pydict \<Rightarrow> pydict) \<Rightarrow> pydict result" where
  "range_action name fs chg build =
     bindE (get_message_range (py_get ''lastMessages'' chg)) (\<lambda>r. Inr (build [(name, PDict (fs @ [(''messageRange'', r)]))]))"

definition quick_reply_patch :: "int \<Rightarrow> pyval \<Rightarrow> pydict result" where
  "quick_reply_patch now v =
     bindE (get_dict v) (\<lambda>quick. Inr (set_patch now
       [(''quickReplyAction'', PDict [(''count'', PInt 0), (''deleted'', case map_of quick ''deleted'' of None \<Rightarrow> PBool False | Some b \<Rightarrow> b),
          (''keywords'', PList []), (''message'', case map_of quick ''message'' of None \<Rightarrow> PStr '''' | Some m \<Rightarrow> m),
          (''shortcut'', case map_of quick ''shortcut'' of None \<Rightarrow> PStr '''' | Some s \<Rightarrow> s)])]
       [PStr ''quick_reply'', py_or (py_get ''timestamp'' quick) (PStr (int_str (now div 1000)))] ''regular'' 2))"

definition label_edit_patch :: "int \<Rightarrow> pyval \<Rightarrow> pydict result" where
  "label_edit_patch now v =
     bindE (get_dict v) (\<lambda>label. Inr (set_patch now
       [(''labelEditAction'', PDict [(''name'', py_get ''name'' label), (''color'', py_get ''color'' label),
          (''predefinedId'', py_get ''predefinedId'' label), (''deleted'', py_get ''deleted'' label)])]
       [PStr ''label_edit'', py_get ''id'' label] ''regular'' 3))"

definition label_patch :: "int \<Rightarrow> bool \<Rightarrow> string option \<Rightarrow> string \<Rightarrow> pyval \<Rightarrow> pydict result" where
  "label_patch now labeled message jid v =
     bindE (dict_item ''labelId'' v) (\<lambda>label.
     let action = [(''labelAssociationAction'', PDict [(''labeled'', PBool labeled)])] in
     case message of
       None \<Rightarrow> Inr (set_patch now action [PStr ''label_jid'', label, PStr jid] ''regular'' 3)
     | Some k \<Rightarrow> bindE (dict_item k v) (\<lambda>i.
         Inr (set_patch now action [PStr ''label_message'', label, PStr jid, i, PStr ''0'', PStr ''0''] ''regular'' 3)))"

definition delete_for_me_patch :: "int \<Rightarrow> string \<Rightarrow> pyval \<Rightarrow> pydict result" where
  "delete_for_me_patch now jid v =
     bindE (dict_item ''key'' v) (\<lambda>k. bindE (get_dict v) (\<lambda>d. bindE (get_dict k) (\<lambda>key.
       Inr (set_patch now [(''deleteMessageForMeAction'', PDict [(''deleteMedia'', py_get ''deleteMedia'' d), (''messageTimestamp'', py_get ''timestamp'' d)])]
         [PStr ''deleteMessageForMe'', PStr jid, py_get ''id'' key, own_flag key, PStr ''0''] ''regular_high'' 3))))"

definition star_patch :: "int \<Rightarrow> string \<Rightarrow> pyval \<Rightarrow> pydict result" where
  "star_patch now jid v =
     bindE (dict_item ''messages'' v) (\<lambda>l. bindE (first_item l) (\<lambda>k. bindE (get_dict v) (\<lambda>d. bindE (get_dict k) (\<lambda>key.
       Inr (set_patch now [(''starAction'', PDict [(''starred'', PBool (truthy (py_get ''star'' d)))])]
         [PStr ''star'', PStr jid, py_get ''id'' key, own_flag key, PStr ''0''] ''regular_low'' 2)))))"

fun modification_patch :: "int \<Rightarrow> string \<Rightarrow> pydict \<Rightarrow> string \<Rightarrow> pyval \<Rightarrow> pydict result" where
  "modification_patch now name chg jid v =
     (if name = ''mute'' then
        Inr (set_patch now [(''muteAction'', PDict [(''muted'', PBool (truthy v)), (''muteEndTimestamp'', py_or v PNone)])]
          [PStr ''mute'', PStr jid] ''regular_high'' 2)
      else if name = ''archive'' then
        range_action ''archiveChatAction'' [(''archived'', PBool (truthy v))] chg (\<lambda>a. set_patch now a [PStr ''archive'', PStr jid] ''regular_low'' 3)
      else if name = ''markRead'' then
        range_action ''markChatAsReadAction'' [(''read'', PBool (truthy v))] chg (\<lambda>a. set_patch now a [PStr ''markChatAsRead'', PStr jid] ''regular_low'' 3)
      else if name = ''deleteForMe'' then delete_for_me_patch now jid v
      else if name = ''clear'' then
        range_action ''clearChatAction'' [] chg (\<lambda>a. set_patch now a [PStr ''clearChat'', PStr jid, PStr ''1'', PStr ''0''] ''regular_high'' 6)
      else if name = ''pin'' then
        Inr (set_patch now [(''pinAction'', PDict [(''pinned'', PBool (truthy v))])] [PStr ''pin_v1'', PStr jid] ''regular_low'' 5)
      else if name = ''contact'' then
        Inr (dict_set ''operation'' (PInt (if truthy v then 1 else 2))
          (set_patch now [(''contactAction'', py_or v (PDict []))] [PStr ''contact'', PStr jid] ''critical_unblock_low'' 2))
      else if name = ''disableLinkPreviews'' then
        Inr (set_patch now [(''privacySettingDisableLinkPreviewsAction'', py_or v (PDict []))] [PStr ''setting_disableLinkPreviews''] ''regular'' 8)
      else if name = ''star'' then star_patch now jid v
      else if name = ''delete'' then
        range_action ''deleteChatAction'' [] chg (\<lambda>a. set_patch now a [PStr ''deleteChat'', PStr jid, PStr ''1''] ''regular_high'' 6)
      else if name = ''pushNameSetting'' then
        Inr (set_patch now [(''pushNameSetting'', PDict [(''name'', v)])] [PStr ''setting_pushName''] ''critical_block'' 1)
      else if name = ''quickReply'' then quick_reply_patch now v
      else if name = ''addLabel'' then label_edit_patch now v
      else if name = ''addChatLabel'' then label_patch now True None jid v
      else if name = ''removeChatLabel'' then label_patch now False None jid v
      else if name = ''addMessageLabel'' then label_patch now True (Some ''messageId'') jid v
      else label_patch now False (Some ''messageId'') jid v)"

declare modification_patch.simps [simp del]

definition chat_modification_to_app_patch :: "int \<Rightarrow> pydict \<Rightarrow> string \<Rightarrow> pydict result" where
  "chat_modification_to_app_patch now chg jid =
     (case find (\<lambda>k. k \<in> dom (map_of chg)) modification_names of
        None \<Rightarrow> Inl (ValueError ''not supported'')
      | Some name \<Rightarrow> modification_patch now name chg jid (py_get name chg))"
section \<open>From a patch to events\<close>

text \<open>
  The identifier of the chat and the range of messages that a condition closes over. \<open>chats\<close> and \<open>upserts\<close>
  are the chats of a history and the new chats of the event buffer, whose keys are texts.
\<close>

type_synonym chat_condition = "pyval \<times> pyval"

definition buffered_chat :: "pyval \<Rightarrow> pydict \<Rightarrow> pydict \<Rightarrow> pyval" where
  "buffered_chat chat_id chats upserts =
     (let at = (\<lambda>d. case chat_id of PStr i \<Rightarrow> py_get i d | _ \<Rightarrow> PNone) in py_or (at chats) (at upserts))"

definition eval_condition :: "chat_condition \<Rightarrow> pydict \<Rightarrow> pydict \<Rightarrow> bool option result" where
  "eval_condition c chats upserts =
     (let (chat_id, msg_range) = c; chat = buffered_chat chat_id chats upserts in
      if \<not> truthy chat then Inr None
      else if \<not> truthy msg_range then Inr (Some True)
      else bindE (get_dict msg_range) (\<lambda>r. bindE (get_dict chat) (\<lambda>ch.
        Inr (Some (to_number (first_truthy [py_get ''lastMessageTimestamp'' r, py_get ''lastSystemMessageTimestamp'' r, PInt 0])
                   \<ge> to_number (py_or (py_get ''lastMessageRecvTimestamp'' ch) (PInt 0)))))))"

datatype sync_event = Sync_Event string pyval | Chat_Update pydict "chat_condition option"

definition action_of :: "pydict \<Rightarrow> pydict result" where
  "action_of sync_action = (case py_or (py_get ''syncAction'' sync_action) (PDict []) of
       PDict d \<Rightarrow> (case map_of d ''value'' of None \<Rightarrow> Inr d | Some v \<Rightarrow> get_dict v)
     | _ \<Rightarrow> Inl AttributeErr)"

definition index_of :: "pydict \<Rightarrow> pyval list result" where
  "index_of sync_action = (let v = py_get ''index'' sync_action in
     if \<not> truthy v then Inr []
     else case v of PList l \<Rightarrow> Inr l | PStr s \<Rightarrow> Inr (map (\<lambda>c. PStr [c]) s) | PDict d \<Rightarrow> Inr (map (PStr \<circ> fst) d)
       | PBytes b \<Rightarrow> Inr (map (\<lambda>x. PInt (byte_val x)) b) | _ \<Rightarrow> Inl TypeErr)"

definition at_index :: "nat \<Rightarrow> pyval list \<Rightarrow> pyval" where
  "at_index i l = (if i < length l then l ! i else PNone)"

definition get_or_empty :: "string \<Rightarrow> pydict \<Rightarrow> pydict result" where
  "get_or_empty k d = (case map_of d k of None \<Rightarrow> Inr [] | Some v \<Rightarrow> get_dict v)"

definition process_contact_action :: "pydict \<Rightarrow> pyval \<Rightarrow> sync_event list result" where
  "process_contact_action action contact_id =
     (if \<not> truthy contact_id then Inr []
      else bindE (as_jid contact_id) (\<lambda>i.
        let lid_jid = py_get ''lidJid'' action; id_is_pn = is_pn_user (Some i);
            upsert = Sync_Event ''contacts.upsert'' (PList [PDict [(''id'', contact_id),
              (''name'', first_truthy [py_get ''fullName'' action, py_get ''firstName'' action, py_get ''username'' action]),
              (''lid'', lid_jid), (''phoneNumber'', if id_is_pn then contact_id else py_get ''pnJid'' action)]])
        in if \<not> truthy lid_jid then Inr [upsert]
           else bindE (as_jid lid_jid) (\<lambda>l. Inr (upsert #
             (if is_lid_user (Some l) \<and> id_is_pn then [Sync_Event ''lid-mapping.update'' (PDict [(''lid'', lid_jid), (''pn'', contact_id)])] else [])))))"

text \<open>\<open>settings\<close> are the account's during the first synchronisation, None otherwise.\<close>

record sync_context =
  sc_me :: pydict
  sc_settings :: "pydict option"
  sc_index :: "pyval list"

definition chat_condition_for :: "sync_context \<Rightarrow> pyval \<Rightarrow> chat_condition option" where
  "chat_condition_for c msg_range = (if sc_settings c = None then None else Some (at_index 1 (sc_index c), msg_range))"

definition chat_update :: "sync_context \<Rightarrow> string \<Rightarrow> pyval \<Rightarrow> pyval \<Rightarrow> sync_event list" where
  "chat_update c field v msg_range = [Chat_Update [(''id'', at_index 1 (sc_index c)), (field, v)] (chat_condition_for c msg_range)]"

definition message_key_at :: "sync_context \<Rightarrow> pyval" where
  "message_key_at c = PDict [(''remoteJid'', at_index 1 (sc_index c)), (''id'', at_index 2 (sc_index c)),
     (''fromMe'', PBool (at_index 3 (sc_index c) = PStr ''1''))]"

definition settings_event :: "string \<Rightarrow> pyval \<Rightarrow> sync_event list" where
  "settings_event name v = [Sync_Event ''settings.update'' (PDict [(''setting'', PStr name), (''value'', v)])]"

definition archive_events :: "sync_context \<Rightarrow> pydict \<Rightarrow> sync_event list result" where
  "archive_events c action =
     (let given = truthy (py_get ''archiveChatAction'' action) in
      bindE (or_dict (py_get ''archiveChatAction'' action)) (\<lambda>a.
      let archived = (if given then truthy (py_get ''archived'' a) else at_index 0 (sc_index c) = PStr ''archive'');
          msg_range = (case sc_settings c of None \<Rightarrow> PNone
            | Some s \<Rightarrow> if truthy (py_get ''unarchiveChats'' s) then py_get ''messageRange'' a else PNone)
      in Inr (chat_update c ''archived'' (PBool archived) msg_range)))"

definition star_events :: "sync_context \<Rightarrow> pydict \<Rightarrow> sync_event list result" where
  "star_events c action =
     bindE (get_or_empty ''starAction'' action) (\<lambda>a.
     let starred = (case py_get ''starred'' a of PBool b \<Rightarrow> b
       | _ \<Rightarrow> (if sc_index c = [] then PStr ''0'' else last (sc_index c)) = PStr ''1'')
     in Inr [Sync_Event ''messages.update'' (PList [PDict [(''key'', message_key_at c), (''update'', PDict [(''starred'', PBool starred)])]])])"

definition label_edit_event :: "sync_context \<Rightarrow> pydict \<Rightarrow> sync_event" where
  "label_edit_event c a = Sync_Event ''labels.edit'' (PDict [(''id'', at_index 1 (sc_index c)), (''name'', py_get ''name'' a),
     (''color'', py_get ''color'' a), (''deleted'', py_get ''deleted'' a),
     (''predefinedId'', if py_get ''predefinedId'' a = PNone then PNone else PStr (py_text (py_get ''predefinedId'' a)))])"

definition association_event :: "sync_context \<Rightarrow> bool \<Rightarrow> sync_event" where
  "association_event c is_add =
     (let chat = (''chatId'', at_index 2 (sc_index c)); label = (''labelId'', at_index 1 (sc_index c));
          association = (if at_index 0 (sc_index c) = PStr ''label_jid'' then [(''type'', PStr ''label_jid''), chat, label]
            else [(''type'', PStr ''label_message''), chat, (''messageId'', at_index 3 (sc_index c)), label])
      in Sync_Event ''labels.association'' (PDict [(''type'', PStr (if is_add then ''add'' else ''remove'')), (''association'', PDict association)]))"

definition name_events :: "sync_context \<Rightarrow> pydict \<Rightarrow> sync_event list" where
  "name_events c a =
     (let name = py_get ''name'' a in
      if truthy name \<and> py_get ''name'' (sc_me c) \<noteq> name
      then [Sync_Event ''creds.update'' (PDict [(''me'', PDict (dict_set ''name'' name (sc_me c)))])] else [])"

definition lid_contact_event :: "sync_context \<Rightarrow> pydict \<Rightarrow> sync_event" where
  "lid_contact_event c a = Sync_Event ''contacts.upsert'' (PList [PDict [(''id'', at_index 1 (sc_index c)),
     (''name'', first_truthy [py_get ''fullName'' a, py_get ''firstName'' a, py_get ''username'' a]),
     (''lid'', at_index 1 (sc_index c)), (''phoneNumber'', PNone)]])"

text \<open>The fields of an action that only report a setting; the first ones are nested in a dictionary.\<close>

definition report_nested :: "string \<Rightarrow> string \<Rightarrow> (pyval \<Rightarrow> sync_event list) \<Rightarrow> pydict \<Rightarrow> sync_event list result \<Rightarrow> sync_event list result" where
  "report_nested k field f action otherwise =
     bindE (get_or_empty k action) (\<lambda>d. if truthy (py_get field d) then Inr (f (py_get field d)) else otherwise)"

definition report_setting :: "string \<Rightarrow> string \<Rightarrow> pydict \<Rightarrow> sync_event list result \<Rightarrow> sync_event list result" where
  "report_setting k name action otherwise =
     (if truthy (py_get k action) then Inr (settings_event name (py_get k action)) else otherwise)"

definition with_action :: "string \<Rightarrow> pydict \<Rightarrow> (pydict \<Rightarrow> sync_event list) \<Rightarrow> sync_event list result \<Rightarrow> sync_event list result" where
  "with_action k action f otherwise =
     (if truthy (py_get k action) then bindE (get_dict (py_get k action)) (\<lambda>d. Inr (f d)) else otherwise)"

definition setting_events :: "sync_context \<Rightarrow> pydict \<Rightarrow> sync_event list result" where
  "setting_events c action =
     report_nested ''localeSetting'' ''locale'' (settings_event ''locale'') action
    (report_setting ''timeFormatAction'' ''timeFormat'' action
    (report_nested ''pnForLidChatAction'' ''pnJid''
       (\<lambda>pn. [Sync_Event ''lid-mapping.update'' (PDict [(''lid'', at_index 1 (sc_index c)), (''pn'', pn)])]) action
    (report_setting ''privacySettingRelayAllCalls'' ''privacySettingRelayAllCalls'' action
    (report_setting ''statusPrivacy'' ''statusPrivacy'' action
    (with_action ''lockChatAction'' action
       (\<lambda>a. [Sync_Event ''chats.lock'' (PDict [(''id'', at_index 1 (sc_index c)), (''locked'', PBool (truthy (py_get ''locked'' a)))])])
    (report_setting ''privacySettingDisableLinkPreviewsAction'' ''disableLinkPreviews'' action
    (report_nested ''notificationActivitySettingAction'' ''notificationActivitySetting'' (settings_event ''notificationActivitySetting'') action
    (with_action ''lidContactAction'' action (\<lambda>a. [lid_contact_event c a])
    (report_setting ''privacySettingChannelsPersonalisedRecommendationAction'' ''channelsPersonalisedRecommendation'' action
    (Inr []))))))))))"

definition chat_events :: "sync_context \<Rightarrow> pydict \<Rightarrow> sync_event list result" where
  "chat_events c action =
     (let initial = sc_settings c \<noteq> None; type_name = at_index 0 (sc_index c); item_id = at_index 1 (sc_index c) in
      with_action ''muteAction'' action
        (\<lambda>a. chat_update c ''muteEndTime'' (if truthy (py_get ''muted'' a) then PInt (to_number (py_get ''muteEndTimestamp'' a)) else PNone) PNone)
     (if truthy (py_get ''archiveChatAction'' action) \<or> type_name = PStr ''archive'' \<or> type_name = PStr ''unarchive'' then archive_events c action
      else with_action ''markChatAsReadAction'' action
        (\<lambda>a. chat_update c ''unreadCount'' (if initial \<and> truthy (py_get ''read'' a) then PNone else PInt (if truthy (py_get ''read'' a) then 0 else -1))
           (py_get ''messageRange'' a))
     (if truthy (py_get ''deleteMessageForMeAction'' action) \<or> type_name = PStr ''deleteMessageForMe''
      then Inr [Sync_Event ''messages.delete'' (PDict [(''keys'', PList [message_key_at c])])]
      else if truthy (py_get ''contactAction'' action)
      then bindE (get_dict (py_get ''contactAction'' action)) (\<lambda>a. process_contact_action a item_id)
      else with_action ''pushNameSetting'' action (name_events c)
     (with_action ''pinAction'' action
        (\<lambda>a. chat_update c ''pinned'' (if truthy (py_get ''pinned'' a) then PInt (to_number (py_get ''timestamp'' action)) else PNone) PNone)
     (with_action ''unarchiveChatsSetting'' action
        (\<lambda>a. [Sync_Event ''creds.update'' (PDict [(''accountSettings'', PDict [(''unarchiveChats'', PBool (truthy (py_get ''unarchiveChats'' a)))])])])
     (if truthy (py_get ''starAction'' action) \<or> type_name = PStr ''star'' then star_events c action
      else if truthy (py_get ''deleteChatAction'' action) \<or> type_name = PStr ''deleteChat''
      then Inr (if initial then [] else [Sync_Event ''chats.delete'' (PList [item_id])])
      else with_action ''labelEditAction'' action (\<lambda>a. [label_edit_event c a])
     (with_action ''labelAssociationAction'' action (\<lambda>a. [association_event c (truthy (py_get ''labeled'' a))])
     (setting_events c action))))))))"

definition process_sync_action :: "pydict \<Rightarrow> pydict \<Rightarrow> pydict option \<Rightarrow> sync_event list result" where
  "process_sync_action sync_action me settings =
     bindE (action_of sync_action) (\<lambda>action. bindE (index_of sync_action) (\<lambda>index.
       chat_events \<lparr>sc_me = me, sc_settings = settings, sc_index = index\<rparr> action))"

section \<open>What the other devices understand\<close>

text \<open>A mutation as it is handed on once a patch has been decrypted.\<close>

definition decoded_mutation :: "pyval \<Rightarrow> pyval \<Rightarrow> int \<Rightarrow> pydict" where
  "decoded_mutation index action version =
     [(''syncAction'', PDict [(''index'', index), (''value'', action), (''version'', PInt version)]), (''index'', index)]"

definition received_patch :: "pydict \<Rightarrow> pydict" where
  "received_patch p = decoded_mutation (py_get ''index'' p) (py_get ''syncAction'' p) (to_number (py_get ''apiVersion'' p))"

text \<open>Changes as a caller means them, how he says so, and the event they stand for.\<close>

datatype chat_change =
    Mute_Chat int | Unmute_Chat | Archive_Chat bool | Read_Chat bool | Delete_Message string bool | Pin_Chat bool | Set_Contact string
  | Previews_Off bool | Star_Message string bool bool | Delete_Chat | Set_Name string | Edit_Label string string
  | Label_Chat bool string | Label_Message bool string string

definition message_key_of :: "string \<Rightarrow> bool \<Rightarrow> pyval" where
  "message_key_of i own = PDict [(''id'', PStr i), (''fromMe'', PBool own)]"

fun as_modification :: "chat_change \<Rightarrow> pydict" where
  "as_modification (Mute_Chat t) = [(''mute'', PInt t)]"
| "as_modification Unmute_Chat = [(''mute'', PNone)]"
| "as_modification (Archive_Chat b) = [(''archive'', PBool b), (''lastMessages'', PList [])]"
| "as_modification (Read_Chat b) = [(''markRead'', PBool b), (''lastMessages'', PList [])]"
| "as_modification (Delete_Message i own) = [(''deleteForMe'', PDict [(''key'', message_key_of i own)])]"
| "as_modification (Pin_Chat b) = [(''pin'', PBool b)]"
| "as_modification (Set_Contact name) = [(''contact'', PDict [(''fullName'', PStr name)])]"
| "as_modification (Previews_Off b) = [(''disableLinkPreviews'', PDict [(''isPreviewsDisabled'', PBool b)])]"
| "as_modification (Star_Message i own b) = [(''star'', PDict [(''messages'', PList [message_key_of i own]), (''star'', PBool b)])]"
| "as_modification Delete_Chat = [(''delete'', PBool True), (''lastMessages'', PList [])]"
| "as_modification (Set_Name name) = [(''pushNameSetting'', PStr name)]"
| "as_modification (Edit_Label i name) = [(''addLabel'', PDict [(''id'', PStr i), (''name'', PStr name)])]"
| "as_modification (Label_Chat b l) = [(if b then ''addChatLabel'' else ''removeChatLabel'', PDict [(''labelId'', PStr l)])]"
| "as_modification (Label_Message b l i) =
     [(if b then ''addMessageLabel'' else ''removeMessageLabel'', PDict [(''messageId'', PStr i), (''labelId'', PStr l)])]"

definition chat_says :: "string \<Rightarrow> string \<Rightarrow> pyval \<Rightarrow> sync_event list" where
  "chat_says jid field v = [Chat_Update [(''id'', PStr jid), (field, v)] None]"

definition message_says :: "string \<Rightarrow> string \<Rightarrow> bool \<Rightarrow> pyval" where
  "message_says jid i own = PDict [(''remoteJid'', PStr jid), (''id'', PStr i), (''fromMe'', PBool own)]"

fun meaning :: "int \<Rightarrow> string \<Rightarrow> pydict \<Rightarrow> chat_change \<Rightarrow> sync_event list" where
  "meaning now jid me (Mute_Chat t) = chat_says jid ''muteEndTime'' (PInt t)"
| "meaning now jid me Unmute_Chat = chat_says jid ''muteEndTime'' PNone"
| "meaning now jid me (Archive_Chat b) = chat_says jid ''archived'' (PBool b)"
| "meaning now jid me (Read_Chat b) = chat_says jid ''unreadCount'' (PInt (if b then 0 else -1))"
| "meaning now jid me (Delete_Message i own) = [Sync_Event ''messages.delete'' (PDict [(''keys'', PList [message_says jid i own])])]"
| "meaning now jid me (Pin_Chat b) = chat_says jid ''pinned'' (if b then PInt now else PNone)"
| "meaning now jid me (Set_Contact name) = [Sync_Event ''contacts.upsert'' (PList [PDict [(''id'', PStr jid), (''name'', PStr name),
     (''lid'', PNone), (''phoneNumber'', if is_pn_user (Some jid) then PStr jid else PNone)]])]"
| "meaning now jid me (Previews_Off b) = settings_event ''disableLinkPreviews'' (PDict [(''isPreviewsDisabled'', PBool b)])"
| "meaning now jid me (Star_Message i own b) = [Sync_Event ''messages.update'' (PList [PDict [(''key'', message_says jid i own),
     (''update'', PDict [(''starred'', PBool b)])]])]"
| "meaning now jid me Delete_Chat = [Sync_Event ''chats.delete'' (PList [PStr jid])]"
| "meaning now jid me (Set_Name name) = (if py_get ''name'' me = PStr name then []
     else [Sync_Event ''creds.update'' (PDict [(''me'', PDict (dict_set ''name'' (PStr name) me))])])"
| "meaning now jid me (Edit_Label i name) = [Sync_Event ''labels.edit'' (PDict [(''id'', PStr i), (''name'', PStr name),
     (''color'', PNone), (''deleted'', PNone), (''predefinedId'', PNone)])]"
| "meaning now jid me (Label_Chat b l) = [Sync_Event ''labels.association'' (PDict [(''type'', PStr (if b then ''add'' else ''remove'')),
     (''association'', PDict [(''type'', PStr ''label_jid''), (''chatId'', PStr jid), (''labelId'', PStr l)])])]"
| "meaning now jid me (Label_Message b l i) = [Sync_Event ''labels.association'' (PDict [(''type'', PStr (if b then ''add'' else ''remove'')),
     (''association'', PDict [(''type'', PStr ''label_message''), (''chatId'', PStr jid), (''messageId'', PStr i), (''labelId'', PStr l)])])]"

text \<open>What the caller says must not be empty: a mute without end, a contact or an account without a name.\<close>

fun stated :: "string \<Rightarrow> chat_change \<Rightarrow> bool" where
  "stated jid (Mute_Chat t) \<longleftrightarrow> t \<noteq> 0"
| "stated jid (Set_Contact name) \<longleftrightarrow> name \<noteq> '''' \<and> jid \<noteq> ''''"
| "stated jid (Set_Name name) \<longleftrightarrow> name \<noteq> ''''"
| "stated jid _ \<longleftrightarrow> True"

lemmas sync_unfold = chat_modification_to_app_patch_def modification_names_def modification_patch.simps set_patch_def range_action_def
  get_message_range_def process_sync_action_def received_patch_def decoded_mutation_def action_of_def index_of_def get_dict_def
  chat_events_def with_action_def at_index_def chat_update_def chat_condition_for_def chat_says_def py_or_def
  to_number_def archive_events_def or_dict_def delete_for_me_patch_def dict_item_def first_item_def message_key_of_def own_flag_def
  message_key_at_def message_says_def process_contact_action_def as_jid_def setting_events_def report_nested_def report_setting_def
  get_or_empty_def settings_event_def star_patch_def star_events_def name_events_def label_edit_patch_def label_edit_event_def
  label_patch_def association_event_def

lemma change_understood:
  assumes "stated jid c"
  shows "\<exists>p. chat_modification_to_app_patch now (as_modification c) jid = Inr p \<and>
    py_get ''operation'' p = PInt 1 \<and> process_sync_action (received_patch p) me None = Inr (meaning now jid me c)"
  using assms by (cases c) (simp_all add: sync_unfold Let_def)

text \<open>The patch as it is encrypted, with JSON values that are dynamic values.\<close>

definition create_of :: "pydict \<Rightarrow> pyval patch_create" where
  "create_of p = \<lparr>pc_index = py_get ''index'' p, pc_action = py_get ''syncAction'' p,
     pc_operation = (if py_get ''operation'' p = PInt 1 then OP_SET else OP_REMOVE),
     pc_api_version = to_number (py_get ''apiVersion'' p), pc_type = text_or_empty (py_get ''type'' p)\<rparr>"


text \<open>JSON values as numbers, for a library that keeps its promises.\<close>

instance pyval :: countable
  by countable_datatype

definition value_number :: "pyval \<times> pyval \<times> int \<Rightarrow> nat" where
  "value_number = to_nat"

definition value_lib :: "pyval sync_lib" where
  "value_lib = \<lparr>sy_hmac256 = (\<lambda>k d. d @ k), sy_hmac512 = (\<lambda>k d. take 64 (d @ k @ replicate 64 1)),
     sy_sha512 = demo_sha512, sy_encrypt = (\<lambda>key iv p. key @ p),
     sy_decrypt = (\<lambda>key iv c. Inr (drop (length key) c)), sy_dumps_index = (\<lambda>i. replicate (to_nat i) 1),
     sy_dumps = (\<lambda>v. replicate (value_number v) 0), sy_loads = (\<lambda>b. Inr (from_nat (length b)))\<rparr>"

lemma value_lib_ok: "lib_ok value_lib (replicate 16 0)"
  by (auto simp: lib_ok_def value_lib_def value_number_def)


text \<open>Not all that is sent is understood: these changes have no effect on any other device.\<close>

lemma clear_ignored:
  "\<exists>p. chat_modification_to_app_patch now [(''clear'', PBool True), (''lastMessages'', PList [])] jid = Inr p \<and>
    process_sync_action (received_patch p) me None = Inr []"
  by (simp add: sync_unfold Let_def)

lemma quick_reply_ignored:
  "\<exists>p. chat_modification_to_app_patch now [(''quickReply'', PDict [(''timestamp'', PStr t), (''shortcut'', PStr s), (''message'', PStr m)])] jid = Inr p \<and>
    process_sync_action (received_patch p) me None = Inr []"
  by (cases t) (simp_all add: sync_unfold quick_reply_patch_def Let_def)

lemma contact_removal_ignored:
  "\<exists>p. chat_modification_to_app_patch now [(''contact'', PNone)] jid = Inr p \<and> process_sync_action (received_patch p) me None = Inr []"
  by (simp add: sync_unfold Let_def)

end
