(* ===== verification/App_Sync.thy ===== *)
theory App_Sync
  imports Sync_Actions Chat_Actions Chat_Sync Account_Identity
begin

text \<open>
  Synchronising the app state: patches and snapshots as they come in stanzas
  (\<^verbatim>\<open>extract_syncd_patches\<close>, \<^verbatim>\<open>decode_patches\<close> and \<^verbatim>\<open>decode_syncd_snapshot\<close> of \<^verbatim>\<open>utils/chat_utils.py\<close>)
  and the loops of \<^verbatim>\<open>resync_app_state\<close> and \<^verbatim>\<open>app_patch\<close> of \<^verbatim>\<open>socket/chats.py\<close>. A set of collections is a
  list in the order it is iterated in; mutations are told apart by their index; the operation codes are 1 and 2, and
  every mutation of a patch has its record. The fields of a patch are read before its MACs are checked,
  so of two errors it may be the other one. What a key transaction of the store changed is lost when the body
  raises.
\<close>

section \<open>Reading patches\<close>

text \<open>\<open>json.loads\<close> with the hook that turns tagged dictionaries into bytes, inner ones first.\<close>

definition tagged_bytes :: "pydict \<Rightarrow> pyval result" where
  "tagged_bytes d =
     (if py_get ''__type__'' d = PStr ''bytes''
      then (case map_of d ''base64'' of
              None \<Rightarrow> Inl KeyError
            | Some (PStr s) \<Rightarrow> bindE (b64decode s) (\<lambda>b. Inr (PBytes b))
            | Some (PBytes b) \<Rightarrow> bindE (b64decode (map char_of_byte b)) (\<lambda>b. Inr (PBytes b))
            | Some _ \<Rightarrow> Inl TypeErr)
      else Inr (PDict d))"

fun revive :: "pyval \<Rightarrow> pyval result"
  and revive_list :: "pyval list \<Rightarrow> pyval list result"
  and revive_fields :: "pydict \<Rightarrow> pydict result" where
  "revive (PList l) = bindE (revive_list l) (\<lambda>l. Inr (PList l))"
| "revive (PDict d) = bindE (revive_fields d) tagged_bytes"
| "revive v = Inr v"
| "revive_list [] = Inr []"
| "revive_list (v # vs) = bindE (revive v) (\<lambda>x. bindE (revive_list vs) (\<lambda>xs. Inr (x # xs)))"
| "revive_fields [] = Inr []"
| "revive_fields ((k, v) # d) = bindE (revive v) (\<lambda>x. bindE (revive_fields d) (\<lambda>e. Inr ((k, x) # e)))"

definition json_dict :: "bytes \<Rightarrow> pydict option" where
  "json_dict b = (case bindE (bindE (utf8_decode b) json_loads) revive of Inr (PDict d) \<Rightarrow> Some d | _ \<Rightarrow> None)"

definition decode_json_blob :: "content \<Rightarrow> pydict option" where
  "decode_json_blob c = (case c of CBytes b \<Rightarrow> json_dict b | _ \<Rightarrow> None)"

text \<open>\<open>download\<close> fetches and decrypts an external blob.\<close>

record sync_item =
  si_patches :: "pydict list"
  si_more :: bool
  si_snapshot :: "pydict option"

definition external_keys :: "string list" where
  "external_keys = [''directPath'', ''direct_path'', ''mediaKey'']"

definition item_snapshot :: "(pyval \<Rightarrow> bytes result) \<Rightarrow> node option \<Rightarrow> pydict option" where
  "item_snapshot download n = (case n of None \<Rightarrow> None | Some s \<Rightarrow> (case decode_json_blob (node_content s) of
       Some p \<Rightarrow> if p \<noteq> [] \<and> list_ex (\<lambda>k. k \<in> dom (map_of p)) external_keys
         then (case download (PDict p) of Inl _ \<Rightarrow> None | Inr b \<Rightarrow> json_dict b) else Some p
     | None \<Rightarrow> None))"

fun item_patches :: "attrs \<Rightarrow> node list \<Rightarrow> pydict list result" where
  "item_patches a [] = Inr []"
| "item_patches a (n # ns) = (case decode_json_blob (node_content n) of
       None \<Rightarrow> item_patches a ns
     | Some d \<Rightarrow> bindE (if ''version'' \<in> dom (map_of d) then Inr d
         else bindE (attr_int a ''version'') (\<lambda>v. Inr (d @ [(''version'', PDict [(''version'', PInt (v + 1))])]))) (\<lambda>d.
         bindE (item_patches a ns) (\<lambda>ds. Inr (d # ds))))"

definition extract_item :: "(pyval \<Rightarrow> bytes result) \<Rightarrow> node \<Rightarrow> (string \<times> sync_item) result" where
  "extract_item download n =
     (let a = node_attrs n; parent = (case get_binary_node_child (Some n) ''patches'' of None \<Rightarrow> n | Some p \<Rightarrow> p) in
      bindE (item_patches a (get_binary_node_children (Some parent) ''patch'')) (\<lambda>ps.
        Inr (if attr_truthy (attr_get a ''name'') then attr_str (attr_get a ''name'') else '''',
          \<lparr>si_patches = ps, si_more = (attr_get a ''has_more_patches'' = AStr ''true''),
           si_snapshot = item_snapshot download (get_binary_node_child (Some n) ''snapshot'')\<rparr>)))"

fun extract_items :: "(pyval \<Rightarrow> bytes result) \<Rightarrow> node list \<Rightarrow> (string, sync_item) dict \<Rightarrow> (string, sync_item) dict result" where
  "extract_items download [] d = Inr d"
| "extract_items download (n # ns) d = bindE (extract_item download n) (\<lambda>(k, v). extract_items download ns (dict_set k v d))"

definition extract_syncd_patches :: "(pyval \<Rightarrow> bytes result) \<Rightarrow> node \<Rightarrow> (string, sync_item) dict result" where
  "extract_syncd_patches download result =
     extract_items download (get_binary_node_children (get_binary_node_child (Some result) ''sync'') ''collection'') []"

text \<open>From dictionaries to the records of theory \<open>App_State\<close>.\<close>

definition value_to_bytes :: "pyval \<Rightarrow> bytes result" where
  "value_to_bytes v = (case v of
       PBytes b \<Rightarrow> Inr b
     | PStr s \<Rightarrow> (case b64decode s of Inr b \<Rightarrow> Inr b | Inl _ \<Rightarrow> Inr (utf8_encode s))
     | _ \<Rightarrow> Inl TypeErr)"

definition bytes_at :: "string \<Rightarrow> pydict \<Rightarrow> bytes result" where
  "bytes_at k d = value_to_bytes (py_or (py_get k d) (PBytes []))"

definition bytes_in :: "string \<Rightarrow> string \<Rightarrow> pydict \<Rightarrow> bytes result" where
  "bytes_in k k' d = bindE (or_dict (py_get k d)) (bytes_at k')"

definition operation_code :: "pyval \<Rightarrow> int result" where
  "operation_code v = (case v of PInt i \<Rightarrow> Inr i | PBool b \<Rightarrow> Inr (of_bool b) | PStr s \<Rightarrow> py_int s | _ \<Rightarrow> Inl TypeErr)"

definition read_mutation :: "pyval \<Rightarrow> sync_record result" where
  "read_mutation v =
     bindE (get_dict v) (\<lambda>mutation.
     bindE (case map_of mutation ''operation'' of None \<Rightarrow> Inr 1 | Some x \<Rightarrow> operation_code x) (\<lambda>operation.
     bindE (get_dict (py_or (py_get ''record'' mutation) (PDict mutation))) (\<lambda>rec.
     bindE (bytes_in ''keyId'' ''id'' rec) (\<lambda>key_id.
     bindE (bytes_in ''value'' ''blob'' rec) (\<lambda>content.
     bindE (bytes_in ''index'' ''blob'' rec) (\<lambda>index.
       Inr \<lparr>sr_operation = (if operation = 2 then OP_REMOVE else OP_SET), sr_index_blob = index, sr_value_blob = content, sr_key_id = key_id\<rparr>))))))"

definition read_mutations :: "pyval \<Rightarrow> sync_record list result" where
  "read_mutations v = (case py_or v (PList []) of PList l \<Rightarrow> mapE read_mutation l | _ \<Rightarrow> Inl TypeErr)"

definition version_in :: "pydict \<Rightarrow> int result" where
  "version_in d = bindE (or_dict (py_get ''version'' d)) (\<lambda>v. Inr (to_number (py_get ''version'' v)))"

definition read_patch :: "pydict \<Rightarrow> sync_patch result" where
  "read_patch d =
     bindE (version_in d) (\<lambda>version. bindE (bytes_in ''keyId'' ''id'' d) (\<lambda>key_id.
     bindE (bytes_at ''snapshotMac'' d) (\<lambda>snapshot_mac. bindE (bytes_at ''patchMac'' d) (\<lambda>patch_mac.
     bindE (read_mutations (py_get ''mutations'' d)) (\<lambda>mutations.
       Inr \<lparr>sp_patch_mac = patch_mac, sp_snapshot_mac = snapshot_mac, sp_key_id = key_id, sp_version = version, sp_mutations = mutations\<rparr>)))))"

section \<open>Decoding with all MACs\<close>

record app_sync_config =
  ac_lib :: "pyval sync_lib"
  ac_keys :: key_fetch
  ac_check_snapshot :: bool
  ac_check_patch :: bool
  ac_download :: "pyval \<Rightarrow> bytes result"

definition check_snapshot_mac :: "app_sync_config \<Rightarrow> bytes \<Rightarrow> app_state \<Rightarrow> string \<Rightarrow> bytes \<Rightarrow> unit result" where
  "check_snapshot_mac c key_id st name mac =
     bindE (fetch_keys (ac_lib c) (ac_keys c) key_id) (\<lambda>keys.
     bindE (generate_snapshot_mac (sy_hmac256 (ac_lib c)) (as_hash st) (as_version st) name (snapshot_mac_key keys)) (\<lambda>computed.
       if computed \<noteq> mac then Inl (ValueError ''failed to verify LTHash'') else Inr ()))"

type_synonym mutation_map = "(pyval, pydict) dict"

definition keep_mutations :: "int option \<Rightarrow> int \<Rightarrow> (pyval \<times> pyval \<times> int) list \<Rightarrow> mutation_map \<Rightarrow> mutation_map" where
  "keep_mutations minimum version ds mm =
     (if minimum = None \<or> version > the minimum
      then fold (\<lambda>(i, a, v). dict_set i (decoded_mutation i a v)) ds mm else mm)"

definition external_mutations :: "(pyval \<Rightarrow> bytes result) \<Rightarrow> pydict \<Rightarrow> pydict result" where
  "external_mutations download d =
     (if \<not> truthy (py_get ''externalMutations'' d) then Inr d
      else bindE (download (py_get ''externalMutations'' d)) (\<lambda>b.
        let more = (case json_dict b of None \<Rightarrow> PList [] | Some e \<Rightarrow> py_or (py_get ''mutations'' e) (PList []));
            own = (case map_of d ''mutations'' of None \<Rightarrow> PList [] | Some v \<Rightarrow> v)
        in case (own, more) of
             (PList l, PList l') \<Rightarrow> Inr (dict_set ''mutations'' (PList (l @ l')) d)
           | (PList l, _) \<Rightarrow> Inl TypeErr
           | _ \<Rightarrow> Inl AttributeErr))"

fun decode_patches ::
    "app_sync_config \<Rightarrow> string \<Rightarrow> int option \<Rightarrow> pydict list \<Rightarrow> app_state \<Rightarrow> mutation_map \<Rightarrow> (app_state \<times> mutation_map) result" where
  "decode_patches c name minimum [] st mm = Inr (st, mm)"
| "decode_patches c name minimum (d # ds) st mm =
     bindE (external_mutations (ac_download c) d) (\<lambda>d.
     bindE (read_patch d) (\<lambda>p.
     let (muts, r) = decode_syncd_patch (ac_lib c) (ac_keys c) (ac_check_patch c) p name (as_hash st) (as_map st) in
     bindE r (\<lambda>(hash, m).
     let st = \<lparr>as_version = sp_version p, as_hash = hash, as_map = m\<rparr> in
     bindE (if ac_check_patch c then check_snapshot_mac c (sp_key_id p) st name (sp_snapshot_mac p) else Inr ()) (\<lambda>_.
       decode_patches c name minimum ds st (keep_mutations minimum (sp_version p) muts mm)))))"

definition decode_syncd_snapshot :: "app_sync_config \<Rightarrow> string \<Rightarrow> int option \<Rightarrow> pydict \<Rightarrow> (app_state \<times> mutation_map) result" where
  "decode_syncd_snapshot c name minimum snapshot =
     bindE (version_in snapshot) (\<lambda>version.
     bindE (read_mutations (py_get ''records'' snapshot)) (\<lambda>records.
     let (muts, r) = decode_syncd_mutations (ac_lib c) (ac_keys c) (ac_check_snapshot c) records (as_hash new_lthash_state) [] in
     bindE r (\<lambda>(hash, m).
     let st = \<lparr>as_version = version, as_hash = hash, as_map = m\<rparr> in
     bindE (if ac_check_snapshot c
            then bindE (bytes_in ''keyId'' ''id'' snapshot) (\<lambda>key_id.
                 bindE (bytes_at ''mac'' snapshot) (check_snapshot_mac c key_id st name)) else Inr ()) (\<lambda>_.
       Inr (st, keep_mutations minimum version muts [])))))"
section \<open>Resynchronising\<close>

text \<open>
  The stored versions, the versions known before (mutations up to them have had their effect), the
  mutations gathered, the collections still to handle and the failed attempts at each.
\<close>

record resync =
  ry_versions :: "(string, app_state) dict"
  ry_minimum :: "(string, int) dict"
  ry_mutations :: mutation_map
  ry_pending :: "string list"
  ry_attempts :: "string \<Rightarrow> nat"

definition MAX_SYNC_ATTEMPTS :: nat where
  "MAX_SYNC_ATTEMPTS = 2"

definition clone_state :: "app_state \<Rightarrow> app_state" where
  "clone_state st = (if as_hash st = [] then st\<lparr>as_hash := replicate 128 0\<rparr> else st)"

definition stored_state :: "(string, app_state) dict \<Rightarrow> string \<Rightarrow> app_state" where
  "stored_state versions name = clone_state (case map_of versions name of None \<Rightarrow> new_lthash_state | Some st \<Rightarrow> st)"

definition asked_states :: "resync \<Rightarrow> (string, app_state) dict" where
  "asked_states r = map (\<lambda>name. (name, stored_state (ry_versions r) name)) (ry_pending r)"

definition note_versions :: "resync \<Rightarrow> resync" where
  "note_versions r = r\<lparr>ry_minimum := fold (\<lambda>name m. case map_of (ry_versions r) name of
       Some st \<Rightarrow> if name \<in> dom (map_of m) then m else dict_set name (as_version st) m
     | None \<Rightarrow> m) (ry_pending r) (ry_minimum r)\<rparr>"

definition collection_node :: "string \<times> app_state \<Rightarrow> node" where
  "collection_node ns = (case ns of (name, st) \<Rightarrow> element ''collection''
     [(''name'', name), (''version'', int_str (as_version st)), (''return_snapshot'', if as_version st = 0 then ''true'' else ''false'')] CNone)"

definition sync_iq :: "(string, app_state) dict \<Rightarrow> node" where
  "sync_iq states = iq [(''to'', S_WHATSAPP_NET), (''xmlns'', ''w:sync:app:state''), (''type'', ''set'')]
     [element ''sync'' [] (CList (map collection_node states))]"

definition store_state :: "string \<Rightarrow> app_state \<Rightarrow> resync \<Rightarrow> resync" where
  "store_state name st r = r\<lparr>ry_versions := dict_set name st (ry_versions r)\<rparr>"

definition gather :: "mutation_map \<Rightarrow> resync \<Rightarrow> resync" where
  "gather mm r = r\<lparr>ry_mutations := dict_update (ry_mutations r) mm\<rparr>"

definition discard :: "string \<Rightarrow> resync \<Rightarrow> resync" where
  "discard name r = r\<lparr>ry_pending := filter (\<lambda>n. n \<noteq> name) (ry_pending r)\<rparr>"

text \<open>What is known of one collection; the state it was asked for is missing if it was not asked for.\<close>

definition take_snapshot :: "app_sync_config \<Rightarrow> string \<Rightarrow> sync_item \<Rightarrow> app_state option \<Rightarrow> resync \<Rightarrow> app_state option result \<times> resync" where
  "take_snapshot c name item asked r =
     (case si_snapshot item of
        Some (x # xs) \<Rightarrow> (case decode_syncd_snapshot c name (map_of (ry_minimum r) name) (x # xs) of
            Inl e \<Rightarrow> (Inl e, r)
          | Inr (st, mm) \<Rightarrow> (Inr (Some (clone_state st)), store_state name st (gather mm r)))
      | _ \<Rightarrow> (Inr asked, r))"

definition take_patches :: "app_sync_config \<Rightarrow> string \<Rightarrow> sync_item \<Rightarrow> app_state option \<Rightarrow> resync \<Rightarrow> unit result \<times> resync" where
  "take_patches c name item asked r =
     (if si_patches item = [] then (Inr (), r)
      else case asked of
        None \<Rightarrow> (Inl KeyError, r)
      | Some st \<Rightarrow> (case decode_patches c name (map_of (ry_minimum r) name) (si_patches item) st [] of
            Inl e \<Rightarrow> (Inl e, r)
          | Inr (st, mm) \<Rightarrow> (Inr (), gather mm ((store_state name st r)\<lparr>ry_minimum := dict_set name (as_version st) (ry_minimum r)\<rparr>))))"

definition failed_item :: "string \<Rightarrow> exn \<Rightarrow> resync \<Rightarrow> resync" where
  "failed_item name e r =
     (let attempts = ry_attempts r name + 1;
          r = r\<lparr>ry_attempts := (ry_attempts r)(name := attempts), ry_versions := dict_pop name (ry_versions r)\<rparr>
      in if attempts \<ge> MAX_SYNC_ATTEMPTS \<or> e = TypeErr then discard name r else r)"

definition handle_item :: "app_sync_config \<Rightarrow> (string, app_state) dict \<Rightarrow> string \<times> sync_item \<Rightarrow> resync \<Rightarrow> resync" where
  "handle_item c states ni r =
     (let (name, item) = ni in
      case take_snapshot c name item (map_of states name) r of
        (Inl e, r) \<Rightarrow> failed_item name e r
      | (Inr asked, r) \<Rightarrow> (case take_patches c name item asked r of
            (Inl e, r) \<Rightarrow> failed_item name e r
          | (Inr _, r) \<Rightarrow> if si_more item then r else discard name r))"

text \<open>Nothing bounds the loop; \<open>fuel\<close> is the number of rounds.\<close>

definition resync_round :: "app_sync_config \<Rightarrow> resync \<Rightarrow> resync action" where
  "resync_round c r =
     (let states = asked_states r; r = note_versions r in
      bindA (query_node (sync_iq states)) (\<lambda>result.
      bindA (compute (extract_syncd_patches (ac_download c) result)) (\<lambda>items.
        give (fold (handle_item c states) items r))))"

fun resync_loop :: "nat \<Rightarrow> app_sync_config \<Rightarrow> resync \<Rightarrow> resync action" where
  "resync_loop fuel c r =
     (if ry_pending r = [] then give r
      else case fuel of 0 \<Rightarrow> fail_with OutOfFuel | Suc fuel \<Rightarrow> bindA (resync_round c r) (resync_loop fuel c))"

declare resync_loop.simps [simp del]

definition start_resync :: "(string, app_state) dict \<Rightarrow> string list \<Rightarrow> resync" where
  "start_resync versions collections =
     \<lparr>ry_versions = versions, ry_minimum = [], ry_mutations = [], ry_pending = remdups collections, ry_attempts = (\<lambda>_. 0)\<rparr>"

text \<open>
  The mutations are applied once the transaction is over; one that raises ends it. A condition stands among the
  published events as the list of what it closes over.
\<close>

fun publish_sync :: "sync_event list \<Rightarrow> unit action" where
  "publish_sync [] = give ()"
| "publish_sync (Sync_Event k v # evs) = bindA (publish k v) (\<lambda>_. publish_sync evs)"
| "publish_sync (Chat_Update d c # evs) =
     bindA (publish ''chats.update'' (PList [PDict (d @ [(''conditional'', case c of None \<Rightarrow> PNone | Some (i, r) \<Rightarrow> PList [i, r])])])) (\<lambda>_. publish_sync evs)"

fun apply_mutations :: "pydict \<Rightarrow> pydict option \<Rightarrow> pydict list \<Rightarrow> unit action" where
  "apply_mutations me settings [] = give ()"
| "apply_mutations me settings (m # ms) =
     bindA (compute (process_sync_action m me settings)) (\<lambda>evs. bindA (publish_sync evs) (\<lambda>_. apply_mutations me settings ms))"

record sync_outcome =
  so_versions :: "(string, app_state) dict"
  so_error :: "exn option"

definition resync_app_state :: "nat \<Rightarrow> app_sync_config \<Rightarrow> pydict \<Rightarrow> pydict option \<Rightarrow> string list \<Rightarrow> (string, app_state) dict \<Rightarrow> sync_outcome action" where
  "resync_app_state fuel c me settings collections versions =
     bindA (resync_loop fuel c (start_resync versions collections)) (\<lambda>r.
     bindA (caught () (apply_mutations me settings (map snd (ry_mutations r)))) (\<lambda>(_, e).
       give \<lparr>so_versions = ry_versions r, so_error = e\<rparr>))"

section \<open>Sending a patch\<close>

text \<open>The patch as JSON, with bytes tagged.\<close>

fun tag_bytes :: "pyval \<Rightarrow> pyval"
  and tag_list :: "pyval list \<Rightarrow> pyval list"
  and tag_fields :: "pydict \<Rightarrow> pydict" where
  "tag_bytes (PBytes b) = PDict [(''__type__'', PStr ''bytes''), (''base64'', PStr (b64encode b))]"
| "tag_bytes (PList l) = PList (tag_list l)"
| "tag_bytes (PDict d) = PDict (tag_fields d)"
| "tag_bytes v = v"
| "tag_list [] = []"
| "tag_list (v # vs) = tag_bytes v # tag_list vs"
| "tag_fields [] = []"
| "tag_fields ((k, v) # d) = (k, tag_bytes v) # tag_fields d"

definition mutation_dict :: "sync_record \<Rightarrow> pyval" where
  "mutation_dict m = PDict [(''operation'', PInt (if sr_operation m = OP_SET then 1 else 2)),
     (''record'', PDict [(''index'', PDict [(''blob'', PBytes (sr_index_blob m))]), (''value'', PDict [(''blob'', PBytes (sr_value_blob m))]),
        (''keyId'', PDict [(''id'', PBytes (sr_key_id m))])])]"

definition patch_dict :: "sync_patch \<Rightarrow> pydict" where
  "patch_dict p = [(''patchMac'', PBytes (sp_patch_mac p)), (''snapshotMac'', PBytes (sp_snapshot_mac p)),
     (''keyId'', PDict [(''id'', PBytes (sp_key_id p))]), (''version'', PDict [(''version'', PInt (sp_version p))]),
     (''mutations'', PList (map mutation_dict (sp_mutations p)))]"

definition patch_content :: "sync_patch \<Rightarrow> bytes" where
  "patch_content p = utf8_encode (json_text '''' (tag_bytes (PDict (patch_dict p))))"

definition patch_iq :: "string \<Rightarrow> sync_patch \<Rightarrow> app_state \<Rightarrow> node" where
  "patch_iq name p st = iq [(''to'', S_WHATSAPP_NET), (''type'', ''set''), (''xmlns'', ''w:sync:app:state'')]
     [element ''sync'' [] (CList [element ''collection''
        [(''name'', name), (''version'', int_str (as_version st - 1)), (''return_snapshot'', ''false'')]
        (CList [element ''patch'' [] (CBytes (patch_content p))])])]"

text \<open>\<open>iv\<close> is the vector drawn for the cipher; with \<open>emit_own\<close> the own patch is decoded again and applied.\<close>

definition own_effects :: "app_sync_config \<Rightarrow> pydict \<Rightarrow> string \<Rightarrow> sync_patch \<Rightarrow> app_state \<Rightarrow> unit action" where
  "own_effects c me name patch initial =
     bindA (compute (decode_patches c name None [patch_dict patch] initial [])) (\<lambda>(st, mm). apply_mutations me None (map snd mm))"

definition app_patch ::
    "nat \<Rightarrow> app_sync_config \<Rightarrow> bool \<Rightarrow> bytes \<Rightarrow> pydict \<Rightarrow> bytes \<Rightarrow> pydict \<Rightarrow> (string, app_state) dict \<Rightarrow> sync_outcome action" where
  "app_patch fuel c emit_own iv me key_id create versions =
     (let pc = create_of create; name = pc_type pc in
      if name \<notin> set ALL_WA_PATCH_NAMES then fail_with (ValueError ''Invalid patch type'')
      else if key_id = [] then fail_with (RuntimeError ''App state key not present'')
      else bindA (resync_app_state fuel c me None [name] versions) (\<lambda>out.
        case so_error out of Some e \<Rightarrow> fail_with e
      | None \<Rightarrow>
        let initial = stored_state (so_versions out) name in
        bindA (compute (encode_syncd_patch (ac_lib c) iv pc key_id initial (ac_keys c))) (\<lambda>(patch, st).
        bindA (query_node (patch_iq name patch st)) (\<lambda>_.
        bindA (caught () (if emit_own then own_effects c me name patch initial else give ())) (\<lambda>(_, e).
          give \<lparr>so_versions = dict_set name st (so_versions out), so_error = e\<rparr>)))))"

section \<open>Patches survive the stanza\<close>

fun untagged :: "pyval \<Rightarrow> bool"
  and untagged_list :: "pyval list \<Rightarrow> bool"
  and untagged_fields :: "pydict \<Rightarrow> bool" where
  "untagged (PStr s) \<longleftrightarrow> ascii s"
| "untagged (PList l) \<longleftrightarrow> untagged_list l"
| "untagged (PDict d) \<longleftrightarrow> dict_wf d \<and> map_of d ''__type__'' = None \<and> untagged_fields d"
| "untagged v \<longleftrightarrow> True"
| "untagged_list [] \<longleftrightarrow> True"
| "untagged_list (v # vs) \<longleftrightarrow> untagged v \<and> untagged_list vs"
| "untagged_fields [] \<longleftrightarrow> True"
| "untagged_fields ((k, v) # d) \<longleftrightarrow> ascii k \<and> untagged v \<and> untagged_fields d"

lemma b64decode_encode: "b64decode (b64encode b) = Inr b"
  by (simp add: b64decode_def ascii_b64 b64_roundtrip)

lemma revive_tagged:
  "untagged v \<Longrightarrow> revive (tag_bytes v) = Inr v"
  "untagged_list l \<Longrightarrow> revive_list (tag_list l) = Inr l"
  "untagged_fields d \<Longrightarrow> revive_fields (tag_fields d) = Inr d"
  by (induction v and l and d rule: tag_bytes_tag_list_tag_fields.induct)
    (auto simp: tagged_bytes_def b64decode_encode py_get_def)

lemma tag_fields_keys: "map fst (tag_fields d) = map fst d"
  by (induction d) auto

lemma json_ok_tagged:
  "untagged v \<Longrightarrow> json_ok (tag_bytes v)"
  "untagged_list l \<Longrightarrow> list_all json_ok (tag_list l)"
  "untagged_fields d \<Longrightarrow> list_all (\<lambda>(k, v). json_ok v) (tag_fields d)"
  by (induction v and l and d rule: tag_bytes_tag_list_tag_fields.induct) (auto simp: dict_wf_def tag_fields_keys)

lemma plain_tagged:
  "untagged v \<Longrightarrow> plain_value (tag_bytes v)"
  "untagged_list l \<Longrightarrow> list_all plain_value (tag_list l)"
  "untagged_fields d \<Longrightarrow> list_all (\<lambda>(k, v). str_valid k \<and> plain_value v) (tag_fields d)"
  by (induction v and l and d rule: tag_bytes_tag_list_tag_fields.induct) (auto simp: ascii_valid ascii_b64 ascii_valid [OF ascii_b64] dict_wf_def tag_fields_keys, simp_all add: ascii_valid ascii_def)

lemma untagged_patch: "untagged (PDict (patch_dict p))"
proof -
  have m: "untagged (mutation_dict m)" for m by (simp add: mutation_dict_def dict_wf_def ascii_def)
  have "untagged_list (map mutation_dict ms)" for ms by (induction ms) (simp_all add: m)
  then show ?thesis by (simp add: patch_dict_def dict_wf_def ascii_def)
qed

lemma patch_content_read: "json_dict (patch_content p) = Some (patch_dict p)"
proof -
  have "blank ''''" by (simp add: blank_def)
  then have "json_loads (json_text '''' (tag_bytes (PDict (patch_dict p)))) = Inr (tag_bytes (PDict (patch_dict p)))"
    using json_roundtrip [OF json_ok_tagged(1) [OF untagged_patch]] by blast
  moreover have "revive (tag_bytes (PDict (patch_dict p))) = Inr (PDict (patch_dict p))"
    by (rule revive_tagged(1) [OF untagged_patch])
  ultimately show ?thesis
    unfolding json_dict_def patch_content_def
    by (simp add: utf8_decode_encode [OF str_valid_json_text [OF plain_tagged(1) [OF untagged_patch]]] del: tag_bytes.simps revive.simps)
qed

lemma read_mutation_dict: "read_mutation (mutation_dict m) = Inr m"
  by (cases "sr_operation m") (simp_all add: read_mutation_def mutation_dict_def get_dict_def operation_code_def py_or_def bytes_in_def or_dict_def bytes_at_def value_to_bytes_def)

lemma patch_read: "read_patch (patch_dict p) = Inr p"
proof -
  have "mapE read_mutation (map mutation_dict ms) = Inr ms" for ms
    by (induction ms) (simp_all add: read_mutation_dict)
  then have "read_mutations (PList (map mutation_dict ms)) = Inr ms" for ms
    by (simp add: read_mutations_def py_or_def)
  then show ?thesis
    by (simp add: read_patch_def patch_dict_def version_in_def or_dict_def bytes_in_def bytes_at_def value_to_bytes_def py_or_def to_number_def)
qed

section \<open>A device catches up\<close>

lemma encoded_patch_facts:
  assumes "encode_syncd_patch lib iv pc key_id state get_key = Inr (patch, state')"
  shows "sp_key_id patch = key_id \<and> sp_version patch = as_version state' \<and> as_version state' = as_version state + 1 \<and>
    (\<exists>keys. fetch_keys lib get_key key_id = Inr keys \<and>
      generate_snapshot_mac (sy_hmac256 lib) (as_hash state') (as_version state') (pc_type pc) (snapshot_mac_key keys) = Inr (sp_snapshot_mac patch))"
  using assms
  by (auto simp: encode_syncd_patch_def bindE_eq_Inr_iff Let_def split_beta split: if_splits)

text \<open>What a patch says; the patches that a sequence of changes makes, one after the other.\<close>

definition said :: "pydict \<Rightarrow> pyval \<times> pyval \<times> int" where
  "said p = (py_get ''index'' p, py_get ''syncAction'' p, to_number (py_get ''apiVersion'' p))"

fun write_changes :: "app_sync_config \<Rightarrow> bytes \<Rightarrow> (pydict \<times> bytes) list \<Rightarrow> app_state \<Rightarrow> (sync_patch list \<times> app_state) result" where
  "write_changes c k [] st = Inr ([], st)"
| "write_changes c k ((p, iv) # xs) st =
     bindE (encode_syncd_patch (ac_lib c) iv (create_of p) k st (ac_keys c)) (\<lambda>(patch, st).
     bindE (write_changes c k xs st) (\<lambda>(ps, st). Inr (patch # ps, st)))"

lemma decode_own_patch:
  assumes "lib_ok (ac_lib c) iv" and "ac_check_patch c" and "pc_operation (create_of p) = OP_SET" and "pc_type (create_of p) = name"
    and e: "encode_syncd_patch (ac_lib c) iv (create_of p) k st (ac_keys c) = Inr (patch, st')"
  shows "decode_patches c name minimum (patch_dict patch # ds) st mm =
    decode_patches c name minimum ds st' (keep_mutations minimum (as_version st') [said p] mm)"
proof -
  note d = encoded_patch_decodes [OF assms(1) e]
  note f = encoded_patch_facts [OF e]
  have "external_mutations (ac_download c) (patch_dict patch) = Inr (patch_dict patch)"
    by (simp add: external_mutations_def patch_dict_def)
  moreover have r: "\<lparr>as_version = as_version st + 1, as_hash = as_hash st', as_map = as_map st'\<rparr> = st'"
    using f by (cases st') auto
  ultimately show ?thesis
    using d f assms(2,3) unfolding assms(4)
    by (auto simp: patch_read check_snapshot_mac_def said_def create_of_def r)
qed

definition note_said :: "pyval \<times> pyval \<times> int \<Rightarrow> mutation_map \<Rightarrow> mutation_map" where
  "note_said s mm = (case s of (i, a, v) \<Rightarrow> dict_set i (decoded_mutation i a v) mm)"

lemma decode_written:
  assumes "\<And>p iv. (p, iv) \<in> set xs \<Longrightarrow> lib_ok (ac_lib c) iv \<and> pc_operation (create_of p) = OP_SET \<and> pc_type (create_of p) = name"
    and "ac_check_patch c" and "write_changes c k xs st = Inr (ps, st')" and "minimum = None \<or> the minimum \<le> as_version st"
  shows "decode_patches c name minimum (map patch_dict ps) st mm = Inr (st', fold note_said (map (said \<circ> fst) xs) mm)"
  using assms(1,3,4)
proof (induction xs arbitrary: st ps mm)
  case (Cons x xs)
  obtain p iv where x: "x = (p, iv)" by (cases x)
  obtain patch st1 ps' where e: "encode_syncd_patch (ac_lib c) iv (create_of p) k st (ac_keys c) = Inr (patch, st1)"
    and w: "write_changes c k xs st1 = Inr (ps', st')" and ps: "ps = patch # ps'"
    using Cons.prems(2) x by (auto simp: bindE_eq_Inr_iff)
  have v: "as_version st1 = as_version st + 1" using encoded_patch_facts [OF e] by blast
  have "lib_ok (ac_lib c) iv" "pc_operation (create_of p) = OP_SET" "pc_type (create_of p) = name"
    using Cons.prems(1) [of p iv] x by auto
  note d = decode_own_patch [OF this(1) assms(2) this(2,3) e]
  have k: "keep_mutations minimum (as_version st1) [said p] mm = note_said (said p) mm"
    using Cons.prems(3) v by (cases "said p") (auto simp: keep_mutations_def note_said_def)
  have "decode_patches c name minimum (map patch_dict ps') st1 m = Inr (st', fold note_said (map (said \<circ> fst) xs) m)" for m
    by (rule Cons.IH [OF _ w]) (use Cons.prems(1,3) v in auto)
  then show ?case unfolding ps list.map(2) d k by (simp add: x)
qed (use assms in simp)

definition sync_answer :: "string \<Rightarrow> sync_patch list \<Rightarrow> node" where
  "sync_answer name ps = Node ''iq'' [(''type'', AStr ''result'')] (CList [Node ''sync'' [] (CList
     [Node ''collection'' [(''name'', AStr name)] (CList [Node ''patches'' [] (CList
       (map (\<lambda>p. Node ''patch'' [] (CBytes (patch_content p))) ps))])])])"

lemma answer_extracted:
  assumes "name \<noteq> ''''"
  shows "extract_syncd_patches download (sync_answer name ps) =
    Inr [(name, \<lparr>si_patches = map patch_dict ps, si_more = False, si_snapshot = None\<rparr>)]"
proof -
  have v: "''version'' \<in> dom (map_of (patch_dict p))" for p by (simp add: patch_dict_def)
  have "item_patches a (map (\<lambda>p. Node ''patch'' [] (CBytes (patch_content p))) ps) = Inr (map patch_dict ps)" for a
    by (induction ps) (simp_all add: decode_json_blob_def patch_content_read v)
  moreover have "filter (\<lambda>n. node_tag n = ''patch'') (map (\<lambda>p. Node ''patch'' [] (CBytes (patch_content p))) ps) =
    map (\<lambda>p. Node ''patch'' [] (CBytes (patch_content p))) ps" by (induction ps) simp_all
  ultimately show ?thesis using assms
    by (simp add: extract_syncd_patches_def sync_answer_def child_defs extract_item_def attr_get_def item_snapshot_def Let_def)
qed

text \<open>What is published of the events of a mutation.\<close>

fun as_published :: "sync_event \<Rightarrow> string \<times> pyval" where
  "as_published (Sync_Event k v) = (k, v)"
| "as_published (Chat_Update d c) =
     (''chats.update'', PList [PDict (d @ [(''conditional'', case c of None \<Rightarrow> PNone | Some (i, r) \<Rightarrow> PList [i, r])])])"

lemma publish_sync_all: "publish_sync evs env st = (Inr (), st\<lparr>at_events := at_events st @ map as_published evs\<rparr>)"
  by (induction evs arbitrary: st rule: publish_sync.induct) (auto simp: give_def bindA_def publish_def)

lemma apply_mutations_all:
  assumes "list_all2 (\<lambda>m evs. process_sync_action m me settings = Inr evs) ms evss"
  shows "apply_mutations me settings ms env st = (Inr (), st\<lparr>at_events := at_events st @ map as_published (concat evss)\<rparr>)"
  using assms
proof (induction arbitrary: st rule: list_all2_induct)
  case (Cons m ms evs evss)
  then show ?case by (simp add: bindA_def compute_def publish_sync_all)
qed (simp add: give_def)

text \<open>Different indexes: each change keeps its place.\<close>

lemma dict_set_new: "k \<notin> fst ` set d \<Longrightarrow> dict_set k v d = d @ [(k, v)]"
  by (induction d) auto

lemma fold_note_said:
  assumes "distinct (map fst mm @ map fst ss)"
  shows "fold note_said ss mm = mm @ map (\<lambda>(i, a, v). (i, decoded_mutation i a v)) ss"
  using assms
proof (induction ss arbitrary: mm)
  case (Cons s ss)
  obtain i a v where s: "s = (i, a, v)" by (cases s)
  have "i \<notin> fst ` set mm" using Cons.prems s by auto
  then have "note_said s mm = mm @ [(i, decoded_mutation i a v)]" by (simp add: note_said_def s dict_set_new)
  then show ?case using Cons s by simp
qed simp

text \<open>Changes by a user, with the time and the vector drawn, and the patches they turn into.\<close>

type_synonym timed_change = "chat_change \<times> string \<times> int \<times> bytes"

fun made :: "string \<Rightarrow> app_sync_config \<Rightarrow> timed_change \<Rightarrow> pydict \<times> bytes \<Rightarrow> bool" where
  "made name c (ch, jid, now, iv) (p, iv') \<longleftrightarrow> chat_modification_to_app_patch now (as_modification ch) jid = Inr p \<and> iv' = iv \<and>
     stated jid ch \<and> lib_ok (ac_lib c) iv \<and> pc_type (create_of p) = name"

fun effect_of :: "pydict \<Rightarrow> timed_change \<Rightarrow> sync_event list" where
  "effect_of me (ch, jid, now, iv) = meaning now jid me ch"

lemma made_facts:
  assumes "made name c x (p, iv)"
  shows "lib_ok (ac_lib c) iv \<and> pc_operation (create_of p) = OP_SET \<and> pc_type (create_of p) = name \<and>
    process_sync_action (received_patch p) me None = Inr (effect_of me x)"
proof -
  obtain ch jid now iv' where x: "x = (ch, jid, now, iv')" by (cases x)
  then have "stated jid ch" using assms by simp
  from change_understood [OF this, of now me] show ?thesis using assms x by (auto simp: create_of_def)
qed

lemma sync_iq_asked:
  "\<exists>st' q. query_node (sync_iq states) env st = (ae_query env (at_sent st) q, st') \<and> at_events st' = at_events st"
  by (auto simp: query_node_def sync_iq_def element_def str_attrs_def bindA_def fresh_def ask_def)

lemma written_mutations:
  assumes "list_all2 (made name c) cs xs" and "distinct (map (\<lambda>(p, iv). py_get ''index'' p) xs)"
  defines "mm \<equiv> map (\<lambda>(p, iv). (py_get ''index'' p, received_patch p)) xs"
  shows "fold note_said (map (said \<circ> fst) xs) [] = mm" and "dict_wf mm"
    and "list_all2 (\<lambda>m evs. process_sync_action m me None = Inr evs) (map snd mm) (map (effect_of me) cs)"
proof -
  have i: "map fst (map (said \<circ> fst) xs) = map (\<lambda>(p, iv). py_get ''index'' p) xs" by (auto simp: said_def)
  have m: "map (\<lambda>(i, a, v). (i, decoded_mutation i a v)) (map (said \<circ> fst) xs) = mm" by (auto simp: mm_def said_def received_patch_def)
  have "distinct (map fst ([] :: mutation_map) @ map fst (map (said \<circ> fst) xs))" unfolding i using assms(2) by simp
  from fold_note_said [OF this] show "fold note_said (map (said \<circ> fst) xs) [] = mm" unfolding m by simp
  have "map fst mm = map (\<lambda>(p, iv). py_get ''index'' p) xs" by (auto simp: mm_def)
  then show "dict_wf mm" unfolding dict_wf_def using assms(2) by simp
  have "map snd mm = map (\<lambda>(p, iv). received_patch p) xs" by (auto simp: mm_def)
  moreover have "list_all2 (\<lambda>m evs. process_sync_action m me None = Inr evs) (map (\<lambda>(p, iv). received_patch p) xs) (map (effect_of me) cs)"
  proof -
    have "process_sync_action (received_patch (fst (xs ! i))) me None = Inr (effect_of me (cs ! i))" if "i < length cs" for i
    proof -
      have "made name c (cs ! i) (fst (xs ! i), snd (xs ! i))" using list_all2_nthD [OF assms(1) that] by simp
      from made_facts [OF this] show ?thesis by blast
    qed
    then show ?thesis using list_all2_lengthD [OF assms(1)] by (simp add: list_all2_conv_all_nth case_prod_unfold)
  qed
  ultimately show "list_all2 (\<lambda>m evs. process_sync_action m me None = Inr evs) (map snd mm) (map (effect_of me) cs)" by simp
qed

lemma caught_up_loop:
  assumes "list_all2 (made name c) cs xs" and "cs \<noteq> []" and "distinct (map (\<lambda>(p, iv). py_get ''index'' p) xs)"
    and "write_changes c k xs state = Inr (ps, state')" and "ac_check_patch c"
    and "map_of versions name = Some state" and "as_hash state \<noteq> []" and "name \<noteq> ''''"
    and "\<And>q. ae_query env (at_sent st) q = Inr (sync_answer name ps)"
  shows "\<exists>st1. resync_loop (Suc fuel) c (start_resync versions [name]) env st =
      (Inr \<lparr>ry_versions = dict_set name state' versions, ry_minimum = [(name, as_version state')],
         ry_mutations = map (\<lambda>(p, iv). (py_get ''index'' p, received_patch p)) xs, ry_pending = [], ry_attempts = (\<lambda>_. 0)\<rparr>, st1) \<and>
    at_events st1 = at_events st"
proof -
  let ?mm = "map (\<lambda>(p, iv). (py_get ''index'' p, received_patch p)) xs"
  note mm = written_mutations(1,2) [OF assms(1,3)]
  have "lib_ok (ac_lib c) iv \<and> pc_operation (create_of p) = OP_SET \<and> pc_type (create_of p) = name" if m: "(p, iv) \<in> set xs" for p iv
  proof -
    obtain i where i: "i < length xs" "xs ! i = (p, iv)" using m by (auto simp: in_set_conv_nth)
    have "made name c (cs ! i) (p, iv)" using list_all2_nthD2 [OF assms(1) i(1)] unfolding i(2) .
    from made_facts [OF this] show ?thesis by blast
  qed
  then have d: "decode_patches c name (Some (as_version state)) (map patch_dict ps) state [] = Inr (state', ?mm)"
    using decode_written [OF _ assms(5,4), of name "Some (as_version state)"] mm(1) by simp
  have "ps \<noteq> []" using assms(1,2,4) by (cases xs) (auto simp: bindE_eq_Inr_iff)
  let ?r = "\<lparr>ry_versions = dict_set name state' versions, ry_minimum = [(name, as_version state')], ry_mutations = ?mm, ry_pending = [],
    ry_attempts = (\<lambda>_. 0)\<rparr>"
  let ?start = "note_versions (start_resync versions [name])"
  have r0: "?start = \<lparr>ry_versions = versions, ry_minimum = [(name, as_version state)], ry_mutations = [], ry_pending = [name], ry_attempts = (\<lambda>_. 0)\<rparr>"
    using assms(6) by (simp add: note_versions_def start_resync_def)
  have pending: "ry_pending (start_resync versions [name]) = [name]" by (simp add: start_resync_def)
  have states: "asked_states (start_resync versions [name]) = [(name, state)]"
    using assms(6,7) by (simp add: asked_states_def start_resync_def stored_state_def clone_state_def)
  have h: "handle_item c [(name, state)] (name, \<lparr>si_patches = map patch_dict ps, si_more = False, si_snapshot = None\<rparr>) ?start = ?r"
    using d \<open>ps \<noteq> []\<close> mm(2)
    by (simp add: handle_item_def take_snapshot_def take_patches_def r0 gather_def store_state_def discard_def dict_update_Nil_wf)
  obtain st1 q where q: "query_node (sync_iq [(name, state)]) env st = (ae_query env (at_sent st) q, st1)" "at_events st1 = at_events st"
    using sync_iq_asked by blast
  have "resync_round c (start_resync versions [name]) env st = (Inr ?r, st1)"
    using q(1) assms(9) h
    by (simp add: resync_round_def states Let_def bindA_def compute_def give_def answer_extracted [OF assms(8)])
  then have "resync_loop (Suc fuel) c (start_resync versions [name]) env st = (Inr ?r, st1)"
    by (subst resync_loop.simps) (simp add: pending bindA_def resync_loop.simps [of fuel] give_def)
  then show ?thesis using q(2) by blast
qed


lemma write_changes_succeeds:
  assumes "\<And>p iv. (p, iv) \<in> set xs \<Longrightarrow> lib_ok (ac_lib c) iv \<and> pc_operation (create_of p) = OP_SET"
    and "ac_keys c k = Some keydata" and "k \<noteq> []" "length k < 255" and "0 \<le> as_version st" "as_version st + int (length xs) < 2 ^ 64"
  shows "\<exists>ps st'. write_changes c k xs st = Inr (ps, st') \<and> as_version st' = as_version st + int (length xs) \<and> length ps = length xs"
  using assms(1,5,6)
proof (induction xs arbitrary: st)
  case (Cons x xs)
  obtain p iv where x: "x = (p, iv)" by (cases x)
  then have ok: "lib_ok (ac_lib c) iv" "pc_operation (create_of p) = OP_SET" using Cons.prems(1) [of p iv] by auto
  obtain patch st1 where e: "encode_syncd_patch (ac_lib c) iv (create_of p) k st (ac_keys c) = Inr (patch, st1)"
    and v: "as_version st1 = as_version st + 1"
    using encode_syncd_patch_succeeds [where get_key = "ac_keys c" and pc = "create_of p", OF ok(1) assms(2-4), of st] ok(2) Cons.prems(2,3) by auto
  have "\<exists>ps st'. write_changes c k xs st1 = Inr (ps, st') \<and> as_version st' = as_version st1 + int (length xs) \<and> length ps = length xs"
    by (rule Cons.IH) (use Cons.prems v in auto)
  then show ?case using e v x by auto
qed simp

definition two_changes :: "timed_change list" where
  "two_changes = [(Pin_Chat True, ''x@g.us'', 17000, replicate 16 0), (Archive_Chat True, ''y@g.us'', 18000, replicate 16 0)]"

definition value_config :: app_sync_config where
  "value_config = \<lparr>ac_lib = value_lib, ac_keys = demo_keys, ac_check_snapshot = True, ac_check_patch = True, ac_download = (\<lambda>_. Inl ExternalError)\<rparr>"

definition sync_server :: "sync_patch list \<Rightarrow> action_env" where
  "sync_server ps = \<lparr>ae_id = (\<lambda>k. ''1''), ae_query = (\<lambda>ns n. Inr (sync_answer ''regular_low'' ps)), ae_send = (\<lambda>ns n. Inr ())\<rparr>"

lemma two_changes_written:
  "\<exists>xs ps state'. list_all2 (made ''regular_low'' value_config) two_changes xs \<and> distinct (map (\<lambda>(p, iv). py_get ''index'' p) xs) \<and>
     write_changes value_config [1] xs new_lthash_state = Inr (ps, state') \<and> length ps = 2"
proof -
  obtain p where p: "chat_modification_to_app_patch 17000 (as_modification (Pin_Chat True)) ''x@g.us'' = Inr p"
    "py_get ''operation'' p = PInt 1" "pc_type (create_of p) = ''regular_low''" "py_get ''index'' p = PList [PStr ''pin_v1'', PStr ''x@g.us'']"
    by (simp add: sync_unfold create_of_def text_or_empty_def)
  obtain q where q: "chat_modification_to_app_patch 18000 (as_modification (Archive_Chat True)) ''y@g.us'' = Inr q"
    "py_get ''operation'' q = PInt 1" "pc_type (create_of q) = ''regular_low''" "py_get ''index'' q = PList [PStr ''archive'', PStr ''y@g.us'']"
    by (simp add: sync_unfold create_of_def text_or_empty_def)
  let ?xs = "[(p, replicate 16 0), (q, replicate 16 0)] :: (pydict \<times> bytes) list"
  have made: "list_all2 (made ''regular_low'' value_config) two_changes ?xs"
    using p q value_lib_ok by (simp add: two_changes_def value_config_def)
  have "\<exists>ps st'. write_changes value_config [1] ?xs new_lthash_state = Inr (ps, st') \<and>
      as_version st' = as_version new_lthash_state + int (length ?xs) \<and> length ps = length ?xs"
    by (rule write_changes_succeeds [where keydata = "[5, 6]"])
      (use p q value_lib_ok in \<open>auto simp: value_config_def demo_keys_def new_lthash_state_def create_of_def\<close>)
  then obtain ps state' where w: "write_changes value_config [1] ?xs new_lthash_state = Inr (ps, state')" "length ps = 2" by auto
  moreover have "distinct (map (\<lambda>(p, iv). py_get ''index'' p) ?xs)" using p q by simp
  ultimately show ?thesis using made by blast
qed


section \<open>The stored hash\<close>

lemma decode_mutations_inv:
  "decode_mutations lib get_key v rs g = (ds, Inr g') \<Longrightarrow> generator_inv sha d0 g \<Longrightarrow> generator_inv sha d0 g' \<and> lg_hash g' = lg_hash g"
proof (induction rs arbitrary: g ds)
  case (Cons r rs)
  obtain d m g1 ds' where "decode_mutation lib get_key v r = Inr (d, m)" "mix m g = Inr g1" "decode_mutations lib get_key v rs g1 = (ds', Inr g')"
    using Cons.prems(1) by (auto split: sum.splits prod.splits)
  with mix_inv [OF Cons.prems(2)] Cons.IH show ?case by metis
qed simp

definition state_ok :: "app_sync_config \<Rightarrow> app_state \<Rightarrow> bool" where
  "state_ok c st \<longleftrightarrow> hash_matches (sy_sha512 (ac_lib c)) (as_hash st) (as_map st)"

lemma decoded_hash:
  assumes "decode_syncd_mutations (ac_lib c) get_key v rs h d = (ds, Inr (h', d'))" and "hash_matches (sy_sha512 (ac_lib c)) h d"
  shows "hash_matches (sy_sha512 (ac_lib c)) h' d'"
proof -
  obtain g where g: "decode_mutations (ac_lib c) get_key v rs (make_lt_hash_generator h d) = (ds, Inr g)" "finish (sy_sha512 (ac_lib c)) g = (h', d')"
    using assms(1) by (auto simp: decode_syncd_mutations_def bindE_eq_Inr_iff split: prod.splits)
  note m = make_generator_inv [OF assms(2)]
  from decode_mutations_inv [OF g(1) conjunct1 [OF m]] m have "generator_inv (sy_sha512 (ac_lib c)) d g" "lg_hash g = h" by simp_all
  from finish_matches [OF assms(2) this] g(2) show ?thesis by simp
qed

lemma decode_patches_ok: "decode_patches c name minimum ds st mm = Inr (st', mm') \<Longrightarrow> state_ok c st \<Longrightarrow> state_ok c st'"
proof (induction ds arbitrary: st mm)
  case (Cons d ds)
  obtain p muts h m where p: "decode_syncd_patch (ac_lib c) (ac_keys c) (ac_check_patch c) p name (as_hash st) (as_map st) = (muts, Inr (h, m))"
    and rest: "\<exists>mm. decode_patches c name minimum ds \<lparr>as_version = sp_version p, as_hash = h, as_map = m\<rparr> mm = Inr (st', mm')"
    using Cons.prems(1) by (auto simp: bindE_eq_Inr_iff Let_def split_beta prod_eq_iff)
  have "decode_syncd_mutations (ac_lib c) (ac_keys c) (ac_check_patch c) (sp_mutations p) (as_hash st) (as_map st) = (muts, Inr (h, m))"
    using p by (auto simp: decode_syncd_patch_def split: sum.splits if_splits)
  from decoded_hash [OF this] have "state_ok c \<lparr>as_version = sp_version p, as_hash = h, as_map = m\<rparr>"
    using Cons.prems(2) by (simp add: state_ok_def)
  with rest Cons.IH show ?case by blast
qed simp

lemma new_state_ok: "state_ok c new_lthash_state"
  by (simp add: state_ok_def new_lthash_state_def empty_matches)

lemma decode_snapshot_ok:
  assumes "decode_syncd_snapshot c name minimum s = Inr (st, mm)"
  shows "state_ok c st"
proof -
  obtain records muts version where
    "decode_syncd_mutations (ac_lib c) (ac_keys c) (ac_check_snapshot c) records (as_hash new_lthash_state) [] = (muts, Inr (as_hash st, as_map st))"
    using assms by (auto simp: decode_syncd_snapshot_def bindE_eq_Inr_iff Let_def split_beta prod_eq_iff)
  then show ?thesis using decoded_hash empty_matches by (force simp: state_ok_def new_lthash_state_def)
qed

definition stored_ok :: "app_sync_config \<Rightarrow> (string, app_state) dict \<Rightarrow> bool" where
  "stored_ok c versions \<longleftrightarrow> (\<forall>n st. map_of versions n = Some st \<longrightarrow> state_ok c st)"

lemma stored_ok_set: "stored_ok c versions \<Longrightarrow> state_ok c st \<Longrightarrow> stored_ok c (dict_set n st versions)"
  by (simp add: stored_ok_def)

lemma stored_ok_pop: "stored_ok c versions \<Longrightarrow> stored_ok c (dict_pop n versions)"
  by (simp add: stored_ok_def)

lemma clone_state_ok: "state_ok c st \<Longrightarrow> clone_state st = st"
  by (auto simp: clone_state_def state_ok_def hash_matches_def HASH_SIZE_def)

lemma handle_item_ok:
  assumes "stored_ok c (ry_versions r)" and "\<And>st. map_of states (fst ni) = Some st \<Longrightarrow> state_ok c st"
  shows "stored_ok c (ry_versions (handle_item c states ni r))"
proof -
  obtain name item where ni: "ni = (name, item)" by (cases ni)
  have fail: "stored_ok c (ry_versions (failed_item name e r))" if "stored_ok c (ry_versions r)" for e r
    using that by (simp add: failed_item_def Let_def discard_def stored_ok_pop)
  obtain a r1 where s: "take_snapshot c name item (map_of states name) r = (a, r1)" by (cases "take_snapshot c name item (map_of states name) r")
  have r1: "stored_ok c (ry_versions r1) \<and> (\<forall>st. a = Inr (Some st) \<longrightarrow> state_ok c st)"
    using s assms decode_snapshot_ok clone_state_ok ni
    by (fastforce simp: take_snapshot_def store_state_def gather_def stored_ok_set split: option.splits list.splits sum.splits prod.splits)
  show ?thesis
  proof (cases a)
    case (Inl e)
    then show ?thesis using s r1 fail by (simp add: handle_item_def ni)
  next
    case (Inr asked)
    obtain b r2 where p: "take_patches c name item asked r1 = (b, r2)" by (cases "take_patches c name item asked r1")
    have "stored_ok c (ry_versions r2)"
      using p r1 Inr decode_patches_ok
      by (fastforce simp: take_patches_def store_state_def gather_def stored_ok_set split: option.splits sum.splits prod.splits if_splits)
    then show ?thesis using s Inr p fail by (cases b) (simp_all add: handle_item_def ni discard_def)
  qed
qed

lemma fold_items_ok:
  assumes "stored_ok c (ry_versions r)" and "\<And>n st. map_of states n = Some st \<Longrightarrow> state_ok c st"
  shows "stored_ok c (ry_versions (fold (handle_item c states) items r))"
  using assms(1)
proof (induction items arbitrary: r)
  case (Cons ni items)
  then show ?case using handle_item_ok [OF Cons.prems, of states ni] assms(2) by simp
qed simp

lemma asked_ok:
  assumes "stored_ok c (ry_versions r)" and "map_of (asked_states r) n = Some st"
  shows "state_ok c st"
proof -
  have "st = stored_state (ry_versions r) n"
    using assms(2) by (simp add: asked_states_def map_of_map_restrict restrict_map_def split: if_splits)
  then show ?thesis
    using assms(1) new_state_ok [of c] clone_state_ok [of c] by (auto simp: stored_state_def stored_ok_def split: option.splits)
qed

lemma resync_round_ok:
  assumes "fst (resync_round c r env st) = Inr r'" and "stored_ok c (ry_versions r)"
  shows "stored_ok c (ry_versions r')"
proof -
  have n: "ry_versions (note_versions r) = ry_versions r" by (simp add: note_versions_def)
  obtain items where "r' = fold (handle_item c (asked_states r)) items (note_versions r)"
    using assms(1) by (auto simp: resync_round_def Let_def bindA_def compute_def give_def split: prod.splits sum.splits)
  then show ?thesis using fold_items_ok [of c "note_versions r" "asked_states r" items] asked_ok [OF assms(2)] assms(2) n by auto
qed

lemma resync_loop_ok:
  "fst (resync_loop fuel c r env st) = Inr r' \<Longrightarrow> stored_ok c (ry_versions r) \<Longrightarrow> stored_ok c (ry_versions r') \<and> ry_pending r' = []"
proof (induction fuel arbitrary: r st)
  case 0
  then show ?case by (subst (asm) resync_loop.simps) (auto simp: give_def fail_with_def split: if_splits)
next
  case (Suc fuel)
  show ?case
  proof (cases "ry_pending r = []")
    case True
    then show ?thesis using Suc.prems by (subst (asm) resync_loop.simps) (auto simp: give_def)
  next
    case False
    then obtain r1 st1 where r1: "resync_round c r env st = (Inr r1, st1)" "fst (resync_loop fuel c r1 env st1) = Inr r'"
      using Suc.prems(1) by (subst (asm) resync_loop.simps) (auto simp: bindA_def split: prod.splits sum.splits)
    then show ?thesis using Suc.IH [OF r1(2)] resync_round_ok [of c r env st r1] Suc.prems(2) by simp
  qed
qed

text \<open>
  C13. Whatever the server sends (patches, snapshots, in any order, with or without their MACs checked), the hash
  stored for a collection is the hash of the index map stored with it.
\<close>

theorem resync_keeps_hashes:
  assumes "stored_ok c versions" and "fst (resync_app_state fuel c me settings collections versions env st) = Inr out"
  shows "stored_ok c (so_versions out)"
proof -
  obtain r where "fst (resync_loop fuel c (start_resync versions collections) env st) = Inr r" "so_versions out = ry_versions r"
    using assms(2) by (auto simp: resync_app_state_def bindA_def caught_def give_def split: prod.splits sum.splits)
  then show ?thesis using resync_loop_ok [of fuel c "start_resync versions collections"] assms(1) by (simp add: start_resync_def)
qed

lemma loop_returns:
  assumes "resync_loop fuel c (start_resync versions collections) env st = (Inr r, st1)"
  shows "\<exists>out. fst (resync_app_state fuel c me settings collections versions env st) = Inr out"
proof -
  obtain a st2 where "apply_mutations me settings (map snd (ry_mutations r)) env st1 = (a, st2)" by fastforce
  then show ?thesis using assms by (cases a) (simp_all add: resync_app_state_def bindA_def caught_def give_def)
qed

theorem resync_keeps_hashes_witness:
  "\<forall>st. \<exists>ps out. length ps = 2 \<and> fst (resync_app_state (Suc 0) value_config [] None [''regular_low''] [(''regular_low'', new_lthash_state)] (sync_server ps) st) = Inr out \<and>
     stored_ok value_config (so_versions out)"
proof
  fix st
  obtain xs ps state' where w: "list_all2 (made ''regular_low'' value_config) two_changes xs" "distinct (map (\<lambda>(p, iv). py_get ''index'' p) xs)"
    "write_changes value_config [1] xs new_lthash_state = Inr (ps, state')" "length ps = 2"
    using two_changes_written by blast
  obtain r st1 where "resync_loop (Suc 0) value_config (start_resync [(''regular_low'', new_lthash_state)] [''regular_low'']) (sync_server ps) st = (Inr r, st1)"
    using caught_up_loop [OF w(1) _ w(2,3), of "[(''regular_low'', new_lthash_state)]" "sync_server ps" st 0]
    by (auto simp: two_changes_def value_config_def new_lthash_state_def sync_server_def)
  then have "\<exists>out. fst (resync_app_state (Suc 0) value_config [] None [''regular_low''] [(''regular_low'', new_lthash_state)] (sync_server ps) st) = Inr out"
    by (rule loop_returns)
  then obtain out where out: "fst (resync_app_state (Suc 0) value_config [] None [''regular_low''] [(''regular_low'', new_lthash_state)] (sync_server ps) st) = Inr out"
    by blast
  have "stored_ok value_config [(''regular_low'', new_lthash_state)]" by (simp add: stored_ok_def new_state_ok)
  from resync_keeps_hashes [OF this out] out w(4) show "\<exists>ps out. length ps = 2 \<and> fst (resync_app_state (Suc 0) value_config [] None [''regular_low''] [(''regular_low'', new_lthash_state)] (sync_server ps) st) = Inr out \<and>
     stored_ok value_config (so_versions out)" by blast
qed

section \<open>Rounds without end\<close>

lemma extracted_nothing: "extract_syncd_patches download (Node ''iq'' [] CNone) = Inr []"
  by (simp add: extract_syncd_patches_def child_defs)

lemma silent_round:
  assumes "\<And>ns n. ae_query env ns n = Inr (Node ''iq'' [] CNone)"
  shows "\<exists>st'. resync_round c r env st = (Inr (note_versions r), st')"
proof -
  obtain st' where "query_node (sync_iq (asked_states r)) env st = (Inr (Node ''iq'' [] CNone), st')"
    using sync_iq_asked [of "asked_states r" env st] assms by auto
  then show ?thesis by (simp add: resync_round_def Let_def bindA_def compute_def give_def extracted_nothing)
qed

theorem resync_endless:
  assumes "\<And>ns n. ae_query env ns n = Inr (Node ''iq'' [] CNone)" and "ry_pending r \<noteq> []"
  shows "fst (resync_loop fuel c r env st) = Inl OutOfFuel"
  using assms(2)
proof (induction fuel arbitrary: r st)
  case 0
  then show ?case by (subst resync_loop.simps) (simp add: fail_with_def)
next
  case (Suc fuel)
  obtain st' where "resync_round c r env st = (Inr (note_versions r), st')" using silent_round [OF assms(1)] by blast
  moreover have "ry_pending (note_versions r) \<noteq> []" using Suc.prems by (simp add: note_versions_def)
  ultimately show ?case using Suc by (subst resync_loop.simps) (simp add: bindA_def)
qed

section \<open>Two rounds are enough\<close>

text \<open>A server that gives all it has at once, whatever it gives.\<close>

definition answers_all :: "app_sync_config \<Rightarrow> string list \<Rightarrow> action_env \<Rightarrow> bool" where
  "answers_all c collections env \<longleftrightarrow>
     (\<forall>ns n. \<exists>res items. ae_query env ns n = Inr res \<and> extract_syncd_patches (ac_download c) res = Inr items \<and>
        set collections \<subseteq> fst ` set items \<and> (\<forall>(name, i) \<in> set items. \<not> si_more i))"

lemma take_snapshot_pending:
  "take_snapshot c name item asked r = (a, r') \<Longrightarrow> ry_pending r' = ry_pending r \<and> ry_attempts r' = ry_attempts r"
  by (auto simp: take_snapshot_def store_state_def gather_def split: option.splits list.splits sum.splits prod.splits)

lemma take_patches_pending:
  "take_patches c name item asked r = (a, r') \<Longrightarrow> ry_pending r' = ry_pending r \<and> ry_attempts r' = ry_attempts r"
  by (auto simp: take_patches_def store_state_def gather_def split: option.splits if_splits sum.splits prod.splits)

lemma failed_item_pending:
  "m \<in> set (ry_pending (failed_item name e r)) \<Longrightarrow> m \<in> set (ry_pending r) \<and>
     ry_attempts (failed_item name e r) m = ry_attempts r m + of_bool (m = name) \<and> (m = name \<longrightarrow> ry_attempts (failed_item name e r) m < 2)"
  by (auto simp: failed_item_def Let_def discard_def MAX_SYNC_ATTEMPTS_def split: if_splits)

lemma handle_item_pending:
  assumes "\<not> si_more item" and "m \<in> set (ry_pending (handle_item c states (name, item) r))"
  shows "m \<in> set (ry_pending r) \<and> ry_attempts (handle_item c states (name, item) r) m = ry_attempts r m + of_bool (m = name) \<and>
    (m = name \<longrightarrow> ry_attempts (handle_item c states (name, item) r) m < 2)"
proof -
  obtain a r1 where s: "take_snapshot c name item (map_of states name) r = (a, r1)" by fastforce
  note p1 = take_snapshot_pending [OF s]
  show ?thesis
  proof (cases a)
    case (Inl e)
    then have "handle_item c states (name, item) r = failed_item name e r1" by (simp add: handle_item_def s)
    then show ?thesis using failed_item_pending [of m name e r1] assms(2) p1 by simp
  next
    case (Inr asked)
    obtain b r2 where p: "take_patches c name item asked r1 = (b, r2)" by fastforce
    note p2 = take_patches_pending [OF p]
    show ?thesis
    proof (cases b)
      case (Inl e)
      then have "handle_item c states (name, item) r = failed_item name e r2" by (simp add: handle_item_def s p Inr)
      then show ?thesis using failed_item_pending [of m name e r2] assms(2) p1 p2 by simp
    next
      case (Inr u)
      with \<open>a = Inr asked\<close> have "handle_item c states (name, item) r = discard name r2" using assms(1) by (simp add: handle_item_def s p)
      then show ?thesis using assms(2) p1 p2 by (auto simp: discard_def)
    qed
  qed
qed

lemma fold_items_pending:
  assumes "\<forall>(name, i) \<in> set items. \<not> si_more i" and "m \<in> set (ry_pending (fold (handle_item c states) items r))"
  shows "m \<in> set (ry_pending r) \<and> ry_attempts (fold (handle_item c states) items r) m \<ge> ry_attempts r m + of_bool (m \<in> fst ` set items) \<and>
    (m \<in> fst ` set items \<longrightarrow> ry_attempts (fold (handle_item c states) items r) m < 2)"
  using assms
proof (induction items rule: rev_induct)
  case (snoc ni items)
  obtain name item where ni: "ni = (name, item)" by (cases ni)
  have "\<not> si_more item" using snoc.prems(1) ni by auto
  from handle_item_pending [OF this, of m c states name "fold (handle_item c states) items r"] snoc ni
  show ?case by (auto simp: of_bool_def)
qed simp

lemma round_pending:
  assumes "answers_all c collections env" and "set (ry_pending r) \<subseteq> set collections"
  shows "\<exists>r' st'. resync_round c r env st = (Inr r', st') \<and> set (ry_pending r') \<subseteq> set (ry_pending r) \<and>
    (\<forall>m \<in> set (ry_pending r'). ry_attempts r m < ry_attempts r' m \<and> ry_attempts r' m < 2)"
proof -
  obtain st1 q where q: "query_node (sync_iq (asked_states r)) env st = (ae_query env (at_sent st) q, st1)" using sync_iq_asked by blast
  obtain res items where res: "ae_query env (at_sent st) q = Inr res" "extract_syncd_patches (ac_download c) res = Inr items"
    "set collections \<subseteq> fst ` set items" "\<forall>(name, i) \<in> set items. \<not> si_more i"
    using assms(1) unfolding answers_all_def by blast
  let ?r = "fold (handle_item c (asked_states r)) items (note_versions r)"
  have "resync_round c r env st = (Inr ?r, st1)" using q res by (simp add: resync_round_def Let_def bindA_def compute_def give_def)
  moreover have n: "ry_pending (note_versions r) = ry_pending r" "ry_attempts (note_versions r) = ry_attempts r" by (simp_all add: note_versions_def)
  moreover have "m \<in> set (ry_pending r) \<and> ry_attempts r m < ry_attempts ?r m \<and> ry_attempts ?r m < 2" if m: "m \<in> set (ry_pending ?r)" for m
  proof -
    note f = fold_items_pending [OF res(4) m]
    then have "m \<in> fst ` set items" using assms(2) res(3) n by auto
    with f n show ?thesis by auto
  qed
  ultimately show ?thesis by blast
qed

lemma resync_loop_ends:
  assumes "answers_all c collections env" and "set (ry_pending r) \<subseteq> set collections" and "2 \<le> fuel"
  shows "\<exists>r' st'. resync_loop fuel c r env st = (Inr r', st')"
proof -
  obtain n where n: "fuel = Suc (Suc n)" using assms(3) by (cases fuel; cases "fuel - 1") auto
  have done_now: "resync_loop k c r env st = (Inr r, st)" if "ry_pending r = []" for k r st
    using that by (subst resync_loop.simps) (simp add: give_def)
  obtain r1 st1 where r1: "resync_round c r env st = (Inr r1, st1)" "set (ry_pending r1) \<subseteq> set (ry_pending r)"
    "\<forall>m \<in> set (ry_pending r1). 0 < ry_attempts r1 m"
    using round_pending [OF assms(1,2), of st] by force
  obtain r2 st2 where r2: "resync_round c r1 env st1 = (Inr r2, st2)" "set (ry_pending r2) \<subseteq> set (ry_pending r1)"
    "\<forall>m \<in> set (ry_pending r2). ry_attempts r1 m < ry_attempts r2 m \<and> ry_attempts r2 m < 2"
    using round_pending [OF assms(1), of r1 st1] r1(2) assms(2) by blast
  have "ry_pending r2 = []"
  proof (rule ccontr)
    assume "ry_pending r2 \<noteq> []"
    then have "hd (ry_pending r2) \<in> set (ry_pending r2)" by simp
    moreover from this have "hd (ry_pending r2) \<in> set (ry_pending r1)" using r2(2) by blast
    ultimately show False using r1(3) r2(3) by fastforce
  qed
  note two = done_now [OF this, of n st2]
  have "\<exists>r' st'. resync_loop (Suc n) c r1 env st1 = (Inr r', st')"
    by (subst resync_loop.simps) (simp add: give_def bindA_def r2(1) two)
  then show ?thesis unfolding n
    by (subst resync_loop.simps) (auto simp: give_def bindA_def r1(1))
qed

text \<open>
  C12. Against a server that answers each query for all the collections at once, resynchronising ends after two
  rounds at most, whatever the server sends and however many items it has to throw away.
\<close>

theorem resync_ends:
  assumes "answers_all c collections env" and "2 \<le> fuel"
  shows "\<exists>out. fst (resync_app_state fuel c me settings collections versions env st) = Inr out"
proof -
  have "set (ry_pending (start_resync versions collections)) \<subseteq> set collections" by (simp add: start_resync_def)
  from resync_loop_ends [OF assms(1) this assms(2)] loop_returns show ?thesis by metis
qed

theorem resync_ends_witness:
  "\<forall>st. \<exists>out. fst (resync_app_state 2 value_config [] None [''regular_low''] [] (sync_server []) st) = Inr out"
  by (intro allI resync_ends) (simp_all add: answers_all_def sync_server_def answer_extracted)

end
