(* ===== verification/Spec2Isabelle.thy ===== *)
theory Spec2Isabelle
  imports Wa_Wire Noise_Frames Group_Session Transaction Lid_Mapping App_State Keyed_Mutex Retry_Manager Identity Event_Flow Buffer_Timers Event_Bus Usync Pairwise_Session Message_Relay Receipts Node_Dispatch Group_Change Login Socket_Actions App_Sync
begin

text \<open>
  A model of \<^verbatim>\<open>wassupweb\<close>, a WhatsApp Web client in Python, and its correctness. All paths are
  below \<^verbatim>\<open>src/wassupweb/\<close>.

  \<^bold>\<open>The program.\<close> A client keeps one web socket to the server. Bytes on the socket are frames
  sealed with the keys of a Noise handshake; a frame holds one stanza, a tree of tags, attributes
  and content in a binary encoding with token tables. Messages inside stanzas are encrypted again,
  per device (sessions) or per group (sender keys), with keys that live in a key store. Users are
  named by phone number or by LID, and a mapping between the two decides under which address a
  session is found. What the client learns is merged into events, buffered and handed to
  listeners. Chat settings are synchronised as encrypted patches whose hash must add up.

  \<^bold>\<open>How the theories follow it.\<close> Each theory keeps the names of the functions it models.

  \<^item> \<open>Prelude\<close>: exceptions as the left side of \<open>result\<close>, the string, bytes and dictionary operations
    of Python that the code uses. \<open>Py_Value\<close>: dynamically typed values and the handling of a
    listener or a loop body that raises.
  \<^item> \<open>Jid\<close> (\<^verbatim>\<open>wabinary/jid_utils.py\<close>), \<open>Binary_Node\<close> (\<^verbatim>\<open>generic_utils.py\<close>), \<open>Token_Tables\<close>
    (\<^verbatim>\<open>constants.py\<close>), \<open>Wa_Encode\<close>, \<open>Wa_Decode\<close>: the wire format. \<open>Wa_Codec\<close> states as a locale
    what the codec needs of its tables and proves the round trip from it; \<open>Wa_Wire\<close> discharges the
    locale for the program's own tables. Strings are held as their UTF-8 encodings.
  \<^item> \<open>Noise\<close>, \<open>Noise_Frames\<close> (\<^verbatim>\<open>utils/noise_handler.py\<close>): the handshake against a specification
    of both ends, and what arrives of a sequence of stanzas cut into arbitrary chunks.
  \<^item> \<open>Sender_Key\<close>, \<open>Group_Message\<close>, \<open>Signal_Address\<close>, \<open>Group_Ratchet\<close>, \<open>Group_Cipher\<close>,
    \<open>Group_Session\<close> (\<^verbatim>\<open>signal/group/\<close>, \<^verbatim>\<open>signal/libsignal.py\<close>): the group cipher. The
    ratchet implements the chain of hashes it stands for; a recipient decrypts what a sender
    encrypted, in any order within the window.
  \<^item> \<open>Pairwise_Session\<close> (\<^verbatim>\<open>signal/libsignal.py\<close>): the sessions between two devices. \<open>Pre_Keys\<close>
    (\<^verbatim>\<open>utils/signal.py\<close>): the one-time keys and their upload.
  \<^item> \<open>Device_Fanout\<close>, \<open>Message_Relay\<close> (\<^verbatim>\<open>socket/messages_send.py\<close>): which devices a message goes
    to and the stanza that carries it. \<open>Json\<close>, \<open>Generics\<close> (\<^verbatim>\<open>utils/generics.py\<close>): its payload.
  \<^item> \<open>Incoming_Message\<close> (\<^verbatim>\<open>utils/decode_wa_message.py\<close>): the way back, against the relay.
    \<open>Process_Message\<close>, \<open>History\<close>, \<open>Message_Effects\<close> (\<^verbatim>\<open>utils/process_message.py\<close>,
    \<^verbatim>\<open>utils/history.py\<close>): what a message changes and which events it causes.
  \<^item> \<open>Recv_State\<close>, \<open>Message_Receive\<close>, \<open>Receipts\<close>, \<open>Node_Dispatch\<close>
    (\<^verbatim>\<open>socket/messages_recv.py\<close>), \<open>Chat_Sync\<close> (\<^verbatim>\<open>socket/chats.py\<close>): the state of a receiving
    socket, its handlers of stanzas with what they answer, the queue of stanzas of the time
    offline, and the phases of the first synchronisation.
  \<^item> \<open>Group_Notification\<close>, \<open>Identity_Change\<close> (\<^verbatim>\<open>utils/identity_change_handler.py\<close>),
    \<open>Notifications\<close>: the handlers of the server's notifications; \<open>Group_Change\<close> follows a change of
    a group's participants from the stanza to the events of listeners.
  \<^item> \<open>Query_Loop\<close>, \<open>Core_Socket\<close>, \<open>Login\<close> (\<^verbatim>\<open>socket/client.py\<close>, \<^verbatim>\<open>socket/socket.py\<close>): the queries of any
    number of tasks and the loop that answers them, the handlers of the connection from the QR code
    to its end, and the handshake as the client runs it over frames.
  \<^item> \<open>Actions\<close>: what the operations a caller may ask of the socket are made of, and rules that prove
    of such an operation that the wire can carry all it sends. \<open>Group_Actions\<close> (\<^verbatim>\<open>socket/groups.py\<close>),
    \<open>Newsletter_Actions\<close> (\<^verbatim>\<open>socket/newsletter.py\<close>, \<^verbatim>\<open>socket/mex.py\<close>), \<open>Community_Actions\<close>
    (\<^verbatim>\<open>socket/communities.py\<close>), \<open>Business_Actions\<close> (\<^verbatim>\<open>socket/business.py\<close>, \<^verbatim>\<open>utils/business.py\<close>),
    \<open>Chat_Actions\<close> (\<^verbatim>\<open>socket/chats.py\<close>) have the operations; \<open>Socket_Actions\<close> runs any sequence of them.
  \<^item> \<open>Pairing\<close> (\<^verbatim>\<open>socket/socket.py\<close>, \<^verbatim>\<open>socket/messages_recv.py\<close>), \<open>Account_Identity\<close>
    (\<^verbatim>\<open>utils/validate_connection.py\<close>): linking with a code against a phone that follows the
    protocol, and what makes the account's word trusted.
  \<^item> \<open>Key_Store\<close> (\<^verbatim>\<open>utils/auth_utils.py\<close>, \<^verbatim>\<open>utils/use_multi_file_auth_state.py\<close>),
    \<open>Transaction\<close> (also \<^verbatim>\<open>utils/pre_key_manager.py\<close>): the locale \<open>signal_key_store\<close> is what every
    client of a store relies on; it is discharged for the in-memory store and for the cache over any
    store. Transactions refine the bare store.
  \<^item> \<open>Lid_Mapping\<close> (\<^verbatim>\<open>signal/lid_mapping.py\<close>), \<open>Identity\<close> (\<^verbatim>\<open>utils/identity.py\<close>): the two
    ways of relating numbers and LIDs. \<open>Usync\<close> (\<^verbatim>\<open>wausync/\<close>): the queries that ask the server.
  \<^item> \<open>Crypto\<close> (\<^verbatim>\<open>utils/crypto.py\<close>), \<open>Lt_Hash\<close> (\<^verbatim>\<open>utils/lt_hash.py\<close>), \<open>App_State\<close>
    (\<^verbatim>\<open>utils/chat_utils.py\<close>): patches and the hash that stays the hash of the map they describe.
    \<open>Sync_Actions\<close> (also \<^verbatim>\<open>utils/sync_action_utils.py\<close>): changes of chat settings as patches, and the
    events that patches cause. \<open>App_Sync\<close> (also \<^verbatim>\<open>socket/chats.py\<close>): patches and snapshots in stanzas,
    \<^verbatim>\<open>resync_app_state\<close> and \<^verbatim>\<open>app_patch\<close>; a device that was away catches up with the last writer.
  \<^item> \<open>Event_Buffer\<close>, \<open>Event_Flow\<close>, \<open>Buffer_Timers\<close> (\<^verbatim>\<open>utils/event_buffer.py\<close>),
    \<open>Event_Bus\<close> (\<^verbatim>\<open>utils/event_bus.py\<close>), \<open>Message_Content\<close> (\<^verbatim>\<open>utils/messages.py\<close>,
    \<^verbatim>\<open>utils/process_message.py\<close>): events, what reaches a listener and when.
  \<^item> \<open>Keyed_Mutex\<close> (\<^verbatim>\<open>utils/make_mutex.py\<close>), \<open>Ttl_Cache\<close>, \<open>Retry_Manager\<close>
    (\<^verbatim>\<open>utils/message_retry_manager.py\<close>): mutual exclusion as a step relation of any number of tasks,
    the bounded cache and the counting of retries.

  \<^bold>\<open>Conventions.\<close> A function that may raise returns \<open>error + 'a\<close>, with one constructor per exception
  of the source; state is passed explicitly, and an operation that raises after a change returns
  the changed state with the error. Where the source awaits, a step relation (mutex, timers) or a
  split of the operation at the await (the cache's \<open>get\<close>) lets others run in between; elsewhere an
  operation is one step, which is what the keyed mutex and the transactions give. Clocks, random
  bytes and the network's answers are arguments or parts of the state.

  \<^bold>\<open>What is a parameter.\<close> The primitives of the packages the source imports (hashes, HMAC, HKDF's
  hash, AES, Curve25519 and Ed25519, zlib, protobuf classes) are arguments of the definitions that
  use them. A theorem that needs one to behave (decryption undoes encryption, a signature verifies,
  a tag is 16 bytes) says so in a named hypothesis, and its witness instantiates it.

  \<^bold>\<open>Bounds and fuel.\<close> Integers of Python are \<open>int\<close>; counters that the source packs into bytes are
  checked or wrapped where it packs them, the LT-hash works on 16-bit words. The stanza decoder
  has one more than the number of unread bytes as fuel; every call shortens the input, so it is never used up
  (\<open>decode_decompressed_total\<close>). The ratchet's loop is bounded by the number of steps it is asked for.
  The loop over the collections of the app state takes fuel: two rounds are enough for a server that answers for
  all of them (\<open>resync_ends\<close>), and no number is for one that leaves one out (\<open>resync_endless\<close>).

  \<^bold>\<open>Findings.\<close> Lemmas named after a defect (\<open>read_mark_lost\<close>, \<open>delete_misses_lid_session\<close>,
  \<open>public_bundle_decrypts\<close> and others) state what the code does where that is not what it means
  to do; each is proved of the same definitions as the positive properties.

  \<^bold>\<open>Not modelled.\<close> The making of sockets and the hooks of plugins (\<^verbatim>\<open>socket/factory.py\<close>); the
  construction and upload of messages and media; the analytics encoder, whose table of 16000 lines is generated; generated
  protobuf code; the declarations of data models, which appear as records where an operation uses
  them.
\<close>

end
